(* ===== verification/Arca_Prelude.thy ===== *)
theory Arca_Prelude
  imports Main "HOL-Library.Sublist"
begin

text \<open>
  The prelude of the development: the part of Go's \<^verbatim>\<open>strings\<close> package that the SDK calls, on byte
  strings (\<^typ>\<open>char list\<close>), the generic list and map lemmas the component theories share, and the
  development's theorem collections.

  Go strings are byte sequences.  White space and letter case are treated on ASCII: a byte above
  127 is neither white space nor a letter, which is what Go does for every text the platform's wire
  format defines (identifiers, decimal numbers, enumeration values).
\<close>

named_theorems go_strings \<open>unfolding rules for the modelled string operations\<close>
named_theorems arca_defs \<open>definitions that component proofs unfold together\<close>
named_theorems arca_inv \<open>invariant preservation, one rule per operation\<close>

type_synonym gostring = string

section \<open>Characters\<close>

definition ascii :: "char \<Rightarrow> nat" where
  "ascii c = of_char c"

definition is_space :: "char \<Rightarrow> bool" where
  "is_space c \<longleftrightarrow> ascii c = 32 \<or> (9 \<le> ascii c \<and> ascii c \<le> 13)"

definition is_digit :: "char \<Rightarrow> bool" where
  "is_digit c \<longleftrightarrow> 48 \<le> ascii c \<and> ascii c \<le> 57"

definition digit_val :: "char \<Rightarrow> nat" where
  "digit_val c = ascii c - 48"

definition digit_char :: "nat \<Rightarrow> char" where
  "digit_char d = char_of (d + 48)"

definition upper_char :: "char \<Rightarrow> char" where
  "upper_char c = (if 97 \<le> ascii c \<and> ascii c \<le> 122 then char_of (ascii c - 32) else c)"

definition lower_char :: "char \<Rightarrow> char" where
  "lower_char c = (if 65 \<le> ascii c \<and> ascii c \<le> 90 then char_of (ascii c + 32) else c)"

text \<open>The character classes by their bits, for evaluation.\<close>

lemma ascii_Char:
  "ascii (Char b0 b1 b2 b3 b4 b5 b6 b7) =
     of_bool b0 + 2 * (of_bool b1 + 2 * (of_bool b2 + 2 * (of_bool b3 + 2 * (of_bool b4
       + 2 * (of_bool b5 + 2 * (of_bool b6 + 2 * of_bool b7))))))"
  by (simp add: ascii_def)

lemma is_digit_code [code]:
  "is_digit (Char b0 b1 b2 b3 b4 b5 b6 b7) \<longleftrightarrow> b4 \<and> b5 \<and> \<not> b6 \<and> \<not> b7 \<and> \<not> (b3 \<and> (b1 \<or> b2))"
  by (cases b0; cases b1; cases b2; cases b3; cases b4; cases b5; cases b6; cases b7)
    (simp_all add: is_digit_def ascii_Char)

lemma upper_char_code [code]:
  "upper_char (Char b0 b1 b2 b3 b4 b5 b6 b7) =
     Char b0 b1 b2 b3 b4
       (b5 \<and> \<not> (b6 \<and> \<not> b7 \<and> (b0 \<or> b1 \<or> b2 \<or> b3 \<or> b4) \<and> \<not> (b4 \<and> b3 \<and> (b2 \<or> b1 \<and> b0)))) b6 b7"
  by (cases b0; cases b1; cases b2; cases b3; cases b4; cases b5; cases b6; cases b7)
    (simp_all add: upper_char_def ascii_Char char_of_def bit_0)

lemma lower_char_code [code]:
  "lower_char (Char b0 b1 b2 b3 b4 b5 b6 b7) =
     Char b0 b1 b2 b3 b4
       (b5 \<or> (b6 \<and> \<not> b7 \<and> (b0 \<or> b1 \<or> b2 \<or> b3 \<or> b4) \<and> \<not> (b4 \<and> b3 \<and> (b2 \<or> b1 \<and> b0)))) b6 b7"
  by (cases b0; cases b1; cases b2; cases b3; cases b4; cases b5; cases b6; cases b7)
    (simp_all add: lower_char_def ascii_Char char_of_def bit_0)

lemma ascii_digit_char [simp]: "d < 10 \<Longrightarrow> ascii (digit_char d) = d + 48"
  by (simp add: ascii_def digit_char_def of_char_of take_bit_nat_eq_self)

lemma digit_val_digit_char [simp]: "d < 10 \<Longrightarrow> digit_val (digit_char d) = d"
  by (simp add: digit_val_def)

lemma is_digit_digit_char [simp]: "d < 10 \<Longrightarrow> is_digit (digit_char d)"
  by (simp add: is_digit_def)

lemma digit_val_less [simp]: "is_digit c \<Longrightarrow> digit_val c < 10"
  by (auto simp: is_digit_def digit_val_def)

lemma digit_char_digit_val [simp]: "is_digit c \<Longrightarrow> digit_char (digit_val c) = c"
  by (simp add: is_digit_def digit_val_def digit_char_def ascii_def)

lemma is_digit_not_space: "is_digit c \<Longrightarrow> \<not> is_space c"
  by (auto simp: is_digit_def is_space_def)

lemma punct_not_space [simp]:
  "\<not> is_space (CHR ''.'')" "\<not> is_space (CHR ''-'')" "\<not> is_space (CHR ''+'')"
  by (simp_all add: is_space_def ascii_def)

lemma is_digit_not_sign: "is_digit c \<Longrightarrow> c \<noteq> CHR ''-'' \<and> c \<noteq> CHR ''+'' \<and> c \<noteq> CHR ''.'' \<and> c \<noteq> CHR ''_''"
  by (auto simp: is_digit_def ascii_def)

lemma is_digit_not_slash: "is_digit c \<Longrightarrow> c \<noteq> CHR ''/''"
  by (auto simp: is_digit_def ascii_def)

section \<open>The strings package\<close>

definition TrimLeftFunc :: "(char \<Rightarrow> bool) \<Rightarrow> gostring \<Rightarrow> gostring" where
  "TrimLeftFunc p s = dropWhile p s"

definition TrimRightFunc :: "(char \<Rightarrow> bool) \<Rightarrow> gostring \<Rightarrow> gostring" where
  "TrimRightFunc p s = rev (dropWhile p (rev s))"

definition TrimSpace :: "gostring \<Rightarrow> gostring" where
  "TrimSpace s = TrimRightFunc is_space (TrimLeftFunc is_space s)"

definition HasPrefix :: "gostring \<Rightarrow> gostring \<Rightarrow> bool" where
  "HasPrefix s p \<longleftrightarrow> take (length p) s = p"

definition TrimPrefix :: "gostring \<Rightarrow> gostring \<Rightarrow> gostring" where
  "TrimPrefix s p = (if HasPrefix s p then drop (length p) s else s)"

definition TrimSuffix :: "gostring \<Rightarrow> gostring \<Rightarrow> gostring" where
  "TrimSuffix s p = (if suffix p s then take (length s - length p) s else s)"

definition ToUpper :: "gostring \<Rightarrow> gostring" where
  "ToUpper s = map upper_char s"

definition ToLower :: "gostring \<Rightarrow> gostring" where
  "ToLower s = map lower_char s"

definition EqualFold :: "gostring \<Rightarrow> gostring \<Rightarrow> bool" where
  "EqualFold a b \<longleftrightarrow> ToLower a = ToLower b"

text \<open>\<^verbatim>\<open>strings.Cut(s, sep)\<close> for a one-byte separator: what is before it, what is after it, found.\<close>

fun CutByte :: "char \<Rightarrow> gostring \<Rightarrow> gostring \<times> gostring \<times> bool" where
  "CutByte sep [] = ([], [], False)"
| "CutByte sep (c # cs) =
     (if c = sep then ([], cs, True)
      else (case CutByte sep cs of (b, a, found) \<Rightarrow> (c # b, a, found)))"

text \<open>\<^verbatim>\<open>strings.Split(s, sep)\<close> for a one-byte separator: always at least one part.\<close>

fun SplitByte :: "char \<Rightarrow> gostring \<Rightarrow> gostring list" where
  "SplitByte sep [] = [[]]"
| "SplitByte sep (c # cs) =
     (if c = sep then [] # SplitByte sep cs
      else (case SplitByte sep cs of [] \<Rightarrow> [[c]] | p # ps \<Rightarrow> (c # p) # ps))"

text \<open>\<^verbatim>\<open>strings.Join(parts, sep)\<close>.\<close>

fun Join :: "gostring \<Rightarrow> gostring list \<Rightarrow> gostring" where
  "Join sep [] = []"
| "Join sep [p] = p"
| "Join sep (p # ps) = p @ sep @ Join sep ps"

definition newline :: char where
  "newline = char_of (10::nat)"

text \<open>\<^verbatim>\<open>time.Second\<close>: durations are in nanoseconds.\<close>

definition second :: int where
  "second = 1000000000"

section \<open>Generic lemmas\<close>

lemma TrimSpace_id:
  assumes "s \<noteq> [] \<Longrightarrow> \<not> is_space (hd s)" and "s \<noteq> [] \<Longrightarrow> \<not> is_space (last s)"
  shows "TrimSpace s = s"
proof (cases "s = []")
  case False
  then have "dropWhile is_space s = s" using assms(1) by (cases s) auto
  moreover have "dropWhile is_space (rev s) = rev s"
    using False assms(2) by (simp add: dropWhile_eq_self_iff hd_rev)
  ultimately show ?thesis by (simp add: TrimSpace_def TrimLeftFunc_def TrimRightFunc_def)
qed (simp add: TrimSpace_def TrimLeftFunc_def TrimRightFunc_def)

lemma TrimSpace_no_space:
  "\<forall>c \<in> set s. \<not> is_space c \<Longrightarrow> TrimSpace s = s"
  by (rule TrimSpace_id) auto

lemma CutByte_append: "CutByte sep s = (b, a, True) \<Longrightarrow> s = b @ sep # a \<and> sep \<notin> set b"
  by (induction s arbitrary: b) (auto split: if_splits prod.splits)

lemma CutByte_notin: "sep \<notin> set s \<Longrightarrow> CutByte sep s = (s, [], False)"
  by (induction s) auto

lemma CutByte_hit: "sep \<notin> set b \<Longrightarrow> CutByte sep (b @ sep # a) = (b, a, True)"
  by (induction b) auto

lemma CutByte_cases:
  "CutByte sep s = (b, a, found) \<Longrightarrow>
     (if found then s = b @ sep # a else s = b \<and> a = [] \<and> sep \<notin> set s)"
  by (induction s arbitrary: b) (auto split: if_splits prod.splits)

lemma SplitByte_not_Nil [simp]: "SplitByte sep s \<noteq> []"
  by (induction s) (auto split: list.splits)

lemma SplitByte_notin: "sep \<notin> set s \<Longrightarrow> SplitByte sep s = [s]"
  by (induction s) auto

lemma SplitByte_append: "sep \<notin> set b \<Longrightarrow> SplitByte sep (b @ sep # a) = b # SplitByte sep a"
  by (induction b) auto

lemma Join_SplitByte: "Join [sep] (SplitByte sep s) = s"
proof (induction s)
  case (Cons c cs)
  show ?case
  proof (cases "c = sep")
    case True
    then show ?thesis using Cons by (cases "SplitByte sep cs") auto
  next
    case False
    show ?thesis
    proof (cases "SplitByte sep cs")
      case (Cons p ps)
      with False Cons.IH show ?thesis by (cases ps) auto
    qed simp
  qed
qed simp

lemma HasPrefix_append [simp]: "HasPrefix (p @ s) p"
  by (simp add: HasPrefix_def)

lemma EqualFold_refl [simp]: "EqualFold a a"
  by (simp add: EqualFold_def)

lemma EqualFold_sym: "EqualFold a b \<longleftrightarrow> EqualFold b a"
  by (auto simp: EqualFold_def)

lemma EqualFold_trans: "EqualFold a b \<Longrightarrow> EqualFold b c \<Longrightarrow> EqualFold a c"
  by (simp add: EqualFold_def)

declare TrimLeftFunc_def [go_strings] TrimRightFunc_def [go_strings] TrimSpace_def [go_strings]
  HasPrefix_def [go_strings] TrimPrefix_def [go_strings] ToUpper_def [go_strings]
  ToLower_def [go_strings] EqualFold_def [go_strings] is_space_def [go_strings]
  upper_char_def [go_strings] lower_char_def [go_strings] ascii_def [go_strings]
  is_digit_def [go_strings] digit_val_def [go_strings]

end
