(* ===== verification/Go_Numbers.thy ===== *)
theory Go_Numbers
  imports Arca_Prelude Complex_Main
begin

text \<open>
  The part of Go's \<^verbatim>\<open>math/big\<close> that the SDK computes money and quantities with: decimal integers
  (\<^verbatim>\<open>Int.SetString(s, 10)\<close>, \<^verbatim>\<open>Int.String\<close>) and rationals (\<^verbatim>\<open>Rat.SetString\<close>, \<^verbatim>\<open>Rat.FloatString\<close>), plus
  the regular expression \<^verbatim>\<open>executionDecimal\<close> that guards quantities.  Integers and rationals are
  unbounded, as in Go.  The lemmas show that printing and parsing are inverse and that a string that
  matches the regular expression parses to the number its digits denote.
\<close>

section \<open>Decimal integers\<close>

definition nat_of_digits :: "gostring \<Rightarrow> nat" where
  "nat_of_digits ds = foldl (\<lambda>n c. n * 10 + digit_val c) 0 ds"

fun show_nat :: "nat \<Rightarrow> gostring" where
  "show_nat n = (if n < 10 then [digit_char n] else show_nat (n div 10) @ [digit_char (n mod 10)])"

declare show_nat.simps [simp del]

definition show_int :: "int \<Rightarrow> gostring" where
  "show_int n = (if n < 0 then CHR ''-'' # show_nat (nat (- n)) else show_nat (nat n))"

definition parse_digits :: "gostring \<Rightarrow> nat option" where
  "parse_digits s = (if s \<noteq> [] \<and> list_all is_digit s then Some (nat_of_digits s) else None)"

text \<open>\<^verbatim>\<open>new(big.Int).SetString(s, 10)\<close>: an optional sign, then at least one decimal digit.\<close>

definition parse_int10 :: "gostring \<Rightarrow> int option" where
  "parse_int10 s =
     (case s of
        [] \<Rightarrow> None
      | c # cs \<Rightarrow>
          if c = CHR ''-'' then map_option (\<lambda>n. - int n) (parse_digits cs)
          else if c = CHR ''+'' then map_option int (parse_digits cs)
          else map_option int (parse_digits s))"

lemma foldl_digits:
  "foldl (\<lambda>n c. n * 10 + digit_val c) a ds = a * 10 ^ length ds + nat_of_digits ds"
proof (induction ds arbitrary: a)
  case (Cons d ds)
  have "nat_of_digits (d # ds) = digit_val d * 10 ^ length ds + nat_of_digits ds"
    using Cons.IH [of "digit_val d"] by (simp add: nat_of_digits_def)
  then show ?case using Cons.IH [of "a * 10 + digit_val d"] by (simp add: algebra_simps)
qed (simp add: nat_of_digits_def)

lemma nat_of_digits_Nil [simp]: "nat_of_digits [] = 0"
  by (simp add: nat_of_digits_def)

lemma nat_of_digits_Cons:
  "nat_of_digits (d # ds) = digit_val d * 10 ^ length ds + nat_of_digits ds"
  using foldl_digits [of "digit_val d" ds] by (simp add: nat_of_digits_def)

lemma nat_of_digits_append:
  "nat_of_digits (a @ b) = nat_of_digits a * 10 ^ length b + nat_of_digits b"
  using foldl_digits [of "nat_of_digits a" b] by (simp add: nat_of_digits_def)

lemma digit_val_zero [simp]: "digit_val (CHR ''0'') = 0"
  by (simp add: digit_val_def ascii_def)

lemma nat_of_digits_zeros [simp]: "nat_of_digits (replicate k (CHR ''0'')) = 0"
  by (induction k) (auto simp: nat_of_digits_Cons digit_val_def ascii_def)

lemma nat_of_digits_less: "list_all is_digit ds \<Longrightarrow> nat_of_digits ds < 10 ^ length ds"
proof (induction ds)
  case (Cons d ds)
  then have "digit_val d < 10" by simp
  then have "digit_val d \<le> 9" by simp
  then have "digit_val d * 10 ^ length ds \<le> 9 * 10 ^ length ds" by (rule mult_right_mono) simp
  moreover have "nat_of_digits ds < 10 ^ length ds" using Cons by simp
  ultimately have "nat_of_digits (d # ds) < 10 * 10 ^ length ds"
    unfolding nat_of_digits_Cons by linarith
  then show ?case by simp
qed simp

lemma show_nat_not_Nil [simp]: "show_nat n \<noteq> []"
  by (subst show_nat.simps) simp

lemma show_nat_digits [simp]: "list_all is_digit (show_nat n)"
proof (induction n rule: show_nat.induct)
  case (1 n)
  then show ?case by (subst show_nat.simps) auto
qed

lemma nat_of_digits_show_nat [simp]: "nat_of_digits (show_nat n) = n"
proof (induction n rule: show_nat.induct)
  case (1 n)
  show ?case
  proof (cases "n < 10")
    case True
    then show ?thesis by (subst show_nat.simps) (simp add: nat_of_digits_Cons)
  next
    case False
    with 1 show ?thesis
      by (subst show_nat.simps) (simp add: nat_of_digits_append nat_of_digits_Cons)
  qed
qed

lemma show_nat_hd_digit: "is_digit (hd (show_nat n))"
  using show_nat_digits [of n] show_nat_not_Nil [of n]
  by (cases "show_nat n") auto

lemma parse_digits_show_nat [simp]: "parse_digits (show_nat n) = Some n"
  by (simp add: parse_digits_def)

lemma parse_int10_digits:
  assumes "s \<noteq> []" "list_all is_digit s"
  shows "parse_int10 s = Some (int (nat_of_digits s))"
  using assms is_digit_not_sign [of "hd s"] by (cases s) (auto simp: parse_int10_def parse_digits_def)

lemma parse_int10_show_int [simp]: "parse_int10 (show_int n) = Some n"
proof (cases "n < 0")
  case True
  then show ?thesis by (simp add: show_int_def parse_int10_def)
next
  case False
  then show ?thesis by (simp add: show_int_def parse_int10_digits)
qed

lemma show_int_inject: "show_int a = show_int b \<longleftrightarrow> a = b"
  by (metis option.inject parse_int10_show_int)

lemma show_int_no_space: "\<forall>c \<in> set (show_int n). \<not> is_space c"
  using show_nat_digits [of "nat n"] show_nat_digits [of "nat (- n)"]
  by (auto simp: show_int_def list_all_iff is_space_def is_digit_def ascii_def)

lemma show_int_not_Nil [simp]: "show_int n \<noteq> []"
  by (simp add: show_int_def)

lemma digit_char_0 [simp]: "digit_char 0 = CHR ''0''"
  by code_simp

lemma show_int_0 [simp]: "show_int 0 = ''0''"
  by (simp add: show_int_def show_nat.simps [of 0])

lemma show_int_eq_0 [simp]: "show_int n = ''0'' \<longleftrightarrow> n = 0"
  using show_int_inject [of n 0] by simp

section \<open>Rationals\<close>

text \<open>
  \<^verbatim>\<open>nat.scan\<close> of \<^verbatim>\<open>math/big\<close> with base 0: a mantissa with an optional \<^verbatim>\<open>0b\<close>, \<^verbatim>\<open>0o\<close>, \<^verbatim>\<open>0x\<close> (or, without a
  radix point, \<^verbatim>\<open>0\<close>) prefix, digits, underscore separators and, if allowed, one radix point.
\<close>

datatype scan_prev = PrevOther | PrevDigit | PrevSep

record scan_state =
  sc_prev :: scan_prev
  sc_inval :: bool
  sc_acc :: nat
  sc_count :: nat
  sc_dp :: "nat option"

definition any_digit :: "char \<Rightarrow> nat" where
  "any_digit c =
     (if is_digit c then ascii c - 48
      else if 97 \<le> ascii c \<and> ascii c \<le> 122 then ascii c - 87
      else if 65 \<le> ascii c \<and> ascii c \<le> 90 then ascii c - 55
      else 63)"

fun scan_loop :: "nat \<Rightarrow> bool \<Rightarrow> scan_state \<Rightarrow> gostring \<Rightarrow> scan_state \<times> gostring" where
  "scan_loop b fracOk st [] = (st, [])"
| "scan_loop b fracOk st (c # cs) =
     (if c = CHR ''.'' \<and> fracOk then
        scan_loop b False
          (st\<lparr>sc_inval := sc_inval st \<or> sc_prev st = PrevSep, sc_prev := PrevOther,
              sc_dp := Some (sc_count st)\<rparr>) cs
      else if c = CHR ''_'' then
        scan_loop b fracOk
          (st\<lparr>sc_inval := sc_inval st \<or> sc_prev st \<noteq> PrevDigit, sc_prev := PrevSep\<rparr>) cs
      else if any_digit c < b then
        scan_loop b fracOk
          (st\<lparr>sc_prev := PrevDigit, sc_count := sc_count st + 1,
              sc_acc := sc_acc st * b + any_digit c\<rparr>) cs
      else (st, c # cs))"

definition scan_start :: "scan_prev \<Rightarrow> nat \<Rightarrow> scan_state" where
  "scan_start p n = \<lparr>sc_prev = p, sc_inval = False, sc_acc = 0, sc_count = n, sc_dp = None\<rparr>"

text \<open>What the prefix decides: base, whether it was the bare octal \<^verbatim>\<open>0\<close>, start state, rest.\<close>

definition scan_prefix :: "bool \<Rightarrow> gostring \<Rightarrow> nat \<times> bool \<times> scan_state \<times> gostring" where
  "scan_prefix fracOk s =
     (case s of
        c # rest \<Rightarrow>
          if c \<noteq> CHR ''0'' then (10, False, scan_start PrevOther 0, s)
          else (case rest of
                  [] \<Rightarrow> (10, False, scan_start PrevDigit 1, [])
                | ch # cs \<Rightarrow>
                    if ch = CHR ''b'' \<or> ch = CHR ''B'' then (2, False, scan_start PrevDigit 0, cs)
                    else if ch = CHR ''o'' \<or> ch = CHR ''O'' then (8, False, scan_start PrevDigit 0, cs)
                    else if ch = CHR ''x'' \<or> ch = CHR ''X'' then (16, False, scan_start PrevDigit 0, cs)
                    else if \<not> fracOk then (8, True, scan_start PrevDigit 0, rest)
                    else (10, False, scan_start PrevDigit 1, rest))
      | [] \<Rightarrow> (10, False, scan_start PrevOther 0, []))"

record scan_result =
  sr_val :: nat
  sr_base :: nat
  sr_frac :: nat  \<comment> \<open>digits after the radix point\<close>
  sr_rest :: gostring

definition nat_scan :: "bool \<Rightarrow> gostring \<Rightarrow> scan_result option" where
  "nat_scan fracOk s =
     (case scan_prefix fracOk s of (b, octal, st0, s') \<Rightarrow>
      (case scan_loop b fracOk st0 s' of (st, rest) \<Rightarrow>
         if sc_inval st \<or> sc_prev st = PrevSep then None
         else if sc_count st = 0 then
           (if octal then Some \<lparr>sr_val = 0, sr_base = 10, sr_frac = 0, sr_rest = rest\<rparr> else None)
         else Some \<lparr>sr_val = sc_acc st, sr_base = b,
                    sr_frac = (case sc_dp st of None \<Rightarrow> 0 | Some d \<Rightarrow> sc_count st - d),
                    sr_rest = rest\<rparr>))"

definition scan_sign :: "gostring \<Rightarrow> (bool \<times> gostring) option" where
  "scan_sign s =
     (case s of [] \<Rightarrow> None
      | c # cs \<Rightarrow> if c = CHR ''-'' then Some (True, cs)
                  else if c = CHR ''+'' then Some (False, cs) else Some (False, s))"

text \<open>\<^verbatim>\<open>Int.SetString(s, 0)\<close>, used on a fraction's numerator.\<close>

definition parse_int0 :: "gostring \<Rightarrow> int option" where
  "parse_int0 s =
     (case scan_sign s of None \<Rightarrow> None
      | Some (neg, r) \<Rightarrow>
          (case nat_scan False r of None \<Rightarrow> None
           | Some sr \<Rightarrow> if sr_rest sr \<noteq> [] then None
                        else Some (if neg then - int (sr_val sr) else int (sr_val sr))))"

text \<open>\<^verbatim>\<open>scanExponent(r, true, true)\<close>: exponent, its base, the unread rest.\<close>

fun exp_loop :: "scan_prev \<Rightarrow> bool \<Rightarrow> gostring \<Rightarrow> gostring \<Rightarrow> scan_prev \<times> bool \<times> gostring \<times> gostring" where
  "exp_loop prev inval ds [] = (prev, inval, ds, [])"
| "exp_loop prev inval ds (c # cs) =
     (if is_digit c then exp_loop PrevDigit inval (ds @ [c]) cs
      else if c = CHR ''_'' then exp_loop PrevSep (inval \<or> prev \<noteq> PrevDigit) ds cs
      else (prev, inval, ds, c # cs))"

definition scan_exponent :: "gostring \<Rightarrow> (int \<times> nat \<times> gostring) option" where
  "scan_exponent s =
     (case s of [] \<Rightarrow> Some (0, 10, [])
      | c # cs \<Rightarrow>
          (let base = (if c = CHR ''e'' \<or> c = CHR ''E'' then 10
                       else if c = CHR ''p'' \<or> c = CHR ''P'' then 2 else 0::nat)
           in if base = 0 then Some (0, 10, s)
              else
                (let (neg, ds0) = (case cs of d # r \<Rightarrow>
                        if d = CHR ''+'' then (False, r) else if d = CHR ''-'' then (True, r)
                        else (False, cs) | [] \<Rightarrow> (False, []));
                     (prev, inval, ds, rest) = exp_loop PrevOther False [] ds0;
                     e = (if neg then - int (nat_of_digits ds) else int (nat_of_digits ds))
                 in if ds = [] \<or> e < - (2 ^ 63) \<or> e \<ge> 2 ^ 63 \<or> inval \<or> prev = PrevSep then None
                    else Some (e, base, rest))))"

definition rpow :: "rat \<Rightarrow> int \<Rightarrow> rat" where
  "rpow b e = (if e \<ge> 0 then b ^ nat e else 1 / b ^ nat (- e))"

definition rat_fraction :: "gostring \<Rightarrow> gostring \<Rightarrow> rat option" where
  "rat_fraction num den =
     (case parse_int0 num of None \<Rightarrow> None
      | Some a \<Rightarrow>
          (case nat_scan False den of None \<Rightarrow> None
           | Some sr \<Rightarrow> if sr_rest sr \<noteq> [] \<or> sr_val sr = 0 then None
                        else Some (of_int a / of_nat (sr_val sr))))"

definition rat_scale :: "bool \<Rightarrow> scan_result \<Rightarrow> int \<Rightarrow> nat \<Rightarrow> rat option" where
  "rat_scale neg sr e ebase =
     (let d = - int (sr_frac sr);
          exp5 = (if sr_base sr = 10 then d else 0) + (if ebase = 10 then e else 0);
          exp2 = (if sr_base sr = 10 then d else if sr_base sr = 2 then d
                  else if sr_base sr = 8 then d * 3 else d * 4) + e
      in if \<bar>exp5\<bar> > 1000000 \<or> exp2 < - 10000000 \<or> exp2 > 10000000 then None
         else Some ((if neg then -1 else 1) * of_nat (sr_val sr) * rpow 5 exp5 * rpow 2 exp2))"

text \<open>\<^verbatim>\<open>new(big.Rat).SetString(s)\<close>.\<close>

definition rat_set_string :: "gostring \<Rightarrow> rat option" where
  "rat_set_string s =
     (case CutByte (CHR ''/'') s of (num, den, True) \<Rightarrow> rat_fraction num den
      | (_, _, False) \<Rightarrow>
          (case scan_sign s of None \<Rightarrow> None
           | Some (neg, r) \<Rightarrow>
               (case nat_scan True r of None \<Rightarrow> None
                | Some sr \<Rightarrow>
                    (case scan_exponent (sr_rest sr) of None \<Rightarrow> None
                     | Some (e, ebase, rest) \<Rightarrow>
                         if rest \<noteq> [] then None
                         else if sr_val sr = 0 then Some 0
                         else rat_scale neg sr e ebase))))"

text \<open>\<^verbatim>\<open>Rat.FloatString(prec)\<close>: \<^verbatim>\<open>prec\<close> fractional digits, the last rounded half away from zero.\<close>

definition pad_left :: "nat \<Rightarrow> gostring \<Rightarrow> gostring" where
  "pad_left w s = replicate (w - length s) (CHR ''0'') @ s"

definition FloatString :: "rat \<Rightarrow> nat \<Rightarrow> gostring" where
  "FloatString x prec =
     (case quotient_of x of (a, b) \<Rightarrow>
        if b = 1 then show_int a @ (if prec > 0 then CHR ''.'' # replicate prec (CHR ''0'') else [])
        else
          (let q = \<bar>a\<bar> div b; r0 = (\<bar>a\<bar> mod b) * 10 ^ prec;
               r = r0 div b; r2 = r0 mod b;
               (q', r') = (if b \<le> r2 + r2 then
                             (if 10 ^ prec \<le> r + 1 then (q + 1, r + 1 - 10 ^ prec) else (q, r + 1))
                           else (q, r))
           in (if a < 0 then ''-'' else []) @ show_nat (nat q') @
              (if prec > 0 then CHR ''.'' # pad_left prec (show_nat (nat r')) else [])))"

text \<open>The regular expression \<^verbatim>\<open>^[0-9]+(?:\.[0-9]+)?$\<close> and the number such a string denotes.\<close>

definition executionDecimal :: "gostring \<Rightarrow> bool" where
  "executionDecimal s \<longleftrightarrow>
     (case CutByte (CHR ''.'') s of (i, f, found) \<Rightarrow>
        i \<noteq> [] \<and> list_all is_digit i \<and> (found \<longrightarrow> f \<noteq> [] \<and> list_all is_digit f))"

definition decimal_value :: "gostring \<Rightarrow> rat" where
  "decimal_value s =
     (case CutByte (CHR ''.'') s of (i, f, found) \<Rightarrow>
        of_nat (nat_of_digits (i @ f)) / 10 ^ length f)"

section \<open>Decimal strings parse to the number they denote\<close>

lemma any_digit_digit: "is_digit c \<Longrightarrow> any_digit c = digit_val c"
  by (simp add: any_digit_def digit_val_def)

definition scan_after :: "gostring \<Rightarrow> scan_state \<Rightarrow> scan_state" where
  "scan_after ds st =
     (if ds = [] then st
      else st\<lparr>sc_prev := PrevDigit, sc_count := sc_count st + length ds,
              sc_acc := sc_acc st * 10 ^ length ds + nat_of_digits ds\<rparr>)"

lemma scan_loop_digits:
  "list_all is_digit ds \<Longrightarrow>
     scan_loop 10 fracOk st (ds @ rest) = scan_loop 10 fracOk (scan_after ds st) rest"
proof (induction ds arbitrary: st)
  case (Cons d ds)
  let ?st = "st\<lparr>sc_prev := PrevDigit, sc_count := sc_count st + 1,
              sc_acc := sc_acc st * 10 + digit_val d\<rparr>"
  from Cons.prems have d: "is_digit d" and ds: "list_all is_digit ds" by auto
  have "scan_loop 10 fracOk st ((d # ds) @ rest) = scan_loop 10 fracOk ?st (ds @ rest)"
    using d is_digit_not_sign [OF d] by (simp add: any_digit_digit)
  also have "\<dots> = scan_loop 10 fracOk (scan_after ds ?st) rest" using ds by (rule Cons.IH)
  also have "scan_after ds ?st = scan_after (d # ds) st"
    by (simp add: scan_after_def nat_of_digits_Cons algebra_simps)
  finally show ?case .
qed (simp add: scan_after_def)

definition decimal_state :: "gostring \<Rightarrow> gostring \<Rightarrow> bool \<Rightarrow> scan_state" where
  "decimal_state i f found =
     \<lparr>sc_prev = PrevDigit, sc_inval = False, sc_acc = nat_of_digits (i @ f),
      sc_count = length i + length f, sc_dp = (if found then Some (length i) else None)\<rparr>"

lemma scan_prefix_decimal:
  assumes "list_all is_digit i" "i \<noteq> []" and r: "r \<noteq> [] \<Longrightarrow> hd r = CHR ''.''"
  shows "\<exists>z ds. scan_prefix True (i @ r) = (10, False, scan_after z (scan_start PrevOther 0), ds @ r)
           \<and> i = z @ ds"
proof (cases i)
  case (Cons c cs)
  show ?thesis
  proof (cases "c = CHR ''0''")
    case False
    then have "scan_prefix True (i @ r) = (10, False, scan_after [] (scan_start PrevOther 0), i @ r)"
      using Cons by (simp add: scan_prefix_def scan_after_def)
    then show ?thesis by blast
  next
    case True
    have st: "scan_start PrevDigit 1 = scan_after [c] (scan_start PrevOther 0)"
      using True by (simp add: scan_start_def scan_after_def nat_of_digits_Cons digit_val_def ascii_def)
    have "x \<noteq> CHR ''b'' \<and> x \<noteq> CHR ''B'' \<and> x \<noteq> CHR ''o'' \<and> x \<noteq> CHR ''O'' \<and> x \<noteq> CHR ''x'' \<and> x \<noteq> CHR ''X''"
      if "cs @ r = x # xs" for x xs
      using that assms(1) Cons r by (cases cs) (auto simp: is_digit_def ascii_def)
    then have "scan_prefix True (i @ r) = (10, False, scan_after [c] (scan_start PrevOther 0), cs @ r)"
      using True Cons st by (cases "cs @ r") (auto simp: scan_prefix_def)
    then show ?thesis using Cons by (intro exI [of _ "[c]"] exI [of _ cs]) simp
  qed
qed (use assms in simp)

lemma scan_after_after: "scan_after b (scan_after a st) = scan_after (a @ b) st"
  by (auto simp: scan_after_def nat_of_digits_append power_add algebra_simps)

lemma nat_scan_decimal:
  assumes i: "list_all is_digit i" "i \<noteq> []" and f: "list_all is_digit f" "found \<longleftrightarrow> f \<noteq> []"
  shows "nat_scan True (i @ (if found then CHR ''.'' # f else [])) =
           Some \<lparr>sr_val = nat_of_digits (i @ f), sr_base = 10, sr_frac = length f, sr_rest = []\<rparr>"
proof -
  let ?r = "if found then CHR ''.'' # f else []"
  obtain z ds where p: "scan_prefix True (i @ ?r) = (10, False, scan_after z (scan_start PrevOther 0), ds @ ?r)"
    and zd: "i = z @ ds" using scan_prefix_decimal [OF i, of ?r] by (cases found) auto
  let ?st = "scan_after i (scan_start PrevOther 0)"
  have st: "?st = \<lparr>sc_prev = PrevDigit, sc_inval = False, sc_acc = nat_of_digits i,
                 sc_count = length i, sc_dp = None\<rparr>"
    using i by (simp add: scan_after_def scan_start_def)
  have l: "scan_loop 10 True (scan_after z (scan_start PrevOther 0)) (ds @ ?r) = scan_loop 10 True ?st ?r"
    using i zd by (simp add: scan_loop_digits scan_after_after)
  have "scan_loop 10 True ?st ?r = (decimal_state i f found, [])"
  proof (cases found)
    case True
    then have "scan_loop 10 True ?st ?r =
        scan_loop 10 False (?st\<lparr>sc_prev := PrevOther, sc_dp := Some (length i)\<rparr>) (f @ [])"
      by (simp add: st)
    also have "\<dots> = (scan_after f (?st\<lparr>sc_prev := PrevOther, sc_dp := Some (length i)\<rparr>), [])"
      using scan_loop_digits [OF f(1), of False _ "[]"] by simp
    also have "\<dots> = (decimal_state i f found, [])"
      using True f by (simp add: scan_start_def scan_after_def decimal_state_def nat_of_digits_append)
    finally show ?thesis .
  next
    case False
    then show ?thesis using f by (simp add: st decimal_state_def)
  qed
  then show ?thesis
    using p l i f by (auto simp: nat_scan_def decimal_state_def)
qed

lemma executionDecimalE:
  assumes "executionDecimal s"
  obtains i f found where "s = i @ (if found then CHR ''.'' # f else [])" "i \<noteq> []"
    "list_all is_digit i" "list_all is_digit f" "found \<longleftrightarrow> f \<noteq> []"
    "decimal_value s = of_nat (nat_of_digits (i @ f)) / 10 ^ length f"
proof -
  obtain i f found where c: "CutByte (CHR ''.'') s = (i, f, found)" by (metis prod_cases3)
  have "s = i @ (if found then CHR ''.'' # f else [])" "\<not> found \<Longrightarrow> f = []"
    using CutByte_cases [OF c] by (auto split: if_splits)
  then show ?thesis using that [of i found f] assms c
    by (cases found) (auto simp: executionDecimal_def decimal_value_def)
qed

lemma rpow_decimal: "rpow 5 (- int n) * rpow 2 (- int n) = 1 / 10 ^ n"
proof -
  have "(10::rat) ^ n = 5 ^ n * 2 ^ n" by (simp add: power_mult_distrib [symmetric])
  then show ?thesis by (cases "n = 0") (auto simp: rpow_def)
qed

text \<open>
  Go refuses more than a million fractional digits; below that a guarded string always parses.
\<close>

definition frac_digits :: "gostring \<Rightarrow> nat" where
  "frac_digits s = (case CutByte (CHR ''.'') s of (i, f, found) \<Rightarrow> length f)"

lemma frac_digits_le: "frac_digits s \<le> length s"
proof -
  obtain i f found where c: "CutByte (CHR ''.'') s = (i, f, found)" by (metis prod_cases3)
  then show ?thesis using CutByte_cases [OF c] by (auto simp: frac_digits_def split: if_splits)
qed

definition readable_decimal :: "gostring \<Rightarrow> bool" where
  "readable_decimal s \<longleftrightarrow> decimal_value s = 0 \<or> frac_digits s \<le> 1000000"

lemma readable_short: "length s \<le> 1000000 \<Longrightarrow> readable_decimal s"
  using frac_digits_le [of s] by (simp add: readable_decimal_def)

lemma rat_set_string_execution:
  assumes "executionDecimal s"
  shows "rat_set_string s = (if readable_decimal s then Some (decimal_value s) else None)"
  using assms
proof (rule executionDecimalE)
  fix i f found
  assume s: "s = i @ (if found then CHR ''.'' # f else [])" and i: "i \<noteq> []" "list_all is_digit i"
    and f: "list_all is_digit f" "found \<longleftrightarrow> f \<noteq> []"
    and v: "decimal_value s = of_nat (nat_of_digits (i @ f)) / 10 ^ length f"
  have "CHR ''/'' \<notin> set s"
    using s i f by (auto simp: list_all_iff is_digit_def ascii_def split: if_splits)
  then have cut: "CutByte (CHR ''/'') s = (s, [], False)" by (rule CutByte_notin)
  have sign: "scan_sign s = Some (False, s)"
    using s i is_digit_not_sign [of "hd i"] by (cases i) (auto simp: scan_sign_def)
  have "CHR ''.'' \<notin> set i" using i by (auto simp: list_all_iff is_digit_def ascii_def)
  then have lf: "frac_digits s = length f"
    using s f by (auto simp: frac_digits_def CutByte_hit CutByte_notin split: if_splits)
  show ?thesis
    using cut sign nat_scan_decimal [OF i(2,1) f] lf v rpow_decimal [of "length f"]
    by (auto simp: rat_set_string_def s [symmetric] scan_exponent_def rat_scale_def Let_def
          mult.assoc readable_decimal_def)
qed

lemma rat_set_string_decimal:
  "executionDecimal s \<Longrightarrow> frac_digits s \<le> 1000000 \<Longrightarrow> rat_set_string s = Some (decimal_value s)"
  by (simp add: rat_set_string_execution readable_decimal_def)

lemma decimal_value_nonneg [simp]: "0 \<le> decimal_value s" "\<not> decimal_value s < 0"
  by (simp_all add: decimal_value_def not_less split: prod.splits)

lemma TrimRight_zeros:
  "\<exists>k. xs = TrimRightFunc (\<lambda>c. c = CHR ''0'') xs @ replicate k (CHR ''0'')"
proof -
  let ?p = "\<lambda>c. c = CHR ''0''"
  have "takeWhile ?p (rev xs) = replicate (length (takeWhile ?p (rev xs))) (CHR ''0'')"
    by (rule replicate_eqI) (auto dest: set_takeWhileD)
  then have "rev xs = replicate (length (takeWhile ?p (rev xs))) (CHR ''0'') @ dropWhile ?p (rev xs)"
    by (metis takeWhile_dropWhile_id)
  then have "xs = rev (dropWhile ?p (rev xs)) @ replicate (length (takeWhile ?p (rev xs))) (CHR ''0'')"
    by (metis rev_append rev_replicate rev_rev_ident)
  then show ?thesis unfolding TrimRightFunc_def by blast
qed

lemma digit_list_no_dot: "list_all is_digit xs \<Longrightarrow> CHR ''.'' \<notin> set xs"
  by (auto simp: list_all_iff is_digit_def ascii_def)

lemma set_TrimRight: "c \<in> set (TrimRightFunc p xs) \<Longrightarrow> c \<in> set xs"
  by (auto simp: TrimRightFunc_def dest: set_dropWhileD)

lemma TrimRight_append:
  "TrimRightFunc p xs \<noteq> [] \<Longrightarrow> TrimRightFunc p (ys @ xs) = ys @ TrimRightFunc p xs"
proof -
  assume "TrimRightFunc p xs \<noteq> []"
  then obtain x where "x \<in> set (rev xs)" "\<not> p x"
    by (auto simp: TrimRightFunc_def dropWhile_eq_Nil_conv)
  then show ?thesis by (simp add: TrimRightFunc_def dropWhile_append1)
qed

text \<open>Dropping trailing fractional zeros does not change the number.\<close>

lemma trimmed_fraction:
  assumes "list_all is_digit w" "w \<noteq> []" "list_all is_digit f" "nat_of_digits f \<noteq> 0"
  defines "f' \<equiv> TrimRightFunc (\<lambda>c. c = CHR ''0'') f"
  shows "f' \<noteq> []" "executionDecimal (w @ CHR ''.'' # f')" "frac_digits (w @ CHR ''.'' # f') \<le> length f"
    "decimal_value (w @ CHR ''.'' # f') = of_nat (nat_of_digits (w @ f)) / 10 ^ length f"
proof -
  obtain k where k: "f = f' @ replicate k (CHR ''0'')"
    using TrimRight_zeros [of f] unfolding f'_def by blast
  show ne: "f' \<noteq> []" using assms(4) k by (metis append_Nil nat_of_digits_zeros)
  have f': "list_all is_digit f'" using assms(3) k by (metis list_all_append)
  have "CHR ''.'' \<notin> set w" using assms(1) by (auto simp: list_all_iff is_digit_def ascii_def)
  then have cut: "CutByte (CHR ''.'') (w @ CHR ''.'' # f') = (w, f', True)" by (rule CutByte_hit)
  show "executionDecimal (w @ CHR ''.'' # f')"
    using cut assms(1,2) ne f' by (simp add: executionDecimal_def)
  show "frac_digits (w @ CHR ''.'' # f') \<le> length f"
    using cut k by (metis (mono_tags, lifting) case_prod_conv frac_digits_def le_add1 length_append)
  have "nat_of_digits (w @ f) = nat_of_digits (w @ f') * 10 ^ k"
    using nat_of_digits_append [of "w @ f'" "replicate k (CHR ''0'')"] k by simp
  then have v: "(of_nat (nat_of_digits (w @ f)) :: rat) = of_nat (nat_of_digits (w @ f')) * 10 ^ k"
    by (metis of_nat_mult of_nat_numeral of_nat_power)
  have l: "length f = length f' + k" using k by (metis length_append length_replicate)
  show "decimal_value (w @ CHR ''.'' # f') = of_nat (nat_of_digits (w @ f)) / 10 ^ length f"
    using cut by (simp add: decimal_value_def v l power_add)
qed

end
