(* ===== verification/Go_Json.thy ===== *)
theory Go_Json
  imports Go_Numbers "HOL-Library.Monad_Syntax"
begin

text \<open>
  The part of \<^verbatim>\<open>encoding/json\<close> the SDK relies on.  A JSON text is represented by what parsing it gives
  (\<^verbatim>\<open>jtext\<close>); decoding into a struct follows the library: keys match a field name exactly or up to
  simple case folding, a repeated key overwrites, \<^verbatim>\<open>null\<close> leaves a value (and clears a pointer), and a
  value of the wrong kind is an error.  All strings are valid UTF-8 byte strings, as every decoded
  string is.
\<close>

datatype json = JNull | JBool bool | JNum gostring | JStr gostring | JArr "json list"
  | JObj "(gostring \<times> json) list"

datatype jtext = JEmpty | JBad | JText json

section \<open>Field names\<close>

text \<open>
  Field names are ASCII.  The only non-ASCII characters that fold to ASCII letters are the Kelvin
  sign (\<^verbatim>\<open>E2 84 AA\<close>) and the long s (\<^verbatim>\<open>C5 BF\<close>).
\<close>

fun fold_key :: "gostring \<Rightarrow> gostring" where
  "fold_key [] = []"
| "fold_key (c # cs) =
     (case cs of
        d # ds \<Rightarrow>
          if c = CHR 0xC5 \<and> d = CHR 0xBF then CHR ''S'' # fold_key ds
          else (case ds of
                  e # es \<Rightarrow>
                    if c = CHR 0xE2 \<and> d = CHR 0x84 \<and> e = CHR 0xAA then CHR ''K'' # fold_key es
                    else upper_char c # fold_key cs
                | [] \<Rightarrow> upper_char c # fold_key cs)
      | [] \<Rightarrow> [upper_char c])"

definition key_matches :: "gostring \<Rightarrow> gostring \<Rightarrow> bool" where
  "key_matches field k \<longleftrightarrow> k = field \<or> fold_key k = fold_key field"

type_synonym jfields = "(gostring \<times> json) list"

definition field_values :: "gostring \<Rightarrow> jfields \<Rightarrow> json list" where
  "field_values field fs = map snd (filter (\<lambda>(k, v). key_matches field k) fs)"

text \<open>A map target has exact keys; the last occurrence wins.\<close>

definition map_value :: "jfields \<Rightarrow> gostring \<Rightarrow> json option" where
  "map_value fs k = map_of (rev fs) k"

text \<open>The top level of a struct target: \<^verbatim>\<open>null\<close> changes nothing, anything but an object is an error.\<close>

fun obj_fields :: "json \<Rightarrow> jfields option" where
  "obj_fields JNull = Some []"
| "obj_fields (JObj fs) = Some fs"
| "obj_fields _ = None"

fun text_fields :: "jtext \<Rightarrow> jfields option" where
  "text_fields (JText j) = obj_fields j"
| "text_fields _ = None"

section \<open>Decoding values\<close>

fun set_str :: "json list \<Rightarrow> gostring \<Rightarrow> gostring option" where
  "set_str [] cur = Some cur"
| "set_str (JNull # vs) cur = set_str vs cur"
| "set_str (JStr s # vs) cur = set_str vs s"
| "set_str (_ # vs) cur = None"

fun set_strp :: "json list \<Rightarrow> gostring option \<Rightarrow> gostring option option" where
  "set_strp [] cur = Some cur"
| "set_strp (JNull # vs) cur = set_strp vs None"
| "set_strp (JStr s # vs) cur = set_strp vs (Some s)"
| "set_strp (_ # vs) cur = None"

fun set_bool :: "json list \<Rightarrow> bool \<Rightarrow> bool option" where
  "set_bool [] cur = Some cur"
| "set_bool (JNull # vs) cur = set_bool vs cur"
| "set_bool (JBool b # vs) cur = set_bool vs b"
| "set_bool (_ # vs) cur = None"

fun set_boolp :: "json list \<Rightarrow> bool option \<Rightarrow> bool option option" where
  "set_boolp [] cur = Some cur"
| "set_boolp (JNull # vs) cur = set_boolp vs None"
| "set_boolp (JBool b # vs) cur = set_boolp vs (Some b)"
| "set_boolp (_ # vs) cur = None"

text \<open>A 64-bit integer target takes an integer literal in range.\<close>

definition int64 :: "int \<Rightarrow> bool" where
  "int64 n \<longleftrightarrow> - (2 ^ 63) \<le> n \<and> n < 2 ^ 63"

fun set_int :: "json list \<Rightarrow> int \<Rightarrow> int option" where
  "set_int [] cur = Some cur"
| "set_int (JNull # vs) cur = set_int vs cur"
| "set_int (JNum s # vs) cur =
     (case parse_int10 s of Some n \<Rightarrow> if int64 n then set_int vs n else None | None \<Rightarrow> None)"
| "set_int (_ # vs) cur = None"

text \<open>An unsigned 64-bit target takes a literal without sign, below \<^term>\<open>2 ^ 64 :: nat\<close>.\<close>

definition uint64 :: "nat \<Rightarrow> bool" where
  "uint64 n \<longleftrightarrow> n < 2 ^ 64"

fun set_uint :: "json list \<Rightarrow> nat \<Rightarrow> nat option" where
  "set_uint [] cur = Some cur"
| "set_uint (JNull # vs) cur = set_uint vs cur"
| "set_uint (JNum s # vs) cur =
     (case parse_digits s of Some n \<Rightarrow> if uint64 n then set_uint vs n else None | None \<Rightarrow> None)"
| "set_uint (_ # vs) cur = None"

text \<open>A pointer to an unsigned 64-bit integer.\<close>

fun set_uintp :: "json list \<Rightarrow> nat option \<Rightarrow> nat option option" where
  "set_uintp [] cur = Some cur"
| "set_uintp (JNull # vs) cur = set_uintp vs None"
| "set_uintp (JNum s # vs) cur =
     (case parse_digits s of Some n \<Rightarrow> if uint64 n then set_uintp vs (Some n) else None | None \<Rightarrow> None)"
| "set_uintp (_ # vs) cur = None"

text \<open>A nested struct (\<^verbatim>\<open>struct\<close>) and a pointer to one: the fields seen so far; repeated keys merge.\<close>

fun set_sub :: "json list \<Rightarrow> jfields \<Rightarrow> jfields option" where
  "set_sub [] cur = Some cur"
| "set_sub (JNull # vs) cur = set_sub vs cur"
| "set_sub (JObj fs # vs) cur = set_sub vs (cur @ fs)"
| "set_sub (_ # vs) cur = None"

fun set_subp :: "json list \<Rightarrow> jfields option \<Rightarrow> jfields option option" where
  "set_subp [] cur = Some cur"
| "set_subp (JNull # vs) cur = set_subp vs None"
| "set_subp (JObj fs # vs) cur = set_subp vs (Some (case cur of Some c \<Rightarrow> c @ fs | None \<Rightarrow> fs))"
| "set_subp (_ # vs) cur = None"

text \<open>A slice: \<^verbatim>\<open>null\<close> is the nil slice, an array replaces the elements.\<close>

fun set_arr :: "json list \<Rightarrow> json list \<Rightarrow> json list option" where
  "set_arr [] cur = Some cur"
| "set_arr (JNull # vs) cur = set_arr vs []"
| "set_arr (JArr xs # vs) cur = set_arr vs xs"
| "set_arr (_ # vs) cur = None"

definition str_field :: "gostring \<Rightarrow> jfields \<Rightarrow> gostring option" where
  "str_field k fs = set_str (field_values k fs) []"

definition strp_field :: "gostring \<Rightarrow> jfields \<Rightarrow> gostring option option" where
  "strp_field k fs = set_strp (field_values k fs) None"

definition bool_field :: "gostring \<Rightarrow> jfields \<Rightarrow> bool option" where
  "bool_field k fs = set_bool (field_values k fs) False"

definition boolp_field :: "gostring \<Rightarrow> jfields \<Rightarrow> bool option option" where
  "boolp_field k fs = set_boolp (field_values k fs) None"

definition int_field :: "gostring \<Rightarrow> jfields \<Rightarrow> int option" where
  "int_field k fs = set_int (field_values k fs) 0"

definition uint_field :: "gostring \<Rightarrow> jfields \<Rightarrow> nat option" where
  "uint_field k fs = set_uint (field_values k fs) 0"

definition uintp_field :: "gostring \<Rightarrow> jfields \<Rightarrow> nat option option" where
  "uintp_field k fs = set_uintp (field_values k fs) None"

definition sub_field :: "gostring \<Rightarrow> jfields \<Rightarrow> jfields option" where
  "sub_field k fs = set_sub (field_values k fs) []"

definition subp_field :: "gostring \<Rightarrow> jfields \<Rightarrow> jfields option option" where
  "subp_field k fs = set_subp (field_values k fs) None"

definition arr_field :: "gostring \<Rightarrow> jfields \<Rightarrow> json list option" where
  "arr_field k fs = set_arr (field_values k fs) []"

text \<open>All elements of a slice decode, or the whole decode fails.\<close>

fun decode_all :: "('a \<Rightarrow> 'b option) \<Rightarrow> 'a list \<Rightarrow> 'b list option" where
  "decode_all f [] = Some []"
| "decode_all f (x # xs) = do { y \<leftarrow> f x; ys \<leftarrow> decode_all f xs; Some (y # ys) }"

lemmas json_field_defs = str_field_def strp_field_def bool_field_def boolp_field_def int_field_def
  uint_field_def uintp_field_def sub_field_def subp_field_def arr_field_def

lemma field_values_Cons [simp]:
  "field_values k ((k', v) # fs) = (if key_matches k k' then v # field_values k fs else field_values k fs)"
  "field_values k [] = []"
  by (simp_all add: field_values_def)

lemma key_matches_refl [simp]: "key_matches k k"
  by (simp add: key_matches_def)

lemma decode_all_length: "decode_all f xs = Some ys \<Longrightarrow> length ys = length xs"
  by (induction xs arbitrary: ys) (auto split: bind_splits)

section \<open>Structs, slices and maps\<close>

text \<open>A 32-bit unsigned field, a slice of strings, and a map from strings (later keys win).\<close>

definition uint32_field :: "gostring \<Rightarrow> jfields \<Rightarrow> nat option" where
  "uint32_field k fs =
     (if list_all (\<lambda>v. case v of JNum s \<Rightarrow> (case parse_digits s of Some n \<Rightarrow> n < 2 ^ 32 | None \<Rightarrow> False) | JNull \<Rightarrow> True | _ \<Rightarrow> False)
           (field_values k fs)
      then uint_field k fs else None)"

fun str_value :: "json \<Rightarrow> gostring option" where
  "str_value JNull = Some []"
| "str_value (JStr s) = Some s"
| "str_value _ = None"

definition strs_field :: "gostring \<Rightarrow> jfields \<Rightarrow> gostring list option" where
  "strs_field k fs = Option.bind (arr_field k fs) (decode_all str_value)"

definition strmap_field :: "gostring \<Rightarrow> jfields \<Rightarrow> (gostring \<times> gostring) list option" where
  "strmap_field k fs = Option.bind (sub_field k fs) (decode_all (\<lambda>(key, v). map_option (Pair key) (str_value v)))"

text \<open>A struct, a pointer to one, a slice of them, and a map to them.\<close>

definition struct_field :: "(jfields \<Rightarrow> 'a option) \<Rightarrow> gostring \<Rightarrow> jfields \<Rightarrow> 'a option" where
  "struct_field dec k fs = Option.bind (sub_field k fs) dec"

definition structp_field :: "(jfields \<Rightarrow> 'a option) \<Rightarrow> gostring \<Rightarrow> jfields \<Rightarrow> 'a option option" where
  "structp_field dec k fs =
     Option.bind (subp_field k fs) (\<lambda>sub. case sub of None \<Rightarrow> Some None | Some gs \<Rightarrow> map_option Some (dec gs))"

definition structs_field :: "(jfields \<Rightarrow> 'a option) \<Rightarrow> gostring \<Rightarrow> jfields \<Rightarrow> 'a list option" where
  "structs_field dec k fs =
     Option.bind (arr_field k fs) (decode_all (\<lambda>j. Option.bind (obj_fields j) dec))"

definition structmap_field :: "(jfields \<Rightarrow> 'a option) \<Rightarrow> gostring \<Rightarrow> jfields \<Rightarrow> (gostring \<times> 'a) list option" where
  "structmap_field dec k fs =
     Option.bind (sub_field k fs) (decode_all (\<lambda>(key, j). map_option (Pair key) (Option.bind (obj_fields j) dec)))"

text \<open>A pointer to an integer.\<close>

fun set_intp :: "json list \<Rightarrow> int option \<Rightarrow> int option option" where
  "set_intp [] cur = Some cur"
| "set_intp (JNull # vs) cur = set_intp vs None"
| "set_intp (JNum s # vs) cur =
     (case parse_int10 s of Some n \<Rightarrow> if int64 n then set_intp vs (Some n) else None | None \<Rightarrow> None)"
| "set_intp (_ # vs) cur = None"

definition intp_field :: "gostring \<Rightarrow> jfields \<Rightarrow> int option option" where
  "intp_field k fs = set_intp (field_values k fs) None"

text \<open>The decoder of a response into a struct.\<close>

definition struct_decoder :: "(jfields \<Rightarrow> 'a option) \<Rightarrow> json \<Rightarrow> gostring + 'a" where
  "struct_decoder dec j = (case Option.bind (obj_fields j) dec of Some v \<Rightarrow> Inr v | None \<Rightarrow> Inl ''json'')"

end
