(* ===== verification/Decimals.thy ===== *)
theory Decimals
  imports Go_Numbers
begin

text \<open>
  Exact decimal arithmetic: the micro-USDC integer strings of \<^verbatim>\<open>money_figure.go\<close> (\<^verbatim>\<open>microParse\<close>,
  \<^verbatim>\<open>MicroSum\<close>, \<^verbatim>\<open>MicroDifference\<close>, \<^verbatim>\<open>MicroFromDecimal\<close>) and the \<^verbatim>\<open>dec\<close> type of \<^verbatim>\<open>revalue.go\<close>
  (mantissa times a power of ten).  The lemmas interpret a \<^verbatim>\<open>dec\<close> as a rational and show that every
  operation is exact, that printing and parsing are inverse, and that \<^verbatim>\<open>MicroFromDecimal\<close> truncates
  toward zero.
\<close>

section \<open>Micro-USDC integer strings\<close>

definition microParse :: "gostring \<Rightarrow> int option" where
  "microParse raw = (let trimmed = TrimSpace raw in if trimmed = [] then None else parse_int10 trimmed)"

fun micro_total :: "int \<Rightarrow> gostring list \<Rightarrow> int" where
  "micro_total acc [] = acc"
| "micro_total acc (v # vs) =
     (case microParse v of Some n \<Rightarrow> micro_total (acc + n) vs | None \<Rightarrow> micro_total acc vs)"

definition MicroSum :: "gostring list \<Rightarrow> gostring" where
  "MicroSum values = show_int (micro_total 0 values)"

definition MicroDifference :: "gostring \<Rightarrow> gostring \<Rightarrow> gostring option" where
  "MicroDifference a b =
     (case (microParse a, microParse b) of
        (Some x, Some y) \<Rightarrow> Some (show_int (x - y))
      | _ \<Rightarrow> None)"

datatype decimal_error = EmptyDecimal | NotADecimal gostring

text \<open>The sign of a trimmed, non-empty decimal text and what follows it.\<close>

definition split_sign :: "gostring \<Rightarrow> bool \<times> gostring" where
  "split_sign t = (case t of c # cs \<Rightarrow>
       if c = CHR ''-'' then (True, cs) else if c = CHR ''+'' then (False, cs) else (False, t)
     | [] \<Rightarrow> (False, []))"

definition MicroFromDecimal :: "gostring \<Rightarrow> decimal_error + gostring" where
  "MicroFromDecimal raw =
     (let text = TrimSpace raw in
      if text = [] then Inl EmptyDecimal
      else
        (case split_sign text of (negative, text') \<Rightarrow>
          (case CutByte (CHR ''.'') text' of (whole, fraction, _) \<Rightarrow>
             if whole = [] \<and> fraction = [] then Inl (NotADecimal raw)
             else if \<not> list_all is_digit (whole @ fraction) then Inl (NotADecimal raw)
             else
               (let whole' = (if whole = [] then ''0'' else whole);
                    padded = take 6 (fraction @ ''000000'');
                    micro = int (nat_of_digits whole') * 1000000 + int (nat_of_digits padded)
                in Inr (show_int (if negative then - micro else micro))))))"

section \<open>Exact decimals\<close>

record dec =
  dm :: int  \<comment> \<open>mantissa\<close>
  ds :: nat  \<comment> \<open>scale\<close>

definition mk_dec :: "int \<Rightarrow> nat \<Rightarrow> dec" where
  "mk_dec m s = \<lparr>dm = m, ds = s\<rparr>"

lemma dec_sel [simp]: "dm (mk_dec m s) = m" "ds (mk_dec m s) = s"
  by (simp_all add: mk_dec_def)

definition parseDec :: "gostring \<Rightarrow> dec option" where
  "parseDec raw =
     (let t = TrimSpace raw in
      if t = [] then None
      else
        (case split_sign t of (neg, t') \<Rightarrow>
          (case CutByte (CHR ''.'') t' of (intPart, fracs, _) \<Rightarrow>
             if intPart = [] \<and> fracs = [] then None
             else if \<not> list_all is_digit (intPart @ fracs) then None
             else
               (let m = int (nat_of_digits (intPart @ fracs))
                in Some (mk_dec (if neg then - m else m) (length fracs))))))"

definition parseDecPtr :: "gostring option \<Rightarrow> dec option" where
  "parseDecPtr raw = (case raw of None \<Rightarrow> None | Some s \<Rightarrow> parseDec s)"

definition decZero :: dec where
  "decZero = mk_dec 0 0"

definition dec_scaled :: "dec \<Rightarrow> nat \<Rightarrow> int" where
  "dec_scaled a s = (if s = ds a then dm a else 10 ^ (s - ds a) * dm a)"

definition dec_add :: "dec \<Rightarrow> dec \<Rightarrow> dec" where
  "dec_add a b = (let s = max (ds a) (ds b) in mk_dec (dec_scaled a s + dec_scaled b s) s)"

definition dec_sub :: "dec \<Rightarrow> dec \<Rightarrow> dec" where
  "dec_sub a b = dec_add a (mk_dec (- dm b) (ds b))"

definition dec_mul :: "dec \<Rightarrow> dec \<Rightarrow> dec" where
  "dec_mul a b = mk_dec (dm a * dm b) (ds a + ds b)"

definition dec_neg :: "dec \<Rightarrow> dec" where
  "dec_neg a = mk_dec (- dm a) (ds a)"

definition dec_abs :: "dec \<Rightarrow> dec" where
  "dec_abs a = mk_dec \<bar>dm a\<bar> (ds a)"

definition dec_String :: "dec \<Rightarrow> gostring" where
  "dec_String a =
     (let neg = dm a < 0;
          digits = show_nat (nat \<bar>dm a\<bar>);
          digits' =
            (if ds a > 0 then
               (let padded = (if length digits \<le> ds a
                              then replicate (ds a - length digits + 1) (CHR ''0'') @ digits
                              else digits);
                    whole = take (length padded - ds a) padded;
                    fracs = TrimRightFunc (\<lambda>c. c = CHR ''0'') (drop (length padded - ds a) padded)
                in if fracs \<noteq> [] then whole @ CHR ''.'' # fracs else whole)
             else digits)
      in if digits' = ''0'' then ''0'' else if neg then CHR ''-'' # digits' else digits')"

section \<open>Micro strings: sums and differences are exact\<close>

lemma microParse_show_int [simp]: "microParse (show_int n) = Some n"
  by (simp add: microParse_def TrimSpace_no_space show_int_no_space)

lemma micro_total_add: "micro_total t vs = t + micro_total 0 vs"
proof (induction vs arbitrary: t)
  case (Cons v vs)
  show ?case
  proof (cases "microParse v")
    case None
    then show ?thesis using Cons.IH [of t] by simp
  next
    case (Some n)
    then show ?thesis using Cons.IH [of "t + n"] Cons.IH [of n] by simp
  qed
qed simp

lemma micro_total_sum:
  "micro_total 0 vs = sum_list (List.map_filter microParse vs)"
proof (induction vs)
  case (Cons v vs)
  show ?case
  proof (cases "microParse v")
    case None
    with Cons show ?thesis by (simp add: List.map_filter_def)
  next
    case (Some n)
    with Cons show ?thesis using micro_total_add [of n vs] by (simp add: List.map_filter_def)
  qed
qed (simp add: List.map_filter_def)

lemma microParse_MicroSum: "microParse (MicroSum vs) = Some (sum_list (List.map_filter microParse vs))"
  by (simp add: MicroSum_def micro_total_sum)

lemma MicroSum_append:
  "microParse (MicroSum (vs @ ws)) = Some (micro_total 0 vs + micro_total 0 ws)"
  by (simp add: MicroSum_def micro_total_sum List.map_filter_def)

section \<open>The value of a decimal\<close>

definition dval :: "dec \<Rightarrow> rat" where
  "dval d = of_int (dm d) / 10 ^ ds d"

lemma dval_zero [simp]: "dval decZero = 0"
  by (simp add: dval_def decZero_def)

lemma dec_scaled_val: "ds a \<le> s \<Longrightarrow> of_int (dec_scaled a s) / 10 ^ s = dval a"
proof -
  assume "ds a \<le> s"
  then have "(10::rat) ^ s = 10 ^ ds a * 10 ^ (s - ds a)" by (simp add: power_add [symmetric])
  then show ?thesis by (auto simp: dec_scaled_def dval_def)
qed

lemma dval_add [simp]: "dval (dec_add a b) = dval a + dval b"
  using dec_scaled_val [of a "max (ds a) (ds b)"] dec_scaled_val [of b "max (ds a) (ds b)"]
  by (simp add: dec_add_def Let_def dval_def add_divide_distrib)

lemma dval_neg [simp]: "dval (dec_neg a) = - dval a"
  by (simp add: dec_neg_def dval_def)

lemma dval_sub [simp]: "dval (dec_sub a b) = dval a - dval b"
  using dval_add [of a "dec_neg b"] by (simp add: dec_sub_def dec_neg_def [symmetric])

lemma dval_mul [simp]: "dval (dec_mul a b) = dval a * dval b"
  by (simp add: dec_mul_def dval_def power_add)

lemma dval_abs [simp]: "dval (dec_abs a) = \<bar>dval a\<bar>"
  by (simp add: dec_abs_def dval_def)

lemmas dval_simps = dval_zero dval_add dval_neg dval_sub dval_mul dval_abs

section \<open>Printing and parsing are inverse\<close>

definition decimal_body :: "gostring \<Rightarrow> gostring \<Rightarrow> gostring" where
  "decimal_body whole fracs = (if fracs \<noteq> [] then whole @ CHR ''.'' # fracs else whole)"

lemma CutByte_body:
  assumes "list_all is_digit whole"
  shows "CutByte (CHR ''.'') (decimal_body whole fracs) = (whole, fracs, fracs \<noteq> [])"
  using digit_list_no_dot [OF assms]
  by (simp add: decimal_body_def CutByte_hit CutByte_notin)

lemma decimal_body_chars:
  assumes "list_all is_digit whole" "list_all is_digit fracs" "c \<in> set (decimal_body whole fracs)"
  shows "is_digit c \<or> c = CHR ''.''"
  using assms by (auto simp: decimal_body_def list_all_iff split: if_splits)

lemma parseDec_body:
  assumes w: "whole \<noteq> []" "list_all is_digit whole" and f: "list_all is_digit fracs"
  shows "parseDec ((if neg then ''-'' else []) @ decimal_body whole fracs) =
           Some (mk_dec ((if neg then -1 else 1) * int (nat_of_digits (whole @ fracs))) (length fracs))"
proof -
  let ?b = "decimal_body whole fracs" and ?t = "(if neg then ''-'' else []) @ decimal_body whole fracs"
  have "\<forall>c \<in> set ?t. \<not> is_space c"
    using decimal_body_chars [OF w(2) f] is_digit_not_space punct_not_space by (auto, blast)
  then have trim: "TrimSpace ?t = ?t" by (rule TrimSpace_no_space)
  obtain c cs where b: "?b = c # cs" "is_digit c"
    using w by (cases whole; cases "fracs = []") (auto simp: decimal_body_def)
  have sign: "split_sign ?t = (neg, ?b)"
    using b is_digit_not_sign [OF b(2)] by (auto simp: split_sign_def)
  have "?t \<noteq> []" using b by simp
  then show ?thesis
    using trim sign CutByte_body [OF w(2), of fracs] w f by (simp add: parseDec_def Let_def)
qed

text \<open>The digits \<^const>\<open>dec_String\<close> prints, split at the radix point.\<close>

lemma dec_String_parts:
  "\<exists>whole fracs. whole \<noteq> [] \<and> list_all is_digit whole \<and> list_all is_digit fracs
     \<and> of_nat (nat_of_digits (whole @ fracs)) / 10 ^ length fracs = \<bar>dval d\<bar>
     \<and> dec_String d = (if decimal_body whole fracs = ''0'' then ''0''
          else (if dm d < 0 then ''-'' else []) @ decimal_body whole fracs)"
proof (cases "ds d = 0")
  case True
  let ?digits = "show_nat (nat \<bar>dm d\<bar>)"
  have "of_nat (nat_of_digits (?digits @ [])) / 10 ^ length [] = \<bar>dval d\<bar>"
    using True by (simp add: dval_def)
  with True show ?thesis
    by (intro exI [of _ ?digits] exI [of _ "[]"])
      (auto simp: dec_String_def Let_def decimal_body_def)
next
  case False
  define digits where "digits = show_nat (nat \<bar>dm d\<bar>)"
  define P where "P = (if length digits \<le> ds d
    then replicate (ds d - length digits + 1) (CHR ''0'') @ digits else digits)"
  define w where "w = take (length P - ds d) P"
  define fr where "fr = drop (length P - ds d) P"
  define f where "f = TrimRightFunc (\<lambda>c. c = CHR ''0'') fr"
  have len: "length P > ds d" by (auto simp: P_def)
  have dig: "list_all is_digit P"
    using show_nat_digits [of "nat \<bar>dm d\<bar>"]
    by (auto simp: P_def digits_def list_all_iff is_digit_def ascii_def)
  have val: "nat_of_digits P = nat \<bar>dm d\<bar>"
    by (simp add: P_def digits_def nat_of_digits_append nat_of_digits_Cons)
  obtain k where k: "fr = f @ replicate k (CHR ''0'')"
    using TrimRight_zeros [of fr] unfolding f_def by blast
  have P: "P = w @ fr" by (simp add: w_def fr_def)
  have "length fr = ds d" using len by (simp add: fr_def)
  then have lk: "ds d = length f + k" using k by simp
  have wd: "list_all is_digit w" "list_all is_digit f"
    using dig P k by simp_all
  have "nat \<bar>dm d\<bar> = nat_of_digits (w @ f) * 10 ^ k"
    using val P k nat_of_digits_append [of "w @ f" "replicate k (CHR ''0'')"] by simp
  then have "(of_nat (nat \<bar>dm d\<bar>) :: rat) = of_nat (nat_of_digits (w @ f)) * 10 ^ k"
    by (metis of_nat_mult of_nat_numeral of_nat_power)
  then have v: "of_nat (nat_of_digits (w @ f)) / 10 ^ length f = \<bar>dval d\<bar>"
    using lk by (simp add: dval_def power_add field_simps)
  have "w \<noteq> []" using len by (auto simp: w_def)
  moreover have "dec_String d = (if decimal_body w f = ''0'' then ''0''
          else (if dm d < 0 then ''-'' else []) @ decimal_body w f)"
    using False
    unfolding dec_String_def Let_def decimal_body_def digits_def [symmetric] P_def [symmetric]
      fr_def [symmetric] f_def [symmetric] w_def [symmetric]
    by simp
  ultimately show ?thesis using wd v by blast
qed

lemma parseDec_String: "\<exists>e. parseDec (dec_String d) = Some e \<and> dval e = dval d"
proof -
  obtain whole fracs where w: "whole \<noteq> []" "list_all is_digit whole" "list_all is_digit fracs"
    and v: "of_nat (nat_of_digits (whole @ fracs)) / 10 ^ length fracs = \<bar>dval d\<bar>"
    and s: "dec_String d = (if decimal_body whole fracs = ''0'' then ''0''
          else (if dm d < 0 then ''-'' else []) @ decimal_body whole fracs)"
    using dec_String_parts [of d] by blast
  let ?e = "\<lambda>neg::bool. mk_dec ((if neg then -1 else 1) * int (nat_of_digits (whole @ fracs))) (length fracs)"
  have val: "dval (?e neg) = (if neg then - \<bar>dval d\<bar> else \<bar>dval d\<bar>)" for neg
    using v by (simp add: dval_def)
  have sg: "\<bar>dval d\<bar> = (if dm d < 0 then - dval d else dval d)"
    by (simp add: dval_def field_simps abs_if divide_less_0_iff zero_less_divide_iff)
  show ?thesis
  proof (cases "decimal_body whole fracs = ''0''")
    case True
    then have "whole = ''0'' \<and> fracs = []"
      using w(1) by (cases whole) (auto simp: decimal_body_def split: if_splits)
    then have "dval d = 0" using v by (simp add: nat_of_digits_Cons digit_val_def ascii_def)
    moreover have "parseDec ''0'' = Some (?e False)"
      using parseDec_body [OF w, of False] True by simp
    ultimately show ?thesis using s True val [of False] by simp
  next
    case False
    then show ?thesis
      using s parseDec_body [OF w, of "dm d < 0"] val [of "dm d < 0"] sg by auto
  qed
qed

section \<open>Truncation toward zero\<close>

definition rat_truncate :: "rat \<Rightarrow> int" where
  "rat_truncate x = (if x < 0 then - \<lfloor>- x\<rfloor> else \<lfloor>x\<rfloor>)"

lemma micro_padded:
  assumes "list_all is_digit f"
  shows "nat_of_digits (take 6 (f @ ''000000'')) = nat_of_digits f * 10 ^ 6 div 10 ^ length f"
proof (cases "length f \<le> 6")
  case True
  have z: "''000000'' = replicate 6 (CHR ''0'')" by (simp add: numeral_eq_Suc)
  have "nat_of_digits (take 6 (f @ ''000000'')) = nat_of_digits f * 10 ^ (6 - length f)"
    using True unfolding z by (simp add: nat_of_digits_append)
  moreover have "(10::nat) ^ 6 = 10 ^ length f * 10 ^ (6 - length f)"
    using True by (simp only: power_add [symmetric]) simp
  then have "nat_of_digits f * 10 ^ 6 = (nat_of_digits f * 10 ^ (6 - length f)) * 10 ^ length f"
    by (simp only: mult.assoc mult.commute mult.left_commute)
  then have "nat_of_digits f * 10 ^ 6 div 10 ^ length f = nat_of_digits f * 10 ^ (6 - length f)"
    by (simp only: nonzero_mult_div_cancel_right) simp
  ultimately show ?thesis by simp
next
  case False
  let ?n = "length f - 6"
  have f: "nat_of_digits f = nat_of_digits (take 6 f) * 10 ^ ?n + nat_of_digits (drop 6 f)"
    using nat_of_digits_append [of "take 6 f" "drop 6 f"] by simp
  have "list_all is_digit (drop 6 f)" using assms by (metis append_take_drop_id list_all_append)
  then have "nat_of_digits (drop 6 f) < 10 ^ ?n" using nat_of_digits_less [of "drop 6 f"] by simp
  then have "nat_of_digits f div 10 ^ ?n = nat_of_digits (take 6 f)" by (simp add: f)
  moreover have "(10::nat) ^ length f = 10 ^ ?n * 10 ^ 6"
    using False by (simp only: power_add [symmetric]) simp
  ultimately show ?thesis using False by simp
qed

lemma micro_value:
  assumes "list_all is_digit f"
  shows "nat_of_digits w * 1000000 + nat_of_digits (take 6 (f @ ''000000''))
           = nat_of_digits (w @ f) * 10 ^ 6 div 10 ^ length f"
proof -
  have "nat_of_digits (w @ f) * 10 ^ 6
      = nat_of_digits f * 10 ^ 6 + nat_of_digits w * 10 ^ 6 * 10 ^ length f"
    by (simp add: nat_of_digits_append algebra_simps)
  then show ?thesis using micro_padded [OF assms] by simp
qed

lemma truncate_decimal:
  "rat_truncate (dval (mk_dec (if neg then - int n else int n) k) * 1000000)
     = (if neg then - int (n * 10 ^ 6 div 10 ^ k) else int (n * 10 ^ 6 div 10 ^ k))"
proof -
  let ?q = "of_nat n / 10 ^ k * 1000000 :: rat"
  have "?q = of_nat (n * 10 ^ 6) / of_nat (10 ^ k)" by simp
  then have fl: "\<lfloor>?q\<rfloor> = int (n * 10 ^ 6 div 10 ^ k)"
    by (metis floor_divide_of_nat_eq)
  define q where "q = ?q"
  have q: "0 \<le> q" "\<lfloor>q\<rfloor> = int (n * 10 ^ 6 div 10 ^ k)" using fl by (simp_all add: q_def)
  have "dval (mk_dec (if neg then - int n else int n) k) * 1000000 = (if neg then - q else q)"
    by (simp add: dval_def q_def)
  moreover have "rat_truncate (- q) = - \<lfloor>q\<rfloor>" "rat_truncate q = \<lfloor>q\<rfloor>"
    using q(1) by (cases "q = 0", auto simp: rat_truncate_def)
  ultimately show ?thesis using q(2) by (cases neg) simp_all
qed

text \<open>\<^const>\<open>MicroFromDecimal\<close> accepts exactly what \<^const>\<open>parseDec\<close> accepts, and truncates.\<close>

lemma MicroFromDecimal_parseDec:
  "MicroFromDecimal raw =
     (case parseDec raw of
        None \<Rightarrow> Inl (if TrimSpace raw = [] then EmptyDecimal else NotADecimal raw)
      | Some d \<Rightarrow> Inr (show_int (rat_truncate (dval d * 1000000))))"
proof -
  obtain neg t' where sg: "split_sign (TrimSpace raw) = (neg, t')" by fastforce
  obtain w f fnd where cut: "CutByte (CHR ''.'') t' = (w, f, fnd)" by (metis prod_cases3)
  let ?w = "if w = [] then ''0'' else w"
  have w: "nat_of_digits (?w @ f) = nat_of_digits (w @ f)"
    by (simp add: nat_of_digits_append nat_of_digits_Cons)
  show ?thesis
  proof (cases "TrimSpace raw = [] \<or> (w = [] \<and> f = []) \<or> \<not> list_all is_digit (w @ f)")
    case True
    then show ?thesis using sg cut by (auto simp: MicroFromDecimal_def parseDec_def Let_def)
  next
    case False
    then have f: "list_all is_digit f" by simp
    let ?n = "nat_of_digits (w @ f) * 10 ^ 6 div 10 ^ length f"
    have m: "int (nat_of_digits ?w) * 1000000 + int (nat_of_digits (take 6 (f @ ''000000''))) = int ?n"
      using micro_value [OF f, of ?w] unfolding w by (simp only: of_nat_add of_nat_mult of_nat_numeral flip: of_nat_add)
    have "MicroFromDecimal raw = Inr (show_int (if neg then - int ?n else int ?n))"
      using False sg cut m by (simp add: MicroFromDecimal_def Let_def)
    moreover have "parseDec raw = Some (mk_dec (if neg then - int (nat_of_digits (w @ f))
        else int (nat_of_digits (w @ f))) (length f))"
      using False sg cut by (simp add: parseDec_def Let_def)
    ultimately show ?thesis by (simp only: option.case truncate_decimal)
  qed
qed

section \<open>Properties\<close>

text \<open>C5: the decimal type of the re-marking code is exact: printing a decimal and parsing it back gives
  the same number, and addition, subtraction and multiplication computed on the printed strings are
  the rational operations on the numbers they denote.\<close>

theorem dec_roundtrip_exact:
  "map_option dval (parseDec (dec_String (dec_add a b))) = Some (dval a + dval b)
   \<and> map_option dval (parseDec (dec_String (dec_sub a b))) = Some (dval a - dval b)
   \<and> map_option dval (parseDec (dec_String (dec_mul a b))) = Some (dval a * dval b)"
proof -
  have "map_option dval (parseDec (dec_String d)) = Some (dval d)" for d
    using parseDec_String [of d] by auto
  then show ?thesis by (metis dval_add dval_sub dval_mul)
qed

text \<open>\<^const>\<open>MicroFromDecimal\<close> accepts exactly the decimal grammar of \<^const>\<open>parseDec\<close>, names the empty
  string separately, and converts an accepted text to the micro-USDC integer obtained by truncating a
  million times its value toward zero (so it never credits more than the text says).\<close>

theorem MicroFromDecimal_truncates:
  "MicroFromDecimal raw =
     (case parseDec raw of
        None \<Rightarrow> Inl (if TrimSpace raw = [] then EmptyDecimal else NotADecimal raw)
      | Some d \<Rightarrow> Inr (show_int (rat_truncate (dval d * 1000000))))
   \<and> (case MicroFromDecimal raw of
          Inl _ \<Rightarrow> parseDec raw = None
        | Inr m \<Rightarrow> (\<exists>n d. microParse m = Some n \<and> parseDec raw = Some d
           \<and> \<bar>of_int n\<bar> \<le> \<bar>dval d\<bar> * 1000000 \<and> \<bar>dval d\<bar> * 1000000 < \<bar>of_int n\<bar> + 1))"
proof -
  have trunc: "\<bar>of_int (rat_truncate x)\<bar> \<le> \<bar>x\<bar> \<and> \<bar>x\<bar> < \<bar>of_int (rat_truncate x)\<bar> + (1::rat)" for x
    by (cases "x < 0") (auto simp: rat_truncate_def, linarith+)
  show ?thesis
  proof (cases "parseDec raw")
    case None
    then show ?thesis by (simp add: MicroFromDecimal_parseDec)
  next
    case (Some d)
    then show ?thesis using trunc [of "dval d * 1000000"]
      by (simp add: MicroFromDecimal_parseDec abs_mult)
  qed
qed

text \<open>\<^const>\<open>MicroSum\<close> prints the exact sum of the integers among its arguments (the others are
  skipped), and it is order-insensitive and additive over concatenation.\<close>

theorem MicroSum_exact:
  "microParse (MicroSum vs) = Some (sum_list (List.map_filter microParse vs))
   \<and> MicroSum (vs @ ws) = MicroSum (ws @ vs)
   \<and> MicroSum [MicroSum vs, MicroSum ws] = MicroSum (vs @ ws)"
  using micro_total_add [of "micro_total 0 vs" "[MicroSum ws]"]
  by (simp add: microParse_MicroSum micro_total_sum MicroSum_def List.map_filter_def add.commute)

end
