(* ===== verification/Revalue.thy ===== *)
theory Revalue
  imports Decimals
begin

text \<open>
  Re-marking of projected rows (\<^verbatim>\<open>revalue.go\<close>, the rows of \<^verbatim>\<open>projections.go\<close> and \<^verbatim>\<open>types.go\<close>): one
  position at a new mid price (\<^verbatim>\<open>remarkProjectedPosition\<close>) and a whole row
  (\<^verbatim>\<open>RevalueProjectedValuation\<close>).  The lemmas show the accounting identity the code promises: every
  price-derived figure moves by exactly the change of the positions' P&L.
\<close>

section \<open>Rows\<close>

record PositionValue =
  pv_Market :: gostring
  pv_Side :: gostring
  pv_Size :: gostring
  pv_Leverage :: int
  pv_EntryPrice :: gostring
  pv_MarkPrice :: "gostring option"
  pv_UnrealizedPnl :: "gostring option"
  pv_ValueUsd :: "gostring option"

record ProjectedPnl =
  pp_Window :: gostring
  pp_From :: gostring
  pp_AsOf :: gostring
  pp_Coverage :: gostring
  pp_CoveredFrom :: gostring
  pp_Status :: gostring
  pp_PnlUsd :: "gostring option"

record ProjectedVolume =
  pvol_Window :: gostring
  pvol_From :: gostring
  pvol_AsOf :: gostring
  pvol_Coverage :: gostring
  pvol_CoveredFrom :: gostring
  pvol_Status :: gostring
  pvol_VolumeUsd :: "gostring option"

record ProjectedValuation =
  prv_ObjectID :: gostring
  prv_Path :: gostring
  prv_Type :: gostring
  prv_MidsComplete :: "bool option"
  prv_PricingMode :: gostring
  prv_Equity :: "gostring option"
  prv_RealizedValue :: "gostring option"
  prv_UnrealizedValue :: "gostring option"
  prv_Positions :: "PositionValue list"
  prv_Pnl :: "ProjectedPnl option"
  prv_Volume :: "ProjectedVolume option"

definition WindowedPending :: gostring where
  "WindowedPending = ''pending''"

type_synonym mids = "gostring \<rightharpoonup> gostring"

section \<open>One position\<close>

text \<open>The signed size: a short is minus its size, a long its size, any other side as delivered.\<close>

definition signed_size :: "gostring \<Rightarrow> dec \<Rightarrow> dec" where
  "signed_size side sz =
     (if side = ''short'' then dec_neg (dec_abs sz)
      else if side = ''long'' then dec_abs sz else sz)"

text \<open>The new P&L and its change from the delivered row; \<^const>\<open>None\<close> when the entry does not parse.\<close>

definition remark_pnl :: "PositionValue \<Rightarrow> dec \<Rightarrow> dec \<Rightarrow> (dec \<times> dec) option" where
  "remark_pnl p signed midDec =
     (case (parseDecPtr (pv_MarkPrice p), parseDecPtr (pv_UnrealizedPnl p)) of
        (Some mark, Some delivered) \<Rightarrow>
          (let shift = dec_mul signed (dec_sub midDec mark)
           in Some (dec_add delivered shift, shift))
      | (_, d) \<Rightarrow>
          (case parseDec (pv_EntryPrice p) of
             None \<Rightarrow> None
           | Some entry \<Rightarrow>
               (let pnl = dec_mul signed (dec_sub midDec entry);
                    delivered = (case d of Some x \<Rightarrow> x | None \<Rightarrow> decZero)
                in Some (pnl, dec_sub pnl delivered))))"

definition remarkProjectedPosition :: "PositionValue \<Rightarrow> mids \<Rightarrow> (PositionValue \<times> dec) option" where
  "remarkProjectedPosition p mids =
     (case mids (pv_Market p) of None \<Rightarrow> None
      | Some mid \<Rightarrow>
        (case parseDec mid of None \<Rightarrow> None
         | Some midDec \<Rightarrow>
           (case parseDec (pv_Size p) of None \<Rightarrow> None
            | Some sz \<Rightarrow>
              (case remark_pnl p (signed_size (pv_Side p) sz) midDec of None \<Rightarrow> None
               | Some (pnl, shift) \<Rightarrow>
                   Some (p\<lparr>pv_MarkPrice := Some mid,
                           pv_UnrealizedPnl := Some (dec_String pnl),
                           pv_ValueUsd := Some (dec_String pnl)\<rparr>, shift)))))"

section \<open>A row\<close>

text \<open>The loop over the positions: total shift, whether any moved, whether all are marked, new rows.\<close>

fun remark_positions ::
    "mids \<Rightarrow> PositionValue list \<Rightarrow> dec \<times> bool \<times> bool \<times> PositionValue list
       \<Rightarrow> dec \<times> bool \<times> bool \<times> PositionValue list" where
  "remark_positions mids [] acc = acc"
| "remark_positions mids (p # ps) (shift, moved, allMarked, out) =
     (case remarkProjectedPosition p mids of
        None \<Rightarrow> remark_positions mids ps
                  (shift, moved, allMarked \<and> pv_MarkPrice p \<noteq> None, out @ [p])
      | Some (next_p, delta) \<Rightarrow>
          remark_positions mids ps (dec_add shift delta, True, allMarked, out @ [next_p]))"

definition shifted :: "dec \<Rightarrow> gostring option \<Rightarrow> gostring option" where
  "shifted shift raw =
     (case parseDecPtr raw of None \<Rightarrow> raw | Some d \<Rightarrow> Some (dec_String (dec_add d shift)))"

definition shifted_pnl :: "dec \<Rightarrow> ProjectedPnl \<Rightarrow> ProjectedPnl" where
  "shifted_pnl shift pnl =
     (case pp_PnlUsd pnl of
        None \<Rightarrow> pnl
      | Some raw \<Rightarrow>
          if pp_Status pnl \<noteq> WindowedPending \<and> parseDec raw \<noteq> None
          then pnl\<lparr>pp_PnlUsd := shifted shift (pp_PnlUsd pnl)\<rparr> else pnl)"

definition RevalueProjectedValuation :: "ProjectedValuation \<Rightarrow> mids \<Rightarrow> ProjectedValuation" where
  "RevalueProjectedValuation v mids =
     (if prv_PricingMode v = ''server'' \<or> prv_Positions v = [] then v
      else
        (case remark_positions mids (prv_Positions v) (decZero, False, True, []) of
           (shift, moved, allMarked, positions) \<Rightarrow>
             if \<not> moved then v
             else v\<lparr>prv_Positions := positions,
                    prv_Equity := shifted shift (prv_Equity v),
                    prv_UnrealizedValue := shifted shift (prv_UnrealizedValue v),
                    prv_MidsComplete :=
                      (if prv_MidsComplete v = Some False \<and> allMarked then None
                       else prv_MidsComplete v),
                    prv_Pnl := map_option (shifted_pnl shift) (prv_Pnl v)\<rparr>))"

section \<open>The figures move by the change in P&L\<close>

definition figure :: "gostring option \<Rightarrow> rat option" where
  "figure raw = map_option dval (parseDecPtr raw)"

definition position_pnl :: "PositionValue \<Rightarrow> rat" where
  "position_pnl p = (case figure (pv_UnrealizedPnl p) of Some x \<Rightarrow> x | None \<Rightarrow> 0)"

definition pnl_total :: "PositionValue list \<Rightarrow> rat" where
  "pnl_total ps = sum_list (map position_pnl ps)"

lemma figure_String [simp]: "figure (Some (dec_String d)) = Some (dval d)"
  using parseDec_String [of d] by (auto simp: figure_def parseDecPtr_def)

lemma figure_shifted: "figure (shifted s raw) = map_option (\<lambda>x. x + dval s) (figure raw)"
proof (cases "parseDecPtr raw")
  case None
  then show ?thesis by (simp add: shifted_def figure_def)
next
  case (Some d)
  then have "figure raw = Some (dval d)" by (simp add: figure_def)
  then show ?thesis using Some by (simp add: shifted_def)
qed

lemma remark_pnl_change:
  assumes "remark_pnl p signed mid = Some (pnl, shift)"
  shows "dval shift = dval pnl - position_pnl p"
  using assms
  by (auto simp: remark_pnl_def Let_def position_pnl_def figure_def
      split: prod.splits option.splits)

lemma remarkProjectedPosition_change:
  assumes "remarkProjectedPosition p mids = Some (q, shift)"
  shows "dval shift = position_pnl q - position_pnl p"
  using assms
  by (auto simp: remarkProjectedPosition_def position_pnl_def [of "_\<lparr>pv_UnrealizedPnl := _\<rparr>"]
      position_pnl_def [of "_\<lparr>pv_ValueUsd := _\<rparr>"]
      split: option.splits dest!: remark_pnl_change)

lemma remark_positions_change:
  assumes "remark_positions mids ps (s, m, a, out) = (s', m', a', out')"
  shows "dval s' - dval s = pnl_total out' - pnl_total out - pnl_total ps
     \<and> length out' = length out + length ps"
  using assms
proof (induction ps arbitrary: s m a out)
  case Nil
  then show ?case by (simp add: pnl_total_def)
next
  case (Cons p ps)
  show ?case
  proof (cases "remarkProjectedPosition p mids")
    case None
    then show ?thesis using Cons.prems Cons.IH [of s m _ "out @ [p]"]
      by (auto simp: pnl_total_def algebra_simps)
  next
    case (Some qd)
    obtain q d where qd: "qd = (q, d)" by fastforce
    have "dval d = position_pnl q - position_pnl p"
      using Some qd remarkProjectedPosition_change by blast
    then show ?thesis using Cons.prems Cons.IH [of "dec_add s d" True a "out @ [q]"] Some qd
      by (auto simp: pnl_total_def algebra_simps)
  qed
qed

lemma RevalueProjectedValuation_cases:
  obtains "RevalueProjectedValuation v mids = v"
  | shift where "dval shift = pnl_total (prv_Positions (RevalueProjectedValuation v mids))
        - pnl_total (prv_Positions v)"
      "prv_Equity (RevalueProjectedValuation v mids) = shifted shift (prv_Equity v)"
      "prv_UnrealizedValue (RevalueProjectedValuation v mids) = shifted shift (prv_UnrealizedValue v)"
      "prv_Pnl (RevalueProjectedValuation v mids) = map_option (shifted_pnl shift) (prv_Pnl v)"
proof (cases "prv_PricingMode v = ''server'' \<or> prv_Positions v = []")
  case True
  then show ?thesis using that(1) by (simp add: RevalueProjectedValuation_def)
next
  case False
  obtain s m a ps where r: "remark_positions mids (prv_Positions v) (decZero, False, True, []) = (s, m, a, ps)"
    by (metis prod_cases4)
  show ?thesis
  proof (cases m)
    case True
    then have out: "RevalueProjectedValuation v mids =
        v\<lparr>prv_Positions := ps, prv_Equity := shifted s (prv_Equity v),
          prv_UnrealizedValue := shifted s (prv_UnrealizedValue v),
          prv_MidsComplete := (if prv_MidsComplete v = Some False \<and> a then None else prv_MidsComplete v),
          prv_Pnl := map_option (shifted_pnl s) (prv_Pnl v)\<rparr>"
      using False r by (simp add: RevalueProjectedValuation_def)
    show ?thesis
      by (rule that(2) [of s]) (use remark_positions_change [OF r] in \<open>simp_all add: out pnl_total_def\<close>)
  next
    case m: False
    then show ?thesis using False r that(1) by (simp add: RevalueProjectedValuation_def)
  qed
qed

lemma figure_shifted_pnl:
  "figure (pp_PnlUsd (shifted_pnl s p)) =
     (if pp_Status p = WindowedPending then figure (pp_PnlUsd p)
      else map_option (\<lambda>x. x + dval s) (figure (pp_PnlUsd p)))"
  by (cases "pp_PnlUsd p"; cases "parseDecPtr (pp_PnlUsd p)")
    (auto simp: shifted_pnl_def figure_shifted, auto simp: figure_def parseDecPtr_def)

text \<open>C4: re-marking a projected row moves every price-derived figure (equity, unrealized value and a
  windowed P&L that is not pending) by exactly the change of the summed position P&L between the
  delivered row and the new one, in exact arithmetic; a figure that does not parse stays as it was.\<close>

theorem revalue_shifts_figures_by_pnl_change:
  "let out = RevalueProjectedValuation v mids;
       shift_by = map_option (\<lambda>x. x + (pnl_total (prv_Positions out) - pnl_total (prv_Positions v)))
   in figure (prv_Equity out) = shift_by (figure (prv_Equity v))
     \<and> figure (prv_UnrealizedValue out) = shift_by (figure (prv_UnrealizedValue v))
     \<and> map_option (\<lambda>p. figure (pp_PnlUsd p)) (prv_Pnl out)
         = map_option (\<lambda>p. if pp_Status p = WindowedPending then figure (pp_PnlUsd p)
                            else shift_by (figure (pp_PnlUsd p))) (prv_Pnl v)
     \<and> prv_Volume out = prv_Volume v \<and> prv_RealizedValue out = prv_RealizedValue v"
proof -
  define out where "out = RevalueProjectedValuation v mids"
  have frame: "prv_Volume out = prv_Volume v \<and> prv_RealizedValue out = prv_RealizedValue v"
    by (simp add: out_def RevalueProjectedValuation_def split: prod.splits)
  show ?thesis
  proof (cases rule: RevalueProjectedValuation_cases [of v mids])
    case 1
    then show ?thesis by (simp add: option.map_ident cong: if_cong)
  next
    case (2 s)
    note r = 2 [folded out_def]
    show ?thesis
      unfolding out_def [symmetric] Let_def r(1) [symmetric] using frame
      by (simp add: r(2-4) figure_shifted option.map_comp comp_def figure_shifted_pnl)
  qed
qed

end
