(* ===== verification/Accounting.thy ===== *)
theory Accounting
  imports Go_Numbers "HOL-Library.List_Lexorder" "HOL-Library.Char_ord"
begin

text \<open>
  Composition of an exchange observation with the executions the ledger has not recorded yet
  (\<^verbatim>\<open>accounting_pending.go\<close>).  The specification is a book: for every market the signed quantity of the
  ledger plus the signed unaccounted quantities.  The lemmas show that the composed rows implement
  that book, so that it is the same on every frame between an execution and its settlement, and that
  a malformed entry neither invents nor erases a position.
\<close>

section \<open>Data\<close>

record AccountingPendingExecution =
  ape_OperationID :: gostring
  ape_OrderID :: gostring
  ape_Market :: gostring
  ape_Side :: gostring
  ape_ExecutedSize :: gostring
  ape_AccountedSize :: gostring
  ape_UnaccountedSize :: gostring
  ape_ExecutionFinal :: bool
  ape_AveragePrice :: gostring

record SimPosition =
  sp_ID :: gostring
  sp_AccountID :: gostring
  sp_RealmID :: gostring
  sp_Market :: gostring
  sp_Side :: gostring
  sp_Size :: gostring
  sp_EntryPrice :: gostring
  sp_Leverage :: int
  sp_MarginUsed :: gostring
  sp_MarginMode :: gostring

definition Long :: gostring where "Long = ''long''"
definition Short :: gostring where "Short = ''short''"

datatype ProjectedPositionSource = ProjectedFromLedger | ProjectedFromExecution

record ProjectedPosition =
  pr_Market :: gostring
  pr_Side :: gostring
  pr_Size :: gostring
  pr_EntryPrice :: gostring
  pr_Source :: ProjectedPositionSource
  pr_Ledger :: "SimPosition option"
  pr_Pending :: "AccountingPendingExecution list"

section \<open>Operations\<close>

text \<open>\<^verbatim>\<open>SignedUnaccounted\<close>: the quantity an entry adds to its market; \<^const>\<open>None\<close> when it cannot be read.\<close>

definition SignedUnaccounted :: "AccountingPendingExecution \<Rightarrow> rat option" where
  "SignedUnaccounted e =
     (case rat_set_string (TrimSpace (ape_UnaccountedSize e)) of
        None \<Rightarrow> None
      | Some sz \<Rightarrow>
          if sz < 0 then None
          else if ToLower (ape_Side e) \<in> {''buy'', ''long''} then Some sz
          else if ToLower (ape_Side e) \<in> {''sell'', ''short''} then Some (- sz)
          else None)"

text \<open>\<^verbatim>\<open>blendedEntry\<close>: the entry price after applying \<^verbatim>\<open>delta\<close> to a position held at \<^verbatim>\<open>entry\<close>.\<close>

definition priced :: "gostring \<Rightarrow> rat option" where
  "priced averagePrice =
     (case rat_set_string (TrimSpace averagePrice) of
        Some price \<Rightarrow> if price > 0 then Some price else None
      | None \<Rightarrow> None)"

definition blendedEntry :: "rat \<Rightarrow> rat option \<Rightarrow> rat \<Rightarrow> gostring \<Rightarrow> rat option" where
  "blendedEntry held entry delta averagePrice =
     (let next_q = held + delta in
      if held = 0 \<or> next_q = 0 then priced averagePrice
      else if sgn held \<noteq> sgn next_q then priced averagePrice
      else if sgn delta \<noteq> sgn held then entry
      else
        (case (entry, priced averagePrice) of
           (Some e, Some price) \<Rightarrow>
             Some ((\<bar>held\<bar> * e + \<bar>delta\<bar> * price) / (\<bar>held\<bar> + \<bar>delta\<bar>))
         | _ \<Rightarrow> None))"

definition rat_is_int :: "rat \<Rightarrow> bool" where
  "rat_is_int r \<longleftrightarrow> snd (quotient_of r) = 1"

definition ratDecimal :: "rat \<Rightarrow> gostring" where
  "ratDecimal r =
     (if rat_is_int r then show_int (fst (quotient_of r))
      else TrimSuffix (TrimRightFunc (\<lambda>c. c = CHR ''0'') (FloatString r 18)) ''.'')"

text \<open>
  \<^verbatim>\<open>composeProjectedPosition\<close>: \<^const>\<open>None\<close> when an entry cannot be parsed, \<^term>\<open>Some None\<close> when the
  market composes to flat.  The ledger row gives the start quantity, entry and market.
\<close>

definition ledger_start :: "SimPosition option \<Rightarrow> (gostring \<times> rat \<times> rat option) option" where
  "ledger_start ledger =
     (case ledger of
        None \<Rightarrow> Some ([], 0, None)
      | Some p \<Rightarrow>
          (case rat_set_string (TrimSpace (sp_Size p)) of
             None \<Rightarrow> None
           | Some sz \<Rightarrow>
               Some (sp_Market p, if sp_Side p = Short then - sz else sz,
                     case rat_set_string (TrimSpace (sp_EntryPrice p)) of
                       Some px \<Rightarrow> if px > 0 then Some px else None
                     | None \<Rightarrow> None)))"

fun compose_loop ::
    "AccountingPendingExecution list \<Rightarrow> gostring \<times> rat \<times> rat option
       \<Rightarrow> (gostring \<times> rat \<times> rat option) option" where
  "compose_loop [] st = Some st"
| "compose_loop (e # es) (market, signed, entry) =
     (case SignedUnaccounted e of
        None \<Rightarrow> None
      | Some delta \<Rightarrow>
          compose_loop es
            (if market = [] then ape_Market e else market, signed + delta,
             blendedEntry signed entry delta (ape_AveragePrice e)))"

definition composeProjectedPosition ::
    "SimPosition option \<Rightarrow> AccountingPendingExecution list \<Rightarrow> ProjectedPosition option option" where
  "composeProjectedPosition ledger pending =
     (case ledger_start ledger of
        None \<Rightarrow> None
      | Some st0 \<Rightarrow>
        (case compose_loop pending st0 of
           None \<Rightarrow> None
         | Some (market, signed, entry) \<Rightarrow>
             Some (if signed = 0 then None
                   else Some \<lparr>pr_Market = market,
                              pr_Side = (if signed < 0 then Short else Long),
                              pr_Size = ratDecimal \<bar>signed\<bar>,
                              pr_EntryPrice = (case entry of Some px \<Rightarrow> ratDecimal px | None \<Rightarrow> []),
                              pr_Source = ProjectedFromExecution,
                              pr_Ledger = ledger,
                              pr_Pending = pending\<rparr>)))"

definition pending_of :: "AccountingPendingExecution list \<Rightarrow> gostring \<Rightarrow> AccountingPendingExecution list" where
  "pending_of pendings market = filter (\<lambda>e. ape_Market e = market) pendings"

definition ledger_row :: "SimPosition \<Rightarrow> ProjectedPosition" where
  "ledger_row p =
     \<lparr>pr_Market = sp_Market p, pr_Side = sp_Side p, pr_Size = sp_Size p,
      pr_EntryPrice = sp_EntryPrice p, pr_Source = ProjectedFromLedger,
      pr_Ledger = Some p, pr_Pending = []\<rparr>"

text \<open>The row of one ledger position: verbatim, composed, or dropped when it composes to flat.\<close>

definition ledger_rows :: "AccountingPendingExecution list \<Rightarrow> SimPosition \<Rightarrow> ProjectedPosition list" where
  "ledger_rows pendings p =
     (let pending = pending_of pendings (sp_Market p) in
      if pending = [] then [ledger_row p]
      else (case composeProjectedPosition (Some p) pending of
              None \<Rightarrow> [ledger_row p]
            | Some None \<Rightarrow> []
            | Some (Some composed) \<Rightarrow> [composed]))"

definition opened_rows :: "AccountingPendingExecution list \<Rightarrow> gostring \<Rightarrow> ProjectedPosition list" where
  "opened_rows pendings market =
     (case composeProjectedPosition None (pending_of pendings market) of
        Some (Some composed) \<Rightarrow> [composed]
      | _ \<Rightarrow> [])"

definition opened_markets :: "SimPosition list \<Rightarrow> AccountingPendingExecution list \<Rightarrow> gostring list" where
  "opened_markets positions pendings =
     sort (remdups (filter (\<lambda>m. m \<notin> sp_Market ` set positions) (map ape_Market pendings)))"

text \<open>\<^verbatim>\<open>ProjectedPositions\<close>, on the observation's positions and pending executions.\<close>

definition ProjectedPositions ::
    "SimPosition list \<Rightarrow> AccountingPendingExecution list \<Rightarrow> ProjectedPosition list" where
  "ProjectedPositions positions pendings =
     concat (map (ledger_rows pendings) positions)
     @ concat (map (opened_rows pendings) (opened_markets positions pendings))"

definition AccountingSettled :: "AccountingPendingExecution list \<Rightarrow> bool" where
  "AccountingSettled pendings \<longleftrightarrow> length pendings = 0"

section \<open>Exactness of the printed quantity\<close>

lemma length_show_nat: "n < 10 ^ k \<Longrightarrow> 0 < k \<Longrightarrow> length (show_nat n) \<le> k"
proof (induction k arbitrary: n)
  case (Suc k)
  show ?case
  proof (cases "n < 10")
    case True
    then show ?thesis by (subst show_nat.simps) simp
  next
    case False
    then have "0 < k" using Suc.prems by (cases k) auto
    moreover have "n div 10 < 10 ^ k" using Suc.prems by (simp add: less_mult_imp_div_less)
    ultimately show ?thesis using Suc.IH [of "n div 10"] False by (subst show_nat.simps) simp
  qed
qed simp

lemma pad_left_digits:
  assumes "n < 10 ^ k" "0 < k"
  shows "length (pad_left k (show_nat n)) = k" "list_all is_digit (pad_left k (show_nat n))"
    "nat_of_digits (pad_left k (show_nat n)) = n"
  using length_show_nat [OF assms] show_nat_digits [of n]
  by (auto simp: pad_left_def nat_of_digits_append list_all_iff is_digit_def ascii_def)

lemma quotient_of_pos:
  assumes "quotient_of r = (a, b)" "0 < r"
  shows "0 < a" "0 < b" "r = of_int a / of_int b"
  using assms quotient_of_denom_pos [OF assms(1)] quotient_of_div [OF assms(1)]
  by (auto simp: zero_less_divide_iff)

lemma FloatString_exact:
  assumes q: "quotient_of r = (a, b)" "0 < r" "b \<noteq> 1" and ex: "r * 10 ^ k \<in> \<int>" and k: "0 < k"
  obtains w n where "FloatString r k = show_nat w @ CHR ''.'' # pad_left k (show_nat n)"
    "0 < n" "n < 10 ^ k" "r = of_nat w + of_nat n / 10 ^ k"
proof -
  note ab = quotient_of_pos [OF q(1,2)]
  define w where "w = a div b"
  define r0 where "r0 = (a mod b) * 10 ^ k"
  obtain z where z: "r * 10 ^ k = of_int z" using ex by (auto elim: Ints_cases)
  then have "of_int (a * 10 ^ k) = (of_int (z * b) :: rat)" using ab by (simp add: field_simps)
  then have "a * 10 ^ k = z * b" by (simp only: of_int_eq_iff)
  moreover have "a * 10 ^ k = w * b * 10 ^ k + r0"
    by (simp add: w_def r0_def distrib_right [symmetric])
  ultimately have "r0 = (z - w * 10 ^ k) * b" by (simp add: algebra_simps)
  then have dv: "b dvd r0" by simp
  have md: "0 \<le> a mod b" "a mod b < b" using ab by simp_all
  have cp: "coprime a b" using q(1) by (rule quotient_of_coprime)
  have "a mod b \<noteq> 0"
  proof
    assume "a mod b = 0"
    then have "b dvd a" by (simp add: mod_eq_0_iff_dvd)
    then have "is_unit b" using coprime_common_divisor [OF cp, of b] by simp
    then show False using ab q(3) by simp
  qed
  then have pos: "0 < a mod b" using md by simp
  define m where "m = r0 div b"
  have mb: "r0 = m * b" using dv by (simp add: m_def)
  have "0 < m * b" using pos by (simp add: mb [symmetric] r0_def)
  then have m0: "0 < m" using ab by (simp add: zero_less_mult_iff)
  have "(a mod b) * 10 ^ k < b * 10 ^ k" using md by (intro mult_strict_right_mono) auto
  then have "m * b < 10 ^ k * b" using mb by (simp only: r0_def mult.commute)
  then have m1: "m < 10 ^ k" by (rule mult_right_less_imp_less) (use ab in simp)
  have w0: "0 \<le> w" using ab by (simp add: w_def pos_imp_zdiv_nonneg_iff)
  have str: "FloatString r k = show_nat (nat w) @ CHR ''.'' # pad_left k (show_nat (nat m))"
    using q ab k dv by (simp add: FloatString_def Let_def w_def m_def r0_def)
  have "of_int a = (of_int (w * b + a mod b) :: rat)" by (simp add: w_def)
  then have "r = of_int w + of_int (a mod b) / of_int b"
    using ab by (simp add: field_simps)
  moreover have "of_int (a mod b) / of_int b = (of_int m / 10 ^ k :: rat)"
  proof -
    have "(of_int (a mod b) * 10 ^ k :: rat) = of_int m * of_int b"
      using mb by (metis of_int_mult of_int_numeral of_int_power r0_def)
    then show ?thesis using ab by (simp add: field_simps)
  qed
  ultimately have "r = of_nat (nat w) + of_nat (nat m) / 10 ^ k" using w0 m0 by simp
  then show ?thesis using that [of "nat w" "nat m"] str m0 m1 by (simp add: nat_less_iff)
qed

lemma ratDecimal_exact:
  assumes "0 < r" and ex: "r * 10 ^ 18 \<in> \<int>"
  shows "executionDecimal (ratDecimal r) \<and> rat_set_string (ratDecimal r) = Some r"
proof -
  obtain a b where q: "quotient_of r = (a, b)" by fastforce
  note ab = quotient_of_pos [OF q assms(1)]
  show ?thesis
  proof (cases "b = 1")
    case True
    let ?s = "show_nat (nat a)"
    have s: "ratDecimal r = ?s" using True q ab by (simp add: ratDecimal_def rat_is_int_def show_int_def)
    have "CHR ''.'' \<notin> set ?s"
      using show_nat_digits [of "nat a"] by (auto simp: list_all_iff is_digit_def ascii_def)
    then have cut: "CutByte (CHR ''.'') ?s = (?s, [], False)" by (rule CutByte_notin)
    have d: "executionDecimal ?s" by (simp add: executionDecimal_def cut)
    then have "rat_set_string ?s = Some (decimal_value ?s)"
      by (rule rat_set_string_decimal) (simp add: cut frac_digits_def)
    then show ?thesis using d s cut True ab by (simp add: decimal_value_def)
  next
    case False
    obtain w n where str: "FloatString r 18 = show_nat w @ CHR ''.'' # pad_left 18 (show_nat n)"
      and n: "0 < n" "n < 10 ^ 18" and r: "r = of_nat w + of_nat n / 10 ^ 18"
      by (rule FloatString_exact [OF q assms(1) False ex]) auto
    let ?f = "pad_left 18 (show_nat n)"
    let ?t = "TrimRightFunc (\<lambda>c. c = CHR ''0'') ?f"
    note f = pad_left_digits [OF n(2)]
    have nz: "nat_of_digits ?f \<noteq> 0" using f(3) n(1) by simp
    note tr = trimmed_fraction [OF show_nat_digits show_nat_not_Nil f(2) nz, simplified]
    have trim: "TrimRightFunc (\<lambda>c. c = CHR ''0'') (FloatString r 18) = show_nat w @ CHR ''.'' # ?t"
      using TrimRight_append [OF tr(1), of "show_nat w @ ''.''"] str by simp
    have "last ?t \<noteq> CHR ''.''"
      using set_TrimRight [OF last_in_set [OF tr(1)]] digit_list_no_dot [OF f(2)] by auto
    then have "\<not> suffix ''.'' (show_nat w @ CHR ''.'' # ?t)"
      using tr(1) by (auto simp: suffix_def dest!: arg_cong [where f = last])
    then have s: "ratDecimal r = show_nat w @ CHR ''.'' # ?t"
      using False q trim by (simp add: ratDecimal_def rat_is_int_def TrimSuffix_def)
    have "frac_digits (ratDecimal r) \<le> 1000000" using tr(3) [of w] f(1) by (simp add: s)
    then have "rat_set_string (ratDecimal r) = Some (decimal_value (ratDecimal r))"
      using tr(2) [of w] by (simp add: s rat_set_string_decimal)
    moreover have "decimal_value (ratDecimal r) = of_nat (nat_of_digits (show_nat w @ ?f)) / 10 ^ 18"
      using tr(4) [of w] f(1) by (simp add: s field_simps)
    moreover have "executionDecimal (ratDecimal r)" using tr(2) [of w] by (simp add: s)
    ultimately show ?thesis using f r by (simp add: nat_of_digits_append add_divide_distrib)
  qed
qed

section \<open>The book\<close>

definition qty :: "rat option \<Rightarrow> rat" where
  "qty q = (case q of Some x \<Rightarrow> x | None \<Rightarrow> 0)"

lemma qty_simps [simp]: "qty (Some x) = x" "qty None = 0"
  by (simp_all add: qty_def)

text \<open>The signed quantity of a ledger position and of a projected row, as a reader parses them.\<close>

definition position_qty :: "SimPosition \<Rightarrow> rat option" where
  "position_qty p =
     map_option (\<lambda>q. if sp_Side p = Short then - q else q) (rat_set_string (TrimSpace (sp_Size p)))"

definition row_qty :: "ProjectedPosition \<Rightarrow> rat" where
  "row_qty r = qty (map_option (\<lambda>q. if pr_Side r = Short then - q else q)
                      (rat_set_string (TrimSpace (pr_Size r))))"

definition book_of :: "ProjectedPosition list \<Rightarrow> gostring \<Rightarrow> rat" where
  "book_of rows m = sum_list (map row_qty (filter (\<lambda>r. pr_Market r = m) rows))"

definition pend_qty :: "AccountingPendingExecution list \<Rightarrow> rat" where
  "pend_qty es = sum_list (map (\<lambda>e. qty (SignedUnaccounted e)) es)"

text \<open>The specification: ledger quantity plus unaccounted executions, market by market.\<close>

definition spec_book :: "SimPosition list \<Rightarrow> AccountingPendingExecution list \<Rightarrow> gostring \<Rightarrow> rat" where
  "spec_book ps es m =
     sum_list (map (\<lambda>p. qty (position_qty p)) (filter (\<lambda>p. sp_Market p = m) ps))
     + pend_qty (pending_of es m)"

definition exact18 :: "rat option \<Rightarrow> bool" where
  "exact18 q = (case q of None \<Rightarrow> False | Some x \<Rightarrow> rat_is_int (x * 10 ^ 18))"

definition wf_observation :: "SimPosition list \<Rightarrow> AccountingPendingExecution list \<Rightarrow> bool" where
  "wf_observation ps es \<longleftrightarrow>
     distinct (map sp_Market ps)
     \<and> list_all (\<lambda>p. exact18 (position_qty p)) ps
     \<and> list_all (\<lambda>e. exact18 (SignedUnaccounted e)) es"

lemma rat_is_int_Ints: "rat_is_int x \<longleftrightarrow> x \<in> \<int>"
proof
  assume "rat_is_int x"
  then obtain a where "quotient_of x = (a, 1)" by (cases "quotient_of x") (auto simp: rat_is_int_def)
  then have "x = of_int a" using quotient_of_div by fastforce
  then show "x \<in> \<int>" by simp
next
  assume "x \<in> \<int>"
  then obtain a where "x = of_int a" by (rule Ints_cases)
  then show "rat_is_int x" by (simp add: rat_is_int_def)
qed

lemma exact18E:
  assumes "exact18 q" obtains x where "q = Some x" "x * 10 ^ 18 \<in> \<int>"
  using assms by (auto simp: exact18_def rat_is_int_Ints split: option.splits)

lemma ledger_start_qty:
  "ledger_start (Some p) = Some (m, q, e) \<Longrightarrow> m = sp_Market p \<and> position_qty p = Some q"
  by (auto simp: ledger_start_def position_qty_def split: option.splits)

lemma ledger_start_Some: "position_qty p = Some q \<Longrightarrow> \<exists>e. ledger_start (Some p) = Some (sp_Market p, q, e)"
  by (auto simp: ledger_start_def position_qty_def split: option.splits)

lemma compose_loop_qty:
  assumes "list_all (\<lambda>e. SignedUnaccounted e \<noteq> None) es"
    and "\<forall>e \<in> set es. ape_Market e = m"
  shows "\<exists>en'. compose_loop es (m0, s, en) =
      Some (if m0 = [] \<and> es \<noteq> [] then m else m0, s + pend_qty es, en')"
  using assms
proof (induction es arbitrary: m0 s en)
  case (Cons e es)
  then obtain d where d: "SignedUnaccounted e = Some d" by auto
  have es: "list_all (\<lambda>e. SignedUnaccounted e \<noteq> None) es" "\<forall>e \<in> set es. ape_Market e = m"
    and e: "ape_Market e = m" using Cons.prems by simp_all
  obtain en' where "compose_loop es (if m0 = [] then m else m0, s + d,
        blendedEntry s en d (ape_AveragePrice e)) =
      Some (if (if m0 = [] then m else m0) = [] \<and> es \<noteq> [] then m else (if m0 = [] then m else m0),
            s + d + pend_qty es, en')"
    using Cons.IH [OF es] by blast
  then show ?case using d e by (cases "m0 = []") (auto simp: pend_qty_def algebra_simps)
qed (simp add: pend_qty_def)

lemma executionDecimal_trim: "executionDecimal s \<Longrightarrow> TrimSpace s = s"
  by (erule executionDecimalE, rule TrimSpace_no_space)
    (auto simp: list_all_iff is_digit_not_space split: if_splits)

lemma row_qty_ratDecimal:
  assumes "x \<noteq> 0" "x * 10 ^ 18 \<in> \<int>"
  shows "qty (map_option (\<lambda>q. if (if x < 0 then Short else Long) = Short then - q else q)
            (rat_set_string (TrimSpace (ratDecimal \<bar>x\<bar>)))) = x"
proof -
  have "0 < \<bar>x\<bar>" "\<bar>x\<bar> * 10 ^ 18 \<in> \<int>"
    using assms by (auto simp: abs_if)
  then have "executionDecimal (ratDecimal \<bar>x\<bar>) \<and> rat_set_string (ratDecimal \<bar>x\<bar>) = Some \<bar>x\<bar>"
    by (rule ratDecimal_exact)
  then show ?thesis by (auto simp: executionDecimal_trim Long_def Short_def)
qed

text \<open>What composing a market yields, when everything about it parses: its quantity, exactly.\<close>

lemma compose_book:
  assumes start: "ledger_start l = Some (m0, q, en)" "m0 = m \<or> (m0 = [] \<and> es \<noteq> [])"
    and q: "q * 10 ^ 18 \<in> \<int>"
    and es: "list_all (\<lambda>e. exact18 (SignedUnaccounted e)) es" "\<forall>e \<in> set es. ape_Market e = m"
  shows "\<exists>r. composeProjectedPosition l es = Some r
     \<and> (case r of None \<Rightarrow> q + pend_qty es = 0
         | Some row \<Rightarrow> pr_Market row = m \<and> row_qty row = q + pend_qty es)"
proof -
  have some: "list_all (\<lambda>e. SignedUnaccounted e \<noteq> None) es"
    using es(1) by (auto simp: list_all_iff exact18_def split: option.splits)
  obtain en' where loop: "compose_loop es (m0, q, en) =
      Some (if m0 = [] \<and> es \<noteq> [] then m else m0, q + pend_qty es, en')"
    using compose_loop_qty [OF some es(2), of m0 q en] by blast
  have mk: "(if m0 = [] \<and> es \<noteq> [] then m else m0) = m" using start(2) by auto
  have "pend_qty es * 10 ^ 18 \<in> \<int>" using es(1)
    by (induction es) (auto simp: pend_qty_def distrib_right elim!: exact18E)
  then have ex: "(q + pend_qty es) * 10 ^ 18 \<in> \<int>" using q by (simp add: distrib_right)
  show ?thesis
    using start(1) loop mk row_qty_ratDecimal [OF _ ex]
    by (auto simp: composeProjectedPosition_def row_qty_def)
qed

lemma pending_of_market: "\<forall>e \<in> set (pending_of es m). ape_Market e = m"
  by (simp add: pending_of_def)

lemma pending_of_wf: "list_all P es \<Longrightarrow> list_all P (pending_of es m)"
  by (auto simp: pending_of_def list_all_iff)

lemma book_of_append [simp]: "book_of (a @ b) m = book_of a m + book_of b m"
  by (simp add: book_of_def)

lemma book_of_concat: "book_of (concat xss) m = sum_list (map (\<lambda>xs. book_of xs m) xss)"
  by (induction xss) (simp_all add: book_of_def)

lemma book_of_ledger_rows:
  assumes p: "exact18 (position_qty p)" and es: "list_all (\<lambda>e. exact18 (SignedUnaccounted e)) es"
  shows "book_of (ledger_rows es p) m =
    (if sp_Market p = m then qty (position_qty p) + pend_qty (pending_of es m) else 0)"
proof -
  let ?m = "sp_Market p" and ?pe = "pending_of es (sp_Market p)"
  obtain q where q: "position_qty p = Some q" "q * 10 ^ 18 \<in> \<int>" using p by (rule exact18E)
  obtain en where st: "ledger_start (Some p) = Some (?m, q, en)" using ledger_start_Some [OF q(1)] by blast
  obtain r where r: "composeProjectedPosition (Some p) ?pe = Some r"
    "case r of None \<Rightarrow> q + pend_qty ?pe = 0
     | Some row \<Rightarrow> pr_Market row = ?m \<and> row_qty row = q + pend_qty ?pe"
    using compose_book [OF st _ q(2) pending_of_wf [OF es] pending_of_market] by blast
  show ?thesis
  proof (cases "?pe = []")
    case True
    have "row_qty (ledger_row p) = q"
      using q(1) by (auto simp: row_qty_def ledger_row_def position_qty_def)
    then show ?thesis using True q by (auto simp: ledger_rows_def book_of_def ledger_row_def pend_qty_def)
  next
    case False
    show ?thesis
    proof (cases r)
      case None
      then have "ledger_rows es p = []" using False r(1) by (simp add: ledger_rows_def Let_def)
      then show ?thesis using None r(2) q(1) by (auto simp: book_of_def)
    next
      case (Some row)
      then have "ledger_rows es p = [row]" using False r(1) by (simp add: ledger_rows_def Let_def)
      then show ?thesis using Some r(2) q(1) by (auto simp: book_of_def)
    qed
  qed
qed

lemma book_of_opened_rows:
  assumes es: "list_all (\<lambda>e. exact18 (SignedUnaccounted e)) es" and m': "pending_of es m' \<noteq> []"
  shows "book_of (opened_rows es m') m = (if m' = m then pend_qty (pending_of es m) else 0)"
proof -
  have st: "ledger_start None = Some ([], 0, None)" by (simp add: ledger_start_def)
  obtain r where "composeProjectedPosition None (pending_of es m') = Some r"
    "case r of None \<Rightarrow> 0 + pend_qty (pending_of es m') = 0
     | Some row \<Rightarrow> pr_Market row = m' \<and> row_qty row = 0 + pend_qty (pending_of es m')"
    using compose_book [OF st _ _ pending_of_wf [OF es] pending_of_market] m' by auto
  then show ?thesis by (auto simp: opened_rows_def book_of_def split: option.splits)
qed

lemma sum_list_one:
  assumes "distinct xs"
  shows "sum_list (map (\<lambda>x. if x = m then c else (0::rat)) xs) = (if m \<in> set xs then c else 0)"
  using assms by (induction xs) auto

lemma sum_list_markets:
  assumes "distinct (map sp_Market ps)"
  shows "sum_list (map (\<lambda>p. if sp_Market p = m then f p + c else (0::rat)) ps) =
     sum_list (map f (filter (\<lambda>p. sp_Market p = m) ps)) + (if m \<in> sp_Market ` set ps then c else 0)"
  using assms by (induction ps) (auto simp: image_iff)

lemma pend_qty_none: "m \<notin> ape_Market ` set es \<Longrightarrow> pend_qty (pending_of es m) = 0"
proof -
  assume "m \<notin> ape_Market ` set es"
  then have "pending_of es m = []" by (auto simp: pending_of_def filter_empty_conv)
  then show ?thesis by (simp add: pend_qty_def)
qed

lemma ProjectedPositions_book:
  assumes "wf_observation ps es"
  shows "book_of (ProjectedPositions ps es) m = spec_book ps es m"
proof -
  have d: "distinct (map sp_Market ps)" and ps: "\<forall>p \<in> set ps. exact18 (position_qty p)"
    and es: "list_all (\<lambda>e. exact18 (SignedUnaccounted e)) es"
    using assms by (auto simp: wf_observation_def list_all_iff)
  let ?c = "pend_qty (pending_of es m)" and ?om = "opened_markets ps es"
  have "book_of (concat (map (ledger_rows es) ps)) m
      = sum_list (map (\<lambda>p. if sp_Market p = m then qty (position_qty p) + ?c else 0) ps)"
    using ps es by (auto simp: book_of_concat book_of_ledger_rows intro!: arg_cong [of _ _ sum_list])
  then have ledger: "book_of (concat (map (ledger_rows es) ps)) m =
      sum_list (map (\<lambda>p. qty (position_qty p)) (filter (\<lambda>p. sp_Market p = m) ps))
      + (if m \<in> sp_Market ` set ps then ?c else 0)"
    using sum_list_markets [OF d, of m "\<lambda>p. qty (position_qty p)" ?c] by simp
  have om: "distinct ?om" "set ?om = ape_Market ` set es - sp_Market ` set ps"
    by (auto simp: opened_markets_def)
  have "pending_of es m' \<noteq> []" if "m' \<in> set ?om" for m'
    using that om by (auto simp: pending_of_def filter_empty_conv)
  then have "book_of (concat (map (opened_rows es) ?om)) m
      = sum_list (map (\<lambda>m'. if m' = m then ?c else 0) ?om)"
    using es by (auto simp: book_of_concat book_of_opened_rows intro!: arg_cong [of _ _ sum_list])
  then have "book_of (concat (map (opened_rows es) ?om)) m = (if m \<in> set ?om then ?c else 0)"
    using sum_list_one [OF om(1)] by simp
  then show ?thesis
    using ledger om(2) pend_qty_none [of m es] by (auto simp: ProjectedPositions_def spec_book_def)
qed

section \<open>Malformed entries and entry prices\<close>

lemma compose_loop_malformed:
  "\<exists>e \<in> set es. SignedUnaccounted e = None \<Longrightarrow> compose_loop es (m, s, en) = None"
  by (induction es arbitrary: m s en) (auto split: option.splits)

lemma compose_malformed:
  "\<exists>e \<in> set es. SignedUnaccounted e = None \<Longrightarrow> composeProjectedPosition l es = None"
  by (auto simp: composeProjectedPosition_def compose_loop_malformed split: option.splits)

lemma compose_loop_market:
  "compose_loop es (m0, s, en) = Some (m', s', en') \<Longrightarrow> \<forall>e \<in> set es. ape_Market e = m \<Longrightarrow>
     m0 = m \<or> (m0 = [] \<and> es \<noteq> []) \<Longrightarrow> m' = m"
proof (induction es arbitrary: m0 s en)
  case (Cons e es)
  show ?case
  proof (cases "m0 = []")
    case True
    with Cons.prems obtain s1 en1 where "compose_loop es (m, s1, en1) = Some (m', s', en')"
      by (auto split: option.splits)
    then show ?thesis using Cons.IH [of m s1 en1] Cons.prems(2) by simp
  next
    case False
    with Cons.prems obtain s1 en1 where "compose_loop es (m, s1, en1) = Some (m', s', en')"
      by (auto split: option.splits)
    then show ?thesis using Cons.IH [of m s1 en1] Cons.prems(2) by simp
  qed
qed simp

lemma compose_market:
  assumes "composeProjectedPosition l (pending_of es m) = Some (Some r)" "pending_of es m \<noteq> []"
    and "case l of None \<Rightarrow> True | Some p \<Rightarrow> sp_Market p = m"
  shows "pr_Market r = m"
proof -
  obtain m0 s en where st: "ledger_start l = Some (m0, s, en)" and m0: "m0 = m \<or> m0 = []"
    using assms by (auto simp: composeProjectedPosition_def ledger_start_def split: option.splits)
  obtain m' s' en' where loop: "compose_loop (pending_of es m) (m0, s, en) = Some (m', s', en')"
    "pr_Market r = m'"
    using assms(1) st by (auto simp: composeProjectedPosition_def split: option.splits if_splits)
  then show ?thesis using compose_loop_market [OF loop(1) pending_of_market] m0 assms(2) by blast
qed

lemma ledger_rows_market: "r \<in> set (ledger_rows es p) \<Longrightarrow> pr_Market r = sp_Market p"
  by (auto simp: ledger_rows_def Let_def ledger_row_def split: if_splits option.splits
      intro: compose_market [of "Some p"])

lemma opened_rows_market:
  "r \<in> set (opened_rows es m) \<Longrightarrow> pending_of es m \<noteq> [] \<Longrightarrow> pr_Market r = m"
  by (auto simp: opened_rows_def split: option.splits intro: compose_market [of None])

lemma filter_concat_rows:
  assumes "\<And>p r. p \<in> set ps \<Longrightarrow> r \<in> set (f p) \<Longrightarrow> key r = k p"
  shows "filter (\<lambda>r. key r = m) (concat (map f ps)) = concat (map f (filter (\<lambda>p. k p = m) ps))"
  using assms
proof (induction ps)
  case (Cons p ps)
  have "filter (\<lambda>r. key r = m) (f p) = (if k p = m then f p else [])"
    using Cons.prems [of p] by (auto simp: filter_id_conv filter_empty_conv)
  then show ?case using Cons by simp
qed simp

lemma ProjectedPositions_malformed:
  assumes "pending_of es m = [] \<or> (\<exists>e \<in> set (pending_of es m). SignedUnaccounted e = None)"
  shows "filter (\<lambda>r. pr_Market r = m) (ProjectedPositions ps es) =
    map ledger_row (filter (\<lambda>p. sp_Market p = m) ps)"
proof -
  have row: "ledger_rows es p = [ledger_row p]" if "sp_Market p = m" for p
    using assms that compose_malformed [of "pending_of es m" "Some p"]
    by (cases "pending_of es m = []") (auto simp: ledger_rows_def Let_def)
  have none: "opened_rows es m = []" if "pending_of es m \<noteq> []"
    using assms that compose_malformed [of "pending_of es m" None] by (simp add: opened_rows_def)
  have ne: "pending_of es m' \<noteq> []" if "m' \<in> set (opened_markets ps es)" for m'
    using that by (auto simp: opened_markets_def pending_of_def filter_empty_conv)
  have "filter (\<lambda>r. pr_Market r = m) (concat (map (ledger_rows es) ps)) =
      concat (map (ledger_rows es) (filter (\<lambda>p. sp_Market p = m) ps))"
    by (rule filter_concat_rows) (rule ledger_rows_market)
  also have "\<dots> = map ledger_row (filter (\<lambda>p. sp_Market p = m) ps)"
    using row by (induction ps) auto
  finally have a: "filter (\<lambda>r. pr_Market r = m) (concat (map (ledger_rows es) ps)) =
      map ledger_row (filter (\<lambda>p. sp_Market p = m) ps)" .
  have "filter (\<lambda>r. pr_Market r = m) (concat (map (opened_rows es) (opened_markets ps es))) =
      concat (map (opened_rows es) (filter (\<lambda>m'. m' = m) (opened_markets ps es)))"
    by (rule filter_concat_rows) (use ne opened_rows_market in blast)
  also have "\<dots> = []" using none ne by (auto simp: concat_eq_Nil_conv)
  finally show ?thesis using a by (simp add: ProjectedPositions_def)
qed

lemma blend_between:
  fixes h d e p :: rat
  assumes "0 < h" "0 < d"
  shows "min e p \<le> (h * e + d * p) / (h + d) \<and> (h * e + d * p) / (h + d) \<le> max e p"
proof -
  have "(h + d) * min e p \<le> h * e + d * p" "h * e + d * p \<le> (h + d) * max e p"
    using assms by (auto simp: distrib_right min_def max_def)
  then show ?thesis using assms by (simp add: field_simps)
qed

lemma blendedEntry_cases:
  "held + delta \<noteq> 0 \<Longrightarrow> held \<noteq> 0 \<Longrightarrow> sgn held = sgn (held + delta) \<Longrightarrow> sgn delta \<noteq> sgn held \<Longrightarrow>
     blendedEntry held entry delta px = entry"
  "held = 0 \<or> held + delta = 0 \<or> sgn held \<noteq> sgn (held + delta) \<Longrightarrow>
     blendedEntry held entry delta px = priced px"
  "held \<noteq> 0 \<Longrightarrow> sgn delta = sgn held \<Longrightarrow> entry = Some e \<Longrightarrow> priced px = Some p \<Longrightarrow>
     blendedEntry held entry delta px = Some ((\<bar>held\<bar> * e + \<bar>delta\<bar> * p) / (\<bar>held\<bar> + \<bar>delta\<bar>))"
  by (auto simp: blendedEntry_def Let_def sgn_if split: if_splits)

section \<open>Properties\<close>

text \<open>C1: composing an observation's positions with its accounting-pending executions implements the book
  specification: for every market the signed quantity of the composed rows, read back from their
  printed size and side, is the ledger quantity plus the signed unaccounted quantities. The book is
  therefore a function of that sum alone, the same on the execution frame, on every per-fill frame and
  on the settled frame; markets that compose to zero read as zero.\<close>

theorem ProjectedPositions_refines_book:
  assumes "wf_observation ps es"
  shows "book_of (ProjectedPositions ps es) m = spec_book ps es m"
  using assms by (rule ProjectedPositions_book)

definition frame_position :: "gostring \<Rightarrow> gostring \<Rightarrow> SimPosition" where
  "frame_position side qt =
     \<lparr>sp_ID = ''p1'', sp_AccountID = ''a1'', sp_RealmID = ''r1'', sp_Market = ''hl:0:BTC'', sp_Side = side,
      sp_Size = qt, sp_EntryPrice = ''60000'', sp_Leverage = 5, sp_MarginUsed = ''1'', sp_MarginMode = ''cross''\<rparr>"

definition frame_pending :: "gostring \<Rightarrow> gostring \<Rightarrow> AccountingPendingExecution" where
  "frame_pending side qt =
     \<lparr>ape_OperationID = ''op1'', ape_OrderID = ''7'', ape_Market = ''hl:0:BTC'', ape_Side = side,
      ape_ExecutedSize = ''1.5'', ape_AccountedSize = ''0'', ape_UnaccountedSize = qt,
      ape_ExecutionFinal = True, ape_AveragePrice = ''60100''\<rparr>"

theorem ProjectedPositions_refines_book_witness:
  "book_of (ProjectedPositions [frame_position ''long'' ''0.5''] [frame_pending ''sell'' ''1.5'']) ''hl:0:BTC'' = -1
   \<and> book_of (ProjectedPositions [frame_position ''short'' ''0.25''] [frame_pending ''sell'' ''0.75'']) ''hl:0:BTC'' = -1
   \<and> book_of (ProjectedPositions [frame_position ''short'' ''1''] []) ''hl:0:BTC'' = -1"
proof -
  have a: "wf_observation [frame_position ''long'' ''0.5''] [frame_pending ''sell'' ''1.5'']"
    "spec_book [frame_position ''long'' ''0.5''] [frame_pending ''sell'' ''1.5''] ''hl:0:BTC'' = -1"
    by code_simp+
  have b: "wf_observation [frame_position ''short'' ''0.25''] [frame_pending ''sell'' ''0.75'']"
    "spec_book [frame_position ''short'' ''0.25''] [frame_pending ''sell'' ''0.75''] ''hl:0:BTC'' = -1"
    by code_simp+
  have c: "wf_observation [frame_position ''short'' ''1''] []"
    "spec_book [frame_position ''short'' ''1''] [] ''hl:0:BTC'' = -1"
    by code_simp+
  show ?thesis
    using a b c by (simp add: ProjectedPositions_refines_book)
qed

text \<open>C2: a malformed entry can never invent or erase a position: when one pending execution of a market
  cannot be read (or there is none), the rows shown for that market are exactly its ledger rows, in
  order and verbatim, whatever the other markets' entries are.\<close>

theorem malformed_entry_keeps_ledger_rows:
  assumes "pending_of es m = [] \<or> (\<exists>e \<in> set (pending_of es m). SignedUnaccounted e = None)"
  shows "filter (\<lambda>r. pr_Market r = m) (ProjectedPositions ps es) =
    map ledger_row (filter (\<lambda>p. sp_Market p = m) ps)"
  using assms by (rule ProjectedPositions_malformed)

theorem malformed_entry_keeps_ledger_rows_witness:
  "filter (\<lambda>r. pr_Market r = ''hl:0:BTC'')
     (ProjectedPositions [frame_position ''long'' ''0.5''] [frame_pending ''sell'' ''0.5'', frame_pending ''sell'' ''-1'']) =
   [ledger_row (frame_position ''long'' ''0.5'')]"
proof -
  have "pending_of [frame_pending ''sell'' ''0.5'', frame_pending ''sell'' ''-1''] ''hl:0:BTC'' =
      [frame_pending ''sell'' ''0.5'', frame_pending ''sell'' ''-1'']"
    "SignedUnaccounted (frame_pending ''sell'' ''-1'') = None"
    by code_simp+
  then show ?thesis
    by (subst malformed_entry_keeps_ledger_rows) (simp_all add: frame_position_def)
qed

text \<open>C3: the entry price of a composed position: a reduction on the same side keeps it, an opening, a
  closing or a reversal takes the execution's positive average price or becomes unknown, and an
  increase with both prices known preserves notional exactly and lies between the two prices.\<close>

theorem blendedEntry_spec:
  "if held = 0 \<or> held + delta = 0 then blendedEntry held entry delta px = priced px
   else if sgn held = sgn (held + delta) then
     if sgn delta = sgn held then
       (case (entry, priced px) of
           (Some e, Some p) \<Rightarrow> (\<exists>b. blendedEntry held entry delta px = Some b
              \<and> b * \<bar>held + delta\<bar> = \<bar>held\<bar> * e + \<bar>delta\<bar> * p \<and> min e p \<le> b \<and> b \<le> max e p)
         | _ \<Rightarrow> blendedEntry held entry delta px = None)
     else blendedEntry held entry delta px = entry
   else blendedEntry held entry delta px = priced px"
proof -
  have "case (entry, priced px) of
           (Some e, Some p) \<Rightarrow> (\<exists>b. blendedEntry held entry delta px = Some b
              \<and> b * \<bar>held + delta\<bar> = \<bar>held\<bar> * e + \<bar>delta\<bar> * p \<and> min e p \<le> b \<and> b \<le> max e p)
         | _ \<Rightarrow> blendedEntry held entry delta px = None" if h: "held \<noteq> 0" "sgn delta = sgn held"
  proof -
    have ab: "\<bar>held + delta\<bar> = \<bar>held\<bar> + \<bar>delta\<bar>" "0 < \<bar>held\<bar>" "0 < \<bar>delta\<bar>"
      "held + delta \<noteq> 0" "sgn held = sgn (held + delta)"
      using h by (auto simp: sgn_if abs_if split: if_splits)
    have "\<bar>held\<bar> + \<bar>delta\<bar> \<noteq> 0" using ab by linarith
    then show ?thesis
      using blendedEntry_cases(3) [OF h] blend_between [OF ab(2,3)] ab
        blendedEntry_def [of held entry delta px] h
      by (auto simp: Let_def split: option.splits)
  qed
  then show ?thesis by (auto simp: blendedEntry_cases)
qed

end
