(* ===== verification/Execution.thy ===== *)
theory Execution
  imports Go_Json Accounting
begin

text \<open>
  Execution evidence of an order (\<^verbatim>\<open>operation.go\<close>, \<^verbatim>\<open>order_execution.go\<close>, \<^verbatim>\<open>execution_receipt.go\<close>): the
  normalised status, the disposition of an order, the outcome and the receipt built from it, the
  decoding of an operation into evidence, and the reads that recover a receipt.  A function whose
  result is \<^typ>\<open>'a option\<close> with the remark \<^verbatim>\<open>panic\<close> is \<^const>\<open>None\<close> where the Go code dereferences a nil
  rational.
\<close>

section \<open>Data\<close>

definition OrderFilled :: gostring where "OrderFilled = ''FILLED''"
definition OrderCancelled :: gostring where "OrderCancelled = ''CANCELLED''"
definition OrderFailed :: gostring where "OrderFailed = ''FAILED''"

definition OpPending :: gostring where "OpPending = ''pending''"
definition OpCompleted :: gostring where "OpCompleted = ''completed''"
definition OpFailed :: gostring where "OpFailed = ''failed''"
definition OpExpired :: gostring where "OpExpired = ''expired''"

lemmas status_defs = OrderFilled_def OrderCancelled_def OrderFailed_def
lemmas op_state_defs = OpPending_def OpCompleted_def OpFailed_def OpExpired_def

record SimOrder =
  so_ID :: gostring
  so_AccountID :: gostring
  so_RealmID :: gostring
  so_Market :: gostring
  so_Side :: gostring
  so_OrderType :: gostring
  so_Price :: "gostring option"
  so_Size :: gostring
  so_FilledSize :: gostring
  so_AvgFillPrice :: "gostring option"
  so_Status :: gostring
  so_ReduceOnly :: bool
  so_TimeInForce :: gostring
  so_Leverage :: int
  so_BuilderFeeBps :: "int option"
  so_IsTrigger :: bool
  so_TriggerPx :: "gostring option"
  so_IsMarket :: bool
  so_Tpsl :: gostring
  so_SizeToMax :: bool
  so_OcoGroupID :: gostring
  so_CancelReason :: gostring
  so_CreatedAt :: gostring
  so_UpdatedAt :: gostring

definition zero_order :: SimOrder where
  "zero_order =
     \<lparr>so_ID = [], so_AccountID = [], so_RealmID = [], so_Market = [], so_Side = [], so_OrderType = [],
      so_Price = None, so_Size = [], so_FilledSize = [], so_AvgFillPrice = None, so_Status = [],
      so_ReduceOnly = False, so_TimeInForce = [], so_Leverage = 0, so_BuilderFeeBps = None,
      so_IsTrigger = False, so_TriggerPx = None, so_IsMarket = False, so_Tpsl = [],
      so_SizeToMax = False, so_OcoGroupID = [], so_CancelReason = [], so_CreatedAt = [],
      so_UpdatedAt = []\<rparr>"

record FillResultingPosition =
  frp_Side :: gostring
  frp_Size :: gostring
  frp_EntryPx :: gostring
  frp_Leverage :: int

record SimFill =
  sf_ID :: gostring
  sf_OrderID :: gostring
  sf_AccountID :: gostring
  sf_RealmID :: gostring
  sf_Market :: gostring
  sf_Side :: gostring
  sf_Price :: gostring
  sf_Size :: gostring
  sf_Fee :: gostring
  sf_BuilderFee :: gostring
  sf_Cloid :: gostring
  sf_IsMaker :: bool
  sf_PlatformFee :: gostring
  sf_RealizedPnl :: "gostring option"
  sf_IsLiquidation :: bool
  sf_CreatedAt :: gostring
  sf_IsOptimistic :: bool
  sf_OperationID :: gostring
  sf_FillID :: gostring
  sf_OrderOperationID :: gostring
  sf_Direction :: gostring
  sf_StartPosition :: gostring
  sf_ExchangeFee :: gostring
  sf_ResultingPosition :: "FillResultingPosition option"
  sf_IsTrigger :: "bool option"
  sf_Tpsl :: gostring
  sf_TriggerPx :: gostring
  sf_LiquidationKind :: gostring

record SimOrderWithFills =
  swf_FillsComplete :: "bool option"
  swf_Order :: SimOrder
  swf_Fills :: "SimFill list"

text \<open>\<^verbatim>\<open>ParsedOutcome\<close> is a map of decoded JSON values; \<^const>\<open>None\<close> is the nil map.\<close>

record Operation =
  op_ID :: gostring
  op_RealmID :: gostring
  op_Path :: gostring
  op_Type :: gostring
  op_State :: gostring
  op_SourceArcaPath :: "gostring option"
  op_TargetArcaPath :: "gostring option"
  op_Input :: "jtext option"
  op_Outcome :: "jtext option"
  op_ParsedOutcome :: "jfields option"
  op_FailureMessage :: "gostring option"

section \<open>Order status\<close>

definition normalizeExecutionStatus :: "gostring \<Rightarrow> gostring" where
  "normalizeExecutionStatus s =
     (let u = ToUpper s in
      if u \<in> {''CANCELED'', ''EXPIRED''} then OrderCancelled
      else if u = ''REJECTED'' then OrderFailed
      else u)"

definition isTerminalOrderStatus :: "gostring \<Rightarrow> bool" where
  "isTerminalOrderStatus s =
     (let n = normalizeExecutionStatus s in n = OrderFilled \<or> n = OrderCancelled \<or> n = OrderFailed)"

section \<open>Fill matching\<close>

definition fillMatches :: "SimFill \<Rightarrow> gostring \<Rightarrow> gostring \<Rightarrow> bool" where
  "fillMatches f orderID cloid =
     (if sf_OrderID f \<noteq> [] \<and> sf_OrderID f = orderID then True
      else if cloid \<noteq> [] \<and> sf_Cloid f \<noteq> [] \<and> sf_Cloid f = cloid then True
      else False)"

definition recordedFillMatches :: "SimFill \<Rightarrow> gostring \<Rightarrow> gostring \<Rightarrow> bool" where
  "recordedFillMatches f orderID operationID =
     (if sf_OrderID f \<noteq> [] \<and> sf_OrderID f = orderID then True
      else if sf_OrderOperationID f \<noteq> [] \<and> sf_OrderOperationID f = operationID then True
      else False)"

fun sum_sizes :: "gostring list \<Rightarrow> rat \<Rightarrow> rat option" where
  "sum_sizes [] acc = Some acc"
| "sum_sizes (raw # raws) acc =
     (if \<not> executionDecimal raw then None
      else (case rat_set_string raw of None \<Rightarrow> None | Some sz \<Rightarrow> sum_sizes raws (acc + sz)))"

definition recordedSizesCover :: "gostring list \<Rightarrow> gostring \<Rightarrow> bool" where
  "recordedSizesCover sizes executed =
     (if \<not> executionDecimal executed then False
      else (case rat_set_string executed of
              None \<Rightarrow> False
            | Some expected \<Rightarrow>
                (case sum_sizes sizes 0 of None \<Rightarrow> False | Some t \<Rightarrow> t = expected)))"

section \<open>Disposition and outcome\<close>

text \<open>\<^verbatim>\<open>executionDisposition\<close>: execution state and disposition of the remainder; \<^const>\<open>None\<close> is a panic.\<close>

definition filled_disposition :: "rat \<Rightarrow> rat option \<Rightarrow> gostring \<Rightarrow> gostring \<times> gostring" where
  "filled_disposition filled requested tif =
     (case requested of
        Some req \<Rightarrow>
          if req > 0 \<and> filled < req then
            (let remainder = (if tif = ''IOC'' then ''cancelled'' else ''unknown'') in
             if filled > 0 then (''partial'', remainder)
             else if remainder = ''cancelled'' then (''no_fill'', remainder)
             else (''unknown'', ''unknown''))
          else if filled > 0 then (''filled'', ''filled'') else (''unknown'', ''unknown'')
      | None \<Rightarrow> if filled > 0 then (''filled'', ''filled'') else (''unknown'', ''unknown''))"

definition executionDisposition :: "SimOrder \<Rightarrow> (gostring \<times> gostring) option" where
  "executionDisposition order =
     (if \<not> executionDecimal (so_FilledSize order) then Some (''unknown'', ''unknown'')
      else case rat_set_string (so_FilledSize order) of
        None \<Rightarrow> Some (''unknown'', ''unknown'')
      | Some filled \<Rightarrow>
          if filled < 0 then Some (''unknown'', ''unknown'')
          else
           (let st = normalizeExecutionStatus (so_Status order) in
            if st = OrderFilled then
              (if executionDecimal (so_Size order) then
                 (case rat_set_string (so_Size order) of
                    None \<Rightarrow> None
                  | Some req \<Rightarrow> Some (filled_disposition filled (Some req) (so_TimeInForce order)))
               else Some (filled_disposition filled None (so_TimeInForce order)))
            else if st = OrderCancelled then
              Some (if filled > 0 then (''partial'', ''cancelled'') else (''no_fill'', ''cancelled''))
            else if st = OrderFailed then
              Some (if filled > 0 then (''partial'', ''cancelled'') else (''rejected'', ''cancelled''))
            else Some (''pending'', ''working'')))"

text \<open>The values of the outcome map.\<close>

datatype outval = OStr gostring | OBool bool | OFills "SimFill list"

type_synonym outcome = "gostring \<rightharpoonup> outval"

definition scale_of :: "gostring list \<Rightarrow> nat" where
  "scale_of vs = foldl (\<lambda>scale v. max scale (frac_digits v)) 0 vs"

definition fulfillment :: "SimOrder \<Rightarrow> outcome \<Rightarrow> outcome option" where
  "fulfillment order out =
     (if executionDecimal (so_Size order) \<and> executionDecimal (so_FilledSize order) then
        (case (rat_set_string (so_Size order), rat_set_string (so_FilledSize order)) of
           (Some requested, Some executed) \<Rightarrow>
             if requested \<ge> executed then
               Some (out(''requestedSize'' \<mapsto> OStr (so_Size order),
                         ''fulfillmentState'' \<mapsto> OStr (if executed = 0 then ''none''
                            else if requested > executed then ''partial'' else ''full''),
                         ''remainingSize'' \<mapsto> OStr (FloatString (requested - executed)
                            (scale_of [so_Size order, so_FilledSize order]))))
             else Some out
         | _ \<Rightarrow> None)
      else Some out)"

definition ExecutionOutcome :: "SimOrderWithFills \<Rightarrow> outcome option" where
  "ExecutionOutcome filled =
     (let order = swf_Order filled;
          out0 = [''orderId'' \<mapsto> OStr (so_ID order), ''status'' \<mapsto> OStr (so_Status order),
                  ''filledSize'' \<mapsto> OStr (so_FilledSize order),
                  ''fulfillmentState'' \<mapsto> OStr ''unknown'', ''averagePriceFinal'' \<mapsto> OBool False,
                  ''averagePriceSource'' \<mapsto> OStr ''venue_aggregate''] in
      do {
        out1 \<leftarrow> fulfillment order out0;
        d \<leftarrow> executionDisposition order;
        let out2 = out1(''executionState'' \<mapsto> OStr (fst d), ''remainingDisposition'' \<mapsto> OStr (snd d));
        let out3 = (if fst d = ''unknown'' then out2(''status'' \<mapsto> OStr ''UNKNOWN'') else out2);
        let out4 = (case swf_FillsComplete filled of
                      Some b \<Rightarrow> out3(''fillsComplete'' \<mapsto> OBool b) | None \<Rightarrow> out3);
        let out5 = (if length (swf_Fills filled) > 0 then out4(''fills'' \<mapsto> OFills (swf_Fills filled))
                    else out4);
        Some (case so_AvgFillPrice order of
                Some px \<Rightarrow> out5(''avgFillPrice'' \<mapsto> OStr px) | None \<Rightarrow> out5)
      })"

section \<open>Decoding evidence from an operation\<close>

definition decode_resulting_position :: "jfields \<Rightarrow> FillResultingPosition option" where
  "decode_resulting_position fs =
     do {
       side \<leftarrow> str_field ''side'' fs; sz \<leftarrow> str_field ''size'' fs;
       px \<leftarrow> str_field ''entryPx'' fs; lev \<leftarrow> int_field ''leverage'' fs;
       Some \<lparr>frp_Side = side, frp_Size = sz, frp_EntryPx = px, frp_Leverage = lev\<rparr>
     }"

definition decode_fill :: "json \<Rightarrow> SimFill option" where
  "decode_fill j =
     do {
       fs \<leftarrow> obj_fields j;
       i \<leftarrow> str_field ''id'' fs; oid \<leftarrow> str_field ''orderId'' fs; acc \<leftarrow> str_field ''accountId'' fs;
       rlm \<leftarrow> str_field ''realmId'' fs; mkt \<leftarrow> str_field ''market'' fs; side \<leftarrow> str_field ''side'' fs;
       px \<leftarrow> str_field ''price'' fs; sz \<leftarrow> str_field ''size'' fs; fee \<leftarrow> str_field ''fee'' fs;
       bfee \<leftarrow> str_field ''builderFee'' fs; cl \<leftarrow> str_field ''cloid'' fs; mk \<leftarrow> bool_field ''isMaker'' fs;
       pfee \<leftarrow> str_field ''platformFee'' fs; rp \<leftarrow> strp_field ''realizedPnl'' fs;
       liq \<leftarrow> bool_field ''isLiquidation'' fs; cr \<leftarrow> str_field ''createdAt'' fs;
       opt \<leftarrow> bool_field ''isOptimistic'' fs; opid \<leftarrow> str_field ''operationId'' fs;
       fid \<leftarrow> str_field ''fillId'' fs; oopid \<leftarrow> str_field ''orderOperationId'' fs;
       dir \<leftarrow> str_field ''direction'' fs; sp \<leftarrow> str_field ''startPosition'' fs;
       xfee \<leftarrow> str_field ''exchangeFee'' fs; rpos \<leftarrow> subp_field ''resultingPosition'' fs;
       rpos' \<leftarrow> (case rpos of None \<Rightarrow> Some None | Some q \<Rightarrow> map_option Some (decode_resulting_position q));
       trg \<leftarrow> boolp_field ''isTrigger'' fs; tp \<leftarrow> str_field ''tpsl'' fs;
       tpx \<leftarrow> str_field ''triggerPx'' fs; lk \<leftarrow> str_field ''liquidationKind'' fs;
       Some \<lparr>sf_ID = i, sf_OrderID = oid, sf_AccountID = acc, sf_RealmID = rlm, sf_Market = mkt,
             sf_Side = side, sf_Price = px, sf_Size = sz, sf_Fee = fee, sf_BuilderFee = bfee,
             sf_Cloid = cl, sf_IsMaker = mk, sf_PlatformFee = pfee, sf_RealizedPnl = rp,
             sf_IsLiquidation = liq, sf_CreatedAt = cr, sf_IsOptimistic = opt, sf_OperationID = opid,
             sf_FillID = fid, sf_OrderOperationID = oopid, sf_Direction = dir, sf_StartPosition = sp,
             sf_ExchangeFee = xfee, sf_ResultingPosition = rpos', sf_IsTrigger = trg, sf_Tpsl = tp,
             sf_TriggerPx = tpx, sf_LiquidationKind = lk\<rparr>
     }"

text \<open>The outcome a terminal order reports, and the immutable intent of the operation.\<close>

record OutcomeValue =
  ov_OrderID :: gostring
  ov_Status :: gostring
  ov_FilledSize :: gostring
  ov_AvgFillPrice :: "gostring option"
  ov_Fills :: "SimFill list"
  ov_FillsComplete :: "bool option"

definition decode_outcome :: "jfields \<Rightarrow> OutcomeValue option" where
  "decode_outcome fs =
     do {
       oid \<leftarrow> str_field ''orderId'' fs; st \<leftarrow> str_field ''status'' fs;
       fsz \<leftarrow> str_field ''filledSize'' fs; avg \<leftarrow> strp_field ''avgFillPrice'' fs;
       raw \<leftarrow> arr_field ''fills'' fs; fills \<leftarrow> decode_all decode_fill raw;
       cmp \<leftarrow> boolp_field ''fillsComplete'' fs;
       Some \<lparr>ov_OrderID = oid, ov_Status = st, ov_FilledSize = fsz, ov_AvgFillPrice = avg,
             ov_Fills = fills, ov_FillsComplete = cmp\<rparr>
     }"

record OrderIntent =
  oi_ObjectID :: gostring
  oi_Market :: gostring
  oi_Side :: gostring
  oi_OrderType :: gostring
  oi_Size :: gostring
  oi_TimeInForce :: gostring
  oi_GLLEffect :: "int option"

definition decode_intent :: "jfields \<Rightarrow> OrderIntent option" where
  "decode_intent fs =
     do {
       ob \<leftarrow> str_field ''exchangeObjectId'' fs; mkt \<leftarrow> str_field ''market'' fs;
       side \<leftarrow> str_field ''side'' fs; ty \<leftarrow> str_field ''orderType'' fs; sz \<leftarrow> str_field ''size'' fs;
       tif \<leftarrow> str_field ''timeInForce'' fs; gll \<leftarrow> subp_field ''gllPrepared'' fs;
       eff \<leftarrow> (case gll of
                 None \<Rightarrow> Some None
               | Some g \<Rightarrow> do { r \<leftarrow> sub_field ''request'' g; n \<leftarrow> int_field ''Effect'' r; Some (Some n) });
       Some \<lparr>oi_ObjectID = ob, oi_Market = mkt, oi_Side = side, oi_OrderType = ty, oi_Size = sz,
             oi_TimeInForce = tif, oi_GLLEffect = eff\<rparr>
     }"

text \<open>The raw outcome: the non-empty \<^verbatim>\<open>Outcome\<close> text, else the marshalled \<^verbatim>\<open>ParsedOutcome\<close>.\<close>

definition raw_outcome :: "Operation \<Rightarrow> jtext" where
  "raw_outcome operation =
     (case op_Outcome operation of
        Some t \<Rightarrow> if t \<noteq> JEmpty then t
                  else JText (case op_ParsedOutcome operation of Some fs \<Rightarrow> JObj fs | None \<Rightarrow> JNull)
      | None \<Rightarrow> JText (case op_ParsedOutcome operation of Some fs \<Rightarrow> JObj fs | None \<Rightarrow> JNull))"

definition intent_of :: "Operation \<Rightarrow> OrderIntent option" where
  "intent_of operation =
     (case op_Input operation of None \<Rightarrow> None | Some t \<Rightarrow> Option.bind (text_fields t) decode_intent)"

definition apply_intent :: "OrderIntent \<Rightarrow> SimOrder \<Rightarrow> SimOrder" where
  "apply_intent intent order =
     order\<lparr>so_Market := oi_Market intent, so_Side := oi_Side intent, so_OrderType := oi_OrderType intent,
           so_Size := oi_Size intent,
           so_TimeInForce := (if oi_GLLEffect intent = Some 1 then ''IOC'' else oi_TimeInForce intent)\<rparr>"

text \<open>\<^verbatim>\<open>operationExecution\<close>: the evidence (\<^term>\<open>Some ev\<close>) or none; the outer \<^const>\<open>None\<close> is a panic.\<close>

definition operationExecution :: "Operation \<Rightarrow> gostring \<Rightarrow> SimOrderWithFills option option" where
  "operationExecution operation objectID =
     (if op_State operation \<noteq> OpCompleted then Some None
      else case Option.bind (text_fields (raw_outcome operation)) decode_outcome of
        None \<Rightarrow> Some None
      | Some v \<Rightarrow>
        if ov_OrderID v = [] then Some None
        else
         (let status = normalizeExecutionStatus (ov_Status v);
              order0 = zero_order\<lparr>so_ID := ov_OrderID v, so_Status := status,
                         so_FilledSize := ov_FilledSize v, so_AvgFillPrice := ov_AvgFillPrice v\<rparr>;
              order = (case intent_of operation of
                         None \<Rightarrow> order0 | Some intent \<Rightarrow> apply_intent intent order0);
              alien = (case intent_of operation of
                         None \<Rightarrow> False
                       | Some intent \<Rightarrow> oi_ObjectID intent \<noteq> [] \<and> oi_ObjectID intent \<noteq> objectID) in
          if alien then Some None
          else case executionDisposition order of
            None \<Rightarrow> None
          | Some (disposition, _) \<Rightarrow>
              if \<not> isTerminalOrderStatus status \<or> disposition = ''unknown'' then Some None
              else Some (Some \<lparr>swf_FillsComplete = Some (ov_FillsComplete v = Some True),
                               swf_Order = order, swf_Fills = ov_Fills v\<rparr>)))"

text \<open>\<^verbatim>\<open>executionUpdate\<close>: a correlated observation joined to the original intent.\<close>

definition update_outcome :: "SimOrder \<Rightarrow> jtext" where
  "update_outcome order =
     JText (JObj [(''avgFillPrice'', case so_AvgFillPrice order of Some px \<Rightarrow> JStr px | None \<Rightarrow> JNull),
                  (''filledSize'', JStr (so_FilledSize order)), (''orderId'', JStr (so_ID order)),
                  (''status'', JStr (so_Status order))])"

definition executionUpdate :: "Operation \<Rightarrow> gostring \<Rightarrow> SimOrder \<Rightarrow> SimOrderWithFills option option" where
  "executionUpdate operation objectID order =
     operationExecution (operation\<lparr>op_Outcome := Some (update_outcome order), op_State := OpCompleted\<rparr>)
       objectID"

section \<open>Lemmas\<close>

lemma update_keys [simp]:
  "\<not> key_matches ''avgFillPrice'' ''filledSize''"
  "\<not> key_matches ''avgFillPrice'' ''orderId''"
  "\<not> key_matches ''avgFillPrice'' ''status''"
  "\<not> key_matches ''filledSize'' ''avgFillPrice''"
  "\<not> key_matches ''filledSize'' ''orderId''"
  "\<not> key_matches ''filledSize'' ''status''"
  "\<not> key_matches ''orderId'' ''avgFillPrice''"
  "\<not> key_matches ''orderId'' ''filledSize''"
  "\<not> key_matches ''orderId'' ''status''"
  "\<not> key_matches ''status'' ''avgFillPrice''"
  "\<not> key_matches ''status'' ''filledSize''"
  "\<not> key_matches ''status'' ''orderId''"
  "\<not> key_matches ''fills'' ''avgFillPrice''"
  "\<not> key_matches ''fills'' ''filledSize''"
  "\<not> key_matches ''fills'' ''orderId''"
  "\<not> key_matches ''fills'' ''status''"
  "\<not> key_matches ''fillsComplete'' ''avgFillPrice''"
  "\<not> key_matches ''fillsComplete'' ''filledSize''"
  "\<not> key_matches ''fillsComplete'' ''orderId''"
  "\<not> key_matches ''fillsComplete'' ''status''"
  by code_simp+

lemma decode_update:
  "Option.bind (text_fields (update_outcome order)) decode_outcome =
     Some \<lparr>ov_OrderID = so_ID order, ov_Status = so_Status order, ov_FilledSize = so_FilledSize order,
           ov_AvgFillPrice = so_AvgFillPrice order, ov_Fills = [], ov_FillsComplete = None\<rparr>"
  by (simp add: update_outcome_def decode_outcome_def json_field_defs split: option.split)

lemma raw_outcome_update [simp]:
  "raw_outcome (op\<lparr>op_Outcome := Some (update_outcome order), op_State := st\<rparr>) = update_outcome order"
  by (simp add: raw_outcome_def update_outcome_def)

lemma intent_of_update [simp]:
  "intent_of (op\<lparr>op_Outcome := t, op_State := st\<rparr>) = intent_of op"
  by (simp add: intent_of_def)

text \<open>The order an operation's intent and a reported execution determine.\<close>

definition joined_order ::
    "OrderIntent option \<Rightarrow> gostring \<Rightarrow> gostring \<Rightarrow> gostring \<Rightarrow> gostring option \<Rightarrow> SimOrder" where
  "joined_order intent oid status filled avg =
     (let order0 = zero_order\<lparr>so_ID := oid, so_Status := normalizeExecutionStatus status,
                     so_FilledSize := filled, so_AvgFillPrice := avg\<rparr> in
      case intent of None \<Rightarrow> order0 | Some i \<Rightarrow> apply_intent i order0)"

definition own_intent :: "OrderIntent option \<Rightarrow> gostring \<Rightarrow> bool" where
  "own_intent intent objectID =
     (case intent of None \<Rightarrow> True | Some i \<Rightarrow> oi_ObjectID i = [] \<or> oi_ObjectID i = objectID)"

lemma joined_order_simps [simp]:
  "so_ID (joined_order i oid st f a) = oid"
  "so_Status (joined_order i oid st f a) = normalizeExecutionStatus st"
  "so_FilledSize (joined_order i oid st f a) = f"
  "so_AvgFillPrice (joined_order i oid st f a) = a"
  by (simp_all add: joined_order_def apply_intent_def Let_def split: option.split)

lemma operationExecution_alt:
  "operationExecution operation objectID =
     (if op_State operation \<noteq> OpCompleted then Some None
      else case Option.bind (text_fields (raw_outcome operation)) decode_outcome of
        None \<Rightarrow> Some None
      | Some v \<Rightarrow>
        if ov_OrderID v = [] \<or> \<not> own_intent (intent_of operation) objectID then Some None
        else
         (let order = joined_order (intent_of operation) (ov_OrderID v) (ov_Status v) (ov_FilledSize v)
                        (ov_AvgFillPrice v) in
          case executionDisposition order of
            None \<Rightarrow> None
          | Some (disposition, _) \<Rightarrow>
              if \<not> isTerminalOrderStatus (so_Status order) \<or> disposition = ''unknown'' then Some None
              else Some (Some \<lparr>swf_FillsComplete = Some (ov_FillsComplete v = Some True),
                               swf_Order = order, swf_Fills = ov_Fills v\<rparr>)))"
  by (cases "intent_of operation")
    (auto simp: operationExecution_def joined_order_def own_intent_def Let_def apply_intent_def
      split: option.splits)

lemma executionUpdate_alt:
  "executionUpdate operation objectID order =
     (if so_ID order = [] \<or> \<not> own_intent (intent_of operation) objectID then Some None
      else
       (let o' = joined_order (intent_of operation) (so_ID order) (so_Status order) (so_FilledSize order)
                   (so_AvgFillPrice order) in
        case executionDisposition o' of
          None \<Rightarrow> None
        | Some (disposition, _) \<Rightarrow>
            if \<not> isTerminalOrderStatus (so_Status o') \<or> disposition = ''unknown'' then Some None
            else Some (Some \<lparr>swf_FillsComplete = Some False, swf_Order = o', swf_Fills = []\<rparr>)))"
  by (simp add: executionUpdate_def operationExecution_alt decode_update Let_def cong: if_cong option.case_cong)

text \<open>What accepted evidence guarantees.\<close>

definition sound_evidence :: "Operation \<Rightarrow> gostring \<Rightarrow> SimOrderWithFills \<Rightarrow> bool" where
  "sound_evidence operation objectID ev \<longleftrightarrow>
     so_ID (swf_Order ev) \<noteq> []
     \<and> own_intent (intent_of operation) objectID
     \<and> isTerminalOrderStatus (so_Status (swf_Order ev))
     \<and> executionDecimal (so_FilledSize (swf_Order ev))
     \<and> (\<exists>d. executionDisposition (swf_Order ev) = Some d \<and> fst d \<notin> {''unknown'', ''pending''})
     \<and> (case intent_of operation of
          None \<Rightarrow> so_Size (swf_Order ev) = []
        | Some i \<Rightarrow> so_Size (swf_Order ev) = oi_Size i \<and> so_Market (swf_Order ev) = oi_Market i)"

lemma disposition_known_decimal:
  "executionDisposition order = Some d \<Longrightarrow> fst d \<noteq> ''unknown'' \<Longrightarrow> executionDecimal (so_FilledSize order)"
  by (auto simp: executionDisposition_def split: if_splits)

lemma normalize_idem [simp]: "normalizeExecutionStatus (normalizeExecutionStatus s) = normalizeExecutionStatus s"
proof -
  have "upper_char (upper_char c) = upper_char c" for c
    by (cases "97 \<le> ascii c \<and> ascii c \<le> 122") (auto simp: upper_char_def ascii_def)
  then have up: "ToUpper (ToUpper s) = ToUpper s" by (simp add: ToUpper_def)
  have "ToUpper OrderCancelled = OrderCancelled" "ToUpper OrderFailed = OrderFailed" by code_simp+
  then show ?thesis using up
    by (auto simp: normalizeExecutionStatus_def Let_def OrderCancelled_def OrderFailed_def)
qed

lemma terminal_not_pending:
  "executionDisposition order = Some d \<Longrightarrow> isTerminalOrderStatus (so_Status order) \<Longrightarrow> fst d \<noteq> ''pending''"
  by (auto simp: executionDisposition_def isTerminalOrderStatus_def filled_disposition_def Let_def
      split: if_splits option.splits)

lemma joined_size:
  "case i of None \<Rightarrow> so_Size (joined_order i oid st f a) = []
   | Some i' \<Rightarrow> so_Size (joined_order i oid st f a) = oi_Size i'
       \<and> so_Market (joined_order i oid st f a) = oi_Market i'"
  by (auto simp: joined_order_def apply_intent_def zero_order_def split: option.splits)

lemma operationExecution_sound:
  assumes "operationExecution operation objectID = Some (Some ev)"
  shows "op_State operation = OpCompleted \<and> sound_evidence operation objectID ev"
proof -
  have st: "op_State operation = OpCompleted"
    using assms by (auto simp: operationExecution_alt split: if_splits)
  then obtain v where v: "Option.bind (text_fields (raw_outcome operation)) decode_outcome = Some v"
    using assms by (auto simp: operationExecution_alt split: option.splits)
  define order where "order = joined_order (intent_of operation) (ov_OrderID v) (ov_Status v)
    (ov_FilledSize v) (ov_AvgFillPrice v)"
  have own: "ov_OrderID v \<noteq> []" "own_intent (intent_of operation) objectID"
    using assms st v by (auto simp: operationExecution_alt split: if_splits)
  obtain d where d: "executionDisposition order = Some d"
    using assms st v own by (auto simp: operationExecution_alt Let_def order_def split: option.splits)
  have t: "isTerminalOrderStatus (so_Status order)" "fst d \<noteq> ''unknown''" "swf_Order ev = order"
    using assms st v own d
    by (cases d, auto simp: operationExecution_alt Let_def order_def [symmetric] split: if_splits)+
  show ?thesis
    using st own d t disposition_known_decimal [OF d t(2)] terminal_not_pending [OF d t(1)]
      joined_size [of "intent_of operation" "ov_OrderID v" "ov_Status v" "ov_FilledSize v" "ov_AvgFillPrice v"]
    by (auto simp: sound_evidence_def order_def split: option.splits)
qed

lemma sum_sizes_spec:
  "sum_sizes sizes acc =
     (if list_all (\<lambda>s. executionDecimal s \<and> readable_decimal s) sizes
      then Some (acc + sum_list (map decimal_value sizes)) else None)"
  by (induction sizes arbitrary: acc) (auto simp: rat_set_string_execution add.assoc)

lemma disposition_eq:
  assumes "executionDecimal (so_FilledSize order)" "readable_decimal (so_FilledSize order)"
  shows "executionDisposition order =
    (let filled = decimal_value (so_FilledSize order); st = normalizeExecutionStatus (so_Status order) in
     if st = OrderFilled then
       if \<not> executionDecimal (so_Size order) then
         Some (filled_disposition filled None (so_TimeInForce order))
       else if readable_decimal (so_Size order) then
         Some (filled_disposition filled (Some (decimal_value (so_Size order))) (so_TimeInForce order))
       else None
     else if st = OrderCancelled then
       Some (if filled > 0 then (''partial'', ''cancelled'') else (''no_fill'', ''cancelled''))
     else if st = OrderFailed then
       Some (if filled > 0 then (''partial'', ''cancelled'') else (''rejected'', ''cancelled''))
     else Some (''pending'', ''working''))"
  using assms by (simp add: executionDisposition_def rat_set_string_execution Let_def not_less)

lemma disposition_unreadable:
  "\<not> (executionDecimal (so_FilledSize order) \<and> readable_decimal (so_FilledSize order)) \<Longrightarrow>
     executionDisposition order = Some (''unknown'', ''unknown'')"
  by (auto simp: executionDisposition_def rat_set_string_execution)

section \<open>Properties\<close>

text \<open>C6: evidence is accepted from an operation only when it is authoritative: the operation is completed,
  the outcome names an order, the reported status is terminal, the executed size is an exact decimal
  and its disposition is known, the original intent (when readable) is for this account, and the
  requested size and market of the evidence are those of the intent.\<close>

theorem operationExecution_evidence_sound:
  assumes "operationExecution operation objectID = Some (Some ev)"
  shows "op_State operation = OpCompleted
     \<and> so_ID (swf_Order ev) \<noteq> []
     \<and> own_intent (intent_of operation) objectID
     \<and> isTerminalOrderStatus (so_Status (swf_Order ev))
     \<and> executionDecimal (so_FilledSize (swf_Order ev))
     \<and> (\<exists>d. executionDisposition (swf_Order ev) = Some d \<and> fst d \<notin> {''unknown'', ''pending''})
     \<and> (case intent_of operation of
          None \<Rightarrow> so_Size (swf_Order ev) = []
        | Some i \<Rightarrow> so_Size (swf_Order ev) = oi_Size i \<and> so_Market (swf_Order ev) = oi_Market i)"
  using operationExecution_sound [OF assms] by (simp add: sound_evidence_def)

definition sample_operation :: Operation where
  "sample_operation =
     \<lparr>op_ID = ''op1'', op_RealmID = ''r1'', op_Path = ''/op/order/1'', op_Type = ''order'',
      op_State = ''completed'', op_SourceArcaPath = None, op_TargetArcaPath = None,
      op_Input = Some (JText (JObj [(''exchangeObjectId'', JStr ''x1''), (''market'', JStr ''hl:0:BTC''),
                  (''size'', JStr ''2''), (''gllPrepared'', JObj [(''request'', JObj [(''Effect'', JNum ''1'')])])])),
      op_Outcome = Some (JText (JObj [(''orderId'', JStr ''77''), (''Status'', JStr ''filled''),
                  (''filledSize'', JStr ''1.5'')])),
      op_ParsedOutcome = None, op_FailureMessage = None\<rparr>"

definition sample_evidence :: SimOrderWithFills where
  "sample_evidence =
     \<lparr>swf_FillsComplete = Some False,
      swf_Order = zero_order\<lparr>so_ID := ''77'', so_Status := ''FILLED'', so_FilledSize := ''1.5'',
         so_Market := ''hl:0:BTC'', so_Size := ''2'', so_TimeInForce := ''IOC''\<rparr>,
      swf_Fills = []\<rparr>"

theorem operationExecution_evidence_sound_witness:
  "so_ID (swf_Order sample_evidence) \<noteq> []
   \<and> isTerminalOrderStatus (so_Status (swf_Order sample_evidence))
   \<and> own_intent (intent_of sample_operation) ''x1''"
proof -
  have "operationExecution sample_operation ''x1'' = Some (Some sample_evidence)" by code_simp
  then show ?thesis using operationExecution_evidence_sound by blast
qed

text \<open>Joining an observed order to an operation keeps the original intent: the evidence depends only on
  the operation's input and on the order's id, status, executed size and average price, it reports
  exactly those and takes the requested size from the intent, never from the venue's history row.\<close>

theorem executionUpdate_keeps_intent:
  assumes "executionUpdate operation objectID order = Some (Some ev)"
  shows "so_ID (swf_Order ev) = so_ID order
     \<and> so_Status (swf_Order ev) = normalizeExecutionStatus (so_Status order)
     \<and> so_FilledSize (swf_Order ev) = so_FilledSize order
     \<and> so_AvgFillPrice (swf_Order ev) = so_AvgFillPrice order
     \<and> so_Size (swf_Order ev) = (case intent_of operation of None \<Rightarrow> [] | Some i \<Rightarrow> oi_Size i)
     \<and> executionUpdate operation objectID (order\<lparr>so_Size := venue_size\<rparr>) = Some (Some ev)
     \<and> executionUpdate (operation\<lparr>op_Outcome := t, op_State := st\<rparr>) objectID order = Some (Some ev)"
  using assms joined_size [of "intent_of operation" "so_ID order" "so_Status order" "so_FilledSize order"
      "so_AvgFillPrice order"]
  by (auto simp: executionUpdate_alt Let_def split: if_splits option.splits)

theorem executionUpdate_keeps_intent_witness:
  "executionUpdate sample_operation ''x1''
     (zero_order\<lparr>so_ID := ''77'', so_Status := ''filled'', so_FilledSize := ''1.5'', so_Size := ''1.5''\<rparr>) =
   Some (Some sample_evidence)
   \<and> so_Size (swf_Order sample_evidence) = ''2''"
proof -
  let ?o = "zero_order\<lparr>so_ID := ''77'', so_Status := ''filled'', so_FilledSize := ''1.5'', so_Size := ''1.5''\<rparr>"
  have u: "executionUpdate sample_operation ''x1'' ?o = Some (Some sample_evidence)"
    and i: "map_option oi_Size (intent_of sample_operation) = Some ''2''" by code_simp+
  show ?thesis using executionUpdate_keeps_intent [OF u] u i by (auto split: option.splits)
qed

text \<open>The disposition of an order: no verdict other than unknown is given for an executed size that is
  not an exact readable decimal; otherwise the verdict matches the quantities (a complete fill has
  executed at least any readable requested size, a partial one something, a rejected or unfilled one
  nothing), and pending is given exactly for the statuses that are not terminal.\<close>

theorem executionDisposition_verdicts:
  "case executionDisposition order of
     None \<Rightarrow> normalizeExecutionStatus (so_Status order) = OrderFilled
        \<and> executionDecimal (so_Size order) \<and> 1000000 < frac_digits (so_Size order)
   | Some (st, remainder) \<Rightarrow>
      (let q = decimal_value (so_FilledSize order); r = decimal_value (so_Size order) in
       if executionDecimal (so_FilledSize order) \<and> readable_decimal (so_FilledSize order) then
         (st = ''pending'' \<longleftrightarrow> \<not> isTerminalOrderStatus (so_Status order))
         \<and> (st = ''filled'' \<longrightarrow> 0 < q \<and> (executionDecimal (so_Size order) \<longrightarrow> r \<le> q))
         \<and> (st = ''partial'' \<longrightarrow> 0 < q
              \<and> (normalizeExecutionStatus (so_Status order) = OrderFilled \<longrightarrow> q < r))
         \<and> (st \<in> {''no_fill'', ''rejected''} \<longrightarrow> q = 0 \<and> remainder = ''cancelled'')
       else st = ''unknown'' \<and> remainder = ''unknown'')"
proof (cases "executionDecimal (so_FilledSize order) \<and> readable_decimal (so_FilledSize order)")
  case True
  define q where "q = decimal_value (so_FilledSize order)"
  define r where "r = decimal_value (so_Size order)"
  define st where "st = normalizeExecutionStatus (so_Status order)"
  have nn: "0 \<le> q" "0 \<le> r" by (simp_all add: q_def r_def)
  note folded = disposition_eq [of order, folded q_def r_def st_def] isTerminalOrderStatus_def
    q_def [symmetric] r_def [symmetric] st_def [symmetric] filled_disposition_def status_defs Let_def
  show ?thesis
  proof (cases "st = ''FILLED''")
    case filled: True
    show ?thesis
    proof (cases "executionDecimal (so_Size order)")
      case dec: True
      show ?thesis using True filled dec nn
        by (cases "readable_decimal (so_Size order)")
          (auto simp: folded readable_decimal_def split: if_splits)
    next
      case False
      then show ?thesis using True filled nn by (auto simp: folded)
    qed
  next
    case False
    then show ?thesis using True nn by (auto simp: folded)
  qed
next
  case False
  then show ?thesis using disposition_unreadable [OF False] by auto
qed

theorem executionDisposition_verdicts_witness:
  "executionDisposition (swf_Order sample_evidence) = Some (''partial'', ''cancelled'')
   \<and> 0 < decimal_value (so_FilledSize (swf_Order sample_evidence))"
proof -
  have e: "executionDisposition (swf_Order sample_evidence) = Some (''partial'', ''cancelled'')"
    "executionDecimal (so_FilledSize (swf_Order sample_evidence))" by code_simp+
  have "readable_decimal (so_FilledSize (swf_Order sample_evidence))"
    by (rule readable_short) (simp add: sample_evidence_def)
  then show ?thesis using executionDisposition_verdicts [of "swf_Order sample_evidence"] e
    by (simp add: Let_def)
qed

text \<open>The recorded sizes cover the executed size exactly when all of them are readable decimals and
  their exact sum is the executed size; the order in which fills were recorded is irrelevant.\<close>

theorem recordedSizesCover_exact:
  "(recordedSizesCover sizes executed \<longleftrightarrow>
     list_all (\<lambda>s. executionDecimal s \<and> readable_decimal s) (executed # sizes)
     \<and> sum_list (map decimal_value sizes) = decimal_value executed)
   \<and> recordedSizesCover (rev sizes) executed = recordedSizesCover sizes executed"
  by (auto simp: recordedSizesCover_def sum_sizes_spec rat_set_string_execution rev_map [symmetric])

end
