(* ===== verification/Api_Errors.thy ===== *)
theory Api_Errors
  imports Go_Json
begin

text \<open>
  The SDK's errors (\<^verbatim>\<open>errors.go\<close>): the base \<^verbatim>\<open>ArcaError\<close>, the typed errors that embed it, the transient
  wrapper of \<^verbatim>\<open>client.go\<close>, the \<^verbatim>\<open>errors.As\<close> tests, and the mapping of an API error envelope to a typed
  error with its structured challenge.
\<close>

section \<open>Data\<close>

record ArcaError =
  ae_Details :: "jfields option"
  ae_StatusCode :: int
  ae_Code :: gostring
  ae_Message :: gostring
  ae_ErrorID :: gostring

record OperationSnapshot =
  os_ID :: gostring
  os_State :: gostring
  os_Outcome :: "jtext option"
  os_FailureMessage :: "gostring option"

record StepUpChallenge =
  suc_Action :: gostring
  suc_Resources :: "gostring list"

record CosignRequiredChallenge =
  crc_Surface :: gostring
  crc_BoundaryID :: gostring
  crc_ArcaPath :: gostring
  crc_SourceArcaPath :: gostring
  crc_TargetArcaPath :: gostring
  crc_Propose :: gostring
  crc_Submit :: gostring

record CosignNonceUsedDetails =
  cnu_BoundaryID :: gostring
  cnu_Nonce :: gostring
  cnu_Reason :: gostring
  cnu_Resolution :: gostring
  cnu_Disposition :: gostring
  cnu_TxHash :: gostring
  cnu_OperationID :: gostring

text \<open>The concrete type of an error that embeds an \<^verbatim>\<open>ArcaError\<close>, with the fields it adds.\<close>

datatype err_kind =
    BaseError | ValidationError | UnauthorizedError | ForbiddenError | NotFoundError | ConflictError
  | InternalError | ExchangeError
  | OperationFailedError OperationSnapshot
  | OperationStalledError gostring int "OperationSnapshot option"
  | StepUpRequiredError StepUpChallenge
  | StepUpCancelledError
  | CosignRequiredError CosignRequiredChallenge
  | CosignNonceUsedError CosignNonceUsedDetails

text \<open>
  An error value: a typed SDK error, a transient wrapper (status 0 for a network failure), an error
  wrapped with \<^verbatim>\<open>%w\<close>, a context error, or an error of a library (its text).
\<close>

datatype error =
    Arca err_kind ArcaError
  | Transient int error
  | Wrapped gostring error
  | CtxError gostring
  | Plain gostring

definition newArcaError :: "gostring \<Rightarrow> gostring \<Rightarrow> gostring \<Rightarrow> ArcaError" where
  "newArcaError code message errorID =
     \<lparr>ae_Details = None, ae_StatusCode = 0, ae_Code = code, ae_Message = message, ae_ErrorID = errorID\<rparr>"

definition ArcaError_text :: "ArcaError \<Rightarrow> gostring" where
  "ArcaError_text e =
     (if ae_ErrorID e \<noteq> [] then ae_Code e @ '': '' @ ae_Message e @ '' (errorId='' @ ae_ErrorID e @ '')''
      else ae_Code e @ '': '' @ ae_Message e)"

text \<open>\<^verbatim>\<open>err.Error()\<close>.\<close>

fun error_text :: "error \<Rightarrow> gostring" where
  "error_text (Arca k e) = ArcaError_text e"
| "error_text (Transient st e) = ''transient network error: '' @ error_text e"
| "error_text (Wrapped p e) = p @ error_text e"
| "error_text (CtxError t) = t"
| "error_text (Plain t) = t"

section \<open>errors.As\<close>

fun as_kind :: "error \<Rightarrow> (err_kind \<times> ArcaError) option" where
  "as_kind (Arca k e) = Some (k, e)"
| "as_kind (Transient st e) = as_kind e"
| "as_kind (Wrapped p e) = as_kind e"
| "as_kind _ = None"

definition isUnauthorized :: "error \<Rightarrow> bool" where
  "isUnauthorized err = (case as_kind err of Some (UnauthorizedError, _) \<Rightarrow> True | _ \<Rightarrow> False)"

definition isForbidden :: "error \<Rightarrow> bool" where
  "isForbidden err = (case as_kind err of Some (ForbiddenError, _) \<Rightarrow> True | _ \<Rightarrow> False)"

definition isAuthRejection :: "error \<Rightarrow> bool" where
  "isAuthRejection err \<longleftrightarrow> isUnauthorized err \<or> isForbidden err"

definition asUnauthorized :: "error \<Rightarrow> error" where
  "asUnauthorized err =
     (case as_kind err of
        Some (UnauthorizedError, e) \<Rightarrow> Arca UnauthorizedError e
      | _ \<Rightarrow> Arca UnauthorizedError (newArcaError ''UNAUTHORIZED'' (error_text err) []))"

definition asStepUp :: "error \<Rightarrow> StepUpChallenge option" where
  "asStepUp err = (case as_kind err of Some (StepUpRequiredError c, _) \<Rightarrow> Some c | _ \<Rightarrow> None)"

definition asStepUpCancelled :: "error \<Rightarrow> bool" where
  "asStepUpCancelled err = (case as_kind err of Some (StepUpCancelledError, _) \<Rightarrow> True | _ \<Rightarrow> False)"

definition AsOperationFailed :: "error \<Rightarrow> OperationSnapshot option" where
  "AsOperationFailed err = (case as_kind err of Some (OperationFailedError s, _) \<Rightarrow> Some s | _ \<Rightarrow> None)"

fun isTransient :: "error \<Rightarrow> bool" where
  "isTransient (Transient st e) = True"
| "isTransient (Wrapped p e) = isTransient e"
| "isTransient _ = False"

section \<open>Constructors\<close>

definition newOperationFailedError :: "OperationSnapshot \<Rightarrow> error" where
  "newOperationFailedError op =
     (let msg = (case os_FailureMessage op of
                   Some m \<Rightarrow> if m \<noteq> [] then m else ''This operation could not be completed.''
                 | None \<Rightarrow> ''This operation could not be completed.'') in
      Arca (OperationFailedError op) (newArcaError ''OPERATION_FAILED'' msg []))"

definition newOperationStalledError :: "gostring \<Rightarrow> int \<Rightarrow> OperationSnapshot option \<Rightarrow> error" where
  "newOperationStalledError operationID timeoutMS op =
     (let lastState = (case op of Some s \<Rightarrow> os_State s | None \<Rightarrow> ''unknown'');
          msg = ''Timed out waiting for operation '' @ operationID
                @ '' to reach a terminal state after '' @ show_int timeoutMS
                @ ''ms (last known state: '' @ lastState @ '')'' in
      Arca (OperationStalledError operationID timeoutMS op) (newArcaError ''OPERATION_STALLED'' msg []))"

section \<open>Challenges\<close>

text \<open>\<^verbatim>\<open>details[key].(string)\<close>, empty when absent or not a string.\<close>

definition detail_str :: "jfields \<Rightarrow> gostring \<Rightarrow> gostring" where
  "detail_str details k = (case map_value details k of Some (JStr s) \<Rightarrow> s | _ \<Rightarrow> [])"

definition parseCosignChallenge :: "jfields option \<Rightarrow> CosignRequiredChallenge option" where
  "parseCosignChallenge details =
     (case details of None \<Rightarrow> None
      | Some d \<Rightarrow>
          let str = detail_str d; boundaryID = str ''boundaryId'' in
          if boundaryID = [] then None
          else Some \<lparr>crc_Surface = str ''surface'', crc_BoundaryID = boundaryID,
                     crc_ArcaPath = str ''arcaPath'', crc_SourceArcaPath = str ''sourceArcaPath'',
                     crc_TargetArcaPath = str ''targetArcaPath'', crc_Propose = str ''propose'',
                     crc_Submit = str ''submit''\<rparr>)"

definition CosignNonceExecuted :: gostring where "CosignNonceExecuted = ''executed''"
definition CosignNonceRevoked :: gostring where "CosignNonceRevoked = ''revoked''"
definition CosignNonceUnknown :: gostring where "CosignNonceUnknown = ''unknown''"

lemmas nonce_disposition_defs = CosignNonceExecuted_def CosignNonceRevoked_def CosignNonceUnknown_def

definition normalizeCosignDisposition :: "gostring \<Rightarrow> gostring" where
  "normalizeCosignDisposition d =
     (if d \<in> {[], CosignNonceExecuted, CosignNonceRevoked, CosignNonceUnknown} then d
      else CosignNonceUnknown)"

definition parseCosignNonceUsed :: "jfields option \<Rightarrow> CosignNonceUsedDetails option" where
  "parseCosignNonceUsed details =
     (case details of None \<Rightarrow> None
      | Some d \<Rightarrow>
          let str = detail_str d; boundaryID = str ''boundaryId'' in
          if boundaryID = [] then None
          else Some \<lparr>cnu_BoundaryID = boundaryID, cnu_Nonce = str ''nonce'', cnu_Reason = str ''reason'',
                     cnu_Resolution = str ''resolution'',
                     cnu_Disposition = normalizeCosignDisposition (str ''disposition''),
                     cnu_TxHash = str ''txHash'', cnu_OperationID = str ''operationId''\<rparr>)"

fun json_strings :: "json list \<Rightarrow> gostring list" where
  "json_strings [] = []"
| "json_strings (JStr s # rs) = s # json_strings rs"
| "json_strings (_ # rs) = json_strings rs"

definition parseStepUpChallenge :: "jfields option \<Rightarrow> StepUpChallenge option" where
  "parseStepUpChallenge details =
     (case details of None \<Rightarrow> None
      | Some d \<Rightarrow>
          (case map_value d ''action'' of
             Some (JStr action) \<Rightarrow>
               (case map_value d ''resources'' of
                  Some (JArr raw) \<Rightarrow> Some \<lparr>suc_Action = action, suc_Resources = json_strings raw\<rparr>
                | _ \<Rightarrow> None)
           | _ \<Rightarrow> None))"

section \<open>The mapping\<close>

definition not_found_codes :: "gostring list" where
  "not_found_codes = [''NOT_FOUND'', ''USER_NOT_FOUND'', ''REALM_NOT_FOUND'', ''OBJECT_NOT_FOUND'',
     ''ORG_NOT_FOUND'', ''ORDER_NOT_FOUND'', ''ACCOUNT_NOT_FOUND'', ''MEMBER_NOT_FOUND'',
     ''PROFILE_NOT_FOUND'', ''INVITATION_NOT_FOUND'']"

definition conflict_codes :: "gostring list" where
  "conflict_codes = [''CONFLICT'', ''ALREADY_EXISTS'', ''ALREADY_MEMBER'', ''ALREADY_DELETED'',
     ''DUPLICATE_REALM'', ''ALREADY_REVOKED'', ''IDEMPOTENCY_VIOLATION'', ''NO_LIQUIDITY'',
     ''MARKET_DELISTED'', ''MARKET_NOT_TRADABLE'', ''MARKET_NOT_USDC_COLLATERAL'',
     ''VENUE_RATE_LIMITED'', ''ORDER_FAILED'', ''ACTION_REQUEST_CONFLICT'', ''ACTION_ATTEMPT_STALE'',
     ''ACTION_PAYLOAD_MISMATCH'', ''V9_PROPOSAL_CLOSED'', ''ACTION_PROPOSAL_REQUIRED'']"

definition mapAPIError :: "gostring \<Rightarrow> gostring \<Rightarrow> gostring \<Rightarrow> jfields option \<Rightarrow> error" where
  "mapAPIError code message errorID details =
     (let base = (newArcaError code message errorID)\<lparr>ae_Details := details\<rparr> in
      if code = ''VALIDATION_ERROR'' then Arca ValidationError base
      else if code = ''UNAUTHORIZED'' then Arca UnauthorizedError base
      else if code \<in> {''FORBIDDEN'', ''REALM_SCOPE_MISMATCH''} then Arca ForbiddenError base
      else if code \<in> set not_found_codes then Arca NotFoundError base
      else if code \<in> set conflict_codes then Arca ConflictError base
      else if code = ''INTERNAL_ERROR'' then Arca InternalError base
      else if code \<in> {''EXCHANGE_ERROR'', ''EXCHANGE_UNAVAILABLE'', ''INVALID_REQUEST''} then
        Arca ExchangeError base
      else if code = ''STEP_UP_REQUIRED'' then
        (case parseStepUpChallenge details of
           Some c \<Rightarrow> Arca (StepUpRequiredError c) base | None \<Rightarrow> Arca BaseError base)
      else if code = ''COSIGN_REQUIRED'' then
        (case parseCosignChallenge details of
           Some c \<Rightarrow> Arca (CosignRequiredError c) base | None \<Rightarrow> Arca BaseError base)
      else if code = ''COSIGN_NONCE_USED'' then
        (case parseCosignNonceUsed details of
           Some c \<Rightarrow> Arca (CosignNonceUsedError c) base | None \<Rightarrow> Arca BaseError base)
      else Arca BaseError base)"

section \<open>Lemmas\<close>

lemma mapAPIError_base: "\<exists>k. mapAPIError code message errorID details =
    Arca k ((newArcaError code message errorID)\<lparr>ae_Details := details\<rparr>)"
  by (simp add: mapAPIError_def Let_def split: option.split)

lemma as_kind_mapAPIError:
  "as_kind (mapAPIError code message errorID details) \<noteq> None"
  using mapAPIError_base [of code message errorID details] by auto

lemma mapAPIError_not_transient [simp]: "\<not> isTransient (mapAPIError code message errorID details)"
  using mapAPIError_base [of code message errorID details] by auto

section \<open>Properties\<close>

text \<open>Mapping an API error loses nothing: whatever the code, the resulting error carries the server's
  code, message, error id and details verbatim; an authentication rejection is reported exactly for
  the codes UNAUTHORIZED, FORBIDDEN and REALM_SCOPE_MISMATCH; and a nonce-used error tells the caller
  that value moved, or that it was revoked, only when the server's own disposition says exactly that,
  every unrecognised disposition reading as unknown.\<close>

theorem mapAPIError_faithful:
  "case mapAPIError code message errorID details of
     Arca k e \<Rightarrow>
       ae_Code e = code \<and> ae_Message e = message \<and> ae_ErrorID e = errorID \<and> ae_Details e = details
       \<and> (k = UnauthorizedError \<or> k = ForbiddenError \<longleftrightarrow>
            code \<in> {''UNAUTHORIZED'', ''FORBIDDEN'', ''REALM_SCOPE_MISMATCH''})
       \<and> (case k of
            CosignNonceUsedError c \<Rightarrow>
              (case details of
                 None \<Rightarrow> False
               | Some d \<Rightarrow>
                   (let said = detail_str d ''disposition'' in
                    cnu_BoundaryID c \<noteq> []
                    \<and> cnu_Disposition c = (if said = [] \<or> said = CosignNonceExecuted
                         \<or> said = CosignNonceRevoked then said else CosignNonceUnknown)))
          | _ \<Rightarrow> True)
   | _ \<Rightarrow> False"
  by (auto simp: mapAPIError_def Let_def newArcaError_def parseCosignNonceUsed_def
      normalizeCosignDisposition_def nonce_disposition_defs split: option.splits)

end
