(* ===== verification/Receipts.thy ===== *)
theory Receipts
  imports Execution Api_Errors
begin

text \<open>
  Handles and receipts (\<^verbatim>\<open>operation.go\<close>, \<^verbatim>\<open>order_execution.go\<close>, \<^verbatim>\<open>execution_receipt.go\<close>): the cached
  settlement of an operation handle, the execution receipt, its recovery from an existing operation,
  the wait for execution evidence as a machine over pushes and reads, the accounting wait, and fill
  delivery.  Reads of the platform are arguments of the definitions.
\<close>

section \<open>Operation handles\<close>

definition snapshot :: "Operation \<Rightarrow> OperationSnapshot" where
  "snapshot o' = \<lparr>os_ID = op_ID o', os_State = op_State o', os_Outcome = op_Outcome o',
                 os_FailureMessage = op_FailureMessage o'\<rparr>"

text \<open>
  The response type of a handle is \<^typ>\<open>'r\<close> with its accessors \<^verbatim>\<open>opOf\<close> and \<^verbatim>\<open>setOp\<close>; \<^verbatim>\<open>waitFn\<close> waits for
  an operation in a world \<^typ>\<open>'w\<close>.  \<^verbatim>\<open>sub\<close> is what \<^verbatim>\<open>Submitted\<close> returns.
\<close>

record ('r, 'w) handle_deps =
  hd_opOf :: "'r \<Rightarrow> Operation option"
  hd_setOp :: "'r \<Rightarrow> Operation \<Rightarrow> 'r"
  hd_waitFn :: "'w \<Rightarrow> gostring \<Rightarrow> int \<Rightarrow> 'w \<times> (error + Operation)"
  hd_defaultTimeout :: int

definition settle ::
    "('r, 'w) handle_deps \<Rightarrow> 'r \<times> error option \<Rightarrow> int \<Rightarrow> 'w \<Rightarrow> ('r \<times> error option) \<times> 'w" where
  "settle d sub timeout w =
     (case sub of
        (resp, Some err) \<Rightarrow> ((resp, Some err), w)
      | (resp, None) \<Rightarrow>
          (case hd_opOf d resp of
             None \<Rightarrow> ((resp, None), w)
           | Some o' \<Rightarrow>
               if op_State o' = OpFailed \<or> op_State o' = OpExpired then
                 ((resp, Some (newOperationFailedError (snapshot o'))), w)
               else if op_State o' \<noteq> OpPending then ((resp, None), w)
               else (case hd_waitFn d w (op_ID o') timeout of
                       (w', Inl err) \<Rightarrow> ((resp, Some err), w')
                     | (w', Inr completed) \<Rightarrow> ((hd_setOp d resp completed, None), w'))))"

record 'r settle_cache =
  sc_done :: bool
  sc_settled :: 'r
  sc_err :: "error option"

definition Wait ::
    "('r, 'w) handle_deps \<Rightarrow> 'r \<times> error option \<Rightarrow> 'r settle_cache \<times> 'w
       \<Rightarrow> ('r \<times> error option) \<times> 'r settle_cache \<times> 'w" where
  "Wait d sub st =
     (case st of (h, w) \<Rightarrow>
        if sc_done h then ((sc_settled h, sc_err h), h, w)
        else (case settle d sub (hd_defaultTimeout d) w of
                ((r, e), w') \<Rightarrow> ((r, e), \<lparr>sc_done = (e = None), sc_settled = r, sc_err = e\<rparr>, w')))"

section \<open>Receipts\<close>

record OrderExecutionReceipt =
  oer_ObjectID :: gostring
  oer_OperationID :: gostring
  oer_Market :: gostring
  oer_FulfillmentState :: gostring
  oer_AveragePriceSource :: gostring
  oer_OrderID :: gostring
  oer_Status :: gostring
  oer_FilledSize :: gostring
  oer_RequestedSize :: "gostring option"
  oer_RemainingSize :: "gostring option"
  oer_ExecutionState :: gostring
  oer_RemainingDisposition :: gostring
  oer_AvgFillPrice :: "gostring option"
  oer_AveragePriceFinal :: bool
  oer_FillsComplete :: bool

text \<open>The outcome map goes through JSON into the receipt; the key names are the receipt's.\<close>

definition out_strp :: "outcome \<Rightarrow> gostring \<Rightarrow> gostring option" where
  "out_strp m k = (case m k of Some (OStr s) \<Rightarrow> Some s | _ \<Rightarrow> None)"

definition out_str :: "outcome \<Rightarrow> gostring \<Rightarrow> gostring" where
  "out_str m k = (case out_strp m k of Some s \<Rightarrow> s | None \<Rightarrow> [])"

definition out_bool :: "outcome \<Rightarrow> gostring \<Rightarrow> bool" where
  "out_bool m k = (case m k of Some (OBool b) \<Rightarrow> b | _ \<Rightarrow> False)"

definition executionReceipt ::
    "SimOrderWithFills \<Rightarrow> gostring \<Rightarrow> gostring \<Rightarrow> OrderExecutionReceipt option" where
  "executionReceipt evidence operationID objectID =
     map_option (\<lambda>m.
       \<lparr>oer_ObjectID = objectID, oer_OperationID = operationID, oer_Market = so_Market (swf_Order evidence),
        oer_FulfillmentState = out_str m ''fulfillmentState'',
        oer_AveragePriceSource = out_str m ''averagePriceSource'', oer_OrderID = out_str m ''orderId'',
        oer_Status = out_str m ''status'', oer_FilledSize = out_str m ''filledSize'',
        oer_RequestedSize = out_strp m ''requestedSize'', oer_RemainingSize = out_strp m ''remainingSize'',
        oer_ExecutionState = out_str m ''executionState'',
        oer_RemainingDisposition = out_str m ''remainingDisposition'',
        oer_AvgFillPrice = out_strp m ''avgFillPrice'', oer_AveragePriceFinal = out_bool m ''averagePriceFinal'',
        oer_FillsComplete = out_bool m ''fillsComplete''\<rparr>)
       (ExecutionOutcome evidence)"

section \<open>Recovery from an operation\<close>

type_synonym get_order = "gostring \<Rightarrow> gostring \<Rightarrow> error + SimOrderWithFills"

text \<open>The outcome map: the decoded \<^verbatim>\<open>Outcome\<close> text when it decodes, else \<^verbatim>\<open>ParsedOutcome\<close>.\<close>

definition outcome_fields :: "Operation \<Rightarrow> jfields" where
  "outcome_fields operation =
     (let parsed = (case op_ParsedOutcome operation of Some fs \<Rightarrow> fs | None \<Rightarrow> []) in
      case op_Outcome operation of
        Some (JText j) \<Rightarrow> (case obj_fields j of Some fs \<Rightarrow> fs | None \<Rightarrow> parsed)
      | _ \<Rightarrow> parsed)"

definition map_str :: "jfields \<Rightarrow> gostring \<Rightarrow> gostring" where
  "map_str fs k = (case map_value fs k of Some (JStr s) \<Rightarrow> s | _ \<Rightarrow> [])"

definition arca_error :: "gostring \<Rightarrow> gostring \<Rightarrow> error" where
  "arca_error code message = Arca BaseError (newArcaError code message [])"

definition GetOperationOrder :: "get_order \<Rightarrow> gostring \<Rightarrow> Operation \<Rightarrow> error + SimOrderWithFills" where
  "GetOperationOrder getOrder objectID operation =
     (let expected = map_str (outcome_fields operation) ''orderId'';
          ident = (if expected = [] then op_ID operation else expected) in
      if ident = [] then
        Inl (arca_error ''ORDER_UNRESOLVED'' ''Order execution identity is not available'')
      else case getOrder objectID ident of
        Inl err \<Rightarrow> Inl err
      | Inr out \<Rightarrow>
          if expected \<noteq> [] \<and> so_ID (swf_Order out) \<noteq> expected then
            Inl (arca_error ''ORDER_IDENTITY_MISMATCH'' ''Order execution identity does not match'')
          else Inr out)"

text \<open>Whether the operation's input names another account.\<close>

definition alien_input :: "Operation \<Rightarrow> gostring \<Rightarrow> bool" where
  "alien_input operation objectID =
     (case op_Input operation of
        None \<Rightarrow> False
      | Some t \<Rightarrow>
          (case Option.bind (text_fields t) (str_field ''exchangeObjectId'') of
             None \<Rightarrow> False
           | Some ob \<Rightarrow> ob \<noteq> [] \<and> ob \<noteq> objectID))"

text \<open>\<^verbatim>\<open>GetOperationExecutionReceipt\<close>; the outer \<^const>\<open>None\<close> is a panic.\<close>

definition GetOperationExecutionReceipt ::
    "get_order \<Rightarrow> gostring \<Rightarrow> Operation \<Rightarrow> (error + OrderExecutionReceipt) option" where
  "GetOperationExecutionReceipt getOrder objectID operation =
     (if alien_input operation objectID then
        Some (Inl (arca_error ''ORDER_IDENTITY_MISMATCH'' ''Operation belongs to a different exchange account''))
      else if op_State operation = OpFailed \<or> op_State operation = OpExpired then
        Some (Inl (newOperationFailedError (snapshot operation)))
      else case operationExecution operation objectID of
        None \<Rightarrow> None
      | Some (Some evidence) \<Rightarrow> map_option Inr (executionReceipt evidence (op_ID operation) objectID)
      | Some None \<Rightarrow>
          (case GetOperationOrder getOrder objectID operation of
             Inl err \<Rightarrow> Some (Inl err)
           | Inr detail \<Rightarrow>
               (case executionUpdate operation objectID (swf_Order detail) of
                  None \<Rightarrow> None
                | Some None \<Rightarrow>
                    Some (Inl (arca_error ''ORDER_UNRESOLVED'' ''Terminal execution evidence is not available''))
                | Some (Some evidence) \<Rightarrow>
                    map_option Inr (executionReceipt evidence (op_ID operation) objectID))))"

text \<open>\<^verbatim>\<open>Filled\<close>, once the receipt is known.\<close>

definition Filled :: "get_order \<Rightarrow> gostring \<Rightarrow> OrderExecutionReceipt \<Rightarrow> error + SimOrderWithFills" where
  "Filled getOrder objectID receipt =
     (case getOrder objectID (oer_OrderID receipt) of
        Inl err \<Rightarrow> Inl err
      | Inr detail \<Rightarrow>
          if so_ID (swf_Order detail) \<noteq> oer_OrderID receipt then
            Inl (arca_error ''ORDER_IDENTITY_MISMATCH'' ''Order details do not match the execution receipt'')
          else if \<not> isTerminalOrderStatus (so_Status (swf_Order detail))
              \<or> \<not> executionDecimal (so_FilledSize (swf_Order detail))
              \<or> rat_set_string (oer_FilledSize receipt) = None
              \<or> rat_set_string (so_FilledSize (swf_Order detail)) = None
              \<or> rat_set_string (oer_FilledSize receipt) \<noteq> rat_set_string (so_FilledSize (swf_Order detail)) then
            Inl (arca_error ''ORDER_DETAILS_PENDING''
              ''Execution completed; matching terminal order details are not available yet'')
          else Inr detail)"

section \<open>Waiting for execution evidence\<close>

text \<open>The fields of a realm event the order code reads.\<close>

record RealmEvent =
  re_Type :: gostring
  re_EntityID :: gostring
  re_Operation :: "Operation option"
  re_Order :: "SimOrderWithFills option"
  re_Fill :: "SimFill option"
  re_CorrelationID :: gostring

definition EventFillRecorded :: gostring where "EventFillRecorded = ''fill.recorded''"

text \<open>The venue identity the submission response carries, empty when it carries none.\<close>

definition submitted_identity :: "Operation \<Rightarrow> gostring" where
  "submitted_identity operation =
     (let orderID = map_str (case op_ParsedOutcome operation of Some fs \<Rightarrow> fs | None \<Rightarrow> []) ''orderId'' in
      case op_Outcome operation of
        None \<Rightarrow> orderID
      | Some t \<Rightarrow>
          (case Option.bind (text_fields t) (str_field ''orderId'') of
             Some i \<Rightarrow> if i \<noteq> [] then i else orderID
           | None \<Rightarrow> orderID))"

definition resolveOrderID :: "Operation \<Rightarrow> gostring" where
  "resolveOrderID operation =
     (let i = map_str (case op_ParsedOutcome operation of Some fs \<Rightarrow> fs | None \<Rightarrow> []) ''orderId'' in
      if i \<noteq> [] then i
      else case op_Outcome operation of
        Some t \<Rightarrow>
          (case Option.bind (text_fields t) (str_field ''orderId'') of
             Some j \<Rightarrow> if j \<noteq> [] then j else op_ID operation
           | None \<Rightarrow> op_ID operation)
      | None \<Rightarrow> op_ID operation)"

definition resolveCloid :: "Operation \<Rightarrow> gostring" where
  "resolveCloid operation =
     (case op_Outcome operation of
        Some t \<Rightarrow>
          (case Option.bind (text_fields t) (str_field ''cloid'') of Some c \<Rightarrow> c | None \<Rightarrow> [])
      | None \<Rightarrow> [])"

text \<open>What the wait ends with, or that it goes on.\<close>

datatype evidence = Found SimOrderWithFills | EvidenceError error | EvidencePanic | Undecided

definition terminal_failure :: "gostring \<Rightarrow> bool" where
  "terminal_failure st \<longleftrightarrow> st = OpFailed \<or> st = OpExpired"

definition of_update :: "SimOrderWithFills option option \<Rightarrow> evidence" where
  "of_update u = (case u of None \<Rightarrow> EvidencePanic | Some None \<Rightarrow> Undecided | Some (Some ev) \<Rightarrow> Found ev)"

text \<open>The operation part of one event: a failure ends the wait, correlated evidence too.\<close>

definition event_operation :: "Operation \<Rightarrow> gostring \<Rightarrow> gostring \<Rightarrow> RealmEvent \<Rightarrow> evidence" where
  "event_operation settled objectID resolved ev =
     (case re_Operation ev of
        None \<Rightarrow> Undecided
      | Some o' \<Rightarrow>
          if op_ID o' \<noteq> op_ID settled then Undecided
          else if terminal_failure (op_State o') then EvidenceError (newOperationFailedError (snapshot o'))
          else (case of_update (operationExecution o' objectID) of
                  Found result \<Rightarrow>
                    if resolved = [] \<or> so_ID (swf_Order result) = resolved then Found result else Undecided
                | e \<Rightarrow> e))"

definition event_order :: "Operation \<Rightarrow> gostring \<Rightarrow> gostring \<Rightarrow> RealmEvent \<Rightarrow> evidence" where
  "event_order settled objectID resolved ev =
     (case re_Order ev of
        None \<Rightarrow> Undecided
      | Some ow \<Rightarrow>
          if re_EntityID ev = objectID \<and> so_ID (swf_Order ow) = resolved
             \<and> isTerminalOrderStatus (so_Status (swf_Order ow))
          then of_update (executionUpdate settled objectID (swf_Order ow)) else Undecided)"

text \<open>
  One pass over the queued events.  While the order's identity is unknown, order events of the account
  are kept (at most 256 of them) for a later pass.
\<close>

fun process_batch ::
    "Operation \<Rightarrow> gostring \<Rightarrow> gostring \<Rightarrow> RealmEvent list \<Rightarrow> RealmEvent list
       \<Rightarrow> evidence \<times> RealmEvent list" where
  "process_batch settled objectID resolved kept [] = (Undecided, kept)"
| "process_batch settled objectID resolved kept (ev # evs) =
     (case event_operation settled objectID resolved ev of
        Undecided \<Rightarrow>
          if re_Order ev \<noteq> None \<and> re_EntityID ev = objectID \<and> resolved = [] then
            process_batch settled objectID resolved (if length kept < 256 then kept @ [ev] else kept) evs
          else (case event_order settled objectID resolved ev of
                  Undecided \<Rightarrow> process_batch settled objectID resolved kept evs
                | e \<Rightarrow> (e, kept))
      | e \<Rightarrow> (e, kept))"

definition on_snapshot ::
    "Operation \<Rightarrow> gostring \<Rightarrow> gostring \<Rightarrow> error + SimOrderWithFills \<Rightarrow> evidence" where
  "on_snapshot settled objectID resolved result =
     (case result of
        Inl err \<Rightarrow>
          (case as_kind err of
             Some (OperationFailedError s, e) \<Rightarrow>
               if os_ID s = op_ID settled \<and> terminal_failure (os_State s)
               then EvidenceError (Arca (OperationFailedError s) e) else Undecided
           | _ \<Rightarrow> Undecided)
      | Inr value \<Rightarrow>
          if (resolved = [] \<or> so_ID (swf_Order value) = resolved)
             \<and> isTerminalOrderStatus (so_Status (swf_Order value))
          then of_update (executionUpdate settled objectID (swf_Order value)) else Undecided)"

text \<open>
  The wait as a machine.  \<^verbatim>\<open>Push\<close> queues an event, \<^verbatim>\<open>Resolve\<close> stores the venue identity (it is stored
  once, while unknown), \<^verbatim>\<open>Wake\<close> runs a pass, \<^verbatim>\<open>Snap\<close> delivers a read, \<^verbatim>\<open>Deadline\<close> ends the context.
\<close>

datatype wait_input =
    Push RealmEvent | Resolve gostring | Wake | Snap "error + SimOrderWithFills" | Deadline gostring

record wait_state =
  ws_queue :: "RealmEvent list"
  ws_resolved :: gostring

definition wait_step :: "Operation \<Rightarrow> gostring \<Rightarrow> wait_state \<Rightarrow> wait_input \<Rightarrow> evidence \<times> wait_state" where
  "wait_step settled objectID st inp =
     (case inp of
        Push ev \<Rightarrow>
          (Undecided, if re_Order ev = None \<and> re_Operation ev = None then st
                      else st\<lparr>ws_queue := ws_queue st @ [ev]\<rparr>)
      | Resolve i \<Rightarrow> (Undecided, if ws_resolved st = [] then st\<lparr>ws_resolved := i\<rparr> else st)
      | Wake \<Rightarrow>
          (case process_batch settled objectID (ws_resolved st) [] (ws_queue st) of
             (e, kept) \<Rightarrow> (e, st\<lparr>ws_queue := kept\<rparr>))
      | Snap r \<Rightarrow> (on_snapshot settled objectID (ws_resolved st) r, st)
      | Deadline t \<Rightarrow> (EvidenceError (CtxError t), st))"

fun wait_run :: "Operation \<Rightarrow> gostring \<Rightarrow> wait_state \<Rightarrow> wait_input list \<Rightarrow> evidence" where
  "wait_run settled objectID st [] = Undecided"
| "wait_run settled objectID st (i # is) =
     (case wait_step settled objectID st i of
        (Undecided, st') \<Rightarrow> wait_run settled objectID st' is
      | (e, st') \<Rightarrow> e)"

definition waitExecutionEvidence ::
    "gostring \<Rightarrow> error + Operation \<Rightarrow> RealmEvent list \<Rightarrow> wait_input list \<Rightarrow> evidence" where
  "waitExecutionEvidence objectID sub captured inputs =
     (case sub of
        Inl err \<Rightarrow> EvidenceError err
      | Inr settled \<Rightarrow>
          if terminal_failure (op_State settled) then
            EvidenceError (newOperationFailedError (snapshot settled))
          else case of_update (operationExecution settled objectID) of
            Undecided \<Rightarrow>
              wait_run settled objectID
                \<lparr>ws_queue = filter (\<lambda>ev. re_Order ev \<noteq> None \<or> re_Operation ev \<noteq> None) captured,
                 ws_resolved = submitted_identity settled\<rparr> (Wake # inputs)
          | e \<Rightarrow> e)"

section \<open>Accounting\<close>

record Fill =
  fl_ID :: gostring
  fl_OperationID :: gostring
  fl_FillID :: gostring
  fl_ObjectID :: gostring
  fl_OrderOperationID :: gostring
  fl_OrderID :: gostring
  fl_Market :: gostring
  fl_Side :: gostring
  fl_Size :: gostring
  fl_Price :: gostring
  fl_Direction :: gostring
  fl_StartPosition :: gostring
  fl_Fee :: gostring
  fl_ExchangeFee :: gostring
  fl_PlatformFee :: gostring
  fl_BuilderFee :: gostring
  fl_RealizedPnl :: gostring
  fl_ResultingPosition :: "FillResultingPosition option"
  fl_IsLiquidation :: bool
  fl_CreatedAt :: gostring
  fl_IsOptimistic :: bool
  fl_IsTrigger :: "bool option"
  fl_Tpsl :: gostring
  fl_TriggerPx :: gostring
  fl_LiquidationKind :: gostring

definition recorded_for :: "gostring \<Rightarrow> gostring \<Rightarrow> Fill \<Rightarrow> bool" where
  "recorded_for orderID operationID f \<longleftrightarrow>
     fl_OperationID f \<noteq> []
     \<and> ((fl_OrderID f \<noteq> [] \<and> fl_OrderID f = orderID)
        \<or> (fl_OrderOperationID f \<noteq> [] \<and> fl_OrderOperationID f = operationID))"

text \<open>\<^verbatim>\<open>isAccounted\<close>; \<^verbatim>\<open>listFills\<close> is \<^const>\<open>None\<close> when the dependency is not wired.\<close>

definition isAccounted ::
    "(error + Fill list) option \<Rightarrow> SimOrderWithFills \<Rightarrow> gostring \<Rightarrow> gostring \<Rightarrow> error + bool" where
  "isAccounted listFills detail orderID operationID =
     (case swf_FillsComplete detail of
        Some b \<Rightarrow> Inr b
      | None \<Rightarrow>
          if \<not> isTerminalOrderStatus (so_Status (swf_Order detail)) then Inr False
          else if recordedSizesCover [] (so_FilledSize (swf_Order detail)) then Inr True
          else case listFills of
            None \<Rightarrow> Inr False
          | Some (Inl err) \<Rightarrow> Inl err
          | Some (Inr recorded) \<Rightarrow>
              (let sizes = map fl_Size (filter (recorded_for orderID operationID) recorded) in
               Inr (length sizes > 0 \<and> recordedSizesCover sizes (so_FilledSize (swf_Order detail)))))"

definition accountedReadInitial :: int where "accountedReadInitial = 500000000"
definition accountedReadMax :: int where "accountedReadMax = 8000000000"

definition next_backoff :: "int \<Rightarrow> int" where
  "next_backoff backoff =
     (if backoff < accountedReadMax then
        (if backoff * 2 > accountedReadMax then accountedReadMax else backoff * 2)
      else backoff)"

text \<open>One turn of the \<^verbatim>\<open>Accounted\<close> loop: the deadline, a trigger or the timer, each with the read it causes.\<close>

record account_read =
  rd_detail :: "error + SimOrderWithFills"
  rd_fills :: "(error + Fill list) option"

datatype account_turn = AccDeadline gostring | AccTrigger account_read | AccTimer account_read

datatype account_result = AccDone SimOrderWithFills | AccError error | AccContinue

definition account_check :: "gostring \<Rightarrow> gostring \<Rightarrow> account_read \<Rightarrow> account_result" where
  "account_check orderID operationID rd =
     (case rd_detail rd of
        Inl err \<Rightarrow> (case AsOperationFailed err of Some _ \<Rightarrow> AccError err | None \<Rightarrow> AccContinue)
      | Inr detail \<Rightarrow>
          if so_ID (swf_Order detail) \<noteq> orderID then AccContinue
          else (case isAccounted (rd_fills rd) detail orderID operationID of
                  Inr True \<Rightarrow> AccDone detail
                | _ \<Rightarrow> AccContinue))"

text \<open>The state is the backoff and the number of exchange-state nudges.\<close>

fun accounted_loop ::
    "gostring \<Rightarrow> gostring \<Rightarrow> int \<times> nat \<Rightarrow> account_turn list \<Rightarrow> account_result \<times> int \<times> nat" where
  "accounted_loop orderID operationID st [] = (AccContinue, st)"
| "accounted_loop orderID operationID (backoff, nudges) (t # ts) =
     (case t of
        AccDeadline e \<Rightarrow> (AccError (CtxError e), backoff, nudges)
      | AccTrigger rd \<Rightarrow>
          (case account_check orderID operationID rd of
             AccDone detail \<Rightarrow> (AccDone detail, backoff, nudges + 1)
           | AccError err \<Rightarrow> (AccError err, backoff, nudges)
           | AccContinue \<Rightarrow> accounted_loop orderID operationID (backoff, nudges) ts)
      | AccTimer rd \<Rightarrow>
          (case account_check orderID operationID rd of
             AccDone detail \<Rightarrow> (AccDone detail, next_backoff backoff, nudges + 1)
           | AccError err \<Rightarrow> (AccError err, next_backoff backoff, nudges)
           | AccContinue \<Rightarrow> accounted_loop orderID operationID (next_backoff backoff, nudges) ts))"

section \<open>Fill delivery\<close>

definition fill_key :: "SimFill \<Rightarrow> gostring" where
  "fill_key f = (if sf_FillID f = [] then sf_ID f else sf_FillID f)"

text \<open>The \<^verbatim>\<open>OnFill\<close> dispatcher over queued fills: what is called back, and the keys seen.\<close>

fun deliver_fills :: "gostring \<Rightarrow> gostring \<Rightarrow> gostring set \<Rightarrow> SimFill list \<Rightarrow> SimFill list \<times> gostring set" where
  "deliver_fills orderID cloid seen [] = ([], seen)"
| "deliver_fills orderID cloid seen (f # fs) =
     (if fillMatches f orderID cloid \<and> fill_key f \<noteq> [] \<and> fill_key f \<notin> seen then
        (case deliver_fills orderID cloid (insert (fill_key f) seen) fs of (out, s) \<Rightarrow> (f # out, s))
      else deliver_fills orderID cloid seen fs)"

definition on_fill_queue :: "RealmEvent list \<Rightarrow> SimFill list" where
  "on_fill_queue evs =
     concat (map (\<lambda>ev. case re_Fill ev of Some f \<Rightarrow> if sf_IsOptimistic f then [] else [f] | None \<Rightarrow> []) evs)"

definition OnFill :: "Operation \<Rightarrow> RealmEvent list \<Rightarrow> SimFill list" where
  "OnFill operation evs =
     fst (deliver_fills (resolveOrderID operation) (resolveCloid operation) {} (on_fill_queue evs))"

definition FillSummary :: "gostring \<Rightarrow> gostring \<Rightarrow> Fill list \<Rightarrow> Fill option" where
  "FillSummary opID orderID fills = find (\<lambda>f. fl_OperationID f = opID \<or> fl_OrderID f = orderID) fills"

section \<open>Idempotency paths\<close>

fun indexOf_from :: "nat \<Rightarrow> gostring \<Rightarrow> gostring \<Rightarrow> int" where
  "indexOf_from i [] sub = (if sub = [] then int i else -1)"
| "indexOf_from i (c # cs) sub =
     (if take (length sub) (c # cs) = sub then int i else indexOf_from (Suc i) cs sub)"

definition indexOf :: "gostring \<Rightarrow> gostring \<Rightarrow> int" where
  "indexOf s sub = indexOf_from 0 s sub"

definition replaceFirst :: "gostring \<Rightarrow> gostring \<Rightarrow> gostring \<Rightarrow> gostring" where
  "replaceFirst s old new =
     (let i = indexOf s old in
      if i \<ge> 0 then take (nat i) s @ new @ drop (nat i + length old) s else s)"

definition cancel_path :: "gostring \<Rightarrow> gostring \<Rightarrow> gostring" where
  "cancel_path placementPath path =
     (if path = [] then replaceFirst placementPath ''/op/order/'' ''/op/cancel/'' else path)"

definition resize_path :: "gostring \<Rightarrow> gostring \<Rightarrow> gostring \<Rightarrow> gostring" where
  "resize_path placementPath newSize path =
     (if path = [] then replaceFirst placementPath ''/op/order/'' ''/op/modify/'' @ ''-'' @ newSize else path)"

section \<open>Lemmas: receipts\<close>

lemma decimal_value_plain: "list_all is_digit ds \<Longrightarrow> decimal_value ds = of_nat (nat_of_digits ds)"
  by (simp add: decimal_value_def CutByte_notin digit_list_no_dot)

lemma decimal_value_point:
  "list_all is_digit i \<Longrightarrow> decimal_value (i @ CHR ''.'' # f) = of_nat (nat_of_digits (i @ f)) / 10 ^ length f"
  by (simp add: decimal_value_def CutByte_hit digit_list_no_dot)

lemma executionDecimal_plain: "list_all is_digit ds \<Longrightarrow> ds \<noteq> [] \<Longrightarrow> executionDecimal ds"
  by (simp add: executionDecimal_def CutByte_notin digit_list_no_dot)

lemma executionDecimal_point:
  "list_all is_digit i \<Longrightarrow> i \<noteq> [] \<Longrightarrow> list_all is_digit f \<Longrightarrow> f \<noteq> [] \<Longrightarrow> executionDecimal (i @ CHR ''.'' # f)"
  by (simp add: executionDecimal_def CutByte_hit digit_list_no_dot)

lemma zero_digit [simp]: "is_digit (CHR ''0'')"
  by (simp add: is_digit_def ascii_def)

lemma FloatString_decimal:
  assumes "0 \<le> r" and ex: "r * 10 ^ k \<in> \<int>"
  shows "executionDecimal (FloatString r k) \<and> decimal_value (FloatString r k) = r"
proof -
  obtain a b where q: "quotient_of r = (a, b)" by fastforce
  have rab: "r = of_int a / of_int b" and b: "0 < b"
    using quotient_of_div [OF q] quotient_of_denom_pos [OF q] by simp_all
  show ?thesis
  proof (cases "b = 1")
    case True
    then have a: "0 \<le> a" "r = of_int a" using assms(1) rab by simp_all
    let ?d = "show_nat (nat a)"
    have s: "FloatString r k = ?d @ (if k > 0 then CHR ''.'' # replicate k (CHR ''0'') else [])"
      using q True a by (simp add: FloatString_def show_int_def)
    have z: "list_all is_digit (replicate k (CHR ''0''))" by (simp add: list_all_iff)
    show ?thesis
    proof (cases "k > 0")
      case True
      then show ?thesis using s z a
        by (simp add: executionDecimal_point decimal_value_point nat_of_digits_append)
    next
      case False
      then show ?thesis using s a by (simp add: executionDecimal_plain decimal_value_plain)
    qed
  next
    case False
    have k: "0 < k"
    proof (rule ccontr)
      assume "\<not> 0 < k"
      then obtain z where "r = of_int z" using ex by (auto elim: Ints_cases)
      then show False using q False by simp
    qed
    have "r \<noteq> 0" using q False by auto
    then have "0 < r" using assms(1) by simp
    then obtain w n where wn: "FloatString r k = show_nat w @ CHR ''.'' # pad_left k (show_nat n)"
      "0 < n" "n < 10 ^ k" "r = of_nat w + of_nat n / 10 ^ k"
      by (rule FloatString_exact [OF q _ False ex k])
    note pd = pad_left_digits [OF wn(3) k]
    have "pad_left k (show_nat n) \<noteq> []" using pd(1) k by auto
    then have "executionDecimal (FloatString r k)" using wn(1) pd(2) by (simp add: executionDecimal_point)
    moreover have "decimal_value (FloatString r k) =
        of_nat (w * 10 ^ k + n) / 10 ^ k"
      using wn(1) pd by (simp add: decimal_value_point nat_of_digits_append)
    ultimately show ?thesis using wn(4) by (simp add: add_divide_distrib)
  qed
qed

lemma decimal_value_scale: "frac_digits s \<le> k \<Longrightarrow> decimal_value s * 10 ^ k \<in> \<int>"
proof -
  assume k: "frac_digits s \<le> k"
  obtain i f found where c: "CutByte (CHR ''.'') s = (i, f, found)" by (metis prod_cases3)
  then have len: "length f \<le> k" using k by (simp add: frac_digits_def)
  then obtain j where j: "k = length f + j" using le_Suc_ex by blast
  have "decimal_value s * 10 ^ k = of_nat (nat_of_digits (i @ f) * 10 ^ j)"
    using c by (simp add: decimal_value_def j power_add)
  then show ?thesis by (metis Ints_of_nat)
qed

lemma scale_of_ge: "frac_digits a \<le> scale_of [a, b]" "frac_digits b \<le> scale_of [a, b]"
  by (simp_all add: scale_of_def)

lemma remaining_exact:
  assumes "decimal_value b \<le> decimal_value a"
  shows "executionDecimal (FloatString (decimal_value a - decimal_value b) (scale_of [a, b]))
    \<and> decimal_value (FloatString (decimal_value a - decimal_value b) (scale_of [a, b])) =
        decimal_value a - decimal_value b"
proof (rule FloatString_decimal)
  show "0 \<le> decimal_value a - decimal_value b" using assms by simp
  show "(decimal_value a - decimal_value b) * 10 ^ scale_of [a, b] \<in> \<int>"
    using decimal_value_scale [OF scale_of_ge(1)] decimal_value_scale [OF scale_of_ge(2)]
    by (simp add: left_diff_distrib)
qed

text \<open>What the outcome of an order says about its quantities.\<close>

definition fulfils :: "SimOrder \<Rightarrow> outcome \<Rightarrow> bool" where
  "fulfils order m \<longleftrightarrow>
     (let req = decimal_value (so_Size order); got = decimal_value (so_FilledSize order) in
      (case out_strp m ''remainingSize'' of
         None \<Rightarrow> m ''fulfillmentState'' = Some (OStr ''unknown'') \<and> m ''requestedSize'' = None
       | Some rem \<Rightarrow>
           m ''requestedSize'' = Some (OStr (so_Size order))
           \<and> executionDecimal (so_Size order) \<and> executionDecimal (so_FilledSize order)
           \<and> executionDecimal rem \<and> decimal_value rem = req - got
           \<and> m ''fulfillmentState'' = Some (OStr (if got = 0 then ''none''
                else if got < req then ''partial'' else ''full''))))"

lemma fulfillment_fulfils:
  assumes "fulfillment order out = Some m" "out ''remainingSize'' = None" "out ''requestedSize'' = None"
    "out ''fulfillmentState'' = Some (OStr ''unknown'')"
  shows "fulfils order m"
proof (cases "executionDecimal (so_Size order) \<and> executionDecimal (so_FilledSize order)
    \<and> decimal_value (so_FilledSize order) \<le> decimal_value (so_Size order)")
  case True
  then have "readable_decimal (so_Size order)" "readable_decimal (so_FilledSize order)"
    using assms(1) by (auto simp: fulfillment_def rat_set_string_execution split: if_splits)
  then show ?thesis
    using True assms(1) remaining_exact [of "so_FilledSize order" "so_Size order"]
    by (auto simp: fulfillment_def rat_set_string_execution fulfils_def out_strp_def Let_def split: if_splits)
next
  case False
  then have "m = out"
    using assms(1) by (auto simp: fulfillment_def rat_set_string_execution split: if_splits)
  then show ?thesis using assms by (simp add: fulfils_def out_strp_def)
qed

lemma fulfils_upd [simp]:
  "k \<notin> {''remainingSize'', ''requestedSize'', ''fulfillmentState''} \<Longrightarrow> fulfils order (m(k \<mapsto> v)) = fulfils order m"
proof -
  assume "k \<notin> {''remainingSize'', ''requestedSize'', ''fulfillmentState''}"
  then have "(m(k \<mapsto> v)) ''remainingSize'' = m ''remainingSize''"
    "(m(k \<mapsto> v)) ''requestedSize'' = m ''requestedSize''"
    "(m(k \<mapsto> v)) ''fulfillmentState'' = m ''fulfillmentState''" by auto
  then show ?thesis by (simp only: fulfils_def out_strp_def)
qed

lemma ExecutionOutcome_facts:
  assumes "ExecutionOutcome ev = Some m"
  shows "fulfils (swf_Order ev) m"
    "m ''orderId'' = Some (OStr (so_ID (swf_Order ev)))"
    "m ''filledSize'' = Some (OStr (so_FilledSize (swf_Order ev)))"
    "m ''averagePriceFinal'' = Some (OBool False)"
    "\<exists>d. executionDisposition (swf_Order ev) = Some d \<and> m ''executionState'' = Some (OStr (fst d))
       \<and> m ''remainingDisposition'' = Some (OStr (snd d))"
proof -
  define o0 where "o0 = [''orderId'' \<mapsto> OStr (so_ID (swf_Order ev)), ''status'' \<mapsto> OStr (so_Status (swf_Order ev)),
      ''filledSize'' \<mapsto> OStr (so_FilledSize (swf_Order ev)), ''fulfillmentState'' \<mapsto> OStr ''unknown'',
      ''averagePriceFinal'' \<mapsto> OBool False, ''averagePriceSource'' \<mapsto> OStr ''venue_aggregate'']"
  obtain m1 d where m1: "fulfillment (swf_Order ev) o0 = Some m1"
    and d: "executionDisposition (swf_Order ev) = Some d"
    using assms by (auto simp: ExecutionOutcome_def Let_def o0_def [symmetric] split: bind_splits)
  have keep: "m1 ''orderId'' = o0 ''orderId''" "m1 ''filledSize'' = o0 ''filledSize''"
    "m1 ''averagePriceFinal'' = o0 ''averagePriceFinal''"
    using m1 by (auto simp: fulfillment_def split: if_splits option.splits)
  have f1: "fulfils (swf_Order ev) m1" by (rule fulfillment_fulfils [OF m1]) (simp_all add: o0_def)
  note m = assms [unfolded ExecutionOutcome_def Let_def, folded o0_def]
  show "fulfils (swf_Order ev) m"
    using m m1 d f1 by (auto split: option.splits if_splits)
  show "m ''orderId'' = Some (OStr (so_ID (swf_Order ev)))"
    "m ''filledSize'' = Some (OStr (so_FilledSize (swf_Order ev)))"
    "m ''averagePriceFinal'' = Some (OBool False)"
    using m m1 d keep by (auto simp: o0_def split: option.splits if_splits)
  show "\<exists>d. executionDisposition (swf_Order ev) = Some d \<and> m ''executionState'' = Some (OStr (fst d))
       \<and> m ''remainingDisposition'' = Some (OStr (snd d))"
    using m m1 d by (auto split: option.splits if_splits)
qed

lemma executionReceiptE:
  assumes "executionReceipt ev opid ob = Some r"
  obtains m where "ExecutionOutcome ev = Some m" "oer_OrderID r = so_ID (swf_Order ev)"
    "oer_FilledSize r = so_FilledSize (swf_Order ev)" "oer_OperationID r = opid" "oer_ObjectID r = ob"
    "oer_RemainingSize r = out_strp m ''remainingSize''" "oer_RequestedSize r = out_strp m ''requestedSize''"
    "oer_FulfillmentState r = out_str m ''fulfillmentState''" "\<not> oer_AveragePriceFinal r"
    "executionDisposition (swf_Order ev) = Some (oer_ExecutionState r, oer_RemainingDisposition r)"
proof -
  obtain m where m: "ExecutionOutcome ev = Some m" using assms by (auto simp: executionReceipt_def)
  note f = ExecutionOutcome_facts [OF m]
  obtain d where d: "executionDisposition (swf_Order ev) = Some d"
    "m ''executionState'' = Some (OStr (fst d))" "m ''remainingDisposition'' = Some (OStr (snd d))"
    using f(5) by blast
  show ?thesis
    using that [OF m] assms m f(2-4) d
    by (auto simp: executionReceipt_def out_str_def out_strp_def out_bool_def)
qed

text \<open>Evidence found during the wait is sound for an operation with the submitted operation's id.\<close>

definition found_for :: "Operation \<Rightarrow> gostring \<Rightarrow> gostring \<Rightarrow> SimOrderWithFills \<Rightarrow> bool" where
  "found_for settled objectID resolved ev \<longleftrightarrow>
     (\<exists>o'. op_ID o' = op_ID settled \<and> sound_evidence o' objectID ev)
     \<and> (resolved = [] \<or> so_ID (swf_Order ev) = resolved)"

definition genuine_failure :: "Operation \<Rightarrow> error \<Rightarrow> bool" where
  "genuine_failure settled err \<longleftrightarrow>
     (case as_kind err of
        Some (OperationFailedError s, _) \<Rightarrow> os_ID s = op_ID settled \<and> terminal_failure (os_State s)
      | _ \<Rightarrow> \<exists>t. err = CtxError t)"

definition good_end :: "Operation \<Rightarrow> gostring \<Rightarrow> gostring \<Rightarrow> evidence \<Rightarrow> bool" where
  "good_end settled objectID resolved e \<longleftrightarrow>
     (case e of Found ev \<Rightarrow> found_for settled objectID resolved ev
      | EvidenceError err \<Rightarrow> genuine_failure settled err | _ \<Rightarrow> True)"

lemma good_end_simps [simp]:
  "good_end settled ob resolved Undecided" "good_end settled ob resolved EvidencePanic"
  "good_end settled ob resolved (EvidenceError (CtxError t))"
  by (simp_all add: good_end_def genuine_failure_def)

lemma good_end_failed:
  "op_ID o' = op_ID settled \<Longrightarrow> terminal_failure (op_State o') \<Longrightarrow>
     good_end settled ob resolved (EvidenceError (newOperationFailedError (snapshot o')))"
  by (simp add: good_end_def genuine_failure_def newOperationFailedError_def Let_def snapshot_def)

lemma executionUpdate_sound:
  assumes "executionUpdate settled ob order = Some (Some ev)"
  shows "sound_evidence settled ob ev \<and> so_ID (swf_Order ev) = so_ID order"
  using operationExecution_sound [OF assms [unfolded executionUpdate_def]] assms
  by (auto simp: sound_evidence_def executionUpdate_alt Let_def split: if_splits option.splits)

lemma of_update_good:
  assumes "resolved = [] \<or> so_ID order = resolved"
  shows "good_end settled ob resolved (of_update (executionUpdate settled ob order))"
  using executionUpdate_sound [of settled ob order] assms
  by (auto simp: of_update_def good_end_def found_for_def split: option.splits)

lemma event_operation_good: "good_end settled ob resolved (event_operation settled ob resolved ev)"
proof (cases "re_Operation ev")
  case (Some o')
  show ?thesis
  proof (cases "op_ID o' = op_ID settled \<and> \<not> terminal_failure (op_State o')")
    case True
    then show ?thesis using Some operationExecution_sound [of o' ob]
      by (auto simp: event_operation_def of_update_def good_end_def found_for_def split: option.splits)
  next
    case False
    then show ?thesis using Some by (auto simp: event_operation_def good_end_failed)
  qed
qed (simp add: event_operation_def)

lemma event_order_good: "good_end settled ob resolved (event_order settled ob resolved ev)"
  by (auto simp: event_order_def of_update_good split: option.splits)

lemma on_snapshot_good: "good_end settled ob resolved (on_snapshot settled ob resolved r)"
proof (cases r)
  case (Inl err)
  show ?thesis
    by (simp add: Inl on_snapshot_def good_end_def genuine_failure_def split: option.split err_kind.split)
next
  case (Inr v)
  then show ?thesis by (auto simp: on_snapshot_def of_update_good)
qed

lemma process_batch_good:
  "process_batch settled ob resolved kept evs = (e, kept') \<Longrightarrow> good_end settled ob resolved e"
proof (induction settled ob resolved kept evs rule: process_batch.induct)
  case (2 settled ob resolved kept ev evs)
  show ?case
  proof (cases "event_operation settled ob resolved ev = Undecided")
    case False
    then have "e = event_operation settled ob resolved ev"
      using "2.prems" by (auto split: evidence.splits)
    then show ?thesis using event_operation_good by metis
  next
    case u: True
    show ?thesis
    proof (cases "re_Order ev \<noteq> None \<and> re_EntityID ev = ob \<and> resolved = []")
      case True
      then show ?thesis using 2 u by simp
    next
      case False
      then show ?thesis
        using "2.IH"(2) [OF u False] "2.prems" u event_order_good [of settled ob resolved ev]
        by (cases "event_order settled ob resolved ev") (auto split: if_splits)
    qed
  qed
qed auto

lemma process_batch_kept:
  "process_batch settled ob resolved kept evs = (e, kept') \<Longrightarrow> length kept \<le> 256 \<Longrightarrow> length kept' \<le> 256"
  by (induction settled ob resolved kept evs rule: process_batch.induct)
    (auto split: evidence.splits if_splits)

text \<open>The identity only changes from unknown to known.\<close>

lemma good_end_mono:
  "good_end settled ob r2 e \<Longrightarrow> r1 = [] \<or> r1 = r2 \<Longrightarrow> good_end settled ob r1 e"
  by (auto simp: good_end_def found_for_def split: evidence.splits)

lemma wait_step_good:
  assumes "wait_step settled ob st i = (e, st')"
  shows "good_end settled ob (ws_resolved st) e \<and> (ws_resolved st = [] \<or> ws_resolved st' = ws_resolved st)"
proof (cases i)
  case Wake
  then show ?thesis using assms process_batch_good by (auto simp: wait_step_def split: prod.splits)
next
  case (Snap r)
  then show ?thesis using assms on_snapshot_good by (auto simp: wait_step_def)
qed (use assms in \<open>auto simp: wait_step_def split: if_splits\<close>)

lemma wait_run_good: "good_end settled ob (ws_resolved st) (wait_run settled ob st is)"
proof (induction "is" arbitrary: st)
  case (Cons i "is")
  obtain e st' where s: "wait_step settled ob st i = (e, st')" by fastforce
  note g = wait_step_good [OF s]
  have "ws_resolved st = [] \<or> ws_resolved st = ws_resolved st'" using g by auto
  then have "good_end settled ob (ws_resolved st) (wait_run settled ob st' is)"
    by (rule good_end_mono [OF Cons.IH])
  then show ?case using s g by (cases e) simp_all
qed simp

lemma waitExecutionEvidence_good:
  assumes "waitExecutionEvidence ob (Inr settled) captured inputs = e"
  shows "good_end settled ob (if operationExecution settled ob = Some None then submitted_identity settled else []) e"
proof (cases "terminal_failure (op_State settled)")
  case True
  then show ?thesis using assms by (auto simp: waitExecutionEvidence_def good_end_failed)
next
  case False
  show ?thesis
  proof (cases "operationExecution settled ob")
    case (Some x)
    then show ?thesis
      using assms False operationExecution_sound [of settled ob] wait_run_good [of settled ob
          "\<lparr>ws_queue = filter (\<lambda>ev. re_Order ev \<noteq> None \<or> re_Operation ev \<noteq> None) captured,
            ws_resolved = submitted_identity settled\<rparr>" "Wake # inputs"]
      by (cases x) (auto simp: waitExecutionEvidence_def of_update_def good_end_def found_for_def simp del: wait_run.simps)
  qed (use assms False in \<open>auto simp: waitExecutionEvidence_def of_update_def\<close>)
qed

lemma isAccounted_sound:
  assumes "isAccounted fills detail orderID operationID = Inr True"
  shows "swf_FillsComplete detail = Some True
     \<or> (swf_FillsComplete detail = None \<and> isTerminalOrderStatus (so_Status (swf_Order detail))
        \<and> (\<exists>rec. recordedSizesCover (map fl_Size (filter (recorded_for orderID operationID) rec))
                    (so_FilledSize (swf_Order detail))
             \<and> (rec = [] \<or> fills = Some (Inr rec))))"
proof (cases "swf_FillsComplete detail")
  case None
  then have t: "isTerminalOrderStatus (so_Status (swf_Order detail))"
    using assms by (auto simp: isAccounted_def split: if_splits)
  show ?thesis
  proof (cases "recordedSizesCover [] (so_FilledSize (swf_Order detail))")
    case True
    then show ?thesis using None t by (intro disjI2) (auto intro!: exI [of _ "[]"])
  next
    case False
    then show ?thesis using None t assms by (auto simp: isAccounted_def Let_def split: option.splits sum.splits)
  qed
qed (use assms in \<open>auto simp: isAccounted_def\<close>)

lemma next_backoff_range: "0 < b \<Longrightarrow> b \<le> accountedReadMax \<Longrightarrow> b \<le> next_backoff b \<and> next_backoff b \<le> accountedReadMax"
  by (auto simp: next_backoff_def)

lemma account_check_done:
  "account_check orderID operationID rd = AccDone detail \<Longrightarrow>
     rd_detail rd = Inr detail \<and> so_ID (swf_Order detail) = orderID
     \<and> isAccounted (rd_fills rd) detail orderID operationID = Inr True"
  by (auto simp: account_check_def split: sum.splits option.splits if_splits bool.splits)

lemma accounted_loop_sound:
  assumes "accounted_loop orderID operationID (b, n) ts = (res, b', n')" "0 < b" "b \<le> accountedReadMax"
  shows "b \<le> b' \<and> b' \<le> accountedReadMax \<and> n' = n + (case res of AccDone d \<Rightarrow> 1 | _ \<Rightarrow> 0)
    \<and> (case res of AccDone detail \<Rightarrow>
         (\<exists>rd. rd_detail rd = Inr detail \<and> so_ID (swf_Order detail) = orderID
            \<and> isAccounted (rd_fills rd) detail orderID operationID = Inr True
            \<and> (AccTrigger rd \<in> set ts \<or> AccTimer rd \<in> set ts))
       | _ \<Rightarrow> True)"
  using assms
proof (induction ts arbitrary: b n)
  case (Cons t ts)
  note nb = next_backoff_range [OF Cons.prems(2,3)]
  show ?case
  proof (cases "\<exists>e. t = AccDeadline e")
    case True
    then show ?thesis using Cons.prems by auto
  next
    case False
    then obtain rd b1 where t: "t = AccTrigger rd \<or> t = AccTimer rd"
      and b1: "b \<le> b1" "b1 \<le> accountedReadMax"
      and run: "accounted_loop orderID operationID (b, n) (t # ts) =
        (case account_check orderID operationID rd of
           AccDone detail \<Rightarrow> (AccDone detail, b1, n + 1)
         | AccError err \<Rightarrow> (AccError err, b1, n)
         | AccContinue \<Rightarrow> accounted_loop orderID operationID (b1, n) ts)"
    proof (cases t)
      case (AccTrigger rd)
      then show ?thesis using that [of rd b] Cons.prems(3) by simp
    next
      case (AccTimer rd)
      then show ?thesis using that [of rd "next_backoff b"] nb by simp
    qed (use False in simp)
    show ?thesis
    proof (cases "account_check orderID operationID rd")
      case (AccDone d)
      then have "res = AccDone d" "b' = b1" "n' = n + 1" using Cons.prems(1) run by simp_all
      then show ?thesis using b1 t account_check_done [OF AccDone] by auto
    next
      case (AccError e)
      then have "res = AccError e" "b' = b1" "n' = n" using Cons.prems(1) run by simp_all
      then show ?thesis using b1 by simp
    next
      case AccContinue
      then have "accounted_loop orderID operationID (b1, n) ts = (res, b', n')" using Cons.prems(1) run by simp
      from Cons.IH [OF this] show ?thesis using b1 Cons.prems(2) by (cases res) auto
    qed
  qed
qed auto

lemma deliver_fills_spec:
  assumes "deliver_fills orderID cloid seen fs = (out, seen')"
  shows "distinct (map fill_key out) \<and> fill_key ` set out \<inter> seen = {}
    \<and> seen' = seen \<union> fill_key ` set out
    \<and> (\<forall>f \<in> set out. f \<in> set fs \<and> fillMatches f orderID cloid \<and> fill_key f \<noteq> [])
    \<and> (\<forall>f \<in> set fs. fillMatches f orderID cloid \<and> fill_key f \<noteq> [] \<longrightarrow> fill_key f \<in> seen')"
  using assms
proof (induction fs arbitrary: seen out)
  case (Cons f fs)
  show ?case
  proof (cases "fillMatches f orderID cloid \<and> fill_key f \<noteq> [] \<and> fill_key f \<notin> seen")
    case True
    then obtain out1 where o: "deliver_fills orderID cloid (insert (fill_key f) seen) fs = (out1, seen')"
      "out = f # out1"
      using Cons.prems by (auto split: prod.splits)
    note ih = Cons.IH [OF o(1)]
    show ?thesis using ih o(2) True by auto
  next
    case False
    then have "deliver_fills orderID cloid seen fs = (out, seen')" using Cons.prems by auto
    from Cons.IH [OF this] show ?thesis using False by auto
  qed
qed auto

section \<open>Properties\<close>

text \<open>A receipt's quantities are exact: its id and executed size are those of the evidence, its average
  price is never called final, and when it states a remaining size that size is an exact decimal equal
  to requested minus executed, with the fulfilment none, partial or full exactly as the two compare;
  when the sizes do not permit that it says unknown and states no requested size.\<close>

theorem executionReceipt_exact:
  assumes "executionReceipt ev opid ob = Some r"
  shows "oer_OrderID r = so_ID (swf_Order ev) \<and> oer_FilledSize r = so_FilledSize (swf_Order ev)
    \<and> oer_OperationID r = opid \<and> oer_ObjectID r = ob \<and> \<not> oer_AveragePriceFinal r
    \<and> (case oer_RemainingSize r of
         None \<Rightarrow> oer_FulfillmentState r = ''unknown'' \<and> oer_RequestedSize r = None
       | Some rem \<Rightarrow>
           (let req = decimal_value (so_Size (swf_Order ev)); got = decimal_value (oer_FilledSize r) in
            oer_RequestedSize r = Some (so_Size (swf_Order ev)) \<and> executionDecimal rem
            \<and> decimal_value rem = req - got
            \<and> oer_FulfillmentState r = (if got = 0 then ''none'' else if got < req then ''partial'' else ''full'')))"
proof -
  obtain m where m: "ExecutionOutcome ev = Some m" "oer_OrderID r = so_ID (swf_Order ev)"
    "oer_FilledSize r = so_FilledSize (swf_Order ev)" "oer_OperationID r = opid" "oer_ObjectID r = ob"
    "oer_RemainingSize r = out_strp m ''remainingSize''" "oer_RequestedSize r = out_strp m ''requestedSize''"
    "oer_FulfillmentState r = out_str m ''fulfillmentState''" "\<not> oer_AveragePriceFinal r"
    using assms by (rule executionReceiptE)
  have f: "fulfils (swf_Order ev) m" using ExecutionOutcome_facts(1) [OF m(1)] .
  show ?thesis
  proof (cases "out_strp m ''remainingSize''")
    case None
    then show ?thesis using m f by (simp add: fulfils_def out_strp_def out_str_def Let_def)
  next
    case (Some rem)
    then have "m ''requestedSize'' = Some (OStr (so_Size (swf_Order ev)))"
      using f by (simp add: fulfils_def Let_def)
    then have q: "out_strp m ''requestedSize'' = Some (so_Size (swf_Order ev))" by (simp add: out_strp_def)
    show ?thesis using m(2-5,9) f Some q unfolding m(6,7,8)
      by (simp add: fulfils_def out_str_def out_strp_def [of m "''fulfillmentState''"] Let_def m(3))
  qed
qed

theorem executionReceipt_exact_witness:
  "\<exists>r rem. executionReceipt sample_evidence ''op1'' ''x1'' = Some r \<and> oer_RemainingSize r = Some rem
     \<and> decimal_value rem = 1 / 2 \<and> oer_FulfillmentState r = ''partial''"
proof -
  have s: "map_option oer_RemainingSize (executionReceipt sample_evidence ''op1'' ''x1'') = Some (Some ''0.5'')"
    by code_simp
  then obtain r where r: "executionReceipt sample_evidence ''op1'' ''x1'' = Some r" by auto
  have "decimal_value (so_Size (swf_Order sample_evidence)) = 2" "decimal_value ''0.5'' = 1 / 2"
    "decimal_value (so_FilledSize (swf_Order sample_evidence)) = 3 / 2" by code_simp+
  then show ?thesis using executionReceipt_exact [OF r] s r by (auto simp: Let_def)
qed

text \<open>C7: recovering a receipt from an existing operation never crosses accounts or invents a verdict: a
  returned receipt is for this operation and account, the operation's readable input does not name
  another account, the operation did not fail or expire, the execution state is known and terminal,
  and when the receipt came from a read and the outcome named an order, it is that order.\<close>

theorem recovered_receipt_sound:
  assumes "GetOperationExecutionReceipt getOrder ob operation = Some (Inr r)"
  shows "oer_OperationID r = op_ID operation \<and> oer_ObjectID r = ob
    \<and> \<not> alien_input operation ob \<and> \<not> terminal_failure (op_State operation)
    \<and> oer_ExecutionState r \<notin> {''unknown'', ''pending''} \<and> oer_OrderID r \<noteq> []
    \<and> (case operationExecution operation ob of
         Some None \<Rightarrow>
           (let expected = map_str (outcome_fields operation) ''orderId'' in
            expected = [] \<or> oer_OrderID r = expected)
       | _ \<Rightarrow> True)"
proof -
  have pre: "\<not> alien_input operation ob" "\<not> terminal_failure (op_State operation)"
    using assms by (auto simp: GetOperationExecutionReceipt_def terminal_failure_def split: if_splits)
  obtain ev where ev: "executionReceipt ev (op_ID operation) ob = Some r"
    "(\<exists>o'. sound_evidence o' ob ev)"
    "case operationExecution operation ob of Some None \<Rightarrow>
       (let expected = map_str (outcome_fields operation) ''orderId'' in
        expected = [] \<or> so_ID (swf_Order ev) = expected) | _ \<Rightarrow> True"
  proof (cases "operationExecution operation ob")
    case None
    then show ?thesis using assms pre by (simp add: GetOperationExecutionReceipt_def terminal_failure_def)
  next
    case (Some x)
    show ?thesis
    proof (cases x)
      case (Some ev)
      then show ?thesis
        using assms pre \<open>operationExecution operation ob = Some x\<close> operationExecution_sound [of operation ob ev]
        by (intro that [of ev]) (auto simp: GetOperationExecutionReceipt_def terminal_failure_def)
    next
      case None
      then obtain detail where d: "GetOperationOrder getOrder ob operation = Inr detail"
        using assms pre Some by (auto simp: GetOperationExecutionReceipt_def terminal_failure_def split: sum.splits)
      then obtain ev where u: "executionUpdate operation ob (swf_Order detail) = Some (Some ev)"
        "executionReceipt ev (op_ID operation) ob = Some r"
        using assms pre Some None
        by (auto simp: GetOperationExecutionReceipt_def terminal_failure_def split: option.splits)
      have "let expected = map_str (outcome_fields operation) ''orderId'' in
          expected = [] \<or> so_ID (swf_Order detail) = expected"
        using d by (auto simp: GetOperationOrder_def Let_def split: if_splits sum.splits)
      then show ?thesis using executionUpdate_sound [OF u(1)] u Some None that [of ev] by (auto simp: Let_def)
    qed
  qed
  obtain o' where o': "sound_evidence o' ob ev" using ev(2) by blast
  show ?thesis
    using ev(1)
  proof (rule executionReceiptE)
    fix m
    assume r: "oer_OrderID r = so_ID (swf_Order ev)" "oer_OperationID r = op_ID operation" "oer_ObjectID r = ob"
      "executionDisposition (swf_Order ev) = Some (oer_ExecutionState r, oer_RemainingDisposition r)"
    show ?thesis using pre o' ev(3) r by (auto simp: sound_evidence_def split: option.splits)
  qed
qed

theorem recovered_receipt_sound_witness:
  "\<exists>r. GetOperationExecutionReceipt (\<lambda>ob i. Inl (Plain ''down'')) ''x1'' sample_operation = Some (Inr r)
     \<and> oer_OperationID r = ''op1'' \<and> oer_ExecutionState r \<notin> {''unknown'', ''pending''}"
proof -
  have "(case GetOperationExecutionReceipt (\<lambda>ob i. Inl (Plain ''down'')) ''x1'' sample_operation of
           Some (Inr r) \<Rightarrow> True | _ \<Rightarrow> False)" by code_simp
  then obtain r where "GetOperationExecutionReceipt (\<lambda>ob i. Inl (Plain ''down'')) ''x1'' sample_operation = Some (Inr r)"
    by (auto split: option.splits sum.splits)
  then show ?thesis using recovered_receipt_sound [of "\<lambda>ob i. Inl (Plain ''down'')" "''x1''" sample_operation r]
    by (auto simp: sample_operation_def)
qed


text \<open>The accounting wait returns an order only when the account reflects it: the read is for the receipt's
  order and either the platform says its fills are complete, or the order is terminal and the recorded
  fills of this order cover its executed size exactly; the exchange-state watch is nudged exactly once
  then, and the fallback read interval stays between its start and eight seconds.\<close>

theorem accounted_only_when_recorded:
  assumes "accounted_loop orderID operationID (accountedReadInitial, 0) ts = (AccDone detail, backoff, nudges)"
  shows "so_ID (swf_Order detail) = orderID \<and> nudges = 1
    \<and> accountedReadInitial \<le> backoff \<and> backoff \<le> accountedReadMax
    \<and> (\<exists>rd. (AccTrigger rd \<in> set ts \<or> AccTimer rd \<in> set ts) \<and> rd_detail rd = Inr detail
       \<and> (swf_FillsComplete detail = Some True
          \<or> (swf_FillsComplete detail = None \<and> isTerminalOrderStatus (so_Status (swf_Order detail))
             \<and> (\<exists>rec. (rec = [] \<or> rd_fills rd = Some (Inr rec))
                  \<and> recordedSizesCover (map fl_Size (filter (recorded_for orderID operationID) rec))
                       (so_FilledSize (swf_Order detail))))))"
proof -
  have "0 < accountedReadInitial" "accountedReadInitial \<le> accountedReadMax"
    by (simp_all add: accountedReadInitial_def accountedReadMax_def)
  note loop = accounted_loop_sound [OF assms this, unfolded account_result.case add_0]
  then obtain rd :: account_read where rd: "rd_detail rd = Inr detail"
    "isAccounted (rd_fills rd) detail orderID operationID = Inr True"
    "AccTrigger rd \<in> set ts \<or> AccTimer rd \<in> set ts" by blast
  have "so_ID (swf_Order detail) = orderID" "nudges = 1" "accountedReadInitial \<le> backoff"
    "backoff \<le> accountedReadMax" using loop by blast+
  then show ?thesis using rd isAccounted_sound [OF rd(2)] by blast
qed

theorem accounted_only_when_recorded_witness:
  "so_ID (swf_Order (sample_evidence\<lparr>swf_FillsComplete := Some True\<rparr>)) = ''77''"
proof -
  let ?d = "sample_evidence\<lparr>swf_FillsComplete := Some True\<rparr>"
  have "accounted_loop ''77'' ''op1'' (accountedReadInitial, 0)
      [AccTrigger \<lparr>rd_detail = Inl (Plain ''timeout''), rd_fills = None\<rparr>,
       AccTimer \<lparr>rd_detail = Inr ?d, rd_fills = None\<rparr>] = (AccDone ?d, 1000000000, 1)"
    by (simp add: account_check_def AsOperationFailed_def sample_evidence_def isAccounted_def next_backoff_def
        accountedReadInitial_def accountedReadMax_def)
  from accounted_only_when_recorded [OF this] show ?thesis by simp
qed


text \<open>Settlement is cached only on success: after a successful wait every later wait returns the same
  response without contacting the platform again, and after an error (a deadline, a failed read) the
  next wait asks again on the same handle.\<close>

theorem Wait_caches_only_success:
  "case Wait d sub (h, w) of
     ((r, None), h', w') \<Rightarrow> Wait d sub' (h', w'') = ((r, None), h', w'')
   | ((r, Some err), h', w') \<Rightarrow>
       if sc_done h then sc_err h = Some err
       else fst (Wait d sub' (h', w'')) = fst (settle d sub' (hd_defaultTimeout d) w'')"
  by (auto simp: Wait_def split: prod.splits option.splits)

end
