(* ===== verification/Http_Client.thy ===== *)
theory Http_Client
  imports Api_Errors
begin

text \<open>
  The HTTP client (\<^verbatim>\<open>client.go\<close>): the response envelope, one request, the bounded retry of reads, the
  single authentication retry and the single step-up retry.  The network, the clock, the credential
  provider and the step-up handler are outside the SDK; they are functions over a world \<^typ>\<open>'w\<close> that
  the definitions take as an argument.  The client state keeps a log of the requests sent and of the
  errors reported through \<^verbatim>\<open>onAuthError\<close>.
\<close>

section \<open>Response envelope\<close>

record apiResponseError =
  are_Code :: gostring
  are_Message :: gostring
  are_ErrorID :: gostring
  are_Details :: "jfields option"

record apiResponse =
  ar_Success :: bool
  ar_Data :: "json option"
  ar_Error :: "apiResponseError option"

text \<open>A raw message: the last value under the key; \<^const>\<open>None\<close> when the key is absent.\<close>

definition raw_field :: "gostring \<Rightarrow> jfields \<Rightarrow> json option" where
  "raw_field k fs = (let vs = field_values k fs in if vs = [] then None else Some (last vs))"

definition decode_error_object :: "jfields \<Rightarrow> apiResponseError option" where
  "decode_error_object fs =
     do {
       c \<leftarrow> str_field ''code'' fs; m \<leftarrow> str_field ''message'' fs; i \<leftarrow> str_field ''errorId'' fs;
       d \<leftarrow> subp_field ''details'' fs;
       Some \<lparr>are_Code = c, are_Message = m, are_ErrorID = i, are_Details = d\<rparr>
     }"

text \<open>\<^verbatim>\<open>apiResponse.UnmarshalJSON\<close>: both generations of the error envelope.\<close>

definition decode_api_response :: "json \<Rightarrow> apiResponse option" where
  "decode_api_response j =
     do {
       fs \<leftarrow> obj_fields j;
       success \<leftarrow> bool_field ''success'' fs; code \<leftarrow> str_field ''code'' fs;
       message \<leftarrow> str_field ''message'' fs; errorID \<leftarrow> str_field ''errorId'' fs;
       details \<leftarrow> subp_field ''details'' fs;
       let flat = (\<lambda>msg. \<lparr>ar_Success = success, ar_Data = raw_field ''data'' fs,
           ar_Error = (if code \<noteq> [] \<or> msg \<noteq> []
                       then Some \<lparr>are_Code = code, are_Message = msg, are_ErrorID = errorID,
                                  are_Details = details\<rparr> else None)\<rparr>);
       (case raw_field ''error'' fs of
          Some (JObj es) \<Rightarrow>
            map_option (\<lambda>e. \<lparr>ar_Success = success, ar_Data = raw_field ''data'' fs, ar_Error = Some e\<rparr>)
              (decode_error_object es)
        | Some (JStr m) \<Rightarrow> Some (flat (if message = [] then m else message))
        | Some JNull \<Rightarrow> Some (flat message)
        | None \<Rightarrow> Some (flat message)
        | _ \<Rightarrow> None)
     }"

record http_response =
  hr_Status :: int
  hr_Body :: "gostring + gostring \<times> jtext"

definition set_status :: "int \<Rightarrow> error \<Rightarrow> error" where
  "set_status st err = (case err of Arca k e \<Rightarrow> Arca k (e\<lparr>ae_StatusCode := st\<rparr>) | _ \<Rightarrow> err)"

definition preview :: "gostring \<Rightarrow> gostring" where
  "preview text = (if length text > 200 then take 200 text @ [CHR 0xE2, CHR 0x80, CHR 0xA6] else text)"

definition envelope_error :: "int \<Rightarrow> apiResponse \<Rightarrow> error" where
  "envelope_error status env =
     (if status = 401 then
        Arca UnauthorizedError (newArcaError ''UNAUTHORIZED''
          (case ar_Error env of
             Some e \<Rightarrow> if are_Message e \<noteq> [] then are_Message e else ''Invalid or expired authentication''
           | None \<Rightarrow> ''Invalid or expired authentication'')
          (case ar_Error env of Some e \<Rightarrow> are_ErrorID e | None \<Rightarrow> []))
      else case ar_Error env of
        Some e \<Rightarrow> mapAPIError (are_Code e) (are_Message e) (are_ErrorID e) (are_Details e)
      | None \<Rightarrow> Arca BaseError (newArcaError ''UNKNOWN''
                  (''Request failed with status '' @ show_int status) []))"

text \<open>\<^verbatim>\<open>unwrap\<close>: the decoded data, or an error stamped with the response status.  \<^verbatim>\<open>dec\<close> decodes into \<^verbatim>\<open>out\<close>.\<close>

definition unwrap :: "(json \<Rightarrow> gostring + 'a) \<Rightarrow> http_response \<Rightarrow> error + 'a" where
  "unwrap dec resp =
     (case hr_Body resp of
        Inl e \<Rightarrow> Inl (Plain e)
      | Inr (text, parsed) \<Rightarrow>
          (case (case parsed of JText j \<Rightarrow> decode_api_response j | _ \<Rightarrow> None) of
             None \<Rightarrow>
               Inl (set_status (hr_Status resp) (Arca BaseError (newArcaError ''NON_JSON_RESPONSE''
                 (''Server returned non-JSON response (HTTP '' @ show_int (hr_Status resp) @ ''): ''
                   @ preview text) [])))
           | Some env \<Rightarrow>
               if \<not> ar_Success env \<or> ar_Data env = None \<or> ar_Data env = Some JNull then
                 Inl (set_status (hr_Status resp) (envelope_error (hr_Status resp) env))
               else (case dec (the (ar_Data env)) of
                       Inl e \<Rightarrow> Inl (Wrapped ''arca: decode response: '' (Plain e))
                     | Inr v \<Rightarrow> Inr v)))"

section \<open>One request\<close>

datatype http_method = GET | HEAD | POST | PATCH | PUT | DELETE

record request =
  rq_Method :: http_method
  rq_URL :: gostring
  rq_Body :: "gostring option"
  rq_Bearer :: "gostring option"

text \<open>The arguments of a call: the method, the built URL and body or the error of building them, and the decoder.\<close>

record 'a call =
  call_Method :: http_method
  call_Target :: "gostring + gostring \<times> gostring option"
  call_Decode :: "json \<Rightarrow> gostring + 'a"

datatype AuthRefreshTrigger = AuthRefreshUnauthorized | AuthRefreshForbidden

record 'w environment =
  env_send :: "'w \<Rightarrow> request \<Rightarrow> 'w \<times> (gostring + http_response)"
  env_rand :: "'w \<Rightarrow> int \<Rightarrow> 'w \<times> int"
  env_sleep :: "'w \<Rightarrow> int \<Rightarrow> 'w \<times> error option"
  env_onUnauthorized :: "('w \<Rightarrow> AuthRefreshTrigger \<Rightarrow> 'w \<times> (error + gostring)) option"
  env_hasOnAuthError :: bool
  env_stepUpHandler :: "('w \<Rightarrow> StepUpChallenge \<Rightarrow> 'w \<times> (error + gostring)) option"

record 'w client =
  cl_credential :: gostring
  cl_stepUpInFlight :: bool
  cl_world :: 'w
  cl_sent :: "request list"
  cl_refreshes :: "AuthRefreshTrigger list"
  cl_authErrors :: "error list"

definition transientStatuses :: "int set" where
  "transientStatuses = {502, 503, 504}"

definition requestOnce :: "'w environment \<Rightarrow> 'a call \<Rightarrow> 'w client \<Rightarrow> (error + 'a) \<times> 'w client" where
  "requestOnce env c cl =
     (case call_Target c of
        Inl e \<Rightarrow> (Inl (Plain e), cl)
      | Inr (url, body) \<Rightarrow>
          (let req = \<lparr>rq_Method = call_Method c, rq_URL = url, rq_Body = body,
                      rq_Bearer = (if cl_credential cl \<noteq> [] then Some (cl_credential cl) else None)\<rparr>;
               (w, reply) = env_send env (cl_world cl) req;
               cl' = cl\<lparr>cl_world := w, cl_sent := cl_sent cl @ [req]\<rparr> in
           (case reply of
              Inl e \<Rightarrow> (Inl (Transient 0 (Plain e)), cl')
            | Inr resp \<Rightarrow>
                if hr_Status resp \<in> transientStatuses then
                  (Inl (Transient (hr_Status resp)
                     (case unwrap (call_Decode c) resp of
                        Inl e \<Rightarrow> e
                      | Inr _ \<Rightarrow> Arca BaseError (newArcaError ''HTTP_ERROR''
                                  (''HTTP '' @ show_int (hr_Status resp)) []))), cl')
                else (unwrap (call_Decode c) resp, cl'))))"

section \<open>Retry\<close>

definition maxRetries :: nat where "maxRetries = 2"
definition retryBaseDelay :: int where "retryBaseDelay = 250000000"
definition retryMaxDelay :: int where "retryMaxDelay = 2000000000"

definition retry_ceil :: "nat \<Rightarrow> int" where
  "retry_ceil attempt = min (retryBaseDelay * 2 ^ attempt) retryMaxDelay"

definition is_read :: "http_method \<Rightarrow> bool" where
  "is_read mth \<longleftrightarrow> mth = GET \<or> mth = HEAD"

text \<open>\<^verbatim>\<open>retryDelay\<close> followed by the wait: a context error when the context ends first.\<close>

definition retry_wait :: "'w environment \<Rightarrow> nat \<Rightarrow> 'w client \<Rightarrow> error option \<times> 'w client" where
  "retry_wait env attempt cl =
     (let (w1, d) = env_rand env (cl_world cl) (retry_ceil attempt);
          (w2, e) = env_sleep env w1 d in
      (e, cl\<lparr>cl_world := w2\<rparr>))"

function request_loop ::
    "'w environment \<Rightarrow> 'a call \<Rightarrow> nat \<Rightarrow> 'w client \<Rightarrow> (error + 'a) \<times> 'w client" where
  "request_loop env c attempt cl =
     (case requestOnce env c cl of
        (Inr v, cl1) \<Rightarrow> (Inr v, cl1)
      | (Inl err, cl1) \<Rightarrow>
          if \<not> is_read (call_Method c) \<or> \<not> isTransient err \<or> attempt \<ge> maxRetries then (Inl err, cl1)
          else (case retry_wait env attempt cl1 of
                  (Some e, cl2) \<Rightarrow> (Inl e, cl2)
                | (None, cl2) \<Rightarrow> request_loop env c (Suc attempt) cl2))"
  by pat_completeness auto

termination by (relation "measure (\<lambda>(env, c, attempt, cl). maxRetries - attempt)") auto

definition requestWithRetry :: "'w environment \<Rightarrow> 'a call \<Rightarrow> 'w client \<Rightarrow> (error + 'a) \<times> 'w client" where
  "requestWithRetry env c cl = request_loop env c 0 cl"

section \<open>Authentication and step-up\<close>

definition report_auth_error :: "'w environment \<Rightarrow> error \<Rightarrow> 'w client \<Rightarrow> 'w client" where
  "report_auth_error env err cl =
     (if env_hasOnAuthError env then cl\<lparr>cl_authErrors := cl_authErrors cl @ [err]\<rparr> else cl)"

definition runStepUpRetry ::
    "'w environment \<Rightarrow> StepUpChallenge \<Rightarrow> ('w \<Rightarrow> StepUpChallenge \<Rightarrow> 'w \<times> (error + gostring))
       \<Rightarrow> 'a call \<Rightarrow> 'w client \<Rightarrow> (error + 'a) \<times> 'w client" where
  "runStepUpRetry env challenge handler c cl =
     (let cl1 = cl\<lparr>cl_stepUpInFlight := True\<rparr>;
          (w, answer) = handler (cl_world cl1) challenge;
          cl2 = cl1\<lparr>cl_world := w\<rparr> in
      (case answer of
         Inl err \<Rightarrow>
           (Inl (if asStepUpCancelled err then err
                 else Arca StepUpCancelledError
                        (newArcaError ''STEP_UP_CANCELLED'' (error_text err) [])),
            cl2\<lparr>cl_stepUpInFlight := False\<rparr>)
       | Inr token \<Rightarrow>
           (let original = cl_credential cl2;
                (r, cl3) = requestWithRetry env c (cl2\<lparr>cl_credential := token\<rparr>) in
            (r, cl3\<lparr>cl_credential := original, cl_stepUpInFlight := False\<rparr>))))"

definition refresh_retry ::
    "'w environment \<Rightarrow> ('w \<Rightarrow> AuthRefreshTrigger \<Rightarrow> 'w \<times> (error + gostring))
       \<Rightarrow> 'a call \<Rightarrow> error \<Rightarrow> 'w client \<Rightarrow> (error + 'a) \<times> 'w client" where
  "refresh_retry env refresh c err cl =
     (let trigger = (if isForbidden err then AuthRefreshForbidden else AuthRefreshUnauthorized);
          (w, answer) = refresh (cl_world cl) trigger;
          cl1 = cl\<lparr>cl_world := w, cl_refreshes := cl_refreshes cl @ [trigger]\<rparr> in
      (case answer of
         Inl refreshErr \<Rightarrow> (Inl refreshErr, report_auth_error env (asUnauthorized refreshErr) cl1)
       | Inr newCred \<Rightarrow>
           (case requestWithRetry env c (cl1\<lparr>cl_credential := newCred\<rparr>) of
              (Inl retryErr, cl2) \<Rightarrow>
                (Inl retryErr, if isAuthRejection retryErr then report_auth_error env retryErr cl2 else cl2)
            | (Inr v, cl2) \<Rightarrow> (Inr v, cl2))))"

definition executeWithAuthRetry :: "'w environment \<Rightarrow> 'a call \<Rightarrow> 'w client \<Rightarrow> (error + 'a) \<times> 'w client" where
  "executeWithAuthRetry env c cl =
     (case requestWithRetry env c cl of
        (Inr v, cl1) \<Rightarrow> (Inr v, cl1)
      | (Inl err, cl1) \<Rightarrow>
          (case (isAuthRejection err, env_onUnauthorized env) of
             (True, Some refresh) \<Rightarrow> refresh_retry env refresh c err cl1
           | _ \<Rightarrow>
               if isUnauthorized err then (Inl err, report_auth_error env err cl1)
               else (case asStepUp err of
                       None \<Rightarrow> (Inl err, cl1)
                     | Some challenge \<Rightarrow>
                         (case env_stepUpHandler env of
                            Some handler \<Rightarrow>
                              if cl_stepUpInFlight cl1 then (Inl err, cl1)
                              else runStepUpRetry env challenge handler c cl1
                          | None \<Rightarrow> (Inl err, cl1)))))"

section \<open>Lemmas\<close>

declare request_loop.simps [simp del]

text \<open>What a request may change of the client: the world and the log of sent requests, by at most \<^verbatim>\<open>n\<close> entries.\<close>

definition bearer :: "gostring \<Rightarrow> gostring option" where
  "bearer cred = (if cred \<noteq> [] then Some cred else None)"

definition sends_upto :: "nat \<Rightarrow> 'a call \<Rightarrow> 'w client \<Rightarrow> 'w client \<Rightarrow> bool" where
  "sends_upto n c cl cl' \<longleftrightarrow>
     (\<exists>rs. cl_sent cl' = cl_sent cl @ rs \<and> length rs \<le> n
        \<and> (\<forall>q \<in> set rs. rq_Method q = call_Method c \<and> rq_Bearer q = bearer (cl_credential cl)))
     \<and> cl_credential cl' = cl_credential cl \<and> cl_stepUpInFlight cl' = cl_stepUpInFlight cl
     \<and> cl_refreshes cl' = cl_refreshes cl \<and> cl_authErrors cl' = cl_authErrors cl"

lemma sends_upto_trans:
  assumes "sends_upto m c cl cl1" "sends_upto n c cl1 cl2" "m + n \<le> k"
  shows "sends_upto k c cl cl2"
proof -
  obtain r1 where r1: "cl_sent cl1 = cl_sent cl @ r1" "length r1 \<le> m"
    "\<forall>q \<in> set r1. rq_Method q = call_Method c \<and> rq_Bearer q = bearer (cl_credential cl)"
    using assms(1) by (auto simp: sends_upto_def)
  obtain r2 where r2: "cl_sent cl2 = cl_sent cl1 @ r2" "length r2 \<le> n"
    "\<forall>q \<in> set r2. rq_Method q = call_Method c \<and> rq_Bearer q = bearer (cl_credential cl)"
    using assms(1,2) by (auto simp: sends_upto_def)
  show ?thesis unfolding sends_upto_def
    using assms r1 r2 by (intro conjI exI [of _ "r1 @ r2"]) (auto simp: sends_upto_def)
qed

lemma requestOnce_sends: "requestOnce env c cl = (r, cl') \<Longrightarrow> sends_upto 1 c cl cl'"
  by (auto simp: requestOnce_def sends_upto_def bearer_def Let_def split: sum.splits prod.splits if_splits)

lemma retry_wait_sends: "retry_wait env a cl = (e, cl') \<Longrightarrow> sends_upto 0 c cl cl'"
  by (auto simp: retry_wait_def sends_upto_def Let_def split: prod.splits)

definition send_bound :: "http_method \<Rightarrow> nat" where
  "send_bound mth = (if is_read mth then Suc maxRetries else 1)"

lemma request_loop_sends:
  "request_loop env c attempt cl = (r, cl') \<Longrightarrow> attempt \<le> maxRetries \<Longrightarrow>
     sends_upto (if is_read (call_Method c) then Suc maxRetries - attempt else 1) c cl cl'"
proof (induction env c attempt cl arbitrary: r cl' rule: request_loop.induct)
  case (1 env c attempt cl)
  obtain r1 cl1 where once: "requestOnce env c cl = (r1, cl1)" by fastforce
  have s1: "sends_upto 1 c cl cl1" using once by (rule requestOnce_sends)
  let ?b = "if is_read (call_Method c) then Suc maxRetries - attempt else 1"
  have weaken: "sends_upto ?b c cl cl1"
    using sends_upto_trans [OF s1, of 0 cl1 ?b] 1(3) by (auto simp: sends_upto_def)
  show ?case
  proof (cases "\<exists>err. r1 = Inl err \<and> is_read (call_Method c) \<and> isTransient err \<and> \<not> attempt \<ge> maxRetries")
    case False
    then have "cl' = cl1" using 1(2) once by (subst (asm) request_loop.simps) (auto split: sum.splits if_splits)
    then show ?thesis using weaken by simp
  next
    case True
    then obtain err where err: "r1 = Inl err" "is_read (call_Method c)" "isTransient err" "attempt < maxRetries"
      by auto
    obtain e cl2 where w: "retry_wait env attempt cl1 = (e, cl2)" by fastforce
    have s2: "sends_upto 1 c cl cl2"
      using sends_upto_trans [OF s1 retry_wait_sends [OF w]] by simp
    show ?thesis
    proof (cases e)
      case (Some x)
      then have "cl' = cl2" using 1(2) once err w by (subst (asm) request_loop.simps) auto
      then show ?thesis using sends_upto_trans [OF s2, of 0 cl2 ?b] err by (auto simp: sends_upto_def)
    next
      case None
      then have rec: "request_loop env c (Suc attempt) cl2 = (r, cl')"
        using 1(2) once err w by (subst (asm) request_loop.simps) auto
      have "sends_upto (Suc maxRetries - Suc attempt) c cl2 cl'"
        using "1.IH" [OF once [symmetric] err(1) _ w [symmetric] None rec] err by simp
      then show ?thesis using sends_upto_trans [OF s2] err by simp
    qed
  qed
qed

lemma requestWithRetry_sends:
  "requestWithRetry env c cl = (r, cl') \<Longrightarrow> sends_upto (send_bound (call_Method c)) c cl cl'"
  using request_loop_sends [of env c 0 cl r cl'] by (simp add: requestWithRetry_def send_bound_def split: if_splits)

lemma sends_uptoE:
  assumes "sends_upto n c cl cl'"
  obtains rs where "cl_sent cl' = cl_sent cl @ rs" "length rs \<le> n"
    "\<forall>q \<in> set rs. rq_Method q = call_Method c \<and> rq_Bearer q = bearer (cl_credential cl)"
    "cl_credential cl' = cl_credential cl" "cl_stepUpInFlight cl' = cl_stepUpInFlight cl"
    "cl_refreshes cl' = cl_refreshes cl" "cl_authErrors cl' = cl_authErrors cl"
  using assms by (auto simp: sends_upto_def)

lemma report_auth_error_frame [simp]:
  "cl_sent (report_auth_error env err cl) = cl_sent cl"
  "cl_credential (report_auth_error env err cl) = cl_credential cl"
  "cl_stepUpInFlight (report_auth_error env err cl) = cl_stepUpInFlight cl"
  "cl_refreshes (report_auth_error env err cl) = cl_refreshes cl"
  "cl_authErrors (report_auth_error env err cl) =
     cl_authErrors cl @ (if env_hasOnAuthError env then [err] else [])"
  by (simp_all add: report_auth_error_def)

text \<open>The second round of a call: a log extension of its own, and what becomes of the credential.\<close>

definition second_round :: "'a call \<Rightarrow> 'w client \<Rightarrow> (error + 'a) \<times> 'w client \<Rightarrow> bool" where
  "second_round c cl res \<longleftrightarrow>
     (\<exists>rs. cl_sent (snd res) = cl_sent cl @ rs \<and> length rs \<le> send_bound (call_Method c)
        \<and> (\<forall>q \<in> set rs. rq_Method q = call_Method c))
     \<and> cl_stepUpInFlight (snd res) = cl_stepUpInFlight cl
     \<and> (\<exists>ts. cl_refreshes (snd res) = cl_refreshes cl @ ts \<and> length ts \<le> 1
          \<and> (ts = [] \<longrightarrow> cl_credential (snd res) = cl_credential cl))
     \<and> (\<exists>es. cl_authErrors (snd res) = cl_authErrors cl @ es \<and> length es \<le> 1
          \<and> ((\<exists>v. fst res = Inr v) \<longrightarrow> es = []))"

lemma runStepUpRetry_round:
  assumes "\<not> cl_stepUpInFlight cl"
  shows "second_round c cl (runStepUpRetry env ch handler c cl)"
proof -
  obtain w answer where h: "handler (cl_world cl) ch = (w, answer)" by fastforce
  show ?thesis
  proof (cases answer)
    case (Inl e)
    then show ?thesis using assms h by (simp add: runStepUpRetry_def second_round_def Let_def)
  next
    case (Inr token)
    let ?cl2 = "cl\<lparr>cl_stepUpInFlight := True, cl_world := w, cl_credential := token\<rparr>"
    obtain r cl3 where r: "requestWithRetry env c ?cl2 = (r, cl3)" by fastforce
    obtain rs where rs: "cl_sent cl3 = cl_sent cl @ rs" "length rs \<le> send_bound (call_Method c)"
      "\<forall>q \<in> set rs. rq_Method q = call_Method c"
      "cl_refreshes cl3 = cl_refreshes cl" "cl_authErrors cl3 = cl_authErrors cl"
      using requestWithRetry_sends [OF r] by (elim sends_uptoE) simp
    have "runStepUpRetry env ch handler c cl =
        (r, cl3\<lparr>cl_credential := cl_credential cl, cl_stepUpInFlight := False\<rparr>)"
      using h Inr r by (simp add: runStepUpRetry_def Let_def)
    then show ?thesis using rs assms by (simp add: second_round_def)
  qed
qed

lemma refresh_retry_round: "second_round c cl (refresh_retry env refresh c err cl)"
proof -
  define tr where "tr = (if isForbidden err then AuthRefreshForbidden else AuthRefreshUnauthorized)"
  obtain w answer where h: "refresh (cl_world cl) tr = (w, answer)" by fastforce
  show ?thesis
  proof (cases answer)
    case (Inl e)
    then show ?thesis using h by (simp add: refresh_retry_def second_round_def Let_def tr_def [symmetric])
  next
    case (Inr cred)
    let ?cl1 = "cl\<lparr>cl_world := w, cl_refreshes := cl_refreshes cl @ [tr], cl_credential := cred\<rparr>"
    obtain r cl2 where r: "requestWithRetry env c ?cl1 = (r, cl2)" by fastforce
    obtain rs where rs: "cl_sent cl2 = cl_sent cl @ rs" "length rs \<le> send_bound (call_Method c)"
      "\<forall>q \<in> set rs. rq_Method q = call_Method c" "cl_stepUpInFlight cl2 = cl_stepUpInFlight cl"
      "cl_refreshes cl2 = cl_refreshes cl @ [tr]" "cl_authErrors cl2 = cl_authErrors cl"
      using requestWithRetry_sends [OF r] by (elim sends_uptoE) simp
    have e: "refresh_retry env refresh c err cl =
        (case r of Inl e \<Rightarrow> (Inl e, if isAuthRejection e then report_auth_error env e cl2 else cl2)
         | Inr v \<Rightarrow> (Inr v, cl2))"
      using h Inr r by (simp add: refresh_retry_def Let_def tr_def [symmetric])
    show ?thesis using rs by (cases r) (simp_all add: second_round_def e)
  qed
qed

lemma second_round_none [simp]:
  "second_round c cl (Inl err, cl)" "second_round c cl (Inr v, cl)"
  "second_round c cl (Inl err, report_auth_error env e cl)"
  by (simp_all add: second_round_def)

lemma executeWithAuthRetry_rounds:
  obtains r1 cl1 where "requestWithRetry env c cl = (r1, cl1)"
    "sends_upto (send_bound (call_Method c)) c cl cl1"
    "second_round c cl1 (executeWithAuthRetry env c cl)"
    "(\<exists>err. r1 = Inl err \<and> (isAuthRejection err \<or> (\<exists>ch. asStepUp err = Some ch)))
       \<or> (executeWithAuthRetry env c cl = (r1, cl1))"
proof -
  obtain r1 cl1 where r: "requestWithRetry env c cl = (r1, cl1)" by fastforce
  have s: "sends_upto (send_bound (call_Method c)) c cl cl1" using r by (rule requestWithRetry_sends)
  show ?thesis
  proof (cases r1)
    case (Inr v)
    then show ?thesis using that [OF r s] r by (simp add: executeWithAuthRetry_def)
  next
    case (Inl err)
    have "second_round c cl1 (executeWithAuthRetry env c cl)"
      using r Inl
      by (auto simp: executeWithAuthRetry_def refresh_retry_round runStepUpRetry_round split: option.split bool.split)
    moreover have "(isAuthRejection err \<or> (\<exists>ch. asStepUp err = Some ch)) \<or> executeWithAuthRetry env c cl = (r1, cl1)"
      using r Inl by (auto simp: executeWithAuthRetry_def isAuthRejection_def split: option.split bool.split)
    ultimately show ?thesis using that [OF r s] Inl by blast
  qed
qed

section \<open>Properties\<close>

text \<open>C10: a mutation is never resent on uncertainty: one call sends a POST, PATCH, PUT or DELETE at most once,
  or at most twice when the server rejected the first one for its credential or demanded step-up; a
  read is sent at most three times per round. Every request of the first round carries the credential
  the client had.\<close>

theorem mutation_never_resent_blindly:
  "\<exists>first second. cl_sent (snd (executeWithAuthRetry env c cl)) = cl_sent cl @ first @ second
     \<and> length first \<le> (if is_read (call_Method c) then 3 else 1)
     \<and> length second \<le> (if is_read (call_Method c) then 3 else 1)
     \<and> list_all (\<lambda>q. rq_Bearer q = bearer (cl_credential cl)) first
     \<and> list_all (\<lambda>q. rq_Method q = call_Method c) (first @ second)
     \<and> (second = [] \<or> (\<exists>err. fst (requestWithRetry env c cl) = Inl err
          \<and> (isAuthRejection err \<or> (\<exists>ch. asStepUp err = Some ch))))"
proof (rule executeWithAuthRetry_rounds [of env c cl])
  fix r1 cl1
  assume r: "requestWithRetry env c cl = (r1, cl1)"
    and s: "sends_upto (send_bound (call_Method c)) c cl cl1"
    and t: "second_round c cl1 (executeWithAuthRetry env c cl)"
    and why: "(\<exists>err. r1 = Inl err \<and> (isAuthRejection err \<or> (\<exists>ch. asStepUp err = Some ch)))
       \<or> executeWithAuthRetry env c cl = (r1, cl1)"
  obtain rs where rs: "cl_sent cl1 = cl_sent cl @ rs" "length rs \<le> send_bound (call_Method c)"
    "\<forall>q \<in> set rs. rq_Method q = call_Method c \<and> rq_Bearer q = bearer (cl_credential cl)"
    using s by (rule sends_uptoE)
  obtain rs' where rs': "cl_sent (snd (executeWithAuthRetry env c cl)) = cl_sent cl1 @ rs'"
    "length rs' \<le> send_bound (call_Method c)" "\<forall>q \<in> set rs'. rq_Method q = call_Method c"
    using t by (auto simp: second_round_def)
  have "rs' = [] \<or> (\<exists>err. r1 = Inl err \<and> (isAuthRejection err \<or> (\<exists>ch. asStepUp err = Some ch)))"
    using why rs'(1) by auto
  then show ?thesis
    using r rs rs' by (intro exI [of _ rs] exI [of _ rs'])
      (auto simp: send_bound_def maxRetries_def list_all_iff)
qed

text \<open>The step-up token is never persisted and the refresh is asked for at most once: after any call the
  step-up flag is what it was, the credential provider was invoked at most once, the credential is the
  original one unless the provider was invoked, and at most one authentication error was reported,
  none if the call succeeded.\<close>

theorem call_restores_credential:
  "let (r, cl') = executeWithAuthRetry env c cl in
     cl_stepUpInFlight cl' = cl_stepUpInFlight cl
     \<and> (\<exists>ts. cl_refreshes cl' = cl_refreshes cl @ ts \<and> length ts \<le> 1
          \<and> (ts = [] \<longrightarrow> cl_credential cl' = cl_credential cl))
     \<and> (\<exists>es. cl_authErrors cl' = cl_authErrors cl @ es \<and> length es \<le> 1
          \<and> (case r of Inr v \<Rightarrow> es = [] | Inl err \<Rightarrow> True))"
proof (rule executeWithAuthRetry_rounds [of env c cl])
  fix r1 cl1
  assume s: "sends_upto (send_bound (call_Method c)) c cl cl1"
    and t: "second_round c cl1 (executeWithAuthRetry env c cl)"
  obtain r cl' where e: "executeWithAuthRetry env c cl = (r, cl')" by fastforce
  show ?thesis using s t e by (auto simp: second_round_def sends_upto_def split: sum.split)
qed

text \<open>A scripted server for the witnesses: the world is the list of replies it still has to give.\<close>

definition scripted :: "http_response list environment" where
  "scripted =
     \<lparr>env_send = (\<lambda>w q. case w of [] \<Rightarrow> ([], Inl ''EOF'') | r # rs \<Rightarrow> (rs, Inr r)),
      env_rand = (\<lambda>w n. (w, 0)), env_sleep = (\<lambda>w d. (w, None)), env_onUnauthorized = None,
      env_hasOnAuthError = True, env_stepUpHandler = Some (\<lambda>w ch. (w, Inr ''one-shot''))\<rparr>"

definition scripted_client :: "http_response list \<Rightarrow> http_response list client" where
  "scripted_client w =
     \<lparr>cl_credential = ''key'', cl_stepUpInFlight = False, cl_world = w, cl_sent = [], cl_refreshes = [],
      cl_authErrors = []\<rparr>"

definition step_up_reply :: http_response where
  "step_up_reply =
     \<lparr>hr_Status = 412, hr_Body = Inr ([], JText (JObj [(''success'', JBool False), (''error'',
        JObj [(''code'', JStr ''STEP_UP_REQUIRED''), (''details'',
          JObj [(''action'', JStr ''arca:DeleteObject''), (''resources'', JArr [JStr ''o1''])])])]))\<rparr>"

definition ok_reply :: http_response where
  "ok_reply =
     \<lparr>hr_Status = 200, hr_Body = Inr ([], JText (JObj [(''success'', JBool True), (''data'', JBool True)]))\<rparr>"

definition delete_call :: "bool call" where
  "delete_call = \<lparr>call_Method = DELETE, call_Target = Inr (''/o1'', None),
     call_Decode = (\<lambda>j. case j of JBool b \<Rightarrow> Inr b | _ \<Rightarrow> Inl ''bad'')\<rparr>"

theorem call_restores_credential_witness:
  "let (r, cl') = executeWithAuthRetry scripted delete_call (scripted_client [step_up_reply, ok_reply]) in
     r = Inr True \<and> map rq_Bearer (cl_sent cl') = [Some ''key'', Some ''one-shot'']
     \<and> cl_credential cl' = ''key'' \<and> \<not> cl_stepUpInFlight cl'"
proof -
  let ?run = "executeWithAuthRetry scripted delete_call (scripted_client [step_up_reply, ok_reply])"
  have run: "fst ?run = Inr True" "map rq_Bearer (cl_sent (snd ?run)) = [Some ''key'', Some ''one-shot'']"
    "cl_refreshes (snd ?run) = []" by code_simp+
  show ?thesis
    using call_restores_credential [of scripted delete_call "scripted_client [step_up_reply, ok_reply]"] run
    by (auto simp: Let_def scripted_client_def split: prod.splits)
qed

end
