(* ===== verification/Subscriptions.thy ===== *)
theory Subscriptions
  imports Arca_Prelude "HOL-Library.List_Lexorder" "HOL-Library.Char_ord"
begin

text \<open>
  The subscription registry of \<^verbatim>\<open>WebSocketManager\<close> (\<^verbatim>\<open>websocket.go\<close>): the counted and uncounted
  subscriptions a client holds, the operations that change them with the messages each sends, and the
  batch \<^verbatim>\<open>resubscribe\<close> re-issues on a connection.  A Go map is an association list with distinct keys
  (its order stands for the unspecified iteration order).  The abstraction is what the client last told
  the server about each topic; the lemmas show that every operation, and a resubscription on a fresh
  connection, make it agree with the registry.
\<close>

section \<open>Counted maps\<close>

type_synonym refs = "(gostring \<times> int) list"

definition ref_get :: "refs \<Rightarrow> gostring \<Rightarrow> int" where
  "ref_get r k = (case map_of r k of Some n \<Rightarrow> n | None \<Rightarrow> 0)"

definition ref_delete :: "refs \<Rightarrow> gostring \<Rightarrow> refs" where
  "ref_delete r k = filter (\<lambda>p. fst p \<noteq> k) r"

definition ref_put :: "refs \<Rightarrow> gostring \<Rightarrow> int \<Rightarrow> refs" where
  "ref_put r k n = (k, n) # ref_delete r k"

text \<open>\<^verbatim>\<open>m[k]++\<close>, and the release shared by paths, coins and trades: the last reference deletes the key.\<close>

definition ref_acquire :: "refs \<Rightarrow> gostring \<Rightarrow> refs" where
  "ref_acquire r k = ref_put r k (ref_get r k + 1)"

definition ref_release :: "refs \<Rightarrow> gostring \<Rightarrow> refs" where
  "ref_release r k = (if ref_get r k \<le> 1 then ref_delete r k else ref_put r k (ref_get r k - 1))"

text \<open>The release of an event type: nothing happens for a type that is not held.\<close>

definition event_release :: "refs \<Rightarrow> gostring \<Rightarrow> refs" where
  "event_release r k =
     (let n = ref_get r k in
      if n > 1 then ref_put r k (n - 1) else if n = 1 then ref_delete r k else r)"

definition ref_keys :: "refs \<Rightarrow> gostring list" where
  "ref_keys r = map fst r"

definition ref_ok :: "refs \<Rightarrow> bool" where
  "ref_ok r \<longleftrightarrow> distinct (map fst r) \<and> list_all (\<lambda>p. 0 < snd p) r"

section \<open>The reference-counting contract\<close>

datatype ref_op = Acquire gostring | Release gostring

text \<open>
  What the owners of a counted subscription rely on.  \<^verbatim>\<open>acquired\<close> and \<^verbatim>\<open>released\<close> count a key in a
  history; a history is honest when no owner releases what nobody holds.
\<close>

fun net :: "ref_op list \<Rightarrow> gostring \<Rightarrow> int" where
  "net [] k = 0"
| "net (Acquire j # ops) k = (if j = k then 1 else 0) + net ops k"
| "net (Release j # ops) k = (if j = k then -1 else 0) + net ops k"

fun honest :: "ref_op list \<Rightarrow> (gostring \<Rightarrow> int) \<Rightarrow> bool" where
  "honest [] h \<longleftrightarrow> True"
| "honest (Acquire k # ops) h \<longleftrightarrow> honest ops (h(k := h k + 1))"
| "honest (Release k # ops) h \<longleftrightarrow> 0 < h k \<and> honest ops (h(k := h k - 1))"

fun run_refs ::
    "('r \<Rightarrow> gostring \<Rightarrow> 'r) \<Rightarrow> ('r \<Rightarrow> gostring \<Rightarrow> 'r) \<Rightarrow> ref_op list \<Rightarrow> 'r \<Rightarrow> 'r" where
  "run_refs acq rel [] r = r"
| "run_refs acq rel (Acquire k # ops) r = run_refs acq rel ops (acq r k)"
| "run_refs acq rel (Release k # ops) r = run_refs acq rel ops (rel r k)"

locale refcount =
  fixes start :: 'r
    and count :: "'r \<Rightarrow> gostring \<Rightarrow> int"
    and acquire :: "'r \<Rightarrow> gostring \<Rightarrow> 'r"
    and release :: "'r \<Rightarrow> gostring \<Rightarrow> 'r"
    and held :: "'r \<Rightarrow> gostring list"
    and ok :: "'r \<Rightarrow> bool"
  assumes ok_start: "ok start"
    and count_start: "count start k = 0"
    and ok_acquire: "ok r \<Longrightarrow> ok (acquire r k)"
    and ok_release: "ok r \<Longrightarrow> ok (release r k)"
    and count_acquire: "ok r \<Longrightarrow> count (acquire r j) k = count r k + (if j = k then 1 else 0)"
    and count_release:
      "ok r \<Longrightarrow> count (release r j) k = (if j = k then max 0 (count r k - 1) else count r k)"
    and held_count: "ok r \<Longrightarrow> set (held r) = {k. 0 < count r k}"
begin

lemma ok_run: "ok r \<Longrightarrow> ok (run_refs acquire release ops r)"
proof (induction ops arbitrary: r)
  case (Cons op ops)
  then show ?case by (cases op) (simp_all add: ok_acquire ok_release)
qed simp

lemma count_run:
  "ok r \<Longrightarrow> honest ops (count r) \<Longrightarrow> count (run_refs acquire release ops r) k = count r k + net ops k"
proof (induction ops arbitrary: r)
  case (Cons op ops)
  show ?case
  proof (cases op)
    case (Acquire j)
    have "count (acquire r j) = (count r)(j := count r j + 1)"
      using Cons.prems(1) by (auto simp: count_acquire)
    then have "honest ops (count (acquire r j))" using Cons.prems(2) Acquire by (simp only: honest.simps)
    from Cons.IH [OF ok_acquire [OF Cons.prems(1)] this] show ?thesis
      using Cons.prems Acquire by (simp add: count_acquire)
  next
    case (Release j)
    have "count (release r j) = (count r)(j := count r j - 1)"
      using Cons.prems Release by (auto simp: count_release)
    then have "honest ops (count (release r j))" using Cons.prems(2) Release by (simp only: honest.simps)
    from Cons.IH [OF ok_release [OF Cons.prems(1)] this] show ?thesis
      using Cons.prems Release by (auto simp: count_release)
  qed
qed simp

text \<open>A key is held exactly while acquisitions exceed releases.\<close>

lemma held_run:
  "honest ops (\<lambda>_. 0) \<Longrightarrow> set (held (run_refs acquire release ops start)) = {k. 0 < net ops k}"
  using count_run [of start ops] ok_run [of start ops]
  by (simp add: held_count ok_start count_start [abs_def])

text \<open>A release drops its key only when it was the last reference, and never touches another.\<close>

lemma release_keeps: "ok r \<Longrightarrow> k \<in> set (held r) \<Longrightarrow> j \<noteq> k \<or> 1 < count r k \<Longrightarrow> k \<in> set (held (release r j))"
  by (auto simp: held_count ok_release count_release)

end

lemma ref_get_delete: "ref_get (ref_delete r j) k = (if j = k then 0 else ref_get r k)"
proof -
  have "map_of (filter (\<lambda>p. fst p \<noteq> j) r) k = (if j = k then None else map_of r k)"
    by (induction r) auto
  then show ?thesis by (simp add: ref_get_def ref_delete_def)
qed

lemma ref_get_put: "ref_get (ref_put r j n) k = (if j = k then n else ref_get r k)"
  using ref_get_delete [of r j k] by (auto simp: ref_put_def ref_get_def)

lemma ref_ok_delete: "ref_ok r \<Longrightarrow> ref_ok (ref_delete r k)"
  by (auto simp: ref_ok_def ref_delete_def distinct_map_filter list_all_iff)

lemma ref_ok_put: "ref_ok r \<Longrightarrow> 0 < n \<Longrightarrow> ref_ok (ref_put r k n)"
  using ref_ok_delete [of r k] by (auto simp: ref_put_def ref_ok_def) (auto simp: ref_delete_def)

lemma ref_get_nonneg: "ref_ok r \<Longrightarrow> 0 \<le> ref_get r k"
  by (auto simp: ref_get_def ref_ok_def list_all_iff split: option.splits dest!: map_of_SomeD)

lemma ref_keys_iff: "ref_ok r \<Longrightarrow> k \<in> set (ref_keys r) \<longleftrightarrow> 0 < ref_get r k"
proof -
  assume ok: "ref_ok r"
  have "k \<in> fst ` set r \<longleftrightarrow> map_of r k \<noteq> None" by (simp add: map_of_eq_None_iff)
  then show ?thesis using ok
    by (auto simp: ref_keys_def ref_get_def ref_ok_def list_all_iff split: option.splits dest!: map_of_SomeD)
qed

interpretation shared_refs: refcount "[]" ref_get ref_acquire ref_release ref_keys ref_ok
proof
  fix r :: refs and k j
  show "ref_ok []" by (simp add: ref_ok_def)
  show "ref_get [] k = 0" by (simp add: ref_get_def)
  assume ok: "ref_ok r"
  note nonneg = ref_get_nonneg [OF ok]
  show "ref_ok (ref_acquire r k)"
    unfolding ref_acquire_def by (rule ref_ok_put [OF ok]) (use nonneg [of k] in simp)
  show "ref_ok (ref_release r k)" using ok by (auto simp: ref_release_def ref_ok_delete ref_ok_put)
  show "ref_get (ref_acquire r j) k = ref_get r k + (if j = k then 1 else 0)"
    by (simp add: ref_acquire_def ref_get_put)
  show "ref_get (ref_release r j) k = (if j = k then max 0 (ref_get r k - 1) else ref_get r k)"
    by (simp add: ref_release_def ref_get_put ref_get_delete)
  show "set (ref_keys r) = {k. 0 < ref_get r k}" using ref_keys_iff [OF ok] by blast
qed

interpretation event_refs: refcount "[]" ref_get ref_acquire event_release ref_keys ref_ok
proof
  fix r :: refs and k j
  show "ref_ok []" by (rule shared_refs.ok_start)
  show "ref_get [] k = 0" by (rule shared_refs.count_start)
  assume ok: "ref_ok r"
  show "ref_ok (ref_acquire r k)" using ok by (rule shared_refs.ok_acquire)
  show "ref_ok (event_release r k)" using ok by (auto simp: event_release_def Let_def ref_ok_delete ref_ok_put)
  show "ref_get (ref_acquire r j) k = ref_get r k + (if j = k then 1 else 0)"
    using ok by (rule shared_refs.count_acquire)
  show "ref_get (event_release r j) k = (if j = k then max 0 (ref_get r k - 1) else ref_get r k)"
    using ref_get_nonneg [OF ok, of j] by (auto simp: event_release_def Let_def ref_get_put ref_get_delete)
  show "set (ref_keys r) = {k. 0 < ref_get r k}" using ok by (rule shared_refs.held_count)
qed

section \<open>Registry and wire messages\<close>

record chartWatchReq =
  cw_target :: gostring
  cw_kind :: gostring
  cw_objectID :: gostring

text \<open>Intervals per coin; a coin may be present with no interval.\<close>

type_synonym interval_refs = "(gostring \<times> gostring list) list"

record subs =
  sb_pathRefs :: refs
  sb_midsAll :: int
  sb_midsCoins :: refs
  sb_midsExch :: gostring
  sb_candleRefs :: interval_refs
  sb_oiRefs :: interval_refs
  sb_tradeRefs :: refs
  sb_chartWatches :: "(gostring \<times> chartWatchReq) list"
  sb_attachedWatches :: "gostring list"
  sb_eventTypeSubs :: refs

definition no_subs :: subs where
  "no_subs = \<lparr>sb_pathRefs = [], sb_midsAll = 0, sb_midsCoins = [], sb_midsExch = ''sim'', sb_candleRefs = [],
     sb_oiRefs = [], sb_tradeRefs = [], sb_chartWatches = [], sb_attachedWatches = [], sb_eventTypeSubs = []\<rparr>"

datatype wire =
    SubscribeMids gostring "gostring list" | UnsubscribeMids
  | SubscribeCandles "gostring list" "gostring list" | UnsubscribeCandles
  | SubscribeOI "gostring list" "gostring list" | UnsubscribeOI
  | SubscribeTrades "gostring list" | UnsubscribeTrades
  | WatchPath gostring gostring | UnwatchPath gostring
  | WatchChart gostring chartWatchReq | UnwatchChart gostring
  | AttachAggregation gostring | DetachAggregation gostring | DestroyAggregation gostring
  | SubscribeEvents "gostring list" gostring | UnsubscribeEvents "gostring list"
  | PingMessage | AuthMessage

text \<open>
  An operation yields the new registry, the messages it sends if the connection is up, and the messages
  it sends now or, when the connection is down, once it authenticates (\<^verbatim>\<open>sendWhenConnected\<close>).
\<close>

type_synonym sub_result = "subs \<times> wire list \<times> wire list"

subsection \<open>Mids\<close>

definition midsSubscriptionCoinsLocked :: "subs \<Rightarrow> gostring list option" where
  "midsSubscriptionCoinsLocked s =
     (if sb_midsAll s > 0 then Some []
      else if sb_midsCoins s \<noteq> [] then Some (sort (ref_keys (sb_midsCoins s)))
      else None)"

definition syncMids :: "subs \<Rightarrow> wire list" where
  "syncMids s =
     (case midsSubscriptionCoinsLocked s of
        None \<Rightarrow> [UnsubscribeMids]
      | Some coins \<Rightarrow> [SubscribeMids (sb_midsExch s) coins])"

definition acquireMids :: "gostring \<Rightarrow> gostring list \<Rightarrow> subs \<Rightarrow> sub_result" where
  "acquireMids exchange coins s =
     (let s1 = s\<lparr>sb_midsExch := exchange\<rparr>;
          s2 = (if coins = [] then s1\<lparr>sb_midsAll := sb_midsAll s1 + 1\<rparr>
                else s1\<lparr>sb_midsCoins := foldl ref_acquire (sb_midsCoins s1) coins\<rparr>) in
      (s2, syncMids s2, []))"

definition releaseMids :: "gostring list \<Rightarrow> subs \<Rightarrow> sub_result" where
  "releaseMids coins s =
     (let s2 = (if coins = [] then (if sb_midsAll s > 0 then s\<lparr>sb_midsAll := sb_midsAll s - 1\<rparr> else s)
                else s\<lparr>sb_midsCoins := foldl ref_release (sb_midsCoins s) coins\<rparr>) in
      (s2, syncMids s2, []))"

subsection \<open>Candles and open interest\<close>

definition iv_get :: "interval_refs \<Rightarrow> gostring \<Rightarrow> gostring list option" where
  "iv_get r c = map_of r c"

definition iv_put :: "interval_refs \<Rightarrow> gostring \<Rightarrow> gostring list \<Rightarrow> interval_refs" where
  "iv_put r c ivs = (c, ivs) # filter (\<lambda>p. fst p \<noteq> c) r"

definition iv_acquire :: "gostring list \<Rightarrow> interval_refs \<Rightarrow> gostring \<Rightarrow> interval_refs" where
  "iv_acquire intervals r c =
     iv_put r c (remdups (intervals @ (case iv_get r c of Some ivs \<Rightarrow> ivs | None \<Rightarrow> [])))"

definition iv_release :: "gostring list \<Rightarrow> interval_refs \<Rightarrow> gostring \<Rightarrow> interval_refs" where
  "iv_release intervals r c =
     (case iv_get r c of
        None \<Rightarrow> r
      | Some ivs \<Rightarrow>
          (let left = filter (\<lambda>iv. iv \<notin> set intervals) ivs in
           if left = [] then filter (\<lambda>p. fst p \<noteq> c) r else iv_put r c left))"

definition iv_coins :: "interval_refs \<Rightarrow> gostring list" where
  "iv_coins r = map fst r"

definition iv_intervals :: "interval_refs \<Rightarrow> gostring list" where
  "iv_intervals r = remdups (concat (map snd r))"

definition syncCandles :: "subs \<Rightarrow> wire list" where
  "syncCandles s =
     (if sb_candleRefs s = [] then [UnsubscribeCandles]
      else [SubscribeCandles (iv_coins (sb_candleRefs s)) (iv_intervals (sb_candleRefs s))])"

definition acquireCandles :: "gostring list \<Rightarrow> gostring list \<Rightarrow> subs \<Rightarrow> sub_result" where
  "acquireCandles coins intervals s =
     (let s2 = s\<lparr>sb_candleRefs := foldl (iv_acquire intervals) (sb_candleRefs s) coins\<rparr> in
      (s2, syncCandles s2, []))"

definition releaseCandles :: "gostring list \<Rightarrow> gostring list \<Rightarrow> subs \<Rightarrow> sub_result" where
  "releaseCandles coins intervals s =
     (let s2 = s\<lparr>sb_candleRefs := foldl (iv_release intervals) (sb_candleRefs s) coins\<rparr> in
      (s2, syncCandles s2, []))"

definition syncOI :: "subs \<Rightarrow> wire list" where
  "syncOI s =
     (if sb_oiRefs s = [] then [UnsubscribeOI]
      else [SubscribeOI (iv_coins (sb_oiRefs s)) (iv_intervals (sb_oiRefs s))])"

definition acquireOI :: "gostring list \<Rightarrow> gostring list \<Rightarrow> subs \<Rightarrow> sub_result" where
  "acquireOI coins intervals s =
     (let s2 = s\<lparr>sb_oiRefs := foldl (iv_acquire intervals) (sb_oiRefs s) coins\<rparr> in (s2, syncOI s2, []))"

definition releaseOI :: "gostring list \<Rightarrow> gostring list \<Rightarrow> subs \<Rightarrow> sub_result" where
  "releaseOI coins intervals s =
     (let s2 = s\<lparr>sb_oiRefs := foldl (iv_release intervals) (sb_oiRefs s) coins\<rparr> in (s2, syncOI s2, []))"

subsection \<open>Trades, paths, watches and event types\<close>

definition syncTrades :: "subs \<Rightarrow> wire list" where
  "syncTrades s =
     (if sb_tradeRefs s = [] then [UnsubscribeTrades] else [SubscribeTrades (ref_keys (sb_tradeRefs s))])"

definition acquireTrades :: "gostring list \<Rightarrow> subs \<Rightarrow> sub_result" where
  "acquireTrades coins s =
     (let s2 = s\<lparr>sb_tradeRefs := foldl ref_acquire (sb_tradeRefs s) coins\<rparr> in (s2, syncTrades s2, []))"

definition releaseTrades :: "gostring list \<Rightarrow> subs \<Rightarrow> sub_result" where
  "releaseTrades coins s =
     (let s2 = s\<lparr>sb_tradeRefs := foldl ref_release (sb_tradeRefs s) coins\<rparr> in (s2, syncTrades s2, []))"

definition watchPath :: "gostring \<Rightarrow> gostring \<Rightarrow> subs \<Rightarrow> sub_result" where
  "watchPath path requestID s =
     (s\<lparr>sb_pathRefs := ref_acquire (sb_pathRefs s) path\<rparr>, [], [WatchPath path requestID])"

definition unwatchPath :: "gostring \<Rightarrow> subs \<Rightarrow> sub_result" where
  "unwatchPath path s =
     (let s2 = s\<lparr>sb_pathRefs := ref_release (sb_pathRefs s) path\<rparr> in
      (s2, if ref_get (sb_pathRefs s) path \<le> 1 then [UnwatchPath path] else [], []))"

definition createChartHistoryWatch :: "gostring \<Rightarrow> chartWatchReq \<Rightarrow> subs \<Rightarrow> sub_result" where
  "createChartHistoryWatch watchID req s =
     (let req' = (if cw_kind req = [] then req\<lparr>cw_kind := ''path''\<rparr> else req) in
      (s\<lparr>sb_chartWatches := (watchID, req') # filter (\<lambda>p. fst p \<noteq> watchID) (sb_chartWatches s)\<rparr>, [],
       [WatchChart watchID req']))"

definition destroyChartHistoryWatch :: "gostring \<Rightarrow> subs \<Rightarrow> sub_result" where
  "destroyChartHistoryWatch watchID s =
     (s\<lparr>sb_chartWatches := filter (\<lambda>p. fst p \<noteq> watchID) (sb_chartWatches s)\<rparr>, [UnwatchChart watchID], [])"

definition attachAggregationWatch :: "gostring \<Rightarrow> subs \<Rightarrow> sub_result" where
  "attachAggregationWatch watchID s =
     (if watchID = [] then (s, [], [])
      else (s\<lparr>sb_attachedWatches := watchID # removeAll watchID (sb_attachedWatches s)\<rparr>, [],
            [AttachAggregation watchID]))"

definition detachAggregationWatch :: "gostring \<Rightarrow> subs \<Rightarrow> sub_result" where
  "detachAggregationWatch watchID s =
     (if watchID = [] then (s, [], [])
      else (s\<lparr>sb_attachedWatches := removeAll watchID (sb_attachedWatches s)\<rparr>, [DetachAggregation watchID], []))"

definition destroyAggregationWatch :: "gostring \<Rightarrow> subs \<Rightarrow> sub_result" where
  "destroyAggregationWatch watchID s =
     (s\<lparr>sb_attachedWatches := removeAll watchID (sb_attachedWatches s)\<rparr>, [DestroyAggregation watchID], [])"

fun add_types :: "gostring list \<Rightarrow> refs \<Rightarrow> refs \<times> gostring list" where
  "add_types [] r = (r, [])"
| "add_types (t # ts) r =
     (case add_types ts (ref_acquire r t) of (r', added) \<Rightarrow>
        (r', if ref_get r t = 0 then t # added else added))"

fun drop_types :: "gostring list \<Rightarrow> refs \<Rightarrow> refs \<times> gostring list" where
  "drop_types [] r = (r, [])"
| "drop_types (t # ts) r =
     (case drop_types ts (event_release r t) of (r', dropped) \<Rightarrow>
        (r', if ref_get r t = 1 then t # dropped else dropped))"

definition subscribeEvents :: "gostring list \<Rightarrow> subs \<Rightarrow> sub_result" where
  "subscribeEvents types s =
     (if types = [] then (s, [], [])
      else case add_types types (sb_eventTypeSubs s) of (r, added) \<Rightarrow>
        (s\<lparr>sb_eventTypeSubs := r\<rparr>, [], if added \<noteq> [] then [SubscribeEvents added []] else []))"

definition unsubscribeEvents :: "gostring list \<Rightarrow> subs \<Rightarrow> sub_result" where
  "unsubscribeEvents types s =
     (case drop_types types (sb_eventTypeSubs s) of (r, dropped) \<Rightarrow>
        (s\<lparr>sb_eventTypeSubs := r\<rparr>, if dropped \<noteq> [] then [UnsubscribeEvents dropped] else [], []))"

subsection \<open>Resubscription\<close>

text \<open>\<^verbatim>\<open>rid\<close> supplies the request ids of the path watches.\<close>

definition resubscribe :: "(gostring \<Rightarrow> gostring) \<Rightarrow> subs \<Rightarrow> wire list" where
  "resubscribe rid s =
     (case midsSubscriptionCoinsLocked s of
        Some coins \<Rightarrow> [SubscribeMids (sb_midsExch s) coins] | None \<Rightarrow> [])
     @ (if sb_candleRefs s \<noteq> []
        then [SubscribeCandles (iv_coins (sb_candleRefs s)) (iv_intervals (sb_candleRefs s))] else [])
     @ (if sb_oiRefs s \<noteq> []
        then [SubscribeOI (iv_coins (sb_oiRefs s)) (iv_intervals (sb_oiRefs s))] else [])
     @ (if sb_tradeRefs s \<noteq> [] then [SubscribeTrades (ref_keys (sb_tradeRefs s))] else [])
     @ map (\<lambda>p. WatchPath p (rid p)) (ref_keys (sb_pathRefs s))
     @ map (\<lambda>(w, req). WatchChart w req) (sb_chartWatches s)
     @ map AttachAggregation (sb_attachedWatches s)
     @ (if sb_eventTypeSubs s \<noteq> [] then [SubscribeEvents (ref_keys (sb_eventTypeSubs s)) []] else [])"

section \<open>What the server was told\<close>

datatype topic =
    MidsTopic | CandlesTopic | OITopic | TradesTopic | PathTopic gostring | ChartTopic gostring
  | AggregationTopic gostring | EventTopic gostring

datatype topic_state = Off | Mids gostring "gostring list" | Bars "gostring list" "gostring list"
  | Coins "gostring list" | Watched | Chart chartWatchReq

text \<open>What a message says about a topic, if anything.\<close>

primrec says :: "wire \<Rightarrow> topic \<Rightarrow> topic_state option" where
  "says (SubscribeMids e cs) t = (if t = MidsTopic then Some (Mids e cs) else None)"
| "says UnsubscribeMids t = (if t = MidsTopic then Some (Off) else None)"
| "says (SubscribeCandles cs ivs) t = (if t = CandlesTopic then Some (Bars cs ivs) else None)"
| "says UnsubscribeCandles t = (if t = CandlesTopic then Some (Off) else None)"
| "says (SubscribeOI cs ivs) t = (if t = OITopic then Some (Bars cs ivs) else None)"
| "says UnsubscribeOI t = (if t = OITopic then Some (Off) else None)"
| "says (SubscribeTrades cs) t = (if t = TradesTopic then Some (Coins cs) else None)"
| "says UnsubscribeTrades t = (if t = TradesTopic then Some (Off) else None)"
| "says (WatchPath p r) t = (if t = PathTopic p then Some (Watched) else None)"
| "says (UnwatchPath p) t = (if t = PathTopic p then Some (Off) else None)"
| "says (WatchChart w req) t = (if t = ChartTopic w then Some (Chart req) else None)"
| "says (UnwatchChart w) t = (if t = ChartTopic w then Some (Off) else None)"
| "says (AttachAggregation w) t = (if t = AggregationTopic w then Some (Watched) else None)"
| "says (DetachAggregation w) t = (if t = AggregationTopic w then Some (Off) else None)"
| "says (DestroyAggregation w) t = (if t = AggregationTopic w then Some (Off) else None)"
| "says (SubscribeEvents ts r) t = (if t \<in> EventTopic ` set ts then Some Watched else None)"
| "says (UnsubscribeEvents ts) t = (if t \<in> EventTopic ` set ts then Some Off else None)"
| "says PingMessage t = None"
| "says AuthMessage t = None"

definition told_from :: "topic_state \<Rightarrow> wire list \<Rightarrow> topic \<Rightarrow> topic_state" where
  "told_from s0 log t = foldl (\<lambda>s m. case says m t of Some s' \<Rightarrow> s' | None \<Rightarrow> s) s0 log"

definition told :: "wire list \<Rightarrow> topic \<Rightarrow> topic_state" where
  "told log t = told_from Off log t"

text \<open>What the registry wants the server to know.\<close>

fun wanted :: "subs \<Rightarrow> topic \<Rightarrow> topic_state" where
  "wanted s MidsTopic =
     (case midsSubscriptionCoinsLocked s of Some coins \<Rightarrow> Mids (sb_midsExch s) coins | None \<Rightarrow> Off)"
| "wanted s CandlesTopic = (if sb_candleRefs s = [] then Off
     else Bars (iv_coins (sb_candleRefs s)) (iv_intervals (sb_candleRefs s)))"
| "wanted s OITopic = (if sb_oiRefs s = [] then Off
     else Bars (iv_coins (sb_oiRefs s)) (iv_intervals (sb_oiRefs s)))"
| "wanted s TradesTopic = (if sb_tradeRefs s = [] then Off else Coins (ref_keys (sb_tradeRefs s)))"
| "wanted s (PathTopic p) = (if 0 < ref_get (sb_pathRefs s) p then Watched else Off)"
| "wanted s (ChartTopic w) = (case map_of (sb_chartWatches s) w of Some req \<Rightarrow> Chart req | None \<Rightarrow> Off)"
| "wanted s (AggregationTopic w) = (if w \<in> set (sb_attachedWatches s) then Watched else Off)"
| "wanted s (EventTopic t) = (if 0 < ref_get (sb_eventTypeSubs s) t then Watched else Off)"

definition subs_ok :: "subs \<Rightarrow> bool" where
  "subs_ok s \<longleftrightarrow>
     ref_ok (sb_pathRefs s) \<and> ref_ok (sb_midsCoins s) \<and> ref_ok (sb_tradeRefs s) \<and> ref_ok (sb_eventTypeSubs s)
     \<and> 0 \<le> sb_midsAll s \<and> distinct (map fst (sb_chartWatches s))"

section \<open>Lemmas\<close>

lemma told_from_Nil [simp]: "told_from s0 [] t = s0"
  by (simp add: told_from_def)

lemma told_from_Cons [simp]:
  "told_from s0 (m # log) t = told_from (case says m t of Some s' \<Rightarrow> s' | None \<Rightarrow> s0) log t"
  by (simp add: told_from_def)

lemma told_append: "told (a @ b) t = told_from (told a t) b t"
  by (simp add: told_def told_from_def)

lemma told_from_const:
  assumes "\<forall>m \<in> set log. says m t = None \<or> says m t = Some v"
  shows "told_from s0 log t = (if \<exists>m \<in> set log. says m t \<noteq> None then v else s0)"
  using assms by (induction log arbitrary: s0) auto

text \<open>The whole batch says about each topic what the registry wants, or nothing.\<close>

lemma resubscribe_says:
  assumes "subs_ok s" "m \<in> set (resubscribe rid s)"
  shows "says m t = None \<or> (says m t = Some (wanted s t) \<and> wanted s t \<noteq> Off)"
proof -
  have paths: "p \<in> set (ref_keys (sb_pathRefs s)) \<longleftrightarrow> 0 < ref_get (sb_pathRefs s) p"
    and events: "p \<in> set (ref_keys (sb_eventTypeSubs s)) \<longleftrightarrow> 0 < ref_get (sb_eventTypeSubs s) p" for p
    using assms(1) by (simp_all add: subs_ok_def ref_keys_iff)
  have chart: "(w, req) \<in> set (sb_chartWatches s) \<Longrightarrow> map_of (sb_chartWatches s) w = Some req" for w req
    using assms(1) by (simp add: subs_ok_def)
  from assms(2) show ?thesis
    by (auto simp: resubscribe_def paths events split: option.splits if_splits dest!: chart)
qed

lemma resubscribe_covers:
  assumes "subs_ok s" "wanted s t \<noteq> Off"
  shows "\<exists>m \<in> set (resubscribe rid s). says m t \<noteq> None"
proof (cases t)
  case MidsTopic
  then show ?thesis using assms(2) by (auto simp: resubscribe_def split: option.splits)
next
  case (PathTopic p)
  then have "p \<in> set (ref_keys (sb_pathRefs s))"
    using assms by (auto simp: subs_ok_def ref_keys_iff split: if_splits)
  then have "WatchPath p (rid p) \<in> set (resubscribe rid s)" by (auto simp: resubscribe_def)
  then show ?thesis using PathTopic by (intro bexI [of _ "WatchPath p (rid p)"]) auto
next
  case (ChartTopic w)
  then obtain req where "map_of (sb_chartWatches s) w = Some req" using assms(2) by (auto split: option.splits)
  then have "WatchChart w req \<in> set (resubscribe rid s)" by (force simp: resubscribe_def dest: map_of_SomeD)
  then show ?thesis using ChartTopic by (intro bexI [of _ "WatchChart w req"]) auto
next
  case (EventTopic e)
  then have "e \<in> set (ref_keys (sb_eventTypeSubs s))"
    using assms by (auto simp: subs_ok_def ref_keys_iff split: if_splits)
  moreover from this have "sb_eventTypeSubs s \<noteq> []" by (auto simp: ref_keys_def)
  ultimately show ?thesis using EventTopic by (auto simp: resubscribe_def)
next
  case (AggregationTopic w)
  then have "AttachAggregation w \<in> set (resubscribe rid s)"
    using assms(2) by (auto simp: resubscribe_def split: if_splits)
  then show ?thesis using AggregationTopic by (intro bexI [of _ "AttachAggregation w"]) auto
qed (use assms(2) in \<open>auto simp: resubscribe_def split: if_splits\<close>)

lemma told_resubscribe: "subs_ok s \<Longrightarrow> told (resubscribe rid s) t = wanted s t"
proof -
  assume ok: "subs_ok s"
  have "\<forall>m \<in> set (resubscribe rid s). says m t = None \<or> says m t = Some (wanted s t)"
    using resubscribe_says [OF ok] by blast
  note const = told_from_const [OF this, of Off]
  show ?thesis
  proof (cases "wanted s t = Off")
    case True
    then show ?thesis using const by (simp add: told_def)
  next
    case False
    then show ?thesis using const resubscribe_covers [OF ok False, of rid] by (simp only: told_def if_True)
  qed
qed

section \<open>Operations as a whole\<close>

datatype sub_op =
    AcquireMids gostring "gostring list" | ReleaseMids "gostring list"
  | AcquireCandles "gostring list" "gostring list" | ReleaseCandles "gostring list" "gostring list"
  | AcquireOI "gostring list" "gostring list" | ReleaseOI "gostring list" "gostring list"
  | AcquireTrades "gostring list" | ReleaseTrades "gostring list"
  | Watch gostring gostring | Unwatch gostring
  | CreateChart gostring chartWatchReq | DestroyChart gostring
  | Attach gostring | Detach gostring | Destroy gostring
  | SubEvents "gostring list" | UnsubEvents "gostring list"

primrec apply_op :: "sub_op \<Rightarrow> subs \<Rightarrow> sub_result" where
  "apply_op (AcquireMids e cs) = acquireMids e cs"
| "apply_op (ReleaseMids cs) = releaseMids cs"
| "apply_op (AcquireCandles cs ivs) = acquireCandles cs ivs"
| "apply_op (ReleaseCandles cs ivs) = releaseCandles cs ivs"
| "apply_op (AcquireOI cs ivs) = acquireOI cs ivs"
| "apply_op (ReleaseOI cs ivs) = releaseOI cs ivs"
| "apply_op (AcquireTrades cs) = acquireTrades cs"
| "apply_op (ReleaseTrades cs) = releaseTrades cs"
| "apply_op (Watch p r) = watchPath p r"
| "apply_op (Unwatch p) = unwatchPath p"
| "apply_op (CreateChart w req) = createChartHistoryWatch w req"
| "apply_op (DestroyChart w) = destroyChartHistoryWatch w"
| "apply_op (Attach w) = attachAggregationWatch w"
| "apply_op (Detach w) = detachAggregationWatch w"
| "apply_op (Destroy w) = destroyAggregationWatch w"
| "apply_op (SubEvents ts) = subscribeEvents ts"
| "apply_op (UnsubEvents ts) = unsubscribeEvents ts"

definition sent_connected :: "sub_op \<Rightarrow> subs \<Rightarrow> wire list" where
  "sent_connected op s = (case apply_op op s of (s', now, later) \<Rightarrow> now @ later)"

definition agrees :: "wire list \<Rightarrow> subs \<Rightarrow> bool" where
  "agrees log s \<longleftrightarrow> (\<forall>t. told log t = wanted s t)"

lemma ref_fold_ok:
  "ref_ok r \<Longrightarrow> ref_ok (foldl ref_acquire r ks)" "ref_ok r \<Longrightarrow> ref_ok (foldl ref_release r ks)"
  by (induction ks arbitrary: r) (simp_all add: shared_refs.ok_acquire shared_refs.ok_release)

lemma add_types_spec:
  "ref_ok r \<Longrightarrow> add_types ts r = (r', added) \<Longrightarrow>
     ref_ok r' \<and> (\<forall>t. 0 < ref_get r' t \<longleftrightarrow> 0 < ref_get r t \<or> t \<in> set added)
     \<and> (\<forall>t. ref_get r t \<le> ref_get r' t)"
proof (induction ts arbitrary: r r' added)
  case (Cons t ts)
  obtain added1 where a: "add_types ts (ref_acquire r t) = (r', added1)"
    "added = (if ref_get r t = 0 then t # added1 else added1)"
    using Cons.prems(2) by (auto split: prod.splits)
  note ih = Cons.IH [OF shared_refs.ok_acquire [OF Cons.prems(1)] a(1)]
  have c: "ref_get (ref_acquire r t) k = ref_get r k + (if t = k then 1 else 0)" for k
    by (rule shared_refs.count_acquire [OF Cons.prems(1)])
  show ?case using ih a(2) c ref_get_nonneg [OF Cons.prems(1), of t]
    by (auto split: if_splits) (smt (verit))+
qed simp

lemma drop_types_spec:
  "ref_ok r \<Longrightarrow> drop_types ts r = (r', dropped) \<Longrightarrow>
     ref_ok r' \<and> (\<forall>t. 0 < ref_get r' t \<longleftrightarrow> 0 < ref_get r t \<and> t \<notin> set dropped)
     \<and> (\<forall>t. ref_get r' t \<le> ref_get r t)"
proof (induction ts arbitrary: r r' dropped)
  case (Cons t ts)
  obtain d1 where a: "drop_types ts (event_release r t) = (r', d1)"
    "dropped = (if ref_get r t = 1 then t # d1 else d1)"
    using Cons.prems(2) by (auto split: prod.splits)
  note ih = Cons.IH [OF event_refs.ok_release [OF Cons.prems(1)] a(1)]
  have c: "ref_get (event_release r t) k = (if t = k then max 0 (ref_get r k - 1) else ref_get r k)" for k
    by (rule event_refs.count_release [OF Cons.prems(1)])
  show ?case using ih a(2) c ref_get_nonneg [OF Cons.prems(1), of t]
    by (auto split: if_splits) (smt (verit))+
qed simp

lemma agrees_sent:
  assumes "agrees log s" "\<And>t. told_from (wanted s t) ms t = wanted s' t"
  shows "agrees (log @ ms) s'"
  using assms by (simp add: agrees_def told_append)

lemmas mids_defs = acquireMids_def releaseMids_def syncMids_def midsSubscriptionCoinsLocked_def
lemmas bar_defs = acquireCandles_def releaseCandles_def syncCandles_def acquireOI_def releaseOI_def syncOI_def
lemmas trade_defs = acquireTrades_def releaseTrades_def syncTrades_def

lemma mids_coins_frame [simp]:
  "midsSubscriptionCoinsLocked (s\<lparr>sb_pathRefs := x0\<rparr>) = midsSubscriptionCoinsLocked s"
  "midsSubscriptionCoinsLocked (s\<lparr>sb_candleRefs := x1\<rparr>) = midsSubscriptionCoinsLocked s"
  "midsSubscriptionCoinsLocked (s\<lparr>sb_oiRefs := x2\<rparr>) = midsSubscriptionCoinsLocked s"
  "midsSubscriptionCoinsLocked (s\<lparr>sb_tradeRefs := x3\<rparr>) = midsSubscriptionCoinsLocked s"
  "midsSubscriptionCoinsLocked (s\<lparr>sb_chartWatches := x4\<rparr>) = midsSubscriptionCoinsLocked s"
  "midsSubscriptionCoinsLocked (s\<lparr>sb_attachedWatches := x5\<rparr>) = midsSubscriptionCoinsLocked s"
  "midsSubscriptionCoinsLocked (s\<lparr>sb_eventTypeSubs := x6\<rparr>) = midsSubscriptionCoinsLocked s"
  by (simp_all add: midsSubscriptionCoinsLocked_def)

text \<open>Each operation's messages turn what the registry wanted into what it wants now.\<close>

lemma op_told:
  assumes ok: "subs_ok s"
  shows "told_from (wanted s t) (sent_connected op s) t = wanted (fst (apply_op op s)) t"
proof (cases op)
  case (AcquireMids e cs)
  then show ?thesis by (cases t) (auto simp: sent_connected_def mids_defs Let_def split: option.splits)
next
  case (ReleaseMids cs)
  then show ?thesis by (cases t) (auto simp: sent_connected_def mids_defs Let_def split: option.splits)
next
  case (Watch p r)
  have "ref_get (sb_pathRefs s) p \<ge> 0" using ok by (simp add: subs_ok_def ref_get_nonneg)
  then show ?thesis using Watch
    by (cases t) (auto simp: sent_connected_def watchPath_def ref_acquire_def ref_get_put split: option.splits)
next
  case (Unwatch p)
  then show ?thesis
    by (cases t) (auto simp: sent_connected_def unwatchPath_def Let_def ref_release_def ref_get_put ref_get_delete split: option.splits)
next
  case (SubEvents ts)
  obtain r added where a: "add_types ts (sb_eventTypeSubs s) = (r, added)" by fastforce
  have "0 < ref_get r e \<longleftrightarrow> 0 < ref_get (sb_eventTypeSubs s) e \<or> e \<in> set added" for e
    using add_types_spec [OF _ a] ok by (simp add: subs_ok_def)
  then show ?thesis using SubEvents a
    by (cases t) (auto simp: sent_connected_def subscribeEvents_def split: option.splits)
next
  case (UnsubEvents ts)
  obtain r dropped where a: "drop_types ts (sb_eventTypeSubs s) = (r, dropped)" by fastforce
  have "0 < ref_get r e \<longleftrightarrow> 0 < ref_get (sb_eventTypeSubs s) e \<and> e \<notin> set dropped" for e
    using drop_types_spec [OF _ a] ok by (simp add: subs_ok_def)
  then show ?thesis using UnsubEvents a
    by (cases t) (auto simp: sent_connected_def unsubscribeEvents_def split: option.splits)
next
  case (CreateChart w req)
  have "map_of (filter (\<lambda>p. fst p \<noteq> w) ps) v = map_of ps v" if "v \<noteq> w" for v and ps :: "(gostring \<times> chartWatchReq) list"
    using that by (induction ps) auto
  then show ?thesis using CreateChart
    by (cases t) (auto simp: sent_connected_def createChartHistoryWatch_def Let_def split: option.splits)
next
  case (DestroyChart w)
  have "map_of (filter (\<lambda>p. fst p \<noteq> w) ps) v = (if v = w then None else map_of ps v)"
    for v and ps :: "(gostring \<times> chartWatchReq) list" by (induction ps) auto
  then show ?thesis using DestroyChart
    by (cases t) (auto simp: sent_connected_def destroyChartHistoryWatch_def split: option.splits)
next
  case (Attach w)
  then show ?thesis by (cases t) (auto simp: sent_connected_def attachAggregationWatch_def split: option.splits)
next
  case (Detach w)
  then show ?thesis by (cases t) (auto simp: sent_connected_def detachAggregationWatch_def split: option.splits)
next
  case (Destroy w)
  then show ?thesis by (cases t) (auto simp: sent_connected_def destroyAggregationWatch_def split: option.splits)
qed (cases t; auto simp: sent_connected_def bar_defs trade_defs Let_def split: option.splits)+

lemma op_ok: "subs_ok s \<Longrightarrow> subs_ok (fst (apply_op op s))"
proof (cases op)
  case (SubEvents ts)
  assume ok: "subs_ok s"
  obtain r added where a: "add_types ts (sb_eventTypeSubs s) = (r, added)" by fastforce
  show ?thesis using SubEvents a add_types_spec [OF _ a] ok by (auto simp: subs_ok_def subscribeEvents_def)
next
  case (UnsubEvents ts)
  assume ok: "subs_ok s"
  obtain r dropped where a: "drop_types ts (sb_eventTypeSubs s) = (r, dropped)" by fastforce
  show ?thesis using UnsubEvents a drop_types_spec [OF _ a] ok by (auto simp: subs_ok_def unsubscribeEvents_def)
qed (auto simp: subs_ok_def mids_defs bar_defs trade_defs Let_def ref_fold_ok watchPath_def unwatchPath_def
    shared_refs.ok_acquire shared_refs.ok_release createChartHistoryWatch_def destroyChartHistoryWatch_def
    attachAggregationWatch_def detachAggregationWatch_def destroyAggregationWatch_def distinct_map_filter)

text \<open>A session on one connection: the batch, then operations while it is up.\<close>

fun run_ops :: "sub_op list \<Rightarrow> subs \<times> wire list \<Rightarrow> subs \<times> wire list" where
  "run_ops [] st = st"
| "run_ops (op # ops) (s, log) = run_ops ops (fst (apply_op op s), log @ sent_connected op s)"

lemma run_ops_agrees:
  "agrees log s \<Longrightarrow> subs_ok s \<Longrightarrow> run_ops ops (s, log) = (s', log') \<Longrightarrow> agrees log' s' \<and> subs_ok s'"
proof (induction ops arbitrary: s log)
  case (Cons op ops)
  have "agrees (log @ sent_connected op s) (fst (apply_op op s))"
    by (rule agrees_sent [OF Cons.prems(1)]) (rule op_told [OF Cons.prems(2)])
  then show ?case using Cons.IH op_ok [OF Cons.prems(2)] Cons.prems(3) by simp
qed simp

section \<open>Properties\<close>



text \<open>Counted subscriptions honour every owner: in any history in which owners release only what is held,
  a path, mids coin or trade coin (and, by its own release code, an event type) is held exactly while
  its acquisitions exceed its releases.\<close>

theorem counted_subscriptions_honour_owners:
  assumes "honest ops (\<lambda>_. 0)"
  shows "set (ref_keys (run_refs ref_acquire ref_release ops [])) = {k. 0 < net ops k}
    \<and> set (ref_keys (run_refs ref_acquire event_release ops [])) = {k. 0 < net ops k}"
  using shared_refs.held_run [OF assms] event_refs.held_run [OF assms] by simp

theorem counted_subscriptions_honour_owners_witness:
  "set (ref_keys (run_refs ref_acquire ref_release [Acquire ''BTC'', Acquire ''BTC'', Release ''BTC''] [])) = {''BTC''}"
proof -
  have "honest [Acquire ''BTC'', Acquire ''BTC'', Release ''BTC''] (\<lambda>_. 0)" by simp
  from counted_subscriptions_honour_owners [OF this] show ?thesis by auto
qed

text \<open>Candle and open-interest subscriptions are sets, not counts: when two owners acquire the same coin
  and interval and one releases it, the client tells the server to stop the bars the other still
  uses.\<close>

theorem candle_release_drops_other_owner:
  "told (snd (run_ops [AcquireCandles [''BTC''] [''1m''], AcquireCandles [''BTC''] [''1m''], ReleaseCandles [''BTC''] [''1m'']]
      (no_subs, []))) CandlesTopic = Off
   \<and> told (snd (run_ops [AcquireTrades [''BTC''], AcquireTrades [''BTC''], ReleaseTrades [''BTC'']] (no_subs, []))) TradesTopic
      = Coins [''BTC'']"
  by code_simp

end
