(* ===== verification/Connection.thy ===== *)
theory Connection
  imports Subscriptions Go_Numbers
begin

text \<open>
  The lifecycle of the realtime connection (\<^verbatim>\<open>websocket.go\<close>): connecting, authentication with
  resubscription, delivery-sequence gaps, correlated requests, disconnects, and the rotation that hands
  delivery to a second, warmed connection.  Every critical section of the Go code (a region under
  \<^verbatim>\<open>mu\<close>) is one step; a connection is a number, and the state keeps what was written on each, the status
  notifications, the reported gaps and the closed connections.
\<close>

section \<open>State\<close>

datatype ConnectionStatus = StatusConnecting | StatusConnected | StatusDisconnected

datatype rotation_timer = NoTimer | WithinLifetime int | AfterDelay int

record handoff =
  ho_id :: nat
  ho_gen :: int
  ho_conn :: "nat option"
  ho_timeout :: bool
  ho_promote :: bool
  ho_attempts :: nat

record manager =
  mg_subs :: subs
  mg_conn :: "nat option"
  mg_status :: ConnectionStatus
  mg_shouldConnect :: bool
  mg_connecting :: bool
  mg_gen :: int
  mg_lifetime :: int
  mg_serverLifetime :: int
  mg_latest :: "(gostring \<times> gostring \<times> nat) list"
  mg_pending :: "gostring list"
  mg_nextReqID :: int
  mg_lastDeliverySeq :: int
  mg_handoff :: "handoff option"
  mg_rotation :: rotation_timer
  mg_deferred :: "wire list"
  mg_logs :: "nat \<Rightarrow> wire list"
  mg_nextConn :: nat
  mg_closed :: "nat list"
  mg_statusLog :: "ConnectionStatus list"
  mg_gaps :: "int list"
  mg_snapshots :: "gostring list"
  mg_rotated :: nat

definition newWebSocketManager :: "int \<Rightarrow> manager" where
  "newWebSocketManager lifetime =
     \<lparr>mg_subs = no_subs, mg_conn = None, mg_status = StatusDisconnected, mg_shouldConnect = False,
      mg_connecting = False, mg_gen = 0, mg_lifetime = lifetime, mg_serverLifetime = 0, mg_latest = [],
      mg_pending = [], mg_nextReqID = 0, mg_lastDeliverySeq = 0, mg_handoff = None, mg_rotation = NoTimer,
      mg_deferred = [], mg_logs = (\<lambda>_. []), mg_nextConn = 0, mg_closed = [], mg_statusLog = [],
      mg_gaps = [], mg_snapshots = [], mg_rotated = 0\<rparr>"

section \<open>Writing\<close>

definition setStatusLocked :: "ConnectionStatus \<Rightarrow> manager \<Rightarrow> manager" where
  "setStatusLocked st s =
     (if st = mg_status s then s else s\<lparr>mg_status := st, mg_statusLog := mg_statusLog s @ [st]\<rparr>)"

definition closeConn :: "nat option \<Rightarrow> manager \<Rightarrow> manager" where
  "closeConn c s = (case c of Some n \<Rightarrow> s\<lparr>mg_closed := n # mg_closed s\<rparr> | None \<Rightarrow> s)"

text \<open>\<^verbatim>\<open>writeJSON\<close>: a path watch on the live connection records the request it correlates with.\<close>

definition note_watch :: "nat \<Rightarrow> wire \<Rightarrow> manager \<Rightarrow> (gostring \<times> gostring \<times> nat) list" where
  "note_watch c msg s =
     (case msg of
        WatchPath p r \<Rightarrow>
          if Some c = mg_conn s \<and> mg_status s = StatusConnected \<and> ref_get (sb_pathRefs (mg_subs s)) p > 0 \<and> r \<noteq> []
          then (p, r, c) # filter (\<lambda>e. fst e \<noteq> p) (mg_latest s) else mg_latest s
      | _ \<Rightarrow> mg_latest s)"

definition writeJSON :: "nat \<Rightarrow> wire \<Rightarrow> manager \<Rightarrow> manager" where
  "writeJSON c msg s =
     s\<lparr>mg_latest := note_watch c msg s, mg_logs := (mg_logs s)(c := mg_logs s c @ [msg])\<rparr>"

definition send :: "wire \<Rightarrow> manager \<Rightarrow> manager" where
  "send msg s =
     (case mg_conn s of
        Some c \<Rightarrow> if mg_status s = StatusConnected then writeJSON c msg s else s
      | None \<Rightarrow> s)"

definition sendWhenConnected :: "wire \<Rightarrow> manager \<Rightarrow> manager" where
  "sendWhenConnected msg s =
     (if mg_status s = StatusConnected then send msg s
      else s\<lparr>mg_deferred := mg_deferred s @ [msg]\<rparr>)"

text \<open>The batch of \<^verbatim>\<open>resubscribe\<close> takes a fresh request id per path.\<close>

definition path_rid :: "manager \<Rightarrow> gostring \<Rightarrow> gostring" where
  "path_rid s p =
     show_int (mg_nextReqID s + 1 + int (length (takeWhile (\<lambda>q. q \<noteq> p) (ref_keys (sb_pathRefs (mg_subs s))))))"

definition resubscribe_conn :: "nat \<Rightarrow> manager \<Rightarrow> manager" where
  "resubscribe_conn c s =
     (let batch = resubscribe (path_rid s) (mg_subs s);
          s1 = s\<lparr>mg_nextReqID := mg_nextReqID s + int (length (sb_pathRefs (mg_subs s)))\<rparr> in
      fold (writeJSON c) batch s1)"

section \<open>Rotation timer\<close>

definition cancelRotationLocked :: "manager \<Rightarrow> manager" where
  "cancelRotationLocked s = s\<lparr>mg_rotation := NoTimer\<rparr>"

definition scheduleRotation :: "int \<Rightarrow> manager \<Rightarrow> manager" where
  "scheduleRotation delay s =
     (let s1 = cancelRotationLocked s in
      if delay \<le> 0 then
        (let lifetime = (if mg_lifetime s1 \<noteq> 0 \<and> mg_serverLifetime s1 > 0 then mg_serverLifetime s1
                         else mg_lifetime s1) in
         if lifetime \<le> 0 then s1 else s1\<lparr>mg_rotation := WithinLifetime lifetime\<rparr>)
      else s1\<lparr>mg_rotation := AfterDelay delay\<rparr>)"

definition wsHandoffRetry :: int where "wsHandoffRetry = 60000000000"
definition wsPromoteMaxAttempts :: nat where "wsPromoteMaxAttempts = 20"

text \<open>\<^verbatim>\<open>reported\<close> is the reported lifetime in nanoseconds when the frame carries a positive one.\<close>

definition readServerLifetime :: "int option \<Rightarrow> manager \<Rightarrow> manager" where
  "readServerLifetime reported s =
     (case reported of Some ns \<Rightarrow> s\<lparr>mg_serverLifetime := ns\<rparr> | None \<Rightarrow> s)"

section \<open>Connecting\<close>

definition EnsureConnected :: "manager \<Rightarrow> manager" where
  "EnsureConnected s =
     (if mg_shouldConnect s \<and> (mg_connecting s \<or> mg_status s = StatusConnected) then s
      else let s1 = s\<lparr>mg_shouldConnect := True\<rparr> in
        if mg_connecting s1 then s1
        else s1\<lparr>mg_connecting := True, mg_gen := mg_gen s1 + 1\<rparr>)"

definition takeHandoffLocked :: "manager \<Rightarrow> nat option \<times> manager" where
  "takeHandoffLocked s =
     (case mg_handoff s of None \<Rightarrow> (None, s) | Some h \<Rightarrow> (ho_conn h, s\<lparr>mg_handoff := None\<rparr>))"

definition Reconnect :: "manager \<Rightarrow> manager" where
  "Reconnect s =
     (if \<not> mg_shouldConnect s then s
      else
       (let conn = mg_conn s;
            s1 = cancelRotationLocked (s\<lparr>mg_gen := mg_gen s + 1, mg_conn := None, mg_connecting := True\<rparr>);
            (warming, s2) = takeHandoffLocked s1 in
        closeConn conn (closeConn warming s2)))"

definition Disconnect :: "manager \<Rightarrow> manager" where
  "Disconnect s =
     (let conn = mg_conn s;
          s1 = cancelRotationLocked (s\<lparr>mg_shouldConnect := False, mg_connecting := False,
                 mg_gen := mg_gen s + 1, mg_conn := None\<rparr>);
          (warming, s2) = takeHandoffLocked s1 in
      closeConn conn (closeConn warming (setStatusLocked StatusDisconnected s2)))"

definition clearConnectingLocked :: "int \<Rightarrow> manager \<Rightarrow> manager" where
  "clearConnectingLocked gen s = (if mg_gen s = gen then s\<lparr>mg_connecting := False\<rparr> else s)"

definition beginAttempt :: "int \<Rightarrow> manager \<Rightarrow> bool \<times> manager" where
  "beginAttempt gen s =
     (if \<not> mg_shouldConnect s \<or> mg_gen s \<noteq> gen then (False, clearConnectingLocked gen s)
      else (True, setStatusLocked StatusConnecting s))"

text \<open>A successful dial of \<^verbatim>\<open>dialAndServe\<close>: the fresh connection is adopted and authenticated, or closed.\<close>

definition dialed :: "int \<Rightarrow> manager \<Rightarrow> manager" where
  "dialed gen s =
     (let c = mg_nextConn s; s1 = s\<lparr>mg_nextConn := c + 1\<rparr> in
      if \<not> mg_shouldConnect s1 \<or> mg_gen s1 \<noteq> gen then closeConn (Some c) s1
      else writeJSON c AuthMessage (s1\<lparr>mg_conn := Some c\<rparr>))"

definition rejectPendingLocked :: "manager \<Rightarrow> manager" where
  "rejectPendingLocked s = s\<lparr>mg_pending := []\<rparr>"

definition endAttempt :: "int \<Rightarrow> manager \<Rightarrow> bool \<times> manager" where
  "endAttempt gen s =
     (if \<not> mg_shouldConnect s \<or> mg_gen s \<noteq> gen then (False, clearConnectingLocked gen s)
      else (let (warming, s1) = takeHandoffLocked (cancelRotationLocked s) in
            (True, closeConn warming (rejectPendingLocked (setStatusLocked StatusDisconnected s1)))))"

text \<open>A read error on a connection: it is closed, and forgotten if it was the live one.\<close>

definition readFailed :: "nat \<Rightarrow> manager \<Rightarrow> manager" where
  "readFailed c s = closeConn (Some c) (if mg_conn s = Some c then s\<lparr>mg_conn := None\<rparr> else s)"

section \<open>Messages on the live connection\<close>

definition emitGap :: "int \<Rightarrow> manager \<Rightarrow> manager" where
  "emitGap missed s = s\<lparr>mg_gaps := mg_gaps s @ [missed]\<rparr>"

definition checkGap :: "int \<Rightarrow> manager \<Rightarrow> manager" where
  "checkGap seq s =
     (let last_seq = mg_lastDeliverySeq s; s1 = s\<lparr>mg_lastDeliverySeq := seq\<rparr> in
      if last_seq > 0 \<and> seq > last_seq + 1 then emitGap (seq - last_seq - 1) s1 else s1)"

definition onAuthenticated :: "int option \<Rightarrow> manager \<Rightarrow> manager" where
  "onAuthenticated reported s =
     (let s1 = setStatusLocked StatusConnected
                 ((readServerLifetime reported s)\<lparr>mg_latest := [], mg_lastDeliverySeq := 0\<rparr>);
          s2 = (case mg_conn s1 of Some c \<Rightarrow> resubscribe_conn c s1 | None \<Rightarrow> s1);
          s3 = scheduleRotation 0 s2 in
      fold send (mg_deferred s3) (s3\<lparr>mg_deferred := []\<rparr>))"

definition resolvePending :: "gostring \<Rightarrow> manager \<Rightarrow> manager" where
  "resolvePending r s = s\<lparr>mg_pending := removeAll r (mg_pending s)\<rparr>"

definition registerPending :: "gostring \<Rightarrow> manager \<Rightarrow> manager" where
  "registerPending r s = s\<lparr>mg_pending := r # removeAll r (mg_pending s)\<rparr>"

text \<open>A watch snapshot is offered to operation waiters only when it answers the newest watch of its path on this connection.\<close>

definition snapshot_valid :: "gostring \<Rightarrow> gostring \<Rightarrow> manager \<Rightarrow> bool" where
  "snapshot_valid path r s \<longleftrightarrow>
     (case map_of (mg_latest s) path of
        None \<Rightarrow> False
      | Some (r', c) \<Rightarrow> ref_get (sb_pathRefs (mg_subs s)) path > 0 \<and> r' = r \<and> Some c = mg_conn s
                         \<and> mg_status s = StatusConnected)"

datatype frame =
    Pong | Resync "int option" | Authenticated "int option" | Reply gostring
  | WatchSnapshot gostring gostring | EventFrame "int option" | ErrorFrame gostring

definition handleMessage :: "frame \<Rightarrow> manager \<Rightarrow> manager" where
  "handleMessage f s =
     (case f of
        Pong \<Rightarrow> s
      | Resync seq \<Rightarrow> emitGap 1 (case seq of Some n \<Rightarrow> checkGap n s | None \<Rightarrow> s)
      | Authenticated reported \<Rightarrow> onAuthenticated reported s
      | Reply r \<Rightarrow> if r \<noteq> [] then resolvePending r s else s
      | WatchSnapshot path r \<Rightarrow>
          (let s1 = (if r \<noteq> [] then resolvePending r s else s) in
           if snapshot_valid path r s1 then s1\<lparr>mg_snapshots := mg_snapshots s1 @ [path]\<rparr> else s1)
      | EventFrame seq \<Rightarrow> (case seq of Some n \<Rightarrow> checkGap n s | None \<Rightarrow> s)
      | ErrorFrame r \<Rightarrow> if r \<noteq> [] then resolvePending r s else s)"

section \<open>Rotation\<close>

definition RotateConnection :: "manager \<Rightarrow> bool \<times> manager" where
  "RotateConnection s =
     (if \<not> mg_shouldConnect s \<or> mg_handoff s \<noteq> None \<or> mg_status s \<noteq> StatusConnected \<or> mg_conn s = None
      then (False, s)
      else (True, s\<lparr>mg_handoff := Some \<lparr>ho_id = mg_nextConn s, ho_gen = mg_gen s, ho_conn = None,
                       ho_timeout = True, ho_promote = False, ho_attempts = 0\<rparr>,
                    mg_nextConn := mg_nextConn s + 1\<rparr>))"

definition is_handoff :: "nat \<Rightarrow> manager \<Rightarrow> bool" where
  "is_handoff hid s \<longleftrightarrow> (case mg_handoff s of Some h \<Rightarrow> ho_id h = hid | None \<Rightarrow> False)"

definition abortHandoffIf :: "nat \<Rightarrow> manager \<Rightarrow> bool \<times> manager" where
  "abortHandoffIf hid s =
     (case mg_handoff s of
        Some h \<Rightarrow> if ho_id h = hid then (True, closeConn (ho_conn h) (s\<lparr>mg_handoff := None\<rparr>)) else (False, s)
      | None \<Rightarrow> (False, s))"

definition abandon :: "nat \<Rightarrow> manager \<Rightarrow> manager" where
  "abandon hid s =
     (case abortHandoffIf hid s of (True, s1) \<Rightarrow> scheduleRotation wsHandoffRetry s1 | (False, s1) \<Rightarrow> s1)"

definition warmDialed :: "nat \<Rightarrow> manager \<Rightarrow> manager" where
  "warmDialed hid s =
     (let c = mg_nextConn s; s1 = s\<lparr>mg_nextConn := c + 1\<rparr> in
      case mg_handoff s1 of
        Some h \<Rightarrow>
          if ho_id h \<noteq> hid \<or> \<not> mg_shouldConnect s1 \<or> mg_gen s1 \<noteq> ho_gen h then closeConn (Some c) s1
          else writeJSON c AuthMessage (s1\<lparr>mg_handoff := Some (h\<lparr>ho_conn := Some c\<rparr>)\<rparr>)
      | None \<Rightarrow> closeConn (Some c) s1)"

definition promoteHandoff :: "nat \<Rightarrow> manager \<Rightarrow> manager" where
  "promoteHandoff hid s =
     (case mg_handoff s of
        None \<Rightarrow> s
      | Some h \<Rightarrow>
          if ho_id h \<noteq> hid \<or> ho_conn h = None then s
          else if mg_pending s \<noteq> [] \<and> ho_attempts h < wsPromoteMaxAttempts then
            s\<lparr>mg_handoff := Some (h\<lparr>ho_attempts := ho_attempts h + 1, ho_promote := True\<rparr>)\<rparr>
          else
            scheduleRotation 0
              (closeConn (mg_conn s)
                (s\<lparr>mg_conn := ho_conn h, mg_gen := mg_gen s + 1, mg_connecting := True,
                   mg_lastDeliverySeq := 0, mg_handoff := None, mg_rotated := mg_rotated s + 1\<rparr>)))"

definition clearHandoffTimeout :: "nat \<Rightarrow> manager \<Rightarrow> manager" where
  "clearHandoffTimeout hid s =
     (case mg_handoff s of
        Some h \<Rightarrow> if ho_id h = hid then s\<lparr>mg_handoff := Some (h\<lparr>ho_timeout := False\<rparr>)\<rparr> else s
      | None \<Rightarrow> s)"

text \<open>A message on a warming connection; nothing but authentication, errors and the barrier counts.\<close>

definition handleWarmMessage :: "nat \<Rightarrow> frame \<Rightarrow> manager \<Rightarrow> manager" where
  "handleWarmMessage hid f s =
     (case mg_handoff s of
        None \<Rightarrow> s
      | Some h \<Rightarrow>
          if ho_id h \<noteq> hid then s
          else (case ho_conn h of
                  None \<Rightarrow> s
                | Some c \<Rightarrow>
                    (case f of
                       ErrorFrame _ \<Rightarrow> abandon hid s
                     | Authenticated reported \<Rightarrow>
                         writeJSON c PingMessage (resubscribe_conn c (readServerLifetime reported s))
                     | Pong \<Rightarrow> promoteHandoff hid (clearHandoffTimeout hid s)
                     | _ \<Rightarrow> s)))"

section \<open>Steps\<close>

definition subscription_step :: "sub_op \<Rightarrow> manager \<Rightarrow> manager" where
  "subscription_step op s =
     (case apply_op op (mg_subs s) of (subs', now, later) \<Rightarrow>
        fold sendWhenConnected later (fold send now (s\<lparr>mg_subs := subs'\<rparr>)))"

datatype label =
    LEnsure | LReconnect | LDisconnect | LBegin int | LDialed int | LEnd int | LReadFailed nat
  | LMessage nat frame | LSubscribe sub_op | LRequest gostring | LDropRequest gostring
  | LRotate | LWarmDialed nat | LWarmMessage nat frame | LWarmFailed nat | LPromoteTimer nat

text \<open>
  A message counts only on the connection that is live when it is read; a read error on a connection
  that is no longer live changes nothing, since it was closed when it was retired.
\<close>

primrec step :: "label \<Rightarrow> manager \<Rightarrow> manager" where
  "step LEnsure s = EnsureConnected s"
| "step LReconnect s = Reconnect s"
| "step LDisconnect s = Disconnect s"
| "step (LBegin gen) s = snd (beginAttempt gen s)"
| "step (LDialed gen) s = dialed gen s"
| "step (LEnd gen) s = snd (endAttempt gen s)"
| "step (LReadFailed c) s = (if mg_conn s = Some c then readFailed c s else s)"
| "step (LMessage c f) s = (if mg_conn s = Some c then handleMessage f s else s)"
| "step (LSubscribe op) s = subscription_step op s"
| "step (LRequest r) s = registerPending r s"
| "step (LDropRequest r) s = resolvePending r s"
| "step LRotate s = snd (RotateConnection s)"
| "step (LWarmDialed hid) s = warmDialed hid s"
| "step (LWarmMessage hid f) s = handleWarmMessage hid f s"
| "step (LWarmFailed hid) s = abandon hid s"
| "step (LPromoteTimer hid) s = promoteHandoff hid s"

inductive reach :: "int \<Rightarrow> manager \<Rightarrow> bool" for lifetime where
  reach_init: "reach lifetime (newWebSocketManager lifetime)"
| reach_step: "reach lifetime s \<Longrightarrow> reach lifetime (step l s)"

definition exec :: "label list \<Rightarrow> manager \<Rightarrow> manager" where
  "exec ls s = fold step ls s"

section \<open>Lemmas: writing\<close>

text \<open>The fields a write leaves alone.\<close>

definition same_but_logs :: "manager \<Rightarrow> manager \<Rightarrow> bool" where
  "same_but_logs s s' \<longleftrightarrow> (\<exists>l g. s' = s\<lparr>mg_latest := l, mg_logs := g\<rparr>)"

lemma same_but_logs_refl [simp]: "same_but_logs s s"
  unfolding same_but_logs_def by (rule exI [of _ "mg_latest s"], rule exI [of _ "mg_logs s"]) simp

lemma same_but_logs_trans: "same_but_logs a b \<Longrightarrow> same_but_logs b c \<Longrightarrow> same_but_logs a c"
  by (fastforce simp: same_but_logs_def)

lemma same_but_logsD:
  assumes "same_but_logs s s'"
  shows "mg_subs s' = mg_subs s" "mg_conn s' = mg_conn s" "mg_status s' = mg_status s"
    "mg_shouldConnect s' = mg_shouldConnect s" "mg_connecting s' = mg_connecting s" "mg_gen s' = mg_gen s"
    "mg_pending s' = mg_pending s" "mg_lastDeliverySeq s' = mg_lastDeliverySeq s"
    "mg_handoff s' = mg_handoff s" "mg_deferred s' = mg_deferred s" "mg_nextConn s' = mg_nextConn s"
    "mg_closed s' = mg_closed s" "mg_statusLog s' = mg_statusLog s" "mg_gaps s' = mg_gaps s"
    "mg_rotated s' = mg_rotated s" "mg_rotation s' = mg_rotation s" "mg_snapshots s' = mg_snapshots s"
    "mg_lifetime s' = mg_lifetime s"
  using assms by (auto simp: same_but_logs_def)

lemma writeJSON_same: "same_but_logs s (writeJSON c m s)"
  unfolding same_but_logs_def writeJSON_def by blast

lemma writeJSON_log: "mg_logs (writeJSON c m s) = (mg_logs s)(c := mg_logs s c @ [m])"
  by (simp add: writeJSON_def)

lemma fold_write_same: "same_but_logs s (fold (writeJSON c) ms s)"
proof (induction ms arbitrary: s)
  case (Cons m ms)
  show ?case using same_but_logs_trans [OF writeJSON_same Cons.IH] by simp
qed simp

lemma fold_write_log: "mg_logs (fold (writeJSON c) ms s) = (mg_logs s)(c := mg_logs s c @ ms)"
  by (induction ms arbitrary: s) (auto simp: writeJSON_log)

lemma fold_send_connected:
  "mg_conn s = Some c \<Longrightarrow> mg_status s = StatusConnected \<Longrightarrow> fold send ms s = fold (writeJSON c) ms s"
proof (induction ms arbitrary: s)
  case (Cons m ms)
  then show ?case
    using same_but_logsD [OF writeJSON_same [of s c m]] by (simp add: send_def)
qed simp

lemma fold_send_down: "mg_conn s = None \<or> mg_status s \<noteq> StatusConnected \<Longrightarrow> fold send ms s = s"
  by (induction ms) (auto simp: send_def split: option.split)

lemma fold_send_same: "same_but_logs s (fold send ms s)"
  by (cases "\<exists>c. mg_conn s = Some c \<and> mg_status s = StatusConnected")
    (auto simp: fold_send_connected fold_write_same fold_send_down)

lemma fold_sendWhen_connected:
  "mg_status s = StatusConnected \<Longrightarrow> fold sendWhenConnected ms s = fold send ms s"
proof (induction ms arbitrary: s)
  case (Cons m ms)
  have "mg_status (send m s) = StatusConnected"
    using same_but_logsD(3) [OF fold_send_same [of s "[m]"]] Cons.prems by simp
  then show ?case using Cons by (simp add: sendWhenConnected_def)
qed simp

lemma fold_sendWhen_down:
  "mg_status s \<noteq> StatusConnected \<Longrightarrow> fold sendWhenConnected ms s = s\<lparr>mg_deferred := mg_deferred s @ ms\<rparr>"
  by (induction ms arbitrary: s) (simp_all add: sendWhenConnected_def)

lemma setStatus_frame [simp]:
  "mg_subs (setStatusLocked st s) = mg_subs s" "mg_conn (setStatusLocked st s) = mg_conn s"
  "mg_status (setStatusLocked st s) = st" "mg_handoff (setStatusLocked st s) = mg_handoff s"
  "mg_nextConn (setStatusLocked st s) = mg_nextConn s" "mg_closed (setStatusLocked st s) = mg_closed s"
  "mg_logs (setStatusLocked st s) = mg_logs s" "mg_deferred (setStatusLocked st s) = mg_deferred s"
  "mg_gaps (setStatusLocked st s) = mg_gaps s" "mg_nextReqID (setStatusLocked st s) = mg_nextReqID s"
  "mg_pending (setStatusLocked st s) = mg_pending s"
  by (simp_all add: setStatusLocked_def)

lemma closeConn_frame [simp]:
  "mg_subs (closeConn c s) = mg_subs s" "mg_conn (closeConn c s) = mg_conn s"
  "mg_status (closeConn c s) = mg_status s" "mg_handoff (closeConn c s) = mg_handoff s"
  "mg_nextConn (closeConn c s) = mg_nextConn s" "mg_logs (closeConn c s) = mg_logs s"
  "mg_statusLog (closeConn c s) = mg_statusLog s" "mg_gaps (closeConn c s) = mg_gaps s"
  "mg_deferred (closeConn c s) = mg_deferred s"
  "set (mg_closed (closeConn c s)) = (case c of Some n \<Rightarrow> insert n (set (mg_closed s)) | None \<Rightarrow> set (mg_closed s))"
  by (simp_all add: closeConn_def split: option.split)

lemma schedule_frame [simp]:
  "mg_subs (scheduleRotation d s) = mg_subs s" "mg_conn (scheduleRotation d s) = mg_conn s"
  "mg_status (scheduleRotation d s) = mg_status s" "mg_handoff (scheduleRotation d s) = mg_handoff s"
  "mg_nextConn (scheduleRotation d s) = mg_nextConn s" "mg_closed (scheduleRotation d s) = mg_closed s"
  "mg_logs (scheduleRotation d s) = mg_logs s" "mg_statusLog (scheduleRotation d s) = mg_statusLog s"
  "mg_gaps (scheduleRotation d s) = mg_gaps s" "mg_deferred (scheduleRotation d s) = mg_deferred s"
  by (simp_all add: scheduleRotation_def cancelRotationLocked_def Let_def)

lemma lifetime_frame [simp]:
  "mg_subs (readServerLifetime r s) = mg_subs s" "mg_conn (readServerLifetime r s) = mg_conn s"
  "mg_status (readServerLifetime r s) = mg_status s" "mg_handoff (readServerLifetime r s) = mg_handoff s"
  "mg_nextConn (readServerLifetime r s) = mg_nextConn s" "mg_closed (readServerLifetime r s) = mg_closed s"
  "mg_logs (readServerLifetime r s) = mg_logs s" "mg_statusLog (readServerLifetime r s) = mg_statusLog s"
  "mg_gaps (readServerLifetime r s) = mg_gaps s" "mg_deferred (readServerLifetime r s) = mg_deferred s"
  "mg_nextReqID (readServerLifetime r s) = mg_nextReqID s" "mg_pending (readServerLifetime r s) = mg_pending s"
  by (simp_all add: readServerLifetime_def split: option.split)

lemma resubscribe_conn_frame:
  "mg_subs (resubscribe_conn c s) = mg_subs s" "mg_conn (resubscribe_conn c s) = mg_conn s"
  "mg_status (resubscribe_conn c s) = mg_status s" "mg_handoff (resubscribe_conn c s) = mg_handoff s"
  "mg_nextConn (resubscribe_conn c s) = mg_nextConn s" "mg_closed (resubscribe_conn c s) = mg_closed s"
  "mg_statusLog (resubscribe_conn c s) = mg_statusLog s" "mg_gaps (resubscribe_conn c s) = mg_gaps s"
  "mg_deferred (resubscribe_conn c s) = mg_deferred s" "mg_pending (resubscribe_conn c s) = mg_pending s"
  using same_but_logsD [OF fold_write_same [of
      "s\<lparr>mg_nextReqID := mg_nextReqID s + int (length (sb_pathRefs (mg_subs s)))\<rparr>" c
      "resubscribe (path_rid s) (mg_subs s)"]]
  by (simp_all add: resubscribe_conn_def Let_def)

lemma resubscribe_conn_log:
  "mg_logs (resubscribe_conn c s) = (mg_logs s)(c := mg_logs s c @ resubscribe (path_rid s) (mg_subs s))"
  by (simp add: resubscribe_conn_def Let_def fold_write_log)

section \<open>Lemmas: the invariant\<close>

text \<open>
  A live connection and a warming one are open, known and different; a handoff is postponed at most
  twenty times; unused connections have empty logs; the registry is well formed.
\<close>

definition mg_inv :: "manager \<Rightarrow> bool" where
  "mg_inv s \<longleftrightarrow>
     subs_ok (mg_subs s)
     \<and> (\<forall>c \<in> set (mg_closed s). c < mg_nextConn s)
     \<and> (\<forall>c. mg_conn s = Some c \<longrightarrow> c < mg_nextConn s \<and> c \<notin> set (mg_closed s))
     \<and> (\<forall>h. mg_handoff s = Some h \<longrightarrow> ho_attempts h \<le> wsPromoteMaxAttempts
          \<and> (\<forall>c. ho_conn h = Some c \<longrightarrow> c < mg_nextConn s \<and> c \<notin> set (mg_closed s) \<and> mg_conn s \<noteq> Some c))"

text \<open>The invariant reads only these fields.\<close>

lemma mg_inv_cong:
  "mg_subs s' = mg_subs s \<Longrightarrow> mg_conn s' = mg_conn s \<Longrightarrow> mg_handoff s' = mg_handoff s \<Longrightarrow>
   mg_nextConn s' = mg_nextConn s \<Longrightarrow> mg_closed s' = mg_closed s \<Longrightarrow> mg_inv s' = mg_inv s"
  by (simp add: mg_inv_def)

lemma mg_inv_write [simp]: "mg_inv (writeJSON c m s) = mg_inv s"
  by (rule mg_inv_cong) (simp_all add: writeJSON_def)

lemma mg_inv_schedule [simp]: "mg_inv (scheduleRotation d s) = mg_inv s"
  by (rule mg_inv_cong) simp_all

lemma subscription_frame:
  "mg_subs (subscription_step op s) = fst (apply_op op (mg_subs s))"
  "mg_conn (subscription_step op s) = mg_conn s" "mg_handoff (subscription_step op s) = mg_handoff s"
  "mg_nextConn (subscription_step op s) = mg_nextConn s" "mg_closed (subscription_step op s) = mg_closed s"
  "mg_status (subscription_step op s) = mg_status s" "mg_gaps (subscription_step op s) = mg_gaps s"
  "mg_statusLog (subscription_step op s) = mg_statusLog s"
proof -
  obtain s1 now later where a: "apply_op op (mg_subs s) = (s1, now, later)" by (metis prod_cases3)
  define u where "u = fold send now (s\<lparr>mg_subs := s1\<rparr>)"
  note fu = same_but_logsD [OF fold_send_same [of "s\<lparr>mg_subs := s1\<rparr>" now], folded u_def]
  have e: "subscription_step op s = fold sendWhenConnected later u" by (simp add: subscription_step_def a u_def)
  have "\<exists>d. same_but_logs (u\<lparr>mg_deferred := d\<rparr>) (subscription_step op s)"
  proof (cases "mg_status u = StatusConnected")
    case True
    then show ?thesis using fold_send_same [of u later]
      by (intro exI [of _ "mg_deferred u"]) (simp add: e fold_sendWhen_connected)
  next
    case False
    then show ?thesis by (intro exI [of _ "mg_deferred u @ later"]) (simp add: e fold_sendWhen_down)
  qed
  then obtain d where d: "same_but_logs (u\<lparr>mg_deferred := d\<rparr>) (subscription_step op s)" by blast
  note fd = same_but_logsD [OF d]
  show "mg_subs (subscription_step op s) = fst (apply_op op (mg_subs s))" using fd fu a by simp
  show "mg_conn (subscription_step op s) = mg_conn s" "mg_handoff (subscription_step op s) = mg_handoff s"
    "mg_nextConn (subscription_step op s) = mg_nextConn s" "mg_closed (subscription_step op s) = mg_closed s"
    "mg_status (subscription_step op s) = mg_status s" "mg_gaps (subscription_step op s) = mg_gaps s"
    "mg_statusLog (subscription_step op s) = mg_statusLog s" using fd fu by simp_all
qed

lemma onAuthenticated_frame:
  "mg_subs (onAuthenticated r s) = mg_subs s" "mg_conn (onAuthenticated r s) = mg_conn s"
  "mg_handoff (onAuthenticated r s) = mg_handoff s" "mg_nextConn (onAuthenticated r s) = mg_nextConn s"
  "mg_closed (onAuthenticated r s) = mg_closed s" "mg_status (onAuthenticated r s) = StatusConnected"
  "mg_deferred (onAuthenticated r s) = []"
proof -
  define s1 where "s1 = setStatusLocked StatusConnected
      ((readServerLifetime r s)\<lparr>mg_latest := [], mg_lastDeliverySeq := 0\<rparr>)"
  define s2 where "s2 = (case mg_conn s1 of Some c \<Rightarrow> resubscribe_conn c s1 | None \<Rightarrow> s1)"
  define s3 where "s3 = scheduleRotation 0 s2"
  have e: "onAuthenticated r s = fold send (mg_deferred s3) (s3\<lparr>mg_deferred := []\<rparr>)"
    by (simp only: onAuthenticated_def Let_def s1_def s2_def s3_def)
  note f = same_but_logsD [OF fold_send_same [of "s3\<lparr>mg_deferred := []\<rparr>" "mg_deferred s3"], folded e]
  have f2: "mg_subs s2 = mg_subs s" "mg_conn s2 = mg_conn s" "mg_handoff s2 = mg_handoff s"
    "mg_nextConn s2 = mg_nextConn s" "mg_closed s2 = mg_closed s" "mg_status s2 = StatusConnected"
    by (simp_all add: s2_def resubscribe_conn_frame s1_def split: option.split)
  show "mg_subs (onAuthenticated r s) = mg_subs s" "mg_conn (onAuthenticated r s) = mg_conn s"
    "mg_handoff (onAuthenticated r s) = mg_handoff s" "mg_nextConn (onAuthenticated r s) = mg_nextConn s"
    "mg_closed (onAuthenticated r s) = mg_closed s" "mg_status (onAuthenticated r s) = StatusConnected"
    "mg_deferred (onAuthenticated r s) = []"
    using f f2 by (simp_all add: s3_def)
qed

lemma mg_inv_message: "mg_inv s \<Longrightarrow> mg_inv (handleMessage f s)"
proof (cases f)
  case (Authenticated r)
  assume "mg_inv s"
  then show ?thesis using Authenticated onAuthenticated_frame mg_inv_cong [of "onAuthenticated r s" s]
    by (simp add: handleMessage_def)
qed (auto simp: handleMessage_def mg_inv_def emitGap_def checkGap_def resolvePending_def Let_def
    split: option.splits)

lemma mg_inv_promote: "mg_inv s \<Longrightarrow> mg_inv (promoteHandoff hid s)"
  by (auto simp: promoteHandoff_def mg_inv_def wsPromoteMaxAttempts_def split: option.split)

lemma mg_inv_abandon: "mg_inv s \<Longrightarrow> mg_inv (abandon hid s)"
  by (auto simp: abandon_def abortHandoffIf_def mg_inv_def split: option.splits)

lemma mg_inv_clear_timeout: "mg_inv s \<Longrightarrow> mg_inv (clearHandoffTimeout hid s)"
  by (auto simp: clearHandoffTimeout_def mg_inv_def split: option.splits)

lemma mg_inv_warm_message: "mg_inv s \<Longrightarrow> mg_inv (handleWarmMessage hid f s)"
proof -
  assume inv: "mg_inv s"
  have auth: "mg_inv (writeJSON c PingMessage (resubscribe_conn c (readServerLifetime r s)))" for c r
    using inv mg_inv_cong [of "resubscribe_conn c (readServerLifetime r s)" s] by (simp add: resubscribe_conn_frame)
  show ?thesis
    using inv auth mg_inv_abandon [OF inv] mg_inv_promote [OF mg_inv_clear_timeout [OF inv]]
    by (auto simp: handleWarmMessage_def split: option.split frame.split)
qed

lemma mg_inv_step: "mg_inv s \<Longrightarrow> mg_inv (step l s)"
proof (cases l)
  case (LSubscribe op)
  assume "mg_inv s"
  then show ?thesis using LSubscribe op_ok [of "mg_subs s" op] by (simp add: mg_inv_def subscription_frame)
next
  case LReconnect
  assume "mg_inv s"
  then show ?thesis using LReconnect
    by (auto simp: Reconnect_def takeHandoffLocked_def cancelRotationLocked_def mg_inv_def Let_def
        split: option.splits)
next
  case LDisconnect
  assume "mg_inv s"
  then show ?thesis using LDisconnect
    by (auto simp: Disconnect_def takeHandoffLocked_def cancelRotationLocked_def mg_inv_def Let_def
        split: option.splits)
next
  case (LEnd g)
  assume "mg_inv s"
  then show ?thesis using LEnd
    by (auto simp: endAttempt_def takeHandoffLocked_def cancelRotationLocked_def mg_inv_def Let_def
        rejectPendingLocked_def clearConnectingLocked_def split: option.splits)
next
  case (LMessage c f)
  assume "mg_inv s"
  then show ?thesis using LMessage by (simp add: mg_inv_message)
next
  case (LWarmMessage hid f)
  assume "mg_inv s"
  then show ?thesis using LWarmMessage by (simp add: mg_inv_warm_message)
next
  case (LWarmDialed hid)
  assume inv: "mg_inv s"
  have "mg_nextConn s \<notin> set (mg_closed s)" "mg_conn s \<noteq> Some (mg_nextConn s)"
    using inv by (auto simp: mg_inv_def)
  then show ?thesis using LWarmDialed inv
    by (auto simp: warmDialed_def mg_inv_def Let_def writeJSON_def less_Suc_eq split: option.splits)
next
  case (LDialed g)
  assume inv: "mg_inv s"
  have "mg_nextConn s \<notin> set (mg_closed s)"
    "\<forall>h c. mg_handoff s = Some h \<longrightarrow> ho_conn h = Some c \<longrightarrow> c \<noteq> mg_nextConn s"
    using inv by (auto simp: mg_inv_def)
  then show ?thesis using LDialed inv
    by (auto simp: dialed_def mg_inv_def Let_def writeJSON_def less_Suc_eq)
next
  case LRotate
  assume "mg_inv s"
  then show ?thesis using LRotate by (auto simp: RotateConnection_def mg_inv_def wsPromoteMaxAttempts_def)
next
  case (LReadFailed c)
  assume "mg_inv s"
  then show ?thesis using LReadFailed by (auto simp: readFailed_def mg_inv_def)
next
  case (LWarmFailed hid)
  assume "mg_inv s"
  then show ?thesis using LWarmFailed by (simp add: mg_inv_abandon)
next
  case (LPromoteTimer hid)
  assume "mg_inv s"
  then show ?thesis using LPromoteTimer by (simp add: mg_inv_promote)
qed (auto simp: EnsureConnected_def beginAttempt_def clearConnectingLocked_def registerPending_def
    resolvePending_def Let_def mg_inv_def split: option.splits)

lemma reach_inv: "reach lifetime s \<Longrightarrow> mg_inv s"
proof (induction rule: reach.induct)
  case reach_init
  then show ?case by (simp add: mg_inv_def newWebSocketManager_def subs_ok_def no_subs_def ref_ok_def)
next
  case (reach_step s l)
  then show ?case by (simp add: mg_inv_step)
qed

section \<open>Lemmas: agreement\<close>

definition live_agrees :: "manager \<Rightarrow> bool" where
  "live_agrees s \<longleftrightarrow>
     (\<exists>c. mg_conn s = Some c \<and> mg_status s = StatusConnected \<and> agrees (mg_logs s c) (mg_subs s))"

lemma subscription_agrees:
  assumes "live_agrees s" "subs_ok (mg_subs s)"
  shows "live_agrees (subscription_step op s)"
proof -
  obtain c where c: "mg_conn s = Some c" "mg_status s = StatusConnected" "agrees (mg_logs s c) (mg_subs s)"
    using assms(1) by (auto simp: live_agrees_def)
  obtain s1 now later where a: "apply_op op (mg_subs s) = (s1, now, later)" by (metis prod_cases3)
  define u where "u = fold send now (s\<lparr>mg_subs := s1\<rparr>)"
  have u: "mg_conn u = Some c" "mg_status u = StatusConnected" "mg_logs u c = mg_logs s c @ now"
    using same_but_logsD [OF fold_send_same [of "s\<lparr>mg_subs := s1\<rparr>" now]] c
    by (simp_all add: u_def fold_send_connected [of _ c] fold_write_log)
  have "mg_logs (subscription_step op s) c = mg_logs s c @ now @ later"
    using u by (simp add: subscription_step_def a u_def [symmetric] fold_sendWhen_connected
        fold_send_connected [of _ c] fold_write_log)
  moreover have "agrees (mg_logs s c @ now @ later) s1"
    using agrees_sent [OF c(3), of "now @ later" s1] op_told [OF assms(2), of _ op]
    by (simp add: sent_connected_def a)
  ultimately show ?thesis using c a by (auto simp: live_agrees_def subscription_frame)
qed

lemma agrees_silent:
  "agrees lg s \<Longrightarrow> (\<And>t. says m t = None) \<Longrightarrow> agrees (lg @ [m]) s"
  by (simp add: agrees_def told_append)

text \<open>Steps during which the registry and the live connection move together.\<close>

fun ordinary :: "label \<Rightarrow> bool" where
  "ordinary (LSubscribe op) = True"
| "ordinary (LRequest r) = True"
| "ordinary (LDropRequest r) = True"
| "ordinary LRotate = True"
| "ordinary LEnsure = True"
| "ordinary (LMessage c f) = (case f of Authenticated r \<Rightarrow> False | _ \<Rightarrow> True)"
| "ordinary _ = False"

lemma live_agrees_cong:
  "mg_subs s' = mg_subs s \<Longrightarrow> mg_conn s' = mg_conn s \<Longrightarrow> mg_status s' = mg_status s \<Longrightarrow>
   mg_logs s' = mg_logs s \<Longrightarrow> live_agrees s' = live_agrees s"
  by (simp add: live_agrees_def)

lemma ordinary_agrees: "live_agrees s \<Longrightarrow> mg_inv s \<Longrightarrow> ordinary l \<Longrightarrow> live_agrees (step l s)"
proof (cases l)
  case (LSubscribe op)
  assume "live_agrees s" "mg_inv s"
  then show ?thesis using LSubscribe subscription_agrees by (simp add: mg_inv_def)
next
  case (LMessage c f)
  assume "live_agrees s" "ordinary l"
  then show ?thesis using LMessage
    by (cases f) (auto simp: handleMessage_def emitGap_def checkGap_def resolvePending_def Let_def
        live_agrees_def split: option.splits)
qed (auto simp: EnsureConnected_def registerPending_def resolvePending_def RotateConnection_def Let_def
    live_agrees_def)

lemma onAuthenticated_agrees:
  assumes c: "mg_conn s = Some c" and ok: "subs_ok (mg_subs s)" and d: "mg_deferred s = []"
    and fresh: "\<And>t. told (mg_logs s c) t = Off"
  shows "live_agrees (onAuthenticated r s)"
proof -
  define s1 where "s1 = setStatusLocked StatusConnected
      ((readServerLifetime r s)\<lparr>mg_latest := [], mg_lastDeliverySeq := 0\<rparr>)"
  have "onAuthenticated r s = (scheduleRotation 0 (resubscribe_conn c s1))\<lparr>mg_deferred := []\<rparr>"
    using c d by (simp add: onAuthenticated_def Let_def s1_def resubscribe_conn_frame)
  then have lg: "mg_logs (onAuthenticated r s) c = mg_logs s c @ resubscribe (path_rid s1) (mg_subs s)"
    by (simp add: resubscribe_conn_log) (simp add: s1_def)
  have "agrees (mg_logs s c @ resubscribe (path_rid s1) (mg_subs s)) (mg_subs s)"
    using told_resubscribe [OF ok, unfolded told_def] fresh by (simp add: agrees_def told_append)
  then show ?thesis using lg c by (simp add: live_agrees_def onAuthenticated_frame)
qed

lemma exec_simps [simp]: "exec [] s = s" "exec (l # ls) s = exec ls (step l s)"
  by (simp_all add: exec_def)

lemma reach_exec: "reach lifetime s \<Longrightarrow> reach lifetime (exec ls s)"
  by (induction ls arbitrary: s) (auto intro: reach_step)

lemma exec_ordinary_agrees:
  "live_agrees s \<Longrightarrow> mg_inv s \<Longrightarrow> list_all ordinary ls \<Longrightarrow> live_agrees (exec ls s)"
  by (induction ls arbitrary: s) (auto simp: ordinary_agrees mg_inv_step)

section \<open>Lemmas: rotation\<close>

fun rotation_label :: "label \<Rightarrow> bool" where
  "rotation_label LRotate = True"
| "rotation_label (LWarmDialed h) = True"
| "rotation_label (LWarmMessage h f) = True"
| "rotation_label (LWarmFailed h) = True"
| "rotation_label (LPromoteTimer h) = True"
| "rotation_label _ = False"

text \<open>What a rotation step may do to consumers: nothing, or a swap to an open connection.\<close>

definition seamless :: "manager \<Rightarrow> manager \<Rightarrow> bool" where
  "seamless s s' \<longleftrightarrow>
     mg_status s' = mg_status s \<and> mg_statusLog s' = mg_statusLog s \<and> mg_gaps s' = mg_gaps s
     \<and> mg_subs s' = mg_subs s
     \<and> (mg_conn s' = mg_conn s
        \<or> (mg_lastDeliverySeq s' = 0 \<and> mg_gen s' = mg_gen s + 1
           \<and> (\<exists>c'. mg_conn s' = Some c')
           \<and> (case mg_conn s of Some c \<Rightarrow> c \<in> set (mg_closed s') | None \<Rightarrow> True)))"

lemma schedule_more [simp]:
  "mg_lastDeliverySeq (scheduleRotation d s) = mg_lastDeliverySeq s" "mg_gen (scheduleRotation d s) = mg_gen s"
  "mg_pending (scheduleRotation d s) = mg_pending s"
  by (simp_all add: scheduleRotation_def cancelRotationLocked_def Let_def)

lemma closeConn_more [simp]:
  "mg_lastDeliverySeq (closeConn c s) = mg_lastDeliverySeq s" "mg_gen (closeConn c s) = mg_gen s"
  "mg_pending (closeConn c s) = mg_pending s"
  by (simp_all add: closeConn_def split: option.split)

lemma seamless_refl [simp]: "seamless s s"
  by (simp add: seamless_def)

lemma seamless_promote: "seamless s (promoteHandoff hid s)"
  by (auto simp: promoteHandoff_def seamless_def split: option.split)

lemma seamless_abandon: "seamless s (abandon hid s)"
  by (auto simp: abandon_def abortHandoffIf_def seamless_def split: option.split)

lemma seamless_clear: "seamless (clearHandoffTimeout hid s) s' \<Longrightarrow> seamless s s'"
  by (auto simp: clearHandoffTimeout_def seamless_def split: option.splits if_splits)

lemma seamless_warm: "seamless s (handleWarmMessage hid f s)"
proof -
  have "seamless s (writeJSON c PingMessage (resubscribe_conn c (readServerLifetime r s)))" for c r
    by (simp add: seamless_def writeJSON_def resubscribe_conn_frame)
  then show ?thesis
    using seamless_abandon [of s hid] seamless_clear [OF seamless_promote [of "clearHandoffTimeout hid s" hid]]
    by (simp add: handleWarmMessage_def split: option.split frame.split)
qed

lemma seamless_step: "rotation_label l \<Longrightarrow> seamless s (step l s)"
proof (cases l)
  case (LWarmDialed hid)
  then show ?thesis
    by (auto simp: warmDialed_def seamless_def writeJSON_def Let_def split: option.split)
next
  case LRotate
  then show ?thesis by (simp add: RotateConnection_def seamless_def)
qed (auto simp: seamless_warm seamless_abandon seamless_promote)

text \<open>Promotion is postponed while requests are pending, but not for ever.\<close>

lemma promote_retries:
  assumes "mg_handoff s = Some h" "ho_id h = hid" "ho_conn h = Some c"
    "ho_attempts h + k = wsPromoteMaxAttempts"
  shows "\<exists>n \<le> Suc k. mg_conn (exec (replicate n (LPromoteTimer hid)) s) = Some c
     \<and> mg_handoff (exec (replicate n (LPromoteTimer hid)) s) = None"
  using assms
proof (induction k arbitrary: s h)
  case 0
  then show ?case by (intro exI [of _ 1]) (simp add: promoteHandoff_def)
next
  case (Suc k)
  show ?case
  proof (cases "mg_pending s = []")
    case True
    then show ?thesis using Suc.prems by (intro exI [of _ 1]) (simp add: promoteHandoff_def)
  next
    case False
    define h' where "h' = h\<lparr>ho_attempts := ho_attempts h + 1, ho_promote := True\<rparr>"
    have st: "step (LPromoteTimer hid) s = s\<lparr>mg_handoff := Some h'\<rparr>"
      using Suc.prems False by (simp add: promoteHandoff_def h'_def)
    have "\<exists>n \<le> Suc k. mg_conn (exec (replicate n (LPromoteTimer hid)) (s\<lparr>mg_handoff := Some h'\<rparr>)) = Some c
        \<and> mg_handoff (exec (replicate n (LPromoteTimer hid)) (s\<lparr>mg_handoff := Some h'\<rparr>)) = None"
      by (rule Suc.IH [of _ h']) (use Suc.prems in \<open>simp_all add: h'_def\<close>)
    then obtain n where "n \<le> Suc k"
      "mg_conn (exec (replicate n (LPromoteTimer hid)) (step (LPromoteTimer hid) s)) = Some c"
      "mg_handoff (exec (replicate n (LPromoteTimer hid)) (step (LPromoteTimer hid) s)) = None"
      unfolding st by blast
    then show ?thesis by (intro exI [of _ "Suc n"]) simp
  qed
qed

section \<open>Lemmas: gaps\<close>

definition deliver :: "int list \<Rightarrow> manager \<Rightarrow> manager" where
  "deliver seqs s = fold (\<lambda>n. handleMessage (EventFrame (Some n))) seqs s"

lemma deliver_gaps:
  "0 < mg_lastDeliverySeq s \<Longrightarrow> sorted_wrt (<) (mg_lastDeliverySeq s # seqs) \<Longrightarrow>
   \<exists>gs. mg_gaps (deliver seqs s) = mg_gaps s @ gs \<and> list_all (\<lambda>g. 0 < g) gs
     \<and> sum_list gs = last (mg_lastDeliverySeq s # seqs) - mg_lastDeliverySeq s - int (length seqs)"
proof (induction seqs arbitrary: s)
  case (Cons n seqs)
  define s1 where "s1 = checkGap n s"
  have l1: "mg_lastDeliverySeq s1 = n" by (simp add: s1_def checkGap_def Let_def emitGap_def)
  have d: "deliver (n # seqs) s = deliver seqs s1" by (simp add: deliver_def handleMessage_def s1_def)
  have n: "mg_lastDeliverySeq s < n" using Cons.prems by simp
  obtain g1 where g1: "mg_gaps s1 = mg_gaps s @ g1" "list_all (\<lambda>g. 0 < g) g1"
    "sum_list g1 = n - mg_lastDeliverySeq s - 1"
  proof (cases "mg_lastDeliverySeq s + 1 < n")
    case True
    then show ?thesis using that [of "[n - mg_lastDeliverySeq s - 1]"] Cons.prems(1)
      by (simp add: s1_def checkGap_def Let_def emitGap_def)
  next
    case False
    then show ?thesis using that [of "[]"] n by (simp add: s1_def checkGap_def Let_def)
  qed
  obtain gs where gs: "mg_gaps (deliver seqs s1) = mg_gaps s1 @ gs" "list_all (\<lambda>g. 0 < g) gs"
    "sum_list gs = last (n # seqs) - n - int (length seqs)"
    using Cons.IH [of s1] Cons.prems n l1 by auto
  show ?case using d g1 gs by (intro exI [of _ "g1 @ gs"]) simp
qed (simp add: deliver_def)

section \<open>Properties\<close>


definition start_up :: "label list" where
  "start_up = [LEnsure, LBegin 1, LDialed 1, LMessage 0 (Authenticated None)]"


text \<open>Authentication brings a fresh connection up to date and it stays so: when a connection on which
  nothing was subscribed authenticates with no deferred message waiting, then after any number of
  subscription changes, requests, event frames and rotation starts the live connection has been told
  exactly what the registry holds.\<close>

theorem authenticated_session_agrees:
  assumes "mg_inv s" "mg_conn s = Some c" "mg_deferred s = []" "\<forall>t. told (mg_logs s c) t = Off"
    "list_all ordinary ls"
  shows "live_agrees (exec ls (onAuthenticated reported s))"
proof -
  have "live_agrees (onAuthenticated reported s)"
    using assms by (intro onAuthenticated_agrees [of s c]) (simp_all add: mg_inv_def)
  moreover have "mg_inv (onAuthenticated reported s)"
    using mg_inv_message [OF assms(1), of "Authenticated reported"] by (simp add: handleMessage_def)
  ultimately show ?thesis using assms(5) by (rule exec_ordinary_agrees)
qed

theorem authenticated_session_agrees_witness:
  "live_agrees (exec [LSubscribe (AcquireTrades [''BTC'']), LMessage 0 (EventFrame (Some 7)), LSubscribe (Watch ''/a'' ''r'')]
      (onAuthenticated None (exec [LEnsure, LBegin 1, LDialed 1] (newWebSocketManager 0))))"
proof -
  let ?s = "exec [LEnsure, LBegin 1, LDialed 1] (newWebSocketManager 0)"
  have "mg_inv ?s" by (rule reach_inv [OF reach_exec [OF reach_init]])
  moreover have "mg_conn ?s = Some 0" "mg_deferred ?s = []" "mg_logs ?s 0 = [AuthMessage]" by code_simp+
  ultimately show ?thesis by (intro authenticated_session_agrees [of ?s 0]) (simp_all add: told_def)
qed

text \<open>C13: a rotation is invisible to consumers: no step of a rotation (starting it, dialling, any message on the
  warming connection, its failure, a promotion or its retry) changes the status, notifies a status
  listener, reports a gap or alters the registry; the live connection stays, or is swapped for an open
  one while the old one is closed, its generation retired and the sequence cursor reset.\<close>

theorem rotation_is_seamless:
  assumes "rotation_label l"
  shows "mg_status (step l s) = mg_status s \<and> mg_statusLog (step l s) = mg_statusLog s
    \<and> mg_gaps (step l s) = mg_gaps s \<and> mg_subs (step l s) = mg_subs s
    \<and> (mg_conn (step l s) = mg_conn s
       \<or> (mg_lastDeliverySeq (step l s) = 0 \<and> mg_gen (step l s) = mg_gen s + 1
          \<and> (\<exists>c'. mg_conn (step l s) = Some c')
          \<and> (case mg_conn s of Some c \<Rightarrow> c \<in> set (mg_closed (step l s)) | None \<Rightarrow> True)))"
  using seamless_step [OF assms, of s] by (simp add: seamless_def)

theorem rotation_is_seamless_witness:
  "mg_statusLog (step (LWarmMessage 1 Pong)
      (exec (start_up @ [LRotate, LWarmDialed 1, LWarmMessage 1 (Authenticated None)]) (newWebSocketManager 0)))
    = [StatusConnecting, StatusConnected]"
proof -
  let ?s = "exec (start_up @ [LRotate, LWarmDialed 1, LWarmMessage 1 (Authenticated None)]) (newWebSocketManager 0)"
  have "mg_statusLog ?s = [StatusConnecting, StatusConnected]" by code_simp
  then show ?thesis using rotation_is_seamless [of "LWarmMessage 1 Pong" ?s] by simp
qed

text \<open>A warmed connection does take over: requests in flight postpone the promotion, but after at most
  twenty-one attempts the warming connection is the live one and the handoff is over.\<close>

theorem promotion_happens:
  assumes "mg_handoff s = Some h" "ho_conn h = Some c" "ho_attempts h \<le> wsPromoteMaxAttempts"
  shows "\<exists>n \<le> wsPromoteMaxAttempts + 1.
     mg_conn (exec (replicate n (LPromoteTimer (ho_id h))) s) = Some c
     \<and> mg_handoff (exec (replicate n (LPromoteTimer (ho_id h))) s) = None"
proof -
  have "ho_attempts h + (wsPromoteMaxAttempts - ho_attempts h) = wsPromoteMaxAttempts" using assms(3) by simp
  from promote_retries [OF assms(1) refl assms(2) this] obtain n where
    "n \<le> Suc (wsPromoteMaxAttempts - ho_attempts h)"
    "mg_conn (exec (replicate n (LPromoteTimer (ho_id h))) s) = Some c"
    "mg_handoff (exec (replicate n (LPromoteTimer (ho_id h))) s) = None" by blast
  then show ?thesis by (intro exI [of _ n]) auto
qed

theorem promotion_happens_witness:
  "\<exists>n \<le> wsPromoteMaxAttempts + 1.
     mg_conn (exec (replicate n (LPromoteTimer 1))
       (exec (start_up @ [LRequest ''7'', LRotate, LWarmDialed 1]) (newWebSocketManager 0))) = Some 2"
proof -
  let ?s = "exec (start_up @ [LRequest ''7'', LRotate, LWarmDialed 1]) (newWebSocketManager 0)"
  let ?h = "\<lparr>ho_id = 1, ho_gen = 1, ho_conn = Some 2, ho_timeout = True, ho_promote = False, ho_attempts = 0\<rparr>"
  have h: "mg_handoff ?s = Some ?h" by code_simp
  have "ho_conn ?h = Some 2" "ho_attempts ?h \<le> wsPromoteMaxAttempts" by simp_all
  from promotion_happens [OF h this] show ?thesis by auto
qed

text \<open>A superseded connect loop is inert: once its generation is no longer current, beginning or ending an
  attempt changes nothing and tells the loop to exit, and a connection it still manages to dial is closed
  without touching the live one. Reconnecting, disconnecting and promoting each retire the previous
  generation.\<close>

theorem superseded_loop_inert:
  assumes "mg_gen s \<noteq> gen"
  shows "beginAttempt gen s = (False, s) \<and> endAttempt gen s = (False, s)
    \<and> mg_conn (dialed gen s) = mg_conn s \<and> mg_status (dialed gen s) = mg_status s
    \<and> mg_nextConn s \<in> set (mg_closed (dialed gen s))
    \<and> mg_gen (Disconnect s) = mg_gen s + 1"
  using assms
  by (auto simp: beginAttempt_def endAttempt_def clearConnectingLocked_def dialed_def Let_def Disconnect_def
      takeHandoffLocked_def cancelRotationLocked_def setStatusLocked_def split: option.split)

theorem superseded_loop_inert_witness:
  "beginAttempt 1 (exec (start_up @ [LReconnect]) (newWebSocketManager 0)) =
     (False, exec (start_up @ [LReconnect]) (newWebSocketManager 0))"
proof -
  have "mg_gen (exec (start_up @ [LReconnect]) (newWebSocketManager 0)) \<noteq> 1" by code_simp
  from superseded_loop_inert [OF this] show ?thesis by simp
qed

text \<open>Reported gaps count exactly the missed events: when event frames arrive with increasing delivery
  sequence numbers after a first one, every reported gap is positive and their sum is the number of
  sequence numbers skipped; in particular nothing is reported when none was skipped.\<close>

theorem gaps_count_missed_events:
  assumes "0 < mg_lastDeliverySeq s" "sorted_wrt (<) (mg_lastDeliverySeq s # seqs)"
  shows "\<exists>gs. mg_gaps (deliver seqs s) = mg_gaps s @ gs \<and> list_all (\<lambda>g. 0 < g) gs
     \<and> sum_list gs = last (mg_lastDeliverySeq s # seqs) - mg_lastDeliverySeq s - int (length seqs)"
  using deliver_gaps [OF assms] .

theorem gaps_count_missed_events_witness:
  "\<exists>gs. mg_gaps (deliver [8, 12, 13] (deliver [7] (newWebSocketManager 0))) = gs \<and> sum_list gs = 3"
proof -
  have s: "mg_lastDeliverySeq (deliver [7] (newWebSocketManager 0)) = 7" "mg_gaps (deliver [7] (newWebSocketManager 0)) = []"
    by code_simp+
  from gaps_count_missed_events [of "deliver [7] (newWebSocketManager 0)" "[8, 12, 13]"]
  show ?thesis by (simp add: s)
qed

text \<open>A subscription taken while a rotation is between its resubscription batch and its promotion is lost:
  there is a run in which the manager ends connected, holding a path watch, on a live connection that
  was never told to watch that path.\<close>

theorem rotation_window_loses_subscription:
  "let s = exec (start_up @ [LRotate, LWarmDialed 1, LWarmMessage 1 (Authenticated None),
                   LSubscribe (Watch ''/a'' ''watch-1''), LWarmMessage 1 Pong]) (newWebSocketManager 0) in
     mg_status s = StatusConnected \<and> mg_conn s = Some 2
     \<and> wanted (mg_subs s) (PathTopic ''/a'') = Watched \<and> told (mg_logs s 2) (PathTopic ''/a'') = Off"
  by code_simp

text \<open>An event type subscribed and released while the connection is still coming up is subscribed on the
  server all the same: the deferred subscription is sent after authentication although nobody holds the
  type.\<close>

theorem deferred_subscription_outlives_release:
  "let s = exec [LEnsure, LSubscribe (SubEvents [''fill.recorded'']), LSubscribe (UnsubEvents [''fill.recorded'']),
                 LBegin 1, LDialed 1, LMessage 0 (Authenticated None)] (newWebSocketManager 0) in
     mg_conn s = Some 0 \<and> wanted (mg_subs s) (EventTopic ''fill.recorded'') = Off
     \<and> told (mg_logs s 0) (EventTopic ''fill.recorded'') = Watched"
  by code_simp

end
