(* ===== verification/Order_Stream.thy ===== *)
theory Order_Stream
  imports Receipts Subscriptions
begin

text \<open>
  The order stream (\<^verbatim>\<open>order_stream.go\<close>): the capture of an order's events that starts before the order is
  submitted, its bounded replay buffer, the listeners it feeds, and the lease on the event types it
  holds.  A listener is its number; what a listener is called with is part of the result of a step.
  Each critical section, with the calls that follow it, is one step.
\<close>

section \<open>State\<close>

definition EventOperationUpdated :: gostring where "EventOperationUpdated = ''operation.updated''"
definition EventOrderUpdated :: gostring where "EventOrderUpdated = ''order.updated''"
definition EventFillPreviewed :: gostring where "EventFillPreviewed = ''fill.previewed''"

definition orderStreamEvents :: "gostring list" where
  "orderStreamEvents = [EventOperationUpdated, EventOrderUpdated, EventFillPreviewed, EventFillRecorded]"

text \<open>
  \<^verbatim>\<open>st_registered\<close> is membership in the client's set of streams, \<^verbatim>\<open>st_attached\<close> that the socket handlers
  are registered, \<^verbatim>\<open>st_cancelled\<close> that the stream's context is done, \<^verbatim>\<open>st_released\<close> that the goroutine
  \<^verbatim>\<open>stop\<close> starts has run.
\<close>

record orderStream =
  st_replay :: "RealmEvent list"
  st_listeners :: "int list"
  st_next :: int
  st_ready :: bool
  st_readyErr :: "error option"
  st_objectID :: gostring
  st_operationID :: gostring
  st_orderID :: gostring
  st_stopped :: bool
  st_registered :: bool
  st_attached :: bool
  st_cancelled :: bool
  st_watchStarted :: bool
  st_released :: bool

type_synonym deliveries = "(int \<times> RealmEvent) list"

section \<open>Operations\<close>

definition newOrderStream :: "gostring \<Rightarrow> orderStream" where
  "newOrderStream objectID =
     \<lparr>st_replay = [], st_listeners = [], st_next = 0, st_ready = False, st_readyErr = None,
      st_objectID = objectID, st_operationID = [], st_orderID = [], st_stopped = False,
      st_registered = True, st_attached = True, st_cancelled = False, st_watchStarted = False,
      st_released = False\<rparr>"

text \<open>The goroutine of \<^verbatim>\<open>newOrderStream\<close>: readiness fails, or the types are subscribed and then confirmed.\<close>

definition start_failed :: "error \<Rightarrow> orderStream \<Rightarrow> orderStream" where
  "start_failed err s = s\<lparr>st_readyErr := Some err, st_ready := True\<rparr>"

definition start_watch :: "orderStream \<Rightarrow> subs \<Rightarrow> orderStream \<times> sub_result" where
  "start_watch s sb = (s\<lparr>st_watchStarted := True\<rparr>, subscribeEvents orderStreamEvents sb)"

definition watch_confirmed :: "error option \<Rightarrow> orderStream \<Rightarrow> orderStream" where
  "watch_confirmed err s = s\<lparr>st_readyErr := err, st_ready := True\<rparr>"

definition stop :: "orderStream \<Rightarrow> orderStream" where
  "stop s =
     (if st_stopped s then s
      else s\<lparr>st_stopped := True, st_cancelled := True, st_registered := False, st_attached := False\<rparr>)"

definition release_lease :: "orderStream \<Rightarrow> subs \<Rightarrow> orderStream \<times> sub_result" where
  "release_lease s sb =
     (s\<lparr>st_released := True\<rparr>,
      if st_watchStarted s then unsubscribeEvents orderStreamEvents sb else (sb, [], []))"

definition foreign :: "orderStream \<Rightarrow> RealmEvent \<Rightarrow> bool" where
  "foreign s e \<longleftrightarrow>
     re_Order e \<noteq> None \<and> re_EntityID e \<noteq> st_objectID s
     \<or> st_operationID s \<noteq> []
         \<and> (case re_Operation e of Some o' \<Rightarrow> op_ID o' \<noteq> st_operationID s | None \<Rightarrow> False)
     \<or> st_orderID s \<noteq> [] \<and> (case re_Fill e of Some f \<Rightarrow> sf_OrderID f \<noteq> st_orderID s | None \<Rightarrow> False)"

definition capture :: "RealmEvent list \<Rightarrow> RealmEvent \<Rightarrow> RealmEvent list" where
  "capture replay e =
     (if length replay = 256 then take 255 (tl replay @ [last replay]) else replay) @ [e]"

text \<open>Whether an event ends the order; \<^const>\<open>None\<close> when deciding it panics.\<close>

definition order_ends :: "orderStream \<Rightarrow> RealmEvent \<Rightarrow> bool option" where
  "order_ends s e =
     (case re_Order e of
        None \<Rightarrow> Some False
      | Some ow \<Rightarrow>
          if so_ID (swf_Order ow) = st_orderID s \<and> isTerminalOrderStatus (so_Status (swf_Order ow))
          then map_option (\<lambda>d. fst d \<noteq> ''unknown'') (executionDisposition (swf_Order ow))
          else Some False)"

definition operation_over :: "gostring \<Rightarrow> Operation \<Rightarrow> bool option" where
  "operation_over objectID o' =
     map_option (\<lambda>r. r \<noteq> None \<or> op_State o' = OpFailed \<or> op_State o' = OpExpired)
       (operationExecution o' objectID)"

definition operation_ends :: "orderStream \<Rightarrow> RealmEvent \<Rightarrow> bool option" where
  "operation_ends s e =
     (case re_Operation e of
        None \<Rightarrow> Some False
      | Some o' \<Rightarrow>
          if st_operationID s \<noteq> [] \<and> op_ID o' = st_operationID s
          then operation_over (st_objectID s) o' else Some False)"

definition receive :: "RealmEvent \<Rightarrow> orderStream \<Rightarrow> (deliveries \<times> orderStream) option" where
  "receive e s =
     (if st_stopped s \<or> foreign s e then Some ([], s)
      else
        do {
          t1 \<leftarrow> order_ends s e;
          t2 \<leftarrow> operation_ends s e;
          let s1 = s\<lparr>st_replay := capture (st_replay s) e\<rparr>;
          Some (map (\<lambda>i. (i, e)) (st_listeners s), if t1 \<or> t2 then stop s1 else s1)
        })"

definition subscribe :: "orderStream \<Rightarrow> int \<times> deliveries \<times> orderStream" where
  "subscribe s =
     (let i = st_next s + 1 in
      (i, map (\<lambda>e. (i, e)) (st_replay s), s\<lparr>st_next := i, st_listeners := st_listeners s @ [i]\<rparr>))"

definition unsubscribe :: "int \<Rightarrow> orderStream \<Rightarrow> orderStream" where
  "unsubscribe i s = s\<lparr>st_listeners := removeAll i (st_listeners s)\<rparr>"

text \<open>
  \<^verbatim>\<open>awaitReady\<close>: \<^verbatim>\<open>ctxErr\<close> is the caller's context error when it is done.  The result is \<^const>\<open>None\<close> while
  neither the context nor the stream is done; when both are, the choice of \<^verbatim>\<open>select\<close> is \<^verbatim>\<open>pickCtx\<close>.
\<close>

definition awaitReady :: "bool \<Rightarrow> error option \<Rightarrow> orderStream \<Rightarrow> error option option" where
  "awaitReady pickCtx ctxErr s =
     (case ctxErr of
        Some err \<Rightarrow> if st_ready s \<and> \<not> pickCtx then Some (st_readyErr s) else Some (Some err)
      | None \<Rightarrow> if st_ready s then Some (st_readyErr s) else None)"

text \<open>\<^verbatim>\<open>submitted\<close>: the identity the response supplies, and the captured events rechecked against it.\<close>

definition outcome_order_id :: "Operation \<Rightarrow> gostring \<Rightarrow> gostring" where
  "outcome_order_id operation orderID =
     (case op_Outcome operation of
        None \<Rightarrow> orderID
      | Some t \<Rightarrow>
          (case Option.bind (text_fields t) (str_field ''orderId'') of Some i \<Rightarrow> i | None \<Rightarrow> orderID))"

definition replay_ends :: "Operation \<Rightarrow> gostring \<Rightarrow> gostring \<Rightarrow> RealmEvent \<Rightarrow> bool option" where
  "replay_ends operation objectID orderID e =
     do {
       t1 \<leftarrow> (case re_Operation e of
                Some o' \<Rightarrow> if op_ID o' = op_ID operation then operation_over objectID o' else Some False
              | None \<Rightarrow> Some False);
       (case re_Order e of
          Some ow \<Rightarrow>
            if \<not> t1 \<and> re_EntityID e = objectID \<and> orderID \<noteq> [] \<and> so_ID (swf_Order ow) = orderID
            then map_option (\<lambda>r. r \<noteq> None) (executionUpdate operation objectID (swf_Order ow))
            else Some t1
        | None \<Rightarrow> Some t1)
     }"

fun recheck :: "Operation \<Rightarrow> gostring \<Rightarrow> gostring \<Rightarrow> RealmEvent list \<Rightarrow> bool option" where
  "recheck operation objectID orderID [] = Some False"
| "recheck operation objectID orderID (e # es) =
     (case replay_ends operation objectID orderID e of
        None \<Rightarrow> None
      | Some True \<Rightarrow> Some True
      | Some False \<Rightarrow> recheck operation objectID orderID es)"

definition submitted :: "Operation \<Rightarrow> orderStream \<Rightarrow> orderStream option" where
  "submitted operation s =
     (case operationExecution operation (st_objectID s) of
        None \<Rightarrow> None
      | Some receipt \<Rightarrow>
          (let orderID = (case receipt of
                            Some r \<Rightarrow> so_ID (swf_Order r)
                          | None \<Rightarrow> outcome_order_id operation (st_orderID s));
               s1 = s\<lparr>st_operationID := op_ID operation, st_orderID := orderID\<rparr> in
           case (if receipt \<noteq> None then Some True
                 else recheck operation (st_objectID s) orderID (st_replay s)) of
             None \<Rightarrow> None
           | Some terminal \<Rightarrow>
               Some (if terminal \<or> op_State operation = OpFailed \<or> op_State operation = OpExpired
                     then stop s1 else s1)))"

text \<open>The wrapped submission call of \<^verbatim>\<open>captureOrderSubmission\<close>.\<close>

definition captureOrderSubmission :: "error + Operation \<Rightarrow> orderStream \<Rightarrow> orderStream option" where
  "captureOrderSubmission response s =
     (case response of Inl err \<Rightarrow> Some (stop s) | Inr operation \<Rightarrow> submitted operation s)"

section \<open>Runs of a stream\<close>

datatype stream_op =
    Receive RealmEvent | Subscribe | Unsubscribe int | Submission "error + Operation" | Stop

fun stream_step :: "stream_op \<Rightarrow> orderStream \<Rightarrow> (deliveries \<times> orderStream) option" where
  "stream_step (Receive e) s = receive e s"
| "stream_step Subscribe s = (case subscribe s of (i, ds, s') \<Rightarrow> Some (ds, s'))"
| "stream_step (Unsubscribe i) s = Some ([], unsubscribe i s)"
| "stream_step (Submission r) s = map_option (\<lambda>s'. ([], s')) (captureOrderSubmission r s)"
| "stream_step Stop s = Some ([], stop s)"

fun stream_run :: "stream_op list \<Rightarrow> orderStream \<Rightarrow> (deliveries \<times> orderStream) option" where
  "stream_run [] s = Some ([], s)"
| "stream_run (x # xs) s =
     (case stream_step x s of
        None \<Rightarrow> None
      | Some (ds, s') \<Rightarrow> map_option (\<lambda>(ds', s''). (ds @ ds', s'')) (stream_run xs s'))"

text \<open>The events a run captures: the received ones that find the stream running and are not foreign to it.\<close>

fun captured :: "stream_op list \<Rightarrow> orderStream \<Rightarrow> RealmEvent list" where
  "captured [] s = []"
| "captured (x # xs) s =
     (case x of Receive e \<Rightarrow> if st_stopped s \<or> foreign s e then [] else [e] | _ \<Rightarrow> [])
     @ (case stream_step x s of None \<Rightarrow> [] | Some (ds, s') \<Rightarrow> captured xs s')"

definition last_n :: "nat \<Rightarrow> 'a list \<Rightarrow> 'a list" where
  "last_n n xs = drop (length xs - n) xs"

definition heard :: "int \<Rightarrow> deliveries \<Rightarrow> RealmEvent list" where
  "heard i ds = map snd (filter (\<lambda>d. fst d = i) ds)"

lemma heard_simps [simp]:
  "heard i [] = []" "heard i (ds @ ds') = heard i ds @ heard i ds'"
  "heard i (map (\<lambda>e. (j, e)) es) = (if i = j then es else [])"
  by (auto simp: heard_def o_def)

lemma last_n_idem [simp]: "length xs \<le> n \<Longrightarrow> last_n n xs = xs"
  by (simp add: last_n_def)

lemma capture_last_n:
  assumes "length r \<le> 256"
  shows "capture r e = last_n 256 (r @ [e])" "length (capture r e) \<le> 256"
proof -
  show "capture r e = last_n 256 (r @ [e])"
  proof (cases "length r = 256")
    case True
    then have "take 255 (tl r @ [last r]) = tl r" by simp
    moreover have "drop 1 (r @ [e]) = tl r @ [e]" using True by (cases r) auto
    ultimately show ?thesis using True by (simp add: capture_def last_n_def)
  qed (use assms in \<open>simp add: capture_def last_n_def\<close>)
  then show "length (capture r e) \<le> 256" by (simp add: last_n_def)
qed

lemma last_n_last_n: "last_n n (last_n n xs @ ys) = last_n n (xs @ ys)"
proof (cases "length xs \<le> n")
  case False
  then have "length (last_n n xs) = n" by (simp add: last_n_def)
  with False show ?thesis by (simp add: last_n_def drop_append) (cases "length ys \<le> n"; simp add: add.commute)
qed simp

lemma stop_simps [simp]:
  "st_replay (stop s) = st_replay s" "st_listeners (stop s) = st_listeners s" "st_next (stop s) = st_next s"
  "st_stopped (stop s)" "st_objectID (stop s) = st_objectID s" "st_operationID (stop s) = st_operationID s"
  "st_orderID (stop s) = st_orderID s" "st_watchStarted (stop s) = st_watchStarted s"
  "st_ready (stop s) = st_ready s" "st_released (stop s) = st_released s"
  by (simp_all add: stop_def)

lemma receive_simps:
  assumes "receive e s = Some (ds, s')"
  shows "st_listeners s' = st_listeners s" "st_next s' = st_next s" "st_objectID s' = st_objectID s"
    "st_operationID s' = st_operationID s" "st_orderID s' = st_orderID s"
    "st_watchStarted s' = st_watchStarted s" "st_ready s' = st_ready s" "st_released s' = st_released s"
    "st_stopped s \<Longrightarrow> st_stopped s'"
    "st_replay s' = (if st_stopped s \<or> foreign s e then st_replay s else capture (st_replay s) e)"
    "ds = (if st_stopped s \<or> foreign s e then [] else map (\<lambda>i. (i, e)) (st_listeners s))"
  using assms by (auto simp: receive_def Let_def split: if_splits Option.bind_splits)

lemma submission_simps:
  assumes "captureOrderSubmission r s = Some s'"
  shows "st_listeners s' = st_listeners s" "st_next s' = st_next s" "st_objectID s' = st_objectID s"
    "st_watchStarted s' = st_watchStarted s" "st_ready s' = st_ready s" "st_released s' = st_released s"
    "st_replay s' = st_replay s" "st_stopped s \<Longrightarrow> st_stopped s'"
  using assms
  by (auto simp: captureOrderSubmission_def submitted_def Let_def split: sum.splits option.splits if_splits)

definition listeners_ok :: "orderStream \<Rightarrow> bool" where
  "listeners_ok s \<longleftrightarrow> distinct (st_listeners s) \<and> (\<forall>i \<in> set (st_listeners s). i \<le> st_next s) \<and> length (st_replay s) \<le> 256"

lemma listeners_ok_step:
  assumes "stream_step x s = Some (ds, s')" "listeners_ok s"
  shows "listeners_ok s'"
proof (cases x)
  case (Receive e)
  then show ?thesis using receive_simps [of e s ds s'] assms capture_last_n(2)
    by (auto simp: listeners_ok_def)
next
  case Subscribe
  then show ?thesis using assms by (fastforce simp: listeners_ok_def subscribe_def Let_def)
next
  case (Submission r)
  then show ?thesis using submission_simps [of r s s'] assms by (auto simp: listeners_ok_def)
qed (use assms in \<open>auto simp: listeners_ok_def unsubscribe_def distinct_removeAll\<close>)

lemma stream_run_Cons:
  assumes "stream_run (x # xs) s = Some (ds, s'')"
  obtains ds1 s' ds2 where "stream_step x s = Some (ds1, s')" "stream_run xs s' = Some (ds2, s'')" "ds = ds1 @ ds2"
  using assms by (auto split: option.splits)

lemma listeners_ok_run:
  "stream_run xs s = Some (ds, s') \<Longrightarrow> listeners_ok s \<Longrightarrow> listeners_ok s'"
proof (induction xs arbitrary: s ds)
  case (Cons x xs)
  from Cons.prems(1) obtain ds1 s1 ds2 where "stream_step x s = Some (ds1, s1)" "stream_run xs s1 = Some (ds2, s')"
    by (rule stream_run_Cons)
  then show ?case using Cons.IH Cons.prems(2) listeners_ok_step by blast
qed simp

lemma replay_step:
  assumes "stream_step x s = Some (ds, s')" "listeners_ok s"
  shows "st_replay s' = last_n 256 (st_replay s @ captured [x] s)"
proof -
  have le: "length (st_replay s) \<le> 256" using assms(2) by (simp add: listeners_ok_def)
  show ?thesis
  proof (cases x)
    case (Receive e)
    then show ?thesis using receive_simps(10) [of e s ds s'] assms(1) le
      by (simp add: capture_last_n)
  next
    case Subscribe
    then show ?thesis using assms(1) le by (auto simp: subscribe_def Let_def)
  next
    case (Submission r)
    then show ?thesis using submission_simps(7) [of r s s'] assms(1) le by auto
  qed (use assms(1) le in \<open>auto simp: unsubscribe_def\<close>)
qed

lemma replay_run:
  "stream_run xs s = Some (ds, s') \<Longrightarrow> listeners_ok s
     \<Longrightarrow> st_replay s' = last_n 256 (st_replay s @ captured xs s)"
proof (induction xs arbitrary: s ds)
  case Nil
  then show ?case by (simp add: listeners_ok_def)
next
  case (Cons x xs)
  from Cons.prems(1) obtain ds1 s1 ds2 where a: "stream_step x s = Some (ds1, s1)" "stream_run xs s1 = Some (ds2, s')"
    by (rule stream_run_Cons)
  have c: "captured (x # xs) s = captured [x] s @ captured xs s1" using a(1) by simp
  show ?case
    unfolding Cons.IH [OF a(2) listeners_ok_step [OF a(1) Cons.prems(2)]] replay_step [OF a(1) Cons.prems(2)] c
    by (simp only: last_n_last_n append_assoc)
qed

lemma heard_copies:
  "distinct is \<Longrightarrow> heard i (map (\<lambda>i. (i, e)) is) = (if i \<in> set is then [e] else [])"
  by (induction "is") (auto simp: heard_def)

text \<open>A registered listener hears every captured event once, until it is removed.\<close>

lemma heard_step:
  assumes "stream_step x s = Some (ds, s')" "listeners_ok s" "i \<in> set (st_listeners s)" "x \<noteq> Unsubscribe i"
  shows "heard i ds = captured [x] s \<and> i \<in> set (st_listeners s')"
proof (cases x)
  case (Receive e)
  then show ?thesis using receive_simps [of e s ds s'] assms
    by (auto simp: listeners_ok_def heard_copies)
next
  case Subscribe
  have "i \<le> st_next s" using assms by (simp add: listeners_ok_def)
  then show ?thesis using assms Subscribe by (auto simp: subscribe_def Let_def)
next
  case (Submission r)
  then show ?thesis using submission_simps [of r s s'] assms by auto
qed (use assms in \<open>auto simp: unsubscribe_def\<close>)

lemma heard_run:
  "stream_run xs s = Some (ds, s') \<Longrightarrow> listeners_ok s \<Longrightarrow> i \<in> set (st_listeners s)
     \<Longrightarrow> Unsubscribe i \<notin> set xs \<Longrightarrow> heard i ds = captured xs s"
proof (induction xs arbitrary: s ds)
  case (Cons x xs)
  from Cons.prems(1) obtain ds1 s1 ds2 where a: "stream_step x s = Some (ds1, s1)" "stream_run xs s1 = Some (ds2, s')"
    "ds = ds1 @ ds2"
    by (rule stream_run_Cons)
  have h: "heard i ds1 = captured [x] s \<and> i \<in> set (st_listeners s1)"
    using heard_step [OF a(1) Cons.prems(2,3)] Cons.prems(4) by auto
  have "heard i ds2 = captured xs s1"
    using Cons.IH [OF a(2) listeners_ok_step [OF a(1) Cons.prems(2)]] h Cons.prems(4) by auto
  then show ?case using h a by simp
qed simp

lemma new_listeners_ok [simp]: "listeners_ok (newOrderStream objectID)"
  by (simp add: listeners_ok_def newOrderStream_def)

lemma newOrderStream_simps [simp]:
  "st_replay (newOrderStream objectID) = []" "st_objectID (newOrderStream objectID) = objectID"
  "st_operationID (newOrderStream objectID) = []" "st_orderID (newOrderStream objectID) = []"
  by (simp_all add: newOrderStream_def)

section \<open>Terminal updates end the stream\<close>

definition no_submission :: "stream_op list \<Rightarrow> bool" where
  "no_submission xs = list_all (\<lambda>x. case x of Submission r \<Rightarrow> False | _ \<Rightarrow> True) xs"

lemma no_submission_simps [simp]:
  "no_submission []" "no_submission (x # xs) \<longleftrightarrow> (\<forall>r. x \<noteq> Submission r) \<and> no_submission xs"
  by (auto simp: no_submission_def split: stream_op.splits)

lemma stopped_step: "stream_step x s = Some (ds, s') \<Longrightarrow> st_stopped s \<Longrightarrow> st_stopped s'"
  by (cases x) (auto simp: receive_def subscribe_def unsubscribe_def Let_def intro: submission_simps(8))

lemma stopped_run: "stream_run xs s = Some (ds, s') \<Longrightarrow> st_stopped s \<Longrightarrow> st_stopped s'"
proof (induction xs arbitrary: s ds)
  case (Cons x xs)
  from Cons.prems(1) show ?case
    by (rule stream_run_Cons) (use Cons stopped_step in blast)
qed simp

lemma identity_step:
  assumes "stream_step x s = Some (ds, s')" "\<forall>r. x \<noteq> Submission r"
  shows "st_operationID s' = st_operationID s \<and> st_orderID s' = st_orderID s \<and> st_objectID s' = st_objectID s"
  using assms receive_simps(3,4,5) [of _ s ds s']
  by (cases x) (auto simp: subscribe_def unsubscribe_def Let_def)

lemma identity_run:
  "stream_run xs s = Some (ds, s') \<Longrightarrow> no_submission xs
     \<Longrightarrow> st_operationID s' = st_operationID s \<and> st_orderID s' = st_orderID s \<and> st_objectID s' = st_objectID s"
proof (induction xs arbitrary: s ds)
  case (Cons x xs)
  from Cons.prems(1) obtain ds1 s1 ds2 where a: "stream_step x s = Some (ds1, s1)" "stream_run xs s1 = Some (ds2, s')"
    by (rule stream_run_Cons)
  show ?case using Cons.IH [OF a(2)] identity_step [OF a(1)] Cons.prems(2) by simp
qed simp

text \<open>An operation's terminal update: it failed or expired, or it carries authoritative evidence.\<close>

definition ends_operation :: "gostring \<Rightarrow> gostring \<Rightarrow> RealmEvent \<Rightarrow> bool" where
  "ends_operation objectID operationID e =
     (case re_Operation e of
        None \<Rightarrow> False
      | Some o' \<Rightarrow>
          op_ID o' = operationID \<and> re_Fill e = None \<and> (re_Order e \<noteq> None \<longrightarrow> re_EntityID e = objectID)
          \<and> (op_State o' = OpFailed \<or> op_State o' = OpExpired
             \<or> (\<exists>r. operationExecution o' objectID = Some (Some r))))"

lemma operation_over_terminal:
  "ends_operation objectID operationID e \<Longrightarrow> re_Operation e = Some o' \<Longrightarrow>
     operation_over objectID o' = Some True"
  by (auto simp: ends_operation_def operation_over_def operationExecution_def op_state_defs)

lemma receive_terminal:
  assumes "receive e s = Some (ds, s')" "ends_operation (st_objectID s) (st_operationID s) e" "st_operationID s \<noteq> []"
  shows "st_stopped s'"
proof -
  obtain o' where o: "re_Operation e = Some o'" "op_ID o' = st_operationID s"
    using assms(2) by (auto simp: ends_operation_def split: option.splits)
  have "operation_ends s e = Some True"
    using o assms(3) operation_over_terminal [OF assms(2) o(1)] by (simp add: operation_ends_def)
  moreover have "\<not> foreign s e"
    using assms(2) o by (auto simp: foreign_def ends_operation_def split: option.splits)
  ultimately show ?thesis
    using assms(1) by (auto simp: receive_def Let_def split: if_splits Option.bind_splits)
qed

lemma recheck_terminal:
  "recheck operation objectID orderID es = Some b \<Longrightarrow> e \<in> set es
     \<Longrightarrow> ends_operation objectID (op_ID operation) e \<Longrightarrow> b"
proof (induction es)
  case (Cons e' es)
  show ?case
  proof (cases "e' = e")
    case True
    obtain o' where o: "re_Operation e = Some o'" "op_ID o' = op_ID operation"
      using Cons.prems(3) by (auto simp: ends_operation_def split: option.splits)
    have "replay_ends operation objectID orderID e = Some True"
      using o operation_over_terminal [OF Cons.prems(3) o(1)]
      by (auto simp: replay_ends_def split: option.split)
    then show ?thesis using Cons.prems True by simp
  qed (use Cons in \<open>auto split: option.splits bool.splits\<close>)
qed simp

lemma submitted_terminal:
  assumes "submitted operation s = Some s'" "e \<in> set (st_replay s)"
    "ends_operation (st_objectID s) (op_ID operation) e"
  shows "st_stopped s'"
  using assms recheck_terminal [OF _ assms(2,3)]
  by (auto simp: submitted_def Let_def split: option.splits if_splits)

lemma submitted_identity_kept:
  "submitted operation s = Some s' \<Longrightarrow> st_operationID s' = op_ID operation \<and> st_objectID s' = st_objectID s"
  by (auto simp: submitted_def Let_def split: option.splits if_splits)

lemma run_terminal:
  "stream_run xs s = Some (ds, s') \<Longrightarrow> no_submission xs \<Longrightarrow> Receive e \<in> set xs
     \<Longrightarrow> ends_operation (st_objectID s) (st_operationID s) e \<Longrightarrow> st_operationID s \<noteq> [] \<Longrightarrow> st_stopped s'"
proof (induction xs arbitrary: s ds)
  case (Cons x xs)
  from Cons.prems(1) obtain ds1 s1 ds2 where a: "stream_step x s = Some (ds1, s1)" "stream_run xs s1 = Some (ds2, s')"
    by (rule stream_run_Cons)
  show ?case
  proof (cases "x = Receive e")
    case True
    then show ?thesis using receive_terminal Cons.prems a stopped_run by (metis stream_step.simps(1))
  next
    case False
    then show ?thesis using Cons.IH [OF a(2)] identity_step [OF a(1)] Cons.prems by auto
  qed
qed simp

text \<open>Before the submission nothing of the account is refused, so a run captures it or has stopped.\<close>

lemma captured_or_stopped:
  "stream_run xs s = Some (ds, s') \<Longrightarrow> no_submission xs \<Longrightarrow> Receive e \<in> set xs
     \<Longrightarrow> \<not> foreign s e \<Longrightarrow> st_stopped s' \<or> e \<in> set (captured xs s)"
proof (induction xs arbitrary: s ds)
  case (Cons x xs)
  from Cons.prems(1) obtain ds1 s1 ds2 where a: "stream_step x s = Some (ds1, s1)" "stream_run xs s1 = Some (ds2, s')"
    by (rule stream_run_Cons)
  show ?case
  proof (cases "x = Receive e")
    case True
    then show ?thesis using Cons.prems a stopped_step [OF a(1)] stopped_run [OF a(2)] by auto
  next
    case False
    have "\<not> foreign s1 e" using identity_step [OF a(1)] Cons.prems(2,4) by (auto simp: foreign_def split: option.splits)
    then show ?thesis using Cons.IH [OF a(2)] Cons.prems False a by auto
  qed
qed simp

lemma captured_length: "length (captured xs s) \<le> length xs"
proof (induction xs arbitrary: s)
  case (Cons x xs)
  show ?case
    using Cons.IH [of "snd (the (stream_step x s))"]
    by (cases x) (auto split: option.split)
qed simp

lemma stream_run_append:
  "stream_run (xs @ ys) s =
     (case stream_run xs s of
        None \<Rightarrow> None
      | Some (ds, s') \<Rightarrow> map_option (\<lambda>(ds', s''). (ds @ ds', s'')) (stream_run ys s'))"
  proof (induction xs arbitrary: s)
  case Nil
  then show ?case by (simp add: case_prod_beta option.map_id)
next
  case (Cons x xs)
  then show ?case by (auto split: option.splits simp: option.map_comp o_def case_prod_beta)
qed

section \<open>The lease on the event types\<close>

text \<open>
  The stream and the shared registry, with the references the other owners hold as a ghost count.  Other
  owners release only what they took; the stream's own goroutines run in any order the code allows.
\<close>

type_synonym lease_state = "orderStream \<times> subs \<times> (gostring \<Rightarrow> int)"

definition occurs :: "gostring list \<Rightarrow> gostring \<Rightarrow> int" where
  "occurs ts t = int (count_list ts t)"

inductive lease_step :: "lease_state \<Rightarrow> lease_state \<Rightarrow> bool" where
  ls_failed: "\<not> st_ready s \<Longrightarrow> \<not> st_watchStarted s \<Longrightarrow> lease_step (s, sb, oth) (start_failed err s, sb, oth)"
| ls_watch: "\<not> st_ready s \<Longrightarrow> \<not> st_watchStarted s \<Longrightarrow> start_watch s sb = (s', sb', now, later)
    \<Longrightarrow> lease_step (s, sb, oth) (s', sb', oth)"
| ls_confirmed: "\<not> st_ready s \<Longrightarrow> st_watchStarted s \<Longrightarrow> lease_step (s, sb, oth) (watch_confirmed err s, sb, oth)"
| ls_stop: "lease_step (s, sb, oth) (stop s, sb, oth)"
| ls_release: "st_stopped s \<Longrightarrow> st_ready s \<Longrightarrow> \<not> st_released s \<Longrightarrow> release_lease s sb = (s', sb', now, later)
    \<Longrightarrow> lease_step (s, sb, oth) (s', sb', oth)"
| ls_stream: "stream_step x s = Some (ds, s') \<Longrightarrow> lease_step (s, sb, oth) (s', sb, oth)"
| ls_other_take: "subscribeEvents ts sb = (sb', now, later)
    \<Longrightarrow> lease_step (s, sb, oth) (s, sb', \<lambda>t. oth t + occurs ts t)"
| ls_other_drop: "unsubscribeEvents ts sb = (sb', now, later) \<Longrightarrow> list_all (\<lambda>t. occurs ts t \<le> oth t) ts
    \<Longrightarrow> lease_step (s, sb, oth) (s, sb', \<lambda>t. oth t - occurs ts t)"

inductive_cases lease_stepE: "lease_step c c'"

inductive lease_reach :: "gostring \<Rightarrow> lease_state \<Rightarrow> bool" for objectID where
  lr_start: "lease_reach objectID (newOrderStream objectID, no_subs, \<lambda>t. 0)"
| lr_step: "lease_reach objectID c \<Longrightarrow> lease_step c c' \<Longrightarrow> lease_reach objectID c'"

definition holding :: "orderStream \<Rightarrow> gostring \<Rightarrow> int" where
  "holding s t = (if st_watchStarted s \<and> \<not> st_released s \<and> t \<in> set orderStreamEvents then 1 else 0)"

fun lease_inv :: "lease_state \<Rightarrow> bool" where
  "lease_inv (s, sb, oth) \<longleftrightarrow>
     ref_ok (sb_eventTypeSubs sb) \<and> (\<forall>t. 0 \<le> oth t)
     \<and> (\<forall>t. ref_get (sb_eventTypeSubs sb) t = oth t + holding s t)
     \<and> (st_released s \<longrightarrow> st_stopped s \<and> st_ready s)"

lemma add_types_count:
  "ref_ok r \<Longrightarrow> ref_ok (fst (add_types ts r)) \<and> ref_get (fst (add_types ts r)) t = ref_get r t + occurs ts t"
proof (induction ts arbitrary: r)
  case (Cons k ts)
  show ?case
    using Cons.IH [OF shared_refs.ok_acquire [OF Cons.prems, of k]] shared_refs.count_acquire [OF Cons.prems, of k t]
    by (auto simp: occurs_def split: prod.splits)
qed (simp add: occurs_def)

lemma drop_types_count:
  "ref_ok r \<Longrightarrow> ref_ok (fst (drop_types ts r))
     \<and> ref_get (fst (drop_types ts r)) t = max 0 (ref_get r t - occurs ts t)"
proof (induction ts arbitrary: r)
  case Nil
  then show ?case using ref_get_nonneg [of r t] by (simp add: occurs_def)
next
  case (Cons k ts)
  show ?case
    using Cons.IH [OF event_refs.ok_release [OF Cons.prems, of k]] event_refs.count_release [OF Cons.prems, of k t]
    by (auto simp: occurs_def split: prod.splits)
qed

lemma subscribeEvents_count:
  assumes "subscribeEvents ts sb = (sb', now, later)" "ref_ok (sb_eventTypeSubs sb)"
  shows "ref_ok (sb_eventTypeSubs sb')"
    "ref_get (sb_eventTypeSubs sb') t = ref_get (sb_eventTypeSubs sb) t + occurs ts t"
  using assms add_types_count [OF assms(2), of ts t]
  by (auto simp: subscribeEvents_def occurs_def split: if_splits prod.splits)

lemma unsubscribeEvents_count:
  assumes "unsubscribeEvents ts sb = (sb', now, later)" "ref_ok (sb_eventTypeSubs sb)"
  shows "ref_ok (sb_eventTypeSubs sb')"
    "ref_get (sb_eventTypeSubs sb') t = max 0 (ref_get (sb_eventTypeSubs sb) t - occurs ts t)"
  using assms drop_types_count [OF assms(2), of ts t]
  by (auto simp: unsubscribeEvents_def split: if_splits prod.splits)

lemma count_list_distinct: "distinct ts \<Longrightarrow> count_list ts t = (if t \<in> set ts then 1 else 0)"
  by (induction ts) auto

lemma occurs_stream_events: "occurs orderStreamEvents t = (if t \<in> set orderStreamEvents then 1 else 0)"
proof -
  have "distinct orderStreamEvents"
    by (simp add: orderStreamEvents_def EventOperationUpdated_def EventOrderUpdated_def
        EventFillPreviewed_def EventFillRecorded_def)
  then show ?thesis by (simp add: occurs_def count_list_distinct)
qed

lemma occurs_notin [simp]: "t \<notin> set ts \<Longrightarrow> occurs ts t = 0"
  by (simp add: occurs_def)

lemma stream_step_lease:
  assumes "stream_step x s = Some (ds, s')"
  shows "st_watchStarted s' = st_watchStarted s \<and> st_ready s' = st_ready s \<and> st_released s' = st_released s"
  using assms receive_simps(6,7,8) [of _ s ds s'] submission_simps(4,5,6) [of _ s s']
  by (cases x) (auto simp: subscribe_def unsubscribe_def Let_def)

lemma lease_inv_step: "lease_step c c' \<Longrightarrow> lease_inv c \<Longrightarrow> lease_inv c'"
proof (induction rule: lease_step.induct)
  case (ls_watch s sb s' sb' now later oth)
  then show ?case
    using subscribeEvents_count [of orderStreamEvents sb sb' now later]
    by (auto simp: start_watch_def holding_def occurs_stream_events)
next
  case (ls_release s sb s' sb' now later oth)
  then show ?case
    using unsubscribeEvents_count [of orderStreamEvents sb sb' now later]
    by (auto simp: release_lease_def holding_def occurs_stream_events split: if_splits)
next
  case (ls_stream x s ds s' sb oth)
  then show ?case
    using stream_step_lease [OF ls_stream.hyps] stopped_step [OF ls_stream.hyps]
    by (auto simp: holding_def)
next
  case (ls_other_take ts sb sb' now later s oth)
  then show ?case
    using subscribeEvents_count [OF ls_other_take.hyps] by (auto simp: occurs_def)
next
  case (ls_other_drop ts sb sb' now later oth s)
  have le: "occurs ts t \<le> oth t" for t
    using ls_other_drop by (cases "t \<in> set ts") (auto simp: list_all_iff)
  then show ?case
    using ls_other_drop unsubscribeEvents_count [OF ls_other_drop.hyps(1)]
    by (auto simp: holding_def le)
qed (auto simp: start_failed_def watch_confirmed_def holding_def)

lemma lease_reach_inv: "lease_reach objectID c \<Longrightarrow> lease_inv c"
proof (induction rule: lease_reach.induct)
  case lr_start
  then show ?case by (simp add: holding_def newOrderStream_def no_subs_def event_refs.ok_start event_refs.count_start)
next
  case (lr_step c c')
  then show ?case by (metis lease_inv_step)
qed

section \<open>Properties\<close>


text \<open>C15: The terminal update of an order's operation ends its stream whichever comes first, the update
  or the response of the submission: the captured events are rechecked once the identity is known
  (at most 256 steps may precede the response).\<close>
theorem terminal_update_ends_stream:
  assumes run: "stream_run (xs @ Submission (Inr operation) # ys) (newOrderStream objectID) = Some (ds, s)"
    and only: "no_submission xs" "no_submission ys" and bound: "length xs \<le> 256" and ID: "op_ID operation \<noteq> []"
    and e: "Receive e \<in> set xs \<union> set ys" "ends_operation objectID (op_ID operation) e"
  shows "st_stopped s"
proof -
  let ?s0 = "newOrderStream objectID"
  obtain ds1 s1 ds2 where a: "stream_run xs ?s0 = Some (ds1, s1)"
    "stream_run (Submission (Inr operation) # ys) s1 = Some (ds2, s)"
    using run by (auto simp: stream_run_append split: option.splits)
  obtain s2 ds3 where b: "submitted operation s1 = Some s2" "stream_run ys s2 = Some (ds3, s)"
    using a(2) by (auto simp: captureOrderSubmission_def split: option.splits)
  have o1: "st_objectID s1 = objectID" using identity_run [OF a(1) only(1)] by simp
  have stop2: "st_stopped s2 \<Longrightarrow> st_stopped s" by (rule stopped_run [OF b(2)])
  have stop1: "st_stopped s1 \<Longrightarrow> st_stopped s2"
    using submission_simps(8) [of "Inr operation" s1 s2] b(1) by (simp add: captureOrderSubmission_def)
  show ?thesis
  proof (cases "Receive e \<in> set ys")
    case True
    then show ?thesis
      using run_terminal [OF b(2) only(2) True] submitted_identity_kept [OF b(1)] o1 e(2) ID by simp
  next
    case False
    have "\<not> foreign ?s0 e"
      using e(2) by (auto simp: foreign_def ends_operation_def split: option.splits)
    then have "st_stopped s1 \<or> e \<in> set (captured xs ?s0)"
      using captured_or_stopped [OF a(1) only(1)] e(1) False by auto
    moreover have "st_replay s1 = captured xs ?s0"
      using replay_run [OF a(1)] captured_length [of xs ?s0] bound by simp
    ultimately show ?thesis using submitted_terminal [OF b(1), of e] o1 e(2) stop1 stop2 by auto
  qed
qed

text \<open>C16: The stream holds its reference to each of its event types from the moment it subscribes until it
  is released, never more than one and never touching another owner's; once it is stopped and its
  start is over, the release is possible and gives exactly the other owners' references back.\<close>
theorem stream_lease_balanced:
  assumes "lease_reach objectID (s, sb, oth)"
  shows "ref_get (sb_eventTypeSubs sb) t =
           oth t + (if st_watchStarted s \<and> \<not> st_released s \<and> t \<in> set orderStreamEvents then 1 else 0)
         \<and> (st_stopped s \<and> st_ready s \<and> \<not> st_released s \<longrightarrow>
              (\<exists>s' sb'. lease_step (s, sb, oth) (s', sb', oth) \<and> st_released s'
                \<and> ref_get (sb_eventTypeSubs sb') t = oth t))"
proof -
  have here: "lease_inv (s, sb, oth)" by (rule lease_reach_inv [OF assms])
  have "\<exists>s' sb'. lease_step (s, sb, oth) (s', sb', oth) \<and> st_released s' \<and> ref_get (sb_eventTypeSubs sb') t = oth t"
    if r: "st_stopped s" "st_ready s" "\<not> st_released s"
  proof -
    obtain s' sb' now later where rel: "release_lease s sb = (s', sb', now, later)" by (cases "release_lease s sb") auto
    have st: "lease_step (s, sb, oth) (s', sb', oth)" by (rule ls_release [OF r rel])
    have rs: "st_released s'" using rel by (auto simp: release_lease_def)
    have "lease_inv (s', sb', oth)" by (rule lease_inv_step [OF st here])
    then show ?thesis using st rs by (auto simp: holding_def)
  qed
  then show ?thesis using here by (simp add: holding_def)
qed

definition sample_event :: RealmEvent where
  "sample_event =
     \<lparr>re_Type = EventOperationUpdated, re_EntityID = ''obj'',
      re_Operation = Some \<lparr>op_ID = ''op1'', op_RealmID = [], op_Path = [], op_Type = [], op_State = ''failed'',
        op_SourceArcaPath = None, op_TargetArcaPath = None, op_Input = None, op_Outcome = None,
        op_ParsedOutcome = None, op_FailureMessage = None\<rparr>,
      re_Order = None, re_Fill = None, re_CorrelationID = []\<rparr>"

definition sample_response :: Operation where
  "sample_response = (the (re_Operation sample_event))\<lparr>op_State := ''pending''\<rparr>"

lemmas sample_stream_defs = sample_event_def sample_response_def newOrderStream_def receive_def foreign_def
  order_ends_def operation_ends_def operation_over_def operationExecution_def op_state_defs capture_def
  subscribe_def Let_def captureOrderSubmission_def submitted_def outcome_order_id_def replay_ends_def
  ends_operation_def stop_def


theorem terminal_update_ends_stream_witness:
  "\<exists>ds s. stream_run [Receive sample_event, Submission (Inr sample_response)] (newOrderStream ''obj'') = Some (ds, s)
     \<and> st_stopped s"
  using terminal_update_ends_stream [of "[Receive sample_event]" sample_response "[]" "''obj''" _ _ sample_event]
  by (simp add: sample_stream_defs)

theorem stream_lease_balanced_witness:
  "ref_get (sb_eventTypeSubs (fst (snd (start_watch (newOrderStream ''obj'') no_subs)))) ''fill.recorded'' = 1"
proof -
  let ?w = "start_watch (newOrderStream ''obj'') no_subs"
  have "lease_step (newOrderStream ''obj'', no_subs, \<lambda>t. 0) (fst ?w, fst (snd ?w), \<lambda>t. 0)"
    by (rule ls_watch [where now = "fst (snd (snd ?w))" and later = "snd (snd (snd ?w))"])
      (simp_all add: newOrderStream_def)
  then have "lease_reach ''obj'' (fst ?w, fst (snd ?w), \<lambda>t. 0)" by (rule lr_step [OF lr_start])
  from stream_lease_balanced [OF this, of "''fill.recorded''"] show ?thesis
    by (simp add: start_watch_def newOrderStream_def orderStreamEvents_def EventFillRecorded_def)
qed

end
