(* ===== verification/Go_Time.thy ===== *)
theory Go_Time
  imports Go_Numbers "HOL-Library.Monad_Syntax"
begin

text \<open>
  What the SDK uses of Go's \<^verbatim>\<open>time\<close> package: the proleptic Gregorian calendar in UTC, date normalisation
  (\<^verbatim>\<open>time.Date\<close>, \<^verbatim>\<open>AddDate\<close>), weekdays and ISO weeks, and \<^verbatim>\<open>time.Parse\<close> with the RFC 3339 layout.  A day
  is an integer counted from 1970-01-01, an instant an integer number of nanoseconds from the same
  point.  The lemmas show that the conversions between days and dates are inverse to each other.
\<close>

section \<open>The calendar\<close>

definition is_leap :: "int \<Rightarrow> bool" where
  "is_leap y \<longleftrightarrow> y mod 4 = 0 \<and> (y mod 100 \<noteq> 0 \<or> y mod 400 = 0)"

text \<open>Days from 0001-01-01 to the first of January of year \<^verbatim>\<open>y + 1\<close>.\<close>

definition year_start :: "int \<Rightarrow> int" where
  "year_start y = 365 * y + y div 4 - y div 100 + y div 400"

definition epoch_shift :: int where
  "epoch_shift = 719162"

text \<open>Days before the first of each month.\<close>

definition month_start :: "bool \<Rightarrow> int \<Rightarrow> int" where
  "month_start leap m =
     (if m \<le> 1 then 0 else if m \<le> 2 then 31
      else (if leap then 1 else 0)
        + (if m \<le> 3 then 59 else if m \<le> 4 then 90 else if m \<le> 5 then 120 else if m \<le> 6 then 151
           else if m \<le> 7 then 181 else if m \<le> 8 then 212 else if m \<le> 9 then 243 else if m \<le> 10 then 273
           else if m \<le> 11 then 304 else if m \<le> 12 then 334 else 365))"

definition days_in :: "bool \<Rightarrow> int \<Rightarrow> int" where
  "days_in leap m = month_start leap (m + 1) - month_start leap m"

definition day_of_date :: "int \<Rightarrow> int \<Rightarrow> int \<Rightarrow> int" where
  "day_of_date y m d = year_start (y - 1) + month_start (is_leap y) m + (d - 1) - epoch_shift"

text \<open>\<^verbatim>\<open>time.Date\<close> accepts any month number; the excess goes to the year.\<close>

definition norm_date :: "int \<Rightarrow> int \<Rightarrow> int \<Rightarrow> int" where
  "norm_date y m d = day_of_date (y + (m - 1) div 12) ((m - 1) mod 12 + 1) d"

definition year_of_day :: "int \<Rightarrow> int" where
  "year_of_day n =
     (let d = n + epoch_shift; y = d * 400 div 146097 in
      (if year_start (y + 1) \<le> d then y + 1 else y) + 1)"

definition yday_of_day :: "int \<Rightarrow> int" where
  "yday_of_day n = n + epoch_shift - year_start (year_of_day n - 1)"

definition month_of_yday :: "bool \<Rightarrow> int \<Rightarrow> int" where
  "month_of_yday leap k =
     (if k < month_start leap 2 then 1 else if k < month_start leap 3 then 2
      else if k < month_start leap 4 then 3 else if k < month_start leap 5 then 4
      else if k < month_start leap 6 then 5 else if k < month_start leap 7 then 6
      else if k < month_start leap 8 then 7 else if k < month_start leap 9 then 8
      else if k < month_start leap 10 then 9 else if k < month_start leap 11 then 10
      else if k < month_start leap 12 then 11 else 12)"

definition month_of_day :: "int \<Rightarrow> int" where
  "month_of_day n = month_of_yday (is_leap (year_of_day n)) (yday_of_day n)"

definition mday_of_day :: "int \<Rightarrow> int" where
  "mday_of_day n = yday_of_day n - month_start (is_leap (year_of_day n)) (month_of_day n) + 1"

text \<open>\<^verbatim>\<open>Weekday\<close>: Sunday is 0; 1970-01-01 was a Thursday.\<close>

definition weekday :: "int \<Rightarrow> int" where
  "weekday n = (n + 4) mod 7"

definition iso_week :: "int \<Rightarrow> int \<times> int" where
  "iso_week n =
     (let thursday = n + (3 - (weekday n + 6) mod 7) in
      (year_of_day thursday, yday_of_day thursday div 7 + 1))"

section \<open>Inverse conversions\<close>

lemma div_bounds: "0 < k \<Longrightarrow> k * (x div k) \<le> x" "0 < k \<Longrightarrow> x < k * (x div k) + k" for x k :: int
  using pos_mod_bound [of k x] pos_mod_sign [of k x] mult_div_mod_eq [of k x] by linarith+

lemma div_pred: "0 < k \<Longrightarrow> (y - 1) div k = y div k - (if y mod k = 0 then 1 else 0)" for y k :: int
proof -
  assume k: "0 < k"
  have e: "y = k * (y div k) + y mod k" and r: "0 \<le> y mod k" "y mod k < k" using k by simp_all
  show ?thesis
  proof (cases "y mod k = 0")
    case True
    have "y - 1 = k * (y div k - 1) + (k - 1)" using e True by (simp add: algebra_simps)
    then show ?thesis using int_div_pos_eq [of "y - 1" k "y div k - 1" "k - 1"] k True by simp
  next
    case False
    have "y - 1 = k * (y div k) + (y mod k - 1)" using e by simp
    then show ?thesis using int_div_pos_eq [of "y - 1" k "y div k" "y mod k - 1"] r False by simp
  qed
qed

lemma year_start_leap: "year_start y = year_start (y - 1) + (if is_leap y then 366 else 365)"
proof -
  have "y mod 400 = 0 \<Longrightarrow> y mod 100 = 0" "y mod 100 = 0 \<Longrightarrow> y mod 4 = 0"
    using dvd_trans [of 100 400 y] dvd_trans [of 4 100 y] by (simp_all add: mod_eq_0_iff_dvd)
  then show ?thesis by (simp add: year_start_def is_leap_def div_pred)
qed

lemma year_start_mono: "a \<le> b \<Longrightarrow> year_start a \<le> year_start b"
proof (induction b rule: int_ge_induct)
  case (step i)
  then show ?case using year_start_leap [of "i + 1"] by (simp split: if_splits)
qed simp

lemma year_of_day_bracket:
  "year_start (year_of_day n - 1) \<le> n + epoch_shift" "n + epoch_shift < year_start (year_of_day n)"
proof -
  define d where "d = n + epoch_shift"
  define z where "z = d * 400 div 146097"
  have z: "146097 * z \<le> d * 400" "d * 400 < 146097 * z + 146097"
    using div_bounds [of 146097 "d * 400"] by (simp_all add: z_def)
  have b: "year_start z \<le> d"
    using z div_bounds [of 4 z] div_bounds [of 100 z] div_bounds [of 400 z] by (simp add: year_start_def)
  have a: "d < year_start (z + 2)"
    using z div_bounds [of 4 "z + 2"] div_bounds [of 100 "z + 2"] div_bounds [of 400 "z + 2"] by (simp add: year_start_def)
  have y: "year_of_day n = (if year_start (z + 1) \<le> d then z + 1 else z) + 1"
    by (simp add: year_of_day_def d_def z_def Let_def)
  show "year_start (year_of_day n - 1) \<le> n + epoch_shift" "n + epoch_shift < year_start (year_of_day n)"
    using a b by (auto simp: y d_def add.commute)
qed

lemma year_start_strict: "year_start a < year_start b \<Longrightarrow> a < b"
  using year_start_mono [of b a] by linarith

lemma year_of_day_unique:
  assumes "year_start (y - 1) \<le> n + epoch_shift" "n + epoch_shift < year_start y"
  shows "year_of_day n = y"
  using year_start_strict [of "y - 1" "year_of_day n"] year_start_strict [of "year_of_day n - 1" y]
    year_of_day_bracket [of n] assms by linarith

lemma yday_range: "0 \<le> yday_of_day n" "yday_of_day n < (if is_leap (year_of_day n) then 366 else 365)"
  using year_of_day_bracket [of n] year_start_leap [of "year_of_day n"] by (simp_all add: yday_of_day_def)

lemma month_of_yday_range:
  assumes "0 \<le> k" "k < (if leap then 366 else 365)"
  shows "1 \<le> month_of_yday leap k" "month_of_yday leap k \<le> 12"
    "month_start leap (month_of_yday leap k) \<le> k" "k < month_start leap (month_of_yday leap k + 1)"
  using assms by (auto simp: month_of_yday_def month_start_def)

lemma month_start_mono: "a \<le> b \<Longrightarrow> month_start leap a \<le> month_start leap b"
  by (auto simp: month_start_def)

lemma month_of_yday_unique:
  assumes "1 \<le> m" "m \<le> 12" "month_start leap m \<le> k" "k < month_start leap (m + 1)"
  shows "month_of_yday leap k = m"
proof -
  have "0 \<le> month_start leap m" "month_start leap (m + 1) \<le> month_start leap 13"
    using month_start_mono [of 1 m leap] month_start_mono [of "m + 1" 13 leap] assms by (simp_all add: month_start_def)
  then have k: "0 \<le> k" "k < (if leap then 366 else 365)" using assms by (simp_all add: month_start_def split: if_splits)
  note r = month_of_yday_range [OF k]
  have "\<not> month_of_yday leap k + 1 \<le> m" "\<not> m + 1 \<le> month_of_yday leap k"
    using r assms month_start_mono [of "month_of_yday leap k + 1" m leap]
      month_start_mono [of "m + 1" "month_of_yday leap k" leap] by linarith+
  then show ?thesis by linarith
qed

text \<open>Every day has its date, and a valid date its day.\<close>

lemma day_of_date_inverse: "day_of_date (year_of_day n) (month_of_day n) (mday_of_day n) = n"
  by (simp add: day_of_date_def mday_of_day_def yday_of_day_def)

lemma date_range:
  "1 \<le> month_of_day n" "month_of_day n \<le> 12" "1 \<le> mday_of_day n"
  "mday_of_day n \<le> days_in (is_leap (year_of_day n)) (month_of_day n)"
  using month_of_yday_range [OF yday_range [of n]] by (simp_all add: month_of_day_def mday_of_day_def days_in_def)

lemma date_of_day:
  assumes "1 \<le> m" "m \<le> 12" "1 \<le> d" "d \<le> days_in (is_leap y) m"
  shows "year_of_day (day_of_date y m d) = y" "month_of_day (day_of_date y m d) = m" "mday_of_day (day_of_date y m d) = d"
proof -
  have m: "0 \<le> month_start (is_leap y) m" "month_start (is_leap y) (m + 1) \<le> (if is_leap y then 366 else 365)"
    using assms(1,2) month_start_mono [of 1 m "is_leap y"] month_start_mono [of "m + 1" 13 "is_leap y"]
    by (auto simp: month_start_def)
  have d: "month_start (is_leap y) m + (d - 1) < month_start (is_leap y) (m + 1)" using assms(4) by (simp add: days_in_def)
  show y: "year_of_day (day_of_date y m d) = y"
    by (rule year_of_day_unique) (use m d assms(3) year_start_leap [of y] in \<open>auto simp: day_of_date_def split: if_splits\<close>)
  have k: "yday_of_day (day_of_date y m d) = month_start (is_leap y) m + (d - 1)"
    by (simp add: yday_of_day_def y) (simp add: day_of_date_def)
  show mo: "month_of_day (day_of_date y m d) = m"
    unfolding month_of_day_def y k by (rule month_of_yday_unique) (use assms d in auto)
  show "mday_of_day (day_of_date y m d) = d" by (simp add: mday_of_day_def mo y k)
qed

section \<open>Instants\<close>

type_synonym instant = int

definition instant_of :: "int \<Rightarrow> int \<Rightarrow> int \<Rightarrow> instant" where
  "instant_of day secs ns = (day * 86400 + secs) * 1000000000 + ns"

text \<open>The zero \<^verbatim>\<open>time.Time\<close>.\<close>

definition zero_time :: instant where
  "zero_time = instant_of (- epoch_shift) 0 0"

section \<open>Parsing RFC 3339\<close>

text \<open>\<^verbatim>\<open>getnum\<close>: two digits, or one when the width is not fixed.\<close>

definition getnum :: "bool \<Rightarrow> gostring \<Rightarrow> (int \<times> gostring) option" where
  "getnum fixed s =
     (case s of
        a # b # r \<Rightarrow>
          if \<not> is_digit a then None
          else if is_digit b then Some (int (digit_val a) * 10 + int (digit_val b), r)
          else if fixed then None else Some (int (digit_val a), b # r)
      | [a] \<Rightarrow> if is_digit a \<and> \<not> fixed then Some (int (digit_val a), []) else None
      | [] \<Rightarrow> None)"

definition getyear :: "gostring \<Rightarrow> (int \<times> gostring) option" where
  "getyear s =
     (if 4 \<le> length s \<and> list_all is_digit (take 4 s)
      then Some (int (nat_of_digits (take 4 s)), drop 4 s) else None)"

definition skip :: "char \<Rightarrow> gostring \<Rightarrow> gostring option" where
  "skip c s = (case s of a # r \<Rightarrow> if a = c then Some r else None | [] \<Rightarrow> None)"

definition in_range :: "int \<Rightarrow> int \<Rightarrow> int \<Rightarrow> unit option" where
  "in_range lo hi n = (if lo \<le> n \<and> n \<le> hi then Some () else None)"

text \<open>An optional fraction: any number of digits, of which nine count.\<close>

definition getfrac :: "gostring \<Rightarrow> int \<times> gostring" where
  "getfrac s =
     (case s of
        p # d # r \<Rightarrow>
          if (p = CHR ''.'' \<or> p = CHR '','') \<and> is_digit d then
            (let ds = takeWhile is_digit (d # r); nine = take 9 ds in
             (int (nat_of_digits nine) * 10 ^ (9 - length nine), dropWhile is_digit (d # r)))
          else (0, s)
      | _ \<Rightarrow> (0, s))"

text \<open>The zone, as an offset in seconds.\<close>

definition getzone :: "gostring \<Rightarrow> (int \<times> gostring) option" where
  "getzone s =
     (case s of
        [] \<Rightarrow> None
      | z # r \<Rightarrow>
          if z = CHR ''Z'' then Some (0, r)
          else if length s < 6 \<or> s ! 3 \<noteq> CHR '':'' then None
          else do {
            (h, _) \<leftarrow> getnum True (take 2 (drop 1 s));
            (m, _) \<leftarrow> getnum True (take 2 (drop 4 s));
            in_range 0 24 h;
            in_range 0 60 m;
            (if z = CHR ''+'' then Some ((h * 60 + m) * 60, drop 6 s)
             else if z = CHR ''-'' then Some (- ((h * 60 + m) * 60), drop 6 s) else None)
          })"

definition parse_rfc3339 :: "gostring \<Rightarrow> instant option" where
  "parse_rfc3339 s0 =
     do {
       (year, s1) \<leftarrow> getyear s0;
       s2 \<leftarrow> skip (CHR ''-'') s1;
       (month, s3) \<leftarrow> getnum True s2;
       in_range 1 12 month;
       s4 \<leftarrow> skip (CHR ''-'') s3;
       (day, s5) \<leftarrow> getnum True s4;
       s6 \<leftarrow> skip (CHR ''T'') s5;
       (hour, s7) \<leftarrow> getnum False s6;
       in_range 0 23 hour;
       s8 \<leftarrow> skip (CHR '':'') s7;
       (minute, s9) \<leftarrow> getnum True s8;
       in_range 0 59 minute;
       s10 \<leftarrow> skip (CHR '':'') s9;
       (second, s11) \<leftarrow> getnum True s10;
       in_range 0 59 second;
       let (ns, s12) = getfrac s11;
       (offset, s13) \<leftarrow> getzone s12;
       (if s13 \<noteq> [] then None else Some ());
       in_range 1 (days_in (is_leap year) month) day;
       Some (instant_of (day_of_date year month day) (hour * 3600 + minute * 60 + second - offset) ns)
     }"

lemma parse_rfc3339_examples:
  "parse_rfc3339 ''1970-01-01T00:00:00Z'' = Some 0"
  "parse_rfc3339 ''2024-02-29T12:00:00.5+01:00'' = Some 1709204400500000000"
  "parse_rfc3339 ''2023-02-29T12:00:00Z'' = None"
  "parse_rfc3339 ''2024-02-29'' = None"
  by code_simp+

end
