(* ===== verification/Candle_Cdn.thy ===== *)
theory Candle_Cdn
  imports Go_Time Api_Errors "HOL-Library.Multiset"
begin

text \<open>
  Candles from the CDN (\<^verbatim>\<open>candlecdn.go\<close>): the chunk of the calendar a time belongs to, the chunks of a
  range, and the fetch that reads finished chunks from the CDN, falls back to the API for the rest and
  merges the batches.  The lemmas show that the loop over the range ends, that its chunks tile the
  range, and that the merged candles are strictly ordered and complete.
\<close>

section \<open>Data\<close>

record Candle =
  cd_T :: int
  cd_O :: gostring
  cd_H :: gostring
  cd_L :: gostring
  cd_C :: gostring
  cd_V :: gostring
  cd_N :: int
  cd_S :: gostring

definition Interval15s :: gostring where "Interval15s = ''15s''"
definition Interval1m :: gostring where "Interval1m = ''1m''"
definition Interval5m :: gostring where "Interval5m = ''5m''"
definition Interval15m :: gostring where "Interval15m = ''15m''"
definition Interval1h :: gostring where "Interval1h = ''1h''"
definition Interval4h :: gostring where "Interval4h = ''4h''"
definition Interval1d :: gostring where "Interval1d = ''1d''"

lemmas interval_defs = Interval15s_def Interval1m_def Interval5m_def Interval15m_def Interval1h_def
  Interval4h_def Interval1d_def

record chunkPeriod =
  ch_key :: gostring
  ch_startMs :: int
  ch_endMs :: int

section \<open>Chunks\<close>

definition chunkGranularity :: "gostring \<Rightarrow> gostring" where
  "chunkGranularity interval =
     (if interval = Interval15s \<or> interval = Interval1m \<or> interval = Interval5m \<or> interval = Interval15m
      then ''daily''
      else if interval = Interval1h \<or> interval = Interval4h then ''weekly''
      else ''monthly'')"

text \<open>\<^verbatim>\<open>%04d\<close> and \<^verbatim>\<open>%02d\<close>: the width counts the sign.\<close>

definition show_width :: "nat \<Rightarrow> int \<Rightarrow> gostring" where
  "show_width w n =
     (if n < 0 then CHR ''-'' # pad_left (w - 1) (show_nat (nat (- n))) else pad_left w (show_nat (nat n)))"

definition ms_per_day :: int where
  "ms_per_day = 86400000"

text \<open>A date is given by its day; \<^verbatim>\<open>time.Date\<close> rebuilds it from year, month and day of the month.\<close>

definition dailyChunk :: "int \<Rightarrow> chunkPeriod" where
  "dailyChunk d =
     (let start = norm_date (year_of_day d) (month_of_day d) (mday_of_day d) in
      \<lparr>ch_key = show_width 4 (year_of_day d) @ ''-'' @ show_width 2 (month_of_day d) @ ''-''
                  @ show_width 2 (mday_of_day d),
       ch_startMs = start * ms_per_day, ch_endMs = (start + 1) * ms_per_day\<rparr>)"

definition weeklyChunk :: "int \<Rightarrow> chunkPeriod" where
  "weeklyChunk d =
     (let date = norm_date (year_of_day d) (month_of_day d) (mday_of_day d);
          offset = (weekday date + 6) mod 7;
          monday = date - offset;
          (isoYear, isoWeek) = iso_week date in
      \<lparr>ch_key = show_width 4 isoYear @ ''-W'' @ show_width 2 isoWeek,
       ch_startMs = monday * ms_per_day, ch_endMs = (monday + 7) * ms_per_day\<rparr>)"

definition monthlyChunk :: "int \<Rightarrow> chunkPeriod" where
  "monthlyChunk d =
     \<lparr>ch_key = show_width 4 (year_of_day d) @ ''-'' @ show_width 2 (month_of_day d),
      ch_startMs = norm_date (year_of_day d) (month_of_day d) 1 * ms_per_day,
      ch_endMs = norm_date (year_of_day d) (month_of_day d + 1) 1 * ms_per_day\<rparr>"

definition chunkForTime :: "gostring \<Rightarrow> int \<Rightarrow> chunkPeriod" where
  "chunkForTime interval ms =
     (let d = ms div ms_per_day; g = chunkGranularity interval in
      if g = ''daily'' then dailyChunk d
      else if g = ''weekly'' then weeklyChunk d
      else monthlyChunk d)"

lemma norm_date_id: "1 \<le> m \<Longrightarrow> m \<le> 12 \<Longrightarrow> norm_date y m d = day_of_date y m d"
  by (simp add: norm_date_def)

lemma norm_date_of_day [simp]: "norm_date (year_of_day n) (month_of_day n) (mday_of_day n) = n"
  using date_range [of n] by (simp add: norm_date_id day_of_date_inverse)

lemma norm_date_next_month:
  assumes "1 \<le> m" "m \<le> 12"
  shows "norm_date y (m + 1) 1 = day_of_date y m 1 + days_in (is_leap y) m"
proof (cases "m = 12")
  case True
  then show ?thesis using year_start_leap [of y]
    by (simp add: norm_date_def day_of_date_def days_in_def month_start_def)
next
  case False
  then show ?thesis using assms by (simp add: norm_date_id day_of_date_def days_in_def)
qed

lemma month_bracket:
  fixes d
  defines "first \<equiv> norm_date (year_of_day d) (month_of_day d) 1"
    and "next_first \<equiv> norm_date (year_of_day d) (month_of_day d + 1) 1"
  shows "first \<le> d" "d < next_first"
proof -
  note r = date_range [of d]
  have "d = day_of_date (year_of_day d) (month_of_day d) 1 + (mday_of_day d - 1)"
    using day_of_date_inverse [of d] by (simp add: day_of_date_def)
  then show "first \<le> d" "d < next_first"
    using r by (simp_all add: first_def next_first_def norm_date_id norm_date_next_month)
qed

lemma ms_in_days: "a \<le> ms div ms_per_day \<Longrightarrow> ms div ms_per_day < b \<Longrightarrow> a * ms_per_day \<le> ms \<and> ms < b * ms_per_day"
  using div_bounds [of ms_per_day ms] by (simp add: ms_per_day_def)

text \<open>The chunk of a time contains it.\<close>

lemma chunkForTime_contains:
  "ch_startMs (chunkForTime interval ms) \<le> ms" "ms < ch_endMs (chunkForTime interval ms)"
proof -
  let ?d = "ms div ms_per_day"
  have off: "0 \<le> (weekday ?d + 6) mod 7" "(weekday ?d + 6) mod 7 < 7" by simp_all
  have "ch_startMs (chunkForTime interval ms) \<le> ms \<and> ms < ch_endMs (chunkForTime interval ms)"
    using ms_in_days [of ?d ms "?d + 1"] ms_in_days [OF month_bracket [of ?d]]
      ms_in_days [of "?d - (weekday ?d + 6) mod 7" ms "?d - (weekday ?d + 6) mod 7 + 7"] off
    by (simp add: chunkForTime_def dailyChunk_def weeklyChunk_def monthlyChunk_def Let_def split: prod.split)
  then show "ch_startMs (chunkForTime interval ms) \<le> ms" "ms < ch_endMs (chunkForTime interval ms)" by simp_all
qed

text \<open>\<^verbatim>\<open>chunksForRange\<close>: the loop from \<^verbatim>\<open>cursor\<close>, which ends because a chunk ends after the time it is of.\<close>

function chunk_loop :: "gostring \<Rightarrow> int \<Rightarrow> int \<Rightarrow> chunkPeriod list" where
  "chunk_loop interval cursor endMs =
     (if cursor < endMs then
        (let cp = chunkForTime interval cursor in cp # chunk_loop interval (ch_endMs cp) endMs)
      else [])"
  by pat_completeness auto

termination
  by (relation "measure (\<lambda>(interval, cursor, endMs). nat (endMs - cursor))")
    (auto simp: chunkForTime_contains)

declare chunk_loop.simps [simp del]

definition chunksForRange :: "gostring \<Rightarrow> int \<Rightarrow> int \<Rightarrow> chunkPeriod list" where
  "chunksForRange interval startMs endMs =
     (if startMs \<ge> endMs then [] else chunk_loop interval startMs endMs)"

definition chunkURL :: "gostring \<Rightarrow> gostring \<Rightarrow> gostring \<Rightarrow> gostring \<Rightarrow> gostring" where
  "chunkURL baseURL coin interval chunkKey =
     baseURL @ ''/candles/'' @ coin @ ''/'' @ interval @ ''/'' @ chunkKey @ ''.json''"

section \<open>Fetching\<close>

text \<open>
  What the CDN answers for a URL: nothing (no response, or the body cannot be read), or a status with the
  body as decoded JSON.  \<^verbatim>\<open>fetchCDNChunk\<close> returns \<^const>\<open>None\<close> where the code returns \<^verbatim>\<open>false\<close>.
\<close>

record cdn_reply =
  cr_Status :: int
  cr_Candles :: "Candle list option"

definition fetchCDNChunk :: "cdn_reply option \<Rightarrow> int \<Rightarrow> int \<Rightarrow> Candle list option" where
  "fetchCDNChunk reply startMs endMs =
     (case reply of
        None \<Rightarrow> None
      | Some r \<Rightarrow>
          if cr_Status r \<noteq> 200 then None
          else map_option (filter (\<lambda>c. cd_T c \<ge> startMs \<and> cd_T c < endMs)) (cr_Candles r))"

definition clampFallback ::
    "(int \<Rightarrow> int \<Rightarrow> error + Candle list) \<Rightarrow> int \<Rightarrow> int \<Rightarrow> chunkPeriod \<Rightarrow> error + Candle list" where
  "clampFallback api startMs endMs c =
     api (max (ch_startMs c) startMs) (min (ch_endMs c - 1) endMs)"

definition chunk_result ::
    "(gostring \<Rightarrow> cdn_reply option) \<Rightarrow> (int \<Rightarrow> int \<Rightarrow> error + Candle list) \<Rightarrow> gostring \<Rightarrow> gostring
       \<Rightarrow> gostring \<Rightarrow> int \<Rightarrow> int \<Rightarrow> int \<Rightarrow> chunkPeriod \<Rightarrow> error + Candle list" where
  "chunk_result cdn api baseURL coin interval now startMs endMs c =
     (if now < ch_endMs c then clampFallback api startMs endMs c
      else (case fetchCDNChunk (cdn (chunkURL baseURL coin interval (ch_key c))) startMs endMs of
              None \<Rightarrow> clampFallback api startMs endMs c
            | Some candles \<Rightarrow> Inr candles))"

text \<open>The batches in chunk order, or the first error among them.\<close>

fun batches :: "(error + Candle list) list \<Rightarrow> error + Candle list list" where
  "batches [] = Inr []"
| "batches (Inl e # rs) = Inl e"
| "batches (Inr b # rs) = (case batches rs of Inl e \<Rightarrow> Inl e | Inr bs \<Rightarrow> Inr (b # bs))"

definition dedupe_step :: "Candle list \<Rightarrow> Candle \<Rightarrow> Candle list" where
  "dedupe_step deduped c =
     (if deduped \<noteq> [] \<and> cd_T (last deduped) = cd_T c then butlast deduped @ [c] else deduped @ [c])"

definition dedupe :: "Candle list \<Rightarrow> Candle list" where
  "dedupe merged = foldl dedupe_step [] merged"

text \<open>
  \<^verbatim>\<open>sort.Slice\<close> is not stable: \<^verbatim>\<open>sorter\<close> is the order it leaves the merged candles in, of which only
  \<^verbatim>\<open>slice_sort\<close> is known.  Deduplicating within the merged slice writes no position that is still to
  be read.
\<close>

definition slice_sort :: "(Candle list \<Rightarrow> Candle list) \<Rightarrow> bool" where
  "slice_sort sorter \<longleftrightarrow> (\<forall>xs. mset (sorter xs) = mset xs \<and> sorted (map cd_T (sorter xs)))"

definition fetchCandlesFromCDN ::
    "(Candle list \<Rightarrow> Candle list) \<Rightarrow> (gostring \<Rightarrow> cdn_reply option) \<Rightarrow> (int \<Rightarrow> int \<Rightarrow> error + Candle list)
       \<Rightarrow> int \<Rightarrow> gostring \<Rightarrow> gostring \<Rightarrow> gostring \<Rightarrow> int \<Rightarrow> int \<Rightarrow> error + Candle list" where
  "fetchCandlesFromCDN sorter cdn api now baseURL coin interval startMs endMs =
     (case batches (map (chunk_result cdn api baseURL coin interval now startMs endMs)
                      (chunksForRange interval startMs endMs)) of
        Inl e \<Rightarrow> Inl e
      | Inr bs \<Rightarrow> Inr (dedupe (sorter (concat bs))))"

section \<open>The chunks of a range\<close>

lemma weekly_next:
  fixes d :: int
  defines "monday \<equiv> d - (weekday d + 6) mod 7"
  shows "(weekday (monday + 7) + 6) mod 7 = 0"
  unfolding monday_def weekday_def by presburger

lemma monthly_next:
  fixes d :: int
  defines "n \<equiv> norm_date (year_of_day d) (month_of_day d + 1) 1"
  shows "norm_date (year_of_day n) (month_of_day n) 1 = n"
proof -
  define y where "y = year_of_day d + (month_of_day d + 1 - 1) div 12"
  define m where "m = (month_of_day d + 1 - 1) mod 12 + 1"
  have n: "n = day_of_date y m 1" by (simp add: n_def y_def m_def norm_date_def)
  have m: "1 \<le> m" "m \<le> 12" by (simp_all add: m_def)
  have "1 \<le> days_in (is_leap y) m" using m by (auto simp: days_in_def month_start_def)
  from date_of_day [OF m _ this] show ?thesis using m by (simp add: n norm_date_id)
qed

text \<open>The next chunk starts where a chunk ends.\<close>

lemma chunkForTime_next:
  "ch_startMs (chunkForTime interval (ch_endMs (chunkForTime interval ms))) = ch_endMs (chunkForTime interval ms)"
proof -
  have pos: "ms_per_day \<noteq> 0" by (simp add: ms_per_day_def)
  show ?thesis
    using weekly_next [of "ms div ms_per_day"] monthly_next [of "ms div ms_per_day"] pos
    by (simp add: chunkForTime_def dailyChunk_def weeklyChunk_def monthlyChunk_def Let_def split: prod.split)
qed

definition tiles :: "int \<Rightarrow> int \<Rightarrow> chunkPeriod list \<Rightarrow> bool" where
  "tiles startMs endMs cs \<longleftrightarrow>
     cs \<noteq> [] \<and> ch_startMs (hd cs) \<le> startMs \<and> startMs < ch_endMs (hd cs)
     \<and> ch_startMs (last cs) < endMs \<and> endMs \<le> ch_endMs (last cs)
     \<and> (\<forall>i. Suc i < length cs \<longrightarrow> ch_startMs (cs ! Suc i) = ch_endMs (cs ! i))"

lemma chunk_loop_tiles:
  "cursor < endMs \<Longrightarrow> tiles cursor endMs (chunk_loop interval cursor endMs)"
proof (induction interval cursor endMs rule: chunk_loop.induct)
  case (1 interval cursor endMs)
  let ?cp = "chunkForTime interval cursor"
  let ?rest = "chunk_loop interval (ch_endMs ?cp) endMs"
  have u: "chunk_loop interval cursor endMs = ?cp # ?rest"
    using "1.prems" by (subst chunk_loop.simps) (simp add: Let_def)
  note c = chunkForTime_contains [where interval = interval and ms = cursor]
  show ?case
  proof (cases "ch_endMs ?cp < endMs")
    case True
    have t: "tiles (ch_endMs ?cp) endMs ?rest" using "1.IH" [OF "1.prems" refl True] .
    have h: "hd ?rest = chunkForTime interval (ch_endMs ?cp)" using True by (subst chunk_loop.simps) (simp add: Let_def)
    then have "?rest ! 0 = chunkForTime interval (ch_endMs ?cp)" using t by (simp add: tiles_def hd_conv_nth)
    then have "ch_startMs (?rest ! 0) = ch_endMs ?cp" by (simp add: chunkForTime_next)
    then have "ch_startMs ((?cp # ?rest) ! Suc i) = ch_endMs ((?cp # ?rest) ! i)" if "Suc i < length (?cp # ?rest)" for i
      using that t by (cases i) (auto simp: tiles_def)
    then show ?thesis using t c by (simp add: u tiles_def)
  next
    case False
    then have "?rest = []" by (subst chunk_loop.simps) simp
    then show ?thesis using False c "1.prems" by (simp add: u tiles_def)
  qed
qed

section \<open>Merging\<close>

lemma batches_Inr:
  "batches rs = Inr bs \<Longrightarrow> rs = map Inr bs"
  by (induction rs arbitrary: bs rule: batches.induct) (auto split: sum.splits)

lemma batches_Inl:
  "batches rs = Inl e \<longleftrightarrow> (\<exists>bs rest. rs = map Inr bs @ Inl e # rest)"
proof (induction rs rule: batches.induct)
  case (2 e' rs)
  then show ?case by (auto simp: Cons_eq_append_conv)
next
  case (3 b rs)
  then show ?case
    by (auto split: sum.splits simp: Cons_eq_append_conv) (metis append_Cons list.simps(9))
qed simp

lemma dedupe_fold:
  assumes "sorted (map cd_T (acc @ xs))" "sorted_wrt (<) (map cd_T acc)"
  shows "sorted_wrt (<) (map cd_T (foldl dedupe_step acc xs))
    \<and> set (foldl dedupe_step acc xs) \<subseteq> set acc \<union> set xs
    \<and> cd_T ` set (foldl dedupe_step acc xs) = cd_T ` (set acc \<union> set xs)"
  using assms
proof (induction xs arbitrary: acc)
  case (Cons x xs)
  let ?a = "dedupe_step acc x"
  have s: "sorted (map cd_T (acc @ [x]))" using Cons.prems(1) by (simp add: sorted_append)
  have last_le: "cd_T y \<le> cd_T x" if "y \<in> set acc" for y using s that by (auto simp: sorted_append)
  show ?case
  proof (cases "acc \<noteq> [] \<and> cd_T (last acc) = cd_T x")
    case True
    then obtain ini l where a: "acc = ini @ [l]" "cd_T l = cd_T x" by (metis append_butlast_last_id)
    have e: "?a = ini @ [x]" using True a by (simp add: dedupe_step_def)
    have m: "map cd_T ?a = map cd_T acc" unfolding e by (simp add: a)
    have "sorted (map cd_T (?a @ xs))" unfolding e using Cons.prems(1) by (simp add: a sorted_append)
    note ih = Cons.IH [OF this]
    have sa: "set ?a \<subseteq> insert x (set acc)" "cd_T ` set ?a = insert (cd_T x) (cd_T ` set acc)"
      unfolding e using a by auto
    have "sorted_wrt (<) (map cd_T ?a)" unfolding m by (rule Cons.prems(2))
    from ih [OF this] sa show ?thesis by (simp add: image_Un) blast
  next
    case False
    have e: "?a = acc @ [x]" using False by (auto simp: dedupe_step_def)
    have lt: "cd_T y < cd_T x" if y: "y \<in> set acc" for y
    proof -
      obtain ini l where a: "acc = ini @ [l]" using y by (cases acc rule: rev_cases) auto
      have "cd_T y \<le> cd_T l" using Cons.prems(2) y by (auto simp: a sorted_wrt_append)
      moreover have "cd_T l \<noteq> cd_T x" "cd_T l \<le> cd_T x" using False a last_le [of l] by auto
      ultimately show ?thesis by simp
    qed
    have "sorted_wrt (<) (map cd_T ?a)" using Cons.prems(2) lt by (auto simp: e sorted_wrt_append)
    from Cons.IH [OF _ this] Cons.prems(1) show ?thesis by (simp add: e)
  qed
qed auto

lemma dedupe_spec:
  assumes "sorted (map cd_T xs)"
  shows "sorted_wrt (<) (map cd_T (dedupe xs))" "set (dedupe xs) \<subseteq> set xs" "cd_T ` set (dedupe xs) = cd_T ` set xs"
  using dedupe_fold [of "[]" xs] assms by (simp_all add: dedupe_def)

section \<open>Properties\<close>



text \<open>A fetch fails exactly with the first failing fallback; otherwise its candles are in strictly
  increasing time, each comes from a batch, and no time that any batch has is missing.\<close>

theorem fetchCandles_complete:
  fixes cdn api baseURL coin interval now startMs endMs
  defines "rs \<equiv> map (chunk_result cdn api baseURL coin interval now startMs endMs) (chunksForRange interval startMs endMs)"
  assumes "slice_sort sorter"
  shows "case fetchCandlesFromCDN sorter cdn api now baseURL coin interval startMs endMs of
      Inl e \<Rightarrow> (\<exists>bs rest. rs = map Inr bs @ Inl e # rest)
    | Inr cs \<Rightarrow> \<exists>bs. rs = map Inr bs \<and> sorted_wrt (<) (map cd_T cs) \<and> set cs \<subseteq> set (concat bs)
        \<and> cd_T ` set cs = cd_T ` set (concat bs)"
proof (cases "batches rs")
  case (Inl e)
  then show ?thesis using batches_Inl [of rs e] by (simp add: fetchCandlesFromCDN_def rs_def)
next
  case (Inr bs)
  have so: "mset (sorter (concat bs)) = mset (concat bs)" "sorted (map cd_T (sorter (concat bs)))"
    using assms(2) by (auto simp: slice_sort_def)
  have se: "set (sorter (concat bs)) = set (concat bs)" by (rule mset_eq_setD [OF so(1)])
  show ?thesis
    using Inr batches_Inr [OF Inr] dedupe_spec [OF so(2)]
    by (auto simp add: fetchCandlesFromCDN_def rs_def [symmetric] se intro!: exI [of _ bs])
qed

definition sample_candle :: "int \<Rightarrow> Candle" where
  "sample_candle t = \<lparr>cd_T = t, cd_O = [], cd_H = [], cd_L = [], cd_C = [], cd_V = [], cd_N = 1, cd_S = []\<rparr>"

theorem fetchCandles_complete_witness:
  "\<exists>cs. fetchCandlesFromCDN (sort_key cd_T)
      (\<lambda>u. Some \<lparr>cr_Status = 200, cr_Candles = Some [sample_candle 120000, sample_candle 60000]\<rparr>)
      (\<lambda>a b. Inr []) 1000000000 ''u'' ''BTC'' ''1m'' 0 100000 = Inr cs \<and> sorted_wrt (<) (map cd_T cs)"
proof -
  let ?cdn = "\<lambda>u. Some \<lparr>cr_Status = 200, cr_Candles = Some [sample_candle 120000, sample_candle 60000]\<rparr>"
  have s: "slice_sort (sort_key cd_T)" by (simp add: slice_sort_def)
  have f: "fetchCandlesFromCDN (sort_key cd_T) ?cdn (\<lambda>a b. Inr []) 1000000000 ''u'' ''BTC'' ''1m'' 0 100000
      = Inr [sample_candle 60000]" by code_simp
  show ?thesis
    using fetchCandles_complete [OF s, where cdn = ?cdn and api = "\<lambda>a b. Inr []" and now = 1000000000
        and baseURL = "''u''" and coin = "''BTC''" and interval = "''1m''" and startMs = 0 and endMs = 100000] f by auto
qed

end
