(* ===== verification/History_Cache.thy ===== *)
theory History_Cache
  imports Go_Time "HOL-Library.List_Lexorder" "HOL-Library.Char_ord"
begin

text \<open>
  The history cache (\<^verbatim>\<open>cache.go\<close>): a doubly linked list of elements in order of use and a map from keys to
  the elements, as the code keeps them: an element is a cell of a small heap, the list and the map
  refer to cells.  The abstraction is the list of entries, most recently used first; every operation
  refines the textbook least-recently-used one.  The locale \<^verbatim>\<open>ttl_cache\<close> states what a client may
  rely on, and its interpretation on the code's operations gives that a hit is the latest value
  stored and not older than the lifetime.
\<close>

section \<open>Data\<close>

record 'v cacheEntry =
  ce_key :: gostring
  ce_value :: 'v
  ce_expiresAt :: instant

record CacheConfig =
  cc_MaxEntries :: int
  cc_TTL :: int
  cc_Disabled :: bool

record 'v historyCache =
  hc_disabled :: bool
  hc_max :: int
  hc_ttl :: int
  hc_ll :: "nat list"
  hc_cells :: "nat \<Rightarrow> 'v cacheEntry"
  hc_fresh :: nat
  hc_items :: "gostring \<rightharpoonup> nat"

definition defaultCacheMaxEntries :: int where "defaultCacheMaxEntries = 50"
definition defaultCacheTTL :: int where "defaultCacheTTL = 300000000000"

section \<open>Operations\<close>

text \<open>The cells of a new cache hold anything: no list element refers to them.\<close>

definition newHistoryCache :: "'v \<Rightarrow> CacheConfig option \<Rightarrow> 'v historyCache" where
  "newHistoryCache any cfg =
     (let c = \<lparr>hc_disabled = False, hc_max = defaultCacheMaxEntries, hc_ttl = defaultCacheTTL, hc_ll = [],
               hc_cells = (\<lambda>i. \<lparr>ce_key = [], ce_value = any, ce_expiresAt = 0\<rparr>), hc_fresh = 0,
               hc_items = Map.empty\<rparr> in
      case cfg of
        None \<Rightarrow> c
      | Some g \<Rightarrow>
          c\<lparr>hc_disabled := cc_Disabled g,
            hc_max := (if cc_MaxEntries g > 0 then cc_MaxEntries g else defaultCacheMaxEntries),
            hc_ttl := (if cc_TTL g \<noteq> 0 then cc_TTL g else defaultCacheTTL)\<rparr>)"

definition remove_cell :: "nat \<Rightarrow> gostring \<Rightarrow> 'v historyCache \<Rightarrow> 'v historyCache" where
  "remove_cell el key c = c\<lparr>hc_ll := remove1 el (hc_ll c), hc_items := (hc_items c)(key := None)\<rparr>"

definition MoveToFront :: "nat \<Rightarrow> nat list \<Rightarrow> nat list" where
  "MoveToFront el ll = el # remove1 el ll"

text \<open>\<^const>\<open>None\<close> is the nil cache.  \<^verbatim>\<open>now\<close> is what the clock says.\<close>

definition get :: "instant \<Rightarrow> gostring \<Rightarrow> 'v historyCache option \<Rightarrow> 'v option \<times> 'v historyCache option" where
  "get now key cache =
     (case cache of
        None \<Rightarrow> (None, None)
      | Some c \<Rightarrow>
          if hc_disabled c then (None, Some c)
          else (case hc_items c key of
                  None \<Rightarrow> (None, Some c)
                | Some el \<Rightarrow>
                    if hc_ttl c > 0 \<and> now > ce_expiresAt (hc_cells c el)
                    then (None, Some (remove_cell el key c))
                    else (Some (ce_value (hc_cells c el)), Some (c\<lparr>hc_ll := MoveToFront el (hc_ll c)\<rparr>))))"

text \<open>The eviction loop of \<^verbatim>\<open>set\<close>.\<close>

function evict :: "'v historyCache \<Rightarrow> 'v historyCache" where
  "evict c =
     (if int (length (hc_ll c)) > hc_max c then
        (if hc_ll c = [] then c
         else (let oldest = last (hc_ll c) in
               evict (remove_cell oldest (ce_key (hc_cells c oldest)) c)))
      else c)"
  by pat_completeness auto

termination
  by (relation "measure (\<lambda>c. length (hc_ll c))") (auto simp: remove_cell_def length_remove1)

declare evict.simps [simp del]

definition set_entry :: "instant \<Rightarrow> gostring \<Rightarrow> 'v \<Rightarrow> 'v historyCache option \<Rightarrow> 'v historyCache option" where
  "set_entry now key v cache =
     (case cache of
        None \<Rightarrow> None
      | Some c \<Rightarrow>
          if hc_disabled c then Some c
          else (case hc_items c key of
                  Some el \<Rightarrow>
                    Some (c\<lparr>hc_cells := (hc_cells c)(el := (hc_cells c el)\<lparr>ce_value := v, ce_expiresAt := now + hc_ttl c\<rparr>),
                            hc_ll := MoveToFront el (hc_ll c)\<rparr>)
                | None \<Rightarrow>
                    (let el = hc_fresh c in
                     Some (evict (c\<lparr>hc_cells := (hc_cells c)(el := \<lparr>ce_key = key, ce_value = v, ce_expiresAt = now + hc_ttl c\<rparr>),
                                    hc_fresh := el + 1, hc_ll := el # hc_ll c,
                                    hc_items := (hc_items c)(key \<mapsto> el)\<rparr>)))))"

definition delete :: "gostring \<Rightarrow> 'v historyCache option \<Rightarrow> 'v historyCache option" where
  "delete key cache =
     (case cache of
        None \<Rightarrow> None
      | Some c \<Rightarrow> (case hc_items c key of Some el \<Rightarrow> Some (remove_cell el key c) | None \<Rightarrow> Some c))"

definition clear :: "'v historyCache option \<Rightarrow> 'v historyCache option" where
  "clear cache = map_option (\<lambda>c. c\<lparr>hc_ll := [], hc_items := Map.empty\<rparr>) cache"

text \<open>\<^verbatim>\<open>buildCacheKey\<close>: a map's keys are ranged over in any order, so the result is fixed by sorting.\<close>

definition buildCacheKey :: "gostring \<Rightarrow> (gostring \<times> gostring) list \<Rightarrow> gostring" where
  "buildCacheKey pre params =
     (let keys = sort (map fst (filter (\<lambda>(k, v). v \<noteq> []) params)) in
      pre @ concat (map (\<lambda>k. ''|'' @ k @ ''='' @ the (map_of params k)) keys))"

section \<open>Abstraction\<close>

text \<open>The list and the map agree: the map sends exactly the keys of the listed cells to them.\<close>

definition cache_shape :: "'v historyCache \<Rightarrow> bool" where
  "cache_shape c \<longleftrightarrow>
     distinct (hc_ll c) \<and> (\<forall>el \<in> set (hc_ll c). el < hc_fresh c) \<and> 0 < hc_max c
     \<and> (\<forall>k el. hc_items c k = Some el \<longleftrightarrow> el \<in> set (hc_ll c) \<and> ce_key (hc_cells c el) = k)"

definition cache_ok :: "'v historyCache \<Rightarrow> bool" where
  "cache_ok c \<longleftrightarrow> cache_shape c \<and> int (length (hc_ll c)) \<le> hc_max c"

definition entry_of :: "'v cacheEntry \<Rightarrow> gostring \<times> 'v \<times> instant" where
  "entry_of e = (ce_key e, ce_value e, ce_expiresAt e)"

definition lru :: "'v historyCache \<Rightarrow> (gostring \<times> 'v \<times> instant) list" where
  "lru c = map (\<lambda>el. entry_of (hc_cells c el)) (hc_ll c)"

text \<open>The specification: entries in order of use.\<close>

definition without :: "gostring \<Rightarrow> (gostring \<times> 'b) list \<Rightarrow> (gostring \<times> 'b) list" where
  "without k es = filter (\<lambda>e. fst e \<noteq> k) es"

definition spec_get :: "int \<Rightarrow> instant \<Rightarrow> gostring \<Rightarrow> (gostring \<times> 'v \<times> instant) list
    \<Rightarrow> 'v option \<times> (gostring \<times> 'v \<times> instant) list" where
  "spec_get ttl now k es =
     (case map_of es k of
        None \<Rightarrow> (None, es)
      | Some (v, t) \<Rightarrow> if ttl > 0 \<and> now > t then (None, without k es) else (Some v, (k, v, t) # without k es))"

definition spec_set :: "int \<Rightarrow> int \<Rightarrow> instant \<Rightarrow> gostring \<Rightarrow> 'v \<Rightarrow> (gostring \<times> 'v \<times> instant) list
    \<Rightarrow> (gostring \<times> 'v \<times> instant) list" where
  "spec_set bound ttl now k v es = take (nat bound) ((k, v, now + ttl) # without k es)"

lemma cache_shapeD:
  assumes "cache_shape c"
  shows "distinct (hc_ll c)" "el \<in> set (hc_ll c) \<Longrightarrow> el < hc_fresh c" "0 < hc_max c"
    "hc_items c k = Some el \<longleftrightarrow> el \<in> set (hc_ll c) \<and> ce_key (hc_cells c el) = k"
  using assms by (auto simp: cache_shape_def)

lemma keys_inj: "cache_shape c \<Longrightarrow> inj_on (\<lambda>el. ce_key (hc_cells c el)) (set (hc_ll c))"
proof (rule inj_onI)
  fix x y
  assume c: "cache_shape c" and x: "x \<in> set (hc_ll c)" and y: "y \<in> set (hc_ll c)"
    and k: "ce_key (hc_cells c x) = ce_key (hc_cells c y)"
  have "hc_items c (ce_key (hc_cells c x)) = Some x" "hc_items c (ce_key (hc_cells c x)) = Some y"
    using cache_shapeD(4) [OF c, of "ce_key (hc_cells c x)"] x y k by simp_all
  then show "x = y" by simp
qed

lemma distinct_keys: "cache_shape c \<Longrightarrow> distinct (map fst (lru c))"
  using keys_inj [of c] cache_shapeD(1) [of c] by (simp add: lru_def entry_of_def distinct_map o_def)

lemma map_of_lru:
  assumes "cache_shape c"
  shows "map_of (lru c) k = map_option (\<lambda>el. (ce_value (hc_cells c el), ce_expiresAt (hc_cells c el))) (hc_items c k)"
proof (cases "hc_items c k")
  case None
  then have "\<forall>el \<in> set (hc_ll c). ce_key (hc_cells c el) \<noteq> k"
    using cache_shapeD(4) [OF assms, of k] by simp
  then have "k \<notin> fst ` set (lru c)" by (auto simp: lru_def entry_of_def)
  then show ?thesis using None by (simp add: map_of_eq_None_iff)
next
  case (Some el)
  then have "el \<in> set (hc_ll c)" "ce_key (hc_cells c el) = k" using cache_shapeD(4) [OF assms, of k el] by simp_all
  then have "(k, ce_value (hc_cells c el), ce_expiresAt (hc_cells c el)) \<in> set (lru c)"
    by (auto simp: lru_def entry_of_def)
  then show ?thesis using Some distinct_keys [OF assms] by simp
qed

lemma filter_remove1:
  assumes "distinct xs" "\<And>y. y \<in> set xs \<Longrightarrow> P y \<longleftrightarrow> y \<noteq> x"
  shows "filter P xs = remove1 x xs"
proof -
  have "filter P xs = filter (\<lambda>y. x \<noteq> y) xs" using assms(2) by (intro filter_cong) auto
  then show ?thesis using assms(1) by (simp add: distinct_remove1_removeAll removeAll_filter_not_eq)
qed

text \<open>Removing a cell removes its entry.\<close>

lemma remove_cell_lru:
  assumes "cache_shape c" "hc_items c k = Some el"
  shows "lru (remove_cell el k c) = without k (lru c)" "cache_shape (remove_cell el k c)"
proof -
  note d = cache_shapeD [OF assms(1)]
  have el: "el \<in> set (hc_ll c)" "ce_key (hc_cells c el) = k" using d(4) [of k el] assms(2) by simp_all
  have key: "ce_key (hc_cells c y) \<noteq> k \<longleftrightarrow> y \<noteq> el" if "y \<in> set (hc_ll c)" for y
    using that el keys_inj [OF assms(1)] by (auto dest: inj_onD)
  then have "filter (\<lambda>y. ce_key (hc_cells c y) \<noteq> k) (hc_ll c) = remove1 el (hc_ll c)"
    by (intro filter_remove1) (use d in auto)
  then show "lru (remove_cell el k c) = without k (lru c)"
    by (simp add: lru_def remove_cell_def without_def filter_map o_def entry_of_def)
  show "cache_shape (remove_cell el k c)"
    using assms(1) el key unfolding cache_shape_def remove_cell_def
    by (auto simp: length_remove1)
qed

lemma without_length: "length (without k es) \<le> length es"
  by (simp add: without_def)

lemma remove_cell_frame [simp]:
  "hc_max (remove_cell el k c) = hc_max c" "hc_ttl (remove_cell el k c) = hc_ttl c"
  "hc_disabled (remove_cell el k c) = hc_disabled c"
  by (simp_all add: remove_cell_def)

text \<open>Moving an element to the front.\<close>

lemma front_lru:
  assumes c: "cache_shape c" and i: "hc_items c k = Some el"
  shows "lru (c\<lparr>hc_ll := MoveToFront el (hc_ll c)\<rparr>) = entry_of (hc_cells c el) # without k (lru c)"
    "cache_shape (c\<lparr>hc_ll := MoveToFront el (hc_ll c)\<rparr>)"
    "length (MoveToFront el (hc_ll c)) = length (hc_ll c)"
proof -
  have el: "el \<in> set (hc_ll c)" using cache_shapeD(4) [OF c, of k el] i by simp
  show "lru (c\<lparr>hc_ll := MoveToFront el (hc_ll c)\<rparr>) = entry_of (hc_cells c el) # without k (lru c)"
    using remove_cell_lru(1) [OF c i] by (simp add: lru_def MoveToFront_def remove_cell_def)
  have s: "set (el # remove1 el (hc_ll c)) = set (hc_ll c)" "distinct (el # remove1 el (hc_ll c))"
    using el cache_shapeD(1) [OF c] by auto
  then show "cache_shape (c\<lparr>hc_ll := MoveToFront el (hc_ll c)\<rparr>)"
    using c unfolding cache_shape_def MoveToFront_def by simp
  show "length (MoveToFront el (hc_ll c)) = length (hc_ll c)"
    using el length_pos_if_in_set [OF el] by (simp add: MoveToFront_def length_remove1)
qed

lemma remove1_last: "distinct xs \<Longrightarrow> xs \<noteq> [] \<Longrightarrow> remove1 (last xs) xs = butlast xs"
  by (cases xs rule: rev_cases) (simp_all add: remove1_append)

text \<open>The eviction loop keeps the most recently used entries.\<close>

lemma evict_lru:
  "cache_shape c \<Longrightarrow> lru (evict c) = take (nat (hc_max c)) (lru c) \<and> cache_ok (evict c)
     \<and> hc_max (evict c) = hc_max c \<and> hc_ttl (evict c) = hc_ttl c \<and> hc_disabled (evict c) = hc_disabled c"
proof (induction c rule: evict.induct)
  case (1 c)
  show ?case
  proof (cases "int (length (hc_ll c)) > hc_max c")
    case True
    let ?el = "last (hc_ll c)"
    let ?k = "ce_key (hc_cells c ?el)"
    let ?c' = "remove_cell ?el ?k c"
    have ne: "hc_ll c \<noteq> []" using True cache_shapeD(3) [OF "1.prems"] by auto
    have i: "hc_items c ?k = Some ?el" using cache_shapeD(4) [OF "1.prems", of ?k ?el] ne by simp
    have u: "evict c = evict ?c'" using True ne by (subst evict.simps) (simp add: Let_def)
    note ih = "1.IH" [OF True ne refl remove_cell_lru(2) [OF "1.prems" i]]
    have "lru ?c' = butlast (lru c)"
      using remove1_last [OF cache_shapeD(1) [OF "1.prems"] ne] by (simp add: lru_def remove_cell_def map_butlast)
    moreover have "nat (hc_max c) < length (lru c)" using True cache_shapeD(3) [OF "1.prems"] by (simp add: lru_def nat_less_iff)
    ultimately show ?thesis using ih by (simp add: u take_butlast)
  next
    case False
    then have "evict c = c" by (subst evict.simps) simp
    then show ?thesis using False "1.prems" by (simp add: cache_ok_def lru_def)
  qed
qed

lemma set_new_shape:
  fixes v t
  assumes "cache_shape c" "hc_items c k = None"
  defines "c' \<equiv> c\<lparr>hc_cells := (hc_cells c)(hc_fresh c := \<lparr>ce_key = k, ce_value = v, ce_expiresAt = t\<rparr>),
    hc_fresh := hc_fresh c + 1, hc_ll := hc_fresh c # hc_ll c, hc_items := (hc_items c)(k \<mapsto> hc_fresh c)\<rparr>"
  shows "cache_shape c'" "lru c' = (k, v, t) # without k (lru c)"
proof -
  have fresh: "hc_fresh c \<notin> set (hc_ll c)" using cache_shapeD(2) [OF assms(1), of "hc_fresh c"] by auto
  have key: "ce_key (hc_cells c el) \<noteq> k" if "el \<in> set (hc_ll c)" for el
    using cache_shapeD(4) [OF assms(1), of k el] assms(2) that by simp
  show "cache_shape c'"
    using assms(1) fresh key unfolding cache_shape_def c'_def by (auto simp: less_Suc_eq)
  have "without k (lru c) = lru c"
    using key by (auto simp: without_def lru_def entry_of_def intro!: filter_True)
  then show "lru c' = (k, v, t) # without k (lru c)"
    using fresh by (auto simp: lru_def c'_def entry_of_def)
qed

lemma get_refines:
  assumes "cache_ok c" "\<not> hc_disabled c"
  shows "\<exists>c'. get now k (Some c) = (fst (spec_get (hc_ttl c) now k (lru c)), Some c')
    \<and> lru c' = snd (spec_get (hc_ttl c) now k (lru c)) \<and> cache_ok c'
    \<and> hc_max c' = hc_max c \<and> hc_ttl c' = hc_ttl c \<and> hc_disabled c' = hc_disabled c"
proof -
  have sh: "cache_shape c" and le: "int (length (hc_ll c)) \<le> hc_max c" using assms(1) by (simp_all add: cache_ok_def)
  show ?thesis
  proof (cases "hc_items c k")
    case None
    then show ?thesis using assms map_of_lru [OF sh, of k] by (simp add: get_def spec_get_def)
  next
    case (Some el)
    have k: "ce_key (hc_cells c el) = k" using cache_shapeD(4) [OF sh, of k el] Some by simp
    have m: "map_of (lru c) k = Some (ce_value (hc_cells c el), ce_expiresAt (hc_cells c el))"
      using map_of_lru [OF sh, of k] Some by simp
    show ?thesis
    proof (cases "hc_ttl c > 0 \<and> now > ce_expiresAt (hc_cells c el)")
      case True
      have "length (hc_ll (remove_cell el k c)) \<le> length (hc_ll c)" by (simp add: remove_cell_def length_remove1)
      then show ?thesis using True Some m assms(2) remove_cell_lru [OF sh Some] le
        by (simp add: get_def spec_get_def cache_ok_def)
    next
      case False
      then show ?thesis using Some m assms(2) front_lru [OF sh Some] le k
        by (auto simp: get_def spec_get_def cache_ok_def entry_of_def)
    qed
  qed
qed

lemma set_refines:
  assumes "cache_ok c" "\<not> hc_disabled c"
  shows "\<exists>c'. set_entry now k v (Some c) = Some c' \<and> cache_ok c'
    \<and> lru c' = spec_set (hc_max c) (hc_ttl c) now k v (lru c)
    \<and> hc_max c' = hc_max c \<and> hc_ttl c' = hc_ttl c \<and> hc_disabled c' = hc_disabled c"
proof -
  have sh: "cache_shape c" and le: "int (length (hc_ll c)) \<le> hc_max c" using assms(1) by (simp_all add: cache_ok_def)
  show ?thesis
  proof (cases "hc_items c k")
    case None
    show ?thesis
      using None assms(2) evict_lru [OF set_new_shape(1) [OF sh None]] set_new_shape(2) [OF sh None]
      by (simp add: set_entry_def spec_set_def Let_def)
  next
    case (Some el)
    let ?e = "(hc_cells c el)\<lparr>ce_value := v, ce_expiresAt := now + hc_ttl c\<rparr>"
    let ?c = "c\<lparr>hc_cells := (hc_cells c)(el := ?e)\<rparr>"
    have el: "el \<in> set (hc_ll c)" and k: "ce_key (hc_cells c el) = k" using cache_shapeD(4) [OF sh, of k el] Some by simp_all
    have sh': "cache_shape ?c" using sh unfolding cache_shape_def by auto
    have w: "without k (lru ?c) = without k (lru c)"
      using k by (induction "hc_ll c") (auto simp: lru_def without_def entry_of_def filter_map o_def intro!: map_cong filter_cong)
    have i: "hc_items ?c k = Some el" using Some by simp
    have "length (entry_of (hc_cells c el) # without k (lru c)) = length (hc_ll c)"
      using front_lru(3) [OF sh Some] unfolding front_lru(1) [OF sh Some, symmetric] by (simp add: lru_def)
    then have len: "length ((k, v, now + hc_ttl c) # without k (lru c)) \<le> nat (hc_max c)" using le by simp
    show ?thesis
      using Some assms(2) front_lru [OF sh' i] w le k len
      by (simp add: set_entry_def spec_set_def cache_ok_def entry_of_def)
  qed
qed

lemma delete_refines:
  assumes "cache_ok c"
  shows "\<exists>c'. delete k (Some c) = Some c' \<and> cache_ok c' \<and> lru c' = without k (lru c)
    \<and> hc_max c' = hc_max c \<and> hc_ttl c' = hc_ttl c \<and> hc_disabled c' = hc_disabled c"
proof -
  have sh: "cache_shape c" and le: "int (length (hc_ll c)) \<le> hc_max c" using assms by (simp_all add: cache_ok_def)
  show ?thesis
  proof (cases "hc_items c k")
    case None
    then have "map_of (lru c) k = None" using map_of_lru [OF sh, of k] by simp
    then have "without k (lru c) = lru c"
      by (auto simp: without_def map_of_eq_None_iff image_iff intro!: filter_True)
    then show ?thesis using None assms by (simp add: delete_def)
  next
    case (Some el)
    have "length (hc_ll (remove_cell el k c)) \<le> length (hc_ll c)" by (simp add: remove_cell_def length_remove1)
    then show ?thesis using Some remove_cell_lru [OF sh Some] le by (simp add: delete_def cache_ok_def)
  qed
qed

lemma clear_refines:
  "cache_ok c \<Longrightarrow> \<exists>c'. clear (Some c) = Some c' \<and> cache_ok c' \<and> lru c' = []
    \<and> hc_max c' = hc_max c \<and> hc_ttl c' = hc_ttl c \<and> hc_disabled c' = hc_disabled c"
  by (auto simp: clear_def cache_ok_def cache_shape_def lru_def)

lemma new_cache [simp]:
  "cache_ok (newHistoryCache any cfg)" "lru (newHistoryCache any cfg) = []"
  by (auto simp: newHistoryCache_def cache_ok_def cache_shape_def lru_def defaultCacheMaxEntries_def Let_def
      split: option.split)

section \<open>The contract of a cache with a lifetime\<close>

datatype 'v cache_op = Lookup instant gostring | Store instant gostring 'v | Drop gostring | Wipe

fun run_cache ::
    "(instant \<Rightarrow> gostring \<Rightarrow> 'c \<Rightarrow> 'v option \<times> 'c) \<Rightarrow> (instant \<Rightarrow> gostring \<Rightarrow> 'v \<Rightarrow> 'c \<Rightarrow> 'c)
       \<Rightarrow> (gostring \<Rightarrow> 'c \<Rightarrow> 'c) \<Rightarrow> ('c \<Rightarrow> 'c) \<Rightarrow> 'v cache_op list \<Rightarrow> 'c \<Rightarrow> 'c" where
  "run_cache look put del wipe [] c = c"
| "run_cache look put del wipe (x # xs) c =
     run_cache look put del wipe xs
       (case x of Lookup t k \<Rightarrow> snd (look t k c) | Store t k v \<Rightarrow> put t k v c | Drop k \<Rightarrow> del k c | Wipe \<Rightarrow> wipe c)"

text \<open>The value last stored under each key and not dropped since, with the time it was stored.\<close>

fun latest :: "'v cache_op list \<Rightarrow> (gostring \<rightharpoonup> 'v \<times> instant) \<Rightarrow> gostring \<rightharpoonup> 'v \<times> instant" where
  "latest [] m = m"
| "latest (x # xs) m =
     latest xs (case x of Lookup t k \<Rightarrow> m | Store t k v \<Rightarrow> m(k \<mapsto> (v, t)) | Drop k \<Rightarrow> m(k := None) | Wipe \<Rightarrow> Map.empty)"

locale ttl_cache =
  fixes life :: int
    and content :: "'c \<Rightarrow> gostring \<rightharpoonup> 'v \<times> instant"
    and look :: "instant \<Rightarrow> gostring \<Rightarrow> 'c \<Rightarrow> 'v option \<times> 'c"
    and put :: "instant \<Rightarrow> gostring \<Rightarrow> 'v \<Rightarrow> 'c \<Rightarrow> 'c"
    and del :: "gostring \<Rightarrow> 'c \<Rightarrow> 'c"
    and wipe :: "'c \<Rightarrow> 'c"
    and ok :: "'c \<Rightarrow> bool"
  assumes ok_look: "ok c \<Longrightarrow> ok (snd (look t k c))"
    and ok_put: "ok c \<Longrightarrow> ok (put t k v c)"
    and ok_del: "ok c \<Longrightarrow> ok (del k c)"
    and ok_wipe: "ok c \<Longrightarrow> ok (wipe c)"
    and hit: "ok c \<Longrightarrow> fst (look t k c) = Some v \<Longrightarrow> \<exists>e. content c k = Some (v, e) \<and> (0 < life \<longrightarrow> t \<le> e)"
    and content_look: "ok c \<Longrightarrow> content (snd (look t k c)) \<subseteq>\<^sub>m content c"
    and content_put: "ok c \<Longrightarrow> content (put t k v c) \<subseteq>\<^sub>m (content c)(k \<mapsto> (v, t + life))"
    and content_del: "ok c \<Longrightarrow> content (del k c) \<subseteq>\<^sub>m (content c)(k := None)"
    and content_wipe: "ok c \<Longrightarrow> content (wipe c) = Map.empty"
begin

definition backed :: "'c \<Rightarrow> (gostring \<rightharpoonup> 'v \<times> instant) \<Rightarrow> bool" where
  "backed c m \<longleftrightarrow> (\<forall>k v e. content c k = Some (v, e) \<longrightarrow> (\<exists>t. m k = Some (v, t) \<and> e = t + life))"

lemma backed_sub: "backed c m \<Longrightarrow> content c' \<subseteq>\<^sub>m content c \<Longrightarrow> backed c' m"
  unfolding backed_def by (metis map_le_def domI)

lemma backed_put:
  assumes "ok c" "backed c m"
  shows "backed (put t k v c) (m(k \<mapsto> (v, t)))"
proof (unfold backed_def, intro allI impI)
  fix j w e
  assume "content (put t k v c) j = Some (w, e)"
  then have "((content c)(k \<mapsto> (v, t + life))) j = Some (w, e)"
    using content_put [OF assms(1), of t k v] by (metis map_le_def domI)
  then show "\<exists>t'. (m(k \<mapsto> (v, t))) j = Some (w, t') \<and> e = t' + life"
    using assms(2) by (auto simp: backed_def split: if_splits)
qed

lemma backed_del:
  assumes "ok c" "backed c m"
  shows "backed (del k c) (m(k := None))"
proof (unfold backed_def, intro allI impI)
  fix j w e
  assume "content (del k c) j = Some (w, e)"
  then have "((content c)(k := None)) j = Some (w, e)"
    using content_del [OF assms(1), of k] by (metis map_le_def domI)
  then show "\<exists>t'. (m(k := None)) j = Some (w, t') \<and> e = t' + life"
    using assms(2) by (auto simp: backed_def split: if_splits)
qed

lemma run_backed:
  "ok c \<Longrightarrow> backed c m \<Longrightarrow> ok (run_cache look put del wipe xs c)
     \<and> backed (run_cache look put del wipe xs c) (latest xs m)"
proof (induction xs arbitrary: c m)
  case (Cons x xs)
  show ?case
  proof (cases x)
    case (Lookup t k)
    then show ?thesis
      using Cons.IH [OF ok_look [OF Cons.prems(1)] backed_sub [OF Cons.prems(2) content_look [OF Cons.prems(1)]], of t k]
      by simp
  next
    case (Store t k v)
    then show ?thesis
      using Cons.IH [OF ok_put [OF Cons.prems(1)] backed_put [OF Cons.prems], of t k v] by (simp add: fun_upd_def)
  next
    case (Drop k)
    then show ?thesis using Cons.IH [OF ok_del [OF Cons.prems(1)] backed_del [OF Cons.prems], of k] by (simp add: fun_upd_def)
  next
    case Wipe
    have "backed (wipe c) Map.empty" using content_wipe [OF Cons.prems(1)] by (simp add: backed_def)
    then show ?thesis using Cons.IH [OF ok_wipe [OF Cons.prems(1)]] Wipe by simp
  qed
qed simp

text \<open>A hit is the latest value stored, and within its lifetime.\<close>

lemma hit_latest:
  assumes "ok c" "content c = Map.empty" "fst (look t k (run_cache look put del wipe xs c)) = Some v"
  shows "\<exists>s. latest xs Map.empty k = Some (v, s) \<and> (0 < life \<longrightarrow> t \<le> s + life)"
proof -
  have "backed c Map.empty" using assms(2) by (simp add: backed_def)
  then have r: "ok (run_cache look put del wipe xs c)" "backed (run_cache look put del wipe xs c) (latest xs Map.empty)"
    using run_backed [OF assms(1)] by blast+
  obtain e where e: "content (run_cache look put del wipe xs c) k = Some (v, e)" "0 < life \<longrightarrow> t \<le> e"
    using hit [OF r(1) assms(3)] by blast
  then obtain s where "latest xs Map.empty k = Some (v, s)" "e = s + life" using r(2) unfolding backed_def by blast
  then show ?thesis using e(2) by blast
qed

end

text \<open>The code's cache meets the contract.\<close>

definition cache_content :: "'v historyCache option \<Rightarrow> gostring \<rightharpoonup> 'v \<times> instant" where
  "cache_content cache = (case cache of None \<Rightarrow> Map.empty | Some c \<Rightarrow> map_of (lru c))"

definition cache_good :: "int \<Rightarrow> 'v historyCache option \<Rightarrow> bool" where
  "cache_good life cache = (case cache of None \<Rightarrow> True | Some c \<Rightarrow> cache_ok c \<and> hc_ttl c = life \<and> (hc_disabled c \<longrightarrow> lru c = []))"

lemma map_of_without: "map_of (without k es) = (map_of es)(k := None)"
  by (induction es) (auto simp: without_def fun_eq_iff)

lemma without_Nil [simp]: "without k [] = []"
  by (simp add: without_def)

lemma map_of_take_le: "map_of (take n es) \<subseteq>\<^sub>m map_of es"
  unfolding map_le_def by (metis append_take_drop_id map_add_dom_app_simps(1) map_of_append map_add_find_right domIff option.exhaust)

lemma spec_get_content:
  "map_of (snd (spec_get ttl t k es)) \<subseteq>\<^sub>m map_of es"
  "fst (spec_get ttl t k es) = Some v \<Longrightarrow> \<exists>e. map_of es k = Some (v, e) \<and> (0 < ttl \<longrightarrow> t \<le> e)"
  by (auto simp: spec_get_def map_le_def map_of_without split: option.splits if_splits)

lemma spec_set_content: "map_of (spec_set n ttl t k v es) \<subseteq>\<^sub>m (map_of es)(k \<mapsto> (v, t + ttl))"
  unfolding spec_set_def
  by (rule map_le_trans [OF map_of_take_le]) (auto simp: map_of_without map_le_def)

lemma get_disabled: "hc_disabled c \<Longrightarrow> get t k (Some c) = (None, Some c)" "hc_disabled c \<Longrightarrow> set_entry t k v (Some c) = Some c"
  by (simp_all add: get_def set_entry_def)

lemma get_contract:
  assumes "cache_good life c"
  shows "cache_good life (snd (get t k c)) \<and> cache_content (snd (get t k c)) \<subseteq>\<^sub>m cache_content c
    \<and> (\<forall>v. fst (get t k c) = Some v \<longrightarrow> (\<exists>e. cache_content c k = Some (v, e) \<and> (0 < life \<longrightarrow> t \<le> e)))"
proof (cases "c = None \<or> hc_disabled (the c)")
  case True
  then show ?thesis using assms by (cases c) (auto simp: get_def cache_content_def cache_good_def)
next
  case False
  then obtain d where d: "c = Some d" "cache_ok d" "hc_ttl d = life" "\<not> hc_disabled d"
    using assms by (auto simp: cache_good_def)
  from get_refines [OF d(2,4), of t k] show ?thesis
    using d spec_get_content [of life t k "lru d"] by (auto simp: cache_good_def cache_content_def)
qed

lemma set_contract:
  assumes "cache_good life c"
  shows "cache_good life (set_entry t k v c)
    \<and> cache_content (set_entry t k v c) \<subseteq>\<^sub>m (cache_content c)(k \<mapsto> (v, t + life))"
proof (cases "c = None \<or> hc_disabled (the c)")
  case True
  then show ?thesis using assms by (cases c) (auto simp: set_entry_def cache_content_def cache_good_def map_le_def)
next
  case False
  then obtain d where d: "c = Some d" "cache_ok d" "hc_ttl d = life" "\<not> hc_disabled d"
    using assms by (auto simp: cache_good_def)
  from set_refines [OF d(2,4), of t k v] show ?thesis
    using d spec_set_content [of "hc_max d" life t k v "lru d"] by (auto simp: cache_good_def cache_content_def)
qed

lemma delete_contract:
  assumes "cache_good life c"
  shows "cache_good life (delete k c) \<and> cache_content (delete k c) \<subseteq>\<^sub>m (cache_content c)(k := None)"
proof (cases c)
  case None
  then show ?thesis by (simp add: delete_def cache_content_def cache_good_def)
next
  case (Some d)
  then have d: "cache_ok d" "hc_ttl d = life" "hc_disabled d \<longrightarrow> lru d = []" using assms by (simp_all add: cache_good_def)
  from delete_refines [OF d(1), of k] show ?thesis
    using Some d by (auto simp: cache_good_def cache_content_def map_of_without)
qed

lemma clear_contract:
  assumes "cache_good life c"
  shows "cache_good life (clear c) \<and> cache_content (clear c) = Map.empty"
proof (cases c)
  case None
  then show ?thesis by (simp add: clear_def cache_content_def cache_good_def)
next
  case (Some d)
  with assms have "cache_ok d" "hc_ttl d = life" by (simp_all add: cache_good_def)
  with clear_refines [of d] show ?thesis using Some by (auto simp: cache_good_def cache_content_def)
qed

interpretation history: ttl_cache life cache_content get set_entry delete clear "cache_good life" for life
proof
  fix c :: "'a historyCache option" and t k v
  assume ok: "cache_good life c"
  note g = get_contract [OF ok, of t k] and p = set_contract [OF ok, of t k v]
    and d = delete_contract [OF ok, of k] and w = clear_contract [OF ok]
  show "cache_good life (snd (get t k c))" "cache_content (snd (get t k c)) \<subseteq>\<^sub>m cache_content c"
    "fst (get t k c) = Some v \<Longrightarrow> \<exists>e. cache_content c k = Some (v, e) \<and> (0 < life \<longrightarrow> t \<le> e)"
    using g by auto
  show "cache_good life (set_entry t k v c)"
    "cache_content (set_entry t k v c) \<subseteq>\<^sub>m (cache_content c)(k \<mapsto> (v, t + life))"
    using p by auto
  show "cache_good life (delete k c)" "cache_content (delete k c) \<subseteq>\<^sub>m (cache_content c)(k := None)"
    using d by auto
  show "cache_good life (clear c)" "cache_content (clear c) = Map.empty" using w by auto
qed

section \<open>Properties\<close>

text \<open>C18: whatever was done to a cache before, a hit returns the value last stored under its key (and not
  deleted or cleared since), stored no longer ago than the lifetime.\<close>

theorem cache_hit_is_latest:
  assumes "fst (get now k (run_cache get set_entry delete clear xs (Some (newHistoryCache any cfg)))) = Some v"
  shows "\<exists>t. latest xs Map.empty k = Some (v, t)
    \<and> (0 < hc_ttl (newHistoryCache any cfg) \<longrightarrow> now \<le> t + hc_ttl (newHistoryCache any cfg))"
  by (rule history.hit_latest [OF _ _ assms]) (simp_all add: cache_good_def cache_content_def)

text \<open>On an enabled cache every operation is the one of a list kept in order of use and cut to the
  configured number of entries: what a lookup returns, which entries are kept and which are evicted.\<close>

theorem cache_is_lru:
  assumes "cache_ok c" "\<not> hc_disabled c"
  shows "\<exists>c1 c2 c3. get now k (Some c) = (fst (spec_get (hc_ttl c) now k (lru c)), Some c1)
      \<and> lru c1 = snd (spec_get (hc_ttl c) now k (lru c)) \<and> cache_ok c1
    \<and> set_entry now k v (Some c) = Some c2 \<and> lru c2 = spec_set (hc_max c) (hc_ttl c) now k v (lru c) \<and> cache_ok c2
    \<and> delete k (Some c) = Some c3 \<and> lru c3 = without k (lru c) \<and> cache_ok c3
    \<and> int (length (lru c2)) \<le> hc_max c"
proof -
  obtain c1 where 1: "get now k (Some c) = (fst (spec_get (hc_ttl c) now k (lru c)), Some c1)"
    "lru c1 = snd (spec_get (hc_ttl c) now k (lru c))" "cache_ok c1"
    using get_refines [OF assms, of now k] by blast
  obtain c2 where 2: "set_entry now k v (Some c) = Some c2" "lru c2 = spec_set (hc_max c) (hc_ttl c) now k v (lru c)"
    "cache_ok c2" "hc_max c2 = hc_max c"
    using set_refines [OF assms, of now k v] by blast
  obtain c3 where 3: "delete k (Some c) = Some c3" "lru c3 = without k (lru c)" "cache_ok c3"
    using delete_refines [OF assms(1), of k] by blast
  have "int (length (lru c2)) \<le> hc_max c" using 2(3,4) by (simp add: cache_ok_def lru_def)
  then show ?thesis using 1 2 3 by blast
qed

definition tiny_cache :: "nat historyCache" where
  "tiny_cache = newHistoryCache 0 (Some \<lparr>cc_MaxEntries = 1, cc_TTL = 10, cc_Disabled = False\<rparr>)"

theorem cache_hit_is_latest_witness:
  "\<exists>t. latest [Store 0 ''a'' 1, Store 1 ''b'' (2 :: nat)] Map.empty ''b'' = Some (2, t) \<and> (7 :: int) \<le> t + 10"
proof -
  have "fst (get 7 ''b'' (run_cache get set_entry delete clear [Store 0 ''a'' 1, Store 1 ''b'' 2] (Some tiny_cache))) = Some 2"
    by code_simp
  moreover have "hc_ttl tiny_cache = 10" by code_simp
  ultimately show ?thesis
    using cache_hit_is_latest [of 7 "''b''" "[Store 0 ''a'' 1, Store 1 ''b'' 2]" 0
        "Some \<lparr>cc_MaxEntries = 1, cc_TTL = 10, cc_Disabled = False\<rparr>" 2]
    by (simp add: tiny_cache_def)
qed

theorem cache_is_lru_witness:
  "\<exists>c2. set_entry 5 ''a'' 1 (Some tiny_cache) = Some c2 \<and> lru c2 = [(''a'', 1, 15)]"
proof -
  have "cache_ok tiny_cache" by (simp add: tiny_cache_def)
  moreover have "\<not> hc_disabled tiny_cache" "lru tiny_cache = []" "hc_ttl tiny_cache = 10" "hc_max tiny_cache = 1"
    by (simp_all add: tiny_cache_def newHistoryCache_def lru_def)
  ultimately show ?thesis
    using cache_is_lru [of tiny_cache 5 "''a''" 1] by (auto simp: spec_set_def without_def)
qed

end
