(* ===== verification/Cached_Reads.thy ===== *)
theory Cached_Reads
  imports History_Cache Candle_Cdn "HOL-Library.Signed_Division"
begin

text \<open>
  The reads that go through the history cache: candles, open interest and funding of \<^verbatim>\<open>marketdata.go\<close>,
  equity and P&L history of \<^verbatim>\<open>aggregation.go\<close>.  The platform is an argument: whether the client is
  ready, and what each endpoint answers to its query parameters.  A read returns \<^const>\<open>None\<close> where the
  code's type assertion on a cached value panics; the lemmas show that this cannot happen, because
  the keys of different reads never collide, and that a key determines the parameters it was built of.
\<close>

section \<open>Data\<close>

record CandlesResponse =
  cs_Market :: gostring
  cs_Interval :: gostring
  cs_Candles :: "Candle list"

record OIBar =
  oi_T :: int
  oi_OIOpen :: gostring
  oi_OIHigh :: gostring
  oi_OILow :: gostring
  oi_OIClose :: gostring
  oi_NtlVlm :: gostring
  oi_Mark :: gostring
  oi_S :: gostring

record OIHistoryResponse =
  oh_Market :: gostring
  oh_Interval :: gostring
  oh_Bars :: "OIBar list"

record FundingObservation =
  fo_T :: int
  fo_FundingRate :: gostring
  fo_Premium :: gostring
  fo_S :: gostring

record FundingHistoryResponse =
  fh_Market :: gostring
  fh_Funding :: "FundingObservation list"

record v2HistoryPoint =
  vp_Ts :: gostring
  vp_EquityUsd :: gostring
  vp_UnflooredEquityUsd :: gostring
  vp_Status :: gostring
  vp_CumInflowsUsd :: gostring
  vp_CumOutflowsUsd :: gostring
  vp_PnlUsd :: gostring
  vp_ValueUsd :: gostring

record v2HistoryResponse =
  vh_Resolution :: gostring
  vh_ResolutionRequested :: gostring
  vh_BucketSeconds :: int
  vh_ServerNow :: gostring
  vh_Points :: "v2HistoryPoint list"

record ExternalFlowEntry =
  xf_OperationID :: gostring
  xf_Type :: gostring
  xf_Direction :: gostring
  xf_Amount :: gostring
  xf_Denomination :: gostring
  xf_ValueUsd :: gostring
  xf_SourceArcaPath :: "gostring option"
  xf_TargetArcaPath :: "gostring option"
  xf_Timestamp :: gostring

record v2PnlHistoryResponse =
  vq_Resolution :: gostring
  vq_ResolutionRequested :: gostring
  vq_BucketSeconds :: int
  vq_ServerNow :: gostring
  vq_StartEquityUsd :: gostring
  vq_StartingEquityUsd :: gostring
  vq_ExternalFlows :: "ExternalFlowEntry list option"
  vq_MidPrices :: "(gostring \<times> gostring) list option"
  vq_Points :: "v2HistoryPoint list"

record EquityPoint =
  eq_Timestamp :: gostring
  eq_EquityUsd :: gostring
  eq_UnflooredEquityUsd :: gostring
  eq_Status :: gostring
  eq_CumInflowsUsd :: gostring
  eq_CumOutflowsUsd :: gostring

record EquityHistoryResponse =
  eh_Prefix :: gostring
  eh_From :: gostring
  eh_To :: gostring
  eh_Points :: int
  eh_Resolution :: gostring
  eh_ResolutionRequested :: gostring
  eh_BucketSeconds :: int
  eh_ServerNow :: gostring
  eh_EquityPoints :: "EquityPoint list"

record PnlPoint =
  pl_Timestamp :: gostring
  pl_PnlUsd :: gostring
  pl_EquityUsd :: gostring
  pl_UnflooredEquityUsd :: gostring
  pl_Status :: gostring
  pl_CumInflowsUsd :: gostring
  pl_CumOutflowsUsd :: gostring
  pl_ValueUsd :: gostring

record PnlHistoryResponse =
  ph_Prefix :: gostring
  ph_From :: gostring
  ph_To :: gostring
  ph_Points :: int
  ph_Resolution :: gostring
  ph_ResolutionRequested :: gostring
  ph_BucketSeconds :: int
  ph_ServerNow :: gostring
  ph_StartingEquityUsd :: gostring
  ph_PnlPoints :: "PnlPoint list"
  ph_ExternalFlows :: "ExternalFlowEntry list"
  ph_MidPrices :: "(gostring \<times> gostring) list"

text \<open>What the cache holds: \<^verbatim>\<open>any\<close>, of which these are the types the reads put in.\<close>

datatype cached =
    Candles CandlesResponse | OIHistory OIHistoryResponse | FundingHistory FundingHistoryResponse
  | EquityHistory EquityHistoryResponse | PnlHistory PnlHistoryResponse

type_synonym cache = "cached historyCache option"
type_synonym params = "(gostring \<times> gostring) list"
type_synonym 'r read = "((error + 'r) \<times> cache) option"

record read_env =
  en_ready :: "error + gostring"
  en_cdnBase :: gostring
  en_cdn :: "gostring \<Rightarrow> cdn_reply option"
  en_sorter :: "Candle list \<Rightarrow> Candle list"
  en_candles :: "gostring \<Rightarrow> params \<Rightarrow> error + CandlesResponse"
  en_oi :: "gostring \<Rightarrow> params \<Rightarrow> error + OIHistoryResponse"
  en_funding :: "gostring \<Rightarrow> params \<Rightarrow> error + FundingHistoryResponse"
  en_equity :: "params \<Rightarrow> error + v2HistoryResponse"
  en_pnl :: "params \<Rightarrow> error + v2PnlHistoryResponse"
  en_now :: int
  en_getAt :: instant
  en_setAt :: instant

record GetCandlesOptions =
  go_StartTime :: "int option"
  go_EndTime :: "int option"
  go_SkipBackfill :: bool

record HistoryScopeOptions =
  hs_Kind :: gostring
  hs_ObjectID :: gostring

record PnlHistoryOptions =
  po_Scope :: HistoryScopeOptions
  po_Anchor :: gostring

section \<open>Market data\<close>

definition intervalMs :: "gostring \<Rightarrow> int" where
  "intervalMs interval =
     (if interval = Interval15s then 15000 else if interval = Interval1m then 60000
      else if interval = Interval5m then 300000 else if interval = Interval15m then 900000
      else if interval = Interval1h then 3600000 else if interval = Interval4h then 14400000
      else if interval = Interval1d then 86400000 else 0)"

definition time_param :: "gostring \<Rightarrow> int option \<Rightarrow> params" where
  "time_param name t = (case t of Some ms \<Rightarrow> [(name, show_int ms)] | None \<Rightarrow> [])"

definition candles_end :: "read_env \<Rightarrow> gostring \<Rightarrow> GetCandlesOptions option \<Rightarrow> int" where
  "candles_end env interval opts =
     (let ivMs = (if intervalMs interval = 0 then 60000 else intervalMs interval) in
      case Option.bind opts go_EndTime of
        Some t \<Rightarrow> t
      | None \<Rightarrow> (en_now env sdiv ivMs) * ivMs)"

definition candles_key :: "read_env \<Rightarrow> gostring \<Rightarrow> gostring \<Rightarrow> GetCandlesOptions option \<Rightarrow> gostring" where
  "candles_key env coin interval opts =
     buildCacheKey ''candles''
       ([(''coin'', coin), (''interval'', interval), (''endTime'', show_int (candles_end env interval opts))]
        @ time_param ''startTime'' (Option.bind opts go_StartTime))"

definition skip_param :: "GetCandlesOptions option \<Rightarrow> params" where
  "skip_param opts =
     (if (case opts of Some g \<Rightarrow> go_SkipBackfill g | None \<Rightarrow> False) then [(''skipBackfill'', ''true'')] else [])"

definition apiFetch ::
    "read_env \<Rightarrow> gostring \<Rightarrow> gostring \<Rightarrow> GetCandlesOptions option \<Rightarrow> int \<Rightarrow> int \<Rightarrow> error + Candle list" where
  "apiFetch env coin interval opts start end_ms =
     (case en_candles env (''/exchange/market/candles/'' @ coin)
             ([(''interval'', interval), (''startTime'', show_int start), (''endTime'', show_int end_ms)]
              @ skip_param opts) of
        Inl e \<Rightarrow> Inl e | Inr r \<Rightarrow> Inr (cs_Candles r))"

definition GetCandles ::
    "read_env \<Rightarrow> gostring \<Rightarrow> gostring \<Rightarrow> GetCandlesOptions option \<Rightarrow> cache \<Rightarrow> CandlesResponse read" where
  "GetCandles env coin interval opts cache =
     (let ivMs = (if intervalMs interval = 0 then 60000 else intervalMs interval);
          effectiveEnd = candles_end env interval opts;
          key = candles_key env coin interval opts;
          startTime = Option.bind opts go_StartTime in
      case get (en_getAt env) key cache of
        (Some (Candles r), cache1) \<Rightarrow> Some (Inr r, cache1)
      | (Some other, cache1) \<Rightarrow> None
      | (None, cache1) \<Rightarrow>
          Some (case en_ready env of
            Inl e \<Rightarrow> (Inl e, cache1)
          | Inr realm \<Rightarrow>
              if en_cdnBase env \<noteq> [] \<and> interval \<noteq> Interval15s then
                (let startMs = (case startTime of Some t \<Rightarrow> t | None \<Rightarrow> en_now env - ivMs * 300) in
                 case fetchCandlesFromCDN (en_sorter env) (en_cdn env) (apiFetch env coin interval opts)
                        (en_now env) (en_cdnBase env) coin interval startMs effectiveEnd of
                   Inl e \<Rightarrow> (Inl e, cache1)
                 | Inr cs \<Rightarrow>
                     (let r = \<lparr>cs_Market = coin, cs_Interval = interval, cs_Candles = cs\<rparr> in
                      (Inr r, set_entry (en_setAt env) key (Candles r) cache1)))
              else
                (case en_candles env (''/exchange/market/candles/'' @ coin)
                        ([(''interval'', interval)] @ time_param ''startTime'' startTime
                         @ time_param ''endTime'' (Option.bind opts go_EndTime) @ skip_param opts) of
                   Inl e \<Rightarrow> (Inl e, cache1)
                 | Inr r \<Rightarrow> (Inr r, set_entry (en_setAt env) key (Candles r) cache1))))"

definition GetOIHistory ::
    "read_env \<Rightarrow> gostring \<Rightarrow> gostring \<Rightarrow> (int option \<times> int option) option \<Rightarrow> cache \<Rightarrow> OIHistoryResponse read" where
  "GetOIHistory env coin interval opts cache =
     (let startTime = Option.bind opts fst; endTime = Option.bind opts snd;
          key = buildCacheKey ''oiHistory'' ([(''coin'', coin), (''interval'', interval)]
                  @ time_param ''startTime'' startTime @ time_param ''endTime'' endTime) in
      case get (en_getAt env) key cache of
        (Some (OIHistory r), cache1) \<Rightarrow> Some (Inr r, cache1)
      | (Some other, cache1) \<Rightarrow> None
      | (None, cache1) \<Rightarrow>
          Some (case en_ready env of
            Inl e \<Rightarrow> (Inl e, cache1)
          | Inr realm \<Rightarrow>
              (case en_oi env (''/exchange/market/oi/'' @ coin)
                      ([(''interval'', interval)] @ time_param ''startTime'' startTime @ time_param ''endTime'' endTime) of
                 Inl e \<Rightarrow> (Inl e, cache1)
               | Inr r \<Rightarrow> (Inr r, if length (oh_Bars r) > 0 then set_entry (en_setAt env) key (OIHistory r) cache1
                                  else cache1))))"

definition GetFundingHistory ::
    "read_env \<Rightarrow> gostring \<Rightarrow> (int option \<times> int option) option \<Rightarrow> cache \<Rightarrow> FundingHistoryResponse read" where
  "GetFundingHistory env market opts cache =
     (let startTime = Option.bind opts fst; endTime = Option.bind opts snd;
          key = buildCacheKey ''fundingHistory'' ([(''market'', market)]
                  @ time_param ''startTime'' startTime @ time_param ''endTime'' endTime) in
      case get (en_getAt env) key cache of
        (Some (FundingHistory r), cache1) \<Rightarrow> Some (Inr r, cache1)
      | (Some other, cache1) \<Rightarrow> None
      | (None, cache1) \<Rightarrow>
          Some (case en_ready env of
            Inl e \<Rightarrow> (Inl e, cache1)
          | Inr realm \<Rightarrow>
              (case en_funding env (''/exchange/market/funding/'' @ market)
                      (time_param ''startTime'' startTime @ time_param ''endTime'' endTime) of
                 Inl e \<Rightarrow> (Inl e, cache1)
               | Inr r \<Rightarrow> (Inr r, if length (fh_Funding r) > 0
                                  then set_entry (en_setAt env) key (FundingHistory r) cache1 else cache1))))"

section \<open>Equity and P&L history\<close>

definition validatePath :: "gostring \<Rightarrow> error option" where
  "validatePath path =
     (if HasPrefix path ''/'' then None
      else Some (Arca ValidationError (newArcaError ''VALIDATION_ERROR''
        (''Path must start with '' @ [CHR 39] @ ''/'' @ [CHR 39] @ ''. Got: '' @ [CHR 34] @ path @ [CHR 34]
         @ ''. Use a trailing slash for aggregation (e.g. '' @ [CHR 39] @ ''/users/alice/'' @ [CHR 39]
         @ '') or an exact path for a single object (e.g. '' @ [CHR 39] @ ''/users/alice/main'' @ [CHR 39] @ '').'') [])))"

definition resolveHistoryScope :: "gostring \<Rightarrow> gostring \<Rightarrow> gostring \<times> gostring" where
  "resolveHistoryScope kind objectID = (if kind = ''object'' then (''object'', objectID) else (''path'', []))"

definition normalizeV2EquityHistory ::
    "gostring \<Rightarrow> gostring \<Rightarrow> gostring \<Rightarrow> v2HistoryResponse \<Rightarrow> EquityHistoryResponse" where
  "normalizeV2EquityHistory path from to resp =
     (let pts = map (\<lambda>p. \<lparr>eq_Timestamp = vp_Ts p, eq_EquityUsd = vp_EquityUsd p,
                          eq_UnflooredEquityUsd = vp_UnflooredEquityUsd p, eq_Status = vp_Status p,
                          eq_CumInflowsUsd = vp_CumInflowsUsd p, eq_CumOutflowsUsd = vp_CumOutflowsUsd p\<rparr>)
                  (vh_Points resp) in
      \<lparr>eh_Prefix = path, eh_From = from, eh_To = to, eh_Points = int (length pts),
       eh_Resolution = vh_Resolution resp, eh_ResolutionRequested = vh_ResolutionRequested resp,
       eh_BucketSeconds = vh_BucketSeconds resp, eh_ServerNow = vh_ServerNow resp, eh_EquityPoints = pts\<rparr>)"

definition normalizeV2PnlHistory ::
    "gostring \<Rightarrow> gostring \<Rightarrow> gostring \<Rightarrow> v2PnlHistoryResponse \<Rightarrow> PnlHistoryResponse" where
  "normalizeV2PnlHistory path from to resp =
     (let pts = map (\<lambda>p. \<lparr>pl_Timestamp = vp_Ts p, pl_PnlUsd = vp_PnlUsd p, pl_EquityUsd = vp_EquityUsd p,
                          pl_UnflooredEquityUsd = vp_UnflooredEquityUsd p, pl_Status = vp_Status p,
                          pl_CumInflowsUsd = vp_CumInflowsUsd p, pl_CumOutflowsUsd = vp_CumOutflowsUsd p,
                          pl_ValueUsd = vp_ValueUsd p\<rparr>) (vq_Points resp);
          start1 = vq_StartEquityUsd resp;
          start2 = (if start1 = [] then vq_StartingEquityUsd resp else start1);
          start3 = (if start2 = [] then ''0'' else start2) in
      \<lparr>ph_Prefix = path, ph_From = from, ph_To = to, ph_Points = int (length pts),
       ph_Resolution = vq_Resolution resp, ph_ResolutionRequested = vq_ResolutionRequested resp,
       ph_BucketSeconds = vq_BucketSeconds resp, ph_ServerNow = vq_ServerNow resp,
       ph_StartingEquityUsd = start3, ph_PnlPoints = pts,
       ph_ExternalFlows = (case vq_ExternalFlows resp of Some fs \<Rightarrow> fs | None \<Rightarrow> []),
       ph_MidPrices = (case vq_MidPrices resp of Some ms \<Rightarrow> ms | None \<Rightarrow> [])\<rparr>)"

definition GetEquityHistory ::
    "read_env \<Rightarrow> gostring \<Rightarrow> gostring \<Rightarrow> gostring \<Rightarrow> int \<Rightarrow> HistoryScopeOptions option \<Rightarrow> cache
       \<Rightarrow> EquityHistoryResponse read" where
  "GetEquityHistory env path from to points opts cache =
     (case validatePath path of
        Some e \<Rightarrow> Some (Inl e, cache)
      | None \<Rightarrow>
          (let n = (if points \<le> 0 then 1000 else points);
               (kind, objectID) = (case opts of
                  None \<Rightarrow> (''path'', []) | Some s \<Rightarrow> resolveHistoryScope (hs_Kind s) (hs_ObjectID s));
               key = buildCacheKey ''equityHistory''
                 [(''target'', path), (''kind'', kind), (''objectId'', objectID), (''from'', from), (''to'', to),
                  (''points'', show_int n)] in
           case get (en_getAt env) key cache of
             (Some (EquityHistory r), cache1) \<Rightarrow> Some (Inr r, cache1)
           | (Some other, cache1) \<Rightarrow> None
           | (None, cache1) \<Rightarrow>
               Some (case en_ready env of
                 Inl e \<Rightarrow> (Inl e, cache1)
               | Inr realm \<Rightarrow>
                   (case en_equity env ([(''realmId'', realm), (''target'', path), (''kind'', kind), (''from'', from),
                           (''to'', to), (''points'', show_int n)]
                           @ (if objectID \<noteq> [] then [(''objectId'', objectID)] else [])) of
                      Inl e \<Rightarrow> (Inl e, cache1)
                    | Inr v2 \<Rightarrow>
                        (let out = normalizeV2EquityHistory path from to v2 in
                         (Inr out, set_entry (en_setAt env) key (EquityHistory out) cache1))))))"

definition GetPnlHistory ::
    "read_env \<Rightarrow> gostring \<Rightarrow> gostring \<Rightarrow> gostring \<Rightarrow> int \<Rightarrow> PnlHistoryOptions option \<Rightarrow> cache
       \<Rightarrow> PnlHistoryResponse read" where
  "GetPnlHistory env path from to points opts cache =
     (case validatePath path of
        Some e \<Rightarrow> Some (Inl e, cache)
      | None \<Rightarrow>
          (let n = (if points \<le> 0 then 1000 else points);
               anchor = (case opts of Some s \<Rightarrow> if po_Anchor s \<noteq> [] then po_Anchor s else ''zero'' | None \<Rightarrow> ''zero'');
               (kind, objectID) = (case opts of
                  None \<Rightarrow> (''path'', [])
                | Some s \<Rightarrow> resolveHistoryScope (hs_Kind (po_Scope s)) (hs_ObjectID (po_Scope s)));
               key = buildCacheKey ''pnlHistory''
                 [(''target'', path), (''kind'', kind), (''objectId'', objectID), (''from'', from), (''to'', to),
                  (''points'', show_int n), (''anchor'', anchor)] in
           case get (en_getAt env) key cache of
             (Some (PnlHistory r), cache1) \<Rightarrow> Some (Inr r, cache1)
           | (Some other, cache1) \<Rightarrow> None
           | (None, cache1) \<Rightarrow>
               Some (case en_ready env of
                 Inl e \<Rightarrow> (Inl e, cache1)
               | Inr realm \<Rightarrow>
                   (case en_pnl env ([(''realmId'', realm), (''target'', path), (''kind'', kind), (''from'', from),
                           (''to'', to), (''points'', show_int n), (''anchor'', anchor)]
                           @ (if objectID \<noteq> [] then [(''objectId'', objectID)] else [])) of
                      Inl e \<Rightarrow> (Inl e, cache1)
                    | Inr v2 \<Rightarrow>
                        (let out = normalizeV2PnlHistory path from to v2 in
                         (Inr out, set_entry (en_setAt env) key (PnlHistory out) cache1))))))"

section \<open>Types of cached values\<close>

definition key_prefix :: "cached \<Rightarrow> gostring" where
  "key_prefix v =
     (case v of Candles r \<Rightarrow> ''candles'' | OIHistory r \<Rightarrow> ''oiHistory'' | FundingHistory r \<Rightarrow> ''fundingHistory''
      | EquityHistory r \<Rightarrow> ''equityHistory'' | PnlHistory r \<Rightarrow> ''pnlHistory'')"

definition typed :: "int \<Rightarrow> cache \<Rightarrow> bool" where
  "typed life c \<longleftrightarrow> cache_good life c \<and> (\<forall>k v e. cache_content c k = Some (v, e) \<longrightarrow> HasPrefix k (key_prefix v))"

lemma buildCacheKey_prefix: "HasPrefix (buildCacheKey pre ps) pre"
  by (simp add: buildCacheKey_def Let_def)

lemma HasPrefix_hd: "HasPrefix k p \<Longrightarrow> p \<noteq> [] \<Longrightarrow> hd k = hd p"
  by (metis HasPrefix_def hd_take length_greater_0_conv)

lemma prefix_kind:
  assumes "HasPrefix k (key_prefix v)" "HasPrefix k (key_prefix w)"
  shows "key_prefix v = key_prefix w"
proof -
  have ne: "key_prefix x \<noteq> []" for x by (simp add: key_prefix_def split: cached.split)
  have "hd (key_prefix v) = hd (key_prefix w)"
    using HasPrefix_hd [OF assms(1) ne] HasPrefix_hd [OF assms(2) ne] by simp
  then show ?thesis by (cases v; cases w) (simp_all add: key_prefix_def)
qed

lemma typed_get:
  assumes "typed life c" "get t (buildCacheKey (key_prefix w) ps) c = (r, c')"
  shows "typed life c'" "r = Some v \<Longrightarrow> key_prefix v = key_prefix w"
proof -
  have g: "cache_good life c" using assms(1) by (simp add: typed_def)
  have le: "cache_content c' \<subseteq>\<^sub>m cache_content c" "cache_good life c'"
    using history.content_look [OF g, of t] history.ok_look [OF g, of t] assms(2) by (metis snd_conv)+
  then show "typed life c'" using assms(1) unfolding typed_def by (metis domI map_le_def)
  assume "r = Some v"
  then obtain e where "cache_content c (buildCacheKey (key_prefix w) ps) = Some (v, e)"
    using history.hit [OF g, of t _ v] assms(2) by (metis fst_conv)
  then have "HasPrefix (buildCacheKey (key_prefix w) ps) (key_prefix v)" using assms(1) unfolding typed_def by blast
  then show "key_prefix v = key_prefix w" using prefix_kind buildCacheKey_prefix by blast
qed

lemma typed_set:
  assumes "typed life c"
  shows "typed life (set_entry t (buildCacheKey (key_prefix v) ps) v c)"
proof -
  have g: "cache_good life c" using assms by (simp add: typed_def)
  let ?k = "buildCacheKey (key_prefix v) ps"
  let ?c = "set_entry t ?k v c"
  have "HasPrefix k (key_prefix u)" if "cache_content ?c k = Some (u, e)" for k u e
  proof -
    have "((cache_content c)(?k \<mapsto> (v, t + life))) k = Some (u, e)"
      using history.content_put [OF g, of t ?k v] that by (metis domI map_le_def)
    then show ?thesis using assms buildCacheKey_prefix [of "key_prefix v" ps]
      by (auto simp: typed_def split: if_splits)
  qed
  then show ?thesis using history.ok_put [OF g] by (simp add: typed_def)
qed

lemma key_prefix_cases:
  "key_prefix v = ''candles'' \<longleftrightarrow> (\<exists>r. v = Candles r)" "key_prefix v = ''oiHistory'' \<longleftrightarrow> (\<exists>r. v = OIHistory r)"
  "key_prefix v = ''fundingHistory'' \<longleftrightarrow> (\<exists>r. v = FundingHistory r)"
  "key_prefix v = ''equityHistory'' \<longleftrightarrow> (\<exists>r. v = EquityHistory r)"
  "key_prefix v = ''pnlHistory'' \<longleftrightarrow> (\<exists>r. v = PnlHistory r)"
  by (auto simp: key_prefix_def split: cached.splits)

lemma key_prefix_simps [simp]:
  "key_prefix (Candles a) = ''candles''" "key_prefix (OIHistory b) = ''oiHistory''"
  "key_prefix (FundingHistory f) = ''fundingHistory''" "key_prefix (EquityHistory e) = ''equityHistory''"
  "key_prefix (PnlHistory p) = ''pnlHistory''"
  by (simp_all add: key_prefix_def)

text \<open>What the cache answers a read: a value of the read's own type, or nothing.\<close>

lemmas typed_get_own =
  typed_get [where w = "Candles undefined", simplified] typed_get [where w = "OIHistory undefined", simplified]
  typed_get [where w = "FundingHistory undefined", simplified] typed_get [where w = "EquityHistory undefined", simplified]
  typed_get [where w = "PnlHistory undefined", simplified]

lemmas typed_set_own =
  typed_set [where v = "Candles r" for r, simplified] typed_set [where v = "OIHistory r" for r, simplified]
  typed_set [where v = "FundingHistory r" for r, simplified] typed_set [where v = "EquityHistory r" for r, simplified]
  typed_set [where v = "PnlHistory r" for r, simplified]

section \<open>Sequences of reads\<close>

datatype read_call =
    ReadCandles read_env gostring gostring "GetCandlesOptions option"
  | ReadOI read_env gostring gostring "(int option \<times> int option) option"
  | ReadFunding read_env gostring "(int option \<times> int option) option"
  | ReadEquity read_env gostring gostring gostring int "HistoryScopeOptions option"
  | ReadPnl read_env gostring gostring gostring int "PnlHistoryOptions option"
  | ClearHistoryCache

definition tag :: "('r \<Rightarrow> cached) \<Rightarrow> 'r read \<Rightarrow> ((error + cached) option \<times> cache) option" where
  "tag f r = map_option (\<lambda>(x, c). (Some (map_sum id f x), c)) r"

fun perform :: "read_call \<Rightarrow> cache \<Rightarrow> ((error + cached) option \<times> cache) option" where
  "perform (ReadCandles env coin interval opts) c = tag Candles (GetCandles env coin interval opts c)"
| "perform (ReadOI env coin interval opts) c = tag OIHistory (GetOIHistory env coin interval opts c)"
| "perform (ReadFunding env market opts) c = tag FundingHistory (GetFundingHistory env market opts c)"
| "perform (ReadEquity env path from to n opts) c = tag EquityHistory (GetEquityHistory env path from to n opts c)"
| "perform (ReadPnl env path from to n opts) c = tag PnlHistory (GetPnlHistory env path from to n opts c)"
| "perform ClearHistoryCache c = Some (None, clear c)"

fun perform_all :: "read_call list \<Rightarrow> cache \<Rightarrow> cache option" where
  "perform_all [] c = Some c"
| "perform_all (x # xs) c = (case perform x c of None \<Rightarrow> None | Some (r, c') \<Rightarrow> perform_all xs c')"

lemma typed_clear: "typed life c \<Longrightarrow> typed life (clear c)"
  using history.ok_wipe [of life c] history.content_wipe [of life c] by (simp add: typed_def)

lemma candles_typed:
  assumes "typed life c"
  shows "\<exists>r c'. GetCandles env coin interval opts c = Some (r, c') \<and> typed life c'"
proof -
  obtain r c' where g: "get (en_getAt env) (candles_key env coin interval opts) c = (r, c')" by fastforce
  note t = typed_get_own(1,2) [OF assms g [unfolded candles_key_def]]
  have ts: "typed life (set_entry tm (candles_key env coin interval opts) (Candles x) c')" for tm x
    unfolding candles_key_def by (rule typed_set_own(1) [OF t(1)])
  show ?thesis
  proof (cases r)
    case None
    then show ?thesis
      using t(1) ts g by (cases "interval = Interval15s") (simp_all add: GetCandles_def Let_def split: sum.split)
  next
    case (Some v)
    then obtain x where "v = Candles x" using t(2) by (auto simp: key_prefix_cases)
    then show ?thesis using t(1) Some by (simp add: GetCandles_def Let_def g)
  qed
qed

lemma oi_typed:
  assumes "typed life c"
  shows "\<exists>r c'. GetOIHistory env coin interval opts c = Some (r, c') \<and> typed life c'"
proof -
  define k where "k = buildCacheKey ''oiHistory'' ([(''coin'', coin), (''interval'', interval)]
    @ time_param ''startTime'' (Option.bind opts fst) @ time_param ''endTime'' (Option.bind opts snd))"
  obtain r c' where g: "get (en_getAt env) k c = (r, c')" by fastforce
  note t = typed_get_own(3,4) [OF assms g [unfolded k_def]]
  have ts: "typed life (set_entry tm k (OIHistory x) c')" for tm x
    unfolding k_def by (rule typed_set_own(2) [OF t(1)])
  show ?thesis
  proof (cases r)
    case None
    then show ?thesis using t(1) g [unfolded k_def] ts [unfolded k_def] by (simp add: GetOIHistory_def Let_def  split: sum.split)
  next
    case (Some v)
    then obtain x where "v = OIHistory x" using t(2) by (auto simp: key_prefix_cases)
    then show ?thesis using t(1) Some g [unfolded k_def] by (simp add: GetOIHistory_def Let_def)
  qed
qed

lemma funding_typed:
  assumes "typed life c"
  shows "\<exists>r c'. GetFundingHistory env market opts c = Some (r, c') \<and> typed life c'"
proof -
  define k where "k = buildCacheKey ''fundingHistory'' ([(''market'', market)]
    @ time_param ''startTime'' (Option.bind opts fst) @ time_param ''endTime'' (Option.bind opts snd))"
  obtain r c' where g: "get (en_getAt env) k c = (r, c')" by fastforce
  note t = typed_get_own(5,6) [OF assms g [unfolded k_def]]
  have ts: "typed life (set_entry tm k (FundingHistory x) c')" for tm x
    unfolding k_def by (rule typed_set_own(3) [OF t(1)])
  show ?thesis
  proof (cases r)
    case None
    then show ?thesis using t(1) g [unfolded k_def] ts [unfolded k_def] by (simp add: GetFundingHistory_def Let_def  split: sum.split)
  next
    case (Some v)
    then obtain x where "v = FundingHistory x" using t(2) by (auto simp: key_prefix_cases)
    then show ?thesis using t(1) Some g [unfolded k_def] by (simp add: GetFundingHistory_def Let_def)
  qed
qed

lemma equity_typed:
  assumes "typed life c"
  shows "\<exists>r c'. GetEquityHistory env path from to n opts c = Some (r, c') \<and> typed life c'"
proof -
  obtain kind objectID where ko: "(case opts of None \<Rightarrow> (''path'', [])
      | Some s \<Rightarrow> resolveHistoryScope (hs_Kind s) (hs_ObjectID s)) = (kind, objectID)" by fastforce
  define k where "k = buildCacheKey ''equityHistory''
    [(''target'', path), (''kind'', kind), (''objectId'', objectID), (''from'', from), (''to'', to),
     (''points'', show_int (if n \<le> 0 then 1000 else n))]"
  obtain r c' where g: "get (en_getAt env) k c = (r, c')" by fastforce
  note t = typed_get_own(7,8) [OF assms g [unfolded k_def]]
  have ts: "typed life (set_entry tm k (EquityHistory x) c')" for tm x
    unfolding k_def by (rule typed_set_own(4) [OF t(1)])
  show ?thesis
  proof (cases r)
    case None
    then show ?thesis using t(1) assms g [unfolded k_def] ts [unfolded k_def]
      by (cases "validatePath path")
        (simp_all add: GetEquityHistory_def Let_def ko split: sum.split split del: if_split)
  next
    case (Some v)
    then obtain x where "v = EquityHistory x" using t(2) by (auto simp: key_prefix_cases)
    then show ?thesis using t(1) Some assms g [unfolded k_def]
      by (cases "validatePath path") (simp_all add: GetEquityHistory_def Let_def ko split del: if_split)
  qed
qed

lemma pnl_typed:
  assumes "typed life c"
  shows "\<exists>r c'. GetPnlHistory env path from to n opts c = Some (r, c') \<and> typed life c'"
proof -
  obtain kind objectID where ko: "(case opts of None \<Rightarrow> (''path'', [])
      | Some s \<Rightarrow> resolveHistoryScope (hs_Kind (po_Scope s)) (hs_ObjectID (po_Scope s))) = (kind, objectID)" by fastforce
  define k where "k = buildCacheKey ''pnlHistory''
    [(''target'', path), (''kind'', kind), (''objectId'', objectID), (''from'', from), (''to'', to),
     (''points'', show_int (if n \<le> 0 then 1000 else n)),
     (''anchor'', case opts of Some s \<Rightarrow> if po_Anchor s \<noteq> [] then po_Anchor s else ''zero'' | None \<Rightarrow> ''zero'')]"
  obtain r c' where g: "get (en_getAt env) k c = (r, c')" by fastforce
  note t = typed_get_own(9,10) [OF assms g [unfolded k_def]]
  have ts: "typed life (set_entry tm k (PnlHistory x) c')" for tm x
    unfolding k_def by (rule typed_set_own(5) [OF t(1)])
  show ?thesis
  proof (cases r)
    case None
    then show ?thesis using t(1) assms g [unfolded k_def] ts [unfolded k_def]
      by (cases "validatePath path")
        (simp_all add: GetPnlHistory_def Let_def ko split: sum.split split del: if_split)
  next
    case (Some v)
    then obtain x where "v = PnlHistory x" using t(2) by (auto simp: key_prefix_cases)
    then show ?thesis using t(1) Some assms g [unfolded k_def]
      by (cases "validatePath path") (simp_all add: GetPnlHistory_def Let_def ko split del: if_split)
  qed
qed

lemma perform_typed:
  assumes "typed life c"
  shows "\<exists>r c'. perform x c = Some (r, c') \<and> typed life c'"
proof (cases x)
  case (ReadCandles env coin interval opts)
  then show ?thesis using candles_typed [OF assms, of env coin interval opts] by (auto simp: tag_def)
next
  case (ReadOI env coin interval opts)
  then show ?thesis using oi_typed [OF assms, of env coin interval opts] by (auto simp: tag_def)
next
  case (ReadFunding env market opts)
  then show ?thesis using funding_typed [OF assms, of env market opts] by (auto simp: tag_def)
next
  case (ReadEquity env path begin_at end_at n opts)
  then show ?thesis using equity_typed [OF assms, of env path begin_at end_at n opts] by (auto simp: tag_def)
next
  case (ReadPnl env path begin_at end_at n opts)
  then show ?thesis using pnl_typed [OF assms, of env path begin_at end_at n opts] by (auto simp: tag_def)
next
  case ClearHistoryCache
  then show ?thesis using typed_clear [OF assms] by simp
qed

lemma perform_all_typed: "typed life c \<Longrightarrow> \<exists>c'. perform_all xs c = Some c' \<and> typed life c'"
proof (induction xs arbitrary: c)
  case (Cons x xs)
  obtain r c' where p: "perform x c = Some (r, c')" "typed life c'" using perform_typed [OF Cons.prems, of x] by blast
  then show ?case using Cons.IH [OF p(2)] by simp
qed simp

section \<open>Keys determine their parameters\<close>

definition clean_params :: "params \<Rightarrow> bool" where
  "clean_params ps \<longleftrightarrow>
     distinct (map fst ps)
     \<and> list_all (\<lambda>(k, v). CHR ''|'' \<notin> set k \<and> CHR ''|'' \<notin> set v \<and> CHR ''='' \<notin> set k) ps"

text \<open>The parameters that enter a key: those with a value.\<close>

definition given :: "params \<Rightarrow> gostring \<rightharpoonup> gostring" where
  "given ps k = (case map_of ps k of Some v \<Rightarrow> if v = [] then None else Some v | None \<Rightarrow> None)"

definition key_items :: "params \<Rightarrow> gostring list" where
  "key_items ps = map (\<lambda>k. k @ ''='' @ the (map_of ps k)) (sort (map fst (filter (\<lambda>(k, v). v \<noteq> []) ps)))"

lemma buildCacheKey_items: "buildCacheKey pre ps = pre @ concat (map (\<lambda>i. CHR ''|'' # i) (key_items ps))"
  by (simp add: buildCacheKey_def key_items_def Let_def o_def)

lemma Split_items:
  "CHR ''|'' \<notin> set pre \<Longrightarrow> list_all (\<lambda>i. CHR ''|'' \<notin> set i) items
     \<Longrightarrow> SplitByte (CHR ''|'') (pre @ concat (map (\<lambda>i. CHR ''|'' # i) items)) = pre # items"
proof (induction items arbitrary: pre)
  case Nil
  then show ?case by (simp add: SplitByte_notin)
next
  case (Cons i items)
  have "SplitByte (CHR ''|'') (pre @ CHR ''|'' # (i @ concat (map (\<lambda>i. CHR ''|'' # i) items)))
      = pre # SplitByte (CHR ''|'') (i @ concat (map (\<lambda>i. CHR ''|'' # i) items))"
    by (rule SplitByte_append [OF Cons.prems(1)])
  then show ?case using Cons.IH [of i] Cons.prems(2) by simp
qed

lemma given_keys:
  assumes "clean_params ps"
  shows "k \<in> fst ` set (filter (\<lambda>(k, v). v \<noteq> []) ps) \<longleftrightarrow> given ps k \<noteq> None"
proof
  have d: "distinct (map fst ps)" using assms by (simp add: clean_params_def)
  assume "k \<in> fst ` set (filter (\<lambda>(k, v). v \<noteq> []) ps)"
  then obtain v where "(k, v) \<in> set ps" "v \<noteq> []" by auto
  then show "given ps k \<noteq> None" using map_of_is_SomeI [OF d] by (simp add: given_def)
next
  assume "given ps k \<noteq> None"
  then obtain v where "map_of ps k = Some v" "v \<noteq> []" by (auto simp: given_def split: option.splits if_splits)
  then have "(k, v) \<in> set (filter (\<lambda>(k, v). v \<noteq> []) ps)" by (simp add: map_of_SomeD)
  then show "k \<in> fst ` set (filter (\<lambda>(k, v). v \<noteq> []) ps)" by (metis fst_conv imageI)
qed

lemma given_value: "given ps k = Some v \<Longrightarrow> map_of ps k = Some v"
  by (auto simp: given_def split: option.splits if_splits)

lemma key_item:
  assumes "clean_params ps" "k \<in> fst ` set (filter (\<lambda>(k, v). v \<noteq> []) ps)"
  obtains v where "given ps k = Some v" "map_of ps k = Some v" "CHR ''|'' \<notin> set (k @ ''='' @ v)" "CHR ''='' \<notin> set k"
proof -
  obtain v where v: "given ps k = Some v" using assms given_keys by blast
  have "(k, v) \<in> set ps" using map_of_SomeD [OF given_value [OF v]] .
  then have "CHR ''|'' \<notin> set (k @ ''='' @ v)" "CHR ''='' \<notin> set k"
    using assms(1) by (auto simp: clean_params_def list_all_iff)
  then show ?thesis using that v given_value by blast
qed

lemma key_items_clean:
  assumes "clean_params ps"
  shows "list_all (\<lambda>i. CHR ''|'' \<notin> set i) (key_items ps)"
proof -
  have "CHR ''|'' \<notin> set (k @ ''='' @ the (map_of ps k))" if "k \<in> fst ` set (filter (\<lambda>(k, v). v \<noteq> []) ps)" for k
    by (rule key_item [OF assms that]) simp
  then show ?thesis unfolding key_items_def list_all_iff set_map set_sort by blast
qed

lemma key_items_given:
  assumes "clean_params ps"
  shows "map (CutByte (CHR ''='')) (key_items ps)
    = map (\<lambda>k. (k, the (given ps k), True)) (sort (map fst (filter (\<lambda>(k, v). v \<noteq> []) ps)))"
proof -
  have "CutByte (CHR ''='') (k @ ''='' @ the (map_of ps k)) = (k, the (given ps k), True)"
    if "k \<in> fst ` set (filter (\<lambda>(k, v). v \<noteq> []) ps)" for k
  proof (rule key_item [OF assms that])
    fix v
    assume "given ps k = Some v" "map_of ps k = Some v" "CHR ''='' \<notin> set k"
    then show ?thesis using CutByte_hit [of "CHR ''=''" k v] by simp
  qed
  then show ?thesis unfolding key_items_def map_map o_def by (intro map_cong refl) (simp only: set_map set_sort)
qed

section \<open>Properties\<close>

text \<open>No sequence of cached reads and clears, on a client with or without a cache, ever fails the type
  assertion on a cached value: every key holds a value of the read that builds keys of its kind.\<close>

theorem cached_reads_never_panic:
  "(\<exists>c. perform_all xs (Some (newHistoryCache any cfg)) = Some c
      \<and> typed (hc_ttl (newHistoryCache any cfg)) c)
   \<and> (\<exists>c. perform_all xs None = Some c)"
proof -
  have "typed (hc_ttl (newHistoryCache any cfg)) (Some (newHistoryCache any cfg))"
    by (simp add: typed_def cache_good_def cache_content_def)
  moreover have "typed 0 None" by (simp add: typed_def cache_good_def cache_content_def)
  ultimately show ?thesis using perform_all_typed by blast
qed

text \<open>A cache key determines what it was built of: two keys are equal only if their prefixes are and
  the same parameters have the same values.\<close>

theorem cache_key_determines_params:
  assumes "clean_params ps" "clean_params qs" "CHR ''|'' \<notin> set pre" "CHR ''|'' \<notin> set pre'"
    and eq: "buildCacheKey pre ps = buildCacheKey pre' qs"
  shows "pre = pre' \<and> given ps = given qs"
proof -
  have "pre # key_items ps = pre' # key_items qs"
    using arg_cong [OF eq, of "SplitByte (CHR ''|'')"]
    unfolding buildCacheKey_items Split_items [OF assms(3) key_items_clean [OF assms(1)]]
      Split_items [OF assms(4) key_items_clean [OF assms(2)]] .
  then have pre: "pre = pre'" and it: "key_items ps = key_items qs" by simp_all
  define ks where "ks xs = sort (map fst (filter (\<lambda>(k, v). v \<noteq> []) xs))" for xs :: params
  have m: "map (\<lambda>k. (k, the (given ps k), True)) (ks ps) = map (\<lambda>k. (k, the (given qs k), True)) (ks qs)"
    using key_items_given [OF assms(1)] key_items_given [OF assms(2)] it by (simp add: ks_def)
  then have "map fst (map (\<lambda>k. (k, the (given ps k), True)) (ks ps)) = map fst (map (\<lambda>k. (k, the (given qs k), True)) (ks qs))"
    by simp
  then have k: "ks ps = ks qs" by (simp add: o_def)
  have s: "set (ks xs) = {k. given xs k \<noteq> None}" if "clean_params xs" for xs
    using given_keys [OF that] unfolding ks_def set_sort set_map by blast
  have "given ps x = given qs x" for x
  proof (cases "x \<in> set (ks ps)")
    case True
    then have "the (given ps x) = the (given qs x)" using m unfolding k map_eq_conv by simp
    moreover have "given ps x \<noteq> None" "given qs x \<noteq> None" using True k s [OF assms(1)] s [OF assms(2)] by auto
    ultimately show ?thesis by auto
  next
    case False
    have "x \<notin> {k. given ps k \<noteq> None}" using False unfolding s [OF assms(1)] .
    moreover have "x \<notin> {k. given qs k \<noteq> None}" using False unfolding k s [OF assms(2)] .
    ultimately show ?thesis by simp
  qed
  then show ?thesis using pre by blast
qed

theorem cache_key_determines_params_witness:
  "given [(''coin'', ''BTC''), (''startTime'', [])] = given [(''coin'', ''BTC'')]"
  using cache_key_determines_params [of "[(''coin'', ''BTC''), (''startTime'', [])]" "[(''coin'', ''BTC'')]" "''c''" "''c''"]
  by (simp add: clean_params_def buildCacheKey_def)

text \<open>The key of a candles read says nothing of \<^verbatim>\<open>SkipBackfill\<close>, though the request does: what was read
  without backfill answers a later read that asks for it.\<close>

lemma candles_key_ignores_skip_backfill:
  "candles_key env coin interval (Some (g\<lparr>go_SkipBackfill := True\<rparr>))
     = candles_key env coin interval (Some (g\<lparr>go_SkipBackfill := False\<rparr>))
   \<and> skip_param (Some (g\<lparr>go_SkipBackfill := True\<rparr>)) \<noteq> skip_param (Some (g\<lparr>go_SkipBackfill := False\<rparr>))"
  by (simp add: candles_key_def candles_end_def skip_param_def)

end
