(* ===== verification/Market_Meta.thy ===== *)
theory Market_Meta
  imports Go_Numbers Api_Errors "HOL-Library.List_Lexorder" "HOL-Library.Char_ord" "HOL-Library.Multiset"
begin

text \<open>
  Market metadata (\<^verbatim>\<open>marketdata.go\<close>, \<^verbatim>\<open>market_identity.go\<close>): the lazily loaded map of markets, the lookup
  by canonical id and the resolution of a symbol.  Go ranges over a map in any order: the order is an
  argument, and the lemmas show that resolving does not depend on it and never guesses.
\<close>

section \<open>Data\<close>

text \<open>The fields of a market the resolution and the order calls read.\<close>

record Market =
  mk_Name :: gostring
  mk_Dex :: gostring
  mk_Symbol :: gostring
  mk_Exchange :: gostring
  mk_SzDecimals :: int
  mk_MinOrderNotionalUsd :: rat
  mk_OnlyIsolated :: bool
  mk_MarginModes :: "gostring list"

record ResolveMarketsOptions =
  rm_Exchange :: gostring
  rm_Dex :: gostring

type_synonym meta = "gostring \<rightharpoonup> Market"

section \<open>Loading\<close>

definition meta_of :: "Market list \<Rightarrow> meta" where
  "meta_of universe = foldl (\<lambda>m market. m(mk_Name market \<mapsto> market)) Map.empty universe"

text \<open>\<^verbatim>\<open>cache\<close> is \<^verbatim>\<open>metaCache\<close>, \<^verbatim>\<open>fetched\<close> what \<^verbatim>\<open>GetMarketMeta\<close> returns.\<close>

definition ensureMetaLoaded :: "error + Market list \<Rightarrow> meta option \<Rightarrow> (error + meta) \<times> meta option" where
  "ensureMetaLoaded fetched cache =
     (case cache of
        Some m \<Rightarrow> (Inr m, cache)
      | None \<Rightarrow> (case fetched of
                   Inl e \<Rightarrow> (Inl e, cache)
                 | Inr universe \<Rightarrow> (Inr (meta_of universe), Some (meta_of universe))))"

definition PreloadMarketMeta :: "error + Market list \<Rightarrow> meta option \<Rightarrow> error option \<times> meta option" where
  "PreloadMarketMeta fetched cache =
     (case ensureMetaLoaded fetched cache of
        (Inl e, c) \<Rightarrow> (Some e, c) | (Inr m, c) \<Rightarrow> (None, c))"

definition RefreshMarketMeta :: "error + Market list \<Rightarrow> meta option \<Rightarrow> error option \<times> meta option" where
  "RefreshMarketMeta fetched cache = PreloadMarketMeta fetched None"

definition lookup_market ::
    "error + Market list \<Rightarrow> meta option \<Rightarrow> gostring \<Rightarrow> (error + Market option) \<times> meta option" where
  "lookup_market fetched cache i =
     (case ensureMetaLoaded fetched cache of (Inl e, c) \<Rightarrow> (Inl e, c) | (Inr m, c) \<Rightarrow> (Inr (m i), c))"

section \<open>Resolution\<close>

definition market_matches :: "gostring \<Rightarrow> ResolveMarketsOptions option \<Rightarrow> Market \<Rightarrow> bool" where
  "market_matches symbol opts market \<longleftrightarrow>
     mk_Symbol market = symbol
     \<and> (case opts of
          None \<Rightarrow> True
        | Some opt \<Rightarrow> (rm_Exchange opt = [] \<or> mk_Exchange market = rm_Exchange opt)
                   \<and> (rm_Dex opt = [] \<or> mk_Dex market = rm_Dex opt))"

text \<open>\<^verbatim>\<open>iter\<close> is the order in which the loop ranges over the map.\<close>

definition select_markets :: "(gostring \<times> Market) list \<Rightarrow> gostring \<Rightarrow> ResolveMarketsOptions option \<Rightarrow> Market list" where
  "select_markets iter symbol opts = filter (market_matches symbol opts) (map snd iter)"

definition filterDesc :: "ResolveMarketsOptions option \<Rightarrow> gostring" where
  "filterDesc opts =
     (case opts of
        None \<Rightarrow> []
      | Some opt \<Rightarrow>
          if rm_Exchange opt = [] \<and> rm_Dex opt = [] then []
          else '' (filters: '' @ Join '', '' ((if rm_Exchange opt \<noteq> [] then [''exchange='' @ rm_Exchange opt] else [])
                                     @ (if rm_Dex opt \<noteq> [] then [''dex='' @ rm_Dex opt] else [])) @ '')'')"

text \<open>\<^verbatim>\<open>%q\<close> on text without control characters.\<close>

definition go_quote :: "gostring \<Rightarrow> gostring" where
  "go_quote s =
     CHR 34 # concat (map (\<lambda>c. if c = CHR 34 \<or> c = CHR 92 then [CHR 92, c] else [c]) s) @ [CHR 34]"

definition none_found :: "gostring \<Rightarrow> gostring \<Rightarrow> error" where
  "none_found symbol where_text =
     Arca ValidationError (newArcaError ''VALIDATION_ERROR''
       (''No market found for symbol '' @ go_quote symbol @ where_text
        @ ''. Pass a canonical id to Market(), or list candidates with ResolveMarkets('' @ go_quote symbol @ '').'') [])"

definition ambiguous :: "gostring \<Rightarrow> gostring \<Rightarrow> gostring list \<Rightarrow> error" where
  "ambiguous symbol where_text names =
     Arca ValidationError (newArcaError ''VALIDATION_ERROR''
       (''Symbol '' @ go_quote symbol @ where_text @ '' is ambiguous '' @ [CHR 0xE2, CHR 0x80, CHR 0x94] @ '' ''
        @ show_nat (length names) @ '' markets match: '' @ Join '', '' (sort names)
        @ ''. Narrow with Exchange / Dex, or call Market(id) with the exact canonical id.'') [])"

definition single_market :: "Market list \<Rightarrow> gostring \<Rightarrow> ResolveMarketsOptions option \<Rightarrow> error + Market" where
  "single_market matches symbol opts =
     (let where_text = filterDesc opts in
      if length matches = 0 then Inl (none_found symbol where_text)
      else if length matches > 1 then Inl (ambiguous symbol where_text (map mk_Name matches))
      else Inr (matches ! 0))"

text \<open>\<^verbatim>\<open>order\<close> gives the order in which a loop ranges over a map.\<close>

definition ResolveMarkets ::
    "(meta \<Rightarrow> (gostring \<times> Market) list) \<Rightarrow> error + Market list \<Rightarrow> meta option \<Rightarrow> gostring
       \<Rightarrow> ResolveMarketsOptions option \<Rightarrow> (error + Market list) \<times> meta option" where
  "ResolveMarkets order fetched cache symbol opts =
     (case ensureMetaLoaded fetched cache of
        (Inl e, c) \<Rightarrow> (Inl e, c)
      | (Inr m, c) \<Rightarrow> (Inr (select_markets (order m) symbol opts), c))"

definition ResolveMarket ::
    "(meta \<Rightarrow> (gostring \<times> Market) list) \<Rightarrow> error + Market list \<Rightarrow> meta option \<Rightarrow> gostring
       \<Rightarrow> ResolveMarketsOptions option \<Rightarrow> (error + Market) \<times> meta option" where
  "ResolveMarket order fetched cache symbol opts =
     (case ResolveMarkets order fetched cache symbol opts of
        (Inl e, c) \<Rightarrow> (Inl e, c)
      | (Inr matches, c) \<Rightarrow> (single_market matches symbol opts, c))"

section \<open>Canonical identifiers\<close>

definition all_digits :: "gostring \<Rightarrow> bool" where
  "all_digits s \<longleftrightarrow> s \<noteq> [] \<and> list_all is_digit s"

definition IsCanonicalMarketID :: "gostring \<Rightarrow> bool" where
  "IsCanonicalMarketID raw =
     (let i = TrimSpace raw in
      if list_ex (\<lambda>c. c = CHR '' '' \<or> c = CHR 9 \<or> c = CHR 10) i then False
      else case SplitByte (CHR '':'') i of
        [a, b] \<Rightarrow> a = ''gllt'' \<and> all_digits b
      | [a, b, c] \<Rightarrow> a \<noteq> [] \<and> a \<noteq> ''gllt'' \<and> c \<noteq> [] \<and> all_digits b
      | _ \<Rightarrow> False)"

section \<open>Lemmas\<close>

definition enumerates :: "(gostring \<times> Market) list \<Rightarrow> meta \<Rightarrow> bool" where
  "enumerates iter m \<longleftrightarrow> distinct (map fst iter) \<and> map_of iter = m"

definition candidates :: "meta \<Rightarrow> gostring \<Rightarrow> ResolveMarketsOptions option \<Rightarrow> gostring set" where
  "candidates m symbol opts = {k. \<exists>mk. m k = Some mk \<and> market_matches symbol opts mk}"

lemma mset_enumeration:
  assumes "enumerates xs m" "enumerates ys m"
  shows "mset xs = mset ys"
proof -
  have "distinct xs" "distinct ys" using assms by (auto simp: enumerates_def distinct_map)
  moreover have "set xs = set ys"
    using assms unfolding enumerates_def by (metis map_of_inject_set)
  ultimately show ?thesis by (simp add: set_eq_iff_mset_eq_distinct)
qed

lemma candidates_filter:
  assumes "enumerates iter m"
  shows "candidates m symbol opts = fst ` set (filter (\<lambda>(k, mk). market_matches symbol opts mk) iter)"
proof -
  have d: "distinct (map fst iter)" and mo: "map_of iter = m" using assms by (simp_all add: enumerates_def)
  have "m k = Some mk \<longleftrightarrow> (k, mk) \<in> set iter" for k mk using d mo by (metis map_of_eq_Some_iff)
  then show ?thesis by (force simp: candidates_def image_iff)
qed

lemma card_candidates:
  assumes "enumerates iter m"
  shows "card (candidates m symbol opts) = length (select_markets iter symbol opts)"
proof -
  let ?f = "filter (\<lambda>(k, mk). market_matches symbol opts mk) iter"
  have "distinct (map fst ?f)" using assms by (simp add: enumerates_def distinct_map_filter)
  then have "card (set (map fst ?f)) = length ?f" using distinct_card by fastforce
  moreover have "length ?f = length (select_markets iter symbol opts)"
    by (simp add: select_markets_def filter_map o_def case_prod_beta')
  ultimately show ?thesis using candidates_filter [OF assms] by simp
qed

lemma single_market_never_guesses:
  assumes "enumerates iter m"
  shows "(case single_market (select_markets iter symbol opts) symbol opts of
            Inr mk \<Rightarrow> \<exists>k. candidates m symbol opts = {k} \<and> m k = Some mk
          | Inl e \<Rightarrow> card (candidates m symbol opts) \<noteq> 1 \<and> (\<exists>a. e = Arca ValidationError a))
         \<and> (\<forall>iter'. enumerates iter' m \<longrightarrow> single_market (select_markets iter' symbol opts) symbol opts
                                        = single_market (select_markets iter symbol opts) symbol opts)"
proof -
  define ms where "ms = select_markets iter symbol opts"
  have c: "card (candidates m symbol opts) = length ms" by (simp add: card_candidates [OF assms] ms_def)
  have "case single_market (select_markets iter symbol opts) symbol opts of
            Inr mk \<Rightarrow> \<exists>k. candidates m symbol opts = {k} \<and> m k = Some mk
          | Inl e \<Rightarrow> card (candidates m symbol opts) \<noteq> 1 \<and> (\<exists>a. e = Arca ValidationError a)"
  proof (cases "length ms = 1")
    case True
    then obtain mk where mk: "ms = [mk]" by (cases ms) auto
    obtain k where k: "candidates m symbol opts = {k}" using c True by (auto simp: card_1_singleton_iff)
    then obtain mk' where mk': "m k = Some mk'" "market_matches symbol opts mk'" by (auto simp: candidates_def)
    then have "(k, mk') \<in> set iter" using assms by (auto simp: enumerates_def dest: map_of_SomeD)
    then have "mk' \<in> set ms" using mk'(2) by (force simp: ms_def select_markets_def)
    then show ?thesis using mk k mk'(1) by (simp add: single_market_def Let_def ms_def [symmetric])
  next
    case False
    then have "ms = [] \<or> 1 < length ms" by (cases ms) auto
    then show ?thesis using c by (auto simp: single_market_def Let_def ms_def [symmetric] none_found_def ambiguous_def)
  qed
  moreover have "single_market (select_markets iter' symbol opts) symbol opts = single_market (select_markets iter symbol opts) symbol opts" if e: "enumerates iter' m" for iter'
  proof -
    define ms' where "ms' = select_markets iter' symbol opts"
    have ms: "mset ms' = mset ms"
      using mset_enumeration [OF e assms] by (simp add: ms_def ms'_def select_markets_def)
    then have l: "length ms' = length ms" by (rule mset_eq_length)
    have n: "sort (map mk_Name ms') = sort (map mk_Name ms)"
      by (rule properties_for_sort) (simp_all add: ms)
    show ?thesis
    proof (cases "length ms = 1")
      case True
      then obtain a b where "ms = [a]" "ms' = [b]" using l by (cases ms; cases ms') auto
      then show ?thesis using ms by (simp add: single_market_def Let_def ms_def [symmetric] ms'_def [symmetric])
    next
      case False
      then have "ms = [] \<or> 1 < length ms" by (cases ms) auto
      then show ?thesis using l n
        by (auto simp: single_market_def Let_def ms_def [symmetric] ms'_def [symmetric] ambiguous_def)
    qed
  qed
  ultimately show ?thesis by blast
qed

section \<open>Properties\<close>

text \<open>C20: once the metadata is loaded, resolving a symbol gives a market exactly when a single one matches, and
  then that one; otherwise it is a validation error.  The order in which the map is ranged over makes no
  difference, not even to the error's text, and the loaded metadata is kept.\<close>

theorem ResolveMarket_never_guesses:
  assumes "ensureMetaLoaded fetched cache = (Inr m, c)" and "enumerates (order m) m"
  shows "(case fst (ResolveMarket order fetched cache symbol opts) of
            Inr mk \<Rightarrow> \<exists>k. candidates m symbol opts = {k} \<and> m k = Some mk
          | Inl e \<Rightarrow> card (candidates m symbol opts) \<noteq> 1 \<and> (\<exists>a. e = Arca ValidationError a))
         \<and> snd (ResolveMarket order fetched cache symbol opts) = Some m
         \<and> (\<forall>order'. enumerates (order' m) m \<longrightarrow>
              ResolveMarket order' fetched cache symbol opts = ResolveMarket order fetched cache symbol opts)"
proof -
  have "c = Some m" using assms(1) by (auto simp: ensureMetaLoaded_def split: option.splits sum.splits)
  moreover have "ResolveMarket ord fetched cache symbol opts
      = (single_market (select_markets (ord m) symbol opts) symbol opts, c)" for ord
    using assms(1) by (simp add: ResolveMarket_def ResolveMarkets_def)
  ultimately show ?thesis using single_market_never_guesses [OF assms(2), of symbol opts] by simp
qed

theorem ResolveMarket_never_guesses_witness:
  "let btc = \<lparr>mk_Name = ''hl:0:BTC'', mk_Dex = [], mk_Symbol = ''BTC'', mk_Exchange = ''hl'',
    mk_SzDecimals = 5, mk_MinOrderNotionalUsd = 10, mk_OnlyIsolated = False, mk_MarginModes = []\<rparr>;
       order = (\<lambda>m. [(''hl:0:BTC'', btc)]) in
   ResolveMarket order (Inr [btc]) None ''BTC'' None = (Inr btc, Some [''hl:0:BTC'' \<mapsto> btc])
   \<and> candidates [''hl:0:BTC'' \<mapsto> btc] ''BTC'' None = {''hl:0:BTC''}"
proof -
  define btc where "btc = \<lparr>mk_Name = ''hl:0:BTC'', mk_Dex = [], mk_Symbol = ''BTC'', mk_Exchange = ''hl'',
    mk_SzDecimals = 5, mk_MinOrderNotionalUsd = 10, mk_OnlyIsolated = False, mk_MarginModes = []\<rparr>"
  define order where "order = (\<lambda>m::meta. [(''hl:0:BTC'', btc)])"
  have e: "enumerates (order [''hl:0:BTC'' \<mapsto> btc]) [''hl:0:BTC'' \<mapsto> btc]" by (simp add: enumerates_def order_def)
  have l: "ensureMetaLoaded (Inr [btc]) None = (Inr [''hl:0:BTC'' \<mapsto> btc], Some [''hl:0:BTC'' \<mapsto> btc])"
    by (simp add: ensureMetaLoaded_def meta_of_def btc_def)
  have r: "ResolveMarket order (Inr [btc]) None ''BTC'' None = (Inr btc, Some [''hl:0:BTC'' \<mapsto> btc])"
    by (simp add: ResolveMarket_def ResolveMarkets_def l single_market_def select_markets_def market_matches_def order_def)
       (simp add: btc_def)
  show ?thesis
    using ResolveMarket_never_guesses [where order = order and symbol = "''BTC''" and opts = None, OF l e] r
    by (auto simp: btc_def [symmetric] order_def [symmetric] split: if_splits)
qed

end
