(* ===== verification/Go_Float.thy ===== *)
theory Go_Float
  imports Complex_Main "HOL-Library.Log_Nat"
begin

text \<open>
  Rounding to \<^verbatim>\<open>float64\<close>: a finite value is a rational, and an operation is the exact one followed by
  rounding to 53 significant bits, to nearest with ties to even.  The values rounded here stay far
  from the ends of the exponent range, so overflow and subnormal numbers do not occur.  The lemmas
  bound the rounding: it never crosses an integer that has at most 53 bits, and it moves a value by at
  most half a unit in the last place.
\<close>

definition flog2 :: "rat \<Rightarrow> int" where
  "flog2 x =
     (case quotient_of x of (p, q) \<Rightarrow>
        let k = bitlen p - bitlen q in if 2 powi k \<le> x then k else k - 1)"

text \<open>Round to the nearest integer, ties to even.\<close>

definition rne :: "rat \<Rightarrow> int" where
  "rne y =
     (let f = \<lfloor>y\<rfloor>; d = y - of_int f in
      if d < 1 / 2 then f else if d > 1 / 2 then f + 1 else if even f then f else f + 1)"

definition round_pos :: "rat \<Rightarrow> rat" where
  "round_pos x = of_int (rne (x / 2 powi (flog2 x - 52))) * 2 powi (flog2 x - 52)"

definition float64 :: "rat \<Rightarrow> rat" where
  "float64 x = (if x = 0 then 0 else if x < 0 then - round_pos (- x) else round_pos x)"

lemma bitlen_powi:
  assumes "0 < (p :: int)"
  shows "2 powi (bitlen p - 1) \<le> (of_int p :: rat)" "(of_int p :: rat) < 2 powi (bitlen p)"
proof -
  have b: "2 ^ nat (bitlen p - 1) \<le> p" "p < 2 ^ nat (bitlen p)" using bitlen_bounds [OF assms] by simp_all
  have pos: "1 \<le> bitlen p" using assms by (auto simp: bitlen_alt_def)
  have "(of_int (2 ^ nat (bitlen p - 1)) :: rat) \<le> of_int p" "(of_int p :: rat) < of_int (2 ^ nat (bitlen p))"
    using b by (simp_all only: of_int_le_iff of_int_less_iff)
  then show "2 powi (bitlen p - 1) \<le> (of_int p :: rat)" "(of_int p :: rat) < 2 powi (bitlen p)"
    using pos by (simp_all add: power_int_def)
qed

lemma flog2_bounds:
  assumes "0 < x"
  shows "2 powi (flog2 x) \<le> x" "x < 2 powi (flog2 x + 1)"
proof -
  obtain p q where pq: "quotient_of x = (p, q)" by fastforce
  have q: "0 < q" by (rule quotient_of_denom_pos [OF pq])
  have x: "x = of_int p / of_int q" by (rule quotient_of_div [OF pq])
  have p: "0 < p" using assms q by (simp add: x zero_less_divide_iff)
  note bp = bitlen_powi [OF p] and bq = bitlen_powi [OF q]
  define k where "k = bitlen p - bitlen q"
  have q0: "(0 :: rat) < of_int q" using q by simp
  have "2 powi (k + 1) * of_int q \<ge> (2 powi (k + 1) * 2 powi (bitlen q - 1) :: rat)"
    using bq by (intro mult_left_mono) simp_all
  then have "2 powi (bitlen p) \<le> (2 powi (k + 1) * of_int q :: rat)"
    by (simp add: k_def flip: power_int_add)
  then have up: "x < 2 powi (k + 1)" using bp(2) q0 by (simp add: x divide_less_eq)
  have "2 powi (k - 1) * of_int q \<le> (2 powi (k - 1) * 2 powi (bitlen q) :: rat)"
    using bq by (intro mult_left_mono) simp_all
  then have "2 powi (k - 1) * of_int q \<le> (2 powi (bitlen p - 1) :: rat)"
    by (simp add: k_def flip: power_int_add)
  then have lo: "2 powi (k - 1) \<le> x" using bp(1) q0 by (simp add: x le_divide_eq)
  show "2 powi (flog2 x) \<le> x" "x < 2 powi (flog2 x + 1)"
    using up lo by (simp_all add: flog2_def pq k_def [symmetric] Let_def)
qed

lemma rne_mono: "y \<le> of_int n \<Longrightarrow> rne y \<le> n" "of_int n \<le> y \<Longrightarrow> n \<le> rne y"
proof -
  have f: "of_int \<lfloor>y\<rfloor> \<le> y" "y < of_int \<lfloor>y\<rfloor> + 1" by linarith+
  show "rne y \<le> n" if "y \<le> of_int n"
  proof (cases "y = of_int \<lfloor>y\<rfloor>")
    case True
    then have "rne y = \<lfloor>y\<rfloor>" by (simp add: rne_def Let_def)
    then show ?thesis using that by linarith
  next
    case False
    then have "\<lfloor>y\<rfloor> < n" using that f by linarith
    moreover have "rne y \<le> \<lfloor>y\<rfloor> + 1" by (simp add: rne_def Let_def)
    ultimately show ?thesis by linarith
  qed
  show "n \<le> rne y" if "of_int n \<le> y"
  proof -
    have "n \<le> \<lfloor>y\<rfloor>" using that by linarith
    moreover have "\<lfloor>y\<rfloor> \<le> rne y" by (simp add: rne_def Let_def)
    ultimately show ?thesis by linarith
  qed
qed

lemma rne_near: "y - 1 / 2 \<le> of_int (rne y)"
  by (simp add: rne_def Let_def) linarith

lemma pow52: "(2 :: rat) powi (e + 52) = 4503599627370496 * 2 powi e"
  by (simp add: power_int_add)

text \<open>A 53-bit integer is a multiple of the unit of any value it bounds.\<close>

lemma unit_divides:
  assumes "e \<le> 0"
  obtains m :: int where "of_int n = of_int m * (2 powi e :: rat)"
proof
  have "(2 :: rat) ^ nat (- e) * 2 powi e = 1" using assms by (simp add: power_int_def flip: power_mult_distrib)
  then show "of_int n = of_int (n * 2 ^ nat (- e)) * (2 powi e :: rat)" by (simp add: mult.assoc)
qed

lemma unit_bound:
  assumes "0 < x"
  shows "4503599627370496 * 2 powi (flog2 x - 52) \<le> x"
  using flog2_bounds(1) [OF assms] pow52 [of "flog2 x - 52"] by simp

lemma round_pos_le:
  assumes "0 < x" "x \<le> of_int n" "n < 2 ^ 53"
  shows "round_pos x \<le> of_int n"
proof -
  let ?e = "flog2 x - 52"
  have u: "(0 :: rat) < 2 powi ?e" by simp
  have "?e \<le> 0"
  proof (rule ccontr)
    assume "\<not> ?e \<le> 0"
    then have "(2 :: rat) powi 1 \<le> 2 powi ?e" by (intro power_int_increasing) auto
    then have "9007199254740992 \<le> x" using unit_bound [OF assms(1)] by simp
    moreover have "(of_int n :: rat) < 9007199254740992" using assms(3) by simp
    ultimately show False using assms(2) by linarith
  qed
  then obtain m where m: "of_int n = of_int m * (2 powi ?e :: rat)" by (rule unit_divides)
  have "x / 2 powi ?e \<le> of_int m" using assms(2) u by (simp add: m divide_le_eq)
  then have "rne (x / 2 powi ?e) \<le> m" by (rule rne_mono)
  then show ?thesis unfolding round_pos_def m by (intro mult_right_mono) simp_all
qed

lemma round_pos_ge:
  assumes "0 < x" "of_int n \<le> x" "0 \<le> n" "n \<le> 2 ^ 52"
  shows "of_int n \<le> round_pos x"
proof -
  let ?e = "flog2 x - 52"
  have u: "(0 :: rat) < 2 powi ?e" by simp
  show ?thesis
  proof (cases "?e \<le> 0")
    case True
    then obtain m where m: "of_int n = of_int m * (2 powi ?e :: rat)" by (rule unit_divides)
    have "of_int m \<le> x / 2 powi ?e" using assms(2) u by (simp add: m le_divide_eq)
    then have "m \<le> rne (x / 2 powi ?e)" by (rule rne_mono)
    then show ?thesis unfolding round_pos_def m by (intro mult_right_mono) simp_all
  next
    case False
    then have "(2 :: rat) powi 0 \<le> 2 powi ?e" by (intro power_int_increasing) auto
    then have p1: "(1 :: rat) \<le> 2 powi ?e" by simp
    have "of_int 4503599627370496 \<le> x / 2 powi ?e" using unit_bound [OF assms(1)] u by (simp add: le_divide_eq)
    then have "4503599627370496 \<le> rne (x / 2 powi ?e)" by (rule rne_mono)
    then have "(4503599627370496 :: rat) * 1 \<le> of_int (rne (x / 2 powi ?e)) * 2 powi ?e"
      using p1 by (intro mult_mono) simp_all
    moreover have "(of_int n :: rat) \<le> 4503599627370496" using assms(4) by simp
    ultimately show ?thesis unfolding round_pos_def by linarith
  qed
qed

lemma round_pos_exact:
  assumes "0 < n" "n \<le> 2 ^ 52"
  shows "round_pos (of_int n) = of_int n"
  using round_pos_le [of "of_int n" n] round_pos_ge [of "of_int n" n] assms by (intro antisym) simp_all

text \<open>Below \<^term>\<open>2 ^ 10\<close> a value moves by at most \<^term>\<open>1 / 2 ^ 43\<close>.\<close>

lemma round_pos_near:
  assumes "0 < x" "x < 1024"
  shows "x - 1 / 8796093022208 \<le> round_pos x"
proof -
  let ?e = "flog2 x - 52"
  have u: "(0 :: rat) < 2 powi ?e" by simp
  have small: "2 powi ?e \<le> (1 / 4398046511104 :: rat)" using unit_bound [OF assms(1)] assms(2) by simp
  have "(x / 2 powi ?e - 1 / 2) * 2 powi ?e \<le> round_pos x"
    unfolding round_pos_def by (intro mult_right_mono rne_near) simp
  moreover have "(x / 2 powi ?e - 1 / 2) * 2 powi ?e = x - 2 powi ?e / 2" using u by (simp add: algebra_simps)
  ultimately show ?thesis using small by simp
qed

end
