(* ===== verification/Ladder.thy ===== *)
theory Ladder
  imports Go_Float Go_Time "HOL-Library.Signed_Division"
begin

text \<open>
  The chart ladder (\<^verbatim>\<open>ladder.go\<close>): buckets and retention of the rungs, the choice of a rung for a range,
  alignment to bucket boundaries and range presets.  Times are milliseconds; they are integers far
  inside 64 bits, so the additions of the code do not wrap.  \<^verbatim>\<open>PickResolution\<close> divides in floating point;
  the lemmas show that it makes exactly the integer choice it documents.
\<close>

section \<open>Rungs\<close>

definition Res1m :: string where "Res1m = ''1m''"
definition Res5m :: string where "Res5m = ''5m''"
definition Res15m :: string where "Res15m = ''15m''"
definition Res30m :: string where "Res30m = ''30m''"
definition Res1h :: string where "Res1h = ''1h''"
definition Res4h :: string where "Res4h = ''4h''"
definition Res1d :: string where "Res1d = ''1d''"

lemmas res_defs = Res1m_def Res5m_def Res15m_def Res30m_def Res1h_def Res4h_def Res1d_def

definition AllResolutions :: "string list" where
  "AllResolutions = [Res1m, Res5m, Res15m, Res30m, Res1h, Res4h, Res1d]"

definition msMinute :: int where "msMinute = 60000"
definition msHour :: int where "msHour = 3600000"
definition msDay :: int where "msDay = 86400000"

lemmas ms_defs = msMinute_def msHour_def msDay_def

definition DefaultChartPoints :: int where "DefaultChartPoints = 1000"
definition MinChartPoints :: int where "MinChartPoints = 50"

definition BucketMs :: "string \<Rightarrow> int" where
  "BucketMs r =
     (if r = Res1m then msMinute else if r = Res5m then 5 * msMinute else if r = Res15m then 15 * msMinute
      else if r = Res30m then 30 * msMinute else if r = Res1h then msHour else if r = Res4h then 4 * msHour
      else if r = Res1d then msDay else msMinute)"

definition RetentionMs :: "string \<Rightarrow> int" where
  "RetentionMs r =
     (if r = Res1m then 7 * msDay else if r = Res5m then 30 * msDay else if r = Res15m then 45 * msDay
      else if r = Res30m then 60 * msDay else if r = Res1h then 90 * msDay else if r = Res4h then 180 * msDay
      else if r = Res1d then 10 * 365 * msDay else 7 * msDay)"

section \<open>Choosing a rung\<close>

definition clamp_points :: "int \<Rightarrow> int" where
  "clamp_points targetPoints =
     (let pts = (if targetPoints < MinChartPoints then MinChartPoints else targetPoints) in
      if pts > DefaultChartPoints then DefaultChartPoints else pts)"

text \<open>The number of buckets of a range, as the code computes it: two conversions, a division, a ceiling.\<close>

definition bucket_count :: "int \<Rightarrow> int \<Rightarrow> int" where
  "bucket_count rangeMs b = \<lceil>float64 (float64 (of_int rangeMs) / float64 (of_int b))\<rceil>"

fun pick_loop :: "int \<Rightarrow> int \<Rightarrow> string list \<Rightarrow> string" where
  "pick_loop rangeMs pts [] = last AllResolutions"
| "pick_loop rangeMs pts (r # rs) =
     (if bucket_count rangeMs (BucketMs r) \<le> pts then r else pick_loop rangeMs pts rs)"

definition PickResolution :: "int \<Rightarrow> int \<Rightarrow> string" where
  "PickResolution rangeMs targetPoints = pick_loop rangeMs (clamp_points targetPoints) AllResolutions"

definition PromotionTarget :: "string \<Rightarrow> string" where
  "PromotionTarget r =
     (case dropWhile (\<lambda>x. x \<noteq> r) AllResolutions of x # y # rest \<Rightarrow> y | _ \<Rightarrow> [])"

section \<open>Alignment\<close>

definition AlignDown :: "int \<Rightarrow> string \<Rightarrow> int" where
  "AlignDown ts r = (ts sdiv BucketMs r) * BucketMs r"

definition AlignUp :: "int \<Rightarrow> string \<Rightarrow> int" where
  "AlignUp ts r = (let down = AlignDown ts r in if down = ts then down else down + BucketMs r)"

lemma BucketMs_pos: "0 < BucketMs r" "BucketMs r \<le> 86400000"
  by (simp_all add: BucketMs_def ms_defs)

lemma BucketMs_ge1 [simp]: "1 \<le> BucketMs r" "BucketMs r \<noteq> 0"
  using BucketMs_pos(1) [of r] by linarith+

function boundary_loop :: "string \<Rightarrow> int \<Rightarrow> int \<Rightarrow> int list" where
  "boundary_loop r cur end_ms =
     (if cur \<le> end_ms then cur # boundary_loop r (cur + BucketMs r) end_ms else [])"
  by pat_completeness auto

termination
  by (relation "measure (\<lambda>(r, cur, end_ms). nat (end_ms - cur + 1))") auto

declare boundary_loop.simps [simp del]

definition Boundaries :: "int \<Rightarrow> int \<Rightarrow> string \<Rightarrow> int list" where
  "Boundaries begin_ms end_ms r =
     (if end_ms \<le> begin_ms then []
      else (let start = AlignUp begin_ms r; stop = AlignDown end_ms r in
            if start > stop then [] else boundary_loop r start stop))"

section \<open>Range presets\<close>

text \<open>\<^verbatim>\<open>AddDate\<close> on an instant in UTC: the date moves, the clock stays.\<close>

definition ns_per_day :: int where "ns_per_day = 86400000000000"

definition AddDate :: "int \<Rightarrow> int \<Rightarrow> int \<Rightarrow> instant \<Rightarrow> instant" where
  "AddDate years months days t =
     (let n = t div ns_per_day in
      norm_date (year_of_day n + years) (month_of_day n + months) (mday_of_day n + days) * ns_per_day
      + t mod ns_per_day)"

definition ComputeChartRange :: "instant \<Rightarrow> string \<Rightarrow> instant \<times> instant" where
  "ComputeChartRange now rangePreset =
     (let start =
        (if rangePreset = ''1h'' then now - 3600000000000
         else if rangePreset = ''24h'' then now - ns_per_day
         else if rangePreset = ''7d'' then AddDate 0 0 (- 7) now
         else if rangePreset = ''30d'' then AddDate 0 0 (- 30) now
         else if rangePreset = ''3m'' then AddDate 0 (- 3) 0 now
         else if rangePreset = ''1y'' then AddDate (- 1) 0 0 now
         else if rangePreset = ''ytd'' then norm_date (year_of_day (now div ns_per_day)) 1 1 * ns_per_day
         else if rangePreset = ''all'' then AddDate (- 5) 0 0 now
         else now - ns_per_day) in (start, now))"

section \<open>Exactness of the choice\<close>

lemma float64_nonpos: "x \<le> 0 \<Longrightarrow> float64 x \<le> 0"
proof -
  assume "x \<le> 0"
  moreover have "0 \<le> round_pos (- x)" if "x < 0" using round_pos_ge [of "- x" 0] that by simp
  ultimately show ?thesis by (auto simp: float64_def)
qed

lemma float64_pos: "0 < x \<Longrightarrow> float64 x = round_pos x"
  by (simp add: float64_def)

lemma float64_small: "0 \<le> n \<Longrightarrow> n \<le> 2 ^ 52 \<Longrightarrow> float64 (of_int n) = of_int n"
  using round_pos_exact [of n] by (cases "n = 0") (simp_all add: float64_def)

lemma float64_large: "2 ^ 52 \<le> n \<Longrightarrow> 4503599627370496 \<le> float64 (of_int n)"
  using round_pos_ge [of "of_int n" "2 ^ 52"] by (simp add: float64_def)

text \<open>A quotient by a bucket exceeds a budget by at least one part in a bucket, which rounding keeps.\<close>

lemma quotient_decision:
  assumes b: "0 < b" "b \<le> 86400000" and n: "0 \<le> n" and p: "0 < p" "p \<le> 1000"
  shows "float64 (of_int n / of_int b) \<le> of_int p \<longleftrightarrow> n \<le> p * b"
proof (cases "n = 0")
  case True
  then show ?thesis using b p by (simp add: float64_def)
next
  case False
  let ?x = "of_int n / of_int b :: rat"
  have b0: "(0 :: rat) < of_int b" using b by simp
  have x0: "0 < ?x" using False n b by simp
  have f: "float64 ?x = round_pos ?x" by (rule float64_pos [OF x0])
  have le_iff: "?x \<le> of_int k \<longleftrightarrow> n \<le> k * b" for k
    using b0 by (simp add: divide_le_eq flip: of_int_mult)
  show ?thesis
  proof
    assume "n \<le> p * b"
    then have "?x \<le> of_int p" by (simp add: le_iff)
    then show "float64 ?x \<le> of_int p" unfolding f by (rule round_pos_le [OF x0]) (use p in simp)
  next
    assume r: "float64 ?x \<le> of_int p"
    show "n \<le> p * b"
    proof (rule ccontr)
      assume "\<not> n \<le> p * b"
      then have gap: "p * b + 1 \<le> n" by simp
      show False
      proof (cases "of_int (p + 1) \<le> ?x")
        case True
        then have "of_int (p + 1) \<le> round_pos ?x" by (rule round_pos_ge [OF x0]) (use p in simp_all)
        then show False using r f by simp
      next
        case False
        then have "?x < 1024" using p by simp
        then have "?x - 1 / 8796093022208 \<le> round_pos ?x" by (rule round_pos_near [OF x0])
        then have "?x \<le> of_int p + 1 / 8796093022208" using r f by simp
        then have "of_int n \<le> (of_int p + 1 / 8796093022208) * (of_int b :: rat)" using b0 by (simp add: divide_le_eq)
        moreover have "(of_int (p * b + 1) :: rat) \<le> of_int n" using gap by (simp only: of_int_le_iff)
        moreover have "(of_int b :: rat) \<le> 86400000" using b(2) by simp
        ultimately show False by (simp add: algebra_simps)
      qed
    qed
  qed
qed

lemma bucket_count_exact:
  assumes b: "0 < b" "b \<le> 86400000" and p: "0 < p" "p \<le> 1000"
  shows "bucket_count rangeMs b \<le> p \<longleftrightarrow> rangeMs \<le> p * b"
proof -
  have fb: "float64 (of_int b) = of_int b" using b by (intro float64_small) simp_all
  have b0: "(0 :: rat) < of_int b" using b by simp
  have c: "bucket_count rangeMs b \<le> p \<longleftrightarrow> float64 (float64 (of_int rangeMs) / of_int b) \<le> of_int p"
    by (simp add: bucket_count_def fb ceiling_le_iff)
  consider (neg) "rangeMs < 0" | (small) "0 \<le> rangeMs" "rangeMs \<le> 2 ^ 52" | (large) "2 ^ 52 < rangeMs" by linarith
  then show ?thesis
  proof cases
    case neg
    then have "float64 (of_int rangeMs) \<le> 0" by (intro float64_nonpos) simp
    then have "float64 (of_int rangeMs) / of_int b \<le> 0" using b0 by (simp add: divide_le_0_iff)
    then have "float64 (float64 (of_int rangeMs) / of_int b) \<le> 0" by (rule float64_nonpos)
    moreover have "rangeMs \<le> p * b" using neg b p by (smt (verit) mult_pos_pos)
    moreover have "(0 :: rat) \<le> of_int p" using p by simp
    ultimately show ?thesis using c by linarith
  next
    case small
    then show ?thesis using c quotient_decision [OF b small(1) p] by (simp add: float64_small)
  next
    case large
    let ?y = "float64 (of_int rangeMs)"
    have y: "4503599627370496 \<le> ?y" using float64_large [of rangeMs] large by simp
    have "(of_int b :: rat) \<le> 86400000" using b(2) by simp
    then have "1001 * of_int b \<le> ?y" using y by linarith
    then have "of_int 1001 \<le> ?y / of_int b" using b0 by (simp add: le_divide_eq)
    moreover from this have "0 < ?y / of_int b" by simp
    ultimately have "of_int 1001 \<le> round_pos (?y / of_int b)" by (intro round_pos_ge) simp_all
    then have "1001 \<le> float64 (?y / of_int b)" using float64_pos [OF \<open>0 < ?y / of_int b\<close>] by simp
    moreover have "(of_int p :: rat) \<le> 1000" using p by simp
    moreover have "p * b \<le> 1000 * 86400000" using b p by (intro mult_mono) simp_all
    ultimately show ?thesis using c large by simp
  qed
qed

lemma clamp_points_range: "50 \<le> clamp_points t" "clamp_points t \<le> 1000"
  by (simp_all add: clamp_points_def MinChartPoints_def DefaultChartPoints_def Let_def)

lemma pick_loop_exact:
  assumes "0 < p" "p \<le> 1000"
  shows "pick_loop rangeMs p rs =
    (case find (\<lambda>r. rangeMs \<le> p * BucketMs r) rs of Some r \<Rightarrow> r | None \<Rightarrow> last AllResolutions)"
  by (induction rs) (simp_all add: bucket_count_exact [OF BucketMs_pos assms])

section \<open>Boundaries\<close>

lemma AlignDown_nonneg: "0 \<le> ts \<Longrightarrow> AlignDown ts r = ts - ts mod BucketMs r"
  using BucketMs_pos [of r] by (simp add: AlignDown_def signed_divide_int_eq_divide_int minus_mod_eq_div_mult)
    (auto simp: sgn_if)

lemma AlignUp_nonneg:
  assumes "0 \<le> ts"
  shows "ts \<le> AlignUp ts r" "AlignUp ts r < ts + BucketMs r" "BucketMs r dvd AlignUp ts r"
proof -
  have m: "0 \<le> ts mod BucketMs r" "ts mod BucketMs r < BucketMs r" using BucketMs_pos(1) [of r] by simp_all
  show "ts \<le> AlignUp ts r" "AlignUp ts r < ts + BucketMs r"
    using m by (auto simp: AlignUp_def AlignDown_nonneg [OF assms] Let_def)
  have "BucketMs r dvd ts - ts mod BucketMs r" by (simp add: minus_mod_eq_mult_div)
  then show "BucketMs r dvd AlignUp ts r" by (auto simp: AlignUp_def AlignDown_nonneg [OF assms] Let_def)
qed

lemma boundary_loop_set:
  "set (boundary_loop r cur end_ms) = {t. cur \<le> t \<and> t \<le> end_ms \<and> BucketMs r dvd t - cur}
   \<and> sorted_wrt (<) (boundary_loop r cur end_ms)"
proof (induction r cur end_ms rule: boundary_loop.induct)
  case (1 r cur end_ms)
  show ?case
  proof (cases "cur \<le> end_ms")
    case True
    let ?b = "BucketMs r"
    let ?rest = "boundary_loop r (cur + ?b) end_ms"
    have u: "boundary_loop r cur end_ms = cur # ?rest" using True by (subst boundary_loop.simps) simp
    note ih = "1.IH" [OF True]
    have eq: "cur \<le> t \<and> ?b dvd t - cur \<longleftrightarrow> t = cur \<or> cur + ?b \<le> t \<and> ?b dvd t - (cur + ?b)" for t
    proof -
      have "?b dvd t - (cur + ?b) \<longleftrightarrow> ?b dvd t - cur" by (metis diff_diff_eq dvd_minus_self diff_add_cancel dvd_add_triv_right_iff)
      moreover have "?b \<le> t - cur" if "cur < t" "?b dvd t - cur" using that by (intro zdvd_imp_le) simp_all
      ultimately show ?thesis using BucketMs_pos(1) [of r] by force
    qed
    have "set (cur # ?rest) = {t. cur \<le> t \<and> t \<le> end_ms \<and> ?b dvd t - cur}"
      using ih eq True by auto
    moreover have "sorted_wrt (<) (cur # ?rest)" using ih BucketMs_pos(1) [of r] by auto
    ultimately show ?thesis by (simp only: u)
  next
    case False
    then show ?thesis by (subst (1 2) boundary_loop.simps) auto
  qed
qed

section \<open>Properties\<close>

text \<open>Although it divides in floating point, \<^verbatim>\<open>PickResolution\<close> chooses exactly the finest rung whose number of
  buckets, by integer arithmetic, is within the clamped point budget, and the coarsest when none is.\<close>

theorem PickResolution_exact:
  "PickResolution rangeMs targetPoints =
     (case find (\<lambda>r. rangeMs \<le> max 50 (min 1000 targetPoints) * BucketMs r) AllResolutions of
        Some r \<Rightarrow> r | None \<Rightarrow> Res1d)"
proof -
  have c: "clamp_points targetPoints = max 50 (min 1000 targetPoints)"
    by (auto simp: clamp_points_def MinChartPoints_def DefaultChartPoints_def Let_def)
  have "last AllResolutions = Res1d" by (simp add: AllResolutions_def)
  then show ?thesis
    using pick_loop_exact [of "clamp_points targetPoints" rangeMs AllResolutions] clamp_points_range [of targetPoints]
    by (simp add: PickResolution_def c split: option.split)
qed

text \<open>From a non-negative time on, \<^verbatim>\<open>Boundaries\<close> lists, in order and once, exactly the bucket boundaries of
  the closed range.\<close>

theorem Boundaries_exact:
  assumes "0 \<le> begin_ms" "begin_ms < end_ms"
  shows "set (Boundaries begin_ms end_ms r) = {t. begin_ms \<le> t \<and> t \<le> end_ms \<and> BucketMs r dvd t}
    \<and> sorted_wrt (<) (Boundaries begin_ms end_ms r)"
proof -
  let ?b = "BucketMs r"
  let ?start = "AlignUp begin_ms r"
  let ?stop = "AlignDown end_ms r"
  note up = AlignUp_nonneg [OF assms(1), of r]
  have e0: "0 \<le> end_ms" using assms by simp
  have m: "0 \<le> end_ms mod ?b" "end_ms mod ?b < ?b" using BucketMs_pos(1) [of r] by simp_all
  have down: "?stop = end_ms - end_ms mod ?b" by (rule AlignDown_nonneg [OF e0])
  have stop: "?b dvd ?stop" by (simp add: down minus_mod_eq_mult_div)
  have gap: "x \<le> y" if "?b dvd x" "?b dvd y" "x < y + ?b" for x y
    using that zdvd_imp_le [of ?b "x - y"] by (cases "x \<le> y") (auto simp: dvd_diff)
  have "begin_ms \<le> t \<and> t \<le> end_ms \<and> ?b dvd t \<longleftrightarrow> ?start \<le> t \<and> t \<le> ?stop \<and> ?b dvd t - ?start" for t
  proof -
    have "?b dvd t - ?start \<longleftrightarrow> ?b dvd t" using up(3) by (simp add: dvd_diff_left_iff)
    moreover have "begin_ms \<le> t \<longleftrightarrow> ?start \<le> t" if "?b dvd t" using gap [OF up(3) that] up(1,2) by linarith
    moreover have "t \<le> end_ms \<longleftrightarrow> t \<le> ?stop" if "?b dvd t" using gap [OF that stop] down m by linarith
    ultimately show ?thesis by blast
  qed
  then have s: "{t. begin_ms \<le> t \<and> t \<le> end_ms \<and> ?b dvd t} = set (boundary_loop r ?start ?stop)"
    using boundary_loop_set [of r ?start ?stop] by auto
  have "Boundaries begin_ms end_ms r = boundary_loop r ?start ?stop"
    using assms by (auto simp: Boundaries_def Let_def boundary_loop.simps)
  then show ?thesis using s boundary_loop_set [of r ?start ?stop] by simp
qed

theorem Boundaries_exact_witness:
  "Boundaries 1 200000 ''1m'' = [60000, 120000, 180000]
   \<and> (\<forall>t. t \<in> set (Boundaries 1 200000 ''1m'') \<longleftrightarrow> 1 \<le> t \<and> t \<le> 200000 \<and> 60000 dvd t)"
proof -
  have "Boundaries 1 200000 ''1m'' = [60000, 120000, 180000]" by code_simp
  moreover have "BucketMs ''1m'' = 60000" by code_simp
  ultimately show ?thesis using Boundaries_exact [of 1 200000 "''1m''"] by auto
qed

text \<open>Before the epoch the truncating division aligns towards zero: \<^verbatim>\<open>AlignDown\<close> gives a boundary after the
  time, contrary to its comment.\<close>

lemma AlignDown_negative: "AlignDown (- 1) Res1m = 0" "AlignUp (- 1) Res1m = 60000"
  by code_simp+

end
