(* ===== verification/Wallet_Wire.thy ===== *)
theory Wallet_Wire
  imports Http_Client
begin

text \<open>
  The wire types of the V9 wallets (\<^verbatim>\<open>cash_v9.go\<close>, \<^verbatim>\<open>funding_v9.go\<close>, \<^verbatim>\<open>funding_v9_trading.go\<close>): one record per struct
  with the struct's fields in order, and its decoding by \<^verbatim>\<open>encoding/json\<close>.  An embedded struct is a field that
  decodes from the same object.  The streams and calls of the wallet theories take and return these.
\<close>

section \<open>Cash wallets\<close>

record CashV9DepositAddress =
  cv9da_ID :: gostring
  cv9da_BoundaryID :: gostring
  cv9da_Chain :: gostring
  cv9da_ChainID :: gostring
  cv9da_TokenAddress :: gostring
  cv9da_Address :: gostring
  cv9da_Method :: gostring
  cv9da_Version :: int
  cv9da_RecipeID :: gostring
  cv9da_FactoryAddress :: gostring
  cv9da_Lifecycle :: gostring
  cv9da_Preferred :: bool
  cv9da_PendingBalance :: gostring

definition decode_CashV9DepositAddress :: "jfields \<Rightarrow> CashV9DepositAddress option" where
  "decode_CashV9DepositAddress fs = do {
     x0 \<leftarrow> str_field ''id'' fs; x1 \<leftarrow> str_field ''boundaryId'' fs;
     x2 \<leftarrow> str_field ''chain'' fs; x3 \<leftarrow> str_field ''chainId'' fs;
     x4 \<leftarrow> str_field ''tokenAddress'' fs; x5 \<leftarrow> str_field ''address'' fs;
     x6 \<leftarrow> str_field ''method'' fs; x7 \<leftarrow> int_field ''version'' fs;
     x8 \<leftarrow> str_field ''recipeId'' fs; x9 \<leftarrow> str_field ''factoryAddress'' fs;
     x10 \<leftarrow> str_field ''lifecycle'' fs; x11 \<leftarrow> bool_field ''preferred'' fs;
     x12 \<leftarrow> str_field ''pendingBalance'' fs;
     Some \<lparr>cv9da_ID = x0, cv9da_BoundaryID = x1, cv9da_Chain = x2, cv9da_ChainID = x3, cv9da_TokenAddress = x4,
           cv9da_Address = x5, cv9da_Method = x6, cv9da_Version = x7, cv9da_RecipeID = x8, cv9da_FactoryAddress = x9,
           cv9da_Lifecycle = x10, cv9da_Preferred = x11, cv9da_PendingBalance = x12\<rparr> }"

record CashV9Operation =
  cv9o_Counterpart :: gostring
  cv9o_Attribution :: gostring
  cv9o_AllocationAccountID :: gostring
  cv9o_BoundaryID :: gostring
  cv9o_ArcaID :: gostring
  cv9o_DepositAddressID :: gostring
  cv9o_ID :: gostring
  cv9o_OperationID :: gostring
  cv9o_ArcaPath :: gostring
  cv9o_Kind :: gostring
  cv9o_Status :: gostring
  cv9o_Amount :: gostring
  cv9o_TxHash :: gostring
  cv9o_CreatedAt :: gostring
  cv9o_UpdatedAt :: gostring
  cv9o_Error :: gostring
  cv9o_Reason :: gostring

definition decode_CashV9Operation :: "jfields \<Rightarrow> CashV9Operation option" where
  "decode_CashV9Operation fs = do {
     x0 \<leftarrow> str_field ''counterpart'' fs; x1 \<leftarrow> str_field ''attribution'' fs;
     x2 \<leftarrow> str_field ''allocationAccountId'' fs; x3 \<leftarrow> str_field ''boundaryId'' fs;
     x4 \<leftarrow> str_field ''arcaId'' fs; x5 \<leftarrow> str_field ''depositAddressId'' fs;
     x6 \<leftarrow> str_field ''id'' fs; x7 \<leftarrow> str_field ''operationId'' fs;
     x8 \<leftarrow> str_field ''arcaPath'' fs; x9 \<leftarrow> str_field ''kind'' fs;
     x10 \<leftarrow> str_field ''status'' fs; x11 \<leftarrow> str_field ''amount'' fs;
     x12 \<leftarrow> str_field ''txHash'' fs; x13 \<leftarrow> str_field ''createdAt'' fs;
     x14 \<leftarrow> str_field ''updatedAt'' fs; x15 \<leftarrow> str_field ''error'' fs;
     x16 \<leftarrow> str_field ''reason'' fs;
     Some \<lparr>cv9o_Counterpart = x0, cv9o_Attribution = x1, cv9o_AllocationAccountID = x2, cv9o_BoundaryID = x3,
           cv9o_ArcaID = x4, cv9o_DepositAddressID = x5, cv9o_ID = x6, cv9o_OperationID = x7, cv9o_ArcaPath = x8,
           cv9o_Kind = x9, cv9o_Status = x10, cv9o_Amount = x11, cv9o_TxHash = x12, cv9o_CreatedAt = x13,
           cv9o_UpdatedAt = x14, cv9o_Error = x15, cv9o_Reason = x16\<rparr> }"

record CashV9AsOf =
  asof_Block :: nat
  asof_Hash :: gostring
  asof_Time :: gostring

definition decode_CashV9AsOf :: "jfields \<Rightarrow> CashV9AsOf option" where
  "decode_CashV9AsOf fs = do {
     x0 \<leftarrow> uint_field ''block'' fs; x1 \<leftarrow> str_field ''hash'' fs;
     x2 \<leftarrow> str_field ''time'' fs;
     Some \<lparr>asof_Block = x0, asof_Hash = x1, asof_Time = x2\<rparr> }"

record CashV9WalletSource =
  cv9ws_Accounting :: bool
  cv9ws_Address :: gostring
  cv9ws_BalanceMicro :: "gostring option"
  cv9ws_Health :: gostring
  cv9ws_CompleteThroughBlock :: nat
  cv9ws_AsOf :: CashV9AsOf

definition decode_CashV9WalletSource :: "jfields \<Rightarrow> CashV9WalletSource option" where
  "decode_CashV9WalletSource fs = do {
     x0 \<leftarrow> bool_field ''accounting'' fs; x1 \<leftarrow> str_field ''address'' fs;
     x2 \<leftarrow> strp_field ''balanceMicro'' fs; x3 \<leftarrow> str_field ''health'' fs;
     x4 \<leftarrow> uint_field ''completeThroughBlock'' fs;
     x5 \<leftarrow> struct_field decode_CashV9AsOf ''asOf'' fs;
     Some \<lparr>cv9ws_Accounting = x0, cv9ws_Address = x1, cv9ws_BalanceMicro = x2, cv9ws_Health = x3,
           cv9ws_CompleteThroughBlock = x4, cv9ws_AsOf = x5\<rparr> }"

record CashV9WalletBalances =
  cb_ConfirmedMicro :: gostring
  cb_AvailableMicro :: gostring
  cb_ReservedMicro :: gostring
  cb_PendingInMicro :: gostring
  cb_PendingOutMicro :: gostring
  cb_AsOf :: CashV9AsOf

definition decode_CashV9WalletBalances :: "jfields \<Rightarrow> CashV9WalletBalances option" where
  "decode_CashV9WalletBalances fs = do {
     x0 \<leftarrow> str_field ''confirmedMicro'' fs; x1 \<leftarrow> str_field ''availableMicro'' fs;
     x2 \<leftarrow> str_field ''reservedMicro'' fs; x3 \<leftarrow> str_field ''pendingInMicro'' fs;
     x4 \<leftarrow> str_field ''pendingOutMicro'' fs; x5 \<leftarrow> struct_field decode_CashV9AsOf ''asOf'' fs;
     Some \<lparr>cb_ConfirmedMicro = x0, cb_AvailableMicro = x1, cb_ReservedMicro = x2, cb_PendingInMicro = x3,
           cb_PendingOutMicro = x4, cb_AsOf = x5\<rparr> }"

record CashV9WalletAutoDeposit =
  cv9wad_State :: gostring
  cv9wad_RouteID :: gostring
  cv9wad_AllowanceMicro :: gostring
  cv9wad_HeldMicro :: gostring
  cv9wad_HeldReason :: gostring
  cv9wad_AsOf :: CashV9AsOf

definition decode_CashV9WalletAutoDeposit :: "jfields \<Rightarrow> CashV9WalletAutoDeposit option" where
  "decode_CashV9WalletAutoDeposit fs = do {
     x0 \<leftarrow> str_field ''state'' fs; x1 \<leftarrow> str_field ''routeId'' fs;
     x2 \<leftarrow> str_field ''allowanceMicro'' fs; x3 \<leftarrow> str_field ''heldMicro'' fs;
     x4 \<leftarrow> str_field ''heldReason'' fs; x5 \<leftarrow> struct_field decode_CashV9AsOf ''asOf'' fs;
     Some \<lparr>cv9wad_State = x0, cv9wad_RouteID = x1, cv9wad_AllowanceMicro = x2, cv9wad_HeldMicro = x3,
           cv9wad_HeldReason = x4, cv9wad_AsOf = x5\<rparr> }"

record CashV9WalletOperation =
  co_ID :: gostring
  co_Kind :: gostring
  co_State :: gostring
  co_Reason :: gostring
  co_AmountMicro :: gostring
  co_Destination :: gostring
  co_TxHash :: gostring
  co_StartedAt :: gostring
  co_UpdatedAt :: gostring
  co_CanRetry :: bool
  co_RequestID :: gostring
  co_ActionProposalID :: gostring
  co_Reference :: gostring

definition decode_CashV9WalletOperation :: "jfields \<Rightarrow> CashV9WalletOperation option" where
  "decode_CashV9WalletOperation fs = do {
     x0 \<leftarrow> str_field ''id'' fs; x1 \<leftarrow> str_field ''kind'' fs;
     x2 \<leftarrow> str_field ''state'' fs; x3 \<leftarrow> str_field ''reason'' fs;
     x4 \<leftarrow> str_field ''amountMicro'' fs; x5 \<leftarrow> str_field ''destination'' fs;
     x6 \<leftarrow> str_field ''txHash'' fs; x7 \<leftarrow> str_field ''startedAt'' fs;
     x8 \<leftarrow> str_field ''updatedAt'' fs; x9 \<leftarrow> bool_field ''canRetry'' fs;
     x10 \<leftarrow> str_field ''requestId'' fs; x11 \<leftarrow> str_field ''actionProposalId'' fs;
     x12 \<leftarrow> str_field ''reference'' fs;
     Some \<lparr>co_ID = x0, co_Kind = x1, co_State = x2, co_Reason = x3, co_AmountMicro = x4, co_Destination = x5,
           co_TxHash = x6, co_StartedAt = x7, co_UpdatedAt = x8, co_CanRetry = x9, co_RequestID = x10,
           co_ActionProposalID = x11, co_Reference = x12\<rparr> }"

record CashV9WalletRequirement =
  cv9wr_ProposalID :: gostring
  cv9wr_RequirementID :: gostring
  cv9wr_AttemptID :: gostring
  cv9wr_ActionKind :: gostring
  cv9wr_SchemaID :: gostring
  cv9wr_Variant :: gostring
  cv9wr_State :: gostring
  cv9wr_ExpiresAt :: int

definition decode_CashV9WalletRequirement :: "jfields \<Rightarrow> CashV9WalletRequirement option" where
  "decode_CashV9WalletRequirement fs = do {
     x0 \<leftarrow> str_field ''proposalId'' fs; x1 \<leftarrow> str_field ''requirementId'' fs;
     x2 \<leftarrow> str_field ''attemptId'' fs; x3 \<leftarrow> str_field ''actionKind'' fs;
     x4 \<leftarrow> str_field ''schemaId'' fs; x5 \<leftarrow> str_field ''variant'' fs;
     x6 \<leftarrow> str_field ''state'' fs; x7 \<leftarrow> int_field ''expiresAt'' fs;
     Some \<lparr>cv9wr_ProposalID = x0, cv9wr_RequirementID = x1, cv9wr_AttemptID = x2, cv9wr_ActionKind = x3,
           cv9wr_SchemaID = x4, cv9wr_Variant = x5, cv9wr_State = x6, cv9wr_ExpiresAt = x7\<rparr> }"

record CashV9WalletDepositLink =
  cv9wdl_LinkID :: gostring
  cv9wdl_SourceObjectID :: gostring
  cv9wdl_SourceWalletID :: gostring
  cv9wdl_SourceAddress :: gostring
  cv9wdl_Adapter :: gostring
  cv9wdl_RequestedState :: gostring
  cv9wdl_ObservedStatus :: gostring

definition decode_CashV9WalletDepositLink :: "jfields \<Rightarrow> CashV9WalletDepositLink option" where
  "decode_CashV9WalletDepositLink fs = do {
     x0 \<leftarrow> str_field ''linkId'' fs; x1 \<leftarrow> str_field ''sourceObjectId'' fs;
     x2 \<leftarrow> str_field ''sourceWalletId'' fs; x3 \<leftarrow> str_field ''sourceAddress'' fs;
     x4 \<leftarrow> str_field ''adapter'' fs; x5 \<leftarrow> str_field ''requestedState'' fs;
     x6 \<leftarrow> str_field ''observedStatus'' fs;
     Some \<lparr>cv9wdl_LinkID = x0, cv9wdl_SourceObjectID = x1, cv9wdl_SourceWalletID = x2, cv9wdl_SourceAddress = x3,
           cv9wdl_Adapter = x4, cv9wdl_RequestedState = x5, cv9wdl_ObservedStatus = x6\<rparr> }"

record CashV9WalletAccount =
  ca_Schema :: int
  ca_Revision :: nat
  ca_RealmID :: gostring
  ca_BoundaryID :: gostring
  ca_OwnerAddress :: gostring
  ca_DepositAddress :: gostring
  ca_Source :: "CashV9WalletSource option"
  ca_WalletState :: gostring
  ca_Attention :: "gostring list"
  ca_Balances :: CashV9WalletBalances
  ca_AutoDeposit :: "CashV9WalletAutoDeposit option"
  ca_Operations :: "CashV9WalletOperation list"
  ca_Requirements :: "CashV9WalletRequirement list"
  ca_DepositLinks :: "CashV9WalletDepositLink list"

definition decode_CashV9WalletAccount :: "jfields \<Rightarrow> CashV9WalletAccount option" where
  "decode_CashV9WalletAccount fs = do {
     x0 \<leftarrow> int_field ''schema'' fs; x1 \<leftarrow> uint_field ''revision'' fs;
     x2 \<leftarrow> str_field ''realmId'' fs; x3 \<leftarrow> str_field ''boundaryId'' fs;
     x4 \<leftarrow> str_field ''ownerAddress'' fs; x5 \<leftarrow> str_field ''depositAddress'' fs;
     x6 \<leftarrow> structp_field decode_CashV9WalletSource ''source'' fs;
     x7 \<leftarrow> str_field ''walletState'' fs; x8 \<leftarrow> strs_field ''attention'' fs;
     x9 \<leftarrow> struct_field decode_CashV9WalletBalances ''balances'' fs;
     x10 \<leftarrow> structp_field decode_CashV9WalletAutoDeposit ''autoDeposit'' fs;
     x11 \<leftarrow> structs_field decode_CashV9WalletOperation ''operations'' fs;
     x12 \<leftarrow> structs_field decode_CashV9WalletRequirement ''requirements'' fs;
     x13 \<leftarrow> structs_field decode_CashV9WalletDepositLink ''depositLinks'' fs;
     Some \<lparr>ca_Schema = x0, ca_Revision = x1, ca_RealmID = x2, ca_BoundaryID = x3, ca_OwnerAddress = x4,
           ca_DepositAddress = x5, ca_Source = x6, ca_WalletState = x7, ca_Attention = x8, ca_Balances = x9,
           ca_AutoDeposit = x10, ca_Operations = x11, ca_Requirements = x12, ca_DepositLinks = x13\<rparr> }"

section \<open>Funding accounts, operations and snapshots\<close>

record FundingV9WalletAccounting =
  fv9wa_Revision :: nat
  fv9wa_SourceMicro :: "gostring option"
  fv9wa_CashMicro :: gostring
  fv9wa_AvailableCashMicro :: gostring
  fv9wa_TradingMicro :: gostring
  fv9wa_MovingMicro :: gostring
  fv9wa_TotalMicro :: "gostring option"
  fv9wa_Complete :: bool
  fv9wa_Current :: bool
  fv9wa_CashBlock :: nat
  fv9wa_CashBlockHash :: gostring

definition decode_FundingV9WalletAccounting :: "jfields \<Rightarrow> FundingV9WalletAccounting option" where
  "decode_FundingV9WalletAccounting fs = do {
     x0 \<leftarrow> uint_field ''revision'' fs; x1 \<leftarrow> strp_field ''sourceMicro'' fs;
     x2 \<leftarrow> str_field ''cashMicro'' fs; x3 \<leftarrow> str_field ''availableCashMicro'' fs;
     x4 \<leftarrow> str_field ''tradingMicro'' fs; x5 \<leftarrow> str_field ''movingMicro'' fs;
     x6 \<leftarrow> strp_field ''totalMicro'' fs; x7 \<leftarrow> bool_field ''complete'' fs;
     x8 \<leftarrow> bool_field ''current'' fs; x9 \<leftarrow> uint_field ''cashBlock'' fs;
     x10 \<leftarrow> str_field ''cashBlockHash'' fs;
     Some \<lparr>fv9wa_Revision = x0, fv9wa_SourceMicro = x1, fv9wa_CashMicro = x2, fv9wa_AvailableCashMicro = x3,
           fv9wa_TradingMicro = x4, fv9wa_MovingMicro = x5, fv9wa_TotalMicro = x6, fv9wa_Complete = x7,
           fv9wa_Current = x8, fv9wa_CashBlock = x9, fv9wa_CashBlockHash = x10\<rparr> }"

record FundingV9WalletEndpoint =
  ep_ArcaPath :: gostring
  ep_Kind :: gostring
  ep_ArcaID :: gostring
  ep_BoundaryID :: gostring
  ep_Address :: gostring

definition decode_FundingV9WalletEndpoint :: "jfields \<Rightarrow> FundingV9WalletEndpoint option" where
  "decode_FundingV9WalletEndpoint fs = do {
     x0 \<leftarrow> str_field ''arcaPath'' fs; x1 \<leftarrow> str_field ''kind'' fs;
     x2 \<leftarrow> str_field ''arcaId'' fs; x3 \<leftarrow> str_field ''boundaryId'' fs;
     x4 \<leftarrow> str_field ''address'' fs;
     Some \<lparr>ep_ArcaPath = x0, ep_Kind = x1, ep_ArcaID = x2, ep_BoundaryID = x3, ep_Address = x4\<rparr> }"

record FundingV9WalletCashAccount =
  fv9wca_ArcaID :: gostring
  fv9wca_DefaultArcaID :: gostring
  fv9wca_ArcaPath :: gostring
  fv9wca_LocalID :: gostring
  fv9wca_AccountStatus :: gostring
  fv9wca_PermissionVersion :: nat
  fv9wca_RecoveryReadyAt :: nat
  fv9wca_RecoveryCommitted :: bool
  fv9wca_DefaultMicro :: gostring
  fv9wca_DefaultAvailMicro :: gostring
  fv9wca_UnallocatedMicro :: gostring
  fv9wca_DepositAddresses :: "CashV9DepositAddress list"
  fv9wca_Activity :: "CashV9Operation list"

definition decode_FundingV9WalletCashAccount :: "jfields \<Rightarrow> FundingV9WalletCashAccount option" where
  "decode_FundingV9WalletCashAccount fs = do {
     x0 \<leftarrow> str_field ''arcaId'' fs; x1 \<leftarrow> str_field ''defaultArcaId'' fs;
     x2 \<leftarrow> str_field ''arcaPath'' fs; x3 \<leftarrow> str_field ''localId'' fs;
     x4 \<leftarrow> str_field ''accountStatus'' fs; x5 \<leftarrow> uint_field ''permissionVersion'' fs;
     x6 \<leftarrow> uint_field ''recoveryReadyAt'' fs; x7 \<leftarrow> bool_field ''recoveryCommitted'' fs;
     x8 \<leftarrow> str_field ''defaultMicro'' fs; x9 \<leftarrow> str_field ''defaultAvailableMicro'' fs;
     x10 \<leftarrow> str_field ''unallocatedMicro'' fs;
     x11 \<leftarrow> structs_field decode_CashV9DepositAddress ''depositAddresses'' fs;
     x12 \<leftarrow> structs_field decode_CashV9Operation ''activity'' fs;
     Some \<lparr>fv9wca_ArcaID = x0, fv9wca_DefaultArcaID = x1, fv9wca_ArcaPath = x2, fv9wca_LocalID = x3,
           fv9wca_AccountStatus = x4, fv9wca_PermissionVersion = x5, fv9wca_RecoveryReadyAt = x6,
           fv9wca_RecoveryCommitted = x7, fv9wca_DefaultMicro = x8, fv9wca_DefaultAvailMicro = x9,
           fv9wca_UnallocatedMicro = x10, fv9wca_DepositAddresses = x11, fv9wca_Activity = x12\<rparr> }"

record FundingV9DeferredActivationFee =
  fv9daf_DeferredActivationFeeRaw :: gostring
  fv9daf_DeferredActivationFeeState :: gostring
  fv9daf_DeferredActivationFeeTrigger :: gostring

definition decode_FundingV9DeferredActivationFee :: "jfields \<Rightarrow> FundingV9DeferredActivationFee option" where
  "decode_FundingV9DeferredActivationFee fs = do {
     x0 \<leftarrow> str_field ''deferredActivationFeeRaw'' fs;
     x1 \<leftarrow> str_field ''deferredActivationFeeState'' fs;
     x2 \<leftarrow> str_field ''deferredActivationFeeTrigger'' fs;
     Some \<lparr>fv9daf_DeferredActivationFeeRaw = x0, fv9daf_DeferredActivationFeeState = x1,
           fv9daf_DeferredActivationFeeTrigger = x2\<rparr> }"

record FundingV9ActivationEvidence =
  fv9ae_Source :: gostring
  fv9ae_OperationID :: gostring
  fv9ae_NativeTxHash :: gostring
  fv9ae_ObservedAt :: int

definition decode_FundingV9ActivationEvidence :: "jfields \<Rightarrow> FundingV9ActivationEvidence option" where
  "decode_FundingV9ActivationEvidence fs = do {
     x0 \<leftarrow> str_field ''source'' fs; x1 \<leftarrow> str_field ''operationId'' fs;
     x2 \<leftarrow> str_field ''nativeTxHash'' fs; x3 \<leftarrow> int_field ''observedAt'' fs;
     Some \<lparr>fv9ae_Source = x0, fv9ae_OperationID = x1, fv9ae_NativeTxHash = x2, fv9ae_ObservedAt = x3\<rparr> }"

record FundingV9AccountCapability =
  fv9ac_Allowed :: bool
  fv9ac_Reason :: gostring

definition decode_FundingV9AccountCapability :: "jfields \<Rightarrow> FundingV9AccountCapability option" where
  "decode_FundingV9AccountCapability fs = do {
     x0 \<leftarrow> bool_field ''allowed'' fs; x1 \<leftarrow> str_field ''reason'' fs;
     Some \<lparr>fv9ac_Allowed = x0, fv9ac_Reason = x1\<rparr> }"

record FundingV9AccountFacts =
  fv9af_FundingV9DeferredActivationFee :: FundingV9DeferredActivationFee
  fv9af_FactsSequence :: nat
  fv9af_SetupRetryable :: bool
  fv9af_Activation :: gostring
  fv9af_ActivationEvidence :: "FundingV9ActivationEvidence option"
  fv9af_FundingState :: gostring
  fv9af_Capabilities :: "(gostring \<times> FundingV9AccountCapability) list"

definition decode_FundingV9AccountFacts :: "jfields \<Rightarrow> FundingV9AccountFacts option" where
  "decode_FundingV9AccountFacts fs = do {
     x0 \<leftarrow> decode_FundingV9DeferredActivationFee fs; x1 \<leftarrow> uint_field ''factsSequence'' fs;
     x2 \<leftarrow> bool_field ''setupRetryable'' fs; x3 \<leftarrow> str_field ''activation'' fs;
     x4 \<leftarrow> structp_field decode_FundingV9ActivationEvidence ''activationEvidence'' fs;
     x5 \<leftarrow> str_field ''fundingState'' fs;
     x6 \<leftarrow> structmap_field decode_FundingV9AccountCapability ''capabilities'' fs;
     Some \<lparr>fv9af_FundingV9DeferredActivationFee = x0, fv9af_FactsSequence = x1, fv9af_SetupRetryable = x2,
           fv9af_Activation = x3, fv9af_ActivationEvidence = x4, fv9af_FundingState = x5, fv9af_Capabilities = x6\<rparr> }"

record FundingV9WalletNativeBalances =
  nb_TotalMicro :: gostring
  nb_PerpMicro :: gostring
  nb_WithdrawableMicro :: gostring
  nb_SpotMicro :: gostring
  nb_Source :: gostring

definition decode_FundingV9WalletNativeBalances :: "jfields \<Rightarrow> FundingV9WalletNativeBalances option" where
  "decode_FundingV9WalletNativeBalances fs = do {
     x0 \<leftarrow> str_field ''totalMicro'' fs; x1 \<leftarrow> str_field ''perpMicro'' fs;
     x2 \<leftarrow> str_field ''withdrawableMicro'' fs; x3 \<leftarrow> str_field ''spotMicro'' fs;
     x4 \<leftarrow> str_field ''source'' fs;
     Some \<lparr>nb_TotalMicro = x0, nb_PerpMicro = x1, nb_WithdrawableMicro = x2, nb_SpotMicro = x3, nb_Source = x4\<rparr> }"

record FundingV9WalletRoutePreview =
  fv9wrp_Route :: gostring
  fv9wrp_Allowed :: bool
  fv9wrp_Reason :: gostring
  fv9wrp_MinimumRaw :: gostring
  fv9wrp_MaxRaw :: gostring
  fv9wrp_ActivationFeeRaw :: gostring
  fv9wrp_NetworkFeeRaw :: gostring
  fv9wrp_RequiresSetup :: bool

definition decode_FundingV9WalletRoutePreview :: "jfields \<Rightarrow> FundingV9WalletRoutePreview option" where
  "decode_FundingV9WalletRoutePreview fs = do {
     x0 \<leftarrow> str_field ''route'' fs; x1 \<leftarrow> bool_field ''allowed'' fs;
     x2 \<leftarrow> str_field ''reason'' fs; x3 \<leftarrow> str_field ''minimumRaw'' fs;
     x4 \<leftarrow> str_field ''maxRaw'' fs; x5 \<leftarrow> str_field ''activationFeeRaw'' fs;
     x6 \<leftarrow> str_field ''networkFeeRaw'' fs; x7 \<leftarrow> bool_field ''requiresSetup'' fs;
     Some \<lparr>fv9wrp_Route = x0, fv9wrp_Allowed = x1, fv9wrp_Reason = x2, fv9wrp_MinimumRaw = x3, fv9wrp_MaxRaw = x4,
           fv9wrp_ActivationFeeRaw = x5, fv9wrp_NetworkFeeRaw = x6, fv9wrp_RequiresSetup = x7\<rparr> }"

record FundingV9WalletTradingReadiness =
  fv9wtr_State :: gostring
  fv9wtr_BindingOperationID :: gostring

definition decode_FundingV9WalletTradingReadiness :: "jfields \<Rightarrow> FundingV9WalletTradingReadiness option" where
  "decode_FundingV9WalletTradingReadiness fs = do {
     x0 \<leftarrow> str_field ''state'' fs; x1 \<leftarrow> str_field ''bindingOperationId'' fs;
     Some \<lparr>fv9wtr_State = x0, fv9wtr_BindingOperationID = x1\<rparr> }"

record FundingV9WalletDepositAddress =
  fv9wda_Address :: gostring
  fv9wda_Lifecycle :: gostring
  fv9wda_PendingMicro :: gostring

definition decode_FundingV9WalletDepositAddress :: "jfields \<Rightarrow> FundingV9WalletDepositAddress option" where
  "decode_FundingV9WalletDepositAddress fs = do {
     x0 \<leftarrow> str_field ''address'' fs; x1 \<leftarrow> str_field ''lifecycle'' fs;
     x2 \<leftarrow> str_field ''pendingMicro'' fs;
     Some \<lparr>fv9wda_Address = x0, fv9wda_Lifecycle = x1, fv9wda_PendingMicro = x2\<rparr> }"

record FundingV9WalletTradingAccount =
  ta_LocalID :: gostring
  ta_Revision :: nat
  ta_FundingV9AccountFacts :: FundingV9AccountFacts
  ta_ArcaID :: gostring
  ta_ArcaPath :: gostring
  ta_BoundaryID :: gostring
  ta_Kind :: gostring
  ta_AccountAddress :: gostring
  ta_Labels :: "(gostring \<times> gostring) list"
  ta_State :: gostring
  ta_SetupStatus :: gostring
  ta_Lifecycle :: gostring
  ta_DeclaredAt :: gostring
  ta_Balances :: "FundingV9WalletNativeBalances option"
  ta_AsOf :: gostring
  ta_Current :: bool
  ta_HeldBy :: gostring
  ta_Routes :: "FundingV9WalletRoutePreview list"
  ta_Trading :: FundingV9WalletTradingReadiness
  ta_DepositAddress :: "FundingV9WalletDepositAddress option"

definition decode_FundingV9WalletTradingAccount :: "jfields \<Rightarrow> FundingV9WalletTradingAccount option" where
  "decode_FundingV9WalletTradingAccount fs = do {
     x0 \<leftarrow> str_field ''localId'' fs; x1 \<leftarrow> uint_field ''revision'' fs;
     x2 \<leftarrow> decode_FundingV9AccountFacts fs; x3 \<leftarrow> str_field ''arcaId'' fs;
     x4 \<leftarrow> str_field ''arcaPath'' fs; x5 \<leftarrow> str_field ''boundaryId'' fs;
     x6 \<leftarrow> str_field ''kind'' fs; x7 \<leftarrow> str_field ''accountAddress'' fs;
     x8 \<leftarrow> strmap_field ''labels'' fs; x9 \<leftarrow> str_field ''state'' fs;
     x10 \<leftarrow> str_field ''setupStatus'' fs; x11 \<leftarrow> str_field ''lifecycle'' fs;
     x12 \<leftarrow> str_field ''declaredAt'' fs;
     x13 \<leftarrow> structp_field decode_FundingV9WalletNativeBalances ''balances'' fs;
     x14 \<leftarrow> str_field ''asOf'' fs; x15 \<leftarrow> bool_field ''current'' fs;
     x16 \<leftarrow> str_field ''heldBy'' fs;
     x17 \<leftarrow> structs_field decode_FundingV9WalletRoutePreview ''routes'' fs;
     x18 \<leftarrow> struct_field decode_FundingV9WalletTradingReadiness ''trading'' fs;
     x19 \<leftarrow> structp_field decode_FundingV9WalletDepositAddress ''depositAddress'' fs;
     Some \<lparr>ta_LocalID = x0, ta_Revision = x1, ta_FundingV9AccountFacts = x2, ta_ArcaID = x3, ta_ArcaPath = x4,
           ta_BoundaryID = x5, ta_Kind = x6, ta_AccountAddress = x7, ta_Labels = x8, ta_State = x9, ta_SetupStatus = x10,
           ta_Lifecycle = x11, ta_DeclaredAt = x12, ta_Balances = x13, ta_AsOf = x14, ta_Current = x15, ta_HeldBy = x16,
           ta_Routes = x17, ta_Trading = x18, ta_DepositAddress = x19\<rparr> }"

record FundingV9WalletMoving =
  mv_OperationID :: gostring
  mv_Kind :: gostring
  mv_Leg :: gostring
  mv_AmountMicro :: gostring
  mv_From :: FundingV9WalletEndpoint
  mv_To :: FundingV9WalletEndpoint

definition decode_FundingV9WalletMoving :: "jfields \<Rightarrow> FundingV9WalletMoving option" where
  "decode_FundingV9WalletMoving fs = do {
     x0 \<leftarrow> str_field ''operationId'' fs; x1 \<leftarrow> str_field ''kind'' fs;
     x2 \<leftarrow> str_field ''leg'' fs; x3 \<leftarrow> str_field ''amountMicro'' fs;
     x4 \<leftarrow> struct_field decode_FundingV9WalletEndpoint ''from'' fs;
     x5 \<leftarrow> struct_field decode_FundingV9WalletEndpoint ''to'' fs;
     Some \<lparr>mv_OperationID = x0, mv_Kind = x1, mv_Leg = x2, mv_AmountMicro = x3, mv_From = x4, mv_To = x5\<rparr> }"

record FundingV9FeePayment =
  fv9fp_ID :: gostring
  fv9fp_Kind :: gostring
  fv9fp_PayerArcaID :: gostring
  fv9fp_AccountIDs :: "gostring list"
  fv9fp_OperationID :: gostring
  fv9fp_AmountRaw :: gostring
  fv9fp_NativeTxHash :: gostring

definition decode_FundingV9FeePayment :: "jfields \<Rightarrow> FundingV9FeePayment option" where
  "decode_FundingV9FeePayment fs = do {
     x0 \<leftarrow> str_field ''id'' fs; x1 \<leftarrow> str_field ''kind'' fs;
     x2 \<leftarrow> str_field ''payerArcaId'' fs; x3 \<leftarrow> strs_field ''accountIds'' fs;
     x4 \<leftarrow> str_field ''operationId'' fs; x5 \<leftarrow> str_field ''amountRaw'' fs;
     x6 \<leftarrow> str_field ''nativeTxHash'' fs;
     Some \<lparr>fv9fp_ID = x0, fv9fp_Kind = x1, fv9fp_PayerArcaID = x2, fv9fp_AccountIDs = x3, fv9fp_OperationID = x4,
           fv9fp_AmountRaw = x5, fv9fp_NativeTxHash = x6\<rparr> }"

record FundingV9MoveStep =
  fv9ms_Name :: gostring
  fv9ms_State :: gostring
  fv9ms_TxHash :: gostring
  fv9ms_BlockNumber :: nat
  fv9ms_BlockHash :: gostring

definition decode_FundingV9MoveStep :: "jfields \<Rightarrow> FundingV9MoveStep option" where
  "decode_FundingV9MoveStep fs = do {
     x0 \<leftarrow> str_field ''name'' fs; x1 \<leftarrow> str_field ''state'' fs;
     x2 \<leftarrow> str_field ''txHash'' fs; x3 \<leftarrow> uint_field ''blockNumber'' fs;
     x4 \<leftarrow> str_field ''blockHash'' fs;
     Some \<lparr>fv9ms_Name = x0, fv9ms_State = x1, fv9ms_TxHash = x2, fv9ms_BlockNumber = x3, fv9ms_BlockHash = x4\<rparr> }"

record FundingV9WalletCashLeg =
  fv9wcl_Leg :: gostring
  fv9wcl_State :: gostring
  fv9wcl_AmountMicro :: gostring
  fv9wcl_TxHash :: gostring

definition decode_FundingV9WalletCashLeg :: "jfields \<Rightarrow> FundingV9WalletCashLeg option" where
  "decode_FundingV9WalletCashLeg fs = do {
     x0 \<leftarrow> str_field ''leg'' fs; x1 \<leftarrow> str_field ''state'' fs;
     x2 \<leftarrow> str_field ''amountMicro'' fs; x3 \<leftarrow> str_field ''txHash'' fs;
     Some \<lparr>fv9wcl_Leg = x0, fv9wcl_State = x1, fv9wcl_AmountMicro = x2, fv9wcl_TxHash = x3\<rparr> }"

record FundingV9MoveConsent =
  fv9mc_ProposalID :: gostring
  fv9mc_Attempt :: int
  fv9mc_ExpiresAt :: int
  fv9mc_Signed :: bool

definition decode_FundingV9MoveConsent :: "jfields \<Rightarrow> FundingV9MoveConsent option" where
  "decode_FundingV9MoveConsent fs = do {
     x0 \<leftarrow> str_field ''proposalId'' fs; x1 \<leftarrow> int_field ''attempt'' fs;
     x2 \<leftarrow> int_field ''expiresAt'' fs; x3 \<leftarrow> bool_field ''signed'' fs;
     Some \<lparr>fv9mc_ProposalID = x0, fv9mc_Attempt = x1, fv9mc_ExpiresAt = x2, fv9mc_Signed = x3\<rparr> }"

record FundingV9TradingAgent =
  fv9ta_WalletID :: gostring
  fv9ta_Address :: gostring

definition decode_FundingV9TradingAgent :: "jfields \<Rightarrow> FundingV9TradingAgent option" where
  "decode_FundingV9TradingAgent fs = do {
     x0 \<leftarrow> str_field ''walletId'' fs; x1 \<leftarrow> str_field ''address'' fs;
     Some \<lparr>fv9ta_WalletID = x0, fv9ta_Address = x1\<rparr> }"

record FundingV9TradingAuthorization =
  fv9ta2_Type :: gostring
  fv9ta2_Builder :: gostring
  fv9ta2_MaxFeeRate :: nat
  fv9ta2_Agent :: FundingV9TradingAgent
  fv9ta2_Nonce :: gostring

definition decode_FundingV9TradingAuthorization :: "jfields \<Rightarrow> FundingV9TradingAuthorization option" where
  "decode_FundingV9TradingAuthorization fs = do {
     x0 \<leftarrow> str_field ''type'' fs; x1 \<leftarrow> str_field ''builder'' fs;
     x2 \<leftarrow> uint_field ''maxFeeRate'' fs;
     x3 \<leftarrow> struct_field decode_FundingV9TradingAgent ''agent'' fs; x4 \<leftarrow> str_field ''nonce'' fs;
     Some \<lparr>fv9ta2_Type = x0, fv9ta2_Builder = x1, fv9ta2_MaxFeeRate = x2, fv9ta2_Agent = x3, fv9ta2_Nonce = x4\<rparr> }"

record FundingV9CoreSnapshot =
  fv9cs_BeforeEVM :: bool
  fv9cs_EVMBlock :: nat
  fv9cs_SpotBalance :: gostring
  fv9cs_ObservedAt :: int
  fv9cs_Source :: gostring
  fv9cs_Account :: gostring
  fv9cs_DestinationDex :: nat
  fv9cs_CoreBlock :: nat
  fv9cs_CoreBlockHash :: gostring
  fv9cs_Balance :: gostring
  fv9cs_AvailableBalance :: gostring
  fv9cs_WithdrawableBalance :: gostring

definition decode_FundingV9CoreSnapshot :: "jfields \<Rightarrow> FundingV9CoreSnapshot option" where
  "decode_FundingV9CoreSnapshot fs = do {
     x0 \<leftarrow> bool_field ''beforeEvm'' fs; x1 \<leftarrow> uint_field ''evmBlock'' fs;
     x2 \<leftarrow> str_field ''spotBalance'' fs; x3 \<leftarrow> int_field ''observedAt'' fs;
     x4 \<leftarrow> str_field ''source'' fs; x5 \<leftarrow> str_field ''account'' fs;
     x6 \<leftarrow> uint32_field ''destinationDex'' fs; x7 \<leftarrow> uint_field ''coreBlock'' fs;
     x8 \<leftarrow> str_field ''coreBlockHash'' fs; x9 \<leftarrow> str_field ''balance'' fs;
     x10 \<leftarrow> str_field ''availableBalance'' fs; x11 \<leftarrow> str_field ''withdrawableBalance'' fs;
     Some \<lparr>fv9cs_BeforeEVM = x0, fv9cs_EVMBlock = x1, fv9cs_SpotBalance = x2, fv9cs_ObservedAt = x3, fv9cs_Source = x4,
           fv9cs_Account = x5, fv9cs_DestinationDex = x6, fv9cs_CoreBlock = x7, fv9cs_CoreBlockHash = x8,
           fv9cs_Balance = x9, fv9cs_AvailableBalance = x10, fv9cs_WithdrawableBalance = x11\<rparr> }"

record FundingV9Account =
  fa_FundingV9AccountFacts :: FundingV9AccountFacts
  fa_ArcaID :: gostring
  fa_BoundaryID :: gostring
  fa_ArcaPath :: gostring
  fa_Kind :: gostring
  fa_OwnerAddress :: gostring
  fa_VenueAddress :: gostring
  fa_LocalID :: gostring
  fa_AccountAddress :: gostring
  fa_KernelAddress :: gostring
  fa_ChainID :: gostring
  fa_TokenAddress :: gostring
  fa_DestinationDex :: nat
  fa_SetupStatus :: gostring
  fa_Readiness :: gostring
  fa_ReadinessReason :: gostring
  fa_AvailableBalance :: gostring
  fa_WithdrawableBalance :: gostring
  fa_Observation :: "FundingV9CoreSnapshot option"
  fa_PermissionVersion :: nat
  fa_Labels :: "(gostring \<times> gostring) list"
  fa_Lifecycle :: gostring

definition decode_FundingV9Account :: "jfields \<Rightarrow> FundingV9Account option" where
  "decode_FundingV9Account fs = do {
     x0 \<leftarrow> decode_FundingV9AccountFacts fs; x1 \<leftarrow> str_field ''arcaId'' fs;
     x2 \<leftarrow> str_field ''boundaryId'' fs; x3 \<leftarrow> str_field ''arcaPath'' fs;
     x4 \<leftarrow> str_field ''kind'' fs; x5 \<leftarrow> str_field ''ownerAddress'' fs;
     x6 \<leftarrow> str_field ''venueAddress'' fs; x7 \<leftarrow> str_field ''localId'' fs;
     x8 \<leftarrow> str_field ''accountAddress'' fs; x9 \<leftarrow> str_field ''kernelAddress'' fs;
     x10 \<leftarrow> str_field ''chainId'' fs; x11 \<leftarrow> str_field ''tokenAddress'' fs;
     x12 \<leftarrow> uint32_field ''destinationDex'' fs; x13 \<leftarrow> str_field ''setupStatus'' fs;
     x14 \<leftarrow> str_field ''readiness'' fs; x15 \<leftarrow> str_field ''readinessReason'' fs;
     x16 \<leftarrow> str_field ''availableBalance'' fs; x17 \<leftarrow> str_field ''withdrawableBalance'' fs;
     x18 \<leftarrow> structp_field decode_FundingV9CoreSnapshot ''observation'' fs;
     x19 \<leftarrow> uint_field ''permissionVersion'' fs; x20 \<leftarrow> strmap_field ''labels'' fs;
     x21 \<leftarrow> str_field ''lifecycle'' fs;
     Some \<lparr>fa_FundingV9AccountFacts = x0, fa_ArcaID = x1, fa_BoundaryID = x2, fa_ArcaPath = x3, fa_Kind = x4,
           fa_OwnerAddress = x5, fa_VenueAddress = x6, fa_LocalID = x7, fa_AccountAddress = x8, fa_KernelAddress = x9,
           fa_ChainID = x10, fa_TokenAddress = x11, fa_DestinationDex = x12, fa_SetupStatus = x13, fa_Readiness = x14,
           fa_ReadinessReason = x15, fa_AvailableBalance = x16, fa_WithdrawableBalance = x17, fa_Observation = x18,
           fa_PermissionVersion = x19, fa_Labels = x20, fa_Lifecycle = x21\<rparr> }"

record FundingV9Action =
  fv9a_ID :: gostring
  fv9a_TypedData :: "json option"

definition decode_FundingV9Action :: "jfields \<Rightarrow> FundingV9Action option" where
  "decode_FundingV9Action fs = do {
     x0 \<leftarrow> str_field ''id'' fs; x1 \<leftarrow> Some (raw_field ''typedData'' fs);
     Some \<lparr>fv9a_ID = x0, fv9a_TypedData = x1\<rparr> }"

record FundingV9Proposal =
  fp_Trading :: "FundingV9TradingAuthorization option"
  fp_ConsentVersion :: gostring
  fp_FundingIntent :: "json option"
  fp_ProposalID :: gostring
  fp_OperationID :: gostring
  fp_Kind :: gostring
  fp_ArcaID :: gostring
  fp_BoundaryID :: gostring
  fp_Target :: FundingV9Account
  fp_SourceAddress :: gostring
  fp_RouterAddress :: gostring
  fp_Amount :: gostring
  fp_AmountRaw :: gostring
  fp_ActivationFee :: gostring
  fp_ExpectedCredit :: gostring
  fp_GasSponsored :: bool
  fp_ExpiresAt :: int
  fp_Actions :: "FundingV9Action list"

definition decode_FundingV9Proposal :: "jfields \<Rightarrow> FundingV9Proposal option" where
  "decode_FundingV9Proposal fs = do {
     x0 \<leftarrow> structp_field decode_FundingV9TradingAuthorization ''trading'' fs;
     x1 \<leftarrow> str_field ''consentVersion'' fs; x2 \<leftarrow> Some (raw_field ''fundingIntent'' fs);
     x3 \<leftarrow> str_field ''proposalId'' fs; x4 \<leftarrow> str_field ''operationId'' fs;
     x5 \<leftarrow> str_field ''kind'' fs; x6 \<leftarrow> str_field ''arcaId'' fs;
     x7 \<leftarrow> str_field ''boundaryId'' fs;
     x8 \<leftarrow> struct_field decode_FundingV9Account ''target'' fs;
     x9 \<leftarrow> str_field ''sourceAddress'' fs; x10 \<leftarrow> str_field ''routerAddress'' fs;
     x11 \<leftarrow> str_field ''amount'' fs; x12 \<leftarrow> str_field ''amountRaw'' fs;
     x13 \<leftarrow> str_field ''activationFee'' fs; x14 \<leftarrow> str_field ''expectedCredit'' fs;
     x15 \<leftarrow> bool_field ''gasSponsored'' fs; x16 \<leftarrow> int_field ''expiresAt'' fs;
     x17 \<leftarrow> structs_field decode_FundingV9Action ''actions'' fs;
     Some \<lparr>fp_Trading = x0, fp_ConsentVersion = x1, fp_FundingIntent = x2, fp_ProposalID = x3, fp_OperationID = x4,
           fp_Kind = x5, fp_ArcaID = x6, fp_BoundaryID = x7, fp_Target = x8, fp_SourceAddress = x9,
           fp_RouterAddress = x10, fp_Amount = x11, fp_AmountRaw = x12, fp_ActivationFee = x13, fp_ExpectedCredit = x14,
           fp_GasSponsored = x15, fp_ExpiresAt = x16, fp_Actions = x17\<rparr> }"

record FundingV9WalletRequirement =
  fv9wr_Kind :: gostring
  fv9wr_OperationID :: gostring
  fv9wr_ProposalID :: gostring
  fv9wr_ActionIDs :: "gostring list"
  fv9wr_ExpiresAt :: int
  fv9wr_Proposal :: "FundingV9Proposal option"

definition decode_FundingV9WalletRequirement :: "jfields \<Rightarrow> FundingV9WalletRequirement option" where
  "decode_FundingV9WalletRequirement fs = do {
     x0 \<leftarrow> str_field ''kind'' fs; x1 \<leftarrow> str_field ''operationId'' fs;
     x2 \<leftarrow> str_field ''proposalId'' fs; x3 \<leftarrow> strs_field ''actionIds'' fs;
     x4 \<leftarrow> int_field ''expiresAt'' fs;
     x5 \<leftarrow> structp_field decode_FundingV9Proposal ''proposal'' fs;
     Some \<lparr>fv9wr_Kind = x0, fv9wr_OperationID = x1, fv9wr_ProposalID = x2, fv9wr_ActionIDs = x3, fv9wr_ExpiresAt = x4,
           fv9wr_Proposal = x5\<rparr> }"

record FundingV9WalletSettlement =
  fv9ws_Sequence :: nat
  fv9ws_NativeTxHash :: gostring
  fv9ws_CoreBlock :: nat
  fv9ws_CoreBlockHash :: gostring
  fv9ws_AmountMicro :: gostring
  fv9ws_FeeMicro :: gostring
  fv9ws_CreditMicro :: gostring
  fv9ws_Final :: bool

definition decode_FundingV9WalletSettlement :: "jfields \<Rightarrow> FundingV9WalletSettlement option" where
  "decode_FundingV9WalletSettlement fs = do {
     x0 \<leftarrow> uint_field ''sequence'' fs; x1 \<leftarrow> str_field ''nativeTxHash'' fs;
     x2 \<leftarrow> uint_field ''coreBlock'' fs; x3 \<leftarrow> str_field ''coreBlockHash'' fs;
     x4 \<leftarrow> str_field ''amountMicro'' fs; x5 \<leftarrow> str_field ''feeMicro'' fs;
     x6 \<leftarrow> str_field ''creditMicro'' fs; x7 \<leftarrow> bool_field ''final'' fs;
     Some \<lparr>fv9ws_Sequence = x0, fv9ws_NativeTxHash = x1, fv9ws_CoreBlock = x2, fv9ws_CoreBlockHash = x3,
           fv9ws_AmountMicro = x4, fv9ws_FeeMicro = x5, fv9ws_CreditMicro = x6, fv9ws_Final = x7\<rparr> }"

record FundingV9DepositSource =
  fv9ds_Kind :: gostring
  fv9ds_Reference :: gostring

definition decode_FundingV9DepositSource :: "jfields \<Rightarrow> FundingV9DepositSource option" where
  "decode_FundingV9DepositSource fs = do {
     x0 \<leftarrow> str_field ''kind'' fs; x1 \<leftarrow> str_field ''reference'' fs;
     Some \<lparr>fv9ds_Kind = x0, fv9ds_Reference = x1\<rparr> }"

record FundingV9DepositArrival =
  fv9da_TxHash :: gostring
  fv9da_LogIndex :: nat
  fv9da_BlockNumber :: nat
  fv9da_BlockHash :: gostring
  fv9da_From :: gostring
  fv9da_AmountMicro :: gostring

definition decode_FundingV9DepositArrival :: "jfields \<Rightarrow> FundingV9DepositArrival option" where
  "decode_FundingV9DepositArrival fs = do {
     x0 \<leftarrow> str_field ''txHash'' fs; x1 \<leftarrow> uint_field ''logIndex'' fs;
     x2 \<leftarrow> uint_field ''blockNumber'' fs; x3 \<leftarrow> str_field ''blockHash'' fs;
     x4 \<leftarrow> str_field ''from'' fs; x5 \<leftarrow> str_field ''amountMicro'' fs;
     Some \<lparr>fv9da_TxHash = x0, fv9da_LogIndex = x1, fv9da_BlockNumber = x2, fv9da_BlockHash = x3, fv9da_From = x4,
           fv9da_AmountMicro = x5\<rparr> }"

record FundingV9WalletOperation =
  wo_ActualDebitMicro :: gostring
  wo_ActualNetworkFeeMicro :: gostring
  wo_SetupState :: gostring
  wo_FeePayments :: "FundingV9FeePayment list"
  wo_FundingV9DeferredActivationFee :: FundingV9DeferredActivationFee
  wo_OperationID :: gostring
  wo_RequestID :: gostring
  wo_Kind :: gostring
  wo_Stage :: gostring
  wo_Status :: gostring
  wo_Attention :: gostring
  wo_Error :: gostring
  wo_SafeToReviewAgain :: bool
  wo_AmountMicro :: gostring
  wo_ArrivesMicro :: gostring
  wo_DebitMicro :: gostring
  wo_ActivationFeeMicro :: gostring
  wo_NetworkFeeMicro :: gostring
  wo_From :: FundingV9WalletEndpoint
  wo_To :: FundingV9WalletEndpoint
  wo_Steps :: "FundingV9MoveStep list"
  wo_DebitBooked :: bool
  wo_CreditBooked :: bool
  wo_CashLeg :: "FundingV9WalletCashLeg option"
  wo_SetupOperationID :: gostring
  wo_SetupDeadline :: int
  wo_Consent :: "FundingV9MoveConsent option"
  wo_Requirements :: "FundingV9WalletRequirement list"
  wo_Settlement :: "FundingV9WalletSettlement option"
  wo_TxHash :: gostring
  wo_CreatedAt :: gostring
  wo_Origin :: gostring
  wo_Source :: "FundingV9DepositSource option"
  wo_Arrival :: "FundingV9DepositArrival option"
  wo_ExpiresAt :: int
  wo_SweepOperationID :: gostring

definition decode_FundingV9WalletOperation :: "jfields \<Rightarrow> FundingV9WalletOperation option" where
  "decode_FundingV9WalletOperation fs = do {
     x0 \<leftarrow> str_field ''actualDebitMicro'' fs; x1 \<leftarrow> str_field ''actualNetworkFeeMicro'' fs;
     x2 \<leftarrow> str_field ''setupState'' fs;
     x3 \<leftarrow> structs_field decode_FundingV9FeePayment ''feePayments'' fs;
     x4 \<leftarrow> decode_FundingV9DeferredActivationFee fs; x5 \<leftarrow> str_field ''operationId'' fs;
     x6 \<leftarrow> str_field ''requestId'' fs; x7 \<leftarrow> str_field ''kind'' fs;
     x8 \<leftarrow> str_field ''stage'' fs; x9 \<leftarrow> str_field ''status'' fs;
     x10 \<leftarrow> str_field ''attention'' fs; x11 \<leftarrow> str_field ''error'' fs;
     x12 \<leftarrow> bool_field ''safeToReviewAgain'' fs; x13 \<leftarrow> str_field ''amountMicro'' fs;
     x14 \<leftarrow> str_field ''arrivesMicro'' fs; x15 \<leftarrow> str_field ''debitMicro'' fs;
     x16 \<leftarrow> str_field ''activationFeeMicro'' fs; x17 \<leftarrow> str_field ''networkFeeMicro'' fs;
     x18 \<leftarrow> struct_field decode_FundingV9WalletEndpoint ''from'' fs;
     x19 \<leftarrow> struct_field decode_FundingV9WalletEndpoint ''to'' fs;
     x20 \<leftarrow> structs_field decode_FundingV9MoveStep ''steps'' fs;
     x21 \<leftarrow> bool_field ''debitBooked'' fs; x22 \<leftarrow> bool_field ''creditBooked'' fs;
     x23 \<leftarrow> structp_field decode_FundingV9WalletCashLeg ''cashLeg'' fs;
     x24 \<leftarrow> str_field ''setupOperationId'' fs; x25 \<leftarrow> int_field ''setupDeadline'' fs;
     x26 \<leftarrow> structp_field decode_FundingV9MoveConsent ''consent'' fs;
     x27 \<leftarrow> structs_field decode_FundingV9WalletRequirement ''requirements'' fs;
     x28 \<leftarrow> structp_field decode_FundingV9WalletSettlement ''settlement'' fs;
     x29 \<leftarrow> str_field ''txHash'' fs; x30 \<leftarrow> str_field ''createdAt'' fs;
     x31 \<leftarrow> str_field ''origin'' fs;
     x32 \<leftarrow> structp_field decode_FundingV9DepositSource ''source'' fs;
     x33 \<leftarrow> structp_field decode_FundingV9DepositArrival ''arrival'' fs;
     x34 \<leftarrow> int_field ''expiresAt'' fs; x35 \<leftarrow> str_field ''sweepOperationId'' fs;
     Some \<lparr>wo_ActualDebitMicro = x0, wo_ActualNetworkFeeMicro = x1, wo_SetupState = x2, wo_FeePayments = x3,
           wo_FundingV9DeferredActivationFee = x4, wo_OperationID = x5, wo_RequestID = x6, wo_Kind = x7, wo_Stage = x8,
           wo_Status = x9, wo_Attention = x10, wo_Error = x11, wo_SafeToReviewAgain = x12, wo_AmountMicro = x13,
           wo_ArrivesMicro = x14, wo_DebitMicro = x15, wo_ActivationFeeMicro = x16, wo_NetworkFeeMicro = x17,
           wo_From = x18, wo_To = x19, wo_Steps = x20, wo_DebitBooked = x21, wo_CreditBooked = x22, wo_CashLeg = x23,
           wo_SetupOperationID = x24, wo_SetupDeadline = x25, wo_Consent = x26, wo_Requirements = x27,
           wo_Settlement = x28, wo_TxHash = x29, wo_CreatedAt = x30, wo_Origin = x31, wo_Source = x32, wo_Arrival = x33,
           wo_ExpiresAt = x34, wo_SweepOperationID = x35\<rparr> }"

record FundingV9WalletTotals =
  tt_CashMicro :: gostring
  tt_MovingMicro :: gostring
  tt_TradingMicro :: gostring
  tt_TotalMicro :: gostring
  tt_Complete :: bool
  tt_Current :: bool

definition decode_FundingV9WalletTotals :: "jfields \<Rightarrow> FundingV9WalletTotals option" where
  "decode_FundingV9WalletTotals fs = do {
     x0 \<leftarrow> str_field ''cashMicro'' fs; x1 \<leftarrow> str_field ''movingMicro'' fs;
     x2 \<leftarrow> str_field ''tradingMicro'' fs; x3 \<leftarrow> str_field ''totalMicro'' fs;
     x4 \<leftarrow> bool_field ''complete'' fs; x5 \<leftarrow> bool_field ''current'' fs;
     Some \<lparr>tt_CashMicro = x0, tt_MovingMicro = x1, tt_TradingMicro = x2, tt_TotalMicro = x3, tt_Complete = x4,
           tt_Current = x5\<rparr> }"

record FundingV9WalletWatermark =
  wk_Sequence :: nat
  wk_Revision :: nat
  wk_CashBlock :: nat
  wk_CashBlockHash :: gostring
  wk_NativeObservedAt :: int
  wk_SettlementSequence :: nat
  wk_LastSettlementBlock :: nat

definition decode_FundingV9WalletWatermark :: "jfields \<Rightarrow> FundingV9WalletWatermark option" where
  "decode_FundingV9WalletWatermark fs = do {
     x0 \<leftarrow> uint_field ''sequence'' fs; x1 \<leftarrow> uint_field ''revision'' fs;
     x2 \<leftarrow> uint_field ''cashBlock'' fs; x3 \<leftarrow> str_field ''cashBlockHash'' fs;
     x4 \<leftarrow> int_field ''nativeObservedAt'' fs; x5 \<leftarrow> uint_field ''settlementSequence'' fs;
     x6 \<leftarrow> uint_field ''lastSettlementBlock'' fs;
     Some \<lparr>wk_Sequence = x0, wk_Revision = x1, wk_CashBlock = x2, wk_CashBlockHash = x3, wk_NativeObservedAt = x4,
           wk_SettlementSequence = x5, wk_LastSettlementBlock = x6\<rparr> }"

record FundingV9WalletSnapshot =
  ws_Accounting :: "FundingV9WalletAccounting option"
  ws_CashTarget :: FundingV9WalletEndpoint
  ws_CashAccount :: "FundingV9WalletCashAccount option"
  ws_Schema :: int
  ws_RealmID :: gostring
  ws_OwnerAddress :: gostring
  ws_ArcaPath :: gostring
  ws_BoundaryID :: gostring
  ws_Cash :: CashV9WalletAccount
  ws_Accounts :: "FundingV9WalletTradingAccount list"
  ws_Moving :: "FundingV9WalletMoving list"
  ws_Operations :: "FundingV9WalletOperation list"
  ws_Totals :: FundingV9WalletTotals
  ws_Attention :: "gostring list"
  ws_Watermark :: FundingV9WalletWatermark
  ws_ComposedAt :: gostring

definition decode_FundingV9WalletSnapshot :: "jfields \<Rightarrow> FundingV9WalletSnapshot option" where
  "decode_FundingV9WalletSnapshot fs = do {
     x0 \<leftarrow> structp_field decode_FundingV9WalletAccounting ''accounting'' fs;
     x1 \<leftarrow> struct_field decode_FundingV9WalletEndpoint ''cashTarget'' fs;
     x2 \<leftarrow> structp_field decode_FundingV9WalletCashAccount ''cashAccount'' fs;
     x3 \<leftarrow> int_field ''schema'' fs; x4 \<leftarrow> str_field ''realmId'' fs;
     x5 \<leftarrow> str_field ''ownerAddress'' fs; x6 \<leftarrow> str_field ''arcaPath'' fs;
     x7 \<leftarrow> str_field ''boundaryId'' fs;
     x8 \<leftarrow> struct_field decode_CashV9WalletAccount ''cash'' fs;
     x9 \<leftarrow> structs_field decode_FundingV9WalletTradingAccount ''accounts'' fs;
     x10 \<leftarrow> structs_field decode_FundingV9WalletMoving ''moving'' fs;
     x11 \<leftarrow> structs_field decode_FundingV9WalletOperation ''operations'' fs;
     x12 \<leftarrow> struct_field decode_FundingV9WalletTotals ''totals'' fs;
     x13 \<leftarrow> strs_field ''attention'' fs;
     x14 \<leftarrow> struct_field decode_FundingV9WalletWatermark ''watermark'' fs;
     x15 \<leftarrow> str_field ''composedAt'' fs;
     Some \<lparr>ws_Accounting = x0, ws_CashTarget = x1, ws_CashAccount = x2, ws_Schema = x3, ws_RealmID = x4,
           ws_OwnerAddress = x5, ws_ArcaPath = x6, ws_BoundaryID = x7, ws_Cash = x8, ws_Accounts = x9, ws_Moving = x10,
           ws_Operations = x11, ws_Totals = x12, ws_Attention = x13, ws_Watermark = x14, ws_ComposedAt = x15\<rparr> }"

record FundingV9SourceDebitEvidence =
  fv9sde_TxHash :: gostring
  fv9sde_BlockNumber :: nat
  fv9sde_BlockHash :: gostring
  fv9sde_TokenAddress :: gostring
  fv9sde_SourceAddress :: gostring
  fv9sde_Amount :: gostring
  fv9sde_AuthorizationNonce :: gostring
  fv9sde_BlockTime :: nat

definition decode_FundingV9SourceDebitEvidence :: "jfields \<Rightarrow> FundingV9SourceDebitEvidence option" where
  "decode_FundingV9SourceDebitEvidence fs = do {
     x0 \<leftarrow> str_field ''txHash'' fs; x1 \<leftarrow> uint_field ''blockNumber'' fs;
     x2 \<leftarrow> str_field ''blockHash'' fs; x3 \<leftarrow> str_field ''tokenAddress'' fs;
     x4 \<leftarrow> str_field ''sourceAddress'' fs; x5 \<leftarrow> str_field ''amount'' fs;
     x6 \<leftarrow> str_field ''authorizationNonce'' fs; x7 \<leftarrow> uint_field ''blockTime'' fs;
     Some \<lparr>fv9sde_TxHash = x0, fv9sde_BlockNumber = x1, fv9sde_BlockHash = x2, fv9sde_TokenAddress = x3,
           fv9sde_SourceAddress = x4, fv9sde_Amount = x5, fv9sde_AuthorizationNonce = x6, fv9sde_BlockTime = x7\<rparr> }"

record FundingV9CoreRefusal =
  fv9cr_Reason :: gostring
  fv9cr_Detail :: gostring
  fv9cr_DemandRevision :: gostring
  fv9cr_ExpectedNonce :: gostring

definition decode_FundingV9CoreRefusal :: "jfields \<Rightarrow> FundingV9CoreRefusal option" where
  "decode_FundingV9CoreRefusal fs = do {
     x0 \<leftarrow> str_field ''reason'' fs; x1 \<leftarrow> str_field ''detail'' fs;
     x2 \<leftarrow> str_field ''demandRevision'' fs; x3 \<leftarrow> str_field ''expectedNonce'' fs;
     Some \<lparr>fv9cr_Reason = x0, fv9cr_Detail = x1, fv9cr_DemandRevision = x2, fv9cr_ExpectedNonce = x3\<rparr> }"

record FundingV9CoreSettlement =
  fv9cs2_ActionKind :: gostring
  fv9cs2_SourceDex :: nat
  fv9cs2_ToPerp :: "bool option"
  fv9cs2_Refusal :: "FundingV9CoreRefusal option"
  fv9cs2_Sequence :: nat
  fv9cs2_ChainID :: gostring
  fv9cs2_SourceTxHash :: gostring
  fv9cs2_SourceBlockHash :: gostring
  fv9cs2_SourceLogIndex :: nat
  fv9cs2_NativeTxHash :: gostring
  fv9cs2_Account :: gostring
  fv9cs2_Token :: gostring
  fv9cs2_DestinationDex :: nat
  fv9cs2_AmountRaw :: gostring
  fv9cs2_FeeRaw :: gostring
  fv9cs2_CreditRaw :: gostring
  fv9cs2_Final :: bool
  fv9cs2_Snapshot :: FundingV9CoreSnapshot
  fv9cs2_DebitAccount :: gostring

definition decode_FundingV9CoreSettlement :: "jfields \<Rightarrow> FundingV9CoreSettlement option" where
  "decode_FundingV9CoreSettlement fs = do {
     x0 \<leftarrow> str_field ''actionKind'' fs; x1 \<leftarrow> uint32_field ''sourceDex'' fs;
     x2 \<leftarrow> boolp_field ''toPerp'' fs;
     x3 \<leftarrow> structp_field decode_FundingV9CoreRefusal ''refusal'' fs;
     x4 \<leftarrow> uint_field ''sequence'' fs; x5 \<leftarrow> str_field ''chainId'' fs;
     x6 \<leftarrow> str_field ''sourceTxHash'' fs; x7 \<leftarrow> str_field ''sourceBlockHash'' fs;
     x8 \<leftarrow> uint_field ''sourceLogIndex'' fs; x9 \<leftarrow> str_field ''nativeTxHash'' fs;
     x10 \<leftarrow> str_field ''account'' fs; x11 \<leftarrow> str_field ''token'' fs;
     x12 \<leftarrow> uint32_field ''destinationDex'' fs; x13 \<leftarrow> str_field ''amountRaw'' fs;
     x14 \<leftarrow> str_field ''feeRaw'' fs; x15 \<leftarrow> str_field ''creditRaw'' fs;
     x16 \<leftarrow> bool_field ''final'' fs;
     x17 \<leftarrow> struct_field decode_FundingV9CoreSnapshot ''snapshot'' fs;
     x18 \<leftarrow> str_field ''debitAccount'' fs;
     Some \<lparr>fv9cs2_ActionKind = x0, fv9cs2_SourceDex = x1, fv9cs2_ToPerp = x2, fv9cs2_Refusal = x3, fv9cs2_Sequence = x4,
           fv9cs2_ChainID = x5, fv9cs2_SourceTxHash = x6, fv9cs2_SourceBlockHash = x7, fv9cs2_SourceLogIndex = x8,
           fv9cs2_NativeTxHash = x9, fv9cs2_Account = x10, fv9cs2_Token = x11, fv9cs2_DestinationDex = x12,
           fv9cs2_AmountRaw = x13, fv9cs2_FeeRaw = x14, fv9cs2_CreditRaw = x15, fv9cs2_Final = x16, fv9cs2_Snapshot = x17,
           fv9cs2_DebitAccount = x18\<rparr> }"

record FundingV9MoveState =
  mst_FundingV9DeferredActivationFee :: FundingV9DeferredActivationFee
  mst_ActualDebitRaw :: gostring
  mst_ActualNetworkFeeRaw :: gostring
  mst_Route :: gostring
  mst_From :: FundingV9Account
  mst_To :: FundingV9Account
  mst_AmountRaw :: gostring
  mst_ActivationFeeRaw :: gostring
  mst_NetworkFeeRaw :: gostring
  mst_DebitRaw :: gostring
  mst_FromActivation :: gostring
  mst_ToActivation :: gostring
  mst_FromActivationAfter :: gostring
  mst_ToActivationAfter :: gostring
  mst_Ref :: gostring
  mst_Steps :: "FundingV9MoveStep list"
  mst_DebitBooked :: bool
  mst_CreditBooked :: bool
  mst_SetupOperationID :: gostring
  mst_SetupDeadline :: int
  mst_Consent :: "FundingV9MoveConsent option"

definition decode_FundingV9MoveState :: "jfields \<Rightarrow> FundingV9MoveState option" where
  "decode_FundingV9MoveState fs = do {
     x0 \<leftarrow> decode_FundingV9DeferredActivationFee fs; x1 \<leftarrow> str_field ''actualDebitRaw'' fs;
     x2 \<leftarrow> str_field ''actualNetworkFeeRaw'' fs; x3 \<leftarrow> str_field ''route'' fs;
     x4 \<leftarrow> struct_field decode_FundingV9Account ''from'' fs;
     x5 \<leftarrow> struct_field decode_FundingV9Account ''to'' fs; x6 \<leftarrow> str_field ''amountRaw'' fs;
     x7 \<leftarrow> str_field ''activationFeeRaw'' fs; x8 \<leftarrow> str_field ''networkFeeRaw'' fs;
     x9 \<leftarrow> str_field ''debitRaw'' fs; x10 \<leftarrow> str_field ''fromActivation'' fs;
     x11 \<leftarrow> str_field ''toActivation'' fs; x12 \<leftarrow> str_field ''fromActivationAfter'' fs;
     x13 \<leftarrow> str_field ''toActivationAfter'' fs; x14 \<leftarrow> str_field ''ref'' fs;
     x15 \<leftarrow> structs_field decode_FundingV9MoveStep ''steps'' fs;
     x16 \<leftarrow> bool_field ''debitBooked'' fs; x17 \<leftarrow> bool_field ''creditBooked'' fs;
     x18 \<leftarrow> str_field ''setupOperationId'' fs; x19 \<leftarrow> int_field ''setupDeadline'' fs;
     x20 \<leftarrow> structp_field decode_FundingV9MoveConsent ''consent'' fs;
     Some \<lparr>mst_FundingV9DeferredActivationFee = x0, mst_ActualDebitRaw = x1, mst_ActualNetworkFeeRaw = x2, mst_Route = x3,
           mst_From = x4, mst_To = x5, mst_AmountRaw = x6, mst_ActivationFeeRaw = x7, mst_NetworkFeeRaw = x8,
           mst_DebitRaw = x9, mst_FromActivation = x10, mst_ToActivation = x11, mst_FromActivationAfter = x12,
           mst_ToActivationAfter = x13, mst_Ref = x14, mst_Steps = x15, mst_DebitBooked = x16, mst_CreditBooked = x17,
           mst_SetupOperationID = x18, mst_SetupDeadline = x19, mst_Consent = x20\<rparr> }"

record FundingV9DepositReference =
  fv9dr_Kind :: gostring
  fv9dr_Value :: gostring

definition decode_FundingV9DepositReference :: "jfields \<Rightarrow> FundingV9DepositReference option" where
  "decode_FundingV9DepositReference fs = do {
     x0 \<leftarrow> str_field ''kind'' fs; x1 \<leftarrow> str_field ''value'' fs;
     Some \<lparr>fv9dr_Kind = x0, fv9dr_Value = x1\<rparr> }"

record FundingV9Operation =
  fo_Requirements :: "FundingV9WalletRequirement list"
  fo_SetupState :: gostring
  fo_FeePayments :: "FundingV9FeePayment list"
  fo_SafeToReviewAgain :: bool
  fo_OperationID :: gostring
  fo_ProposalID :: gostring
  fo_ArcaID :: gostring
  fo_BoundaryID :: gostring
  fo_Kind :: gostring
  fo_Stage :: gostring
  fo_Status :: gostring
  fo_Amount :: gostring
  fo_ActivationFee :: gostring
  fo_ExpectedCredit :: gostring
  fo_SourceAddress :: gostring
  fo_Target :: FundingV9Account
  fo_AllConsentsAccepted :: bool
  fo_SourceDebitEvidence :: "FundingV9SourceDebitEvidence option"
  fo_Settlement :: "FundingV9CoreSettlement option"
  fo_TxHash :: gostring
  fo_Error :: gostring
  fo_Attention :: gostring
  fo_CreatedAt :: gostring
  fo_Move :: "FundingV9MoveState option"
  fo_Origin :: gostring
  fo_Source :: "FundingV9DepositSource option"
  fo_Arrival :: "FundingV9DepositArrival option"
  fo_ExpiresAt :: int
  fo_SweepOperationID :: gostring
  fo_IntentID :: gostring
  fo_Assurance :: gostring
  fo_References :: "FundingV9DepositReference list"
  fo_Expects :: "gostring list"
  fo_MergedInto :: gostring
  fo_RevivedBy :: gostring

definition decode_FundingV9Operation :: "jfields \<Rightarrow> FundingV9Operation option" where
  "decode_FundingV9Operation fs = do {
     x0 \<leftarrow> structs_field decode_FundingV9WalletRequirement ''requirements'' fs;
     x1 \<leftarrow> str_field ''setupState'' fs;
     x2 \<leftarrow> structs_field decode_FundingV9FeePayment ''feePayments'' fs;
     x3 \<leftarrow> bool_field ''safeToReviewAgain'' fs; x4 \<leftarrow> str_field ''operationId'' fs;
     x5 \<leftarrow> str_field ''proposalId'' fs; x6 \<leftarrow> str_field ''arcaId'' fs;
     x7 \<leftarrow> str_field ''boundaryId'' fs; x8 \<leftarrow> str_field ''kind'' fs;
     x9 \<leftarrow> str_field ''stage'' fs; x10 \<leftarrow> str_field ''status'' fs;
     x11 \<leftarrow> str_field ''amount'' fs; x12 \<leftarrow> str_field ''activationFee'' fs;
     x13 \<leftarrow> str_field ''expectedCredit'' fs; x14 \<leftarrow> str_field ''sourceAddress'' fs;
     x15 \<leftarrow> struct_field decode_FundingV9Account ''target'' fs;
     x16 \<leftarrow> bool_field ''allConsentsAccepted'' fs;
     x17 \<leftarrow> structp_field decode_FundingV9SourceDebitEvidence ''sourceDebitEvidence'' fs;
     x18 \<leftarrow> structp_field decode_FundingV9CoreSettlement ''settlement'' fs;
     x19 \<leftarrow> str_field ''txHash'' fs; x20 \<leftarrow> str_field ''error'' fs;
     x21 \<leftarrow> str_field ''attention'' fs; x22 \<leftarrow> str_field ''createdAt'' fs;
     x23 \<leftarrow> structp_field decode_FundingV9MoveState ''move'' fs; x24 \<leftarrow> str_field ''origin'' fs;
     x25 \<leftarrow> structp_field decode_FundingV9DepositSource ''source'' fs;
     x26 \<leftarrow> structp_field decode_FundingV9DepositArrival ''arrival'' fs;
     x27 \<leftarrow> int_field ''expiresAt'' fs; x28 \<leftarrow> str_field ''sweepOperationId'' fs;
     x29 \<leftarrow> str_field ''intentId'' fs; x30 \<leftarrow> str_field ''assurance'' fs;
     x31 \<leftarrow> structs_field decode_FundingV9DepositReference ''references'' fs;
     x32 \<leftarrow> strs_field ''expects'' fs; x33 \<leftarrow> str_field ''mergedInto'' fs;
     x34 \<leftarrow> str_field ''revivedBy'' fs;
     Some \<lparr>fo_Requirements = x0, fo_SetupState = x1, fo_FeePayments = x2, fo_SafeToReviewAgain = x3, fo_OperationID = x4,
           fo_ProposalID = x5, fo_ArcaID = x6, fo_BoundaryID = x7, fo_Kind = x8, fo_Stage = x9, fo_Status = x10,
           fo_Amount = x11, fo_ActivationFee = x12, fo_ExpectedCredit = x13, fo_SourceAddress = x14, fo_Target = x15,
           fo_AllConsentsAccepted = x16, fo_SourceDebitEvidence = x17, fo_Settlement = x18, fo_TxHash = x19,
           fo_Error = x20, fo_Attention = x21, fo_CreatedAt = x22, fo_Move = x23, fo_Origin = x24, fo_Source = x25,
           fo_Arrival = x26, fo_ExpiresAt = x27, fo_SweepOperationID = x28, fo_IntentID = x29, fo_Assurance = x30,
           fo_References = x31, fo_Expects = x32, fo_MergedInto = x33, fo_RevivedBy = x34\<rparr> }"

record FundingV9MoveAdmission =
  ma_Operation :: FundingV9Operation
  ma_Setup :: "FundingV9Proposal option"
  ma_Consent :: "FundingV9Proposal option"

definition decode_FundingV9MoveAdmission :: "jfields \<Rightarrow> FundingV9MoveAdmission option" where
  "decode_FundingV9MoveAdmission fs = do {
     x0 \<leftarrow> struct_field decode_FundingV9Operation ''operation'' fs;
     x1 \<leftarrow> structp_field decode_FundingV9Proposal ''setup'' fs;
     x2 \<leftarrow> structp_field decode_FundingV9Proposal ''consent'' fs;
     Some \<lparr>ma_Operation = x0, ma_Setup = x1, ma_Consent = x2\<rparr> }"

record FundingV9MoveResolution =
  mr_Status :: gostring
  mr_RequestID :: gostring
  mr_OperationID :: gostring
  mr_Admission :: "FundingV9MoveAdmission option"

definition decode_FundingV9MoveResolution :: "jfields \<Rightarrow> FundingV9MoveResolution option" where
  "decode_FundingV9MoveResolution fs = do {
     x0 \<leftarrow> str_field ''status'' fs; x1 \<leftarrow> str_field ''requestId'' fs;
     x2 \<leftarrow> str_field ''operationId'' fs;
     x3 \<leftarrow> structp_field decode_FundingV9MoveAdmission ''admission'' fs;
     Some \<lparr>mr_Status = x0, mr_RequestID = x1, mr_OperationID = x2, mr_Admission = x3\<rparr> }"

record FundingV9MoveSide =
  ms_Kind :: gostring
  ms_ArcaID :: gostring
  ms_ArcaPath :: gostring
  ms_BoundaryID :: gostring
  ms_AccountAddress :: gostring

definition decode_FundingV9MoveSide :: "jfields \<Rightarrow> FundingV9MoveSide option" where
  "decode_FundingV9MoveSide fs = do {
     x0 \<leftarrow> str_field ''kind'' fs; x1 \<leftarrow> str_field ''arcaId'' fs;
     x2 \<leftarrow> str_field ''arcaPath'' fs; x3 \<leftarrow> str_field ''boundaryId'' fs;
     x4 \<leftarrow> str_field ''accountAddress'' fs;
     Some \<lparr>ms_Kind = x0, ms_ArcaID = x1, ms_ArcaPath = x2, ms_BoundaryID = x3, ms_AccountAddress = x4\<rparr> }"

record FundingV9MoveRefusal =
  fv9mr_Code :: gostring
  fv9mr_Message :: gostring

definition decode_FundingV9MoveRefusal :: "jfields \<Rightarrow> FundingV9MoveRefusal option" where
  "decode_FundingV9MoveRefusal fs = do {
     x0 \<leftarrow> str_field ''code'' fs; x1 \<leftarrow> str_field ''message'' fs;
     Some \<lparr>fv9mr_Code = x0, fv9mr_Message = x1\<rparr> }"

record FundingV9MoveQuote =
  mq_FundingV9DeferredActivationFee :: FundingV9DeferredActivationFee
  mq_Route :: gostring
  mq_From :: FundingV9MoveSide
  mq_To :: FundingV9MoveSide
  mq_AmountRaw :: gostring
  mq_ActivationFeeRaw :: gostring
  mq_NetworkFeeRaw :: gostring
  mq_ArrivesRaw :: gostring
  mq_DebitRaw :: gostring
  mq_MinimumRaw :: gostring
  mq_MaxRaw :: gostring
  mq_FromActivation :: gostring
  mq_ToActivation :: gostring
  mq_FromActivationAfter :: gostring
  mq_ToActivationAfter :: gostring
  mq_RequiresSetup :: bool
  mq_ExpiresAt :: int
  mq_Refusal :: "FundingV9MoveRefusal option"

definition decode_FundingV9MoveQuote :: "jfields \<Rightarrow> FundingV9MoveQuote option" where
  "decode_FundingV9MoveQuote fs = do {
     x0 \<leftarrow> decode_FundingV9DeferredActivationFee fs; x1 \<leftarrow> str_field ''route'' fs;
     x2 \<leftarrow> struct_field decode_FundingV9MoveSide ''from'' fs;
     x3 \<leftarrow> struct_field decode_FundingV9MoveSide ''to'' fs; x4 \<leftarrow> str_field ''amountRaw'' fs;
     x5 \<leftarrow> str_field ''activationFeeRaw'' fs; x6 \<leftarrow> str_field ''networkFeeRaw'' fs;
     x7 \<leftarrow> str_field ''arrivesRaw'' fs; x8 \<leftarrow> str_field ''debitRaw'' fs;
     x9 \<leftarrow> str_field ''minimumRaw'' fs; x10 \<leftarrow> str_field ''maxRaw'' fs;
     x11 \<leftarrow> str_field ''fromActivation'' fs; x12 \<leftarrow> str_field ''toActivation'' fs;
     x13 \<leftarrow> str_field ''fromActivationAfter'' fs; x14 \<leftarrow> str_field ''toActivationAfter'' fs;
     x15 \<leftarrow> bool_field ''requiresSetup'' fs; x16 \<leftarrow> int_field ''expiresAt'' fs;
     x17 \<leftarrow> structp_field decode_FundingV9MoveRefusal ''refusal'' fs;
     Some \<lparr>mq_FundingV9DeferredActivationFee = x0, mq_Route = x1, mq_From = x2, mq_To = x3, mq_AmountRaw = x4,
           mq_ActivationFeeRaw = x5, mq_NetworkFeeRaw = x6, mq_ArrivesRaw = x7, mq_DebitRaw = x8, mq_MinimumRaw = x9,
           mq_MaxRaw = x10, mq_FromActivation = x11, mq_ToActivation = x12, mq_FromActivationAfter = x13,
           mq_ToActivationAfter = x14, mq_RequiresSetup = x15, mq_ExpiresAt = x16, mq_Refusal = x17\<rparr> }"

record FundingV9MoveSetup =
  fv9ms2_ArcaPath :: gostring
  fv9ms2_OwnerAddress :: gostring

definition decode_FundingV9MoveSetup :: "jfields \<Rightarrow> FundingV9MoveSetup option" where
  "decode_FundingV9MoveSetup fs = do {
     x0 \<leftarrow> str_field ''arcaPath'' fs; x1 \<leftarrow> str_field ''ownerAddress'' fs;
     Some \<lparr>fv9ms2_ArcaPath = x0, fv9ms2_OwnerAddress = x1\<rparr> }"

record FundingV9MoveRequest =
  mreq_RealmID :: gostring
  mreq_RequestID :: gostring
  mreq_FromArcaID :: gostring
  mreq_ToArcaID :: gostring
  mreq_Setup :: "FundingV9MoveSetup option"
  mreq_Recipient :: gostring
  mreq_AmountRaw :: gostring
  mreq_ActivationFeeRaw :: gostring
  mreq_NetworkFeeRaw :: gostring
  mreq_FromActivation :: gostring
  mreq_ToActivation :: gostring
  mreq_QuoteExpiresAt :: int
  mreq_SetupDeadline :: int

definition decode_FundingV9MoveRequest :: "jfields \<Rightarrow> FundingV9MoveRequest option" where
  "decode_FundingV9MoveRequest fs = do {
     x0 \<leftarrow> str_field ''realmId'' fs; x1 \<leftarrow> str_field ''requestId'' fs;
     x2 \<leftarrow> str_field ''fromArcaId'' fs; x3 \<leftarrow> str_field ''toArcaId'' fs;
     x4 \<leftarrow> structp_field decode_FundingV9MoveSetup ''setup'' fs;
     x5 \<leftarrow> str_field ''recipient'' fs; x6 \<leftarrow> str_field ''amountRaw'' fs;
     x7 \<leftarrow> str_field ''activationFeeRaw'' fs; x8 \<leftarrow> str_field ''networkFeeRaw'' fs;
     x9 \<leftarrow> str_field ''fromActivation'' fs; x10 \<leftarrow> str_field ''toActivation'' fs;
     x11 \<leftarrow> int_field ''quoteExpiresAt'' fs; x12 \<leftarrow> int_field ''setupDeadline'' fs;
     Some \<lparr>mreq_RealmID = x0, mreq_RequestID = x1, mreq_FromArcaID = x2, mreq_ToArcaID = x3, mreq_Setup = x4,
           mreq_Recipient = x5, mreq_AmountRaw = x6, mreq_ActivationFeeRaw = x7, mreq_NetworkFeeRaw = x8,
           mreq_FromActivation = x9, mreq_ToActivation = x10, mreq_QuoteExpiresAt = x11, mreq_SetupDeadline = x12\<rparr> }"

end
