(* ===== verification/Money_Figures.thy ===== *)
theory Money_Figures
  imports Decimals Go_Time Wallet_Wire
begin

text \<open>
  Money figures (\<^verbatim>\<open>money_figure.go\<close>): the projection of one wallet snapshot onto the balances a product
  shows.  The snapshot is the wire type of \<^verbatim>\<open>Wallet_Wire\<close>.  The lemmas show that every figure is the snapshot's own, whatever is predicted
  or was shown before, and that the legs at each end are exactly the ones its placement rules say.
\<close>

section \<open>Figures\<close>

datatype MoneyDirection = MoneyIncoming | MoneyOutgoing

datatype MoneyLegStage = MoneyLegReserved | MoneyLegInTransit | MoneyLegExpected

datatype MoneyCounterpartyKind =
  MoneyCounterpartyCash | MoneyCounterpartyAccount | MoneyCounterpartyExternal | MoneyCounterpartyUnknown

record MoneyCounterparty =
  mc_Kind :: MoneyCounterpartyKind
  mc_ArcaID :: gostring
  mc_Name :: gostring
  mc_Address :: gostring

definition CrossesWallet :: "MoneyCounterparty \<Rightarrow> bool" where
  "CrossesWallet c \<longleftrightarrow> mc_Kind c = MoneyCounterpartyExternal"

definition listed :: "MoneyCounterparty \<Rightarrow> bool" where
  "listed c \<longleftrightarrow> mc_Kind c = MoneyCounterpartyCash \<or> mc_Kind c = MoneyCounterpartyAccount"

record MoneyLeg =
  ml_OperationID :: gostring
  ml_RequestID :: gostring
  ml_Kind :: gostring
  ml_Direction :: MoneyDirection
  ml_Stage :: MoneyLegStage
  ml_AmountMicro :: gostring
  ml_Counterparty :: MoneyCounterparty
  ml_Predicted :: bool
  ml_StartedAt :: gostring

definition direction_text :: "MoneyDirection \<Rightarrow> gostring" where
  "direction_text d = (case d of MoneyIncoming \<Rightarrow> ''incoming'' | MoneyOutgoing \<Rightarrow> ''outgoing'')"

definition leg_ID :: "MoneyLeg \<Rightarrow> gostring" where
  "leg_ID l = ml_OperationID l @ '':'' @ direction_text (ml_Direction l)"

record MoneyChangeCause =
  cc_Venue :: bool
  cc_OperationID :: gostring
  cc_OperationKind :: gostring

record MoneyChange =
  ch_Cause :: MoneyChangeCause
  ch_DeltaMicro :: gostring
  ch_Sequence :: nat
  ch_Retired :: "MoneyLeg option"
  ch_OperationStatus :: gostring

datatype MoneyFigureKind = MoneyFigureTotal | MoneyFigureCash | MoneyFigureAccount

record MoneyFigure =
  mf_Kind :: MoneyFigureKind
  mf_ArcaID :: gostring
  mf_SettledMicro :: "gostring option"
  mf_AvailableMicro :: "gostring option"
  mf_Arriving :: "MoneyLeg list"
  mf_Departing :: "MoneyLeg list"
  mf_AsOf :: gostring
  mf_Current :: bool
  mf_Source :: gostring
  mf_RevaluedMicro :: gostring
  mf_Change :: "MoneyChange option"

definition InMotion :: "MoneyFigure \<Rightarrow> bool" where
  "InMotion f = list_ex (\<lambda>leg. ml_Stage leg \<noteq> MoneyLegExpected) (mf_Arriving f @ mf_Departing f)"

definition ArrivingMicro :: "MoneyFigure \<Rightarrow> gostring" where
  "ArrivingMicro f = MicroSum (map ml_AmountMicro (filter (\<lambda>leg. ml_Stage leg \<noteq> MoneyLegExpected) (mf_Arriving f)))"

definition DepartingMicro :: "MoneyFigure \<Rightarrow> gostring" where
  "DepartingMicro f = MicroSum (map ml_AmountMicro (mf_Departing f))"

definition ExpectedMicro :: "MoneyFigure \<Rightarrow> gostring" where
  "ExpectedMicro f = MicroSum (map ml_AmountMicro (filter (\<lambda>leg. ml_Stage leg = MoneyLegExpected) (mf_Arriving f)))"

datatype MoneyDiagnostic =
    TotalsMismatch gostring gostring | VenueFrameIgnored gostring gostring

record MoneyPrediction =
  pd_RequestID :: gostring
  pd_OperationID :: gostring
  pd_Kind :: gostring
  pd_AmountMicro :: gostring
  pd_From :: FundingV9WalletEndpoint
  pd_To :: FundingV9WalletEndpoint

record MoneyRevaluation =
  rv_ArcaID :: gostring
  rv_EquityMicro :: gostring
  rv_ObservedAt :: instant

record WalletMoney =
  wm_Total :: MoneyFigure
  wm_Cash :: MoneyFigure
  wm_Accounts :: "gostring \<rightharpoonup> MoneyFigure"
  wm_AccountOrder :: "gostring list"
  wm_Operations :: "FundingV9WalletOperation list"
  wm_Watermark :: FundingV9WalletWatermark
  wm_Complete :: bool
  wm_Current :: bool
  wm_Diagnostics :: "MoneyDiagnostic list"
  wm_Snapshot :: FundingV9WalletSnapshot

record ComposeWalletMoneyOptions =
  op_Previous :: "WalletMoney option"
  op_Predictions :: "MoneyPrediction list"
  op_Revaluations :: "gostring \<rightharpoonup> MoneyRevaluation"

definition Account :: "WalletMoney \<Rightarrow> gostring \<Rightarrow> MoneyFigure option" where
  "Account m arcaID = wm_Accounts m arcaID"

definition WalletSnapshotSupersedes :: "FundingV9WalletSnapshot \<Rightarrow> FundingV9WalletSnapshot option \<Rightarrow> bool" where
  "WalletSnapshotSupersedes nxt previous =
     (case previous of
        None \<Rightarrow> True
      | Some p \<Rightarrow>
          if \<not> EqualFold (ws_OwnerAddress p) (ws_OwnerAddress nxt) \<or> ws_ArcaPath p \<noteq> ws_ArcaPath nxt
             \<or> ws_RealmID p \<noteq> ws_RealmID nxt then False
          else wk_Sequence (ws_Watermark nxt) \<ge> wk_Sequence (ws_Watermark p))"

section \<open>Placing legs\<close>

record moneyLegEnds =
  le_arriving :: "MoneyLeg list"
  le_departing :: "MoneyLeg list"

definition no_ends :: moneyLegEnds where
  "no_ends = \<lparr>le_arriving = [], le_departing = []\<rparr>"

record moneyLegsByEndT =
  lb_cash :: moneyLegEnds
  lb_accounts :: "gostring \<rightharpoonup> moneyLegEnds"
  lb_total :: moneyLegEnds

definition no_legs :: moneyLegsByEndT where
  "no_legs = \<lparr>lb_cash = no_ends, lb_accounts = Map.empty, lb_total = no_ends\<rparr>"

definition party :: "MoneyCounterpartyKind \<Rightarrow> gostring \<Rightarrow> gostring \<Rightarrow> gostring \<Rightarrow> MoneyCounterparty" where
  "party kind arcaID name address = \<lparr>mc_Kind = kind, mc_ArcaID = arcaID, mc_Name = name, mc_Address = address\<rparr>"

definition moneyCounterparty :: "FundingV9WalletEndpoint \<Rightarrow> FundingV9WalletSnapshot \<Rightarrow> MoneyCounterparty" where
  "moneyCounterparty endpoint snapshot =
     (if ep_Kind endpoint = ''cash'' then
        (if list_ex (\<lambda>(mine, wallet). mine \<noteq> [] \<and> mine \<noteq> wallet)
              [(ep_BoundaryID endpoint, ws_BoundaryID snapshot),
               (ep_ArcaID endpoint, ep_ArcaID (ws_CashTarget snapshot)),
               (ep_ArcaPath endpoint, ep_ArcaPath (ws_CashTarget snapshot))]
         then party MoneyCounterpartyExternal [] [] (ep_Address endpoint)
         else party MoneyCounterpartyCash [] [] [])
      else if ep_ArcaID endpoint \<noteq> [] then
        (case find (\<lambda>account. ta_ArcaID account = ep_ArcaID endpoint) (ws_Accounts snapshot) of
           Some account \<Rightarrow>
             party MoneyCounterpartyAccount (ep_ArcaID endpoint)
               (case map_of (rev (ta_Labels account)) ''name'' of Some n \<Rightarrow> n | None \<Rightarrow> []) []
         | None \<Rightarrow> party MoneyCounterpartyUnknown (ep_ArcaID endpoint) [] [])
      else if ep_Kind endpoint = ''external'' \<or> ep_Address endpoint \<noteq> []
              \<or> (ep_Kind endpoint \<noteq> [] \<and> ep_Kind endpoint \<noteq> ''cash'')
      then party MoneyCounterpartyExternal [] [] (ep_Address endpoint)
      else party MoneyCounterpartyUnknown [] [] [])"

definition add_leg :: "MoneyLeg \<Rightarrow> moneyLegEnds \<Rightarrow> moneyLegEnds" where
  "add_leg leg ends =
     (if ml_Direction leg = MoneyOutgoing then ends\<lparr>le_departing := le_departing ends @ [leg]\<rparr>
      else ends\<lparr>le_arriving := le_arriving ends @ [leg]\<rparr>)"

definition moneyPlace :: "MoneyLeg \<Rightarrow> MoneyCounterparty \<Rightarrow> moneyLegsByEndT \<Rightarrow> moneyLegsByEndT" where
  "moneyPlace leg p legs =
     (case mc_Kind p of
        MoneyCounterpartyCash \<Rightarrow> legs\<lparr>lb_cash := add_leg leg (lb_cash legs)\<rparr>
      | MoneyCounterpartyAccount \<Rightarrow>
          (let ends = (case lb_accounts legs (mc_ArcaID p) of Some e \<Rightarrow> e | None \<Rightarrow> no_ends) in
           legs\<lparr>lb_accounts := (lb_accounts legs)(mc_ArcaID p \<mapsto> add_leg leg ends)\<rparr>)
      | _ \<Rightarrow> legs)"

definition leg_stage :: "gostring \<Rightarrow> MoneyLegStage option" where
  "leg_stage s =
     (if s = ''reserved'' then Some MoneyLegReserved else if s = ''in_transit'' then Some MoneyLegInTransit
      else if s = ''expected'' then Some MoneyLegExpected else None)"

text \<open>A map filled in order keeps the last operation of an id.\<close>

definition op_by_id :: "FundingV9WalletOperation list \<Rightarrow> gostring \<Rightarrow> FundingV9WalletOperation option" where
  "op_by_id ops i = map_of (rev (map (\<lambda>op. (wo_OperationID op, op)) ops)) i"

definition departing_leg :: "FundingV9WalletSnapshot \<Rightarrow> FundingV9WalletMoving \<Rightarrow> MoneyLegStage \<Rightarrow> MoneyLeg" where
  "departing_leg snapshot entry stage =
     (let known = op_by_id (ws_Operations snapshot) (mv_OperationID entry) in
      \<lparr>ml_OperationID = mv_OperationID entry,
       ml_RequestID = (case known of Some op \<Rightarrow> wo_RequestID op | None \<Rightarrow> []),
       ml_Kind = mv_Kind entry, ml_Direction = MoneyOutgoing, ml_Stage = stage,
       ml_AmountMicro = mv_AmountMicro entry, ml_Counterparty = moneyCounterparty (mv_To entry) snapshot,
       ml_Predicted = False,
       ml_StartedAt = (case known of Some op \<Rightarrow> wo_CreatedAt op | None \<Rightarrow> [])\<rparr>)"

definition arriving_of :: "MoneyLeg \<Rightarrow> MoneyCounterparty \<Rightarrow> MoneyLeg" where
  "arriving_of leg fromParty = leg\<lparr>ml_Direction := MoneyIncoming, ml_Counterparty := fromParty\<rparr>"

text \<open>The legs that cross the wallet's boundary show at the total.\<close>

definition place_total ::
    "MoneyLeg \<Rightarrow> MoneyLeg \<Rightarrow> MoneyCounterparty \<Rightarrow> MoneyCounterparty \<Rightarrow> moneyLegsByEndT \<Rightarrow> moneyLegsByEndT" where
  "place_total departing arriving fromParty toParty out =
     (let out1 = (if CrossesWallet toParty \<and> \<not> CrossesWallet fromParty
                  then out\<lparr>lb_total := (lb_total out)\<lparr>le_departing := le_departing (lb_total out) @ [departing]\<rparr>\<rparr>
                  else out) in
      if CrossesWallet fromParty \<and> \<not> CrossesWallet toParty
      then out1\<lparr>lb_total := (lb_total out1)\<lparr>le_arriving := le_arriving (lb_total out1) @ [arriving]\<rparr>\<rparr>
      else out1)"

definition place_entry :: "FundingV9WalletSnapshot \<Rightarrow> moneyLegsByEndT \<Rightarrow> FundingV9WalletMoving \<Rightarrow> moneyLegsByEndT" where
  "place_entry snapshot out entry =
     (case leg_stage (mv_Leg entry) of
        None \<Rightarrow> out
      | Some stage \<Rightarrow>
          (let fromParty = moneyCounterparty (mv_From entry) snapshot;
               toParty = moneyCounterparty (mv_To entry) snapshot;
               departing = departing_leg snapshot entry stage;
               arriving = arriving_of departing fromParty;
               out1 = (case stage of
                         MoneyLegReserved \<Rightarrow> moneyPlace arriving toParty (moneyPlace departing fromParty out)
                       | MoneyLegInTransit \<Rightarrow>
                           if listed toParty then moneyPlace arriving toParty out
                           else moneyPlace departing fromParty out
                       | MoneyLegExpected \<Rightarrow> moneyPlace arriving toParty out) in
           place_total departing arriving fromParty toParty out1))"

definition moneyLegsByEnd :: "FundingV9WalletSnapshot \<Rightarrow> moneyLegsByEndT" where
  "moneyLegsByEnd snapshot = foldl (place_entry snapshot) no_legs (ws_Moving snapshot)"

definition cash_leg :: "CashV9WalletOperation \<Rightarrow> MoneyLeg list" where
  "cash_leg op =
     (if co_Kind op \<noteq> ''send'' then []
      else case (if co_State op = ''sending'' then Some MoneyLegReserved
                 else if co_State op = ''confirming'' then Some MoneyLegInTransit else None) of
        None \<Rightarrow> []
      | Some stage \<Rightarrow>
          [\<lparr>ml_OperationID = co_ID op, ml_RequestID = co_RequestID op, ml_Kind = ''send'',
            ml_Direction = MoneyOutgoing, ml_Stage = stage, ml_AmountMicro = co_AmountMicro op,
            ml_Counterparty = party MoneyCounterpartyExternal [] [] (co_Destination op),
            ml_Predicted = False, ml_StartedAt = co_StartedAt op\<rparr>])"

definition moneyCashOwnLegs :: "FundingV9WalletSnapshot \<Rightarrow> moneyLegEnds" where
  "moneyCashOwnLegs snapshot =
     \<lparr>le_arriving =
        (case microParse (cb_PendingInMicro (ca_Balances (ws_Cash snapshot))) of
           Some pending \<Rightarrow>
             if pending > 0 then
               [\<lparr>ml_OperationID = ''cash:pending-in'', ml_RequestID = [], ml_Kind = ''deposit'',
                 ml_Direction = MoneyIncoming, ml_Stage = MoneyLegInTransit,
                 ml_AmountMicro = cb_PendingInMicro (ca_Balances (ws_Cash snapshot)),
                 ml_Counterparty = party MoneyCounterpartyExternal [] [] [],
                 ml_Predicted = False, ml_StartedAt = []\<rparr>]
             else []
         | None \<Rightarrow> []),
      le_departing = concat (map cash_leg (ca_Operations (ws_Cash snapshot)))\<rparr>"

definition predicted_leg :: "MoneyPrediction \<Rightarrow> FundingV9WalletSnapshot \<Rightarrow> MoneyLeg" where
  "predicted_leg prediction snapshot =
     \<lparr>ml_OperationID = (if pd_OperationID prediction = [] then pd_RequestID prediction else pd_OperationID prediction),
      ml_RequestID = pd_RequestID prediction, ml_Kind = pd_Kind prediction, ml_Direction = MoneyOutgoing,
      ml_Stage = MoneyLegReserved, ml_AmountMicro = pd_AmountMicro prediction,
      ml_Counterparty = moneyCounterparty (pd_To prediction) snapshot, ml_Predicted = True, ml_StartedAt = []\<rparr>"

definition moneyPredictedLegs :: "MoneyPrediction \<Rightarrow> FundingV9WalletSnapshot \<Rightarrow> moneyLegsByEndT" where
  "moneyPredictedLegs prediction snapshot =
     (let fromParty = moneyCounterparty (pd_From prediction) snapshot;
          toParty = moneyCounterparty (pd_To prediction) snapshot;
          departing = predicted_leg prediction snapshot;
          arriving = arriving_of departing fromParty in
      place_total departing arriving fromParty toParty
        (moneyPlace arriving toParty (moneyPlace departing fromParty no_legs)))"

section \<open>Values\<close>

text \<open>\<^verbatim>\<open>moneyRevalue\<close>: the venue's figure, or the reason it is not used.\<close>

definition moneyRevalue ::
    "MoneyRevaluation \<Rightarrow> FundingV9WalletTradingAccount \<Rightarrow> MoneyFigure \<Rightarrow> gostring + gostring" where
  "moneyRevalue revaluation account figure =
     (if ta_HeldBy account \<noteq> [] then Inl (''account held by '' @ ta_HeldBy account)
      else if list_ex (\<lambda>leg. ml_Stage leg \<noteq> MoneyLegExpected) (mf_Arriving figure)
      then Inl ''settlement pending toward the account''
      else case (if ta_AsOf account = [] then None else parse_rfc3339 (ta_AsOf account)) of
        None \<Rightarrow> if ta_Balances account = None then Inl ''no figure to revalue'' else Inr (rv_EquityMicro revaluation)
      | Some figureTime \<Rightarrow>
          if rv_ObservedAt revaluation < figureTime then Inl ''venue frame older than the figure''
          else Inr (rv_EquityMicro revaluation))"

definition moneyAccountPayout :: "FundingV9WalletNativeBalances \<Rightarrow> gostring option" where
  "moneyAccountPayout b =
     (case microParse (nb_WithdrawableMicro b) of
        None \<Rightarrow> None
      | Some withdrawable \<Rightarrow>
          if withdrawable < 0 then None
          else (case microParse (nb_SpotMicro b) of
                  None \<Rightarrow> None
                | Some spot \<Rightarrow> if spot < 0 then None else Some (show_int (withdrawable + spot))))"

fun account_terms :: "FundingV9WalletTradingAccount list \<Rightarrow> gostring list option" where
  "account_terms [] = Some []"
| "account_terms (a # as) =
     (if ta_Lifecycle a = ''archived'' then account_terms as
      else (case ta_Balances a of
              None \<Rightarrow> None
            | Some b \<Rightarrow> map_option (\<lambda>ts. nb_TotalMicro b # ts) (account_terms as)))"

definition moneyComposedTotal :: "FundingV9WalletSnapshot \<Rightarrow> gostring option" where
  "moneyComposedTotal snapshot =
     (case account_terms (ws_Accounts snapshot) of
        None \<Rightarrow> None
      | Some ts \<Rightarrow>
          Some (MicroSum ([cb_ConfirmedMicro (ca_Balances (ws_Cash snapshot))] @ ts
                  @ map mv_AmountMicro (filter (\<lambda>entry. mv_Leg entry = ''in_transit'') (ws_Moving snapshot)))))"

section \<open>Attribution of changes\<close>

definition moneyTouches :: "FundingV9WalletOperation \<Rightarrow> MoneyFigure \<Rightarrow> FundingV9WalletSnapshot \<Rightarrow> bool" where
  "moneyTouches op figure snapshot =
     list_ex (\<lambda>e. case mf_Kind figure of
                MoneyFigureCash \<Rightarrow> mc_Kind e = MoneyCounterpartyCash
              | MoneyFigureAccount \<Rightarrow> mc_Kind e = MoneyCounterpartyAccount \<and> mc_ArcaID e = mf_ArcaID figure
              | MoneyFigureTotal \<Rightarrow> CrossesWallet e)
       [moneyCounterparty (wo_From op) snapshot, moneyCounterparty (wo_To op) snapshot]"

record moneyMoved =
  mm_cause :: MoneyChangeCause
  mm_retired :: "MoneyLeg option"
  mm_status :: gostring

definition figure_legs :: "MoneyFigure option \<Rightarrow> MoneyLeg list" where
  "figure_legs f = (case f of Some g \<Rightarrow> mf_Arriving g @ mf_Departing g | None \<Rightarrow> [])"

definition leg_by_id :: "MoneyLeg list \<Rightarrow> gostring \<Rightarrow> MoneyLeg option" where
  "leg_by_id legs i = map_of (rev (map (\<lambda>l. (leg_ID l, l)) legs)) i"

text \<open>Legs that are new or changed stage, legs that are gone, operations and sends that changed.\<close>

definition changed_legs :: "MoneyFigure \<Rightarrow> MoneyFigure option \<Rightarrow> MoneyLeg list" where
  "changed_legs figure previous =
     filter (\<lambda>leg. case leg_by_id (figure_legs previous) (leg_ID leg) of
               None \<Rightarrow> True | Some before \<Rightarrow> ml_Stage before \<noteq> ml_Stage leg)
       (figure_legs (Some figure))"

definition retired_legs :: "MoneyFigure \<Rightarrow> MoneyFigure option \<Rightarrow> MoneyLeg list" where
  "retired_legs figure previous =
     filter (\<lambda>leg. leg_by_id (figure_legs (Some figure)) (leg_ID leg) = None) (figure_legs previous)"

definition changed_ops :: "MoneyFigure \<Rightarrow> FundingV9WalletSnapshot \<Rightarrow> WalletMoney \<Rightarrow> FundingV9WalletOperation list" where
  "changed_ops figure snapshot previousMoney =
     filter (\<lambda>op. moneyTouches op figure snapshot
               \<and> (case op_by_id (wm_Operations previousMoney) (wo_OperationID op) of
                    None \<Rightarrow> True
                  | Some old \<Rightarrow> wo_Stage old \<noteq> wo_Stage op \<or> wo_Status old \<noteq> wo_Status op
                              \<or> wo_CreditBooked old \<noteq> wo_CreditBooked op \<or> wo_DebitBooked old \<noteq> wo_DebitBooked op))
       (ws_Operations snapshot)"

definition cash_by_id :: "CashV9WalletOperation list \<Rightarrow> gostring \<Rightarrow> CashV9WalletOperation option" where
  "cash_by_id ops i = map_of (rev (map (\<lambda>op. (co_ID op, op)) ops)) i"

definition changed_cash :: "MoneyFigure \<Rightarrow> FundingV9WalletSnapshot \<Rightarrow> WalletMoney \<Rightarrow> CashV9WalletOperation list" where
  "changed_cash figure snapshot previousMoney =
     (if mf_Kind figure = MoneyFigureCash \<or> mf_Kind figure = MoneyFigureTotal then
        filter (\<lambda>op. (case cash_by_id (ca_Operations (ws_Cash (wm_Snapshot previousMoney))) (co_ID op) of
                        None \<Rightarrow> True | Some old \<Rightarrow> co_State old \<noteq> co_State op)
                     \<and> (co_Kind op = ''send'' \<or> mf_Kind figure = MoneyFigureCash))
          (ca_Operations (ws_Cash snapshot))
      else [])"

definition cash_status :: "CashV9WalletOperation \<Rightarrow> gostring" where
  "cash_status op =
     (if co_State op = ''completed'' then ''succeeded'' else if co_State op = ''failed'' then ''failed''
      else ''pending'')"

definition moneyOperationThatMoved ::
    "MoneyFigure \<Rightarrow> MoneyFigure option \<Rightarrow> FundingV9WalletSnapshot \<Rightarrow> WalletMoney \<Rightarrow> moneyMoved option" where
  "moneyOperationThatMoved figure previous snapshot previousMoney =
     (let retired = retired_legs figure previous;
          cash = changed_cash figure snapshot previousMoney;
          hits = map (\<lambda>l. (ml_OperationID l, ml_Kind l)) (changed_legs figure previous)
               @ map (\<lambda>l. (ml_OperationID l, ml_Kind l)) retired
               @ map (\<lambda>op. (wo_OperationID op, wo_Kind op)) (changed_ops figure snapshot previousMoney)
               @ map (\<lambda>op. (co_ID op, co_Kind op)) cash in
      case hits of
        [] \<Rightarrow> None
      | (i, kind) # rest \<Rightarrow>
          Some \<lparr>mm_cause = \<lparr>cc_Venue = False, cc_OperationID = i, cc_OperationKind = kind\<rparr>,
                mm_retired = map_of (rev (map (\<lambda>l. (ml_OperationID l, l)) retired)) i,
                mm_status = (case op_by_id (ws_Operations snapshot) i of
                               Some op \<Rightarrow> wo_Status op
                             | None \<Rightarrow>
                                 (case map_of (rev (map (\<lambda>op. (co_ID op, cash_status op)) cash)) i of
                                    Some st \<Rightarrow> st | None \<Rightarrow> []))\<rparr>)"

definition moneyChange ::
    "MoneyFigure option \<Rightarrow> MoneyFigure \<Rightarrow> FundingV9WalletSnapshot \<Rightarrow> WalletMoney \<Rightarrow> nat
       \<Rightarrow> FundingV9WalletTradingAccount option \<Rightarrow> MoneyChange option" where
  "moneyChange previous figure snapshot previousMoney sequence account =
     (let delta = (case (Option.bind previous mf_SettledMicro, mf_SettledMicro figure) of
                     (Some before, Some now) \<Rightarrow> MicroDifference now before | _ \<Rightarrow> None);
          moved = moneyOperationThatMoved figure previous snapshot previousMoney in
      case (moved, delta) of
        (Some m, _) \<Rightarrow>
          Some \<lparr>ch_Cause = mm_cause m, ch_DeltaMicro = (case delta of Some d \<Rightarrow> d | None \<Rightarrow> ''0''),
                ch_Sequence = sequence, ch_Retired = mm_retired m, ch_OperationStatus = mm_status m\<rparr>
      | (None, None) \<Rightarrow> None
      | (None, Some d) \<Rightarrow>
          if d = ''0'' then None
          else if (case Option.bind account ta_Balances of Some b \<Rightarrow> nb_Source b = ''hyperliquid_ws'' | None \<Rightarrow> False)
          then Some \<lparr>ch_Cause = \<lparr>cc_Venue = True, cc_OperationID = [], cc_OperationKind = []\<rparr>, ch_DeltaMicro = d,
                     ch_Sequence = sequence, ch_Retired = None, ch_OperationStatus = []\<rparr>
          else None)"

section \<open>Composition\<close>

definition cash_figure :: "FundingV9WalletSnapshot \<Rightarrow> MoneyFigure" where
  "cash_figure snapshot =
     (let legs = moneyLegsByEnd snapshot; own = moneyCashOwnLegs snapshot;
          balances = ca_Balances (ws_Cash snapshot) in
      \<lparr>mf_Kind = MoneyFigureCash, mf_ArcaID = [], mf_SettledMicro = Some (cb_ConfirmedMicro balances),
       mf_AvailableMicro = Some (cb_AvailableMicro balances),
       mf_Arriving = le_arriving (lb_cash legs) @ le_arriving own,
       mf_Departing = le_departing (lb_cash legs) @ le_departing own,
       mf_AsOf = asof_Time (cb_AsOf balances), mf_Current = (ca_WalletState (ws_Cash snapshot) \<noteq> ''unavailable''),
       mf_Source = ''cash'', mf_RevaluedMicro = [], mf_Change = None\<rparr>)"

definition total_figure :: "FundingV9WalletSnapshot \<Rightarrow> MoneyFigure" where
  "total_figure snapshot =
     (let legs = moneyLegsByEnd snapshot; own = moneyCashOwnLegs snapshot in
      \<lparr>mf_Kind = MoneyFigureTotal, mf_ArcaID = [], mf_SettledMicro = Some (tt_TotalMicro (ws_Totals snapshot)),
       mf_AvailableMicro = None, mf_Arriving = le_arriving (lb_total legs) @ le_arriving own,
       mf_Departing = le_departing (lb_total legs) @ le_departing own,
       mf_AsOf = ws_ComposedAt snapshot, mf_Current = tt_Current (ws_Totals snapshot),
       mf_Source = ''totals'', mf_RevaluedMicro = [], mf_Change = None\<rparr>)"

definition base_figure :: "FundingV9WalletSnapshot \<Rightarrow> FundingV9WalletTradingAccount \<Rightarrow> MoneyFigure" where
  "base_figure snapshot account =
     (let ends = (case lb_accounts (moneyLegsByEnd snapshot) (ta_ArcaID account) of Some e \<Rightarrow> e | None \<Rightarrow> no_ends) in
      \<lparr>mf_Kind = MoneyFigureAccount, mf_ArcaID = ta_ArcaID account,
       mf_SettledMicro = map_option nb_TotalMicro (ta_Balances account),
       mf_AvailableMicro = Option.bind (ta_Balances account) moneyAccountPayout,
       mf_Arriving = le_arriving ends, mf_Departing = le_departing ends,
       mf_AsOf = ta_AsOf account, mf_Current = ta_Current account,
       mf_Source = (case ta_Balances account of Some b \<Rightarrow> nb_Source b | None \<Rightarrow> ''unavailable''),
       mf_RevaluedMicro = [], mf_Change = None\<rparr>)"

definition account_figure ::
    "FundingV9WalletSnapshot \<Rightarrow> (gostring \<rightharpoonup> MoneyRevaluation) \<Rightarrow> FundingV9WalletTradingAccount
       \<Rightarrow> MoneyFigure \<times> MoneyDiagnostic list" where
  "account_figure snapshot revaluations account =
     (let figure = base_figure snapshot account in
      case revaluations (ta_ArcaID account) of
        None \<Rightarrow> (figure, [])
      | Some revaluation \<Rightarrow>
          (case moneyRevalue revaluation account figure of
             Inr micro \<Rightarrow> (figure\<lparr>mf_RevaluedMicro := micro\<rparr>, [])
           | Inl reason \<Rightarrow> (figure, [VenueFrameIgnored (ta_ArcaID account) reason])))"

definition append_ends :: "moneyLegEnds \<Rightarrow> MoneyFigure \<Rightarrow> MoneyFigure" where
  "append_ends ends f =
     f\<lparr>mf_Arriving := mf_Arriving f @ le_arriving ends, mf_Departing := mf_Departing f @ le_departing ends\<rparr>"

text \<open>Cash, total and account figures, as the loop over predictions carries them.\<close>

type_synonym figures = "MoneyFigure \<times> MoneyFigure \<times> (gostring \<rightharpoonup> MoneyFigure)"

definition framed :: "FundingV9WalletSnapshot \<Rightarrow> gostring \<Rightarrow> bool" where
  "framed snapshot i =
     list_ex (\<lambda>op. wo_OperationID op = i \<or> (wo_RequestID op \<noteq> [] \<and> wo_RequestID op = i)) (ws_Operations snapshot)"

definition is_framed :: "FundingV9WalletSnapshot \<Rightarrow> MoneyPrediction \<Rightarrow> bool" where
  "is_framed snapshot prediction \<longleftrightarrow>
     framed snapshot (pd_RequestID prediction)
     \<or> (pd_OperationID prediction \<noteq> [] \<and> framed snapshot (pd_OperationID prediction))"

definition add_prediction :: "FundingV9WalletSnapshot \<Rightarrow> figures \<Rightarrow> MoneyPrediction \<Rightarrow> figures" where
  "add_prediction snapshot figs prediction =
     (case figs of (cash, total_f, accounts) \<Rightarrow>
        if is_framed snapshot prediction then figs
        else (let predicted = moneyPredictedLegs prediction snapshot in
              (append_ends (lb_cash predicted) cash, append_ends (lb_total predicted) total_f,
               \<lambda>i. case accounts i of
                     None \<Rightarrow> None
                   | Some f \<Rightarrow> (case lb_accounts predicted i of Some ends \<Rightarrow> Some (append_ends ends f) | None \<Rightarrow> Some f))))"

definition account_for :: "FundingV9WalletSnapshot \<Rightarrow> gostring \<Rightarrow> FundingV9WalletTradingAccount option" where
  "account_for snapshot arcaID = map_of (rev (map (\<lambda>a. (ta_ArcaID a, a)) (ws_Accounts snapshot))) arcaID"

definition add_change ::
    "FundingV9WalletSnapshot \<Rightarrow> WalletMoney \<Rightarrow> (gostring \<rightharpoonup> MoneyFigure) \<Rightarrow> gostring \<Rightarrow> gostring \<rightharpoonup> MoneyFigure" where
  "add_change snapshot previous accounts arcaID =
     (case accounts arcaID of
        None \<Rightarrow> accounts
      | Some figure \<Rightarrow>
          accounts(arcaID \<mapsto> figure\<lparr>mf_Change := moneyChange (wm_Accounts previous arcaID) figure snapshot previous
              (wk_Sequence (ws_Watermark snapshot)) (account_for snapshot arcaID)\<rparr>))"

definition ComposeWalletMoney :: "FundingV9WalletSnapshot \<Rightarrow> ComposeWalletMoneyOptions \<Rightarrow> WalletMoney" where
  "ComposeWalletMoney snapshot opts =
     (let sequence = wk_Sequence (ws_Watermark snapshot);
          figs = map (account_figure snapshot (op_Revaluations opts)) (ws_Accounts snapshot);
          accounts0 = foldl (\<lambda>m (f, d). m(mf_ArcaID f \<mapsto> f)) Map.empty figs;
          order = map ta_ArcaID (ws_Accounts snapshot);
          (cash, total_f, accounts1) =
            foldl (add_prediction snapshot) (cash_figure snapshot, total_figure snapshot, accounts0) (op_Predictions opts);
          mismatch = (if tt_Complete (ws_Totals snapshot) then
                        (case moneyComposedTotal snapshot of
                           Some composed \<Rightarrow>
                             if composed \<noteq> tt_TotalMicro (ws_Totals snapshot)
                             then [TotalsMismatch (tt_TotalMicro (ws_Totals snapshot)) composed] else []
                         | None \<Rightarrow> [])
                      else []);
          (cash', total', accounts') =
            (case op_Previous opts of
               Some previous \<Rightarrow>
                 if wk_Sequence (ws_Watermark (wm_Snapshot previous)) < sequence then
                   (cash\<lparr>mf_Change := moneyChange (Some (wm_Cash previous)) cash snapshot previous sequence None\<rparr>,
                    total_f\<lparr>mf_Change := moneyChange (Some (wm_Total previous)) total_f snapshot previous sequence None\<rparr>,
                    foldl (add_change snapshot previous) accounts1 order)
                 else (cash, total_f, accounts1)
             | None \<Rightarrow> (cash, total_f, accounts1)) in
      \<lparr>wm_Total = total', wm_Cash = cash', wm_Accounts = accounts', wm_AccountOrder = order,
       wm_Operations = ws_Operations snapshot, wm_Watermark = ws_Watermark snapshot,
       wm_Complete = tt_Complete (ws_Totals snapshot), wm_Current = tt_Current (ws_Totals snapshot),
       wm_Diagnostics = concat (map snd figs) @ mismatch, wm_Snapshot = snapshot\<rparr>)"

section \<open>Where a leg shows\<close>

text \<open>The reference: entries with a known stage; what arrives at an end and what departs from it.\<close>

definition staged :: "FundingV9WalletSnapshot \<Rightarrow> (FundingV9WalletMoving \<times> MoneyLegStage) list" where
  "staged snapshot =
     concat (map (\<lambda>e. case leg_stage (mv_Leg e) of Some st \<Rightarrow> [(e, st)] | None \<Rightarrow> []) (ws_Moving snapshot))"

definition from_party :: "FundingV9WalletSnapshot \<Rightarrow> FundingV9WalletMoving \<times> MoneyLegStage \<Rightarrow> MoneyCounterparty" where
  "from_party snapshot x = moneyCounterparty (mv_From (fst x)) snapshot"

definition to_party :: "FundingV9WalletSnapshot \<Rightarrow> FundingV9WalletMoving \<times> MoneyLegStage \<Rightarrow> MoneyCounterparty" where
  "to_party snapshot x = moneyCounterparty (mv_To (fst x)) snapshot"

definition out_leg :: "FundingV9WalletSnapshot \<Rightarrow> FundingV9WalletMoving \<times> MoneyLegStage \<Rightarrow> MoneyLeg" where
  "out_leg snapshot x = departing_leg snapshot (fst x) (snd x)"

definition in_leg :: "FundingV9WalletSnapshot \<Rightarrow> FundingV9WalletMoving \<times> MoneyLegStage \<Rightarrow> MoneyLeg" where
  "in_leg snapshot x = arriving_of (out_leg snapshot x) (from_party snapshot x)"

definition shows_source :: "FundingV9WalletSnapshot \<Rightarrow> FundingV9WalletMoving \<times> MoneyLegStage \<Rightarrow> bool" where
  "shows_source snapshot x \<longleftrightarrow>
     snd x = MoneyLegReserved \<or> (snd x = MoneyLegInTransit \<and> \<not> listed (to_party snapshot x))"

definition ends_at :: "FundingV9WalletSnapshot \<Rightarrow> (MoneyCounterparty \<Rightarrow> bool) \<Rightarrow> moneyLegEnds" where
  "ends_at snapshot here =
     \<lparr>le_arriving = map (in_leg snapshot) (filter (\<lambda>x. here (to_party snapshot x)) (staged snapshot)),
      le_departing = map (out_leg snapshot)
        (filter (\<lambda>x. here (from_party snapshot x) \<and> shows_source snapshot x) (staged snapshot))\<rparr>"

definition at_cash :: "MoneyCounterparty \<Rightarrow> bool" where
  "at_cash p \<longleftrightarrow> mc_Kind p = MoneyCounterpartyCash"

definition at_account :: "gostring \<Rightarrow> MoneyCounterparty \<Rightarrow> bool" where
  "at_account i p \<longleftrightarrow> mc_Kind p = MoneyCounterpartyAccount \<and> mc_ArcaID p = i"

definition across :: "FundingV9WalletSnapshot \<Rightarrow> moneyLegEnds" where
  "across snapshot =
     \<lparr>le_arriving = map (in_leg snapshot) (filter (\<lambda>x. CrossesWallet (from_party snapshot x)
        \<and> \<not> CrossesWallet (to_party snapshot x)) (staged snapshot)),
      le_departing = map (out_leg snapshot) (filter (\<lambda>x. CrossesWallet (to_party snapshot x)
        \<and> \<not> CrossesWallet (from_party snapshot x)) (staged snapshot))\<rparr>"

definition account_ends :: "moneyLegsByEndT \<Rightarrow> gostring \<Rightarrow> moneyLegEnds" where
  "account_ends legs i = (case lb_accounts legs i of Some e \<Rightarrow> e | None \<Rightarrow> no_ends)"

text \<open>What placing a leg does to each end.\<close>

definition join :: "moneyLegEnds \<Rightarrow> moneyLegEnds \<Rightarrow> moneyLegEnds" where
  "join a b = \<lparr>le_arriving = le_arriving a @ le_arriving b, le_departing = le_departing a @ le_departing b\<rparr>"

definition one_leg :: "bool \<Rightarrow> MoneyLeg \<Rightarrow> moneyLegEnds" where
  "one_leg b leg =
     (if \<not> b then no_ends
      else if ml_Direction leg = MoneyOutgoing then \<lparr>le_arriving = [], le_departing = [leg]\<rparr>
      else \<lparr>le_arriving = [leg], le_departing = []\<rparr>)"

lemma join_simps [simp]: "join a no_ends = a" "join no_ends a = a" "join (join a b) c = join a (join b c)"
  by (simp_all add: join_def no_ends_def)

lemma add_leg_join: "add_leg leg ends = join ends (one_leg True leg)"
  by (simp add: add_leg_def join_def one_leg_def)

lemma moneyPlace_ends:
  "lb_cash (moneyPlace leg p legs) = join (lb_cash legs) (one_leg (at_cash p) leg)"
  "account_ends (moneyPlace leg p legs) i = join (account_ends legs i) (one_leg (at_account i p) leg)"
  "lb_total (moneyPlace leg p legs) = lb_total legs"
  by (simp_all add: moneyPlace_def at_cash_def at_account_def account_ends_def add_leg_join one_leg_def Let_def
      split: MoneyCounterpartyKind.split option.split)

lemma place_total_ends:
  "lb_cash (place_total d a f t legs) = lb_cash legs"
  "account_ends (place_total d a f t legs) i = account_ends legs i"
  "ml_Direction d = MoneyOutgoing \<Longrightarrow> ml_Direction a = MoneyIncoming \<Longrightarrow>
     lb_total (place_total d a f t legs)
       = join (lb_total legs) (join (one_leg (CrossesWallet t \<and> \<not> CrossesWallet f) d)
                                    (one_leg (CrossesWallet f \<and> \<not> CrossesWallet t) a))"
  by (simp_all add: place_total_def account_ends_def Let_def join_def one_leg_def no_ends_def)

lemma leg_directions [simp]:
  "ml_Direction (departing_leg s e st) = MoneyOutgoing" "ml_Direction (arriving_of l p) = MoneyIncoming"
  by (simp_all add: departing_leg_def arriving_of_def Let_def)

text \<open>The share of one entry at an end.\<close>

definition entry_ends ::
    "FundingV9WalletSnapshot \<Rightarrow> (MoneyCounterparty \<Rightarrow> bool) \<Rightarrow> FundingV9WalletMoving \<times> MoneyLegStage \<Rightarrow> moneyLegEnds" where
  "entry_ends snapshot here x =
     \<lparr>le_arriving = (if here (to_party snapshot x) then [in_leg snapshot x] else []),
      le_departing = (if here (from_party snapshot x) \<and> shows_source snapshot x then [out_leg snapshot x] else [])\<rparr>"

lemmas entry_defs = entry_ends_def from_party_def to_party_def in_leg_def out_leg_def shows_source_def

lemma place_entry_ends:
  assumes "leg_stage (mv_Leg e) = Some st"
  shows "lb_cash (place_entry s legs e) = join (lb_cash legs) (entry_ends s at_cash (e, st))"
    "account_ends (place_entry s legs e) i = join (account_ends legs i) (entry_ends s (at_account i) (e, st))"
    "lb_total (place_entry s legs e) = join (lb_total legs)
       \<lparr>le_arriving = (if CrossesWallet (from_party s (e, st)) \<and> \<not> CrossesWallet (to_party s (e, st)) then [in_leg s (e, st)] else []),
        le_departing = (if CrossesWallet (to_party s (e, st)) \<and> \<not> CrossesWallet (from_party s (e, st)) then [out_leg s (e, st)] else [])\<rparr>"
proof -
  have nl: "\<not> listed p \<Longrightarrow> \<not> at_cash p \<and> \<not> at_account i p" for p by (auto simp: listed_def at_cash_def at_account_def)
  show "lb_cash (place_entry s legs e) = join (lb_cash legs) (entry_ends s at_cash (e, st))"
    "account_ends (place_entry s legs e) i = join (account_ends legs i) (entry_ends s (at_account i) (e, st))"
    using assms nl [of "moneyCounterparty (mv_To e) s"]
    by (cases st; auto simp: place_entry_def Let_def place_total_ends moneyPlace_ends entry_defs one_leg_def join_def no_ends_def)+
  show "lb_total (place_entry s legs e) = join (lb_total legs)
       \<lparr>le_arriving = (if CrossesWallet (from_party s (e, st)) \<and> \<not> CrossesWallet (to_party s (e, st)) then [in_leg s (e, st)] else []),
        le_departing = (if CrossesWallet (to_party s (e, st)) \<and> \<not> CrossesWallet (from_party s (e, st)) then [out_leg s (e, st)] else [])\<rparr>"
    using assms by (cases st; auto simp: place_entry_def Let_def place_total_ends moneyPlace_ends entry_defs one_leg_def join_def no_ends_def)
qed

lemma place_entry_unknown: "leg_stage (mv_Leg e) = None \<Longrightarrow> place_entry s legs e = legs"
  by (simp add: place_entry_def)

text \<open>The reference placement of a list of entries, as the share of each entry in turn.\<close>

definition staged_of :: "FundingV9WalletMoving list \<Rightarrow> (FundingV9WalletMoving \<times> MoneyLegStage) list" where
  "staged_of es = concat (map (\<lambda>e. case leg_stage (mv_Leg e) of Some st \<Rightarrow> [(e, st)] | None \<Rightarrow> []) es)"

lemma staged_of_simps [simp]:
  "staged_of [] = []"
  "staged_of (e # es) = (case leg_stage (mv_Leg e) of Some st \<Rightarrow> (e, st) # staged_of es | None \<Rightarrow> staged_of es)"
  by (simp_all add: staged_of_def split: option.split)

definition crossing_ends :: "FundingV9WalletSnapshot \<Rightarrow> FundingV9WalletMoving \<times> MoneyLegStage \<Rightarrow> moneyLegEnds" where
  "crossing_ends s x =
     \<lparr>le_arriving = (if CrossesWallet (from_party s x) \<and> \<not> CrossesWallet (to_party s x) then [in_leg s x] else []),
      le_departing = (if CrossesWallet (to_party s x) \<and> \<not> CrossesWallet (from_party s x) then [out_leg s x] else [])\<rparr>"

lemma foldl_place_entry:
  "lb_cash (foldl (place_entry s) legs es) = foldl join (lb_cash legs) (map (entry_ends s at_cash) (staged_of es))"
  "account_ends (foldl (place_entry s) legs es) i
     = foldl join (account_ends legs i) (map (entry_ends s (at_account i)) (staged_of es))"
  "lb_total (foldl (place_entry s) legs es) = foldl join (lb_total legs) (map (crossing_ends s) (staged_of es))"
  by (induction es arbitrary: legs)
    (simp_all add: place_entry_ends place_entry_unknown crossing_ends_def split: option.split)

lemma foldl_join:
  "foldl join a bs = join a \<lparr>le_arriving = concat (map le_arriving bs), le_departing = concat (map le_departing bs)\<rparr>"
  by (induction bs arbitrary: a) (simp_all add: join_def)

lemma concat_if: "concat (map (\<lambda>x. if P x then [f x] else []) xs) = map f (filter P xs)"
  by (induction xs) simp_all

lemma placed_ends:
  "foldl join no_ends (map (entry_ends s here) (staged s)) = ends_at s here"
  "foldl join no_ends (map (crossing_ends s) (staged s)) = across s"
  by (simp_all add: foldl_join entry_ends_def crossing_ends_def ends_at_def across_def comp_def concat_if)

lemma staged_staged_of: "staged s = staged_of (ws_Moving s)" by (simp add: staged_def staged_of_def)

lemma no_legs_ends [simp]:
  "lb_cash no_legs = no_ends" "account_ends no_legs i = no_ends" "lb_total no_legs = no_ends"
  by (simp_all add: no_legs_def account_ends_def)

lemma moneyLegsByEnd_ends:
  "lb_cash (moneyLegsByEnd s) = ends_at s at_cash"
  "account_ends (moneyLegsByEnd s) i = ends_at s (at_account i)"
  "lb_total (moneyLegsByEnd s) = across s"
  by (simp_all add: moneyLegsByEnd_def foldl_place_entry placed_ends staged_staged_of [symmetric])

text \<open>C17: the legs placed at the cash figure, at an account's figure and at the total are exactly those of the
  placement rules: an entry of a known stage arrives at its destination, departs from its source while it is
  reserved or in transit to an end the snapshot does not list, and crosses the total when exactly one end is
  external; each in the order of the snapshot, each stating the entry's own amount.\<close>

theorem legs_follow_placement:
  "lb_cash (moneyLegsByEnd s) = ends_at s at_cash
   \<and> account_ends (moneyLegsByEnd s) i = ends_at s (at_account i)
   \<and> lb_total (moneyLegsByEnd s) = across s
   \<and> map ml_AmountMicro (le_arriving (ends_at s here)) = map (mv_AmountMicro \<circ> fst) (filter (\<lambda>x. here (to_party s x)) (staged s))"
  by (simp add: moneyLegsByEnd_ends) (simp add: ends_at_def in_leg_def out_leg_def arriving_of_def departing_leg_def Let_def)

section \<open>Figures are the snapshot's own\<close>

definition drop_change :: "MoneyFigure \<Rightarrow> MoneyFigure" where
  "drop_change f = f\<lparr>mf_Change := None\<rparr>"

text \<open>The legs that the predictions not yet in the snapshot add to an end.\<close>

definition predicted_ends ::
    "FundingV9WalletSnapshot \<Rightarrow> (moneyLegsByEndT \<Rightarrow> moneyLegEnds) \<Rightarrow> MoneyPrediction list \<Rightarrow> moneyLegEnds" where
  "predicted_ends s pick ps =
     foldl join no_ends (map (\<lambda>p. pick (moneyPredictedLegs p s)) (filter (\<lambda>p. \<not> is_framed s p) ps))"

lemma append_ends_simps [simp]:
  "append_ends no_ends f = f" "append_ends b (append_ends a f) = append_ends (join a b) f"
  by (simp_all add: append_ends_def no_ends_def join_def)

lemma join_one: "join no_ends a = a" "foldl join a bs = join a (foldl join no_ends bs)"
  by (simp, induction bs arbitrary: a) (simp_all add: foldl_join join_def no_ends_def)

lemma predicted_ends_Cons:
  "predicted_ends s pick (p # ps) =
     (if is_framed s p then predicted_ends s pick ps else join (pick (moneyPredictedLegs p s)) (predicted_ends s pick ps))"
  by (simp add: predicted_ends_def) (metis join_one(2))

lemma foldl_add_prediction:
  "foldl (add_prediction s) (c, t, a) ps =
     (append_ends (predicted_ends s lb_cash ps) c, append_ends (predicted_ends s lb_total ps) t,
      \<lambda>i. map_option (append_ends (predicted_ends s (\<lambda>l. account_ends l i) ps)) (a i))"
proof (induction ps arbitrary: c t a)
  case Nil
  then show ?case by (simp add: predicted_ends_def option.map_ident)
next
  case (Cons p ps)
  have "(case a i of None \<Rightarrow> None
         | Some f \<Rightarrow> (case lb_accounts (moneyPredictedLegs p s) i of Some ends \<Rightarrow> Some (append_ends ends f) | None \<Rightarrow> Some f))
        = map_option (append_ends (account_ends (moneyPredictedLegs p s) i)) (a i)" for i
    by (simp add: account_ends_def split: option.split)
  then have "add_prediction s (c, t, a) p = (if is_framed s p then (c, t, a) else
      (append_ends (lb_cash (moneyPredictedLegs p s)) c, append_ends (lb_total (moneyPredictedLegs p s)) t,
       \<lambda>i. map_option (append_ends (account_ends (moneyPredictedLegs p s) i)) (a i)))"
    by (simp add: add_prediction_def Let_def)
  then show ?case by (simp add: Cons.IH predicted_ends_Cons option.map_comp comp_def)
qed

lemma foldl_map_upd:
  "foldl (\<lambda>m (f, d). m(key f \<mapsto> f)) m xs i =
     (case map_of (rev (map (\<lambda>x. (key (fst x), fst x)) xs)) i of Some f \<Rightarrow> Some f | None \<Rightarrow> m i)"
  by (induction xs arbitrary: m) (auto simp: map_add_def split: option.split)

lemma map_of_rev_map:
  "map_of (rev (map (\<lambda>x. (h x, g x)) xs)) i = map_option g (map_of (rev (map (\<lambda>x. (h x, x)) xs)) i)"
proof -
  have "map_of (map (\<lambda>x. (h x, g x)) ys) i = map_option g (map_of (map (\<lambda>x. (h x, x)) ys) i)" for ys
    by (induction ys) simp_all
  then show ?thesis by (simp add: rev_map)
qed

lemma account_figure_id [simp]: "mf_ArcaID (fst (account_figure s revs a)) = ta_ArcaID a"
  by (simp add: account_figure_def base_figure_def Let_def split: option.split sum.split)

lemma account_figures_map:
  "foldl (\<lambda>m (f, d). m(mf_ArcaID f \<mapsto> f)) Map.empty (map (account_figure s revs) as) i
     = map_option (\<lambda>a. fst (account_figure s revs a)) (map_of (rev (map (\<lambda>a. (ta_ArcaID a, a)) as)) i)"
  by (simp add: foldl_map_upd comp_def map_of_rev_map [where g = "\<lambda>a. fst (account_figure s revs a)"] split: option.split)

lemma foldl_add_change:
  "map_option drop_change (foldl (add_change s prev) a order i) = map_option drop_change (a i)"
  by (induction order arbitrary: a) (auto simp: add_change_def drop_change_def split: option.split)

lemma drop_change_append [simp]: "drop_change (append_ends e f) = append_ends e (drop_change f)"
  by (simp add: drop_change_def append_ends_def)

lemma drop_change_own [simp]:
  "drop_change (cash_figure s) = cash_figure s" "drop_change (total_figure s) = total_figure s"
  "drop_change (fst (account_figure s revs a)) = fst (account_figure s revs a)"
  "drop_change (f\<lparr>mf_Change := c\<rparr>) = drop_change f"
  by (simp_all add: drop_change_def cash_figure_def total_figure_def account_figure_def base_figure_def Let_def
      split: option.split sum.split)

lemmas compose_simps = ComposeWalletMoney_def Let_def foldl_add_prediction Account_def

lemma compose_order: "wm_AccountOrder (ComposeWalletMoney s opts) = map ta_ArcaID (ws_Accounts s)"
  by (simp add: compose_simps split: option.split)

lemma compose_cash:
  "drop_change (wm_Cash (ComposeWalletMoney s opts))
     = append_ends (predicted_ends s lb_cash (op_Predictions opts)) (cash_figure s)"
  by (simp add: compose_simps split: option.split)

lemma compose_total:
  "drop_change (wm_Total (ComposeWalletMoney s opts))
     = append_ends (predicted_ends s lb_total (op_Predictions opts)) (total_figure s)"
  by (simp add: compose_simps split: option.split)

lemma compose_account:
  "map_option drop_change (Account (ComposeWalletMoney s opts) i)
     = map_option (\<lambda>a. append_ends (predicted_ends s (\<lambda>l. account_ends l i) (op_Predictions opts))
                         (fst (account_figure s (op_Revaluations opts) a))) (account_for s i)"
  by (simp add: compose_simps foldl_add_change account_figures_map account_for_def option.map_comp comp_def
      split: option.split)

lemma cash_total_settled:
  "mf_SettledMicro (cash_figure s) = Some (cb_ConfirmedMicro (ca_Balances (ws_Cash s)))"
  "mf_SettledMicro (total_figure s) = Some (tt_TotalMicro (ws_Totals s))"
  by (simp_all add: cash_figure_def total_figure_def Let_def)

lemma account_settled: "mf_SettledMicro (fst (account_figure s revs a)) = map_option nb_TotalMicro (ta_Balances a)"
  by (simp add: account_figure_def base_figure_def Let_def split: option.split sum.split)

text \<open>The composed figures are the snapshot's own: apart from the attribution of the change, cash is the cash
  figure, the total is the stated total and an account's figure is that of its entry, each with only the legs of
  predictions the snapshot does not have yet appended; what was shown before changes none of it, a prediction
  changes no amount and a venue frame only the separate revalued amount; accounts keep their order.\<close>

theorem figures_are_the_snapshots:
  "drop_change (wm_Cash (ComposeWalletMoney s opts))
     = append_ends (predicted_ends s lb_cash (op_Predictions opts)) (cash_figure s)
   \<and> drop_change (wm_Total (ComposeWalletMoney s opts))
     = append_ends (predicted_ends s lb_total (op_Predictions opts)) (total_figure s)
   \<and> map_option drop_change (Account (ComposeWalletMoney s opts) i)
     = map_option (\<lambda>a. append_ends (predicted_ends s (\<lambda>l. account_ends l i) (op_Predictions opts))
                         (fst (account_figure s (op_Revaluations opts) a))) (account_for s i)
   \<and> wm_AccountOrder (ComposeWalletMoney s opts) = map ta_ArcaID (ws_Accounts s)
   \<and> mf_SettledMicro (wm_Cash (ComposeWalletMoney s opts)) = Some (cb_ConfirmedMicro (ca_Balances (ws_Cash s)))
   \<and> mf_SettledMicro (wm_Total (ComposeWalletMoney s opts)) = Some (tt_TotalMicro (ws_Totals s))
   \<and> map_option mf_SettledMicro (Account (ComposeWalletMoney s opts) i)
     = map_option (\<lambda>a. map_option nb_TotalMicro (ta_Balances a)) (account_for s i)"
proof -
  have settled: "mf_SettledMicro (drop_change f) = mf_SettledMicro f" "mf_SettledMicro (append_ends e f) = mf_SettledMicro f" for e f
    by (simp_all add: drop_change_def append_ends_def)
  note c = compose_cash [of s opts] and t = compose_total [of s opts] and a = compose_account [of s opts i]
  have "map_option mf_SettledMicro (Account (ComposeWalletMoney s opts) i)
        = map_option mf_SettledMicro (map_option drop_change (Account (ComposeWalletMoney s opts) i))"
    by (simp add: option.map_comp comp_def settled)
  then show ?thesis
    using c t a settled(1) [of "wm_Cash (ComposeWalletMoney s opts)"] settled(1) [of "wm_Total (ComposeWalletMoney s opts)"]
    by (simp add: settled cash_total_settled account_settled compose_order option.map_comp comp_def)
qed

end
