(* ===== verification/Watch_Stream.thy ===== *)
theory Watch_Stream
  imports Arca_Prelude
begin

text \<open>
  The base of every watch stream (\<^verbatim>\<open>streams.go\<close>, \<^verbatim>\<open>WatchStream\<close>): the latest value, the callbacks, the bounded
  update channel and closing.  Each operation is one step, as the stream's mutex makes it; what it calls
  outside the lock is listed as its effects.  The lemmas show what a callback and the channel's reader see.
\<close>

section \<open>The stream\<close>

datatype WatchState = WatchLoading | WatchConnected | WatchReconnecting

definition watchChanBuffer :: nat where "watchChanBuffer = 256"

text \<open>
  \<^verbatim>\<open>wt_value\<close> is the value with its presence flag, \<^verbatim>\<open>wt_ch\<close> the buffered channel, \<^verbatim>\<open>wt_ready\<close> that \<^verbatim>\<open>readyCh\<close> is
  closed.  Callbacks are known by their ids; \<^verbatim>\<open>'u\<close> names the releases of the stream's subscriptions.
\<close>

record ('v, 'u) WatchStream =
  wt_state :: WatchState
  wt_value :: "'v option"
  wt_updateCbs :: "nat list"
  wt_stateCbs :: "nat list"
  wt_nextID :: nat
  wt_ch :: "'v list"
  wt_closed :: bool
  wt_unsubs :: "'u list"
  wt_ready :: bool

definition newWatchStream :: "('v, 'u) WatchStream" where
  "newWatchStream =
     \<lparr>wt_state = WatchLoading, wt_value = None, wt_updateCbs = [], wt_stateCbs = [], wt_nextID = 0, wt_ch = [],
      wt_closed = False, wt_unsubs = [], wt_ready = False\<rparr>"

datatype ('v, 'u) effect =
    Update nat 'v
  | StateChange nat WatchState
  | Release 'u

definition notifyStateLocked :: "WatchState \<Rightarrow> ('v, 'u) WatchStream \<Rightarrow> ('v, 'u) effect list" where
  "notifyStateLocked st s = map (\<lambda>cb. StateChange cb st) (wt_stateCbs s)"

text \<open>A send that finds the channel full drops the oldest value first.\<close>

definition channel_send :: "'v \<Rightarrow> 'v list \<Rightarrow> 'v list" where
  "channel_send v ch =
     (if length ch < watchChanBuffer then ch @ [v]
      else (let ch1 = tl ch in if length ch1 < watchChanBuffer then ch1 @ [v] else ch1))"

definition publish :: "'v \<Rightarrow> bool \<Rightarrow> ('v, 'u) WatchStream \<Rightarrow> ('v, 'u) WatchStream \<times> ('v, 'u) effect list" where
  "publish v connect s =
     (if wt_closed s then (s, [])
      else (let changed = connect \<and> wt_state s \<noteq> WatchConnected in
            (s\<lparr>wt_value := Some v, wt_state := (if changed then WatchConnected else wt_state s),
               wt_ch := channel_send v (wt_ch s), wt_ready := True\<rparr>,
             (if changed then notifyStateLocked WatchConnected s else [])
             @ map (\<lambda>cb. Update cb v) (wt_updateCbs s))))"

definition emit :: "'v \<Rightarrow> ('v, 'u) WatchStream \<Rightarrow> ('v, 'u) WatchStream \<times> ('v, 'u) effect list" where
  "emit v s = publish v True s"

definition setState :: "WatchState \<Rightarrow> ('v, 'u) WatchStream \<Rightarrow> ('v, 'u) WatchStream \<times> ('v, 'u) effect list" where
  "setState st s =
     (if wt_closed s \<or> wt_state s = st then (s, [])
      else (s\<lparr>wt_state := st\<rparr>, notifyStateLocked st s))"

definition OnUpdate :: "('v, 'u) WatchStream \<Rightarrow> nat \<times> ('v, 'u) WatchStream" where
  "OnUpdate s = (wt_nextID s, s\<lparr>wt_nextID := wt_nextID s + 1, wt_updateCbs := wt_updateCbs s @ [wt_nextID s]\<rparr>)"

definition off_update :: "nat \<Rightarrow> ('v, 'u) WatchStream \<Rightarrow> ('v, 'u) WatchStream" where
  "off_update i s = s\<lparr>wt_updateCbs := removeAll i (wt_updateCbs s)\<rparr>"

definition OnStateChange :: "('v, 'u) WatchStream \<Rightarrow> nat \<times> ('v, 'u) WatchStream" where
  "OnStateChange s = (wt_nextID s, s\<lparr>wt_nextID := wt_nextID s + 1, wt_stateCbs := wt_stateCbs s @ [wt_nextID s]\<rparr>)"

definition off_state :: "nat \<Rightarrow> ('v, 'u) WatchStream \<Rightarrow> ('v, 'u) WatchStream" where
  "off_state i s = s\<lparr>wt_stateCbs := removeAll i (wt_stateCbs s)\<rparr>"

definition addUnsub :: "'u \<Rightarrow> ('v, 'u) WatchStream \<Rightarrow> ('v, 'u) WatchStream" where
  "addUnsub u s = s\<lparr>wt_unsubs := wt_unsubs s @ [u]\<rparr>"

definition Close :: "('v, 'u) WatchStream \<Rightarrow> ('v, 'u) WatchStream \<times> ('v, 'u) effect list" where
  "Close s =
     (if wt_closed s then (s, [])
      else (s\<lparr>wt_closed := True, wt_unsubs := []\<rparr>, map Release (wt_unsubs s)))"

text \<open>A reader of the channel takes its head; a closed channel still yields what it buffers.\<close>

definition recv :: "('v, 'u) WatchStream \<Rightarrow> 'v option \<times> ('v, 'u) WatchStream" where
  "recv s = (case wt_ch s of [] \<Rightarrow> (None, s) | v # vs \<Rightarrow> (Some v, s\<lparr>wt_ch := vs\<rparr>))"

section \<open>Sequences of operations\<close>

datatype ('v, 'u) stream_op =
    Publish 'v bool
  | Set_State WatchState
  | On_Update
  | Off_Update nat
  | On_State
  | Off_State nat
  | Add_Unsub 'u
  | Close_Stream
  | Receive

text \<open>Effects in order, and what the reader takes.\<close>

fun stream_step :: "('v, 'u) stream_op \<Rightarrow> ('v, 'u) WatchStream \<Rightarrow> ('v, 'u) WatchStream \<times> ('v, 'u) effect list \<times> 'v list" where
  "stream_step (Publish v c) s = (case publish v c s of (s', es) \<Rightarrow> (s', es, []))"
| "stream_step (Set_State st) s = (case setState st s of (s', es) \<Rightarrow> (s', es, []))"
| "stream_step On_Update s = (snd (OnUpdate s), [], [])"
| "stream_step (Off_Update i) s = (off_update i s, [], [])"
| "stream_step On_State s = (snd (OnStateChange s), [], [])"
| "stream_step (Off_State i) s = (off_state i s, [], [])"
| "stream_step (Add_Unsub u) s = (addUnsub u s, [], [])"
| "stream_step Close_Stream s = (case Close s of (s', es) \<Rightarrow> (s', es, []))"
| "stream_step Receive s = (case recv s of (Some v, s') \<Rightarrow> (s', [], [v]) | (None, s') \<Rightarrow> (s', [], []))"

fun run_stream :: "('v, 'u) stream_op list \<Rightarrow> ('v, 'u) WatchStream \<Rightarrow> ('v, 'u) WatchStream \<times> ('v, 'u) effect list \<times> 'v list" where
  "run_stream [] s = (s, [], [])"
| "run_stream (x # xs) s =
     (case stream_step x s of (s1, es, vs) \<Rightarrow>
      case run_stream xs s1 of (s2, es', vs') \<Rightarrow> (s2, es @ es', vs @ vs'))"

lemma run_stream_Cons:
  "run_stream (x # xs) s =
     (fst (run_stream xs (fst (stream_step x s))),
      fst (snd (stream_step x s)) @ fst (snd (run_stream xs (fst (stream_step x s)))),
      snd (snd (stream_step x s)) @ snd (snd (run_stream xs (fst (stream_step x s)))))"
  by (simp split: prod.split)

section \<open>What callbacks and readers see\<close>

text \<open>The reference looks only at the history of operations, newest first.\<close>

definition open_after :: "('v, 'u) stream_op list \<Rightarrow> bool" where
  "open_after h \<longleftrightarrow> Close_Stream \<notin> set h"

definition ids_given :: "('v, 'u) stream_op list \<Rightarrow> nat" where
  "ids_given h = length (filter (\<lambda>x. x = On_Update \<or> x = On_State) h)"

fun registered :: "nat \<Rightarrow> ('v, 'u) stream_op list \<Rightarrow> bool" where
  "registered i [] = False"
| "registered i (On_Update # h) = (ids_given h = i \<or> registered i h)"
| "registered i (Off_Update j # h) = (i \<noteq> j \<and> registered i h)"
| "registered i (x # h) = registered i h"

fun heard_by :: "nat \<Rightarrow> ('v, 'u) stream_op list \<Rightarrow> ('v, 'u) stream_op list \<Rightarrow> 'v list" where
  "heard_by i h [] = []"
| "heard_by i h (x # xs) =
     (case x of Publish v c \<Rightarrow> if open_after h \<and> registered i h then [v] else [] | _ \<Rightarrow> []) @ heard_by i (x # h) xs"

fun published :: "('v, 'u) stream_op list \<Rightarrow> ('v, 'u) stream_op list \<Rightarrow> 'v list" where
  "published h [] = []"
| "published h (x # xs) =
     (case x of Publish v c \<Rightarrow> if open_after h then [v] else [] | _ \<Rightarrow> []) @ published (x # h) xs"

definition updates_to :: "nat \<Rightarrow> ('v, 'u) effect list \<Rightarrow> 'v list" where
  "updates_to i es = concat (map (\<lambda>e. case e of Update j v \<Rightarrow> if j = i then [v] else [] | _ \<Rightarrow> []) es)"

lemma updates_to_simps [simp]:
  "updates_to i [] = []" "updates_to i (es @ fs) = updates_to i es @ updates_to i fs"
  "updates_to i (Update j v # es) = (if j = i then v # updates_to i es else updates_to i es)"
  "updates_to i (notifyStateLocked st s) = []" "updates_to i (map Release us) = []"
  by (simp_all add: updates_to_def notifyStateLocked_def comp_def)

lemma updates_to_all: "distinct cbs \<Longrightarrow> updates_to i (map (\<lambda>cb. Update cb v) cbs) = (if i \<in> set cbs then [v] else [])"
  by (induction cbs) auto

text \<open>The stream after a history.\<close>

definition tracks :: "('v, 'u) stream_op list \<Rightarrow> ('v, 'u) WatchStream \<Rightarrow> bool" where
  "tracks h s \<longleftrightarrow>
     wt_closed s = (\<not> open_after h) \<and> wt_nextID s = ids_given h \<and> distinct (wt_updateCbs s)
     \<and> (\<forall>i. i \<in> set (wt_updateCbs s) \<longleftrightarrow> registered i h) \<and> (\<forall>i. registered i h \<longrightarrow> i < ids_given h)"

lemmas stream_defs = publish_def setState_def OnUpdate_def off_update_def OnStateChange_def off_state_def
  addUnsub_def Close_def recv_def

lemma tracks_new: "tracks [] newWatchStream"
  by (simp add: tracks_def newWatchStream_def open_after_def ids_given_def)

lemma tracks_step: "tracks h s \<Longrightarrow> tracks (x # h) (fst (stream_step x s))"
  by (cases x) (auto simp: tracks_def stream_defs open_after_def ids_given_def Let_def distinct_removeAll less_Suc_eq
      split: list.split)

text \<open>What the reader took, followed by what is buffered, against what was published.\<close>

definition channel_ok :: "'v list \<Rightarrow> 'v list \<Rightarrow> 'v list \<Rightarrow> bool" where
  "channel_ok pub taken ch \<longleftrightarrow>
     suffix ch pub \<and> length ch \<le> watchChanBuffer \<and> subseq (taken @ ch) pub
     \<and> (length pub \<le> watchChanBuffer \<longrightarrow> taken @ ch = pub)"

lemma suffix_tl: "suffix xs ys \<Longrightarrow> suffix (tl xs) ys"
  by (meson suffix_order.order_trans suffix_tl)

lemma channel_ok_send:
  assumes "channel_ok pub taken ch"
  shows "channel_ok (pub @ [v]) taken (channel_send v ch)"
proof (cases "length ch < watchChanBuffer")
  case True
  then show ?thesis using assms by (auto simp: channel_ok_def channel_send_def list_emb_append_mono simp flip: append_assoc)
next
  case False
  have ok: "suffix ch pub" "length ch \<le> watchChanBuffer" "subseq (taken @ ch) pub" using assms by (auto simp: channel_ok_def)
  have full: "length ch = watchChanBuffer" "ch \<noteq> []" using False ok by (auto simp: watchChanBuffer_def)
  have "length ch \<le> length pub" using ok(1) by (rule suffix_length_le)
  moreover have "subseq (taken @ tl ch) (taken @ ch)"
    by (rule list_emb_append_mono) (cases ch, auto)
  then have "subseq (taken @ tl ch @ [v]) (pub @ [v])"
    using ok(3) by (metis append_assoc subseq_order.order_trans subseq_append)
  moreover have "suffix (tl ch @ [v]) (pub @ [v])" using suffix_tl [OF ok(1)] by simp
  moreover have "channel_send v ch = tl ch @ [v]" using full by (simp add: channel_send_def watchChanBuffer_def)
  ultimately show ?thesis using full by (simp add: channel_ok_def) (simp add: watchChanBuffer_def)
qed

lemma channel_ok_recv: "channel_ok pub taken (v # vs) \<Longrightarrow> channel_ok pub (taken @ [v]) vs"
  using suffix_tl [of "v # vs" pub] by (auto simp: channel_ok_def)

lemma channel_ok_new: "channel_ok [] [] []" by (simp add: channel_ok_def)

lemma step_updates:
  assumes "tracks h s"
  shows "updates_to i (fst (snd (stream_step x s)))
       = (case x of Publish v c \<Rightarrow> if open_after h \<and> registered i h then [v] else [] | _ \<Rightarrow> [])"
proof -
  have cbs: "distinct (wt_updateCbs s)" "i \<in> set (wt_updateCbs s) \<longleftrightarrow> registered i h" "wt_closed s = (\<not> open_after h)"
    using assms by (auto simp: tracks_def)
  show ?thesis
    by (cases x) (simp_all add: stream_defs Let_def updates_to_all [OF cbs(1)] cbs(2,3) split: list.split)
qed

lemma run_updates: "tracks h s \<Longrightarrow> updates_to i (fst (snd (run_stream xs s))) = heard_by i h xs"
proof (induction xs arbitrary: h s)
  case (Cons x xs)
  then show ?case
    using Cons.IH [OF tracks_step [OF Cons.prems]] step_updates [OF Cons.prems, of i x]
    by (simp del: run_stream.simps add: run_stream_Cons)
qed simp

lemma step_channel:
  assumes "tracks h s" "channel_ok pub taken (wt_ch s)"
  shows "channel_ok (pub @ (case x of Publish v c \<Rightarrow> if open_after h then [v] else [] | _ \<Rightarrow> []))
           (taken @ snd (snd (stream_step x s))) (wt_ch (fst (stream_step x s)))"
proof -
  have "wt_closed s = (\<not> open_after h)" using assms(1) by (simp add: tracks_def)
  then show ?thesis using assms(2)
    by (cases x) (auto simp: stream_defs Let_def channel_ok_send channel_ok_recv split: list.split)
qed

lemma run_channel:
  "tracks h s \<Longrightarrow> channel_ok pub taken (wt_ch s) \<Longrightarrow>
     channel_ok (pub @ published h xs) (taken @ snd (snd (run_stream xs s))) (wt_ch (fst (run_stream xs s)))"
proof (induction xs arbitrary: h s pub taken)
  case (Cons x xs)
  then show ?case
    using Cons.IH [OF tracks_step [OF Cons.prems(1)] step_channel [OF Cons.prems, of x]]
    by (simp del: run_stream.simps add: run_stream_Cons)
qed simp

text \<open>Releases: each release added while the stream is open happens once, when it closes.\<close>

definition releases :: "('v, 'u) effect list \<Rightarrow> 'u list" where
  "releases es = concat (map (\<lambda>e. case e of Release u \<Rightarrow> [u] | _ \<Rightarrow> []) es)"

fun added :: "('v, 'u) stream_op list \<Rightarrow> 'u list" where
  "added [] = []"
| "added (Close_Stream # xs) = []"
| "added (Add_Unsub u # xs) = u # added xs"
| "added (x # xs) = added xs"

lemma releases_simps [simp]:
  "releases [] = []" "releases (es @ fs) = releases es @ releases fs" "releases (notifyStateLocked st s) = []"
  "releases (map Release us) = us" "releases (map (\<lambda>cb. Update cb v) cbs) = []"
  by (simp_all add: releases_def notifyStateLocked_def comp_def concat_map_singleton)

lemma closed_releases: "wt_closed s \<Longrightarrow> releases (fst (snd (run_stream xs s))) = []"
proof (induction xs arbitrary: s)
  case (Cons x xs)
  have "wt_closed (fst (stream_step x s)) \<and> releases (fst (snd (stream_step x s))) = []"
    using Cons.prems by (cases x) (simp_all add: stream_defs Let_def split: list.split)
  then show ?case using Cons.IH [of "fst (stream_step x s)"]
      by (simp del: run_stream.simps add: run_stream_Cons)
qed simp

lemma run_releases:
  "\<not> wt_closed s \<Longrightarrow> releases (fst (snd (run_stream xs s)))
     = (if Close_Stream \<in> set xs then wt_unsubs s @ added xs else [])"
proof (induction xs arbitrary: s)
  case (Cons x xs)
  show ?case
  proof (cases "x = Close_Stream")
    case True
    then show ?thesis using Cons.prems closed_releases [of "fst (Close s)" xs] by (simp del: run_stream.simps add: run_stream_Cons Close_def)
  next
    case False
    have "\<not> wt_closed (fst (stream_step x s)) \<and> releases (fst (snd (stream_step x s))) = []
        \<and> wt_unsubs (fst (stream_step x s)) @ added xs = wt_unsubs s @ added (x # xs)"
      using False Cons.prems by (cases x) (simp_all add: stream_defs Let_def split: list.split)
    then show ?thesis using False Cons.IH [of "fst (stream_step x s)"]
      by (simp del: run_stream.simps add: run_stream_Cons)
  qed
qed simp

text \<open>A callback hears exactly the values published from its registration until its removal or the close, in
  order; the update channel holds the newest published values, at most 256 of them, its reader sees a
  subsequence of what was published and all of it as long as no more than 256 were; and closing releases every
  subscription added before it exactly once.\<close>

theorem watch_stream_delivery:
  fixes xs :: "('v, 'u) stream_op list"
  defines "r \<equiv> run_stream xs newWatchStream"
  shows "updates_to i (fst (snd r)) = heard_by i [] xs
   \<and> suffix (wt_ch (fst r)) (published [] xs) \<and> length (wt_ch (fst r)) \<le> watchChanBuffer
   \<and> subseq (snd (snd r) @ wt_ch (fst r)) (published [] xs)
   \<and> (length (published [] xs) \<le> watchChanBuffer \<longrightarrow> snd (snd r) @ wt_ch (fst r) = published [] xs)
   \<and> releases (fst (snd r)) = (if Close_Stream \<in> set xs then added xs else [])"
  using run_updates [OF tracks_new, of i xs] run_channel [OF tracks_new, of "[]" "[]" xs]
    run_releases [of newWatchStream xs]
  by (simp add: r_def channel_ok_def newWatchStream_def)

theorem watch_stream_delivery_witness:
  "snd (snd (run_stream [On_Update, Publish True True, Receive, Close_Stream] (newWatchStream :: (bool, nat) WatchStream)))
     @ wt_ch (fst (run_stream [On_Update, Publish True True, Receive, Close_Stream] (newWatchStream :: (bool, nat) WatchStream)))
   = [True]"
  using watch_stream_delivery [where xs = "[On_Update, Publish True True, Receive, Close_Stream] :: (bool, nat) stream_op list" and i = 0]
  by (simp add: watchChanBuffer_def open_after_def)

text \<open>A reader that lags loses the oldest values.\<close>

lemma lagging_reader_loses:
  "length vs = watchChanBuffer \<Longrightarrow> channel_send v vs = tl vs @ [v]"
  by (simp add: channel_send_def watchChanBuffer_def)

end
