(* ===== verification/Gates.thy ===== *)
theory Gates
  imports Arca_Prelude
begin

text \<open>
  The coalescing gate the streams share: work that runs one at a time, where a trigger during a run is remembered
  and honoured by one more run.  \<^verbatim>\<open>Refresh\<close>, \<^verbatim>\<open>recreate\<close> and \<^verbatim>\<open>resync\<close> of the watch streams are instances.
\<close>

datatype gate_event = Trigger | Finish

text \<open>
  \<^verbatim>\<open>trigger\<close> says whether it starts a run, \<^verbatim>\<open>finish\<close> whether another run follows the one that ends.  A gate that
  is stopped (its stream is closed) need not honour anything.
\<close>

locale coalescing_gate =
  fixes active :: "'s \<Rightarrow> bool" and queued :: "'s \<Rightarrow> bool" and stopped :: "'s \<Rightarrow> bool"
    and trigger :: "'s \<Rightarrow> 's \<times> bool" and finish :: "'s \<Rightarrow> 's \<times> bool"
  assumes trigger_idle: "\<not> stopped s \<Longrightarrow> \<not> active s \<Longrightarrow> snd (trigger s) \<and> active (fst (trigger s))"
    and trigger_busy: "\<not> stopped s \<Longrightarrow> active s \<Longrightarrow>
      \<not> snd (trigger s) \<and> active (fst (trigger s)) \<and> queued (fst (trigger s))"
    and finish_run: "\<not> stopped s \<Longrightarrow> active s \<Longrightarrow> snd (finish s) = queued s \<and> active (fst (finish s)) = snd (finish s)"
    and stays_open: "stopped (fst (trigger s)) = stopped s" "stopped (fst (finish s)) = stopped s"
begin

text \<open>A finish happens only while a run is active; the list says which events start a run.\<close>

fun gate_step :: "gate_event \<Rightarrow> 's \<Rightarrow> 's \<times> bool" where
  "gate_step Trigger s = trigger s"
| "gate_step Finish s = (if active s then finish s else (s, False))"

fun run_gate :: "gate_event list \<Rightarrow> 's \<Rightarrow> 's \<times> bool list" where
  "run_gate [] s = (s, [])"
| "run_gate (e # es) s =
     (let (s1, b) = gate_step e s; (s2, bs) = run_gate es s1 in (s2, b # bs))"

text \<open>Whether a trigger is still waiting for a run to start.\<close>

fun owed :: "gate_event list \<Rightarrow> bool list \<Rightarrow> bool \<Rightarrow> bool" where
  "owed (e # es) (b # bs) o1 = owed es bs (\<not> b \<and> (e = Trigger \<or> o1))"
| "owed _ _ o1 = o1"

lemma gate_step_facts:
  assumes "\<not> stopped s" "o1 \<longrightarrow> active s \<and> queued s"
  shows "\<not> stopped (fst (gate_step e s))"
    "\<not> snd (gate_step e s) \<and> (e = Trigger \<or> o1) \<longrightarrow> active (fst (gate_step e s)) \<and> queued (fst (gate_step e s))"
  using assms trigger_idle [OF assms(1)] trigger_busy [OF assms(1)] finish_run [OF assms(1)] stays_open
  by (cases e; auto)+

lemma owed_is_queued:
  assumes "\<not> stopped s" "o1 \<longrightarrow> active s \<and> queued s"
  shows "owed es (snd (run_gate es s)) o1 \<longrightarrow> active (fst (run_gate es s)) \<and> queued (fst (run_gate es s))"
  using assms
proof (induction es arbitrary: s o1)
  case (Cons e es)
  show ?case using Cons.IH [OF gate_step_facts(1) [OF Cons.prems, of e] gate_step_facts(2) [OF Cons.prems, of e]]
    by (simp add: Let_def case_prod_beta)
qed simp

text \<open>Once the gate is idle again every trigger has had a run that started at or after it.\<close>

lemma triggers_honoured:
  assumes "\<not> stopped s" "\<not> active (fst (run_gate es s))"
  shows "\<not> owed es (snd (run_gate es s)) False"
  using owed_is_queued [OF assms(1), of False es] assms(2) by simp

lemma owed_iff:
  "length bs = length es \<Longrightarrow> \<not> owed es bs o1 \<Longrightarrow>
     (o1 \<longrightarrow> True \<in> set bs) \<and> (\<forall>i<length es. es ! i = Trigger \<longrightarrow> (\<exists>j\<ge>i. j < length es \<and> bs ! j))"
proof (induction es arbitrary: bs o1)
  case (Cons e es)
  then obtain b cs where bs: "bs = b # cs" by (cases bs) auto
  have ih: "(\<not> b \<and> (e = Trigger \<or> o1) \<longrightarrow> True \<in> set cs)"
    "\<forall>i<length es. es ! i = Trigger \<longrightarrow> (\<exists>j\<ge>i. j < length es \<and> cs ! j)"
    using Cons.IH [of cs "\<not> b \<and> (e = Trigger \<or> o1)"] Cons.prems bs by auto
  have "\<exists>j\<ge>i. j < length (e # es) \<and> (b # cs) ! j" if i: "i < length (e # es)" "(e # es) ! i = Trigger" for i
  proof (cases i)
    case 0
    then show ?thesis
    proof (cases b)
      case False
      then obtain j where "j < length cs" "cs ! j" using ih(1) i 0 by (auto simp: in_set_conv_nth)
      then show ?thesis using Cons.prems(1) bs 0 by (intro exI [of _ "Suc j"]) simp
    qed auto
  next
    case (Suc k)
    then obtain j where "j \<ge> k" "j < length es" "cs ! j" using ih(2) i by auto
    then show ?thesis using Suc by (intro exI [of _ "Suc j"]) simp
  qed
  then show ?case using ih(1) bs by auto
qed simp

lemma run_gate_length: "length (snd (run_gate es s)) = length es"
  by (induction es arbitrary: s) (simp_all add: Let_def case_prod_beta)

lemma every_trigger_runs:
  assumes "\<not> stopped s" "\<not> active (fst (run_gate es s))" "i < length es" "es ! i = Trigger"
  shows "\<exists>j\<ge>i. j < length es \<and> snd (run_gate es s) ! j"
  using owed_iff [OF run_gate_length, of es s False] triggers_honoured [OF assms(1,2)] assms(3,4) by blast

end

end
