(* ===== verification/Realm_Fills.thy ===== *)
theory Realm_Fills
  imports Watch_Stream Receipts
begin

text \<open>
  The realm-wide fill stream (\<^verbatim>\<open>streams.go\<close>, \<^verbatim>\<open>RealmFillWatchStream\<close>): replay of the durable log, then the live
  tail, with recovery after losses.  The stream's methods are functions on its state; the replay goroutine is
  a program counter whose steps are its critical sections and requests.  The world around it is the log the
  server keeps and the frames on the wire.  The lemmas show at-least-once delivery: no update carries a
  cursor that is ahead of a fill its consumer has not been given.
\<close>

section \<open>The stream\<close>

definition realmFillsPageLimit :: nat where "realmFillsPageLimit = 500"

definition realmFillsDedupeWindow :: nat where "realmFillsDedupeWindow = 512"

definition encodeRealmFillCursor :: "gostring \<Rightarrow> gostring \<Rightarrow> gostring" where
  "encodeRealmFillCursor createdAt i = (if createdAt = [] \<or> i = [] then [] else createdAt @ ''|'' @ i)"

record RealmFillUpdate =
  ru_Fill :: Fill
  ru_Cursor :: gostring
  ru_Replayed :: bool

text \<open>What closing releases.\<close>

datatype fills_release = Unlisten_Fills | Unlisten_Gap | Unlisten_Auth | Unsubscribe_Fills | Stop_Replay

type_synonym fills_base = "(RealmFillUpdate, fills_release) WatchStream"
type_synonym fills_effect = "(RealmFillUpdate, fills_release) effect"

text \<open>
  Where the replay goroutine is: not started; waiting for a request; about to read the page after a cursor, with
  its backoff in nanoseconds; sleeping after an error; delivering a page, with the cursor to read from next and whether the page was full;
  returned.
\<close>

datatype replay_pc =
    Not_Spawned
  | Waiting
  | Fetching gostring int
  | Backing_Off gostring int
  | Delivering gostring "Fill list" bool
  | Returned

record RealmFillWatchStream =
  rf_base :: fills_base
  rf_started :: bool
  rf_cursor :: gostring
  rf_replaying :: bool
  rf_replayQueued :: bool
  rf_seen :: "gostring set"
  rf_seenOrder :: "gostring list"
  rf_replayCh :: bool
  rf_stopped :: bool
  rf_pc :: replay_pc

definition fillFromRecordedEvent :: "gostring \<Rightarrow> SimFill \<Rightarrow> Fill" where
  "fillFromRecordedEvent entityID sf =
     \<lparr>fl_ID = sf_ID sf, fl_OperationID = sf_OperationID sf, fl_FillID = sf_FillID sf, fl_ObjectID = entityID,
      fl_OrderOperationID = sf_OrderOperationID sf, fl_OrderID = sf_OrderID sf, fl_Market = sf_Market sf,
      fl_Side = sf_Side sf, fl_Size = sf_Size sf, fl_Price = sf_Price sf, fl_Direction = sf_Direction sf,
      fl_StartPosition = sf_StartPosition sf, fl_Fee = sf_Fee sf, fl_ExchangeFee = sf_ExchangeFee sf,
      fl_PlatformFee = sf_PlatformFee sf, fl_BuilderFee = sf_BuilderFee sf,
      fl_RealizedPnl = (case sf_RealizedPnl sf of Some p \<Rightarrow> p | None \<Rightarrow> []),
      fl_ResultingPosition = sf_ResultingPosition sf, fl_IsLiquidation = sf_IsLiquidation sf,
      fl_CreatedAt = sf_CreatedAt sf, fl_IsOptimistic = False, fl_IsTrigger = sf_IsTrigger sf, fl_Tpsl = sf_Tpsl sf,
      fl_TriggerPx = sf_TriggerPx sf, fl_LiquidationKind = sf_LiquidationKind sf\<rparr>"

text \<open>\<^verbatim>\<open>deliver\<close>: deduplicate, advance the cursor, emit.\<close>

definition remember :: "gostring \<Rightarrow> RealmFillWatchStream \<Rightarrow> RealmFillWatchStream" where
  "remember i s =
     (if i \<in> rf_seen s then s
      else (let order = rf_seenOrder s @ [i]; seen = insert i (rf_seen s) in
            if length order > realmFillsDedupeWindow
            then s\<lparr>rf_seen := seen - {hd order}, rf_seenOrder := tl order\<rparr>
            else s\<lparr>rf_seen := seen, rf_seenOrder := order\<rparr>))"

definition deliver :: "Fill \<Rightarrow> gostring \<Rightarrow> bool \<Rightarrow> RealmFillWatchStream \<Rightarrow> RealmFillWatchStream \<times> fills_effect list" where
  "deliver f cursor replayed s =
     (let dup = fl_ID f \<in> rf_seen s;
          s1 = remember (fl_ID f) s;
          s2 = (if cursor \<noteq> [] \<and> (replayed \<or> (\<not> rf_replaying s \<and> \<not> rf_replayQueued s)) then s1\<lparr>rf_cursor := cursor\<rparr> else s1) in
      if dup then (s2, [])
      else (case emit \<lparr>ru_Fill = f, ru_Cursor = rf_cursor s2, ru_Replayed = replayed\<rparr> (rf_base s2) of
              (b, es) \<Rightarrow> (s2\<lparr>rf_base := b\<rparr>, es)))"

definition scheduleReplay :: "RealmFillWatchStream \<Rightarrow> RealmFillWatchStream" where
  "scheduleReplay s = s\<lparr>rf_replayQueued := True, rf_replayCh := True\<rparr>"

definition start :: "RealmFillWatchStream \<Rightarrow> RealmFillWatchStream" where
  "start s = (if rf_started s then s else scheduleReplay (s\<lparr>rf_started := True, rf_pc := Waiting\<rparr>))"

definition fills_OnUpdate :: "RealmFillWatchStream \<Rightarrow> nat \<times> RealmFillWatchStream" where
  "fills_OnUpdate s = (case OnUpdate (rf_base s) of (i, b) \<Rightarrow> (i, start (s\<lparr>rf_base := b\<rparr>)))"

definition fills_Updates :: "RealmFillWatchStream \<Rightarrow> RealmFillWatchStream" where
  "fills_Updates s = start s"

definition onLiveFill :: "RealmEvent \<Rightarrow> RealmFillWatchStream \<Rightarrow> RealmFillWatchStream \<times> fills_effect list" where
  "onLiveFill ev s =
     (if \<not> rf_started s then (s, [])
      else (case re_Fill ev of
              None \<Rightarrow> (s, [])
            | Some sf \<Rightarrow>
                if sf_ID sf = [] then (s, [])
                else (let f = fillFromRecordedEvent (re_EntityID ev) sf in
                      deliver f (encodeRealmFillCursor (fl_CreatedAt f) (fl_ID f)) False s)))"

text \<open>Opening: without a cursor the head of the log is read first.\<close>

definition fills_releases :: "fills_release list" where
  "fills_releases = [Unlisten_Fills, Unlisten_Gap, Unlisten_Auth, Unsubscribe_Fills, Stop_Replay]"

definition WatchRealmFills :: "gostring \<Rightarrow> error + Fill list \<Rightarrow> error + RealmFillWatchStream" where
  "WatchRealmFills fromCursor head_page =
     (let s = \<lparr>rf_base = newWatchStream\<lparr>wt_unsubs := fills_releases\<rparr>, rf_started = False, rf_cursor = fromCursor,
               rf_replaying = False, rf_replayQueued = False, rf_seen = {}, rf_seenOrder = [], rf_replayCh = False,
               rf_stopped = False, rf_pc = Not_Spawned\<rparr> in
      if fromCursor = [] then
        (case head_page of
           Inl e \<Rightarrow> Inl e
         | Inr [] \<Rightarrow> Inr s
         | Inr (f # fs) \<Rightarrow> Inr (s\<lparr>rf_cursor := encodeRealmFillCursor (fl_CreatedAt f) (fl_ID f)\<rparr>))
      else Inr s)"

definition fills_Close :: "RealmFillWatchStream \<Rightarrow> RealmFillWatchStream \<times> fills_effect list" where
  "fills_Close s =
     (case Close (rf_base s) of
        (b, es) \<Rightarrow> (s\<lparr>rf_base := b, rf_stopped := rf_stopped s \<or> Release Stop_Replay \<in> set es\<rparr>, es))"

section \<open>The replay goroutine\<close>


definition begin_run :: "RealmFillWatchStream \<Rightarrow> RealmFillWatchStream" where
  "begin_run s = s\<lparr>rf_replayQueued := False, rf_replaying := True, rf_pc := Fetching (rf_cursor s) second\<rparr>"

definition end_run :: "gostring \<Rightarrow> RealmFillWatchStream \<Rightarrow> RealmFillWatchStream" where
  "end_run local s =
     (let s1 = s\<lparr>rf_cursor := (if local \<noteq> [] then local else rf_cursor s), rf_replaying := False\<rparr> in
      if rf_replayQueued s \<and> \<not> wt_closed (rf_base s) then begin_run s1 else s1\<lparr>rf_pc := Waiting\<rparr>)"

text \<open>The select of \<^verbatim>\<open>replayLoop\<close>: a request, or the stop.\<close>

definition take_request :: "RealmFillWatchStream \<Rightarrow> RealmFillWatchStream" where
  "take_request s = (if rf_pc s = Waiting \<and> rf_replayCh s then begin_run (s\<lparr>rf_replayCh := False\<rparr>) else s)"

definition take_stop :: "RealmFillWatchStream \<Rightarrow> RealmFillWatchStream" where
  "take_stop s = (if rf_pc s = Waiting \<and> rf_stopped s then s\<lparr>rf_pc := Returned\<rparr> else s)"

definition next_page_backoff :: "int \<Rightarrow> int" where
  "next_page_backoff b = (if b * 2 > 30 * second then 30 * second else b * 2)"

text \<open>
  One turn of the page loop: it ends when the stream is closed; an error backs off, where a stop makes
  it return; a page is delivered row by row.
\<close>

definition page_turn :: "error + Fill list \<times> gostring \<Rightarrow> RealmFillWatchStream \<Rightarrow> RealmFillWatchStream \<times> fills_effect list" where
  "page_turn reply s =
     (case rf_pc s of
        Fetching local backoff \<Rightarrow>
          if wt_closed (rf_base s) then (end_run local s, [])
          else (case reply of
                  Inl e \<Rightarrow>
                    (case setState WatchReconnecting (rf_base s) of
                       (b, es) \<Rightarrow> (s\<lparr>rf_base := b, rf_pc := Backing_Off local backoff\<rparr>, es))
                | Inr (fills, cursor) \<Rightarrow>
                    (s\<lparr>rf_pc := Delivering (if cursor \<noteq> [] then cursor else local) fills
                                  (length fills \<ge> realmFillsPageLimit)\<rparr>, []))
      | _ \<Rightarrow> (s, []))"

definition wake :: "RealmFillWatchStream \<Rightarrow> RealmFillWatchStream" where
  "wake s = (case rf_pc s of Backing_Off local b \<Rightarrow> s\<lparr>rf_pc := Fetching local (next_page_backoff b)\<rparr> | _ \<Rightarrow> s)"

definition stop_in_backoff :: "RealmFillWatchStream \<Rightarrow> RealmFillWatchStream" where
  "stop_in_backoff s =
     (case rf_pc s of Backing_Off local b \<Rightarrow> if rf_stopped s then s\<lparr>rf_pc := Returned\<rparr> else s | _ \<Rightarrow> s)"

definition deliver_next :: "RealmFillWatchStream \<Rightarrow> RealmFillWatchStream \<times> fills_effect list" where
  "deliver_next s =
     (case rf_pc s of
        Delivering local (f # fs) full \<Rightarrow>
          (case deliver f (encodeRealmFillCursor (fl_CreatedAt f) (fl_ID f)) True s of
             (s1, es) \<Rightarrow> (s1\<lparr>rf_pc := Delivering local fs full\<rparr>, es))
      | Delivering local [] full \<Rightarrow>
          (if full then (s\<lparr>rf_pc := Fetching local second\<rparr>, []) else (end_run local s, []))
      | _ \<Rightarrow> (s, []))"

section \<open>The world around it\<close>

text \<open>
  A row of the durable log: its position, which is the cursor a client mints from a fill, and the fill if it is
  one.  The wire holds the events of recorded fills in log order; an event may lack the creation time.
\<close>

record row =
  rw_pos :: gostring
  rw_fill :: "Fill option"

definition row_fills :: "row list \<Rightarrow> Fill list" where
  "row_fills rows = concat (map (\<lambda>r. case rw_fill r of Some f \<Rightarrow> [f] | None \<Rightarrow> []) rows)"

definition row_ids :: "row list \<Rightarrow> gostring set" where
  "row_ids rows = fl_ID ` set (row_fills rows)"

definition row_ok :: "row \<Rightarrow> bool" where
  "row_ok r \<longleftrightarrow> rw_pos r \<noteq> []
     \<and> (\<forall>f. rw_fill r = Some f \<longrightarrow> fl_ID f \<noteq> [] \<and> rw_pos r = encodeRealmFillCursor (fl_CreatedAt f) (fl_ID f))"

definition log_ok :: "row list \<Rightarrow> bool" where
  "log_ok rows \<longleftrightarrow> list_all row_ok rows \<and> distinct (map rw_pos rows) \<and> distinct (map fl_ID (row_fills rows))"

fun rows_past :: "gostring \<Rightarrow> row list \<Rightarrow> row list" where
  "rows_past c [] = []"
| "rows_past c (r # rs) = (if rw_pos r = c then rs else rows_past c rs)"

definition rows_after :: "gostring \<Rightarrow> row list \<Rightarrow> row list" where
  "rows_after c rows = (if c = [] then rows else rows_past c rows)"

text \<open>
  What an ascending read returns: the rows after the cursor as far as the server scanned, with the position it
  reached; fewer fills than the limit only at the head of the log.
\<close>

definition page_of :: "row list \<Rightarrow> gostring \<Rightarrow> nat \<Rightarrow> Fill list \<times> gostring \<Rightarrow> bool" where
  "page_of rows local k reply \<longleftrightarrow>
     (let scanned = take k (rows_after local rows) in
      fst reply = row_fills scanned
      \<and> snd reply = (if scanned = [] then local else rw_pos (last scanned))
      \<and> (length (fst reply) < realmFillsPageLimit \<longrightarrow> length (rows_after local rows) \<le> k))"

definition event_of :: "Fill \<Rightarrow> RealmEvent \<Rightarrow> bool" where
  "event_of f ev \<longleftrightarrow>
     (\<exists>sf. re_Fill ev = Some sf \<and> sf_ID sf = fl_ID f \<and> (sf_CreatedAt sf = [] \<or> sf_CreatedAt sf = fl_CreatedAt f))"

record fills_world =
  fw_log :: "row list"
  fw_wire :: "RealmEvent list"
  fw_lost :: bool
  fw_stream :: RealmFillWatchStream
  fw_effects :: "fills_effect list"

definition apply_stream ::
    "RealmFillWatchStream \<times> fills_effect list \<Rightarrow> fills_world \<Rightarrow> fills_world" where
  "apply_stream r w = w\<lparr>fw_stream := fst r, fw_effects := fw_effects w @ snd r\<rparr>"

text \<open>
  The steps.  A recorded fill's event goes on the wire, or is missing from it while the stream has no consumer; a
  lost frame is reported (by a gap, a resync marker or a new authentication) before the next frame is
  delivered, since all are handled by the connection's one reader.
\<close>

inductive fills_step :: "fills_world \<Rightarrow> fills_world \<Rightarrow> bool" where
  record_row:
    "log_ok (fw_log w @ [r]) \<Longrightarrow> rw_fill r = None \<Longrightarrow> fills_step w (w\<lparr>fw_log := fw_log w @ [r]\<rparr>)"
| record_fill:
    "log_ok (fw_log w @ [r]) \<Longrightarrow> rw_fill r = Some f \<Longrightarrow> event_of f ev \<Longrightarrow>
     fills_step w (w\<lparr>fw_log := fw_log w @ [r], fw_wire := fw_wire w @ [ev]\<rparr>)"
| record_unpushed:
    "log_ok (fw_log w @ [r]) \<Longrightarrow> \<not> rf_started (fw_stream w) \<Longrightarrow> fills_step w (w\<lparr>fw_log := fw_log w @ [r]\<rparr>)"
| lose_frame:
    "fw_wire w = ev # evs \<Longrightarrow> fills_step w (w\<lparr>fw_wire := evs, fw_lost := True\<rparr>)"
| report_loss:
    "fills_step w (w\<lparr>fw_lost := False, fw_stream := scheduleReplay (fw_stream w)\<rparr>)"
| live_frame:
    "fw_wire w = ev # evs \<Longrightarrow> \<not> fw_lost w \<Longrightarrow>
     fills_step w (apply_stream (onLiveFill ev (fw_stream w)) (w\<lparr>fw_wire := evs\<rparr>))"
| attach:
    "fills_step w (w\<lparr>fw_stream := snd (fills_OnUpdate (fw_stream w))\<rparr>)"
| read_channel:
    "fills_step w (w\<lparr>fw_stream := (fw_stream w)\<lparr>rf_base := snd (recv (rf_base (fw_stream w)))\<rparr>\<rparr>)"
| request:
    "fills_step w (w\<lparr>fw_stream := take_request (fw_stream w)\<rparr>)"
| page:
    "rf_pc (fw_stream w) = Fetching local b \<Longrightarrow> page_of (fw_log w) local k reply \<Longrightarrow>
     fills_step w (apply_stream (page_turn (Inr reply) (fw_stream w)) w)"
| page_error:
    "fills_step w (apply_stream (page_turn (Inl e) (fw_stream w)) w)"
| backoff_over:
    "fills_step w (w\<lparr>fw_stream := wake (fw_stream w)\<rparr>)"
| backoff_stop:
    "fills_step w (w\<lparr>fw_stream := stop_in_backoff (fw_stream w)\<rparr>)"
| stop:
    "fills_step w (w\<lparr>fw_stream := take_stop (fw_stream w)\<rparr>)"
| deliver_row:
    "fills_step w (apply_stream (deliver_next (fw_stream w)) w)"
| close:
    "fills_step w (apply_stream (fills_Close (fw_stream w)) w)"

inductive fills_reaches :: "fills_world \<Rightarrow> fills_world \<Rightarrow> bool" for w where
  refl: "fills_reaches w w"
| step: "fills_reaches w u \<Longrightarrow> fills_step u v \<Longrightarrow> fills_reaches w v"

text \<open>A stream just opened: no frames yet, its cursor nothing or a position of the log.\<close>

definition opened :: "gostring \<Rightarrow> fills_world \<Rightarrow> bool" where
  "opened c w \<longleftrightarrow>
     log_ok (fw_log w) \<and> fw_wire w = [] \<and> \<not> fw_lost w \<and> fw_effects w = []
     \<and> (c = [] \<or> c \<in> rw_pos ` set (fw_log w))
     \<and> (\<exists>fromCursor page. WatchRealmFills fromCursor (Inr page) = Inr (fw_stream w) \<and> rf_cursor (fw_stream w) = c)"

section \<open>Rows after a position\<close>

lemma row_fills_simps [simp]:
  "row_fills [] = []" "row_fills (xs @ ys) = row_fills xs @ row_fills ys"
  "row_fills (r # rs) = (case rw_fill r of Some f \<Rightarrow> f # row_fills rs | None \<Rightarrow> row_fills rs)"
  by (simp_all add: row_fills_def split: option.split)

lemma row_ids_simps [simp]: "row_ids [] = {}" "row_ids (xs @ ys) = row_ids xs \<union> row_ids ys"
  by (auto simp: row_ids_def)

definition position :: "row list \<Rightarrow> gostring \<Rightarrow> bool" where
  "position rows c \<longleftrightarrow> c = [] \<or> c \<in> rw_pos ` set rows"

lemma position_snoc: "position rows c \<Longrightarrow> position (rows @ xs) c"
  by (auto simp: position_def)

lemma rows_past_append: "c \<in> rw_pos ` set rows \<Longrightarrow> rows_past c (rows @ xs) = rows_past c rows @ xs"
  by (induction rows) auto

lemma rows_after_append: "position rows c \<Longrightarrow> rows_after c (rows @ xs) = rows_after c rows @ xs"
  by (auto simp: position_def rows_after_def rows_past_append)

lemma rows_past_split: "distinct (map rw_pos (xs @ r # ys)) \<Longrightarrow> rows_past (rw_pos r) (xs @ r # ys) = ys"
  by (induction xs) auto

lemma rows_past_suffix: "c \<in> rw_pos ` set rows \<Longrightarrow> suffix (rows_past c rows) rows"
  by (induction rows) (auto simp: suffix_ConsI)

lemma rows_after_suffix: "position rows c \<Longrightarrow> suffix (rows_after c rows) rows"
  by (auto simp: position_def rows_after_def rows_past_suffix)

text \<open>Scanning some rows after a position reaches the position of the last of them.\<close>

lemma rows_after_scanned:
  assumes "log_ok rows" "position rows c" "rows_after c rows = xs @ r # ys"
  shows "rows_after (rw_pos r) rows = ys" "position rows (rw_pos r)"
proof -
  obtain zs where z: "rows = zs @ xs @ r # ys" using rows_after_suffix [OF assms(2)] assms(3) by (auto simp: suffix_def)
  then have "rows_past (rw_pos r) ((zs @ xs) @ r # ys) = ys"
    using assms(1) by (intro rows_past_split) (simp add: log_ok_def)
  then show "rows_after (rw_pos r) rows = ys" using z assms(1) by (simp add: rows_after_def log_ok_def row_ok_def)
  show "position rows (rw_pos r)" using z by (simp add: position_def)
qed

section \<open>The invariant\<close>

definition ev_id :: "RealmEvent \<Rightarrow> gostring" where
  "ev_id ev = (case re_Fill ev of Some sf \<Rightarrow> sf_ID sf | None \<Rightarrow> [])"

definition update_ids :: "RealmFillUpdate list \<Rightarrow> gostring set" where
  "update_ids us = (fl_ID \<circ> ru_Fill) ` set us"

lemma update_ids_simps [simp]:
  "update_ids [] = {}" "update_ids (us @ vs) = update_ids us \<union> update_ids vs" "update_ids (u # us) = insert (fl_ID (ru_Fill u)) (update_ids us)"
  by (auto simp: update_ids_def)

text \<open>Every fill recorded after \<^verbatim>\<open>c\<close> is in a set.\<close>

definition covers :: "gostring \<Rightarrow> row list \<Rightarrow> gostring set \<Rightarrow> bool" where
  "covers c rows ids \<longleftrightarrow> row_ids (rows_after c rows) \<subseteq> ids"

text \<open>What a consumer that stores the cursor of its latest update relies on.\<close>

definition trace_ok :: "gostring \<Rightarrow> row list \<Rightarrow> RealmFillUpdate list \<Rightarrow> bool" where
  "trace_ok c rows us \<longleftrightarrow>
     (\<forall>past u future. us = past @ u # future \<longrightarrow>
        position rows (ru_Cursor u) \<and> covers c rows (update_ids (past @ [u]) \<union> row_ids (rows_after (ru_Cursor u) rows)))"

fun wire_ok :: "row list \<Rightarrow> RealmEvent list \<Rightarrow> bool" where
  "wire_ok rows [] = True"
| "wire_ok rows (ev # evs) =
     ((\<exists>r\<in>set rows. \<exists>f. rw_fill r = Some f \<and> event_of f ev
         \<and> ev_id ` set evs \<subseteq> row_ids (rows_after (rw_pos r) rows)) \<and> wire_ok rows evs)"

definition cursor_of :: "Fill \<Rightarrow> gostring" where
  "cursor_of f = encodeRealmFillCursor (fl_CreatedAt f) (fl_ID f)"

fun rest_ok :: "row list \<Rightarrow> gostring \<Rightarrow> Fill list \<Rightarrow> bool" where
  "rest_ok rows local [] = True"
| "rest_ok rows local (f # fs) =
     (cursor_of f \<noteq> [] \<and> position rows (cursor_of f)
      \<and> fl_ID ` set fs \<union> row_ids (rows_after local rows) \<subseteq> row_ids (rows_after (cursor_of f) rows)
      \<and> rest_ok rows local fs)"

lemma covers_snoc:
  "position rows c \<Longrightarrow> covers c rows X \<Longrightarrow> row_ids xs \<subseteq> Y \<Longrightarrow> X \<subseteq> Y \<Longrightarrow> covers c (rows @ xs) Y"
  by (auto simp: covers_def rows_after_append)

lemma covers_mono: "covers c rows X \<Longrightarrow> X \<subseteq> Y \<Longrightarrow> covers c rows Y" by (auto simp: covers_def)

lemma trace_ok_snoc_row:
  assumes "position rows c" "trace_ok c rows us"
  shows "trace_ok c (rows @ xs) us"
  unfolding trace_ok_def
proof (intro allI impI)
  fix past u future assume "us = past @ u # future"
  then have p: "position rows (ru_Cursor u)" and c: "covers c rows (update_ids (past @ [u]) \<union> row_ids (rows_after (ru_Cursor u) rows))"
    using assms(2) by (auto simp: trace_ok_def)
  have "covers c (rows @ xs) (update_ids (past @ [u]) \<union> row_ids (rows_after (ru_Cursor u) (rows @ xs)))"
    by (rule covers_snoc [OF assms(1) c]) (auto simp: rows_after_append [OF p])
  then show "position (rows @ xs) (ru_Cursor u) \<and> covers c (rows @ xs) (update_ids (past @ [u]) \<union> row_ids (rows_after (ru_Cursor u) (rows @ xs)))"
    using position_snoc [OF p] by blast
qed

lemma trace_ok_snoc:
  assumes "trace_ok c rows us" "position rows (ru_Cursor u)"
    "covers c rows (update_ids us \<union> {fl_ID (ru_Fill u)} \<union> row_ids (rows_after (ru_Cursor u) rows))"
  shows "trace_ok c rows (us @ [u])"
  unfolding trace_ok_def
proof (intro allI impI)
  fix past v future assume e: "us @ [u] = past @ v # future"
  show "position rows (ru_Cursor v) \<and> covers c rows (update_ids (past @ [v]) \<union> row_ids (rows_after (ru_Cursor v) rows))"
  proof (cases future rule: rev_cases)
    case Nil
    then show ?thesis using e assms(2,3) by (auto simp: Un_ac)
  next
    case (snoc ys y)
    then have "us = past @ v # ys" using e by (metis append_Cons append_assoc butlast_snoc)
    then show ?thesis using assms(1) unfolding trace_ok_def by blast
  qed
qed

lemma wire_ok_snoc_row: "list_all row_ok rows \<Longrightarrow> wire_ok rows evs \<Longrightarrow> wire_ok (rows @ [r]) evs"
proof (induction evs)
  case (Cons ev evs)
  then obtain q f where q: "q \<in> set rows" "rw_fill q = Some f" "event_of f ev" "ev_id ` set evs \<subseteq> row_ids (rows_after (rw_pos q) rows)"
    by auto
  then have "ev_id ` set evs \<subseteq> row_ids (rows_after (rw_pos q) (rows @ [r]))"
    using rows_after_append [of rows "rw_pos q" "[r]"] by (auto simp: position_def)
  then show ?case using Cons q by auto
qed simp

lemma wire_ok_push:
  assumes "log_ok (rows @ [r])" "rw_fill r = Some f" "event_of f ev" "wire_ok rows evs"
  shows "wire_ok (rows @ [r]) (evs @ [ev])"
  using assms(4)
proof (induction evs)
  case Nil
  then show ?case using assms by auto
next
  case (Cons e evs)
  then obtain q g where q: "q \<in> set rows" "rw_fill q = Some g" "event_of g e" "ev_id ` set evs \<subseteq> row_ids (rows_after (rw_pos q) rows)"
    by auto
  have "ev_id ev = fl_ID f" using assms(3) by (auto simp: event_of_def ev_id_def)
  then have "ev_id ` set (evs @ [ev]) \<subseteq> row_ids (rows_after (rw_pos q) (rows @ [r]))"
    using rows_after_append [of rows "rw_pos q" "[r]"] q(1,4) assms(2) by (auto simp: position_def row_ids_def)
  then show ?case using Cons q by auto
qed

lemma rest_ok_snoc_row: "position rows local \<Longrightarrow> rest_ok rows local fs \<Longrightarrow> rest_ok (rows @ xs) local fs"
  by (induction fs) (auto simp: rows_after_append position_snoc)

text \<open>An open stream that has given its first callback the updates \<^verbatim>\<open>us\<close>.\<close>

definition pc_ok :: "gostring \<Rightarrow> row list \<Rightarrow> gostring set \<Rightarrow> gostring set \<Rightarrow> bool \<Rightarrow> RealmFillWatchStream \<Rightarrow> bool" where
  "pc_ok c rows given wired lost s =
     (case rf_pc s of
        Not_Spawned \<Rightarrow> \<not> rf_started s \<and> \<not> rf_replaying s
      | Waiting \<Rightarrow> rf_started s \<and> \<not> rf_replaying s \<and> (rf_replayQueued s \<longrightarrow> rf_replayCh s)
          \<and> (\<not> rf_replayQueued s \<and> \<not> lost \<longrightarrow> covers c rows (given \<union> wired))
      | Fetching local b \<Rightarrow> rf_started s \<and> rf_replaying s \<and> position rows local
          \<and> covers c rows (given \<union> row_ids (rows_after local rows))
      | Backing_Off local b \<Rightarrow> rf_started s \<and> rf_replaying s \<and> position rows local
          \<and> covers c rows (given \<union> row_ids (rows_after local rows))
      | Delivering local rest full \<Rightarrow> rf_started s \<and> rf_replaying s \<and> position rows local \<and> rest_ok rows local rest
          \<and> covers c rows (given \<union> fl_ID ` set rest \<union> row_ids (rows_after local rows))
          \<and> (\<not> full \<and> \<not> rf_replayQueued s \<and> \<not> lost \<longrightarrow> covers c rows (given \<union> fl_ID ` set rest \<union> wired))
      | Returned \<Rightarrow> False)"

definition callback_ok :: "RealmFillWatchStream \<Rightarrow> bool" where
  "callback_ok s \<longleftrightarrow>
     distinct (wt_updateCbs (rf_base s)) \<and> (\<forall>i\<in>set (wt_updateCbs (rf_base s)). i < wt_nextID (rf_base s))
     \<and> (if rf_started s then 0 \<in> set (wt_updateCbs (rf_base s))
        else wt_nextID (rf_base s) = 0)"

definition stream_ok :: "gostring \<Rightarrow> row list \<Rightarrow> gostring set \<Rightarrow> gostring set \<Rightarrow> bool \<Rightarrow> RealmFillWatchStream \<Rightarrow> bool" where
  "stream_ok c rows given wired lost s \<longleftrightarrow>
     callback_ok s \<and> \<not> rf_stopped s \<and> rf_seen s \<subseteq> given \<and> position rows (rf_cursor s)
     \<and> covers c rows (given \<union> row_ids (rows_after (rf_cursor s) rows)) \<and> pc_ok c rows given wired lost s"

definition world_ok :: "gostring \<Rightarrow> fills_world \<Rightarrow> bool" where
  "world_ok c w \<longleftrightarrow>
     log_ok (fw_log w) \<and> position (fw_log w) c \<and> wire_ok (fw_log w) (fw_wire w)
     \<and> trace_ok c (fw_log w) (updates_to 0 (fw_effects w))
     \<and> (wt_closed (rf_base (fw_stream w)) \<or>
          stream_ok c (fw_log w) (update_ids (updates_to 0 (fw_effects w))) (ev_id ` set (fw_wire w)) (fw_lost w) (fw_stream w))"

section \<open>Deliveries keep it\<close>

lemma remember_frame [simp]:
  "rf_base (remember i s) = rf_base s" "rf_started (remember i s) = rf_started s" "rf_cursor (remember i s) = rf_cursor s"
  "rf_replaying (remember i s) = rf_replaying s" "rf_replayQueued (remember i s) = rf_replayQueued s"
  "rf_replayCh (remember i s) = rf_replayCh s" "rf_stopped (remember i s) = rf_stopped s" "rf_pc (remember i s) = rf_pc s"
  by (simp_all add: remember_def Let_def)

lemma remember_seen: "rf_seen (remember i s) \<subseteq> insert i (rf_seen s)"
  by (auto simp: remember_def Let_def)

text \<open>The cursor after a delivery.\<close>

definition advanced :: "gostring \<Rightarrow> bool \<Rightarrow> RealmFillWatchStream \<Rightarrow> gostring" where
  "advanced cursor replayed s =
     (if cursor \<noteq> [] \<and> (replayed \<or> (\<not> rf_replaying s \<and> \<not> rf_replayQueued s)) then cursor else rf_cursor s)"

lemma emit_open:
  assumes "\<not> wt_closed b" "distinct (wt_updateCbs b)" "0 \<in> set (wt_updateCbs b)"
  shows "updates_to 0 (snd (emit u b)) = [u]" "\<not> wt_closed (fst (emit u b))"
    "wt_updateCbs (fst (emit u b)) = wt_updateCbs b" "wt_nextID (fst (emit u b)) = wt_nextID b"
  using assms by (simp_all add: emit_def publish_def Let_def updates_to_all)

lemma emit_closed: "wt_closed b \<Longrightarrow> emit u b = (b, [])"
  by (simp add: emit_def publish_def)

lemma deliver_open:
  fixes f cursor replayed
  assumes o: "\<not> wt_closed (rf_base s)" and st: "rf_started s" and cb: "callback_ok s" and seen: "rf_seen s \<subseteq> given"
  defines "r \<equiv> deliver f cursor replayed s"
  shows "callback_ok (fst r)" "\<not> wt_closed (rf_base (fst r))" "rf_seen (fst r) \<subseteq> insert (fl_ID f) given"
    "rf_cursor (fst r) = advanced cursor replayed s"
    "rf_started (fst r)" "rf_replaying (fst r) = rf_replaying s" "rf_replayQueued (fst r) = rf_replayQueued s"
    "rf_replayCh (fst r) = rf_replayCh s" "rf_pc (fst r) = rf_pc s" "rf_stopped (fst r) = rf_stopped s"
    "if fl_ID f \<in> rf_seen s then updates_to 0 (snd r) = []
     else updates_to 0 (snd r) = [\<lparr>ru_Fill = f, ru_Cursor = advanced cursor replayed s, ru_Replayed = replayed\<rparr>]"
proof -
  have d: "distinct (wt_updateCbs (rf_base s))" "0 \<in> set (wt_updateCbs (rf_base s))"
    using cb st by (auto simp: callback_ok_def)
  note e = emit_open [OF o d]
  have sub: "rf_seen (remember (fl_ID f) s) \<subseteq> insert (fl_ID f) given" using remember_seen [of "fl_ID f" s] seen by blast
  show "callback_ok (fst r)" "\<not> wt_closed (rf_base (fst r))" "rf_started (fst r)"
    "rf_cursor (fst r) = advanced cursor replayed s" "rf_replaying (fst r) = rf_replaying s" "rf_replayQueued (fst r) = rf_replayQueued s"
    "rf_replayCh (fst r) = rf_replayCh s" "rf_pc (fst r) = rf_pc s" "rf_stopped (fst r) = rf_stopped s"
    using o st cb e by (auto simp: r_def deliver_def Let_def advanced_def callback_ok_def case_prod_beta)
  show "rf_seen (fst r) \<subseteq> insert (fl_ID f) given"
    using sub by (auto simp: r_def deliver_def Let_def case_prod_beta)
  show "if fl_ID f \<in> rf_seen s then updates_to 0 (snd r) = []
     else updates_to 0 (snd r) = [\<lparr>ru_Fill = f, ru_Cursor = advanced cursor replayed s, ru_Replayed = replayed\<rparr>]"
    using e(1) by (auto simp: r_def deliver_def Let_def advanced_def case_prod_beta)
qed

lemma deliver_closed:
  assumes "wt_closed (rf_base s)"
  shows "wt_closed (rf_base (fst (deliver f c b s)))" "snd (deliver f c b s) = []"
  using assms by (simp_all add: deliver_def Let_def emit_closed)

text \<open>A delivery of a fill all of whose predecessors were given.\<close>

lemma deliver_trace:
  assumes ok: "\<not> wt_closed (rf_base s)" "rf_started s" "callback_ok s" "rf_seen s \<subseteq> update_ids us"
    and t: "trace_ok c rows us" and p: "position rows (advanced cursor replayed s)"
    and cov: "covers c rows (insert (fl_ID f) (update_ids us) \<union> row_ids (rows_after (advanced cursor replayed s) rows))"
  defines "r \<equiv> deliver f cursor replayed s"
  defines "us' \<equiv> us @ updates_to 0 (snd r)"
  shows "trace_ok c rows us'" "update_ids us' = insert (fl_ID f) (update_ids us)" "rf_seen (fst r) \<subseteq> update_ids us'"
proof -
  note d = deliver_open [OF ok, where f = f and cursor = cursor and replayed = replayed, folded r_def]
  show ids: "update_ids us' = insert (fl_ID f) (update_ids us)"
    using d(11) ok(4) by (auto simp: us'_def split: if_splits)
  show "rf_seen (fst r) \<subseteq> update_ids us'" using d(3) ids by simp
  show "trace_ok c rows us'"
  proof (cases "fl_ID f \<in> rf_seen s")
    case True
    then show ?thesis using d(11) t by (simp add: us'_def)
  next
    case False
    then show ?thesis using d(11) trace_ok_snoc [OF t, of "\<lparr>ru_Fill = f, ru_Cursor = advanced cursor replayed s, ru_Replayed = replayed\<rparr>"] p cov
      by (simp add: us'_def)
  qed
qed

lemma covers_after_snoc:
  assumes "position rows c" "position rows local" "covers c rows (X \<union> row_ids (rows_after local rows))"
  shows "covers c (rows @ xs) (X \<union> row_ids (rows_after local (rows @ xs)))"
  by (rule covers_snoc [OF assms(1,3)]) (auto simp: rows_after_append [OF assms(2)])

lemma stream_ok_grow:
  assumes p: "position rows c" and s: "stream_ok c rows given wired lost s"
    and w: "wired \<subseteq> wired'" "rf_started s \<Longrightarrow> row_ids [r] \<subseteq> wired'"
  shows "stream_ok c (rows @ [r]) given wired' lost s"
proof -
  have c: "covers c (rows @ [r]) (given \<union> row_ids (rows_after (rf_cursor s) (rows @ [r])))"
    using s covers_after_snoc [OF p] by (auto simp: stream_ok_def)
  have grow: "covers c rows (X \<union> wired) \<Longrightarrow> rf_started s \<Longrightarrow> covers c (rows @ [r]) (X \<union> wired')" for X
    using w by (auto elim!: covers_snoc [OF p])
  have "pc_ok c (rows @ [r]) given wired' lost s"
    using s grow [of given] grow [of "given \<union> Y" for Y] covers_after_snoc [OF p]
    by (auto simp: stream_ok_def pc_ok_def position_snoc rest_ok_snoc_row split: replay_pc.splits)
  then show ?thesis using s c by (auto simp: stream_ok_def position_snoc)
qed

lemma stream_ok_lost: "stream_ok c rows given wired lost s \<Longrightarrow> stream_ok c rows given wired' True s"
  by (auto simp: stream_ok_def pc_ok_def split: replay_pc.splits)

lemma stream_ok_schedule: "stream_ok c rows given wired lost s \<Longrightarrow> stream_ok c rows given wired lost' (scheduleReplay s)"
  by (auto simp: stream_ok_def pc_ok_def callback_ok_def scheduleReplay_def split: replay_pc.splits)

lemma stream_ok_attach:
  assumes "stream_ok c rows given wired lost s"
  shows "stream_ok c rows given wired lost (snd (fills_OnUpdate s))"
  using assms
  by (auto simp: stream_ok_def pc_ok_def callback_ok_def fills_OnUpdate_def OnUpdate_def start_def scheduleReplay_def
      split: replay_pc.splits)

lemma stream_ok_begin:
  assumes "stream_ok c rows given wired lost s" "rf_started s"
  shows "stream_ok c rows given wired lost (begin_run s)"
  using assms by (auto simp: stream_ok_def pc_ok_def callback_ok_def begin_run_def)

lemma stream_ok_request: "stream_ok c rows given wired lost s \<Longrightarrow> stream_ok c rows given wired lost (take_request s)"
  using stream_ok_begin [of c rows given wired lost "s\<lparr>rf_replayCh := False\<rparr>"]
  by (auto simp: take_request_def) (auto simp: stream_ok_def pc_ok_def callback_ok_def begin_run_def)

text \<open>A page read at a moment of the log.\<close>

lemma page_of_scan:
  assumes l: "log_ok rows" and p: "position rows local" and g: "page_of rows local k (fills, cur)"
  shows "position rows cur" "row_ids (rows_after local rows) = fl_ID ` set fills \<union> row_ids (rows_after cur rows)"
    "rest_ok rows cur fills" "length fills < realmFillsPageLimit \<Longrightarrow> rows_after cur rows = []"
    "cur = [] \<Longrightarrow> local = []"
proof -
  let ?a = "rows_after local rows"
  define sc where "sc = take k ?a"
  have f: "fills = row_fills sc" and cu: "cur = (if sc = [] then local else rw_pos (last sc))"
    and small: "length fills < realmFillsPageLimit \<Longrightarrow> length ?a \<le> k"
    using g by (auto simp: page_of_def Let_def sc_def)
  have sp: "?a = sc @ drop k ?a" by (simp add: sc_def)
  have cur: "position rows cur \<and> rows_after cur rows = drop k ?a \<and> (cur = [] \<longrightarrow> local = [])"
  proof (cases sc rule: rev_cases)
    case Nil
    then show ?thesis using p cu sp by simp
  next
    case (snoc ys y)
    then have a: "?a = ys @ y # drop k ?a" using sp by simp
    have "y \<in> set ?a" by (subst a) simp
    then have "row_ok y" using l set_mono_suffix [OF rows_after_suffix [OF p]] by (auto simp: log_ok_def list_all_iff)
    then show ?thesis using rows_after_scanned [OF l p a] snoc cu by (simp add: row_ok_def)
  qed
  show "position rows cur" "cur = [] \<Longrightarrow> local = []" using cur by simp_all
  show "row_ids ?a = fl_ID ` set fills \<union> row_ids (rows_after cur rows)"
    by (subst sp) (simp add: cur f row_ids_def image_Un)
  show "length fills < realmFillsPageLimit \<Longrightarrow> rows_after cur rows = []" using small cur by simp
  have "\<And>xs. ?a = xs @ ys @ drop k ?a \<Longrightarrow> rest_ok rows cur (row_fills ys)" if "suffix ys sc" for ys
  proof (induction ys)
    case (Cons y ys)
    have a: "?a = xs @ y # (ys @ drop k ?a)" using Cons.prems by simp
    note scn = rows_after_scanned [OF l p a]
    have ih: "rest_ok rows cur (row_fills ys)" using Cons.IH [of "xs @ [y]"] a by simp
    have "y \<in> set ?a" by (subst a) simp
    then have y: "row_ok y" using l set_mono_suffix [OF rows_after_suffix [OF p]] by (auto simp: log_ok_def list_all_iff)
    show ?case
    proof (cases "rw_fill y")
      case (Some f)
      then have "cursor_of f = rw_pos y" "rw_pos y \<noteq> []" using y by (auto simp: row_ok_def cursor_of_def)
      then show ?thesis using Some ih scn cur by (auto simp: row_ids_def)
    qed (use ih in simp)
  qed simp
  from this [of sc "[]"] show "rest_ok rows cur fills" using sp f by simp
qed

lemma setState_frame:
  "wt_closed (fst (setState st b)) = wt_closed b" "wt_updateCbs (fst (setState st b)) = wt_updateCbs b"
  "wt_nextID (fst (setState st b)) = wt_nextID b" "updates_to i (snd (setState st b)) = []"
  by (simp_all add: setState_def)

lemma stream_ok_page:
  assumes l: "log_ok rows" and o: "\<not> wt_closed (rf_base s)" and s: "stream_ok c rows given wired lost s"
    and f: "rf_pc s = Fetching local b" and g: "page_of rows local k reply"
  shows "stream_ok c rows given wired lost (fst (page_turn (Inr reply) s))" "snd (page_turn (Inr reply) s) = []"
proof -
  obtain fills cur where r: "reply = (fills, cur)" by (cases reply)
  have p: "position rows local" and cov: "covers c rows (given \<union> row_ids (rows_after local rows))" and st: "rf_started s" "rf_replaying s"
    using s f by (auto simp: stream_ok_def pc_ok_def)
  note scan = page_of_scan [OF l p g [unfolded r]]
  have cur: "(if cur \<noteq> [] then cur else local) = cur"
    using scan(5) by auto
  have "fst (page_turn (Inr reply) s) = s\<lparr>rf_pc := Delivering cur fills (length fills \<ge> realmFillsPageLimit)\<rparr>"
    using f o cur by (simp add: page_turn_def r)
  then show "stream_ok c rows given wired lost (fst (page_turn (Inr reply) s))"
    using s scan cov st by (auto simp: stream_ok_def pc_ok_def callback_ok_def Un_assoc [symmetric] elim!: covers_mono)
  show "snd (page_turn (Inr reply) s) = []" using f o by (simp add: page_turn_def r)
qed

lemma stream_ok_page_error:
  assumes o: "\<not> wt_closed (rf_base s)" and s: "stream_ok c rows given wired lost s"
  shows "stream_ok c rows given wired lost (fst (page_turn (Inl e) s))" "updates_to 0 (snd (page_turn (Inl e) s)) = []"
    "\<not> wt_closed (rf_base (fst (page_turn (Inl e) s)))"
  using o s
  by (auto simp: page_turn_def setState_frame case_prod_beta stream_ok_def pc_ok_def callback_ok_def split: replay_pc.split)

lemma stream_ok_backoff:
  assumes "stream_ok c rows given wired lost s"
  shows "stream_ok c rows given wired lost (wake s)" "stream_ok c rows given wired lost (stop_in_backoff s)"
    "stream_ok c rows given wired lost (take_stop s)"
  using assms by (auto simp: wake_def stop_in_backoff_def take_stop_def stream_ok_def pc_ok_def callback_ok_def split: replay_pc.splits)

lemma stream_ok_end:
  assumes o: "\<not> wt_closed (rf_base s)" and s: "stream_ok c rows given wired lost s" and d: "rf_pc s = Delivering local [] False"
  shows "stream_ok c rows given wired lost (end_run local s)"
proof -
  have ok: "position rows local" "covers c rows (given \<union> row_ids (rows_after local rows))" "rf_started s"
    "\<not> rf_replayQueued s \<and> \<not> lost \<longrightarrow> covers c rows (given \<union> wired)"
    using s d by (auto simp: stream_ok_def pc_ok_def)
  then show ?thesis using s o
    by (auto simp: end_run_def Let_def begin_run_def stream_ok_def pc_ok_def callback_ok_def)
qed

lemma deliver_next_ok:
  assumes o: "\<not> wt_closed (rf_base s)" and s: "stream_ok c rows (update_ids us) wired lost s" and t: "trace_ok c rows us"
  defines "us' \<equiv> us @ updates_to 0 (snd (deliver_next s))"
  shows "trace_ok c rows us' \<and> stream_ok c rows (update_ids us') wired lost (fst (deliver_next s))
    \<and> \<not> wt_closed (rf_base (fst (deliver_next s)))"
proof (cases "\<exists>local f fs full. rf_pc s = Delivering local (f # fs) full")
  case True
  then obtain local f fs full where pc: "rf_pc s = Delivering local (f # fs) full" by blast
  have st: "rf_started s" "callback_ok s" "rf_seen s \<subseteq> update_ids us" and r: "rest_ok rows local (f # fs)"
    and rp: "rf_replaying s" and pl: "position rows local"
    and cov: "covers c rows (update_ids us \<union> fl_ID ` set (f # fs) \<union> row_ids (rows_after local rows))"
    and wcov: "\<not> full \<and> \<not> rf_replayQueued s \<and> \<not> lost \<longrightarrow> covers c rows (update_ids us \<union> fl_ID ` set (f # fs) \<union> wired)"
    using s pc by (auto simp: stream_ok_def pc_ok_def)
  have adv: "advanced (cursor_of f) True s = cursor_of f" using r by (simp add: advanced_def)
  have cf: "covers c rows (insert (fl_ID f) (update_ids us) \<union> row_ids (rows_after (cursor_of f) rows))"
    using cov r by (auto elim!: covers_mono)
  have p: "position rows (advanced (cursor_of f) True s)" using r adv by simp
  note dt = deliver_trace [OF o st t p, unfolded adv, OF cf]
  note dv = deliver_open [OF o st, where f = f and cursor = "cursor_of f" and replayed = True]
  have eq: "deliver_next s = ((fst (deliver f (cursor_of f) True s))\<lparr>rf_pc := Delivering local fs full\<rparr>, snd (deliver f (cursor_of f) True s))"
    using pc by (simp add: deliver_next_def cursor_of_def case_prod_beta)
  have ids: "update_ids us' = insert (fl_ID f) (update_ids us)" using dt(2) by (simp add: us'_def eq)
  have "stream_ok c rows (update_ids us') wired lost (fst (deliver_next s))"
    unfolding stream_ok_def
  proof (intro conjI)
    show "callback_ok (fst (deliver_next s))" using dv(1) by (simp add: eq callback_ok_def)
    show "\<not> rf_stopped (fst (deliver_next s))" using dv(10) s by (simp add: eq stream_ok_def)
    show "rf_seen (fst (deliver_next s)) \<subseteq> update_ids us'" using dt(3) by (simp add: eq us'_def)
    show "position rows (rf_cursor (fst (deliver_next s)))" using dv(4) p adv by (simp add: eq)
    show "covers c rows (update_ids us' \<union> row_ids (rows_after (rf_cursor (fst (deliver_next s))) rows))"
      using cf dv(4) adv by (simp add: eq ids)
    show "pc_ok c rows (update_ids us') wired lost (fst (deliver_next s))"
      using dv(5,6,7) rp pl r cov wcov by (auto simp: pc_ok_def eq ids elim!: covers_mono)
  qed
  then show ?thesis using dt(1) dv(2) by (simp add: us'_def eq)
next
  case False
  then consider local where "rf_pc s = Delivering local [] False" | local where "rf_pc s = Delivering local [] True"
    | "deliver_next s = (s, [])"
  proof (cases "rf_pc s")
    case (Delivering local rest full)
    then show ?thesis using False that(1,2) by (cases rest; cases full) auto
  qed (use that(3) in \<open>auto simp: deliver_next_def\<close>)
  then show ?thesis
  proof cases
    case 1
    then show ?thesis using stream_ok_end [OF o s 1] t o
      by (simp add: us'_def deliver_next_def end_run_def begin_run_def Let_def)
  next
    case 2
    then show ?thesis using s t o
      by (auto simp: us'_def deliver_next_def stream_ok_def pc_ok_def callback_ok_def)
  next
    case 3
    then show ?thesis using s t o by (simp add: us'_def)
  qed
qed

lemma live_ok:
  assumes l: "log_ok rows" and c0: "position rows c" and o: "\<not> wt_closed (rf_base s)"
    and s: "stream_ok c rows (update_ids us) (ev_id ` set (ev # evs)) False s"
    and w: "wire_ok rows (ev # evs)" and t: "trace_ok c rows us"
  defines "us' \<equiv> us @ updates_to 0 (snd (onLiveFill ev s))"
  shows "trace_ok c rows us' \<and> stream_ok c rows (update_ids us') (ev_id ` set evs) False (fst (onLiveFill ev s))
    \<and> \<not> wt_closed (rf_base (fst (onLiveFill ev s)))"
proof (cases "rf_started s")
  case False
  then show ?thesis using s t o
    by (auto simp: us'_def onLiveFill_def stream_ok_def pc_ok_def split: replay_pc.splits)
next
  case st: True
  obtain r g where r: "r \<in> set rows" "rw_fill r = Some g" "event_of g ev"
    and tail: "ev_id ` set evs \<subseteq> row_ids (rows_after (rw_pos r) rows)" using w by auto
  obtain sf where sf: "re_Fill ev = Some sf" "sf_ID sf = fl_ID g" "sf_CreatedAt sf = [] \<or> sf_CreatedAt sf = fl_CreatedAt g"
    using r(3) by (auto simp: event_of_def)
  have ok: "row_ok r" using l r(1) by (auto simp: log_ok_def list_all_iff)
  define f where "f = fillFromRecordedEvent (re_EntityID ev) sf"
  have id: "fl_ID f = fl_ID g" "ev_id ev = fl_ID g" "sf_ID sf \<noteq> []"
    using sf ok r(2) by (auto simp: f_def fillFromRecordedEvent_def ev_id_def row_ok_def)
  have cur: "cursor_of f = [] \<or> cursor_of f = rw_pos r"
    using sf ok r(2) by (auto simp: f_def fillFromRecordedEvent_def cursor_of_def encodeRealmFillCursor_def row_ok_def)
  have eq: "onLiveFill ev s = deliver f (cursor_of f) False s"
    using st sf(1) id(3) by (simp add: onLiveFill_def f_def cursor_of_def Let_def)
  have st': "callback_ok s" "rf_seen s \<subseteq> update_ids us" using s by (auto simp: stream_ok_def)
  define cu where "cu = advanced (cursor_of f) False s"
  have cu: "position rows cu \<and> covers c rows (insert (fl_ID f) (update_ids us) \<union> row_ids (rows_after cu rows))"
  proof (cases "cursor_of f \<noteq> [] \<and> \<not> rf_replaying s \<and> \<not> rf_replayQueued s")
    case True
    then have cv: "cu = rw_pos r" using cur by (auto simp: cu_def advanced_def)
    have "covers c rows (update_ids us \<union> ev_id ` set (ev # evs))"
      using s True st by (auto simp: stream_ok_def pc_ok_def split: replay_pc.splits)
    then have "covers c rows (insert (fl_ID f) (update_ids us) \<union> row_ids (rows_after cu rows))"
      by (rule covers_mono) (use tail id cv in auto)
    then show ?thesis using r(1) cv by (auto simp: position_def)
  next
    case False
    then have "cu = rf_cursor s" by (auto simp: cu_def advanced_def)
    then show ?thesis using s by (auto simp: stream_ok_def elim!: covers_mono)
  qed
  note dt = deliver_trace [OF o st st' t, of "cursor_of f" False f, folded cu_def, OF cu [THEN conjunct1] cu [THEN conjunct2]]
  note dv = deliver_open [OF o st st', where f = f and cursor = "cursor_of f" and replayed = False, folded cu_def]
  have ids: "update_ids us' = insert (fl_ID f) (update_ids us)" using dt(2) by (simp add: us'_def eq)
  have pcs: "pc_ok c rows (update_ids us) (ev_id ` set (ev # evs)) False s" using s by (simp add: stream_ok_def)
  have "stream_ok c rows (update_ids us') (ev_id ` set evs) False (fst (onLiveFill ev s))"
    unfolding stream_ok_def
  proof (intro conjI)
    show "callback_ok (fst (onLiveFill ev s))" using dv(1) by (simp add: eq)
    show "\<not> rf_stopped (fst (onLiveFill ev s))" using dv(10) s by (simp add: eq stream_ok_def)
    show "rf_seen (fst (onLiveFill ev s)) \<subseteq> update_ids us'" using dt(3) by (simp add: eq us'_def)
    show "position rows (rf_cursor (fst (onLiveFill ev s)))" using dv(4) cu by (simp add: eq)
    show "covers c rows (update_ids us' \<union> row_ids (rows_after (rf_cursor (fst (onLiveFill ev s))) rows))"
      using cu dv(4) by (simp add: eq ids)
    show "pc_ok c rows (update_ids us') (ev_id ` set evs) False (fst (onLiveFill ev s))"
      using pcs st dv(5-9) id by (auto simp: pc_ok_def eq ids elim!: covers_mono split: replay_pc.splits)
  qed
  then show ?thesis using dt(1) dv(2) by (simp add: us'_def eq)
qed

text \<open>A closed stream emits nothing more.\<close>

lemma closed_stays:
  assumes "wt_closed (rf_base s)"
  shows "wt_closed (rf_base (fst (onLiveFill ev s)))" "snd (onLiveFill ev s) = []"
    "wt_closed (rf_base (fst (deliver_next s)))" "snd (deliver_next s) = []"
    "wt_closed (rf_base (fst (page_turn r s)))" "snd (page_turn r s) = []"
    "wt_closed (rf_base (scheduleReplay s))" "wt_closed (rf_base (snd (fills_OnUpdate s)))"
    "wt_closed (rf_base (take_request s))" "wt_closed (rf_base (wake s))" "wt_closed (rf_base (stop_in_backoff s))"
    "wt_closed (rf_base (take_stop s))" "wt_closed (rf_base (fst (fills_Close s)))" "snd (fills_Close s) = []"
  using assms deliver_closed
  by (auto simp: onLiveFill_def deliver_next_def page_turn_def scheduleReplay_def fills_OnUpdate_def OnUpdate_def start_def
      take_request_def begin_run_def wake_def stop_in_backoff_def take_stop_def fills_Close_def Close_def end_run_def Let_def
      case_prod_beta split: replay_pc.split option.split list.split sum.split)

lemma close_ok:
  "wt_closed (rf_base (fst (fills_Close s)))" "updates_to 0 (snd (fills_Close s)) = []"
  by (auto simp: fills_Close_def Close_def)

lemma frame_closed:
  "wt_closed (rf_base (scheduleReplay s)) = wt_closed (rf_base s)" "wt_closed (rf_base (take_request s)) = wt_closed (rf_base s)"
  "wt_closed (rf_base (wake s)) = wt_closed (rf_base s)" "wt_closed (rf_base (stop_in_backoff s)) = wt_closed (rf_base s)"
  "wt_closed (rf_base (take_stop s)) = wt_closed (rf_base s)" "wt_closed (rf_base (snd (fills_OnUpdate s))) = wt_closed (rf_base s)"
  "rf_pc s = Fetching local b \<Longrightarrow> wt_closed (rf_base (fst (page_turn (Inr reply) s))) = wt_closed (rf_base s)"
  "wt_closed (snd (recv b')) = wt_closed b'" "wt_updateCbs (snd (recv b')) = wt_updateCbs b'" "wt_nextID (snd (recv b')) = wt_nextID b'"
  by (auto simp: scheduleReplay_def take_request_def begin_run_def wake_def stop_in_backoff_def take_stop_def fills_OnUpdate_def
      OnUpdate_def start_def page_turn_def end_run_def Let_def recv_def case_prod_beta split: replay_pc.split list.split)

lemma stream_ok_recv:
  "stream_ok c rows given wired lost s \<Longrightarrow> stream_ok c rows given wired lost (s\<lparr>rf_base := snd (recv (rf_base s))\<rparr>)"
  by (simp add: stream_ok_def callback_ok_def pc_ok_def frame_closed split: replay_pc.splits)

section \<open>Every step keeps it\<close>

lemmas world_simps = world_ok_def apply_stream_def

lemma world_ok_step:
  assumes "fills_step w v" "world_ok c w"
  shows "world_ok c v"
  using assms
proof (cases rule: fills_step.cases)
  case (record_row r)
  then show ?thesis using assms(2) stream_ok_grow [of "fw_log w" c _ _ _ _ _ r]
    by (auto simp: world_simps trace_ok_snoc_row wire_ok_snoc_row position_snoc log_ok_def row_ids_def)
next
  case (record_fill r f ev)
  have "ev_id ev = fl_ID f" using record_fill(4) by (auto simp: event_of_def ev_id_def)
  then show ?thesis using assms(2) record_fill stream_ok_grow [of "fw_log w" c _ "ev_id ` set (fw_wire w)" _ _ "ev_id ` set (fw_wire w @ [ev])" r]
    by (auto simp: world_simps trace_ok_snoc_row wire_ok_push position_snoc row_ids_def)
next
  case (record_unpushed r)
  then have "stream_ok c (fw_log w) g x l (fw_stream w) \<Longrightarrow> stream_ok c (fw_log w @ [r]) g x l (fw_stream w)" for g x l
    using stream_ok_grow [of "fw_log w" c g x l "fw_stream w" x r] assms(2) by (auto simp: world_ok_def)
  then show ?thesis using assms(2) record_unpushed
    by (auto simp: world_simps trace_ok_snoc_row wire_ok_snoc_row position_snoc log_ok_def)
next
  case (lose_frame ev evs)
  then show ?thesis using assms(2) stream_ok_lost by (auto simp: world_simps)
next
  case report_loss
  then show ?thesis using assms(2) stream_ok_schedule by (auto simp: world_simps frame_closed)
next
  case (live_frame ev evs)
  show ?thesis
  proof (cases "wt_closed (rf_base (fw_stream w))")
    case True
    then show ?thesis using assms(2) live_frame closed_stays(1,2) by (auto simp: world_simps)
  next
    case False
    then show ?thesis
      using assms(2) live_frame live_ok [of "fw_log w" c "fw_stream w" "updates_to 0 (fw_effects w)" ev evs]
      by (auto simp: world_simps)
  qed
next
  case attach
  then show ?thesis using assms(2) stream_ok_attach by (auto simp: world_simps frame_closed)
next
  case read_channel
  then show ?thesis using assms(2) stream_ok_recv by (auto simp: world_simps frame_closed)
next
  case request
  then show ?thesis using assms(2) stream_ok_request by (auto simp: world_simps frame_closed)
next
  case (page local b k reply)
  show ?thesis
  proof (cases "wt_closed (rf_base (fw_stream w))")
    case True
    then show ?thesis using assms(2) page closed_stays(5,6) [OF True] by (auto simp: world_simps)
  next
    case False
    have l: "log_ok (fw_log w)" and s: "stream_ok c (fw_log w) (update_ids (updates_to 0 (fw_effects w))) (ev_id ` set (fw_wire w)) (fw_lost w) (fw_stream w)"
      using assms(2) False by (auto simp: world_ok_def)
    note ok = stream_ok_page [OF l False s page(2,3)]
    show ?thesis using assms(2) ok page(1) by (auto simp: world_simps)
  qed
next
  case (page_error e)
  then show ?thesis
    using assms(2) stream_ok_page_error [of "fw_stream w"] closed_stays(5,6) [of "fw_stream w"]
    by (cases "wt_closed (rf_base (fw_stream w))") (auto simp: world_simps)
next
  case backoff_over
  then show ?thesis using assms(2) stream_ok_backoff(1) by (auto simp: world_simps frame_closed)
next
  case backoff_stop
  then show ?thesis using assms(2) stream_ok_backoff(2) by (auto simp: world_simps frame_closed)
next
  case stop
  then show ?thesis using assms(2) stream_ok_backoff(3) by (auto simp: world_simps frame_closed)
next
  case deliver_row
  show ?thesis
  proof (cases "wt_closed (rf_base (fw_stream w))")
    case True
    then show ?thesis using assms(2) deliver_row closed_stays(3,4) by (auto simp: world_simps)
  next
    case False
    then show ?thesis
      using assms(2) deliver_row deliver_next_ok [of "fw_stream w" c "fw_log w" "updates_to 0 (fw_effects w)"]
      by (auto simp: world_simps)
  qed
next
  case close
  then show ?thesis using assms(2) close_ok by (auto simp: world_simps)
qed

lemma WatchRealmFills_new:
  assumes "WatchRealmFills fc p = Inr s"
  shows "rf_pc s = Not_Spawned" "\<not> rf_started s" "\<not> rf_replaying s" "rf_seen s = {}" "\<not> rf_stopped s"
    "wt_updateCbs (rf_base s) = []" "wt_nextID (rf_base s) = 0" "\<not> wt_closed (rf_base s)"
  using assms by (auto simp: WatchRealmFills_def Let_def newWatchStream_def split: if_splits list.splits sum.splits)

lemma world_ok_opened:
  assumes "opened c w"
  shows "world_ok c w"
proof -
  obtain fc page where s: "WatchRealmFills fc (Inr page) = Inr (fw_stream w)" and cur: "rf_cursor (fw_stream w) = c"
    using assms by (auto simp: opened_def)
  note f = WatchRealmFills_new [OF s]
  show ?thesis using assms cur f
    by (auto simp: opened_def world_ok_def position_def trace_ok_def stream_ok_def callback_ok_def pc_ok_def covers_def)
qed

lemma world_ok_reach: "fills_reaches w v \<Longrightarrow> opened c w \<Longrightarrow> world_ok c v"
  by (induction rule: fills_reaches.induct) (auto intro: world_ok_opened world_ok_step)

section \<open>Properties\<close>

definition given_to :: "nat \<Rightarrow> fills_world \<Rightarrow> RealmFillUpdate list" where
  "given_to i w = updates_to i (fw_effects w)"

text \<open>Nothing in flight: a consumer is attached, the goroutine waits and no loss, request or frame is pending.\<close>

definition quiet :: "fills_world \<Rightarrow> bool" where
  "quiet w \<longleftrightarrow> rf_pc (fw_stream w) = Waiting \<and> \<not> rf_replayQueued (fw_stream w) \<and> \<not> fw_lost w \<and> fw_wire w = []"


definition sample_fill :: Fill where
  "sample_fill =
     \<lparr>fl_ID = ''f1'', fl_OperationID = [], fl_FillID = [], fl_ObjectID = ''acct'', fl_OrderOperationID = [], fl_OrderID = ''o1'',
      fl_Market = ''hl:0:BTC'', fl_Side = ''BUY'', fl_Size = ''1'', fl_Price = ''100'', fl_Direction = [], fl_StartPosition = [],
      fl_Fee = ''0'', fl_ExchangeFee = [], fl_PlatformFee = [], fl_BuilderFee = [], fl_RealizedPnl = [],
      fl_ResultingPosition = None, fl_IsLiquidation = False, fl_CreatedAt = ''t1'', fl_IsOptimistic = False,
      fl_IsTrigger = None, fl_Tpsl = [], fl_TriggerPx = [], fl_LiquidationKind = []\<rparr>"

definition sample_row :: row where
  "sample_row = \<lparr>rw_pos = ''t1|f1'', rw_fill = Some sample_fill\<rparr>"

definition sample_stream :: RealmFillWatchStream where
  "sample_stream =
     \<lparr>rf_base = newWatchStream\<lparr>wt_unsubs := fills_releases\<rparr>, rf_started = False, rf_cursor = [],
      rf_replaying = False, rf_replayQueued = False, rf_seen = {}, rf_seenOrder = [], rf_replayCh = False,
      rf_stopped = False, rf_pc = Not_Spawned\<rparr>"

definition sample_world :: fills_world where
  "sample_world = \<lparr>fw_log = [sample_row], fw_wire = [], fw_lost = False, fw_stream = sample_stream, fw_effects = []\<rparr>"

lemma sample_opened: "opened [] sample_world"
proof -
  have "WatchRealmFills [] (Inr []) = Inr sample_stream" by (simp add: WatchRealmFills_def sample_stream_def)
  moreover have "log_ok [sample_row]"
    by (simp add: log_ok_def row_ok_def sample_row_def sample_fill_def encodeRealmFillCursor_def)
  moreover have "rf_cursor sample_stream = []" by (simp add: sample_stream_def)
  ultimately show ?thesis by (auto simp: opened_def sample_world_def)
qed

definition sample_attached :: RealmFillWatchStream where
  "sample_attached = take_request (snd (fills_OnUpdate sample_stream))"

lemma sample_attached_facts:
  "rf_pc sample_attached = Fetching [] second" "rf_seen sample_attached = {}"
  "wt_updateCbs (rf_base sample_attached) = [0]" "\<not> wt_closed (rf_base sample_attached)"
  by (simp_all add: sample_attached_def sample_stream_def take_request_def fills_OnUpdate_def OnUpdate_def start_def
      scheduleReplay_def begin_run_def newWatchStream_def)

definition sample_page :: fills_world where
  "sample_page = sample_world\<lparr>fw_stream := sample_attached\<lparr>rf_pc := Delivering ''t1|f1'' [sample_fill] False\<rparr>\<rparr>"

lemma sample_page_reached: "fills_reaches sample_world sample_page"
proof -
  define w1 where "w1 = sample_world\<lparr>fw_stream := snd (fills_OnUpdate sample_stream)\<rparr>"
  define w2 where "w2 = w1\<lparr>fw_stream := sample_attached\<rparr>"
  note f = sample_attached_facts
  have 1: "fills_step sample_world w1" using fills_step.attach [of sample_world] by (simp add: w1_def sample_world_def)
  have 2: "fills_step w1 w2" using fills_step.request [of w1] by (simp add: w1_def w2_def sample_attached_def)
  have turn: "page_turn (Inr ([sample_fill], ''t1|f1'')) sample_attached = (fw_stream sample_page, [])"
    by (simp add: page_turn_def f sample_page_def realmFillsPageLimit_def)
  have "page_of (fw_log w2) [] 1 ([sample_fill], ''t1|f1'')"
    by (simp add: page_of_def Let_def w2_def w1_def sample_world_def rows_after_def sample_row_def)
  then have 3: "fills_step w2 sample_page" using fills_step.page [of w2 "[]" second 1 "([sample_fill], ''t1|f1'')"]
    by (simp add: w2_def apply_stream_def turn f(1) w1_def sample_world_def) (simp add: sample_page_def sample_world_def)
  show ?thesis using 1 2 3 by (meson fills_reaches.intros)
qed

lemma sample_run:
  "\<exists>w. fills_reaches sample_world w \<and> fw_log w = [sample_row] \<and> \<not> wt_closed (rf_base (fw_stream w))
     \<and> (\<exists>u. given_to 0 w = [u] \<and> ru_Cursor u = ''t1|f1'')"
proof -
  let ?s = "fw_stream sample_page"
  define w where "w = apply_stream (deliver_next ?s) sample_page"
  note f = sample_attached_facts
  have "updates_to 0 (snd (deliver_next ?s)) = [\<lparr>ru_Fill = sample_fill, ru_Cursor = ''t1|f1'', ru_Replayed = True\<rparr>]"
    "\<not> wt_closed (rf_base (fst (deliver_next ?s)))"
    by (simp_all add: sample_page_def deliver_next_def deliver_def Let_def remember_def f emit_def publish_def
        realmFillsDedupeWindow_def encodeRealmFillCursor_def sample_fill_def case_prod_beta)
  then have "given_to 0 w = [\<lparr>ru_Fill = sample_fill, ru_Cursor = ''t1|f1'', ru_Replayed = True\<rparr>]"
    "fw_log w = [sample_row]" "\<not> wt_closed (rf_base (fw_stream w))"
    by (simp_all add: given_to_def w_def apply_stream_def sample_page_def sample_world_def)
  moreover have "fills_step sample_page w" using fills_step.deliver_row [of sample_page] by (simp add: w_def)
  ultimately show ?thesis using fills_reaches.step [OF sample_page_reached] by (intro exI [of _ w]) simp
qed


section \<open>Where the promise stops\<close>

text \<open>
  The cursor of a closed stream runs ahead: a page being delivered when the stream closes still advances the
  cursor while its fills are given to no one, so \<^verbatim>\<open>Cursor\<close> read after \<^verbatim>\<open>Close\<close> skips them.
\<close>

lemma cursor_after_close_skips:
  "\<exists>w. fills_reaches sample_world w \<and> given_to 0 w = [] \<and> sample_row \<in> set (rows_after [] (fw_log w))
     \<and> rows_after (rf_cursor (fw_stream w)) (fw_log w) = []"
proof -
  define w1 where "w1 = apply_stream (fills_Close (fw_stream sample_page)) sample_page"
  define w where "w = apply_stream (deliver_next (fw_stream w1)) w1"
  have "fills_step sample_page w1" using fills_step.close [of sample_page] by (simp add: w1_def)
  moreover have "fills_step w1 w" using fills_step.deliver_row [of w1] by (simp add: w_def)
  ultimately have r: "fills_reaches sample_world w" using sample_page_reached by (meson fills_reaches.intros)
  note f = sample_attached_facts
  have s: "rf_pc (fw_stream w1) = Delivering ''t1|f1'' [sample_fill] False" "wt_closed (rf_base (fw_stream w1))"
    "updates_to 0 (fw_effects w1) = []"
    by (auto simp: w1_def apply_stream_def fills_Close_def sample_page_def Close_def f sample_world_def case_prod_beta)
  have "rf_cursor (fst (deliver_next (fw_stream w1))) = ''t1|f1''" "snd (deliver_next (fw_stream w1)) = []"
    using s by (simp_all add: deliver_next_def deliver_def Let_def emit_closed encodeRealmFillCursor_def sample_fill_def)
  then have "rf_cursor (fw_stream w) = ''t1|f1''" "given_to 0 w = []" "fw_log w = [sample_row]"
    using s(3) by (simp_all add: w_def given_to_def apply_stream_def w1_def sample_page_def sample_world_def)
  then show ?thesis using r by (intro exI [of _ w]) (simp add: rows_after_def sample_row_def)
qed

text \<open>
  The update channel drops its oldest values, so a reader of \<^verbatim>\<open>Updates\<close> that falls more than 256 updates behind
  (a replay page alone has up to 500) misses fills whose successors carry later cursors.
\<close>

lemma channel_reader_misses:
  "foldl (\<lambda>ch v. channel_send v ch) [] vs = drop (length vs - watchChanBuffer) vs"
proof (induction vs rule: rev_induct)
  case (snoc v vs)
  have "0 < watchChanBuffer" by (simp add: watchChanBuffer_def)
  then show ?case using snoc
    by (cases "length vs < watchChanBuffer") (auto simp: channel_send_def Let_def tl_drop Suc_diff_le drop_Suc)
qed simp

end
