(* ===== verification/Exchange_Watch.thy ===== *)
theory Exchange_Watch
  imports Watch_Stream Gates Execution Go_Time
begin

text \<open>
  The exchange-account stream (\<^verbatim>\<open>streams.go\<close>, \<^verbatim>\<open>ExchangeWatchStream\<close>; \<^verbatim>\<open>observation_order.go\<close>; the registry of live watches in
  \<^verbatim>\<open>arca.go\<close>).  Pushes, reads, expiry and recovery timers are steps; a read carries the epoch it captured when it
  began.  The lemmas show that what is shown never goes back in time while it is held, that a read is dropped
  when anything happened since it began, and that an invalidated stream always has a recovery pending.
\<close>

section \<open>Observations\<close>

record TradingAllocationState =
  tas_AsOf :: gostring
  tas_ValidUntil :: gostring

text \<open>The fields that order and expire an observation, and the book it shows.\<close>

record ExchangeState =
  xs_TradingAllocation :: "TradingAllocationState option"
  xs_ObservedAt :: gostring
  xs_Positions :: "SimPosition list"
  xs_OpenOrders :: "SimOrder list"
  xs_AccountingPending :: "AccountingPendingExecution list"

definition ObservationTime :: "ExchangeState \<Rightarrow> instant" where
  "ObservationTime s =
     (case (if xs_ObservedAt s = [] then None else parse_rfc3339 (xs_ObservedAt s)) of
        Some t \<Rightarrow> t
      | None \<Rightarrow>
          (case xs_TradingAllocation s of
             Some a \<Rightarrow>
               if tas_AsOf a = [] then zero_time
               else (case parse_rfc3339 (tas_AsOf a) of Some t \<Rightarrow> t | None \<Rightarrow> zero_time)
           | None \<Rightarrow> zero_time))"

definition ObservedBefore :: "ExchangeState \<Rightarrow> ExchangeState \<Rightarrow> bool" where
  "ObservedBefore s other =
     (let mine = ObservationTime s; theirs = ObservationTime other in
      if mine = zero_time \<or> theirs = zero_time then False else mine < theirs)"

section \<open>The stream\<close>

datatype watch_release =
  Unlisten_Exchange | Unlisten_Gap | Unlisten_Auth | Unregister_Watch | Unwatch_Path | Stop_Timers

type_synonym exchange_base = "(ExchangeState, watch_release) WatchStream"
type_synonym exchange_effect = "(ExchangeState, watch_release) effect"

text \<open>
  \<^verbatim>\<open>xw_expiry\<close> is the armed expiry timer with its deadline and epoch, \<^verbatim>\<open>xw_recovery\<close> the base delay of the armed
  recovery timer, \<^verbatim>\<open>xw_rearming\<close> the recovery functions between their two halves.  \<^verbatim>\<open>xw_reading\<close> is the refresh
  goroutine: absent, about to read, or reading with the epoch it captured.
\<close>

datatype refresh_pc = No_Loop | Loop_Head | Loop_Reading nat

record ExchangeWatchStream =
  xw_base :: exchange_base
  xw_observationEpoch :: nat
  xw_expiry :: "(instant \<times> nat) option"
  xw_recovery :: "int option"
  xw_recoveryAttempt :: nat
  xw_rearming :: nat
  xw_refetchActive :: bool
  xw_refetchQueued :: bool
  xw_reading :: refresh_pc
  xw_skipFirstAuth :: bool

definition WatchExchangeState :: "bool \<Rightarrow> ExchangeWatchStream" where
  "WatchExchangeState wasConnected =
     \<lparr>xw_base = newWatchStream\<lparr>wt_unsubs := [Unlisten_Exchange, Unlisten_Gap, Unlisten_Auth, Unregister_Watch, Unwatch_Path, Stop_Timers]\<rparr>,
      xw_observationEpoch = 0, xw_expiry = None, xw_recovery = None, xw_recoveryAttempt = 0, xw_rearming = 0,
      xw_refetchActive = False, xw_refetchQueued = False, xw_reading = No_Loop, xw_skipFirstAuth = (\<not> wasConnected)\<rparr>"

definition exchangeRecoveryInitial :: int where "exchangeRecoveryInitial = 1000000000"
definition exchangeRecoveryMax :: int where "exchangeRecoveryMax = 30000000000"

definition scheduleRecoveryLocked :: "ExchangeWatchStream \<Rightarrow> ExchangeWatchStream" where
  "scheduleRecoveryLocked s =
     (let b = exchangeRecoveryInitial * 2 ^ xw_recoveryAttempt s;
          d = (if b > exchangeRecoveryMax \<or> b \<le> 0 then exchangeRecoveryMax else b) in
      s\<lparr>xw_recovery := Some d,
        xw_recoveryAttempt := (if xw_recoveryAttempt s < 10 then xw_recoveryAttempt s + 1 else xw_recoveryAttempt s)\<rparr>)"

definition clearRecoveryLocked :: "ExchangeWatchStream \<Rightarrow> ExchangeWatchStream" where
  "clearRecoveryLocked s = s\<lparr>xw_recovery := None, xw_recoveryAttempt := 0\<rparr>"

text \<open>How long an observation may be shown: \<^const>\<open>None\<close> when it has expired or its times cannot be read.\<close>

definition lifetime :: "instant \<Rightarrow> TradingAllocationState \<Rightarrow> int option" where
  "lifetime now a =
     (case parse_rfc3339 (tas_ValidUntil a) of
        None \<Rightarrow> None
      | Some until \<Rightarrow>
          (let d = until - now in
           case (if tas_AsOf a = [] then Some d
                 else (case parse_rfc3339 (tas_AsOf a) of None \<Rightarrow> None | Some asOf \<Rightarrow> Some (min d (until - asOf)))) of
             None \<Rightarrow> None
           | Some delay \<Rightarrow> if delay \<le> 0 then None else Some delay))"

definition show_state :: "ExchangeState \<Rightarrow> ExchangeWatchStream \<Rightarrow> ExchangeWatchStream \<times> exchange_effect list" where
  "show_state state s =
     (case emit state (xw_base (clearRecoveryLocked s)) of
        (b, es) \<Rightarrow> ((clearRecoveryLocked s)\<lparr>xw_base := b\<rparr>, es))"

definition emitExchangeObservation ::
    "instant \<Rightarrow> nat \<Rightarrow> ExchangeState \<Rightarrow> ExchangeWatchStream \<Rightarrow> ExchangeWatchStream \<times> exchange_effect list" where
  "emitExchangeObservation now epoch state s =
     (if xw_observationEpoch s \<noteq> epoch then (s, [])
      else if (case wt_value (xw_base s) of Some applied \<Rightarrow> ObservedBefore state applied | None \<Rightarrow> False) then (s, [])
      else (let epoch1 = xw_observationEpoch s + 1; s1 = s\<lparr>xw_observationEpoch := epoch1, xw_expiry := None\<rparr> in
            case xs_TradingAllocation state of
              Some a \<Rightarrow>
                if tas_ValidUntil a = [] then show_state state s1
                else (case lifetime now a of
                        None \<Rightarrow> (s1\<lparr>xw_expiry := Some (now, epoch1)\<rparr>, [])
                      | Some delay \<Rightarrow> show_state state (s1\<lparr>xw_expiry := Some (now + delay, epoch1)\<rparr>))
            | None \<Rightarrow> show_state state s1))"

definition invalidateExchangeObservation :: "nat \<Rightarrow> ExchangeWatchStream \<Rightarrow> ExchangeWatchStream \<times> exchange_effect list" where
  "invalidateExchangeObservation epoch s =
     (if xw_observationEpoch s \<noteq> epoch then (s, [])
      else (let s1 = s\<lparr>xw_observationEpoch := xw_observationEpoch s + 1, xw_expiry := None\<rparr>; b = xw_base s1 in
            if wt_closed b then (s1, [])
            else (scheduleRecoveryLocked
                    (s1\<lparr>xw_base := b\<lparr>wt_value := None, wt_state := WatchReconnecting, wt_ch := []\<rparr>\<rparr>),
                  notifyStateLocked WatchReconnecting b)))"

text \<open>A notification: the book is unavailable, or comes with the event, or has to be read.\<close>

definition on_unavailable :: "ExchangeWatchStream \<Rightarrow> ExchangeWatchStream \<times> exchange_effect list" where
  "on_unavailable s =
     (let s1 = s\<lparr>xw_observationEpoch := xw_observationEpoch s + 1\<rparr> in
      invalidateExchangeObservation (xw_observationEpoch s1) s1)"

definition on_state :: "instant \<Rightarrow> ExchangeState \<Rightarrow> ExchangeWatchStream \<Rightarrow> ExchangeWatchStream \<times> exchange_effect list" where
  "on_state now st s =
     (let s1 = s\<lparr>xw_observationEpoch := xw_observationEpoch s + 1\<rparr> in
      emitExchangeObservation now (xw_observationEpoch s1) st s1)"

definition on_bare :: "ExchangeWatchStream \<Rightarrow> nat \<times> ExchangeWatchStream" where
  "on_bare s = (xw_observationEpoch s + 1, s\<lparr>xw_observationEpoch := xw_observationEpoch s + 1\<rparr>)"

text \<open>\<^verbatim>\<open>Refresh\<close> and the goroutine it starts.\<close>

definition Refresh :: "ExchangeWatchStream \<Rightarrow> ExchangeWatchStream" where
  "Refresh s =
     (if xw_refetchActive s then s\<lparr>xw_refetchQueued := True\<rparr>
      else s\<lparr>xw_refetchActive := True, xw_refetchQueued := False, xw_reading := Loop_Head\<rparr>)"

text \<open>The end of a turn, with the closed flag the turn read at its head.\<close>

definition turn_over :: "bool \<Rightarrow> ExchangeWatchStream \<Rightarrow> ExchangeWatchStream" where
  "turn_over was_closed s =
     (if xw_refetchQueued s \<and> \<not> was_closed then s\<lparr>xw_refetchQueued := False, xw_reading := Loop_Head\<rparr>
      else s\<lparr>xw_refetchActive := False, xw_reading := No_Loop\<rparr>)"

definition refresh_begin :: "ExchangeWatchStream \<Rightarrow> ExchangeWatchStream" where
  "refresh_begin s =
     (if xw_reading s \<noteq> Loop_Head then s
      else if wt_closed (xw_base s) then turn_over True s
      else s\<lparr>xw_reading := Loop_Reading (xw_observationEpoch s)\<rparr>)"

definition refresh_done :: "instant \<Rightarrow> ExchangeState option \<Rightarrow> ExchangeWatchStream \<Rightarrow> ExchangeWatchStream \<times> exchange_effect list" where
  "refresh_done now result s =
     (case xw_reading s of
        Loop_Reading epoch \<Rightarrow>
          (case result of
             Some st \<Rightarrow> (case emitExchangeObservation now epoch st s of (s1, es) \<Rightarrow> (turn_over False s1, es))
           | None \<Rightarrow> (turn_over False s, []))
      | _ \<Rightarrow> (s, []))"

text \<open>The recovery timer's function, in its two halves.\<close>

definition is_empty :: "ExchangeWatchStream \<Rightarrow> bool" where
  "is_empty s \<longleftrightarrow> wt_value (xw_base s) = None \<and> \<not> wt_closed (xw_base s)"

definition recovery_fires :: "ExchangeWatchStream \<Rightarrow> ExchangeWatchStream" where
  "recovery_fires s =
     (case xw_recovery s of
        None \<Rightarrow> s
      | Some d \<Rightarrow> if is_empty s then (Refresh s)\<lparr>xw_recovery := None, xw_rearming := xw_rearming s + 1\<rparr>
                  else s\<lparr>xw_recovery := None\<rparr>)"

definition recovery_rearms :: "ExchangeWatchStream \<Rightarrow> ExchangeWatchStream" where
  "recovery_rearms s =
     (if xw_rearming s = 0 then s
      else (let s1 = s\<lparr>xw_rearming := xw_rearming s - 1\<rparr> in if is_empty s1 then scheduleRecoveryLocked s1 else s1))"

definition on_gap :: "ExchangeWatchStream \<Rightarrow> ExchangeWatchStream" where
  "on_gap s = Refresh s"

definition on_authenticated :: "ExchangeWatchStream \<Rightarrow> ExchangeWatchStream" where
  "on_authenticated s =
     (let s1 = s\<lparr>xw_skipFirstAuth := False\<rparr> in if xw_skipFirstAuth s then s1 else Refresh s1)"

definition watch_Close :: "ExchangeWatchStream \<Rightarrow> ExchangeWatchStream \<times> exchange_effect list" where
  "watch_Close s =
     (case Close (xw_base s) of
        (b, es) \<Rightarrow> ((if Release Stop_Timers \<in> set es then (clearRecoveryLocked s)\<lparr>xw_expiry := None\<rparr> else s)\<lparr>xw_base := b\<rparr>, es))"

section \<open>The registry of live watches\<close>

text \<open>Object ids to the streams watching them.\<close>

type_synonym watches = "gostring \<rightharpoonup> nat set"

definition registerExchangeWatch :: "gostring \<Rightarrow> nat \<Rightarrow> watches \<Rightarrow> watches" where
  "registerExchangeWatch objectID s w =
     w(objectID \<mapsto> insert s (case w objectID of Some ss \<Rightarrow> ss | None \<Rightarrow> {}))"

definition unregisterExchangeWatch :: "gostring \<Rightarrow> nat \<Rightarrow> watches \<Rightarrow> watches" where
  "unregisterExchangeWatch objectID s w =
     (case w objectID of
        None \<Rightarrow> w
      | Some ss \<Rightarrow> if ss - {s} = {} then w(objectID := None) else w(objectID \<mapsto> ss - {s}))"

text \<open>The streams \<^verbatim>\<open>refreshExchangeWatches\<close> refreshes.\<close>

definition refreshExchangeWatches :: "gostring \<Rightarrow> watches \<Rightarrow> nat set" where
  "refreshExchangeWatches objectID w = (case w objectID of Some ss \<Rightarrow> ss | None \<Rightarrow> {})"

section \<open>Sequences of steps\<close>

datatype watch_op =
    Push_Unavailable
  | Push_State instant ExchangeState
  | Push_Bare
  | Land instant nat ExchangeState
  | Expire nat
  | Recovery_Fires
  | Recovery_Rearms
  | Refresh_Call
  | Refresh_Begins
  | Refresh_Done instant "ExchangeState option"
  | Authenticated
  | Close_Watch
  | Read_Channel

text \<open>\<^const>\<open>Land\<close> is a read of the constructor or of a notification, \<^const>\<open>Expire\<close> an expiry timer, each with its epoch.\<close>

fun watch_step :: "watch_op \<Rightarrow> ExchangeWatchStream \<Rightarrow> ExchangeWatchStream" where
  "watch_step Push_Unavailable s = fst (on_unavailable s)"
| "watch_step (Push_State now st) s = fst (on_state now st s)"
| "watch_step Push_Bare s = snd (on_bare s)"
| "watch_step (Land now e st) s = fst (emitExchangeObservation now e st s)"
| "watch_step (Expire e) s = fst (invalidateExchangeObservation e s)"
| "watch_step Recovery_Fires s = recovery_fires s"
| "watch_step Recovery_Rearms s = recovery_rearms s"
| "watch_step Refresh_Call s = Refresh s"
| "watch_step Refresh_Begins s = refresh_begin s"
| "watch_step (Refresh_Done now r) s = fst (refresh_done now r s)"
| "watch_step Authenticated s = on_authenticated s"
| "watch_step Close_Watch s = fst (watch_Close s)"
| "watch_step Read_Channel s = s\<lparr>xw_base := snd (recv (xw_base s))\<rparr>"

fun run_watch :: "watch_op list \<Rightarrow> ExchangeWatchStream \<Rightarrow> ExchangeWatchStream" where
  "run_watch [] s = s"
| "run_watch (x # xs) s = run_watch xs (watch_step x s)"

text \<open>What is held after each step.\<close>

fun held :: "watch_op list \<Rightarrow> ExchangeWatchStream \<Rightarrow> ExchangeState option list" where
  "held [] s = [wt_value (xw_base s)]"
| "held (x # xs) s = wt_value (xw_base s) # held xs (watch_step x s)"

section \<open>Order of observations\<close>

lemma frame_value [simp]:
  "wt_value (xw_base (Refresh s)) = wt_value (xw_base s)" "wt_value (xw_base (turn_over b s)) = wt_value (xw_base s)"
  "wt_value (xw_base (scheduleRecoveryLocked s)) = wt_value (xw_base s)"
  "wt_value (xw_base (recovery_fires s)) = wt_value (xw_base s)" "wt_value (xw_base (recovery_rearms s)) = wt_value (xw_base s)"
  "wt_value (xw_base (refresh_begin s)) = wt_value (xw_base s)" "wt_value (xw_base (on_authenticated s)) = wt_value (xw_base s)"
  "wt_value (snd (recv b')) = wt_value b'" "wt_value (fst (Close b')) = wt_value b'"
  by (auto simp: Refresh_def turn_over_def scheduleRecoveryLocked_def recovery_fires_def recovery_rearms_def refresh_begin_def
      on_authenticated_def recv_def Close_def Let_def split: option.split list.split)

lemma show_state_value:
  "wt_value (xw_base (fst (show_state st s))) = (if wt_closed (xw_base s) then wt_value (xw_base s) else Some st)"
  by (simp add: show_state_def clearRecoveryLocked_def emit_def publish_def Let_def)

lemma observation_value:
  "wt_value (xw_base (fst (emitExchangeObservation now e st s))) = wt_value (xw_base s)
   \<or> (wt_value (xw_base (fst (emitExchangeObservation now e st s))) = Some st
      \<and> (\<forall>x. wt_value (xw_base s) = Some x \<longrightarrow> \<not> ObservedBefore st x))"
  by (auto simp: emitExchangeObservation_def show_state_value Let_def split: option.split)

lemma invalidation_value:
  "wt_value (xw_base (fst (invalidateExchangeObservation e s))) = wt_value (xw_base s)
   \<or> wt_value (xw_base (fst (invalidateExchangeObservation e s))) = None"
  by (simp add: invalidateExchangeObservation_def Let_def)

text \<open>The states a sequence of steps brings.\<close>

fun brought :: "watch_op \<Rightarrow> ExchangeState list" where
  "brought (Push_State now st) = [st]"
| "brought (Land now e st) = [st]"
| "brought (Refresh_Done now (Some st)) = [st]"
| "brought x = []"

lemma step_value:
  "wt_value (xw_base (watch_step x s)) = wt_value (xw_base s) \<or> wt_value (xw_base (watch_step x s)) = None
   \<or> (\<exists>st\<in>set (brought x). wt_value (xw_base (watch_step x s)) = Some st
        \<and> (\<forall>y. wt_value (xw_base s) = Some y \<longrightarrow> \<not> ObservedBefore st y))"
proof (cases x)
  case Push_Unavailable
  then show ?thesis
    using invalidation_value [of "xw_observationEpoch s + 1" "s\<lparr>xw_observationEpoch := xw_observationEpoch s + 1\<rparr>"]
    by (auto simp: on_unavailable_def Let_def)
next
  case (Push_State now st)
  then show ?thesis
    using observation_value [of now "xw_observationEpoch s + 1" st "s\<lparr>xw_observationEpoch := xw_observationEpoch s + 1\<rparr>"]
    by (auto simp: on_state_def Let_def)
next
  case (Land now e st)
  then show ?thesis using observation_value [of now e st s] by auto
next
  case (Refresh_Done now r)
  then show ?thesis
    using observation_value [of now _ "the r" s]
    by (cases r; cases "xw_reading s") (auto simp: refresh_done_def case_prod_beta)
next
  case (Expire e)
  then show ?thesis using invalidation_value by simp
qed (simp_all add: on_bare_def watch_Close_def case_prod_beta clearRecoveryLocked_def)

definition stamped :: "watch_op list \<Rightarrow> bool" where
  "stamped xs \<longleftrightarrow> (\<forall>x\<in>set xs. \<forall>st\<in>set (brought x). ObservationTime st \<noteq> zero_time)"

lemma run_value:
  "stamped xs \<Longrightarrow> (\<forall>v. wt_value (xw_base s) = Some v \<longrightarrow> ObservationTime v \<noteq> zero_time) \<Longrightarrow>
     wt_value (xw_base (run_watch xs s)) = Some v \<Longrightarrow> ObservationTime v \<noteq> zero_time"
proof (induction xs arbitrary: s)
  case (Cons x xs)
  have "\<forall>v. wt_value (xw_base (watch_step x s)) = Some v \<longrightarrow> ObservationTime v \<noteq> zero_time"
    using step_value [of x s] Cons.prems(1,2) by (auto simp: stamped_def)
  then show ?case using Cons by (simp add: stamped_def)
qed simp

lemma held_sorted:
  "stamped xs \<Longrightarrow> (\<forall>v. wt_value (xw_base s) = Some v \<longrightarrow> ObservationTime v \<noteq> zero_time) \<Longrightarrow>
     held xs s = map Some vs \<Longrightarrow> sorted (map ObservationTime vs)"
proof (induction xs arbitrary: s vs)
  case Nil
  then show ?case by (cases vs) auto
next
  case (Cons x xs)
  obtain v ws where vs: "vs = v # ws" "wt_value (xw_base s) = Some v" "held xs (watch_step x s) = map Some ws"
    using Cons.prems(3) by (cases vs) auto
  obtain w us where ws: "ws = w # us" "wt_value (xw_base (watch_step x s)) = Some w"
    using vs(3) by (cases xs; cases ws) auto
  have st: "ObservationTime w \<noteq> zero_time" "ObservationTime v \<noteq> zero_time"
    using run_value [of "[x]" s w] Cons.prems(1,2) ws(2) vs(2) by (auto simp: stamped_def)
  have "sorted (map ObservationTime ws)"
    using Cons.IH [of "watch_step x s" ws] Cons.prems(1) vs(3) st ws(2) by (auto simp: stamped_def)
  moreover have "ObservationTime v \<le> ObservationTime w"
    using step_value [of x s] vs(2) ws(2) st by (auto simp: ObservedBefore_def Let_def split: if_splits)
  ultimately show ?case by (auto simp: vs(1) ws(1))
qed

section \<open>Reads against what happened since\<close>

definition is_push :: "watch_op \<Rightarrow> bool" where
  "is_push x = (case x of Push_Unavailable \<Rightarrow> True | Push_State now st \<Rightarrow> True | Push_Bare \<Rightarrow> True | _ \<Rightarrow> False)"

lemma frame_epoch [simp]:
  "xw_observationEpoch (Refresh s) = xw_observationEpoch s" "xw_observationEpoch (turn_over b s) = xw_observationEpoch s"
  "xw_observationEpoch (scheduleRecoveryLocked s) = xw_observationEpoch s" "xw_observationEpoch (clearRecoveryLocked s) = xw_observationEpoch s"
  "xw_observationEpoch (recovery_fires s) = xw_observationEpoch s" "xw_observationEpoch (recovery_rearms s) = xw_observationEpoch s"
  "xw_observationEpoch (refresh_begin s) = xw_observationEpoch s" "xw_observationEpoch (on_authenticated s) = xw_observationEpoch s"
  "xw_observationEpoch (fst (show_state st s)) = xw_observationEpoch s" "xw_observationEpoch (fst (watch_Close s)) = xw_observationEpoch s"
  by (auto simp: Refresh_def turn_over_def scheduleRecoveryLocked_def clearRecoveryLocked_def recovery_fires_def recovery_rearms_def
      refresh_begin_def on_authenticated_def show_state_def watch_Close_def Let_def case_prod_beta split: option.split)

lemma epoch_grows:
  "xw_observationEpoch s \<le> xw_observationEpoch (fst (emitExchangeObservation now e st s))"
  "xw_observationEpoch s \<le> xw_observationEpoch (fst (invalidateExchangeObservation e s))"
  by (auto simp: emitExchangeObservation_def invalidateExchangeObservation_def Let_def split: option.split)

lemma step_epoch:
  "xw_observationEpoch s \<le> xw_observationEpoch (watch_step x s)" "is_push x \<Longrightarrow> xw_observationEpoch s < xw_observationEpoch (watch_step x s)"
proof -
  note g = epoch_grows [of "s\<lparr>xw_observationEpoch := xw_observationEpoch s + 1\<rparr>"]
  show "is_push x \<Longrightarrow> xw_observationEpoch s < xw_observationEpoch (watch_step x s)"
    using g(1) g(2) by (cases x) (auto simp: is_push_def on_unavailable_def on_state_def on_bare_def Let_def Suc_le_eq)
  then show "xw_observationEpoch s \<le> xw_observationEpoch (watch_step x s)"
    using epoch_grows [of s]
    by (cases x) (auto simp: is_push_def refresh_done_def case_prod_beta intro: less_imp_le split: refresh_pc.split option.split)
qed

lemma run_epoch: "xw_observationEpoch s \<le> xw_observationEpoch (run_watch xs s)"
  by (induction xs arbitrary: s) (auto intro: order_trans step_epoch(1))

lemma run_epoch_push: "list_ex is_push xs \<Longrightarrow> xw_observationEpoch s < xw_observationEpoch (run_watch xs s)"
proof (induction xs arbitrary: s)
  case (Cons x xs)
  then show ?case
    using step_epoch [where x = x and s = s] run_epoch [of "watch_step x s" xs] by (cases "is_push x") (fastforce intro: order.strict_trans1)+
qed simp

section \<open>Recovery\<close>

definition watch_ok :: "ExchangeWatchStream \<Rightarrow> bool" where
  "watch_ok s \<longleftrightarrow>
     (wt_value (xw_base s) = None \<longrightarrow> wt_ch (xw_base s) = [] \<and> wt_state (xw_base s) \<noteq> WatchConnected)
     \<and> (is_empty s \<and> wt_state (xw_base s) = WatchReconnecting \<longrightarrow> xw_recovery s \<noteq> None \<or> xw_rearming s > 0)
     \<and> (\<forall>d. xw_recovery s = Some d \<longrightarrow> exchangeRecoveryInitial \<le> d \<and> d \<le> exchangeRecoveryMax)
     \<and> (xw_refetchActive s \<longleftrightarrow> xw_reading s \<noteq> No_Loop) \<and> xw_recoveryAttempt s \<le> 10"

lemma schedule_delay:
  "\<exists>d. xw_recovery (scheduleRecoveryLocked s) = Some d \<and> exchangeRecoveryInitial \<le> d \<and> d \<le> exchangeRecoveryMax"
  by (auto simp: scheduleRecoveryLocked_def Let_def exchangeRecoveryMax_def exchangeRecoveryInitial_def)

lemma frame_schedule [simp]:
  "xw_base (scheduleRecoveryLocked s) = xw_base s" "xw_rearming (scheduleRecoveryLocked s) = xw_rearming s"
  "xw_refetchActive (scheduleRecoveryLocked s) = xw_refetchActive s" "xw_reading (scheduleRecoveryLocked s) = xw_reading s"
  "xw_recoveryAttempt s \<le> 10 \<Longrightarrow> xw_recoveryAttempt (scheduleRecoveryLocked s) \<le> 10"
  by (auto simp: scheduleRecoveryLocked_def Let_def)

lemma watch_ok_schedule:
  assumes "watch_ok s" shows "watch_ok (scheduleRecoveryLocked s)"
  using assms schedule_delay [of s] by (auto simp: watch_ok_def is_empty_def)

lemma watch_ok_refresh: "watch_ok s \<Longrightarrow> watch_ok (Refresh s)"
  by (auto simp: watch_ok_def is_empty_def Refresh_def)

lemma watch_ok_show: "watch_ok s \<Longrightarrow> watch_ok (fst (show_state st s))"
  by (auto simp: watch_ok_def is_empty_def show_state_def clearRecoveryLocked_def emit_def publish_def Let_def)

lemma watch_ok_frame: "watch_ok s \<Longrightarrow> watch_ok (s\<lparr>xw_observationEpoch := e, xw_expiry := x\<rparr>)"
    "watch_ok s \<Longrightarrow> watch_ok (s\<lparr>xw_observationEpoch := e\<rparr>)"
  by (auto simp: watch_ok_def is_empty_def)

lemma watch_ok_observe: "watch_ok s \<Longrightarrow> watch_ok (fst (emitExchangeObservation now e st s))"
  using watch_ok_show watch_ok_frame by (auto simp: emitExchangeObservation_def Let_def split: option.split)

lemma watch_ok_invalidate:
  assumes "watch_ok s" shows "watch_ok (fst (invalidateExchangeObservation e s))"
proof -
  define s2 where "s2 = s\<lparr>xw_observationEpoch := xw_observationEpoch s + 1, xw_expiry := None,
    xw_base := (xw_base s)\<lparr>wt_value := None, wt_state := WatchReconnecting, wt_ch := []\<rparr>\<rparr>"
  obtain d where d: "xw_recovery (scheduleRecoveryLocked s2) = Some d" "exchangeRecoveryInitial \<le> d" "d \<le> exchangeRecoveryMax"
    using schedule_delay by blast
  have "watch_ok (scheduleRecoveryLocked s2)"
    unfolding watch_ok_def using assms d by (simp add: watch_ok_def is_empty_def) (simp add: s2_def)
  then show ?thesis using assms watch_ok_frame(1) [OF assms]
    by (auto simp: invalidateExchangeObservation_def Let_def s2_def)
qed

lemma watch_ok_turn: "watch_ok s \<Longrightarrow> xw_reading s \<noteq> No_Loop \<Longrightarrow> watch_ok (turn_over b s)"
  by (simp add: watch_ok_def is_empty_def turn_over_def)

lemma observe_reading: "xw_reading (fst (emitExchangeObservation now e st s)) = xw_reading s"
  by (simp add: emitExchangeObservation_def show_state_def clearRecoveryLocked_def Let_def case_prod_beta split: option.split)

lemma watch_ok_begin: "watch_ok s \<Longrightarrow> watch_ok (refresh_begin s)"
  using watch_ok_turn [of s True] by (auto simp: refresh_begin_def) (auto simp: watch_ok_def is_empty_def)

lemma watch_ok_done: "watch_ok s \<Longrightarrow> watch_ok (fst (refresh_done now r s))"
  using watch_ok_turn [of _ False] watch_ok_observe
  by (auto simp: refresh_done_def case_prod_beta observe_reading split: refresh_pc.split option.split)

lemma watch_ok_fires: "watch_ok s \<Longrightarrow> watch_ok (recovery_fires s)"
  by (auto simp: recovery_fires_def Refresh_def watch_ok_def is_empty_def split: option.split)

lemma watch_ok_rearms:
  assumes "watch_ok s" shows "watch_ok (recovery_rearms s)"
proof (cases "xw_rearming s = 0")
  case True
  then show ?thesis using assms by (simp add: recovery_rearms_def)
next
  case False
  define s1 where "s1 = s\<lparr>xw_rearming := xw_rearming s - 1\<rparr>"
  obtain d where d: "xw_recovery (scheduleRecoveryLocked s1) = Some d" "exchangeRecoveryInitial \<le> d" "d \<le> exchangeRecoveryMax"
    using schedule_delay by blast
  have "watch_ok (if is_empty s1 then scheduleRecoveryLocked s1 else s1)"
    using assms d by (auto simp: watch_ok_def is_empty_def s1_def)
  then show ?thesis using False unfolding recovery_rearms_def Let_def s1_def [symmetric] by simp
qed

lemma watch_ok_close: "watch_ok s \<Longrightarrow> watch_ok (fst (watch_Close s))"
  by (auto simp: watch_Close_def Close_def clearRecoveryLocked_def watch_ok_def is_empty_def)

lemma watch_ok_recv: "watch_ok s \<Longrightarrow> watch_ok (s\<lparr>xw_base := snd (recv (xw_base s))\<rparr>)"
  by (auto simp: watch_ok_def is_empty_def recv_def split: list.split)

lemma watch_ok_step: "watch_ok s \<Longrightarrow> watch_ok (watch_step x s)"
proof (cases x)
  case Authenticated
  then show "watch_ok s \<Longrightarrow> ?thesis" using watch_ok_refresh [of "s\<lparr>xw_skipFirstAuth := False\<rparr>"]
    by (auto simp: on_authenticated_def Let_def) (auto simp: watch_ok_def is_empty_def)
qed (auto simp: on_unavailable_def on_state_def on_bare_def Let_def watch_ok_frame watch_ok_observe watch_ok_invalidate
      watch_ok_refresh watch_ok_begin watch_ok_done watch_ok_fires watch_ok_rearms watch_ok_close watch_ok_recv)

lemma watch_ok_new: "watch_ok (WatchExchangeState b)"
  by (simp add: watch_ok_def is_empty_def WatchExchangeState_def newWatchStream_def)

lemma watch_ok_run: "watch_ok s \<Longrightarrow> watch_ok (run_watch xs s)"
  by (induction xs arbitrary: s) (auto intro: watch_ok_step)

text \<open>\<^verbatim>\<open>Refresh\<close> is a coalescing gate; its runs are the reads of the goroutine.\<close>

interpretation refreshing: coalescing_gate xw_refetchActive xw_refetchQueued "\<lambda>s. False"
    "\<lambda>s. (Refresh s, \<not> xw_refetchActive s)" "\<lambda>s. (turn_over False s, xw_refetchQueued s)"
  by unfold_locales (auto simp: Refresh_def turn_over_def)

section \<open>Properties\<close>

text \<open>C22: while the stream holds a state and every observation carries its read time, what it holds never goes back in
  time, whatever the order in which pushes and reads arrive.\<close>

theorem shown_state_never_goes_back:
  assumes "stamped (past @ xs)" and "held xs (run_watch past (WatchExchangeState wasConnected)) = map Some vs"
  shows "sorted (map ObservationTime vs)"
proof -
  have st: "stamped past" "stamped xs" using assms(1) by (auto simp: stamped_def)
  have "wt_value (xw_base (WatchExchangeState wasConnected)) = None" by (simp add: WatchExchangeState_def newWatchStream_def)
  then have "\<forall>v. wt_value (xw_base (run_watch past (WatchExchangeState wasConnected))) = Some v \<longrightarrow> ObservationTime v \<noteq> zero_time"
    using run_value [OF st(1), of "WatchExchangeState wasConnected"] by simp
  then show ?thesis using held_sorted [OF st(2) _ assms(2)] by blast
qed

definition sample_state :: "gostring \<Rightarrow> ExchangeState" where
  "sample_state t = \<lparr>xs_TradingAllocation = None, xs_ObservedAt = t, xs_Positions = [], xs_OpenOrders = [], xs_AccountingPending = []\<rparr>"

lemma sample_times:
  "ObservationTime (sample_state ''2024-05-01T00:00:00Z'') = 1714521600000000000"
  "ObservationTime (sample_state ''2024-05-01T00:00:01Z'') = 1714521601000000000"
  by code_simp+

theorem shown_state_never_goes_back_witness:
  "sorted (map ObservationTime [sample_state ''2024-05-01T00:00:01Z'', sample_state ''2024-05-01T00:00:01Z''])"
proof -
  let ?old = "sample_state ''2024-05-01T00:00:00Z''" and ?new = "sample_state ''2024-05-01T00:00:01Z''"
  have z: "zero_time < 0" by code_simp
  have st: "stamped ([Push_State 0 ?new] @ [Push_State 0 ?old])" using z by (simp add: stamped_def sample_times)
  have ob: "ObservedBefore ?old ?new" using z by (simp add: ObservedBefore_def sample_times)
  define s1 where "s1 = run_watch [Push_State 0 ?new] (WatchExchangeState True)"
  have a: "xs_TradingAllocation ?new = None" by (simp add: sample_state_def)
  have v: "wt_value (xw_base s1) = Some ?new"
    using a by (simp add: s1_def on_state_def Let_def emitExchangeObservation_def show_state_value)
      (simp add: WatchExchangeState_def newWatchStream_def)
  have "held [Push_State 0 ?old] s1 = map Some [?new, ?new]"
    using v ob by (simp add: on_state_def Let_def emitExchangeObservation_def)
  then show ?thesis using shown_state_never_goes_back [OF st] by (simp only: s1_def)
qed



text \<open>
  A push that describes an older state is dropped, but it also cancels the read in flight: if that read was the answer to a
  lost frame, its newer state is discarded and nothing asks again.
\<close>

lemma stale_push_discards_read:
  assumes "wt_value (xw_base s) = Some shown" "xw_reading s = Loop_Reading (xw_observationEpoch s)" "\<not> xw_refetchQueued s"
    and "ObservedBefore stale shown" "ObservedBefore shown fresh"
  shows "wt_value (xw_base (run_watch [Push_State t1 stale, Refresh_Done t2 (Some fresh)] s)) = Some shown
    \<and> xw_reading (run_watch [Push_State t1 stale, Refresh_Done t2 (Some fresh)] s) = No_Loop"
  using assms by (simp add: on_state_def Let_def emitExchangeObservation_def refresh_done_def turn_over_def)

end
