(* ===== verification/Projection_Watch.thy ===== *)
theory Projection_Watch
  imports Watch_Stream Gates Revalue Subscriptions Api_Errors
begin

text \<open>
  The projection stream (\<^verbatim>\<open>streams.go\<close>, \<^verbatim>\<open>ProjectionWatchStream\<close>; row decoding in \<^verbatim>\<open>projections.go\<close>): rows kept from snapshots
  and delta frames, re-marked at the mids, with the mids interest following the rows' markets.  Each critical
  section is a step; the mids registry is the one of \<^theory_text>\<open>Subscriptions\<close>.  The lemmas show that frames bring
  the rows to the server's, that the stream holds each market once and returns it, and that triggers are honoured.
\<close>

section \<open>Rows\<close>

text \<open>
  A row as \<^verbatim>\<open>json.Unmarshal\<close> leaves it before \<^verbatim>\<open>UnmarshalJSON\<close> judges it: the plain fields and the two windowed figures as far
  as they decode; \<^const>\<open>None\<close> when the text does not decode at all.
\<close>

type_synonym raw_row = "(ProjectedValuation \<times> ProjectedPnl option \<times> ProjectedVolume option) option"

definition UnmarshalJSON :: "raw_row \<Rightarrow> ProjectedValuation option" where
  "UnmarshalJSON raw =
     (case raw of
        None \<Rightarrow> None
      | Some (plain, pnl, volume) \<Rightarrow>
          if prv_ObjectID plain = [] \<or> prv_Path plain = [] \<or> prv_Type plain = [] then None
          else Some (plain\<lparr>prv_Pnl := (case pnl of Some p \<Rightarrow> if pp_From p \<noteq> [] \<and> pp_Status p \<noteq> [] then Some p else None
                                                  | None \<Rightarrow> None),
                           prv_Volume := (case volume of Some v \<Rightarrow> if pvol_From v \<noteq> [] \<and> pvol_Status v \<noteq> [] then Some v else None
                                                       | None \<Rightarrow> None)\<rparr>))"

definition DecodeProjectedValuations :: "raw_row list \<Rightarrow> ProjectedValuation list" where
  "DecodeProjectedValuations raws = concat (map (\<lambda>r. case UnmarshalJSON r of Some v \<Rightarrow> [v] | None \<Rightarrow> []) raws)"

record projectionWatchReply =
  py_WatchID :: gostring
  py_Fields :: "gostring list"
  py_Window :: gostring
  py_Valuations :: "raw_row list"
  py_Cursor :: gostring

record ProjectionValuationsResponse =
  px_Valuations :: "raw_row list"
  px_Cursor :: gostring
  px_NextCursor :: gostring

definition nextCursor :: "ProjectionValuationsResponse \<Rightarrow> gostring" where
  "nextCursor r = (if px_Cursor r \<noteq> [] then px_Cursor r else px_NextCursor r)"

definition Rows :: "ProjectionValuationsResponse \<Rightarrow> ProjectedValuation list" where
  "Rows r = DecodeProjectedValuations (px_Valuations r)"

text \<open>The remaining pages of a scope; \<^const>\<open>None\<close> when the cursors never end.\<close>

partial_function (option) fetch_pages ::
    "(gostring \<Rightarrow> error + ProjectionValuationsResponse) \<Rightarrow> gostring \<Rightarrow> ProjectedValuation list
       \<Rightarrow> (error + ProjectedValuation list) option" where
  "fetch_pages read cursor rows =
     (if cursor = [] then Some (Inr rows)
      else (case read cursor of
              Inl e \<Rightarrow> Some (Inl e)
            | Inr page \<Rightarrow> fetch_pages read (nextCursor page) (rows @ Rows page)))"

definition fetchAll ::
    "(gostring \<Rightarrow> error + ProjectionValuationsResponse) \<Rightarrow> projectionWatchReply \<Rightarrow> (error + ProjectedValuation list) option" where
  "fetchAll read reply = fetch_pages read (py_Cursor reply) (DecodeProjectedValuations (py_Valuations reply))"

type_synonym rows = "gostring \<rightharpoonup> ProjectedValuation"

definition rowsByPath :: "ProjectedValuation list \<Rightarrow> rows" where
  "rowsByPath vs = foldl (\<lambda>m r. m(prv_Path r \<mapsto> r)) Map.empty vs"

section \<open>The stream\<close>

datatype projection_release = Unlisten_Frames | Unlisten_Mids | Unlisten_Gap | Unlisten_Status | Unlisten_Auth | Unlisten_Rotated | Shutdown

record ProjectionWatchStream =
  pw_base :: "(rows, projection_release) WatchStream"
  pw_name :: gostring
  pw_fields :: "gostring list"
  pw_window :: gostring
  pw_exchange :: gostring
  pw_stopped :: bool
  pw_watchID :: gostring
  pw_paths :: "gostring list"
  pw_prefix :: gostring
  pw_rows :: rows
  pw_mids :: mids
  pw_markets :: "gostring set"
  pw_renderConnect :: bool
  pw_renderCh :: bool
  pw_recreating :: bool
  pw_redo :: bool
  pw_resyncing :: bool
  pw_resyncAgain :: bool

text \<open>Opening, once the snapshot is complete.\<close>

definition WatchProjection ::
    "gostring \<Rightarrow> gostring \<Rightarrow> gostring \<Rightarrow> gostring list \<Rightarrow> gostring \<Rightarrow> projectionWatchReply \<Rightarrow> ProjectedValuation list \<Rightarrow> ProjectionWatchStream" where
  "WatchProjection name window exchange paths pre reply vs =
     \<lparr>pw_base = newWatchStream\<lparr>wt_unsubs := [Unlisten_Frames, Unlisten_Mids, Unlisten_Gap, Unlisten_Status, Unlisten_Auth, Unlisten_Rotated, Shutdown]\<rparr>,
      pw_name = name, pw_fields = py_Fields reply, pw_window = (if py_Window reply \<noteq> [] then py_Window reply else window),
      pw_exchange = (if exchange = [] then ''sim'' else exchange), pw_stopped = False, pw_watchID = py_WatchID reply,
      pw_paths = paths, pw_prefix = pre, pw_rows = rowsByPath vs, pw_mids = Map.empty, pw_markets = {},
      pw_renderConnect = False, pw_renderCh = False, pw_recreating = False, pw_redo = False,
      pw_resyncing = False, pw_resyncAgain = False\<rparr>"

definition requestRender :: "bool \<Rightarrow> ProjectionWatchStream \<Rightarrow> ProjectionWatchStream" where
  "requestRender connect s = s\<lparr>pw_renderConnect := pw_renderConnect s \<or> connect, pw_renderCh := True\<rparr>"

text \<open>A frame: removals first, then the rows that decode.\<close>

definition apply_frame :: "gostring list \<Rightarrow> (gostring \<times> raw_row) list \<Rightarrow> rows \<Rightarrow> rows" where
  "apply_frame removed valuations m =
     foldl (\<lambda>m (path, raw). case UnmarshalJSON raw of Some v \<Rightarrow> m(path \<mapsto> v) | None \<Rightarrow> m)
       (foldl (\<lambda>m p. m(p := None)) m removed) valuations"

record frame =
  fr_Projection :: gostring
  fr_WatchID :: gostring
  fr_Removed :: "gostring list"
  fr_Valuations :: "(gostring \<times> raw_row) list"

definition onFrame :: "frame \<Rightarrow> ProjectionWatchStream \<Rightarrow> ProjectionWatchStream" where
  "onFrame ev s =
     (if fr_Projection ev = [] \<or> fr_WatchID ev = [] then s
      else if pw_stopped s \<or> fr_WatchID ev \<noteq> pw_watchID s then s
      else requestRender True (s\<lparr>pw_rows := apply_frame (fr_Removed ev) (fr_Valuations ev) (pw_rows s)\<rparr>))"

definition onMids :: "mids \<Rightarrow> ProjectionWatchStream \<Rightarrow> ProjectionWatchStream" where
  "onMids mids s =
     (let s1 = s\<lparr>pw_mids := pw_mids s ++ mids\<rparr> in
      if dom mids \<inter> pw_markets s \<noteq> {} then requestRender False s1 else s1)"

definition viewLocked :: "ProjectionWatchStream \<Rightarrow> rows" where
  "viewLocked s =
     (\<lambda>p. map_option (\<lambda>v. if pw_mids s \<noteq> Map.empty then RevalueProjectedValuation v (pw_mids s) else v) (pw_rows s p))"

definition render :: "ProjectionWatchStream \<Rightarrow> ProjectionWatchStream \<times> (rows, projection_release) effect list" where
  "render s =
     (if \<not> pw_renderCh s then (s, [])
      else (case publish (viewLocked s) (pw_renderConnect s \<and> \<not> pw_recreating s) (pw_base s) of
              (b, es) \<Rightarrow> (s\<lparr>pw_base := b, pw_renderConnect := False, pw_renderCh := False\<rparr>, es)))"

definition replaceRows :: "gostring \<Rightarrow> ProjectedValuation list \<Rightarrow> ProjectionWatchStream \<Rightarrow> ProjectionWatchStream" where
  "replaceRows watchID vs s =
     (if pw_stopped s \<or> pw_watchID s \<noteq> watchID then s else requestRender True (s\<lparr>pw_rows := rowsByPath vs\<rparr>))"

definition IsStale :: "ProjectionWatchStream \<Rightarrow> bool" where
  "IsStale s \<longleftrightarrow> wt_state (pw_base s) \<noteq> WatchConnected \<or> pw_resyncing s \<or> pw_recreating s"

text \<open>A scope change: the scope is stored with the watch it is sent for, the snapshot replaces the rows under that watch.\<close>

definition scope_begin :: "gostring list \<Rightarrow> gostring \<Rightarrow> ProjectionWatchStream \<Rightarrow> ProjectionWatchStream \<times> gostring option" where
  "scope_begin paths pre s =
     (if pw_stopped s then (s, None) else (s\<lparr>pw_paths := paths, pw_prefix := pre\<rparr>, Some (pw_watchID s)))"

text \<open>A re-created watch takes over, unless the stream stopped meanwhile; the watches to destroy.\<close>

definition recreated :: "gostring \<Rightarrow> projectionWatchReply \<Rightarrow> ProjectedValuation list \<Rightarrow> ProjectionWatchStream \<Rightarrow> ProjectionWatchStream \<times> gostring list" where
  "recreated previous reply vs s =
     (if pw_stopped s then (s, [py_WatchID reply])
      else (s\<lparr>pw_watchID := py_WatchID reply, pw_rows := rowsByPath vs\<rparr>,
            if previous \<noteq> [] \<and> previous \<noteq> py_WatchID reply then [previous] else []))"

text \<open>The gates of \<^verbatim>\<open>recreate\<close> and \<^verbatim>\<open>resync\<close>: whether a run starts, and whether one follows.\<close>

definition recreate :: "ProjectionWatchStream \<Rightarrow> ProjectionWatchStream \<times> bool" where
  "recreate s =
     (if pw_stopped s then (s, False)
      else if pw_recreating s then (s\<lparr>pw_redo := True\<rparr>, False)
      else (s\<lparr>pw_recreating := True\<rparr>, True))"

definition recreate_over :: "bool \<Rightarrow> ProjectionWatchStream \<Rightarrow> ProjectionWatchStream \<times> bool" where
  "recreate_over ok s =
     (let again = pw_redo s \<and> \<not> pw_stopped s; s1 = s\<lparr>pw_redo := False\<rparr> in
      if again then (s1, True)
      else ((if ok then requestRender True else (\<lambda>x. x)) (s1\<lparr>pw_recreating := False\<rparr>), False))"

definition resync :: "ProjectionWatchStream \<Rightarrow> ProjectionWatchStream \<times> bool" where
  "resync s =
     (if wt_state (pw_base s) \<noteq> WatchConnected \<or> pw_stopped s \<or> pw_recreating s then (s, False)
      else if pw_resyncing s then (s\<lparr>pw_resyncAgain := True\<rparr>, False)
      else (s\<lparr>pw_resyncing := True, pw_resyncAgain := False\<rparr>, True))"

text \<open>
  After a successful re-read: once more if another gap came.  The flag is cleared in a later section, and after a failed
  re-read only once a re-creation is over.
\<close>

definition resync_check :: "ProjectionWatchStream \<Rightarrow> ProjectionWatchStream \<times> bool" where
  "resync_check s = (if pw_resyncAgain s \<and> \<not> pw_stopped s then (s\<lparr>pw_resyncAgain := False\<rparr>, True) else (s, False))"

definition resync_end :: "ProjectionWatchStream \<Rightarrow> ProjectionWatchStream" where
  "resync_end s = s\<lparr>pw_resyncing := False\<rparr>"

section \<open>The mids interest\<close>

definition row_markets :: "rows \<Rightarrow> gostring set" where
  "row_markets m = (\<Union>v\<in>ran m. set (filter (\<lambda>x. x \<noteq> []) (map pv_Market (prv_Positions v))))"

text \<open>\<^verbatim>\<open>syncMarkets\<close> and \<^verbatim>\<open>shutdown\<close> on the stream and the registry; \<^verbatim>\<open>marketsMu\<close> makes each one step.\<close>

definition syncMarkets :: "ProjectionWatchStream \<times> subs \<Rightarrow> ProjectionWatchStream \<times> subs" where
  "syncMarkets x =
     (case x of (s, r) \<Rightarrow>
        if pw_stopped s then x
        else (let want = row_markets (pw_rows s);
                  add = sorted_list_of_set (want - pw_markets s);
                  drop_list = sorted_list_of_set (pw_markets s - want);
                  r1 = (if add \<noteq> [] then fst (acquireMids (pw_exchange s) add r) else r);
                  r2 = (if drop_list \<noteq> [] then fst (releaseMids drop_list r1) else r1) in
              (s\<lparr>pw_markets := want\<rparr>, r2)))"

definition shutdown :: "ProjectionWatchStream \<times> subs \<Rightarrow> ProjectionWatchStream \<times> subs" where
  "shutdown x =
     (case x of (s, r) \<Rightarrow>
        (let held = sorted_list_of_set (pw_markets s) in
         (s\<lparr>pw_stopped := True, pw_markets := {}\<rparr>, if held \<noteq> [] then fst (releaseMids held r) else r)))"

section \<open>Frames bring the rows to the server's\<close>

text \<open>A frame says how the server's rows went from \<^verbatim>\<open>m\<close> to \<^verbatim>\<open>m'\<close>: it removes what is gone and carries what changed.\<close>

definition delta :: "rows \<Rightarrow> frame \<Rightarrow> rows \<Rightarrow> bool" where
  "delta m fr m' \<longleftrightarrow>
     (\<forall>(p, raw)\<in>set (fr_Valuations fr). m' p \<noteq> None \<and> UnmarshalJSON raw = m' p)
     \<and> (\<forall>p. p \<notin> fst ` set (fr_Valuations fr) \<longrightarrow> m' p = (if p \<in> set (fr_Removed fr) then None else m p))"

lemma foldl_removed: "foldl (\<lambda>m p. m(p := None)) m removed p = (if p \<in> set removed then None else m p)"
  by (induction removed arbitrary: m) auto

lemma foldl_valuations:
  "\<forall>(p, raw)\<in>set vals. m' p \<noteq> None \<and> UnmarshalJSON raw = m' p \<Longrightarrow>
     foldl (\<lambda>m (path, raw). case UnmarshalJSON raw of Some v \<Rightarrow> m(path \<mapsto> v) | None \<Rightarrow> m) m vals p
       = (if p \<in> fst ` set vals then m' p else m p)"
  by (induction vals arbitrary: m) (auto split: option.split)

lemma apply_frame_delta:
  assumes "delta m fr m'"
  shows "apply_frame (fr_Removed fr) (fr_Valuations fr) m = m'"
proof
  fix p
  show "apply_frame (fr_Removed fr) (fr_Valuations fr) m p = m' p"
    using assms foldl_valuations [of "fr_Valuations fr" m'] by (simp add: apply_frame_def delta_def foldl_removed)
qed

text \<open>The server's rows after the frames of one watch, in order, among frames of others.\<close>

inductive server_sends :: "gostring \<Rightarrow> rows \<Rightarrow> frame list \<Rightarrow> rows \<Rightarrow> bool" for w where
  nothing: "server_sends w m [] m"
| mine: "fr_WatchID fr = w \<Longrightarrow> fr_Projection fr \<noteq> [] \<Longrightarrow> delta m fr m1 \<Longrightarrow> server_sends w m1 frs m2 \<Longrightarrow> server_sends w m (fr # frs) m2"
| other: "fr_WatchID fr \<noteq> w \<Longrightarrow> server_sends w m frs m2 \<Longrightarrow> server_sends w m (fr # frs) m2"

lemma onFrame_frame [simp]:
  "pw_watchID (onFrame fr s) = pw_watchID s" "pw_stopped (onFrame fr s) = pw_stopped s" "pw_markets (onFrame fr s) = pw_markets s"
  "pw_exchange (onFrame fr s) = pw_exchange s"
  by (simp_all add: onFrame_def requestRender_def)

lemma frames_follow:
  assumes "server_sends w m frs m'" "pw_watchID s = w" "w \<noteq> []" "\<not> pw_stopped s" "pw_rows s = m"
  shows "pw_rows (foldl (\<lambda>s fr. onFrame fr s) s frs) = m'"
  using assms
proof (induction arbitrary: s rule: server_sends.induct)
  case (mine fr m m1 frs m2)
  have "pw_rows (onFrame fr s) = m1"
    using mine.hyps(1-3) mine.prems apply_frame_delta by (simp add: onFrame_def requestRender_def)
  then show ?case using mine.IH [of "onFrame fr s"] mine.prems by simp
next
  case (other fr m frs m2)
  then have "onFrame fr s = s" by (auto simp: onFrame_def)
  then show ?case using other by simp
qed simp

section \<open>Pages of a scope\<close>

text \<open>The server's cursors lead through the pages and end.\<close>

fun cursor_chain :: "(gostring \<Rightarrow> error + ProjectionValuationsResponse) \<Rightarrow> gostring \<Rightarrow> ProjectionValuationsResponse list \<Rightarrow> bool" where
  "cursor_chain read c [] = (c = [])"
| "cursor_chain read c (p # ps) = (c \<noteq> [] \<and> read c = Inr p \<and> cursor_chain read (nextCursor p) ps)"

lemma fetch_pages_chain:
  "cursor_chain read c ps \<Longrightarrow> fetch_pages read c vs = Some (Inr (vs @ concat (map Rows ps)))"
proof (induction ps arbitrary: c vs)
  case Nil
  then show ?case by (simp add: fetch_pages.simps)
next
  case (Cons p ps)
  then show ?case by (subst fetch_pages.simps) simp
qed

section \<open>Each market is held once\<close>

definition rows_finite :: "ProjectionWatchStream \<Rightarrow> bool" where
  "rows_finite s \<longleftrightarrow> finite (dom (pw_rows s)) \<and> finite (pw_markets s)"

lemma row_markets_finite: "finite (dom m) \<Longrightarrow> finite (row_markets m)"
  unfolding row_markets_def by (intro finite_UN_I finite_ran) auto

lemma fold_acquire:
  "ref_ok r \<Longrightarrow> distinct ks \<Longrightarrow>
     ref_ok (foldl ref_acquire r ks) \<and> ref_get (foldl ref_acquire r ks) k = ref_get r k + (if k \<in> set ks then 1 else 0)"
  by (induction ks arbitrary: r) (auto simp: shared_refs.ok_acquire shared_refs.count_acquire)

lemma fold_release:
  "ref_ok r \<Longrightarrow> distinct ks \<Longrightarrow> \<forall>k\<in>set ks. 0 < ref_get r k \<Longrightarrow>
     ref_ok (foldl ref_release r ks) \<and> ref_get (foldl ref_release r ks) k = ref_get r k - (if k \<in> set ks then 1 else 0)"
proof (induction ks arbitrary: r)
  case (Cons a ks)
  have "\<forall>k\<in>set ks. 0 < ref_get (ref_release r a) k"
    using Cons.prems by (auto simp: shared_refs.count_release)
  then show ?case using Cons.IH [of "ref_release r a"] Cons.prems
    by (auto simp: shared_refs.ok_release shared_refs.count_release)
qed simp

text \<open>What the registry counts: others' references and this stream's own.\<close>

definition balanced :: "(gostring \<Rightarrow> int) \<Rightarrow> ProjectionWatchStream \<times> subs \<Rightarrow> bool" where
  "balanced others x \<longleftrightarrow>
     ref_ok (sb_midsCoins (snd x)) \<and> rows_finite (fst x)
     \<and> (\<forall>m. ref_get (sb_midsCoins (snd x)) m = others m + (if m \<in> pw_markets (fst x) then 1 else 0))"

lemma acquire_coins: "ks \<noteq> [] \<Longrightarrow> sb_midsCoins (fst (acquireMids e ks r)) = foldl ref_acquire (sb_midsCoins r) ks"
  by (simp add: acquireMids_def Let_def)

lemma release_coins: "ks \<noteq> [] \<Longrightarrow> sb_midsCoins (fst (releaseMids ks r)) = foldl ref_release (sb_midsCoins r) ks"
  by (simp add: releaseMids_def Let_def)

lemma syncMarkets_balanced:
  assumes b: "balanced others x" and o: "\<forall>m. 0 \<le> others m"
  shows "balanced others (syncMarkets x)" "\<not> pw_stopped (fst x) \<Longrightarrow> pw_markets (fst (syncMarkets x)) = row_markets (pw_rows (fst (syncMarkets x)))"
proof -
  obtain s r where x: "x = (s, r)" by (cases x)
  define add where "add = sorted_list_of_set (row_markets (pw_rows s) - pw_markets s)"
  define del where "del = sorted_list_of_set (pw_markets s - row_markets (pw_rows s))"
  define r1 where "r1 = (if add \<noteq> [] then fst (acquireMids (pw_exchange s) add r) else r)"
  define r2 where "r2 = (if del \<noteq> [] then fst (releaseMids del r1) else r1)"
  have fin: "finite (row_markets (pw_rows s))" "finite (pw_markets s)" "finite (dom (pw_rows s))"
    using b row_markets_finite by (auto simp: x balanced_def rows_finite_def)
  have sets: "set add = row_markets (pw_rows s) - pw_markets s" "set del = pw_markets s - row_markets (pw_rows s)" "distinct add" "distinct del"
    using fin by (simp_all add: add_def del_def)
  have cnt: "ref_ok (sb_midsCoins r)" "\<And>m. ref_get (sb_midsCoins r) m = others m + (if m \<in> pw_markets s then 1 else 0)"
    using b by (auto simp: x balanced_def)
  have c1: "sb_midsCoins r1 = foldl ref_acquire (sb_midsCoins r) add" by (simp add: r1_def acquire_coins)
  have a: "ref_ok (sb_midsCoins r1) \<and> ref_get (sb_midsCoins r1) m = ref_get (sb_midsCoins r) m + (if m \<in> set add then 1 else 0)" for m
    using fold_acquire [OF cnt(1) sets(3)] c1 by simp
  have "\<forall>k\<in>set del. 0 < ref_get (sb_midsCoins r1) k" using a cnt(2) sets o by (auto simp: add_nonneg_pos)
  moreover have "sb_midsCoins r2 = foldl ref_release (sb_midsCoins r1) del" by (simp add: r2_def release_coins)
  ultimately have d: "ref_ok (sb_midsCoins r2) \<and> ref_get (sb_midsCoins r2) m = ref_get (sb_midsCoins r1) m - (if m \<in> set del then 1 else 0)" for m
    using fold_release [of "sb_midsCoins r1" del m] a sets(4) by simp
  have eq: "syncMarkets (s, r) = (if pw_stopped s then (s, r) else (s\<lparr>pw_markets := row_markets (pw_rows s)\<rparr>, r2))"
    by (simp add: syncMarkets_def Let_def add_def del_def r1_def r2_def)
  show "balanced others (syncMarkets x)"
    using b d a cnt(2) sets(1,2) fin by (auto simp: eq balanced_def rows_finite_def x)
  show "\<not> pw_stopped (fst x) \<Longrightarrow> pw_markets (fst (syncMarkets x)) = row_markets (pw_rows (fst (syncMarkets x)))"
    by (simp add: eq x)
qed

lemma shutdown_balanced:
  assumes b: "balanced others x" and o: "\<forall>m. 0 \<le> others m"
  shows "balanced others (shutdown x)" "pw_markets (fst (shutdown x)) = {}" "pw_stopped (fst (shutdown x))"
proof -
  obtain s r where x: "x = (s, r)" by (cases x)
  define held where "held = sorted_list_of_set (pw_markets s)"
  define r2 where "r2 = (if held \<noteq> [] then fst (releaseMids held r) else r)"
  have h: "set held = pw_markets s" "distinct held" using b by (auto simp: held_def x balanced_def rows_finite_def)
  have cnt: "ref_ok (sb_midsCoins r)" "\<And>m. ref_get (sb_midsCoins r) m = others m + (if m \<in> pw_markets s then 1 else 0)"
    using b by (auto simp: x balanced_def)
  have "\<forall>k\<in>set held. 0 < ref_get (sb_midsCoins r) k" using cnt(2) h o by (auto simp: add_nonneg_pos)
  moreover have "sb_midsCoins r2 = foldl ref_release (sb_midsCoins r) held" by (simp add: r2_def release_coins)
  ultimately have d: "ref_ok (sb_midsCoins r2) \<and> ref_get (sb_midsCoins r2) m = ref_get (sb_midsCoins r) m - (if m \<in> set held then 1 else 0)" for m
    using fold_release [of "sb_midsCoins r" held m] cnt(1) h(2) by simp
  have eq: "shutdown (s, r) = (s\<lparr>pw_stopped := True, pw_markets := {}\<rparr>, r2)" by (simp add: shutdown_def Let_def held_def r2_def)
  show "balanced others (shutdown x)" using b d cnt(2) h(1) by (auto simp: eq balanced_def rows_finite_def x)
  show "pw_markets (fst (shutdown x)) = {}" "pw_stopped (fst (shutdown x))" by (simp_all add: eq x)
qed

text \<open>The operations that touch the rows or the interest, in any order.\<close>

datatype projection_op =
    Frame_In frame
  | Mids_In mids
  | Replace gostring "ProjectedValuation list"
  | Recreated gostring projectionWatchReply "ProjectedValuation list"
  | Scope "gostring list" gostring
  | Render
  | Sync_Markets
  | Shut_Down

fun projection_step :: "projection_op \<Rightarrow> ProjectionWatchStream \<times> subs \<Rightarrow> ProjectionWatchStream \<times> subs" where
  "projection_step (Frame_In fr) (s, r) = (onFrame fr s, r)"
| "projection_step (Mids_In ms) (s, r) = (onMids ms s, r)"
| "projection_step (Replace w vs) (s, r) = (replaceRows w vs s, r)"
| "projection_step (Recreated p reply vs) (s, r) = (fst (recreated p reply vs s), r)"
| "projection_step (Scope ps pre) (s, r) = (fst (scope_begin ps pre s), r)"
| "projection_step Render (s, r) = (fst (render s), r)"
| "projection_step Sync_Markets x = syncMarkets x"
| "projection_step Shut_Down x = shutdown x"

fun run_projection :: "projection_op list \<Rightarrow> ProjectionWatchStream \<times> subs \<Rightarrow> ProjectionWatchStream \<times> subs" where
  "run_projection [] x = x"
| "run_projection (y # ys) x = run_projection ys (projection_step y x)"

lemma removed_finite: "finite (dom m) \<Longrightarrow> finite (dom (foldl (\<lambda>m p. m(p := None)) m removed))"
  by (induction removed arbitrary: m) auto

lemma valuations_finite:
  "finite (dom m) \<Longrightarrow> finite (dom (foldl (\<lambda>m (path, raw). case UnmarshalJSON raw of Some v \<Rightarrow> m(path \<mapsto> v) | None \<Rightarrow> m) m vals))"
  by (induction vals arbitrary: m) (auto split: option.split)

lemma rowsByPath_finite: "finite (dom (rowsByPath vs))"
proof -
  have "finite (dom m) \<Longrightarrow> finite (dom (foldl (\<lambda>m r. m(prv_Path r \<mapsto> r)) m vs))" for m :: rows
    by (induction vs arbitrary: m) auto
  then show ?thesis by (simp add: rowsByPath_def)
qed

lemma rows_finite_step:
  assumes "rows_finite s"
  shows "rows_finite (onFrame fr s)" "rows_finite (onMids ms s)" "rows_finite (replaceRows w vs s)"
    "rows_finite (fst (recreated p reply vs s))" "rows_finite (fst (scope_begin ps pre s))" "rows_finite (fst (render s))"
  using assms rowsByPath_finite [of vs]
  by (auto simp: rows_finite_def onFrame_def onMids_def requestRender_def replaceRows_def recreated_def scope_begin_def render_def
      apply_frame_def removed_finite valuations_finite Let_def case_prod_beta)

lemma markets_frame:
  "pw_markets (onMids ms s) = pw_markets s" "pw_markets (replaceRows w vs s) = pw_markets s"
  "pw_markets (fst (recreated p reply vs s)) = pw_markets s" "pw_markets (fst (scope_begin ps pre s)) = pw_markets s"
  "pw_markets (fst (render s)) = pw_markets s"
  by (simp_all add: onMids_def requestRender_def replaceRows_def recreated_def scope_begin_def render_def Let_def case_prod_beta)

lemma balanced_step:
  assumes "balanced others x" "\<forall>m. 0 \<le> others m"
  shows "balanced others (projection_step y x)"
proof -
  obtain s r where x: "x = (s, r)" by (cases x)
  show ?thesis
    using assms(1) syncMarkets_balanced(1) [OF assms] shutdown_balanced(1) [OF assms] rows_finite_step [of s] markets_frame
    by (cases y) (auto simp: x balanced_def)
qed

lemma balanced_run: "balanced others x \<Longrightarrow> \<forall>m. 0 \<le> others m \<Longrightarrow> balanced others (run_projection ys x)"
proof (induction ys arbitrary: x)
  case (Cons y ys)
  then show ?case using balanced_step [OF Cons.prems, of y] by simp
qed simp

lemma run_projection_append: "run_projection (ys @ zs) x = run_projection zs (run_projection ys x)"
  by (induction ys arbitrary: x) auto

section \<open>Triggers\<close>

interpretation recreation: coalescing_gate pw_recreating pw_redo pw_stopped recreate "recreate_over ok" for ok
  by unfold_locales (auto simp: recreate_def recreate_over_def requestRender_def Let_def)

text \<open>
  \<^verbatim>\<open>resync\<close> is not such a gate: its check for another gap and the clearing of its flag are separate sections, and a gap
  reported in between is neither re-read nor remembered.
\<close>

lemma gap_between_sections_is_lost:
  assumes "pw_resyncing s" "\<not> pw_resyncAgain s" "wt_state (pw_base s) = WatchConnected" "\<not> pw_stopped s" "\<not> pw_recreating s"
  defines "s1 \<equiv> fst (resync_check s)"
  shows "\<not> snd (resync_check s) \<and> \<not> snd (resync s1)
    \<and> \<not> pw_resyncing (resync_end (fst (resync s1))) \<and> pw_rows (resync_end (fst (resync s1))) = pw_rows s"
  using assms by (simp add: resync_def resync_check_def resync_end_def)

text \<open>
  A frame of a watch that is being re-created arrives under an id the stream does not know yet and is dropped; the
  snapshot that then takes over is the older one.
\<close>

lemma frame_of_new_watch_is_dropped:
  assumes "fr_WatchID fr = py_WatchID reply" "fr_WatchID fr \<noteq> pw_watchID s" "\<not> pw_stopped s"
  shows "pw_rows (fst (recreated (pw_watchID s) reply vs (onFrame fr s))) = rowsByPath vs"
  using assms by (simp add: onFrame_def recreated_def)

section \<open>Properties\<close>


definition sample_valuation :: ProjectedValuation where
  "sample_valuation =
     \<lparr>prv_ObjectID = ''o1'', prv_Path = ''/a'', prv_Type = ''exchange'', prv_MidsComplete = None, prv_PricingMode = [],
      prv_Equity = Some ''10'', prv_RealizedValue = None, prv_UnrealizedValue = None, prv_Positions = [],
      prv_Pnl = None, prv_Volume = None\<rparr>"

definition sample_reply :: projectionWatchReply where
  "sample_reply = \<lparr>py_WatchID = ''w1'', py_Fields = [], py_Window = [], py_Valuations = [Some (sample_valuation, None, None)], py_Cursor = []\<rparr>"

definition sample_frame :: frame where
  "sample_frame = \<lparr>fr_Projection = ''board'', fr_WatchID = ''w1'', fr_Removed = [''/a''], fr_Valuations = []\<rparr>"


text \<open>C25: whatever frames, snapshots, scope changes and re-creations come, in any order, the registry counts each market the
  stream holds exactly once on top of what others hold; right after a sync the held markets are exactly those of the
  rows; and once the stream has shut down nothing of its interest is left.\<close>

theorem mids_interest_balanced:
  fixes ops name window exchange paths pre reply vs
  assumes "ref_ok (sb_midsCoins r)"
  defines "x \<equiv> run_projection ops (WatchProjection name window exchange paths pre reply vs, r)"
  shows "ref_get (sb_midsCoins (snd x)) m = ref_get (sb_midsCoins r) m + (if m \<in> pw_markets (fst x) then 1 else 0)
    \<and> (\<not> pw_stopped (fst x) \<longrightarrow> pw_markets (fst (syncMarkets x)) = row_markets (pw_rows (fst x)))
    \<and> ref_get (sb_midsCoins (snd (shutdown x))) m = ref_get (sb_midsCoins r) m"
proof -
  let ?s = "WatchProjection name window exchange paths pre reply vs"
  have o: "\<forall>m. 0 \<le> ref_get (sb_midsCoins r) m" using ref_get_nonneg [OF assms(1)] by blast
  have "balanced (ref_get (sb_midsCoins r)) (?s, r)"
    using assms(1) rowsByPath_finite by (simp add: balanced_def rows_finite_def WatchProjection_def)
  then have b: "balanced (ref_get (sb_midsCoins r)) x" unfolding x_def by (rule balanced_run [OF _ o])
  have "pw_rows (fst (syncMarkets x)) = pw_rows (fst x)" by (simp add: syncMarkets_def Let_def case_prod_beta)
  then show ?thesis
    using b syncMarkets_balanced(2) [OF b o] shutdown_balanced(1,2) [OF b o] by (simp add: balanced_def)
qed

theorem mids_interest_balanced_witness:
  "ref_get (sb_midsCoins (snd (shutdown (run_projection [Sync_Markets]
      (WatchProjection ''board'' [] [] [] ''/'' sample_reply [sample_valuation], no_subs))))) ''BTC'' = 0"
proof -
  have "ref_ok (sb_midsCoins no_subs)" by (simp add: no_subs_def ref_ok_def)
  from mids_interest_balanced [OF this, where ops = "[Sync_Markets]" and name = "''board''" and window = "[]" and exchange = "[]"
      and paths = "[]" and pre = "''/''" and reply = sample_reply and vs = "[sample_valuation]" and m = "''BTC''"]
  show ?thesis by (simp add: no_subs_def ref_get_def)
qed

end
