(* ===== verification/Sse_Frames.thy ===== *)
theory Sse_Frames
  imports Http_Client
begin

text \<open>
  What the SDK's server-sent-event streams share: opening the connection, \<^verbatim>\<open>bufio.Scanner\<close> reading lines from
  the response body, the frame buffer a reader fills line by line, and the errors a stream ends with.
  \<^verbatim>\<open>StreamAddressObservations\<close>, \<^verbatim>\<open>StreamCashV9WalletAccount\<close>, \<^verbatim>\<open>StreamFundingV9Operation\<close> and
  \<^verbatim>\<open>readFundingWalletSSE\<close> are built from them.

  The locale \<^verbatim>\<open>sse_reader\<close> is the contract of a reader that handles one line at a time and dispatches a frame
  at the blank line that ends it.  It shows that complete frames are dispatched one by one and that a
  frame the connection cut off is dropped.  No constructor of the SDK sets the client's
  \<^verbatim>\<open>headerHook\<close>, so the requests carry no further headers.
\<close>

section \<open>Errors\<close>

text \<open>
  What a stream call returns: an error of the client or a library, a message of \<^verbatim>\<open>fmt.Errorf\<close>, a frame that does
  not decode, or one of the typed stream errors; a disconnect says where to resume.
\<close>

datatype 'c stream_error =
    Base error
  | Refused gostring
  | BadFrame gostring
  | CursorExpired ArcaError gostring
  | SchemaError int
  | Disconnected 'c "'c stream_error"
  | StreamReset gostring gostring gostring

definition errUnexpectedEOF :: "'c stream_error" where
  "errUnexpectedEOF = Base (Plain ''unexpected EOF'')"

text \<open>\<^verbatim>\<open>errors.As\<close> for a disconnect: where to resume.\<close>

fun as_disconnected :: "'c stream_error \<Rightarrow> 'c option" where
  "as_disconnected (Disconnected c e) = Some c"
| "as_disconnected _ = None"

section \<open>The connection\<close>

record sse_request =
  sq_URL :: gostring
  sq_Bearer :: gostring
  sq_LastEventID :: "gostring option"

text \<open>
  A reply: what \<^verbatim>\<open>unwrap\<close> reads when the status is not 200, the content type, and the bytes the connection
  delivers before it ends, with the read error (\<^const>\<open>None\<close> at a clean end).
\<close>

record sse_reply =
  sr_http :: http_response
  sr_ContentType :: gostring
  sr_Body :: gostring
  sr_ReadErr :: "gostring option"

record 'w sse_env =
  se_realmID :: "'w \<Rightarrow> 'w \<times> (error + gostring)"
  se_buildURL :: "gostring \<Rightarrow> (gostring \<times> gostring) list \<Rightarrow> error + gostring"
  se_credential :: "'w \<Rightarrow> gostring"
  se_do :: "'w \<Rightarrow> sse_request \<Rightarrow> 'w \<times> (gostring + sse_reply)"
  se_parse :: "gostring \<Rightarrow> jtext"
  se_ctxErr :: "'w \<Rightarrow> gostring option"
  se_rand :: "'w \<Rightarrow> int \<Rightarrow> 'w \<times> int"
  se_wait :: "'w \<Rightarrow> int \<Rightarrow> 'w \<times> gostring option"

text \<open>\<^verbatim>\<open>buildURL\<close>, \<^verbatim>\<open>NewRequestWithContext\<close>, the headers and \<^verbatim>\<open>client.Do\<close>.\<close>

definition sse_open ::
    "'w sse_env \<Rightarrow> gostring \<Rightarrow> (gostring \<times> gostring) list \<Rightarrow> gostring option \<Rightarrow> 'w
       \<Rightarrow> 'w \<times> (error + gostring + sse_reply)" where
  "sse_open env path query lastID w =
     (case se_buildURL env path query of
        Inl e \<Rightarrow> (w, Inl e)
      | Inr u \<Rightarrow>
          (let (w', r) = se_do env w \<lparr>sq_URL = u, sq_Bearer = ''Bearer '' @ se_credential env w,
                                     sq_LastEventID = lastID\<rparr> in
           (w', Inr r)))"

text \<open>\<^verbatim>\<open>a.client.unwrap(response, nil)\<close>: no error when the envelope reports success.\<close>

definition unwrap_err :: "http_response \<Rightarrow> error option" where
  "unwrap_err resp = (case unwrap (\<lambda>_. Inr ()) resp of Inl e \<Rightarrow> Some e | Inr _ \<Rightarrow> None)"

section \<open>The scanner\<close>

text \<open>
  \<^verbatim>\<open>bufio.ScanLines\<close> with a buffer of at most \<^verbatim>\<open>cap\<close> bytes: a line ends at a newline and loses one trailing
  carriage return, an unterminated last line still counts, and a line that fills the buffer ends the scan.
\<close>

definition dropCR :: "gostring \<Rightarrow> gostring" where
  "dropCR l = (if l \<noteq> [] \<and> last l = CHR 0x0D then butlast l else l)"

definition raw_lines :: "gostring \<Rightarrow> gostring list" where
  "raw_lines s = (let ps = SplitByte newline s in if last ps = [] then butlast ps else ps)"

definition scan_lines :: "nat \<Rightarrow> gostring \<Rightarrow> gostring list" where
  "scan_lines cap s = map dropCR (takeWhile (\<lambda>l. length l < cap) (raw_lines s))"

definition scan_cause :: "nat \<Rightarrow> gostring \<Rightarrow> gostring option \<Rightarrow> 'c stream_error option" where
  "scan_cause cap s readErr =
     (if list_all (\<lambda>l. length l < cap) (raw_lines s) then map_option (\<lambda>e. Base (Plain e)) readErr
      else Some (Base (Plain ''bufio.Scanner: token too long'')))"

text \<open>\<^verbatim>\<open>for scanner.Scan() { ... }\<close>: the body may return an error.\<close>

fun scan_each :: "(gostring \<Rightarrow> 's \<Rightarrow> 'e option \<times> 's) \<Rightarrow> gostring list \<Rightarrow> 's \<Rightarrow> 'e option \<times> 's" where
  "scan_each step [] s = (None, s)"
| "scan_each step (l # ls) s =
     (case step l s of (Some e, s') \<Rightarrow> (Some e, s') | (None, s') \<Rightarrow> scan_each step ls s')"

section \<open>Frames\<close>

record frame_buf =
  fb_event :: gostring
  fb_id :: gostring
  fb_data :: "gostring list"

definition empty_frame :: frame_buf where
  "empty_frame = \<lparr>fb_event = [], fb_id = [], fb_data = []\<rparr>"

text \<open>The \<^verbatim>\<open>id:\<close>, \<^verbatim>\<open>event:\<close> and \<^verbatim>\<open>data:\<close> cases of the readers' switch.\<close>

definition value_of :: "gostring \<Rightarrow> gostring \<Rightarrow> gostring" where
  "value_of field line = TrimSpace (TrimPrefix line field)"

definition data_of :: "gostring \<Rightarrow> gostring" where
  "data_of line = TrimPrefix (TrimPrefix line ''data:'') '' ''"

text \<open>The wire form of a frame or of a heartbeat comment: its lines, and the bytes of a list of lines.\<close>

datatype wire_item = Sent frame_buf | Heartbeat gostring

fun item_lines :: "wire_item \<Rightarrow> gostring list" where
  "item_lines (Sent f) =
     (''id: '' @ fb_id f) # (''event: '' @ fb_event f) # map (\<lambda>d. ''data: '' @ d) (fb_data f) @ [[]]"
| "item_lines (Heartbeat c) = ['':'' @ c, []]"

definition line_bytes :: "gostring list \<Rightarrow> gostring" where
  "line_bytes ls = concat (map (\<lambda>l. l @ [newline]) ls)"

text \<open>An item a server can send: trimmed single-line fields, at least one data line, and no line the scanner alters.\<close>

definition plain_line :: "nat \<Rightarrow> gostring \<Rightarrow> bool" where
  "plain_line cap l \<longleftrightarrow> newline \<notin> set l \<and> dropCR l = l \<and> length l < cap"

definition item_ok :: "nat \<Rightarrow> wire_item \<Rightarrow> bool" where
  "item_ok cap i \<longleftrightarrow> list_all (plain_line cap) (item_lines i)
     \<and> (case i of Sent f \<Rightarrow> TrimSpace (fb_id f) = fb_id f \<and> TrimSpace (fb_event f) = fb_event f \<and> fb_data f \<noteq> []
        | Heartbeat c \<Rightarrow> True)"

section \<open>Lemmas on lines\<close>

lemma line_bytes_simps [simp]:
  "line_bytes [] = []" "line_bytes (l # ls) = l @ newline # line_bytes ls"
  "line_bytes (xs @ ys) = line_bytes xs @ line_bytes ys"
  by (simp_all add: line_bytes_def)

lemma SplitByte_lines:
  "\<forall>l \<in> set ls. newline \<notin> set l \<Longrightarrow> newline \<notin> set tail \<Longrightarrow>
     SplitByte newline (line_bytes ls @ tail) = ls @ [tail]"
  by (induction ls) (simp_all add: SplitByte_notin SplitByte_append)

lemma raw_lines_cut:
  "\<forall>l \<in> set ls. newline \<notin> set l \<Longrightarrow> newline \<notin> set tail \<Longrightarrow>
     raw_lines (line_bytes ls @ tail) = ls @ (if tail = [] then [] else [tail])"
  by (simp add: raw_lines_def SplitByte_lines)

text \<open>Cutting the bytes anywhere leaves whole lines and at most a part of the next one.\<close>

lemma take_line_bytes:
  "\<exists>j \<le> length ls. \<exists>tail. take k (line_bytes ls) = line_bytes (take j ls) @ tail
     \<and> (tail = [] \<or> j < length ls \<and> prefix tail (ls ! j)) \<and> (length (line_bytes ls) \<le> k \<longrightarrow> j = length ls)"
proof (induction ls arbitrary: k)
  case (Cons l ls)
  show ?case
  proof (cases "length l < k")
    case True
    obtain j tail where IH: "j \<le> length ls" "take (k - Suc (length l)) (line_bytes ls) = line_bytes (take j ls) @ tail"
      "tail = [] \<or> j < length ls \<and> prefix tail (ls ! j)"
      "length (line_bytes ls) \<le> k - Suc (length l) \<longrightarrow> j = length ls"
      using Cons.IH [of "k - Suc (length l)"] by blast
    from True obtain n where n: "k - length l = Suc n" "k - Suc (length l) = n" by (cases "k - length l") auto
    show ?thesis
      using IH n True by (intro exI [of _ "Suc j"] exI [of _ tail]) (auto simp: take_Cons')
  next
    case False
    then show ?thesis
      by (intro exI [of _ 0] exI [of _ "take k l"]) (auto simp: take_is_prefix)
  qed
qed simp

lemma scan_lines_cut:
  assumes "\<forall>l \<in> set ls. plain_line cap l"
  shows "\<exists>j \<le> length ls. \<exists>tail. scan_lines cap (take k (line_bytes ls)) = take j ls @ (if tail = [] then [] else [dropCR tail])
     \<and> (tail = [] \<or> j < length ls \<and> prefix tail (ls ! j)) \<and> (length (line_bytes ls) \<le> k \<longrightarrow> j = length ls)"
proof -
  obtain j tail where cut: "j \<le> length ls" "take k (line_bytes ls) = line_bytes (take j ls) @ tail"
    "tail = [] \<or> j < length ls \<and> prefix tail (ls ! j)" "length (line_bytes ls) \<le> k \<longrightarrow> j = length ls"
    using take_line_bytes by blast
  have plain: "\<forall>l \<in> set (take j ls). newline \<notin> set l \<and> dropCR l = l \<and> length l < cap"
    using assms by (auto simp: plain_line_def dest: in_set_takeD)
  have tl: "newline \<notin> set tail" "tail \<noteq> [] \<longrightarrow> length tail < cap"
  proof -
    have "newline \<notin> set tail \<and> length tail < cap" if "tail \<noteq> []"
    proof -
      have "prefix tail (ls ! j)" "ls ! j \<in> set ls" using cut(3) that by auto
      then show ?thesis using assms set_mono_prefix prefix_length_le
        by (fastforce simp: plain_line_def)
    qed
    then show "newline \<notin> set tail" "tail \<noteq> [] \<longrightarrow> length tail < cap" by (cases "tail = []"; auto)+
  qed
  have "raw_lines (take k (line_bytes ls)) = take j ls @ (if tail = [] then [] else [tail])"
    using raw_lines_cut [of "take j ls" tail] plain tl(1) cut(2) by auto
  moreover have "takeWhile (\<lambda>l. length l < cap) (take j ls @ (if tail = [] then [] else [tail]))
      = take j ls @ (if tail = [] then [] else [tail])"
    using plain tl(2) by (intro takeWhile_eq_all_conv [THEN iffD2]) auto
  moreover have "map dropCR (take j ls) = take j ls" using plain by (intro map_idI) auto
  ultimately have "scan_lines cap (take k (line_bytes ls)) = take j ls @ (if tail = [] then [] else [dropCR tail])"
    by (auto simp: scan_lines_def)
  then show ?thesis using cut(1,3,4) by blast
qed

lemma scan_each_append:
  "scan_each step (xs @ ys) s =
     (case scan_each step xs s of (Some e, s') \<Rightarrow> (Some e, s') | (None, s') \<Rightarrow> scan_each step ys s')"
  by (induction xs arbitrary: s) (auto split: prod.splits option.splits)

text \<open>Taking lines off a list of items: whole items, then a proper part of the next.\<close>

lemma take_item_lines:
  "j \<le> length (concat (map item_lines xs)) \<Longrightarrow>
     \<exists>m \<le> length xs. \<exists>r. take j (concat (map item_lines xs)) = concat (map item_lines (take m xs)) @ r
       \<and> (r = [] \<or> m < length xs \<and> (\<exists>z. z \<noteq> [] \<and> item_lines (xs ! m) = r @ z))
       \<and> (j = length (concat (map item_lines xs)) \<longrightarrow> m = length xs)"
proof (induction xs arbitrary: j)
  case (Cons x xs)
  let ?n = "length (item_lines x)"
  show ?case
  proof (cases "?n \<le> j")
    case True
    then have bound: "j - ?n \<le> length (concat (map item_lines xs))" using Cons.prems by simp
    obtain m r where IH: "m \<le> length xs"
      "take (j - ?n) (concat (map item_lines xs)) = concat (map item_lines (take m xs)) @ r"
      "r = [] \<or> m < length xs \<and> (\<exists>z. z \<noteq> [] \<and> item_lines (xs ! m) = r @ z)"
      "j - ?n = length (concat (map item_lines xs)) \<longrightarrow> m = length xs"
      using Cons.IH [OF bound] by blast
    show ?thesis using IH True by (intro exI [of _ "Suc m"] exI [of _ r]) auto
  next
    case False
    then have "\<exists>z. z \<noteq> [] \<and> item_lines x = take j (item_lines x) @ z"
      by (intro exI [of _ "drop j (item_lines x)"]) simp
    then show ?thesis using False
      by (intro exI [of _ 0] exI [of _ "take j (item_lines x)"]) simp
  qed
qed simp

text \<open>The only blank line of an item is its last, and no line starts with a carriage return.\<close>

lemma item_lines_blank: "item_lines x = r @ z \<Longrightarrow> z \<noteq> [] \<Longrightarrow> [] \<notin> set r"
proof -
  assume h: "item_lines x = r @ z" "z \<noteq> []"
  have "[] \<notin> set (butlast (item_lines x))" by (cases x) (auto simp: butlast_append)
  moreover have "set r \<subseteq> set (butlast (item_lines x))" using h by (simp add: butlast_append)
  ultimately show ?thesis by blast
qed

lemma item_line_head: "l \<in> set (item_lines x) \<Longrightarrow> l = [] \<or> hd l \<noteq> CHR 0x0D"
  by (cases x) auto

lemma line_tail:
  assumes "j < length (concat (map item_lines xs)) \<and> prefix tail (concat (map item_lines xs) ! j)" "tail \<noteq> []"
  shows "dropCR tail \<noteq> []"
proof -
  let ?l = "concat (map item_lines xs) ! j"
  have "?l \<in> set (concat (map item_lines xs))" using assms(1) nth_mem by blast
  then have "?l = [] \<or> hd ?l \<noteq> CHR 0x0D" using item_line_head by auto
  moreover have "hd tail = hd ?l" "?l \<noteq> []" using assms by (auto simp: prefix_def)
  ultimately show ?thesis using assms(2) by (cases tail) (auto simp: dropCR_def)
qed

section \<open>Readers\<close>

text \<open>
  A reader: \<^verbatim>\<open>step\<close> handles a line, \<^verbatim>\<open>frame\<close> and \<^verbatim>\<open>put\<close> read and replace its buffer, \<^verbatim>\<open>dispatch\<close> handles a finished
  frame.  \<^verbatim>\<open>keep_id\<close> says what becomes of an id line (a reader may ignore it).
\<close>

locale sse_reader =
  fixes step :: "gostring \<Rightarrow> 's \<Rightarrow> 'e option \<times> 's" and frame :: "'s \<Rightarrow> frame_buf"
    and put :: "frame_buf \<Rightarrow> 's \<Rightarrow> 's" and dispatch :: "'s \<Rightarrow> 'e option \<times> 's"
    and keep_id :: "gostring \<Rightarrow> gostring \<Rightarrow> gostring"
  assumes frame_put: "frame (put b s) = b" and put_put: "put b (put c s) = put b s" and put_frame: "put (frame s) s = s"
    and blank: "step [] s = dispatch s"
    and other_line: "l \<noteq> [] \<Longrightarrow> \<exists>b. step l s = (None, put b s)"
    and comment: "step ('':'' @ t) s = (None, s)"
    and id_line: "step (''id: '' @ v) s = (None, put ((frame s)\<lparr>fb_id := keep_id (TrimSpace v) (fb_id (frame s))\<rparr>) s)"
    and event_line: "step (''event: '' @ v) s = (None, put ((frame s)\<lparr>fb_event := TrimSpace v\<rparr>) s)"
    and data_line: "step (''data: '' @ d) s = (None, put ((frame s)\<lparr>fb_data := fb_data (frame s) @ [d]\<rparr>) s)"
    and no_data: "fb_data (frame s) = [] \<Longrightarrow> dispatch s = (None, put empty_frame s)"
    and dispatched: "frame (snd (dispatch s)) = empty_frame"
begin

text \<open>The frame as the reader holds it, and the frames dispatched one after the other.\<close>

definition received :: "frame_buf \<Rightarrow> frame_buf" where
  "received f = f\<lparr>fb_id := keep_id (fb_id f) []\<rparr>"

fun dispatch_all :: "wire_item list \<Rightarrow> 's \<Rightarrow> 'e option \<times> 's" where
  "dispatch_all [] s = (None, s)"
| "dispatch_all (Heartbeat c # xs) s = dispatch_all xs s"
| "dispatch_all (Sent f # xs) s =
     (case dispatch (put (received f) s) of (Some e, s') \<Rightarrow> (Some e, s') | (None, s') \<Rightarrow> dispatch_all xs s')"

lemma data_lines:
  "scan_each step (map (\<lambda>d. ''data: '' @ d) ds) s = (None, put ((frame s)\<lparr>fb_data := fb_data (frame s) @ ds\<rparr>) s)"
  by (induction ds arbitrary: s) (simp_all add: put_frame data_line [simplified] frame_put put_put)

lemma whole_item:
  assumes "frame s = empty_frame" "item_ok cap x"
  shows "scan_each step (item_lines x) s = dispatch_all [x] s"
proof (cases x)
  case (Heartbeat c)
  then show ?thesis using assms no_data [of s] comment [of c s] put_frame [of s]
    by (simp add: blank empty_frame_def)
next
  case (Sent f)
  have trim: "TrimSpace (fb_id f) = fb_id f" "TrimSpace (fb_event f) = fb_event f"
    using assms(2) Sent by (simp_all add: item_ok_def)
  have buf: "frame s = \<lparr>fb_event = [], fb_id = [], fb_data = []\<rparr>" using assms(1) by (simp add: empty_frame_def)
  have "received f = \<lparr>fb_event = fb_event f, fb_id = keep_id (fb_id f) [], fb_data = fb_data f\<rparr>"
    by (simp add: received_def)
  then show ?thesis using Sent trim buf
    by (simp add: id_line [simplified] event_line [simplified] scan_each_append data_lines frame_put put_put blank
      split: prod.split option.split)
qed

lemma frame_dispatch_all:
  "frame s = empty_frame \<Longrightarrow> frame (snd (dispatch_all xs s)) = empty_frame"
proof (induction xs s rule: dispatch_all.induct)
  case (3 f xs s)
  show ?case
  proof (cases "dispatch (put (received f) s)")
    case (Pair r s')
    then have "frame s' = empty_frame" using dispatched [of "put (received f) s"] by simp
    then show ?thesis using 3 Pair by (cases r) auto
  qed
qed auto

lemma dispatch_all_append:
  "dispatch_all (xs @ ys) s =
     (case dispatch_all xs s of (Some e, s') \<Rightarrow> (Some e, s') | (None, s') \<Rightarrow> dispatch_all ys s')"
  by (induction xs s rule: dispatch_all.induct) (auto split: prod.splits option.splits)

lemma whole_items:
  "frame s = empty_frame \<Longrightarrow> list_all (item_ok cap) xs \<Longrightarrow>
     scan_each step (concat (map item_lines xs)) s = dispatch_all xs s"
proof (induction xs arbitrary: s)
  case (Cons x xs)
  have one: "scan_each step (item_lines x) s = dispatch_all [x] s" using Cons.prems by (auto intro: whole_item)
  have "frame (snd (dispatch_all [x] s)) = empty_frame" using Cons.prems(1) frame_dispatch_all by blast
  then show ?case
    using Cons one dispatch_all_append [of "[x]" xs s]
    by (auto simp: scan_each_append split: prod.splits option.splits)
qed simp

lemma other_lines:
  "[] \<notin> set ls \<Longrightarrow> \<exists>b. scan_each step ls s = (None, put b s)"
proof (induction ls arbitrary: s)
  case Nil
  show ?case using put_frame [of s] by (intro exI [of _ "frame s"]) simp
next
  case (Cons l ls)
  then obtain b where "step l s = (None, put b s)" using other_line [of l s] by auto
  moreover obtain c where "scan_each step ls (put b s) = (None, put c (put b s))" using Cons by auto
  ultimately show ?case using put_put by auto
qed

text \<open>
  A connection that delivers any number of bytes of a list of items: the items it delivered completely are dispatched
  in order, up to the first refusal, and nothing else changes but the buffer.
\<close>

lemma cut_stream:
  assumes "frame s = empty_frame" "list_all (item_ok cap) xs"
  shows "\<exists>m \<le> length xs. \<exists>b.
     scan_each step (scan_lines cap (take k (line_bytes (concat (map item_lines xs))))) s
       = (case dispatch_all (take m xs) s of (Some e, s') \<Rightarrow> (Some e, s') | (None, s') \<Rightarrow> (None, put b s'))
     \<and> (length (line_bytes (concat (map item_lines xs))) \<le> k \<longrightarrow> m = length xs)"
proof -
  let ?ls = "concat (map item_lines xs)"
  have "\<forall>l \<in> set ?ls. plain_line cap l" using assms(2) by (auto simp: list_all_iff item_ok_def)
  then obtain j tail where cut: "j \<le> length ?ls"
    "scan_lines cap (take k (line_bytes ?ls)) = take j ?ls @ (if tail = [] then [] else [dropCR tail])"
    "tail = [] \<or> j < length ?ls \<and> prefix tail (?ls ! j)" "length (line_bytes ?ls) \<le> k \<longrightarrow> j = length ?ls"
    using scan_lines_cut by blast
  obtain m r where m: "m \<le> length xs" "take j ?ls = concat (map item_lines (take m xs)) @ r"
    "r = [] \<or> m < length xs \<and> (\<exists>z. z \<noteq> [] \<and> item_lines (xs ! m) = r @ z)" "j = length ?ls \<longrightarrow> m = length xs"
    using take_item_lines [OF cut(1)] by blast
  have "[] \<notin> set r" using m(3) item_lines_blank by fastforce
  moreover have "dropCR tail \<noteq> []" if "tail \<noteq> []" using that cut(3) line_tail by blast
  ultimately have "[] \<notin> set (r @ (if tail = [] then [] else [dropCR tail]))" by auto
  then have rest: "\<exists>b. scan_each step (r @ (if tail = [] then [] else [dropCR tail])) s' = (None, put b s')" for s'
    by (rule other_lines)
  have ok: "list_all (item_ok cap) (take m xs)" using assms(2) by (auto simp: list_all_iff dest: in_set_takeD)
  have "scan_each step (scan_lines cap (take k (line_bytes ?ls))) s
      = (case dispatch_all (take m xs) s of (Some e, s') \<Rightarrow> (Some e, s')
         | (None, s') \<Rightarrow> scan_each step (r @ (if tail = [] then [] else [dropCR tail])) s')"
    using whole_items [OF assms(1) ok] by (simp only: cut(2) m(2) append_assoc scan_each_append [of _ "concat _"])
  then show ?thesis using rest [of "snd (dispatch_all (take m xs) s)"] m(1,4) cut(4)
    by (auto split: prod.splits option.splits intro!: exI [of _ m])
qed

end

text \<open>
  A reader whose frames carry items for a callback: \<^verbatim>\<open>item\<close> is what a frame carries, \<^verbatim>\<open>deliver\<close> hands it over, \<^verbatim>\<open>taken\<close> is
  what the callback accepted so far and \<^verbatim>\<open>resume\<close> the mark a disconnect reports.
\<close>

fun frames_of :: "wire_item list \<Rightarrow> frame_buf list" where
  "frames_of [] = []"
| "frames_of (Sent f # xs) = f # frames_of xs"
| "frames_of (Heartbeat c # xs) = frames_of xs"

lemma frames_of_Sent [simp]: "frames_of (map Sent fs) = fs"
  by (induction fs) auto

lemma frames_of_append [simp]: "frames_of (xs @ ys) = frames_of xs @ frames_of ys"
  by (induction xs rule: frames_of.induct) auto

lemma frames_of_take: "prefix (frames_of (take m xs)) (frames_of xs)"
  by (metis append_take_drop_id frames_of_append prefixI)

definition mark_after :: "('b \<Rightarrow> 'k) \<Rightarrow> 'b list \<Rightarrow> nat \<Rightarrow> 'k \<Rightarrow> 'k" where
  "mark_after key bs j k = (if j = 0 then k else key (bs ! (j - 1)))"

locale delivering_reader = sse_reader step frame put dispatch keep_id
  for step :: "gostring \<Rightarrow> 's \<Rightarrow> 'e option \<times> 's" and frame :: "'s \<Rightarrow> frame_buf"
    and put :: "frame_buf \<Rightarrow> 's \<Rightarrow> 's" and dispatch :: "'s \<Rightarrow> 'e option \<times> 's"
    and keep_id :: "gostring \<Rightarrow> gostring \<Rightarrow> gostring" +
  fixes item :: "frame_buf \<Rightarrow> 'b option" and deliver :: "'b \<Rightarrow> 's \<Rightarrow> 'e option \<times> 's"
    and taken :: "'s \<Rightarrow> 'b list" and resume :: "'s \<Rightarrow> 'k" and key :: "'b \<Rightarrow> 'k"
  assumes dispatch_item: "item f = Some b \<Longrightarrow> dispatch (put (received f) s) = deliver b (put empty_frame s)"
    and put_keeps: "taken (put f s) = taken s" "resume (put f s) = resume s"
    and accepted: "deliver b s = (None, s') \<Longrightarrow> taken s' = taken s @ [b] \<and> resume s' = key b"
    and refused: "deliver b s = (Some e, s') \<Longrightarrow> taken s' = taken s \<and> resume s' = resume s"
begin

lemma dispatch_items:
  assumes "map item (frames_of xs) = map Some bs" "dispatch_all xs s = (r, s')"
  shows "\<exists>j \<le> length bs. taken s' = taken s @ take j bs \<and> resume s' = mark_after key bs j (resume s)
     \<and> (r = None \<longrightarrow> j = length bs) \<and> (\<forall>e. r = Some e \<longrightarrow> (\<exists>b s. fst (deliver b s) = Some e))"
  using assms
proof (induction xs arbitrary: s bs)
  case Nil
  then show ?case by (simp add: mark_after_def)
next
  case (Cons x xs)
  show ?case
  proof (cases x)
    case (Heartbeat c)
    then show ?thesis using Cons by simp
  next
    case (Sent f)
    with Cons.prems(1) obtain b cs where bs: "bs = b # cs" "item f = Some b" "map item (frames_of xs) = map Some cs"
      by (cases bs) auto
    obtain r1 s1 where d: "deliver b (put empty_frame s) = (r1, s1)" by force
    have run: "(case r1 of Some e \<Rightarrow> (Some e, s1) | None \<Rightarrow> dispatch_all xs s1) = (r, s')"
      using Cons.prems(2) Sent dispatch_item [OF bs(2)] d by simp
    show ?thesis
    proof (cases r1)
      case None
      have s1: "taken s1 = taken s @ [b]" "resume s1 = key b" using accepted d None put_keeps by auto
      obtain j where j: "j \<le> length cs" "taken s' = taken s1 @ take j cs" "resume s' = mark_after key cs j (resume s1)"
        "r = None \<longrightarrow> j = length cs" "\<forall>e. r = Some e \<longrightarrow> (\<exists>b s. fst (deliver b s) = Some e)"
        using Cons.IH [OF bs(3), of s1] run None by auto
      then show ?thesis using bs(1) s1 by (intro exI [of _ "Suc j"]) (auto simp: mark_after_def nth_Cons')
    next
      case (Some e)
      have "taken s1 = taken s" "resume s1 = resume s" using refused [of b "put empty_frame s" e s1] d Some put_keeps by auto
      moreover have "\<exists>b s. fst (deliver b s) = Some e" using d Some by (metis fst_conv)
      ultimately have "taken s1 = taken s \<and> resume s1 = mark_after key bs 0 (resume s)
          \<and> (\<forall>e1. Some e = Some e1 \<longrightarrow> (\<exists>b s. fst (deliver b s) = Some e1))"
        by (simp add: mark_after_def)
      moreover have "r = Some e" "s' = s1" using run Some by simp_all
      ultimately show ?thesis by (intro exI [of _ 0]) auto
    qed
  qed
qed

text \<open>What a connection delivers of a sequence of items when it may break off after any byte.\<close>

lemma cut_delivery:
  assumes "frame s = empty_frame" "list_all (item_ok cap) xs" "map item (frames_of xs) = map Some bs"
    and "scan_each step (scan_lines cap (take k (line_bytes (concat (map item_lines xs))))) s = (r, s')"
  shows "\<exists>j \<le> length bs. taken s' = taken s @ take j bs \<and> resume s' = mark_after key bs j (resume s)
     \<and> (r = None \<and> length (line_bytes (concat (map item_lines xs))) \<le> k \<longrightarrow> j = length bs)
     \<and> (\<forall>e. r = Some e \<longrightarrow> (\<exists>b s. fst (deliver b s) = Some e))"
proof -
  obtain m b where m: "m \<le> length xs"
    "(r, s') = (case dispatch_all (take m xs) s of (Some e, s') \<Rightarrow> (Some e, s') | (None, s') \<Rightarrow> (None, put b s'))"
    "length (line_bytes (concat (map item_lines xs))) \<le> k \<longrightarrow> m = length xs"
    using cut_stream [OF assms(1,2), of k] assms(4) by auto
  obtain r1 s1 where d: "dispatch_all (take m xs) s = (r1, s1)" by force
  let ?n = "length (frames_of (take m xs))"
  have "frames_of (take m xs) = take ?n (frames_of xs)" using frames_of_take by (metis append_eq_conv_conj prefix_def)
  then have sent: "map item (frames_of (take m xs)) = map Some (take ?n bs)" using assms(3) by (metis take_map)
  obtain j where j: "j \<le> length (take ?n bs)" "taken s1 = taken s @ take j (take ?n bs)"
    "resume s1 = mark_after key (take ?n bs) j (resume s)" "r1 = None \<longrightarrow> j = length (take ?n bs)"
    "\<forall>e. r1 = Some e \<longrightarrow> (\<exists>b s. fst (deliver b s) = Some e)"
    using dispatch_items [OF sent d] by blast
  have s': "taken s' = taken s1" "resume s' = resume s1" "r = r1"
    using m(2) d put_keeps by (auto split: option.splits)
  have le: "j \<le> ?n" "j \<le> length bs" using j(1) by auto
  then have "take j (take ?n bs) = take j bs" "mark_after key (take ?n bs) j (resume s) = mark_after key bs j (resume s)"
    by (simp_all add: min_absorb1 mark_after_def)
  moreover have "?n = length bs" if "length (line_bytes (concat (map item_lines xs))) \<le> k"
    using m(3) that arg_cong [OF assms(3), of length] by simp
  ultimately show ?thesis using j s' le by (intro exI [of _ j]) auto
qed

end

end
