(* ===== verification/Observation_Feed.thy ===== *)
theory Observation_Feed
  imports Sse_Frames
begin

text \<open>
  Address observations (\<^verbatim>\<open>address_observation.go\<close>): the events of a realm's feed and their decoding, one
  server-sent-event connection (\<^verbatim>\<open>StreamAddressObservations\<close>), and the loop that keeps the feed open
  (\<^verbatim>\<open>RunAddressObservationStream\<close>).  The theorems say what a consumer may rely on: whatever
  connections are cut, the batches it accepts are exactly the feed after its cursor, in order, each once.
\<close>

section \<open>Data\<close>

definition AddressObservationSchemaVersion :: int where
  "AddressObservationSchemaVersion = 1"

record AddressObservationBalance =
  aob_ObservedRaw :: "gostring option"
  aob_CompleteThroughBlock :: gostring
  aob_Health :: gostring

record AddressObservationEffect =
  aoe_WatchID :: gostring
  aoe_Address :: gostring
  aoe_Direction :: gostring
  aoe_DeltaRaw :: gostring
  aoe_FundingDelta :: gostring
  aoe_WatchRevision :: gostring
  aoe_Balance :: AddressObservationBalance

record AddressObservationFinality =
  aof_Status :: gostring
  aof_Depth :: gostring
  aof_Block :: gostring
  aof_BlockHash :: gostring

record AddressObservationWatchData =
  aow_WatchID :: gostring
  aow_Address :: gostring
  aow_Lifecycle :: gostring
  aow_Health :: gostring
  aow_WatchRevision :: gostring
  aow_StartBlock :: gostring
  aow_StartBlockHash :: gostring
  aow_BaselineRaw :: "gostring option"
  aow_BaselineBlock :: gostring
  aow_BaselineBlockHash :: gostring
  aow_CoverageThroughBlock :: gostring
  aow_Reason :: gostring

record AddressObservationEvent =
  ao_SchemaVersion :: int
  ao_EventID :: gostring
  ao_RealmID :: gostring
  ao_Sequence :: gostring
  ao_Cursor :: gostring
  ao_Type :: gostring
  ao_ObservedAt :: gostring
  ao_CommitGroup :: gostring
  ao_ChainID :: gostring
  ao_TokenAddress :: gostring
  ao_AmountRaw :: gostring
  ao_From :: gostring
  ao_To :: gostring
  ao_TransactionHash :: gostring
  ao_BlockNumber :: gostring
  ao_BlockHash :: gostring
  ao_LogIndex :: gostring
  ao_Finality :: "AddressObservationFinality option"
  ao_Effects :: "AddressObservationEffect list"
  ao_Watch :: "AddressObservationWatchData option"

record AddressObservationBatch =
  ab_Events :: "AddressObservationEvent list"
  ab_Cursor :: gostring

record AddressObservationChanges =
  ac_RealmID :: gostring
  ac_Events :: "AddressObservationEvent list"
  ac_OldestValidCursor :: gostring
  ac_CurrentCursor :: gostring
  ac_NextCursor :: gostring
  ac_HasMore :: bool

section \<open>Decoding\<close>

definition decode_obs_balance :: "jfields \<Rightarrow> AddressObservationBalance option" where
  "decode_obs_balance fs = do {
     raw \<leftarrow> strp_field ''observedRaw'' fs; through \<leftarrow> str_field ''completeThroughBlock'' fs;
     health \<leftarrow> str_field ''health'' fs;
     Some \<lparr>aob_ObservedRaw = raw, aob_CompleteThroughBlock = through, aob_Health = health\<rparr> }"

definition decode_obs_effect :: "json \<Rightarrow> AddressObservationEffect option" where
  "decode_obs_effect j = do {
     fs \<leftarrow> obj_fields j;
     watch \<leftarrow> str_field ''watchId'' fs; addr \<leftarrow> str_field ''address'' fs; dir \<leftarrow> str_field ''direction'' fs;
     delta \<leftarrow> str_field ''deltaRaw'' fs; funding \<leftarrow> str_field ''fundingDelta'' fs;
     rev \<leftarrow> str_field ''watchRevision'' fs; bal \<leftarrow> sub_field ''balance'' fs; balance \<leftarrow> decode_obs_balance bal;
     Some \<lparr>aoe_WatchID = watch, aoe_Address = addr, aoe_Direction = dir, aoe_DeltaRaw = delta,
           aoe_FundingDelta = funding, aoe_WatchRevision = rev, aoe_Balance = balance\<rparr> }"

definition decode_obs_finality :: "jfields \<Rightarrow> AddressObservationFinality option" where
  "decode_obs_finality fs = do {
     status \<leftarrow> str_field ''status'' fs; depth \<leftarrow> str_field ''depth'' fs; block \<leftarrow> str_field ''block'' fs;
     hash \<leftarrow> str_field ''blockHash'' fs;
     Some \<lparr>aof_Status = status, aof_Depth = depth, aof_Block = block, aof_BlockHash = hash\<rparr> }"

definition decode_obs_watch :: "jfields \<Rightarrow> AddressObservationWatchData option" where
  "decode_obs_watch fs = do {
     watch \<leftarrow> str_field ''watchId'' fs; addr \<leftarrow> str_field ''address'' fs; life \<leftarrow> str_field ''lifecycle'' fs;
     health \<leftarrow> str_field ''health'' fs; rev \<leftarrow> str_field ''watchRevision'' fs;
     start \<leftarrow> str_field ''startBlock'' fs; startHash \<leftarrow> str_field ''startBlockHash'' fs;
     raw \<leftarrow> strp_field ''baselineRaw'' fs; block \<leftarrow> str_field ''baselineBlock'' fs;
     blockHash \<leftarrow> str_field ''baselineBlockHash'' fs; coverage \<leftarrow> str_field ''coverageThroughBlock'' fs;
     reason \<leftarrow> str_field ''reason'' fs;
     Some \<lparr>aow_WatchID = watch, aow_Address = addr, aow_Lifecycle = life, aow_Health = health,
           aow_WatchRevision = rev, aow_StartBlock = start, aow_StartBlockHash = startHash,
           aow_BaselineRaw = raw, aow_BaselineBlock = block, aow_BaselineBlockHash = blockHash,
           aow_CoverageThroughBlock = coverage, aow_Reason = reason\<rparr> }"

text \<open>A pointer to a struct that may be absent.\<close>

definition decode_sub :: "(jfields \<Rightarrow> 'a option) \<Rightarrow> jfields option \<Rightarrow> 'a option option" where
  "decode_sub dec sub = (case sub of None \<Rightarrow> Some None | Some fs \<Rightarrow> map_option Some (dec fs))"

definition decode_obs_event :: "json \<Rightarrow> AddressObservationEvent option" where
  "decode_obs_event j = do {
     fs \<leftarrow> obj_fields j;
     schema \<leftarrow> int_field ''schemaVersion'' fs; eid \<leftarrow> str_field ''eventId'' fs; realm \<leftarrow> str_field ''realmId'' fs;
     sequence \<leftarrow> str_field ''sequence'' fs; cursor \<leftarrow> str_field ''cursor'' fs; typ \<leftarrow> str_field ''type'' fs;
     observed \<leftarrow> str_field ''observedAt'' fs; grp \<leftarrow> str_field ''commitGroup'' fs; chain \<leftarrow> str_field ''chainId'' fs;
     token \<leftarrow> str_field ''tokenAddress'' fs; amount \<leftarrow> str_field ''amountRaw'' fs; sender \<leftarrow> str_field ''from'' fs;
     recipient \<leftarrow> str_field ''to'' fs; txn \<leftarrow> str_field ''transactionHash'' fs;
     block \<leftarrow> str_field ''blockNumber'' fs; hash \<leftarrow> str_field ''blockHash'' fs; logi \<leftarrow> str_field ''logIndex'' fs;
     fin \<leftarrow> subp_field ''finality'' fs; finality \<leftarrow> decode_sub decode_obs_finality fin;
     raw \<leftarrow> arr_field ''effects'' fs; effects \<leftarrow> decode_all decode_obs_effect raw;
     wat \<leftarrow> subp_field ''watch'' fs; watch \<leftarrow> decode_sub decode_obs_watch wat;
     Some \<lparr>ao_SchemaVersion = schema, ao_EventID = eid, ao_RealmID = realm, ao_Sequence = sequence,
           ao_Cursor = cursor, ao_Type = typ, ao_ObservedAt = observed, ao_CommitGroup = grp,
           ao_ChainID = chain, ao_TokenAddress = token, ao_AmountRaw = amount, ao_From = sender,
           ao_To = recipient, ao_TransactionHash = txn, ao_BlockNumber = block, ao_BlockHash = hash,
           ao_LogIndex = logi, ao_Finality = finality, ao_Effects = effects, ao_Watch = watch\<rparr> }"

definition decode_batch :: "jtext \<Rightarrow> AddressObservationBatch option" where
  "decode_batch t = do {
     fs \<leftarrow> text_fields t; raw \<leftarrow> arr_field ''events'' fs; events \<leftarrow> decode_all decode_obs_event raw;
     cursor \<leftarrow> str_field ''cursor'' fs;
     Some \<lparr>ab_Events = events, ab_Cursor = cursor\<rparr> }"

definition decode_changes :: "json \<Rightarrow> gostring + AddressObservationChanges" where
  "decode_changes j =
     (case do {
        fs \<leftarrow> obj_fields j; realm \<leftarrow> str_field ''realmId'' fs; raw \<leftarrow> arr_field ''events'' fs;
        events \<leftarrow> decode_all decode_obs_event raw; oldest \<leftarrow> str_field ''oldestValidCursor'' fs;
        current \<leftarrow> str_field ''currentCursor'' fs; nxt \<leftarrow> str_field ''nextCursor'' fs; more \<leftarrow> bool_field ''hasMore'' fs;
        Some \<lparr>ac_RealmID = realm, ac_Events = events, ac_OldestValidCursor = oldest,
              ac_CurrentCursor = current, ac_NextCursor = nxt, ac_HasMore = more\<rparr> } of
        Some c \<Rightarrow> Inr c | None \<Rightarrow> Inl ''json'')"

section \<open>Errors and replay pages\<close>

definition translateObservationError :: "error \<Rightarrow> gostring \<Rightarrow> gostring stream_error" where
  "translateObservationError err cursor =
     (case as_kind err of
        Some (k, ae) \<Rightarrow> if ae_Code ae = ''OBSERVATION_CURSOR_EXPIRED'' then CursorExpired ae cursor else Base err
      | None \<Rightarrow> Base err)"

text \<open>The events of a page or a frame are checked in order; the first unknown schema is the error.\<close>

fun schema_fault :: "AddressObservationEvent list \<Rightarrow> gostring stream_error option" where
  "schema_fault [] = None"
| "schema_fault (ev # evs) =
     (if ao_SchemaVersion ev \<noteq> AddressObservationSchemaVersion then Some (SchemaError (ao_SchemaVersion ev))
      else schema_fault evs)"

text \<open>\<^verbatim>\<open>ListAddressObservationChanges\<close>; \<^verbatim>\<open>url\<close> is what \<^verbatim>\<open>buildURL\<close> makes of the query.\<close>

definition changes_query :: "gostring \<Rightarrow> gostring \<Rightarrow> int \<Rightarrow> (gostring \<times> gostring) list" where
  "changes_query realm after limit =
     [(''realmId'', realm)] @ (if after \<noteq> [] then [(''after'', after)] else [])
       @ (if limit > 0 then [(''limit'', show_int limit)] else [])"

definition ListAddressObservationChanges ::
    "'w environment \<Rightarrow> (gostring \<Rightarrow> (gostring \<times> gostring) list \<Rightarrow> gostring + gostring) \<Rightarrow> error + gostring
       \<Rightarrow> gostring \<Rightarrow> int \<Rightarrow> 'w client \<Rightarrow> (gostring stream_error + AddressObservationChanges) \<times> 'w client" where
  "ListAddressObservationChanges env url realm after limit cl =
     (case realm of
        Inl e \<Rightarrow> (Inl (Base e), cl)
      | Inr rid \<Rightarrow>
          (case executeWithAuthRetry env
                  \<lparr>call_Method = GET,
                   call_Target = (case url ''/address-observations/changes'' (changes_query rid after limit) of
                                    Inl e \<Rightarrow> Inl e | Inr u \<Rightarrow> Inr (u, None)),
                   call_Decode = decode_changes\<rparr> cl of
             (Inl err, cl') \<Rightarrow> (Inl (translateObservationError err after), cl')
           | (Inr out, cl') \<Rightarrow>
               (case schema_fault (ac_Events out) of Some e \<Rightarrow> (Inl e, cl') | None \<Rightarrow> (Inr out, cl'))))"

section \<open>One connection\<close>

type_synonym 'w obs_accept = "AddressObservationBatch \<Rightarrow> 'w \<Rightarrow> gostring stream_error option \<times> 'w"

record 'w obs_run =
  ob_frame :: frame_buf
  ob_last :: gostring
  ob_world :: 'w
  ob_accepted :: "AddressObservationBatch list"

definition realm_mismatch :: "gostring \<Rightarrow> gostring \<Rightarrow> gostring stream_error" where
  "realm_mismatch got realm =
     Refused (''arca: address observation frame for realm '' @ got @ '' on a '' @ realm @ '' stream'')"

fun event_fault :: "gostring \<Rightarrow> AddressObservationEvent list \<Rightarrow> gostring stream_error option" where
  "event_fault realm [] = None"
| "event_fault realm (ev # evs) =
     (if ao_SchemaVersion ev \<noteq> AddressObservationSchemaVersion then Some (SchemaError (ao_SchemaVersion ev))
      else if ao_RealmID ev \<noteq> realm then Some (realm_mismatch (ao_RealmID ev) realm)
      else event_fault realm evs)"

definition decode_control :: "jtext \<Rightarrow> gostring stream_error option" where
  "decode_control t = do {
     fs \<leftarrow> text_fields t; typ \<leftarrow> str_field ''type'' fs; code \<leftarrow> str_field ''code'' fs;
     message \<leftarrow> str_field ''message'' fs; cursor \<leftarrow> str_field ''cursor'' fs;
     Some (StreamReset code message cursor) }"

definition deliver_batch ::
    "'w obs_accept \<Rightarrow> AddressObservationBatch \<Rightarrow> 'w obs_run \<Rightarrow> gostring stream_error option \<times> 'w obs_run" where
  "deliver_batch accept batch s =
     (case accept batch (ob_world s) of
        (Some err, w) \<Rightarrow> (Some err, s\<lparr>ob_world := w\<rparr>)
      | (None, w) \<Rightarrow>
          (None, s\<lparr>ob_world := w, ob_last := ab_Cursor batch, ob_accepted := ob_accepted s @ [batch]\<rparr>))"

text \<open>The closure \<^verbatim>\<open>dispatch\<close>.\<close>

definition obs_dispatch ::
    "(gostring \<Rightarrow> jtext) \<Rightarrow> gostring \<Rightarrow> 'w obs_accept \<Rightarrow> 'w obs_run \<Rightarrow> gostring stream_error option \<times> 'w obs_run" where
  "obs_dispatch parse realm accept s =
     (let f = ob_frame s; s0 = s\<lparr>ob_frame := empty_frame\<rparr>; payload = parse (Join [newline] (fb_data f)) in
      if fb_data f = [] then (None, s0)
      else if fb_event f = ''changes'' \<or> fb_event f = [] then
        (case decode_batch payload of
           None \<Rightarrow> (Some (BadFrame ''arca: address observation frame''), s0)
         | Some batch \<Rightarrow>
             (case event_fault realm (ab_Events batch) of
                Some e \<Rightarrow> (Some e, s0)
              | None \<Rightarrow>
                  (let batch' = (if ab_Cursor batch = [] then batch\<lparr>ab_Cursor := fb_id f\<rparr> else batch) in
                   if ab_Events batch' = [] then (None, s0) else deliver_batch accept batch' s0)))
      else if fb_event f = ''control'' then
        (Some (case decode_control payload of
                 None \<Rightarrow> BadFrame ''arca: address observation control frame'' | Some e \<Rightarrow> e), s0)
      else (None, s0))"

text \<open>The switch on a line.\<close>

definition obs_line ::
    "(gostring \<Rightarrow> jtext) \<Rightarrow> gostring \<Rightarrow> 'w obs_accept \<Rightarrow> gostring \<Rightarrow> 'w obs_run \<Rightarrow> gostring stream_error option \<times> 'w obs_run" where
  "obs_line parse realm accept line s =
     (if line = [] then obs_dispatch parse realm accept s
      else if HasPrefix line '':'' then (None, s)
      else if HasPrefix line ''id:'' then (None, s\<lparr>ob_frame := (ob_frame s)\<lparr>fb_id := value_of ''id:'' line\<rparr>\<rparr>)
      else if HasPrefix line ''event:'' then (None, s\<lparr>ob_frame := (ob_frame s)\<lparr>fb_event := value_of ''event:'' line\<rparr>\<rparr>)
      else if HasPrefix line ''data:''
        then (None, s\<lparr>ob_frame := (ob_frame s)\<lparr>fb_data := fb_data (ob_frame s) @ [data_of line]\<rparr>\<rparr>)
      else (None, s))"

definition obs_cap :: nat where
  "obs_cap = 4 * 2 ^ 20"

definition obs_start :: "gostring \<Rightarrow> 'w \<Rightarrow> 'w obs_run" where
  "obs_start after w = \<lparr>ob_frame = empty_frame, ob_last = after, ob_world = w, ob_accepted = []\<rparr>"

text \<open>
  \<^verbatim>\<open>StreamAddressObservations\<close>: the error it returns (\<^const>\<open>None\<close> only when a reply other than 200 carries a success
  envelope) and the state of its reader.
\<close>

definition StreamAddressObservations ::
    "'w sse_env \<Rightarrow> gostring \<Rightarrow> 'w obs_accept option \<Rightarrow> 'w \<Rightarrow> gostring stream_error option \<times> 'w obs_run" where
  "StreamAddressObservations env after callback w0 =
     (case callback of
        None \<Rightarrow> (Some (Refused ''arca: address observation callback required''), obs_start after w0)
      | Some accept \<Rightarrow>
          (case se_realmID env w0 of
             (w1, Inl e) \<Rightarrow> (Some (Base e), obs_start after w1)
           | (w1, Inr realm) \<Rightarrow>
               (case sse_open env ''/address-observations/events'' [(''realmId'', realm)]
                       (if after \<noteq> [] then Some after else None) w1 of
                  (w2, Inl e) \<Rightarrow> (Some (Base e), obs_start after w2)
                | (w2, Inr (Inl e)) \<Rightarrow> (Some (Disconnected after (Base (Plain e))), obs_start after w2)
                | (w2, Inr (Inr reply)) \<Rightarrow>
                    if hr_Status (sr_http reply) \<noteq> 200 then
                      (map_option (\<lambda>e. translateObservationError e after) (unwrap_err (sr_http reply)),
                       obs_start after w2)
                    else if \<not> HasPrefix (sr_ContentType reply) ''text/event-stream'' then
                      (Some (Refused (''arca: address observation stream unavailable (content-type ''
                         @ sr_ContentType reply @ '')'')), obs_start after w2)
                    else
                      (case scan_each (obs_line (se_parse env) realm accept)
                              (scan_lines obs_cap (sr_Body reply)) (obs_start after w2) of
                         (Some e, s) \<Rightarrow> (Some e, s)
                       | (None, s) \<Rightarrow>
                           (Some (Disconnected (ob_last s)
                              (case scan_cause obs_cap (sr_Body reply) (sr_ReadErr reply) of
                                 Some c \<Rightarrow> c | None \<Rightarrow> errUnexpectedEOF)), s)))))"

section \<open>The reconnecting loop\<close>

definition ms :: int where "ms = 1000000"

text \<open>The wait before the next attempt, without the jitter: \<^verbatim>\<open>backoff\<close> as the loop updates it.\<close>

definition obs_backoff :: "bool \<Rightarrow> int \<Rightarrow> int" where
  "obs_backoff resumed backoff =
     (let b = (if resumed then 0 else backoff) in
      if b < 250 * ms then 250 * ms else if b * 2 > 30000 * ms then 30000 * ms else b * 2)"

text \<open>
  \<^verbatim>\<open>RunAddressObservationStream\<close> for at most \<^verbatim>\<open>n\<close> attempts: \<^const>\<open>None\<close> when it would go on, and the batches the
  callback accepted, the waits, and the cursor to resume from.
\<close>

record 'w obs_loop =
  ol_cursor :: gostring
  ol_backoff :: int
  ol_world :: 'w
  ol_accepted :: "AddressObservationBatch list"
  ol_waits :: "int list"

fun run_observations ::
    "nat \<Rightarrow> 'w sse_env \<Rightarrow> 'w obs_accept option \<Rightarrow> 'w obs_loop \<Rightarrow> gostring stream_error option option \<times> 'w obs_loop" where
  "run_observations 0 env accept l = (None, l)"
| "run_observations (Suc n) env accept l =
     (let (err, s) = StreamAddressObservations env (ol_cursor l) accept (ol_world l);
          l1 = l\<lparr>ol_world := ob_world s, ol_accepted := ol_accepted l @ ob_accepted s\<rparr> in
      (case se_ctxErr env (ob_world s) of
         Some c \<Rightarrow> (Some (Some (Base (CtxError c))), l1)
       | None \<Rightarrow>
           (case Option.bind err as_disconnected of
              None \<Rightarrow> (Some err, l1)
            | Some lastCursor \<Rightarrow>
                (let resumed = (lastCursor \<noteq> []);
                     backoff = obs_backoff resumed (ol_backoff l);
                     (w1, jitter) = se_rand env (ob_world s) (backoff div 4 + 1);
                     (w2, cancelled) = se_wait env w1 (backoff + jitter);
                     l2 = l1\<lparr>ol_cursor := if resumed then lastCursor else ol_cursor l, ol_backoff := backoff,
                            ol_world := w2, ol_waits := ol_waits l @ [backoff + jitter]\<rparr> in
                 (case cancelled of
                    Some c \<Rightarrow> (Some (Some (Base (CtxError c))), l2)
                  | None \<Rightarrow> run_observations n env accept l2)))))"

definition RunAddressObservationStream ::
    "nat \<Rightarrow> 'w sse_env \<Rightarrow> gostring \<Rightarrow> 'w obs_accept option \<Rightarrow> 'w \<Rightarrow> gostring stream_error option option \<times> 'w obs_loop" where
  "RunAddressObservationStream n env after accept w =
     run_observations n env accept \<lparr>ol_cursor = after, ol_backoff = 0, ol_world = w, ol_accepted = [], ol_waits = []\<rparr>"

section \<open>Reading a connection\<close>

lemma value_of_wire [simp]:
  "value_of ''id:'' (''id: '' @ v) = TrimSpace v" "value_of ''event:'' (''event: '' @ v) = TrimSpace v"
  "data_of (''data: '' @ d) = d"
  by (simp_all add: value_of_def data_of_def TrimPrefix_def HasPrefix_def TrimSpace_def TrimLeftFunc_def is_space_def ascii_def)

lemma obs_dispatch_frame: "ob_frame (snd (obs_dispatch parse realm accept s)) = empty_frame"
  by (simp add: obs_dispatch_def deliver_batch_def Let_def split: option.split prod.split)

lemma obs_dispatch_no_data:
  "fb_data (ob_frame s) = [] \<Longrightarrow> obs_dispatch parse realm accept s = (None, s\<lparr>ob_frame := empty_frame\<rparr>)"
  by (simp add: obs_dispatch_def)

interpretation obs: sse_reader "obs_line parse realm accept" ob_frame "\<lambda>b s. s\<lparr>ob_frame := b\<rparr>"
    "obs_dispatch parse realm accept" "\<lambda>new old. new" for parse realm accept
proof unfold_locales
  fix l :: gostring and s :: "'a obs_run"
  assume "l \<noteq> []"
  moreover have "\<exists>b. s = s\<lparr>ob_frame := b\<rparr>" by (rule exI [of _ "ob_frame s"]) simp
  ultimately show "\<exists>b. obs_line parse realm accept l s = (None, s\<lparr>ob_frame := b\<rparr>)"
    by (auto simp: obs_line_def)
qed (simp_all add: obs_line_def HasPrefix_def value_of_wire [simplified] obs_dispatch_no_data
  obs_dispatch_frame)

text \<open>What a frame delivers: its batch, under its cursor, when every event of it passes the checks.\<close>

definition frame_batch :: "(gostring \<Rightarrow> jtext) \<Rightarrow> gostring \<Rightarrow> frame_buf \<Rightarrow> AddressObservationBatch option" where
  "frame_batch parse realm f =
     (if fb_data f = [] \<or> \<not> (fb_event f = ''changes'' \<or> fb_event f = []) then None
      else case decode_batch (parse (Join [newline] (fb_data f))) of
        None \<Rightarrow> None
      | Some batch \<Rightarrow>
          if event_fault realm (ab_Events batch) = None \<and> ab_Events batch \<noteq> []
          then Some (if ab_Cursor batch = [] then batch\<lparr>ab_Cursor := fb_id f\<rparr> else batch) else None)"

lemma dispatch_batch:
  "frame_batch parse realm f = Some batch \<Longrightarrow>
     obs_dispatch parse realm accept (s\<lparr>ob_frame := f\<rparr>) = deliver_batch accept batch (s\<lparr>ob_frame := empty_frame\<rparr>)"
  by (auto simp: frame_batch_def obs_dispatch_def Let_def split: if_splits option.splits)

text \<open>The cursor after \<^verbatim>\<open>j\<close> accepted batches.\<close>

abbreviation cursor_after :: "AddressObservationBatch list \<Rightarrow> nat \<Rightarrow> gostring \<Rightarrow> gostring" where
  "cursor_after \<equiv> mark_after ab_Cursor"

interpretation obs: delivering_reader "obs_line parse realm accept" ob_frame "\<lambda>b s. s\<lparr>ob_frame := b\<rparr>"
    "obs_dispatch parse realm accept" "\<lambda>new old. new" "frame_batch parse realm" "deliver_batch accept"
    ob_accepted ob_last ab_Cursor for parse realm accept
  by unfold_locales
    (auto simp: obs.received_def dispatch_batch deliver_batch_def split: option.splits prod.splits)

lemma deliver_batch_error: "fst (deliver_batch accept b s) = Some e \<Longrightarrow> \<exists>b w. fst (accept b w) = Some e"
  by (auto simp: deliver_batch_def split: prod.splits option.splits) (metis fst_conv)

section \<open>The feed\<close>

text \<open>
  A feed: the frames a realm's observations are served in, each carrying a batch under a cursor of its own.  A cursor
  names the position after its batch; the empty cursor the beginning.
\<close>

definition feed_ok :: "(gostring \<Rightarrow> jtext) \<Rightarrow> gostring \<Rightarrow> frame_buf list \<Rightarrow> AddressObservationBatch list \<Rightarrow> bool" where
  "feed_ok parse realm frames bs \<longleftrightarrow> map (frame_batch parse realm) frames = map Some bs
     \<and> distinct (map ab_Cursor bs) \<and> [] \<notin> set (map ab_Cursor bs)"

definition feed_position :: "AddressObservationBatch list \<Rightarrow> gostring \<Rightarrow> nat" where
  "feed_position bs c = (if c = [] then 0 else Suc (length (takeWhile (\<lambda>b. ab_Cursor b \<noteq> c) bs)))"

text \<open>
  A server that honours \<^verbatim>\<open>Last-Event-ID\<close>: a stream it opens carries frames of the feed from the cursor on, with
  heartbeats anywhere between frames, and may break off after any byte.  Everything else it may do freely.
\<close>

definition body_of_feed :: "frame_buf list \<Rightarrow> gostring \<Rightarrow> bool" where
  "body_of_feed frames body \<longleftrightarrow>
     (\<exists>items k. list_all (item_ok obs_cap) items \<and> prefix (frames_of items) frames
        \<and> body = take k (line_bytes (concat (map item_lines items))))"

definition serves_feed :: "'w sse_env \<Rightarrow> gostring \<Rightarrow> frame_buf list \<Rightarrow> AddressObservationBatch list \<Rightarrow> bool" where
  "serves_feed env realm frames bs \<longleftrightarrow>
     (\<forall>w w' r. se_realmID env w = (w', Inr r) \<longrightarrow> r = realm)
     \<and> (\<forall>w q w' reply. se_do env w q = (w', Inr reply) \<longrightarrow> hr_Status (sr_http reply) = 200 \<longrightarrow>
          body_of_feed (drop (feed_position bs (case sq_LastEventID q of Some c \<Rightarrow> c | None \<Rightarrow> [])) frames) (sr_Body reply))"

lemma position_nth:
  assumes "distinct (map ab_Cursor bs)" "[] \<notin> set (map ab_Cursor bs)" "i < length bs"
  shows "feed_position bs (ab_Cursor (bs ! i)) = Suc i"
proof -
  have "ab_Cursor (bs ! j) \<noteq> ab_Cursor (bs ! i)" if "j < i" for j
    using assms(1,3) that by (auto simp: distinct_conv_nth)
  then have "takeWhile (\<lambda>b. ab_Cursor b \<noteq> ab_Cursor (bs ! i)) bs = take i bs"
    using assms(3) by (intro takeWhile_eq_take_P_nth) auto
  moreover have "ab_Cursor (bs ! i) \<noteq> []" using assms(2,3) by (metis length_map nth_map nth_mem)
  ultimately show ?thesis using assms(3) by (simp add: feed_position_def)
qed

lemma position_after:
  assumes "distinct (map ab_Cursor bs)" "[] \<notin> set (map ab_Cursor bs)" "j \<le> length (drop (feed_position bs c) bs)"
  shows "feed_position bs (cursor_after (drop (feed_position bs c) bs) j c) = feed_position bs c + j"
proof (cases j)
  case (Suc i)
  then have "feed_position bs c + i < length bs" using assms(3) by simp
  then show ?thesis using Suc position_nth [OF assms(1,2), of "feed_position bs c + i"]
    by (simp add: mark_after_def)
qed (simp add: mark_after_def)

text \<open>A connection accepts the next batches of the feed, and ends with the cursor of the last one.\<close>

lemma stream_reads_feed:
  assumes feed: "feed_ok parse realm frames bs" and body: "body_of_feed frames body"
    and run: "scan_each (obs_line parse realm accept) (scan_lines obs_cap body) (obs_start after w) = (r, s)"
  shows "\<exists>j \<le> length bs. ob_accepted s = take j bs \<and> ob_last s = cursor_after bs j after
     \<and> (\<forall>e. r = Some e \<longrightarrow> (\<exists>b w. fst (accept b w) = Some e))"
proof -
  obtain items k where items: "list_all (item_ok obs_cap) items" "prefix (frames_of items) frames"
    "body = take k (line_bytes (concat (map item_lines items)))" using body by (auto simp: body_of_feed_def)
  let ?n = "length (frames_of items)"
  have start: "ob_frame (obs_start after w) = empty_frame" "ob_accepted (obs_start after w) = []"
    "ob_last (obs_start after w) = after" by (simp_all add: obs_start_def)
  have "frames_of items = take ?n frames" using items(2) by (metis append_eq_conv_conj prefix_def)
  then have "map (frame_batch parse realm) (frames_of items) = map Some (take ?n bs)"
    using feed by (metis feed_ok_def take_map)
  then obtain j where j: "j \<le> length (take ?n bs)" "ob_accepted s = take j (take ?n bs)"
    "ob_last s = cursor_after (take ?n bs) j after" "\<forall>e. r = Some e \<longrightarrow> (\<exists>b s. fst (deliver_batch accept b s) = Some e)"
    using obs.cut_delivery [OF start(1) items(1) _ run [unfolded items(3)]] unfolding start(2,3) append_Nil by blast
  moreover have "take j (take ?n bs) = take j bs" "cursor_after (take ?n bs) j after = cursor_after bs j after"
    using j(1) by (auto simp: min_absorb1 mark_after_def)
  ultimately show ?thesis using deliver_batch_error by (intro exI [of _ j]) (simp, blast)
qed

lemma feed_ok_drop: "feed_ok parse realm frames bs \<Longrightarrow> feed_ok parse realm (drop p frames) (drop p bs)"
proof -
  assume h: "feed_ok parse realm frames bs"
  then have "map (frame_batch parse realm) (drop p frames) = map Some (drop p bs)" by (metis feed_ok_def drop_map)
  moreover have "distinct (drop p (map ab_Cursor bs))" "[] \<notin> set (drop p (map ab_Cursor bs))"
    using h by (auto simp: feed_ok_def dest: in_set_dropD)
  ultimately show ?thesis by (simp add: feed_ok_def drop_map)
qed

text \<open>One call: it accepts the batches that follow its cursor; a disconnect names the cursor of the last one.\<close>

lemma call_reads_feed:
  assumes feed: "feed_ok (se_parse env) realm frames bs" and srv: "serves_feed env realm frames bs"
    and cb: "\<forall>b w e. fst (accept b w) = Some e \<longrightarrow> as_disconnected e = None"
    and run: "StreamAddressObservations env c (Some accept) w = (err, s)"
  shows "\<exists>j \<le> length (drop (feed_position bs c) bs). ob_accepted s = take j (drop (feed_position bs c) bs)
     \<and> (\<forall>d. Option.bind err as_disconnected = Some d \<longrightarrow> d = cursor_after (drop (feed_position bs c) bs) j c)"
proof -
  let ?bs = "drop (feed_position bs c) bs" and ?q = "if c \<noteq> [] then Some c else None"
  have none: ?thesis if "ob_accepted s = []" "\<forall>d. Option.bind err as_disconnected = Some d \<longrightarrow> d = c"
    using that by (intro exI [of _ 0]) (auto simp: mark_after_def)
  have trans: "as_disconnected (translateObservationError e c) = None" for e
    by (simp add: translateObservationError_def split: option.split prod.split)
  obtain w1 rr where realm: "se_realmID env w = (w1, rr)" by force
  show ?thesis
  proof (cases "\<exists>w2 reply. rr = Inr realm \<and> sse_open env ''/address-observations/events'' [(''realmId'', realm)] ?q w1 = (w2, Inr (Inr reply))
      \<and> hr_Status (sr_http reply) = 200 \<and> HasPrefix (sr_ContentType reply) ''text/event-stream''")
    case True
    then obtain w2 reply where op: "rr = Inr realm"
      "sse_open env ''/address-observations/events'' [(''realmId'', realm)] ?q w1 = (w2, Inr (Inr reply))"
      "hr_Status (sr_http reply) = 200" "HasPrefix (sr_ContentType reply) ''text/event-stream''" by blast
    from op(2) obtain u where u: "se_do env w1 \<lparr>sq_URL = u, sq_Bearer = ''Bearer '' @ se_credential env w1, sq_LastEventID = ?q\<rparr>
        = (w2, Inr reply)"
      by (auto simp: sse_open_def split: sum.splits prod.splits)
    have "feed_position bs (case ?q of Some c \<Rightarrow> c | None \<Rightarrow> []) = feed_position bs c" by simp
    then have body: "body_of_feed (drop (feed_position bs c) frames) (sr_Body reply)"
      using srv [unfolded serves_feed_def] u op(3) by fastforce
    obtain r s1 where scan: "scan_each (obs_line (se_parse env) realm accept) (scan_lines obs_cap (sr_Body reply)) (obs_start c w2) = (r, s1)"
      by force
    obtain j where j: "j \<le> length ?bs" "ob_accepted s1 = take j ?bs" "ob_last s1 = cursor_after ?bs j c"
      "\<forall>e. r = Some e \<longrightarrow> (\<exists>b w. fst (accept b w) = Some e)"
      using stream_reads_feed [OF feed_ok_drop [OF feed] body scan] by blast
    have "s = s1 \<and> err = (case r of Some e \<Rightarrow> Some e | None \<Rightarrow> Some (Disconnected (ob_last s1)
        (case scan_cause obs_cap (sr_Body reply) (sr_ReadErr reply) of Some c \<Rightarrow> c | None \<Rightarrow> errUnexpectedEOF)))"
      using run realm op scan unfolding StreamAddressObservations_def by (cases r) auto
    then show ?thesis using j cb by (intro exI [of _ j]) (auto split: option.splits)
  next
    case False
    show ?thesis
    proof (cases rr)
      case (Inl e)
      then show ?thesis using run realm by (intro none) (auto simp: StreamAddressObservations_def obs_start_def)
    next
      case (Inr x)
      then have x: "rr = Inr realm" using srv realm by (auto simp: serves_feed_def)
      obtain w2 op where op: "sse_open env ''/address-observations/events'' [(''realmId'', realm)] ?q w1 = (w2, op)" by force
      consider e where "op = Inl e" | e where "op = Inr (Inl e)" | reply where "op = Inr (Inr reply)"
        by (cases op; cases "projr op") auto
      then show ?thesis
      proof cases
        case 3
        then have "err = (if hr_Status (sr_http reply) \<noteq> 200
              then map_option (\<lambda>e. translateObservationError e c) (unwrap_err (sr_http reply)) else err)
            \<and> (hr_Status (sr_http reply) = 200 \<longrightarrow> (\<exists>t. err = Some (Refused t))) \<and> s = obs_start c w2"
          using run realm x op False by (auto simp: StreamAddressObservations_def split: if_split_asm)
        then show ?thesis using trans
          by (intro none) (auto simp: obs_start_def split: if_split_asm option.split_asm bind_splits)
      qed (rule none; use run realm x op in \<open>auto simp: StreamAddressObservations_def obs_start_def\<close>)+
    qed
  qed
qed

lemma run_reads_feed:
  assumes feed: "feed_ok (se_parse env) realm frames bs" and srv: "serves_feed env realm frames bs"
    and cb: "\<forall>b w e. fst (accept b w) = Some e \<longrightarrow> as_disconnected e = None"
    and run: "run_observations n env (Some accept) l = (r, l')"
  shows "\<exists>j \<le> length (drop (feed_position bs (ol_cursor l)) bs).
     ol_accepted l' = ol_accepted l @ take j (drop (feed_position bs (ol_cursor l)) bs)
     \<and> (r = None \<longrightarrow> feed_position bs (ol_cursor l') = feed_position bs (ol_cursor l) + j)"
  using run
proof (induction n arbitrary: l)
  case 0
  then show ?case by (intro exI [of _ 0]) simp
next
  case (Suc n)
  obtain err s where call: "StreamAddressObservations env (ol_cursor l) (Some accept) (ol_world l) = (err, s)" by force
  let ?p = "feed_position bs (ol_cursor l)"
  obtain j where j: "j \<le> length (drop ?p bs)" "ob_accepted s = take j (drop ?p bs)"
    "\<And>d. Option.bind err as_disconnected = Some d \<Longrightarrow> d = cursor_after (drop ?p bs) j (ol_cursor l)"
    using call_reads_feed [OF feed srv cb call] by blast
  show ?case
  proof (cases "r \<noteq> None \<and> ol_accepted l' = ol_accepted l @ ob_accepted s")
    case True
    then show ?thesis using j by (intro exI [of _ j]) auto
  next
    case False
    obtain d where d: "Option.bind err as_disconnected = Some d" and ctx: "se_ctxErr env (ob_world s) = None"
      using Suc.prems False call by (auto simp: Let_def split: option.splits prod.splits)
    let ?c = "if d \<noteq> [] then d else ol_cursor l"
    obtain l2 where l2: "run_observations n env (Some accept) l2 = (r, l')" "ol_cursor l2 = ?c"
      "ol_accepted l2 = ol_accepted l @ ob_accepted s"
      using Suc.prems False call d ctx by (fastforce simp: Let_def split: option.splits prod.splits)
    have pos: "feed_position bs ?c = ?p + j"
      using position_after [of bs j "ol_cursor l"] j feed d by (cases "d = []") (auto simp: feed_ok_def feed_position_def)
    from Suc.IH [OF l2(1)] obtain i where i: "i \<le> length (drop (?p + j) bs)"
      "ol_accepted l' = ol_accepted l @ take j (drop ?p bs) @ take i (drop (?p + j) bs)"
      "r = None \<longrightarrow> feed_position bs (ol_cursor l') = ?p + j + i"
      unfolding l2(2,3) pos j(2) by auto
    have "take j (drop ?p bs) @ take i (drop (?p + j) bs) = take (j + i) (drop ?p bs)"
      by (simp add: take_add add.commute [of ?p j])
    then show ?thesis using i j(1) by (intro exI [of _ "j + i"]) auto
  qed
qed

text \<open>C26: With a server that serves a realm's feed from the cursor it is sent, and breaks connections off, refuses them or
  fails them as it likes, the batches the callback accepts over any number of attempts are the batches of the
  feed that follow the cursor the consumer started with: in order, none skipped, none twice.  While the
  loop goes on, its cursor is the position after the last accepted batch.\<close>

theorem observation_feed_exactly_once:
  assumes "feed_ok (se_parse env) realm frames bs" "serves_feed env realm frames bs"
    and "\<forall>b w e. fst (accept b w) = Some e \<longrightarrow> as_disconnected e = None"
    and "RunAddressObservationStream n env after (Some accept) w = (r, l)"
  shows "\<exists>j \<le> length (drop (feed_position bs after) bs). ol_accepted l = take j (drop (feed_position bs after) bs)
     \<and> (r = None \<longrightarrow> feed_position bs (ol_cursor l) = feed_position bs after + j)"
  using run_reads_feed [OF assms(1-3)] assms(4) by (fastforce simp: RunAddressObservationStream_def)

text \<open>A feed of two batches, and a server that breaks every connection off after 50 bytes.\<close>

definition obs_event :: json where
  "obs_event = JObj [(''schemaVersion'', JNum ''1''), (''realmId'', JStr ''r'')]"

definition sample_parse :: "gostring \<Rightarrow> jtext" where
  "sample_parse t = JText (JObj [(''events'', JArr [obs_event]), (''cursor'', JStr t)])"

definition sample_frames :: "frame_buf list" where
  "sample_frames = [\<lparr>fb_event = ''changes'', fb_id = ''1'', fb_data = [''1'']\<rparr>,
                    \<lparr>fb_event = ''changes'', fb_id = ''2'', fb_data = [''2'']\<rparr>]"

definition sample_batches :: "AddressObservationBatch list" where
  "sample_batches = List.map_filter (frame_batch sample_parse ''r'') sample_frames"

definition sample_env :: "nat sse_env" where
  "sample_env = \<lparr>se_realmID = (\<lambda>w. (w, Inr ''r'')), se_buildURL = (\<lambda>p q. Inr p), se_credential = (\<lambda>w. ''k''),
     se_do = (\<lambda>w q. (w, Inr \<lparr>sr_http = \<lparr>hr_Status = 200, hr_Body = Inl []\<rparr>, sr_ContentType = ''text/event-stream'',
        sr_Body = take 50 (line_bytes (concat (map item_lines (map Sent
          (drop (feed_position sample_batches (case sq_LastEventID q of Some c \<Rightarrow> c | None \<Rightarrow> [])) sample_frames))))),
        sr_ReadErr = None\<rparr>)),
     se_parse = sample_parse, se_ctxErr = (\<lambda>w. None), se_rand = (\<lambda>w m. (w, 0)), se_wait = (\<lambda>w d. (w, None))\<rparr>"

lemma sample_feed: "feed_ok sample_parse ''r'' sample_frames sample_batches"
  by code_simp

lemma sample_items: "list_all (item_ok obs_cap) (map Sent sample_frames)"
  by (simp add: sample_frames_def item_ok_def plain_line_def obs_cap_def dropCR_def newline_def char_of_def go_strings)

lemma sample_serves: "serves_feed sample_env ''r'' sample_frames sample_batches"
proof -
  have "list_all (item_ok obs_cap) (map Sent (drop p sample_frames))" for p
    using sample_items by (auto simp: list_all_iff dest: in_set_dropD)
  then have "body_of_feed (drop p sample_frames) (take 50 (line_bytes (concat (map item_lines (map Sent (drop p sample_frames))))))" for p
    unfolding body_of_feed_def
    by (intro exI [of _ "map Sent (drop p sample_frames)"] exI [of _ 50]) (simp only: frames_of_Sent prefix_order.refl simp_thms)
  then show ?thesis unfolding serves_feed_def sample_env_def by auto
qed

theorem observation_feed_exactly_once_witness:
  "feed_ok (se_parse sample_env) ''r'' sample_frames sample_batches \<and> serves_feed sample_env ''r'' sample_frames sample_batches
   \<and> (\<exists>j \<le> length (drop (feed_position sample_batches []) sample_batches).
        ol_accepted (snd (RunAddressObservationStream 3 sample_env [] (Some (\<lambda>b w. (None, Suc w))) 0))
          = take j (drop (feed_position sample_batches []) sample_batches))"
proof -
  have p: "se_parse sample_env = sample_parse" by (simp add: sample_env_def)
  obtain r l where run: "RunAddressObservationStream 3 sample_env [] (Some (\<lambda>b w. (None, Suc w))) 0 = (r, l)" by force
  have cb: "\<forall>b w e. fst ((\<lambda>b w. (None, Suc w)) b w) = Some e \<longrightarrow> as_disconnected e = None" by simp
  show ?thesis
    using observation_feed_exactly_once [OF sample_feed [folded p] sample_serves cb run] sample_feed sample_serves run
    by (auto simp: p)
qed

text \<open>
  The wait between attempts stays between a quarter of a second and thirty seconds before jitter, but it grows only
  while no cursor is known: every disconnect of a consumer that has one resets it, also when nothing was delivered.
\<close>

lemma obs_backoff_bounds: "250 * ms \<le> obs_backoff resumed b \<and> obs_backoff resumed b \<le> 30000 * ms"
  by (simp add: obs_backoff_def ms_def Let_def)

lemma known_cursor_never_backs_off:
  assumes dial: "\<And>w q. \<exists>w' e. se_do env w q = (w', Inl e)" and realm: "\<And>w. \<exists>w' r. se_realmID env w = (w', Inr r)"
    and url: "\<And>p q. \<exists>u. se_buildURL env p q = Inr u" and rand: "\<And>w m. snd (se_rand env w m) < m"
    and known: "ol_cursor l \<noteq> []" and before: "\<forall>d \<in> set (ol_waits l). d \<le> 250 * ms + 250 * ms div 4"
    and run: "run_observations n env (Some accept) l = (r, l')"
  shows "\<forall>d \<in> set (ol_waits l'). d \<le> 250 * ms + 250 * ms div 4"
  using known before run
proof (induction n arbitrary: l)
  case (Suc n)
  obtain s e where call: "StreamAddressObservations env (ol_cursor l) (Some accept) (ol_world l) = (Some (Disconnected (ol_cursor l) e), s)"
  proof -
    obtain w1 rr where 1: "se_realmID env (ol_world l) = (w1, Inr rr)" using realm by blast
    obtain u where 2: "se_buildURL env ''/address-observations/events'' [(''realmId'', rr)] = Inr u" using url by blast
    obtain w2 e where "se_do env w1 \<lparr>sq_URL = u, sq_Bearer = ''Bearer '' @ se_credential env w1, sq_LastEventID = Some (ol_cursor l)\<rparr> = (w2, Inl e)"
      using dial by blast
    then show thesis using 1 2 Suc.prems(1) that by (auto simp: StreamAddressObservations_def sse_open_def)
  qed
  show ?case
  proof (cases "se_ctxErr env (ob_world s)")
    case (Some c)
    then show ?thesis using Suc.prems call by (auto simp: Let_def)
  next
    case None
    let ?b = "250 * ms"
    obtain w1 jitter where j: "se_rand env (ob_world s) (?b div 4 + 1) = (w1, jitter)" by force
    then have small: "?b + jitter \<le> ?b + ?b div 4" using rand [of "ob_world s" "?b div 4 + 1"] by simp
    obtain w2 cc where wt: "se_wait env w1 (?b + jitter) = (w2, cc)" by force
    have nb: "obs_backoff True (ol_backoff l) = ?b" by (simp add: obs_backoff_def ms_def)
    let ?l = "l\<lparr>ol_accepted := ol_accepted l @ ob_accepted s, ol_backoff := ?b, ol_world := w2,
                ol_waits := ol_waits l @ [?b + jitter]\<rparr>"
    have step: "(r, l') = (case cc of Some c \<Rightarrow> (Some (Some (Base (CtxError c))), ?l) | None \<Rightarrow> run_observations n env (Some accept) ?l)"
      using Suc.prems(1,3) call None j wt nb by (auto simp: Let_def)
    have "\<forall>d \<in> set (ol_waits ?l). d \<le> ?b + ?b div 4" "ol_cursor ?l \<noteq> []" using Suc.prems(1,2) small by auto
    then show ?thesis using step Suc.IH [of ?l] by (cases cc) auto
  qed
qed simp

end
