(* ===== verification/Wallet_Feeds.thy ===== *)
theory Wallet_Feeds
  imports Sse_Frames Wallet_Wire
begin

text \<open>
  The wallet streams: the Wallet Account of one boundary (\<^verbatim>\<open>cash_v9_stream.go\<close>) with its reconnecting loop, one
  funding operation, one wallet, and a realm's wallets (\<^verbatim>\<open>funding_v9.go\<close>).  They deliver complete snapshots; the
  theorems say which snapshots reach the callback and from where a broken stream resumes.
\<close>

section \<open>The Wallet Account stream\<close>

type_synonym 'w cash_accept = "CashV9WalletAccount \<Rightarrow> 'w \<Rightarrow> nat stream_error option \<times> 'w"

record 'w cash_run =
  cs_frame :: frame_buf
  cs_last :: nat
  cs_world :: 'w
  cs_accepted :: "CashV9WalletAccount list"

definition decode_text :: "(jfields \<Rightarrow> 'a option) \<Rightarrow> jtext \<Rightarrow> 'a option" where
  "decode_text dec t = Option.bind (text_fields t) dec"

definition cash_realm_mismatch :: "gostring \<Rightarrow> gostring \<Rightarrow> nat stream_error" where
  "cash_realm_mismatch got realm =
     Refused (''arca: wallet account frame for realm '' @ got @ '' on a '' @ realm @ '' stream'')"

text \<open>The closure \<^verbatim>\<open>dispatch\<close> of \<^verbatim>\<open>StreamCashV9WalletAccount\<close>: the end of it, then the whole.\<close>

definition deliver_snapshot ::
    "'w cash_accept \<Rightarrow> CashV9WalletAccount \<Rightarrow> 'w cash_run \<Rightarrow> nat stream_error option \<times> 'w cash_run" where
  "deliver_snapshot accept snapshot s =
     (case accept snapshot (cs_world s) of
        (Some err, w) \<Rightarrow> (Some err, s\<lparr>cs_world := w\<rparr>)
      | (None, w) \<Rightarrow>
          (None, s\<lparr>cs_world := w, cs_last := ca_Revision snapshot, cs_accepted := cs_accepted s @ [snapshot]\<rparr>))"

definition cash_dispatch ::
    "(gostring \<Rightarrow> jtext) \<Rightarrow> gostring \<Rightarrow> 'w cash_accept \<Rightarrow> 'w cash_run \<Rightarrow> nat stream_error option \<times> 'w cash_run" where
  "cash_dispatch parse realm accept s =
     (let f = cs_frame s; s0 = s\<lparr>cs_frame := empty_frame\<rparr> in
      if fb_data f = [] then (None, s0)
      else if fb_event f \<noteq> ''snapshot'' \<and> fb_event f \<noteq> [] then (None, s0)
      else case decode_text decode_CashV9WalletAccount (parse (Join [newline] (fb_data f))) of
        None \<Rightarrow> (Some (BadFrame ''arca: wallet account frame''), s0)
      | Some snapshot \<Rightarrow>
          if ca_Schema snapshot \<noteq> 1 then
            (Some (Refused (''arca: wallet account schema '' @ show_int (ca_Schema snapshot)
               @ '' is not supported by this SDK'')), s0)
          else if ca_RealmID snapshot \<noteq> realm then (Some (cash_realm_mismatch (ca_RealmID snapshot) realm), s0)
          else deliver_snapshot accept snapshot s0)"

definition cash_line ::
    "(gostring \<Rightarrow> jtext) \<Rightarrow> gostring \<Rightarrow> 'w cash_accept \<Rightarrow> gostring \<Rightarrow> 'w cash_run
       \<Rightarrow> nat stream_error option \<times> 'w cash_run" where
  "cash_line parse realm accept line s =
     (if line = [] then cash_dispatch parse realm accept s
      else if HasPrefix line '':'' then (None, s)
      else if HasPrefix line ''id:'' then (None, s)
      else if HasPrefix line ''event:'' then (None, s\<lparr>cs_frame := (cs_frame s)\<lparr>fb_event := value_of ''event:'' line\<rparr>\<rparr>)
      else if HasPrefix line ''data:''
        then (None, s\<lparr>cs_frame := (cs_frame s)\<lparr>fb_data := fb_data (cs_frame s) @ [data_of line]\<rparr>\<rparr>)
      else (None, s))"

definition cash_cap :: nat where
  "cash_cap = 4 * 2 ^ 20"

definition cash_start :: "nat \<Rightarrow> 'w \<Rightarrow> 'w cash_run" where
  "cash_start lastRevision w =
     \<lparr>cs_frame = empty_frame, cs_last = lastRevision, cs_world = w, cs_accepted = []\<rparr>"

definition StreamCashV9WalletAccount ::
    "'w sse_env \<Rightarrow> gostring \<Rightarrow> nat \<Rightarrow> 'w cash_accept option \<Rightarrow> 'w \<Rightarrow> nat stream_error option \<times> 'w cash_run" where
  "StreamCashV9WalletAccount env boundaryID lastRevision callback w0 =
     (case callback of
        None \<Rightarrow> (Some (Refused ''arca: wallet account stream callback required''), cash_start lastRevision w0)
      | Some accept \<Rightarrow>
          if TrimSpace boundaryID = [] then
            (Some (Refused ''arca: wallet account stream requires a boundaryId''), cash_start lastRevision w0)
          else
          (case se_realmID env w0 of
             (w1, Inl e) \<Rightarrow> (Some (Base e), cash_start lastRevision w1)
           | (w1, Inr realm) \<Rightarrow>
               (case sse_open env ''/custody/v9/cash/wallet-account/events''
                       [(''realmId'', realm), (''boundaryId'', boundaryID)]
                       (if lastRevision > 0 then Some (show_nat lastRevision) else None) w1 of
                  (w2, Inl e) \<Rightarrow> (Some (Base e), cash_start lastRevision w2)
                | (w2, Inr (Inl e)) \<Rightarrow> (Some (Disconnected lastRevision (Base (Plain e))), cash_start lastRevision w2)
                | (w2, Inr (Inr reply)) \<Rightarrow>
                    (let status = hr_Status (sr_http reply) in
                     if 502 \<le> status \<and> status \<le> 504 then
                       (Some (Disconnected lastRevision
                          (Refused (''http '' @ show_int status @ '' before the stream opened''))),
                        cash_start lastRevision w2)
                     else if status \<noteq> 200 then
                       (map_option Base (unwrap_err (sr_http reply)), cash_start lastRevision w2)
                     else if \<not> HasPrefix (sr_ContentType reply) ''text/event-stream'' then
                       (Some (Refused (''arca: wallet account stream unavailable (content-type ''
                          @ sr_ContentType reply @ '')'')), cash_start lastRevision w2)
                     else
                       (case scan_each (cash_line (se_parse env) realm accept)
                               (scan_lines cash_cap (sr_Body reply)) (cash_start lastRevision w2) of
                          (Some e, s) \<Rightarrow> (Some e, s)
                        | (None, s) \<Rightarrow>
                            (Some (Disconnected (cs_last s)
                               (case scan_cause cash_cap (sr_Body reply) (sr_ReadErr reply) of
                                  Some c \<Rightarrow> c | None \<Rightarrow> errUnexpectedEOF)), s))))))"

text \<open>\<^verbatim>\<open>cashV9StreamBackoff\<close>, in nanoseconds.\<close>

definition cashV9StreamBackoff :: "int \<Rightarrow> int" where
  "cashV9StreamBackoff attempt =
     (let attempt = (if attempt < 0 then 0 else attempt) in
      if attempt > 5 then 30 * second
      else let d = second * 2 ^ nat attempt in if d > 30 * second then 30 * second else d)"

text \<open>
  \<^verbatim>\<open>RunCashV9WalletAccountStream\<close> for at most \<^verbatim>\<open>n\<close> connections: \<^const>\<open>None\<close> when it would go on.  \<^verbatim>\<open>delivered\<close> is set
  when the callback is called, also when it refuses the snapshot; the model keeps it per connection.
\<close>

record 'w cash_loop =
  cl_revision :: nat
  cl_attempt :: int
  cl_delivered :: "bool list"
  cl_state :: 'w
  cl_snapshots :: "CashV9WalletAccount list"
  cl_waits :: "int list"

definition note_delivery :: "'w cash_accept \<Rightarrow> ('w \<times> bool) cash_accept" where
  "note_delivery accept snapshot wd = (case accept snapshot (fst wd) of (r, w) \<Rightarrow> (r, (w, True)))"

text \<open>The environment of the call, whose world also carries the flag \<^verbatim>\<open>delivered\<close>.\<close>

definition with_flag :: "'w sse_env \<Rightarrow> ('w \<times> bool) sse_env" where
  "with_flag env =
     \<lparr>se_realmID = (\<lambda>(w, d). let (w', r) = se_realmID env w in ((w', d), r)),
      se_buildURL = se_buildURL env, se_credential = (\<lambda>(w, d). se_credential env w),
      se_do = (\<lambda>(w, d) q. let (w', r) = se_do env w q in ((w', d), r)),
      se_parse = se_parse env, se_ctxErr = (\<lambda>(w, d). se_ctxErr env w),
      se_rand = (\<lambda>(w, d) m. let (w', r) = se_rand env w m in ((w', d), r)),
      se_wait = (\<lambda>(w, d) t. let (w', r) = se_wait env w t in ((w', d), r))\<rparr>"

fun run_cash ::
    "nat \<Rightarrow> 'w sse_env \<Rightarrow> gostring \<Rightarrow> 'w cash_accept \<Rightarrow> 'w cash_loop
       \<Rightarrow> nat stream_error option option \<times> 'w cash_loop" where
  "run_cash 0 env boundaryID accept l = (None, l)"
| "run_cash (Suc n) env boundaryID accept l =
     (let (err, s) = StreamCashV9WalletAccount (with_flag env) boundaryID (cl_revision l)
                       (Some (note_delivery accept)) (cl_state l, False);
          (w, delivered) = cs_world s;
          l1 = l\<lparr>cl_state := w, cl_delivered := cl_delivered l @ [delivered], cl_snapshots := cl_snapshots l @ cs_accepted s\<rparr> in
      (case se_ctxErr env w of
         Some c \<Rightarrow> (Some (Some (Base (CtxError c))), l1)
       | None \<Rightarrow>
           (case Option.bind err as_disconnected of
              None \<Rightarrow> (Some err, l1)
            | Some lastRevision \<Rightarrow>
                (let revision = (if lastRevision > cl_revision l then lastRevision else cl_revision l);
                     attempt = (if delivered then 0 else cl_attempt l);
                     (w1, cancelled) = se_wait env w (cashV9StreamBackoff attempt);
                     l2 = l1\<lparr>cl_revision := revision, cl_attempt := attempt + 1, cl_state := w1,
                            cl_waits := cl_waits l @ [cashV9StreamBackoff attempt]\<rparr> in
                 (case cancelled of
                    Some c \<Rightarrow> (Some (Some (Base (CtxError c))), l2)
                  | None \<Rightarrow> run_cash n env boundaryID accept l2)))))"

definition RunCashV9WalletAccountStream ::
    "nat \<Rightarrow> 'w sse_env \<Rightarrow> gostring \<Rightarrow> 'w cash_accept \<Rightarrow> 'w \<Rightarrow> nat stream_error option option \<times> 'w cash_loop" where
  "RunCashV9WalletAccountStream n env boundaryID accept w =
     run_cash n env boundaryID accept
       \<lparr>cl_revision = 0, cl_attempt = 0, cl_delivered = [], cl_state = w, cl_snapshots = [], cl_waits = []\<rparr>"

section \<open>One funding operation\<close>

type_synonym 'w op_accept = "FundingV9Operation \<Rightarrow> 'w \<Rightarrow> unit stream_error option \<times> 'w"

record 'w op_run =
  or_data :: gostring
  or_world :: 'w
  or_accepted :: "FundingV9Operation list"

text \<open>The loop body of \<^verbatim>\<open>StreamFundingV9Operation\<close>: one data line per frame.\<close>

definition op_line ::
    "(gostring \<Rightarrow> jtext) \<Rightarrow> gostring \<Rightarrow> 'w op_accept \<Rightarrow> gostring \<Rightarrow> 'w op_run \<Rightarrow> unit stream_error option \<times> 'w op_run" where
  "op_line parse opID accept line s =
     (if line = [] \<and> or_data s \<noteq> [] then
        (case decode_text decode_FundingV9Operation (parse (or_data s)) of
           None \<Rightarrow> (Some (BadFrame ''json''), s)
         | Some operation \<Rightarrow>
             if fo_OperationID operation \<noteq> opID then (Some (Refused ''funding snapshot identity mismatch''), s)
             else (case accept operation (or_world s) of
                     (Some err, w) \<Rightarrow> (Some err, s\<lparr>or_world := w\<rparr>)
                   | (None, w) \<Rightarrow>
                       (None, s\<lparr>or_world := w, or_data := [], or_accepted := or_accepted s @ [operation]\<rparr>)))
      else if HasPrefix line ''data:'' then
        (if or_data s \<noteq> [] then (Some (Refused ''invalid funding SSE frame''), s)
         else (None, s\<lparr>or_data := TrimSpace (TrimPrefix line ''data:'')\<rparr>))
      else (None, s))"

definition op_cap :: nat where
  "op_cap = 2 ^ 20"

definition op_start :: "'w \<Rightarrow> 'w op_run" where
  "op_start w = \<lparr>or_data = [], or_world = w, or_accepted = []\<rparr>"

definition StreamFundingV9Operation ::
    "'w sse_env \<Rightarrow> gostring \<Rightarrow> 'w op_accept option \<Rightarrow> 'w \<Rightarrow> unit stream_error option \<times> 'w op_run" where
  "StreamFundingV9Operation env opID callback w0 =
     (case callback of
        None \<Rightarrow> (Some (Refused ''funding snapshot callback required''), op_start w0)
      | Some accept \<Rightarrow>
          (case se_realmID env w0 of
             (w1, Inl e) \<Rightarrow> (Some (Base e), op_start w1)
           | (w1, Inr realm) \<Rightarrow>
               (case sse_open env ''/custody/v9/funding/events''
                       [(''realmId'', realm), (''operationId'', opID)] None w1 of
                  (w2, Inl e) \<Rightarrow> (Some (Base e), op_start w2)
                | (w2, Inr (Inl e)) \<Rightarrow> (Some (Base (Plain e)), op_start w2)
                | (w2, Inr (Inr reply)) \<Rightarrow>
                    if hr_Status (sr_http reply) \<noteq> 200 then
                      (map_option Base (unwrap_err (sr_http reply)), op_start w2)
                    else if \<not> HasPrefix (sr_ContentType reply) ''text/event-stream'' then
                      (Some (Refused ''funding snapshot stream unavailable''), op_start w2)
                    else
                      (case scan_each (op_line (se_parse env) opID accept)
                              (scan_lines op_cap (sr_Body reply)) (op_start w2) of
                         (Some e, s) \<Rightarrow> (Some e, s)
                       | (None, s) \<Rightarrow>
                           (Some (case scan_cause op_cap (sr_Body reply) (sr_ReadErr reply) of
                                    Some c \<Rightarrow> c | None \<Rightarrow> errUnexpectedEOF), s)))))"

section \<open>Wallet snapshots\<close>

definition FundingV9WalletSnapshotSchema :: int where
  "FundingV9WalletSnapshotSchema = 2"

record FundingV9WalletError =
  fwe_BoundaryID :: gostring
  fwe_OwnerAddress :: gostring
  fwe_ArcaPath :: gostring
  fwe_Error :: gostring

definition decode_FundingV9WalletError :: "jfields \<Rightarrow> FundingV9WalletError option" where
  "decode_FundingV9WalletError fs = do {
     b \<leftarrow> str_field ''boundaryId'' fs; owner \<leftarrow> str_field ''ownerAddress'' fs; p \<leftarrow> str_field ''arcaPath'' fs;
     e \<leftarrow> str_field ''error'' fs;
     Some \<lparr>fwe_BoundaryID = b, fwe_OwnerAddress = owner, fwe_ArcaPath = p, fwe_Error = e\<rparr> }"

record FundingV9WalletsEvent =
  fw_Transport :: gostring
  fw_Wallet :: "FundingV9WalletSnapshot option"
  fw_WalletError :: "FundingV9WalletError option"
  fw_Position :: nat
  fw_CaughtUp :: "nat option"

definition no_event :: FundingV9WalletsEvent where
  "no_event = \<lparr>fw_Transport = [], fw_Wallet = None, fw_WalletError = None, fw_Position = 0, fw_CaughtUp = None\<rparr>"

text \<open>A frame handler: the event name and the payload (\<^const>\<open>None\<close> for a comment).\<close>

type_synonym 'w frame_handler = "gostring \<Rightarrow> gostring option \<Rightarrow> 'w \<Rightarrow> gostring stream_error option \<times> 'w"

record 'w wallet_run =
  wr_frame :: frame_buf
  wr_bytes :: nat
  wr_last :: gostring
  wr_world :: 'w

definition disconnect_at :: "'w wallet_run \<Rightarrow> gostring stream_error \<Rightarrow> gostring stream_error option" where
  "disconnect_at s cause = Some (Disconnected (wr_last s) cause)"

text \<open>A position frame of the realm stream must carry its own sequence as its id.\<close>

definition position_mismatch :: "(gostring \<Rightarrow> jtext) \<Rightarrow> frame_buf \<Rightarrow> bool" where
  "position_mismatch parse f =
     (case decode_text (uintp_field ''sequence'') (parse (Join [newline] (fb_data f))) of
        Some (Some n) \<Rightarrow> fb_id f \<noteq> show_nat n
      | _ \<Rightarrow> True)"

definition wallet_blank ::
    "(gostring \<Rightarrow> jtext) \<Rightarrow> bool \<Rightarrow> 'w frame_handler \<Rightarrow> 'w wallet_run \<Rightarrow> gostring stream_error option \<times> 'w wallet_run" where
  "wallet_blank parse realmStream handle s =
     (let f = wr_frame s; reset = (\<lambda>t. t\<lparr>wr_frame := empty_frame, wr_bytes := 0\<rparr>) in
      if fb_data f = [] then (None, reset s)
      else if realmStream \<and> fb_event f = ''position'' \<and> position_mismatch parse f then
        (disconnect_at s (Refused ''arca: wallet frame position mismatch''), s)
      else (case handle (fb_event f) (Some (Join [newline] (fb_data f))) (wr_world s) of
              (Some err, w) \<Rightarrow> (disconnect_at s err, s\<lparr>wr_world := w\<rparr>)
            | (None, w) \<Rightarrow>
                (None, reset (s\<lparr>wr_world := w,
                   wr_last := (if fb_id f \<noteq> [] \<and> (\<not> realmStream \<or> fb_event f = ''position'') then fb_id f
                               else wr_last s)\<rparr>))))"

definition wallet_cap :: nat where
  "wallet_cap = 8 * 2 ^ 20"

definition wallet_line ::
    "(gostring \<Rightarrow> jtext) \<Rightarrow> bool \<Rightarrow> 'w frame_handler \<Rightarrow> gostring \<Rightarrow> 'w wallet_run
       \<Rightarrow> gostring stream_error option \<times> 'w wallet_run" where
  "wallet_line parse realmStream handle line s =
     (if line = [] then wallet_blank parse realmStream handle s
      else if HasPrefix line '':'' then
        (let note = TrimSpace (TrimPrefix line '':'') in
         if note = ''connected'' \<or> note = ''heartbeat'' then
           (case handle ('':'' @ note) None (wr_world s) of
              (Some err, w) \<Rightarrow> (disconnect_at s err, s\<lparr>wr_world := w\<rparr>)
            | (None, w) \<Rightarrow> (None, s\<lparr>wr_world := w\<rparr>))
         else (None, s))
      else if HasPrefix line ''id:'' then (None, s\<lparr>wr_frame := (wr_frame s)\<lparr>fb_id := value_of ''id:'' line\<rparr>\<rparr>)
      else if HasPrefix line ''event:'' then (None, s\<lparr>wr_frame := (wr_frame s)\<lparr>fb_event := value_of ''event:'' line\<rparr>\<rparr>)
      else if HasPrefix line ''data:'' then
        (let n = wr_bytes s + length line in
         if n > 8 * 2 ^ 20 then
           (disconnect_at s (Refused ''arca: wallet frame exceeds 8 MiB''), s\<lparr>wr_bytes := n\<rparr>)
         else (None, s\<lparr>wr_bytes := n, wr_frame := (wr_frame s)\<lparr>fb_data := fb_data (wr_frame s) @ [data_of line]\<rparr>\<rparr>))
      else (None, s))"

definition wallet_start :: "gostring \<Rightarrow> 'w \<Rightarrow> 'w wallet_run" where
  "wallet_start lastEventID w = \<lparr>wr_frame = empty_frame, wr_bytes = 0, wr_last = lastEventID, wr_world = w\<rparr>"

definition readFundingWalletSSE ::
    "'w sse_env \<Rightarrow> gostring \<Rightarrow> (gostring \<times> gostring) list \<Rightarrow> gostring \<Rightarrow> 'w frame_handler \<Rightarrow> 'w
       \<Rightarrow> gostring stream_error option \<times> 'w wallet_run" where
  "readFundingWalletSSE env path q lastEventID handle w0 =
     (case sse_open env path q (if lastEventID \<noteq> [] then Some lastEventID else None) w0 of
        (w1, Inl e) \<Rightarrow> (Some (Base e), wallet_start lastEventID w1)
      | (w1, Inr (Inl e)) \<Rightarrow> (Some (Disconnected lastEventID (Base (Plain e))), wallet_start lastEventID w1)
      | (w1, Inr (Inr reply)) \<Rightarrow>
          if hr_Status (sr_http reply) \<noteq> 200 then
            (map_option Base (unwrap_err (sr_http reply)), wallet_start lastEventID w1)
          else if \<not> HasPrefix (sr_ContentType reply) ''text/event-stream'' then
            (Some (Refused (''arca: wallet stream unavailable (content-type '' @ sr_ContentType reply @ '')'')),
             wallet_start lastEventID w1)
          else
            (case scan_each (wallet_line (se_parse env) (suffix ''/wallet-snapshots/stream'' path) handle)
                    (scan_lines wallet_cap (sr_Body reply)) (wallet_start lastEventID w1) of
               (Some e, s) \<Rightarrow> (Some e, s)
             | (None, s) \<Rightarrow>
                 (disconnect_at s (case scan_cause wallet_cap (sr_Body reply) (sr_ReadErr reply) of
                                     Some c \<Rightarrow> c | None \<Rightarrow> errUnexpectedEOF), s)))"

text \<open>\<^verbatim>\<open>StreamFundingV9Wallet\<close>: the complete snapshots of one wallet.\<close>

definition schema_refused :: "int \<Rightarrow> gostring stream_error" where
  "schema_refused n = Refused (''arca: wallet snapshot schema '' @ show_int n @ '' unsupported'')"

definition wallet_handler ::
    "(gostring \<Rightarrow> jtext) \<Rightarrow> (FundingV9WalletSnapshot \<Rightarrow> 'w \<Rightarrow> gostring stream_error option \<times> 'w) \<Rightarrow> 'w frame_handler" where
  "wallet_handler parse accept event payload w =
     (if event \<noteq> ''snapshot'' then (None, w)
      else case Option.bind payload (\<lambda>p. decode_text decode_FundingV9WalletSnapshot (parse p)) of
        None \<Rightarrow> (Some (BadFrame ''arca: wallet snapshot frame''), w)
      | Some snapshot \<Rightarrow>
          if ws_Schema snapshot \<noteq> FundingV9WalletSnapshotSchema then
            (Some (schema_refused (ws_Schema snapshot)), w)
          else accept snapshot w)"

definition StreamFundingV9Wallet ::
    "'w sse_env \<Rightarrow> gostring \<Rightarrow> gostring \<Rightarrow> gostring \<Rightarrow> gostring
       \<Rightarrow> (FundingV9WalletSnapshot \<Rightarrow> 'w \<Rightarrow> gostring stream_error option \<times> 'w) option \<Rightarrow> 'w
       \<Rightarrow> gostring stream_error option \<times> 'w wallet_run" where
  "StreamFundingV9Wallet env ownerAddress arcaPath boundaryID lastEventID callback w0 =
     (case callback of
        None \<Rightarrow> (Some (Refused ''arca: wallet snapshot callback required''), wallet_start lastEventID w0)
      | Some accept \<Rightarrow>
          (case se_realmID env w0 of
             (w1, Inl e) \<Rightarrow> (Some (Base e), wallet_start lastEventID w1)
           | (w1, Inr realm) \<Rightarrow>
               readFundingWalletSSE env ''/custody/v9/funding/wallet-stream''
                 [(''realmId'', realm), (''ownerAddress'', ownerAddress), (''arcaPath'', arcaPath),
                  (''boundaryId'', boundaryID)]
                 lastEventID (wallet_handler (se_parse env) accept) w1))"

text \<open>\<^verbatim>\<open>streamFundingV9Wallets\<close>: every wallet of a realm.  The world also logs the events the callback accepted.\<close>

record FundingV9WalletsStreamOptions =
  wso_Transport :: bool
  wso_Bootstrap :: bool

type_synonym 'w realm_accept = "FundingV9WalletsEvent \<Rightarrow> 'w \<Rightarrow> gostring stream_error option \<times> 'w"

text \<open>The event a frame carries: an error, no event (an ignored frame), or the event.\<close>

definition realm_event ::
    "(gostring \<Rightarrow> jtext) \<Rightarrow> bool \<Rightarrow> gostring \<Rightarrow> gostring option \<Rightarrow> gostring stream_error + FundingV9WalletsEvent option" where
  "realm_event parse transport event payload =
     (let text = (case payload of Some p \<Rightarrow> parse p | None \<Rightarrow> JEmpty) in
      if event = '':connected'' \<or> event = '':heartbeat'' then
        Inr (if transport then Some (no_event\<lparr>fw_Transport := TrimPrefix event '':''\<rparr>) else None)
      else if event = ''wallet'' then
        (case decode_text decode_FundingV9WalletSnapshot text of
           None \<Rightarrow> Inl (BadFrame ''arca: wallet frame'')
         | Some snapshot \<Rightarrow>
             if ws_Schema snapshot \<noteq> FundingV9WalletSnapshotSchema then Inl (schema_refused (ws_Schema snapshot))
             else Inr (Some (no_event\<lparr>fw_Wallet := Some snapshot\<rparr>)))
      else if event = ''wallet_error'' then
        (case decode_text decode_FundingV9WalletError text of
           None \<Rightarrow> Inl (BadFrame ''arca: wallet error frame'')
         | Some e \<Rightarrow> Inr (Some (no_event\<lparr>fw_WalletError := Some e\<rparr>)))
      else if event = ''caught_up'' then
        (case decode_text (uint_field ''sequence'') text of
           None \<Rightarrow> Inl (BadFrame ''arca: caught_up frame'')
         | Some n \<Rightarrow> Inr (Some (no_event\<lparr>fw_CaughtUp := Some n\<rparr>)))
      else if event = ''position'' then
        (case decode_text (uint_field ''sequence'') text of
           None \<Rightarrow> Inl (BadFrame ''arca: position frame'')
         | Some n \<Rightarrow> if n = 0 then Inl (BadFrame ''arca: position frame'') else Inr (Some (no_event\<lparr>fw_Position := n\<rparr>)))
      else Inr None)"

definition realm_handler ::
    "(gostring \<Rightarrow> jtext) \<Rightarrow> bool \<Rightarrow> 'w realm_accept \<Rightarrow> ('w \<times> FundingV9WalletsEvent list) frame_handler" where
  "realm_handler parse transport accept event payload wl =
     (case realm_event parse transport event payload of
        Inl e \<Rightarrow> (Some e, wl)
      | Inr None \<Rightarrow> (None, wl)
      | Inr (Some ev) \<Rightarrow>
          (case accept ev (fst wl) of
             (Some e, w) \<Rightarrow> (Some e, (w, snd wl))
           | (None, w) \<Rightarrow>
               ((case fw_WalletError ev of
                   Some we \<Rightarrow> Some (Refused (''arca: wallet '' @ fwe_BoundaryID we @ '' not composable: '' @ fwe_Error we))
                 | None \<Rightarrow> None),
                (w, snd wl @ [ev]))))"

definition streamFundingV9Wallets ::
    "('w \<times> FundingV9WalletsEvent list) sse_env \<Rightarrow> nat \<Rightarrow> FundingV9WalletsStreamOptions \<Rightarrow> 'w realm_accept option
       \<Rightarrow> 'w \<times> FundingV9WalletsEvent list
       \<Rightarrow> gostring stream_error option \<times> ('w \<times> FundingV9WalletsEvent list) wallet_run" where
  "streamFundingV9Wallets env after opts callback w0 =
     (let start = (if after > 0 then show_nat after else []) in
      case callback of
        None \<Rightarrow> (Some (Refused ''arca: wallet stream callback required''), wallet_start [] w0)
      | Some accept \<Rightarrow>
          (case se_realmID env w0 of
             (w1, Inl e) \<Rightarrow> (Some (Base e), wallet_start [] w1)
           | (w1, Inr realm) \<Rightarrow>
               readFundingWalletSSE env ''/custody/v9/funding/wallet-snapshots/stream''
                 ([(''realmId'', realm)] @ (if wso_Bootstrap opts then [(''bootstrap'', ''1'')] else []))
                 start (realm_handler (se_parse env) (wso_Transport opts) accept) w1))"

section \<open>The Wallet Account stream is sound\<close>

text \<open>Every accepted snapshot has the schema and the realm of the stream; the resume point is the last one's revision.\<close>

definition cash_inv :: "gostring \<Rightarrow> nat \<Rightarrow> 'w cash_run \<Rightarrow> bool" where
  "cash_inv realm start s \<longleftrightarrow>
     list_all (\<lambda>a. ca_Schema a = 1 \<and> ca_RealmID a = realm) (cs_accepted s)
     \<and> cs_last s = (if cs_accepted s = [] then start else ca_Revision (last (cs_accepted s)))"

lemma cash_line_inv:
  "cash_inv realm start s \<Longrightarrow> cash_inv realm start (snd (cash_line parse realm accept l s))"
  by (auto simp: cash_line_def cash_dispatch_def deliver_snapshot_def cash_inv_def Let_def split: option.split prod.split)

lemma scan_each_inv:
  assumes "\<And>l s. P s \<Longrightarrow> P (snd (step l s))" and "P s"
  shows "P (snd (scan_each step ls s))"
  using assms(2)
proof (induction ls arbitrary: s)
  case (Cons l ls)
  obtain r s' where "step l s = (r, s')" by force
  then show ?case using Cons assms(1) [of s l] by (cases r) auto
qed simp

lemma cash_backoff_eq: "0 \<le> a \<Longrightarrow> cashV9StreamBackoff a = min (30 * second) (second * 2 ^ nat a)"
proof -
  assume a: "0 \<le> a"
  show ?thesis
  proof (cases "5 < a")
    case True
    then have "(2::int) ^ 5 \<le> 2 ^ nat a" by (intro power_increasing) auto
    then show ?thesis using True by (simp add: cashV9StreamBackoff_def second_def)
  next
    case False
    then show ?thesis using a by (simp add: cashV9StreamBackoff_def Let_def)
  qed
qed

section \<open>The realm stream resumes where the callback acknowledged\<close>

lemma set_uintp_uint:
  "set_uintp vs cur = Some (Some n) \<Longrightarrow> (\<forall>m. cur = Some m \<longrightarrow> c = m) \<Longrightarrow> set_uint vs c = Some n"
  by (induction vs cur arbitrary: c rule: set_uintp.induct) (auto split: option.splits if_splits)

text \<open>The position the stream has acknowledged: the last one among the accepted events, or the starting point.\<close>

definition acknowledged :: "gostring \<Rightarrow> FundingV9WalletsEvent list \<Rightarrow> gostring" where
  "acknowledged start evs =
     (let ps = filter (\<lambda>n. n > 0) (map fw_Position evs) in if ps = [] then start else show_nat (last ps))"

lemma acknowledged_simps [simp]:
  "acknowledged start [] = start"
  "acknowledged start (evs @ [ev]) = (if fw_Position ev > 0 then show_nat (fw_Position ev) else acknowledged start evs)"
  by (simp_all add: acknowledged_def)

definition realm_inv :: "gostring \<Rightarrow> ('w \<times> FundingV9WalletsEvent list) wallet_run \<Rightarrow> bool" where
  "realm_inv start s \<longleftrightarrow> wr_last s = acknowledged start (snd (wr_world s))"

text \<open>What a handled frame logs.\<close>

lemma realm_event_position:
  "realm_event parse transport event payload = Inr (Some ev) \<Longrightarrow> fw_Position ev > 0 \<Longrightarrow>
     event = ''position'' \<and> (\<exists>p. payload = Some p \<and> decode_text (uint_field ''sequence'') (parse p) = Some (fw_Position ev))"
  by (auto simp: realm_event_def no_event_def decode_text_def Let_def split: if_splits option.splits)

lemma realm_handler_log:
  assumes "realm_handler parse transport accept event payload wl = (r, wl')"
  shows "snd wl' = snd wl \<or> (\<exists>ev. snd wl' = snd wl @ [ev] \<and> realm_event parse transport event payload = Inr (Some ev)
     \<and> (fw_Position ev > 0 \<longrightarrow> r = None))"
proof (cases "realm_event parse transport event payload")
  case (Inr o1)
  show ?thesis
  proof (cases o1)
    case (Some ev)
    have "fw_Position ev > 0 \<Longrightarrow> fw_WalletError ev = None"
      using Inr Some by (auto simp: realm_event_def no_event_def Let_def split: if_splits option.splits)
    then show ?thesis using assms Inr Some
      by (auto simp: realm_handler_def split: option.splits prod.splits)
  qed (use assms Inr in \<open>auto simp: realm_handler_def\<close>)
qed (use assms in \<open>auto simp: realm_handler_def\<close>)

lemma realm_handler_other:
  assumes "realm_handler parse transport accept event payload wl = (r, wl')" and "r \<noteq> None \<or> event \<noteq> ''position''"
  shows "acknowledged start (snd wl') = acknowledged start (snd wl)"
  using realm_handler_log [OF assms(1)] assms(2) realm_event_position [of parse transport event payload]
  by fastforce

lemma realm_handler_position:
  assumes "realm_handler parse transport accept ''position'' (Some p) wl = (None, wl')"
    and "decode_text (uintp_field ''sequence'') (parse p) = Some (Some n)"
  shows "acknowledged start (snd wl') = show_nat n"
proof -
  have seq: "decode_text (uint_field ''sequence'') (parse p) = Some n"
    using assms(2) set_uintp_uint [of _ None n 0] by (auto simp: decode_text_def uintp_field_def uint_field_def split: bind_splits)
  have "n \<noteq> 0"
    using assms(1) seq by (auto simp: realm_handler_def realm_event_def Let_def split: if_splits)
  then have ev: "realm_event parse transport ''position'' (Some p) = Inr (Some (no_event\<lparr>fw_Position := n\<rparr>))"
    using seq by (simp add: realm_event_def)
  then have "snd wl' = snd wl @ [no_event\<lparr>fw_Position := n\<rparr>]"
    using assms(1) by (auto simp: realm_handler_def no_event_def split: option.splits prod.splits)
  then show ?thesis using \<open>n \<noteq> 0\<close> by simp
qed

lemma wallet_blank_inv:
  assumes "realm_inv start s"
  shows "realm_inv start (snd (wallet_blank parse True (realm_handler parse transport accept) s))"
proof -
  let ?f = "wr_frame s" and ?p = "Join [newline] (fb_data (wr_frame s))"
  show ?thesis
  proof (cases "fb_data ?f = [] \<or> fb_event ?f = ''position'' \<and> position_mismatch parse ?f")
    case True
    then show ?thesis using assms by (auto simp: wallet_blank_def realm_inv_def Let_def)
  next
    case False
    obtain r wl where h: "realm_handler parse transport accept (fb_event ?f) (Some ?p) (wr_world s) = (r, wl)"
      using prod.exhaust by blast
    show ?thesis
    proof (cases "r = None \<and> fb_event ?f = ''position''")
      case True
      then obtain n where n: "decode_text (uintp_field ''sequence'') (parse ?p) = Some (Some n)" "fb_id ?f = show_nat n"
        using False by (auto simp: position_mismatch_def split: option.splits)
      then show ?thesis using True False h realm_handler_position [of parse transport accept ?p "wr_world s" wl n]
        by (simp add: wallet_blank_def realm_inv_def Let_def)
    next
      case other: False
      then have "acknowledged start (snd wl) = acknowledged start (snd (wr_world s))"
        using realm_handler_other [OF h, of start] by blast
      then show ?thesis using False other h assms
        by (cases r) (auto simp: wallet_blank_def realm_inv_def Let_def)
    qed
  qed
qed

lemma wallet_line_inv:
  assumes "realm_inv start s"
  shows "realm_inv start (snd (wallet_line parse True (realm_handler parse transport accept) l s))"
proof -
  have heard: "acknowledged start (snd wl) = acknowledged start (snd (wr_world s))"
    if "realm_handler parse transport accept ('':'' @ t) None (wr_world s) = (r, wl)" for t r wl
    using realm_handler_other [OF that, of start] by simp
  show ?thesis using assms wallet_blank_inv [OF assms] heard
    by (auto simp: wallet_line_def realm_inv_def Let_def split: option.split prod.split)
qed

lemma wallet_line_disconnect:
  "wallet_line parse rs handle l s = (Some e, s') \<Longrightarrow> \<exists>c. e = Disconnected (wr_last s') c"
  by (auto simp: wallet_line_def wallet_blank_def disconnect_at_def Let_def split: if_splits option.splits prod.splits)

lemma scan_each_error:
  assumes "\<And>l s e s'. step l s = (Some e, s') \<Longrightarrow> Q e s'" and "scan_each step ls s = (Some e, s')"
  shows "Q e s'"
  using assms(2)
proof (induction ls arbitrary: s)
  case (Cons l ls)
  obtain r s1 where st: "step l s = (r, s1)" by force
  show ?case
  proof (cases r)
    case None
    then show ?thesis using Cons st by simp
  next
    case (Some e1)
    then show ?thesis using Cons.prems st assms(1) by fastforce
  qed
qed simp

text \<open>A disconnect of a wallet reader resumes at the reader's last id.\<close>

lemma read_disconnect:
  assumes "readFundingWalletSSE env path q start handle w = (err, s)" and "Option.bind err as_disconnected = Some rid"
  shows "rid = wr_last s"
proof -
  let ?step = "wallet_line (se_parse env) (suffix ''/wallet-snapshots/stream'' path) handle"
  have scan: "\<exists>c. e = Disconnected (wr_last s') c" if "scan_each ?step ls s0 = (Some e, s')" for ls s0 e s'
    using that by (rule scan_each_error [rotated]) (rule wallet_line_disconnect)
  show ?thesis using assms
    by (auto simp: readFundingWalletSSE_def disconnect_at_def wallet_start_def
      split: sum.splits prod.splits if_splits option.splits bind_splits dest: scan)
qed

lemma read_realm_inv:
  assumes "readFundingWalletSSE env path q start (realm_handler (se_parse env) transport accept) w = (err, s)"
    and "suffix ''/wallet-snapshots/stream'' path" and "\<And>w q. snd (fst (se_do env w q)) = snd w" and "snd w = []"
  shows "realm_inv start s"
proof -
  let ?h = "realm_handler (se_parse env) transport accept"
  obtain w1 op where op: "sse_open env path q (if start \<noteq> [] then Some start else None) w = (w1, op)"
    using prod.exhaust by blast
  have "w1 = w \<or> (\<exists>q. w1 = fst (se_do env w q))"
    using op by (auto simp: sse_open_def case_prod_beta split: sum.splits)
  then have "snd w1 = []" by (metis assms(3,4))
  then have init: "realm_inv start (wallet_start start w1)" by (simp add: realm_inv_def wallet_start_def)
  have run: "realm_inv start (snd (scan_each (wallet_line (se_parse env) True ?h) ls (wallet_start start w1)))" for ls
    using wallet_line_inv init by (rule scan_each_inv)
  show ?thesis using assms(1,2) op init run
    by (auto simp: readFundingWalletSSE_def split: sum.splits prod.splits if_splits option.splits) (metis snd_conv)+
qed


text \<open>A server that sends one position frame and then a wallet frame that does not decode.\<close>

definition realm_lines :: "gostring list" where
  "realm_lines = [''id: 7'', ''event: position'', ''data: p'', [], ''id: 9'', ''event: wallet'', ''data: q'', []]"

definition realm_body :: gostring where
  "realm_body = line_bytes realm_lines"

definition realm_env :: "(unit \<times> FundingV9WalletsEvent list) sse_env" where
  "realm_env = \<lparr>se_realmID = (\<lambda>w. (w, Inr ''r'')), se_buildURL = (\<lambda>p q. Inr p), se_credential = (\<lambda>w. ''k''),
     se_do = (\<lambda>w q. (w, Inr \<lparr>sr_http = \<lparr>hr_Status = 200, hr_Body = Inl []\<rparr>, sr_ContentType = ''text/event-stream'',
        sr_Body = realm_body,
        sr_ReadErr = None\<rparr>)),
     se_parse = (\<lambda>t. if t = ''p'' then JText (JObj [(''sequence'', JNum ''7'')]) else JBad),
     se_ctxErr = (\<lambda>w. None), se_rand = (\<lambda>w m. (w, 0)), se_wait = (\<lambda>w d. (w, None))\<rparr>"

lemma realm_body_lines: "scan_lines wallet_cap realm_body = realm_lines"
  by (simp add: scan_lines_def raw_lines_def newline_def char_of_def wallet_cap_def dropCR_def realm_body_def realm_lines_def)

definition realm_result :: "gostring stream_error option \<times> (unit \<times> FundingV9WalletsEvent list) wallet_run" where
  "realm_result = streamFundingV9Wallets realm_env 3 \<lparr>wso_Transport = False, wso_Bootstrap = False\<rparr>
     (Some (\<lambda>ev w. (None, w))) ((), [])"

lemma realm_result_error: "fst realm_result = Some (Disconnected ''7'' (BadFrame ''arca: wallet frame''))"
  by (simp add: realm_result_def streamFundingV9Wallets_def readFundingWalletSSE_def sse_open_def realm_env_def realm_body_lines realm_lines_def
    HasPrefix_def suffix_def wallet_start_def wallet_line_def wallet_blank_def empty_frame_def value_of_def data_of_def
    position_mismatch_def realm_handler_def realm_event_def disconnect_at_def decode_text_def uintp_field_def uint_field_def
    parse_digits_def nat_of_digits_def uint64_def no_event_def show_nat.simps Let_def TrimPrefix_def TrimSpace_def
    TrimLeftFunc_def TrimRightFunc_def is_space_def ascii_def is_digit_def digit_val_def digit_char_def char_of_def bit_0)


section \<open>What a Wallet Account connection delivers\<close>

text \<open>The snapshot a frame carries.\<close>

definition frame_snapshot :: "(gostring \<Rightarrow> jtext) \<Rightarrow> gostring \<Rightarrow> frame_buf \<Rightarrow> CashV9WalletAccount option" where
  "frame_snapshot parse realm f =
     (if fb_data f = [] \<or> fb_event f \<noteq> ''snapshot'' \<and> fb_event f \<noteq> [] then None
      else case decode_text decode_CashV9WalletAccount (parse (Join [newline] (fb_data f))) of
        None \<Rightarrow> None
      | Some a \<Rightarrow> if ca_Schema a = 1 \<and> ca_RealmID a = realm then Some a else None)"

lemma cash_dispatch_facts:
  "cs_frame (snd (cash_dispatch parse realm accept s)) = empty_frame"
  "fb_data (cs_frame s) = [] \<Longrightarrow> cash_dispatch parse realm accept s = (None, s\<lparr>cs_frame := empty_frame\<rparr>)"
  by (simp_all add: cash_dispatch_def deliver_snapshot_def Let_def split: option.split prod.split)

lemma value_of_event [simp]:
  "value_of ''event:'' (''event: '' @ v) = TrimSpace v" "data_of (''data: '' @ d) = d"
  by (simp_all add: value_of_def data_of_def TrimPrefix_def HasPrefix_def TrimSpace_def TrimLeftFunc_def is_space_def ascii_def)

interpretation cash: sse_reader "cash_line parse realm accept" cs_frame "\<lambda>b s. s\<lparr>cs_frame := b\<rparr>"
    "cash_dispatch parse realm accept" "\<lambda>new old. old" for parse realm accept
proof unfold_locales
  fix l :: gostring and s :: "'a cash_run"
  assume "l \<noteq> []"
  moreover have "\<exists>b. s = s\<lparr>cs_frame := b\<rparr>" by (rule exI [of _ "cs_frame s"]) simp
  ultimately show "\<exists>b. cash_line parse realm accept l s = (None, s\<lparr>cs_frame := b\<rparr>)"
    by (auto simp: cash_line_def)
qed (simp_all add: cash_line_def HasPrefix_def value_of_event [simplified] cash_dispatch_facts)

interpretation cash: delivering_reader "cash_line parse realm accept" cs_frame "\<lambda>b s. s\<lparr>cs_frame := b\<rparr>"
    "cash_dispatch parse realm accept" "\<lambda>new old. old" "frame_snapshot parse realm" "deliver_snapshot accept"
    cs_accepted cs_last ca_Revision for parse realm accept
proof unfold_locales
  fix f s and a :: CashV9WalletAccount
  assume "frame_snapshot parse realm f = Some a"
  then show "cash_dispatch parse realm accept (s\<lparr>cs_frame := cash.received f\<rparr>)
      = deliver_snapshot accept a (s\<lparr>cs_frame := empty_frame\<rparr>)"
    by (auto simp: frame_snapshot_def cash_dispatch_def cash.received_def split: if_splits option.splits)
qed (auto simp: deliver_snapshot_def split: option.splits prod.splits)

text \<open>When the Wallet Account server sends a sequence of complete snapshots and the connection breaks off after any byte,
  the callback receives the snapshots that arrived whole, in order and each once (all of them when the connection did not
  break early), and the disconnect reports the revision of the last one, or the one the stream was opened with.\<close>

theorem wallet_account_stream_delivers:
  assumes "se_realmID env w = (w1, Inr realm)" "TrimSpace boundaryID \<noteq> []"
    and "sse_open env ''/custody/v9/cash/wallet-account/events'' [(''realmId'', realm), (''boundaryId'', boundaryID)]
           (if lastRevision > 0 then Some (show_nat lastRevision) else None) w1 = (w2, Inr (Inr reply))"
    and "hr_Status (sr_http reply) = 200" "HasPrefix (sr_ContentType reply) ''text/event-stream''"
    and "sr_Body reply = take k (line_bytes (concat (map item_lines items)))" "list_all (item_ok cash_cap) items"
    and "map (frame_snapshot (se_parse env) realm) (frames_of items) = map Some snapshots"
    and "\<And>a w. fst (accept a w) = None"
  shows "\<exists>m \<le> length snapshots. \<exists>cause s.
     StreamCashV9WalletAccount env boundaryID lastRevision (Some accept) w
       = (Some (Disconnected (if m = 0 then lastRevision else ca_Revision (snapshots ! (m - 1))) cause), s)
     \<and> cs_accepted s = take m snapshots
     \<and> (length (line_bytes (concat (map item_lines items))) \<le> k \<longrightarrow> m = length snapshots)"
proof -
  obtain r s where run: "scan_each (cash_line (se_parse env) realm accept)
      (scan_lines cash_cap (take k (line_bytes (concat (map item_lines items))))) (cash_start lastRevision w2) = (r, s)" by force
  have start: "cs_frame (cash_start lastRevision w2) = empty_frame" "cs_accepted (cash_start lastRevision w2) = []"
    "cs_last (cash_start lastRevision w2) = lastRevision" by (simp_all add: cash_start_def)
  obtain m where m: "m \<le> length snapshots" "cs_accepted s = take m snapshots"
    "cs_last s = mark_after ca_Revision snapshots m lastRevision"
    "r = None \<and> length (line_bytes (concat (map item_lines items))) \<le> k \<longrightarrow> m = length snapshots"
    "\<forall>e. r = Some e \<longrightarrow> (\<exists>b s. fst (deliver_snapshot accept b s) = Some e)"
    using cash.cut_delivery [OF start(1) assms(7,8) run] unfolding start(2,3) append_Nil by blast
  have "fst (deliver_snapshot accept b t) = None" for b and t
    using assms(9) [of b "cs_world t"] by (cases "accept b (cs_world t)") (simp add: deliver_snapshot_def)
  then have r: "r = None" using m(5) by (cases r) auto
  show ?thesis using assms(1-6) run m(1-4) r
    by (intro exI [of _ m]) (simp add: StreamCashV9WalletAccount_def mark_after_def Let_def)
qed

section \<open>The waits of the reconnecting loop\<close>

text \<open>How many connections in a row, the last one excepted, delivered nothing since one did; newest first.\<close>

fun retry_no :: "bool list \<Rightarrow> nat" where
  "retry_no [] = 0"
| "retry_no (d # ds) = (if d \<or> ds = [] then 0 else Suc (retry_no ds))"

definition cash_loop_inv :: "'w cash_loop \<Rightarrow> bool" where
  "cash_loop_inv l \<longleftrightarrow> length (cl_waits l) = length (cl_delivered l)
     \<and> cl_attempt l = (if cl_delivered l = [] then 0 else int (retry_no (rev (cl_delivered l))) + 1)
     \<and> (\<forall>i < length (cl_waits l).
          cl_waits l ! i = cashV9StreamBackoff (int (retry_no (rev (take (Suc i) (cl_delivered l))))))"

lemma retry_no_snoc:
  "retry_no (rev (ds @ [d])) = (if d \<or> ds = [] then 0 else Suc (retry_no (rev ds)))"
  by simp

lemma cash_loop_inv_step:
  assumes "cash_loop_inv l"
    and "attempt = (if d then 0 else cl_attempt l)"
  shows "cash_loop_inv (l\<lparr>cl_delivered := cl_delivered l @ [d], cl_snapshots := sn, cl_revision := rv, cl_attempt := attempt + 1, cl_state := w,
     cl_waits := cl_waits l @ [cashV9StreamBackoff attempt]\<rparr>)"
proof -
  have len: "length (cl_waits l) = length (cl_delivered l)" using assms(1) by (simp add: cash_loop_inv_def)
  have att: "attempt = int (retry_no (rev (cl_delivered l @ [d])))"
    using assms by (simp add: cash_loop_inv_def)
  have "(cl_waits l @ [cashV9StreamBackoff attempt]) ! i
      = cashV9StreamBackoff (int (retry_no (rev (take (Suc i) (cl_delivered l @ [d])))))" if "i < Suc (length (cl_waits l))" for i
  proof (cases "i = length (cl_waits l)")
    case True
    then have "(cl_waits l @ [cashV9StreamBackoff attempt]) ! i = cashV9StreamBackoff attempt"
      "take (Suc i) (cl_delivered l @ [d]) = cl_delivered l @ [d]" using len True by (simp_all add: nth_append)
    then show ?thesis using att by (simp only:)
  next
    case False
    then have "i < length (cl_waits l)" using that by simp
    then show ?thesis using assms(1) len by (simp add: cash_loop_inv_def nth_append)
  qed
  then show ?thesis using len att by (simp add: cash_loop_inv_def)
qed

lemma run_cash_waits:
  assumes "cash_loop_inv l" "run_cash n env b accept l = (r, l')"
  shows "\<forall>i < length (cl_waits l').
     cl_waits l' ! i = cashV9StreamBackoff (int (retry_no (rev (take (Suc i) (cl_delivered l')))))"
  using assms
proof (induction n arbitrary: l)
  case 0
  then show ?case by (simp add: cash_loop_inv_def)
next
  case (Suc n)
  obtain err s where call: "StreamCashV9WalletAccount (with_flag env) b (cl_revision l) (Some (note_delivery accept)) (cl_state l, False) = (err, s)"
    using prod.exhaust by blast
  obtain w d where w: "cs_world s = (w, d)" using prod.exhaust by blast
  let ?l1 = "l\<lparr>cl_state := w, cl_delivered := cl_delivered l @ [d], cl_snapshots := cl_snapshots l @ cs_accepted s\<rparr>"
  show ?case
  proof (cases "l' = ?l1")
    case True
    have "\<forall>i < length (cl_waits l). cl_waits l ! i = cashV9StreamBackoff (int (retry_no (rev (take (Suc i) (cl_delivered l)))))"
      "length (cl_waits l) = length (cl_delivered l)" using Suc.prems(1) by (simp_all add: cash_loop_inv_def)
    then show ?thesis by (simp add: True)
  next
    case False
    obtain rv where rv: "se_ctxErr env w = None" "Option.bind err as_disconnected = Some rv"
      using Suc.prems(2) call w False by (auto simp: Let_def split: option.splits)
    let ?a = "if d then 0 else cl_attempt l"
    obtain w1 c where wt: "se_wait env w (cashV9StreamBackoff ?a) = (w1, c)" using prod.exhaust by blast
    let ?l2 = "l\<lparr>cl_delivered := cl_delivered l @ [d], cl_snapshots := cl_snapshots l @ cs_accepted s,
      cl_revision := if rv > cl_revision l then rv else cl_revision l, cl_attempt := ?a + 1, cl_state := w1,
      cl_waits := cl_waits l @ [cashV9StreamBackoff ?a]\<rparr>"
    have inv: "cash_loop_inv ?l2" using Suc.prems(1) by (rule cash_loop_inv_step) simp
    have "(case c of Some e \<Rightarrow> (Some (Some (Base (CtxError e))), ?l2) | None \<Rightarrow> run_cash n env b accept ?l2) = (r, l')"
      using Suc.prems(2) by (simp add: call w rv wt Let_def del: bind_eq_Some_conv split del: if_split)
    then show ?thesis using Suc.IH [OF inv] inv by (cases c) (auto simp: cash_loop_inv_def)
  qed
qed

text \<open>The loop that keeps a Wallet Account stream open waits between one and thirty seconds before it reconnects: one
  second after a connection that delivered a snapshot, and twice as long, up to thirty seconds, after every further
  connection in a row that delivered none.\<close>

theorem wallet_account_backoff:
  assumes "RunCashV9WalletAccountStream n env boundaryID accept w = (r, l)" "i < length (cl_waits l)"
  shows "cl_waits l ! i = min (30 * second) (second * 2 ^ retry_no (rev (take (Suc i) (cl_delivered l))))"
proof -
  have "cash_loop_inv \<lparr>cl_revision = 0, cl_attempt = 0, cl_delivered = [], cl_state = w, cl_snapshots = [], cl_waits = []\<rparr>"
    by (simp add: cash_loop_inv_def)
  then show ?thesis using run_cash_waits assms cash_backoff_eq
    by (fastforce simp: RunCashV9WalletAccountStream_def)
qed

definition cash_items :: "wire_item list" where
  "cash_items = [Heartbeat ''connected'', Sent \<lparr>fb_event = ''snapshot'', fb_id = ''4'', fb_data = [''4'']\<rparr>]"

definition cash_parse :: "gostring \<Rightarrow> jtext" where
  "cash_parse t = JText (JObj [(''schema'', JNum ''1''), (''realmId'', JStr ''r'')])"

definition cash_snapshots :: "CashV9WalletAccount list" where
  "cash_snapshots = List.map_filter (frame_snapshot cash_parse ''r'') (frames_of cash_items)"

definition cash_env :: "bool \<Rightarrow> unit sse_env" where
  "cash_env up = \<lparr>se_realmID = (\<lambda>w. (w, Inr ''r'')), se_buildURL = (\<lambda>p q. Inr p), se_credential = (\<lambda>w. ''k''),
     se_do = (\<lambda>w q. (w, if up then Inr \<lparr>sr_http = \<lparr>hr_Status = 200, hr_Body = Inl []\<rparr>, sr_ContentType = ''text/event-stream'',
        sr_Body = take 500 (line_bytes (concat (map item_lines cash_items))), sr_ReadErr = None\<rparr> else Inl ''refused'')),
     se_parse = cash_parse,
     se_ctxErr = (\<lambda>w. None), se_rand = (\<lambda>w m. (w, 0)), se_wait = (\<lambda>w d. (w, None))\<rparr>"

lemma cash_items_ok: "list_all (item_ok cash_cap) cash_items"
  by (simp add: cash_items_def item_ok_def plain_line_def cash_cap_def dropCR_def newline_def char_of_def go_strings)

lemma cash_snapshots_sent: "map (frame_snapshot cash_parse ''r'') (frames_of cash_items) = map Some cash_snapshots"
  by code_simp

theorem wallet_account_stream_delivers_witness:
  "\<exists>m \<le> length cash_snapshots. \<exists>cause s.
     StreamCashV9WalletAccount (cash_env True) ''b'' 3 (Some (\<lambda>a w. (None, w))) ()
       = (Some (Disconnected (if m = 0 then 3 else ca_Revision (cash_snapshots ! (m - 1))) cause), s)
     \<and> cs_accepted s = take m cash_snapshots
     \<and> (length (line_bytes (concat (map item_lines cash_items))) \<le> 500 \<longrightarrow> m = length cash_snapshots)"
  by (rule wallet_account_stream_delivers [where realm = "''r''" and ?w1.0 = "()" and ?w2.0 = "()" and
        reply = "\<lparr>sr_http = \<lparr>hr_Status = 200, hr_Body = Inl []\<rparr>, sr_ContentType = ''text/event-stream'',
           sr_Body = take 500 (line_bytes (concat (map item_lines cash_items))), sr_ReadErr = None\<rparr>"])
    (simp_all add: cash_env_def sse_open_def cash_items_ok cash_snapshots_sent go_strings)

theorem wallet_account_backoff_witness:
  "cl_waits (snd (RunCashV9WalletAccountStream 3 (cash_env False) ''b'' (\<lambda>a w. (None, w)) ())) ! 2 = 4 * second"
proof -
  let ?l = "snd (RunCashV9WalletAccountStream 3 (cash_env False) ''b'' (\<lambda>a w. (None, w)) ())"
  have run: "length (cl_waits ?l) = 3 \<and> cl_delivered ?l = [False, False, False]"
    by (simp add: RunCashV9WalletAccountStream_def cash_env_def with_flag_def sse_open_def StreamCashV9WalletAccount_def
      cash_start_def numeral_3_eq_3 go_strings)
  have "cl_waits ?l ! 2 = min (30 * second) (second * 2 ^ retry_no (rev (take (Suc 2) (cl_delivered ?l))))"
    by (rule wallet_account_backoff [OF surjective_pairing]) (simp add: run)
  moreover have "retry_no (rev (take (Suc 2) [False, False, False])) = 2" by simp
  ultimately show ?thesis using run by (simp add: second_def)
qed

end
