(* ===== verification/Funding_Moves.thy ===== *)
theory Funding_Moves
  imports Wallet_Wire
begin

text \<open>
  Moves between a wallet's own accounts (\<^verbatim>\<open>funding_v9.go\<close>): the create request copied from a reviewed quote, and the
  lost-reply protocol.  A request key is resolved (accepted, retired, absent) or retired; a reply is
  only a verdict when it names the request and its evidence is complete.  The HTTP call is
  \<^const>\<open>executeWithAuthRetry\<close>; the URL and body a call is built from are arguments.
\<close>

section \<open>From a quote to a request\<close>

definition FundingV9RouteTradingToExternal :: gostring where
  "FundingV9RouteTradingToExternal = ''trading_to_external''"

definition FundingV9MoveRequestFromQuote :: "gostring \<Rightarrow> FundingV9MoveQuote \<Rightarrow> FundingV9MoveRequest" where
  "FundingV9MoveRequestFromQuote requestID q =
     (let r = \<lparr>mreq_RealmID = [], mreq_RequestID = requestID, mreq_FromArcaID = ms_ArcaID (mq_From q), mreq_ToArcaID = [],
               mreq_Setup = None, mreq_Recipient = [], mreq_AmountRaw = mq_AmountRaw q,
               mreq_ActivationFeeRaw = mq_ActivationFeeRaw q, mreq_NetworkFeeRaw = mq_NetworkFeeRaw q,
               mreq_FromActivation = mq_FromActivation q, mreq_ToActivation = mq_ToActivation q,
               mreq_QuoteExpiresAt = mq_ExpiresAt q, mreq_SetupDeadline = 0\<rparr> in
      if mq_Route q = FundingV9RouteTradingToExternal then r\<lparr>mreq_Recipient := ms_AccountAddress (mq_To q)\<rparr>
      else if \<not> mq_RequiresSetup q then r\<lparr>mreq_ToArcaID := ms_ArcaID (mq_To q)\<rparr>
      else r)"

section \<open>Resolving a request key\<close>

definition FundingV9MoveAccepted :: gostring where "FundingV9MoveAccepted = ''accepted''"
definition FundingV9MoveRetired :: gostring where "FundingV9MoveRetired = ''retired''"
definition FundingV9MoveAbsent :: gostring where "FundingV9MoveAbsent = ''absent''"

text \<open>The evidence checks of \<^verbatim>\<open>ResolveFundingV9Move\<close>.\<close>

definition resolution_fault :: "gostring \<Rightarrow> FundingV9MoveResolution \<Rightarrow> gostring option" where
  "resolution_fault requestID out =
     (if mr_RequestID out \<noteq> requestID \<or> mr_OperationID out = [] then Some ''arca: move resolution identity mismatch''
      else if mr_Status out = FundingV9MoveAccepted then
        (case mr_Admission out of
           None \<Rightarrow> Some ''arca: incomplete move resolution evidence''
         | Some a \<Rightarrow>
             if fo_OperationID (ma_Operation a) \<noteq> mr_OperationID out then Some ''arca: incomplete move resolution evidence''
             else None)
      else if mr_Status out = FundingV9MoveRetired \<or> mr_Status out = FundingV9MoveAbsent then
        (if mr_Admission out \<noteq> None then Some ''arca: incomplete move resolution evidence'' else None)
      else Some (''arca: unknown move resolution status '' @ mr_Status out))"

definition ResolveFundingV9Move ::
    "'w environment \<Rightarrow> error + gostring \<Rightarrow> (gostring \<Rightarrow> gostring \<Rightarrow> gostring + gostring) \<Rightarrow> gostring \<Rightarrow> 'w client
       \<Rightarrow> (error + FundingV9MoveResolution) \<times> 'w client" where
  "ResolveFundingV9Move env realm url requestID cl =
     (if requestID = [] then (Inl (Plain ''arca: requestId required''), cl)
      else case realm of
        Inl e \<Rightarrow> (Inl e, cl)
      | Inr rid \<Rightarrow>
          (case executeWithAuthRetry env
                  \<lparr>call_Method = GET,
                   call_Target = (case url rid requestID of Inl e \<Rightarrow> Inl e | Inr u \<Rightarrow> Inr (u, None)),
                   call_Decode = struct_decoder decode_FundingV9MoveResolution\<rparr> cl of
             (Inl err, cl') \<Rightarrow> (Inl err, cl')
           | (Inr out, cl') \<Rightarrow>
               (case resolution_fault requestID out of Some e \<Rightarrow> (Inl (Plain e), cl') | None \<Rightarrow> (Inr out, cl'))))"

section \<open>Retiring a request\<close>

text \<open>What a retirement reply certifies: an error, an admission that won the race, or the fence.\<close>

definition retirement ::
    "gostring \<Rightarrow> FundingV9MoveResolution \<Rightarrow> gostring + FundingV9MoveAdmission option" where
  "retirement requestID out =
     (if mr_RequestID out \<noteq> requestID \<or> mr_OperationID out = [] then Inl ''arca: move retirement identity mismatch''
      else case mr_Admission out of
        None \<Rightarrow> if mr_Status out = ''retired'' then Inr None else Inl ''arca: incomplete move retirement evidence''
      | Some a \<Rightarrow>
          if mr_Status out = ''accepted'' \<and> fo_OperationID (ma_Operation a) = mr_OperationID out then Inr (Some a)
          else Inl ''arca: incomplete move retirement evidence'')"

definition RetireFundingV9Move ::
    "'w environment \<Rightarrow> error + gostring \<Rightarrow> (FundingV9MoveRequest \<Rightarrow> gostring + gostring \<times> gostring option)
       \<Rightarrow> FundingV9MoveRequest \<Rightarrow> 'w client \<Rightarrow> (error + FundingV9MoveAdmission option) \<times> 'w client" where
  "RetireFundingV9Move env realm target r cl =
     (case realm of
        Inl e \<Rightarrow> (Inl e, cl)
      | Inr rid \<Rightarrow>
          (let r = r\<lparr>mreq_RealmID := rid\<rparr> in
           case executeWithAuthRetry env
                  \<lparr>call_Method = POST, call_Target = target r, call_Decode = struct_decoder decode_FundingV9MoveResolution\<rparr> cl of
             (Inl err, cl') \<Rightarrow> (Inl err, cl')
           | (Inr out, cl') \<Rightarrow>
               (case retirement (mreq_RequestID r) out of Inl e \<Rightarrow> (Inl (Plain e), cl') | Inr v \<Rightarrow> (Inr v, cl'))))"

section \<open>Verdicts\<close>

text \<open>The evidence behind a reply: it names the request, and an admission it carries is of the operation it names.\<close>

definition names_request :: "gostring \<Rightarrow> FundingV9MoveResolution \<Rightarrow> bool" where
  "names_request requestID out \<longleftrightarrow> mr_RequestID out = requestID \<and> mr_OperationID out \<noteq> []
     \<and> (\<forall>a. mr_Admission out = Some a \<longrightarrow> fo_OperationID (ma_Operation a) = mr_OperationID out)"

lemma resolution_fault_None:
  "resolution_fault requestID out = None \<longleftrightarrow>
     names_request requestID out
     \<and> (mr_Status out = ''accepted'' \<and> mr_Admission out \<noteq> None
        \<or> mr_Status out \<in> {''retired'', ''absent''} \<and> mr_Admission out = None)"
  by (auto simp: resolution_fault_def names_request_def FundingV9MoveAccepted_def FundingV9MoveRetired_def
    FundingV9MoveAbsent_def split: option.split)

lemma retirement_fence: "retirement requestID out = Inr None \<longleftrightarrow>
    names_request requestID out \<and> mr_Status out = ''retired'' \<and> mr_Admission out = None"
  by (auto simp: retirement_def names_request_def split: option.splits)

lemma retirement_admission: "retirement requestID out = Inr (Some a) \<longleftrightarrow>
    names_request requestID out \<and> mr_Status out = ''accepted'' \<and> mr_Admission out = Some a"
  by (auto simp: retirement_def names_request_def split: option.splits)

text \<open>The call a retirement makes.\<close>

definition retire_call ::
    "(FundingV9MoveRequest \<Rightarrow> gostring + gostring \<times> gostring option) \<Rightarrow> gostring \<Rightarrow> FundingV9MoveRequest
       \<Rightarrow> FundingV9MoveResolution call" where
  "retire_call target rid r =
     \<lparr>call_Method = POST, call_Target = target (r\<lparr>mreq_RealmID := rid\<rparr>),
      call_Decode = struct_decoder decode_FundingV9MoveResolution\<rparr>"

text \<open>A request counts as retired only on a reply that names this request, states \<^verbatim>\<open>retired\<close> and carries no admission, and
  its original move is returned only from a reply that names this request, states \<^verbatim>\<open>accepted\<close> and carries the admission of the
  operation it names; any other reply or failure is an error, so an unknown outcome is never taken for a fence.\<close>

theorem move_retirement_certified:
  assumes "RetireFundingV9Move env realm target r cl = (res, cl')"
  shows "case res of
     Inr v \<Rightarrow> \<exists>rid out. realm = Inr rid \<and> executeWithAuthRetry env (retire_call target rid r) cl = (Inr out, cl')
       \<and> names_request (mreq_RequestID r) out
       \<and> (case v of None \<Rightarrow> mr_Status out = ''retired'' \<and> mr_Admission out = None
          | Some a \<Rightarrow> mr_Status out = ''accepted'' \<and> mr_Admission out = Some a)
   | Inl e \<Rightarrow> (case realm of Inl e' \<Rightarrow> e = e'
       | Inr rid \<Rightarrow> (case executeWithAuthRetry env (retire_call target rid r) cl of
           (Inl e', _) \<Rightarrow> e = e'
         | (Inr out, _) \<Rightarrow> \<not> (names_request (mreq_RequestID r) out
             \<and> (mr_Status out = ''retired'' \<and> mr_Admission out = None \<or> mr_Status out = ''accepted'' \<and> mr_Admission out \<noteq> None))))"
proof (cases realm)
  case (Inl e)
  then show ?thesis using assms by (auto simp: RetireFundingV9Move_def)
next
  case (Inr rid)
  obtain a cl1 where call: "executeWithAuthRetry env (retire_call target rid r) cl = (a, cl1)" by force
  show ?thesis
  proof (cases a)
    case (Inl e)
    then show ?thesis using assms Inr call by (auto simp: RetireFundingV9Move_def retire_call_def)
  next
    case out: (Inr out)
    have res: "res = (case retirement (mreq_RequestID r) out of Inl e \<Rightarrow> Inl (Plain e) | Inr v \<Rightarrow> Inr v)" "cl' = cl1"
      using assms Inr call out by (auto simp: RetireFundingV9Move_def retire_call_def split: sum.splits)
    show ?thesis
    proof (cases "retirement (mreq_RequestID r) out")
      case v: (Inr v)
      then have "res = Inr v" using res by simp
      moreover have "names_request (mreq_RequestID r) out \<and> (case v of None \<Rightarrow> mr_Status out = ''retired'' \<and> mr_Admission out = None
          | Some a \<Rightarrow> mr_Status out = ''accepted'' \<and> mr_Admission out = Some a)"
        using v retirement_fence [of "mreq_RequestID r" out] retirement_admission [of "mreq_RequestID r" out]
        by (cases v) simp_all
      ultimately show ?thesis using Inr call out res(2) by simp
    next
      case (Inl e)
      then show ?thesis using res Inr call out retirement_fence [of "mreq_RequestID r" out] retirement_admission [of "mreq_RequestID r" out]
        by fastforce
    qed
  qed
qed

definition retired_reply :: http_response where
  "retired_reply = \<lparr>hr_Status = 200, hr_Body = Inr ([], JText (JObj [(''success'', JBool True), (''data'',
     JObj [(''status'', JStr ''retired''), (''requestId'', JStr ''q''), (''operationId'', JStr ''o'')])]))\<rparr>"

definition retired_request :: FundingV9MoveRequest where
  "retired_request = \<lparr>mreq_RealmID = [], mreq_RequestID = ''q'', mreq_FromArcaID = ''a'', mreq_ToArcaID = ''b'',
     mreq_Setup = None, mreq_Recipient = [], mreq_AmountRaw = ''5'', mreq_ActivationFeeRaw = ''0'', mreq_NetworkFeeRaw = ''0'',
     mreq_FromActivation = [], mreq_ToActivation = [], mreq_QuoteExpiresAt = 9, mreq_SetupDeadline = 0\<rparr>"

lemma retired_request_id: "mreq_RequestID retired_request = ''q''"
  by (simp add: retired_request_def)

theorem move_retirement_certified_witness:
  "\<exists>rid out. (Inr ''r'' :: error + gostring) = Inr rid
     \<and> fst (executeWithAuthRetry scripted (retire_call (\<lambda>r. Inr (''/retire'', None)) rid retired_request) (scripted_client [retired_reply])) = Inr out
     \<and> names_request ''q'' out \<and> mr_Status out = ''retired'' \<and> mr_Admission out = None"
proof -
  let ?run = "RetireFundingV9Move scripted (Inr ''r'') (\<lambda>r. Inr (''/retire'', None)) retired_request (scripted_client [retired_reply])"
  have "fst ?run = Inr None" by code_simp
  then obtain cl' where run: "?run = (Inr None, cl')" by (metis prod.collapse)
  show ?thesis using move_retirement_certified [OF run] retired_request_id by (auto intro: exI)
qed

end
