(* ===== verification/Session.thy ===== *)
theory Session
  imports Http_Client Go_Float
begin

text \<open>
  The client's session (\<^verbatim>\<open>arca.go\<close>): resolving the realm, reading the claims of a token, arming the proactive
  refresh, and the single-flight refresh of the credential as steps of concurrent callers.  The
  HTTP client's \<^verbatim>\<open>get\<close>, the token provider and the JSON parser are arguments.
\<close>

section \<open>Realms\<close>

record RealmSettings =
  rs_DefaultApplicationFeeTenthsBps :: "int option"
  rs_AllowedOrigins :: "gostring list"

definition decode_RealmSettings :: "jfields \<Rightarrow> RealmSettings option" where
  "decode_RealmSettings fs = do {
     x0 \<leftarrow> intp_field ''defaultApplicationFeeTenthsBps'' fs;
     x1 \<leftarrow> strs_field ''allowedOrigins'' fs;
     Some \<lparr>rs_DefaultApplicationFeeTenthsBps = x0, rs_AllowedOrigins = x1\<rparr> }"

record Realm =
  r_ID :: gostring
  r_OrgID :: gostring
  r_Name :: gostring
  r_Slug :: gostring
  r_Type :: gostring
  r_Asset :: gostring
  r_Lifecycle :: gostring
  r_Backing :: gostring
  r_Description :: "gostring option"
  r_Settings :: "RealmSettings option"
  r_ArchivedAt :: "gostring option"
  r_CreatedBy :: "gostring option"
  r_CreatedAt :: gostring
  r_UpdatedAt :: gostring

definition decode_Realm :: "jfields \<Rightarrow> Realm option" where
  "decode_Realm fs = do {
     x0 \<leftarrow> str_field ''id'' fs; x1 \<leftarrow> str_field ''orgId'' fs;
     x2 \<leftarrow> str_field ''name'' fs; x3 \<leftarrow> str_field ''slug'' fs;
     x4 \<leftarrow> str_field ''type'' fs; x5 \<leftarrow> str_field ''asset'' fs;
     x6 \<leftarrow> str_field ''lifecycle'' fs; x7 \<leftarrow> str_field ''backing'' fs;
     x8 \<leftarrow> strp_field ''description'' fs;
     x9 \<leftarrow> structp_field decode_RealmSettings ''settings'' fs;
     x10 \<leftarrow> strp_field ''archivedAt'' fs; x11 \<leftarrow> strp_field ''createdBy'' fs;
     x12 \<leftarrow> str_field ''createdAt'' fs; x13 \<leftarrow> str_field ''updatedAt'' fs;
     Some \<lparr>r_ID = x0, r_OrgID = x1, r_Name = x2, r_Slug = x3, r_Type = x4, r_Asset = x5, r_Lifecycle = x6, r_Backing = x7,
           r_Description = x8, r_Settings = x9, r_ArchivedAt = x10, r_CreatedBy = x11, r_CreatedAt = x12,
           r_UpdatedAt = x13\<rparr> }"

record RealmListResponse =
  rlr_Realms :: "Realm list"
  rlr_Total :: int

definition decode_RealmListResponse :: "jfields \<Rightarrow> RealmListResponse option" where
  "decode_RealmListResponse fs = do {
     x0 \<leftarrow> structs_field decode_Realm ''realms'' fs; x1 \<leftarrow> int_field ''total'' fs;
     Some \<lparr>rlr_Realms = x0, rlr_Total = x1\<rparr> }"

section \<open>Identifiers\<close>

text \<open>
  The two regular expressions, case-insensitive: \<^const>\<open>fold_key\<close> maps every character to the upper-case one it
  matches.  A UUID is hexadecimal in groups of 8, 4, 4, 4 and 12; a TypeID is a prefix of 2 to 63
  letters, an underscore and 26 characters of Crockford's base 32 alphabet.
\<close>

definition is_upper :: "char \<Rightarrow> bool" where
  "is_upper c \<longleftrightarrow> 65 \<le> ascii c \<and> ascii c \<le> 90"

definition is_hex :: "char \<Rightarrow> bool" where
  "is_hex c \<longleftrightarrow> is_digit c \<or> (65 \<le> ascii c \<and> ascii c \<le> 70)"

definition is_base32 :: "char \<Rightarrow> bool" where
  "is_base32 c \<longleftrightarrow> is_digit c \<or> (is_upper c \<and> c \<notin> set ''ILOU'')"

fun hex_groups :: "nat list \<Rightarrow> gostring list \<Rightarrow> bool" where
  "hex_groups [] [] = True"
| "hex_groups (n # ns) (p # ps) = (length p = n \<and> list_all is_hex p \<and> hex_groups ns ps)"
| "hex_groups _ _ = False"

definition is_uuid :: "gostring \<Rightarrow> bool" where
  "is_uuid v \<longleftrightarrow> hex_groups [8, 4, 4, 4, 12] (SplitByte (CHR ''-'') (fold_key v))"

definition is_typeid :: "gostring \<Rightarrow> bool" where
  "is_typeid v \<longleftrightarrow>
     (case SplitByte (CHR ''_'') (fold_key v) of
        [p, s] \<Rightarrow> 2 \<le> length p \<and> length p \<le> 63 \<and> list_all is_upper p \<and> length s = 26 \<and> list_all is_base32 s
      | _ \<Rightarrow> False)"

definition isIDFormat :: "gostring \<Rightarrow> bool" where
  "isIDFormat v \<longleftrightarrow> is_uuid v \<or> is_typeid v"

section \<open>Token claims\<close>

text \<open>\<^verbatim>\<open>base64.RawURLEncoding\<close> and \<^verbatim>\<open>base64.URLEncoding\<close>: line breaks are skipped, the bits beyond whole bytes are not checked.\<close>

definition b64_val :: "char \<Rightarrow> nat option" where
  "b64_val c =
     (let a = ascii c in
      if 65 \<le> a \<and> a \<le> 90 then Some (a - 65) else if 97 \<le> a \<and> a \<le> 122 then Some (a - 71)
      else if 48 \<le> a \<and> a \<le> 57 then Some (a + 4) else if c = CHR ''-'' then Some 62
      else if c = CHR ''_'' then Some 63 else None)"

fun b64_quads :: "nat list \<Rightarrow> gostring option" where
  "b64_quads [] = Some []"
| "b64_quads [a] = None"
| "b64_quads [a, b] = Some [char_of ((a * 4 + b div 16) mod 256)]"
| "b64_quads [a, b, c] = Some [char_of ((a * 4 + b div 16) mod 256), char_of ((b * 16 + c div 4) mod 256)]"
| "b64_quads (a # b # c # d # rest) =
     map_option ((@) [char_of ((a * 4 + b div 16) mod 256), char_of ((b * 16 + c div 4) mod 256), char_of ((c * 64 + d) mod 256)])
       (b64_quads rest)"

definition b64_raw :: "gostring \<Rightarrow> gostring option" where
  "b64_raw s =
     Option.bind (decode_all b64_val (filter (\<lambda>c. c \<noteq> CHR 0x0A \<and> c \<noteq> CHR 0x0D) s)) b64_quads"

text \<open>With padding: the encoded length is a multiple of four and at most two \<^verbatim>\<open>=\<close> end it.\<close>

definition b64_padded :: "gostring \<Rightarrow> gostring option" where
  "b64_padded s =
     (let t = filter (\<lambda>c. c \<noteq> CHR 0x0A \<and> c \<noteq> CHR 0x0D) s; body = rev (dropWhile (\<lambda>c. c = CHR ''='') (rev t)) in
      if length t mod 4 = 0 \<and> length t - length body \<le> 2 then Option.bind (decode_all b64_val body) b64_quads else None)"

definition decodeJWTPayload :: "(gostring \<Rightarrow> jtext) \<Rightarrow> gostring \<Rightarrow> jfields option" where
  "decodeJWTPayload parse token =
     (case SplitByte (CHR ''.'') token of
        [_, p, _] \<Rightarrow>
          (case (case b64_raw p of Some raw \<Rightarrow> Some raw | None \<Rightarrow> b64_padded p) of
             None \<Rightarrow> None
           | Some raw \<Rightarrow> (case parse raw of JText (JObj fs) \<Rightarrow> Some fs | _ \<Rightarrow> None))
      | _ \<Rightarrow> None)"

text \<open>\<^verbatim>\<open>claims["exp"].(float64)\<close>, truncated to seconds; and the delay \<^verbatim>\<open>scheduleProactiveRefresh\<close> arms.\<close>

definition refreshBuffer :: int where
  "refreshBuffer = 30 * second"

definition claim_exp :: "jfields \<Rightarrow> int option" where
  "claim_exp claims =
     (case map_value claims ''exp'' of
        Some (JNum t) \<Rightarrow> map_option (\<lambda>q. let f = float64 q in if f \<ge> 0 then \<lfloor>f\<rfloor> else \<lceil>f\<rceil>) (rat_set_string t)
      | _ \<Rightarrow> None)"

definition refresh_delay :: "int \<Rightarrow> int \<Rightarrow> int" where
  "refresh_delay now expiry = (let delay = expiry * second - now - refreshBuffer in if delay < 0 then 0 else delay)"

section \<open>Resolving the realm\<close>

record session =
  ss_realmInput :: gostring
  ss_resolved :: gostring
  ss_hasProvider :: bool
  ss_timer :: "int option"

definition setRealmID :: "gostring \<Rightarrow> session \<Rightarrow> session" where
  "setRealmID rid s = s\<lparr>ss_resolved := rid\<rparr>"

definition scheduleProactiveRefresh :: "(gostring \<Rightarrow> jtext) \<Rightarrow> int \<Rightarrow> gostring \<Rightarrow> session \<Rightarrow> session" where
  "scheduleProactiveRefresh parse now token s =
     (if \<not> ss_hasProvider s then s
      else case Option.bind (decodeJWTPayload parse token) claim_exp of
        None \<Rightarrow> s
      | Some expiry \<Rightarrow> s\<lparr>ss_timer := Some (refresh_delay now expiry)\<rparr>)"

definition extractRealmFromToken :: "(gostring \<Rightarrow> jtext) \<Rightarrow> int \<Rightarrow> gostring \<Rightarrow> session \<Rightarrow> session" where
  "extractRealmFromToken parse now token s =
     scheduleProactiveRefresh parse now token
       (if ss_realmInput s = [] \<and> ss_resolved s = [] then
          (case decodeJWTPayload parse token of
             None \<Rightarrow> s
           | Some claims \<Rightarrow>
               (case map_value claims ''realmId'' of Some (JStr rid) \<Rightarrow> if rid \<noteq> [] then setRealmID rid s else s | _ \<Rightarrow> s))
        else s)"

definition no_realm :: error where
  "no_realm = Arca BaseError (newArcaError ''NO_REALM''
     ''No realm specified. Provide Realm in the config or use a scoped token that contains a realmId claim.'' [])"

definition realm_not_found :: "gostring \<Rightarrow> Realm list \<Rightarrow> error" where
  "realm_not_found input realms =
     Arca NotFoundError (newArcaError ''REALM_NOT_FOUND''
       (''Realm '' @ [CHR 0x27] @ input @ [CHR 0x27] @ '' not found. Available realms: '' @ Join '', '' (map r_Slug realms)) [])"

definition realm_matches :: "gostring \<Rightarrow> Realm \<Rightarrow> bool" where
  "realm_matches input r \<longleftrightarrow> r_Slug r = input \<or> r_Name r = input \<or> r_ID r = input"

text \<open>What the session calls: the realm listing, the provider refresh, and the credential it holds.\<close>

record 'w session_env =
  se_realms :: "'w \<Rightarrow> 'w \<times> (error + RealmListResponse)"
  se_refresh :: "'w \<Rightarrow> 'w \<times> (error + gostring)"
  se_hasCredential :: "'w \<Rightarrow> bool"
  se_json :: "gostring \<Rightarrow> jtext"
  se_now :: "'w \<Rightarrow> int"

definition resolveRealm :: "'w session_env \<Rightarrow> 'w \<Rightarrow> session \<Rightarrow> error option \<times> 'w \<times> session" where
  "resolveRealm env w s =
     (if ss_resolved s \<noteq> [] then (None, w, s)
      else if ss_realmInput s = [] then (Some no_realm, w, s)
      else if isIDFormat (ss_realmInput s) then (None, w, setRealmID (ss_realmInput s) s)
      else case se_realms env w of
        (w', Inl e) \<Rightarrow> (Some e, w', s)
      | (w', Inr resp) \<Rightarrow>
          (case find (realm_matches (ss_realmInput s)) (rlr_Realms resp) of
             Some r \<Rightarrow> (None, w', setRealmID (r_ID r) s)
           | None \<Rightarrow> (Some (realm_not_found (ss_realmInput s) (rlr_Realms resp)), w', s)))"

definition ensureReady :: "'w session_env \<Rightarrow> 'w \<Rightarrow> session \<Rightarrow> error option \<times> 'w \<times> session" where
  "ensureReady env w s =
     (if ss_resolved s \<noteq> [] then (None, w, s)
      else if ss_hasProvider s \<and> \<not> se_hasCredential env w then
        (case se_refresh env w of
           (w', Inl e) \<Rightarrow> (Some e, w', s)
         | (w', Inr tok) \<Rightarrow>
             (let s' = extractRealmFromToken (se_json env) (se_now env w') tok s in
              if ss_resolved s' \<noteq> [] then (None, w', s') else resolveRealm env w' s'))
      else resolveRealm env w s)"

definition realmID :: "'w session_env \<Rightarrow> 'w \<Rightarrow> session \<Rightarrow> (error + gostring) \<times> 'w \<times> session" where
  "realmID env w s =
     (case ensureReady env w s of
        (Some e, w', s') \<Rightarrow> (Inl e, w', s')
      | (None, w', s') \<Rightarrow> (Inr (ss_resolved s'), w', s'))"

section \<open>The realm a call uses\<close>

text \<open>Where a resolved realm comes from: the configured id, the listing's first match, or a token without configured realm.\<close>

definition realm_source :: "'w session_env \<Rightarrow> session \<Rightarrow> gostring \<Rightarrow> bool" where
  "realm_source env s rid \<longleftrightarrow>
     (if ss_realmInput s = [] then
        \<exists>w w' tok claims. se_refresh env w = (w', Inr tok) \<and> decodeJWTPayload (se_json env) tok = Some claims
          \<and> map_value claims ''realmId'' = Some (JStr rid)
      else if isIDFormat (ss_realmInput s) then rid = ss_realmInput s
      else \<exists>w w' resp r. se_realms env w = (w', Inr resp) \<and> find (realm_matches (ss_realmInput s)) (rlr_Realms resp) = Some r
          \<and> rid = r_ID r)"

lemma schedule_keeps [simp]:
  "ss_resolved (scheduleProactiveRefresh parse now tok s) = ss_resolved s"
  "ss_realmInput (scheduleProactiveRefresh parse now tok s) = ss_realmInput s"
  "ss_hasProvider (scheduleProactiveRefresh parse now tok s) = ss_hasProvider s"
  by (simp_all add: scheduleProactiveRefresh_def split: option.split)

lemma extract_keeps [simp]:
  "ss_realmInput (extractRealmFromToken parse now tok s) = ss_realmInput s"
  by (auto simp: extractRealmFromToken_def setRealmID_def split: option.split json.split)

lemma extract_resolves:
  assumes "ss_resolved s = []" "ss_resolved (extractRealmFromToken parse now tok s) \<noteq> []"
  shows "ss_realmInput s = [] \<and> (\<exists>claims. decodeJWTPayload parse tok = Some claims
     \<and> map_value claims ''realmId'' = Some (JStr (ss_resolved (extractRealmFromToken parse now tok s))))"
  using assms by (auto simp: extractRealmFromToken_def setRealmID_def split: option.splits json.splits if_splits)

lemma resolveRealm_source:
  assumes "resolveRealm env w s = (None, w', s')" "ss_resolved s = []"
  shows "realm_source env s (ss_resolved s')"
  using assms by (auto simp: resolveRealm_def realm_source_def setRealmID_def split: if_splits prod.splits sum.splits option.splits) metis

lemma resolveRealm_error:
  "resolveRealm env w s = (Some e, w', s') \<Longrightarrow> s' = s"
  by (auto simp: resolveRealm_def split: if_splits prod.splits sum.splits option.splits)


definition listing_env :: "unit session_env" where
  "listing_env = \<lparr>se_realms = (\<lambda>w. (w, Inr \<lparr>rlr_Realms = [\<lparr>r_ID = ''rlm_1'', r_OrgID = [], r_Name = ''Main'', r_Slug = ''main'',
       r_Type = [], r_Asset = [], r_Lifecycle = [], r_Backing = [], r_Description = None, r_Settings = None, r_ArchivedAt = None,
       r_CreatedBy = None, r_CreatedAt = [], r_UpdatedAt = []\<rparr>], rlr_Total = 1\<rparr>)),
     se_refresh = (\<lambda>w. (w, Inl (Plain ''no provider''))), se_hasCredential = (\<lambda>w. True), se_json = (\<lambda>t. JBad), se_now = (\<lambda>w. 0)\<rparr>"

definition slug_session :: session where
  "slug_session = \<lparr>ss_realmInput = ''main'', ss_resolved = [], ss_hasProvider = False, ss_timer = None\<rparr>"


section \<open>Refreshing the credential\<close>

text \<open>
  \<^verbatim>\<open>refreshTokenFromProvider\<close> with any number of concurrent callers, in the critical sections of \<^verbatim>\<open>refreshMu\<close>.  A flight is
  one run of the token provider; its number stands for the channel \<^verbatim>\<open>refreshDone\<close>.  A caller waits for a flight,
  leads one (the provider runs), has stored the result and is about to apply the token, or has
  returned.  \<^verbatim>\<open>rs_log\<close> records the results of the finished flights and \<^verbatim>\<open>rs_applied\<close> the tokens applied.
\<close>

type_synonym refresh_result = "error + gostring"

datatype caller =
    Waiting nat
  | Leading nat
  | Applying nat gostring
  | Returned nat refresh_result

record refresh_state =
  rs_flight :: "nat option"
  rs_result :: refresh_result
  rs_callers :: "nat \<Rightarrow> caller option"
  rs_credential :: gostring
  rs_log :: "refresh_result list"
  rs_applied :: "gostring list"

definition refresh_init :: "gostring \<Rightarrow> refresh_state" where
  "refresh_init cred = \<lparr>rs_flight = None, rs_result = Inr [], rs_callers = (\<lambda>_. None), rs_credential = cred,
     rs_log = [], rs_applied = []\<rparr>"

datatype refresh_event = Arrive nat | Provided nat refresh_result | Apply nat | Wake nat

text \<open>
  The first critical section joins the flight or begins one; the second stores the result and ends the flight; the
  token is applied after it, outside the lock; a waiter reads the stored result once its channel is closed.
\<close>

fun refresh_step :: "refresh_event \<Rightarrow> refresh_state \<Rightarrow> refresh_state option" where
  "refresh_step (Arrive c) s =
     (if rs_callers s c \<noteq> None then None
      else case rs_flight s of
        Some n \<Rightarrow> Some (s\<lparr>rs_callers := (rs_callers s)(c \<mapsto> Waiting n)\<rparr>)
      | None \<Rightarrow> (let n = length (rs_log s) in
                 Some (s\<lparr>rs_flight := Some n, rs_callers := (rs_callers s)(c \<mapsto> Leading n)\<rparr>)))"
| "refresh_step (Provided c r) s =
     (case rs_callers s c of
        Some (Leading n) \<Rightarrow>
          Some (s\<lparr>rs_result := r, rs_flight := None, rs_log := rs_log s @ [r],
                 rs_callers := (rs_callers s)(c \<mapsto> (case r of Inr tok \<Rightarrow> Applying n tok | Inl e \<Rightarrow> Returned n r))\<rparr>)
      | _ \<Rightarrow> None)"
| "refresh_step (Apply c) s =
     (case rs_callers s c of
        Some (Applying n tok) \<Rightarrow>
          Some (s\<lparr>rs_credential := tok, rs_applied := rs_applied s @ [tok],
                 rs_callers := (rs_callers s)(c \<mapsto> Returned n (Inr tok))\<rparr>)
      | _ \<Rightarrow> None)"
| "refresh_step (Wake c) s =
     (case rs_callers s c of
        Some (Waiting n) \<Rightarrow>
          if rs_flight s = Some n then None
          else Some (s\<lparr>rs_callers := (rs_callers s)(c \<mapsto> Returned n (rs_result s))\<rparr>)
      | _ \<Rightarrow> None)"

inductive refresh_reach :: "gostring \<Rightarrow> refresh_state \<Rightarrow> bool" for cred where
  init: "refresh_reach cred (refresh_init cred)"
| step: "refresh_reach cred s \<Longrightarrow> refresh_step e s = Some s' \<Longrightarrow> refresh_reach cred s'"

text \<open>
  The invariant: the flight in progress is the next entry of the log and has exactly one leader; whoever waits for or
  has returned from flight \<^verbatim>\<open>n\<close> was answered by flight \<^verbatim>\<open>n\<close> or a later one.
\<close>

definition answered :: "refresh_result list \<Rightarrow> nat \<Rightarrow> refresh_result \<Rightarrow> bool" where
  "answered rlog n r \<longleftrightarrow> (\<exists>m \<ge> n. m < length rlog \<and> rlog ! m = r)"

fun caller_ok :: "refresh_result list \<Rightarrow> nat option \<Rightarrow> caller \<Rightarrow> bool" where
  "caller_ok rlog flight (Waiting n) \<longleftrightarrow> n < length rlog \<or> flight = Some n"
| "caller_ok rlog flight (Leading n) \<longleftrightarrow> flight = Some n"
| "caller_ok rlog flight (Applying n tok) \<longleftrightarrow> n < length rlog \<and> rlog ! n = Inr tok"
| "caller_ok rlog flight (Returned n r) \<longleftrightarrow> answered rlog n r"

definition refresh_inv :: "refresh_state \<Rightarrow> bool" where
  "refresh_inv s \<longleftrightarrow>
     (\<forall>n. rs_flight s = Some n \<longrightarrow> n = length (rs_log s) \<and> (\<exists>c. rs_callers s c = Some (Leading n)))
     \<and> (rs_log s \<noteq> [] \<longrightarrow> rs_result s = last (rs_log s))
     \<and> (\<forall>c c' n m. rs_callers s c = Some (Leading n) \<longrightarrow> rs_callers s c' = Some (Leading m) \<longrightarrow> c = c')
     \<and> (\<forall>c x. rs_callers s c = Some x \<longrightarrow> caller_ok (rs_log s) (rs_flight s) x)"

lemma refresh_invD:
  assumes "refresh_inv s"
  shows "rs_flight s = Some n \<Longrightarrow> n = length (rs_log s)" "rs_flight s = Some n \<Longrightarrow> \<exists>c. rs_callers s c = Some (Leading n)"
    "rs_log s \<noteq> [] \<Longrightarrow> rs_result s = last (rs_log s)"
    "rs_callers s c = Some (Leading k) \<Longrightarrow> rs_callers s c' = Some (Leading m) \<Longrightarrow> c = c'"
    "rs_callers s c = Some x \<Longrightarrow> caller_ok (rs_log s) (rs_flight s) x"
  using assms unfolding refresh_inv_def by blast+

lemma answered_snoc: "answered rlog n r \<Longrightarrow> answered (rlog @ [y]) n r"
  unfolding answered_def by (metis length_append_singleton less_SucI nth_append)

lemma caller_ok_snoc:
  "caller_ok rlog (Some (length rlog)) x \<Longrightarrow> (\<forall>n. x \<noteq> Leading n) \<Longrightarrow> caller_ok (rlog @ [r]) None x"
  by (cases x) (auto simp: answered_snoc nth_append)

lemma caller_ok_start: "caller_ok rlog None x \<Longrightarrow> caller_ok rlog (Some n) x"
  by (cases x) auto

text \<open>A step that changes one caller, leads no new flight and keeps the flight and the log.\<close>

lemma refresh_inv_caller:
  assumes inv: "refresh_inv s" and ok: "caller_ok (rs_log s) (rs_flight s) x" and new: "\<forall>n. x \<noteq> Leading n"
    and old: "\<forall>n. rs_callers s c \<noteq> Some (Leading n)"
    and same: "rs_log s' = rs_log s" "rs_flight s' = rs_flight s" "rs_result s' = rs_result s" "rs_callers s' = (rs_callers s)(c \<mapsto> x)"
  shows "refresh_inv s'"
proof -
  have "\<exists>d. rs_callers s' d = Some (Leading n)" if fl: "rs_flight s = Some n" for n
  proof -
    obtain d where "rs_callers s d = Some (Leading n)" using refresh_invD(2) [OF inv fl] by blast
    then show ?thesis using old same(4) by (intro exI [of _ d]) auto
  qed
  then show ?thesis using refresh_invD [OF inv] ok new unfolding refresh_inv_def same
    by (auto split: if_splits)
qed

lemma refresh_inv_step:
  assumes inv: "refresh_inv s" and st: "refresh_step e s = Some s'"
  shows "refresh_inv s'"
proof (cases e)
  case (Arrive c)
  then have free: "rs_callers s c = None" using st by (auto split: if_splits)
  show ?thesis
  proof (cases "rs_flight s")
    case (Some n)
    then have "s' = s\<lparr>rs_callers := (rs_callers s)(c \<mapsto> Waiting n)\<rparr>" using st Arrive free by simp
    then show ?thesis using free Some by (intro refresh_inv_caller [OF inv, of "Waiting n" c]) simp_all
  next
    case None
    let ?n = "length (rs_log s)"
    have s': "s' = s\<lparr>rs_flight := Some ?n, rs_callers := (rs_callers s)(c \<mapsto> Leading ?n)\<rparr>"
      using st Arrive free None by (simp add: Let_def)
    have no_leader: "rs_callers s d \<noteq> Some (Leading m)" for d m using refresh_invD(5) [OF inv, of d "Leading m"] None by auto
    have ok: "caller_ok (rs_log s) (Some ?n) x" if "rs_callers s d = Some x" for d x
      using caller_ok_start refresh_invD(5) [OF inv that] None by metis
    show ?thesis unfolding refresh_inv_def s' using refresh_invD(3) [OF inv] no_leader ok by (auto split: if_splits)
  qed
next
  case (Provided c r)
  then obtain n where n: "rs_callers s c = Some (Leading n)" "s' = s\<lparr>rs_result := r, rs_flight := None, rs_log := rs_log s @ [r],
       rs_callers := (rs_callers s)(c \<mapsto> (case r of Inr tok \<Rightarrow> Applying n tok | Inl e \<Rightarrow> Returned n r))\<rparr>"
    using st by (auto split: option.splits caller.splits)
  have fl: "rs_flight s = Some n" using refresh_invD(5) [OF inv n(1)] by simp
  then have len: "n = length (rs_log s)" using refresh_invD(1) [OF inv] by blast
  have others: "caller_ok (rs_log s @ [r]) None x \<and> (\<forall>m. x \<noteq> Leading m)" if "rs_callers s d = Some x" "d \<noteq> c" for d x
  proof -
    have "\<forall>m. x \<noteq> Leading m" using refresh_invD(4) [OF inv n(1)] that by blast
    then show ?thesis using caller_ok_snoc refresh_invD(5) [OF inv that(1)] fl len by metis
  qed
  have mine: "caller_ok (rs_log s @ [r]) None (case r of Inr tok \<Rightarrow> Applying n tok | Inl e \<Rightarrow> Returned n r)"
    using len by (cases r) (auto simp: answered_def intro: exI [of _ n])
  have "(case r of Inr tok \<Rightarrow> Applying n tok | Inl e \<Rightarrow> Returned n r) \<noteq> Leading m" for m by (cases r) simp_all
  then show ?thesis unfolding refresh_inv_def n(2) using others mine by (auto split: if_splits)
next
  case (Apply c)
  then obtain n tok where n: "rs_callers s c = Some (Applying n tok)" "s' = s\<lparr>rs_credential := tok, rs_applied := rs_applied s @ [tok],
       rs_callers := (rs_callers s)(c \<mapsto> Returned n (Inr tok))\<rparr>"
    using st by (auto split: option.splits caller.splits)
  have "caller_ok (rs_log s) (rs_flight s) (Returned n (Inr tok))"
    using refresh_invD(5) [OF inv n(1)] by (auto simp: answered_def)
  then show ?thesis using n by (intro refresh_inv_caller [OF inv, of "Returned n (Inr tok)" c]) simp_all
next
  case (Wake c)
  then obtain n where n: "rs_callers s c = Some (Waiting n)" "rs_flight s \<noteq> Some n"
    "s' = s\<lparr>rs_callers := (rs_callers s)(c \<mapsto> Returned n (rs_result s))\<rparr>"
    using st by (auto split: option.splits caller.splits if_splits)
  have len: "n < length (rs_log s)" using refresh_invD(5) [OF inv n(1)] n(2) by simp
  then have "rs_log s ! (length (rs_log s) - 1) = rs_result s"
    using refresh_invD(3) [OF inv] by (cases "rs_log s = []") (auto simp: last_conv_nth)
  then have "caller_ok (rs_log s) (rs_flight s) (Returned n (rs_result s))"
    using len by (auto simp: answered_def intro!: exI [of _ "length (rs_log s) - 1"])
  then show ?thesis using n by (intro refresh_inv_caller [OF inv, of "Returned n (rs_result s)" c]) simp_all
qed

lemma refresh_reach_inv: "refresh_reach cred s \<Longrightarrow> refresh_inv s"
proof (induction rule: refresh_reach.induct)
  case (step s e s')
  then show ?case using refresh_inv_step by blast
qed (simp add: refresh_inv_def refresh_init_def)

text \<open>C29: Under any interleaving of callers the token provider runs at most once at a time; every caller returns the result of
  the provider run it joined or of a later one, never of an earlier one, and a waiting caller is never
  stranded: either the provider run it waits for is still in progress or its result is there for it to take.\<close>

theorem refresh_single_flight:
  assumes "refresh_reach cred s"
  shows "(\<forall>c c' n m. rs_callers s c = Some (Leading n) \<longrightarrow> rs_callers s c' = Some (Leading m) \<longrightarrow> c = c' \<and> n = m)
     \<and> (\<forall>c n r. rs_callers s c = Some (Returned n r) \<longrightarrow> (\<exists>m \<ge> n. m < length (rs_log s) \<and> rs_log s ! m = r))
     \<and> (\<forall>c n. rs_callers s c = Some (Waiting n) \<longrightarrow>
          (\<exists>l. rs_callers s l = Some (Leading n)) \<or> (\<exists>s'. refresh_step (Wake c) s = Some s'))"
proof -
  note inv = refresh_reach_inv [OF assms]
  have "c = c' \<and> n = m" if "rs_callers s c = Some (Leading n)" "rs_callers s c' = Some (Leading m)" for c c' n m
    using refresh_invD(4) [OF inv that] that by simp
  moreover have "answered (rs_log s) n r" if "rs_callers s c = Some (Returned n r)" for c n r
    using refresh_invD(5) [OF inv that] by simp
  moreover have "(\<exists>l. rs_callers s l = Some (Leading n)) \<or> (\<exists>s'. refresh_step (Wake c) s = Some s')"
    if "rs_callers s c = Some (Waiting n)" for c n
    using refresh_invD(2) [OF inv, of n] that by auto
  ultimately show ?thesis by (auto simp: answered_def)
qed

fun run_refresh :: "refresh_event list \<Rightarrow> refresh_state \<Rightarrow> refresh_state option" where
  "run_refresh [] s = Some s"
| "run_refresh (e # es) s = Option.bind (refresh_step e s) (run_refresh es)"

lemma run_refresh_reach: "refresh_reach cred s \<Longrightarrow> run_refresh es s = Some s' \<Longrightarrow> refresh_reach cred s'"
  by (induction es arbitrary: s) (auto split: bind_splits intro: refresh_reach.step)

definition two_refreshes :: "refresh_event list" where
  "two_refreshes = [Arrive 0, Arrive 1, Provided 0 (Inr ''old''), Arrive 2, Provided 2 (Inr ''new''), Apply 2, Wake 1, Apply 0]"

lemma two_refreshes_run:
  "\<exists>s. run_refresh two_refreshes (refresh_init ''t'') = Some s \<and> rs_log s = [Inr ''old'', Inr ''new'']
     \<and> rs_callers s 1 = Some (Returned 0 (Inr ''new'')) \<and> rs_callers s 0 = Some (Returned 0 (Inr ''old''))
     \<and> rs_credential s = ''old''"
  by (simp add: two_refreshes_def refresh_init_def)

theorem refresh_single_flight_witness:
  "\<exists>s. refresh_reach ''t'' s \<and> rs_callers s 1 = Some (Returned 0 (Inr ''new''))
     \<and> (\<exists>m \<ge> 0. m < length (rs_log s) \<and> rs_log s ! m = Inr ''new'')"
proof -
  obtain s where s: "run_refresh two_refreshes (refresh_init ''t'') = Some s" "rs_callers s 1 = Some (Returned 0 (Inr ''new''))"
    using two_refreshes_run by blast
  have "refresh_reach ''t'' s" using run_refresh_reach [OF refresh_reach.init s(1)] .
  then show ?thesis using refresh_single_flight [of "''t''" s] s(2) by blast
qed

text \<open>
  The token is applied outside the lock: a leader that is delayed between storing its result and applying it
  replaces the token of a later refresh by its own, older one.
\<close>

lemma late_apply_restores_old_token:
  "\<exists>s. refresh_reach ''t'' s \<and> rs_log s = [Inr ''old'', Inr ''new''] \<and> rs_applied s = [''new'', ''old''] \<and> rs_credential s = ''old''"
proof -
  obtain s where s: "run_refresh two_refreshes (refresh_init ''t'') = Some s" "rs_log s = [Inr ''old'', Inr ''new'']"
    "rs_applied s = [''new'', ''old'']" "rs_credential s = ''old''"
    by (simp add: two_refreshes_def refresh_init_def)
  then show ?thesis using run_refresh_reach [OF refresh_reach.init s(1)] by blast
qed

end
