(* ===== verification/Operation_Wait.thy ===== *)
theory Operation_Wait
  imports Receipts
begin

text \<open>
  Waiting for an operation (\<^verbatim>\<open>arca.go\<close>, \<^verbatim>\<open>waitForOperation\<close>) as a step machine: the listeners and snapshots that
  resolve it, the recovery triggers (entity-only events, gaps, authentication, rotation), the worker that answers
  them with a confirmed subscription and a read, and the select that returns.  A critical section or
  a channel operation is one step; the network's answers and the clock are the events.
\<close>

section \<open>State\<close>

text \<open>Where the worker is: at its select; confirming the subscription, reading (with the acknowledgement's success) or pausing in an attempt; gone.\<close>

datatype worker = Idle | Confirming nat | Reading nat bool | Pausing nat | Over

record waiter =
  ow_id :: gostring
  ow_timeoutMS :: int
  ow_settled :: bool
  ow_last :: "Operation option"
  ow_result :: "(error + Operation) option"
  ow_revision :: nat
  ow_request :: bool
  ow_completed :: nat
  ow_covered :: nat
  ow_acquired :: bool
  ow_worker :: worker
  ow_deadline :: bool
  ow_ctxErr :: "gostring option"
  ow_outcome :: "(error + Operation) option"
  ow_returned :: bool
  ow_heard :: "Operation list"
  ow_reads :: "nat list"

text \<open>The closures \<^verbatim>\<open>recover\<close> and \<^verbatim>\<open>tryResolve\<close>.\<close>

definition ow_recover :: "waiter \<Rightarrow> waiter" where
  "ow_recover s = s\<lparr>ow_revision := ow_revision s + 1, ow_request := True\<rparr>"

definition wait_verdict :: "Operation \<Rightarrow> error + Operation" where
  "wait_verdict o1 =
     (if op_State o1 = OpFailed \<or> op_State o1 = OpExpired then Inl (newOperationFailedError (snapshot o1)) else Inr o1)"

definition tryResolve :: "Operation option \<Rightarrow> waiter \<Rightarrow> waiter" where
  "tryResolve op s =
     (case op of
        None \<Rightarrow> s
      | Some o1 \<Rightarrow>
          if op_ID o1 \<noteq> ow_id s then s
          else
            (let s = s\<lparr>ow_last := Some o1, ow_heard := ow_heard s @ [o1]\<rparr> in
             if op_State o1 = OpPending \<or> ow_settled s then s
             else s\<lparr>ow_settled := True, ow_result := Some (wait_verdict o1)\<rparr>))"

text \<open>The listener of operation events: the operation, or only the entity's id.\<close>

definition ow_handler :: "Operation option \<Rightarrow> gostring \<Rightarrow> waiter \<Rightarrow> waiter" where
  "ow_handler op entity s =
     (if op \<noteq> None then tryResolve op s else if entity = ow_id s then ow_recover s else s)"

definition ow_init :: "gostring \<Rightarrow> int \<Rightarrow> waiter" where
  "ow_init i timeout =
     ow_recover \<lparr>ow_id = i, ow_timeoutMS = (if timeout \<le> 0 then 30 * second else timeout) div 1000000, ow_settled = False, ow_last = None,
       ow_result = None, ow_revision = 0, ow_request = False, ow_completed = 0, ow_covered = 0, ow_acquired = False,
       ow_worker = Idle, ow_deadline = False, ow_ctxErr = None, ow_outcome = None, ow_returned = False,
       ow_heard = [], ow_reads = []\<rparr>"

section \<open>The worker\<close>

text \<open>The deferred release of the event subscription.\<close>

definition worker_exit :: "waiter \<Rightarrow> waiter" where
  "worker_exit s = s\<lparr>ow_worker := Over, ow_acquired := False\<rparr>"

definition begin_attempt :: "nat \<Rightarrow> waiter \<Rightarrow> waiter" where
  "begin_attempt a s = s\<lparr>ow_worker := Confirming a, ow_acquired := True\<rparr>"

definition ow_take :: "waiter \<Rightarrow> waiter" where
  "ow_take s =
     (let s = s\<lparr>ow_request := False\<rparr> in
      if ow_settled s \<or> ow_revision s \<le> ow_completed s then s
      else begin_attempt 0 (s\<lparr>ow_covered := ow_revision s\<rparr>))"

definition confirmed :: "nat \<Rightarrow> bool \<Rightarrow> waiter \<Rightarrow> waiter" where
  "confirmed a ok s =
     (if ow_deadline s \<or> ow_settled s then worker_exit s
      else s\<lparr>ow_covered := ow_revision s, ow_worker := Reading a ok, ow_reads := ow_reads s @ [ow_revision s]\<rparr>)"

definition read_done :: "nat \<Rightarrow> bool \<Rightarrow> Operation option \<Rightarrow> waiter \<Rightarrow> waiter" where
  "read_done a ok reply s =
     (if ow_deadline s \<or> ow_settled s then worker_exit s
      else
        (let found = (case reply of Some o1 \<Rightarrow> op_ID o1 = ow_id s | None \<Rightarrow> False);
             s = (if found then tryResolve reply s else s) in
         if found \<and> ow_settled s then worker_exit s
         else if found \<and> ok then s\<lparr>ow_completed := ow_covered s, ow_worker := Idle\<rparr>
         else if a < 2 then s\<lparr>ow_worker := Pausing a\<rparr>
         else s\<lparr>ow_completed := ow_covered s, ow_worker := Idle\<rparr>))"

section \<open>Steps\<close>

datatype ow_event =
    Event "Operation option" gostring
  | Snapshots "Operation list"
  | Trigger
  | Take
  | Confirm bool
  | ReadReply "Operation option"
  | Resume
  | Deadline
  | Cancel gostring
  | WorkerStops
  | SelectResult
  | SelectDeadline
  | Return

text \<open>What the deadline returns: the caller's context error, or a stall with the last operation seen.\<close>

definition deadline_error :: "waiter \<Rightarrow> error" where
  "deadline_error s =
     (case ow_ctxErr s of
        Some e \<Rightarrow> CtxError e
      | None \<Rightarrow> newOperationStalledError (ow_id s) (ow_timeoutMS s) (map_option snapshot (ow_last s)))"

text \<open>
  Once the outcome is decided the context is cancelled and the call waits for the worker; the listeners stay installed
  until it returns.
\<close>

fun ow_step :: "ow_event \<Rightarrow> waiter \<Rightarrow> waiter option" where
  "ow_step (Event op entity) s = (if ow_returned s then None else Some (ow_handler op entity s))"
| "ow_step (Snapshots ops) s = (if ow_returned s then None else Some (fold (\<lambda>o1. tryResolve (Some o1)) ops s))"
| "ow_step Trigger s = (if ow_returned s then None else Some (ow_recover s))"
| "ow_step Take s = (if ow_worker s = Idle \<and> ow_request s then Some (ow_take s) else None)"
| "ow_step (Confirm ok) s = (case ow_worker s of Confirming a \<Rightarrow> Some (confirmed a ok s) | _ \<Rightarrow> None)"
| "ow_step (ReadReply r) s = (case ow_worker s of Reading a ok \<Rightarrow> Some (read_done a ok r s) | _ \<Rightarrow> None)"
| "ow_step Resume s = (case ow_worker s of Pausing a \<Rightarrow> Some (begin_attempt (Suc a) s) | _ \<Rightarrow> None)"
| "ow_step Deadline s = Some (s\<lparr>ow_deadline := True\<rparr>)"
| "ow_step (Cancel e) s = Some (s\<lparr>ow_deadline := True, ow_ctxErr := Some e\<rparr>)"
| "ow_step WorkerStops s =
     (if ow_deadline s \<and> (ow_worker s = Idle \<or> (\<exists>a \<in> {0, 1, 2}. ow_worker s = Pausing a)) then Some (worker_exit s) else None)"
| "ow_step SelectResult s =
     (if ow_outcome s = None \<and> ow_result s \<noteq> None then Some (s\<lparr>ow_outcome := ow_result s, ow_deadline := True\<rparr>) else None)"
| "ow_step SelectDeadline s =
     (if ow_outcome s = None \<and> ow_deadline s then Some (s\<lparr>ow_outcome := Some (Inl (deadline_error s))\<rparr>) else None)"
| "ow_step Return s =
     (if ow_outcome s \<noteq> None \<and> ow_worker s = Over then Some (s\<lparr>ow_returned := True\<rparr>) else None)"

inductive ow_reach :: "gostring \<Rightarrow> int \<Rightarrow> waiter \<Rightarrow> bool" for i t where
  init: "ow_reach i t (ow_init i t)"
| step: "ow_reach i t s \<Longrightarrow> ow_step e s = Some s' \<Longrightarrow> ow_reach i t s'"

section \<open>Invariants\<close>

text \<open>The verdict: it is that of an operation of this id that was heard in a terminal state.\<close>

definition verdict_inv :: "gostring \<Rightarrow> waiter \<Rightarrow> bool" where
  "verdict_inv i s \<longleftrightarrow> ow_id s = i \<and> (ow_result s \<noteq> None \<longleftrightarrow> ow_settled s)
     \<and> list_all (\<lambda>o1. op_ID o1 = i) (ow_heard s)
     \<and> (\<forall>r. ow_result s = Some r \<longrightarrow> (\<exists>o1 \<in> set (ow_heard s). op_State o1 \<noteq> OpPending \<and> r = wait_verdict o1))
     \<and> (\<forall>r. ow_outcome s = Some r \<longrightarrow>
          ow_result s = Some r \<or> ow_deadline s \<and> ((\<exists>e. r = Inl (CtxError e)) \<or> (\<exists>last. r = Inl (newOperationStalledError i (ow_timeoutMS s) last))))"

text \<open>The worker: a trigger it has not covered has left a request, and what it counts as completed was read.\<close>

definition worker_inv :: "waiter \<Rightarrow> bool" where
  "worker_inv s \<longleftrightarrow> 1 \<le> ow_revision s \<and> ow_covered s \<le> ow_revision s \<and> ow_completed s \<le> ow_revision s
     \<and> (ow_completed s = 0 \<or> ow_completed s \<in> set (ow_reads s))
     \<and> (case ow_worker s of
          Idle \<Rightarrow> (ow_completed s < ow_revision s \<longrightarrow> ow_request s \<or> ow_settled s)
        | Confirming a \<Rightarrow> ow_acquired s \<and> a \<le> 2 \<and> (ow_covered s < ow_revision s \<longrightarrow> ow_request s)
        | Reading a ok \<Rightarrow> ow_acquired s \<and> a \<le> 2 \<and> (ow_covered s < ow_revision s \<longrightarrow> ow_request s) \<and> ow_covered s \<in> set (ow_reads s)
        | Pausing a \<Rightarrow> ow_acquired s \<and> a < 2 \<and> (ow_covered s < ow_revision s \<longrightarrow> ow_request s)
        | Over \<Rightarrow> \<not> ow_acquired s)
     \<and> (ow_returned s \<longrightarrow> ow_worker s = Over \<and> ow_outcome s \<noteq> None)"

lemma tryResolve_verdict: "verdict_inv i s \<Longrightarrow> verdict_inv i (tryResolve op s)"
  unfolding verdict_inv_def tryResolve_def
  by (auto simp: Let_def split: option.split)

lemma tryResolve_keeps [simp]:
  "ow_id (tryResolve op s) = ow_id s" "ow_revision (tryResolve op s) = ow_revision s" "ow_request (tryResolve op s) = ow_request s"
  "ow_completed (tryResolve op s) = ow_completed s" "ow_covered (tryResolve op s) = ow_covered s"
  "ow_acquired (tryResolve op s) = ow_acquired s" "ow_worker (tryResolve op s) = ow_worker s"
  "ow_reads (tryResolve op s) = ow_reads s" "ow_returned (tryResolve op s) = ow_returned s"
  "ow_outcome (tryResolve op s) = ow_outcome s" "ow_deadline (tryResolve op s) = ow_deadline s"
  "ow_settled s \<Longrightarrow> ow_settled (tryResolve op s)"
  by (simp_all add: tryResolve_def Let_def split: option.split)

lemma tryResolve_worker: "worker_inv s \<Longrightarrow> worker_inv (tryResolve op s)"
  unfolding worker_inv_def by (auto split: worker.splits)

lemma snapshots_inv:
  "(\<And>op s. P s \<Longrightarrow> P (tryResolve op s)) \<Longrightarrow> P s \<Longrightarrow> P (fold (\<lambda>o1. tryResolve (Some o1)) ops s)"
  by (induction ops arbitrary: s) auto

lemmas ow_defs = ow_handler_def ow_recover_def ow_take_def begin_attempt_def confirmed_def worker_exit_def Let_def

lemma read_done_verdict: "verdict_inv i s \<Longrightarrow> verdict_inv i (read_done a ok r s)"
  using tryResolve_verdict [of i s r]
  by (auto simp: read_done_def Let_def worker_exit_def verdict_inv_def)

text \<open>The steps of the worker and the clock change nothing the verdict depends on.\<close>

definition same_verdict :: "waiter \<Rightarrow> waiter \<Rightarrow> bool" where
  "same_verdict s s' \<longleftrightarrow> ow_id s' = ow_id s \<and> ow_heard s' = ow_heard s \<and> ow_result s' = ow_result s
     \<and> ow_settled s' = ow_settled s \<and> ow_outcome s' = ow_outcome s \<and> ow_timeoutMS s' = ow_timeoutMS s
     \<and> (ow_deadline s \<longrightarrow> ow_deadline s')"

lemma verdict_cong: "verdict_inv i s \<Longrightarrow> same_verdict s s' \<Longrightarrow> verdict_inv i s'"
  unfolding verdict_inv_def same_verdict_def by metis

lemma same_verdict_steps:
  "same_verdict s (ow_recover s)" "same_verdict s (ow_take s)" "same_verdict s (confirmed a ok s)"
  "same_verdict s (begin_attempt a s)" "same_verdict s (worker_exit s)"
  "same_verdict s (s\<lparr>ow_deadline := True\<rparr>)" "same_verdict s (s\<lparr>ow_deadline := True, ow_ctxErr := c\<rparr>)"
  "same_verdict s (s\<lparr>ow_returned := True\<rparr>)"
  by (simp_all add: same_verdict_def ow_recover_def ow_take_def confirmed_def begin_attempt_def worker_exit_def Let_def)

lemma deadline_verdict:
  "verdict_inv i s \<Longrightarrow> ow_deadline s \<Longrightarrow> verdict_inv i (s\<lparr>ow_outcome := Some (Inl (deadline_error s))\<rparr>)"
  by (auto simp: deadline_error_def verdict_inv_def split: option.split)

lemma result_verdict:
  "verdict_inv i s \<Longrightarrow> verdict_inv i (s\<lparr>ow_outcome := ow_result s, ow_deadline := True\<rparr>)"
  by (auto simp: verdict_inv_def)

lemma verdict_step:
  assumes "verdict_inv i s" "ow_step e s = Some s'"
  shows "verdict_inv i s'"
proof -
  note keep = same_verdict_steps [THEN verdict_cong [OF assms(1)]]
  note resolve = tryResolve_verdict [OF assms(1)]
  have snaps: "verdict_inv i (fold (\<lambda>o1. tryResolve (Some o1)) ops s)" for ops
    using snapshots_inv [of "verdict_inv i", OF tryResolve_verdict assms(1)] .
  show ?thesis
    using assms(2) keep resolve snaps deadline_verdict [OF assms(1)] result_verdict [OF assms(1)] read_done_verdict [OF assms(1)] assms(1)
    by (cases e) (simp_all add: ow_handler_def split: if_splits worker.splits, blast+)
qed

lemma read_done_worker:
  assumes "worker_inv s" "ow_worker s = Reading a ok"
  shows "worker_inv (read_done a ok r s)"
proof -
  have inv: "worker_inv (tryResolve r s)" using tryResolve_worker assms(1) by blast
  show ?thesis using assms inv by (auto simp: read_done_def Let_def worker_exit_def worker_inv_def)
qed

lemma worker_inv_steps:
  assumes "worker_inv s"
  shows "worker_inv (ow_recover s)"
    "ow_worker s = Idle \<Longrightarrow> worker_inv (ow_take s)"
    "ow_worker s = Confirming a \<Longrightarrow> worker_inv (confirmed a ok s)"
    "ow_worker s = Pausing a \<Longrightarrow> worker_inv (begin_attempt (Suc a) s)"
    "ow_worker s = Idle \<or> (\<exists>a. ow_worker s = Pausing a) \<Longrightarrow> worker_inv (worker_exit s)"
    "worker_inv (s\<lparr>ow_deadline := True\<rparr>)" "worker_inv (s\<lparr>ow_deadline := True, ow_ctxErr := c\<rparr>)"
    "ow_outcome s \<noteq> None \<Longrightarrow> ow_worker s = Over \<Longrightarrow> worker_inv (s\<lparr>ow_returned := True\<rparr>)"
    "\<not> ow_returned s \<or> ow_outcome s = None \<Longrightarrow> worker_inv (s\<lparr>ow_outcome := r\<rparr>)"
    "\<not> ow_returned s \<or> ow_outcome s = None \<Longrightarrow> worker_inv (s\<lparr>ow_outcome := r, ow_deadline := True\<rparr>)"
  using assms unfolding worker_inv_def
  by (simp_all add: ow_recover_def ow_take_def confirmed_def begin_attempt_def worker_exit_def Let_def split: worker.splits)
    (auto split: worker.splits)

lemma worker_step:
  assumes "worker_inv s" "ow_step e s = Some s'"
  shows "worker_inv s'"
proof -
  note steps = worker_inv_steps [OF assms(1)]
  have snaps: "worker_inv (fold (\<lambda>o1. tryResolve (Some o1)) ops s)" for ops
    using snapshots_inv [of worker_inv, OF tryResolve_worker assms(1)] .
  show ?thesis
    using assms(2) steps tryResolve_worker [OF assms(1)] snaps read_done_worker [OF assms(1)] assms(1)
    by (cases e) (simp_all add: ow_handler_def split: if_splits worker.splits, blast+)
qed

lemma ow_reach_inv: "ow_reach i t s \<Longrightarrow> verdict_inv i s \<and> worker_inv s"
proof (induction rule: ow_reach.induct)
  case (step s e s')
  then show ?case using verdict_step worker_step by blast
qed (simp add: ow_init_def ow_recover_def verdict_inv_def worker_inv_def)

section \<open>Properties\<close>


text \<open>C31: Every recovery trigger of a wait (an event that names only the entity, a delivery gap, authentication, rotation) is
  followed by a read that began after it: when the worker is idle with nothing requested and the
  operation is not settled, the last trigger was answered by a read.\<close>

theorem operation_wait_answers_triggers:
  assumes "ow_reach i t s" "ow_worker s = Idle" "\<not> ow_request s" "\<not> ow_settled s"
  shows "ow_revision s \<in> set (ow_reads s)"
proof -
  have w: "worker_inv s" using ow_reach_inv [OF assms(1)] by blast
  then have "ow_completed s = ow_revision s" "1 \<le> ow_revision s" using assms(2-4) by (auto simp: worker_inv_def)
  then show ?thesis using w by (auto simp: worker_inv_def)
qed

fun run_wait :: "ow_event list \<Rightarrow> waiter \<Rightarrow> waiter option" where
  "run_wait [] s = Some s"
| "run_wait (e # es) s = Option.bind (ow_step e s) (run_wait es)"

lemma run_wait_reach: "ow_reach i t s \<Longrightarrow> run_wait es s = Some s' \<Longrightarrow> ow_reach i t s'"
  by (induction es arbitrary: s) (auto split: bind_splits intro: ow_reach.step)

definition op_in_state :: "gostring \<Rightarrow> Operation" where
  "op_in_state st = \<lparr>op_ID = ''o'', op_RealmID = [], op_Path = [], op_Type = [], op_State = st, op_SourceArcaPath = None,
     op_TargetArcaPath = None, op_Input = None, op_Outcome = None, op_ParsedOutcome = None, op_FailureMessage = None\<rparr>"

lemma wait_runs:
  "\<exists>s. run_wait [Take, Confirm True, Trigger, ReadReply (Some (op_in_state OpPending)), Take, Confirm True,
        ReadReply (Some (op_in_state OpPending))] (ow_init ''o'' 0) = Some s
     \<and> ow_worker s = Idle \<and> \<not> ow_request s \<and> \<not> ow_settled s \<and> ow_revision s = 2"
  "\<exists>s. run_wait [Take, Confirm True, Event (Some (op_in_state OpCompleted)) [], SelectResult, ReadReply None, Return]
        (ow_init ''o'' 0) = Some s \<and> ow_returned s \<and> ow_outcome s = Some (Inr (op_in_state OpCompleted))"
  "\<exists>s. run_wait [Event (Some (op_in_state OpCompleted)) [], Deadline, SelectDeadline] (ow_init ''o'' 0) = Some s
     \<and> ow_result s = Some (Inr (op_in_state OpCompleted))
     \<and> ow_outcome s = Some (Inl (newOperationStalledError ''o'' 30000 (Some (snapshot (op_in_state OpCompleted)))))"
  by (simp_all add: ow_init_def ow_defs read_done_def ow_handler_def tryResolve_def op_in_state_def OpPending_def OpCompleted_def
    OpFailed_def OpExpired_def wait_verdict_def deadline_error_def second_def)


theorem operation_wait_answers_triggers_witness:
  "\<exists>s :: waiter. ow_worker s = Idle \<and> ow_revision s = 2 \<and> 2 \<in> set (ow_reads s)"
proof -
  obtain s where s: "ow_reach ''o'' 0 s" "ow_worker s = Idle" "\<not> ow_request s" "\<not> ow_settled s" "ow_revision s = 2"
    using wait_runs(1) run_wait_reach [OF ow_reach.init] by blast
  then show ?thesis using operation_wait_answers_triggers [OF s(1-4)] by auto
qed

text \<open>
  The select does not prefer the result: when the deadline passes while a completed operation waits in the result
  channel, the call may still report a stall, with \<^verbatim>\<open>completed\<close> as the last known state.
\<close>

lemma completed_wait_may_stall:
  "\<exists>s. ow_reach ''o'' 0 s \<and> ow_result s = Some (Inr (op_in_state OpCompleted))
     \<and> ow_outcome s = Some (Inl (newOperationStalledError ''o'' 30000 (Some (snapshot (op_in_state OpCompleted)))))"
  using wait_runs(3) run_wait_reach [OF ow_reach.init] by blast

end
