(* ===== verification/Go_ParseFloat.thy ===== *)
theory Go_ParseFloat
  imports Go_Numbers Go_Float
begin

text \<open>
  \<^verbatim>\<open>strconv.ParseFloat(s, 64)\<close>: decimal and hexadecimal literals with digit separators, infinities and
  not-a-number, rounded to the nearest double with subnormal numbers and overflow.  The sign of a zero
  is not represented.
\<close>

section \<open>Doubles\<close>

datatype gofloat = Fin rat | PosInf | NegInf | NotANumber

definition magnitude :: "rat \<Rightarrow> rat" where
  "magnitude q = (if q = 0 then 0 else (let e = max (flog2 q - 52) (- 1074) in of_int (rne (q / 2 powi e)) * 2 powi e))"

definition round_double :: "bool \<Rightarrow> rat \<Rightarrow> gofloat \<times> bool" where
  "round_double neg q =
     (let m = magnitude q in
      if m \<ge> 2 ^ 1024 then (if neg then NegInf else PosInf, True) else (Fin (if neg then - m else m), False))"

text \<open>The comparisons; every one with a not-a-number is false.\<close>

fun float_less :: "gofloat \<Rightarrow> gofloat \<Rightarrow> bool" where
  "float_less (Fin a) (Fin b) \<longleftrightarrow> a < b"
| "float_less NegInf (Fin b) \<longleftrightarrow> True"
| "float_less NegInf PosInf \<longleftrightarrow> True"
| "float_less (Fin a) PosInf \<longleftrightarrow> True"
| "float_less _ _ \<longleftrightarrow> False"

definition float_le :: "gofloat \<Rightarrow> gofloat \<Rightarrow> bool" where
  "float_le a b \<longleftrightarrow> float_less a b \<or> a = b \<and> a \<noteq> NotANumber"

section \<open>Literals\<close>

definition hex_val :: "char \<Rightarrow> nat" where
  "hex_val c = (let a = ascii c in if is_digit c then digit_val c else if 97 \<le> a \<and> a \<le> 102 then a - 87 else a - 55)"

definition is_hexdigit :: "char \<Rightarrow> bool" where
  "is_hexdigit c \<longleftrightarrow> is_digit c \<or> (let a = ascii c in (97 \<le> a \<and> a \<le> 102) \<or> (65 \<le> a \<and> a \<le> 70))"

text \<open>Digits before and after the point, without separators, and what follows.\<close>

fun scan_digits :: "(char \<Rightarrow> bool) \<Rightarrow> gostring \<Rightarrow> gostring \<times> gostring" where
  "scan_digits isd [] = ([], [])"
| "scan_digits isd (c # cs) =
     (if isd c then (case scan_digits isd cs of (ds, r) \<Rightarrow> (c # ds, r))
      else if c = CHR ''_'' then scan_digits isd cs
      else ([], c # cs))"

definition scan_mantissa :: "(char \<Rightarrow> bool) \<Rightarrow> gostring \<Rightarrow> gostring \<times> gostring \<times> gostring" where
  "scan_mantissa isd s =
     (case scan_digits isd s of
        (whole, CHR ''.'' # r) \<Rightarrow> (case scan_digits isd r of (part, r') \<Rightarrow> (whole, part, r'))
      | (whole, r) \<Rightarrow> (whole, [], r))"

definition scan_signed :: "gostring \<Rightarrow> bool \<times> gostring" where
  "scan_signed s = (case s of c # cs \<Rightarrow> if c = CHR ''+'' then (False, cs) else if c = CHR ''-'' then (True, cs) else (False, s) | [] \<Rightarrow> (False, s))"

text \<open>The exponent: none, or a letter, a sign and digits, and then the end; \<^const>\<open>None\<close> when it is malformed.\<close>

definition scan_exp :: "char \<Rightarrow> gostring \<Rightarrow> int option" where
  "scan_exp letter s =
     (case s of
        [] \<Rightarrow> Some 0
      | c # cs \<Rightarrow>
          if lower_char c \<noteq> letter then None
          else (case scan_signed cs of
                  (neg, r) \<Rightarrow>
                    (case r of
                       d # _ \<Rightarrow>
                         if \<not> is_digit d then None
                         else (case scan_digits is_digit r of
                                 (ds, []) \<Rightarrow> Some (if neg then - int (nat_of_digits ds) else int (nat_of_digits ds))
                               | _ \<Rightarrow> None)
                     | [] \<Rightarrow> None)))"

text \<open>Separators stand between digits, or between the base prefix and a digit.\<close>

fun separators_ok :: "(char \<Rightarrow> bool) \<Rightarrow> bool \<Rightarrow> gostring \<Rightarrow> bool" where
  "separators_ok isd prev [] \<longleftrightarrow> True"
| "separators_ok isd prev (c # cs) \<longleftrightarrow>
     (if c = CHR ''_'' then prev \<and> (case cs of d # _ \<Rightarrow> isd d | [] \<Rightarrow> False) \<and> separators_ok isd False cs
      else separators_ok isd (isd c) cs)"

definition digits_value :: "nat \<Rightarrow> (char \<Rightarrow> nat) \<Rightarrow> gostring \<Rightarrow> nat" where
  "digits_value b val ds = foldl (\<lambda>n c. n * b + val c) 0 ds"

definition read_literal :: "gostring \<Rightarrow> rat option" where
  "read_literal s =
     (case s of
        CHR ''0'' # x # r \<Rightarrow>
          if lower_char x = CHR ''x'' \<and> r \<noteq> [] then
            (case scan_mantissa is_hexdigit r of
               (whole, part, rest) \<Rightarrow>
                 if whole @ part = [] \<or> rest = [] \<or> \<not> separators_ok is_hexdigit True r then None
                 else map_option (\<lambda>e. of_nat (digits_value 16 hex_val (whole @ part)) * 2 powi (e - 4 * int (length part)))
                        (scan_exp (CHR ''p'') rest))
          else
            (case scan_mantissa is_digit s of
               (whole, part, rest) \<Rightarrow>
                 if whole @ part = [] \<or> \<not> separators_ok is_digit False s then None
                 else map_option (\<lambda>e. of_nat (nat_of_digits (whole @ part)) * 10 powi (e - int (length part))) (scan_exp (CHR ''e'') rest))
      | _ \<Rightarrow>
          (case scan_mantissa is_digit s of
             (whole, part, rest) \<Rightarrow>
               if whole @ part = [] \<or> \<not> separators_ok is_digit False s then None
               else map_option (\<lambda>e. of_nat (nat_of_digits (whole @ part)) * 10 powi (e - int (length part))) (scan_exp (CHR ''e'') rest)))"

text \<open>The value and whether an error came with it.\<close>

definition ParseFloat :: "gostring \<Rightarrow> gofloat \<times> bool" where
  "ParseFloat s =
     (case scan_signed s of
        (neg, r) \<Rightarrow>
          if ToLower r \<in> {''inf'', ''infinity''} then (if neg then NegInf else PosInf, False)
          else if ToLower s = ''nan'' then (NotANumber, False)
          else (case read_literal r of None \<Rightarrow> (Fin 0, True) | Some q \<Rightarrow> round_double neg q))"

end
