(* ===== verification/Sdk_Calls.thy ===== *)
theory Sdk_Calls
  imports Session Receipts Market_Meta "HOL-Library.List_Lexorder" "HOL-Library.Char_ord"
begin

text \<open>
  The layer between the SDK's methods and its HTTP client: the request a method describes (method, path, query,
  body), the realm it resolves first (\<^verbatim>\<open>ensureReady\<close> over \<^verbatim>\<open>GET /realms\<close>), the operation wrapper \<^verbatim>\<open>op\<close> and the
  decoders of operations.  A method is a function of the SDK's state; the requests it describes are
  kept in the order they are made.  Outside the model are \<^verbatim>\<open>buildURL\<close>'s URL parser, the JSON encoder and
  parser, the refresh of a provider's token, the clock and the source of random bytes: they are arguments.
\<close>

section \<open>State\<close>

type_synonym query = "(gostring \<times> gostring) list"

record api_request =
  aq_Method :: http_method
  aq_Path :: gostring
  aq_Query :: query
  aq_Body :: "json option"

text \<open>A fill emitted to the local listeners: its realm, its path and the fill.\<close>

record local_fill =
  lf_RealmID :: gostring
  lf_EntityPath :: gostring
  lf_Fill :: SimFill

record 'w sdk =
  sd_client :: "'w client"
  sd_session :: session
  sd_meta :: "Market_Meta.meta option"
  sd_calls :: "api_request list"
  sd_emitted :: "local_fill list"

record 'w sdk_env =
  sx_http :: "'w environment"
  sx_url :: "gostring \<Rightarrow> query \<Rightarrow> gostring + gostring"
  sx_marshal :: "json \<Rightarrow> gostring + gostring"
  sx_parse :: "gostring \<Rightarrow> jtext"
  sx_tokenProvider :: "'w \<Rightarrow> 'w \<times> (error + gostring)"
  sx_now :: "'w sdk \<Rightarrow> int"
  sx_stamp :: "'w sdk \<Rightarrow> gostring"
  sx_random :: "'w \<Rightarrow> 'w \<times> gostring option"

section \<open>Calls\<close>

text \<open>A call is a function of the state; a failed step ends it.\<close>

definition sdk_return :: "'a \<Rightarrow> 's \<Rightarrow> (error + 'a) \<times> 's" where
  "sdk_return v st = (Inr v, st)"

definition sdk_fail :: "error \<Rightarrow> 's \<Rightarrow> (error + 'a) \<times> 's" where
  "sdk_fail e st = (Inl e, st)"

definition sdk_bind ::
    "('s \<Rightarrow> (error + 'a) \<times> 's) \<Rightarrow> ('a \<Rightarrow> 's \<Rightarrow> (error + 'b) \<times> 's) \<Rightarrow> 's \<Rightarrow> (error + 'b) \<times> 's" where
  "sdk_bind m k st = (case m st of (Inl e, st') \<Rightarrow> (Inl e, st') | (Inr v, st') \<Rightarrow> k v st')"

text \<open>The target of a request: \<^verbatim>\<open>buildURL\<close>, then the marshalled body.\<close>

definition call_target :: "'w sdk_env \<Rightarrow> api_request \<Rightarrow> gostring + gostring \<times> gostring option" where
  "call_target env q =
     (case sx_url env (aq_Path q) (aq_Query q) of
        Inl e \<Rightarrow> Inl e
      | Inr u \<Rightarrow>
          (case aq_Body q of
             None \<Rightarrow> Inr (u, None)
           | Some b \<Rightarrow> (case sx_marshal env b of Inl e \<Rightarrow> Inl e | Inr t \<Rightarrow> Inr (u, Some t))))"

definition sdk_request :: "'w sdk_env \<Rightarrow> api_request \<Rightarrow> (json \<Rightarrow> gostring + 'a) \<Rightarrow> 'w sdk \<Rightarrow> (error + 'a) \<times> 'w sdk" where
  "sdk_request env q dec st =
     (let (r, cl) = executeWithAuthRetry (sx_http env)
            \<lparr>call_Method = aq_Method q, call_Target = call_target env q, call_Decode = dec\<rparr> (sd_client st) in
      (r, st\<lparr>sd_client := cl, sd_calls := sd_calls st @ [q]\<rparr>))"

definition sdk_get :: "'w sdk_env \<Rightarrow> gostring \<Rightarrow> query \<Rightarrow> (jfields \<Rightarrow> 'a option) \<Rightarrow> 'w sdk \<Rightarrow> (error + 'a) \<times> 'w sdk" where
  "sdk_get env path params dec =
     sdk_request env \<lparr>aq_Method = GET, aq_Path = path, aq_Query = params, aq_Body = None\<rparr> (struct_decoder dec)"

definition sdk_post :: "'w sdk_env \<Rightarrow> gostring \<Rightarrow> jfields \<Rightarrow> (jfields \<Rightarrow> 'a option) \<Rightarrow> 'w sdk \<Rightarrow> (error + 'a) \<times> 'w sdk" where
  "sdk_post env path body dec =
     sdk_request env \<lparr>aq_Method = POST, aq_Path = path, aq_Query = [], aq_Body = Some (JObj body)\<rparr> (struct_decoder dec)"

definition sdk_postQuery ::
    "'w sdk_env \<Rightarrow> gostring \<Rightarrow> query \<Rightarrow> jfields \<Rightarrow> (jfields \<Rightarrow> 'a option) \<Rightarrow> 'w sdk \<Rightarrow> (error + 'a) \<times> 'w sdk" where
  "sdk_postQuery env path params body dec =
     sdk_request env \<lparr>aq_Method = POST, aq_Path = path, aq_Query = params, aq_Body = Some (JObj body)\<rparr> (struct_decoder dec)"

definition sdk_patch ::
    "'w sdk_env \<Rightarrow> gostring \<Rightarrow> query \<Rightarrow> jfields \<Rightarrow> (jfields \<Rightarrow> 'a option) \<Rightarrow> 'w sdk \<Rightarrow> (error + 'a) \<times> 'w sdk" where
  "sdk_patch env path params body dec =
     sdk_request env \<lparr>aq_Method = PATCH, aq_Path = path, aq_Query = params, aq_Body = Some (JObj body)\<rparr> (struct_decoder dec)"

definition sdk_delete :: "'w sdk_env \<Rightarrow> gostring \<Rightarrow> (jfields \<Rightarrow> 'a option) \<Rightarrow> 'w sdk \<Rightarrow> (error + 'a) \<times> 'w sdk" where
  "sdk_delete env path dec =
     sdk_request env \<lparr>aq_Method = DELETE, aq_Path = path, aq_Query = [], aq_Body = None\<rparr> (struct_decoder dec)"

section \<open>The realm\<close>

text \<open>
  The session's environment: the realm listing is a call of this client.  A refreshed token becomes its credential; the
  caller, \<^const>\<open>ensureReady\<close>, arms the proactive refresh for it.
\<close>

definition refresh_credential :: "'w sdk_env \<Rightarrow> 'w sdk \<Rightarrow> 'w sdk \<times> (error + gostring)" where
  "refresh_credential env st =
     (let (w, r) = sx_tokenProvider env (cl_world (sd_client st)); cl = (sd_client st)\<lparr>cl_world := w\<rparr> in
      (st\<lparr>sd_client := (case r of Inr tok \<Rightarrow> cl\<lparr>cl_credential := tok\<rparr> | Inl e \<Rightarrow> cl)\<rparr>, r))"

definition session_of :: "'w sdk_env \<Rightarrow> 'w sdk session_env" where
  "session_of env =
     \<lparr>se_realms = (\<lambda>st. case sdk_get env ''/realms'' [] decode_RealmListResponse st of (r, st') \<Rightarrow> (st', r)),
      se_refresh = refresh_credential env, se_hasCredential = (\<lambda>st. cl_credential (sd_client st) \<noteq> []),
      se_json = sx_parse env, se_now = sx_now env\<rparr>"

definition sdk_ready :: "'w sdk_env \<Rightarrow> 'w sdk \<Rightarrow> (error + unit) \<times> 'w sdk" where
  "sdk_ready env st =
     (case ensureReady (session_of env) st (sd_session st) of
        (Some e, st', s) \<Rightarrow> (Inl e, st'\<lparr>sd_session := s\<rparr>)
      | (None, st', s) \<Rightarrow> (Inr (), st'\<lparr>sd_session := s\<rparr>))"

definition currentRealmID :: "'w sdk \<Rightarrow> gostring" where
  "currentRealmID st = ss_resolved (sd_session st)"

definition sdk_realm :: "'w sdk_env \<Rightarrow> 'w sdk \<Rightarrow> (error + gostring) \<times> 'w sdk" where
  "sdk_realm env = sdk_bind (sdk_ready env) (\<lambda>_ st. (Inr (currentRealmID st), st))"

section \<open>Operations\<close>

text \<open>The wrapper \<^verbatim>\<open>op\<close>: readiness, the submission, and the refusal of an operation that already failed.\<close>

definition refuse_failed :: "('a \<Rightarrow> Operation option) \<Rightarrow> 'a \<Rightarrow> 's \<Rightarrow> (error + 'a) \<times> 's" where
  "refuse_failed opOf resp st =
     (case opOf resp of
        Some o1 \<Rightarrow> if op_State o1 = OpFailed \<or> op_State o1 = OpExpired
                   then (Inl (newOperationFailedError (snapshot o1)), st) else (Inr resp, st)
      | None \<Rightarrow> (Inr resp, st))"

definition sdk_op ::
    "'w sdk_env \<Rightarrow> ('w sdk \<Rightarrow> (error + 'a) \<times> 'w sdk) \<Rightarrow> ('a \<Rightarrow> Operation option) \<Rightarrow> 'w sdk \<Rightarrow> (error + 'a) \<times> 'w sdk" where
  "sdk_op env submit opOf = sdk_bind (sdk_ready env) (\<lambda>_. sdk_bind submit (refuse_failed opOf))"

section \<open>Decoding\<close>

definition decode_Operation :: "(gostring \<Rightarrow> jtext) \<Rightarrow> jfields \<Rightarrow> Operation option" where
  "decode_Operation parse fs =
     do {
       i \<leftarrow> str_field ''id'' fs; rlm \<leftarrow> str_field ''realmId'' fs; p \<leftarrow> str_field ''path'' fs; ty \<leftarrow> str_field ''type'' fs;
       st \<leftarrow> str_field ''state'' fs; sp \<leftarrow> strp_field ''sourceArcaPath'' fs; tp \<leftarrow> strp_field ''targetArcaPath'' fs;
       inp \<leftarrow> strp_field ''input'' fs; out \<leftarrow> strp_field ''outcome'' fs; po \<leftarrow> subp_field ''parsedOutcome'' fs;
       fm \<leftarrow> strp_field ''failureMessage'' fs; aty \<leftarrow> strp_field ''actorType'' fs; aid \<leftarrow> strp_field ''actorId'' fs;
       jti \<leftarrow> strp_field ''tokenJti'' fs; wf \<leftarrow> strs_field ''workflowIds'' fs; cr \<leftarrow> str_field ''createdAt'' fs;
       up \<leftarrow> str_field ''updatedAt'' fs;
       Some \<lparr>op_ID = i, op_RealmID = rlm, op_Path = p, op_Type = ty, op_State = st, op_SourceArcaPath = sp,
             op_TargetArcaPath = tp, op_Input = map_option parse inp, op_Outcome = map_option parse out,
             op_ParsedOutcome = po, op_FailureMessage = fm\<rparr>
     }"

record AmountDenomination =
  ad_Amount :: gostring
  ad_Denomination :: gostring

definition decode_AmountDenomination :: "jfields \<Rightarrow> AmountDenomination option" where
  "decode_AmountDenomination fs =
     do { a \<leftarrow> str_field ''amount'' fs; d \<leftarrow> str_field ''denomination'' fs; Some \<lparr>ad_Amount = a, ad_Denomination = d\<rparr> }"

section \<open>Escaping\<close>

text \<open>\<^verbatim>\<open>url.QueryEscape\<close>, \<^verbatim>\<open>url.PathEscape\<close> and \<^verbatim>\<open>Values.Encode\<close>, over bytes.\<close>

definition url_plain :: "char \<Rightarrow> bool" where
  "url_plain c \<longleftrightarrow> is_digit c \<or> (65 \<le> ascii c \<and> ascii c \<le> 90) \<or> (97 \<le> ascii c \<and> ascii c \<le> 122) \<or> c \<in> set ''-_.~''"

definition percent :: "char \<Rightarrow> gostring" where
  "percent c = [CHR ''%'', ''0123456789ABCDEF'' ! (ascii c div 16), ''0123456789ABCDEF'' ! (ascii c mod 16)]"

definition QueryEscape :: "gostring \<Rightarrow> gostring" where
  "QueryEscape s = concat (map (\<lambda>c. if url_plain c then [c] else if c = CHR '' '' then ''+'' else percent c) s)"

definition PathEscape :: "gostring \<Rightarrow> gostring" where
  "PathEscape s = concat (map (\<lambda>c. if url_plain c \<or> c \<in> set ''$&+=:@'' then [c] else percent c) s)"

definition Encode :: "query \<Rightarrow> gostring" where
  "Encode q = Join ''&'' (map (\<lambda>(k, v). QueryEscape k @ ''='' @ QueryEscape v) (sort_key fst q))"

section \<open>Building requests\<close>

text \<open>The query of the read operations.\<close>

definition str_param :: "gostring \<Rightarrow> gostring \<Rightarrow> query" where
  "str_param k v = (if v = [] then [] else [(k, v)])"

definition pos_param :: "gostring \<Rightarrow> int \<Rightarrow> query" where
  "pos_param k n = (if n > 0 then [(k, show_int n)] else [])"

definition true_param :: "gostring \<Rightarrow> bool \<Rightarrow> query" where
  "true_param k b = (if b then [(k, ''true'')] else [])"

text \<open>The optional fields of a body.\<close>

definition opt_str :: "gostring \<Rightarrow> gostring \<Rightarrow> jfields" where
  "opt_str k v = (if v = [] then [] else [(k, JStr v)])"

definition opt_true :: "gostring \<Rightarrow> bool \<Rightarrow> jfields" where
  "opt_true k b = (if b then [(k, JBool True)] else [])"

definition opt_val :: "('a \<Rightarrow> json) \<Rightarrow> gostring \<Rightarrow> 'a option \<Rightarrow> jfields" where
  "opt_val f k v = (case v of None \<Rightarrow> [] | Some x \<Rightarrow> [(k, f x)])"

definition jint :: "int \<Rightarrow> json" where
  "jint n = JNum (show_int n)"

definition nilIfEmpty :: "gostring \<Rightarrow> json" where
  "nilIfEmpty s = (if s = [] then JNull else JStr s)"

definition defaultStr :: "gostring \<Rightarrow> gostring \<Rightarrow> gostring" where
  "defaultStr v def = (if v = [] then def else v)"

section \<open>Lemmas\<close>

lemma sdk_bind_return [simp]: "sdk_bind (sdk_return v) k = k v"
  by (simp add: fun_eq_iff sdk_bind_def sdk_return_def)

lemma sdk_bind_fail [simp]: "sdk_bind (sdk_fail e) k = sdk_fail e"
  by (simp add: fun_eq_iff sdk_bind_def sdk_fail_def)

lemma sdk_bind_assoc: "sdk_bind (sdk_bind m k) h = sdk_bind m (\<lambda>v. sdk_bind (k v) h)"
  by (auto simp: fun_eq_iff sdk_bind_def split: prod.split sum.split)

lemma sdk_bind_Inr:
  "sdk_bind m k st = (Inr v, st') \<longleftrightarrow> (\<exists>u st1. m st = (Inr u, st1) \<and> k u st1 = (Inr v, st'))"
  by (auto simp: sdk_bind_def split: prod.split sum.split)

lemma sdk_bind_Inl:
  "sdk_bind m k st = (Inl e, st') \<longleftrightarrow>
     m st = (Inl e, st') \<or> (\<exists>u st1. m st = (Inr u, st1) \<and> k u st1 = (Inl e, st'))"
  by (auto simp: sdk_bind_def split: prod.split sum.split)

text \<open>The requests a step makes.\<close>

definition made :: "api_request list \<Rightarrow> 'w sdk \<Rightarrow> 'w sdk \<Rightarrow> bool" where
  "made qs st st' \<longleftrightarrow> sd_calls st' = sd_calls st @ qs"

lemma made_Nil [simp]: "made [] st st"
  by (simp add: made_def)

lemma made_trans: "made qs st st1 \<Longrightarrow> made rs st1 st2 \<Longrightarrow> made (qs @ rs) st st2"
  by (simp add: made_def)

lemma sdk_request_made: "sdk_request env q dec st = (r, st') \<Longrightarrow> made [q] st st'"
  by (auto simp: sdk_request_def made_def Let_def split: prod.splits)

definition realms_request :: api_request where
  "realms_request = \<lparr>aq_Method = GET, aq_Path = ''/realms'', aq_Query = [], aq_Body = None\<rparr>"

text \<open>Resolving the realm makes at most the listing request.\<close>

definition realms_only :: "'w sdk \<Rightarrow> 'w sdk \<Rightarrow> bool" where
  "realms_only st st' \<longleftrightarrow> (\<exists>qs. made qs st st' \<and> set qs \<subseteq> {realms_request})"

lemma realms_only_refl [simp]: "realms_only st st"
  unfolding realms_only_def by (rule exI [of _ "[]"]) simp

lemma realms_only_trans: "realms_only st st1 \<Longrightarrow> realms_only st1 st2 \<Longrightarrow> realms_only st st2"
  unfolding realms_only_def using made_trans by (metis Un_subset_iff set_append)

lemma realms_only_listing: "sdk_get env ''/realms'' [] decode_RealmListResponse st = (y, st') \<Longrightarrow> realms_only st st'"
  unfolding realms_only_def sdk_get_def
  by (rule exI [of _ "[realms_request]"]) (auto simp: realms_request_def dest: sdk_request_made)

lemma realms_only_resolve:
  assumes "resolveRealm (session_of env) st s = (e, st', s')"
  shows "realms_only st st'"
proof -
  obtain y st1 where l: "sdk_get env ''/realms'' [] decode_RealmListResponse st = (y, st1)" by force
  have "st' = st \<or> st' = st1"
    using assms l by (auto simp: resolveRealm_def session_of_def split: if_splits sum.splits option.splits)
  then show ?thesis using realms_only_listing [OF l] by auto
qed

lemma realms_only_credential: "refresh_credential env st = (st', y) \<Longrightarrow> realms_only st st'"
  unfolding realms_only_def by (rule exI [of _ "[]"]) (auto simp: refresh_credential_def made_def Let_def split: prod.splits)

lemma realms_only_ensure:
  assumes "ensureReady (session_of env) st s = (e, st', s')"
  shows "realms_only st st'"
proof -
  obtain st1 y where ref: "refresh_credential env st = (st1, y)" by force
  note r1 = realms_only_credential [OF ref]
  have "st' = st \<or> st' = st1 \<or> resolveRealm (session_of env) st s = (e, st', s')
      \<or> (\<exists>s1. resolveRealm (session_of env) st1 s1 = (e, st', s'))"
    using assms ref
    by (cases y) (auto simp: ensureReady_def Let_def split: if_splits simp: session_of_def [of env, THEN arg_cong [where f = se_refresh]]
      session_of_def [of env, THEN arg_cong [where f = se_hasCredential]])
  then show ?thesis using r1 realms_only_resolve realms_only_trans [OF r1] by fastforce
qed

lemma sdk_ready_made:
  assumes "sdk_ready env st = (r, st')"
  shows "\<exists>qs. made qs st st' \<and> set qs \<subseteq> {realms_request}"
proof -
  obtain e x s where run: "ensureReady (session_of env) st (sd_session st) = (e, x, s)" using prod_cases3 by blast
  have "st' = x\<lparr>sd_session := s\<rparr>" using assms run by (auto simp: sdk_ready_def split: option.splits)
  then show ?thesis using realms_only_ensure [OF run] by (auto simp: realms_only_def made_def)
qed

text \<open>A step that makes only requests with a property.\<close>

definition makes :: "(api_request \<Rightarrow> bool) \<Rightarrow> 'w sdk \<Rightarrow> 'w sdk \<Rightarrow> bool" where
  "makes P st st' \<longleftrightarrow> (\<exists>qs. made qs st st' \<and> list_all P qs)"

lemma makes_refl [simp, intro]: "makes P st st"
  unfolding makes_def by (rule exI [of _ "[]"]) simp

lemma makes_trans: "makes P st st1 \<Longrightarrow> makes P st1 st2 \<Longrightarrow> makes P st st2"
  unfolding makes_def by (meson list_all_append made_trans)

lemma makes_mono: "makes P st st' \<Longrightarrow> (\<And>q. P q \<Longrightarrow> Q q) \<Longrightarrow> makes Q st st'"
  unfolding makes_def by (meson list.pred_mono_strong)

lemma makes_request: "sdk_request env q dec st = (r, st') \<Longrightarrow> P q \<Longrightarrow> makes P st st'"
  unfolding makes_def by (rule exI [of _ "[q]"]) (auto dest: sdk_request_made)

lemma makes_bind:
  assumes "sdk_bind m k st = (r, st')"
    and "\<And>r st1. m st = (r, st1) \<Longrightarrow> makes P st st1"
    and "\<And>v st1 r st2. k v st1 = (r, st2) \<Longrightarrow> makes P st1 st2"
  shows "makes P st st'"
proof -
  obtain x st1 where m: "m st = (x, st1)" by force
  show ?thesis using assms(2) [OF m] assms(3,1) m by (cases x) (auto simp: sdk_bind_def intro: makes_trans)
qed

definition reads :: "'w sdk \<Rightarrow> 'w sdk \<Rightarrow> bool" where
  "reads = makes (\<lambda>q. aq_Method q = GET)"

lemma reads_ready:
  assumes "sdk_ready env st = (r, st')"
  shows "reads st st'"
proof -
  obtain qs where qs: "made qs st st'" "set qs \<subseteq> {realms_request}" using sdk_ready_made [OF assms] by blast
  have "aq_Method q = GET" if "q \<in> set qs" for q
    using qs(2) that by (simp add: realms_request_def) (use subsetD in fastforce)
  then show ?thesis using qs(1) unfolding reads_def makes_def list_all_iff by blast
qed

lemma reads_refl [simp, intro]: "reads st st"
  by (simp add: reads_def)

lemma reads_trans: "reads st st1 \<Longrightarrow> reads st1 st2 \<Longrightarrow> reads st st2"
  unfolding reads_def by (rule makes_trans)

lemma reads_get: "sdk_get env path params dec st = (r, st') \<Longrightarrow> reads st st'"
  unfolding reads_def sdk_get_def by (erule makes_request) simp

lemmas reads_bind = makes_bind [where P = "\<lambda>q. aq_Method q = GET", folded reads_def]

lemma reads_ready_get:
  assumes "sdk_bind (sdk_ready env) (\<lambda>_. sdk_bind (sdk_get env path params dec) (\<lambda>v. sdk_return (f v))) st = (r, st')"
  shows "reads st st'"
  using assms
proof (rule reads_bind)
  fix v :: unit and st1 r' st2
  assume "sdk_bind (sdk_get env path params dec) (\<lambda>v. sdk_return (f v)) st1 = (r', st2)"
  then show "reads st1 st2" by (rule reads_bind) (auto simp: sdk_return_def dest: reads_get)
qed (rule reads_ready)

text \<open>The request a deletion or a submission makes.\<close>

lemma made_post:
  "sdk_post env path body dec st = (r, st') \<Longrightarrow>
     made [\<lparr>aq_Method = POST, aq_Path = path, aq_Query = [], aq_Body = Some (JObj body)\<rparr>] st st'"
  unfolding sdk_post_def by (rule sdk_request_made)

lemma made_delete:
  "sdk_delete env path dec st = (r, st') \<Longrightarrow>
     made [\<lparr>aq_Method = DELETE, aq_Path = path, aq_Query = [], aq_Body = None\<rparr>] st st'"
  unfolding sdk_delete_def by (rule sdk_request_made)

lemma refuse_failed_state [simp]: "snd (refuse_failed opOf resp st) = st"
  by (simp add: refuse_failed_def split: option.split)

lemma refuse_failed_keeps: "refuse_failed opOf resp st = (r, st') \<Longrightarrow> st' = st"
  by (metis refuse_failed_state snd_conv)

section \<open>A scripted server\<close>

definition scripted_sdk :: "http_response list sdk_env" where
  "scripted_sdk =
     \<lparr>sx_http = scripted, sx_url = (\<lambda>p q. Inr p), sx_marshal = (\<lambda>b. Inr []), sx_parse = (\<lambda>s. JEmpty),
      sx_tokenProvider = (\<lambda>w. (w, Inl (Plain ''none''))), sx_now = (\<lambda>st. 0), sx_stamp = (\<lambda>st. []),
      sx_random = (\<lambda>w. (w, Some []))\<rparr>"

text \<open>A client whose realm is resolved to \<^verbatim>\<open>r\<close> and the replies it will get.\<close>

definition sdk_with :: "http_response list \<Rightarrow> http_response list sdk" where
  "sdk_with replies =
     \<lparr>sd_client = scripted_client replies,
      sd_session = \<lparr>ss_realmInput = ''r'', ss_resolved = ''r'', ss_hasProvider = False, ss_timer = None\<rparr>,
      sd_meta = None, sd_calls = [], sd_emitted = []\<rparr>"

definition success :: "jfields \<Rightarrow> http_response" where
  "success data = \<lparr>hr_Status = 200, hr_Body = Inr ([], JText (JObj [(''success'', JBool True), (''data'', JObj data)]))\<rparr>"

lemma ready_resolved: "ss_resolved (sd_session st) \<noteq> [] \<Longrightarrow> sdk_ready env st = (Inr (), st)"
  by (simp add: sdk_ready_def ensureReady_def)

end
