(* ===== verification/Trading_Orders.thy ===== *)
theory Trading_Orders
  imports Sdk_Calls Order_Stream Go_ParseFloat
begin

text \<open>
  Orders on an exchange object (\<^verbatim>\<open>exchange.go\<close>, \<^verbatim>\<open>order_attach.go\<close>): placing, closing, the triggers attached to a
  position, brackets, the replacement and clearing of triggers, and the attachment to an order placed
  elsewhere.  Every submission is the closure the code runs in the background, as a function of the
  SDK's state; the capture of the order's events is the stream of \<^verbatim>\<open>Order_Stream\<close>.
\<close>

section \<open>Data\<close>

definition Buy :: gostring where "Buy = ''buy''"
definition Sell :: gostring where "Sell = ''sell''"
definition OrderWaitingTrigger :: gostring where "OrderWaitingTrigger = ''WAITING_FOR_TRIGGER''"
definition OpOrder :: gostring where "OpOrder = ''order''"

record FeeTarget =
  ft_ArcaPath :: gostring
  ft_Percentage :: int

record OrderOperationResponse =
  oor_Operation :: Operation
  oor_Fee :: "AmountDenomination option"

definition decode_OrderOperationResponse :: "(gostring \<Rightarrow> jtext) \<Rightarrow> jfields \<Rightarrow> OrderOperationResponse option" where
  "decode_OrderOperationResponse parse fs =
     do {
       o1 \<leftarrow> struct_field (decode_Operation parse) ''operation'' fs;
       f \<leftarrow> structp_field decode_AmountDenomination ''fee'' fs;
       Some \<lparr>oor_Operation = o1, oor_Fee = f\<rparr>
     }"

text \<open>The position's fields after the margin mode are decoded and not kept: nothing modelled reads them.\<close>

definition decode_SimPosition :: "jfields \<Rightarrow> SimPosition option" where
  "decode_SimPosition fs =
     do {
       i \<leftarrow> str_field ''id'' fs; acc \<leftarrow> str_field ''accountId'' fs; rlm \<leftarrow> str_field ''realmId'' fs;
       mkt \<leftarrow> str_field ''market'' fs; side \<leftarrow> str_field ''side'' fs; sz \<leftarrow> str_field ''size'' fs;
       px \<leftarrow> str_field ''entryPrice'' fs; lev \<leftarrow> int_field ''leverage'' fs; mu \<leftarrow> str_field ''marginUsed'' fs;
       mm \<leftarrow> str_field ''marginMode'' fs;
       rest \<leftarrow> decode_all (\<lambda>k. strp_field k fs)
         [''isolatedMargin'', ''liquidationPrice'', ''unrealizedPnl'', ''returnOnEquity'', ''positionValue'', ''cumulativeFunding'',
          ''cumulativeFee'', ''cumulativeExchangeFee'', ''cumulativePlatformFee'', ''cumulativeBuilderFee'', ''error''];
       cr \<leftarrow> str_field ''createdAt'' fs; up \<leftarrow> str_field ''updatedAt'' fs;
       Some \<lparr>sp_ID = i, sp_AccountID = acc, sp_RealmID = rlm, sp_Market = mkt, sp_Side = side, sp_Size = sz,
             sp_EntryPrice = px, sp_Leverage = lev, sp_MarginUsed = mu, sp_MarginMode = mm\<rparr>
     }"

record PositionListResponse =
  plr_Positions :: "SimPosition list"
  plr_Total :: int

definition decode_PositionListResponse :: "jfields \<Rightarrow> PositionListResponse option" where
  "decode_PositionListResponse fs =
     do { ps \<leftarrow> structs_field decode_SimPosition ''positions'' fs; n \<leftarrow> int_field ''total'' fs;
          Some \<lparr>plr_Positions = ps, plr_Total = n\<rparr> }"

definition decode_SimOrder :: "jfields \<Rightarrow> SimOrder option" where
  "decode_SimOrder fs =
     do {
       i \<leftarrow> str_field ''id'' fs; acc \<leftarrow> str_field ''accountId'' fs; rlm \<leftarrow> str_field ''realmId'' fs;
       mkt \<leftarrow> str_field ''market'' fs; side \<leftarrow> str_field ''side'' fs; ty \<leftarrow> str_field ''orderType'' fs;
       px \<leftarrow> strp_field ''price'' fs; sz \<leftarrow> str_field ''size'' fs; fsz \<leftarrow> str_field ''filledSize'' fs;
       avg \<leftarrow> strp_field ''avgFillPrice'' fs; st \<leftarrow> str_field ''status'' fs; ro \<leftarrow> bool_field ''reduceOnly'' fs;
       tif \<leftarrow> str_field ''timeInForce'' fs; lev \<leftarrow> int_field ''leverage'' fs; bf \<leftarrow> intp_field ''builderFeeBps'' fs;
       trg \<leftarrow> bool_field ''isTrigger'' fs; tpx \<leftarrow> strp_field ''triggerPx'' fs; mk \<leftarrow> bool_field ''isMarket'' fs;
       tp \<leftarrow> str_field ''tpsl'' fs; stm \<leftarrow> bool_field ''sizeToMax'' fs; oco \<leftarrow> str_field ''ocoGroupId'' fs;
       cr \<leftarrow> str_field ''cancelReason'' fs; ca \<leftarrow> str_field ''createdAt'' fs; ua \<leftarrow> str_field ''updatedAt'' fs;
       Some \<lparr>so_ID = i, so_AccountID = acc, so_RealmID = rlm, so_Market = mkt, so_Side = side, so_OrderType = ty,
             so_Price = px, so_Size = sz, so_FilledSize = fsz, so_AvgFillPrice = avg, so_Status = st,
             so_ReduceOnly = ro, so_TimeInForce = tif, so_Leverage = lev, so_BuilderFeeBps = bf,
             so_IsTrigger = trg, so_TriggerPx = tpx, so_IsMarket = mk, so_Tpsl = tp, so_SizeToMax = stm,
             so_OcoGroupID = oco, so_CancelReason = cr, so_CreatedAt = ca, so_UpdatedAt = ua\<rparr>
     }"

record OrderListResponse =
  olr_Orders :: "SimOrder list"
  olr_Total :: int

definition decode_OrderListResponse :: "jfields \<Rightarrow> OrderListResponse option" where
  "decode_OrderListResponse fs =
     do { os \<leftarrow> structs_field decode_SimOrder ''orders'' fs; n \<leftarrow> int_field ''total'' fs;
          Some \<lparr>olr_Orders = os, olr_Total = n\<rparr> }"

section \<open>Reads and single mutations\<close>

definition orders_path :: "gostring \<Rightarrow> gostring" where
  "orders_path objectID = ''/objects/'' @ objectID @ ''/exchange/orders''"

definition ListPositions :: "'w sdk_env \<Rightarrow> gostring \<Rightarrow> 'w sdk \<Rightarrow> (error + SimPosition list) \<times> 'w sdk" where
  "ListPositions env objectID =
     sdk_bind (sdk_ready env) (\<lambda>_.
     sdk_bind (sdk_get env (''/objects/'' @ objectID @ ''/exchange/positions'') [] decode_PositionListResponse) (\<lambda>out.
     sdk_return (plr_Positions out)))"

definition ListOrders :: "'w sdk_env \<Rightarrow> gostring \<Rightarrow> gostring \<Rightarrow> 'w sdk \<Rightarrow> (error + SimOrder list) \<times> 'w sdk" where
  "ListOrders env objectID status =
     sdk_bind (sdk_ready env) (\<lambda>_.
     sdk_bind (sdk_get env (orders_path objectID) (str_param ''status'' status) decode_OrderListResponse) (\<lambda>out.
     sdk_return (olr_Orders out)))"

definition order_op :: "OrderOperationResponse \<Rightarrow> Operation option" where
  "order_op r = Some (oor_Operation r)"

record CancelOrderOptions =
  co_Path :: gostring
  co_ObjectID :: gostring
  co_OrderID :: gostring

definition CancelOrder :: "'w sdk_env \<Rightarrow> CancelOrderOptions \<Rightarrow> 'w sdk \<Rightarrow> (error + OrderOperationResponse) \<times> 'w sdk" where
  "CancelOrder env opts =
     sdk_op env (\<lambda>st. sdk_delete env
         (orders_path (co_ObjectID opts) @ ''/'' @ co_OrderID opts @ ''?''
           @ Encode [(''realmId'', currentRealmID st), (''path'', co_Path opts)])
         (decode_OrderOperationResponse (sx_parse env)) st)
       order_op"

record ModifyOrderOptions =
  mo_Path :: gostring
  mo_ObjectID :: gostring
  mo_OrderID :: gostring
  mo_NewSize :: gostring

definition ModifyOrder :: "'w sdk_env \<Rightarrow> ModifyOrderOptions \<Rightarrow> 'w sdk \<Rightarrow> (error + OrderOperationResponse) \<times> 'w sdk" where
  "ModifyOrder env opts =
     sdk_op env (\<lambda>st. sdk_patch env (orders_path (mo_ObjectID opts) @ ''/'' @ mo_OrderID opts) []
         [(''realmId'', JStr (currentRealmID st)), (''path'', JStr (mo_Path opts)), (''newSize'', JStr (mo_NewSize opts))]
         (decode_OrderOperationResponse (sx_parse env)) st)
       order_op"

section \<open>Optimistic fills\<close>

record fill_outcome =
  fo_FilledSize :: gostring
  fo_OrderID :: gostring
  fo_AvgFillPrice :: gostring
  fo_Cloid :: gostring

definition decode_fill_outcome :: "jfields \<Rightarrow> fill_outcome option" where
  "decode_fill_outcome fs =
     do { s \<leftarrow> str_field ''filledSize'' fs; i \<leftarrow> str_field ''orderId'' fs; p \<leftarrow> str_field ''avgFillPrice'' fs;
          c \<leftarrow> str_field ''cloid'' fs;
          Some \<lparr>fo_FilledSize = s, fo_OrderID = i, fo_AvgFillPrice = p, fo_Cloid = c\<rparr> }"

definition optimistic_fill :: "fill_outcome \<Rightarrow> gostring \<Rightarrow> gostring \<Rightarrow> gostring \<Rightarrow> int \<Rightarrow> gostring \<Rightarrow> SimFill" where
  "optimistic_fill out coin side price now stamp =
     (let px = (if fo_AvgFillPrice out \<noteq> [] then fo_AvgFillPrice out else if price \<noteq> [] then price else ''0'') in
      \<lparr>sf_ID = ''fil_opt_'' @ show_int now, sf_OrderID = fo_OrderID out, sf_AccountID = [], sf_RealmID = [],
       sf_Market = coin, sf_Side = side, sf_Price = px, sf_Size = fo_FilledSize out, sf_Fee = ''0'', sf_BuilderFee = [],
       sf_Cloid = fo_Cloid out, sf_IsMaker = False, sf_PlatformFee = [], sf_RealizedPnl = None, sf_IsLiquidation = False,
       sf_CreatedAt = stamp, sf_IsOptimistic = True, sf_OperationID = [], sf_FillID = [], sf_OrderOperationID = [],
       sf_Direction = [], sf_StartPosition = [], sf_ExchangeFee = [], sf_ResultingPosition = None, sf_IsTrigger = None,
       sf_Tpsl = [], sf_TriggerPx = [], sf_LiquidationKind = []\<rparr>)"

definition filled_outcome :: "Operation \<Rightarrow> fill_outcome option" where
  "filled_outcome operation =
     (case Option.bind (op_Outcome operation) (\<lambda>t. Option.bind (text_fields t) decode_fill_outcome) of
        None \<Rightarrow> None
      | Some out \<Rightarrow>
          if fo_FilledSize out = [] then None
          else (case ParseFloat (fo_FilledSize out) of
                  (f, err) \<Rightarrow> if err \<or> float_le f (Fin 0) then None else Some out))"

definition emitOptimisticFill ::
    "'w sdk_env \<Rightarrow> Operation \<Rightarrow> gostring \<Rightarrow> gostring \<Rightarrow> gostring \<Rightarrow> gostring \<Rightarrow> 'w sdk \<Rightarrow> 'w sdk" where
  "emitOptimisticFill env operation coin side path price st =
     (case filled_outcome operation of
        None \<Rightarrow> st
      | Some out \<Rightarrow>
          st\<lparr>sd_emitted := sd_emitted st @
               [\<lparr>lf_RealmID = currentRealmID st, lf_EntityPath = path,
                 lf_Fill = optimistic_fill out coin side price (sx_now env st div 1000000) (sx_stamp env st)\<rparr>]\<rparr>)"

section \<open>Placing an order\<close>

text \<open>\<^verbatim>\<open>SizeTolerance\<close> is the number text the encoder writes for the float.\<close>

record PlaceOrderOptions =
  po_Path :: gostring
  po_ObjectID :: gostring
  po_Market :: gostring
  po_Side :: gostring
  po_OrderType :: gostring
  po_Size :: gostring
  po_Price :: gostring
  po_Leverage :: "int option"
  po_LeverageMode :: gostring
  po_SlippageBps :: "int option"
  po_ReduceOnly :: bool
  po_Isolated :: bool
  po_TimeInForce :: gostring
  po_ApplicationFeeTenthsBps :: "int option"
  po_FeeTargets :: "FeeTarget list option"
  po_IsTrigger :: bool
  po_TriggerPx :: gostring
  po_IsMarket :: "bool option"
  po_Tpsl :: gostring
  po_SizeToMax :: bool
  po_OcoGroupID :: gostring
  po_UseMax :: bool
  po_SizeTolerance :: "gostring option"

definition fee_targets :: "FeeTarget list \<Rightarrow> json" where
  "fee_targets ts = JArr (map (\<lambda>t. JObj [(''arcaPath'', JStr (ft_ArcaPath t)), (''percentage'', jint (ft_Percentage t))]) ts)"

definition place_body :: "gostring \<Rightarrow> PlaceOrderOptions \<Rightarrow> jfields" where
  "place_body realm opts =
     [(''realmId'', JStr realm), (''path'', JStr (po_Path opts)), (''market'', JStr (po_Market opts)),
      (''side'', JStr (po_Side opts)), (''orderType'', JStr (po_OrderType opts)), (''size'', JStr (po_Size opts)),
      (''reduceOnly'', JBool (po_ReduceOnly opts)), (''timeInForce'', JStr (defaultStr (po_TimeInForce opts) ''GTC''))]
     @ opt_str ''price'' (po_Price opts) @ opt_val jint ''leverage'' (po_Leverage opts)
     @ opt_str ''leverageMode'' (po_LeverageMode opts) @ opt_val jint ''slippageBps'' (po_SlippageBps opts)
     @ opt_val jint ''applicationFeeTenthsBps'' (po_ApplicationFeeTenthsBps opts)
     @ opt_val fee_targets ''feeTargets'' (po_FeeTargets opts) @ opt_true ''isTrigger'' (po_IsTrigger opts)
     @ opt_str ''triggerPx'' (po_TriggerPx opts) @ opt_val JBool ''isMarket'' (po_IsMarket opts)
     @ opt_str ''tpsl'' (po_Tpsl opts) @ opt_true ''sizeToMax'' (po_SizeToMax opts)
     @ opt_str ''ocoGroupId'' (po_OcoGroupID opts) @ opt_true ''useMax'' (po_UseMax opts)
     @ opt_val JNum ''sizeTolerance'' (po_SizeTolerance opts) @ opt_true ''isolated'' (po_Isolated opts)"

definition post_order :: "'w sdk_env \<Rightarrow> gostring \<Rightarrow> jfields \<Rightarrow> 'w sdk \<Rightarrow> (error + OrderOperationResponse) \<times> 'w sdk" where
  "post_order env objectID body = sdk_post env (orders_path objectID) body (decode_OrderOperationResponse (sx_parse env))"

text \<open>After the response: a failed operation is refused, anything else may emit a fill.\<close>

definition accept_order ::
    "'w sdk_env \<Rightarrow> gostring \<Rightarrow> gostring \<Rightarrow> gostring \<Rightarrow> gostring \<Rightarrow> OrderOperationResponse \<Rightarrow> 'w sdk
       \<Rightarrow> (error + OrderOperationResponse) \<times> 'w sdk" where
  "accept_order env coin side path price =
     (\<lambda>resp. sdk_bind (refuse_failed order_op resp) (\<lambda>resp st.
        (Inr resp, emitOptimisticFill env (oor_Operation resp) coin side path price st)))"

definition place_post :: "'w sdk_env \<Rightarrow> PlaceOrderOptions \<Rightarrow> 'w sdk \<Rightarrow> (error + OrderOperationResponse) \<times> 'w sdk" where
  "place_post env opts =
     sdk_bind (sdk_ready env) (\<lambda>_ st. post_order env (po_ObjectID opts) (place_body (currentRealmID st) opts) st)"

text \<open>The stream learns the response before the operation's state is looked at; \<^const>\<open>None\<close> is a panic of the stream.\<close>

definition PlaceOrder ::
    "'w sdk_env \<Rightarrow> PlaceOrderOptions \<Rightarrow> orderStream \<Rightarrow> 'w sdk
       \<Rightarrow> ((error + OrderOperationResponse) \<times> orderStream \<times> 'w sdk) option" where
  "PlaceOrder env opts stream st =
     (case place_post env opts st of
        (Inl e, st1) \<Rightarrow> Some (Inl e, stop stream, st1)
      | (Inr resp, st1) \<Rightarrow>
          (case submitted (oor_Operation resp) stream of
             None \<Rightarrow> None
           | Some stream' \<Rightarrow>
               (case accept_order env (po_Market opts) (po_Side opts) (po_Path opts) (po_Price opts) resp st1 of
                  (r, st2) \<Rightarrow> Some (r, stream', st2))))"

text \<open>The classification \<^verbatim>\<open>immediate\<close> of the handle; \<^verbatim>\<open>strings.EqualFold\<close> with an ASCII literal.\<close>

definition folds_to :: "gostring \<Rightarrow> gostring \<Rightarrow> bool" where
  "folds_to s literal \<longleftrightarrow> fold_key s = fold_key literal"

definition place_immediate :: "PlaceOrderOptions \<Rightarrow> bool" where
  "place_immediate opts \<longleftrightarrow>
     \<not> po_IsTrigger opts
     \<and> (po_OrderType opts = [] \<or> folds_to (po_OrderType opts) ''MARKET'' \<or> folds_to (po_TimeInForce opts) ''IOC''
        \<or> folds_to (po_TimeInForce opts) ''FOK'')"

section \<open>Market metadata\<close>

definition decode_float :: "gostring \<Rightarrow> jfields \<Rightarrow> rat option" where
  "decode_float k fs =
     foldl (\<lambda>acc v. case (acc, v) of
                (None, _) \<Rightarrow> None
              | (Some x, JNull) \<Rightarrow> Some x
              | (Some x, JNum t) \<Rightarrow> (case ParseFloat t of (Fin q, False) \<Rightarrow> Some q | _ \<Rightarrow> None)
              | _ \<Rightarrow> None) (Some 0) (field_values k fs)"

text \<open>The other fields of a market are decoded and not kept.\<close>

definition decode_LogoSource :: "jfields \<Rightarrow> unit option" where
  "decode_LogoSource fs = do { u \<leftarrow> str_field ''url'' fs; f \<leftarrow> str_field ''format'' fs; w \<leftarrow> int_field ''width'' fs; Some () }"

definition decode_CandleHistoryBounds :: "jfields \<Rightarrow> unit option" where
  "decode_CandleHistoryBounds fs = do { a \<leftarrow> int_field ''earliestMs'' fs; b \<leftarrow> int_field ''hlEarliestMs'' fs; Some () }"

definition decode_Market :: "jfields \<Rightarrow> Market option" where
  "decode_Market fs =
     do {
       nm \<leftarrow> str_field ''name'' fs; dx \<leftarrow> str_field ''dex'' fs; sy \<leftarrow> str_field ''symbol'' fs; ex \<leftarrow> str_field ''exchange'' fs;
       szd \<leftarrow> int_field ''szDecimals'' fs; mon \<leftarrow> decode_float ''minOrderNotionalUsd'' fs;
       oi \<leftarrow> bool_field ''onlyIsolated'' fs; mms \<leftarrow> strs_field ''marginModes'' fs;
       ss \<leftarrow> decode_all (\<lambda>k. str_field k fs)
         [''venueSymbol'', ''displayName'', ''logoUrl'', ''assetType'', ''categoryLabel'', ''descriptionStatus'', ''deployerDisplayName''];
       bs \<leftarrow> decode_all (\<lambda>k. bool_field k fs) [''mapped'', ''hasDisplayName'', ''hasLogo'', ''isHip3''];
       ns \<leftarrow> decode_all (\<lambda>k. int_field k fs) [''index'', ''maxLeverage'', ''marginTableId''];
       ls \<leftarrow> structs_field decode_LogoSource ''logoSources'' fs; fsc \<leftarrow> decode_float ''feeScale'' fs;
       ch \<leftarrow> structp_field decode_CandleHistoryBounds ''candleHistory'' fs;
       Some \<lparr>mk_Name = nm, mk_Dex = dx, mk_Symbol = sy, mk_Exchange = ex, mk_SzDecimals = szd, mk_MinOrderNotionalUsd = mon,
             mk_OnlyIsolated = oi, mk_MarginModes = mms\<rparr>
     }"

definition decode_MarginTier :: "jfields \<Rightarrow> unit option" where
  "decode_MarginTier fs = do { b \<leftarrow> str_field ''lowerBound'' fs; l \<leftarrow> int_field ''maxLeverage'' fs; Some () }"

definition decode_MarginTable :: "jfields \<Rightarrow> unit option" where
  "decode_MarginTable fs =
     do { d \<leftarrow> str_field ''description'' fs; ts \<leftarrow> structs_field decode_MarginTier ''marginTiers'' fs; Some () }"

definition decode_SimMetaResponse :: "jfields \<Rightarrow> Market list option" where
  "decode_SimMetaResponse fs =
     do { u \<leftarrow> structs_field decode_Market ''universe'' fs; t \<leftarrow> structmap_field decode_MarginTable ''marginTables'' fs; Some u }"

definition GetMarketMeta :: "'w sdk_env \<Rightarrow> 'w sdk \<Rightarrow> (error + Market list) \<times> 'w sdk" where
  "GetMarketMeta env =
     sdk_bind (sdk_ready env) (\<lambda>_. sdk_get env ''/exchange/market/meta'' [] decode_SimMetaResponse)"

text \<open>\<^verbatim>\<open>Market\<close>: from the cache, or after loading it.\<close>

definition lookup_Market :: "'w sdk_env \<Rightarrow> gostring \<Rightarrow> 'w sdk \<Rightarrow> (error + Market option) \<times> 'w sdk" where
  "lookup_Market env i st =
     (case sd_meta st of
        Some m \<Rightarrow> (Inr (m i), st)
      | None \<Rightarrow>
          (case GetMarketMeta env st of
             (fetched, st1) \<Rightarrow>
               (case lookup_market fetched None i of (r, c) \<Rightarrow> (r, st1\<lparr>sd_meta := c\<rparr>))))"

section \<open>Closing a position\<close>

record ClosePositionOptions =
  cp_Path :: gostring
  cp_ObjectID :: gostring
  cp_Market :: gostring
  cp_Size :: gostring
  cp_TimeInForce :: gostring
  cp_ApplicationFeeTenthsBps :: "int option"
  cp_FeeTargets :: "FeeTarget list option"
  cp_Isolated :: "bool option"
  cp_Leverage :: "int option"

definition no_position :: "gostring \<Rightarrow> error" where
  "no_position market = Arca NotFoundError (newArcaError ''NOT_FOUND'' (''No open position for '' @ market) [])"

definition position_in :: "gostring \<Rightarrow> SimPosition list \<Rightarrow> SimPosition option" where
  "position_in market ps = find (\<lambda>p. sp_Market p = market) ps"

definition closing_side :: "SimPosition \<Rightarrow> gostring" where
  "closing_side p = (if sp_Side p = Long then Sell else Buy)"

definition close_size :: "SimPosition \<Rightarrow> gostring \<Rightarrow> gostring" where
  "close_size p requested =
     (if requested = [] then sp_Size p
      else if float_less (fst (ParseFloat (sp_Size p))) (fst (ParseFloat requested)) then sp_Size p
      else requested)"

text \<open>The isolated flag: the option, else what the metadata says; a failed lookup means cross.\<close>

definition close_isolated :: "'w sdk_env \<Rightarrow> gostring \<Rightarrow> bool option \<Rightarrow> (Market \<Rightarrow> bool) \<Rightarrow> 'w sdk \<Rightarrow> bool \<times> 'w sdk" where
  "close_isolated env market override flag st =
     (case override of
        Some b \<Rightarrow> (b, st)
      | None \<Rightarrow>
          (case lookup_Market env market st of
             (Inr (Some m), st1) \<Rightarrow> (flag m, st1)
           | (_, st1) \<Rightarrow> (False, st1)))"

definition close_body :: "gostring \<Rightarrow> ClosePositionOptions \<Rightarrow> SimPosition \<Rightarrow> bool \<Rightarrow> jfields" where
  "close_body realm opts p isolated =
     (let leverage = (case cp_Leverage opts of Some n \<Rightarrow> n | None \<Rightarrow> sp_Leverage p) in
      [(''realmId'', JStr realm), (''path'', JStr (cp_Path opts)), (''market'', JStr (cp_Market opts)),
       (''side'', JStr (closing_side p)), (''orderType'', JStr ''MARKET''), (''size'', JStr (close_size p (cp_Size opts))),
       (''reduceOnly'', JBool True), (''timeInForce'', JStr (defaultStr (cp_TimeInForce opts) ''IOC''))]
      @ (if leverage > 0 then [(''leverage'', jint leverage)] else []) @ opt_true ''isolated'' isolated
      @ opt_val jint ''applicationFeeTenthsBps'' (cp_ApplicationFeeTenthsBps opts)
      @ opt_val fee_targets ''feeTargets'' (cp_FeeTargets opts))"

definition close_call :: "'w sdk_env \<Rightarrow> ClosePositionOptions \<Rightarrow> 'w sdk \<Rightarrow> (error + OrderOperationResponse) \<times> 'w sdk" where
  "close_call env opts =
     sdk_bind (ListPositions env (cp_ObjectID opts)) (\<lambda>ps.
       case position_in (cp_Market opts) ps of
         None \<Rightarrow> sdk_fail (no_position (cp_Market opts))
       | Some p \<Rightarrow> (\<lambda>st.
           case close_isolated env (cp_Market opts) (cp_Isolated opts) mk_OnlyIsolated st of
             (isolated, st1) \<Rightarrow>
               sdk_bind (sdk_ready env) (\<lambda>_ st2.
                 sdk_bind (post_order env (cp_ObjectID opts) (close_body (currentRealmID st2) opts p isolated))
                   (accept_order env (cp_Market opts) (closing_side p) (cp_Path opts) []) st2) st1))"

text \<open>The capture around a submission: the stream stops on any error and otherwise learns the operation.\<close>

definition captured_call ::
    "('w sdk \<Rightarrow> (error + OrderOperationResponse) \<times> 'w sdk) \<Rightarrow> orderStream \<Rightarrow> 'w sdk
       \<Rightarrow> ((error + OrderOperationResponse) \<times> orderStream \<times> 'w sdk) option" where
  "captured_call submit stream st =
     (case submit st of
        (r, st1) \<Rightarrow>
          map_option (\<lambda>stream'. (r, stream', st1)) (captureOrderSubmission (map_sum (\<lambda>e. e) oor_Operation r) stream))"

definition ClosePosition ::
    "'w sdk_env \<Rightarrow> ClosePositionOptions \<Rightarrow> orderStream \<Rightarrow> 'w sdk
       \<Rightarrow> ((error + OrderOperationResponse) \<times> orderStream \<times> 'w sdk) option" where
  "ClosePosition env opts = captured_call (close_call env opts)"

section \<open>Triggers attached to a position\<close>

definition exTpslStopLoss :: gostring where "exTpslStopLoss = ''sl''"
definition exTpslTakeProfit :: gostring where "exTpslTakeProfit = ''tp''"

record SetPositionTriggerOptions =
  pt_Path :: gostring
  pt_ObjectID :: gostring
  pt_Market :: gostring
  pt_TriggerPx :: gostring
  pt_IsMarket :: "bool option"
  pt_LimitPrice :: gostring
  pt_Replace :: "bool option"
  pt_Leverage :: "int option"
  pt_Isolated :: "bool option"
  pt_Size :: gostring
  pt_TimeInForce :: gostring
  pt_ApplicationFeeTenthsBps :: "int option"
  pt_FeeTargets :: "FeeTarget list option"
  pt_OcoGroupID :: gostring

definition validation_error :: "gostring \<Rightarrow> error" where
  "validation_error msg = Arca ValidationError (newArcaError ''VALIDATION_ERROR'' msg [])"

definition default_true :: "bool option \<Rightarrow> bool" where
  "default_true b = (case b of Some v \<Rightarrow> v | None \<Rightarrow> True)"

definition isolated_market :: "Market \<Rightarrow> bool" where
  "isolated_market m =
     (if mk_MarginModes m \<noteq> [] then mk_MarginModes m = [''isolated''] else mk_OnlyIsolated m)"

definition inferPositionCloseParams ::
    "'w sdk_env \<Rightarrow> gostring \<Rightarrow> gostring \<Rightarrow> int option \<Rightarrow> bool option \<Rightarrow> 'w sdk
       \<Rightarrow> (error + gostring \<times> int \<times> bool) \<times> 'w sdk" where
  "inferPositionCloseParams env objectID coin leverageOverride isolatedOverride =
     sdk_bind (ListPositions env objectID) (\<lambda>ps.
       case position_in coin ps of
         None \<Rightarrow> sdk_fail (no_position coin)
       | Some p \<Rightarrow> (\<lambda>st.
           case close_isolated env coin isolatedOverride isolated_market st of
             (isolated, st1) \<Rightarrow>
               (Inr (closing_side p, (case leverageOverride of Some n \<Rightarrow> n | None \<Rightarrow> sp_Leverage p), isolated), st1)))"

definition tpsl_order :: "gostring \<Rightarrow> gostring \<Rightarrow> SimOrder \<Rightarrow> bool" where
  "tpsl_order coin tpsl o1 \<longleftrightarrow> so_Market o1 = coin \<and> so_SizeToMax o1 \<and> (tpsl = [] \<or> so_Tpsl o1 = tpsl)"

definition findPositionTpslOrders ::
    "'w sdk_env \<Rightarrow> gostring \<Rightarrow> gostring \<Rightarrow> gostring \<Rightarrow> 'w sdk \<Rightarrow> (error + SimOrder list) \<times> 'w sdk" where
  "findPositionTpslOrders env objectID coin tpsl =
     sdk_bind (ListOrders env objectID OrderWaitingTrigger) (\<lambda>os. sdk_return (filter (tpsl_order coin tpsl) os))"

text \<open>The cancellations in turn, up to the first that fails.\<close>

fun cancel_each ::
    "'w sdk_env \<Rightarrow> gostring \<Rightarrow> gostring \<Rightarrow> SimOrder list \<Rightarrow> 'w sdk \<Rightarrow> (error + unit) \<times> 'w sdk" where
  "cancel_each env objectID path [] = sdk_return ()"
| "cancel_each env objectID path (o1 # os) =
     sdk_bind (CancelOrder env \<lparr>co_Path = path @ so_ID o1, co_ObjectID = objectID, co_OrderID = so_ID o1\<rparr>)
       (\<lambda>_. cancel_each env objectID path os)"

definition trigger_body :: "gostring \<Rightarrow> gostring \<Rightarrow> SetPositionTriggerOptions \<Rightarrow> gostring \<Rightarrow> int \<Rightarrow> bool \<Rightarrow> jfields" where
  "trigger_body realm tpsl opts side leverage isolated =
     (let isMarket = default_true (pt_IsMarket opts) in
      [(''realmId'', JStr realm), (''path'', JStr (pt_Path opts)), (''market'', JStr (pt_Market opts)), (''side'', JStr side),
       (''orderType'', JStr (if isMarket then ''MARKET'' else ''LIMIT'')),
       (''size'', JStr (if pt_Size opts \<noteq> [] then pt_Size opts else ''0'')), (''reduceOnly'', JBool True),
       (''timeInForce'', JStr (defaultStr (pt_TimeInForce opts) ''GTC'')), (''isTrigger'', JBool True),
       (''triggerPx'', JStr (pt_TriggerPx opts)), (''isMarket'', JBool isMarket), (''tpsl'', JStr tpsl)]
      @ opt_true ''sizeToMax'' (pt_Size opts = []) @ (if isMarket then [] else [(''price'', JStr (pt_LimitPrice opts))])
      @ opt_str ''ocoGroupId'' (pt_OcoGroupID opts) @ (if leverage > 0 then [(''leverage'', jint leverage)] else [])
      @ opt_true ''isolated'' isolated @ opt_val jint ''applicationFeeTenthsBps'' (pt_ApplicationFeeTenthsBps opts)
      @ opt_val fee_targets ''feeTargets'' (pt_FeeTargets opts))"

definition trigger_call ::
    "'w sdk_env \<Rightarrow> gostring \<Rightarrow> SetPositionTriggerOptions \<Rightarrow> 'w sdk \<Rightarrow> (error + OrderOperationResponse) \<times> 'w sdk" where
  "trigger_call env tpsl opts =
     (if \<not> default_true (pt_IsMarket opts) \<and> pt_LimitPrice opts = [] then
        sdk_fail (validation_error ''trigger-limit orders require a LimitPrice (leave IsMarket nil for a market trigger)'')
      else if pt_TriggerPx opts = [] then sdk_fail (validation_error ''TriggerPx is required'')
      else
        sdk_bind (inferPositionCloseParams env (pt_ObjectID opts) (pt_Market opts) (pt_Leverage opts) (pt_Isolated opts))
          (\<lambda>(side, leverage, isolated).
             sdk_bind
               (if default_true (pt_Replace opts) then
                  sdk_bind (findPositionTpslOrders env (pt_ObjectID opts) (pt_Market opts) tpsl)
                    (cancel_each env (pt_ObjectID opts) (pt_Path opts @ ''/replace-''))
                else sdk_return ())
               (\<lambda>_. sdk_bind (sdk_ready env) (\<lambda>_ st.
                  sdk_bind (post_order env (pt_ObjectID opts) (trigger_body (currentRealmID st) tpsl opts side leverage isolated))
                    (refuse_failed order_op) st))))"

definition setPositionTrigger ::
    "'w sdk_env \<Rightarrow> gostring \<Rightarrow> SetPositionTriggerOptions \<Rightarrow> orderStream \<Rightarrow> 'w sdk
       \<Rightarrow> ((error + OrderOperationResponse) \<times> orderStream \<times> 'w sdk) option" where
  "setPositionTrigger env tpsl opts = captured_call (trigger_call env tpsl opts)"

definition SetStopLoss where "SetStopLoss env = setPositionTrigger env exTpslStopLoss"
definition SetTakeProfit where "SetTakeProfit env = setPositionTrigger env exTpslTakeProfit"

section \<open>Both triggers at once\<close>

record SetPositionTpslOptions =
  pb_Path :: gostring
  pb_ObjectID :: gostring
  pb_Market :: gostring
  pb_StopLossPx :: gostring
  pb_TakeProfitPx :: gostring
  pb_IsMarket :: "bool option"
  pb_Replace :: "bool option"
  pb_ApplicationFeeTenthsBps :: "int option"
  pb_FeeTargets :: "FeeTarget list option"
  pb_StopLossSz :: gostring
  pb_TakeProfitSz :: gostring
  pb_OcoGroupID :: gostring

definition hex_byte :: "char \<Rightarrow> gostring" where
  "hex_byte c = [''0123456789abcdef'' ! (ascii c div 16), ''0123456789abcdef'' ! (ascii c mod 16)]"

text \<open>\<^verbatim>\<open>generateOcoGroupID\<close>: 16 random bytes, or the clock when there is no entropy.\<close>

definition generateOcoGroupID :: "'w sdk_env \<Rightarrow> 'w sdk \<Rightarrow> gostring \<times> 'w sdk" where
  "generateOcoGroupID env st =
     (let (w, b) = sx_random env (cl_world (sd_client st)); st' = st\<lparr>sd_client := (sd_client st)\<lparr>cl_world := w\<rparr>\<rparr> in
      (''oco_'' @ (case b of None \<Rightarrow> show_int (sx_now env st') | Some bytes \<Rightarrow> concat (map hex_byte bytes)), st'))"

definition leg_options ::
    "SetPositionTpslOptions \<Rightarrow> gostring \<Rightarrow> gostring \<Rightarrow> gostring \<Rightarrow> gostring \<Rightarrow> SetPositionTriggerOptions" where
  "leg_options opts path px sz oco =
     \<lparr>pt_Path = pb_Path opts @ path, pt_ObjectID = pb_ObjectID opts, pt_Market = pb_Market opts, pt_TriggerPx = px,
      pt_IsMarket = pb_IsMarket opts, pt_LimitPrice = [], pt_Replace = pb_Replace opts, pt_Leverage = None, pt_Isolated = None,
      pt_Size = sz, pt_TimeInForce = [], pt_ApplicationFeeTenthsBps = pb_ApplicationFeeTenthsBps opts,
      pt_FeeTargets = pb_FeeTargets opts, pt_OcoGroupID = oco\<rparr>"

text \<open>
  The legs in turn, the stop first; each is submitted before the next (its events are captured as in \<^const>\<open>setPositionTrigger\<close>).  The result is the responses of the legs that were
  placed and the error that ended the call.
\<close>

definition place_leg ::
    "('w sdk \<Rightarrow> (error + OrderOperationResponse) \<times> 'w sdk) \<Rightarrow> bool \<Rightarrow> 'w sdk
       \<Rightarrow> error option \<times> OrderOperationResponse option \<times> 'w sdk" where
  "place_leg leg asked st =
     (if \<not> asked then (None, None, st)
      else (case leg st of (Inl e, st') \<Rightarrow> (Some e, None, st') | (Inr r, st') \<Rightarrow> (None, Some r, st')))"

definition tpsl_group :: "'w sdk_env \<Rightarrow> SetPositionTpslOptions \<Rightarrow> 'w sdk \<Rightarrow> gostring \<times> 'w sdk" where
  "tpsl_group env opts st =
     (if pb_OcoGroupID opts = [] \<and> pb_StopLossSz opts = [] \<and> pb_TakeProfitSz opts = [] then generateOcoGroupID env st
      else (pb_OcoGroupID opts, st))"

definition SetPositionTpsl ::
    "'w sdk_env \<Rightarrow> SetPositionTpslOptions \<Rightarrow> 'w sdk
       \<Rightarrow> (error option \<times> OrderOperationResponse option \<times> OrderOperationResponse option) \<times> 'w sdk" where
  "SetPositionTpsl env opts st =
     (if pb_StopLossPx opts = [] \<and> pb_TakeProfitPx opts = [] then
        ((Some (validation_error ''SetPositionTpsl requires at least one of StopLossPx or TakeProfitPx''), None, None), st)
      else
        (case tpsl_group env opts st of
           (oco, st0) \<Rightarrow>
             (case place_leg (trigger_call env exTpslStopLoss (leg_options opts ''/sl'' (pb_StopLossPx opts) (pb_StopLossSz opts) oco))
                     (pb_StopLossPx opts \<noteq> []) st0 of
                (Some e, _, st1) \<Rightarrow> ((Some e, None, None), st1)
              | (None, sl, st1) \<Rightarrow>
                  (case place_leg (trigger_call env exTpslTakeProfit
                           (leg_options opts ''/tp'' (pb_TakeProfitPx opts) (pb_TakeProfitSz opts) oco))
                          (pb_TakeProfitPx opts \<noteq> []) st1 of
                     (Some e, _, st2) \<Rightarrow> ((Some e, sl, None), st2)
                   | (None, tp, st2) \<Rightarrow> ((None, sl, tp), st2)))))"

record ClearPositionTpslOptions =
  ct_Path :: gostring
  ct_ObjectID :: gostring
  ct_Market :: gostring
  ct_Tpsl :: gostring

text \<open>\<^verbatim>\<open>ClearPositionTpsl\<close> returns the targeted orders also when a cancellation fails.\<close>

definition ClearPositionTpsl ::
    "'w sdk_env \<Rightarrow> ClearPositionTpslOptions \<Rightarrow> 'w sdk \<Rightarrow> (error option \<times> SimOrder list) \<times> 'w sdk" where
  "ClearPositionTpsl env opts st =
     (case findPositionTpslOrders env (ct_ObjectID opts) (ct_Market opts) (ct_Tpsl opts) st of
        (Inl e, st1) \<Rightarrow> ((Some e, []), st1)
      | (Inr existing, st1) \<Rightarrow>
          (case cancel_each env (ct_ObjectID opts) (ct_Path opts @ ''/'') existing st1 of
             (Inl e, st2) \<Rightarrow> ((Some e, existing), st2)
           | (Inr _, st2) \<Rightarrow> ((None, existing), st2)))"

section \<open>Brackets\<close>

record OpenBracketOptions =
  ob_Path :: gostring
  ob_ObjectID :: gostring
  ob_Market :: gostring
  ob_Side :: gostring
  ob_OrderType :: gostring
  ob_Size :: gostring
  ob_Price :: gostring
  ob_Leverage :: "int option"
  ob_Isolated :: bool
  ob_TimeInForce :: gostring
  ob_ApplicationFeeTenthsBps :: "int option"
  ob_TakeProfitPx :: gostring
  ob_StopLossPx :: gostring
  ob_TakeProfitSz :: gostring
  ob_StopLossSz :: gostring
  ob_TriggersAreMarket :: "bool option"
  ob_Grouping :: gostring

definition bracket_trigger :: "OpenBracketOptions \<Rightarrow> gostring \<Rightarrow> gostring \<Rightarrow> gostring \<Rightarrow> jfields" where
  "bracket_trigger opts tpsl triggerPx sz =
     [(''market'', JStr (ob_Market opts)), (''side'', JStr (if ob_Side opts = ''sell'' then ''buy'' else ''sell'')),
      (''orderType'', JStr (if default_true (ob_TriggersAreMarket opts) then ''MARKET'' else ''LIMIT'')),
      (''reduceOnly'', JBool True), (''isTrigger'', JBool True), (''triggerPx'', JStr triggerPx),
      (''isMarket'', JBool (default_true (ob_TriggersAreMarket opts))), (''tpsl'', JStr tpsl),
      (''timeInForce'', JStr (defaultStr (ob_TimeInForce opts) ''GTC'')),
      (''size'', JStr (if sz \<noteq> [] then sz else ob_Size opts))]
     @ opt_true ''isolated'' (ob_Isolated opts) @ opt_val jint ''applicationFeeTenthsBps'' (ob_ApplicationFeeTenthsBps opts)"

definition entry_type :: "OpenBracketOptions \<Rightarrow> gostring" where
  "entry_type opts = defaultStr (ob_OrderType opts) ''MARKET''"

definition bracket_entry :: "OpenBracketOptions \<Rightarrow> jfields" where
  "bracket_entry opts =
     [(''market'', JStr (ob_Market opts)), (''side'', JStr (ob_Side opts)), (''orderType'', JStr (entry_type opts)),
      (''size'', JStr (ob_Size opts)), (''timeInForce'', JStr (defaultStr (ob_TimeInForce opts) ''GTC''))]
     @ opt_str ''price'' (ob_Price opts) @ opt_val jint ''leverage'' (ob_Leverage opts)
     @ opt_true ''isolated'' (ob_Isolated opts) @ opt_val jint ''applicationFeeTenthsBps'' (ob_ApplicationFeeTenthsBps opts)"

definition bracket_orders :: "OpenBracketOptions \<Rightarrow> jfields list" where
  "bracket_orders opts =
     [bracket_entry opts]
     @ (if ob_TakeProfitPx opts \<noteq> [] then [bracket_trigger opts ''tp'' (ob_TakeProfitPx opts) (ob_TakeProfitSz opts)] else [])
     @ (if ob_StopLossPx opts \<noteq> [] then [bracket_trigger opts ''sl'' (ob_StopLossPx opts) (ob_StopLossSz opts)] else [])"

definition bracket_body :: "gostring \<Rightarrow> OpenBracketOptions \<Rightarrow> jfields" where
  "bracket_body realm opts =
     [(''realmId'', JStr realm), (''path'', JStr (ob_Path opts)), (''grouping'', JStr (defaultStr (ob_Grouping opts) ''normalTpsl'')),
      (''orders'', JArr (map JObj (bracket_orders opts)))]"

text \<open>
  The orders of the batch outcome, each a map; an element that is no object is the nil map (\<^const>\<open>None\<close>), as decoding goes
  on past it.
\<close>

definition outcome_orders :: "Operation \<Rightarrow> jfields option list" where
  "outcome_orders operation =
     (case Option.bind (op_Outcome operation) text_fields of
        None \<Rightarrow> []
      | Some fs \<Rightarrow>
          foldl (\<lambda>acc v. case v of
                    JArr xs \<Rightarrow> map (\<lambda>x. case x of JObj o1 \<Rightarrow> Some o1 | _ \<Rightarrow> None) xs
                  | JNull \<Rightarrow> []
                  | _ \<Rightarrow> acc) [] (field_values ''orders'' fs))"

definition legByTpsl :: "jfields option list \<Rightarrow> gostring \<Rightarrow> jfields option" where
  "legByTpsl os tpsl = Option.bind (find (\<lambda>o1. o1 \<noteq> None \<and> map_str (the o1) ''tpsl'' = tpsl) os) (\<lambda>o1. o1)"

text \<open>The operation of one leg's handle: the bracket's, with the leg's own summary as its outcome.\<close>

definition buildLeg :: "Operation \<Rightarrow> jfields option \<Rightarrow> Operation" where
  "buildLeg operation leg =
     (case leg of None \<Rightarrow> operation | Some fs \<Rightarrow> operation\<lparr>op_Outcome := Some (JText (JObj fs))\<rparr>)"

record order_leg =
  leg_Operation :: Operation
  leg_Immediate :: bool

record OpenBracketResult =
  obr_Entry :: order_leg
  obr_TakeProfit :: "order_leg option"
  obr_StopLoss :: "order_leg option"

definition bracket_result :: "OpenBracketOptions \<Rightarrow> Operation \<Rightarrow> OpenBracketResult" where
  "bracket_result opts operation =
     (let os = outcome_orders operation in
      \<lparr>obr_Entry = \<lparr>leg_Operation = buildLeg operation (case os of o1 # _ \<Rightarrow> o1 | [] \<Rightarrow> None),
                    leg_Immediate = (folds_to (ob_OrderType opts) ''MARKET'' \<or> ob_OrderType opts = [])\<rparr>,
       obr_TakeProfit = (if ob_TakeProfitPx opts \<noteq> []
          then Some \<lparr>leg_Operation = buildLeg operation (legByTpsl os ''tp''), leg_Immediate = False\<rparr> else None),
       obr_StopLoss = (if ob_StopLossPx opts \<noteq> []
          then Some \<lparr>leg_Operation = buildLeg operation (legByTpsl os ''sl''), leg_Immediate = False\<rparr> else None)\<rparr>)"

definition OpenWithBracket :: "'w sdk_env \<Rightarrow> OpenBracketOptions \<Rightarrow> 'w sdk \<Rightarrow> (error + OpenBracketResult) \<times> 'w sdk" where
  "OpenWithBracket env opts =
     (if ob_TakeProfitPx opts = [] \<and> ob_StopLossPx opts = [] then
        sdk_fail (validation_error ''OpenWithBracket requires at least one of TakeProfitPx or StopLossPx'')
      else if entry_type opts = ''LIMIT'' \<and> ob_Price opts = [] then
        sdk_fail (validation_error ''a LIMIT entry requires a Price'')
      else
        sdk_bind (sdk_ready env) (\<lambda>_ st.
          sdk_bind (sdk_post env (orders_path (ob_ObjectID opts) @ ''/batch'') (bracket_body (currentRealmID st) opts)
                      (decode_OrderOperationResponse (sx_parse env)))
            (\<lambda>resp. sdk_bind (refuse_failed order_op resp)
               (\<lambda>resp. sdk_return (bracket_result opts (oor_Operation resp)))) st))"

section \<open>Attaching to an order\<close>

record orderIntent =
  in_ObjectID :: gostring
  in_OrderType :: gostring
  in_TimeInForce :: gostring
  in_IsTrigger :: bool

definition decode_orderIntent :: "jfields \<Rightarrow> orderIntent option" where
  "decode_orderIntent fs =
     do { i \<leftarrow> str_field ''exchangeObjectId'' fs; ty \<leftarrow> str_field ''orderType'' fs; tif \<leftarrow> str_field ''timeInForce'' fs;
          trg \<leftarrow> bool_field ''isTrigger'' fs;
          Some \<lparr>in_ObjectID = i, in_OrderType = ty, in_TimeInForce = tif, in_IsTrigger = trg\<rparr> }"

definition recordedOrderIntent :: "Operation \<Rightarrow> orderIntent" where
  "recordedOrderIntent operation =
     (case Option.bind (op_Input operation) (\<lambda>t. Option.bind (text_fields t) decode_orderIntent) of
        Some i \<Rightarrow> i
      | None \<Rightarrow> \<lparr>in_ObjectID = [], in_OrderType = [], in_TimeInForce = [], in_IsTrigger = False\<rparr>)"

definition recordedImmediateIntent :: "Operation \<Rightarrow> bool" where
  "recordedImmediateIntent operation =
     (let i = recordedOrderIntent operation in
      if in_IsTrigger i then False
      else in_OrderType i = [] \<or> folds_to (in_OrderType i) ''MARKET'' \<or> folds_to (in_TimeInForce i) ''IOC''
           \<or> folds_to (in_TimeInForce i) ''FOK'')"

definition order_mismatch :: "gostring \<Rightarrow> error" where
  "order_mismatch msg = Arca BaseError (newArcaError ''ORDER_IDENTITY_MISMATCH'' msg [])"

text \<open>The checks of \<^verbatim>\<open>readOrderOperation\<close>.\<close>

definition order_operation_fault :: "gostring \<Rightarrow> gostring \<Rightarrow> Operation \<Rightarrow> error option" where
  "order_operation_fault objectID operationID operation =
     (if op_Type operation \<noteq> OpOrder then
        Some (order_mismatch (''Operation '' @ operationID @ '' is a '' @ op_Type operation @ '' operation, not an order''))
      else (let account = in_ObjectID (recordedOrderIntent operation) in
            if account \<noteq> [] \<and> account \<noteq> objectID then
              Some (order_mismatch (''Operation '' @ operationID @ '' belongs to a different exchange account''))
            else None))"

text \<open>\<^verbatim>\<open>GetOperation\<close> without evidence; events and deltas are decoded and not kept.\<close>

definition decode_ArcaEvent :: "jfields \<Rightarrow> unit option" where
  "decode_ArcaEvent fs =
     do { a \<leftarrow> decode_all (\<lambda>k. str_field k fs) [''id'', ''realmId'', ''type'', ''createdAt''];
          b \<leftarrow> decode_all (\<lambda>k. strp_field k fs) [''operationId'', ''operationPath'', ''arcaPath'', ''path'', ''payload'']; Some () }"

definition decode_StateDelta :: "jfields \<Rightarrow> unit option" where
  "decode_StateDelta fs =
     do { a \<leftarrow> decode_all (\<lambda>k. str_field k fs) [''id'', ''realmId'', ''arcaPath'', ''deltaType'', ''createdAt''];
          b \<leftarrow> decode_all (\<lambda>k. strp_field k fs) [''eventId'', ''beforeValue'', ''afterValue'']; i \<leftarrow> bool_field ''internal'' fs; Some () }"

definition decode_OperationDetail :: "(gostring \<Rightarrow> jtext) \<Rightarrow> jfields \<Rightarrow> Operation option" where
  "decode_OperationDetail parse fs =
     do { o1 \<leftarrow> struct_field (decode_Operation parse) ''operation'' fs; es \<leftarrow> structs_field decode_ArcaEvent ''events'' fs;
          ds \<leftarrow> structs_field decode_StateDelta ''deltas'' fs; Some o1 }"

definition GetOperation :: "'w sdk_env \<Rightarrow> gostring \<Rightarrow> bool \<Rightarrow> 'w sdk \<Rightarrow> (error + Operation) \<times> 'w sdk" where
  "GetOperation env operationID includeEvidence =
     sdk_bind (sdk_ready env) (\<lambda>_.
       sdk_get env (''/operations/'' @ operationID) (true_param ''includeEvidence'' includeEvidence)
         (decode_OperationDetail (sx_parse env)))"

definition readOrderOperation :: "'w sdk_env \<Rightarrow> gostring \<Rightarrow> gostring \<Rightarrow> 'w sdk \<Rightarrow> (error + Operation) \<times> 'w sdk" where
  "readOrderOperation env objectID operationID =
     sdk_bind (GetOperation env operationID False) (\<lambda>operation.
       case order_operation_fault objectID operationID operation of
         Some e \<Rightarrow> sdk_fail e
       | None \<Rightarrow> sdk_return operation)"

record attached =
  at_Operation :: Operation
  at_Path :: gostring
  at_Immediate :: bool

definition OrderHandleFor ::
    "'w sdk_env \<Rightarrow> gostring \<Rightarrow> gostring \<Rightarrow> orderStream \<Rightarrow> 'w sdk
       \<Rightarrow> ((error + attached) \<times> orderStream \<times> 'w sdk) option" where
  "OrderHandleFor env objectID operationID stream st =
     (case readOrderOperation env objectID operationID st of
        (Inl e, st1) \<Rightarrow> Some (Inl e, stop stream, st1)
      | (Inr operation, st1) \<Rightarrow>
          map_option (\<lambda>stream'. (Inr \<lparr>at_Operation = operation, at_Path = op_Path operation,
                                      at_Immediate = recordedImmediateIntent operation\<rparr>, stream', st1))
            (submitted operation stream))"

section \<open>Confirming\<close>

text \<open>
  \<^verbatim>\<open>Confirmed\<close>, given what \<^verbatim>\<open>Submitted\<close>, \<^verbatim>\<open>Wait\<close> and \<^verbatim>\<open>ExecutionReceipt\<close> return: an immediate order waits for its
  receipt, any other for the settlement of its operation.
\<close>

definition Confirmed ::
    "bool \<Rightarrow> OrderOperationResponse \<times> error option \<Rightarrow> OrderOperationResponse \<times> error option
       \<Rightarrow> error + jfields \<Rightarrow> OrderOperationResponse \<times> error option" where
  "Confirmed immediate sub settled receipt =
     (case sub of
        (resp, Some e) \<Rightarrow> (resp, Some e)
      | (resp, None) \<Rightarrow>
          if \<not> immediate then settled
          else (case receipt of
                  Inl e \<Rightarrow> (resp, Some e)
                | Inr out \<Rightarrow>
                    (resp\<lparr>oor_Operation := (oor_Operation resp)\<lparr>op_ParsedOutcome := Some out,
                                              op_Outcome := Some (JText (JObj out))\<rparr>\<rparr>, None)))"

section \<open>The requests of an order\<close>

definition order_request :: "gostring \<Rightarrow> jfields \<Rightarrow> api_request" where
  "order_request objectID body = \<lparr>aq_Method = POST, aq_Path = orders_path objectID, aq_Query = [], aq_Body = Some (JObj body)\<rparr>"

definition cancel_request :: "gostring \<Rightarrow> gostring \<Rightarrow> gostring \<Rightarrow> gostring \<Rightarrow> api_request" where
  "cancel_request objectID path realm orderID =
     \<lparr>aq_Method = DELETE,
      aq_Path = orders_path objectID @ ''/'' @ orderID @ ''?'' @ Encode [(''realmId'', realm), (''path'', path @ orderID)],
      aq_Query = [], aq_Body = None\<rparr>"

lemma reads_ListPositions: "ListPositions env objectID st = (r, st') \<Longrightarrow> reads st st'"
  unfolding ListPositions_def by (rule reads_ready_get)

lemma reads_ListOrders: "ListOrders env objectID status st = (r, st') \<Longrightarrow> reads st st'"
  unfolding ListOrders_def by (rule reads_ready_get)

lemma reads_Market: 
  assumes "lookup_Market env i st = (r, st')"
  shows "reads st st'"
proof -
  obtain f st1 where f: "GetMarketMeta env st = (f, st1)" by force
  have "reads st st1" using f unfolding GetMarketMeta_def by (rule reads_bind) (auto dest: reads_ready reads_get)
  moreover have "st' = st \<or> (\<exists>c. st' = st1\<lparr>sd_meta := c\<rparr>)"
    using assms f by (auto simp: lookup_Market_def split: option.splits prod.splits)
  ultimately show ?thesis by (auto simp: reads_def makes_def made_def)
qed

lemma reads_isolated: "close_isolated env market override flag st = (b, st') \<Longrightarrow> reads st st'"
  by (auto simp: close_isolated_def split: option.splits prod.splits sum.splits dest: reads_Market)

lemma infer_reads:
  assumes "inferPositionCloseParams env objectID coin lo io st = (r, st')"
  shows "reads st st'"
proof -
  have k: "reads st1 st2" if "(case position_in coin ps of None \<Rightarrow> sdk_fail (no_position coin) | Some p \<Rightarrow> (\<lambda>st.
      case close_isolated env coin io isolated_market st of (isolated, st1) \<Rightarrow>
        (Inr (closing_side p, (case lo of Some n \<Rightarrow> n | None \<Rightarrow> sp_Leverage p), isolated), st1))) st1 = (x, st2)" for ps st1 st2 x
    using that by (auto simp: sdk_fail_def split: option.splits prod.splits dest: reads_isolated)
  show ?thesis using assms unfolding inferPositionCloseParams_def
    by (rule reads_bind) (erule reads_ListPositions, erule k)
qed

text \<open>What a close or trigger is derived from: the first position of the market in a listing.\<close>

definition open_position :: "'w sdk_env \<Rightarrow> gostring \<Rightarrow> gostring \<Rightarrow> SimPosition \<Rightarrow> bool" where
  "open_position env objectID market p \<longleftrightarrow>
     (\<exists>st st' ps. ListPositions env objectID st = (Inr ps, st') \<and> position_in market ps = Some p)"

lemma infer_position:
  assumes "inferPositionCloseParams env objectID coin lo io st = (Inr (side, lev, isol), st')"
  shows "\<exists>p. open_position env objectID coin p \<and> side = closing_side p"
proof -
  obtain ps st1 where ps: "ListPositions env objectID st = (Inr ps, st1)"
    and k: "(case position_in coin ps of None \<Rightarrow> sdk_fail (no_position coin) | Some p \<Rightarrow> (\<lambda>st.
      case close_isolated env coin io isolated_market st of (isolated, st1) \<Rightarrow>
        (Inr (closing_side p, (case lo of Some n \<Rightarrow> n | None \<Rightarrow> sp_Leverage p), isolated), st1))) st1 = (Inr (side, lev, isol), st')"
    using assms unfolding inferPositionCloseParams_def sdk_bind_Inr by blast
  obtain p where p: "position_in coin ps = Some p" using k by (cases "position_in coin ps") (auto simp: sdk_fail_def)
  then have "side = closing_side p" using k by (simp add: case_prod_beta)
  then show ?thesis using ps p unfolding open_position_def by blast
qed

section \<open>Cancellations\<close>

lemma CancelOrder_made:
  assumes "CancelOrder env \<lparr>co_Path = path @ i, co_ObjectID = objectID, co_OrderID = i\<rparr> st = (r, st')"
  shows "\<exists>before rest. made (before @ rest) st st' \<and> list_all (\<lambda>q. aq_Method q = GET) before
     \<and> (rest = [] \<and> (\<exists>e. r = Inl e) \<or> (\<exists>realm. rest = [cancel_request objectID path realm i]))"
proof -
  obtain x st1 where ready: "sdk_ready env st = (x, st1)" by force
  obtain before where before: "made before st st1" "list_all (\<lambda>q. aq_Method q = GET) before"
    using reads_ready [OF ready] unfolding reads_def makes_def by blast
  show ?thesis
  proof (cases x)
    case (Inl e)
    then show ?thesis using assms ready before
      by (intro exI [of _ before] exI [of _ "[]"]) (auto simp: CancelOrder_def sdk_op_def sdk_bind_def)
  next
    case (Inr u)
    let ?path = "orders_path objectID @ ''/'' @ i @ ''?'' @ Encode [(''realmId'', currentRealmID st1), (''path'', path @ i)]"
    obtain y st2 where del: "sdk_delete env ?path (decode_OrderOperationResponse (sx_parse env)) st1 = (y, st2)" by force
    have "st' = st2" using assms ready Inr del
      by (auto simp: CancelOrder_def sdk_op_def sdk_bind_def split: sum.splits dest: refuse_failed_keeps)
    then show ?thesis using made_trans [OF before(1) made_delete [OF del]] before(2)
      by (intro exI [of _ before] exI [of _ "[cancel_request objectID path (currentRealmID st1) i]"])
        (auto simp: cancel_request_def)
  qed
qed

text \<open>The cancellations made are those of a prefix of the orders, of all of them unless one failed.\<close>

definition cancels :: "gostring \<Rightarrow> gostring \<Rightarrow> SimOrder list \<Rightarrow> api_request list \<Rightarrow> bool" where
  "cancels objectID path os qs \<longleftrightarrow>
     list_all2 (\<lambda>o1 q. \<exists>realm. q = cancel_request objectID path realm (so_ID o1)) os (filter (\<lambda>q. aq_Method q \<noteq> GET) qs)"

lemma cancels_reads: "list_all (\<lambda>q. aq_Method q = GET) qs \<Longrightarrow> cancels objectID path [] qs"
  by (simp add: cancels_def list_all_iff filter_empty_conv)

lemma cancels_append: "cancels objectID path os qs \<Longrightarrow> cancels objectID path os' qs' \<Longrightarrow> cancels objectID path (os @ os') (qs @ qs')"
  by (simp add: cancels_def list_all2_appendI)

lemma cancels_one: "cancels objectID path [o1] [cancel_request objectID path realm (so_ID o1)]"
  by (auto simp: cancels_def cancel_request_def)

lemma cancel_each_made:
  "cancel_each env objectID path os st = (r, st') \<Longrightarrow>
     \<exists>qs k. made qs st st' \<and> cancels objectID path (take k os) qs \<and> (r = Inr () \<longrightarrow> k = length os)"
proof (induction os arbitrary: st)
  case Nil
  then show ?case by (auto simp: sdk_return_def cancels_def intro!: exI [of _ "[]"])
next
  case (Cons o1 os)
  obtain x st1 where one: "CancelOrder env \<lparr>co_Path = path @ so_ID o1, co_ObjectID = objectID, co_OrderID = so_ID o1\<rparr> st = (x, st1)"
    by force
  obtain before rest where m: "made (before @ rest) st st1" "list_all (\<lambda>q. aq_Method q = GET) before"
    "rest = [] \<and> (\<exists>e. x = Inl e) \<or> (\<exists>realm. rest = [cancel_request objectID path realm (so_ID o1)])"
    using CancelOrder_made [OF one] by blast
  note b = cancels_reads [OF m(2), of objectID path]
  show ?case
  proof (cases x)
    case (Inl e)
    then have "r = Inl e" "st' = st1" using Cons.prems one by (auto simp: sdk_bind_def)
    moreover have "cancels objectID path (take 0 (o1 # os)) (before @ rest) \<or> cancels objectID path (take 1 (o1 # os)) (before @ rest)"
      using m(3) cancels_append [OF b, of "[o1]"] cancels_one b by auto
    ultimately show ?thesis using m(1) by blast
  next
    case (Inr v)
    then obtain realm where rest: "rest = [cancel_request objectID path realm (so_ID o1)]" using m(3) by auto
    have "cancel_each env objectID path os st1 = (r, st')" using Cons.prems one Inr by (simp add: sdk_bind_def)
    from Cons.IH [OF this] obtain qs k where q: "made qs st1 st'" "cancels objectID path (take k os) qs" "r = Inr () \<longrightarrow> k = length os"
      by blast
    have "cancels objectID path ([o1] @ take k os) ((before @ rest) @ qs)"
      using cancels_append [OF cancels_append [OF b cancels_one] q(2)] rest by simp
    then show ?thesis using made_trans [OF m(1) q(1)] q(3)
      by (intro exI [of _ "(before @ rest) @ qs"] exI [of _ "Suc k"]) auto
  qed
qed

section \<open>The trace of a submission\<close>

lemma post_order_made:
  "post_order env objectID body st = (r, st') \<Longrightarrow> made [order_request objectID body] st st'"
  unfolding post_order_def order_request_def by (rule made_post)

lemma emit_calls [simp]: "sd_calls (emitOptimisticFill env o1 coin side path price st) = sd_calls st"
  by (simp add: emitOptimisticFill_def split: option.split)

lemma accept_order_made: "accept_order env coin side path price resp st = (r, st') \<Longrightarrow> made [] st st'"
  by (auto simp: accept_order_def sdk_bind_def made_def split: prod.splits sum.splits dest: refuse_failed_keeps)

text \<open>Readiness, then one submission whose answer is judged without a further request.\<close>

lemma ready_post_made:
  assumes "sdk_bind (sdk_ready env) (\<lambda>_ st. sdk_bind (post_order env objectID (body (currentRealmID st))) judge st) st = (r, st')"
    and judge: "\<And>resp st r st'. judge resp st = (r, st') \<Longrightarrow> made [] st st'"
  shows "\<exists>before posted. made (before @ posted) st st' \<and> list_all (\<lambda>q. aq_Method q = GET) before
     \<and> (posted = [] \<and> (\<exists>e. r = Inl e) \<or> (\<exists>realm. posted = [order_request objectID (body realm)]))"
proof -
  obtain x st1 where ready: "sdk_ready env st = (x, st1)" by force
  obtain before where before: "made before st st1" "list_all (\<lambda>q. aq_Method q = GET) before"
    using reads_ready [OF ready] unfolding reads_def makes_def by blast
  show ?thesis
  proof (cases x)
    case (Inl e)
    then show ?thesis using assms(1) ready before
      by (intro exI [of _ before] exI [of _ "[]"]) (auto simp: sdk_bind_def)
  next
    case (Inr u)
    obtain y st2 where post: "post_order env objectID (body (currentRealmID st1)) st1 = (y, st2)" by force
    have "made [] st2 st'"
      using assms(1) ready Inr post judge by (cases y) (auto simp: sdk_bind_def)
    then have "made (before @ [order_request objectID (body (currentRealmID st1))]) st st'"
      using made_trans [OF made_trans [OF before(1) post_order_made [OF post]]] by fastforce
    then show ?thesis using before(2)
      by (intro exI [of _ before] exI [of _ "[order_request objectID (body (currentRealmID st1))]"]) auto
  qed
qed

text \<open>The orders a trigger replaces: those of the same market and kind among the waiting ones of some listing.\<close>

definition replaced_by ::
    "'w sdk_env \<Rightarrow> gostring \<Rightarrow> SetPositionTriggerOptions \<Rightarrow> SimOrder list \<Rightarrow> bool" where
  "replaced_by env tpsl opts targets \<longleftrightarrow>
     (if default_true (pt_Replace opts) then
        \<exists>st st' os. ListOrders env (pt_ObjectID opts) OrderWaitingTrigger st = (Inr os, st')
          \<and> targets = filter (tpsl_order (pt_Market opts) tpsl) os
      else targets = [])"

lemma replace_made:
  assumes "(if default_true (pt_Replace opts) then
              sdk_bind (findPositionTpslOrders env (pt_ObjectID opts) (pt_Market opts) tpsl)
                (cancel_each env (pt_ObjectID opts) path)
            else sdk_return ()) st = (r, st')"
  shows "\<exists>qs k targets. made qs st st' \<and> cancels (pt_ObjectID opts) path (take k targets) qs
     \<and> (replaced_by env tpsl opts targets \<or> targets = [])
     \<and> (r = Inr () \<longrightarrow> k = length targets \<and> replaced_by env tpsl opts targets)"
proof (cases "default_true (pt_Replace opts)")
  case False
  then show ?thesis using assms
    by (intro exI [of _ "[]"] exI [of _ 0]) (auto simp: sdk_return_def replaced_by_def cancels_def)
next
  case True
  obtain x st1 where find: "findPositionTpslOrders env (pt_ObjectID opts) (pt_Market opts) tpsl st = (x, st1)" by force
  obtain y st2 where lst: "ListOrders env (pt_ObjectID opts) OrderWaitingTrigger st = (y, st2)" by force
  have x: "st1 = st2" "x = (case y of Inl e \<Rightarrow> Inl e | Inr os \<Rightarrow> Inr (filter (tpsl_order (pt_Market opts) tpsl) os))"
    using find lst by (auto simp: findPositionTpslOrders_def sdk_bind_def sdk_return_def split: sum.splits)
  obtain qs where qs: "made qs st st1" "list_all (\<lambda>q. aq_Method q = GET) qs"
    using reads_ListOrders [OF lst] x(1) unfolding reads_def makes_def by blast
  note none = cancels_reads [OF qs(2), of "pt_ObjectID opts" path]
  show ?thesis
  proof (cases y)
    case (Inl e)
    then have "r = Inl e" "st' = st1" using assms True find x(2) by (auto simp: sdk_bind_def)
    then show ?thesis using qs(1) none by (intro exI [of _ qs] exI [of _ 0] exI [of _ "[]"]) auto
  next
    case (Inr os)
    let ?t = "filter (tpsl_order (pt_Market opts) tpsl) os"
    have "cancel_each env (pt_ObjectID opts) path ?t st1 = (r, st')" using assms True find x(2) Inr by (simp add: sdk_bind_def)
    from cancel_each_made [OF this] obtain rs k where rs: "made rs st1 st'"
      "cancels (pt_ObjectID opts) path (take k ?t) rs" "r = Inr () \<longrightarrow> k = length ?t" by blast
    have "replaced_by env tpsl opts ?t" using True lst Inr unfolding replaced_by_def by auto
    then show ?thesis using made_trans [OF qs(1) rs(1)] cancels_append [OF none rs(2)] rs(3)
      by (intro exI [of _ "qs @ rs"] exI [of _ k] exI [of _ ?t]) auto
  qed
qed

text \<open>What a body says: the fields of a reduce-only order.\<close>

lemma map_value_append: "map_value (fs @ gs) k = (case map_value gs k of Some v \<Rightarrow> Some v | None \<Rightarrow> map_value fs k)"
  by (simp add: map_value_def map_add_def split: option.split)

lemma map_value_Cons [simp]:
  "map_value ((k', v) # fs) k = (case map_value fs k of Some w \<Rightarrow> Some w | None \<Rightarrow> if k = k' then Some v else None)"
  "map_value [] k = None"
  by (simp_all add: map_value_def map_add_def split: option.split)

lemma map_value_opt [simp]:
  "map_value (opt_str k' s) k = (if s \<noteq> [] \<and> k = k' then Some (JStr s) else None)"
  "map_value (opt_true k' b) k = (if b \<and> k = k' then Some (JBool True) else None)"
  "map_value (opt_val f k' v) k = (if k = k' then map_option f v else None)"
  by (auto simp: opt_str_def opt_true_def opt_val_def split: option.split)

lemma map_value_if: "map_value (if b then fs else gs) k = (if b then map_value fs k else map_value gs k)"
  by simp

lemma trigger_body_fields:
  "map_value (trigger_body realm tpsl opts side leverage isol) ''reduceOnly'' = Some (JBool True)"
  "map_value (trigger_body realm tpsl opts side leverage isol) ''side'' = Some (JStr side)"
  "map_value (trigger_body realm tpsl opts side leverage isol) ''sizeToMax'' = (if pt_Size opts = [] then Some (JBool True) else None)"
  "map_value (trigger_body realm tpsl opts side leverage isol) ''ocoGroupId'' = (if pt_OcoGroupID opts = [] then None else Some (JStr (pt_OcoGroupID opts)))"
  by (simp_all add: trigger_body_def Let_def map_value_append)

definition valid_trigger :: "SetPositionTriggerOptions \<Rightarrow> bool" where
  "valid_trigger opts \<longleftrightarrow> pt_TriggerPx opts \<noteq> [] \<and> (default_true (pt_IsMarket opts) \<or> pt_LimitPrice opts \<noteq> [])"

lemma trigger_trace:
  assumes "trigger_call env tpsl opts st = (r, st')"
  shows "if valid_trigger opts then
     \<exists>before targets k posted. made (before @ posted) st st'
       \<and> cancels (pt_ObjectID opts) (pt_Path opts @ ''/replace-'') (take k targets) before
       \<and> (targets = [] \<or> replaced_by env tpsl opts targets)
       \<and> (posted = [] \<and> (\<exists>e. r = Inl e)
          \<or> (\<exists>realm p lev isol. posted = [order_request (pt_ObjectID opts) (trigger_body realm tpsl opts (closing_side p) lev isol)]
               \<and> open_position env (pt_ObjectID opts) (pt_Market opts) p
               \<and> k = length targets \<and> replaced_by env tpsl opts targets))
   else st' = st \<and> (\<exists>e. r = Inl e)"
proof (cases "valid_trigger opts")
  case False
  then show ?thesis using assms by (auto simp: trigger_call_def valid_trigger_def sdk_fail_def split: if_splits)
next
  case valid: True
  let ?obj = "pt_ObjectID opts" and ?path = "pt_Path opts @ ''/replace-''"
  obtain x st1 where infer: "inferPositionCloseParams env ?obj (pt_Market opts) (pt_Leverage opts) (pt_Isolated opts) st = (x, st1)"
    by force
  obtain qs where qs: "made qs st st1" "list_all (\<lambda>q. aq_Method q = GET) qs"
    using infer_reads [OF infer] unfolding reads_def makes_def by blast
  note none = cancels_reads [OF qs(2), of ?obj ?path]
  show ?thesis
  proof (cases x)
    case (Inl e)
    then have res: "r = Inl e" "st' = st1" using assms infer valid by (auto simp: trigger_call_def valid_trigger_def sdk_bind_def)
    show ?thesis unfolding if_P [OF valid]
      by (rule exI [of _ qs], rule exI [of _ "[]"], rule exI [of _ 0], rule exI [of _ "[]"]) (use res qs(1) none in auto)
  next
    case (Inr t)
    obtain side lev isol where t: "t = (side, lev, isol)" using prod_cases3 by blast
    obtain p where p: "open_position env ?obj (pt_Market opts) p" "side = closing_side p"
      using infer_position infer Inr t by blast
    let ?replace = "if default_true (pt_Replace opts) then
              sdk_bind (findPositionTpslOrders env ?obj (pt_Market opts) tpsl) (cancel_each env ?obj ?path) else sdk_return ()"
    obtain y st2 where rep: "?replace st1 = (y, st2)" by force
    from replace_made [OF rep] obtain rs k targets where rs: "made rs st1 st2" "cancels ?obj ?path (take k targets) rs"
      "replaced_by env tpsl opts targets \<or> targets = []" "y = Inr () \<longrightarrow> k = length targets \<and> replaced_by env tpsl opts targets" by blast
    have m: "made (qs @ rs) st st2" "cancels ?obj ?path (take k targets) (qs @ rs)"
      using made_trans [OF qs(1) rs(1)] cancels_append [OF none rs(2)] by simp_all
    show ?thesis
    proof (cases y)
      case (Inl e)
      then have res: "r = Inl e" "st' = st2" using assms infer \<open>x = Inr t\<close> t rep valid
        by (auto simp: trigger_call_def valid_trigger_def sdk_bind_def)
      show ?thesis unfolding if_P [OF valid]
        by (rule exI [of _ "qs @ rs"], rule exI [of _ targets], rule exI [of _ k], rule exI [of _ "[]"]) (use res m rs(3) in auto)
    next
      case (Inr u)
      have "sdk_bind (sdk_ready env) (\<lambda>_ st. sdk_bind (post_order env ?obj (trigger_body (currentRealmID st) tpsl opts side lev isol))
          (refuse_failed order_op) st) st2 = (r, st')"
        using assms infer \<open>x = Inr t\<close> t rep Inr valid by (auto simp: trigger_call_def valid_trigger_def sdk_bind_def [of "inferPositionCloseParams env ?obj (pt_Market opts) (pt_Leverage opts) (pt_Isolated opts)"] sdk_bind_def [of ?replace])
      from ready_post_made [where body = "\<lambda>realm. trigger_body realm tpsl opts side lev isol", OF this]
      obtain before posted where b: "made (before @ posted) st2 st'" "list_all (\<lambda>q. aq_Method q = GET) before"
        "posted = [] \<and> (\<exists>e. r = Inl e) \<or> (\<exists>realm. posted = [order_request ?obj (trigger_body realm tpsl opts side lev isol)])"
        using refuse_failed_keeps made_Nil by metis
      have c: "cancels ?obj ?path (take k targets) ((qs @ rs) @ before)"
        using cancels_append [OF m(2) cancels_reads [OF b(2)]] by simp
      have d: "made (((qs @ rs) @ before) @ posted) st st'" using made_trans [OF m(1) b(1)] by simp
      have kt: "k = length targets" "replaced_by env tpsl opts targets" using rs(4) Inr by auto
      have e: "posted = [] \<and> (\<exists>e. r = Inl e)
          \<or> (\<exists>realm p lev isol. posted = [order_request ?obj (trigger_body realm tpsl opts (closing_side p) lev isol)]
               \<and> open_position env ?obj (pt_Market opts) p \<and> k = length targets \<and> replaced_by env tpsl opts targets)"
        using b(3) kt p by blast
      show ?thesis unfolding if_P [OF valid]
        by (rule exI [of _ "(qs @ rs) @ before"], rule exI [of _ targets], rule exI [of _ k], rule exI [of _ posted]) (use c d e kt in simp)
    qed
  qed
qed

section \<open>Properties\<close>

lemma cancels_method:
  "list_all2 (\<lambda>o1 q. \<exists>realm. q = cancel_request objectID path realm (so_ID o1)) os qs \<Longrightarrow> x \<in> set qs \<Longrightarrow> aq_Method x = DELETE"
  by (induction rule: list_all2_induct) (auto simp: cancel_request_def)

text \<open>C32: A stop-loss or take-profit of a position is submitted at most once, as the last request of the call, on the side that
  closes an open position a listing showed, reduce-only, and unsized exactly when no size was given.  Every other
  request is a read or the cancellation of a waiting unsized trigger of the same market and kind; with replacement
  on, all of them were cancelled before the order is sent.  A call without a trigger price, or without the
  limit price it needs, makes no request.\<close>

theorem position_trigger_replaces_then_places:
  assumes "trigger_call env tpsl opts st = (r, st')"
  shows "(if valid_trigger opts then
     \<exists>before targets k posted. made (before @ posted) st st'
       \<and> cancels (pt_ObjectID opts) (pt_Path opts @ ''/replace-'') (take k targets) before
       \<and> (targets = [] \<or> replaced_by env tpsl opts targets)
       \<and> (posted = [] \<and> (\<exists>e. r = Inl e)
          \<or> (\<exists>realm p lev isol. posted = [order_request (pt_ObjectID opts) (trigger_body realm tpsl opts (closing_side p) lev isol)]
               \<and> open_position env (pt_ObjectID opts) (pt_Market opts) p
               \<and> k = length targets \<and> replaced_by env tpsl opts targets))
   else st' = st \<and> (\<exists>e. r = Inl e))
   \<and> map_value (trigger_body realm tpsl opts side lev isol) ''reduceOnly'' = Some (JBool True)
   \<and> map_value (trigger_body realm tpsl opts side lev isol) ''side'' = Some (JStr side)
   \<and> map_value (trigger_body realm tpsl opts side lev isol) ''sizeToMax'' = (if pt_Size opts = [] then Some (JBool True) else None)"
  using trigger_trace [OF assms] trigger_body_fields(1-3) by (intro conjI)

definition long_listing :: http_response where
  "long_listing = success [(''positions'', JArr [JObj [(''market'', JStr ''m''), (''side'', JStr ''long''), (''size'', JStr ''2'')]])]"

definition accepted_reply :: http_response where
  "accepted_reply = success [(''operation'', JObj [(''id'', JStr ''op''), (''state'', JStr ''pending'')])]"

definition stop_options :: SetPositionTriggerOptions where
  "stop_options = \<lparr>pt_Path = ''/t'', pt_ObjectID = ''x'', pt_Market = ''m'', pt_TriggerPx = ''9'', pt_IsMarket = None,
     pt_LimitPrice = [], pt_Replace = Some False, pt_Leverage = None, pt_Isolated = Some False, pt_Size = [],
     pt_TimeInForce = [], pt_ApplicationFeeTenthsBps = None, pt_FeeTargets = None, pt_OcoGroupID = []\<rparr>"

lemma stop_run:
  "map aq_Method (sd_calls (snd (trigger_call scripted_sdk ''sl'' stop_options (sdk_with [long_listing, accepted_reply])))) = [GET, POST]"
  by code_simp

theorem position_trigger_replaces_then_places_witness:
  "\<exists>before targets k posted.
     made (before @ posted) (sdk_with [long_listing, accepted_reply])
       (snd (trigger_call scripted_sdk ''sl'' stop_options (sdk_with [long_listing, accepted_reply])))
     \<and> cancels ''x'' ''/t/replace-'' (take k targets) before \<and> posted \<noteq> []"
proof -
  let ?st = "sdk_with [long_listing, accepted_reply]"
  obtain r st' where run: "trigger_call scripted_sdk ''sl'' stop_options ?st = (r, st')" by force
  have valid: "valid_trigger stop_options" by code_simp
  have fields: "pt_ObjectID stop_options = ''x''" "pt_Path stop_options @ ''/replace-'' = ''/t/replace-''"
    by (simp_all add: stop_options_def)
  have ms: "map aq_Method (sd_calls st') = [GET, POST]" using stop_run run by simp
  obtain before targets k posted where m: "made (before @ posted) ?st st'" "cancels ''x'' ''/t/replace-'' (take k targets) before"
    using position_trigger_replaces_then_places [OF run, THEN conjunct1, unfolded if_P [OF valid]] fields by auto
  have calls: "map aq_Method (before @ posted) = [GET, POST]" using m(1) ms by (simp add: made_def sdk_with_def)
  have "posted \<noteq> []"
  proof
    assume "posted = []"
    then have "POST \<in> set (map aq_Method before)" using calls by simp
    then obtain q where q: "q \<in> set (filter (\<lambda>q. aq_Method q \<noteq> GET) before)" "aq_Method q = POST" by auto
    have "aq_Method x = DELETE" if "x \<in> set (filter (\<lambda>q. aq_Method q \<noteq> GET) before)" for x
      using m(2) that unfolding cancels_def by (rule cancels_method)
    from this [OF q(1)] q(2) show False by simp
  qed
  then show ?thesis using m run by (metis snd_conv)
qed

text \<open>The keys of a placed body, against the keys attachment reads.\<close>

definition place_keys :: "gostring list" where
  "place_keys = [''realmId'', ''path'', ''market'', ''side'', ''size'', ''reduceOnly'', ''price'', ''leverage'', ''leverageMode'', ''slippageBps'',
     ''applicationFeeTenthsBps'', ''feeTargets'', ''triggerPx'', ''isMarket'', ''tpsl'', ''sizeToMax'', ''ocoGroupId'', ''useMax'',
     ''sizeTolerance'', ''isolated'']"

lemma place_keys_apart:
  "list_all (\<lambda>k. \<not> key_matches ''orderType'' k \<and> \<not> key_matches ''timeInForce'' k \<and> \<not> key_matches ''isTrigger'' k
     \<and> \<not> key_matches ''exchangeObjectId'' k) place_keys"
  "\<not> key_matches ''orderType'' ''timeInForce''" "\<not> key_matches ''orderType'' ''isTrigger''" "\<not> key_matches ''timeInForce'' ''orderType''"
  "\<not> key_matches ''timeInForce'' ''isTrigger''" "\<not> key_matches ''isTrigger'' ''orderType''" "\<not> key_matches ''isTrigger'' ''timeInForce''"
  "\<not> key_matches ''exchangeObjectId'' ''orderType''" "\<not> key_matches ''exchangeObjectId'' ''timeInForce''"
  "\<not> key_matches ''exchangeObjectId'' ''isTrigger''"
  by code_simp+

lemma field_values_append [simp]: "field_values k (fs @ gs) = field_values k fs @ field_values k gs"
  by (simp add: field_values_def)

lemma field_values_opt [simp]:
  "field_values k (opt_str k' s) = (if s \<noteq> [] \<and> key_matches k k' then [JStr s] else [])"
  "field_values k (opt_true k' b) = (if b \<and> key_matches k k' then [JBool True] else [])"
  "field_values k (opt_val f k' v) = (if key_matches k k' then (case v of None \<Rightarrow> [] | Some x \<Rightarrow> [f x]) else [])"
  by (auto simp: opt_str_def opt_true_def opt_val_def split: option.split)

lemma placed_fields:
  "field_values ''orderType'' (place_body realm opts) = [JStr (po_OrderType opts)]"
  "field_values ''timeInForce'' (place_body realm opts) = [JStr (defaultStr (po_TimeInForce opts) ''GTC'')]"
  "field_values ''isTrigger'' (place_body realm opts) = (if po_IsTrigger opts then [JBool True] else [])"
  "field_values ''exchangeObjectId'' (place_body realm opts) = []"
  using place_keys_apart(1) by (simp_all add: place_body_def place_keys_def place_keys_apart(2-))

lemma defaultStr_folds:
  "folds_to (defaultStr s ''GTC'') ''IOC'' \<longleftrightarrow> folds_to s ''IOC''" "folds_to (defaultStr s ''GTC'') ''FOK'' \<longleftrightarrow> folds_to s ''FOK''"
proof -
  have "\<not> folds_to ''GTC'' ''IOC''" "\<not> folds_to [] ''IOC''" "\<not> folds_to ''GTC'' ''FOK''" "\<not> folds_to [] ''FOK''" by code_simp+
  then show "folds_to (defaultStr s ''GTC'') ''IOC'' \<longleftrightarrow> folds_to s ''IOC''" "folds_to (defaultStr s ''GTC'') ''FOK'' \<longleftrightarrow> folds_to s ''FOK''"
    by (simp_all add: defaultStr_def)
qed

text \<open>A handle attached to an order is immediate exactly when the handle that placed it is: when the operation recorded the
  submitted body, with whatever else the platform adds under other names, \<^verbatim>\<open>OrderHandleFor\<close> classifies it as
  \<^verbatim>\<open>PlaceOrder\<close> did, so \<^verbatim>\<open>Confirmed\<close> waits for the same event on both.\<close>

theorem attached_order_classified_as_placed:
  assumes "op_Input operation = Some (JText (JObj (place_body realm opts @ rest)))"
    and "str_field ''exchangeObjectId'' rest = Some account"
    and "field_values ''orderType'' rest = []" "field_values ''timeInForce'' rest = []" "field_values ''isTrigger'' rest = []"
  shows "recordedImmediateIntent operation = place_immediate opts"
proof -
  have "recordedOrderIntent operation = \<lparr>in_ObjectID = account, in_OrderType = po_OrderType opts,
      in_TimeInForce = defaultStr (po_TimeInForce opts) ''GTC'', in_IsTrigger = po_IsTrigger opts\<rparr>"
    using assms by (simp add: recordedOrderIntent_def decode_orderIntent_def json_field_defs placed_fields)
  then show ?thesis by (simp add: recordedImmediateIntent_def place_immediate_def Let_def defaultStr_folds)
qed

definition ioc_options :: PlaceOrderOptions where
  "ioc_options = \<lparr>po_Path = ''/o'', po_ObjectID = ''x'', po_Market = ''m'', po_Side = Buy, po_OrderType = ''LIMIT'', po_Size = ''1'',
     po_Price = ''5'', po_Leverage = None, po_LeverageMode = [], po_SlippageBps = None, po_ReduceOnly = False, po_Isolated = False,
     po_TimeInForce = ''ioc'', po_ApplicationFeeTenthsBps = None, po_FeeTargets = None, po_IsTrigger = False, po_TriggerPx = [],
     po_IsMarket = None, po_Tpsl = [], po_SizeToMax = False, po_OcoGroupID = [], po_UseMax = False, po_SizeTolerance = None\<rparr>"

definition recorded_operation :: "jfields \<Rightarrow> Operation" where
  "recorded_operation fs = \<lparr>op_ID = ''o'', op_RealmID = [], op_Path = ''/o'', op_Type = OpOrder, op_State = OpPending,
     op_SourceArcaPath = None, op_TargetArcaPath = None, op_Input = Some (JText (JObj fs)), op_Outcome = None,
     op_ParsedOutcome = None, op_FailureMessage = None\<rparr>"

theorem attached_order_classified_as_placed_witness:
  "recordedImmediateIntent (recorded_operation (place_body ''r'' ioc_options @ [(''exchangeObjectId'', JStr ''x'')]))"
proof -
  have "place_immediate ioc_options" by code_simp
  moreover have "str_field ''exchangeObjectId'' [(''exchangeObjectId'', JStr ''x'')] = Some ''x''"
    "field_values ''orderType'' [(''exchangeObjectId'', JStr ''x'')] = []"
    "field_values ''timeInForce'' [(''exchangeObjectId'', JStr ''x'')] = []"
    "field_values ''isTrigger'' [(''exchangeObjectId'', JStr ''x'')] = []" by code_simp+
  ultimately show ?thesis
    using attached_order_classified_as_placed [of "recorded_operation (place_body ''r'' ioc_options @ [(''exchangeObjectId'', JStr ''x'')])"
      "''r''" ioc_options "[(''exchangeObjectId'', JStr ''x'')]" "''x''"]
    by (simp add: recorded_operation_def)
qed

text \<open>
  A closed position's handle never gets the classification: \<^verbatim>\<open>ClosePosition\<close> leaves \<^verbatim>\<open>immediate\<close> unset, so
  \<^verbatim>\<open>Confirmed\<close> returns at settlement, while a handle attached to the same \<^verbatim>\<open>MARKET\<close> order is immediate.
\<close>

lemma close_attached_is_immediate:
  assumes "op_Input operation = Some (JText (JObj (close_body realm opts p isol)))"
  shows "recordedImmediateIntent operation \<or> recordedOrderIntent operation = \<lparr>in_ObjectID = [], in_OrderType = [], in_TimeInForce = [], in_IsTrigger = False\<rparr>"
proof -
  have "folds_to ''MARKET'' ''MARKET''" by (simp add: folds_to_def)
  moreover have "field_values ''orderType'' (close_body realm opts p isol) = [JStr ''MARKET'']"
    "field_values ''isTrigger'' (close_body realm opts p isol) = []"
    using place_keys_apart(1) by (simp_all add: close_body_def Let_def place_keys_def place_keys_apart(2-))
  ultimately show ?thesis using assms
    by (auto simp: recordedImmediateIntent_def recordedOrderIntent_def decode_orderIntent_def json_field_defs Let_def bind_eq_Some_conv
      split: option.splits bind_splits)
qed

end
