(* ===== verification/Cosign.thy ===== *)
theory Cosign
  imports Go_Json
begin

text \<open>
  The co-signing of kernel actions (\<^verbatim>\<open>cosign.go\<close>), the encoding of custody transactions (\<^verbatim>\<open>custody.go\<close>) and the checksum
  of an address (\<^verbatim>\<open>recovery.go\<close>): ABI words, the EIP-712 domain separator, the parameter hash and the digest, and
  the verification of a proposal from its own fields.  Bytes are characters.  The hash \<^verbatim>\<open>keccak256\<close> and the curve's
  \<^verbatim>\<open>SignCompact\<close> are third-party code: they are arguments.
\<close>

section \<open>Hexadecimal\<close>

definition hex_digit :: "nat \<Rightarrow> char" where
  "hex_digit n = ''0123456789abcdef'' ! (n mod 16)"

definition EncodeToString :: "gostring \<Rightarrow> gostring" where
  "EncodeToString bs = concat (map (\<lambda>c. [hex_digit (ascii c div 16), hex_digit (ascii c)]) bs)"

definition hex_value :: "char \<Rightarrow> nat option" where
  "hex_value c =
     (if is_digit c then Some (digit_val c)
      else if 97 \<le> ascii c \<and> ascii c \<le> 102 then Some (ascii c - 87)
      else if 65 \<le> ascii c \<and> ascii c \<le> 70 then Some (ascii c - 55) else None)"

fun DecodeString :: "gostring \<Rightarrow> gostring option" where
  "DecodeString [] = Some []"
| "DecodeString [c] = None"
| "DecodeString (a # b # cs) =
     do { x \<leftarrow> hex_value a; y \<leftarrow> hex_value b; r \<leftarrow> DecodeString cs; Some (char_of (16 * x + y) # r) }"

text \<open>The format verb \<^verbatim>\<open>%q\<close>, for printable text: a quote and a backslash are escaped.\<close>

definition quoted :: "gostring \<Rightarrow> gostring" where
  "quoted s = CHR 0x22 # concat (map (\<lambda>c. if c = CHR 0x22 \<or> c = CHR 0x5C then [CHR 0x5C, c] else [c]) s) @ [CHR 0x22]"

definition trim0x :: "gostring \<Rightarrow> gostring" where
  "trim0x s = TrimPrefix (TrimPrefix s ''0x'') ''0X''"

definition decodeHex :: "gostring \<Rightarrow> gostring + gostring" where
  "decodeHex s =
     (let trimmed = trim0x (TrimSpace s) in
      if trimmed = [] then Inl ''empty hex value''
      else (case DecodeString trimmed of None \<Rightarrow> Inl (''invalid hex '' @ quoted s) | Some raw \<Rightarrow> Inr raw))"

definition hexEqual :: "gostring \<Rightarrow> gostring \<Rightarrow> bool" where
  "hexEqual a b \<longleftrightarrow> EqualFold (trim0x a) (trim0x b)"

section \<open>ABI words\<close>

fun big_endian :: "nat \<Rightarrow> nat \<Rightarrow> gostring" where
  "big_endian 0 n = []"
| "big_endian (Suc k) n = big_endian k (n div 256) @ [char_of (n mod 256)]"

text \<open>
  \<^verbatim>\<open>FillBytes\<close> writes the absolute value; it panics on a value that needs more than 32 bytes, which no caller has: they
  pass 64-bit integers, and decimals checked to fit 256 bits.
\<close>

definition abiUint :: "int \<Rightarrow> gostring" where
  "abiUint v = big_endian 32 (nat (abs v))"

definition abiDecimal :: "gostring \<Rightarrow> gostring + gostring" where
  "abiDecimal s =
     (case parse_int10 (TrimSpace s) of
        None \<Rightarrow> Inl (quoted s @ '' is not a decimal integer'')
      | Some v \<Rightarrow>
          if v < 0 then Inl (quoted s @ '' is negative'')
          else if v \<ge> 2 ^ 256 then Inl (quoted s @ '' overflows uint256'')
          else Inr (abiUint v))"

definition abiAddress :: "gostring \<Rightarrow> gostring + gostring" where
  "abiAddress s =
     (case decodeHex s of
        Inl e \<Rightarrow> Inl e
      | Inr raw \<Rightarrow>
          if length raw \<noteq> 20 then Inl (''address must be 20 bytes, got '' @ show_nat (length raw))
          else Inr (replicate 12 (CHR 0x00) @ raw))"

definition abiBytes32 :: "gostring \<Rightarrow> gostring + gostring" where
  "abiBytes32 s =
     (case decodeHex s of
        Inl e \<Rightarrow> Inl e
      | Inr raw \<Rightarrow>
          if length raw \<noteq> 32 then Inl (''value must be 32 bytes, got '' @ show_nat (length raw)) else Inr raw)"

text \<open>A result, or its error with a context in front.\<close>

definition in_context :: "gostring \<Rightarrow> gostring + 'a \<Rightarrow> ('a \<Rightarrow> gostring + 'b) \<Rightarrow> gostring + 'b" where
  "in_context ctx r k = (case r of Inl e \<Rightarrow> Inl (ctx @ e) | Inr v \<Rightarrow> k v)"

section \<open>Digests\<close>

definition CosignDomainName :: gostring where "CosignDomainName = ''ArcaCustodyKernel''"
definition CosignDomainVersion :: gostring where "CosignDomainVersion = ''2''"
definition CosignActionTransferBetweenVenues :: nat where "CosignActionTransferBetweenVenues = 11"
definition CosignActionTransferBetweenVenuesPreAuth :: nat where "CosignActionTransferBetweenVenuesPreAuth = 12"

type_synonym hash = "gostring \<Rightarrow> gostring"

definition eip712Domain :: gostring where
  "eip712Domain = ''EIP712Domain(string name,string version,uint256 chainId,address verifyingContract)''"

definition operatorActionType :: gostring where
  "operatorActionType = ''OperatorAction(uint8 actionType,bytes32 boundary,bytes32 paramsHash,uint256 nonce,uint256 deadline)''"

definition OperatorActionTypehash :: "hash \<Rightarrow> gostring" where
  "OperatorActionTypehash keccak = ''0x'' @ EncodeToString (keccak operatorActionType)"

definition domain_bytes :: "hash \<Rightarrow> int \<Rightarrow> gostring \<Rightarrow> gostring" where
  "domain_bytes keccak chainID addr =
     keccak eip712Domain @ keccak CosignDomainName @ keccak CosignDomainVersion @ abiUint chainID @ addr"

definition CosignDomainSeparator :: "hash \<Rightarrow> int \<Rightarrow> gostring \<Rightarrow> gostring + gostring" where
  "CosignDomainSeparator keccak chainID kernelAddress =
     in_context ''arca: domain separator: '' (abiAddress kernelAddress) (\<lambda>addr.
       Inr (''0x'' @ EncodeToString (keccak (domain_bytes keccak chainID addr))))"

record OperatorAction =
  oa_ChainID :: int
  oa_KernelAddress :: gostring
  oa_Action :: nat
  oa_Boundary :: gostring
  oa_ParamsHash :: gostring
  oa_Nonce :: gostring
  oa_Deadline :: int

definition action_bytes :: "hash \<Rightarrow> nat \<Rightarrow> gostring \<Rightarrow> gostring \<Rightarrow> gostring \<Rightarrow> int \<Rightarrow> gostring" where
  "action_bytes keccak action boundary paramsHash nonce deadline =
     keccak operatorActionType @ abiUint (int action) @ boundary @ paramsHash @ nonce @ abiUint deadline"

definition digest_bytes :: "gostring \<Rightarrow> gostring \<Rightarrow> gostring" where
  "digest_bytes ds structHash = [CHR 0x19, CHR 0x01] @ ds @ structHash"

definition OperatorActionDigest :: "hash \<Rightarrow> OperatorAction \<Rightarrow> gostring + gostring" where
  "OperatorActionDigest keccak a =
     in_context ''arca: operator action digest: boundary: '' (abiBytes32 (oa_Boundary a)) (\<lambda>boundary.
     in_context ''arca: operator action digest: paramsHash: '' (abiBytes32 (oa_ParamsHash a)) (\<lambda>paramsHash.
     in_context ''arca: operator action digest: nonce: '' (abiDecimal (oa_Nonce a)) (\<lambda>nonce.
     in_context [] (CosignDomainSeparator keccak (oa_ChainID a) (oa_KernelAddress a)) (\<lambda>separator.
     in_context [] (abiBytes32 separator) (\<lambda>ds.
       let structHash = keccak (action_bytes keccak (oa_Action a) boundary paramsHash nonce (oa_Deadline a)) in
       Inr (''0x'' @ EncodeToString (keccak (digest_bytes ds structHash))))))))"

record TransferBetweenVenuesParams =
  tv_FromVenue :: gostring
  tv_FromBoundary :: gostring
  tv_ToBoundary :: gostring
  tv_ToVenue :: gostring
  tv_ToVenueAccountID :: gostring
  tv_Token :: gostring
  tv_Amount :: gostring
  tv_Ref :: gostring

text \<open>The eight words of the parameters.\<close>

definition hop_words :: "TransferBetweenVenuesParams \<Rightarrow> gostring + gostring list" where
  "hop_words p =
     in_context ''arca: hop paramsHash: fromVenue: '' (abiAddress (tv_FromVenue p)) (\<lambda>fromVenue.
     in_context ''arca: hop paramsHash: fromBoundary: '' (abiBytes32 (tv_FromBoundary p)) (\<lambda>fromBoundary.
     in_context ''arca: hop paramsHash: toBoundary: '' (abiBytes32 (tv_ToBoundary p)) (\<lambda>toBoundary.
     in_context ''arca: hop paramsHash: toVenue: '' (abiAddress (tv_ToVenue p)) (\<lambda>toVenue.
     in_context ''arca: hop paramsHash: toVenueAccountId: '' (abiBytes32 (tv_ToVenueAccountID p)) (\<lambda>toVenueAccount.
     in_context ''arca: hop paramsHash: token: '' (abiAddress (tv_Token p)) (\<lambda>token.
     in_context ''arca: hop paramsHash: amount: '' (abiDecimal (tv_Amount p)) (\<lambda>amount.
     in_context ''arca: hop paramsHash: ref: '' (abiBytes32 (tv_Ref p)) (\<lambda>ref.
       Inr [fromVenue, fromBoundary, toBoundary, toVenue, toVenueAccount, token, amount, ref]))))))))"

definition TransferBetweenVenuesParamsHash :: "hash \<Rightarrow> TransferBetweenVenuesParams \<Rightarrow> gostring + gostring" where
  "TransferBetweenVenuesParamsHash keccak p =
     in_context [] (hop_words p) (\<lambda>ws. Inr (''0x'' @ EncodeToString (keccak (concat ws))))"

section \<open>Proposals\<close>

record CosignDomain =
  cd_Name :: gostring
  cd_Version :: gostring
  cd_ChainID :: int
  cd_VerifyingContract :: gostring

record VenueHopProposal =
  vp_Action :: nat
  vp_BoundaryID :: gostring
  vp_BoundaryKey :: gostring
  vp_TargetBoundaryID :: gostring
  vp_TargetBoundaryKey :: gostring
  vp_FromVenue :: gostring
  vp_ToVenue :: gostring
  vp_ToVenueAccountKey :: gostring
  vp_Token :: gostring
  vp_Domain :: CosignDomain
  vp_Amount :: gostring
  vp_AmountRaw :: gostring
  vp_Ref :: gostring
  vp_Nonce :: gostring
  vp_Deadline :: int
  vp_ParamsHash :: gostring
  vp_Digest :: gostring

definition hop_params :: "VenueHopProposal \<Rightarrow> TransferBetweenVenuesParams" where
  "hop_params p =
     \<lparr>tv_FromVenue = vp_FromVenue p, tv_FromBoundary = vp_BoundaryKey p, tv_ToBoundary = vp_TargetBoundaryKey p,
      tv_ToVenue = vp_ToVenue p, tv_ToVenueAccountID = vp_ToVenueAccountKey p, tv_Token = vp_Token p,
      tv_Amount = vp_AmountRaw p, tv_Ref = vp_Ref p\<rparr>"

definition hop_action :: "VenueHopProposal \<Rightarrow> gostring \<Rightarrow> OperatorAction" where
  "hop_action p paramsHash =
     \<lparr>oa_ChainID = cd_ChainID (vp_Domain p), oa_KernelAddress = cd_VerifyingContract (vp_Domain p), oa_Action = vp_Action p,
      oa_Boundary = vp_BoundaryKey p, oa_ParamsHash = paramsHash, oa_Nonce = vp_Nonce p, oa_Deadline = vp_Deadline p\<rparr>"

text \<open>\<^const>\<open>None\<close> is the nil error.\<close>

definition Verify :: "hash \<Rightarrow> VenueHopProposal \<Rightarrow> gostring option" where
  "Verify keccak p =
     (if cd_Name (vp_Domain p) \<noteq> CosignDomainName \<or> cd_Version (vp_Domain p) \<noteq> CosignDomainVersion then
        Some (''arca: venue hop proposal is for EIP-712 domain '' @ quoted (cd_Name (vp_Domain p)) @ '' version ''
              @ quoted (cd_Version (vp_Domain p)) @ '', but this SDK derives '' @ quoted CosignDomainName @ '' version ''
              @ quoted CosignDomainVersion @ '' '' @ map char_of [226, 128, 148 :: nat]
              @ '' the kernel's signing contract has moved and this SDK cannot verify what it would be signing'')
      else if vp_Action p \<noteq> CosignActionTransferBetweenVenues \<and> vp_Action p \<noteq> CosignActionTransferBetweenVenuesPreAuth then
        Some (''arca: venue hop proposal carries action '' @ show_nat (vp_Action p) @ '', want ''
              @ show_nat CosignActionTransferBetweenVenues @ '' or '' @ show_nat CosignActionTransferBetweenVenuesPreAuth)
      else
        (case TransferBetweenVenuesParamsHash keccak (hop_params p) of
           Inl e \<Rightarrow> Some e
         | Inr paramsHash \<Rightarrow>
             if \<not> hexEqual paramsHash (vp_ParamsHash p) then
               Some (''arca: venue hop paramsHash mismatch: server returned '' @ vp_ParamsHash p
                     @ '', the returned parameters hash to '' @ paramsHash @ '' '' @ map char_of [226, 128, 148 :: nat]
                     @ '' do not sign this proposal'')
             else
               (case OperatorActionDigest keccak (hop_action p paramsHash) of
                  Inl e \<Rightarrow> Some e
                | Inr digest \<Rightarrow>
                    if \<not> hexEqual digest (vp_Digest p) then
                      Some (''arca: venue hop digest mismatch: server returned '' @ vp_Digest p
                            @ '', the returned parameters digest to '' @ digest @ '' '' @ map char_of [226, 128, 148 :: nat]
                            @ '' do not sign this proposal'')
                    else None)))"

section \<open>Signatures\<close>

text \<open>\<^verbatim>\<open>SignCompact\<close> returns \<^verbatim>\<open>[v, r, s]\<close>; the signature is \<^verbatim>\<open>[r, s, v]\<close>.\<close>

definition SignCosignDigest :: "(gostring \<Rightarrow> gostring \<Rightarrow> gostring) \<Rightarrow> gostring \<Rightarrow> gostring \<Rightarrow> gostring + gostring" where
  "SignCosignDigest signCompact privateKey digest =
     in_context ''arca: sign digest: private key: '' (decodeHex privateKey) (\<lambda>keyBytes.
       if length keyBytes \<noteq> 32 then
         Inl (''arca: sign digest: private key must be 32 bytes, got '' @ show_nat (length keyBytes))
       else in_context ''arca: sign digest: '' (abiBytes32 digest) (\<lambda>digestBytes.
         let compact = signCompact keyBytes digestBytes in
         if length compact \<noteq> 65 then
           Inl (''arca: sign digest: unexpected signature length '' @ show_nat (length compact))
         else Inr (''0x'' @ EncodeToString (drop 1 compact @ [hd compact]))))"

definition SignVenueHop ::
    "hash \<Rightarrow> (gostring \<Rightarrow> gostring \<Rightarrow> gostring) \<Rightarrow> gostring \<Rightarrow> VenueHopProposal \<Rightarrow> gostring + gostring" where
  "SignVenueHop keccak signCompact privateKey p =
     (case Verify keccak p of
        Some e \<Rightarrow> Inl e
      | None \<Rightarrow> SignCosignDigest signCompact privateKey (vp_Digest p))"

section \<open>What a digest commits to\<close>

text \<open>The terms of a hop, decoded: the values the words stand for, with the domain's chain and kernel.\<close>

record hop_terms =
  ht_Action :: nat
  ht_Chain :: nat
  ht_Kernel :: gostring
  ht_FromVenue :: gostring
  ht_Boundary :: gostring
  ht_TargetBoundary :: gostring
  ht_ToVenue :: gostring
  ht_Account :: gostring
  ht_Token :: gostring
  ht_Amount :: nat
  ht_Ref :: gostring
  ht_Nonce :: nat
  ht_Deadline :: nat

definition sized_hex :: "nat \<Rightarrow> gostring \<Rightarrow> gostring option" where
  "sized_hex n s = (case decodeHex s of Inl e \<Rightarrow> None | Inr raw \<Rightarrow> if length raw = n then Some raw else None)"

definition uint256 :: "gostring \<Rightarrow> nat option" where
  "uint256 s = (case parse_int10 (TrimSpace s) of None \<Rightarrow> None | Some v \<Rightarrow> if 0 \<le> v \<and> v < 2 ^ 256 then Some (nat v) else None)"

definition signed_terms :: "VenueHopProposal \<Rightarrow> hop_terms option" where
  "signed_terms p =
     do {
       fromVenue \<leftarrow> sized_hex 20 (vp_FromVenue p); boundary \<leftarrow> sized_hex 32 (vp_BoundaryKey p);
       target \<leftarrow> sized_hex 32 (vp_TargetBoundaryKey p); toVenue \<leftarrow> sized_hex 20 (vp_ToVenue p);
       account \<leftarrow> sized_hex 32 (vp_ToVenueAccountKey p); token \<leftarrow> sized_hex 20 (vp_Token p);
       amount \<leftarrow> uint256 (vp_AmountRaw p); ref \<leftarrow> sized_hex 32 (vp_Ref p); nonce \<leftarrow> uint256 (vp_Nonce p);
       kernel \<leftarrow> sized_hex 20 (cd_VerifyingContract (vp_Domain p));
       Some \<lparr>ht_Action = vp_Action p, ht_Chain = nat (abs (cd_ChainID (vp_Domain p))), ht_Kernel = kernel,
             ht_FromVenue = fromVenue, ht_Boundary = boundary, ht_TargetBoundary = target, ht_ToVenue = toVenue,
             ht_Account = account, ht_Token = token, ht_Amount = amount, ht_Ref = ref, ht_Nonce = nonce,
             ht_Deadline = nat (abs (vp_Deadline p))\<rparr>
     }"

text \<open>The hash inputs of the kernel's derivation, from the terms alone.\<close>

definition address_word :: "gostring \<Rightarrow> gostring" where
  "address_word raw = replicate 12 (CHR 0x00) @ raw"

definition params_text :: "hop_terms \<Rightarrow> gostring" where
  "params_text t =
     address_word (ht_FromVenue t) @ ht_Boundary t @ ht_TargetBoundary t @ address_word (ht_ToVenue t) @ ht_Account t
     @ address_word (ht_Token t) @ big_endian 32 (ht_Amount t) @ ht_Ref t"

definition domain_text :: "hash \<Rightarrow> hop_terms \<Rightarrow> gostring" where
  "domain_text keccak t =
     keccak eip712Domain @ keccak CosignDomainName @ keccak CosignDomainVersion @ big_endian 32 (ht_Chain t)
     @ address_word (ht_Kernel t)"

definition action_text :: "hash \<Rightarrow> hop_terms \<Rightarrow> gostring" where
  "action_text keccak t =
     keccak operatorActionType @ big_endian 32 (ht_Action t) @ ht_Boundary t @ keccak (params_text t)
     @ big_endian 32 (ht_Nonce t) @ big_endian 32 (ht_Deadline t)"

definition final_text :: "hash \<Rightarrow> hop_terms \<Rightarrow> gostring" where
  "final_text keccak t = digest_bytes (keccak (domain_text keccak t)) (keccak (action_text keccak t))"

definition hashed_texts :: "hash \<Rightarrow> hop_terms \<Rightarrow> gostring set" where
  "hashed_texts keccak t = {params_text t, domain_text keccak t, action_text keccak t, final_text keccak t}"

definition terms_digest :: "hash \<Rightarrow> hop_terms \<Rightarrow> gostring" where
  "terms_digest keccak t = keccak (final_text keccak t)"

section \<open>Lemmas\<close>

subsection \<open>Bytes\<close>

lemma big_endian_length [simp]: "length (big_endian k n) = k"
  by (induction k arbitrary: n) auto

lemma big_endian_inject:
  "n < 256 ^ k \<Longrightarrow> m < 256 ^ k \<Longrightarrow> big_endian k n = big_endian k m \<Longrightarrow> n = m"
proof (induction k arbitrary: n m)
  case (Suc k)
  have "(char_of (n mod 256) :: char) = char_of (m mod 256)" "big_endian k (n div 256) = big_endian k (m div 256)"
    using Suc.prems(3) by auto
  then have "n mod 256 = m mod 256" "n div 256 = m div 256"
    using Suc.IH [of "n div 256" "m div 256"] Suc.prems(1,2) by (auto simp: less_mult_imp_div_less)
  then show ?case by (metis div_mult_mod_eq)
qed simp

lemma uint256_less: "uint256 s = Some n \<Longrightarrow> n < 256 ^ 32"
  by (auto simp: uint256_def split: option.splits if_splits)

lemma address_word_inject [simp]: "address_word a = address_word b \<longleftrightarrow> a = b"
  by (simp add: address_word_def)

lemma ascii_less [simp]: "ascii c < 256"
  by (simp add: ascii_def)

lemma hex_digit_cases: "hex_digit n \<in> set ''0123456789abcdef''"
proof -
  have "n mod 16 < length ''0123456789abcdef''" by simp
  then show ?thesis unfolding hex_digit_def by (rule nth_mem)
qed

lemma hex_value_digit: "hex_value (hex_digit n) = Some (n mod 16)"
proof -
  have "list_all (\<lambda>k. hex_value (''0123456789abcdef'' ! k) = Some k) [0..<16]" by code_simp
  then show ?thesis by (simp add: list_all_iff hex_digit_def)
qed

lemma DecodeString_Encode [simp]: "DecodeString (EncodeToString bs) = Some bs"
proof (induction bs)
  case (Cons c cs)
  have "ascii c div 16 < 16" by (rule less_mult_imp_div_less) simp
  then have "ascii c div 16 mod 16 = ascii c div 16" by (rule mod_less)
  then have "(char_of (16 * (ascii c div 16 mod 16) + ascii c mod 16) :: char) = c"
    by (simp add: ascii_def)
  then show ?case using Cons by (simp add: EncodeToString_def hex_value_digit)
qed (simp add: EncodeToString_def)

lemma EncodeToString_Nil [simp]: "EncodeToString bs = [] \<longleftrightarrow> bs = []"
  by (cases bs) (simp_all add: EncodeToString_def)

lemma EncodeToString_length [simp]: "length (EncodeToString bs) = 2 * length bs"
  by (induction bs) (auto simp: EncodeToString_def)

lemma EncodeToString_inject [simp]: "EncodeToString a = EncodeToString b \<longleftrightarrow> a = b"
  by (metis DecodeString_Encode option.inject)

lemma EncodeToString_digits: "c \<in> set (EncodeToString bs) \<Longrightarrow> c \<in> set ''0123456789abcdef''"
  by (induction bs) (use hex_digit_cases in \<open>auto simp: EncodeToString_def\<close>)

lemma hex_plain:
  "c \<in> set ''0123456789abcdef'' \<Longrightarrow> \<not> is_space c \<and> lower_char c = c \<and> c \<noteq> CHR ''x'' \<and> c \<noteq> CHR ''X''"
proof -
  have "list_all (\<lambda>c. \<not> is_space c \<and> lower_char c = c \<and> c \<noteq> CHR ''x'' \<and> c \<noteq> CHR ''X'') ''0123456789abcdef''" by code_simp
  then show "c \<in> set ''0123456789abcdef'' \<Longrightarrow> ?thesis" unfolding list_all_iff by blast
qed

lemma ToLower_Encode [simp]: "ToLower (EncodeToString bs) = EncodeToString bs"
  unfolding ToLower_def by (rule map_idI) (use EncodeToString_digits hex_plain in blast)

lemma trim0x_prefixed [simp]: "trim0x (''0x'' @ EncodeToString bs) = EncodeToString bs"
proof -
  have "\<not> HasPrefix (EncodeToString bs) ''0X''"
  proof
    assume p: "HasPrefix (EncodeToString bs) ''0X''"
    then have "set (take (length ''0X'') (EncodeToString bs)) = set ''0X''" unfolding HasPrefix_def by (rule arg_cong)
    then have "CHR ''X'' \<in> set (take (length ''0X'') (EncodeToString bs))" by simp
    then have "CHR ''X'' \<in> set (EncodeToString bs)" by (rule in_set_takeD)
    then show False using EncodeToString_digits hex_plain by blast
  qed
  then show ?thesis by (simp add: trim0x_def TrimPrefix_def HasPrefix_def)
qed

lemma TrimSpace_prefixed [simp]: "TrimSpace (''0x'' @ EncodeToString bs) = ''0x'' @ EncodeToString bs"
proof (rule TrimSpace_no_space, rule ballI)
  fix c assume "c \<in> set (''0x'' @ EncodeToString bs)"
  then have "c \<in> set ''0x'' \<or> c \<in> set ''0123456789abcdef''" unfolding set_append using EncodeToString_digits by blast
  moreover have "list_all (\<lambda>c. \<not> is_space c) ''0x''" by code_simp
  ultimately show "\<not> is_space c" using hex_plain unfolding list_all_iff by blast
qed

lemma decodeHex_prefixed: "bs \<noteq> [] \<Longrightarrow> decodeHex (''0x'' @ EncodeToString bs) = Inr bs"
  unfolding decodeHex_def TrimSpace_prefixed trim0x_prefixed by simp

lemma abiBytes32_prefixed: "length bs = 32 \<Longrightarrow> abiBytes32 (''0x'' @ EncodeToString bs) = Inr bs"
  unfolding abiBytes32_def by (subst decodeHex_prefixed) auto

lemma hexEqual_prefixed: "hexEqual (''0x'' @ EncodeToString bs) s \<longleftrightarrow> ToLower (trim0x s) = EncodeToString bs"
  unfolding hexEqual_def EqualFold_def trim0x_prefixed ToLower_Encode by auto

subsection \<open>Verification\<close>

lemma in_context_Inr: "in_context ctx r k = Inr v \<longleftrightarrow> (\<exists>u. r = Inr u \<and> k u = Inr v)"
  by (auto simp: in_context_def split: sum.splits)

lemma abiAddress_Inr: "abiAddress s = Inr w \<longleftrightarrow> (\<exists>raw. sized_hex 20 s = Some raw \<and> w = address_word raw)"
  by (auto simp: abiAddress_def sized_hex_def address_word_def split: sum.splits)

lemma abiBytes32_Inr: "abiBytes32 s = Inr w \<longleftrightarrow> sized_hex 32 s = Some w"
  by (auto simp: abiBytes32_def sized_hex_def split: sum.splits)

lemma abiDecimal_Inr: "abiDecimal s = Inr w \<longleftrightarrow> (\<exists>n. uint256 s = Some n \<and> w = big_endian 32 n)"
  by (auto simp: abiDecimal_def uint256_def abiUint_def split: option.splits)

lemmas abi_Inr = in_context_Inr abiAddress_Inr abiBytes32_Inr abiDecimal_Inr

lemma sized_hex_length: "sized_hex n s = Some raw \<Longrightarrow> length raw = n"
  by (auto simp: sized_hex_def split: sum.splits if_splits)

lemma params_hash_Inr:
  "TransferBetweenVenuesParamsHash keccak q = Inr h \<longleftrightarrow> (\<exists>ws. hop_words q = Inr ws \<and> h = ''0x'' @ EncodeToString (keccak (concat ws)))"
  by (auto simp: TransferBetweenVenuesParamsHash_def in_context_Inr)

text \<open>Both hashes of a proposal whose fields decode are those of its terms.\<close>

lemma params_hash_terms:
  assumes "signed_terms p = Some t"
  shows "TransferBetweenVenuesParamsHash keccak (hop_params p) = Inr (''0x'' @ EncodeToString (keccak (params_text t)))"
  using assms unfolding signed_terms_def bind_eq_Some_conv
  by (auto simp: params_hash_Inr hop_words_def hop_params_def abi_Inr params_text_def)

lemma digest_terms:
  assumes len: "\<And>x. length (keccak x) = 32" and t: "signed_terms p = Some t"
  shows "OperatorActionDigest keccak (hop_action p (''0x'' @ EncodeToString (keccak (params_text t))))
    = Inr (''0x'' @ EncodeToString (terms_digest keccak t))"
proof -
  have parts: "abiBytes32 (vp_BoundaryKey p) = Inr (ht_Boundary t)" "abiDecimal (vp_Nonce p) = Inr (big_endian 32 (ht_Nonce t))"
    "abiAddress (cd_VerifyingContract (vp_Domain p)) = Inr (address_word (ht_Kernel t))"
    "vp_Action p = ht_Action t" "nat (abs (cd_ChainID (vp_Domain p))) = ht_Chain t" "nat (abs (vp_Deadline p)) = ht_Deadline t"
    using t unfolding signed_terms_def bind_eq_Some_conv by (auto simp: abi_Inr)
  have hex: "abiBytes32 (''0x'' @ EncodeToString (keccak x)) = Inr (keccak x)" for x
    by (rule abiBytes32_prefixed) (rule len)
  show ?thesis
    unfolding OperatorActionDigest_def hop_action_def CosignDomainSeparator_def OperatorAction.simps in_context_def parts hex sum.simps Let_def
      terms_digest_def final_text_def domain_text_def domain_bytes_def action_text_def action_bytes_def abiUint_def
    by (simp add: parts)
qed

text \<open>Verification is the comparison of the two hashes with those of the decoded terms.\<close>

lemma Verify_terms:
  assumes len: "\<And>x. length (keccak x) = 32"
  shows "Verify keccak p = None \<longleftrightarrow>
     cd_Name (vp_Domain p) = CosignDomainName \<and> cd_Version (vp_Domain p) = CosignDomainVersion
     \<and> vp_Action p \<in> {CosignActionTransferBetweenVenues, CosignActionTransferBetweenVenuesPreAuth}
     \<and> (\<exists>t. signed_terms p = Some t \<and> ToLower (trim0x (vp_ParamsHash p)) = EncodeToString (keccak (params_text t))
          \<and> ToLower (trim0x (vp_Digest p)) = EncodeToString (terms_digest keccak t))" (is "?ok \<longleftrightarrow> ?terms")
proof
  assume ok: ?ok
  obtain h d where h: "TransferBetweenVenuesParamsHash keccak (hop_params p) = Inr h" "hexEqual h (vp_ParamsHash p)"
    "OperatorActionDigest keccak (hop_action p h) = Inr d" "hexEqual d (vp_Digest p)"
    using ok by (auto simp: Verify_def split: if_splits sum.splits)
  obtain ws where ws: "hop_words (hop_params p) = Inr ws" using h(1) by (auto simp: params_hash_Inr)
  have "signed_terms p \<noteq> None"
    using ws h(3) unfolding hop_words_def hop_params_def OperatorActionDigest_def hop_action_def CosignDomainSeparator_def
    by (auto simp: abi_Inr signed_terms_def)
  then obtain t where t: "signed_terms p = Some t" by blast
  have eqs: "h = ''0x'' @ EncodeToString (keccak (params_text t))" "d = ''0x'' @ EncodeToString (terms_digest keccak t)"
    using h(1,3) params_hash_terms [OF t, of keccak] digest_terms [of keccak, OF len t] by auto
  have "cd_Name (vp_Domain p) = CosignDomainName \<and> cd_Version (vp_Domain p) = CosignDomainVersion
      \<and> vp_Action p \<in> {CosignActionTransferBetweenVenues, CosignActionTransferBetweenVenuesPreAuth}"
    using ok by (auto simp: Verify_def split: if_splits)
  then show ?terms using t h(2,4) unfolding eqs hexEqual_prefixed by blast
next
  assume ?terms
  then obtain t where t: "signed_terms p = Some t" "hexEqual (''0x'' @ EncodeToString (keccak (params_text t))) (vp_ParamsHash p)"
    "hexEqual (''0x'' @ EncodeToString (terms_digest keccak t)) (vp_Digest p)" unfolding hexEqual_prefixed by blast
  then show ?ok using \<open>?terms\<close> unfolding Verify_def params_hash_terms [OF t(1)] sum.simps digest_terms [of keccak, OF len t(1)] by auto
qed

definition well_sized :: "hop_terms \<Rightarrow> bool" where
  "well_sized t \<longleftrightarrow>
     length (ht_Kernel t) = 20 \<and> length (ht_FromVenue t) = 20 \<and> length (ht_Boundary t) = 32
     \<and> length (ht_TargetBoundary t) = 32 \<and> length (ht_ToVenue t) = 20 \<and> length (ht_Account t) = 32
     \<and> length (ht_Token t) = 20 \<and> length (ht_Ref t) = 32 \<and> ht_Action t < 256 ^ 32 \<and> ht_Chain t < 256 ^ 32
     \<and> ht_Amount t < 256 ^ 32 \<and> ht_Nonce t < 256 ^ 32 \<and> ht_Deadline t < 256 ^ 32"

text \<open>The digest is injective on terms when the hash is on the texts it is applied to.\<close>

lemma terms_digest_inject:
  assumes len: "\<And>x. length (keccak x) = 32" and inj: "inj_on keccak (hashed_texts keccak t \<union> hashed_texts keccak u)"
    and size: "well_sized t" "well_sized u" and eq: "terms_digest keccak t = terms_digest keccak u"
  shows "t = u"
proof -
  have hit: "keccak a = keccak b \<Longrightarrow> a \<in> hashed_texts keccak t \<Longrightarrow> b \<in> hashed_texts keccak u \<Longrightarrow> a = b" for a b
    using inj by (auto dest: inj_onD)
  have fin: "final_text keccak t = final_text keccak u"
    using eq hit by (simp add: terms_digest_def hashed_texts_def)
  then have "keccak (domain_text keccak t) = keccak (domain_text keccak u)" "keccak (action_text keccak t) = keccak (action_text keccak u)"
    using len by (simp_all add: final_text_def digest_bytes_def)
  then have dom: "domain_text keccak t = domain_text keccak u" and act: "action_text keccak t = action_text keccak u"
    using hit by (simp_all add: hashed_texts_def)
  have d: "big_endian 32 (ht_Chain t) = big_endian 32 (ht_Chain u)" "ht_Kernel t = ht_Kernel u"
    using dom by (simp_all add: domain_text_def)
  have a: "big_endian 32 (ht_Action t) = big_endian 32 (ht_Action u)" "ht_Boundary t = ht_Boundary u"
    "keccak (params_text t) = keccak (params_text u)" "big_endian 32 (ht_Nonce t) = big_endian 32 (ht_Nonce u)"
    "big_endian 32 (ht_Deadline t) = big_endian 32 (ht_Deadline u)"
    using act size len by (simp_all add: action_text_def well_sized_def)
  have par: "params_text t = params_text u" using hit [OF a(3)] by (simp add: hashed_texts_def)
  have words: "length (address_word (ht_FromVenue x)) = 32" "length (address_word (ht_ToVenue x)) = 32"
    "length (address_word (ht_Token x)) = 32" if "well_sized x" for x
    using that by (simp_all add: address_word_def well_sized_def)
  have p: "ht_FromVenue t = ht_FromVenue u" "ht_TargetBoundary t = ht_TargetBoundary u" "ht_ToVenue t = ht_ToVenue u"
    "ht_Account t = ht_Account u" "ht_Token t = ht_Token u" "big_endian 32 (ht_Amount t) = big_endian 32 (ht_Amount u)"
    "ht_Ref t = ht_Ref u"
    using par size words [OF size(1)] words [OF size(2)] a(2) by (simp_all add: params_text_def well_sized_def)
  have n: "ht_Chain t = ht_Chain u" "ht_Action t = ht_Action u" "ht_Nonce t = ht_Nonce u" "ht_Deadline t = ht_Deadline u"
    "ht_Amount t = ht_Amount u"
    using big_endian_inject d(1) a(1,4,5) p(6) size unfolding well_sized_def by blast+
  show ?thesis using d a p n by (cases t, cases u) simp
qed

lemma signed_terms_well_sized:
  assumes "signed_terms p = Some t" "int64 (cd_ChainID (vp_Domain p))" "int64 (vp_Deadline p)" "vp_Action p < 256"
  shows "well_sized t"
proof -
  have big: "(256::nat) ^ 32 = 2 ^ 256" "(2::nat) ^ 63 < 2 ^ 256" "(256::nat) < 2 ^ 256" by simp_all
  have "nat (abs v) < 256 ^ 32" if "int64 v" for v
  proof -
    have "abs v \<le> 2 ^ 63" using that by (auto simp: int64_def)
    then have "nat (abs v) \<le> 2 ^ 63" by (simp add: nat_le_iff)
    then show ?thesis using big by simp
  qed
  then show ?thesis using assms unfolding signed_terms_def
    by (auto simp: well_sized_def bind_eq_Some_conv dest: sized_hex_length uint256_less)
qed

section \<open>Properties\<close>

text \<open>C33: A verified digest commits to the whole hop.  When the hash is injective on the texts it is applied to, two verified
  proposals with the same digest have the same terms: kernel, action, both boundaries and venues, account, token,
  amount, reference, nonce, and the chain and deadline up to sign.  The digest is the EIP-712 digest of these
  terms, so a signature collected for one hop authorizes no other.\<close>

theorem verified_digest_binds_the_hop:
  assumes "\<forall>x. length (keccak x) = 32" "Verify keccak p = None" "Verify keccak q = None" "hexEqual (vp_Digest p) (vp_Digest q)"
    and "int64 (cd_ChainID (vp_Domain p))" "int64 (cd_ChainID (vp_Domain q))" "int64 (vp_Deadline p)" "int64 (vp_Deadline q)"
    and "\<forall>t u. signed_terms p = Some t \<longrightarrow> signed_terms q = Some u \<longrightarrow>
           inj_on keccak (hashed_texts keccak t \<union> hashed_texts keccak u)"
  shows "\<exists>t. signed_terms p = Some t \<and> signed_terms q = Some t
    \<and> hexEqual (''0x'' @ EncodeToString (terms_digest keccak t)) (vp_Digest p)
    \<and> ht_Action t \<in> {CosignActionTransferBetweenVenues, CosignActionTransferBetweenVenuesPreAuth}"
proof -
  have len: "length (keccak x) = 32" for x using assms(1) by simp
  obtain t u where t: "signed_terms p = Some t" "ToLower (trim0x (vp_Digest p)) = EncodeToString (terms_digest keccak t)"
      "vp_Action p \<in> {CosignActionTransferBetweenVenues, CosignActionTransferBetweenVenuesPreAuth}"
    and u: "signed_terms q = Some u" "ToLower (trim0x (vp_Digest q)) = EncodeToString (terms_digest keccak u)"
      "vp_Action q \<in> {CosignActionTransferBetweenVenues, CosignActionTransferBetweenVenuesPreAuth}"
    using assms(2,3) unfolding Verify_terms [of keccak, OF len] by blast
  have small: "vp_Action p < 256" "vp_Action q < 256" "ht_Action t = vp_Action p"
    using t u by (auto simp: CosignActionTransferBetweenVenues_def CosignActionTransferBetweenVenuesPreAuth_def signed_terms_def bind_eq_Some_conv)
  have "terms_digest keccak t = terms_digest keccak u"
    using assms(4) t(2) u(2) by (simp add: hexEqual_def EqualFold_def)
  moreover have "well_sized t" "well_sized u"
    using signed_terms_well_sized t(1) u(1) small(1,2) assms(5-8) by blast+
  moreover have "inj_on keccak (hashed_texts keccak t \<union> hashed_texts keccak u)" using assms(9) t(1) u(1) by blast
  ultimately have "t = u" using terms_digest_inject [of keccak, OF len] by blast
  then show ?thesis using t u(1) small(3) unfolding hexEqual_prefixed by auto
qed

text \<open>A hash of 32 bytes for the witness, and a proposal sealed with it in two spellings.\<close>

definition sample_hash :: hash where
  "sample_hash x = char_of (length x) # take 31 (x @ replicate 31 (CHR 0x00))"

definition sealed :: "VenueHopProposal \<Rightarrow> VenueHopProposal" where
  "sealed p =
     (case signed_terms p of
        None \<Rightarrow> p
      | Some t \<Rightarrow> p\<lparr>vp_ParamsHash := EncodeToString (sample_hash (params_text t)),
                    vp_Digest := EncodeToString (terms_digest sample_hash t)\<rparr>)"

definition sample_hop :: "gostring \<Rightarrow> VenueHopProposal" where
  "sample_hop venue =
     \<lparr>vp_Action = 11, vp_BoundaryID = ''b'', vp_BoundaryKey = concat (replicate 32 ''b0''), vp_TargetBoundaryID = ''c'',
      vp_TargetBoundaryKey = concat (replicate 32 ''b1''), vp_FromVenue = venue, vp_ToVenue = concat (replicate 20 ''fe''),
      vp_ToVenueAccountKey = concat (replicate 32 ''09''), vp_Token = concat (replicate 20 ''b8''),
      vp_Domain = \<lparr>cd_Name = CosignDomainName, cd_Version = CosignDomainVersion, cd_ChainID = 998,
        cd_VerifyingContract = concat (replicate 20 ''11'')\<rparr>,
      vp_Amount = ''75'', vp_AmountRaw = ''750'', vp_Ref = concat (replicate 32 ''cd''), vp_Nonce = ''12'', vp_Deadline = 1900,
      vp_ParamsHash = [], vp_Digest = []\<rparr>"

definition upper_hop :: VenueHopProposal where "upper_hop = sealed (sample_hop (''0xBE'' @ concat (replicate 19 ''EF'')))"
definition lower_hop :: VenueHopProposal where "lower_hop = sealed (sample_hop ('' be'' @ concat (replicate 19 ''ef'')))"

lemma sample_hash_length [simp]: "length (sample_hash x) = 32"
  by (simp add: sample_hash_def)

lemma sample_venue: "sized_hex 20 (''0xBE'' @ concat (replicate 19 ''EF'')) = sized_hex 20 ('' be'' @ concat (replicate 19 ''ef''))"
  by code_simp

lemma sample_terms:
  "signed_terms (sample_hop (''0xBE'' @ concat (replicate 19 ''EF''))) = signed_terms (sample_hop ('' be'' @ concat (replicate 19 ''ef'')))"
  using sample_venue by (simp add: signed_terms_def sample_hop_def)

lemma sample_terms_exist: "map_option (\<lambda>t. 1) (signed_terms (sample_hop ('' be'' @ concat (replicate 19 ''ef'')))) = Some (1 :: nat)"
  by code_simp

lemma sealed_verifies:
  assumes "signed_terms (sample_hop venue) = Some t"
  shows "Verify sample_hash (sealed (sample_hop venue)) = None \<and> signed_terms (sealed (sample_hop venue)) = Some t
    \<and> vp_Digest (sealed (sample_hop venue)) = EncodeToString (terms_digest sample_hash t)"
proof -
  have plain: "trim0x (EncodeToString bs) = EncodeToString bs" for bs
  proof -
    have "CHR ''x'' \<notin> set (EncodeToString bs)" "CHR ''X'' \<notin> set (EncodeToString bs)"
      using EncodeToString_digits hex_plain by blast+
    then have "\<not> HasPrefix (EncodeToString bs) ''0x''" "\<not> HasPrefix (EncodeToString bs) ''0X''"
      unfolding HasPrefix_def using in_set_takeD by (metis list.set_intros(1,2))+
    then show ?thesis by (simp add: trim0x_def TrimPrefix_def)
  qed
  have "signed_terms (sealed (sample_hop venue)) = Some t"
    using assms by (simp add: sealed_def signed_terms_def sample_hop_def)
  moreover have "vp_ParamsHash (sealed (sample_hop venue)) = EncodeToString (sample_hash (params_text t))"
    "vp_Digest (sealed (sample_hop venue)) = EncodeToString (terms_digest sample_hash t)"
    "vp_Action (sealed (sample_hop venue)) = 11" "vp_Domain (sealed (sample_hop venue)) = vp_Domain (sample_hop venue)"
    using assms by (simp_all add: sealed_def) (simp_all add: sample_hop_def)
  ultimately show ?thesis
    by (simp add: Verify_terms plain sample_hop_def CosignActionTransferBetweenVenues_def)
qed

text \<open>The four texts have different lengths, so the sample hash is injective on them.\<close>

lemma sample_hash_inj:
  assumes "well_sized t"
  shows "inj_on sample_hash (hashed_texts sample_hash t)"
proof -
  have lens: "length (params_text t) = 256" "length (domain_text sample_hash t) = 160" "length (action_text sample_hash t) = 192"
    "length (final_text sample_hash t) = 66"
    using assms by (simp_all add: params_text_def domain_text_def action_text_def final_text_def digest_bytes_def address_word_def well_sized_def)
  have "(char_of (256::nat) :: char) \<noteq> char_of (160::nat)" "(char_of (256::nat) :: char) \<noteq> char_of (192::nat)"
    "(char_of (256::nat) :: char) \<noteq> char_of (66::nat)" "(char_of (160::nat) :: char) \<noteq> char_of (192::nat)"
    "(char_of (160::nat) :: char) \<noteq> char_of (66::nat)" "(char_of (192::nat) :: char) \<noteq> char_of (66::nat)"
    by (simp_all add: char_of_eq_iff)
  then have "length x = length y" if "hd (sample_hash x) = hd (sample_hash y)" "x \<in> hashed_texts sample_hash t" "y \<in> hashed_texts sample_hash t" for x y
    using that by (auto simp: hashed_texts_def sample_hash_def lens)
  moreover have "x = y" if "length x = length y" "x \<in> hashed_texts sample_hash t" "y \<in> hashed_texts sample_hash t" for x y
    using that lens by (auto simp: hashed_texts_def)
  ultimately show ?thesis by (intro inj_onI) metis
qed

theorem verified_digest_binds_the_hop_witness:
  "\<exists>t. signed_terms upper_hop = Some t \<and> signed_terms lower_hop = Some t"
proof -
  obtain t where t: "signed_terms (sample_hop (''0xBE'' @ concat (replicate 19 ''EF''))) = Some t"
    "signed_terms (sample_hop ('' be'' @ concat (replicate 19 ''ef''))) = Some t"
    using sample_terms sample_terms_exist by (metis map_option_eq_Some)
  note seal = sealed_verifies [OF t(1), folded upper_hop_def] sealed_verifies [OF t(2), folded lower_hop_def]
  have "int64 (cd_ChainID (vp_Domain (sealed (sample_hop v)))) \<and> int64 (vp_Deadline (sealed (sample_hop v)))" for v
    by (simp add: sealed_def sample_hop_def int64_def split: option.split)
  then have ints: "int64 (cd_ChainID (vp_Domain upper_hop))" "int64 (cd_ChainID (vp_Domain lower_hop))"
    "int64 (vp_Deadline upper_hop)" "int64 (vp_Deadline lower_hop)"
    unfolding upper_hop_def lower_hop_def by blast+
  have "vp_Action upper_hop = 11" using t(1) by (simp add: upper_hop_def sealed_def sample_hop_def)
  then have "well_sized t" using signed_terms_well_sized [of upper_hop t] seal(1) ints by simp
  then have "inj_on sample_hash (hashed_texts sample_hash t)" by (rule sample_hash_inj)
  then show ?thesis
    using verified_digest_binds_the_hop [of sample_hash upper_hop lower_hop] seal ints by (auto simp: hexEqual_def)
qed

text \<open>
  The digest ignores the sign of the deadline and of the chain id: \<^verbatim>\<open>FillBytes\<close> writes the absolute value.
\<close>

lemma Verify_ignores_deadline_sign: "Verify keccak (p\<lparr>vp_Deadline := - d\<rparr>) = Verify keccak (p\<lparr>vp_Deadline := d\<rparr>)"
  unfolding Verify_def OperatorActionDigest_def hop_action_def hop_params_def action_bytes_def abiUint_def
  by (cases p) (simp only: VenueHopProposal.simps OperatorAction.simps abs_minus_cancel)

text \<open>A signature is over the 32 bytes of a verified digest, and is the curve's with the recovery byte moved last.\<close>

lemma SignVenueHop_verified:
  assumes "SignVenueHop keccak signCompact key p = Inr sig"
  shows "Verify keccak p = None \<and> (\<exists>k d. decodeHex key = Inr k \<and> length k = 32 \<and> sized_hex 32 (vp_Digest p) = Some d
    \<and> decodeHex sig = Inr (rotate1 (signCompact k d)) \<and> length (signCompact k d) = 65)"
proof -
  have ok: "Verify keccak p = None" "SignCosignDigest signCompact key (vp_Digest p) = Inr sig"
    using assms by (auto simp: SignVenueHop_def split: option.splits)
  obtain k d where k: "decodeHex key = Inr k" "length k = 32" "sized_hex 32 (vp_Digest p) = Some d" "length (signCompact k d) = 65"
    "sig = ''0x'' @ EncodeToString (drop 1 (signCompact k d) @ [hd (signCompact k d)])"
    using ok(2) unfolding SignCosignDigest_def by (auto simp: abi_Inr Let_def split: if_splits)
  have "drop 1 (signCompact k d) @ [hd (signCompact k d)] = rotate1 (signCompact k d)"
    using k(4) by (cases "signCompact k d") auto
  moreover have "rotate1 (signCompact k d) \<noteq> []" using k(4) by (cases "signCompact k d") auto
  ultimately have "decodeHex sig = Inr (rotate1 (signCompact k d))" using k(5) decodeHex_prefixed by presburger
  then show ?thesis using ok(1) k by blast
qed

section \<open>Custody transactions\<close>

definition custodySelectors :: "gostring \<Rightarrow> gostring option" where
  "custodySelectors = map_of
     [(''lockBoundary(bytes32)'', ''0x67f82a1d''), (''unlockBoundary(bytes32)'', ''0x83a2f7cd''), (''withdraw(bytes32)'', ''0x8e19899e''),
      (''assignRecoveryKey(bytes32,address)'', ''0xf5b7e3a6''), (''setTimeLock(bytes32,uint256)'', ''0x3e41d187''),
      (''cancelPendingExit(bytes32)'', ''0x5e50fbe8''), (''recoveryWithdrawAccount(bytes32)'', ''0xba7b2fbd'')]"

definition leftPad :: "gostring \<Rightarrow> nat \<Rightarrow> gostring" where
  "leftPad s width = (if length s \<ge> width then s else replicate (width - length s) (CHR ''0'') @ s)"

text \<open>\<^verbatim>\<open>n.Text(16)\<close>.\<close>

fun hex_nat :: "nat \<Rightarrow> gostring" where
  "hex_nat n = (if n < 16 then [hex_digit n] else hex_nat (n div 16) @ [hex_digit n])"

declare hex_nat.simps [simp del]

definition Text16 :: "int \<Rightarrow> gostring" where
  "Text16 n = (if n < 0 then CHR ''-'' # hex_nat (nat (- n)) else hex_nat (nat n))"

definition abiEncodeParam :: "gostring \<Rightarrow> gostring + gostring" where
  "abiEncodeParam value =
     (if HasPrefix value ''0x'' \<and> length value = 66 then Inr (drop 2 value)
      else if HasPrefix value ''0x'' \<and> length value = 42 then Inr (leftPad (ToLower (drop 2 value)) 64)
      else (case parse_int10 value of
              None \<Rightarrow> Inl (''arca: cannot ABI-encode custody param '' @ quoted value
                           @ '' (expected bytes32/address hex or a decimal integer)'')
            | Some n \<Rightarrow> Inr (leftPad (Text16 n) 64)))"

fun encode_args :: "gostring list \<Rightarrow> gostring + gostring" where
  "encode_args [] = Inr []"
| "encode_args (arg # args) =
     (case abiEncodeParam arg of
        Inl e \<Rightarrow> Inl e
      | Inr enc \<Rightarrow> (case encode_args args of Inl e \<Rightarrow> Inl e | Inr rest \<Rightarrow> Inr (enc @ rest)))"

definition encodeCustodyCall :: "gostring \<Rightarrow> gostring list \<Rightarrow> gostring + gostring" where
  "encodeCustodyCall signature args =
     (case custodySelectors signature of
        None \<Rightarrow> Inl (''arca: unknown custody function: '' @ signature)
      | Some selector \<Rightarrow> map_sum (\<lambda>e. e) (\<lambda>enc. selector @ enc) (encode_args args))"

record PreparedCustodyTransaction =
  pc_To :: gostring
  pc_Data :: gostring
  pc_ChainID :: int
  pc_Value :: gostring

definition prepareCustody :: "gostring \<Rightarrow> int \<Rightarrow> gostring \<Rightarrow> gostring list \<Rightarrow> gostring + PreparedCustodyTransaction" where
  "prepareCustody contractAddress chainID signature args =
     map_sum (\<lambda>e. e) (\<lambda>d. \<lparr>pc_To = contractAddress, pc_Data = d, pc_ChainID = chainID, pc_Value = ''0''\<rparr>)
       (encodeCustodyCall signature args)"

definition PrepareLockBoundary :: "gostring \<Rightarrow> int \<Rightarrow> gostring \<Rightarrow> gostring + PreparedCustodyTransaction" where
  "PrepareLockBoundary addr chain boundaryID = prepareCustody addr chain ''lockBoundary(bytes32)'' [boundaryID]"

definition PrepareUnlockBoundary :: "gostring \<Rightarrow> int \<Rightarrow> gostring \<Rightarrow> gostring + PreparedCustodyTransaction" where
  "PrepareUnlockBoundary addr chain boundaryID = prepareCustody addr chain ''unlockBoundary(bytes32)'' [boundaryID]"

definition PrepareWithdraw :: "gostring \<Rightarrow> int \<Rightarrow> gostring \<Rightarrow> gostring + PreparedCustodyTransaction" where
  "PrepareWithdraw addr chain boundaryID = prepareCustody addr chain ''withdraw(bytes32)'' [boundaryID]"

definition PrepareAssignRecoveryKey :: "gostring \<Rightarrow> int \<Rightarrow> gostring \<Rightarrow> gostring \<Rightarrow> gostring + PreparedCustodyTransaction" where
  "PrepareAssignRecoveryKey addr chain boundaryID newRecoveryKey =
     prepareCustody addr chain ''assignRecoveryKey(bytes32,address)'' [boundaryID, newRecoveryKey]"

definition PrepareSetTimeLock :: "gostring \<Rightarrow> int \<Rightarrow> gostring \<Rightarrow> int \<Rightarrow> gostring + PreparedCustodyTransaction" where
  "PrepareSetTimeLock addr chain boundaryID durationSeconds =
     prepareCustody addr chain ''setTimeLock(bytes32,uint256)'' [boundaryID, show_int durationSeconds]"

definition PrepareCancelPendingExit :: "gostring \<Rightarrow> int \<Rightarrow> gostring \<Rightarrow> gostring + PreparedCustodyTransaction" where
  "PrepareCancelPendingExit addr chain boundaryID = prepareCustody addr chain ''cancelPendingExit(bytes32)'' [boundaryID]"

definition PrepareRecoveryWithdrawAccount :: "gostring \<Rightarrow> int \<Rightarrow> gostring \<Rightarrow> gostring + PreparedCustodyTransaction" where
  "PrepareRecoveryWithdrawAccount addr chain arcaID = prepareCustody addr chain ''recoveryWithdrawAccount(bytes32)'' [arcaID]"

section \<open>Checksummed addresses\<close>

text \<open>\<^verbatim>\<open>checksumAddress\<close>: a letter is in upper case when the hash's digit at its place is at least 8.\<close>

definition checksumAddress :: "hash \<Rightarrow> gostring \<Rightarrow> gostring" where
  "checksumAddress keccak addressHex =
     (let hash = EncodeToString (keccak addressHex) in
      ''0x'' @ map (\<lambda>(c, h).
          if (56 \<le> ascii h \<and> ascii h \<le> 57 \<or> 97 \<le> ascii h \<and> ascii h \<le> 102) \<and> 97 \<le> ascii c \<and> ascii c \<le> 102
          then upper_char c else c)
        (zip (take 40 addressHex) hash))"

subsection \<open>Lemmas\<close>

lemma ToLower_upper_char [simp]: "97 \<le> ascii c \<Longrightarrow> ascii c \<le> 102 \<Longrightarrow> lower_char (upper_char c) = lower_char c"
proof -
  assume c: "97 \<le> ascii c" "ascii c \<le> 102"
  then have "ascii (upper_char c) = ascii c - 32" by (simp add: upper_char_def ascii_def of_char_of)
  moreover have "(char_of (ascii c) :: char) = c" by (simp add: ascii_def)
  moreover have "65 \<le> ascii c - 32" "ascii c - 32 \<le> 90" using c by linarith+
  ultimately show ?thesis using c by (simp add: lower_char_def)
qed

text \<open>The checksum changes only the case: the address is the one that was given.\<close>

lemma checksumAddress_same:
  assumes "\<forall>x. length (keccak x) = 32" "length a = 40"
  shows "ToLower (drop 2 (checksumAddress keccak a)) = ToLower a \<and> length (checksumAddress keccak a) = 42"
proof -
  let ?h = "EncodeToString (keccak a)"
  have len: "length ?h = 64" using assms by simp
  have "map fst (zip a ?h) = a" using assms(2) len by (simp add: map_fst_zip_take)
  moreover have "ToLower (map (\<lambda>(c, h).
      if (56 \<le> ascii h \<and> ascii h \<le> 57 \<or> 97 \<le> ascii h \<and> ascii h \<le> 102) \<and> 97 \<le> ascii c \<and> ascii c \<le> 102
      then upper_char c else c) (zip a ?h)) = ToLower (map fst (zip a ?h))"
    unfolding ToLower_def map_map by (rule map_cong) auto
  ultimately show ?thesis using assms(2) len by (simp add: checksumAddress_def Let_def)
qed

text \<open>The word of a time lock: 64 digits for a duration that is not negative; a negative one is no word.\<close>

lemma hex_nat_digits: "set (hex_nat n) \<subseteq> set ''0123456789abcdef''"
  by (induction n rule: hex_nat.induct) (subst hex_nat.simps, use hex_digit_cases in auto)

lemma hex_nat_length: "n < 16 ^ k \<Longrightarrow> 0 < k \<Longrightarrow> length (hex_nat n) \<le> k"
proof (induction n arbitrary: k rule: hex_nat.induct)
  case (1 n)
  show ?case
  proof (cases "n < 16")
    case True
    then show ?thesis using 1 by (subst hex_nat.simps) simp
  next
    case False
    have k: "1 < k"
    proof (rule ccontr)
      assume "\<not> 1 < k"
      then have "k = 1" using "1.prems"(2) by simp
      then show False using "1.prems"(1) False by simp
    qed
    then have "n div 16 < 16 ^ (k - 1)"
      using "1.prems" power_minus_mult [of k "16::nat"] by (intro less_mult_imp_div_less) simp
    then have "length (hex_nat (n div 16)) \<le> k - 1" using "1.IH" [OF False] k by simp
    then show ?thesis using False k by (subst hex_nat.simps) simp
  qed
qed

lemma leftPad_length: "length s \<le> width \<Longrightarrow> length (leftPad s width) = width"
  by (simp add: leftPad_def)

lemma time_lock_word:
  assumes "int64 d"
  shows "abiEncodeParam (show_int d) = Inr (leftPad (Text16 d) 64) \<and> length (leftPad (Text16 d) 64) = 64
    \<and> (CHR ''-'' \<in> set (leftPad (Text16 d) 64) \<longleftrightarrow> d < 0)"
proof -
  have dash: "CHR ''-'' \<notin> set (hex_nat n)" for n using hex_nat_digits [of n] by auto
  have small: "nat (abs d) < 16 ^ 17" using assms by (auto simp: int64_def)
  then have "length (hex_nat (nat (abs d))) \<le> 17" by (rule hex_nat_length) simp
  then have "length (Text16 d) \<le> 64" by (auto simp: Text16_def split: if_splits)
  moreover have "\<not> HasPrefix (show_int d) ''0x''"
  proof
    assume "HasPrefix (show_int d) ''0x''"
    then have "parse_int10 (show_int d) = parse_int10 (''0x'' @ drop 2 (show_int d))"
      by (metis HasPrefix_def append_take_drop_id list.size(3,4) One_nat_def Suc_1 add.right_neutral add_Suc_right)
    moreover have "parse_int10 (''0x'' @ w) = None" for w by (simp add: parse_int10_def parse_digits_def is_digit_def ascii_def)
    ultimately have "parse_int10 (show_int d) = None" by (rule trans)
    then show False unfolding parse_int10_show_int by simp
  qed
  ultimately show ?thesis
    using dash by (auto simp: abiEncodeParam_def leftPad_length Text16_def leftPad_def)
qed

end
