(* ===== verification/Venue_Hops.thy ===== *)
theory Venue_Hops
  imports Sdk_Calls Cosign
begin

text \<open>
  Moving capital between exchange venues (\<^verbatim>\<open>venue_hop.go\<close>): the plain transfer, and on a co-signed boundary the proposal, its
  verification, the caller's signer and the submission.  The signer is an argument; it may change the
  state of the SDK's world.
\<close>

section \<open>Data\<close>

record TransferResponse =
  tr_Operation :: Operation
  tr_Fee :: "AmountDenomination option"

definition decode_TransferResponse :: "(gostring \<Rightarrow> jtext) \<Rightarrow> jfields \<Rightarrow> TransferResponse option" where
  "decode_TransferResponse parse fs =
     do {
       o1 \<leftarrow> struct_field (decode_Operation parse) ''operation'' fs;
       f \<leftarrow> structp_field decode_AmountDenomination ''fee'' fs;
       Some \<lparr>tr_Operation = o1, tr_Fee = f\<rparr>
     }"

definition decode_CosignDomain :: "jfields \<Rightarrow> CosignDomain option" where
  "decode_CosignDomain fs =
     do {
       n \<leftarrow> str_field ''name'' fs; v \<leftarrow> str_field ''version'' fs; c \<leftarrow> int_field ''chainId'' fs;
       k \<leftarrow> str_field ''verifyingContract'' fs;
       Some \<lparr>cd_Name = n, cd_Version = v, cd_ChainID = c, cd_VerifyingContract = k\<rparr>
     }"

text \<open>An 8-bit unsigned field.\<close>

definition uint8_field :: "gostring \<Rightarrow> jfields \<Rightarrow> nat option" where
  "uint8_field k fs =
     (if list_all (\<lambda>v. case v of JNum s \<Rightarrow> (case parse_digits s of Some n \<Rightarrow> n < 256 | None \<Rightarrow> False) | JNull \<Rightarrow> True | _ \<Rightarrow> False)
           (field_values k fs)
      then uint_field k fs else None)"

definition decode_VenueHopProposal :: "jfields \<Rightarrow> VenueHopProposal option" where
  "decode_VenueHopProposal fs =
     do {
       act \<leftarrow> uint8_field ''action'' fs; bid \<leftarrow> str_field ''boundaryId'' fs; bk \<leftarrow> str_field ''boundaryKey'' fs;
       tid \<leftarrow> str_field ''targetBoundaryId'' fs; tk \<leftarrow> str_field ''targetBoundaryKey'' fs;
       fv \<leftarrow> str_field ''fromVenue'' fs; tv \<leftarrow> str_field ''toVenue'' fs; acc \<leftarrow> str_field ''toVenueAccountKey'' fs;
       tok \<leftarrow> str_field ''token'' fs; dom \<leftarrow> struct_field decode_CosignDomain ''domain'' fs; am \<leftarrow> str_field ''amount'' fs;
       raw \<leftarrow> str_field ''amountRaw'' fs; rf \<leftarrow> str_field ''ref'' fs; nc \<leftarrow> str_field ''nonce'' fs;
       dl \<leftarrow> int_field ''deadline'' fs; ph \<leftarrow> str_field ''paramsHash'' fs; dg \<leftarrow> str_field ''digest'' fs;
       Some \<lparr>vp_Action = act, vp_BoundaryID = bid, vp_BoundaryKey = bk, vp_TargetBoundaryID = tid, vp_TargetBoundaryKey = tk,
             vp_FromVenue = fv, vp_ToVenue = tv, vp_ToVenueAccountKey = acc, vp_Token = tok, vp_Domain = dom, vp_Amount = am,
             vp_AmountRaw = raw, vp_Ref = rf, vp_Nonce = nc, vp_Deadline = dl, vp_ParamsHash = ph, vp_Digest = dg\<rparr>
     }"

record ProposeVenueHopOptions =
  pv_Path :: gostring
  pv_From :: gostring
  pv_To :: gostring
  pv_Amount :: gostring
  pv_Deadline :: int

record SubmitVenueHopOptions =
  sv_Path :: gostring
  sv_From :: gostring
  sv_To :: gostring
  sv_Amount :: gostring
  sv_Nonce :: gostring
  sv_Deadline :: int
  sv_Signature :: gostring
  sv_Ref :: gostring

record VenueHopResponse =
  vr_Operation :: Operation
  vr_BoundaryID :: gostring
  vr_TargetBoundaryID :: gostring

definition decode_VenueHopResponse :: "(gostring \<Rightarrow> jtext) \<Rightarrow> jfields \<Rightarrow> VenueHopResponse option" where
  "decode_VenueHopResponse parse fs =
     do {
       o1 \<leftarrow> struct_field (decode_Operation parse) ''operation'' fs; b \<leftarrow> str_field ''boundaryId'' fs;
       t \<leftarrow> str_field ''targetBoundaryId'' fs;
       Some \<lparr>vr_Operation = o1, vr_BoundaryID = b, vr_TargetBoundaryID = t\<rparr>
     }"

definition hop_op :: "VenueHopResponse \<Rightarrow> Operation option" where
  "hop_op r = Some (vr_Operation r)"

text \<open>A signer is given the digest and the proposal.\<close>

type_synonym 'w signer = "gostring \<Rightarrow> VenueHopProposal \<Rightarrow> 'w sdk \<Rightarrow> (error + gostring) \<times> 'w sdk"

record 'w HopVenuesOptions =
  hv_Path :: gostring
  hv_From :: gostring
  hv_To :: gostring
  hv_Amount :: gostring
  hv_Sign :: "'w signer option"
  hv_Deadline :: int

section \<open>Operations\<close>

definition propose_body :: "ProposeVenueHopOptions \<Rightarrow> jfields" where
  "propose_body opts =
     [(''path'', JStr (pv_Path opts)), (''sourceArcaPath'', JStr (pv_From opts)), (''targetArcaPath'', JStr (pv_To opts)),
      (''amount'', JStr (pv_Amount opts)), (''deadline'', jint (pv_Deadline opts))]"

definition ProposeVenueHop :: "'w sdk_env \<Rightarrow> ProposeVenueHopOptions \<Rightarrow> 'w sdk \<Rightarrow> (error + VenueHopProposal) \<times> 'w sdk" where
  "ProposeVenueHop env opts =
     sdk_bind (sdk_realm env) (\<lambda>rid.
       sdk_postQuery env ''/custody/venue-hops/propose'' [(''realmId'', rid)] (propose_body opts) decode_VenueHopProposal)"

definition submit_body :: "SubmitVenueHopOptions \<Rightarrow> jfields" where
  "submit_body opts =
     [(''path'', JStr (sv_Path opts)), (''sourceArcaPath'', JStr (sv_From opts)), (''targetArcaPath'', JStr (sv_To opts)),
      (''amount'', JStr (sv_Amount opts)), (''nonce'', JStr (sv_Nonce opts)), (''deadline'', jint (sv_Deadline opts)),
      (''signature'', JStr (sv_Signature opts))]
     @ opt_str ''ref'' (sv_Ref opts)"

definition submitVenueHop :: "'w sdk_env \<Rightarrow> SubmitVenueHopOptions \<Rightarrow> 'w sdk \<Rightarrow> (error + VenueHopResponse) \<times> 'w sdk" where
  "submitVenueHop env opts =
     sdk_bind (sdk_realm env) (\<lambda>rid.
       sdk_postQuery env ''/custody/venue-hops'' [(''realmId'', rid)] (submit_body opts) (decode_VenueHopResponse (sx_parse env)))"

definition SubmitVenueHop :: "'w sdk_env \<Rightarrow> SubmitVenueHopOptions \<Rightarrow> 'w sdk \<Rightarrow> (error + VenueHopResponse) \<times> 'w sdk" where
  "SubmitVenueHop env opts = sdk_op env (submitVenueHop env opts) hop_op"

definition transfer_body :: "gostring \<Rightarrow> 'w HopVenuesOptions \<Rightarrow> jfields" where
  "transfer_body realm opts =
     [(''realmId'', JStr realm), (''path'', JStr (hv_Path opts)), (''sourceArcaPath'', JStr (hv_From opts)),
      (''targetArcaPath'', JStr (hv_To opts)), (''amount'', JStr (hv_Amount opts))]"

definition plain_hop :: "'w sdk_env \<Rightarrow> 'w HopVenuesOptions \<Rightarrow> 'w sdk \<Rightarrow> (error + TransferResponse) \<times> 'w sdk" where
  "plain_hop env opts st =
     sdk_post env ''/transfer'' (transfer_body (currentRealmID st) opts) (decode_TransferResponse (sx_parse env)) st"

definition needs_cosign :: "error \<Rightarrow> bool" where
  "needs_cosign err = (case as_kind err of Some (CosignRequiredError c, _) \<Rightarrow> True | _ \<Rightarrow> False)"

text \<open>The verified proposal, as a call: the error of \<^verbatim>\<open>Verify\<close> is a plain one.\<close>

definition verified :: "hash \<Rightarrow> VenueHopProposal \<Rightarrow> 's \<Rightarrow> (error + unit) \<times> 's" where
  "verified keccak p = (case Verify keccak p of None \<Rightarrow> sdk_return () | Some e \<Rightarrow> sdk_fail (Plain e))"

definition signed_hop ::
    "'w sdk_env \<Rightarrow> hash \<Rightarrow> 'w HopVenuesOptions \<Rightarrow> 'w signer \<Rightarrow> 'w sdk \<Rightarrow> (error + VenueHopResponse) \<times> 'w sdk" where
  "signed_hop env keccak opts sign =
     sdk_bind (ProposeVenueHop env \<lparr>pv_Path = hv_Path opts, pv_From = hv_From opts, pv_To = hv_To opts,
                                    pv_Amount = hv_Amount opts, pv_Deadline = hv_Deadline opts\<rparr>) (\<lambda>proposal.
     sdk_bind (verified keccak proposal) (\<lambda>_.
     sdk_bind (sign (vp_Digest proposal) proposal) (\<lambda>signature.
       submitVenueHop env \<lparr>sv_Path = hv_Path opts, sv_From = hv_From opts, sv_To = hv_To opts, sv_Amount = hv_Amount opts,
         sv_Nonce = vp_Nonce proposal, sv_Deadline = vp_Deadline proposal, sv_Signature = signature, sv_Ref = vp_Ref proposal\<rparr>)))"

definition hop_call :: "'w sdk_env \<Rightarrow> hash \<Rightarrow> 'w HopVenuesOptions \<Rightarrow> 'w sdk \<Rightarrow> (error + VenueHopResponse) \<times> 'w sdk" where
  "hop_call env keccak opts st =
     (case plain_hop env opts st of
        (Inr plain, st1) \<Rightarrow> (Inr \<lparr>vr_Operation = tr_Operation plain, vr_BoundaryID = [], vr_TargetBoundaryID = []\<rparr>, st1)
      | (Inl err, st1) \<Rightarrow>
          (case hv_Sign opts of
             None \<Rightarrow> (Inl err, st1)
           | Some sign \<Rightarrow> if \<not> needs_cosign err then (Inl err, st1) else signed_hop env keccak opts sign st1))"

definition HopVenues :: "'w sdk_env \<Rightarrow> hash \<Rightarrow> 'w HopVenuesOptions \<Rightarrow> 'w sdk \<Rightarrow> (error + VenueHopResponse) \<times> 'w sdk" where
  "HopVenues env keccak opts = sdk_op env (hop_call env keccak opts) hop_op"

section \<open>Lemmas\<close>

text \<open>The requests of a step that may change something.\<close>

definition writes :: "api_request list \<Rightarrow> 'w sdk \<Rightarrow> 'w sdk \<Rightarrow> bool" where
  "writes ms st st' \<longleftrightarrow> (\<exists>qs. made qs st st' \<and> filter (\<lambda>q. aq_Method q \<noteq> GET) qs = ms)"

lemma writes_none: "sd_calls st' = sd_calls st \<Longrightarrow> writes [] st st'"
  unfolding writes_def made_def by (rule exI [of _ "[]"]) simp

lemma writes_trans: "writes ms st st1 \<Longrightarrow> writes ns st1 st2 \<Longrightarrow> writes (ms @ ns) st st2"
  unfolding writes_def using made_trans by (metis filter_append)

lemma writes_ready: "sdk_ready env st = (r, st') \<Longrightarrow> writes [] st st'"
  using reads_ready [of env st r st'] unfolding reads_def makes_def writes_def
  by (metis (mono_tags, lifting) filter_False list_all_iff)

lemma writes_realm: "sdk_realm env st = (r, st') \<Longrightarrow> writes [] st st'"
  unfolding sdk_realm_def sdk_bind_def by (auto split: prod.splits sum.splits dest: writes_ready)

lemma writes_request: "sdk_request env q dec st = (r, st') \<Longrightarrow> aq_Method q \<noteq> GET \<Longrightarrow> writes [q] st st'"
  unfolding writes_def by (rule exI [of _ "[q]"]) (auto dest: sdk_request_made)

text \<open>The three requests of a hop.\<close>

definition hop_request :: "gostring \<Rightarrow> query \<Rightarrow> jfields \<Rightarrow> api_request" where
  "hop_request path params body = \<lparr>aq_Method = POST, aq_Path = path, aq_Query = params, aq_Body = Some (JObj body)\<rparr>"

lemma writes_post: "sdk_post env path body dec st = (r, st') \<Longrightarrow> writes [hop_request path [] body] st st'"
  unfolding sdk_post_def hop_request_def by (rule writes_request) simp_all

lemma writes_postQuery: "sdk_postQuery env path params body dec st = (r, st') \<Longrightarrow> writes [hop_request path params body] st st'"
  unfolding sdk_postQuery_def hop_request_def by (rule writes_request) simp_all

lemma realm_post_writes:
  assumes "sdk_bind (sdk_realm env) (\<lambda>rid. sdk_postQuery env path [(''realmId'', rid)] body dec) st = (r, st')"
  shows "(writes [] st st' \<and> (\<exists>e. r = Inl e)) \<or> (\<exists>rid. writes [hop_request path [(''realmId'', rid)] body] st st')"
proof -
  obtain x st1 where x: "sdk_realm env st = (x, st1)" by force
  show ?thesis
  proof (cases x)
    case (Inl e)
    then have "r = Inl e" "st' = st1" using assms x by (auto simp: sdk_bind_def)
    then show ?thesis using writes_realm [OF x] by blast
  next
    case (Inr rid)
    then have "sdk_postQuery env path [(''realmId'', rid)] body dec st1 = (r, st')" using assms x by (simp add: sdk_bind_def)
    from writes_trans [OF writes_realm [OF x] writes_postQuery [OF this]] show ?thesis by auto
  qed
qed

definition hop_submission :: "'w HopVenuesOptions \<Rightarrow> VenueHopProposal \<Rightarrow> gostring \<Rightarrow> jfields" where
  "hop_submission opts p sig =
     submit_body \<lparr>sv_Path = hv_Path opts, sv_From = hv_From opts, sv_To = hv_To opts, sv_Amount = hv_Amount opts,
       sv_Nonce = vp_Nonce p, sv_Deadline = vp_Deadline p, sv_Signature = sig, sv_Ref = vp_Ref p\<rparr>"

definition hop_proposal :: "'w HopVenuesOptions \<Rightarrow> jfields" where
  "hop_proposal opts =
     propose_body \<lparr>pv_Path = hv_Path opts, pv_From = hv_From opts, pv_To = hv_To opts, pv_Amount = hv_Amount opts,
       pv_Deadline = hv_Deadline opts\<rparr>"

text \<open>What a co-signed hop sends after the refused transfer.\<close>

definition cosigned :: "hash \<Rightarrow> 'w HopVenuesOptions \<Rightarrow> 'w signer \<Rightarrow> api_request list \<Rightarrow> bool" where
  "cosigned keccak opts sign ms \<longleftrightarrow>
     ms = []
     \<or> (\<exists>rid. ms = [hop_request ''/custody/venue-hops/propose'' [(''realmId'', rid)] (hop_proposal opts)])
     \<or> (\<exists>rid rid' p sig st1 st2. Verify keccak p = None \<and> sign (vp_Digest p) p st1 = (Inr sig, st2)
          \<and> ms = [hop_request ''/custody/venue-hops/propose'' [(''realmId'', rid)] (hop_proposal opts),
                  hop_request ''/custody/venue-hops'' [(''realmId'', rid')] (hop_submission opts p sig)])"

lemma signed_hop_writes:
  assumes run: "signed_hop env keccak opts sign st = (r, st')"
    and quiet: "\<And>d p st. sd_calls (snd (sign d p st)) = sd_calls st"
  shows "\<exists>ms. writes ms st st' \<and> cosigned keccak opts sign ms \<and> ((\<exists>v. r = Inr v) \<longrightarrow> length ms = 2)"
proof -
  obtain x st1 where propose: "ProposeVenueHop env \<lparr>pv_Path = hv_Path opts, pv_From = hv_From opts, pv_To = hv_To opts,
      pv_Amount = hv_Amount opts, pv_Deadline = hv_Deadline opts\<rparr> st = (x, st1)" by force
  from realm_post_writes [OF propose [unfolded ProposeVenueHop_def]]
  have one: "writes [] st st1 \<and> (\<exists>e. x = Inl e)
      \<or> (\<exists>rid. writes [hop_request ''/custody/venue-hops/propose'' [(''realmId'', rid)] (hop_proposal opts)] st st1)"
    by (simp add: hop_proposal_def)
  show ?thesis
  proof (cases x)
    case (Inl e)
    then have "r = Inl e" "st' = st1" using run propose by (auto simp: signed_hop_def sdk_bind_def)
    then show ?thesis using one unfolding cosigned_def by blast
  next
    case (Inr p)
    then obtain rid where rid: "writes [hop_request ''/custody/venue-hops/propose'' [(''realmId'', rid)] (hop_proposal opts)] st st1"
      using one by auto
    obtain y st2 where y: "sign (vp_Digest p) p st1 = (y, st2)" by force
    have q: "writes [] st1 st2" using quiet [of "vp_Digest p" p st1] y by (intro writes_none) simp
    show ?thesis
    proof (cases "Verify keccak p = None \<and> (\<exists>sig. y = Inr sig)")
      case False
      then have "(\<exists>e. r = Inl e) \<and> (st' = st1 \<or> st' = st2)"
        using run propose Inr y by (auto simp: signed_hop_def sdk_bind_def verified_def sdk_return_def sdk_fail_def split: option.splits sum.splits)
      then show ?thesis using rid writes_trans [OF rid q] unfolding cosigned_def by auto
    next
      case True
      then obtain sig where sig: "Verify keccak p = None" "y = Inr sig" by blast
      have "submitVenueHop env \<lparr>sv_Path = hv_Path opts, sv_From = hv_From opts, sv_To = hv_To opts, sv_Amount = hv_Amount opts,
          sv_Nonce = vp_Nonce p, sv_Deadline = vp_Deadline p, sv_Signature = sig, sv_Ref = vp_Ref p\<rparr> st2 = (r, st')"
        using run propose Inr y sig by (simp add: signed_hop_def sdk_bind_def verified_def sdk_return_def)
      from realm_post_writes [OF this [unfolded submitVenueHop_def]]
      have two: "writes [] st2 st' \<and> (\<exists>e. r = Inl e)
          \<or> (\<exists>rid. writes [hop_request ''/custody/venue-hops'' [(''realmId'', rid)] (hop_submission opts p sig)] st2 st')"
        by (simp add: hop_submission_def)
      from two writes_trans [OF writes_trans [OF rid q]] y sig show ?thesis unfolding cosigned_def by fastforce
    qed
  qed
qed

lemma signed_hop_cong:
  assumes "\<And>p st. Verify keccak p = None \<Longrightarrow> s (vp_Digest p) p st = s' (vp_Digest p) p st"
  shows "signed_hop env keccak opts s = signed_hop env keccak opts s'"
proof -
  have "sdk_bind (verified keccak p) (\<lambda>_. sdk_bind (s (vp_Digest p) p) k) = sdk_bind (verified keccak p) (\<lambda>_. sdk_bind (s' (vp_Digest p) p) k)"
    for p and k :: "gostring \<Rightarrow> 'a sdk \<Rightarrow> (error + VenueHopResponse) \<times> 'a sdk"
    using assms [of p] by (cases "Verify keccak p") (auto simp: verified_def fun_eq_iff sdk_bind_def sdk_return_def sdk_fail_def)
  then show ?thesis by (simp add: signed_hop_def)
qed

text \<open>
  The proposal is compared with itself only: any verified proposal is signed, whatever hop the options ask for.
\<close>

lemma any_verified_proposal_is_signed:
  assumes "ProposeVenueHop env \<lparr>pv_Path = hv_Path opts, pv_From = hv_From opts, pv_To = hv_To opts,
      pv_Amount = hv_Amount opts, pv_Deadline = hv_Deadline opts\<rparr> st = (Inr p, st1)"
    and "Verify keccak p = None" and "sign (vp_Digest p) p st1 = (Inr sig, st2)"
  shows "signed_hop env keccak opts sign st = submitVenueHop env \<lparr>sv_Path = hv_Path opts, sv_From = hv_From opts, sv_To = hv_To opts,
      sv_Amount = hv_Amount opts, sv_Nonce = vp_Nonce p, sv_Deadline = vp_Deadline p, sv_Signature = sig, sv_Ref = vp_Ref p\<rparr> st2"
  using assms by (simp add: signed_hop_def sdk_bind_def verified_def sdk_return_def)

section \<open>Properties\<close>

text \<open>C34: A venue hop makes at most one transfer, one proposal and one submission, in this order.  The proposal is asked for only
  when the transfer was refused for a missing co-signature and there is a signer; the submission carries the signature
  the signer gave for the digest of a proposal that verified, and that proposal's nonce, deadline and reference.
  The signer is used on verified proposals only: another one that agrees on these changes nothing.\<close>

theorem venue_hop_signs_only_what_it_verified:
  assumes run: "HopVenues env keccak opts st = (r, st')" and sign: "hv_Sign opts = Some s"
    and quiet: "\<forall>d p st. sd_calls (snd (s d p st)) = sd_calls st"
    and agree: "\<forall>p st. Verify keccak p = None \<longrightarrow> s (vp_Digest p) p st = s' (vp_Digest p) p st"
  shows "(\<exists>ms. writes ms st st' \<and> ((\<exists>v. r = Inr v) \<longrightarrow> length ms = 1 \<or> length ms = 3) \<and>
       (ms = [] \<or> (\<exists>realm rest. ms = hop_request ''/transfer'' [] (transfer_body realm opts) # rest \<and>
          (rest = [] \<or> (\<exists>err st1 st2. plain_hop env opts st1 = (Inl err, st2) \<and> needs_cosign err \<and> cosigned keccak opts s rest)))))
     \<and> HopVenues env keccak (opts\<lparr>hv_Sign := Some s'\<rparr>) st = (r, st')"
proof
  obtain x st1 where ready: "sdk_ready env st = (x, st1)" by force
  note w1 = writes_ready [OF ready]
  show "\<exists>ms. writes ms st st' \<and> ((\<exists>v. r = Inr v) \<longrightarrow> length ms = 1 \<or> length ms = 3) \<and>
       (ms = [] \<or> (\<exists>realm rest. ms = hop_request ''/transfer'' [] (transfer_body realm opts) # rest \<and>
          (rest = [] \<or> (\<exists>err st1 st2. plain_hop env opts st1 = (Inl err, st2) \<and> needs_cosign err \<and> cosigned keccak opts s rest))))"
  proof (cases x)
    case (Inl e)
    then have "r = Inl e" "st' = st1" using run ready by (auto simp: HopVenues_def sdk_op_def sdk_bind_def)
    then show ?thesis using w1 by blast
  next
    case (Inr u)
    obtain y st2 where call: "hop_call env keccak opts st1 = (y, st2)" by force
    have st': "st' = st2" "(\<exists>v. r = Inr v) \<longrightarrow> (\<exists>v. y = Inr v)"
      using run ready Inr call refuse_failed_keeps
      by (auto simp: HopVenues_def sdk_op_def sdk_bind_def split: sum.splits)
    obtain z st3 where plain: "plain_hop env opts st1 = (z, st3)" by force
    let ?transfer = "hop_request ''/transfer'' [] (transfer_body (currentRealmID st1) opts)"
    have w2: "writes [?transfer] st st3"
      using writes_trans [OF w1 writes_post [OF plain [unfolded plain_hop_def]]] by simp
    show ?thesis
    proof (cases "\<exists>err. z = Inl err \<and> needs_cosign err")
      case False
      then have "st2 = st3" using call plain sign by (auto simp: hop_call_def split: sum.splits if_splits)
      then show ?thesis using w2 st' by (intro exI [of _ "[?transfer]"]) auto
    next
      case True
      then obtain err where err: "z = Inl err" "needs_cosign err" by blast
      then have "signed_hop env keccak opts s st3 = (y, st2)" using call plain sign by (simp add: hop_call_def)
      from signed_hop_writes [OF this] quiet obtain ms where
        ms: "writes ms st3 st2" "cosigned keccak opts s ms" "(\<exists>v. y = Inr v) \<longrightarrow> length ms = 2" by blast
      have "writes (?transfer # ms) st st'" using writes_trans [OF w2 ms(1)] st'(1) by simp
      moreover have "\<exists>err st1 st2. plain_hop env opts st1 = (Inl err, st2) \<and> needs_cosign err \<and> cosigned keccak opts s ms"
        using ms(2) plain err by blast
      moreover have "(\<exists>v. r = Inr v) \<longrightarrow> length (?transfer # ms) = 1 \<or> length (?transfer # ms) = 3" using ms(3) st'(2) by auto
      ultimately show ?thesis by blast
    qed
  qed
  have "signed_hop env keccak (opts\<lparr>hv_Sign := v\<rparr>) = signed_hop env keccak opts" for v
    by (simp add: signed_hop_def fun_eq_iff)
  moreover have "plain_hop env (opts\<lparr>hv_Sign := v\<rparr>) = plain_hop env opts" for v
    by (simp add: plain_hop_def transfer_body_def fun_eq_iff)
  moreover have "signed_hop env keccak opts s = signed_hop env keccak opts s'"
    by (rule signed_hop_cong) (use agree in blast)
  ultimately have "hop_call env keccak (opts\<lparr>hv_Sign := Some s'\<rparr>) = hop_call env keccak opts"
    using sign by (simp add: hop_call_def fun_eq_iff split: prod.split sum.split)
  then show "HopVenues env keccak (opts\<lparr>hv_Sign := Some s'\<rparr>) st = (r, st')" using run by (simp add: HopVenues_def)
qed

text \<open>A boundary that asks for a co-signature and a proposal that does not verify.\<close>

definition cosign_refusal :: http_response where
  "cosign_refusal = \<lparr>hr_Status = 412, hr_Body = Inr ([], JText (JObj [(''success'', JBool False),
     (''error'', JObj [(''code'', JStr ''COSIGN_REQUIRED''), (''message'', JStr ''m''),
        (''details'', JObj [(''boundaryId'', JStr ''b'')])])]))\<rparr>"

definition eager_signer :: "'w signer" where "eager_signer d p st = (Inr ''0x00'', st)"

definition careful_signer :: "'w signer" where
  "careful_signer d p st = (if Verify sample_hash p = None then (Inr ''0x00'', st) else (Inl (Plain ''refused''), st))"

definition hop_options :: "http_response list HopVenuesOptions" where
  "hop_options = \<lparr>hv_Path = ''/h'', hv_From = ''/a'', hv_To = ''/b'', hv_Amount = ''5'', hv_Sign = Some eager_signer, hv_Deadline = 0\<rparr>"

lemma hop_run:
  "map (\<lambda>q. (aq_Path q, aq_Method q = GET)) (sd_calls (snd (HopVenues scripted_sdk sample_hash hop_options (sdk_with [cosign_refusal, success []]))))
     = [(''/transfer'', False), (''/custody/venue-hops/propose'', False)]"
  by code_simp

theorem venue_hop_signs_only_what_it_verified_witness:
  "\<exists>ms. writes ms (sdk_with [cosign_refusal, success []])
       (snd (HopVenues scripted_sdk sample_hash (hop_options\<lparr>hv_Sign := Some careful_signer\<rparr>) (sdk_with [cosign_refusal, success []])))
     \<and> map aq_Path ms = [''/transfer'', ''/custody/venue-hops/propose'']
     \<and> (\<exists>realm rest. ms = hop_request ''/transfer'' [] (transfer_body realm hop_options) # rest \<and> rest \<noteq> [])"
proof -
  let ?st = "sdk_with [cosign_refusal, success []]"
  obtain r st' where run: "HopVenues scripted_sdk sample_hash hop_options ?st = (r, st')" by force
  have "hv_Sign hop_options = Some eager_signer" by (simp add: hop_options_def)
  moreover have "\<forall>d p st. sd_calls (snd (eager_signer d p st)) = sd_calls st" by (simp add: eager_signer_def)
  moreover have "\<forall>p st. Verify sample_hash p = None \<longrightarrow> eager_signer (vp_Digest p) p st = careful_signer (vp_Digest p) p st"
    by (simp add: eager_signer_def careful_signer_def)
  ultimately obtain ms where ms: "writes ms ?st st'"
    "ms = [] \<or> (\<exists>realm rest. ms = hop_request ''/transfer'' [] (transfer_body realm hop_options) # rest)"
    and same: "HopVenues scripted_sdk sample_hash (hop_options\<lparr>hv_Sign := Some careful_signer\<rparr>) ?st = (r, st')"
    using venue_hop_signs_only_what_it_verified [OF run, of eager_signer careful_signer] by blast
  have log: "map (\<lambda>q. (aq_Path q, aq_Method q = GET)) (sd_calls st') = [(''/transfer'', False), (''/custody/venue-hops/propose'', False)]"
    using hop_run run by simp
  have "ms = filter (\<lambda>q. aq_Method q \<noteq> GET) (sd_calls st')"
    using ms(1) by (auto simp: writes_def made_def sdk_with_def)
  then have paths: "map aq_Path ms = [''/transfer'', ''/custody/venue-hops/propose'']" using log by auto
  then have "\<exists>realm rest. ms = hop_request ''/transfer'' [] (transfer_body realm hop_options) # rest \<and> rest \<noteq> []"
    using ms(2) by auto
  then show ?thesis using ms(1) paths same by (metis snd_conv)
qed

end
