(* ===== verification/Ws_Requests.thy ===== *)
theory Ws_Requests
  imports Subscriptions Api_Errors
begin

text \<open>
  The requests a client makes over the web socket and waits for (\<^verbatim>\<open>websocket.go\<close>): snapshots of a path, projection and
  aggregation watches, the confirmation of event types, chart history watches.  Each takes a fresh id, enters
  a table of pending requests with a channel of one place, sends its frame now or after the next authentication, and
  waits for the reply, a lost connection, its context or a timer.  A critical section is one step; the
  server, the connection and the clock are the events.  Whether a reply unmarshals into the struct of its kind
  is an argument.
\<close>

section \<open>State\<close>

datatype request_kind = PathSnapshot | ProjectionRequest | AggregationWatch | EventTypes | ChartHistory

text \<open>The channel of one place; a lost connection closes it.\<close>

datatype reply_channel = Empty | Holding jtext | Closed

text \<open>
  Where a call is: its id is registered, and its deferred frame when it installs that first; it has read the connection's
  status; it waits in its select; it has returned.
\<close>

datatype call_phase = Begun | Decided bool | Waiting | Returned "error + jtext option"

record ws_call =
  wc_kind :: request_kind
  wc_phase :: call_phase
  wc_channel :: reply_channel

record ws_table =
  wt_next :: nat
  wt_connected :: bool
  wt_pending :: "gostring list"
  wt_calls :: "gostring \<rightharpoonup> ws_call"
  wt_deferred :: "gostring list"
  wt_charts :: "gostring list"
  wt_sent :: "gostring list"
  wt_replies :: "(gostring \<times> jtext) list"

definition no_requests :: ws_table where
  "no_requests = \<lparr>wt_next = 0, wt_connected = False, wt_pending = [], wt_calls = (\<lambda>i. None), wt_deferred = [], wt_charts = [],
     wt_sent = [], wt_replies = []\<rparr>"

section \<open>Verdicts\<close>

definition ws_error :: "gostring \<Rightarrow> gostring \<Rightarrow> error" where
  "ws_error code message = Arca BaseError (newArcaError code message [])"

definition ws_disconnected :: error where
  "ws_disconnected = ws_error ''WS_DISCONNECTED'' ''websocket disconnected''"

definition timeout_error :: "request_kind \<Rightarrow> error" where
  "timeout_error k = ws_error ''WS_TIMEOUT''
     (case k of
        PathSnapshot \<Rightarrow> ''timeout waiting for watch snapshot''
      | ProjectionRequest \<Rightarrow> ''timeout waiting for the projection watch reply''
      | AggregationWatch \<Rightarrow> ''timeout creating aggregation watch''
      | EventTypes \<Rightarrow> ''timeout waiting for events_subscribed''
      | ChartHistory \<Rightarrow> ''timeout creating chart history watch'')"

text \<open>The head of a reply: its type and message.\<close>

definition decode_head :: "jtext \<Rightarrow> (gostring \<times> gostring) option" where
  "decode_head raw =
     do { fs \<leftarrow> text_fields raw; t \<leftarrow> str_field ''type'' fs; msg \<leftarrow> str_field ''message'' fs; Some (t, msg) }"

text \<open>What a received value means; \<^const>\<open>None\<close> is a closed channel.\<close>

definition checked_reply :: "(request_kind \<Rightarrow> jtext \<Rightarrow> bool) \<Rightarrow> request_kind \<Rightarrow> jtext \<Rightarrow> error + jtext option" where
  "checked_reply unmarshals k raw =
     (case decode_head raw of
        None \<Rightarrow> Inl (Plain ''json'')
      | Some (t, msg) \<Rightarrow>
          if t = ''error'' then Inl (ws_error ''WS_ERROR'' msg)
          else if k = EventTypes \<or> unmarshals k raw then Inr (Some raw) else Inl (Plain ''json''))"

fun received :: "(request_kind \<Rightarrow> jtext \<Rightarrow> bool) \<Rightarrow> request_kind \<Rightarrow> jtext option \<Rightarrow> error + jtext option" where
  "received unmarshals ChartHistory m = Inr m"
| "received unmarshals k None = Inl ws_disconnected"
| "received unmarshals AggregationWatch (Some raw) = (if unmarshals AggregationWatch raw then Inr (Some raw) else Inl (Plain ''json''))"
| "received unmarshals k (Some raw) = checked_reply unmarshals k raw"

section \<open>Operations\<close>

definition newRequestID :: "ws_table \<Rightarrow> gostring \<times> ws_table" where
  "newRequestID t = (show_nat (wt_next t + 1), t\<lparr>wt_next := wt_next t + 1\<rparr>)"

definition id_prefix :: "request_kind \<Rightarrow> gostring" where
  "id_prefix k = (case k of PathSnapshot \<Rightarrow> ''watch-'' | ProjectionRequest \<Rightarrow> ''proj-'' | AggregationWatch \<Rightarrow> []
     | EventTypes \<Rightarrow> ''events-'' | ChartHistory \<Rightarrow> ''chart-'')"

text \<open>These install the deferred frame before they look at the connection, and take it back on every return.\<close>

definition defers_first :: "request_kind \<Rightarrow> bool" where
  "defers_first k \<longleftrightarrow> k = PathSnapshot \<or> k = EventTypes"

text \<open>These leave their entry in the table when they give up.\<close>

definition leaves_pending :: "request_kind \<Rightarrow> bool" where
  "leaves_pending k \<longleftrightarrow> k = AggregationWatch \<or> k = ChartHistory"

definition put_call :: "gostring \<Rightarrow> ws_call \<Rightarrow> ws_table \<Rightarrow> ws_table" where
  "put_call i c t = t\<lparr>wt_calls := (wt_calls t)(i \<mapsto> c)\<rparr>"

text \<open>\<^verbatim>\<open>recoverPathReady\<close> and \<^verbatim>\<open>confirmEventTypes\<close> start only for what is owned.\<close>

definition recover_guard :: "refs \<Rightarrow> gostring \<Rightarrow> error option" where
  "recover_guard pathRefs path =
     (if ref_get pathRefs path > 0 then None
      else Some (ws_error ''WATCH_NOT_OWNED'' ''recovery requires an owned path watch''))"

definition confirm_guard :: "refs \<Rightarrow> gostring list \<Rightarrow> error option" where
  "confirm_guard eventTypeSubs types =
     (if list_ex (\<lambda>t. ref_get eventTypeSubs t = 0) types
      then Some (ws_error ''EVENTS_NOT_OWNED'' ''confirmation requires owned event types'') else None)"

text \<open>The beginning of a call: the id, the chart's own id and entry, the pending entry, the deferred frame.\<close>

definition begin_request :: "request_kind \<Rightarrow> ws_table \<Rightarrow> ws_table" where
  "begin_request k t =
     (let (n, t) = newRequestID t; i = id_prefix k @ n;
          t = (if k = ChartHistory then (let (n, t) = newRequestID t in t\<lparr>wt_charts := (id_prefix k @ n) # wt_charts t\<rparr>) else t);
          t = t\<lparr>wt_pending := i # wt_pending t\<rparr>;
          t = (if defers_first k then t\<lparr>wt_deferred := wt_deferred t @ [i]\<rparr> else t) in
      put_call i \<lparr>wc_kind = k, wc_phase = Begun, wc_channel = Empty\<rparr> t)"

definition decide_request :: "gostring \<Rightarrow> ws_call \<Rightarrow> ws_table \<Rightarrow> ws_table" where
  "decide_request i c t = put_call i (c\<lparr>wc_phase := Decided (wt_connected t)\<rparr>) t"

text \<open>
  Connected: the frame is sent, and a deferred one withdrawn; otherwise it is (or stays) deferred.  The kinds that defer
  first do not send once their context is done (\<^verbatim>\<open>live\<close>).
\<close>

definition transmit_request :: "gostring \<Rightarrow> ws_call \<Rightarrow> bool \<Rightarrow> bool \<Rightarrow> ws_table \<Rightarrow> ws_table" where
  "transmit_request i c up live t =
     (let t = put_call i (c\<lparr>wc_phase := Waiting\<rparr>) t in
      if up then
        (let t = (if defers_first (wc_kind c) then t\<lparr>wt_deferred := removeAll i (wt_deferred t)\<rparr> else t) in
         if live \<or> \<not> defers_first (wc_kind c) then t\<lparr>wt_sent := wt_sent t @ [i]\<rparr> else t)
      else if defers_first (wc_kind c) then t else t\<lparr>wt_deferred := wt_deferred t @ [i]\<rparr>)"

text \<open>Authentication runs the deferred frames, but for those whose context is done.\<close>

definition withheld :: "gostring list \<Rightarrow> ws_table \<Rightarrow> gostring \<Rightarrow> bool" where
  "withheld dead t i \<longleftrightarrow> i \<in> set dead \<and> (case wt_calls t i of Some c \<Rightarrow> defers_first (wc_kind c) | None \<Rightarrow> False)"

definition authenticated :: "gostring list \<Rightarrow> ws_table \<Rightarrow> ws_table" where
  "authenticated dead t =
     t\<lparr>wt_connected := True, wt_deferred := [], wt_sent := wt_sent t @ filter (\<lambda>i. \<not> withheld dead t i) (wt_deferred t)\<rparr>"

definition resolve_reply :: "gostring \<Rightarrow> jtext \<Rightarrow> ws_table \<Rightarrow> ws_table" where
  "resolve_reply i raw t =
     (if i \<notin> set (wt_pending t) then t
      else (case wt_calls t i of
              None \<Rightarrow> t
            | Some c \<Rightarrow> put_call i (c\<lparr>wc_channel := Holding raw\<rparr>)
                          (t\<lparr>wt_pending := removeAll i (wt_pending t), wt_replies := wt_replies t @ [(i, raw)]\<rparr>)))"

definition close_channel :: "ws_call \<Rightarrow> ws_call" where
  "close_channel c = c\<lparr>wc_channel := Closed\<rparr>"

text \<open>The loss of the connection: \<^verbatim>\<open>rejectPendingLocked\<close>.\<close>

definition reject_pending :: "ws_table \<Rightarrow> ws_table" where
  "reject_pending t =
     t\<lparr>wt_connected := False, wt_pending := [],
       wt_calls := (\<lambda>i. if i \<in> set (wt_pending t) then map_option close_channel (wt_calls t i) else wt_calls t i)\<rparr>"

text \<open>The deferred cleanup of a return.\<close>

definition return_request :: "gostring \<Rightarrow> ws_call \<Rightarrow> error + jtext option \<Rightarrow> ws_table \<Rightarrow> ws_table" where
  "return_request i c r t =
     (let t = put_call i (c\<lparr>wc_phase := Returned r\<rparr>) t in
      if defers_first (wc_kind c)
      then t\<lparr>wt_deferred := removeAll i (wt_deferred t), wt_pending := removeAll i (wt_pending t)\<rparr> else t)"

text \<open>The context or the timer.\<close>

definition give_up :: "gostring \<Rightarrow> ws_call \<Rightarrow> error \<Rightarrow> gostring \<Rightarrow> ws_table \<Rightarrow> ws_table" where
  "give_up i c e chart t =
     (let t = return_request i c (Inl e) t in
      if wc_kind c = ProjectionRequest then t\<lparr>wt_pending := removeAll i (wt_pending t)\<rparr>
      else if wc_kind c = ChartHistory then t\<lparr>wt_charts := removeAll chart (wt_charts t)\<rparr> else t)"

datatype ws_event =
    Begin request_kind
  | Decide gostring
  | Transmit gostring bool
  | Authenticated "gostring list"
  | Answer gostring jtext
  | Lost
  | Receive gostring
  | ContextDone gostring gostring gostring
  | TimerFires gostring gostring

fun ws_step :: "(request_kind \<Rightarrow> jtext \<Rightarrow> bool) \<Rightarrow> ws_event \<Rightarrow> ws_table \<Rightarrow> ws_table option" where
  "ws_step u (Begin k) t = Some (begin_request k t)"
| "ws_step u (Decide i) t =
     (case wt_calls t i of Some c \<Rightarrow> if wc_phase c = Begun then Some (decide_request i c t) else None | None \<Rightarrow> None)"
| "ws_step u (Transmit i live) t =
     (case wt_calls t i of
        Some c \<Rightarrow> (case wc_phase c of Decided up \<Rightarrow> Some (transmit_request i c up live t) | _ \<Rightarrow> None)
      | None \<Rightarrow> None)"
| "ws_step u (Authenticated dead) t = Some (authenticated dead t)"
| "ws_step u (Answer i raw) t = Some (resolve_reply i raw t)"
| "ws_step u Lost t = Some (reject_pending t)"
| "ws_step u (Receive i) t =
     (case wt_calls t i of
        Some c \<Rightarrow>
          if wc_phase c \<noteq> Waiting then None
          else (case wc_channel c of
                  Empty \<Rightarrow> None
                | Holding raw \<Rightarrow> Some (return_request i c (received u (wc_kind c) (Some raw)) t)
                | Closed \<Rightarrow> Some (return_request i c (received u (wc_kind c) None) t))
      | None \<Rightarrow> None)"
| "ws_step u (ContextDone i chart e) t =
     (case wt_calls t i of
        Some c \<Rightarrow> if wc_phase c = Waiting then Some (give_up i c (CtxError e) chart t) else None
      | None \<Rightarrow> None)"
| "ws_step u (TimerFires i chart) t =
     (case wt_calls t i of
        Some c \<Rightarrow> if wc_phase c = Waiting then Some (give_up i c (timeout_error (wc_kind c)) chart t) else None
      | None \<Rightarrow> None)"

inductive ws_reach :: "(request_kind \<Rightarrow> jtext \<Rightarrow> bool) \<Rightarrow> ws_table \<Rightarrow> bool" for u where
  init: "ws_reach u no_requests"
| step: "ws_reach u t \<Longrightarrow> ws_step u e t = Some t' \<Longrightarrow> ws_reach u t'"

fun ws_run :: "(request_kind \<Rightarrow> jtext \<Rightarrow> bool) \<Rightarrow> ws_event list \<Rightarrow> ws_table \<Rightarrow> ws_table option" where
  "ws_run u [] t = Some t"
| "ws_run u (e # es) t = Option.bind (ws_step u e t) (ws_run u es)"

section \<open>Invariants\<close>

text \<open>Ids: a kind's prefix and a number not above the counter.\<close>

definition id_of :: "request_kind \<Rightarrow> nat \<Rightarrow> gostring" where
  "id_of k n = id_prefix k @ show_nat n"

lemma id_of_number: "id_of k n = id_of k' n' \<Longrightarrow> n = n'"
proof -
  have digits: "rev (takeWhile is_digit (rev (id_of k n))) = show_nat n" for k n
  proof -
    have all: "\<And>c. c \<in> set (rev (show_nat n)) \<Longrightarrow> is_digit c" using show_nat_digits [of n] by (simp add: list_all_iff)
    have "takeWhile is_digit (rev (id_prefix k)) = []"
      by (cases k) (simp_all add: id_prefix_def is_digit_def ascii_def)
    then have "takeWhile is_digit (rev (show_nat n) @ rev (id_prefix k)) = rev (show_nat n)"
      using all by (subst takeWhile_append2) auto
    then show ?thesis by (simp add: id_of_def)
  qed
  assume "id_of k n = id_of k' n'"
  then have "show_nat n = show_nat n'" using digits by metis
  then show ?thesis by (metis nat_of_digits_show_nat)
qed

definition ws_inv :: "(request_kind \<Rightarrow> jtext \<Rightarrow> bool) \<Rightarrow> ws_table \<Rightarrow> bool" where
  "ws_inv u t \<longleftrightarrow>
     (\<forall>i c. wt_calls t i = Some c \<longrightarrow> (\<exists>k n. i = id_of k n \<and> n \<le> wt_next t))
     \<and> (\<forall>i \<in> set (wt_pending t). \<exists>c. wt_calls t i = Some c \<and> wc_channel c = Empty
          \<and> ((\<exists>r. wc_phase c = Returned r) \<longrightarrow> leaves_pending (wc_kind c)))
     \<and> distinct (map fst (wt_replies t))
     \<and> (\<forall>i raw. (i, raw) \<in> set (wt_replies t) \<longrightarrow> (\<exists>c. wt_calls t i = Some c \<and> wc_channel c = Holding raw))
     \<and> (\<forall>i c raw. wt_calls t i = Some c \<longrightarrow> wc_channel c = Holding raw \<longrightarrow> (i, raw) \<in> set (wt_replies t))
     \<and> (\<forall>i c m. wt_calls t i = Some c \<longrightarrow> wc_phase c = Returned (Inr m) \<longrightarrow>
          (m = None \<and> wc_kind c = ChartHistory \<and> wc_channel c = Closed
           \<or> (\<exists>raw. m = Some raw \<and> wc_channel c = Holding raw \<and> received u (wc_kind c) (Some raw) = Inr (Some raw))))"

lemmas ws_invI = ws_inv_def [THEN iffD2, OF conjI, OF _ conjI, OF _ _ conjI, OF _ _ _ conjI, OF _ _ _ _ conjI]

lemma ws_invD:
  assumes "ws_inv u t"
  shows "wt_calls t i = Some c \<Longrightarrow> \<exists>k n. i = id_of k n \<and> n \<le> wt_next t"
    "i \<in> set (wt_pending t) \<Longrightarrow> \<exists>c. wt_calls t i = Some c \<and> wc_channel c = Empty \<and> ((\<exists>r. wc_phase c = Returned r) \<longrightarrow> leaves_pending (wc_kind c))"
    "distinct (map fst (wt_replies t))"
    "(i, raw) \<in> set (wt_replies t) \<Longrightarrow> \<exists>c. wt_calls t i = Some c \<and> wc_channel c = Holding raw"
    "wt_calls t i = Some c \<Longrightarrow> wc_channel c = Holding raw \<Longrightarrow> (i, raw) \<in> set (wt_replies t)"
    "wt_calls t i = Some c \<Longrightarrow> wc_phase c = Returned (Inr m) \<Longrightarrow>
       m = None \<and> wc_kind c = ChartHistory \<and> wc_channel c = Closed
       \<or> (\<exists>raw. m = Some raw \<and> wc_channel c = Holding raw \<and> received u (wc_kind c) (Some raw) = Inr (Some raw))"
  using assms unfolding ws_inv_def by blast+

text \<open>A step that keeps the calls, the pending ids and the replies.\<close>

lemma ws_inv_cong:
  "ws_inv u t \<Longrightarrow> wt_calls t' = wt_calls t \<Longrightarrow> wt_pending t' = wt_pending t \<Longrightarrow> wt_replies t' = wt_replies t \<Longrightarrow> wt_next t' = wt_next t
     \<Longrightarrow> ws_inv u t'"
  by (simp add: ws_inv_def)

lemma received_Inr: "received u k m = Inr r \<Longrightarrow> r = m \<and> (m = None \<longrightarrow> k = ChartHistory)"
  by (cases k; cases m) (auto simp: checked_reply_def split: option.splits if_splits)

text \<open>A new phase for a call, with the same channel; a return leaves the table unless the kind stays.\<close>

lemma ws_inv_phase:
  assumes inv: "ws_inv u t" and c: "wt_calls t i = Some c"
    and ok: "\<And>m. p = Returned (Inr m) \<Longrightarrow> m = None \<and> wc_kind c = ChartHistory \<and> wc_channel c = Closed
       \<or> (\<exists>raw. m = Some raw \<and> wc_channel c = Holding raw \<and> received u (wc_kind c) (Some raw) = Inr (Some raw))"
    and calls: "wt_calls t' = (wt_calls t)(i \<mapsto> c\<lparr>wc_phase := p\<rparr>)" and replies: "wt_replies t' = wt_replies t"
    and pend: "set (wt_pending t') \<subseteq> set (wt_pending t)"
    and gone: "(\<exists>r. p = Returned r) \<Longrightarrow> i \<in> set (wt_pending t') \<Longrightarrow> leaves_pending (wc_kind c)"
    and n: "wt_next t \<le> wt_next t'"
  shows "ws_inv u t'"
proof (rule ws_invI)
  note D = ws_invD [OF inv]
  show "\<forall>j d. wt_calls t' j = Some d \<longrightarrow> (\<exists>k n. j = id_of k n \<and> n \<le> wt_next t')"
  proof (intro allI impI)
    fix j d assume "wt_calls t' j = Some d"
    then obtain d' where "wt_calls t j = Some d'" using c by (auto simp: calls split: if_splits)
    then obtain k m where "j = id_of k m" "m \<le> wt_next t" using D(1) by blast
    then show "\<exists>k n. j = id_of k n \<and> n \<le> wt_next t'" using n order_trans by blast
  qed
  show "\<forall>j \<in> set (wt_pending t'). \<exists>d. wt_calls t' j = Some d \<and> wc_channel d = Empty
      \<and> ((\<exists>r. wc_phase d = Returned r) \<longrightarrow> leaves_pending (wc_kind d))"
  proof
    fix j assume j: "j \<in> set (wt_pending t')"
    then obtain d where d: "wt_calls t j = Some d" "wc_channel d = Empty" "(\<exists>r. wc_phase d = Returned r) \<longrightarrow> leaves_pending (wc_kind d)"
      using D(2) pend by blast
    show "\<exists>d. wt_calls t' j = Some d \<and> wc_channel d = Empty \<and> ((\<exists>r. wc_phase d = Returned r) \<longrightarrow> leaves_pending (wc_kind d))"
      using d c j gone by (cases "j = i") (auto simp: calls)
  qed
  show "distinct (map fst (wt_replies t'))" using D(3) by (simp add: replies)
  show "\<forall>j raw. (j, raw) \<in> set (wt_replies t') \<longrightarrow> (\<exists>d. wt_calls t' j = Some d \<and> wc_channel d = Holding raw)"
    using D(4) c by (fastforce simp: replies calls)
  show "\<forall>j d raw. wt_calls t' j = Some d \<longrightarrow> wc_channel d = Holding raw \<longrightarrow> (j, raw) \<in> set (wt_replies t')"
    using D(5) c by (auto simp: replies calls split: if_splits)
  show "\<forall>j d m. wt_calls t' j = Some d \<longrightarrow> wc_phase d = Returned (Inr m) \<longrightarrow>
      m = None \<and> wc_kind d = ChartHistory \<and> wc_channel d = Closed
      \<or> (\<exists>raw. m = Some raw \<and> wc_channel d = Holding raw \<and> received u (wc_kind d) (Some raw) = Inr (Some raw))"
    using D(6) ok unfolding calls by (auto split: if_splits)
qed

lemma return_request_simps [simp]:
  "wt_calls (return_request i c r t) = (wt_calls t)(i \<mapsto> c\<lparr>wc_phase := Returned r\<rparr>)"
  "wt_replies (return_request i c r t) = wt_replies t" "wt_next (return_request i c r t) = wt_next t"
  "set (wt_pending (return_request i c r t)) = set (wt_pending t) - (if defers_first (wc_kind c) then {i} else {})"
  by (simp_all add: return_request_def put_call_def Let_def)

lemma give_up_simps [simp]:
  "wt_calls (give_up i c e chart t) = (wt_calls t)(i \<mapsto> c\<lparr>wc_phase := Returned (Inl e)\<rparr>)"
  "wt_replies (give_up i c e chart t) = wt_replies t" "wt_next (give_up i c e chart t) = wt_next t"
  "set (wt_pending (give_up i c e chart t)) = set (wt_pending t) - (if leaves_pending (wc_kind c) then {} else {i})"
  by (cases "wc_kind c"; auto simp: give_up_def Let_def leaves_pending_def defers_first_def)+

lemma ws_inv_begin:
  assumes inv: "ws_inv u t"
  shows "ws_inv u (begin_request k t)"
proof -
  note D = ws_invD [OF inv]
  let ?i = "id_of k (wt_next t + 1)" and ?t = "begin_request k t"
  have new: "wt_calls t ?i = None"
  proof (rule ccontr)
    assume "wt_calls t ?i \<noteq> None"
    then obtain k' n where "?i = id_of k' n" "n \<le> wt_next t" using D(1) by blast
    then show False using id_of_number by fastforce
  qed
  have calls: "wt_calls ?t = (wt_calls t)(?i \<mapsto> \<lparr>wc_kind = k, wc_phase = Begun, wc_channel = Empty\<rparr>)"
    and rest: "set (wt_pending ?t) = insert ?i (set (wt_pending t))" "wt_replies ?t = wt_replies t"
      "wt_next t + 1 \<le> wt_next ?t"
    by (simp_all add: begin_request_def newRequestID_def Let_def put_call_def id_of_def)
  have fresh: "(?i, raw) \<notin> set (wt_replies t)" for raw using D(4) new by fastforce
  show ?thesis
  proof (rule ws_invI)
    show "\<forall>j d. wt_calls ?t j = Some d \<longrightarrow> (\<exists>k n. j = id_of k n \<and> n \<le> wt_next ?t)"
      using D(1) rest(3) unfolding calls by (metis add_leD1 fun_upd_apply order_trans)
    show "\<forall>j \<in> set (wt_pending ?t). \<exists>d. wt_calls ?t j = Some d \<and> wc_channel d = Empty
        \<and> ((\<exists>r. wc_phase d = Returned r) \<longrightarrow> leaves_pending (wc_kind d))"
      using D(2) unfolding calls rest(1) by auto
    show "distinct (map fst (wt_replies ?t))" using D(3) by (simp add: rest(2))
    show "\<forall>j raw. (j, raw) \<in> set (wt_replies ?t) \<longrightarrow> (\<exists>d. wt_calls ?t j = Some d \<and> wc_channel d = Holding raw)"
      using D(4) fresh by (auto simp: rest(2) calls)
    show "\<forall>j d raw. wt_calls ?t j = Some d \<longrightarrow> wc_channel d = Holding raw \<longrightarrow> (j, raw) \<in> set (wt_replies ?t)"
      using D(5) by (auto simp: rest(2) calls split: if_splits)
    show "\<forall>j d m. wt_calls ?t j = Some d \<longrightarrow> wc_phase d = Returned (Inr m) \<longrightarrow>
        m = None \<and> wc_kind d = ChartHistory \<and> wc_channel d = Closed
        \<or> (\<exists>raw. m = Some raw \<and> wc_channel d = Holding raw \<and> received u (wc_kind d) (Some raw) = Inr (Some raw))"
      using D(6) by (auto simp: calls split: if_splits)
  qed
qed

lemma ws_inv_reply:
  assumes inv: "ws_inv u t"
  shows "ws_inv u (resolve_reply i raw t)"
proof (cases "i \<in> set (wt_pending t)")
  case False
  then show ?thesis using inv by (simp add: resolve_reply_def)
next
  case True
  note D = ws_invD [OF inv]
  obtain c where c: "wt_calls t i = Some c" "wc_channel c = Empty" "(\<exists>r. wc_phase c = Returned r) \<longrightarrow> leaves_pending (wc_kind c)"
    using D(2) True by blast
  let ?t = "resolve_reply i raw t"
  have t: "wt_calls ?t = (wt_calls t)(i \<mapsto> c\<lparr>wc_channel := Holding raw\<rparr>)" "set (wt_pending ?t) = set (wt_pending t) - {i}"
    "wt_replies ?t = wt_replies t @ [(i, raw)]" "wt_next ?t = wt_next t"
    using True c by (simp_all add: resolve_reply_def put_call_def)
  have none: "(i, raw') \<notin> set (wt_replies t)" for raw' using D(4) c by fastforce
  show ?thesis
  proof (rule ws_invI)
    show "\<forall>j d. wt_calls ?t j = Some d \<longrightarrow> (\<exists>k n. j = id_of k n \<and> n \<le> wt_next ?t)"
      using D(1) c(1) unfolding t by (metis fun_upd_apply)
    show "\<forall>j \<in> set (wt_pending ?t). \<exists>d. wt_calls ?t j = Some d \<and> wc_channel d = Empty
        \<and> ((\<exists>r. wc_phase d = Returned r) \<longrightarrow> leaves_pending (wc_kind d))"
      using D(2) unfolding t by auto
    show "distinct (map fst (wt_replies ?t))" using D(3) none by (auto simp: t)
    show "\<forall>j raw'. (j, raw') \<in> set (wt_replies ?t) \<longrightarrow> (\<exists>d. wt_calls ?t j = Some d \<and> wc_channel d = Holding raw')"
      using D(4) none by (auto simp: t)
    show "\<forall>j d raw'. wt_calls ?t j = Some d \<longrightarrow> wc_channel d = Holding raw' \<longrightarrow> (j, raw') \<in> set (wt_replies ?t)"
      using D(5) by (auto simp: t split: if_splits)
    show "\<forall>j d m. wt_calls ?t j = Some d \<longrightarrow> wc_phase d = Returned (Inr m) \<longrightarrow>
        m = None \<and> wc_kind d = ChartHistory \<and> wc_channel d = Closed
        \<or> (\<exists>raw. m = Some raw \<and> wc_channel d = Holding raw \<and> received u (wc_kind d) (Some raw) = Inr (Some raw))"
      using D(6) c by (fastforce simp: t split: if_splits)
  qed
qed

lemma ws_inv_lost:
  assumes inv: "ws_inv u t"
  shows "ws_inv u (reject_pending t)"
proof -
  note D = ws_invD [OF inv]
  let ?t = "reject_pending t"
  have call: "(\<exists>c. wt_calls t j = Some c \<and> d = (if j \<in> set (wt_pending t) then close_channel c else c))"
    if "wt_calls ?t j = Some d" for j d using that by (auto simp: reject_pending_def split: if_splits)
  have empty: "wc_channel c = Empty" if "wt_calls t j = Some c" "j \<in> set (wt_pending t)" for j c
    using D(2) [OF that(2)] that(1) by auto
  have t: "wt_pending ?t = []" "wt_replies ?t = wt_replies t" "wt_next ?t = wt_next t" by (simp_all add: reject_pending_def)
  show ?thesis
  proof (rule ws_invI)
    show "\<forall>j d. wt_calls ?t j = Some d \<longrightarrow> (\<exists>k n. j = id_of k n \<and> n \<le> wt_next ?t)"
      using D(1) call unfolding t by blast
    show "\<forall>j raw. (j, raw) \<in> set (wt_replies ?t) \<longrightarrow> (\<exists>d. wt_calls ?t j = Some d \<and> wc_channel d = Holding raw)"
    proof (intro allI impI)
      fix j raw assume "(j, raw) \<in> set (wt_replies ?t)"
      then obtain c where c: "wt_calls t j = Some c" "wc_channel c = Holding raw" using D(4) t(2) by auto
      then have "j \<notin> set (wt_pending t)" using empty by fastforce
      then show "\<exists>d. wt_calls ?t j = Some d \<and> wc_channel d = Holding raw" using c by (simp add: reject_pending_def)
    qed
    show "\<forall>j d raw. wt_calls ?t j = Some d \<longrightarrow> wc_channel d = Holding raw \<longrightarrow> (j, raw) \<in> set (wt_replies ?t)"
    proof (intro allI impI)
      fix j d raw assume d: "wt_calls ?t j = Some d" "wc_channel d = Holding raw"
      then obtain c where "wt_calls t j = Some c" "d = c" using call [OF d(1)] by (auto simp: close_channel_def split: if_splits)
      then show "(j, raw) \<in> set (wt_replies ?t)" using D(5) d(2) t(2) by simp
    qed
    show "\<forall>j d m. wt_calls ?t j = Some d \<longrightarrow> wc_phase d = Returned (Inr m) \<longrightarrow>
        m = None \<and> wc_kind d = ChartHistory \<and> wc_channel d = Closed
        \<or> (\<exists>raw. m = Some raw \<and> wc_channel d = Holding raw \<and> received u (wc_kind d) (Some raw) = Inr (Some raw))"
    proof (intro allI impI)
      fix j d m assume d: "wt_calls ?t j = Some d" "wc_phase d = Returned (Inr m)"
      then obtain c where c: "wt_calls t j = Some c" "d = (if j \<in> set (wt_pending t) then close_channel c else c)" using call by blast
      then have "wc_phase c = Returned (Inr m)" using d(2) by (auto simp: close_channel_def split: if_splits)
      from D(6) [OF c(1) this] have "wc_channel c \<noteq> Empty" by auto
      then have "d = c" using empty c by auto
      then show "m = None \<and> wc_kind d = ChartHistory \<and> wc_channel d = Closed
          \<or> (\<exists>raw. m = Some raw \<and> wc_channel d = Holding raw \<and> received u (wc_kind d) (Some raw) = Inr (Some raw))"
        using D(6) [OF c(1)] d(2) by simp
    qed
  qed (use D(3) in \<open>simp_all add: t\<close>)
qed

lemma ws_inv_return:
  assumes inv: "ws_inv u t" and c: "wt_calls t i = Some c" "wc_phase c = Waiting" and m: "(case m of None \<Rightarrow> wc_channel c = Closed | Some raw \<Rightarrow> wc_channel c = Holding raw)"
  shows "ws_inv u (return_request i c (received u (wc_kind c) m) t)"
proof (rule ws_inv_phase [OF inv c(1), of "Returned (received u (wc_kind c) m)"])
  fix r assume "Returned (received u (wc_kind c) m) = Returned (Inr r)"
  then have r: "received u (wc_kind c) m = Inr r" by simp
  then show "r = None \<and> wc_kind c = ChartHistory \<and> wc_channel c = Closed
      \<or> (\<exists>raw. r = Some raw \<and> wc_channel c = Holding raw \<and> received u (wc_kind c) (Some raw) = Inr (Some raw))"
    using received_Inr [OF r] m by (cases m) auto
next
  assume "i \<in> set (wt_pending (return_request i c (received u (wc_kind c) m) t))"
  then have "i \<in> set (wt_pending t)" by simp
  then have "wc_channel c = Empty" using ws_invD(2) [OF inv] c(1) by fastforce
  then show "leaves_pending (wc_kind c)" using m by (simp split: option.splits)
qed auto

lemma ws_inv_step:
  assumes inv: "ws_inv u t" and step: "ws_step u e t = Some t'"
  shows "ws_inv u t'"
proof (cases e)
  case (Begin k)
  then show ?thesis using step ws_inv_begin [OF inv, of k] by simp
next
  case (Decide i)
  then obtain c where c: "wt_calls t i = Some c" "t' = decide_request i c t" using step by (auto split: option.splits if_splits)
  show ?thesis
    by (rule ws_inv_phase [OF inv c(1), of "Decided (wt_connected t)"]) (use c(2) in \<open>auto simp: decide_request_def put_call_def\<close>)
next
  case (Transmit i live)
  then obtain c up where c: "wt_calls t i = Some c" "t' = transmit_request i c up live t"
    using step by (auto split: option.splits call_phase.splits)
  show ?thesis
    by (rule ws_inv_phase [OF inv c(1), of Waiting]) (use c(2) in \<open>auto simp: transmit_request_def put_call_def Let_def\<close>)
next
  case (Authenticated dead)
  then show ?thesis using step by (intro ws_inv_cong [OF inv]) (auto simp: authenticated_def)
next
  case (Answer i raw)
  then show ?thesis using step ws_inv_reply [OF inv, of i raw] by simp
next
  case Lost
  then show ?thesis using step ws_inv_lost [OF inv] by simp
next
  case (Receive i)
  then obtain c where c: "wt_calls t i = Some c" "wc_phase c = Waiting"
    and t': "(\<exists>raw. wc_channel c = Holding raw \<and> t' = return_request i c (received u (wc_kind c) (Some raw)) t)
      \<or> wc_channel c = Closed \<and> t' = return_request i c (received u (wc_kind c) None) t"
    using step by (auto split: option.splits if_splits reply_channel.splits)
  from t' show ?thesis
    using ws_inv_return [OF inv c, of None] ws_inv_return [OF inv c, of "Some raw" for raw] by auto
next
  case (ContextDone i chart x)
  then obtain c where c: "wt_calls t i = Some c" "t' = give_up i c (CtxError x) chart t" using step by (auto split: option.splits if_splits)
  show ?thesis
    by (rule ws_inv_phase [OF inv c(1), of "Returned (Inl (CtxError x))"]) (use c(2) in \<open>auto split: if_splits\<close>)
next
  case (TimerFires i chart)
  then obtain c where c: "wt_calls t i = Some c" "t' = give_up i c (timeout_error (wc_kind c)) chart t" using step by (auto split: option.splits if_splits)
  show ?thesis
    by (rule ws_inv_phase [OF inv c(1), of "Returned (Inl (timeout_error (wc_kind c)))"]) (use c(2) in \<open>auto split: if_splits\<close>)
qed

lemma ws_reach_inv: "ws_reach u t \<Longrightarrow> ws_inv u t"
proof (induction rule: ws_reach.induct)
  case init
  show ?case by (simp add: ws_inv_def no_requests_def)
qed (rule ws_inv_step)

lemma ws_run_reach: "ws_run u es t = Some t' \<Longrightarrow> ws_reach u t \<Longrightarrow> ws_reach u t'"
  by (induction es arbitrary: t) (auto split: bind_splits intro: ws_reach.step)

section \<open>Properties\<close>

text \<open>C35: A web socket request is answered by its own reply or not at all.  Each id is answered at most once, and only a
  pending one, whose channel is empty, so handing the reply over never blocks the reader; a call that returns a value returns
  the reply that carried its id, decoded by its kind's rule, except that a chart watch also succeeds on a lost connection.
  A call that returned is pending no more, unless an aggregation or chart watch gave up.\<close>

theorem ws_requests_get_their_own_reply:
  assumes "ws_reach u t"
  shows "distinct (map fst (wt_replies t))
    \<and> (\<forall>i \<in> set (wt_pending t). \<exists>c. wt_calls t i = Some c \<and> wc_channel c = Empty \<and> i \<notin> fst ` set (wt_replies t))
    \<and> (\<forall>i c r. wt_calls t i = Some c \<longrightarrow> wc_phase c = Returned r \<longrightarrow>
         (i \<in> set (wt_pending t) \<longrightarrow> leaves_pending (wc_kind c) \<and> (\<exists>e. r = Inl e))
         \<and> (\<forall>m. r = Inr m \<longrightarrow> m = None \<and> wc_kind c = ChartHistory
              \<or> (\<exists>raw. m = Some raw \<and> (i, raw) \<in> set (wt_replies t) \<and> received u (wc_kind c) (Some raw) = Inr (Some raw))))"
proof (intro conjI ballI allI impI)
  note D = ws_invD [OF ws_reach_inv [OF assms]]
  show "distinct (map fst (wt_replies t))" by (rule D(3))
  fix i
  show "\<exists>c. wt_calls t i = Some c \<and> wc_channel c = Empty \<and> i \<notin> fst ` set (wt_replies t)" if p: "i \<in> set (wt_pending t)"
    using D(2) [OF p] D(4) by fastforce
  fix c r assume c: "wt_calls t i = Some c" "wc_phase c = Returned r"
  show "leaves_pending (wc_kind c)" if p: "i \<in> set (wt_pending t)" using D(2) [OF p] c by auto
  show "\<exists>e. r = Inl e" if p: "i \<in> set (wt_pending t)" using D(2) [OF p] D(6) [OF c(1)] c by (cases r) auto
  show "m = None \<and> wc_kind c = ChartHistory
      \<or> (\<exists>raw. m = Some raw \<and> (i, raw) \<in> set (wt_replies t) \<and> received u (wc_kind c) (Some raw) = Inr (Some raw))" if "r = Inr m" for m
    using D(6) [OF c(1)] D(5) [OF c(1)] c(2) that by auto
qed

definition acknowledged_text :: jtext where
  "acknowledged_text = JText (JObj [(''type'', JStr ''events_subscribed'')])"

definition sample_events :: "ws_event list" where
  "sample_events = [Begin EventTypes, Decide ''events-1'', Authenticated [], Transmit ''events-1'' True, Begin AggregationWatch,
     Answer ''events-1'' acknowledged_text, Answer ''events-1'' JBad, Receive ''events-1'']"

lemma sample_events_run:
  "map_option (\<lambda>t. (wt_pending t, wt_replies t, map_option wc_phase (wt_calls t ''events-1''), wt_sent t))
     (ws_run (\<lambda>k raw. True) sample_events no_requests)
     = Some ([''2''], [(''events-1'', acknowledged_text)], Some (Returned (Inr (Some acknowledged_text))), [''events-1''])"
  by code_simp

theorem ws_requests_get_their_own_reply_witness:
  "\<exists>t c. ws_run (\<lambda>k raw. True) sample_events no_requests = Some t \<and> wt_calls t ''events-1'' = Some c
     \<and> wc_phase c = Returned (Inr (Some acknowledged_text)) \<and> (''events-1'', acknowledged_text) \<in> set (wt_replies t)
     \<and> ''events-1'' \<notin> set (wt_pending t)"
proof -
  obtain t where t: "ws_run (\<lambda>k raw. True) sample_events no_requests = Some t" using sample_events_run by auto
  obtain c where c: "wt_calls t ''events-1'' = Some c" "wc_phase c = Returned (Inr (Some acknowledged_text))"
    using sample_events_run t by auto
  have "ws_reach (\<lambda>k raw. True) t" using ws_run_reach [OF t] ws_reach.init by blast
  note own = ws_requests_get_their_own_reply [OF this, THEN conjunct2, THEN conjunct2, rule_format, OF c]
  have "(''events-1'', acknowledged_text) \<in> set (wt_replies t)" "''events-1'' \<notin> set (wt_pending t)"
    using own by auto
  then show ?thesis using t c by blast
qed

section \<open>What the requests do not check\<close>

text \<open>An error reply to the creation of an aggregation watch is taken for a success.\<close>

lemma aggregation_error_is_success:
  "u AggregationWatch raw \<Longrightarrow> decode_head raw = Some (''error'', msg) \<Longrightarrow> received u AggregationWatch (Some raw) = Inr (Some raw)
     \<and> received u ProjectionRequest (Some raw) = Inl (ws_error ''WS_ERROR'' msg)"
  by (simp add: checked_reply_def)

text \<open>A chart history watch succeeds when the connection is lost, or on any reply.\<close>

lemma chart_watch_always_succeeds: "received u ChartHistory m = Inr m"
  by simp

text \<open>An aggregation watch that gave up stays in the table of pending requests.\<close>

lemma abandoned_aggregation_stays_pending:
  "map_option wt_pending (ws_run u [Begin AggregationWatch, Decide ''1'', Transmit ''1'' True, TimerFires ''1'' []] no_requests) = Some [''1'']"
  by (simp add: begin_request_def newRequestID_def id_prefix_def Let_def put_call_def decide_request_def transmit_request_def give_up_def
      return_request_def no_requests_def defers_first_def show_nat.simps digit_char_def char_of_def bit_simps)

text \<open>A projection watch that gave up before the connection was authenticated is still created by its deferred frame.\<close>

lemma abandoned_projection_is_sent:
  "map_option (\<lambda>t. (wt_pending t, wt_sent t))
     (ws_run (\<lambda>k raw. True) [Begin ProjectionRequest, Decide ''proj-1'', Transmit ''proj-1'' True, TimerFires ''proj-1'' [], Authenticated []] no_requests)
     = Some ([], [''proj-1''])"
  by code_simp

end
