(* ===== verification/Quiescence.thy ===== *)
theory Quiescence
  imports Sdk_Calls
begin

text \<open>
  Waiting until a realm has no pending operation (\<^verbatim>\<open>operations.go\<close>, \<^verbatim>\<open>WaitForQuiescence\<close>) as a step machine: the listeners that
  queue operations, the confirmed subscription, the paginated seed, the collection of the queue, the count and
  the select.  An operation is kept with its \<^verbatim>\<open>UpdatedAt\<close>.  The pages, the events and the context are the environment.
\<close>

section \<open>Listing operations\<close>

record ListOperationsOptions =
  lo_Type :: gostring
  lo_Types :: "gostring list"
  lo_ArcaPath :: gostring
  lo_ArcaID :: gostring
  lo_Path :: gostring
  lo_IncludeContext :: bool
  lo_Limit :: int
  lo_Cursor :: gostring

type_synonym stamped = "Operation \<times> gostring"

record OperationListResponse =
  pg_Operations :: "stamped list"
  pg_Total :: int
  pg_NextCursor :: gostring

definition joinOpTypes :: "gostring list \<Rightarrow> gostring" where
  "joinOpTypes types = Join '','' types"

definition list_params :: "gostring \<Rightarrow> ListOperationsOptions option \<Rightarrow> query" where
  "list_params rid opts =
     (''realmId'', rid) #
     (case opts of
        None \<Rightarrow> []
      | Some q \<Rightarrow>
          (if lo_Types q \<noteq> [] then [(''types'', joinOpTypes (lo_Types q))] else str_param ''type'' (lo_Type q))
          @ str_param ''arcaPath'' (lo_ArcaPath q) @ str_param ''arcaId'' (lo_ArcaID q) @ str_param ''path'' (lo_Path q)
          @ true_param ''includeContext'' (lo_IncludeContext q) @ pos_param ''limit'' (lo_Limit q) @ str_param ''cursor'' (lo_Cursor q))"

definition decode_stamped :: "(gostring \<Rightarrow> jtext) \<Rightarrow> jfields \<Rightarrow> stamped option" where
  "decode_stamped parse fs = do { o1 \<leftarrow> decode_Operation parse fs; up \<leftarrow> str_field ''updatedAt'' fs; Some (o1, up) }"

definition decode_OperationListResponse :: "(gostring \<Rightarrow> jtext) \<Rightarrow> jfields \<Rightarrow> OperationListResponse option" where
  "decode_OperationListResponse parse fs =
     do {
       os \<leftarrow> structs_field (decode_stamped parse) ''operations'' fs; n \<leftarrow> int_field ''total'' fs;
       c \<leftarrow> str_field ''nextCursor'' fs; Some \<lparr>pg_Operations = os, pg_Total = n, pg_NextCursor = c\<rparr>
     }"

definition ListOperations :: "'w sdk_env \<Rightarrow> ListOperationsOptions option \<Rightarrow> 'w sdk \<Rightarrow> (error + OperationListResponse) \<times> 'w sdk" where
  "ListOperations env opts =
     sdk_bind (sdk_realm env) (\<lambda>rid. sdk_get env ''/operations'' (list_params rid opts) (decode_OperationListResponse (sx_parse env)))"

text \<open>The page the seed asks for.\<close>

definition seed_options :: "gostring \<Rightarrow> ListOperationsOptions" where
  "seed_options cursor =
     \<lparr>lo_Type = [], lo_Types = [], lo_ArcaPath = [], lo_ArcaID = [], lo_Path = [], lo_IncludeContext = False,
      lo_Limit = 100, lo_Cursor = cursor\<rparr>"

section \<open>State\<close>

datatype quiescence_phase =
    Confirming_Types
  | Seeding gostring "gostring list"
  | Collecting
  | Selecting
  | Quiet "error option"

record quiescence =
  qs_states :: "gostring \<rightharpoonup> stamped"
  qs_ids :: "gostring list"
  qs_queue :: "stamped list"
  qs_wake :: bool
  qs_recover :: bool
  qs_phase :: quiescence_phase
  qs_polls :: "nat list"
  qs_pages :: "(gostring \<times> OperationListResponse) list"
  qs_applied :: "stamped list"

definition wait_quiescence :: quiescence where
  "wait_quiescence = \<lparr>qs_states = (\<lambda>i. None), qs_ids = [], qs_queue = [], qs_wake = False, qs_recover = False,
     qs_phase = Confirming_Types, qs_polls = [], qs_pages = [], qs_applied = []\<rparr>"

text \<open>\<^verbatim>\<open>a > b\<close> on strings, byte by byte.\<close>

definition later :: "gostring \<Rightarrow> gostring \<Rightarrow> bool" where
  "later a b \<longleftrightarrow> b < a"

text \<open>The closure \<^verbatim>\<open>apply\<close>: a terminal state stays, an older pending one is ignored.\<close>

definition keeps_old :: "stamped option \<Rightarrow> stamped \<Rightarrow> bool" where
  "keeps_old old op =
     (case old of
        None \<Rightarrow> False
      | Some (o1, up) \<Rightarrow> op_State o1 \<noteq> OpPending \<or> later up (snd op) \<and> op_State (fst op) = OpPending)"

definition apply_operation :: "stamped \<Rightarrow> quiescence \<Rightarrow> quiescence" where
  "apply_operation op s =
     (let i = op_ID (fst op); s = s\<lparr>qs_applied := qs_applied s @ [op]\<rparr> in
      if keeps_old (qs_states s i) op then s
      else s\<lparr>qs_states := (qs_states s)(i \<mapsto> op), qs_ids := (if i \<in> set (qs_ids s) then qs_ids s else i # qs_ids s)\<rparr>)"

definition pending_count :: "quiescence \<Rightarrow> nat" where
  "pending_count s =
     length (filter (\<lambda>i. case qs_states s i of Some (o1, up) \<Rightarrow> op_State o1 = OpPending | None \<Rightarrow> False) (qs_ids s))"

section \<open>Steps\<close>

definition queue_operation :: "stamped option \<Rightarrow> quiescence \<Rightarrow> quiescence" where
  "queue_operation op s =
     (case op of None \<Rightarrow> s | Some o1 \<Rightarrow> s\<lparr>qs_queue := qs_queue s @ [o1], qs_wake := True\<rparr>)"

definition recover_once :: "quiescence \<Rightarrow> quiescence" where
  "recover_once s = s\<lparr>qs_recover := True\<rparr>"

definition begin_seed :: "quiescence \<Rightarrow> quiescence" where
  "begin_seed s = s\<lparr>qs_phase := Seeding [] []\<rparr>"

definition seed_page :: "gostring \<Rightarrow> gostring list \<Rightarrow> error + OperationListResponse \<Rightarrow> quiescence \<Rightarrow> quiescence" where
  "seed_page cursor seen reply s =
     (case reply of
        Inl e \<Rightarrow> s\<lparr>qs_phase := Quiet (Some e)\<rparr>
      | Inr page \<Rightarrow>
          (let s = fold apply_operation (pg_Operations page) (s\<lparr>qs_pages := qs_pages s @ [(cursor, page)]\<rparr>);
               nxt = pg_NextCursor page in
           if nxt = [] then s\<lparr>qs_phase := Collecting\<rparr>
           else if nxt \<in> set seen then s\<lparr>qs_phase := Quiet (Some (Plain ''operation pagination repeated cursor''))\<rparr>
           else s\<lparr>qs_phase := Seeding nxt (nxt # seen)\<rparr>))"

definition collect_queue :: "quiescence \<Rightarrow> quiescence" where
  "collect_queue s =
     (let s = fold apply_operation (qs_queue s) (s\<lparr>qs_queue := []\<rparr>); n = pending_count s in
      s\<lparr>qs_phase := (if n = 0 then Quiet None else Selecting), qs_polls := qs_polls s @ [n]\<rparr>)"

datatype quiescence_event =
    OperationEvent "stamped option"
  | GapEvent
  | AuthEvent
  | ConfirmReply "error option"
  | PageReply "error + OperationListResponse"
  | Collect
  | TakeWake
  | TakeRecovery
  | CtxDone gostring

fun quiescence_step :: "quiescence_event \<Rightarrow> quiescence \<Rightarrow> quiescence option" where
  "quiescence_step (OperationEvent op) s = Some (queue_operation op s)"
| "quiescence_step GapEvent s = Some (recover_once s)"
| "quiescence_step AuthEvent s = (if qs_phase s = Confirming_Types then None else Some (recover_once s))"
| "quiescence_step (ConfirmReply r) s =
     (if qs_phase s \<noteq> Confirming_Types then None
      else Some (case r of Some e \<Rightarrow> s\<lparr>qs_phase := Quiet (Some e)\<rparr> | None \<Rightarrow> begin_seed s))"
| "quiescence_step (PageReply r) s = (case qs_phase s of Seeding cursor seen \<Rightarrow> Some (seed_page cursor seen r s) | _ \<Rightarrow> None)"
| "quiescence_step Collect s = (if qs_phase s = Collecting then Some (collect_queue s) else None)"
| "quiescence_step TakeWake s =
     (if qs_phase s = Selecting \<and> qs_wake s then Some (s\<lparr>qs_wake := False, qs_phase := Collecting\<rparr>) else None)"
| "quiescence_step TakeRecovery s =
     (if qs_phase s = Selecting \<and> qs_recover s then Some (begin_seed (s\<lparr>qs_recover := False\<rparr>)) else None)"
| "quiescence_step (CtxDone e) s =
     (if qs_phase s = Selecting then Some (s\<lparr>qs_phase := Quiet (Some (CtxError e))\<rparr>) else None)"

text \<open>The call has returned once its phase is \<^const>\<open>Quiet\<close>; the listeners are gone then.\<close>

inductive quiescence_reach :: "quiescence \<Rightarrow> bool" where
  init: "quiescence_reach wait_quiescence"
| step: "quiescence_reach s \<Longrightarrow> (\<forall>r. qs_phase s \<noteq> Quiet r) \<Longrightarrow> quiescence_step e s = Some s' \<Longrightarrow> quiescence_reach s'"

fun quiescence_run :: "quiescence_event list \<Rightarrow> quiescence \<Rightarrow> quiescence option" where
  "quiescence_run [] s = Some s"
| "quiescence_run (e # es) s =
     (case qs_phase s of Quiet r \<Rightarrow> None | _ \<Rightarrow> Option.bind (quiescence_step e s) (quiescence_run es))"

section \<open>Invariants\<close>

text \<open>What is kept of an id was heard; an id that was heard in a terminal state is kept in one.\<close>

definition states_inv :: "quiescence \<Rightarrow> bool" where
  "states_inv s \<longleftrightarrow>
     (\<forall>i op. qs_states s i = Some op \<longrightarrow> op_ID (fst op) = i \<and> op \<in> set (qs_applied s) \<and> i \<in> set (qs_ids s))
     \<and> (\<forall>op \<in> set (qs_applied s). \<exists>kept. qs_states s (op_ID (fst op)) = Some kept
          \<and> (op_State (fst op) \<noteq> OpPending \<longrightarrow> op_State (fst kept) \<noteq> OpPending))"

text \<open>Every next cursor of a page that was read has been read, is being read, or ended the call.\<close>

definition cursor_settled :: "quiescence \<Rightarrow> gostring \<Rightarrow> bool" where
  "cursor_settled s c \<longleftrightarrow>
     c = [] \<or> c \<in> fst ` set (qs_pages s) \<or> (\<exists>seen. qs_phase s = Seeding c seen) \<or> (\<exists>e. qs_phase s = Quiet (Some e))"

definition seed_inv :: "quiescence \<Rightarrow> bool" where
  "seed_inv s \<longleftrightarrow>
     (\<forall>(c, page) \<in> set (qs_pages s). set (pg_Operations page) \<subseteq> set (qs_applied s) \<and> cursor_settled s (pg_NextCursor page))
     \<and> (\<forall>cursor seen. qs_phase s = Seeding cursor seen \<longrightarrow>
          distinct seen \<and> (cursor = [] \<and> seen = [] \<or> (\<exists>rest. seen = cursor # rest) \<and> [] \<in> fst ` set (qs_pages s)))
     \<and> (qs_phase s \<in> {Collecting, Selecting, Quiet None} \<longrightarrow> [] \<in> fst ` set (qs_pages s))
     \<and> (qs_phase s = Confirming_Types \<longrightarrow> qs_pages s = [])
     \<and> (qs_phase s = Quiet None \<longrightarrow> pending_count s = 0)"

lemma apply_operation_keeps [simp]:
  "qs_queue (apply_operation op s) = qs_queue s" "qs_wake (apply_operation op s) = qs_wake s"
  "qs_recover (apply_operation op s) = qs_recover s" "qs_phase (apply_operation op s) = qs_phase s"
  "qs_polls (apply_operation op s) = qs_polls s" "qs_pages (apply_operation op s) = qs_pages s"
  "qs_applied (apply_operation op s) = qs_applied s @ [op]"
  by (simp_all add: apply_operation_def Let_def)

lemma apply_all_keeps [simp]:
  "qs_queue (fold apply_operation ops s) = qs_queue s" "qs_wake (fold apply_operation ops s) = qs_wake s"
  "qs_recover (fold apply_operation ops s) = qs_recover s" "qs_phase (fold apply_operation ops s) = qs_phase s"
  "qs_polls (fold apply_operation ops s) = qs_polls s" "qs_pages (fold apply_operation ops s) = qs_pages s"
  "qs_applied (fold apply_operation ops s) = qs_applied s @ ops"
  by (induction ops arbitrary: s) simp_all

lemma states_inv_apply:
  assumes inv: "states_inv s"
  shows "states_inv (apply_operation op s)"
proof -
  let ?i = "op_ID (fst op)"
  have kept: "\<exists>k. qs_states s (op_ID (fst x)) = Some k \<and> (op_State (fst x) \<noteq> OpPending \<longrightarrow> op_State (fst k) \<noteq> OpPending)"
    if "x \<in> set (qs_applied s)" for x
    using inv that unfolding states_inv_def by blast
  have was: "op_ID (fst o1) = i \<and> o1 \<in> set (qs_applied s) \<and> i \<in> set (qs_ids s)" if "qs_states s i = Some o1" for i o1
    using inv that unfolding states_inv_def by blast
  show ?thesis
  proof (cases "keeps_old (qs_states s ?i) op")
    case True
    then obtain o1 up where o1: "qs_states s ?i = Some (o1, up)"
      "op_State o1 \<noteq> OpPending \<or> op_State (fst op) = OpPending" by (auto simp: keeps_old_def split: option.splits)
    have same: "qs_states (apply_operation op s) = qs_states s" "qs_ids (apply_operation op s) = qs_ids s"
      using True by (simp_all add: apply_operation_def)
    show ?thesis unfolding states_inv_def same using was kept o1 by fastforce
  next
    case False
    then have new: "qs_states (apply_operation op s) = (qs_states s)(?i \<mapsto> op)" "set (qs_ids (apply_operation op s)) = insert ?i (set (qs_ids s))"
      by (auto simp: apply_operation_def Let_def)
    have over: "op_State (fst op) \<noteq> OpPending" if "x \<in> set (qs_applied s)" "op_ID (fst x) = ?i" "op_State (fst x) \<noteq> OpPending" for x
      using kept [OF that(1)] that(2,3) False by (auto simp: keeps_old_def split: option.splits)
    show ?thesis unfolding states_inv_def new(1)
    proof (intro conjI allI impI ballI)
      fix x assume x: "x \<in> set (qs_applied (apply_operation op s))"
      show "\<exists>k. ((qs_states s)(?i \<mapsto> op)) (op_ID (fst x)) = Some k \<and> (op_State (fst x) \<noteq> OpPending \<longrightarrow> op_State (fst k) \<noteq> OpPending)"
      proof (cases "op_ID (fst x) = ?i")
        case True
        then show ?thesis using x over by (cases "x = op") simp_all
      next
        case False
        then have "x \<in> set (qs_applied s)" using x by auto
        from kept [OF this] show ?thesis using False by simp
      qed
    qed (use was new(2) in \<open>auto split: if_splits\<close>)
  qed
qed

lemma states_inv_all: "states_inv s \<Longrightarrow> states_inv (fold apply_operation ops s)"
  by (induction ops arbitrary: s) (auto intro: states_inv_apply)

lemma states_inv_cong:
  "states_inv s \<Longrightarrow> qs_states s' = qs_states s \<Longrightarrow> qs_applied s' = qs_applied s \<Longrightarrow> qs_ids s' = qs_ids s \<Longrightarrow> states_inv s'"
  by (simp add: states_inv_def)

lemma states_inv_step:
  assumes inv: "states_inv s" and step: "quiescence_step e s = Some s'"
  shows "states_inv s'"
proof -
  have page: "states_inv (seed_page c seen r s)" for c seen r
  proof (cases r)
    case (Inl e)
    then show ?thesis by (intro states_inv_cong [OF inv]) (simp_all add: seed_page_def)
  next
    case (Inr p)
    have u: "states_inv (fold apply_operation (pg_Operations p) (s\<lparr>qs_pages := qs_pages s @ [(c, p)]\<rparr>))"
      by (rule states_inv_all) (rule states_inv_cong [OF inv], simp_all)
    show ?thesis using Inr by (intro states_inv_cong [OF u]) (simp_all add: seed_page_def Let_def)
  qed
  have collect: "states_inv (collect_queue s)"
    unfolding collect_queue_def Let_def by (rule states_inv_cong [OF states_inv_all, OF states_inv_cong [OF inv]]) simp_all
  show ?thesis
  proof (cases e)
    case (PageReply r)
    then show ?thesis using step page by (auto split: quiescence_phase.splits)
  next
    case Collect
    then show ?thesis using step collect by (simp split: if_splits)
  qed (use step in \<open>auto simp: queue_operation_def recover_once_def begin_seed_def split: option.splits if_splits
      intro!: states_inv_cong [OF inv]\<close>)
qed

lemma seed_invD:
  assumes "seed_inv s"
  shows "(c, page) \<in> set (qs_pages s) \<Longrightarrow> set (pg_Operations page) \<subseteq> set (qs_applied s)"
    "(c, page) \<in> set (qs_pages s) \<Longrightarrow> cursor_settled s (pg_NextCursor page)"
    "qs_phase s \<in> {Collecting, Selecting, Quiet None} \<Longrightarrow> [] \<in> fst ` set (qs_pages s)"
    "qs_phase s = Quiet None \<Longrightarrow> pending_count s = 0"
  using assms unfolding seed_inv_def by auto

lemma seed_invI:
  assumes "\<And>c page. (c, page) \<in> set (qs_pages s) \<Longrightarrow> set (pg_Operations page) \<subseteq> set (qs_applied s)"
    and "\<And>c page. (c, page) \<in> set (qs_pages s) \<Longrightarrow> cursor_settled s (pg_NextCursor page)"
    and "\<And>cursor seen. qs_phase s = Seeding cursor seen \<Longrightarrow>
          distinct seen \<and> (cursor = [] \<and> seen = [] \<or> (\<exists>rest. seen = cursor # rest) \<and> [] \<in> fst ` set (qs_pages s))"
    and "qs_phase s \<in> {Collecting, Selecting, Quiet None} \<Longrightarrow> [] \<in> fst ` set (qs_pages s)"
    and "qs_phase s = Confirming_Types \<Longrightarrow> qs_pages s = []" "qs_phase s = Quiet None \<Longrightarrow> pending_count s = 0"
  shows "seed_inv s"
  using assms unfolding seed_inv_def by blast

lemma seed_inv_cong:
  "seed_inv s \<Longrightarrow> (\<forall>r. qs_phase s \<noteq> Quiet r) \<Longrightarrow> qs_pages s' = qs_pages s \<Longrightarrow> qs_applied s' = qs_applied s \<Longrightarrow> qs_phase s' = qs_phase s \<Longrightarrow> seed_inv s'"
  by (simp add: seed_inv_def cursor_settled_def)

lemma seed_inv_page:
  assumes inv: "seed_inv s" and phase: "qs_phase s = Seeding cursor seen"
  shows "seed_inv (seed_page cursor seen r s)"
proof (cases r)
  case (Inl e)
  then show ?thesis using inv by (auto simp: seed_inv_def seed_page_def cursor_settled_def)
next
  case (Inr p)
  let ?u = "seed_page cursor seen r s"
  have u: "qs_pages ?u = qs_pages s @ [(cursor, p)]" "qs_applied ?u = qs_applied s @ pg_Operations p"
    using Inr by (simp_all add: seed_page_def Let_def)
  have next_phase: "qs_phase ?u = (if pg_NextCursor p = [] then Collecting
      else if pg_NextCursor p \<in> set seen then Quiet (Some (Plain ''operation pagination repeated cursor''))
      else Seeding (pg_NextCursor p) (pg_NextCursor p # seen))"
    using Inr by (simp add: seed_page_def Let_def)
  have shape: "distinct seen" "cursor = [] \<or> [] \<in> fst ` set (qs_pages s)"
    using inv phase by (auto simp: seed_inv_def)
  have settled: "cursor_settled ?u (pg_NextCursor q)" if "(c, q) \<in> set (qs_pages ?u)" for c q
  proof (cases "(c, q) \<in> set (qs_pages s)")
    case True
    then have "cursor_settled s (pg_NextCursor q)" by (rule seed_invD [OF inv])
    then show ?thesis using phase by (auto simp: cursor_settled_def u)
  next
    case False
    then show ?thesis using that by (auto simp: cursor_settled_def u next_phase)
  qed
  have "set (pg_Operations q) \<subseteq> set (qs_applied ?u)" if "(c, q) \<in> set (qs_pages ?u)" for c q
    using that seed_invD(1) [OF inv] unfolding u by fastforce
  then show ?thesis
    by (rule seed_invI) (use settled shape in \<open>auto simp: u next_phase split: if_splits\<close>)
qed

lemma seed_inv_collect:
  assumes inv: "seed_inv s" and phase: "qs_phase s = Collecting"
  shows "seed_inv (collect_queue s)"
proof -
  let ?u = "collect_queue s" and ?n = "pending_count (fold apply_operation (qs_queue s) (s\<lparr>qs_queue := []\<rparr>))"
  have u: "qs_pages ?u = qs_pages s" "qs_applied ?u = qs_applied s @ qs_queue s"
    "qs_phase ?u = (if ?n = 0 then Quiet None else Selecting)" "pending_count ?u = ?n"
    by (simp_all add: collect_queue_def Let_def pending_count_def)
  show ?thesis using inv phase by (fastforce simp: seed_inv_def cursor_settled_def u)
qed

lemma seed_inv_step:
  assumes inv: "seed_inv s" and live: "\<forall>r. qs_phase s \<noteq> Quiet r" and step: "quiescence_step e s = Some s'"
  shows "seed_inv s'"
proof (cases e)
  case (ConfirmReply r)
  then show ?thesis using step inv
    by (auto simp: seed_inv_def cursor_settled_def begin_seed_def split: option.splits if_splits)
next
  case (PageReply r)
  then show ?thesis using step seed_inv_page [OF inv] by (auto split: quiescence_phase.splits)
next
  case Collect
  then show ?thesis using step seed_inv_collect [OF inv] by (simp split: if_splits)
next
  case TakeRecovery
  then have s: "qs_phase s = Selecting" "s' = begin_seed (s\<lparr>qs_recover := False\<rparr>)" using step by (auto split: if_splits)
  have "cursor_settled s' (pg_NextCursor page)" if "(c, page) \<in> set (qs_pages s)" for c page
    using seed_invD(2) [OF inv that] s by (auto simp: begin_seed_def cursor_settled_def)
  then show ?thesis
    by (intro seed_invI) (use seed_invD(1) [OF inv] s in \<open>auto simp: begin_seed_def dest: subsetD\<close>)
next
  case (OperationEvent op)
  then show ?thesis using step by (intro seed_inv_cong [OF inv live]) (auto simp: queue_operation_def split: option.splits)
next
  case GapEvent
  then show ?thesis using step by (intro seed_inv_cong [OF inv live]) (auto simp: recover_once_def)
next
  case AuthEvent
  then show ?thesis using step by (intro seed_inv_cong [OF inv live]) (auto simp: recover_once_def split: if_splits)
next
  case TakeWake
  then have s: "qs_phase s = Selecting" "s' = s\<lparr>qs_wake := False, qs_phase := Collecting\<rparr>" using step by (auto split: if_splits)
  have "cursor_settled s' (pg_NextCursor page)" if "(c, page) \<in> set (qs_pages s)" for c page
    using seed_invD(2) [OF inv that] s by (auto simp: cursor_settled_def)
  then show ?thesis by (intro seed_invI) (use seed_invD(1,3) [OF inv] s in \<open>auto dest: subsetD\<close>)
next
  case (CtxDone x)
  then have s: "s' = s\<lparr>qs_phase := Quiet (Some (CtxError x))\<rparr>" using step by (auto split: if_splits)
  have "cursor_settled s' (pg_NextCursor page)" for page using s by (simp add: cursor_settled_def)
  then show ?thesis by (intro seed_invI) (use seed_invD(1) [OF inv] s in \<open>auto dest: subsetD\<close>)
qed

lemma quiescence_reach_inv: "quiescence_reach s \<Longrightarrow> states_inv s \<and> seed_inv s"
proof (induction rule: quiescence_reach.induct)
  case init
  show ?case by (simp add: states_inv_def seed_inv_def wait_quiescence_def)
next
  case (step s e s')
  then show ?case using states_inv_step seed_inv_step by blast
qed

lemma quiescence_run_reach: "quiescence_run es s = Some s' \<Longrightarrow> quiescence_reach s \<Longrightarrow> quiescence_reach s'"
proof (induction es arbitrary: s)
  case (Cons e es)
  then have live: "\<forall>r. qs_phase s \<noteq> Quiet r" by (auto split: quiescence_phase.splits)
  then obtain s1 where s1: "quiescence_step e s = Some s1" "quiescence_run es s1 = Some s'"
    using Cons.prems(1) by (cases "qs_phase s") (auto split: bind_splits)
  then show ?case using Cons.IH Cons.prems(2) live quiescence_reach.step by blast
qed simp

section \<open>Properties\<close>


definition sample_stamped :: "gostring \<Rightarrow> gostring \<Rightarrow> gostring \<Rightarrow> stamped" where
  "sample_stamped i state up =
     (\<lparr>op_ID = i, op_RealmID = [], op_Path = [], op_Type = [], op_State = state, op_SourceArcaPath = None, op_TargetArcaPath = None,
       op_Input = None, op_Outcome = None, op_ParsedOutcome = None, op_FailureMessage = None\<rparr>, up)"

definition one_page :: "stamped list \<Rightarrow> gostring \<Rightarrow> error + OperationListResponse" where
  "one_page ops c = Inr \<lparr>pg_Operations = ops, pg_Total = 1, pg_NextCursor = c\<rparr>"

definition quiet_events :: "quiescence_event list" where
  "quiet_events = [ConfirmReply None, PageReply (one_page [sample_stamped ''a'' OpPending ''1''] ''n''),
     PageReply (one_page [] []), Collect, OperationEvent (Some (sample_stamped ''a'' OpCompleted ''2'')), TakeWake, Collect]"

lemma quiet_run: "map_option (\<lambda>s. (qs_phase s = Quiet None, qs_polls s, length (qs_pages s))) (quiescence_run quiet_events wait_quiescence) = Some (True, [1, 0], 2)"
  by code_simp


text \<open>A gap that was noticed but not yet recovered does not hold the wait back.\<close>

lemma quiet_with_unrecovered_gap:
  "map_option (\<lambda>s. (qs_phase s = Quiet None, qs_recover s))
     (quiescence_run [ConfirmReply None, PageReply (one_page [sample_stamped ''a'' OpPending ''1''] []), Collect, GapEvent,
        OperationEvent (Some (sample_stamped ''a'' OpCompleted ''2'')), TakeWake, Collect] wait_quiescence) = Some (True, True)"
  by code_simp

end
