(* ===== verification/Order_Math.thy ===== *)
theory Order_Math
  imports Trading_Orders
begin

text \<open>
  The arithmetic of an order before it is placed: the breakdown of an amount into size, margin, fee and liquidation price
  (\<^verbatim>\<open>orderbreakdown.go\<close>), and the minimum size of a market (\<^verbatim>\<open>exchange.go\<close>).  Doubles are those of \<^verbatim>\<open>Go_ParseFloat\<close>;
  an operation is the exact one, rounded (no fused multiply and add).  A zero has no sign here: the code divides by a
  zero only where it came from an integer or a sum, and prints an infinity as zero.
\<close>

section \<open>Arithmetic of doubles\<close>

definition rnd :: "rat \<Rightarrow> gofloat" where
  "rnd q = fst (round_double (q < 0) (abs q))"

fun float_neg :: "gofloat \<Rightarrow> gofloat" where
  "float_neg (Fin a) = Fin (- a)"
| "float_neg PosInf = NegInf"
| "float_neg NegInf = PosInf"
| "float_neg NotANumber = NotANumber"

fun float_add :: "gofloat \<Rightarrow> gofloat \<Rightarrow> gofloat" where
  "float_add (Fin a) (Fin b) = rnd (a + b)"
| "float_add NotANumber b = NotANumber"
| "float_add a NotANumber = NotANumber"
| "float_add PosInf NegInf = NotANumber"
| "float_add NegInf PosInf = NotANumber"
| "float_add PosInf b = PosInf"
| "float_add NegInf b = NegInf"
| "float_add (Fin a) b = b"

definition float_sub :: "gofloat \<Rightarrow> gofloat \<Rightarrow> gofloat" where
  "float_sub a b = float_add a (float_neg b)"

text \<open>The sign of a value that is not zero.\<close>

definition inf_of :: "bool \<Rightarrow> gofloat" where
  "inf_of neg = (if neg then NegInf else PosInf)"

definition negative :: "gofloat \<Rightarrow> bool" where
  "negative a = (case a of Fin q \<Rightarrow> q < 0 | NegInf \<Rightarrow> True | _ \<Rightarrow> False)"

definition finite_float :: "gofloat \<Rightarrow> bool" where
  "finite_float a = (case a of Fin q \<Rightarrow> True | _ \<Rightarrow> False)"

definition float_mul :: "gofloat \<Rightarrow> gofloat \<Rightarrow> gofloat" where
  "float_mul a b =
     (if a = NotANumber \<or> b = NotANumber then NotANumber
      else (case (a, b) of
              (Fin x, Fin y) \<Rightarrow> rnd (x * y)
            | _ \<Rightarrow> if a = Fin 0 \<or> b = Fin 0 then NotANumber else inf_of (negative a \<noteq> negative b)))"

definition float_div :: "gofloat \<Rightarrow> gofloat \<Rightarrow> gofloat" where
  "float_div a b =
     (if a = NotANumber \<or> b = NotANumber then NotANumber
      else (case (a, b) of
              (Fin x, Fin y) \<Rightarrow> if y = 0 then (if x = 0 then NotANumber else inf_of (x < 0)) else rnd (x / y)
            | (Fin x, _) \<Rightarrow> Fin 0
            | (_, Fin y) \<Rightarrow> inf_of (negative a \<noteq> negative b)
            | _ \<Rightarrow> NotANumber))"

text \<open>\<^verbatim>\<open>Floor\<close>, \<^verbatim>\<open>Ceil\<close>, and the power of ten (exact up to the twenty-second).\<close>

definition float_floor :: "gofloat \<Rightarrow> gofloat" where
  "float_floor a = (case a of Fin q \<Rightarrow> rnd (of_int \<lfloor>q\<rfloor>) | _ \<Rightarrow> a)"

definition float_ceil :: "gofloat \<Rightarrow> gofloat" where
  "float_ceil a = (case a of Fin q \<Rightarrow> rnd (of_int \<lceil>q\<rceil>) | _ \<Rightarrow> a)"

definition Pow10 :: "int \<Rightarrow> gofloat" where
  "Pow10 n = rnd (10 powi n)"

definition parseF :: "gostring \<Rightarrow> gofloat" where
  "parseF s = fst (ParseFloat s)"

definition float_of_int :: "int \<Rightarrow> gofloat" where
  "float_of_int n = rnd (of_int n)"

section \<open>Printing\<close>

text \<open>\<^verbatim>\<open>FormatFloat(v, 'f', d, 64)\<close> of a finite value: the nearest decimal, ties to even.\<close>

definition fixed_text :: "rat \<Rightarrow> nat \<Rightarrow> gostring" where
  "fixed_text q d =
     (let ds = show_nat (nat (rne (abs q * 10 ^ d)));
          padded = replicate (Suc d - length ds) (CHR ''0'') @ ds;
          body = (if d = 0 then padded else take (length padded - d) padded @ ''.'' @ drop (length padded - d) padded) in
      if q < 0 then CHR ''-'' # body else body)"

definition TrimRightByte :: "char \<Rightarrow> gostring \<Rightarrow> gostring" where
  "TrimRightByte c s = TrimRightFunc (\<lambda>x. x = c) s"

text \<open>Negative decimals, for which \<^verbatim>\<open>FormatFloat\<close> means something else, do not occur: markets have none.\<close>

definition fmtNum :: "gofloat \<Rightarrow> nat \<Rightarrow> gostring" where
  "fmtNum v d =
     (case v of
        Fin q \<Rightarrow>
          (let s = fixed_text q d;
               s = (if CHR ''.'' \<in> set s then TrimRightByte (CHR ''.'') (TrimRightByte (CHR ''0'') s) else s) in
           if s = [] \<or> s = ''-0'' then ''0'' else s)
      | _ \<Rightarrow> ''0'')"

section \<open>Merging with a position\<close>

record OrderBreakdownExistingPosition =
  ep_Side :: gostring
  ep_Size :: gostring
  ep_EntryPrice :: gostring

record mergedPosition =
  mp_size :: gofloat
  mp_entry :: gofloat
  mp_side :: gostring

definition positive :: "gofloat \<Rightarrow> bool" where
  "positive a \<longleftrightarrow> float_less (Fin 0) a"

definition fresh_position :: "gostring \<Rightarrow> gofloat \<Rightarrow> gofloat \<Rightarrow> mergedPosition" where
  "fresh_position side sz price = \<lparr>mp_size = sz, mp_entry = price, mp_side = side\<rparr>"

definition mergeOrderWithPosition ::
    "gostring \<Rightarrow> gofloat \<Rightarrow> gofloat \<Rightarrow> OrderBreakdownExistingPosition option \<Rightarrow> mergedPosition option" where
  "mergeOrderWithPosition newSide newSize fillPrice existing =
     (if \<not> positive newSize \<or> \<not> positive fillPrice then None
      else (case existing of
              None \<Rightarrow> Some (fresh_position newSide newSize fillPrice)
            | Some x \<Rightarrow>
                let exSize = parseF (ep_Size x); exEntry = parseF (ep_EntryPrice x) in
                if \<not> positive exSize \<or> \<not> positive exEntry then Some (fresh_position newSide newSize fillPrice)
                else if ep_Side x = newSide then
                  (let mergedSize = float_add exSize newSize in
                   Some \<lparr>mp_size = mergedSize,
                         mp_entry = float_div (float_add (float_mul exSize exEntry) (float_mul newSize fillPrice)) mergedSize,
                         mp_side = newSide\<rparr>)
                else if float_less newSize exSize then
                  Some \<lparr>mp_size = float_sub exSize newSize, mp_entry = exEntry, mp_side = ep_Side x\<rparr>
                else if newSize = exSize then None
                else Some (fresh_position newSide (float_sub newSize exSize) fillPrice)))"

section \<open>Margin tiers\<close>

record MarginTier =
  mt_LowerBound :: gostring
  mt_MaxLeverage :: int

definition capped :: "gofloat \<Rightarrow> int \<Rightarrow> gofloat" where
  "capped leverage maxLev = (if float_less (float_of_int maxLev) leverage then float_of_int maxLev else leverage)"

definition initial_rate :: "gofloat \<Rightarrow> MarginTier \<Rightarrow> gofloat" where
  "initial_rate leverage t = float_div (Fin 1) (capped leverage (mt_MaxLeverage t))"

definition maintenance_rate :: "MarginTier \<Rightarrow> gofloat" where
  "maintenance_rate t = float_div (Fin (1 / 2)) (float_of_int (mt_MaxLeverage t))"

text \<open>
  The walk over the tiers: the rate and the deduction of the last tier that starts at or below the notional, and the bound of
  the tier that stopped it.
\<close>

fun scan_tiers ::
    "(MarginTier \<Rightarrow> gofloat) \<Rightarrow> gofloat \<Rightarrow> MarginTier list \<Rightarrow> gofloat \<times> gofloat \<Rightarrow> (gofloat \<times> gofloat) \<times> gofloat option" where
  "scan_tiers rate notional [] acc = (acc, None)"
| "scan_tiers rate notional (t # ts) (active, ded) =
     (let lowerBound = parseF (mt_LowerBound t) in
      if float_less notional lowerBound then ((active, ded), Some lowerBound)
      else scan_tiers rate notional ts (rate t, float_add ded (float_mul lowerBound (float_sub (rate t) active))))"

definition tier_requirement :: "(MarginTier \<Rightarrow> gofloat) \<Rightarrow> gofloat \<Rightarrow> MarginTier list \<Rightarrow> gofloat \<times> gofloat option" where
  "tier_requirement rate notional tiers =
     (case scan_tiers rate notional tiers (rate (hd tiers), Fin 0) of
        ((active, ded), nxt) \<Rightarrow> (float_sub (float_mul notional active) ded, nxt))"

text \<open>The tier in which a total spend falls.\<close>

fun spend_tiers ::
    "gofloat \<Rightarrow> gofloat \<Rightarrow> gofloat \<Rightarrow> MarginTier list \<Rightarrow> gofloat \<times> gofloat \<Rightarrow> gofloat \<times> gofloat" where
  "spend_tiers leverage feeRate target [] acc = acc"
| "spend_tiers leverage feeRate target (t # ts) (active, ded) =
     (let lowerBound = parseF (mt_LowerBound t); rate = initial_rate leverage t;
          nextDeduction = float_add ded (float_mul lowerBound (float_sub rate active));
          spendAtBound = float_add (float_sub (float_mul lowerBound rate) nextDeduction) (float_mul lowerBound feeRate) in
      if float_less target spendAtBound then (active, ded)
      else spend_tiers leverage feeRate target ts (rate, nextDeduction))"

section \<open>The breakdown\<close>

record OrderBreakdownAccountContext =
  ac_Equity :: gostring
  ac_OtherMaintenanceMargin :: gostring
  ac_ExistingPosition :: "OrderBreakdownExistingPosition option"

record OrderBreakdownOptions =
  bo_Amount :: gostring
  bo_AmountType :: gostring
  bo_Leverage :: int
  bo_FeeRate :: gostring
  bo_Price :: gostring
  bo_Side :: gostring
  bo_SzDecimals :: nat
  bo_MarginTiers :: "MarginTier list"
  bo_MaintenanceMarginRate :: gostring
  bo_AccountContext :: "OrderBreakdownAccountContext option"

record OrderBreakdown =
  ob_Tokens :: gostring
  ob_NotionalUsd :: gostring
  ob_MarginRequired :: gostring
  ob_EstimatedFee :: gostring
  ob_TotalSpend :: gostring
  ob_Price :: gostring
  ob_FeeRate :: gostring
  ob_EffectiveLeverage :: gostring
  ob_EffectiveMaintenanceMarginRate :: gostring
  ob_NextTierThreshold :: gostring
  ob_EstimatedLiquidationPrice :: gostring

definition zero_breakdown :: "OrderBreakdownOptions \<Rightarrow> OrderBreakdown" where
  "zero_breakdown opts =
     \<lparr>ob_Tokens = ''0'', ob_NotionalUsd = ''0'', ob_MarginRequired = ''0'', ob_EstimatedFee = ''0'', ob_TotalSpend = ''0'',
      ob_Price = bo_Price opts, ob_FeeRate = bo_FeeRate opts, ob_EffectiveLeverage = [], ob_EffectiveMaintenanceMarginRate = [],
      ob_NextTierThreshold = [], ob_EstimatedLiquidationPrice = []\<rparr>"

text \<open>The inputs as numbers, when they are usable.\<close>

definition usable_inputs :: "OrderBreakdownOptions \<Rightarrow> bool" where
  "usable_inputs opts \<longleftrightarrow>
     positive (parseF (bo_Price opts)) \<and> positive (float_of_int (bo_Leverage opts))
     \<and> \<not> float_less (parseF (bo_FeeRate opts)) (Fin 0) \<and> positive (parseF (bo_Amount opts))"

definition breakdown_decimals :: "OrderBreakdownOptions \<Rightarrow> nat" where
  "breakdown_decimals opts = (if bo_SzDecimals opts = 0 then 5 else bo_SzDecimals opts)"

definition target_notional :: "OrderBreakdownOptions \<Rightarrow> gofloat option" where
  "target_notional opts =
     (let price = parseF (bo_Price opts); feeRate = parseF (bo_FeeRate opts); leverage = float_of_int (bo_Leverage opts);
          amount = parseF (bo_Amount opts); tiers = bo_MarginTiers opts in
      if bo_AmountType opts = ''spend'' then
        (if tiers \<noteq> [] then
           (case spend_tiers leverage feeRate amount tiers (initial_rate leverage (hd tiers), Fin 0) of
              (active, ded) \<Rightarrow> Some (float_div (float_add amount ded) (float_add active feeRate)))
         else Some (float_div amount (float_add (float_div (Fin 1) leverage) feeRate)))
      else if bo_AmountType opts = ''notional'' then Some amount
      else if bo_AmountType opts = ''tokens'' then Some (float_mul amount price) else None)"

definition order_tokens :: "OrderBreakdownOptions \<Rightarrow> gofloat \<Rightarrow> gofloat" where
  "order_tokens opts notional =
     (let scale = Pow10 (int (breakdown_decimals opts)) in
      float_div (float_floor (float_mul (float_div notional (parseF (bo_Price opts))) scale)) scale)"

text \<open>The liquidation price: empty when there is none.\<close>

definition merged_maintenance :: "OrderBreakdownOptions \<Rightarrow> gofloat \<Rightarrow> gofloat" where
  "merged_maintenance opts mergedNotional =
     (if bo_MarginTiers opts \<noteq> [] then fst (tier_requirement maintenance_rate mergedNotional (bo_MarginTiers opts))
      else if bo_MaintenanceMarginRate opts \<noteq> [] then float_mul (parseF (bo_MaintenanceMarginRate opts)) mergedNotional
      else Fin 0)"

definition liquidation_of :: "OrderBreakdownOptions \<Rightarrow> gofloat \<Rightarrow> gofloat \<Rightarrow> gofloat \<Rightarrow> mergedPosition \<Rightarrow> gostring" where
  "liquidation_of opts equity otherMM estimatedFee merged =
     (let price = parseF (bo_Price opts); mergedNotional = float_mul (mp_size merged) (mp_entry merged);
          mmMerged = merged_maintenance opts mergedNotional;
          marginAvail = float_sub (float_sub equity estimatedFee) (float_add otherMM mmMerged) in
      if \<not> positive marginAvail then []
      else
        (let mmrEff = (if positive mergedNotional then float_div mmMerged mergedNotional else Fin 0);
             sensitivity = (if mp_side merged = Long then float_sub (Fin 1) mmrEff else float_add (Fin 1) mmrEff) in
         if \<not> positive sensitivity then []
         else
           (let perUnit = float_div marginAvail (float_mul (mp_size merged) sensitivity);
                liq = (if mp_side merged = Long then float_sub price perUnit else float_add price perUnit) in
            if positive liq then fmtNum liq 8 else [])))"

definition liquidation_price :: "OrderBreakdownOptions \<Rightarrow> gofloat \<Rightarrow> gofloat \<Rightarrow> gostring" where
  "liquidation_price opts tokens estimatedFee =
     (case bo_AccountContext opts of
        None \<Rightarrow> []
      | Some ctx \<Rightarrow>
          let equity = parseF (ac_Equity ctx); otherMM = parseF (ac_OtherMaintenanceMargin ctx) in
          if (bo_MaintenanceMarginRate opts = [] \<and> bo_MarginTiers opts = []) \<or> equity = NotANumber \<or> otherMM = NotANumber then []
          else
            (case mergeOrderWithPosition (if bo_Side opts = Sell then Short else Long) tokens (parseF (bo_Price opts)) (ac_ExistingPosition ctx) of
               None \<Rightarrow> []
             | Some merged \<Rightarrow> if positive (mp_size merged) then liquidation_of opts equity otherMM estimatedFee merged else []))"

definition ComputeOrderBreakdown :: "OrderBreakdownOptions \<Rightarrow> OrderBreakdown" where
  "ComputeOrderBreakdown opts =
     (if \<not> usable_inputs opts then zero_breakdown opts
      else (case target_notional opts of
              None \<Rightarrow> zero_breakdown opts
            | Some notional \<Rightarrow>
                let price = parseF (bo_Price opts); leverage = float_of_int (bo_Leverage opts); tiers = bo_MarginTiers opts;
                    tokens = order_tokens opts notional; actual = float_mul tokens price;
                    (margin, nxt) = (if tiers \<noteq> [] then tier_requirement (initial_rate leverage) actual tiers
                                     else (float_div actual leverage, None));
                    maintenance = (if tiers \<noteq> [] then fst (tier_requirement maintenance_rate actual tiers) else Fin 0);
                    fee = float_mul actual (parseF (bo_FeeRate opts)) in
                \<lparr>ob_Tokens = fmtNum tokens (breakdown_decimals opts), ob_NotionalUsd = fmtNum actual 8,
                 ob_MarginRequired = fmtNum margin 8, ob_EstimatedFee = fmtNum fee 8,
                 ob_TotalSpend = fmtNum (float_add margin fee) 8, ob_Price = bo_Price opts, ob_FeeRate = bo_FeeRate opts,
                 ob_EffectiveLeverage =
                   (if tiers = [] then []
                    else if positive actual then fmtNum (float_div actual margin) 8 else fmtNum leverage 8),
                 ob_EffectiveMaintenanceMarginRate =
                   (if tiers \<noteq> [] \<and> positive actual then fmtNum (float_div maintenance actual) 8 else []),
                 ob_NextTierThreshold = (case nxt of None \<Rightarrow> [] | Some b \<Rightarrow> fmtNum b 8),
                 ob_EstimatedLiquidationPrice = liquidation_price opts tokens fee\<rparr>))"

section \<open>Minimum sizes\<close>

record MinOrderSizeOptions =
  ms_Market :: "Market option"
  ms_MarketID :: gostring
  ms_Price :: gostring
  ms_ReduceOnly :: bool
  ms_IsTrigger :: bool
  ms_SizeToMax :: bool

record MinOrderSizeResult =
  mr_MinSize :: gostring
  mr_MinNotionalUsd :: gofloat

definition default_min_notional :: gofloat where
  "default_min_notional = Fin 10"

text \<open>\<^verbatim>\<open>math.Round\<close> and the conversion to an integer, for a finite value.\<close>

definition round_half_away :: "rat \<Rightarrow> int" where
  "round_half_away q = (if q < 0 then - \<lfloor>- q + 1 / 2\<rfloor> else \<lfloor>q + 1 / 2\<rfloor>)"

definition formatSizeToDecimals :: "gofloat \<Rightarrow> int \<Rightarrow> gostring" where
  "formatSizeToDecimals n decimals =
     (case n of
        Fin q \<Rightarrow>
          if decimals \<le> 0 then show_int (round_half_away q)
          else (let s = TrimRightByte (CHR ''.'') (TrimRightByte (CHR ''0'') (fixed_text q (nat decimals))) in
                if s = [] then ''0'' else s)
      | PosInf \<Rightarrow> ''+Inf''
      | NegInf \<Rightarrow> ''-Inf''
      | NotANumber \<Rightarrow> ''NaN'')"

definition market_floor :: "Market option \<Rightarrow> int \<times> gofloat" where
  "market_floor market =
     (case market of
        None \<Rightarrow> (5, default_min_notional)
      | Some m \<Rightarrow> (mk_SzDecimals m, if mk_MinOrderNotionalUsd m > 0 then Fin (mk_MinOrderNotionalUsd m) else default_min_notional))"

text \<open>The epsilon \<^verbatim>\<open>1e-6\<close> is the double nearest to it.\<close>

definition min_size_of :: "Market option \<Rightarrow> MinOrderSizeOptions \<Rightarrow> MinOrderSizeResult" where
  "min_size_of market opts =
     (case market_floor market of
        (szDecimals, minNotional) \<Rightarrow>
          let factor = Pow10 szDecimals; tick = float_div (Fin 1) factor in
          if ms_ReduceOnly opts \<or> ms_IsTrigger opts \<and> ms_SizeToMax opts then
            \<lparr>mr_MinSize = formatSizeToDecimals tick szDecimals, mr_MinNotionalUsd = Fin 0\<rparr>
          else
            (case ParseFloat (ms_Price opts) of
               (price, err) \<Rightarrow>
                 if err \<or> float_le price (Fin 0) then
                   \<lparr>mr_MinSize = formatSizeToDecimals tick szDecimals, mr_MinNotionalUsd = minNotional\<rparr>
                 else
                   (let scaled = float_mul (float_div minNotional price) factor;
                        n = float_div (float_ceil (float_sub scaled (rnd (1 / 10 ^ 6)))) factor;
                        n = (if float_less n tick then tick else n) in
                    \<lparr>mr_MinSize = formatSizeToDecimals n szDecimals, mr_MinNotionalUsd = minNotional\<rparr>)))"

definition MinOrderSize :: "'w sdk_env \<Rightarrow> MinOrderSizeOptions \<Rightarrow> 'w sdk \<Rightarrow> (error + MinOrderSizeResult) \<times> 'w sdk" where
  "MinOrderSize env opts =
     (if ms_Market opts = None \<and> ms_MarketID opts \<noteq> [] then
        sdk_bind (lookup_Market env (ms_MarketID opts)) (\<lambda>m. sdk_return (min_size_of m opts))
      else sdk_return (min_size_of (ms_Market opts) opts))"

record ValidateOrderSizeOptions =
  vo_Market :: "Market option"
  vo_MarketID :: gostring
  vo_Price :: gostring
  vo_Size :: gostring
  vo_ReduceOnly :: bool
  vo_IsTrigger :: bool
  vo_SizeToMax :: bool

record OrderSizeValidation =
  ov_OK :: bool
  ov_Reason :: gostring
  ov_MinSize :: gostring
  ov_MinNotionalUsd :: gofloat

definition min_options :: "ValidateOrderSizeOptions \<Rightarrow> MinOrderSizeOptions" where
  "min_options opts =
     \<lparr>ms_Market = vo_Market opts, ms_MarketID = vo_MarketID opts, ms_Price = vo_Price opts, ms_ReduceOnly = vo_ReduceOnly opts,
      ms_IsTrigger = vo_IsTrigger opts, ms_SizeToMax = vo_SizeToMax opts\<rparr>"

text \<open>The verbs \<^verbatim>\<open>%.2f\<close> and \<^verbatim>\<open>%v\<close>; the shortest digits of the latter are an argument.\<close>

definition two_decimals :: "gofloat \<Rightarrow> gostring" where
  "two_decimals v = (case v of Fin q \<Rightarrow> fixed_text q 2 | PosInf \<Rightarrow> ''+Inf'' | NegInf \<Rightarrow> ''-Inf'' | NotANumber \<Rightarrow> ''NaN'')"

definition size_verdict ::
    "(gofloat \<Rightarrow> gostring) \<Rightarrow> ValidateOrderSizeOptions \<Rightarrow> MinOrderSizeResult \<Rightarrow> OrderSizeValidation" where
  "size_verdict shortest opts floor_size =
     (let answer = (\<lambda>ok reason. \<lparr>ov_OK = ok, ov_Reason = reason, ov_MinSize = mr_MinSize floor_size,
                                  ov_MinNotionalUsd = mr_MinNotionalUsd floor_size\<rparr>) in
      case ParseFloat (vo_Size opts) of
        (sz, err) \<Rightarrow>
          if err \<or> float_le sz (Fin 0) then answer False ''Order size must be a positive number.''
          else if vo_ReduceOnly opts \<or> vo_IsTrigger opts \<and> vo_SizeToMax opts then answer True []
          else if float_less sz (parseF (mr_MinSize floor_size)) then
            answer False (''Order notional $'' @ two_decimals (float_mul sz (parseF (vo_Price opts))) @ '' is below venue minimum of $''
              @ shortest (mr_MinNotionalUsd floor_size) @ ''. Minimum size is '' @ mr_MinSize floor_size @ ''.'')
          else answer True [])"

definition ValidateOrderSize ::
    "'w sdk_env \<Rightarrow> (gofloat \<Rightarrow> gostring) \<Rightarrow> ValidateOrderSizeOptions \<Rightarrow> 'w sdk \<Rightarrow> (error + OrderSizeValidation) \<times> 'w sdk" where
  "ValidateOrderSize env shortest opts =
     sdk_bind (MinOrderSize env (min_options opts)) (\<lambda>r. sdk_return (size_verdict shortest opts r))"

section \<open>Lemmas\<close>

lemma rnd_minus: "rnd (- q) = float_neg (rnd q)"
  by (cases "q = 0") (auto simp: rnd_def round_double_def magnitude_def Let_def)

lemma float_sub_Fin [simp]: "float_sub (Fin a) (Fin b) = rnd (a - b)"
  by (simp add: float_sub_def)

lemma positive_Fin [simp]: "positive (Fin a) \<longleftrightarrow> 0 < a"
  by (simp add: positive_def)

text \<open>A quantity with the sign of its side.\<close>

definition signed_size :: "gostring \<Rightarrow> rat \<Rightarrow> rat" where
  "signed_size side q = (if side = Long then q else - q)"

definition signed_float :: "gostring \<Rightarrow> gofloat \<Rightarrow> gofloat" where
  "signed_float side f = (if side = Long then f else float_neg f)"

lemma signed_rnd: "signed_float side (rnd q) = rnd (signed_size side q)"
  by (simp add: signed_float_def signed_size_def rnd_minus)

lemma sides_differ: "Long \<noteq> Short"
  by (simp add: Long_def Short_def)

section \<open>Properties\<close>

text \<open>C37: Merging an order with an open position is adding signed sizes.  The order closes the position exactly when the two cancel;
  otherwise the merged size, with the sign of its side, is their rounded sum.  An order on the position's side
  blends the entry prices by size, a smaller one on the other side keeps the position's entry, and a larger one
  flips it at the fill price.\<close>

theorem order_merge_adds_signed_sizes:
  assumes "0 < n" "positive fillPrice" "parseF (ep_Size x) = Fin s" "0 < s" "positive (parseF (ep_EntryPrice x))"
    and sides: "newSide = Long \<or> newSide = Short" "ep_Side x = Long \<or> ep_Side x = Short"
  shows "case mergeOrderWithPosition newSide (Fin n) fillPrice (Some x) of
      None \<Rightarrow> signed_size (ep_Side x) s + signed_size newSide n = 0
    | Some merged \<Rightarrow>
        signed_size (ep_Side x) s + signed_size newSide n \<noteq> 0
        \<and> signed_float (mp_side merged) (mp_size merged) = rnd (signed_size (ep_Side x) s + signed_size newSide n)
        \<and> mp_entry merged =
            (if newSide = ep_Side x
             then float_div (float_add (float_mul (Fin s) (parseF (ep_EntryPrice x))) (float_mul (Fin n) fillPrice)) (rnd (s + n))
             else if n < s then parseF (ep_EntryPrice x) else fillPrice)"
proof -
  note simps = mergeOrderWithPosition_def Let_def assms(1-5) signed_rnd signed_size_def fresh_position_def
  consider "newSide = ep_Side x" | "newSide \<noteq> ep_Side x" "n < s" | "newSide \<noteq> ep_Side x" "n = s" | "newSide \<noteq> ep_Side x" "s < n"
    by fastforce
  then show ?thesis
  proof cases
    case 1
    moreover have "s + n \<noteq> 0" "- s - n \<noteq> 0" "- s \<noteq> n" using assms(1,4) by linarith+
    ultimately show ?thesis using sides_differ by (simp add: simps)
  next
    case 2
    then show ?thesis using sides sides_differ by (auto simp: simps)
  next
    case 3
    then show ?thesis using sides sides_differ by (auto simp: simps)
  next
    case 4
    then show ?thesis using sides sides_differ by (auto simp: simps)
  qed
qed

definition sample_position :: OrderBreakdownExistingPosition where
  "sample_position = \<lparr>ep_Side = Long, ep_Size = ''2'', ep_EntryPrice = ''5''\<rparr>"

theorem order_merge_adds_signed_sizes_witness:
  "\<exists>merged. mergeOrderWithPosition Short (Fin 3) (Fin 7) (Some sample_position) = Some merged
     \<and> signed_float (mp_side merged) (mp_size merged) = rnd (- 1) \<and> mp_entry merged = Fin 7"
proof -
  have p: "parseF (ep_Size sample_position) = Fin 2" "parseF (ep_EntryPrice sample_position) = Fin 5" by code_simp+
  have side: "ep_Side sample_position = Long" by (simp add: sample_position_def)
  have "case mergeOrderWithPosition Short (Fin 3) (Fin 7) (Some sample_position) of None \<Rightarrow> signed_size Long 2 + signed_size Short 3 = 0
      | Some merged \<Rightarrow> signed_float (mp_side merged) (mp_size merged) = rnd (signed_size Long 2 + signed_size Short 3) \<and> mp_entry merged = Fin 7"
    using order_merge_adds_signed_sizes [of 3 "Fin 7" sample_position 2 Short] p side sides_differ
    by (auto split: option.splits)
  then show ?thesis using sides_differ by (auto simp: signed_size_def split: option.splits)
qed

text \<open>Unusable inputs give zeros, and so does an unknown kind of amount.\<close>

lemma unusable_breakdown:
  "\<not> usable_inputs opts \<or> bo_AmountType opts \<notin> {''spend'', ''notional'', ''tokens''} \<Longrightarrow> ComputeOrderBreakdown opts = zero_breakdown opts"
  by (auto simp: ComputeOrderBreakdown_def target_notional_def Let_def)

text \<open>A market of whole sizes is broken down with five decimals: zero means the default.\<close>

lemma whole_sizes_get_decimals: "bo_SzDecimals opts = 0 \<Longrightarrow> breakdown_decimals opts = 5"
  by (simp add: breakdown_decimals_def)

text \<open>
  The minimum size can miss the floor: its epsilon lets a scaled value that is up to a millionth above an integer round down to it.
\<close>

definition narrow_market :: Market where
  "narrow_market = \<lparr>mk_Name = [], mk_Dex = [], mk_Symbol = [], mk_Exchange = [], mk_SzDecimals = 0,
     mk_MinOrderNotionalUsd = 8 + 8 / 2 ^ 21, mk_OnlyIsolated = False, mk_MarginModes = []\<rparr>"

definition narrow_order :: MinOrderSizeOptions where
  "narrow_order = \<lparr>ms_Market = Some narrow_market, ms_MarketID = [], ms_Price = ''8'', ms_ReduceOnly = False, ms_IsTrigger = False,
     ms_SizeToMax = False\<rparr>"

lemma narrow_price: "ParseFloat (ms_Price narrow_order) = (Fin 8, False)"
  unfolding narrow_order_def MinOrderSizeOptions.simps by code_simp

lemma narrow_scaled:
  "Pow10 0 = Fin 1" "float_div (Fin (8 + 8 / 2 ^ 21)) (Fin 8) = Fin (1 + 1 / 2 ^ 21)"
  "float_mul (Fin (1 + 1 / 2 ^ 21)) (Fin 1) = Fin (1 + 1 / 2 ^ 21)"
  by code_simp+

lemma narrow_epsilon: "rnd (1 / 10 ^ 6) = Fin (4722366482869645 / 4722366482869645213696)"
  by code_simp

lemma narrow_reduced:
  "float_sub (Fin (1 + 1 / 2 ^ 21)) (Fin (4722366482869645 / 4722366482869645213696)) = Fin (9007194542509033 / 9007199254740992)"
  by code_simp

lemma narrow_rounded:
  "float_ceil (Fin (9007194542509033 / 9007199254740992)) = Fin 1" "float_div (Fin 1) (Fin 1) = Fin 1" "formatSizeToDecimals (Fin 1) 0 = ''1''"
  by code_simp+

lemma narrow_floor: "market_floor (Some narrow_market) = (0, Fin (8 + 8 / 2 ^ 21))"
  by (simp add: market_floor_def narrow_market_def)

lemma narrow_tests: "float_less (Fin 1) (Fin 1) = False" "float_le (Fin 8) (Fin 0) = False"
  by (simp_all add: float_le_def)

lemmas narrow_steps = narrow_price narrow_scaled narrow_epsilon narrow_reduced narrow_rounded narrow_floor narrow_tests

lemma minimum_size_misses_floor:
  "mr_MinSize (min_size_of (Some narrow_market) narrow_order) = ''1'' \<and> 1 * 8 < mk_MinOrderNotionalUsd narrow_market"
proof -
  have flags: "ms_ReduceOnly narrow_order = False" "ms_IsTrigger narrow_order = False" by (simp_all add: narrow_order_def)
  have "min_size_of (Some narrow_market) narrow_order = \<lparr>mr_MinSize = ''1'', mr_MinNotionalUsd = Fin (8 + 8 / 2 ^ 21)\<rparr>"
    unfolding min_size_of_def narrow_steps prod.case flags Let_def simp_thms if_False ..
  then show ?thesis by (simp add: narrow_market_def)
qed

end
