(* ===== verification/Realm_Wire.thy ===== *)
theory Realm_Wire
  imports Trading_Orders Exchange_Watch Projection_Watch Cached_Reads
begin

text \<open>
  The wire types of a realm's event stream (\<^verbatim>\<open>events.go\<close>) and of what its events carry (\<^verbatim>\<open>types.go\<close>,
  \<^verbatim>\<open>types_exchange.go\<close>, \<^verbatim>\<open>types_trading_allocation.go\<close>): one record per struct with the struct's fields in order,
  and its decoding by \<^verbatim>\<open>encoding/json\<close>.  Where an earlier theory has a record of the fields the code reads,
  the decoder checks every field of the struct and keeps those.  \<^verbatim>\<open>parse\<close> is the JSON parser, for the
  texts an operation carries inside strings.
\<close>

text \<open>A map that may be absent: a present one, empty or not, is not nil.\<close>

definition strmapp_field :: "gostring \<Rightarrow> jfields \<Rightarrow> (gostring \<times> gostring) list option option" where
  "strmapp_field k fs =
     Option.bind (subp_field k fs) (\<lambda>sub. case sub of
         None \<Rightarrow> Some None
       | Some gs \<Rightarrow> map_option Some (decode_all (\<lambda>(key, v). map_option (Pair key) (str_value v)) gs))"

record AssetBreakdown =
  abd_Asset :: gostring
  abd_Category :: gostring
  abd_Amount :: gostring
  abd_Price :: "gostring option"
  abd_ValueUsd :: gostring
  abd_WeightedAvgLeverage :: "gostring option"
  abd_AvgEntryPrice :: "gostring option"

definition decode_AssetBreakdown :: "jfields \<Rightarrow> AssetBreakdown option" where
  "decode_AssetBreakdown fs = do {
     x0 \<leftarrow> str_field ''asset'' fs; x1 \<leftarrow> str_field ''category'' fs;
     x2 \<leftarrow> str_field ''amount'' fs; x3 \<leftarrow> strp_field ''price'' fs;
     x4 \<leftarrow> str_field ''valueUsd'' fs; x5 \<leftarrow> strp_field ''weightedAvgLeverage'' fs;
     x6 \<leftarrow> strp_field ''avgEntryPrice'' fs;
     Some \<lparr>abd_Asset = x0, abd_Category = x1, abd_Amount = x2, abd_Price = x3, abd_ValueUsd = x4,
           abd_WeightedAvgLeverage = x5, abd_AvgEntryPrice = x6\<rparr> }"

record PathAggregation =
  pa_Prefix :: gostring
  pa_TotalEquityUsd :: gostring
  pa_DepartingUsd :: gostring
  pa_ArrivingUsd :: gostring
  pa_Breakdown :: "AssetBreakdown list"
  pa_AsOf :: gostring
  pa_AvailableIntervals :: "gostring list"
  pa_CumInflowsUsd :: gostring
  pa_CumOutflowsUsd :: gostring

definition decode_PathAggregation :: "jfields \<Rightarrow> PathAggregation option" where
  "decode_PathAggregation fs = do {
     x0 \<leftarrow> str_field ''prefix'' fs; x1 \<leftarrow> str_field ''totalEquityUsd'' fs;
     x2 \<leftarrow> str_field ''departingUsd'' fs; x3 \<leftarrow> str_field ''arrivingUsd'' fs;
     x4 \<leftarrow> structs_field decode_AssetBreakdown ''breakdown'' fs; x5 \<leftarrow> str_field ''asOf'' fs;
     x6 \<leftarrow> strs_field ''availableIntervals'' fs; x7 \<leftarrow> str_field ''cumInflowsUsd'' fs;
     x8 \<leftarrow> str_field ''cumOutflowsUsd'' fs;
     Some \<lparr>pa_Prefix = x0, pa_TotalEquityUsd = x1, pa_DepartingUsd = x2, pa_ArrivingUsd = x3, pa_Breakdown = x4,
           pa_AsOf = x5, pa_AvailableIntervals = x6, pa_CumInflowsUsd = x7, pa_CumOutflowsUsd = x8\<rparr> }"

record ExplorerSummary =
  esum_ObjectCount :: int
  esum_OperationCount :: int
  esum_EventCount :: int
  esum_PendingOperationCount :: int
  esum_ExpiredOperationCount :: int

definition decode_ExplorerSummary :: "jfields \<Rightarrow> ExplorerSummary option" where
  "decode_ExplorerSummary fs = do {
     x0 \<leftarrow> int_field ''objectCount'' fs; x1 \<leftarrow> int_field ''operationCount'' fs;
     x2 \<leftarrow> int_field ''eventCount'' fs; x3 \<leftarrow> int_field ''pendingOperationCount'' fs;
     x4 \<leftarrow> int_field ''expiredOperationCount'' fs;
     Some \<lparr>esum_ObjectCount = x0, esum_OperationCount = x1, esum_EventCount = x2, esum_PendingOperationCount = x3,
           esum_ExpiredOperationCount = x4\<rparr> }"

record LedgerEvent =
  le_ID :: gostring
  le_RealmID :: gostring
  le_OperationID :: "gostring option"
  le_OperationPath :: "gostring option"
  le_ArcaPath :: "gostring option"
  le_Type :: gostring
  le_Path :: "gostring option"
  le_Payload :: "gostring option"
  le_CreatedAt :: gostring

definition decode_LedgerEvent :: "jfields \<Rightarrow> LedgerEvent option" where
  "decode_LedgerEvent fs = do {
     x0 \<leftarrow> str_field ''id'' fs; x1 \<leftarrow> str_field ''realmId'' fs;
     x2 \<leftarrow> strp_field ''operationId'' fs; x3 \<leftarrow> strp_field ''operationPath'' fs;
     x4 \<leftarrow> strp_field ''arcaPath'' fs; x5 \<leftarrow> str_field ''type'' fs;
     x6 \<leftarrow> strp_field ''path'' fs; x7 \<leftarrow> strp_field ''payload'' fs;
     x8 \<leftarrow> str_field ''createdAt'' fs;
     Some \<lparr>le_ID = x0, le_RealmID = x1, le_OperationID = x2, le_OperationPath = x3, le_ArcaPath = x4, le_Type = x5,
           le_Path = x6, le_Payload = x7, le_CreatedAt = x8\<rparr> }"

record IsolationInfo =
  ii_IsBoundaryRoot :: bool
  ii_IsInsideBoundary :: bool
  ii_BoundaryRootPath :: "gostring option"
  ii_BoundaryID :: "gostring option"

definition decode_IsolationInfo :: "jfields \<Rightarrow> IsolationInfo option" where
  "decode_IsolationInfo fs = do {
     x0 \<leftarrow> bool_field ''isBoundaryRoot'' fs; x1 \<leftarrow> bool_field ''isInsideBoundary'' fs;
     x2 \<leftarrow> strp_field ''boundaryRootPath'' fs; x3 \<leftarrow> strp_field ''boundaryId'' fs;
     Some \<lparr>ii_IsBoundaryRoot = x0, ii_IsInsideBoundary = x1, ii_BoundaryRootPath = x2, ii_BoundaryID = x3\<rparr> }"

record BoundarySnapshot =
  bs_BoundaryID :: gostring
  bs_Status :: gostring
  bs_LockedAt :: "gostring option"
  bs_FrozenAt :: "gostring option"
  bs_RecoveryActor :: "gostring option"
  bs_RecoveryTxHash :: "gostring option"
  bs_RecoveryArcaPath :: "gostring option"

definition decode_BoundarySnapshot :: "jfields \<Rightarrow> BoundarySnapshot option" where
  "decode_BoundarySnapshot fs = do {
     x0 \<leftarrow> str_field ''boundaryId'' fs; x1 \<leftarrow> str_field ''status'' fs;
     x2 \<leftarrow> strp_field ''lockedAt'' fs; x3 \<leftarrow> strp_field ''frozenAt'' fs;
     x4 \<leftarrow> strp_field ''recoveryActor'' fs; x5 \<leftarrow> strp_field ''recoveryTxHash'' fs;
     x6 \<leftarrow> strp_field ''recoveryArcaPath'' fs;
     Some \<lparr>bs_BoundaryID = x0, bs_Status = x1, bs_LockedAt = x2, bs_FrozenAt = x3, bs_RecoveryActor = x4,
           bs_RecoveryTxHash = x5, bs_RecoveryArcaPath = x6\<rparr> }"

record ArcaObject =
  aro_ID :: gostring
  aro_RealmID :: gostring
  aro_Path :: gostring
  aro_DisplayName :: "gostring option"
  aro_Type :: gostring
  aro_Denomination :: "gostring option"
  aro_Status :: gostring
  aro_Metadata :: "gostring option"
  aro_Labels :: "(gostring \<times> gostring) list"
  aro_DeletedAt :: "gostring option"
  aro_WithdrawnAt :: "gostring option"
  aro_SystemOwned :: bool
  aro_Isolation :: "IsolationInfo option"
  aro_Boundary :: "BoundarySnapshot option"
  aro_CreatedAt :: gostring
  aro_UpdatedAt :: gostring

definition decode_ArcaObject :: "jfields \<Rightarrow> ArcaObject option" where
  "decode_ArcaObject fs = do {
     x0 \<leftarrow> str_field ''id'' fs; x1 \<leftarrow> str_field ''realmId'' fs;
     x2 \<leftarrow> str_field ''path'' fs; x3 \<leftarrow> strp_field ''displayName'' fs;
     x4 \<leftarrow> str_field ''type'' fs; x5 \<leftarrow> strp_field ''denomination'' fs;
     x6 \<leftarrow> str_field ''status'' fs; x7 \<leftarrow> strp_field ''metadata'' fs;
     x8 \<leftarrow> strmap_field ''labels'' fs; x9 \<leftarrow> strp_field ''deletedAt'' fs;
     x10 \<leftarrow> strp_field ''withdrawnAt'' fs; x11 \<leftarrow> bool_field ''systemOwned'' fs;
     x12 \<leftarrow> structp_field decode_IsolationInfo ''isolation'' fs;
     x13 \<leftarrow> structp_field decode_BoundarySnapshot ''boundary'' fs;
     x14 \<leftarrow> str_field ''createdAt'' fs; x15 \<leftarrow> str_field ''updatedAt'' fs;
     Some \<lparr>aro_ID = x0, aro_RealmID = x1, aro_Path = x2, aro_DisplayName = x3, aro_Type = x4, aro_Denomination = x5,
           aro_Status = x6, aro_Metadata = x7, aro_Labels = x8, aro_DeletedAt = x9, aro_WithdrawnAt = x10,
           aro_SystemOwned = x11, aro_Isolation = x12, aro_Boundary = x13, aro_CreatedAt = x14, aro_UpdatedAt = x15\<rparr> }"

record TradingLeveragePreference =
  tlp_Mode :: gostring
  tlp_Leverage :: "int option"

definition decode_TradingLeveragePreference :: "jfields \<Rightarrow> TradingLeveragePreference option" where
  "decode_TradingLeveragePreference fs = do {
     x0 \<leftarrow> str_field ''mode'' fs; x1 \<leftarrow> intp_field ''leverage'' fs;
     Some \<lparr>tlp_Mode = x0, tlp_Leverage = x1\<rparr> }"

record PositionAllocation =
  pall_Market :: gostring
  pall_Preference :: TradingLeveragePreference
  pall_EffectiveLeverage :: int
  pall_VenueInitialMargin :: gostring
  pall_AllocatedMargin :: gostring
  pall_ExtraMargin :: gostring
  pall_ReservedMargin :: gostring
  pall_ReservedExtra :: gostring

definition decode_PositionAllocation :: "jfields \<Rightarrow> PositionAllocation option" where
  "decode_PositionAllocation fs = do {
     x0 \<leftarrow> str_field ''market'' fs;
     x1 \<leftarrow> struct_field decode_TradingLeveragePreference ''preference'' fs;
     x2 \<leftarrow> int_field ''effectiveLeverage'' fs; x3 \<leftarrow> str_field ''venueInitialMargin'' fs;
     x4 \<leftarrow> str_field ''allocatedMargin'' fs; x5 \<leftarrow> str_field ''extraMargin'' fs;
     x6 \<leftarrow> str_field ''reservedMargin'' fs; x7 \<leftarrow> str_field ''reservedExtra'' fs;
     Some \<lparr>pall_Market = x0, pall_Preference = x1, pall_EffectiveLeverage = x2, pall_VenueInitialMargin = x3,
           pall_AllocatedMargin = x4, pall_ExtraMargin = x5, pall_ReservedMargin = x6, pall_ReservedExtra = x7\<rparr> }"

record TradingAllocationProjection =
  tap_Revision :: gostring
  tap_Positions :: "(gostring \<times> PositionAllocation) list"
  tap_VenueInitialMargin :: gostring
  tap_PositionAllocatedMargin :: gostring
  tap_AllocatedMargin :: gostring
  tap_ExtraMargin :: gostring
  tap_PendingMargin :: gostring
  tap_PendingCosts :: gostring
  tap_ReservedExtra :: gostring
  tap_AvailableToTrade :: gostring

definition decode_TradingAllocationProjection :: "jfields \<Rightarrow> TradingAllocationProjection option" where
  "decode_TradingAllocationProjection fs = do {
     x0 \<leftarrow> str_field ''revision'' fs;
     x1 \<leftarrow> structmap_field decode_PositionAllocation ''positions'' fs;
     x2 \<leftarrow> str_field ''venueInitialMargin'' fs; x3 \<leftarrow> str_field ''positionAllocatedMargin'' fs;
     x4 \<leftarrow> str_field ''allocatedMargin'' fs; x5 \<leftarrow> str_field ''extraMargin'' fs;
     x6 \<leftarrow> str_field ''pendingMargin'' fs; x7 \<leftarrow> str_field ''pendingCosts'' fs;
     x8 \<leftarrow> str_field ''reservedExtra'' fs; x9 \<leftarrow> str_field ''availableToTrade'' fs;
     Some \<lparr>tap_Revision = x0, tap_Positions = x1, tap_VenueInitialMargin = x2, tap_PositionAllocatedMargin = x3,
           tap_AllocatedMargin = x4, tap_ExtraMargin = x5, tap_PendingMargin = x6, tap_PendingCosts = x7,
           tap_ReservedExtra = x8, tap_AvailableToTrade = x9\<rparr> }"

definition decode_TradingAllocationState :: "jfields \<Rightarrow> TradingAllocationState option" where
  "decode_TradingAllocationState fs = do {
     x0 \<leftarrow> str_field ''asOf'' fs; x1 \<leftarrow> str_field ''validUntil'' fs;
     x2 \<leftarrow> str_field ''revision'' fs;
     x3 \<leftarrow> structmap_field decode_TradingLeveragePreference ''preferences'' fs;
     x4 \<leftarrow> structp_field decode_TradingAllocationProjection ''projection'' fs;
     x5 \<leftarrow> bool_field ''projectionUnavailable'' fs;
     Some \<lparr>tas_AsOf = x0, tas_ValidUntil = x1\<rparr> }"

record SimAccount =
  sacc_ID :: gostring
  sacc_RealmID :: gostring
  sacc_Name :: gostring
  sacc_CreatedAt :: gostring
  sacc_UpdatedAt :: gostring

definition decode_SimAccount :: "jfields \<Rightarrow> SimAccount option" where
  "decode_SimAccount fs = do {
     x0 \<leftarrow> str_field ''id'' fs; x1 \<leftarrow> str_field ''realmId'' fs;
     x2 \<leftarrow> str_field ''name'' fs; x3 \<leftarrow> str_field ''createdAt'' fs;
     x4 \<leftarrow> str_field ''updatedAt'' fs;
     Some \<lparr>sacc_ID = x0, sacc_RealmID = x1, sacc_Name = x2, sacc_CreatedAt = x3, sacc_UpdatedAt = x4\<rparr> }"

record SimMarginSummary =
  sms_Equity :: gostring
  sms_InitialMarginUsed :: gostring
  sms_MaintenanceMarginRequired :: gostring
  sms_AvailableToWithdraw :: gostring
  sms_TotalNtlPos :: gostring
  sms_TotalUnrealizedPnl :: gostring
  sms_TotalRawUsd :: gostring

definition decode_SimMarginSummary :: "jfields \<Rightarrow> SimMarginSummary option" where
  "decode_SimMarginSummary fs = do {
     x0 \<leftarrow> str_field ''equity'' fs; x1 \<leftarrow> str_field ''initialMarginUsed'' fs;
     x2 \<leftarrow> str_field ''maintenanceMarginRequired'' fs;
     x3 \<leftarrow> str_field ''availableToWithdraw'' fs; x4 \<leftarrow> str_field ''totalNtlPos'' fs;
     x5 \<leftarrow> str_field ''totalUnrealizedPnl'' fs; x6 \<leftarrow> str_field ''totalRawUsd'' fs;
     Some \<lparr>sms_Equity = x0, sms_InitialMarginUsed = x1, sms_MaintenanceMarginRequired = x2, sms_AvailableToWithdraw = x3,
           sms_TotalNtlPos = x4, sms_TotalUnrealizedPnl = x5, sms_TotalRawUsd = x6\<rparr> }"

record SimFeeTierEntry =
  sfte_Tier :: int
  sfte_Label :: gostring
  sfte_MinVolume14d :: int
  sfte_TakerBps :: int
  sfte_MakerBps :: int

definition decode_SimFeeTierEntry :: "jfields \<Rightarrow> SimFeeTierEntry option" where
  "decode_SimFeeTierEntry fs = do {
     x0 \<leftarrow> int_field ''tier'' fs; x1 \<leftarrow> str_field ''label'' fs;
     x2 \<leftarrow> int_field ''minVolume14d'' fs; x3 \<leftarrow> int_field ''takerBps'' fs;
     x4 \<leftarrow> int_field ''makerBps'' fs;
     Some \<lparr>sfte_Tier = x0, sfte_Label = x1, sfte_MinVolume14d = x2, sfte_TakerBps = x3, sfte_MakerBps = x4\<rparr> }"

record SimFeeRates =
  sfr_Taker :: gostring
  sfr_Maker :: gostring
  sfr_PlatformFee :: gostring
  sfr_Tier :: int
  sfr_TierLabel :: gostring
  sfr_Volume14d :: gostring
  sfr_Schedule :: "SimFeeTierEntry list"

definition decode_SimFeeRates :: "jfields \<Rightarrow> SimFeeRates option" where
  "decode_SimFeeRates fs = do {
     x0 \<leftarrow> str_field ''taker'' fs; x1 \<leftarrow> str_field ''maker'' fs;
     x2 \<leftarrow> str_field ''platformFee'' fs; x3 \<leftarrow> int_field ''tier'' fs;
     x4 \<leftarrow> str_field ''tierLabel'' fs; x5 \<leftarrow> str_field ''volume14d'' fs;
     x6 \<leftarrow> structs_field decode_SimFeeTierEntry ''schedule'' fs;
     Some \<lparr>sfr_Taker = x0, sfr_Maker = x1, sfr_PlatformFee = x2, sfr_Tier = x3, sfr_TierLabel = x4, sfr_Volume14d = x5,
           sfr_Schedule = x6\<rparr> }"

record ExchangeIntent =
  xint_OperationID :: gostring
  xint_OperationPath :: gostring
  xint_Market :: gostring
  xint_Side :: gostring
  xint_Size :: gostring
  xint_OrderType :: gostring
  xint_ReduceOnly :: bool
  xint_CreatedAt :: gostring

definition decode_ExchangeIntent :: "jfields \<Rightarrow> ExchangeIntent option" where
  "decode_ExchangeIntent fs = do {
     x0 \<leftarrow> str_field ''operationId'' fs; x1 \<leftarrow> str_field ''operationPath'' fs;
     x2 \<leftarrow> str_field ''market'' fs; x3 \<leftarrow> str_field ''side'' fs;
     x4 \<leftarrow> str_field ''size'' fs; x5 \<leftarrow> str_field ''orderType'' fs;
     x6 \<leftarrow> bool_field ''reduceOnly'' fs; x7 \<leftarrow> str_field ''createdAt'' fs;
     Some \<lparr>xint_OperationID = x0, xint_OperationPath = x1, xint_Market = x2, xint_Side = x3, xint_Size = x4,
           xint_OrderType = x5, xint_ReduceOnly = x6, xint_CreatedAt = x7\<rparr> }"

definition decode_AccountingPendingExecution :: "jfields \<Rightarrow> AccountingPendingExecution option" where
  "decode_AccountingPendingExecution fs = do {
     x0 \<leftarrow> str_field ''operationId'' fs; x1 \<leftarrow> str_field ''orderId'' fs;
     x2 \<leftarrow> str_field ''market'' fs; x3 \<leftarrow> str_field ''side'' fs;
     x4 \<leftarrow> str_field ''executedSize'' fs; x5 \<leftarrow> str_field ''accountedSize'' fs;
     x6 \<leftarrow> str_field ''unaccountedSize'' fs; x7 \<leftarrow> bool_field ''executionFinal'' fs;
     x8 \<leftarrow> str_field ''averagePrice'' fs;
     Some \<lparr>ape_OperationID = x0, ape_OrderID = x1, ape_Market = x2, ape_Side = x3, ape_ExecutedSize = x4,
           ape_AccountedSize = x5, ape_UnaccountedSize = x6, ape_ExecutionFinal = x7, ape_AveragePrice = x8\<rparr> }"

definition decode_ExchangeState :: "jfields \<Rightarrow> ExchangeState option" where
  "decode_ExchangeState fs = do {
     x0 \<leftarrow> str_field ''financialInputId'' fs; x1 \<leftarrow> str_field ''mirrorUnsettledFunding'' fs;
     x2 \<leftarrow> structp_field decode_TradingAllocationState ''tradingAllocation'' fs;
     x3 \<leftarrow> struct_field decode_SimAccount ''account'' fs;
     x4 \<leftarrow> struct_field decode_SimMarginSummary ''marginSummary'' fs;
     x5 \<leftarrow> structp_field decode_SimMarginSummary ''crossMarginSummary'' fs;
     x6 \<leftarrow> str_field ''crossMaintenanceMarginUsed'' fs;
     x7 \<leftarrow> structs_field decode_SimPosition ''positions'' fs;
     x8 \<leftarrow> structs_field decode_SimOrder ''openOrders'' fs;
     x9 \<leftarrow> structp_field decode_SimFeeRates ''feeRates'' fs;
     x10 \<leftarrow> structs_field decode_ExchangeIntent ''pendingIntents'' fs;
     x11 \<leftarrow> structs_field decode_AccountingPendingExecution ''accountingPending'' fs;
     x12 \<leftarrow> str_field ''observedAt'' fs; x13 \<leftarrow> str_field ''stateSource'' fs;
     Some \<lparr>xs_TradingAllocation = x2, xs_ObservedAt = x12, xs_Positions = x7, xs_OpenOrders = x8,
           xs_AccountingPending = x11\<rparr> }"

record BalanceValue =
  bval_Denomination :: gostring
  bval_Amount :: gostring
  bval_Price :: "gostring option"
  bval_ValueUsd :: gostring

definition decode_BalanceValue :: "jfields \<Rightarrow> BalanceValue option" where
  "decode_BalanceValue fs = do {
     x0 \<leftarrow> str_field ''denomination'' fs; x1 \<leftarrow> str_field ''amount'' fs;
     x2 \<leftarrow> strp_field ''price'' fs; x3 \<leftarrow> str_field ''valueUsd'' fs;
     Some \<lparr>bval_Denomination = x0, bval_Amount = x1, bval_Price = x2, bval_ValueUsd = x3\<rparr> }"

record ReservedValue =
  rv_Denomination :: gostring
  rv_Amount :: gostring
  rv_Price :: "gostring option"
  rv_ValueUsd :: gostring
  rv_OperationID :: gostring
  rv_SourceArcaPath :: "gostring option"
  rv_DestinationArcaPath :: "gostring option"
  rv_StartedAt :: "gostring option"
  rv_InTransit :: bool

definition decode_ReservedValue :: "jfields \<Rightarrow> ReservedValue option" where
  "decode_ReservedValue fs = do {
     x0 \<leftarrow> str_field ''denomination'' fs; x1 \<leftarrow> str_field ''amount'' fs;
     x2 \<leftarrow> strp_field ''price'' fs; x3 \<leftarrow> str_field ''valueUsd'' fs;
     x4 \<leftarrow> str_field ''operationId'' fs; x5 \<leftarrow> strp_field ''sourceArcaPath'' fs;
     x6 \<leftarrow> strp_field ''destinationArcaPath'' fs; x7 \<leftarrow> strp_field ''startedAt'' fs;
     x8 \<leftarrow> bool_field ''inTransit'' fs;
     Some \<lparr>rv_Denomination = x0, rv_Amount = x1, rv_Price = x2, rv_ValueUsd = x3, rv_OperationID = x4,
           rv_SourceArcaPath = x5, rv_DestinationArcaPath = x6, rv_StartedAt = x7, rv_InTransit = x8\<rparr> }"

definition decode_PositionValue :: "jfields \<Rightarrow> PositionValue option" where
  "decode_PositionValue fs = do {
     x0 \<leftarrow> str_field ''market'' fs; x1 \<leftarrow> str_field ''side'' fs;
     x2 \<leftarrow> str_field ''size'' fs; x3 \<leftarrow> int_field ''leverage'' fs;
     x4 \<leftarrow> str_field ''entryPrice'' fs; x5 \<leftarrow> strp_field ''markPrice'' fs;
     x6 \<leftarrow> strp_field ''unrealizedPnl'' fs; x7 \<leftarrow> strp_field ''valueUsd'' fs;
     Some \<lparr>pv_Market = x0, pv_Side = x1, pv_Size = x2, pv_Leverage = x3, pv_EntryPrice = x4, pv_MarkPrice = x5,
           pv_UnrealizedPnl = x6, pv_ValueUsd = x7\<rparr> }"

record ObjectValuation =
  oval_ObjectID :: gostring
  oval_Path :: gostring
  oval_Type :: gostring
  oval_Denomination :: "gostring option"
  oval_ValueUsd :: gostring
  oval_RealizedValue :: "gostring option"
  oval_UnrealizedValue :: "gostring option"
  oval_Balances :: "BalanceValue list"
  oval_ReservedBalances :: "ReservedValue list"
  oval_PendingInbound :: "ReservedValue list"
  oval_Positions :: "PositionValue list"

definition decode_ObjectValuation :: "jfields \<Rightarrow> ObjectValuation option" where
  "decode_ObjectValuation fs = do {
     x0 \<leftarrow> str_field ''objectId'' fs; x1 \<leftarrow> str_field ''path'' fs;
     x2 \<leftarrow> str_field ''type'' fs; x3 \<leftarrow> strp_field ''denomination'' fs;
     x4 \<leftarrow> str_field ''valueUsd'' fs; x5 \<leftarrow> strp_field ''realizedValue'' fs;
     x6 \<leftarrow> strp_field ''unrealizedValue'' fs;
     x7 \<leftarrow> structs_field decode_BalanceValue ''balances'' fs;
     x8 \<leftarrow> structs_field decode_ReservedValue ''reservedBalances'' fs;
     x9 \<leftarrow> structs_field decode_ReservedValue ''pendingInbound'' fs;
     x10 \<leftarrow> structs_field decode_PositionValue ''positions'' fs;
     Some \<lparr>oval_ObjectID = x0, oval_Path = x1, oval_Type = x2, oval_Denomination = x3, oval_ValueUsd = x4,
           oval_RealizedValue = x5, oval_UnrealizedValue = x6, oval_Balances = x7, oval_ReservedBalances = x8,
           oval_PendingInbound = x9, oval_Positions = x10\<rparr> }"

record ExchangeProvisioning =
  xp_ObjectID :: gostring
  xp_Path :: gostring
  xp_CosignRequired :: bool
  xp_Tradable :: bool
  xp_AccountAddress :: gostring
  xp_AgentWalletID :: gostring

definition decode_ExchangeProvisioning :: "jfields \<Rightarrow> ExchangeProvisioning option" where
  "decode_ExchangeProvisioning fs = do {
     x0 \<leftarrow> str_field ''objectId'' fs; x1 \<leftarrow> str_field ''path'' fs;
     x2 \<leftarrow> bool_field ''cosignRequired'' fs; x3 \<leftarrow> bool_field ''tradable'' fs;
     x4 \<leftarrow> str_field ''accountAddress'' fs; x5 \<leftarrow> str_field ''agentWalletId'' fs;
     Some \<lparr>xp_ObjectID = x0, xp_Path = x1, xp_CosignRequired = x2, xp_Tradable = x3, xp_AccountAddress = x4,
           xp_AgentWalletID = x5\<rparr> }"

record ArcaBalance =
  ab_ID :: gostring
  ab_ArcaID :: gostring
  ab_Denomination :: gostring
  ab_Amount :: gostring
  ab_Arriving :: gostring
  ab_Settled :: gostring
  ab_Departing :: gostring
  ab_Total :: gostring

definition decode_ArcaBalance :: "jfields \<Rightarrow> ArcaBalance option" where
  "decode_ArcaBalance fs = do {
     x0 \<leftarrow> str_field ''id'' fs; x1 \<leftarrow> str_field ''arcaId'' fs;
     x2 \<leftarrow> str_field ''denomination'' fs; x3 \<leftarrow> str_field ''amount'' fs;
     x4 \<leftarrow> str_field ''arriving'' fs; x5 \<leftarrow> str_field ''settled'' fs;
     x6 \<leftarrow> str_field ''departing'' fs; x7 \<leftarrow> str_field ''total'' fs;
     Some \<lparr>ab_ID = x0, ab_ArcaID = x1, ab_Denomination = x2, ab_Amount = x3, ab_Arriving = x4, ab_Settled = x5,
           ab_Departing = x6, ab_Total = x7\<rparr> }"

record ReservedBalance =
  rbal_ID :: gostring
  rbal_ArcaID :: gostring
  rbal_OperationID :: gostring
  rbal_Denomination :: gostring
  rbal_Amount :: gostring
  rbal_Status :: gostring
  rbal_Direction :: gostring
  rbal_SourceArcaPath :: "gostring option"
  rbal_DestinationArcaPath :: "gostring option"
  rbal_CreatedAt :: gostring
  rbal_UpdatedAt :: gostring

definition decode_ReservedBalance :: "jfields \<Rightarrow> ReservedBalance option" where
  "decode_ReservedBalance fs = do {
     x0 \<leftarrow> str_field ''id'' fs; x1 \<leftarrow> str_field ''arcaId'' fs;
     x2 \<leftarrow> str_field ''operationId'' fs; x3 \<leftarrow> str_field ''denomination'' fs;
     x4 \<leftarrow> str_field ''amount'' fs; x5 \<leftarrow> str_field ''status'' fs;
     x6 \<leftarrow> str_field ''direction'' fs; x7 \<leftarrow> strp_field ''sourceArcaPath'' fs;
     x8 \<leftarrow> strp_field ''destinationArcaPath'' fs; x9 \<leftarrow> str_field ''createdAt'' fs;
     x10 \<leftarrow> str_field ''updatedAt'' fs;
     Some \<lparr>rbal_ID = x0, rbal_ArcaID = x1, rbal_OperationID = x2, rbal_Denomination = x3, rbal_Amount = x4,
           rbal_Status = x5, rbal_Direction = x6, rbal_SourceArcaPath = x7, rbal_DestinationArcaPath = x8,
           rbal_CreatedAt = x9, rbal_UpdatedAt = x10\<rparr> }"

record DetectedDeposit =
  dd_Address :: gostring
  dd_From :: gostring
  dd_Amount :: gostring
  dd_TxHash :: gostring
  dd_Block :: nat
  dd_BoundaryID :: gostring
  dd_Sweeping :: bool

definition decode_DetectedDeposit :: "jfields \<Rightarrow> DetectedDeposit option" where
  "decode_DetectedDeposit fs = do {
     x0 \<leftarrow> str_field ''address'' fs; x1 \<leftarrow> str_field ''from'' fs;
     x2 \<leftarrow> str_field ''amount'' fs; x3 \<leftarrow> str_field ''txHash'' fs;
     x4 \<leftarrow> uint_field ''block'' fs; x5 \<leftarrow> str_field ''boundaryId'' fs;
     x6 \<leftarrow> bool_field ''sweeping'' fs;
     Some \<lparr>dd_Address = x0, dd_From = x1, dd_Amount = x2, dd_TxHash = x3, dd_Block = x4, dd_BoundaryID = x5,
           dd_Sweeping = x6\<rparr> }"

definition decode_SimOrderWithFills :: "jfields \<Rightarrow> SimOrderWithFills option" where
  "decode_SimOrderWithFills fs = do {
     x0 \<leftarrow> boolp_field ''fillsComplete'' fs; x1 \<leftarrow> struct_field decode_SimOrder ''order'' fs;
     x2 \<leftarrow> structs_field (decode_fill \<circ> JObj) ''fills'' fs;
     Some \<lparr>swf_FillsComplete = x0, swf_Order = x1, swf_Fills = x2\<rparr> }"

record FundingPayment =
  fpay_AccountID :: gostring
  fpay_Market :: gostring
  fpay_Side :: gostring
  fpay_Size :: gostring
  fpay_Price :: gostring
  fpay_FundingRate :: gostring
  fpay_Payment :: gostring

definition decode_FundingPayment :: "jfields \<Rightarrow> FundingPayment option" where
  "decode_FundingPayment fs = do {
     x0 \<leftarrow> str_field ''accountId'' fs; x1 \<leftarrow> str_field ''market'' fs;
     x2 \<leftarrow> str_field ''side'' fs; x3 \<leftarrow> str_field ''size'' fs;
     x4 \<leftarrow> str_field ''price'' fs; x5 \<leftarrow> str_field ''fundingRate'' fs;
     x6 \<leftarrow> str_field ''payment'' fs;
     Some \<lparr>fpay_AccountID = x0, fpay_Market = x1, fpay_Side = x2, fpay_Size = x3, fpay_Price = x4, fpay_FundingRate = x5,
           fpay_Payment = x6\<rparr> }"

definition decode_Candle :: "jfields \<Rightarrow> Candle option" where
  "decode_Candle fs = do {
     x0 \<leftarrow> int_field ''t'' fs; x1 \<leftarrow> str_field ''o'' fs; x2 \<leftarrow> str_field ''h'' fs;
     x3 \<leftarrow> str_field ''l'' fs; x4 \<leftarrow> str_field ''c'' fs; x5 \<leftarrow> str_field ''v'' fs;
     x6 \<leftarrow> int_field ''n'' fs; x7 \<leftarrow> str_field ''s'' fs;
     Some \<lparr>cd_T = x0, cd_O = x1, cd_H = x2, cd_L = x3, cd_C = x4, cd_V = x5, cd_N = x6, cd_S = x7\<rparr> }"

definition decode_OIBar :: "jfields \<Rightarrow> OIBar option" where
  "decode_OIBar fs = do {
     x0 \<leftarrow> int_field ''t'' fs; x1 \<leftarrow> str_field ''oiOpen'' fs;
     x2 \<leftarrow> str_field ''oiHigh'' fs; x3 \<leftarrow> str_field ''oiLow'' fs;
     x4 \<leftarrow> str_field ''oiClose'' fs; x5 \<leftarrow> str_field ''ntlVlm'' fs;
     x6 \<leftarrow> str_field ''mark'' fs; x7 \<leftarrow> str_field ''s'' fs;
     Some \<lparr>oi_T = x0, oi_OIOpen = x1, oi_OIHigh = x2, oi_OILow = x3, oi_OIClose = x4, oi_NtlVlm = x5, oi_Mark = x6,
           oi_S = x7\<rparr> }"

record MarketTrade =
  mt_Market :: gostring
  mt_Px :: gostring
  mt_Sz :: gostring
  mt_Side :: gostring
  mt_Time :: gostring
  mt_Hash :: gostring

definition decode_MarketTrade :: "jfields \<Rightarrow> MarketTrade option" where
  "decode_MarketTrade fs = do {
     x0 \<leftarrow> str_field ''market'' fs; x1 \<leftarrow> str_field ''px'' fs;
     x2 \<leftarrow> str_field ''sz'' fs; x3 \<leftarrow> str_field ''side'' fs;
     x4 \<leftarrow> str_field ''time'' fs; x5 \<leftarrow> str_field ''hash'' fs;
     Some \<lparr>mt_Market = x0, mt_Px = x1, mt_Sz = x2, mt_Side = x3, mt_Time = x4, mt_Hash = x5\<rparr> }"

record Twap =
  tw_TwapID :: gostring
  tw_RealmID :: gostring
  tw_OperationID :: gostring
  tw_ExchangeObjectID :: gostring
  tw_ExchangeObjectPath :: gostring
  tw_SimAccountID :: gostring
  tw_Type :: gostring
  tw_Market :: gostring
  tw_Side :: gostring
  tw_TotalSize :: "gostring option"
  tw_ExecutedSize :: gostring
  tw_ExecutedNotional :: gostring
  tw_SliceCount :: int
  tw_ExpectedSliceCount :: int
  tw_FilledSlices :: int
  tw_FailedSlices :: int
  tw_IntervalSeconds :: int
  tw_DurationMinutes :: int
  tw_StartTime :: gostring
  tw_EndTime :: "gostring option"
  tw_Status :: gostring
  tw_CancelReason :: "gostring option"
  tw_FailureReason :: "gostring option"
  tw_TargetPrice :: "gostring option"
  tw_ReduceOnly :: bool
  tw_Leverage :: "int option"
  tw_SlippageBps :: int
  tw_Randomize :: bool
  tw_ConsecutiveFailures :: int
  tw_NextSliceAt :: "gostring option"
  tw_CreatedAt :: gostring
  tw_UpdatedAt :: gostring

definition decode_Twap :: "jfields \<Rightarrow> Twap option" where
  "decode_Twap fs = do {
     x0 \<leftarrow> str_field ''twapId'' fs; x1 \<leftarrow> str_field ''realmId'' fs;
     x2 \<leftarrow> str_field ''operationId'' fs; x3 \<leftarrow> str_field ''exchangeObjectId'' fs;
     x4 \<leftarrow> str_field ''exchangeObjectPath'' fs; x5 \<leftarrow> str_field ''simAccountId'' fs;
     x6 \<leftarrow> str_field ''type'' fs; x7 \<leftarrow> str_field ''market'' fs;
     x8 \<leftarrow> str_field ''side'' fs; x9 \<leftarrow> strp_field ''totalSize'' fs;
     x10 \<leftarrow> str_field ''executedSize'' fs; x11 \<leftarrow> str_field ''executedNotional'' fs;
     x12 \<leftarrow> int_field ''sliceCount'' fs; x13 \<leftarrow> int_field ''expectedSliceCount'' fs;
     x14 \<leftarrow> int_field ''filledSlices'' fs; x15 \<leftarrow> int_field ''failedSlices'' fs;
     x16 \<leftarrow> int_field ''intervalSeconds'' fs; x17 \<leftarrow> int_field ''durationMinutes'' fs;
     x18 \<leftarrow> str_field ''startTime'' fs; x19 \<leftarrow> strp_field ''endTime'' fs;
     x20 \<leftarrow> str_field ''status'' fs; x21 \<leftarrow> strp_field ''cancelReason'' fs;
     x22 \<leftarrow> strp_field ''failureReason'' fs; x23 \<leftarrow> strp_field ''targetPrice'' fs;
     x24 \<leftarrow> bool_field ''reduceOnly'' fs; x25 \<leftarrow> intp_field ''leverage'' fs;
     x26 \<leftarrow> int_field ''slippageBps'' fs; x27 \<leftarrow> bool_field ''randomize'' fs;
     x28 \<leftarrow> int_field ''consecutiveFailures'' fs; x29 \<leftarrow> strp_field ''nextSliceAt'' fs;
     x30 \<leftarrow> str_field ''createdAt'' fs; x31 \<leftarrow> str_field ''updatedAt'' fs;
     Some \<lparr>tw_TwapID = x0, tw_RealmID = x1, tw_OperationID = x2, tw_ExchangeObjectID = x3, tw_ExchangeObjectPath = x4,
           tw_SimAccountID = x5, tw_Type = x6, tw_Market = x7, tw_Side = x8, tw_TotalSize = x9, tw_ExecutedSize = x10,
           tw_ExecutedNotional = x11, tw_SliceCount = x12, tw_ExpectedSliceCount = x13, tw_FilledSlices = x14,
           tw_FailedSlices = x15, tw_IntervalSeconds = x16, tw_DurationMinutes = x17, tw_StartTime = x18,
           tw_EndTime = x19, tw_Status = x20, tw_CancelReason = x21, tw_FailureReason = x22, tw_TargetPrice = x23,
           tw_ReduceOnly = x24, tw_Leverage = x25, tw_SlippageBps = x26, tw_Randomize = x27, tw_ConsecutiveFailures = x28,
           tw_NextSliceAt = x29, tw_CreatedAt = x30, tw_UpdatedAt = x31\<rparr> }"

record StreamEvent =
  ev_RealmID :: gostring
  ev_Type :: gostring
  ev_EntityID :: gostring
  ev_EntityPath :: gostring
  ev_Aggregation :: "PathAggregation option"
  ev_Summary :: "ExplorerSummary option"
  ev_Operation :: "Operation option"
  ev_Event :: "LedgerEvent option"
  ev_Object :: "ArcaObject option"
  ev_Mids :: "(gostring \<times> gostring) list option"
  ev_MarketDataAsOf :: gostring
  ev_ExchangeStateUnavailable :: bool
  ev_ExchangeState :: "ExchangeState option"
  ev_Valuation :: "ObjectValuation option"
  ev_Exchange :: "ExchangeProvisioning option"
  ev_Balances :: "ArcaBalance list"
  ev_HeldOutbound :: "ReservedBalance list"
  ev_HeldInbound :: "ReservedBalance list"
  ev_Deposit :: "DetectedDeposit option"
  ev_Path :: gostring
  ev_WatchID :: gostring
  ev_Projection :: gostring
  ev_Valuations :: "(gostring \<times> json) list"
  ev_Removed :: "gostring list"
  ev_Order :: "SimOrderWithFills option"
  ev_Fill :: "SimFill option"
  ev_Funding :: "FundingPayment option"
  ev_Realm :: "Realm option"
  ev_Market :: gostring
  ev_Interval :: gostring
  ev_Candle :: "Candle option"
  ev_Bar :: "OIBar option"
  ev_IsClosed :: bool
  ev_Trade :: "MarketTrade option"
  ev_DriftCorrected :: bool
  ev_Twap :: "Twap option"
  ev_TwapID :: gostring
  ev_ExecutedSize :: gostring
  ev_ExecutedNotional :: gostring
  ev_SliceCount :: int
  ev_FilledSlices :: int
  ev_FailedSlices :: int
  ev_LastSliceStatus :: gostring
  ev_EventID :: gostring
  ev_CorrelationID :: gostring
  ev_Sequence :: int
  ev_Timestamp :: gostring
  ev_DeliverySeq :: int

definition decode_StreamEvent :: "(gostring \<Rightarrow> jtext) \<Rightarrow> jfields \<Rightarrow> StreamEvent option" where
  "decode_StreamEvent parse fs = do {
     x0 \<leftarrow> str_field ''realmId'' fs; x1 \<leftarrow> str_field ''type'' fs;
     x2 \<leftarrow> str_field ''entityId'' fs; x3 \<leftarrow> str_field ''entityPath'' fs;
     x4 \<leftarrow> structp_field decode_PathAggregation ''aggregation'' fs;
     x5 \<leftarrow> structp_field decode_ExplorerSummary ''summary'' fs;
     x6 \<leftarrow> structp_field (decode_Operation parse) ''operation'' fs;
     x7 \<leftarrow> structp_field decode_LedgerEvent ''event'' fs;
     x8 \<leftarrow> structp_field decode_ArcaObject ''object'' fs; x9 \<leftarrow> strmapp_field ''mids'' fs;
     x10 \<leftarrow> str_field ''marketDataAsOf'' fs; x11 \<leftarrow> bool_field ''exchangeStateUnavailable'' fs;
     x12 \<leftarrow> structp_field decode_ExchangeState ''exchangeState'' fs;
     x13 \<leftarrow> structp_field decode_ObjectValuation ''valuation'' fs;
     x14 \<leftarrow> structp_field decode_ExchangeProvisioning ''exchange'' fs;
     x15 \<leftarrow> structs_field decode_ArcaBalance ''balances'' fs;
     x16 \<leftarrow> structs_field decode_ReservedBalance ''heldOutbound'' fs;
     x17 \<leftarrow> structs_field decode_ReservedBalance ''heldInbound'' fs;
     x18 \<leftarrow> structp_field decode_DetectedDeposit ''deposit'' fs; x19 \<leftarrow> str_field ''path'' fs;
     x20 \<leftarrow> str_field ''watchId'' fs; x21 \<leftarrow> str_field ''projection'' fs;
     x22 \<leftarrow> sub_field ''valuations'' fs; x23 \<leftarrow> strs_field ''removed'' fs;
     x24 \<leftarrow> structp_field decode_SimOrderWithFills ''order'' fs;
     x25 \<leftarrow> structp_field (decode_fill \<circ> JObj) ''fill'' fs;
     x26 \<leftarrow> structp_field decode_FundingPayment ''funding'' fs;
     x27 \<leftarrow> structp_field decode_Realm ''realm'' fs; x28 \<leftarrow> str_field ''market'' fs;
     x29 \<leftarrow> str_field ''interval'' fs; x30 \<leftarrow> structp_field decode_Candle ''candle'' fs;
     x31 \<leftarrow> structp_field decode_OIBar ''bar'' fs; x32 \<leftarrow> bool_field ''isClosed'' fs;
     x33 \<leftarrow> structp_field decode_MarketTrade ''trade'' fs;
     x34 \<leftarrow> bool_field ''driftCorrected'' fs; x35 \<leftarrow> structp_field decode_Twap ''twap'' fs;
     x36 \<leftarrow> str_field ''twapId'' fs; x37 \<leftarrow> str_field ''executedSize'' fs;
     x38 \<leftarrow> str_field ''executedNotional'' fs; x39 \<leftarrow> int_field ''sliceCount'' fs;
     x40 \<leftarrow> int_field ''filledSlices'' fs; x41 \<leftarrow> int_field ''failedSlices'' fs;
     x42 \<leftarrow> str_field ''lastSliceStatus'' fs; x43 \<leftarrow> str_field ''eventId'' fs;
     x44 \<leftarrow> str_field ''correlationId'' fs; x45 \<leftarrow> int_field ''sequence'' fs;
     x46 \<leftarrow> str_field ''timestamp'' fs; x47 \<leftarrow> int_field ''deliverySeq'' fs;
     Some \<lparr>ev_RealmID = x0, ev_Type = x1, ev_EntityID = x2, ev_EntityPath = x3, ev_Aggregation = x4, ev_Summary = x5,
           ev_Operation = x6, ev_Event = x7, ev_Object = x8, ev_Mids = x9, ev_MarketDataAsOf = x10,
           ev_ExchangeStateUnavailable = x11, ev_ExchangeState = x12, ev_Valuation = x13, ev_Exchange = x14,
           ev_Balances = x15, ev_HeldOutbound = x16, ev_HeldInbound = x17, ev_Deposit = x18, ev_Path = x19,
           ev_WatchID = x20, ev_Projection = x21, ev_Valuations = x22, ev_Removed = x23, ev_Order = x24, ev_Fill = x25,
           ev_Funding = x26, ev_Realm = x27, ev_Market = x28, ev_Interval = x29, ev_Candle = x30, ev_Bar = x31,
           ev_IsClosed = x32, ev_Trade = x33, ev_DriftCorrected = x34, ev_Twap = x35, ev_TwapID = x36,
           ev_ExecutedSize = x37, ev_ExecutedNotional = x38, ev_SliceCount = x39, ev_FilledSlices = x40,
           ev_FailedSlices = x41, ev_LastSliceStatus = x42, ev_EventID = x43, ev_CorrelationID = x44, ev_Sequence = x45,
           ev_Timestamp = x46, ev_DeliverySeq = x47\<rparr> }"

record WatchSnapshotBalanceEntry =
  wsbe_EntityID :: gostring
  wsbe_EntityPath :: gostring
  wsbe_Balances :: "BalanceValue list"

definition decode_WatchSnapshotBalanceEntry :: "jfields \<Rightarrow> WatchSnapshotBalanceEntry option" where
  "decode_WatchSnapshotBalanceEntry fs = do {
     x0 \<leftarrow> str_field ''entityId'' fs; x1 \<leftarrow> str_field ''entityPath'' fs;
     x2 \<leftarrow> structs_field decode_BalanceValue ''balances'' fs;
     Some \<lparr>wsbe_EntityID = x0, wsbe_EntityPath = x1, wsbe_Balances = x2\<rparr> }"

record WatchSnapshot =
  wsnap_Path :: gostring
  wsnap_Balances :: "WatchSnapshotBalanceEntry list"
  wsnap_Operations :: "Operation list"
  wsnap_BufferedOperations :: "Operation list"
  wsnap_Exchange :: "ExchangeState option"
  wsnap_Valuation :: "ObjectValuation option"
  wsnap_Valuations :: "(gostring \<times> ObjectValuation) list"
  wsnap_WatchID :: "gostring option"

definition decode_WatchSnapshot :: "(gostring \<Rightarrow> jtext) \<Rightarrow> jfields \<Rightarrow> WatchSnapshot option" where
  "decode_WatchSnapshot parse fs = do {
     x0 \<leftarrow> str_field ''path'' fs;
     x1 \<leftarrow> structs_field decode_WatchSnapshotBalanceEntry ''balances'' fs;
     x2 \<leftarrow> structs_field (decode_Operation parse) ''operations'' fs;
     x3 \<leftarrow> structs_field (decode_Operation parse) ''bufferedOperations'' fs;
     x4 \<leftarrow> structp_field decode_ExchangeState ''exchange'' fs;
     x5 \<leftarrow> structp_field decode_ObjectValuation ''valuation'' fs;
     x6 \<leftarrow> structmap_field decode_ObjectValuation ''valuations'' fs;
     x7 \<leftarrow> strp_field ''watchId'' fs;
     Some \<lparr>wsnap_Path = x0, wsnap_Balances = x1, wsnap_Operations = x2, wsnap_BufferedOperations = x3,
           wsnap_Exchange = x4, wsnap_Valuation = x5, wsnap_Valuations = x6, wsnap_WatchID = x7\<rparr> }"

end
