(* ===== verification/Event_Dispatch.thy ===== *)
theory Event_Dispatch
  imports Realm_Wire Connection
begin

text \<open>
  From a text frame of the socket to the handlers that hear it (\<^verbatim>\<open>websocket.go\<close>, \<^verbatim>\<open>events.go\<close>): the classification of a
  frame, the events it carries, the table of listeners and the typed listeners.  A handler is known by its
  name \<^verbatim>\<open>'h\<close>.  The lemmas show that a listener hears the events of its type that are dispatched while it
  is registered, each once and in order, and that a typed listener never meets a payload that is absent.
\<close>

section \<open>Event types\<close>

definition EventOperationCreated :: gostring where "EventOperationCreated = ''operation.created''"
definition EventEventCreated :: gostring where "EventEventCreated = ''event.created''"
definition EventObjectCreated :: gostring where "EventObjectCreated = ''object.created''"
definition EventObjectUpdated :: gostring where "EventObjectUpdated = ''object.updated''"
definition EventObjectDeleted :: gostring where "EventObjectDeleted = ''object.deleted''"
definition EventBalanceUpdated :: gostring where "EventBalanceUpdated = ''balance.updated''"
definition EventDepositDetected :: gostring where "EventDepositDetected = ''deposit.detected''"
definition EventExchangeUpdated :: gostring where "EventExchangeUpdated = ''exchange.updated''"
definition EventExchangeProvisioned :: gostring where "EventExchangeProvisioned = ''exchange.provisioned''"
definition EventExchangeReady :: gostring where "EventExchangeReady = ''exchange.ready''"
definition EventExchangeFunding :: gostring where "EventExchangeFunding = ''exchange.funding''"
definition EventAggregationUpdated :: gostring where "EventAggregationUpdated = ''aggregation.updated''"
definition EventMidsUpdated :: gostring where "EventMidsUpdated = ''mids.updated''"
definition EventCandleClosed :: gostring where "EventCandleClosed = ''candle.closed''"
definition EventCandleUpdated :: gostring where "EventCandleUpdated = ''candle.updated''"
definition EventOIUpdated :: gostring where "EventOIUpdated = ''oi.updated''"
definition EventTradeExecuted :: gostring where "EventTradeExecuted = ''trade.executed''"
definition EventTradesBatch :: gostring where "EventTradesBatch = ''trades.batch''"
definition EventObjectValuation :: gostring where "EventObjectValuation = ''object.valuation''"
definition EventTwapStarted :: gostring where "EventTwapStarted = ''twap.started''"
definition EventTwapProgress :: gostring where "EventTwapProgress = ''twap.progress''"
definition EventTwapCompleted :: gostring where "EventTwapCompleted = ''twap.completed''"
definition EventTwapCancelled :: gostring where "EventTwapCancelled = ''twap.cancelled''"
definition EventTwapFailed :: gostring where "EventTwapFailed = ''twap.failed''"
definition EventCollectorReferralReward :: gostring where "EventCollectorReferralReward = ''collector.referral_reward''"
definition EventCollectorRewardsClaimed :: gostring where "EventCollectorRewardsClaimed = ''collector.rewards_claimed''"
definition EventCollectorSwept :: gostring where "EventCollectorSwept = ''collector.swept''"
definition EventRealmCreated :: gostring where "EventRealmCreated = ''realm.created''"
definition EventAgentText :: gostring where "EventAgentText = ''agent.text''"
definition EventAgentToolUse :: gostring where "EventAgentToolUse = ''agent.tool_use''"
definition EventAgentPlan :: gostring where "EventAgentPlan = ''agent.plan''"
definition EventAgentConversationLog :: gostring where "EventAgentConversationLog = ''agent.conversation_log''"
definition EventAgentDone :: gostring where "EventAgentDone = ''agent.done''"
definition EventAgentStepUpdated :: gostring where "EventAgentStepUpdated = ''agent.step_updated''"
definition EventAgentExecutionDone :: gostring where "EventAgentExecutionDone = ''agent.execution_done''"

section \<open>Frames\<close>

record message_head =
  mh_Type :: gostring
  mh_RequestID :: gostring
  mh_DeliverySeq :: "int option"

definition decode_message_head :: "jtext \<Rightarrow> message_head option" where
  "decode_message_head data = do {
     fs \<leftarrow> text_fields data; t \<leftarrow> str_field ''type'' fs; r \<leftarrow> str_field ''requestId'' fs; n \<leftarrow> intp_field ''deliverySeq'' fs;
     Some \<lparr>mh_Type = t, mh_RequestID = r, mh_DeliverySeq = n\<rparr> }"

text \<open>
  The lifetime an authentication reports, in nanoseconds: a positive figure, multiplied and truncated as a double.  A product
  beyond 64 bits becomes the smallest integer, as on \<^verbatim>\<open>amd64\<close>.
\<close>

definition floatp_field :: "gostring \<Rightarrow> jfields \<Rightarrow> rat option option" where
  "floatp_field k fs =
     foldl (\<lambda>acc v. case (acc, v) of
                (None, _) \<Rightarrow> None
              | (Some x, JNull) \<Rightarrow> Some None
              | (Some x, JNum t) \<Rightarrow> (case ParseFloat t of (Fin q, False) \<Rightarrow> Some (Some q) | _ \<Rightarrow> None)
              | _ \<Rightarrow> None) (Some None) (field_values k fs)"

definition duration_of :: "rat \<Rightarrow> int" where
  "duration_of sec = (let ns = floor (magnitude (sec * 1000000000)) in if ns < 2 ^ 63 then ns else - (2 ^ 63))"

definition reported_lifetime :: "jtext \<Rightarrow> int option" where
  "reported_lifetime data =
     (case Option.bind (text_fields data) (floatp_field ''maxConnectionLifetimeSec'') of
        Some (Some sec) \<Rightarrow> if sec \<le> 0 then None else Some (duration_of sec)
      | _ \<Rightarrow> None)"

definition reply_types :: "gostring list" where
  "reply_types = [''events_subscribed'', ''projection_watch_created'', ''projection_watch_updated'',
     ''aggregation_watch_created'', ''chart_snapshot_watch_created'']"

text \<open>What the manager does with a frame: the classification \<^const>\<open>handleMessage\<close> acts on.\<close>

definition classify :: "(gostring \<Rightarrow> jtext) \<Rightarrow> jtext \<Rightarrow> frame option" where
  "classify parse data =
     map_option (\<lambda>h.
       if mh_Type h = ''pong'' then Pong
       else if mh_Type h = ''stream.resync'' then Resync (mh_DeliverySeq h)
       else if mh_Type h = ''authenticated'' then Authenticated (reported_lifetime data)
       else if mh_Type h = ''error'' then ErrorFrame (mh_RequestID h)
       else if mh_Type h \<in> set reply_types then Reply (mh_RequestID h)
       else if mh_Type h = ''watch_snapshot'' then
         (case Option.bind (text_fields data) (decode_WatchSnapshot parse) of
            Some sn \<Rightarrow> WatchSnapshot (wsnap_Path sn) (mh_RequestID h)
          | None \<Rightarrow> Reply (mh_RequestID h))
       else if mh_Type h = ''mids.snapshot'' then EventFrame None
       else EventFrame (mh_DeliverySeq h)) (decode_message_head data)"

text \<open>An event of which nothing is set.\<close>

definition no_event :: StreamEvent where
  "no_event =
     \<lparr>ev_RealmID = [], ev_Type = [], ev_EntityID = [], ev_EntityPath = [], ev_Aggregation = None, ev_Summary = None,
      ev_Operation = None, ev_Event = None, ev_Object = None, ev_Mids = None, ev_MarketDataAsOf = [],
      ev_ExchangeStateUnavailable = False, ev_ExchangeState = None, ev_Valuation = None, ev_Exchange = None,
      ev_Balances = [], ev_HeldOutbound = [], ev_HeldInbound = [], ev_Deposit = None, ev_Path = [], ev_WatchID = [],
      ev_Projection = [], ev_Valuations = [], ev_Removed = [], ev_Order = None, ev_Fill = None, ev_Funding = None,
      ev_Realm = None, ev_Market = [], ev_Interval = [], ev_Candle = None, ev_Bar = None, ev_IsClosed = False,
      ev_Trade = None, ev_DriftCorrected = False, ev_Twap = None, ev_TwapID = [], ev_ExecutedSize = [],
      ev_ExecutedNotional = [], ev_SliceCount = 0, ev_FilledSlices = 0, ev_FailedSlices = 0, ev_LastSliceStatus = [],
      ev_EventID = [], ev_CorrelationID = [], ev_Sequence = 0, ev_Timestamp = [], ev_DeliverySeq = 0\<rparr>"

text \<open>Batches: one event per item.\<close>

definition decode_candle_item :: "jfields \<Rightarrow> StreamEvent option" where
  "decode_candle_item fs = do {
     mkt \<leftarrow> str_field ''market'' fs; iv \<leftarrow> str_field ''interval'' fs; c \<leftarrow> structp_field decode_Candle ''candle'' fs;
     Some (no_event\<lparr>ev_Type := EventCandleUpdated, ev_Market := mkt, ev_Interval := iv, ev_Candle := c\<rparr>) }"

definition candle_events :: "jfields \<Rightarrow> StreamEvent list option" where
  "candle_events fs = structs_field decode_candle_item ''candles'' fs"

definition oi_events :: "jfields \<Rightarrow> StreamEvent list option" where
  "oi_events fs = do {
     mkt \<leftarrow> str_field ''market'' fs; iv \<leftarrow> str_field ''interval'' fs; b \<leftarrow> structp_field decode_OIBar ''oi'' fs;
     cl \<leftarrow> bool_field ''isClosed'' fs;
     Some (if b = None then []
           else [no_event\<lparr>ev_Type := EventOIUpdated, ev_Market := mkt, ev_Interval := iv, ev_Bar := b, ev_IsClosed := cl\<rparr>]) }"

definition trade_events :: "jfields \<Rightarrow> StreamEvent list option" where
  "trade_events fs =
     map_option (map (\<lambda>t. no_event\<lparr>ev_Type := EventTradeExecuted, ev_Market := mt_Market t, ev_Trade := Some t\<rparr>))
       (structs_field decode_MarketTrade ''trades'' fs)"

definition mids_events :: "jfields \<Rightarrow> StreamEvent list option" where
  "mids_events fs =
     map_option (\<lambda>m. if m = None then [] else [no_event\<lparr>ev_Type := EventMidsUpdated, ev_Mids := m\<rparr>])
       (strmapp_field ''mids'' fs)"

definition snapshot_events :: "(gostring \<Rightarrow> jtext) \<Rightarrow> jfields \<Rightarrow> StreamEvent list option" where
  "snapshot_events parse fs = map_option (\<lambda>ev. [ev\<lparr>ev_Type := ''watch_snapshot''\<rparr>]) (decode_StreamEvent parse fs)"

definition plain_events :: "(gostring \<Rightarrow> jtext) \<Rightarrow> jfields \<Rightarrow> StreamEvent list option" where
  "plain_events parse fs = map_option (\<lambda>ev. [ev]) (decode_StreamEvent parse fs)"

text \<open>Frames that control the connection or answer a request are never dispatched.\<close>

definition control_types :: "gostring list" where
  "control_types = [''pong'', ''stream.resync'', ''authenticated'', ''error''] @ reply_types"

definition frame_events :: "(gostring \<Rightarrow> jtext) \<Rightarrow> jtext \<Rightarrow> StreamEvent list" where
  "frame_events parse data =
     (case (decode_message_head data, text_fields data) of
        (Some h, Some fs) \<Rightarrow>
          (let t = mh_Type h;
               evs = (if t \<in> set control_types then Some []
                      else if t = ''watch_snapshot'' then snapshot_events parse fs
                      else if t = ''mids.snapshot'' then mids_events fs
                      else if t = ''candles.updated'' then candle_events fs
                      else if t = ''oi.updated'' then oi_events fs
                      else if t = ''trades.batch'' then trade_events fs
                      else plain_events parse fs) in
           case evs of Some es \<Rightarrow> es | None \<Rightarrow> [])
      | _ \<Rightarrow> [])"

section \<open>Listeners\<close>

text \<open>The handlers of each event type, by id; a type without handlers has no entry.  \<^verbatim>\<open>*\<close> hears every event.\<close>

record 'h hub =
  hb_next :: nat
  hb_listeners :: "(gostring \<times> (nat \<times> 'h) list) list"

definition new_hub :: "'h hub" where
  "new_hub = \<lparr>hb_next = 0, hb_listeners = []\<rparr>"

definition listeners_of :: "gostring \<Rightarrow> 'h hub \<Rightarrow> (nat \<times> 'h) list" where
  "listeners_of t hub = (case map_of (hb_listeners hub) t of Some hs \<Rightarrow> hs | None \<Rightarrow> [])"

definition put_listeners :: "gostring \<Rightarrow> (nat \<times> 'h) list \<Rightarrow> 'h hub \<Rightarrow> 'h hub" where
  "put_listeners t hs hub =
     hub\<lparr>hb_listeners := (if hs = [] then [] else [(t, hs)]) @ filter (\<lambda>p. fst p \<noteq> t) (hb_listeners hub)\<rparr>"

definition On :: "gostring \<Rightarrow> 'h \<Rightarrow> 'h hub \<Rightarrow> nat \<times> 'h hub" where
  "On t h hub =
     (hb_next hub, put_listeners t (listeners_of t hub @ [(hb_next hub, h)]) (hub\<lparr>hb_next := hb_next hub + 1\<rparr>))"

definition off :: "gostring \<Rightarrow> nat \<Rightarrow> 'h hub \<Rightarrow> 'h hub" where
  "off t i hub = put_listeners t (filter (\<lambda>p. fst p \<noteq> i) (listeners_of t hub)) hub"

text \<open>The calls a dispatch makes.\<close>

definition dispatch :: "StreamEvent \<Rightarrow> 'h hub \<Rightarrow> (nat \<times> 'h \<times> StreamEvent) list" where
  "dispatch ev hub = map (\<lambda>(i, h). (i, h, ev)) (listeners_of (ev_Type ev) hub @ listeners_of ''*'' hub)"

datatype 'h hub_op = Listen gostring 'h | Unlisten gostring nat | Arrive jtext | EmitLocal StreamEvent

definition op_events :: "(gostring \<Rightarrow> jtext) \<Rightarrow> 'h hub_op \<Rightarrow> StreamEvent list" where
  "op_events parse x = (case x of Arrive data \<Rightarrow> frame_events parse data | EmitLocal ev \<Rightarrow> [ev] | _ \<Rightarrow> [])"

fun hub_step :: "(gostring \<Rightarrow> jtext) \<Rightarrow> 'h hub_op \<Rightarrow> 'h hub \<Rightarrow> 'h hub \<times> (nat \<times> 'h \<times> StreamEvent) list" where
  "hub_step parse (Listen t h) hub = (snd (On t h hub), [])"
| "hub_step parse (Unlisten t i) hub = (off t i hub, [])"
| "hub_step parse (Arrive data) hub = (hub, concat (map (\<lambda>ev. dispatch ev hub) (frame_events parse data)))"
| "hub_step parse (EmitLocal ev) hub = (hub, dispatch ev hub)"

fun run_hub :: "(gostring \<Rightarrow> jtext) \<Rightarrow> 'h hub_op list \<Rightarrow> 'h hub \<Rightarrow> 'h hub \<times> (nat \<times> 'h \<times> StreamEvent) list" where
  "run_hub parse [] hub = (hub, [])"
| "run_hub parse (x # xs) hub =
     (case hub_step parse x hub of (hub1, cs) \<Rightarrow> case run_hub parse xs hub1 of (hub2, cs') \<Rightarrow> (hub2, cs @ cs'))"

definition calls_to :: "nat \<Rightarrow> (nat \<times> 'h \<times> StreamEvent) list \<Rightarrow> StreamEvent list" where
  "calls_to i cs = map (\<lambda>(j, h, ev). ev) (filter (\<lambda>(j, h, ev). j = i) cs)"

section \<open>Typed listeners\<close>

text \<open>The type each convenience listener is registered for, and whether its callback is called.\<close>

datatype typed = OnOperationUpdated | OnBalanceUpdated | OnDepositDetected | OnAggregationUpdated | OnObjectValuation
  | OnFillPreviewed | OnFillRecorded | OnExchangeFunding | OnExchangeNotification | OnMidsUpdated | OnCandleUpdated
  | OnOIUpdated | OnTradeExecuted

definition typed_event :: "typed \<Rightarrow> gostring" where
  "typed_event k = (case k of
       OnOperationUpdated \<Rightarrow> EventOperationUpdated | OnBalanceUpdated \<Rightarrow> EventBalanceUpdated
     | OnDepositDetected \<Rightarrow> EventDepositDetected | OnAggregationUpdated \<Rightarrow> EventAggregationUpdated
     | OnObjectValuation \<Rightarrow> EventObjectValuation | OnFillPreviewed \<Rightarrow> EventFillPreviewed
     | OnFillRecorded \<Rightarrow> EventFillRecorded | OnExchangeFunding \<Rightarrow> EventExchangeFunding
     | OnExchangeNotification \<Rightarrow> EventExchangeUpdated | OnMidsUpdated \<Rightarrow> EventMidsUpdated
     | OnCandleUpdated \<Rightarrow> EventCandleUpdated | OnOIUpdated \<Rightarrow> EventOIUpdated | OnTradeExecuted \<Rightarrow> EventTradeExecuted)"

definition typed_calls :: "typed \<Rightarrow> StreamEvent \<Rightarrow> bool" where
  "typed_calls k ev = (case k of
       OnOperationUpdated \<Rightarrow> ev_Operation ev \<noteq> None | OnBalanceUpdated \<Rightarrow> ev_EntityID ev \<noteq> []
     | OnDepositDetected \<Rightarrow> ev_Deposit ev \<noteq> None | OnAggregationUpdated \<Rightarrow> ev_EntityID ev \<noteq> []
     | OnObjectValuation \<Rightarrow> ev_Path ev \<noteq> [] \<and> ev_WatchID ev \<noteq> [] | OnFillPreviewed \<Rightarrow> ev_Fill ev \<noteq> None
     | OnFillRecorded \<Rightarrow> True | OnExchangeFunding \<Rightarrow> ev_Funding ev \<noteq> None | OnExchangeNotification \<Rightarrow> True
     | OnMidsUpdated \<Rightarrow> ev_Mids ev \<noteq> None | OnCandleUpdated \<Rightarrow> True | OnOIUpdated \<Rightarrow> True
     | OnTradeExecuted \<Rightarrow> ev_Trade ev \<noteq> None)"

section \<open>Who hears what\<close>

lemma listeners_of_put:
  fixes hub :: "'h hub"
  shows "listeners_of t' (put_listeners t hs hub) = (if t' = t then hs else listeners_of t' hub)"
proof -
  have m: "map_of (filter (\<lambda>p. fst p \<noteq> t) l) u = (if u = t then None else map_of l u)"
    for u and l :: "(gostring \<times> (nat \<times> 'h) list) list"
    by (induction l) auto
  show ?thesis by (auto simp: listeners_of_def put_listeners_def m)
qed

lemma put_listeners_next [simp]: "hb_next (put_listeners t hs hub) = hb_next hub"
  by (simp add: put_listeners_def)

lemma listeners_of_next [simp]: "listeners_of t (hub\<lparr>hb_next := n\<rparr>) = listeners_of t hub"
  by (simp add: listeners_of_def)

lemma listeners_of_On:
  "listeners_of t' (snd (On t h hub)) = listeners_of t' hub @ (if t' = t then [(hb_next hub, h)] else [])"
  by (simp add: On_def listeners_of_put)

lemma listeners_of_off:
  "listeners_of t' (off t i hub) = (if t' = t then filter (\<lambda>p. fst p \<noteq> i) (listeners_of t hub) else listeners_of t' hub)"
  by (simp add: off_def listeners_of_put)

lemma On_next [simp]: "hb_next (snd (On t h hub)) = Suc (hb_next hub)" "fst (On t h hub) = hb_next hub"
  by (simp_all add: On_def)

lemma off_next [simp]: "hb_next (off t i hub) = hb_next hub"
  by (simp add: off_def)

text \<open>Ids are given once, so a later listener never takes an id that is in the table.\<close>

definition hub_ok :: "'h hub \<Rightarrow> bool" where
  "hub_ok hub \<longleftrightarrow> (\<forall>t p. p \<in> set (listeners_of t hub) \<longrightarrow> fst p < hb_next hub)"

lemma hub_ok_new: "hub_ok new_hub"
  by (simp add: hub_ok_def new_hub_def listeners_of_def)

lemma hub_ok_step: "hub_ok hub \<Longrightarrow> hub_ok (fst (hub_step parse x hub))"
  by (cases x) (fastforce simp: hub_ok_def listeners_of_On listeners_of_off less_Suc_eq split: if_splits)+

text \<open>The entry of listener \<^verbatim>\<open>i\<close>: under \<^verbatim>\<open>t\<close> alone, once; or nowhere.\<close>

definition entry_of :: "nat \<Rightarrow> (gostring \<times> 'h) option \<Rightarrow> 'h hub \<Rightarrow> bool" where
  "entry_of i e hub \<longleftrightarrow>
     i < hb_next hub
     \<and> (\<forall>t. filter (\<lambda>p. fst p = i) (listeners_of t hub) = (case e of Some (u, h) \<Rightarrow> if t = u then [(i, h)] else [] | None \<Rightarrow> []))"

lemma entry_of_On: "hub_ok hub \<Longrightarrow> On t h hub = (i, hub1) \<Longrightarrow> entry_of i (Some (t, h)) hub1"
proof -
  assume ok: "hub_ok hub" and on: "On t h hub = (i, hub1)"
  have i: "i = hb_next hub" and hub1: "hub1 = snd (On t h hub)" using on by (auto simp: On_def)
  have "filter (\<lambda>p. fst p = i) (listeners_of t' hub) = []" for t'
    using ok i by (fastforce simp: hub_ok_def filter_empty_conv)
  then show ?thesis using i hub1 by (auto simp: entry_of_def listeners_of_On)
qed

lemma filter_but: "filter (\<lambda>p. fst p \<noteq> j \<and> fst p = i) l = (if i = j then [] else filter (\<lambda>p. fst p = i) l)"
  by (induction l) auto

lemma entry_of_off: "entry_of i (Some (t, h)) hub \<Longrightarrow> entry_of i None (off t i hub)"
  by (simp add: entry_of_def listeners_of_off filter_but)

lemma entry_of_step:
  assumes e: "entry_of i e hub" and other: "case e of Some (t, h) \<Rightarrow> x \<noteq> Unlisten t i | None \<Rightarrow> True"
  shows "entry_of i e (fst (hub_step parse x hub))"
proof (cases x)
  case (Listen t h)
  then show ?thesis using e by (auto simp: entry_of_def listeners_of_On split: option.splits)
next
  case (Unlisten t j)
  show ?thesis using e other Unlisten
    by (auto simp: entry_of_def listeners_of_off filter_but split: option.splits)
qed (use e in simp_all)

lemma calls_to_append [simp]: "calls_to i (cs @ ds') = calls_to i cs @ calls_to i ds'"
  by (simp add: calls_to_def)

lemma calls_to_map: "calls_to i (map (\<lambda>(j, h). (j, h, ev)) hs) = map (\<lambda>_. ev) (filter (\<lambda>p. fst p = i) hs)"
  by (induction hs) (auto simp: calls_to_def)

definition heard :: "(gostring \<times> 'h) option \<Rightarrow> StreamEvent list \<Rightarrow> StreamEvent list" where
  "heard e evs = (case e of Some (t, h) \<Rightarrow> filter (\<lambda>ev. t = ev_Type ev \<or> t = ''*'') evs | None \<Rightarrow> [])"

lemma heard_append [simp]: "heard e (xs @ ys) = heard e xs @ heard e ys"
  by (simp add: heard_def split: option.split)

lemma calls_dispatch:
  assumes "entry_of i e hub" "ev_Type ev \<noteq> ''*''"
  shows "calls_to i (dispatch ev hub) = heard e [ev]"
  using assms by (auto simp: dispatch_def calls_to_map entry_of_def heard_def split: option.splits)

lemma calls_dispatches:
  assumes "entry_of i e hub" "\<forall>ev \<in> set evs. ev_Type ev \<noteq> ''*''"
  shows "calls_to i (concat (map (\<lambda>ev. dispatch ev hub) evs)) = heard e evs"
  using assms(2)
proof (induction evs)
  case Nil
  then show ?case by (simp add: calls_to_def heard_def split: option.split)
next
  case (Cons ev evs)
  have "heard e (ev # evs) = heard e [ev] @ heard e evs" using heard_append [of e "[ev]" evs] by simp
  then show ?case using Cons calls_dispatch [OF assms(1), of ev] by simp
qed

lemma calls_step:
  assumes "entry_of i e hub" "\<forall>ev \<in> set (op_events parse x). ev_Type ev \<noteq> ''*''"
  shows "calls_to i (snd (hub_step parse x hub)) = heard e (op_events parse x)"
  using assms calls_dispatches [of i e hub "op_events parse x"]
  by (cases x) (auto simp: op_events_def calls_to_def heard_def split: option.split)

lemma calls_run:
  assumes "entry_of i e hub" "case e of Some (t, h) \<Rightarrow> Unlisten t i \<notin> set ops | None \<Rightarrow> True"
    and "\<forall>x \<in> set ops. \<forall>ev \<in> set (op_events parse x). ev_Type ev \<noteq> ''*''"
  shows "calls_to i (snd (run_hub parse ops hub)) = heard e (concat (map (op_events parse) ops))
    \<and> entry_of i e (fst (run_hub parse ops hub))"
  using assms
proof (induction ops arbitrary: hub)
  case Nil
  then show ?case by (simp add: calls_to_def heard_def split: option.split)
next
  case (Cons x ops)
  have keep: "entry_of i e (fst (hub_step parse x hub))"
    by (rule entry_of_step [OF Cons.prems(1)]) (use Cons.prems(2) in \<open>auto split: option.splits\<close>)
  have rest: "case e of Some (t, h) \<Rightarrow> Unlisten t i \<notin> set ops | None \<Rightarrow> True"
    using Cons.prems(2) by (auto split: option.splits)
  note ih = Cons.IH [OF keep rest]
  have "calls_to i (snd (hub_step parse x hub)) = heard e (op_events parse x)"
    using calls_step [OF Cons.prems(1)] Cons.prems(3) by simp
  then show ?case using ih Cons.prems(3) by (simp add: case_prod_beta)
qed

text \<open>
  A listener hears the events of its type that are dispatched between its registration and its removal, each once and in
  order, whatever other listeners come and go.
\<close>

theorem listener_hears_its_events:
  fixes hub :: "'h hub"
  assumes "hub_ok hub" "On t h hub = (i, hub1)" "Unlisten t i \<notin> set ops"
    and plain: "\<forall>x \<in> set (ops @ ops'). \<forall>ev \<in> set (op_events parse x). ev_Type ev \<noteq> ''*''"
  shows "calls_to i (snd (run_hub parse ops hub1))
           = filter (\<lambda>ev. t = ev_Type ev \<or> t = ''*'') (concat (map (op_events parse) ops))
    \<and> calls_to i (snd (run_hub parse ops' (off t i (fst (run_hub parse ops hub1))))) = []"
proof -
  note first = calls_run [OF entry_of_On [OF assms(1,2)], of ops parse]
  have one: "calls_to i (snd (run_hub parse ops hub1)) = heard (Some (t, h)) (concat (map (op_events parse) ops))"
    "entry_of i (Some (t, h)) (fst (run_hub parse ops hub1))"
    using first assms(3) plain by auto
  have "calls_to i (snd (run_hub parse ops' (off t i (fst (run_hub parse ops hub1))))) = heard (None :: (gostring \<times> 'h) option) (concat (map (op_events parse) ops'))"
    using calls_run [OF entry_of_off [OF one(2)], of ops' parse] plain by (simp add: ball_Un)
  then show ?thesis using one(1) by (simp add: heard_def)
qed

text \<open>Frames that control the connection, or that the manager cannot read, reach no listener.\<close>

lemma classify_event:
  assumes "decode_message_head data = Some h" "mh_Type h \<notin> set control_types"
  shows "(\<exists>n. classify parse data = Some (EventFrame n)) \<or> (\<exists>r. classify parse data = Some (Reply r))
    \<or> (\<exists>p r. classify parse data = Some (WatchSnapshot p r))"
  using assms by (simp add: classify_def control_types_def split: option.split)

lemma control_frames_dispatch_nothing:
  assumes "classify parse data = None \<or> classify parse data = Some Pong \<or> classify parse data = Some (Resync n)
    \<or> classify parse data = Some (Authenticated a) \<or> classify parse data = Some (ErrorFrame r)"
  shows "frame_events parse data = []"
proof (cases "decode_message_head data")
  case None
  then show ?thesis by (simp add: frame_events_def)
next
  case (Some h)
  have "mh_Type h \<in> set control_types"
    using classify_event [OF Some, of parse] assms by (cases "mh_Type h \<in> set control_types") auto
  then show ?thesis using Some by (simp add: frame_events_def Let_def split: option.split)
qed

text \<open>A callback whose payload is a pointer is called only when the pointer is set.\<close>

lemma typed_payload_present:
  "typed_calls OnOperationUpdated ev \<Longrightarrow> \<exists>x. ev_Operation ev = Some x"
  "typed_calls OnDepositDetected ev \<Longrightarrow> \<exists>x. ev_Deposit ev = Some x"
  "typed_calls OnFillPreviewed ev \<Longrightarrow> \<exists>x. ev_Fill ev = Some x"
  "typed_calls OnExchangeFunding ev \<Longrightarrow> \<exists>x. ev_Funding ev = Some x"
  "typed_calls OnTradeExecuted ev \<Longrightarrow> \<exists>x. ev_Trade ev = Some x"
  by (auto simp: typed_calls_def)

end
