(* ===== verification/Watch_Feeds.thy ===== *)
theory Watch_Feeds
  imports Event_Dispatch Watch_Stream
begin

text \<open>
  The streams that forward one kind of event (\<^verbatim>\<open>streams.go\<close>): prices, operations, balances, one object, fills and funding of
  one exchange object, candles, open interest, trades and one TWAP.  Opening a stream takes subscriptions from the registry
  of \<^theory_text>\<open>Subscriptions\<close> and listeners from the table of \<^theory_text>\<open>Event_Dispatch\<close>; closing it returns them.  The path
  watch of a stream is taken by a goroutine of its own, which is a step of its own.  The lemmas show that the streams
  return what they took and show exactly the events that are theirs.
\<close>

section \<open>Updates\<close>

record BalanceUpdate =
  bu_EntityID :: gostring
  bu_EntityPath :: gostring
  bu_Balances :: "ArcaBalance list"

record CandleUpdate =
  cu_Market :: gostring
  cu_Interval :: gostring
  cu_Candle :: Candle

record OIUpdate =
  ou_Market :: gostring
  ou_Interval :: gostring
  ou_Bar :: OIBar
  ou_IsClosed :: bool

datatype feed_update = PricesUpdate "gostring \<rightharpoonup> gostring" | OperationUpdate Operation | BalanceUpdated BalanceUpdate
  | ValuationUpdate ObjectValuation | FillUpdate Fill | FundingUpdate FundingPayment | CandleUpdated CandleUpdate
  | OIUpdated OIUpdate | TradeUpdate MarketTrade | TwapUpdate Twap

section \<open>Handlers\<close>

text \<open>\<^verbatim>\<open>PriceWatchStream.merge\<close>: the new mids over the prices held.\<close>

definition merge_prices :: "(gostring \<rightharpoonup> gostring) \<Rightarrow> (gostring \<times> gostring) list \<Rightarrow> gostring \<rightharpoonup> gostring" where
  "merge_prices prices mids = prices ++ map_of (rev mids)"

definition operation_handler :: "StreamEvent \<Rightarrow> feed_update option" where
  "operation_handler ev = map_option OperationUpdate (ev_Operation ev)"

definition balance_handler :: "StreamEvent \<Rightarrow> feed_update option" where
  "balance_handler ev =
     (if ev_EntityID ev = [] then None
      else Some (BalanceUpdated \<lparr>bu_EntityID = ev_EntityID ev, bu_EntityPath = ev_EntityPath ev, bu_Balances = ev_Balances ev\<rparr>))"

definition object_handler :: "gostring \<Rightarrow> StreamEvent \<Rightarrow> feed_update option" where
  "object_handler path ev =
     (if typed_calls OnObjectValuation ev \<and> ev_Path ev = path then map_option ValuationUpdate (ev_Valuation ev) else None)"

text \<open>Ten fields of the venue's fill; the others stay empty.\<close>

definition fill_of_event :: "SimFill \<Rightarrow> Fill" where
  "fill_of_event f =
     \<lparr>fl_ID = sf_ID f, fl_OperationID = [], fl_FillID = [], fl_ObjectID = [], fl_OrderOperationID = [], fl_OrderID = sf_OrderID f,
      fl_Market = sf_Market f, fl_Side = sf_Side f, fl_Size = sf_Size f, fl_Price = sf_Price f, fl_Direction = [],
      fl_StartPosition = [], fl_Fee = sf_Fee f, fl_ExchangeFee = [], fl_PlatformFee = [], fl_BuilderFee = [], fl_RealizedPnl = [],
      fl_ResultingPosition = None, fl_IsLiquidation = sf_IsLiquidation f, fl_CreatedAt = sf_CreatedAt f,
      fl_IsOptimistic = sf_IsOptimistic f, fl_IsTrigger = None, fl_Tpsl = [], fl_TriggerPx = [], fl_LiquidationKind = []\<rparr>"

definition fill_handler :: "gostring \<Rightarrow> gostring \<Rightarrow> StreamEvent \<Rightarrow> feed_update option" where
  "fill_handler objectID objectPath ev =
     (if ev_EntityID ev \<noteq> objectID \<and> ev_EntityPath ev \<noteq> objectPath then None
      else map_option (\<lambda>f. FillUpdate (fill_of_event f)) (ev_Fill ev))"

definition funding_handler :: "gostring \<Rightarrow> gostring \<Rightarrow> StreamEvent \<Rightarrow> feed_update option" where
  "funding_handler objectID objectPath ev =
     (if ev_EntityID ev \<noteq> objectID \<and> ev_EntityPath ev \<noteq> objectPath then None
      else map_option FundingUpdate (ev_Funding ev))"

definition candle_handler :: "StreamEvent \<Rightarrow> feed_update option" where
  "candle_handler ev =
     map_option (\<lambda>c. CandleUpdated \<lparr>cu_Market = ev_Market ev, cu_Interval = ev_Interval ev, cu_Candle = c\<rparr>) (ev_Candle ev)"

definition oi_handler :: "StreamEvent \<Rightarrow> feed_update option" where
  "oi_handler ev =
     map_option (\<lambda>b. OIUpdated \<lparr>ou_Market = ev_Market ev, ou_Interval = ev_Interval ev, ou_Bar = b, ou_IsClosed = ev_IsClosed ev\<rparr>)
       (ev_Bar ev)"

definition trade_handler :: "StreamEvent \<Rightarrow> feed_update option" where
  "trade_handler ev = map_option TradeUpdate (ev_Trade ev)"

definition twap_handler :: "gostring \<Rightarrow> StreamEvent \<Rightarrow> feed_update option" where
  "twap_handler operationID ev =
     (if ev_TwapID ev \<noteq> [] \<and> ev_TwapID ev \<noteq> operationID \<and> ev_EntityID ev \<noteq> operationID then None
      else map_option TwapUpdate (ev_Twap ev))"

section \<open>Streams\<close>

datatype feed_kind = Prices "gostring list" | Operations gostring | Balances gostring | Object gostring
  | Fills gostring gostring | FundingOf gostring gostring | Candles "gostring list" "gostring list"
  | OI "gostring list" "gostring list" | Trades "gostring list" | TwapOf gostring

datatype feed_release = OffListener gostring nat | MidsRelease "gostring list" | PathRelease gostring
  | CandlesRelease "gostring list" "gostring list" | OIRelease "gostring list" "gostring list" | TradesRelease "gostring list"

record feed =
  fd_kind :: feed_kind
  fd_prices :: "gostring \<rightharpoonup> gostring"
  fd_base :: "(feed_update, feed_release) WatchStream"

text \<open>
  The part of the client the streams share.  A handler of the hub is the index of its stream; \<^verbatim>\<open>dk_watching\<close> are the goroutines
  that have not run \<^verbatim>\<open>watchPath\<close> yet.
\<close>

record desk =
  dk_subs :: subs
  dk_hub :: "nat hub"
  dk_feeds :: "feed list"
  dk_watching :: "(nat \<times> gostring) list"

definition new_desk :: desk where
  "new_desk = \<lparr>dk_subs = no_subs, dk_hub = new_hub, dk_feeds = [], dk_watching = []\<rparr>"

text \<open>The event types a stream listens to, in the order it registers for them.\<close>

definition feed_types :: "feed_kind \<Rightarrow> gostring list" where
  "feed_types k = (case k of
       Prices _ \<Rightarrow> [EventMidsUpdated] | Operations _ \<Rightarrow> [EventOperationCreated, EventOperationUpdated]
     | Balances _ \<Rightarrow> [EventBalanceUpdated] | Object _ \<Rightarrow> [EventObjectValuation]
     | Fills _ _ \<Rightarrow> [EventFillPreviewed, EventFillRecorded] | FundingOf _ _ \<Rightarrow> [EventExchangeFunding]
     | Candles _ _ \<Rightarrow> [EventCandleUpdated] | OI _ _ \<Rightarrow> [EventOIUpdated] | Trades _ \<Rightarrow> [EventTradeExecuted]
     | TwapOf _ \<Rightarrow> [EventTwapStarted, EventTwapProgress, EventTwapCompleted, EventTwapCancelled, EventTwapFailed])"

definition feed_handler :: "feed_kind \<Rightarrow> (gostring \<rightharpoonup> gostring) \<Rightarrow> StreamEvent \<Rightarrow> feed_update option" where
  "feed_handler k prices ev = (case k of
       Prices _ \<Rightarrow> map_option (\<lambda>m. PricesUpdate (merge_prices prices m)) (ev_Mids ev)
     | Operations _ \<Rightarrow> operation_handler ev | Balances _ \<Rightarrow> balance_handler ev | Object path \<Rightarrow> object_handler path ev
     | Fills i p \<Rightarrow> fill_handler i p ev | FundingOf i p \<Rightarrow> funding_handler i p ev | Candles _ _ \<Rightarrow> candle_handler ev
     | OI _ _ \<Rightarrow> oi_handler ev | Trades _ \<Rightarrow> trade_handler ev | TwapOf i \<Rightarrow> twap_handler i ev)"

text \<open>One listener per type, each with its release.\<close>

fun listen_all ::
    "gostring list \<Rightarrow> nat \<Rightarrow> (feed_update, feed_release) WatchStream \<times> nat hub \<Rightarrow> (feed_update, feed_release) WatchStream \<times> nat hub" where
  "listen_all [] i (s, hub) = (s, hub)"
| "listen_all (t # ts) i (s, hub) =
     (case On t i hub of (j, hub1) \<Rightarrow> listen_all ts i (addUnsub (OffListener t j) s, hub1))"

text \<open>Opening: the subscription, the listeners, the release of the subscription, the goroutine of the path watch.\<close>

definition open_feed :: "feed_kind \<Rightarrow> (subs \<Rightarrow> sub_result) option \<Rightarrow> feed_release option \<Rightarrow> gostring option \<Rightarrow> desk \<Rightarrow> desk" where
  "open_feed k acquire release path d =
     (let i = length (dk_feeds d); (s, hub) = listen_all (feed_types k) i (newWatchStream, dk_hub d);
          s1 = (case release of Some u \<Rightarrow> addUnsub u s | None \<Rightarrow> s) in
      d\<lparr>dk_subs := (case acquire of Some f \<Rightarrow> fst (f (dk_subs d)) | None \<Rightarrow> dk_subs d), dk_hub := hub,
        dk_feeds := dk_feeds d @ [\<lparr>fd_kind = k, fd_prices = Map.empty, fd_base = s1\<rparr>],
        dk_watching := dk_watching d @ (case path of Some p \<Rightarrow> [(i, p)] | None \<Rightarrow> [])\<rparr>)"

definition WatchPrices :: "gostring \<Rightarrow> gostring list \<Rightarrow> desk \<Rightarrow> desk" where
  "WatchPrices exchange coins =
     open_feed (Prices coins) (Some (acquireMids (if exchange = [] then ''sim'' else exchange) coins)) (Some (MidsRelease coins)) None"

definition WatchOperations :: "gostring \<Rightarrow> desk \<Rightarrow> desk" where
  "WatchOperations path =
     (let p = (if path = [] then ''/'' else path) in open_feed (Operations p) None (Some (PathRelease p)) (Some p))"

definition WatchBalances :: "gostring \<Rightarrow> desk \<Rightarrow> desk" where
  "WatchBalances path =
     (let p = (if path = [] then ''/'' else path) in open_feed (Balances p) None (Some (PathRelease p)) (Some p))"

definition WatchObject :: "gostring \<Rightarrow> desk \<Rightarrow> desk" where
  "WatchObject path = open_feed (Object path) None (Some (PathRelease path)) (Some path)"

text \<open>\<^verbatim>\<open>detail\<close> is the object's path, read first.\<close>

definition WatchFills :: "gostring \<Rightarrow> error + gostring \<Rightarrow> desk \<Rightarrow> desk" where
  "WatchFills objectID detail =
     (case detail of Inl _ \<Rightarrow> (\<lambda>d. d) | Inr p \<Rightarrow> open_feed (Fills objectID p) None (Some (PathRelease p)) (Some p))"

definition WatchFunding :: "gostring \<Rightarrow> error + gostring \<Rightarrow> desk \<Rightarrow> desk" where
  "WatchFunding objectID detail =
     (case detail of Inl _ \<Rightarrow> (\<lambda>d. d) | Inr p \<Rightarrow> open_feed (FundingOf objectID p) None (Some (PathRelease p)) (Some p))"

definition WatchCandles :: "gostring list \<Rightarrow> gostring list \<Rightarrow> desk \<Rightarrow> desk" where
  "WatchCandles coins intervals =
     open_feed (Candles coins intervals) (Some (acquireCandles coins intervals)) (Some (CandlesRelease coins intervals)) None"

definition WatchOI :: "gostring list \<Rightarrow> gostring list \<Rightarrow> desk \<Rightarrow> desk" where
  "WatchOI coins intervals =
     (let ivs = (if intervals = [] then [Interval1m, Interval5m] else intervals) in
      open_feed (OI coins ivs) (Some (acquireOI coins ivs)) (Some (OIRelease coins ivs)) None)"

definition WatchTrades :: "gostring list \<Rightarrow> desk \<Rightarrow> desk" where
  "WatchTrades coins = open_feed (Trades coins) (Some (acquireTrades coins)) (Some (TradesRelease coins)) None"

definition WatchTwap :: "gostring \<Rightarrow> desk \<Rightarrow> desk" where
  "WatchTwap operationID = open_feed (TwapOf operationID) None None None"

section \<open>Steps\<close>

definition release_feed :: "feed_release \<Rightarrow> desk \<Rightarrow> desk" where
  "release_feed u d = (case u of
       OffListener t j \<Rightarrow> d\<lparr>dk_hub := off t j (dk_hub d)\<rparr>
     | MidsRelease coins \<Rightarrow> d\<lparr>dk_subs := fst (releaseMids coins (dk_subs d))\<rparr>
     | PathRelease p \<Rightarrow> d\<lparr>dk_subs := fst (unwatchPath p (dk_subs d))\<rparr>
     | CandlesRelease coins ivs \<Rightarrow> d\<lparr>dk_subs := fst (releaseCandles coins ivs (dk_subs d))\<rparr>
     | OIRelease coins ivs \<Rightarrow> d\<lparr>dk_subs := fst (releaseOI coins ivs (dk_subs d))\<rparr>
     | TradesRelease coins \<Rightarrow> d\<lparr>dk_subs := fst (releaseTrades coins (dk_subs d))\<rparr>)"

definition put_feed :: "nat \<Rightarrow> feed \<Rightarrow> desk \<Rightarrow> desk" where
  "put_feed i f d = d\<lparr>dk_feeds := (dk_feeds d)[i := f]\<rparr>"

definition close_feed :: "nat \<Rightarrow> desk \<Rightarrow> desk" where
  "close_feed i d =
     (if i < length (dk_feeds d) then
        (let f = dk_feeds d ! i; (s, es) = Close (fd_base f) in fold release_feed (releases es) (put_feed i (f\<lparr>fd_base := s\<rparr>) d))
      else d)"

text \<open>The goroutine of stream \<^verbatim>\<open>i\<close> runs: \<^verbatim>\<open>watchPath\<close> takes the path.\<close>

definition land_path :: "nat \<Rightarrow> desk \<Rightarrow> desk" where
  "land_path i d =
     (case filter (\<lambda>w. fst w = i) (dk_watching d) of
        [] \<Rightarrow> d
      | (j, p) # _ \<Rightarrow> d\<lparr>dk_watching := filter (\<lambda>w. fst w \<noteq> i) (dk_watching d), dk_subs := fst (watchPath p [] (dk_subs d))\<rparr>)"

text \<open>A stream's handler is called with an event; what it emits, if the stream is open.\<close>

definition call_feed :: "nat \<Rightarrow> StreamEvent \<Rightarrow> desk \<Rightarrow> desk \<times> (nat \<times> feed_update) list" where
  "call_feed i ev d =
     (let f = dk_feeds d ! i in
      case feed_handler (fd_kind f) (fd_prices f) ev of
        None \<Rightarrow> (d, [])
      | Some u \<Rightarrow>
          (let f1 = (case u of PricesUpdate m \<Rightarrow> f\<lparr>fd_prices := m\<rparr> | _ \<Rightarrow> f) in
           (put_feed i (f1\<lparr>fd_base := fst (emit u (fd_base f))\<rparr>) d, if wt_closed (fd_base f) then [] else [(i, u)])))"

fun call_feeds :: "(nat \<times> nat \<times> StreamEvent) list \<Rightarrow> desk \<Rightarrow> desk \<times> (nat \<times> feed_update) list" where
  "call_feeds [] d = (d, [])"
| "call_feeds ((j, i, ev) # cs) d =
     (case call_feed i ev d of (d1, us) \<Rightarrow> case call_feeds cs d1 of (d2, us') \<Rightarrow> (d2, us @ us'))"

text \<open>The first value of an object or TWAP stream, read over HTTP after it registered.\<close>

definition seed_feed :: "nat \<Rightarrow> feed_update \<Rightarrow> desk \<Rightarrow> desk \<times> (nat \<times> feed_update) list" where
  "seed_feed i u d =
     (if i < length (dk_feeds d) then
        (let f = dk_feeds d ! i in
         (put_feed i (f\<lparr>fd_base := fst (emit u (fd_base f))\<rparr>) d, if wt_closed (fd_base f) then [] else [(i, u)]))
      else (d, []))"

datatype feed_event =
    OpenPrices gostring "gostring list" | OpenOperations gostring | OpenBalances gostring | OpenObject gostring
  | OpenFills gostring "error + gostring" | OpenFunding gostring "error + gostring"
  | OpenCandles "gostring list" "gostring list" | OpenOI "gostring list" "gostring list" | OpenTrades "gostring list"
  | OpenTwap gostring | LandPath nat | CloseFeed nat | EventArrives StreamEvent
  | SeedObject nat ObjectValuation | SeedTwap nat Twap

definition feed_step :: "feed_event \<Rightarrow> desk \<Rightarrow> desk \<times> (nat \<times> feed_update) list" where
  "feed_step e d = (case e of
       OpenPrices x cs \<Rightarrow> (WatchPrices x cs d, []) | OpenOperations p \<Rightarrow> (WatchOperations p d, [])
     | OpenBalances p \<Rightarrow> (WatchBalances p d, []) | OpenObject p \<Rightarrow> (WatchObject p d, [])
     | OpenFills i r \<Rightarrow> (WatchFills i r d, []) | OpenFunding i r \<Rightarrow> (WatchFunding i r d, [])
     | OpenCandles cs ivs \<Rightarrow> (WatchCandles cs ivs d, []) | OpenOI cs ivs \<Rightarrow> (WatchOI cs ivs d, [])
     | OpenTrades cs \<Rightarrow> (WatchTrades cs d, []) | OpenTwap i \<Rightarrow> (WatchTwap i d, [])
     | LandPath i \<Rightarrow> (land_path i d, []) | CloseFeed i \<Rightarrow> (close_feed i d, [])
     | EventArrives ev \<Rightarrow> call_feeds (dispatch ev (dk_hub d)) d
     | SeedObject i v \<Rightarrow> seed_feed i (ValuationUpdate v) d | SeedTwap i t \<Rightarrow> seed_feed i (TwapUpdate t) d)"

fun run_feeds :: "feed_event list \<Rightarrow> desk \<Rightarrow> desk \<times> (nat \<times> feed_update) list" where
  "run_feeds [] d = (d, [])"
| "run_feeds (e # es) d = (case feed_step e d of (d1, us) \<Rightarrow> case run_feeds es d1 of (d2, us') \<Rightarrow> (d2, us @ us'))"

section \<open>What the streams hold\<close>

datatype counter = PathCount gostring | TradeCount gostring | AllMids | MidsCount gostring

fun count_of :: "subs \<Rightarrow> counter \<Rightarrow> int" where
  "count_of s (PathCount p) = ref_get (sb_pathRefs s) p"
| "count_of s (TradeCount c) = ref_get (sb_tradeRefs s) c"
| "count_of s AllMids = sb_midsAll s"
| "count_of s (MidsCount c) = ref_get (sb_midsCoins s) c"

text \<open>How much of a counter a release gives back.\<close>

fun holds :: "feed_release \<Rightarrow> counter \<Rightarrow> int" where
  "holds (PathRelease p) (PathCount q) = (if p = q then 1 else 0)"
| "holds (TradesRelease cs) (TradeCount c) = int (count_list cs c)"
| "holds (MidsRelease cs) AllMids = (if cs = [] then 1 else 0)"
| "holds (MidsRelease cs) (MidsCount c) = int (count_list cs c)"
| "holds _ _ = 0"

definition held_by :: "feed_release list \<Rightarrow> counter \<Rightarrow> int" where
  "held_by us k = sum_list (map (\<lambda>u. holds u k) us)"

definition unsubs_of :: "desk \<Rightarrow> nat \<Rightarrow> feed_release list" where
  "unsubs_of d i = wt_unsubs (fd_base (dk_feeds d ! i))"

text \<open>What the open streams will give back, and what their goroutines have not taken yet.\<close>

definition owned :: "desk \<Rightarrow> counter \<Rightarrow> int" where
  "owned d k = (\<Sum>i<length (dk_feeds d). held_by (unsubs_of d i) k)"

definition untaken :: "desk \<Rightarrow> counter \<Rightarrow> int" where
  "untaken d k = (\<Sum>w \<leftarrow> dk_watching d. holds (PathRelease (snd w)) k)"

definition counts_ok :: "subs \<Rightarrow> bool" where
  "counts_ok s \<longleftrightarrow> ref_ok (sb_pathRefs s) \<and> ref_ok (sb_tradeRefs s) \<and> ref_ok (sb_midsCoins s) \<and> 0 \<le> sb_midsAll s"

definition watching_ok :: "desk \<Rightarrow> bool" where
  "watching_ok d \<longleftrightarrow>
     distinct (map fst (dk_watching d))
     \<and> (\<forall>(i, p) \<in> set (dk_watching d).
          i < length (dk_feeds d) \<and> \<not> wt_closed (fd_base (dk_feeds d ! i)) \<and> PathRelease p \<in> set (unsubs_of d i))"

definition leases_ok :: "desk \<Rightarrow> bool" where
  "leases_ok d \<longleftrightarrow>
     counts_ok (dk_subs d) \<and> watching_ok d \<and> (\<forall>k. count_of (dk_subs d) k + untaken d k = owned d k)
     \<and> (\<forall>f \<in> set (dk_feeds d). wt_closed (fd_base f) \<longrightarrow> wt_unsubs (fd_base f) = [])"

lemma held_simps [simp]: "held_by [] k = 0" "held_by (u # us) k = holds u k + held_by us k" "held_by (us @ vs) k = held_by us k + held_by vs k"
  by (simp_all add: held_by_def)

lemma holds_nonneg [simp]: "0 \<le> holds u k"
  by (cases "(u, k)" rule: holds.cases) simp_all

lemma held_nonneg [simp]: "0 \<le> held_by us k"
  by (induction us) simp_all

lemma held_member: "u \<in> set us \<Longrightarrow> holds u k \<le> held_by us k"
proof (induction us)
  case (Cons v vs)
  show ?case
  proof (cases "u = v")
    case False
    then have "holds u k \<le> held_by vs k" using Cons by simp
    then show ?thesis using holds_nonneg [of v k] by (simp del: holds_nonneg)
  qed simp
qed simp

lemma counts_nonneg: "counts_ok s \<Longrightarrow> 0 \<le> count_of s k"
  by (cases k) (auto simp: counts_ok_def ref_get_nonneg)

lemma acquire_all: "ref_ok r \<Longrightarrow> ref_get (foldl ref_acquire r ks) k = ref_get r k + int (count_list ks k)"
  by (induction ks arbitrary: r) (simp_all add: shared_refs.ok_acquire shared_refs.count_acquire)

lemma release_all: "ref_ok r \<Longrightarrow> ref_get (foldl ref_release r ks) k = max 0 (ref_get r k - int (count_list ks k))"
proof (induction ks arbitrary: r)
  case Nil
  then show ?case using ref_get_nonneg [OF Nil, of k] by simp
next
  case (Cons j ks)
  show ?case using Cons.IH [OF shared_refs.ok_release [OF Cons.prems, of j]] ref_get_nonneg [OF Cons.prems, of k]
    by (auto simp: shared_refs.count_release [OF Cons.prems])
qed

lemma release_counts:
  assumes ok: "counts_ok (dk_subs d)"
  shows "counts_ok (dk_subs (release_feed u d))"
    "count_of (dk_subs (release_feed u d)) k = max 0 (count_of (dk_subs d) k - holds u k)"
proof -
  have r: "ref_ok (sb_pathRefs (dk_subs d))" "ref_ok (sb_tradeRefs (dk_subs d))" "ref_ok (sb_midsCoins (dk_subs d))"
    "0 \<le> sb_midsAll (dk_subs d)"
    using ok by (simp_all add: counts_ok_def)
  note nn = ref_get_nonneg [OF r(1)] ref_get_nonneg [OF r(2)] ref_get_nonneg [OF r(3)]
  show "counts_ok (dk_subs (release_feed u d))"
    using r by (cases u) (auto simp: release_feed_def counts_ok_def unwatchPath_def mids_defs bar_defs trade_defs Let_def
        ref_fold_ok shared_refs.ok_release)
  show "count_of (dk_subs (release_feed u d)) k = max 0 (count_of (dk_subs d) k - holds u k)"
    using r nn by (cases u; cases k) (auto simp: release_feed_def unwatchPath_def mids_defs bar_defs trade_defs Let_def
        release_all shared_refs.count_release)
qed

lemma releases_counts:
  "counts_ok (dk_subs d) \<Longrightarrow> (\<And>k. held_by us k \<le> count_of (dk_subs d) k) \<Longrightarrow>
     counts_ok (dk_subs (fold release_feed us d)) \<and> count_of (dk_subs (fold release_feed us d)) k = count_of (dk_subs d) k - held_by us k"
proof (induction us arbitrary: d)
  case (Cons u us)
  have le: "holds u j \<le> count_of (dk_subs d) j" for j
    by (rule order.trans [OF _ Cons.prems(2)]) simp
  have one: "count_of (dk_subs (release_feed u d)) j = count_of (dk_subs d) j - holds u j" for j
    using release_counts(2) [OF Cons.prems(1), of u j] le [of j] by simp
  have "held_by us j \<le> count_of (dk_subs (release_feed u d)) j" for j using one [of j] Cons.prems(2) [of j] by simp
  from Cons.IH [OF release_counts(1) [OF Cons.prems(1)] this] show ?case using one [of k] by simp
qed simp

lemma release_feed_frame [simp]:
  "dk_feeds (release_feed u d) = dk_feeds d" "dk_watching (release_feed u d) = dk_watching d"
  by (cases u; simp add: release_feed_def)+

lemma releases_frame [simp]:
  "dk_feeds (fold release_feed us d) = dk_feeds d" "dk_watching (fold release_feed us d) = dk_watching d"
  by (induction us arbitrary: d) simp_all

section \<open>Leases are returned\<close>

lemma owned_cong:
  assumes "length (dk_feeds d') = length (dk_feeds d)" "\<And>i. i < length (dk_feeds d) \<Longrightarrow> unsubs_of d' i = unsubs_of d i"
  shows "owned d' k = owned d k"
  unfolding owned_def using assms by (intro sum.cong) auto

text \<open>What the goroutines have not taken is owned by the streams that started them, so by streams other than \<^verbatim>\<open>i\<close>.\<close>

lemma untaken_others:
  assumes w: "watching_ok d" and i: "i \<notin> fst ` set (dk_watching d)" "i < length (dk_feeds d)"
  shows "untaken d k + held_by (unsubs_of d i) k \<le> owned d k"
proof -
  let ?W = "set (dk_watching d)"
  have dist: "distinct (map fst (dk_watching d))" and
    mem: "\<And>w. w \<in> ?W \<Longrightarrow> fst w < length (dk_feeds d) \<and> PathRelease (snd w) \<in> set (unsubs_of d (fst w))"
    using w by (auto simp: watching_ok_def)
  have "untaken d k = (\<Sum>w\<in>?W. holds (PathRelease (snd w)) k)"
    unfolding untaken_def using dist by (simp add: sum_list_distinct_conv_sum_set distinct_map)
  also have "\<dots> \<le> (\<Sum>w\<in>?W. held_by (unsubs_of d (fst w)) k)" by (intro sum_mono held_member) (simp add: mem)
  also have "\<dots> = (\<Sum>j\<in>fst ` ?W. held_by (unsubs_of d j) k)"
    using dist by (simp add: sum.reindex distinct_map)
  also have "\<dots> \<le> (\<Sum>j\<in>{..<length (dk_feeds d)} - {i}. held_by (unsubs_of d j) k)"
    using mem i by (intro sum_mono2) auto
  also have "\<dots> = owned d k - held_by (unsubs_of d i) k"
    unfolding owned_def using i(2) by (simp add: sum_diff1)
  finally show ?thesis by simp
qed

lemma leases_new: "leases_ok new_desk"
proof -
  have "count_of no_subs k = 0" for k by (cases k) (simp_all add: no_subs_def ref_get_def)
  then show ?thesis
    by (simp add: leases_ok_def new_desk_def counts_ok_def no_subs_def ref_ok_def watching_ok_def owned_def untaken_def)
qed

text \<open>A step that leaves the registry, the goroutines and what the streams hold alone.\<close>

lemma leases_frame:
  assumes ok: "leases_ok d" and "dk_subs d' = dk_subs d" "dk_watching d' = dk_watching d"
    and len: "length (dk_feeds d') = length (dk_feeds d)"
    and same: "\<And>i. i < length (dk_feeds d) \<Longrightarrow> wt_unsubs (fd_base (dk_feeds d' ! i)) = wt_unsubs (fd_base (dk_feeds d ! i))
      \<and> wt_closed (fd_base (dk_feeds d' ! i)) = wt_closed (fd_base (dk_feeds d ! i))"
  shows "leases_ok d'"
proof -
  have u: "unsubs_of d' i = unsubs_of d i" if "i < length (dk_feeds d)" for i using same that by (simp add: unsubs_of_def)
  have own: "owned d' k = owned d k" for k by (rule owned_cong [OF len u])
  have un: "untaken d' k = untaken d k" for k using assms(3) by (simp add: untaken_def)
  have w: "watching_ok d" using ok by (simp add: leases_ok_def)
  have "watching_ok d'"
    unfolding watching_ok_def assms(3)
  proof (intro conjI ballI)
    fix x assume x: "x \<in> set (dk_watching d)"
    obtain i p where ip: "x = (i, p)" by force
    have "i < length (dk_feeds d) \<and> \<not> wt_closed (fd_base (dk_feeds d ! i)) \<and> PathRelease p \<in> set (unsubs_of d i)"
      using w x ip by (auto simp: watching_ok_def)
    then show "case x of (i, p) \<Rightarrow> i < length (dk_feeds d') \<and> \<not> wt_closed (fd_base (dk_feeds d' ! i)) \<and> PathRelease p \<in> set (unsubs_of d' i)"
      using ip len same [of i] u [of i] by simp
  qed (use w in \<open>simp add: watching_ok_def\<close>)
  moreover have "wt_unsubs (fd_base f) = []" if f: "f \<in> set (dk_feeds d')" "wt_closed (fd_base f)" for f
  proof -
    obtain i where i': "i < length (dk_feeds d')" "dk_feeds d' ! i = f" using f(1) unfolding in_set_conv_nth by blast
    have i: "i < length (dk_feeds d)" "f = dk_feeds d' ! i" using i' len by simp_all
    have "dk_feeds d ! i \<in> set (dk_feeds d)" using i(1) by simp
    then show ?thesis using ok same [OF i(1)] f(2) i(2) by (simp add: leases_ok_def)
  qed
  ultimately show ?thesis using ok assms(2) own un by (simp add: leases_ok_def)
qed

lemma emit_frame [simp]: "wt_unsubs (fst (emit u s)) = wt_unsubs s" "wt_closed (fst (emit u s)) = wt_closed s"
  by (simp_all add: emit_def publish_def Let_def)

lemma put_feed_frame [simp]:
  "dk_subs (put_feed i f d) = dk_subs d" "dk_hub (put_feed i f d) = dk_hub d" "dk_watching (put_feed i f d) = dk_watching d"
  "length (dk_feeds (put_feed i f d)) = length (dk_feeds d)" "dk_feeds (put_feed i f d) = (dk_feeds d)[i := f]"
  by (simp_all add: put_feed_def)

lemma leases_put:
  assumes "leases_ok d" "wt_unsubs (fd_base f) = wt_unsubs (fd_base (dk_feeds d ! i))"
    "wt_closed (fd_base f) = wt_closed (fd_base (dk_feeds d ! i))"
  shows "leases_ok (put_feed i f d)"
proof (rule leases_frame [OF assms(1)])
  fix j assume "j < length (dk_feeds d)"
  then show "wt_unsubs (fd_base (dk_feeds (put_feed i f d) ! j)) = wt_unsubs (fd_base (dk_feeds d ! j))
      \<and> wt_closed (fd_base (dk_feeds (put_feed i f d) ! j)) = wt_closed (fd_base (dk_feeds d ! j))"
    using assms(2,3) by (cases "j = i") simp_all
qed simp_all

lemma leases_call: "leases_ok d \<Longrightarrow> leases_ok (fst (call_feed i ev d))"
  by (auto simp: call_feed_def Let_def split: option.split feed_update.split intro!: leases_put)

lemma leases_calls: "leases_ok d \<Longrightarrow> leases_ok (fst (call_feeds cs d))"
proof (induction cs arbitrary: d)
  case (Cons c cs)
  obtain j i ev where c: "c = (j, i, ev)" by (cases c)
  show ?case using Cons.IH [OF leases_call [OF Cons.prems, of i ev]] c by (simp add: case_prod_beta)
qed simp

lemma leases_seed: "leases_ok d \<Longrightarrow> leases_ok (fst (seed_feed i u d))"
  by (auto simp: seed_feed_def Let_def intro!: leases_put)

lemma listen_all_unsubs:
  "wt_unsubs (fst (listen_all ts i (s, hub))) = wt_unsubs s @ wt_unsubs (fst (listen_all ts i (newWatchStream, hub)))
   \<and> wt_closed (fst (listen_all ts i (s, hub))) = wt_closed s
   \<and> snd (listen_all ts i (s, hub)) = snd (listen_all ts i (newWatchStream, hub))"
proof (induction ts arbitrary: s hub)
  case (Cons t ts)
  obtain j hub1 where on: "On t i hub = (j, hub1)" by force
  show ?case
    using Cons.IH [of "addUnsub (OffListener t j) s" hub1] Cons.IH [of "addUnsub (OffListener t j) newWatchStream" hub1] on
    by (simp add: addUnsub_def newWatchStream_def)
qed (simp add: newWatchStream_def)

lemma listen_all_listeners: "u \<in> set (wt_unsubs (fst (listen_all ts i (newWatchStream, hub)))) \<Longrightarrow> \<exists>t j. u = OffListener t j"
proof (induction ts arbitrary: hub)
  case (Cons t ts)
  obtain j hub1 where on: "On t i hub = (j, hub1)" by force
  show ?case using Cons.IH [of hub1] Cons.prems on listen_all_unsubs [of ts i "addUnsub (OffListener t j) newWatchStream" hub1]
    by (auto simp: addUnsub_def newWatchStream_def)
qed (simp add: newWatchStream_def)

lemma held_listeners: "(\<And>u. u \<in> set us \<Longrightarrow> \<exists>t j. u = OffListener t j) \<Longrightarrow> held_by us k = 0"
  by (induction us) fastforce+

text \<open>The stream that opening appends.\<close>

definition opened_feed :: "feed_kind \<Rightarrow> feed_release option \<Rightarrow> desk \<Rightarrow> feed" where
  "opened_feed k release d =
     \<lparr>fd_kind = k, fd_prices = Map.empty,
      fd_base = (let s = fst (listen_all (feed_types k) (length (dk_feeds d)) (newWatchStream, dk_hub d)) in
                 case release of Some u \<Rightarrow> addUnsub u s | None \<Rightarrow> s)\<rparr>"

lemma opened_unsubs:
  "held_by (wt_unsubs (fd_base (opened_feed k r d))) c = (case r of Some u \<Rightarrow> holds u c | None \<Rightarrow> 0)"
  "\<not> wt_closed (fd_base (opened_feed k r d))"
  "r = Some u \<Longrightarrow> u \<in> set (wt_unsubs (fd_base (opened_feed k r d)))"
  using held_listeners [OF listen_all_listeners] listen_all_unsubs [of "feed_types k" "length (dk_feeds d)" newWatchStream "dk_hub d"]
  by (auto simp: opened_feed_def Let_def addUnsub_def newWatchStream_def split: option.split)

lemma open_feed_fields:
  "dk_feeds (open_feed k a r p d) = dk_feeds d @ [opened_feed k r d]"
  "dk_subs (open_feed k a r p d) = (case a of Some f \<Rightarrow> fst (f (dk_subs d)) | None \<Rightarrow> dk_subs d)"
  "dk_watching (open_feed k a r p d) = dk_watching d @ (case p of Some x \<Rightarrow> [(length (dk_feeds d), x)] | None \<Rightarrow> [])"
  "dk_hub (open_feed k a r p d) = snd (listen_all (feed_types k) (length (dk_feeds d)) (newWatchStream, dk_hub d))"
  by (simp_all add: open_feed_def opened_feed_def Let_def case_prod_beta)

text \<open>A subscription that gives each counter what its release gives back.\<close>

definition matches :: "(subs \<Rightarrow> sub_result) option \<Rightarrow> feed_release option \<Rightarrow> gostring option \<Rightarrow> bool" where
  "matches a r p \<longleftrightarrow>
     (case p of
        Some x \<Rightarrow> a = None \<and> r = Some (PathRelease x)
      | None \<Rightarrow> (\<forall>s k. counts_ok s \<longrightarrow> (case a of Some f \<Rightarrow> counts_ok (fst (f s)) \<and>
                   count_of (fst (f s)) k = count_of s k + (case r of Some u \<Rightarrow> holds u k | None \<Rightarrow> 0)
                 | None \<Rightarrow> r = None)))"

lemma leases_open:
  assumes ok: "leases_ok d" and m: "matches a r p"
  shows "leases_ok (open_feed k a r p d)"
proof -
  let ?n = "length (dk_feeds d)" and ?d = "open_feed k a r p d"
  have c: "counts_ok (dk_subs d)" and w: "watching_ok d" and bal: "count_of (dk_subs d) c + untaken d c = owned d c" for c
    using ok by (simp_all add: leases_ok_def)
  have old: "unsubs_of ?d i = unsubs_of d i" "dk_feeds ?d ! i = dk_feeds d ! i" if "i < ?n" for i
    using that by (simp_all add: unsubs_of_def open_feed_fields nth_append)
  have new: "unsubs_of ?d ?n = wt_unsubs (fd_base (opened_feed k r d))" by (simp add: unsubs_of_def open_feed_fields)
  have own: "owned ?d c = owned d c + (case r of Some u \<Rightarrow> holds u c | None \<Rightarrow> 0)" for c
    using old by (simp add: owned_def open_feed_fields new opened_unsubs(1) cong: sum.cong_simp)
  have un: "untaken ?d c = untaken d c + (case p of Some x \<Rightarrow> holds (PathRelease x) c | None \<Rightarrow> 0)" for c
    by (simp add: untaken_def open_feed_fields split: option.split)
  have fresh: "?n \<notin> fst ` set (dk_watching d)" using w by (fastforce simp: watching_ok_def)
  have "watching_ok ?d"
    unfolding watching_ok_def
  proof (intro conjI ballI)
    show "distinct (map fst (dk_watching ?d))"
      using w fresh by (auto simp: watching_ok_def open_feed_fields split: option.split)
  next
    fix x assume "x \<in> set (dk_watching ?d)"
    then consider "x \<in> set (dk_watching d)" | y where "p = Some y" "x = (?n, y)"
      by (auto simp: open_feed_fields split: option.splits)
    then show "case x of (i, p') \<Rightarrow> i < length (dk_feeds ?d) \<and> \<not> wt_closed (fd_base (dk_feeds ?d ! i)) \<and> PathRelease p' \<in> set (unsubs_of ?d i)"
    proof cases
      case 1
      then show ?thesis using w old by (fastforce simp: watching_ok_def open_feed_fields)
    next
      case 2
      then show ?thesis using m new opened_unsubs(2) [of k r d] opened_unsubs(3) [of r _ k d] by (simp add: open_feed_fields matches_def)
    qed
  qed
  moreover have "counts_ok (dk_subs ?d) \<and> count_of (dk_subs ?d) c + untaken ?d c = owned ?d c" for c
    using m c bal [of c] own [of c] un [of c] by (auto simp: open_feed_fields matches_def split: option.splits)
  moreover have "\<forall>f \<in> set (dk_feeds ?d). wt_closed (fd_base f) \<longrightarrow> wt_unsubs (fd_base f) = []"
    using ok opened_unsubs(2) by (auto simp: leases_ok_def open_feed_fields)
  ultimately show ?thesis by (simp add: leases_ok_def)
qed

lemma matches_mids: "matches (Some (acquireMids x cs)) (Some (MidsRelease cs)) None"
proof -
  have "count_of (fst (acquireMids x cs s)) k = count_of s k + holds (MidsRelease cs) k" if "counts_ok s" for s k
    using that by (cases k) (auto simp: counts_ok_def mids_defs Let_def acquire_all)
  then show ?thesis by (auto simp: matches_def counts_ok_def mids_defs Let_def ref_fold_ok)
qed

lemma matches_trades: "matches (Some (acquireTrades cs)) (Some (TradesRelease cs)) None"
proof -
  have "count_of (fst (acquireTrades cs s)) k = count_of s k + holds (TradesRelease cs) k" if "counts_ok s" for s k
    using that by (cases k) (auto simp: counts_ok_def trade_defs Let_def acquire_all)
  then show ?thesis by (auto simp: matches_def counts_ok_def trade_defs Let_def ref_fold_ok)
qed

lemma matches_bars:
  "matches (Some (acquireCandles cs ivs)) (Some (CandlesRelease cs ivs)) None"
  "matches (Some (acquireOI cs ivs)) (Some (OIRelease cs ivs)) None"
proof -
  have "count_of (fst (acquireCandles cs ivs s)) k = count_of s k" "count_of (fst (acquireOI cs ivs s)) k = count_of s k" for s k
    by (cases k; simp add: bar_defs Let_def)+
  then show "matches (Some (acquireCandles cs ivs)) (Some (CandlesRelease cs ivs)) None"
    "matches (Some (acquireOI cs ivs)) (Some (OIRelease cs ivs)) None"
    by (auto simp: matches_def counts_ok_def bar_defs Let_def)
qed

lemma matches_path [simp]: "matches None (Some (PathRelease p)) (Some p)" "matches None None None"
  by (simp_all add: matches_def)

lemma sum_list_split:
  fixes f :: "'a \<Rightarrow> int"
  shows "sum_list (map f xs) = sum_list (map f (filter P xs)) + sum_list (map f (filter (\<lambda>x. \<not> P x) xs))"
  by (induction xs) simp_all

lemma owned_drop:
  assumes i: "i < length (dk_feeds d)" and len: "length (dk_feeds d') = length (dk_feeds d)"
    and empty: "unsubs_of d' i = []" and same: "\<And>j. j \<noteq> i \<Longrightarrow> unsubs_of d' j = unsubs_of d j"
  shows "owned d' k = owned d k - held_by (unsubs_of d i) k"
proof -
  have "owned d' k = (\<Sum>j\<in>{..<length (dk_feeds d)} - {i}. held_by (unsubs_of d' j) k)"
    using i empty len by (simp add: owned_def sum_diff1)
  also have "\<dots> = (\<Sum>j\<in>{..<length (dk_feeds d)} - {i}. held_by (unsubs_of d j) k)" using same by (intro sum.cong) auto
  also have "\<dots> = owned d k - held_by (unsubs_of d i) k" using i by (simp add: owned_def sum_diff1)
  finally show ?thesis .
qed

lemma leases_close:
  assumes ok: "leases_ok d" and i: "i \<notin> fst ` set (dk_watching d)"
  shows "leases_ok (close_feed i d)"
proof (cases "i < length (dk_feeds d) \<and> \<not> wt_closed (fd_base (dk_feeds d ! i))")
  case False
  then show ?thesis using ok leases_put [OF ok, of "dk_feeds d ! i" i] by (auto simp: close_feed_def Close_def releases_def put_feed_def Let_def)
next
  case True
  then have lt: "i < length (dk_feeds d)" and open_i: "\<not> wt_closed (fd_base (dk_feeds d ! i))" by simp_all
  let ?f = "dk_feeds d ! i" and ?us = "unsubs_of d i"
  let ?f' = "?f\<lparr>fd_base := (fd_base ?f)\<lparr>wt_closed := True, wt_unsubs := []\<rparr>\<rparr>"
  let ?d = "put_feed i ?f' d"
  have close: "close_feed i d = fold release_feed ?us ?d"
    using lt open_i by (simp add: close_feed_def Close_def Let_def unsubs_of_def)
  have w: "watching_ok d" and c: "counts_ok (dk_subs d)" and bal: "count_of (dk_subs d) k + untaken d k = owned d k" for k
    using ok by (simp_all add: leases_ok_def)
  have "held_by ?us k \<le> count_of (dk_subs ?d) k" for k
    using untaken_others [OF w i lt, of k] bal [of k] by simp
  then have cnt: "counts_ok (dk_subs (close_feed i d))"
    "count_of (dk_subs (close_feed i d)) k = count_of (dk_subs d) k - held_by ?us k" for k
    using releases_counts [of ?d ?us k] c by (simp_all add: close)
  have feeds: "dk_feeds (close_feed i d) = (dk_feeds d)[i := ?f']" by (simp add: close)
  have own: "owned (close_feed i d) k = owned d k - held_by ?us k" for k
    using lt by (intro owned_drop) (simp_all add: unsubs_of_def feeds)
  have un: "untaken (close_feed i d) k = untaken d k" for k by (simp add: untaken_def close)
  have "watching_ok (close_feed i d)"
    unfolding watching_ok_def
  proof (intro conjI ballI)
    fix x assume "x \<in> set (dk_watching (close_feed i d))"
    then have x: "x \<in> set (dk_watching d)" by (simp add: close)
    obtain j p where jp: "x = (j, p)" by force
    have "j \<noteq> i" using x jp i by force
    then show "case x of (j, p) \<Rightarrow> j < length (dk_feeds (close_feed i d)) \<and> \<not> wt_closed (fd_base (dk_feeds (close_feed i d) ! j))
        \<and> PathRelease p \<in> set (unsubs_of (close_feed i d) j)"
      using w x jp by (auto simp: watching_ok_def feeds unsubs_of_def)
  qed (use w in \<open>simp add: watching_ok_def close\<close>)
  moreover have "wt_unsubs (fd_base f) = []" if f: "f \<in> set (dk_feeds (close_feed i d))" "wt_closed (fd_base f)" for f
    using ok f set_update_subset_insert [of "dk_feeds d" i ?f'] by (auto simp: leases_ok_def feeds)
  ultimately show ?thesis using cnt own un bal by (simp add: leases_ok_def)
qed

lemma leases_land:
  assumes ok: "leases_ok d"
  shows "leases_ok (land_path i d)"
proof (cases "filter (\<lambda>w. fst w = i) (dk_watching d)")
  case Nil
  then show ?thesis using ok by (simp add: land_path_def)
next
  case (Cons w ws)
  obtain j p where jp: "w = (j, p)" by force
  have wok: "watching_ok d" and c: "counts_ok (dk_subs d)" using ok by (simp_all add: leases_ok_def)
  let ?d = "land_path i d"
  have d: "dk_watching ?d = filter (\<lambda>w. fst w \<noteq> i) (dk_watching d)" "dk_feeds ?d = dk_feeds d"
    "dk_subs ?d = fst (watchPath p [] (dk_subs d))"
    using Cons jp by (simp_all add: land_path_def)
  have "distinct (map fst (w # ws))" using wok Cons by (metis distinct_map_filter watching_ok_def)
  moreover have "fst v = i" if v: "v \<in> set (w # ws)" for v
  proof -
    have "v \<in> set (filter (\<lambda>w. fst w = i) (dk_watching d))" using v by (simp only: Cons)
    then show ?thesis by simp
  qed
  ultimately have single: "ws = []" by (cases ws) auto
  have un: "untaken d k = holds (PathRelease p) k + untaken ?d k" for k
    using sum_list_split [of "\<lambda>w. holds (PathRelease (snd w)) k" "dk_watching d" "\<lambda>w. fst w = i"] Cons single jp
    by (simp add: untaken_def d(1))
  have cnt: "count_of (dk_subs ?d) k = count_of (dk_subs d) k + holds (PathRelease p) k" for k
    using c by (cases k) (auto simp: d(3) watchPath_def counts_ok_def shared_refs.count_acquire)
  have "counts_ok (dk_subs ?d)" using c by (simp add: d(3) watchPath_def counts_ok_def shared_refs.ok_acquire)
  moreover have "watching_ok ?d"
    using wok by (auto simp: watching_ok_def d(1,2) unsubs_of_def distinct_map_filter)
  moreover have "owned ?d k = owned d k" for k by (rule owned_cong) (simp_all add: d(2) unsubs_of_def)
  ultimately show ?thesis using ok un cnt by (simp add: leases_ok_def d(2) add.assoc)
qed

text \<open>A run in which no stream is closed while the goroutine of its path watch is still to run.\<close>

fun settled_closes :: "feed_event list \<Rightarrow> desk \<Rightarrow> bool" where
  "settled_closes [] d \<longleftrightarrow> True"
| "settled_closes (e # es) d \<longleftrightarrow>
     (case e of CloseFeed i \<Rightarrow> i \<notin> fst ` set (dk_watching d) | _ \<Rightarrow> True) \<and> settled_closes es (fst (feed_step e d))"

lemma leases_step:
  assumes "leases_ok d" "case e of CloseFeed i \<Rightarrow> i \<notin> fst ` set (dk_watching d) | _ \<Rightarrow> True"
  shows "leases_ok (fst (feed_step e d))"
proof (cases e)
  case (OpenPrices x cs)
  then show ?thesis using leases_open [OF assms(1) matches_mids] by (simp add: feed_step_def WatchPrices_def)
next
  case (OpenTrades cs)
  then show ?thesis using leases_open [OF assms(1) matches_trades] by (simp add: feed_step_def WatchTrades_def)
next
  case (OpenCandles cs ivs)
  then show ?thesis using leases_open [OF assms(1) matches_bars(1)] by (simp add: feed_step_def WatchCandles_def)
next
  case (OpenOI cs ivs)
  then show ?thesis using leases_open [OF assms(1) matches_bars(2)] by (simp add: feed_step_def WatchOI_def Let_def)
next
  case (OpenFills i r)
  then show ?thesis using assms(1) leases_open [OF assms(1) matches_path(1)] by (cases r) (simp_all add: feed_step_def WatchFills_def)
next
  case (OpenFunding i r)
  then show ?thesis using assms(1) leases_open [OF assms(1) matches_path(1)] by (cases r) (simp_all add: feed_step_def WatchFunding_def)
qed (use assms leases_open [OF assms(1) matches_path(1)] leases_open [OF assms(1) matches_path(2)] in
    \<open>simp_all add: feed_step_def WatchOperations_def WatchBalances_def WatchObject_def WatchTwap_def Let_def
       leases_close leases_land leases_calls leases_seed\<close>)

lemma leases_run: "leases_ok d \<Longrightarrow> settled_closes es d \<Longrightarrow> leases_ok (fst (run_feeds es d))"
proof (induction es arbitrary: d)
  case (Cons e es)
  show ?case using Cons.IH [OF leases_step [OF Cons.prems(1)]] Cons.prems(2) by (simp add: case_prod_beta)
qed simp

section \<open>Listeners of the streams\<close>

text \<open>The ids a stream listens to a type with, by its releases.\<close>

definition listens :: "gostring \<Rightarrow> feed_release list \<Rightarrow> nat list" where
  "listens t us = concat (map (\<lambda>u. case u of OffListener t' j \<Rightarrow> if t' = t then [j] else [] | _ \<Rightarrow> []) us)"

lemma listens_simps [simp]:
  "listens t [] = []" "listens t (us @ vs) = listens t us @ listens t vs"
  "listens t (OffListener t' j # us) = (if t' = t then [j] else []) @ listens t us"
  by (simp_all add: listens_def)

definition hub_inv :: "desk \<Rightarrow> bool" where
  "hub_inv d \<longleftrightarrow>
     hub_ok (dk_hub d) \<and> (\<forall>t. distinct (map fst (listeners_of t (dk_hub d))))
     \<and> (\<forall>i t. filter (\<lambda>p. snd p = i) (listeners_of t (dk_hub d))
              = (if i < length (dk_feeds d) then map (\<lambda>j. (j, i)) (listens t (unsubs_of d i)) else []))
     \<and> (\<forall>i t. i < length (dk_feeds d) \<longrightarrow>
          length (listens t (unsubs_of d i))
          = (if wt_closed (fd_base (dk_feeds d ! i)) then 0 else count_list (feed_types (fd_kind (dk_feeds d ! i))) t))"

lemma hub_inv_new: "hub_inv new_desk"
  by (simp add: hub_inv_def new_desk_def hub_ok_new) (simp add: new_hub_def listeners_of_def)

lemma hub_inv_frame:
  assumes inv: "hub_inv d" and "dk_hub d' = dk_hub d" and len: "length (dk_feeds d') = length (dk_feeds d)"
    and same: "\<And>i. i < length (dk_feeds d) \<Longrightarrow> unsubs_of d' i = unsubs_of d i
      \<and> wt_closed (fd_base (dk_feeds d' ! i)) = wt_closed (fd_base (dk_feeds d ! i)) \<and> fd_kind (dk_feeds d' ! i) = fd_kind (dk_feeds d ! i)"
  shows "hub_inv d'"
  using inv same unfolding hub_inv_def assms(2) len by (metis (mono_tags, lifting))

lemma hub_inv_put:
  assumes "hub_inv d" "wt_unsubs (fd_base f) = wt_unsubs (fd_base (dk_feeds d ! i))"
    "wt_closed (fd_base f) = wt_closed (fd_base (dk_feeds d ! i))" "fd_kind f = fd_kind (dk_feeds d ! i)"
  shows "hub_inv (put_feed i f d)"
proof (rule hub_inv_frame [OF assms(1)])
  fix j assume "j < length (dk_feeds d)"
  then show "unsubs_of (put_feed i f d) j = unsubs_of d j
      \<and> wt_closed (fd_base (dk_feeds (put_feed i f d) ! j)) = wt_closed (fd_base (dk_feeds d ! j))
      \<and> fd_kind (dk_feeds (put_feed i f d) ! j) = fd_kind (dk_feeds d ! j)"
    using assms(2-4) by (cases "j = i") (simp_all add: unsubs_of_def)
qed simp_all

lemma hub_inv_call: "hub_inv d \<Longrightarrow> hub_inv (fst (call_feed i ev d))"
  by (auto simp: call_feed_def Let_def split: option.split feed_update.split intro!: hub_inv_put)

lemma hub_inv_calls: "hub_inv d \<Longrightarrow> hub_inv (fst (call_feeds cs d))"
proof (induction cs arbitrary: d)
  case (Cons c cs)
  obtain j i ev where c: "c = (j, i, ev)" by (cases c)
  show ?case using Cons.IH [OF hub_inv_call [OF Cons.prems, of i ev]] c by (simp add: case_prod_beta)
qed simp

lemma hub_inv_seed: "hub_inv d \<Longrightarrow> hub_inv (fst (seed_feed i u d))"
  by (auto simp: seed_feed_def Let_def intro!: hub_inv_put)

lemma hub_inv_land: "hub_inv d \<Longrightarrow> hub_inv (land_path i d)"
  by (erule hub_inv_frame) (auto simp: land_path_def unsubs_of_def split: list.split)

lemma listen_all_hub:
  assumes "hub_ok hub" "\<And>t. distinct (map fst (listeners_of t hub))"
  shows "let (s, hub') = listen_all ts i (newWatchStream, hub) in
     hub_ok hub' \<and> distinct (map fst (listeners_of t hub'))
     \<and> listeners_of t hub' = listeners_of t hub @ map (\<lambda>j. (j, i)) (listens t (wt_unsubs s))
     \<and> length (listens t (wt_unsubs s)) = count_list ts t"
  using assms
proof (induction ts arbitrary: hub)
  case Nil
  then show ?case by (simp add: newWatchStream_def)
next
  case (Cons u ts)
  obtain j hub1 where on: "On u i hub = (j, hub1)" by force
  have j: "j = hb_next hub" and hub1: "hub1 = snd (On u i hub)" using on by (auto simp: On_def)
  have ok1: "hub_ok hub1" using hub_ok_step [OF Cons.prems(1), of parse "Listen u i"] hub1 by simp
  have ls: "listeners_of v hub1 = listeners_of v hub @ (if v = u then [(j, i)] else [])" for v
    by (simp add: hub1 j listeners_of_On)
  have "j \<notin> fst ` set (listeners_of v hub)" for v using Cons.prems(1) j by (fastforce simp: hub_ok_def)
  then have dist: "distinct (map fst (listeners_of v hub1))" for v using Cons.prems(2) by (auto simp: ls)
  note ih = Cons.IH [OF ok1 dist]
  have un: "wt_unsubs (fst (listen_all ts i (addUnsub (OffListener u j) newWatchStream, hub1)))
      = OffListener u j # wt_unsubs (fst (listen_all ts i (newWatchStream, hub1)))"
    "snd (listen_all ts i (addUnsub (OffListener u j) newWatchStream, hub1)) = snd (listen_all ts i (newWatchStream, hub1))"
    using listen_all_unsubs [of ts i "addUnsub (OffListener u j) newWatchStream" hub1] by (simp_all add: addUnsub_def newWatchStream_def)
  have un': "wt_unsubs (fst (listen_all (u # ts) i (newWatchStream, hub))) = OffListener u j # wt_unsubs (fst (listen_all ts i (newWatchStream, hub1)))"
    "snd (listen_all (u # ts) i (newWatchStream, hub)) = snd (listen_all ts i (newWatchStream, hub1))"
    using un on by simp_all
  note ih' = ih [unfolded Let_def case_prod_beta]
  have "listeners_of t (snd (listen_all ts i (newWatchStream, hub1)))
      = listeners_of t hub @ map (\<lambda>j. (j, i)) (listens t (OffListener u j # wt_unsubs (fst (listen_all ts i (newWatchStream, hub1)))))"
    using ih' by (simp add: ls)
  moreover have "length (listens t (OffListener u j # wt_unsubs (fst (listen_all ts i (newWatchStream, hub1))))) = count_list (u # ts) t"
    using ih' by simp
  ultimately show ?case unfolding Let_def case_prod_beta un' using ih' by blast
qed

lemma hub_inv_open:
  assumes inv: "hub_inv d" and r: "\<And>t j. r \<noteq> Some (OffListener t j)"
  shows "hub_inv (open_feed k a r p d)"
proof -
  let ?n = "length (dk_feeds d)" and ?d = "open_feed k a r p d"
  let ?s = "fst (listen_all (feed_types k) ?n (newWatchStream, dk_hub d))"
  have ok: "hub_ok (dk_hub d)" and dist: "\<And>t. distinct (map fst (listeners_of t (dk_hub d)))" using inv by (simp_all add: hub_inv_def)
  note lh = listen_all_hub [OF ok dist, of "feed_types k" ?n, unfolded Let_def case_prod_beta]
  have la: "hub_ok (dk_hub ?d)" "distinct (map fst (listeners_of t (dk_hub ?d)))"
    "listeners_of t (dk_hub ?d) = listeners_of t (dk_hub d) @ map (\<lambda>j. (j, ?n)) (listens t (wt_unsubs ?s))"
    "length (listens t (wt_unsubs ?s)) = count_list (feed_types k) t" for t
    unfolding open_feed_fields using lh [of t] by blast+
  have old: "unsubs_of ?d i = unsubs_of d i" "dk_feeds ?d ! i = dk_feeds d ! i" if "i < ?n" for i
    using that by (simp_all add: unsubs_of_def open_feed_fields nth_append)
  have new: "listens t (unsubs_of ?d ?n) = listens t (wt_unsubs ?s)" for t
    using r by (cases r) (auto simp: unsubs_of_def open_feed_fields opened_feed_def Let_def addUnsub_def listens_def split: feed_release.split)
  have newf: "\<not> wt_closed (fd_base (dk_feeds ?d ! ?n))" "fd_kind (dk_feeds ?d ! ?n) = k"
    using opened_unsubs(2) by (simp_all add: open_feed_fields) (simp add: opened_feed_def)
  have len: "length (dk_feeds ?d) = Suc ?n" by (simp add: open_feed_fields)
  have fil: "filter (\<lambda>p. snd p = i) (listeners_of t (dk_hub ?d))
      = (if i < length (dk_feeds ?d) then map (\<lambda>j. (j, i)) (listens t (unsubs_of ?d i)) else [])" for i t
  proof -
    have d: "filter (\<lambda>p. snd p = i) (listeners_of t (dk_hub d))
        = (if i < ?n then map (\<lambda>j. (j, i)) (listens t (unsubs_of d i)) else [])" for i
      using inv by (simp add: hub_inv_def)
    have e: "filter (\<lambda>p. snd p = i) (map (\<lambda>j. (j, ?n)) js) = (if i = ?n then map (\<lambda>j. (j, ?n)) js else [])" for js :: "nat list"
      by (induction js) auto
    consider "i < ?n" | "i = ?n" | "?n < i" by linarith
    then show ?thesis by cases (simp_all add: la(3) d e len old new)
  qed
  have "length (listens t (unsubs_of ?d i))
      = (if wt_closed (fd_base (dk_feeds ?d ! i)) then 0 else count_list (feed_types (fd_kind (dk_feeds ?d ! i))) t)"
    if "i < length (dk_feeds ?d)" for i t
    using that inv old newf new la(4) by (cases "i = ?n") (simp_all add: hub_inv_def len)
  then show ?thesis using la(1,2) fil by (simp add: hub_inv_def)
qed

lemma releases_listeners:
  "listeners_of t (dk_hub (fold release_feed us d)) = filter (\<lambda>p. fst p \<notin> set (listens t us)) (listeners_of t (dk_hub d))"
proof (induction us arbitrary: d)
  case (Cons u us)
  show ?case using Cons.IH [of "release_feed u d"]
    by (cases u) (auto simp: release_feed_def listeners_of_off listens_def intro: filter_cong)
qed simp

lemma releases_next [simp]: "hb_next (dk_hub (fold release_feed us d)) = hb_next (dk_hub d)"
proof (induction us arbitrary: d)
  case (Cons u us)
  show ?case using Cons.IH [of "release_feed u d"] by (cases u) (simp_all add: release_feed_def)
qed simp

lemma hub_inv_close:
  assumes inv: "hub_inv d"
  shows "hub_inv (close_feed i d)"
proof (cases "i < length (dk_feeds d) \<and> \<not> wt_closed (fd_base (dk_feeds d ! i))")
  case False
  then show ?thesis using hub_inv_put [OF inv, of "dk_feeds d ! i" i] inv
    by (auto simp: close_feed_def Close_def releases_def put_feed_def Let_def)
next
  case True
  then have lt: "i < length (dk_feeds d)" and open_i: "\<not> wt_closed (fd_base (dk_feeds d ! i))" by simp_all
  let ?f = "dk_feeds d ! i" and ?us = "unsubs_of d i"
  let ?f' = "?f\<lparr>fd_base := (fd_base ?f)\<lparr>wt_closed := True, wt_unsubs := []\<rparr>\<rparr>"
  have close: "close_feed i d = fold release_feed ?us (put_feed i ?f' d)"
    using lt open_i by (simp add: close_feed_def Close_def Let_def unsubs_of_def)
  let ?d = "close_feed i d"
  have ls: "listeners_of t (dk_hub ?d) = filter (\<lambda>p. fst p \<notin> set (listens t ?us)) (listeners_of t (dk_hub d))" for t
    by (simp add: close releases_listeners)
  have feeds: "dk_feeds ?d = (dk_feeds d)[i := ?f']" by (simp add: close)
  have fil: "filter (\<lambda>p. snd p = j) (listeners_of t (dk_hub d))
      = (if j < length (dk_feeds d) then map (\<lambda>x. (x, j)) (listens t (unsubs_of d j)) else [])" for j t
    using inv by (simp add: hub_inv_def)
  have mine: "(x, i) \<in> set (listeners_of t (dk_hub d))" if "x \<in> set (listens t ?us)" for x t
  proof -
    have "(x, i) \<in> set (filter (\<lambda>p. snd p = i) (listeners_of t (dk_hub d)))" using that lt by (simp only: fil) simp
    then show ?thesis by simp
  qed
  have "filter (\<lambda>p. snd p = j) (listeners_of t (dk_hub ?d))
      = (if j < length (dk_feeds ?d) then map (\<lambda>x. (x, j)) (listens t (unsubs_of ?d j)) else [])" for j t
  proof -
    have swap: "filter (\<lambda>p. snd p = j) (listeners_of t (dk_hub ?d))
        = filter (\<lambda>p. fst p \<notin> set (listens t ?us)) (filter (\<lambda>p. snd p = j) (listeners_of t (dk_hub d)))"
      by (simp add: ls conj_commute)
    show ?thesis
    proof (cases "j = i")
      case True
      then show ?thesis unfolding swap fil using lt by (simp add: feeds unsubs_of_def filter_map comp_def)
    next
      case False
      have "fst p \<notin> set (listens t ?us)" if p: "p \<in> set (filter (\<lambda>p. snd p = j) (listeners_of t (dk_hub d)))" for p
      proof
        assume "fst p \<in> set (listens t ?us)"
        then have two: "(fst p, i) \<in> set (listeners_of t (dk_hub d))" "p \<in> set (listeners_of t (dk_hub d))" "snd p = j"
          using mine p by auto
        have "distinct (map fst (listeners_of t (dk_hub d)))" using inv by (simp add: hub_inv_def)
        then have "(fst p, i) = p" using two(1,2) by (metis eq_key_imp_eq_value prod.collapse)
        then show False using two(3) False by (metis snd_conv)
      qed
      then have "filter (\<lambda>p. snd p = j) (listeners_of t (dk_hub ?d)) = filter (\<lambda>p. snd p = j) (listeners_of t (dk_hub d))"
        unfolding swap by (intro filter_True ballI)
      then show ?thesis using False by (simp add: fil feeds unsubs_of_def)
    qed
  qed
  moreover have "hub_ok (dk_hub ?d)"
  proof -
    have "hub_ok (dk_hub d)" using inv by (simp add: hub_inv_def)
    moreover have "hb_next (dk_hub ?d) = hb_next (dk_hub d)" by (simp add: close)
    ultimately show ?thesis by (fastforce simp: hub_ok_def ls)
  qed
  moreover have "distinct (map fst (listeners_of t (dk_hub ?d)))" for t
    using inv by (simp add: hub_inv_def ls distinct_map_filter)
  moreover have "length (listens t (unsubs_of ?d j))
      = (if wt_closed (fd_base (dk_feeds ?d ! j)) then 0 else count_list (feed_types (fd_kind (dk_feeds ?d ! j))) t)"
    if "j < length (dk_feeds ?d)" for j t
    using that inv lt by (cases "j = i") (simp_all add: hub_inv_def feeds unsubs_of_def)
  ultimately show ?thesis by (simp add: hub_inv_def)
qed

lemma hub_inv_step:
  assumes "hub_inv d"
  shows "hub_inv (fst (feed_step e d))"
  using assms
  by (cases e) (auto simp: feed_step_def WatchPrices_def WatchOperations_def WatchBalances_def WatchObject_def WatchFills_def
      WatchFunding_def WatchCandles_def WatchOI_def WatchTrades_def WatchTwap_def Let_def hub_inv_land hub_inv_close hub_inv_calls
      hub_inv_seed split: sum.split intro!: hub_inv_open)

lemma hub_inv_run: "hub_inv d \<Longrightarrow> hub_inv (fst (run_feeds es d))"
proof (induction es arbitrary: d)
  case (Cons e es)
  show ?case using Cons.IH [OF hub_inv_step [OF Cons.prems]] by (simp add: case_prod_beta)
qed simp

section \<open>Everything comes back\<close>


text \<open>Two streams on one path and one of prices: with one closed the path is still held once; with all closed nothing is.\<close>

definition lease_run :: "feed_event list" where
  "lease_run = [OpenBalances ''/a'', OpenOperations ''/a'', OpenPrices [] [''BTC''], LandPath 0, LandPath 1, CloseFeed 0,
     CloseFeed 2, CloseFeed 1]"


text \<open>A stream closed before its goroutine runs: the release finds nothing to give back and the path stays watched.\<close>

lemma early_close_keeps_the_path:
  "let d = fst (run_feeds [OpenBalances ''/a'', CloseFeed 0, LandPath 0] new_desk) in
     wt_closed (fd_base (dk_feeds d ! 0)) \<and> count_of (dk_subs d) (PathCount ''/a'') = 1"
  by code_simp

section \<open>What a stream shows\<close>

definition shown :: "nat \<Rightarrow> (nat \<times> feed_update) list \<Rightarrow> feed_update list" where
  "shown i us = map snd (filter (\<lambda>p. fst p = i) us)"

lemma shown_simps [simp]: "shown i [] = []" "shown i ((j, u) # us) = (if j = i then [u] else []) @ shown i us"
  "shown i (us @ vs) = shown i us @ shown i vs"
  by (simp_all add: shown_def)

definition next_prices :: "feed_update \<Rightarrow> (gostring \<rightharpoonup> gostring) \<Rightarrow> gostring \<rightharpoonup> gostring" where
  "next_prices u m = (case u of PricesUpdate m' \<Rightarrow> m' | _ \<Rightarrow> m)"

text \<open>The updates of an open stream of kind \<^verbatim>\<open>k\<close> at prices \<^verbatim>\<open>m\<close> for the events it is called with, and its prices after them.\<close>

fun told_feed :: "feed_kind \<Rightarrow> (gostring \<rightharpoonup> gostring) \<Rightarrow> StreamEvent list \<Rightarrow> feed_update list \<times> (gostring \<rightharpoonup> gostring)" where
  "told_feed k m [] = ([], m)"
| "told_feed k m (ev # evs) =
     (case feed_handler k m ev of
        None \<Rightarrow> told_feed k m evs
      | Some u \<Rightarrow> (case told_feed k (next_prices u m) evs of (us, m') \<Rightarrow> (u # us, m')))"

text \<open>What stream \<^verbatim>\<open>i\<close> of kind \<^verbatim>\<open>k\<close> should show: its events and its seed, in order, until it is closed.\<close>

fun feed_view :: "nat \<Rightarrow> feed_kind \<Rightarrow> (gostring \<rightharpoonup> gostring) \<Rightarrow> feed_event list \<Rightarrow> feed_update list" where
  "feed_view i k m [] = []"
| "feed_view i k m (e # es) =
     (case e of
        EventArrives ev \<Rightarrow>
          (case told_feed k m (if ev_Type ev \<in> set (feed_types k) then [ev] else []) of (us, m') \<Rightarrow> us @ feed_view i k m' es)
      | CloseFeed j \<Rightarrow> (if j = i then [] else feed_view i k m es)
      | SeedObject j v \<Rightarrow> (if j = i then [ValuationUpdate v] else []) @ feed_view i k m es
      | SeedTwap j t \<Rightarrow> (if j = i then [TwapUpdate t] else []) @ feed_view i k m es
      | _ \<Rightarrow> feed_view i k m es)"

text \<open>Stream \<^verbatim>\<open>i\<close> is there, of kind \<^verbatim>\<open>k\<close>, at prices \<^verbatim>\<open>m\<close>, and closed or not.\<close>

definition feed_at :: "nat \<Rightarrow> feed_kind \<Rightarrow> (gostring \<rightharpoonup> gostring) \<Rightarrow> bool \<Rightarrow> desk \<Rightarrow> bool" where
  "feed_at i k m c d \<longleftrightarrow>
     i < length (dk_feeds d) \<and> fd_kind (dk_feeds d ! i) = k \<and> fd_prices (dk_feeds d ! i) = m \<and> wt_closed (fd_base (dk_feeds d ! i)) = c"

lemma feed_at_cong: "i < length (dk_feeds d') \<Longrightarrow> dk_feeds d' ! i = dk_feeds d ! i \<Longrightarrow> feed_at i k m c d \<Longrightarrow> feed_at i k m c d'"
  by (simp add: feed_at_def)

lemma call_other:
  assumes "feed_at i k m c d" "j \<noteq> i"
  shows "feed_at i k m c (fst (call_feed j ev d)) \<and> shown i (snd (call_feed j ev d)) = []"
  using assms by (auto simp: call_feed_def feed_at_def Let_def split: option.split)

lemma call_self:
  assumes "feed_at i k m c d"
  shows "feed_at i k (case feed_handler k m ev of None \<Rightarrow> m | Some u \<Rightarrow> next_prices u m) c (fst (call_feed i ev d))
    \<and> shown i (snd (call_feed i ev d)) = (if c then [] else case feed_handler k m ev of None \<Rightarrow> [] | Some u \<Rightarrow> [u])"
  using assms by (auto simp: call_feed_def feed_at_def Let_def next_prices_def split: option.split feed_update.split)

lemma calls_shown:
  assumes "feed_at i k m c d"
  shows "let evs = map (snd \<circ> snd) (filter (\<lambda>x. fst (snd x) = i) cs) in
     feed_at i k (snd (told_feed k m evs)) c (fst (call_feeds cs d)) \<and> shown i (snd (call_feeds cs d)) = (if c then [] else fst (told_feed k m evs))"
  using assms
proof (induction cs arbitrary: d m)
  case (Cons x cs)
  obtain j i' ev where x: "x = (j, i', ev)" by (cases x)
  show ?case
  proof (cases "i' = i")
    case True
    show ?thesis
      using call_self [OF Cons.prems, of ev] Cons.IH [of "case feed_handler k m ev of None \<Rightarrow> m | Some u \<Rightarrow> next_prices u m" "fst (call_feed i ev d)"] x True
      by (cases "feed_handler k m ev") (simp_all add: Let_def case_prod_beta)
  next
    case False
    show ?thesis
      using call_other [OF Cons.prems False, of ev] Cons.IH [of m "fst (call_feed i' ev d)"] x False
      by (simp add: Let_def case_prod_beta)
  qed
qed (simp add: Let_def)

lemmas event_names = EventMidsUpdated_def EventOperationCreated_def EventOperationUpdated_def EventBalanceUpdated_def
  EventObjectValuation_def EventFillPreviewed_def EventFillRecorded_def EventExchangeFunding_def EventCandleUpdated_def
  EventOIUpdated_def EventTradeExecuted_def EventTwapStarted_def EventTwapProgress_def EventTwapCompleted_def
  EventTwapCancelled_def EventTwapFailed_def

lemma types_count_once: "distinct xs \<Longrightarrow> count_list xs t = (if t \<in> set xs then 1 else 0)"
  by (induction xs) (auto split: if_splits)

lemma feed_types_once: "count_list (feed_types k) t = (if t \<in> set (feed_types k) then 1 else 0)" "''*'' \<notin> set (feed_types k)"
proof -
  have "distinct (feed_types k)" by (cases k) (simp_all add: feed_types_def event_names)
  then show "count_list (feed_types k) t = (if t \<in> set (feed_types k) then 1 else 0)"
    by (rule types_count_once)
  show "''*'' \<notin> set (feed_types k)" by (cases k) (simp_all add: feed_types_def event_names)
qed

lemma dispatched:
  assumes inv: "hub_inv d" and f: "feed_at i k m c d"
  shows "map (snd \<circ> snd) (filter (\<lambda>x. fst (snd x) = i) (dispatch ev (dk_hub d)))
    = (if \<not> c \<and> ev_Type ev \<in> set (feed_types k) then [ev] else [])"
proof -
  have xs: "map (snd \<circ> snd) (filter (\<lambda>x. fst (snd x) = i) (map (\<lambda>(j, h). (j, h, ev)) ps)) = map (\<lambda>_. ev) (filter (\<lambda>p. snd p = i) ps)"
    for ps :: "(nat \<times> nat) list"
    by (induction ps) auto
  have len: "length (filter (\<lambda>p. snd p = i) (listeners_of t (dk_hub d))) = (if \<not> c \<and> t \<in> set (feed_types k) then 1 else 0)" for t
    using inv f by (auto simp: hub_inv_def feed_at_def feed_types_once(1))
  have none: "filter (\<lambda>p. snd p = i) (listeners_of ''*'' (dk_hub d)) = []"
    using len [of "''*''"] feed_types_once(2) by simp
  have one: "map (\<lambda>_. ev) (filter (\<lambda>p. snd p = i) (listeners_of t (dk_hub d))) = (if \<not> c \<and> t \<in> set (feed_types k) then [ev] else [])" for t
    using len [of t] by (auto simp: map_replicate_const)
  show ?thesis unfolding dispatch_def xs by (simp add: none one)
qed

text \<open>A closed stream stays as it is and shows nothing; an open one answers a step as its view says.\<close>

lemma close_other:
  assumes "feed_at i k m c d" "j \<noteq> i"
  shows "feed_at i k m c (close_feed j d)"
  using assms by (auto simp: close_feed_def feed_at_def Let_def case_prod_beta)

lemma close_self:
  assumes "feed_at i k m c d"
  shows "feed_at i k m True (close_feed i d)"
  using assms by (auto simp: close_feed_def feed_at_def Let_def case_prod_beta Close_def)

lemma open_keeps:
  assumes "feed_at i k m c d"
  shows "feed_at i k m c (open_feed k' a r p d)"
  using assms by (auto simp: feed_at_def open_feed_fields nth_append)

lemma land_keeps: "feed_at i k m c d \<Longrightarrow> feed_at i k m c (land_path j d)"
  by (auto simp: feed_at_def land_path_def split: list.split)

lemma seed_shown:
  assumes "feed_at i k m c d"
  shows "feed_at i k m c (fst (seed_feed j u d)) \<and> shown i (snd (seed_feed j u d)) = (if \<not> c \<and> j = i then [u] else [])"
  using assms by (cases "j = i") (auto simp: seed_feed_def feed_at_def Let_def)

lemma arrival_shown:
  assumes "hub_inv d" "feed_at i k m c d"
  shows "let r = told_feed k m (if \<not> c \<and> ev_Type ev \<in> set (feed_types k) then [ev] else []);
             (d', us) = call_feeds (dispatch ev (dk_hub d)) d in
     feed_at i k (snd r) c d' \<and> shown i us = (if c then [] else fst r)"
  using calls_shown [OF assms(2), of "dispatch ev (dk_hub d)"] dispatched [OF assms, of ev]
  by (simp add: Let_def case_prod_beta)

lemma openings_keep:
  assumes "feed_at i k m c d"
  shows "feed_at i k m c (WatchFills o' r d)" "feed_at i k m c (WatchFunding o' r d)"
  using assms by (cases r; simp add: WatchFills_def WatchFunding_def open_keeps)+

lemmas opening_defs = WatchPrices_def WatchOperations_def WatchBalances_def WatchObject_def WatchCandles_def WatchOI_def
  WatchTrades_def WatchTwap_def

lemma feed_shown:
  assumes "hub_inv d" "feed_at i k m c d"
  shows "shown i (snd (run_feeds es d)) = (if c then [] else feed_view i k m es)"
  using assms
proof (induction es arbitrary: d m c)
  case (Cons e es)
  note next_inv = hub_inv_step [OF Cons.prems(1), of e]
  have step: "shown i (snd (run_feeds (e # es) d)) = shown i (snd (feed_step e d)) @ shown i (snd (run_feeds es (fst (feed_step e d))))"
    by (simp add: case_prod_beta)
  have kept: ?case if "feed_at i k m c (fst (feed_step e d))" "snd (feed_step e d) = []" "c \<or> feed_view i k m (e # es) = feed_view i k m es"
    using Cons.IH [OF next_inv that(1)] that(2,3) unfolding step by auto
  note keeps = open_keeps [OF Cons.prems(2)] openings_keep [OF Cons.prems(2)] land_keeps [OF Cons.prems(2)]
  show ?case
  proof (cases e)
    case (EventArrives ev)
    let ?r = "told_feed k m (if \<not> c \<and> ev_Type ev \<in> set (feed_types k) then [ev] else [])"
    have r: "feed_at i k (snd ?r) c (fst (feed_step e d))" "shown i (snd (feed_step e d)) = (if c then [] else fst ?r)"
      using arrival_shown [OF Cons.prems, of ev] EventArrives by (simp_all add: feed_step_def Let_def case_prod_beta)
    show ?thesis using Cons.IH [OF next_inv r(1)] r(2) EventArrives unfolding step by (auto simp: case_prod_beta)
  next
    case (CloseFeed j)
    show ?thesis
    proof (cases "j = i")
      case True
      have "feed_at i k m True (fst (feed_step e d))" using close_self [OF Cons.prems(2)] CloseFeed True by (simp add: feed_step_def)
      from Cons.IH [OF next_inv this] show ?thesis unfolding step using CloseFeed True by (simp add: feed_step_def)
    next
      case False
      show ?thesis by (rule kept) (use close_other [OF Cons.prems(2) False] CloseFeed False in \<open>simp_all add: feed_step_def\<close>)
    qed
  next
    case (SeedObject j v)
    note s = seed_shown [OF Cons.prems(2), of j "ValuationUpdate v"]
    have "feed_at i k m c (fst (feed_step e d))" using s SeedObject by (simp add: feed_step_def)
    from Cons.IH [OF next_inv this] show ?thesis unfolding step using s SeedObject by (auto simp: feed_step_def)
  next
    case (SeedTwap j t)
    note s = seed_shown [OF Cons.prems(2), of j "TwapUpdate t"]
    have "feed_at i k m c (fst (feed_step e d))" using s SeedTwap by (simp add: feed_step_def)
    from Cons.IH [OF next_inv this] show ?thesis unfolding step using s SeedTwap by (auto simp: feed_step_def)
  qed (rule kept; use keeps in \<open>simp add: feed_step_def opening_defs Let_def\<close>)+
qed simp


text \<open>A price stream beside a trades stream and an object stream: two ticks merge, a foreign valuation and late ticks do not show.\<close>

definition tick :: "gostring \<Rightarrow> gostring \<Rightarrow> StreamEvent" where
  "tick coin px = no_event\<lparr>ev_Type := EventMidsUpdated, ev_Mids := Some [(coin, px)]\<rparr>"

definition price_run :: "feed_event list" where
  "price_run = [OpenPrices [] [], OpenOperations ''/'', EventArrives (tick ''BTC'' ''60000''), EventArrives (tick ''ETH'' ''3000''),
     EventArrives (no_event\<lparr>ev_Type := EventBalanceUpdated, ev_EntityID := ''obj''\<rparr>), CloseFeed 0,
     EventArrives (tick ''BTC'' ''61000'')]"


section \<open>Where a stream shows what it should not, or less than it could\<close>

text \<open>A TWAP event without an id is passed on by every TWAP stream, whichever operation it is of.\<close>

lemma foreign_twap_passes:
  "twap_handler i (no_event\<lparr>ev_EntityID := other, ev_Twap := Some t\<rparr>) = Some (TwapUpdate t)"
  by (simp add: twap_handler_def no_event_def)

text \<open>A seed read that was answered before a push but lands after it is shown as the newer value.\<close>

definition pushed_valuation :: "gostring \<Rightarrow> ObjectValuation \<Rightarrow> StreamEvent" where
  "pushed_valuation p v = no_event\<lparr>ev_Type := EventObjectValuation, ev_Path := p, ev_WatchID := ''w'', ev_Valuation := Some v\<rparr>"

lemma late_seed_overwrites:
  "feed_view i (Object p) m [EventArrives (pushed_valuation p new), SeedObject i old]
   = (if p = [] then [ValuationUpdate old] else [ValuationUpdate new, ValuationUpdate old])"
  by (simp add: feed_types_def feed_handler_def object_handler_def typed_calls_def pushed_valuation_def no_event_def)

text \<open>The fill of a push keeps neither its fee breakdown nor its realized P\<^verbatim>\<open>&\<close>L, direction or resulting position.\<close>

lemma pushed_fill_is_partial:
  "fl_RealizedPnl (fill_of_event f) = [] \<and> fl_Direction (fill_of_event f) = [] \<and> fl_ExchangeFee (fill_of_event f) = []
   \<and> fl_PlatformFee (fill_of_event f) = [] \<and> fl_BuilderFee (fill_of_event f) = [] \<and> fl_ResultingPosition (fill_of_event f) = None
   \<and> fl_Price (fill_of_event f) = sf_Price f \<and> fl_Size (fill_of_event f) = sf_Size f"
  by (simp add: fill_of_event_def)


end
