(* ===== verification/Live_Watches.thy ===== *)
theory Live_Watches
  imports Watch_Feeds Gates
begin

text \<open>
  The two streams that renew something on the connection themselves (\<^verbatim>\<open>streams.go\<close>): the aggregation watch, which
  re-creates its watch on the server after every reconnect and rotation, and the realm-wide exchange stream, which tells
  its consumer to read again.  Each critical section of the re-creation is a step; the lemmas show when the watch the
  stream believes in is alive on the server.
\<close>

section \<open>Aggregation watch\<close>

datatype agg_release = OffUpdated | OffAuthenticated | OffRotated | DestroyWatch

text \<open>The places of the goroutine of \<^verbatim>\<open>recreate\<close>.\<close>

datatype agg_pc = NoRecreate | Recreate_Once | Creating gostring | Created gostring gostring PathAggregation | Turn_Over

record AggregationWatchStream =
  ag_base :: "(PathAggregation, agg_release) WatchStream"
  ag_watchID :: gostring
  ag_recreating :: bool
  ag_redo :: bool
  ag_pc :: agg_pc

text \<open>
  The stream with its surroundings: what it has still to register, its first value, the releases of a close that are still to
  run, the goroutines spawned and not yet running, the server's watches of the connection that delivers and its answer to the
  request on its way.  The last two fields are ghosts: a connection change nobody told the stream of, a re-creation that failed.
\<close>

record agg_world =
  gw_stream :: AggregationWatchStream
  gw_hooks :: "agg_release list"
  gw_first :: "PathAggregation option"
  gw_releasing :: "agg_release list"
  gw_spawned :: nat
  gw_up :: bool
  gw_live :: "gostring list"
  gw_known :: "gostring list"
  gw_answer :: "(gostring \<times> PathAggregation) option"
  gw_missed :: bool
  gw_failed :: bool

text \<open>\<^verbatim>\<open>WatchAggregation\<close>: the watch was created before; the listeners follow.\<close>

definition WatchAggregation :: "gostring \<Rightarrow> AggregationWatchStream" where
  "WatchAggregation watchID =
     \<lparr>ag_base = newWatchStream, ag_watchID = watchID, ag_recreating = False, ag_redo = False, ag_pc = NoRecreate\<rparr>"

text \<open>The listeners in the order they are registered, each with its release; the last release destroys the watch.\<close>

definition agg_hooks :: "agg_release list" where
  "agg_hooks = [OffUpdated, OffAuthenticated, OffRotated, DestroyWatch]"

definition on_aggregation :: "gostring \<Rightarrow> PathAggregation option \<Rightarrow> AggregationWatchStream \<Rightarrow> AggregationWatchStream" where
  "on_aggregation wid updated s =
     (case updated of
        Some agg \<Rightarrow> if wid \<noteq> [] \<and> wid = ag_watchID s then s\<lparr>ag_base := fst (emit agg (ag_base s))\<rparr> else s
      | None \<Rightarrow> s)"

text \<open>\<^verbatim>\<open>recreate\<close>: a second trigger is noted for the goroutine that runs.\<close>

definition agg_recreate :: "AggregationWatchStream \<Rightarrow> AggregationWatchStream" where
  "agg_recreate s = (if ag_recreating s then s\<lparr>ag_redo := True\<rparr> else s\<lparr>ag_recreating := True, ag_pc := Recreate_Once\<rparr>)"

definition agg_begin :: "AggregationWatchStream \<Rightarrow> AggregationWatchStream" where
  "agg_begin s = s\<lparr>ag_pc := (if wt_closed (ag_base s) then Turn_Over else Creating (ag_watchID s))\<rparr>"

text \<open>The answer to the request, or no answer; a stream closed meanwhile does not take it.\<close>

definition agg_answer :: "gostring \<Rightarrow> (gostring \<times> PathAggregation) option \<Rightarrow> AggregationWatchStream \<Rightarrow> AggregationWatchStream" where
  "agg_answer previous r s =
     (case r of
        Some (wid, agg) \<Rightarrow> s\<lparr>ag_pc := (if wt_closed (ag_base s) then Turn_Over else Created previous wid agg)\<rparr>
      | None \<Rightarrow> s\<lparr>ag_pc := Turn_Over\<rparr>)"

definition agg_install :: "gostring \<Rightarrow> PathAggregation \<Rightarrow> AggregationWatchStream \<Rightarrow> AggregationWatchStream" where
  "agg_install wid agg s = s\<lparr>ag_watchID := wid, ag_base := fst (emit agg (ag_base s)), ag_pc := Turn_Over\<rparr>"

text \<open>The watch that is destroyed once the new one is installed.\<close>

definition superseded :: "gostring \<Rightarrow> gostring \<Rightarrow> gostring list" where
  "superseded previous wid = (if previous \<noteq> [] \<and> previous \<noteq> wid then [previous] else [])"

definition agg_turn :: "AggregationWatchStream \<Rightarrow> AggregationWatchStream" where
  "agg_turn s =
     (let again = ag_redo s \<and> \<not> wt_closed (ag_base s) in
      s\<lparr>ag_redo := False, ag_recreating := again, ag_pc := (if again then Recreate_Once else NoRecreate)\<rparr>)"

section \<open>The stream and the server\<close>

definition on_stream :: "(AggregationWatchStream \<Rightarrow> AggregationWatchStream) \<Rightarrow> agg_world \<Rightarrow> agg_world" where
  "on_stream f g = g\<lparr>gw_stream := f (gw_stream g)\<rparr>"

definition destroy_live :: "gostring list \<Rightarrow> agg_world \<Rightarrow> agg_world" where
  "destroy_live ws g = g\<lparr>gw_live := filter (\<lambda>w. w \<notin> set ws) (gw_live g)\<rparr>"

definition agg_closed :: "agg_world \<Rightarrow> bool" where
  "agg_closed g = wt_closed (ag_base (gw_stream g))"

text \<open>The listener with release \<^verbatim>\<open>u\<close> is registered.\<close>

definition hooked :: "agg_release \<Rightarrow> agg_world \<Rightarrow> bool" where
  "hooked u g \<longleftrightarrow> u \<in> set (wt_unsubs (ag_base (gw_stream g))) \<or> u \<in> set (gw_releasing g)"

definition trigger :: "agg_release \<Rightarrow> agg_world \<Rightarrow> agg_world" where
  "trigger u g = (if hooked u g then g\<lparr>gw_spawned := Suc (gw_spawned g)\<rparr> else g\<lparr>gw_missed := gw_missed g \<or> \<not> agg_closed g\<rparr>)"

text \<open>Closing takes the releases; they run after it, and the last one destroys the watch the stream has by then.\<close>

definition agg_close :: "agg_world \<Rightarrow> agg_world" where
  "agg_close g =
     (case Close (ag_base (gw_stream g)) of (b, es) \<Rightarrow>
        on_stream (\<lambda>s. s\<lparr>ag_base := b\<rparr>) g\<lparr>gw_releasing := gw_releasing g @ releases es\<rparr>)"

definition agg_release_next :: "agg_world \<Rightarrow> agg_world" where
  "agg_release_next g =
     (case gw_releasing g of
        [] \<Rightarrow> g
      | u # us \<Rightarrow> (if u = DestroyWatch then destroy_live [ag_watchID (gw_stream g)] else (\<lambda>g. g)) (g\<lparr>gw_releasing := us\<rparr>))"

text \<open>
  The connection is lost and authenticated anew, or delivery moves to another connection; either way the watches of the old
  one are gone.  A request is served on a connection that is up, under a new id; its answer arrives or it does not.  A move
  that does not apply changes nothing.
\<close>

datatype agg_move = Register | First_Value | Frame gostring "PathAggregation option" | Lose | Authenticate | Rotate | Run_Goroutine
  | Begin_Once | Serve gostring PathAggregation | Take_Answer | No_Answer | Install | Turn | Close_Agg | Release_Next

fun agg_do :: "agg_move \<Rightarrow> agg_world \<Rightarrow> agg_world" where
  "agg_do Register g =
     (case gw_hooks g of [] \<Rightarrow> g | u # us \<Rightarrow> on_stream (\<lambda>s. s\<lparr>ag_base := addUnsub u (ag_base s)\<rparr>) (g\<lparr>gw_hooks := us\<rparr>))"
| "agg_do First_Value g =
     (case (gw_hooks g, gw_first g) of
        ([], Some agg) \<Rightarrow> on_stream (\<lambda>s. s\<lparr>ag_base := fst (emit agg (ag_base s))\<rparr>) (g\<lparr>gw_first := None\<rparr>)
      | _ \<Rightarrow> g)"
| "agg_do (Frame wid updated) g = (if hooked OffUpdated g then on_stream (on_aggregation wid updated) g else g)"
| "agg_do Lose g = g\<lparr>gw_up := False, gw_live := []\<rparr>"
| "agg_do Authenticate g = (if gw_up g then g else trigger OffAuthenticated (g\<lparr>gw_up := True\<rparr>))"
| "agg_do Rotate g = (if gw_up g then trigger OffRotated (g\<lparr>gw_live := []\<rparr>) else g)"
| "agg_do Run_Goroutine g =
     (case gw_spawned g of 0 \<Rightarrow> g | Suc n \<Rightarrow> on_stream agg_recreate (g\<lparr>gw_spawned := n\<rparr>))"
| "agg_do Begin_Once g =
     (case ag_pc (gw_stream g) of
        Recreate_Once \<Rightarrow> on_stream agg_begin (g\<lparr>gw_answer := None, gw_failed := False\<rparr>) | _ \<Rightarrow> g)"
| "agg_do (Serve wid agg) g =
     (case ag_pc (gw_stream g) of
        Creating p \<Rightarrow>
          if gw_up g \<and> gw_answer g = None \<and> wid \<noteq> [] \<and> wid \<notin> set (gw_known g) then
            g\<lparr>gw_live := wid # gw_live g, gw_known := wid # gw_known g, gw_answer := Some (wid, agg)\<rparr>
          else g
      | _ \<Rightarrow> g)"
| "agg_do Take_Answer g =
     (case (ag_pc (gw_stream g), gw_answer g) of
        (Creating p, Some r) \<Rightarrow> on_stream (agg_answer p (Some r)) g | _ \<Rightarrow> g)"
| "agg_do No_Answer g =
     (case ag_pc (gw_stream g) of Creating p \<Rightarrow> on_stream (agg_answer p None) (g\<lparr>gw_failed := True\<rparr>) | _ \<Rightarrow> g)"
| "agg_do Install g =
     (case ag_pc (gw_stream g) of
        Created p wid agg \<Rightarrow> destroy_live (superseded p wid) (on_stream (agg_install wid agg) g) | _ \<Rightarrow> g)"
| "agg_do Turn g = (case ag_pc (gw_stream g) of Turn_Over \<Rightarrow> on_stream agg_turn g | _ \<Rightarrow> g)"
| "agg_do Close_Agg g = (if gw_hooks g = [] then agg_close g else g)"
| "agg_do Release_Next g = agg_release_next g"

text \<open>The watch was created, and its connection is up, when the stream is made.\<close>

definition agg_start :: "gostring \<Rightarrow> PathAggregation \<Rightarrow> agg_world" where
  "agg_start wid agg =
     \<lparr>gw_stream = WatchAggregation wid, gw_hooks = agg_hooks, gw_first = Some agg, gw_releasing = [], gw_spawned = 0, gw_up = True,
      gw_live = [wid], gw_known = [wid], gw_answer = None, gw_missed = False, gw_failed = False\<rparr>"

fun agg_run :: "agg_move list \<Rightarrow> agg_world \<Rightarrow> agg_world" where
  "agg_run [] g = g"
| "agg_run (m # ms) g = agg_run ms (agg_do m g)"

section \<open>The watch the stream believes in\<close>

text \<open>What the next turns of the goroutine will do for an open stream whose connection is up.\<close>

definition on_its_way :: "agg_world \<Rightarrow> bool" where
  "on_its_way g \<longleftrightarrow> 0 < gw_spawned g \<or> ag_redo (gw_stream g)
     \<or> (case ag_pc (gw_stream g) of
          Recreate_Once \<Rightarrow> True
        | Creating p \<Rightarrow> (case gw_answer g of Some (w, _) \<Rightarrow> w \<in> set (gw_live g) | None \<Rightarrow> True)
        | Created p w _ \<Rightarrow> w \<in> set (gw_live g)
        | _ \<Rightarrow> gw_failed g \<or> ag_watchID (gw_stream g) \<in> set (gw_live g))"

definition gate_ok :: "agg_world \<Rightarrow> bool" where
  "gate_ok g \<longleftrightarrow>
     (ag_recreating (gw_stream g) \<longleftrightarrow> ag_pc (gw_stream g) \<noteq> NoRecreate)
     \<and> (ag_redo (gw_stream g) \<longrightarrow> ag_recreating (gw_stream g))"

definition ids_ok :: "agg_world \<Rightarrow> bool" where
  "ids_ok g \<longleftrightarrow>
     ag_watchID (gw_stream g) \<in> set (gw_known g)
     \<and> (case ag_pc (gw_stream g) of
          Creating p \<Rightarrow> p = ag_watchID (gw_stream g)
            \<and> (case gw_answer g of Some (w, _) \<Rightarrow> w \<noteq> p \<and> w \<in> set (gw_known g) | None \<Rightarrow> True)
        | Created p w _ \<Rightarrow> p = ag_watchID (gw_stream g) \<and> w \<noteq> p \<and> w \<in> set (gw_known g)
        | _ \<Rightarrow> True)"

definition agg_inv :: "agg_world \<Rightarrow> bool" where
  "agg_inv g \<longleftrightarrow> gate_ok g \<and> ids_ok g
     \<and> (\<not> agg_closed g \<longrightarrow> gw_releasing g = [] \<and> (\<not> gw_missed g \<longrightarrow> gw_up g \<longrightarrow> on_its_way g))"

lemmas agg_defs = on_stream_def destroy_live_def agg_closed_def hooked_def trigger_def agg_recreate_def agg_begin_def agg_answer_def
  agg_install_def agg_turn_def on_aggregation_def superseded_def Let_def

lemma agg_emit_closed [simp]: "wt_closed (fst (emit v s)) = wt_closed s"
  by (simp add: emit_def publish_def Let_def)

lemma addUnsub_closed [simp]: "wt_closed (addUnsub u s) = wt_closed s"
  by (simp add: addUnsub_def)

lemma agg_inv_start: "agg_inv (agg_start wid agg)"
  by (simp add: agg_inv_def gate_ok_def ids_ok_def on_its_way_def agg_start_def WatchAggregation_def)

text \<open>The gate and the ids.\<close>

lemma agg_gate_step: "gate_ok g \<Longrightarrow> gate_ok (agg_do m g)"
  by (cases m)
    (auto simp: gate_ok_def agg_defs agg_close_def agg_release_next_def Close_def
      split: list.split option.split prod.split agg_pc.split nat.split)

lemma ids_step: "ids_ok g \<Longrightarrow> ids_ok (agg_do m g)"
proof (cases m)
  case (Serve w agg)
  then show "ids_ok g \<Longrightarrow> ids_ok (agg_do m g)" by (auto simp: ids_ok_def agg_defs split: agg_pc.splits option.splits)
qed (auto simp: ids_ok_def agg_defs agg_close_def agg_release_next_def Close_def
      split: list.splits option.splits prod.splits agg_pc.splits nat.splits)

text \<open>A trigger that is heard keeps a re-creation on its way; one that is not heard is noted.\<close>

lemma heard_trigger:
  assumes "\<not> agg_closed (trigger u g)" "\<not> gw_missed (trigger u g)"
  shows "on_its_way (trigger u g)"
  using assms by (auto simp: trigger_def on_its_way_def agg_closed_def split: if_splits)

lemma agg_closed_stays: "agg_closed g \<Longrightarrow> agg_closed (agg_do m g)"
  by (cases m)
    (auto simp: agg_defs agg_close_def agg_release_next_def Close_def
      split: list.split option.split prod.split agg_pc.split nat.split)

lemma missed_stays: "gw_missed g \<Longrightarrow> gw_missed (agg_do m g)"
  by (cases m)
    (auto simp: agg_defs agg_close_def agg_release_next_def Close_def
      split: list.split option.split prod.split agg_pc.split nat.split)

lemma releasing_step: "\<not> agg_closed (agg_do m g) \<Longrightarrow> gw_releasing g = [] \<Longrightarrow> gw_releasing (agg_do m g) = []"
  by (cases m)
    (auto simp: agg_defs agg_close_def agg_release_next_def Close_def
      split: list.splits option.splits prod.splits agg_pc.splits nat.splits if_splits)

lemma way_step:
  assumes gate: "gate_ok g" and ids: "ids_ok g" and rel: "gw_releasing g = []"
    and open_g: "\<not> agg_closed (agg_do m g)" and told: "\<not> gw_missed (agg_do m g)" and up: "gw_up (agg_do m g)"
    and way: "gw_up g \<Longrightarrow> on_its_way g"
  shows "on_its_way (agg_do m g)"
proof (cases m)
  case Authenticate
  then show ?thesis using heard_trigger [of OffAuthenticated "g\<lparr>gw_up := True\<rparr>"] open_g told way by (auto split: if_splits)
next
  case Rotate
  then show ?thesis using heard_trigger [of OffRotated "g\<lparr>gw_live := []\<rparr>"] open_g told up by (auto split: if_splits)
next
  case Lose
  then show ?thesis using up by simp
next
  case Close_Agg
  then show ?thesis using open_g way up by (auto simp: agg_close_def agg_defs Close_def on_its_way_def split: if_splits)
next
  case Release_Next
  then show ?thesis using rel way up by (simp add: agg_release_next_def)
next
  case Run_Goroutine
  then show ?thesis using way up gate
    by (auto simp: on_its_way_def agg_defs gate_ok_def split: nat.splits agg_pc.splits option.splits)
next
  case Begin_Once
  then show ?thesis using way up open_g
    by (auto simp: on_its_way_def agg_defs split: agg_pc.splits option.splits)
next
  case (Serve w agg)
  then show ?thesis using way up
    by (auto simp: on_its_way_def agg_defs split: agg_pc.splits option.splits)
next
  case Take_Answer
  then show ?thesis using way up open_g
    by (auto simp: on_its_way_def agg_defs split: agg_pc.splits option.splits)
next
  case No_Answer
  then show ?thesis using way up by (auto simp: on_its_way_def agg_defs split: agg_pc.splits option.splits)
next
  case Install
  then show ?thesis using way up ids by (auto simp: on_its_way_def agg_defs ids_ok_def split: agg_pc.splits)
next
  case Turn
  then show ?thesis using way up open_g by (auto simp: on_its_way_def agg_defs split: agg_pc.splits)
next
  case (Frame w u)
  then show ?thesis using way up by (auto simp: on_its_way_def agg_defs split: agg_pc.splits option.splits)
next
  case Register
  then show ?thesis using way up by (auto simp: on_its_way_def agg_defs split: list.splits agg_pc.splits option.splits)
next
  case First_Value
  then show ?thesis using way up by (auto simp: on_its_way_def agg_defs split: list.splits agg_pc.splits option.splits)
qed

lemma agg_inv_step:
  assumes "agg_inv g"
  shows "agg_inv (agg_do m g)"
proof -
  have g: "gate_ok g" "ids_ok g" using assms by (simp_all add: agg_inv_def)
  have "gw_releasing (agg_do m g) = [] \<and> (\<not> gw_missed (agg_do m g) \<longrightarrow> gw_up (agg_do m g) \<longrightarrow> on_its_way (agg_do m g))"
    if o': "\<not> agg_closed (agg_do m g)"
  proof -
    have o: "\<not> agg_closed g" using agg_closed_stays o' by blast
    then have rel: "gw_releasing g = []" and way: "\<not> gw_missed g \<Longrightarrow> gw_up g \<Longrightarrow> on_its_way g"
      using assms by (simp_all add: agg_inv_def)
    have "on_its_way (agg_do m g)" if t: "\<not> gw_missed (agg_do m g)" "gw_up (agg_do m g)"
      by (rule way_step [OF g rel o' t]) (use way missed_stays t(1) in blast)
    then show ?thesis using releasing_step [OF o' rel] by blast
  qed
  then show ?thesis using agg_gate_step [OF g(1)] ids_step [OF g(2)] by (simp add: agg_inv_def)
qed

lemma agg_inv_run: "agg_inv g \<Longrightarrow> agg_inv (agg_run ms g)"
  by (induction ms arbitrary: g) (simp_all add: agg_inv_step)


text \<open>A rotation while a re-creation is in flight: the first new watch dies with its connection, the second is kept.\<close>


text \<open>A rotation while a re-creation is in flight: the first new watch dies with its connection, the second is kept.\<close>

definition plain_aggregation :: PathAggregation where
  "plain_aggregation =
     \<lparr>pa_Prefix = [], pa_TotalEquityUsd = ''1'', pa_DepartingUsd = [], pa_ArrivingUsd = [], pa_Breakdown = [], pa_AsOf = [],
      pa_AvailableIntervals = [], pa_CumInflowsUsd = [], pa_CumOutflowsUsd = []\<rparr>"

definition open_agg :: "agg_move list" where
  "open_agg = [Register, Register, Register, Register, First_Value]"

definition rotated_twice :: "agg_move list" where
  "rotated_twice = open_agg @ [Lose, Authenticate, Run_Goroutine, Begin_Once, Serve ''w2'' plain_aggregation, Rotate,
     Run_Goroutine, Take_Answer, Install, Turn, Begin_Once, Serve ''w3'' plain_aggregation, Take_Answer, Install, Turn]"


text \<open>The gate of the re-creation is the shared one, so every trigger has a run that starts at or after it.\<close>

interpretation agg_recreation: coalescing_gate ag_recreating ag_redo "\<lambda>s. wt_closed (ag_base s)"
  "\<lambda>s. (agg_recreate s, \<not> ag_recreating s)" "\<lambda>s. (agg_turn s, ag_recreating (agg_turn s))"
  by unfold_locales (auto simp: agg_recreate_def agg_turn_def Let_def)

lemma agg_trigger_runs:
  assumes "\<not> wt_closed (ag_base s)" "\<not> ag_recreating (fst (agg_recreation.run_gate es s))" "i < length es" "es ! i = Trigger"
  shows "\<exists>j\<ge>i. j < length es \<and> snd (agg_recreation.run_gate es s) ! j"
  by (rule agg_recreation.every_trigger_runs [OF assms])

section \<open>Where the watch is lost\<close>

text \<open>A re-creation that fails is not tried again: the stream is open and quiet until the next connection change.\<close>

lemma failed_recreation_is_not_retried:
  "let g = agg_run (open_agg @ [Lose, Authenticate, Run_Goroutine, Begin_Once, No_Answer, Turn]) (agg_start ''w1'' plain_aggregation) in
     \<not> agg_closed g \<and> gw_up g \<and> gw_spawned g = 0 \<and> \<not> ag_recreating (gw_stream g) \<and> \<not> gw_missed g \<and> gw_live g = []
     \<and> wt_state (ag_base (gw_stream g)) = WatchConnected"
  by code_simp

text \<open>A stream closed while its request is out destroys the watch it knows; the one the server makes stays.\<close>

lemma close_during_recreation_leaks_the_watch:
  "let g = agg_run (open_agg @ [Rotate, Run_Goroutine, Begin_Once, Serve ''w2'' plain_aggregation, Close_Agg, Release_Next,
       Release_Next, Release_Next, Release_Next, Take_Answer, Turn]) (agg_start ''w1'' plain_aggregation) in
     agg_closed g \<and> gw_releasing g = [] \<and> \<not> ag_recreating (gw_stream g) \<and> gw_live g = [''w2'']"
  by code_simp

text \<open>A reconnect between the creation of the watch and the registration of the hooks is not noticed.\<close>

lemma reconnect_before_hooks_is_missed:
  "let g = agg_run ([Lose, Authenticate] @ open_agg) (agg_start ''w1'' plain_aggregation) in
     \<not> agg_closed g \<and> gw_up g \<and> gw_spawned g = 0 \<and> \<not> ag_recreating (gw_stream g) \<and> \<not> gw_failed g \<and> gw_live g = []"
  by code_simp

section \<open>Realm-wide exchange updates\<close>

record RealmExchangeUpdate =
  ru_ObjectID :: gostring
  ru_ObjectPath :: gostring
  ru_State :: "ExchangeState option"
  ru_Resync :: bool

datatype realm_exchange_release = OffNotification | OffGap | OffAuth | UnsubscribeEvents_Release

record RealmExchangeWatchStream =
  rx_base :: "(RealmExchangeUpdate, realm_exchange_release) WatchStream"
  rx_started :: bool
  rx_haveAuth :: bool

definition WatchRealmExchange :: RealmExchangeWatchStream where
  "WatchRealmExchange =
     \<lparr>rx_base = addUnsub UnsubscribeEvents_Release (addUnsub OffAuth (addUnsub OffGap (addUnsub OffNotification newWatchStream))),
      rx_started = False, rx_haveAuth = False\<rparr>"

definition realm_resync :: RealmExchangeUpdate where
  "realm_resync = \<lparr>ru_ObjectID = [], ru_ObjectPath = [], ru_State = None, ru_Resync = True\<rparr>"

definition realm_update :: "StreamEvent \<Rightarrow> RealmExchangeUpdate" where
  "realm_update ev =
     \<lparr>ru_ObjectID = ev_EntityID ev, ru_ObjectPath = ev_EntityPath ev, ru_State = ev_ExchangeState ev, ru_Resync = False\<rparr>"

text \<open>An emission, and what a consumer is given of it.\<close>

definition rx_emit :: "RealmExchangeUpdate \<Rightarrow> RealmExchangeWatchStream \<Rightarrow> RealmExchangeWatchStream \<times> RealmExchangeUpdate list" where
  "rx_emit u s = (s\<lparr>rx_base := fst (emit u (rx_base s))\<rparr>, if wt_closed (rx_base s) then [] else [u])"

definition rx_start :: "RealmExchangeWatchStream \<Rightarrow> RealmExchangeWatchStream" where
  "rx_start s = s\<lparr>rx_started := True\<rparr>"

definition rx_onEvent :: "StreamEvent \<Rightarrow> RealmExchangeWatchStream \<Rightarrow> RealmExchangeWatchStream \<times> RealmExchangeUpdate list" where
  "rx_onEvent ev s = (if \<not> rx_started s then (s, []) else rx_emit (realm_update ev) s)"

definition rx_onAuthenticated :: "RealmExchangeWatchStream \<Rightarrow> RealmExchangeWatchStream \<times> RealmExchangeUpdate list" where
  "rx_onAuthenticated s =
     (let first = \<not> rx_haveAuth s; s1 = s\<lparr>rx_haveAuth := True\<rparr> in
      if \<not> rx_started s \<or> first then (s1, []) else rx_emit realm_resync s1)"

definition rx_onLoss :: "RealmExchangeWatchStream \<Rightarrow> RealmExchangeWatchStream \<times> RealmExchangeUpdate list" where
  "rx_onLoss s = (if \<not> rx_started s then (s, []) else rx_emit realm_resync s)"

datatype rx_event = Attach | Notified StreamEvent | Reauthenticated | Gap | CloseRx

fun rx_step :: "rx_event \<Rightarrow> RealmExchangeWatchStream \<Rightarrow> RealmExchangeWatchStream \<times> RealmExchangeUpdate list" where
  "rx_step Attach s = (rx_start s, [])"
| "rx_step (Notified ev) s = rx_onEvent ev s"
| "rx_step Reauthenticated s = rx_onAuthenticated s"
| "rx_step Gap s = rx_onLoss s"
| "rx_step CloseRx s = (s\<lparr>rx_base := fst (Close (rx_base s))\<rparr>, [])"

fun rx_run :: "rx_event list \<Rightarrow> RealmExchangeWatchStream \<Rightarrow> RealmExchangeWatchStream \<times> RealmExchangeUpdate list" where
  "rx_run [] s = (s, [])"
| "rx_run (e # es) s = (case rx_step e s of (s1, us) \<Rightarrow> case rx_run es s1 of (s2, us') \<Rightarrow> (s2, us @ us'))"

text \<open>What the documentation promises for an event: one update, or one request to read again.\<close>

definition promised :: "rx_event \<Rightarrow> RealmExchangeUpdate list" where
  "promised e = (case e of Notified ev \<Rightarrow> [realm_update ev] | Reauthenticated \<Rightarrow> [realm_resync] | Gap \<Rightarrow> [realm_resync] | _ \<Rightarrow> [])"

lemma rx_closed_quiet: "wt_closed (rx_base s) \<Longrightarrow> snd (rx_run es s) = []"
proof (induction es arbitrary: s)
  case (Cons e es)
  have "wt_closed (rx_base (fst (rx_step e s))) \<and> snd (rx_step e s) = []"
    using Cons.prems by (cases e) (auto simp: rx_start_def rx_onEvent_def rx_onAuthenticated_def rx_onLoss_def rx_emit_def Close_def Let_def)
  then show ?case using Cons.IH [of "fst (rx_step e s)"] by (simp add: case_prod_beta)
qed simp

lemma rx_promise_kept:
  assumes "rx_started s" "rx_haveAuth s" "\<not> wt_closed (rx_base s)"
  shows "snd (rx_run es s) = concat (map promised (takeWhile (\<lambda>e. e \<noteq> CloseRx) es))"
  using assms
proof (induction es arbitrary: s)
  case (Cons e es)
  show ?case
  proof (cases "e = CloseRx")
    case True
    then show ?thesis using rx_closed_quiet [of "fst (rx_step CloseRx s)" es] Cons.prems by (simp add: case_prod_beta Close_def)
  next
    case False
    have "rx_started (fst (rx_step e s)) \<and> rx_haveAuth (fst (rx_step e s)) \<and> \<not> wt_closed (rx_base (fst (rx_step e s)))
        \<and> snd (rx_step e s) = promised e"
      using Cons.prems False
      by (cases e) (auto simp: rx_start_def rx_onEvent_def rx_onAuthenticated_def rx_onLoss_def rx_emit_def promised_def Let_def)
    then show ?thesis using Cons.IH [of "fst (rx_step e s)"] False by (simp add: case_prod_beta)
  qed
qed simp

text \<open>A stream opened on a connection that is authenticated already takes its first reconnect for the handshake.\<close>

lemma first_reconnect_is_swallowed:
  "snd (rx_run [Attach, Notified ev, Reauthenticated] WatchRealmExchange) = [realm_update ev]"
  "concat (map promised [Attach, Notified ev, Reauthenticated]) = [realm_update ev, realm_resync]"
  by (simp_all add: rx_start_def rx_onEvent_def rx_onAuthenticated_def rx_emit_def promised_def WatchRealmExchange_def
      addUnsub_def newWatchStream_def Let_def)

section \<open>Several objects\<close>

text \<open>
  One child stream per path, known by its place on the desk, merged by path.  Each path comes with the readiness of the
  client when its turn comes (false where \<^verbatim>\<open>ensureReady\<close> fails).
\<close>

datatype objects_release = OffChild nat | CloseChild nat

record ObjectsWatchStream =
  os_base :: "(gostring \<rightharpoonup> ObjectValuation, objects_release) WatchStream"
  os_byPath :: "gostring \<rightharpoonup> ObjectValuation"
  os_children :: "nat list"

fun watch_children :: "(gostring \<times> bool) list \<Rightarrow> ObjectsWatchStream \<Rightarrow> desk \<Rightarrow> ObjectsWatchStream option \<times> desk" where
  "watch_children [] s d = (Some s, d)"
| "watch_children ((p, ready) # ps) s d =
     (if \<not> ready then (None, d)
      else (let i = length (dk_feeds d) in
            watch_children ps (s\<lparr>os_children := os_children s @ [i], os_base := addUnsub (OffChild i) (os_base s)\<rparr>) (WatchObject p d)))"

definition WatchObjects :: "(gostring \<times> bool) list \<Rightarrow> desk \<Rightarrow> ObjectsWatchStream option \<times> desk" where
  "WatchObjects ps d =
     (case watch_children ps \<lparr>os_base = newWatchStream, os_byPath = Map.empty, os_children = []\<rparr> d of
        (None, d1) \<Rightarrow> (None, d1)
      | (Some s, d1) \<Rightarrow> (Some (s\<lparr>os_base := fold (\<lambda>i. addUnsub (CloseChild i)) (os_children s) (os_base s)\<rparr>), d1))"

text \<open>The callback on a child, and closing.\<close>

definition objects_update :: "ObjectValuation \<Rightarrow> ObjectsWatchStream \<Rightarrow> ObjectsWatchStream" where
  "objects_update v s =
     (let m = (os_byPath s)(oval_Path v \<mapsto> v) in s\<lparr>os_byPath := m, os_base := fst (emit m (os_base s))\<rparr>)"

definition close_objects :: "ObjectsWatchStream \<Rightarrow> desk \<Rightarrow> ObjectsWatchStream \<times> desk" where
  "close_objects s d =
     (case Close (os_base s) of (b, es) \<Rightarrow>
        (s\<lparr>os_base := b\<rparr>, fold (\<lambda>u. case u of OffChild _ \<Rightarrow> (\<lambda>d. d) | CloseChild i \<Rightarrow> close_feed i) (releases es) d))"

definition children_closed :: "nat list \<Rightarrow> desk \<Rightarrow> bool" where
  "children_closed is d \<longleftrightarrow> (\<forall>i \<in> set is. i < length (dk_feeds d) \<and> wt_closed (fd_base (dk_feeds d ! i)))"

lemma close_feed_length [simp]: "length (dk_feeds (close_feed i d)) = length (dk_feeds d)"
  by (simp add: close_feed_def Let_def case_prod_beta)

lemma close_feed_closed: "i < length (dk_feeds d) \<Longrightarrow> wt_closed (fd_base (dk_feeds (close_feed i d) ! i))"
  using close_self [of i _ _ _ d] by (simp add: feed_at_def)

lemma close_feed_keeps: "i < length (dk_feeds d) \<Longrightarrow> wt_closed (fd_base (dk_feeds d ! i)) \<Longrightarrow> wt_closed (fd_base (dk_feeds (close_feed j d) ! i))"
  using close_other [of i _ _ True d j] close_feed_closed [of i d] by (cases "j = i") (simp_all add: feed_at_def)

abbreviation run_objects_release :: "objects_release \<Rightarrow> desk \<Rightarrow> desk" where
  "run_objects_release u d \<equiv> (case u of OffChild _ \<Rightarrow> d | CloseChild i \<Rightarrow> close_feed i d)"

lemma releases_length: "length (dk_feeds (fold (\<lambda>u. case u of OffChild _ \<Rightarrow> (\<lambda>d. d) | CloseChild i \<Rightarrow> close_feed i) us d)) = length (dk_feeds d)"
  by (induction us arbitrary: d) (auto split: objects_release.split)

lemma releases_keep:
  "i < length (dk_feeds d) \<Longrightarrow> wt_closed (fd_base (dk_feeds d ! i)) \<Longrightarrow>
     wt_closed (fd_base (dk_feeds (fold (\<lambda>u. case u of OffChild _ \<Rightarrow> (\<lambda>d. d) | CloseChild i \<Rightarrow> close_feed i) us d) ! i))"
  by (induction us arbitrary: d) (auto simp: close_feed_keeps split: objects_release.split)

lemma releases_close:
  "CloseChild i \<in> set us \<Longrightarrow> i < length (dk_feeds d) \<Longrightarrow>
     wt_closed (fd_base (dk_feeds (fold (\<lambda>u. case u of OffChild _ \<Rightarrow> (\<lambda>d. d) | CloseChild i \<Rightarrow> close_feed i) us d) ! i))"
proof (induction us arbitrary: d)
  case (Cons u us)
  show ?case
  proof (cases "u = CloseChild i")
    case True
    then show ?thesis using releases_keep [of i "close_feed i d" us] close_feed_closed [of i d] Cons.prems by simp
  next
    case False
    then show ?thesis using Cons.IH [of "run_objects_release u d"] Cons.prems by (cases u) simp_all
  qed
qed simp

lemma watch_children_opened:
  assumes "watch_children ps s d = (Some s', d')" "\<not> wt_closed (os_base s)" "\<forall>i \<in> set (os_children s). i < length (dk_feeds d)"
  shows "\<not> wt_closed (os_base s') \<and> (\<forall>i \<in> set (os_children s'). i < length (dk_feeds d'))
    \<and> length (dk_feeds d') = length (dk_feeds d) + length ps \<and> length (os_children s') = length (os_children s) + length ps"
  using assms
proof (induction ps arbitrary: s d)
  case (Cons x ps)
  obtain p ready where x: "x = (p, ready)" by force
  have len: "length (dk_feeds (WatchObject p d)) = Suc (length (dk_feeds d))" by (simp add: WatchObject_def open_feed_fields)
  show ?case
    using Cons.IH [of "s\<lparr>os_children := os_children s @ [length (dk_feeds d)], os_base := addUnsub (OffChild (length (dk_feeds d))) (os_base s)\<rparr>"
        "WatchObject p d"] Cons.prems x len
    by (auto simp: Let_def less_Suc_eq split: if_splits)
qed simp

lemma addUnsubs_unsubs:
  "wt_unsubs (fold (\<lambda>i. addUnsub (CloseChild i)) is b) = wt_unsubs b @ map CloseChild is \<and> wt_closed (fold (\<lambda>i. addUnsub (CloseChild i)) is b) = wt_closed b"
  by (induction "is" arbitrary: b) (simp_all add: addUnsub_def)

text \<open>A stream over several objects that opened has one child per path, and closing it closes them all.\<close>

lemma closing_objects_closes_children:
  assumes "WatchObjects ps d = (Some s, d')" "length (dk_feeds d') \<le> length (dk_feeds d2)"
    and "os_children s2 = os_children s" "wt_unsubs (os_base s2) = wt_unsubs (os_base s)" "\<not> wt_closed (os_base s2)"
  shows "length (os_children s) = length ps \<and> children_closed (os_children s) (snd (close_objects s2 d2))"
proof -
  let ?s0 = "\<lparr>os_base = newWatchStream, os_byPath = Map.empty, os_children = []\<rparr> :: ObjectsWatchStream"
  obtain s1 where s1: "watch_children ps ?s0 d = (Some s1, d')"
    "s = s1\<lparr>os_base := fold (\<lambda>i. addUnsub (CloseChild i)) (os_children s1) (os_base s1)\<rparr>"
    using assms(1) by (auto simp: WatchObjects_def split: prod.splits option.splits)
  have s0: "\<not> wt_closed (os_base ?s0)" "\<forall>i \<in> set (os_children ?s0). i < length (dk_feeds d)" by (simp_all add: newWatchStream_def)
  note all = watch_children_opened [OF s1(1) s0]
  have "\<forall>i \<in> set (os_children s1). i < length (dk_feeds d')" using all by blast
  moreover have "length (os_children s1) = length ps" using all by simp
  ultimately have o: "(\<forall>i \<in> set (os_children s1). i < length (dk_feeds d')) \<and> length (os_children s1) = length ps" by blast
  have un: "CloseChild i \<in> set (wt_unsubs (os_base s2))" if "i \<in> set (os_children s)" for i
    using that assms(4) s1(2) addUnsubs_unsubs [of "os_children s1" "os_base s1"] by simp
  have "wt_closed (fd_base (dk_feeds (snd (close_objects s2 d2)) ! i)) \<and> i < length (dk_feeds (snd (close_objects s2 d2)))"
    if i: "i \<in> set (os_children s)" for i
  proof -
    have "i < length (dk_feeds d2)" using o i s1(2) assms(2) by fastforce
    then show ?thesis using releases_close [OF un [OF i]] assms(5) by (simp add: close_objects_def Close_def releases_length)
  qed
  then show ?thesis using o s1(2) by (simp add: children_closed_def)
qed

text \<open>When a later path fails, the children opened before it stay open and nobody holds them.\<close>

lemma failed_objects_leak_children:
  "case WatchObjects [(''/a'', True), (''/b'', False)] new_desk of
     (r, d) \<Rightarrow> r = None \<and> length (dk_feeds d) = 1 \<and> \<not> wt_closed (fd_base (dk_feeds d ! 0))
       \<and> count_of (dk_subs (land_path 0 d)) (PathCount ''/a'') = 1"
  by code_simp


end
