(* ===== verification/Spec2Isabelle.thy ===== *)
theory Spec2Isabelle
  imports Arca_Prelude Go_Numbers Go_Json Decimals Revalue Accounting Execution Receipts Api_Errors Http_Client Subscriptions Connection Order_Stream
    Go_Time Candle_Cdn History_Cache Cached_Reads Market_Meta Go_Float Ladder Money_Figures
    Watch_Stream Gates Realm_Fills Exchange_Watch Projection_Watch
    Sse_Frames Observation_Feed Wallet_Wire Wallet_Feeds Funding_Moves Session Operation_Wait
    Go_ParseFloat Sdk_Calls Trading_Orders Venue_Hops Ws_Requests Quiescence Order_Math
    Realm_Wire Event_Dispatch Watch_Feeds Live_Watches
begin

text \<open>
  Verification of the Arca Go SDK (package \<^verbatim>\<open>arca\<close>, the \<^verbatim>\<open>.go\<close> files
  under \<^verbatim>\<open>src/\<close>).

  \<^bold>\<open>The program.\<close> The SDK is a client of the Arca platform. A call goes from a method
  (\<^verbatim>\<open>exchange.go\<close>, \<^verbatim>\<open>operations.go\<close>,
  \<^verbatim>\<open>venue_hop.go\<close>, \<^verbatim>\<open>funding_v9.go\<close>, ...) through the session
  (\<^verbatim>\<open>arca.go\<close>: realm, credential, refresh) to the HTTP client
  (\<^verbatim>\<open>client.go\<close>: envelope, retries, step-up), which maps failures to typed errors
  (\<^verbatim>\<open>errors.go\<close>). Realtime delivery comes over a web socket
  (\<^verbatim>\<open>websocket.go\<close>: connection, subscription registry, correlated requests, listeners) and feeds
  the watch streams (\<^verbatim>\<open>streams.go\<close>, \<^verbatim>\<open>order_stream.go\<close>), or over
  server-sent events (\<^verbatim>\<open>address_observation.go\<close>, \<^verbatim>\<open>cash_v9_stream.go\<close>,
  \<^verbatim>\<open>funding_v9.go\<close>). Submitted work is followed through handles and receipts
  (\<^verbatim>\<open>operation.go\<close>, \<^verbatim>\<open>order_execution.go\<close>,
  \<^verbatim>\<open>execution_receipt.go\<close>). Beside them stand computations: money in exact decimals
  (\<^verbatim>\<open>money_figure.go\<close>, \<^verbatim>\<open>revalue.go\<close>), composition of executions the
  ledger has not recorded (\<^verbatim>\<open>accounting_pending.go\<close>), order arithmetic
  (\<^verbatim>\<open>orderbreakdown.go\<close>), candles and charts (\<^verbatim>\<open>candlecdn.go\<close>,
  \<^verbatim>\<open>ladder.go\<close>, \<^verbatim>\<open>cache.go\<close>, \<^verbatim>\<open>marketdata.go\<close>)
  and co-signing (\<^verbatim>\<open>cosign.go\<close>, \<^verbatim>\<open>custody.go\<close>).

  \<^bold>\<open>The Go library.\<close>

  \<^item> \<^theory_text>\<open>Arca_Prelude\<close>: \<^verbatim>\<open>strings\<close> on byte strings, shared lemmas
    on lists and maps.
  \<^item> \<^theory_text>\<open>Go_Numbers\<close>: \<^verbatim>\<open>math/big\<close> integers and rationals with
    their texts.
  \<^item> \<^theory_text>\<open>Go_Json\<close>: \<^verbatim>\<open>encoding/json\<close> decoding.
  \<^item> \<^theory_text>\<open>Go_Time\<close>: the calendar and RFC 3339.
  \<^item> \<^theory_text>\<open>Go_Float\<close>, \<^theory_text>\<open>Go_ParseFloat\<close>: doubles as rounded
    rationals and their texts.

  \<^bold>\<open>Money and computations.\<close>

  \<^item> \<^theory_text>\<open>Decimals\<close> (\<^verbatim>\<open>money_figure.go\<close>,
    \<^verbatim>\<open>revalue.go\<close>): micro-USDC strings and \<^verbatim>\<open>dec\<close>; exact through print
    and parse.
  \<^item> \<^theory_text>\<open>Revalue\<close>: re-marking a projected row; figures move by exactly the change of P&L.
  \<^item> \<^theory_text>\<open>Accounting\<close> (\<^verbatim>\<open>accounting_pending.go\<close>): composed
    positions refine a signed book; malformed entries change nothing.
  \<^item> \<^theory_text>\<open>Money_Figures\<close> (\<^verbatim>\<open>money_figure.go\<close>): the figures of a
    wallet and the legs between them follow the placement rules.
  \<^item> \<^theory_text>\<open>Order_Math\<close> (\<^verbatim>\<open>orderbreakdown.go\<close>, part of
    \<^verbatim>\<open>exchange.go\<close>): breakdown, merge with a position, minimum and validation of a size.

  \<^bold>\<open>Calls.\<close>

  \<^item> \<^theory_text>\<open>Api_Errors\<close>, \<^theory_text>\<open>Http_Client\<close>: typed errors, envelope,
    bounded retries; a mutation is never re-sent blindly.
  \<^item> \<^theory_text>\<open>Session\<close> (\<^verbatim>\<open>arca.go\<close>): realm resolution and the
    single-flight refresh.
  \<^item> \<^theory_text>\<open>Sdk_Calls\<close>: a call as a function of the SDK's state that keeps the requests it
    made.
  \<^item> \<^theory_text>\<open>Trading_Orders\<close> (\<^verbatim>\<open>exchange.go\<close>,
    \<^verbatim>\<open>order_attach.go\<close>): placing, closing, triggers, brackets, attachment.
  \<^item> \<^theory_text>\<open>Cosign\<close>, \<^theory_text>\<open>Venue_Hops\<close>
    (\<^verbatim>\<open>cosign.go\<close>, \<^verbatim>\<open>custody.go\<close>,
    \<^verbatim>\<open>venue_hop.go\<close>): digests and what a hop signs.
  \<^item> \<^theory_text>\<open>Funding_Moves\<close>, \<^theory_text>\<open>Wallet_Wire\<close>
    (\<^verbatim>\<open>funding_v9.go\<close>, \<^verbatim>\<open>cash_v9.go\<close>): wallet wire types, moves and
    their lost-reply protocol.
  \<^item> \<^theory_text>\<open>Operation_Wait\<close> (\<^verbatim>\<open>arca.go\<close>) and
    \<^theory_text>\<open>Quiescence\<close> (\<^verbatim>\<open>operations.go\<close>): waits as step machines.

  \<^bold>\<open>Orders in flight.\<close>

  \<^item> \<^theory_text>\<open>Execution\<close>, \<^theory_text>\<open>Receipts\<close>
    (\<^verbatim>\<open>operation.go\<close>, \<^verbatim>\<open>order_execution.go\<close>,
    \<^verbatim>\<open>execution_receipt.go\<close>): evidence is sound, receipts are recovered faithfully, the wait
    ends with sound evidence or a genuine failure, fills are delivered once.
  \<^item> \<^theory_text>\<open>Order_Stream\<close> (\<^verbatim>\<open>order_stream.go\<close>): capture before
    submission, bounded replay, the lease on event types.

  \<^bold>\<open>Realtime.\<close>

  \<^item> \<^theory_text>\<open>Subscriptions\<close>: the registry and what the server was told; reference counting is
    a locale with an interpretation per counted map.
  \<^item> \<^theory_text>\<open>Connection\<close>: lifecycle, gaps and seamless rotation.
  \<^item> \<^theory_text>\<open>Ws_Requests\<close>: correlated requests.
  \<^item> \<^theory_text>\<open>Realm_Wire\<close>, \<^theory_text>\<open>Event_Dispatch\<close>
    (\<^verbatim>\<open>events.go\<close>, \<^verbatim>\<open>types.go\<close>,
    \<^verbatim>\<open>websocket.go\<close>): the events of a frame and the listeners that hear them.
  \<^item> \<^theory_text>\<open>Watch_Stream\<close>, \<^theory_text>\<open>Gates\<close>: the base of every stream and
    the coalescing gate they share.
  \<^item> \<^theory_text>\<open>Realm_Fills\<close>, \<^theory_text>\<open>Exchange_Watch\<close>,
    \<^theory_text>\<open>Projection_Watch\<close> (\<^verbatim>\<open>streams.go\<close>): no fill skipped, no state
    shown that goes back, rows that follow the server.
  \<^item> \<^theory_text>\<open>Watch_Feeds\<close>, \<^theory_text>\<open>Live_Watches\<close>
    (\<^verbatim>\<open>streams.go\<close>): the streams that forward one kind of event, show exactly what is
    theirs and return what they took; the aggregation watch, alive after every reconnect; the realm-wide exchange stream.
  \<^item> \<^theory_text>\<open>Sse_Frames\<close>, \<^theory_text>\<open>Observation_Feed\<close>,
    \<^theory_text>\<open>Wallet_Feeds\<close>: server-sent events, delivered once and resumed where they were
    acknowledged.

  \<^bold>\<open>Market data.\<close>

  \<^item> \<^theory_text>\<open>History_Cache\<close>, \<^theory_text>\<open>Cached_Reads\<close>
    (\<^verbatim>\<open>cache.go\<close>, \<^verbatim>\<open>marketdata.go\<close>,
    \<^verbatim>\<open>aggregation.go\<close>): the LRU cache and the reads through it.
  \<^item> \<^theory_text>\<open>Candle_Cdn\<close> (\<^verbatim>\<open>candlecdn.go\<close>),
    \<^theory_text>\<open>Market_Meta\<close> (\<^verbatim>\<open>marketdata.go\<close>),
    \<^theory_text>\<open>Ladder\<close> (\<^verbatim>\<open>ladder.go\<close>).

  \<^bold>\<open>How Go is represented.\<close> A struct is a record with the fields the code reads, in order; a decoder
  checks the others too. A critical section (a region under a mutex) is one step; goroutines, timers, the network and
  the consumer are the events of a step machine, and a theorem about it holds for every order of them. Callbacks are
  listed as the effects of the step that calls them. An error is the left side of a sum, a panic the value
  \<^const>\<open>None\<close> of an outer option. A Go map is a map or an association list; where its iteration order
  matters it is an argument. A Go string is its bytes; a JSON text is its parse or is read by a parser that is an
  argument. Machine integers stay in range where the code's inputs keep them there, otherwise their wrap-around or range
  check is written out. Doubles have no sign of zero and no fused operations. Clocks and random bytes are arguments;
  jitter is left out, since it only moves the time of a step. The request hook of the HTTP client is unset, as no
  constructor sets it.

  \<^bold>\<open>Loops.\<close> A loop that may not end is a \<^theory_text>\<open>partial_function\<close> (the pages
  of a projection) or the steps of a machine, and what must end is proved to: the candle chunks of a range, the bounded
  retries. Fuel appears only as the bounded numbers of the code itself: three tries of a read, twenty postponements of a
  promotion, 256 buffered events, thirty seconds of backoff.

  \<^bold>\<open>Not modelled.\<close> The calls of \<^verbatim>\<open>objects.go\<close>,
  \<^verbatim>\<open>admin.go\<close>, \<^verbatim>\<open>providers.go\<close>, \<^verbatim>\<open>money.go\<close>,
  \<^verbatim>\<open>twap.go\<close>, \<^verbatim>\<open>wallet_actions.go\<close>,
  \<^verbatim>\<open>permission_check.go\<close>, \<^verbatim>\<open>order_key.go\<close>,
  \<^verbatim>\<open>exchange_capabilities.go\<close> and most of \<^verbatim>\<open>cash_v9.go\<close>,
  \<^verbatim>\<open>funding_v9.go\<close> that resolve the realm, describe one request and decode one answer: each is
  \<^theory_text>\<open>sdk_ready\<close> followed by one request of \<^theory_text>\<open>Sdk_Calls\<close>, and
  nothing but the server gives them meaning. The best-effort helpers of \<^verbatim>\<open>revalue.go\<close> in
  \<^verbatim>\<open>float64\<close>. \<^verbatim>\<open>config.go\<close>, which wires the parts together. The BIP-39
  derivation of \<^verbatim>\<open>recovery.go\<close>, \<^verbatim>\<open>keccak256\<close> and the curve, which are
  third-party code. Examples, scripts and tests.
\<close>

end
